(* ===== verification/Go_Base.thy ===== *)
theory Go_Base
  imports Main "HOL-Library.Word" "HOL-Library.Monad_Syntax"
begin

text \<open>
  The prelude of the development: what the Go sources share before any component is modelled.

  \<^item> \<open>go_error\<close> is the type \<^verbatim>\<open>error\<close>. Each sentinel of the modelled packages is a constructor,
    \<open>Errorf\<close> is \<^verbatim>\<open>fmt.Errorf\<close> kept symbolic (the format, its rendered arguments, the error
    wrapped with \<^verbatim>\<open>%w\<close>), and \<open>ErrHost\<close> is an error made by code of the host application. A result
    of type \<^verbatim>\<open>error\<close> is a \<open>go_error option\<close>, \<open>None\<close> being \<^verbatim>\<open>nil\<close>; a result \<^verbatim>\<open>(T, error)\<close> is
    \<open>go_error + T\<close>.
  \<^item> \<open>gctx\<close> is what the sources read from a \<^verbatim>\<open>context.Context\<close>: its \<^verbatim>\<open>Err()\<close>, and the values the
    packages put in it.
  \<^item> \<open>gtime\<close> counts nanoseconds from Go's zero time, so \<^verbatim>\<open>IsZero\<close> is \<open>t = 0\<close>; a duration is an
    \<open>int\<close> of nanoseconds. A clock reading is an argument of the operation that takes it.
  \<^item> \<open>i64\<close> wraps an integer to 64 bits, signed; it stands at the increments of Go's \<^verbatim>\<open>int\<close> and
    \<^verbatim>\<open>int64\<close> counters. A \<^verbatim>\<open>uint64\<close> is a \<open>64 word\<close>.
  \<^item> Maps are partial functions. A \<^verbatim>\<open>range\<close> over a map visits the keys in an order the runtime
    chooses, so a loop over a map takes that order as a list of keys.
\<close>

section \<open>Text and bytes\<close>

type_synonym bytes = "char list"

text \<open>A Go string is its bytes, so it is a \<open>string\<close> and \<^verbatim>\<open>len\<close> is \<open>length\<close>.\<close>

section \<open>Errors\<close>

datatype ctx_cause = Canceled | DeadlineExceeded

datatype go_error =
    ErrContext ctx_cause
  | ErrNotFound
  | ErrStaleSnapshot
  | ErrStaleFence
  | ErrFenceRequired
  | ErrInvalidStatus
  | ErrInvalidTransition
  | ErrTenantMismatch
  | ErrTenantRequired
  | ErrInvalidToken
  | ErrPrincipalMissing
  | ErrInvalidLease
  | ErrJobNotFound
  | ErrStaleLease
  | ErrInvalidJob
  | ErrJobTenantMismatch
  | ErrJobTenantRequired
  | ErrDenied
  | ErrUnauthenticated
  | ErrWorkflowToolRateCapExceeded
  | RunPausedError string string
  | WorkflowPausedError string string string
  | ErrClassified string bool
  | ErrHost string
  | Errorf string "string list" "go_error option"

text \<open>\<^verbatim>\<open>errors.Is\<close>: the error itself or an error it wraps equals the target.\<close>

fun errors_is :: "go_error \<Rightarrow> go_error \<Rightarrow> bool" where
  "errors_is (Errorf f args (Some e)) target =
     (Errorf f args (Some e) = target \<or> errors_is e target)"
| "errors_is e target = (e = target)"

text \<open>\<^verbatim>\<open>errors.As\<close> for the type \<^verbatim>\<open>async.RunPausedError\<close>: its run id and token.\<close>

fun errors_as_paused :: "go_error \<Rightarrow> (string \<times> string) option" where
  "errors_as_paused (RunPausedError runID token) = Some (runID, token)"
| "errors_as_paused (Errorf f args (Some e)) = errors_as_paused e"
| "errors_as_paused e = None"

text \<open>\<^verbatim>\<open>errors.As\<close> for \<^verbatim>\<open>orchestration.WorkflowPausedError\<close>: run id, node id and token.\<close>

fun errors_as_workflow_paused :: "go_error \<Rightarrow> (string \<times> string \<times> string) option" where
  "errors_as_workflow_paused (WorkflowPausedError runID nodeID token) = Some (runID, nodeID, token)"
| "errors_as_workflow_paused (Errorf f args (Some e)) = errors_as_workflow_paused e"
| "errors_as_workflow_paused e = None"

text \<open>
  \<^verbatim>\<open>errors.As\<close> for an error with a method \<^verbatim>\<open>Retryable() bool\<close>: what the method returns. Such an error is
  \<open>ErrClassified\<close>.
\<close>

fun errors_as_classified :: "go_error \<Rightarrow> bool option" where
  "errors_as_classified (ErrClassified msg retryable) = Some retryable"
| "errors_as_classified (Errorf f args (Some e)) = errors_as_classified e"
| "errors_as_classified e = None"

section \<open>Time and machine integers\<close>

type_synonym gtime = int
type_synonym duration = int

definition i64 :: "int \<Rightarrow> int" where
  "i64 x = (x + 2 ^ 63) mod 2 ^ 64 - 2 ^ 63"

lemma i64_id [simp]: "- (2 ^ 63) \<le> x \<Longrightarrow> x < 2 ^ 63 \<Longrightarrow> i64 x = x"
  by (simp add: i64_def)

lemma i64_range: "- (2 ^ 63) \<le> i64 x \<and> i64 x < 2 ^ 63"
proof -
  have "0 \<le> (x + 2 ^ 63) mod 2 ^ 64" and "(x + 2 ^ 63) mod 2 ^ 64 < (2 ^ 64 :: int)"
    by simp_all
  then show ?thesis by (simp add: i64_def)
qed

section \<open>Contexts\<close>

text \<open>\<^verbatim>\<open>identity.Scope\<close> and \<^verbatim>\<open>identity.Principal\<close>, which a context may carry.\<close>

record scope =
  ScopeTenantID :: string
  ScopeWorkspaceID :: string
  ScopeProjectID :: string

record principal =
  PrincipalID :: string
  PrincipalType :: string
  PrincipalScope :: scope
  PrincipalRoles :: "string list"
  PrincipalMetadata :: "(string \<times> string) list"

record gctx =
  CtxErr :: "go_error option"
  CtxPrincipal :: "principal option"
  CtxPermissive :: bool
  CtxOverride :: bool
  CtxFence :: "64 word"

text \<open>\<^verbatim>\<open>context.Background()\<close>: live, no principal, tenant-strict, no override, no fence token.\<close>

definition Background :: gctx where
  "Background = \<lparr>CtxErr = None, CtxPrincipal = None, CtxPermissive = False,
     CtxOverride = False, CtxFence = 0\<rparr>"

section \<open>Collections of facts and shared lemmas\<close>

named_theorems defs \<open>definitions of the operations, unfolded by the component proofs\<close>

lemmas sum_option_splits = sum.splits option.splits if_splits prod.splits

lemma filter_take_prefix: "\<exists>n. take n xs = ys \<Longrightarrow> set ys \<subseteq> set xs"
  by (auto dest: in_set_takeD)

end
