(* ===== verification/Go_Text.thy ===== *)
theory Go_Text
  imports Go_Base "HOL-Library.Multiset"
begin

text \<open>
  The part of Go's standard library on text that the sources use: UTF-8 decoding as the
  \<^verbatim>\<open>range\<close> over a string does it (\<^verbatim>\<open>utf8.DecodeRune\<close>: an invalid byte is one rune U+FFFD of width
  one), the encoding back, \<^verbatim>\<open>strings.TrimSpace\<close>, \<^verbatim>\<open>strings.Fields\<close>, \<^verbatim>\<open>strings.HasPrefix\<close>,
  \<^verbatim>\<open>strings.HasSuffix\<close>, \<^verbatim>\<open>strings.Split\<close> on one character, \<^verbatim>\<open>strings.Join\<close>, and the decimal text
  of an integer. A string is a list of bytes; the text functions work on its list of segments,
  each a rune with the bytes it was read from.
\<close>

section \<open>UTF-8\<close>

type_synonym rune = nat

definition RuneError :: rune where
  "RuneError = 65533"

abbreviation byte :: "char \<Rightarrow> nat" where
  "byte c \<equiv> of_char c"

definition in_range :: "nat \<Rightarrow> nat \<Rightarrow> nat \<Rightarrow> bool" where
  "in_range lo hi x \<longleftrightarrow> lo \<le> x \<and> x \<le> hi"

text \<open>The range a second byte must be in after the first byte of a three or four byte rune.\<close>

definition second_lo :: "nat \<Rightarrow> nat" where
  "second_lo b0 = (if b0 = 224 then 160 else if b0 = 240 then 144 else 128)"

definition second_hi :: "nat \<Rightarrow> nat" where
  "second_hi b0 = (if b0 = 237 then 159 else if b0 = 244 then 143 else 191)"

fun decode_rune :: "string \<Rightarrow> rune \<times> nat" where
  "decode_rune [] = (RuneError, 0)"
| "decode_rune (c0 # cs) =
    (let b0 = byte c0 in
     if b0 < 128 then (b0, 1)
     else if in_range 194 223 b0 then
       (case cs of
          c1 # _ \<Rightarrow> if in_range 128 191 (byte c1)
                   then ((b0 - 192) * 64 + (byte c1 - 128), 2) else (RuneError, 1)
        | [] \<Rightarrow> (RuneError, 1))
     else if in_range 224 239 b0 then
       (case cs of
          c1 # c2 # _ \<Rightarrow>
            if in_range (second_lo b0) (second_hi b0) (byte c1) \<and> in_range 128 191 (byte c2)
            then ((b0 - 224) * 4096 + (byte c1 - 128) * 64 + (byte c2 - 128), 3)
            else (RuneError, 1)
        | _ \<Rightarrow> (RuneError, 1))
     else if in_range 240 244 b0 then
       (case cs of
          c1 # c2 # c3 # _ \<Rightarrow>
            if in_range (second_lo b0) (second_hi b0) (byte c1) \<and> in_range 128 191 (byte c2)
               \<and> in_range 128 191 (byte c3)
            then ((b0 - 240) * 262144 + (byte c1 - 128) * 4096 + (byte c2 - 128) * 64
                  + (byte c3 - 128), 4)
            else (RuneError, 1)
        | _ \<Rightarrow> (RuneError, 1))
     else (RuneError, 1))"

lemma decode_rune_width:
  "s \<noteq> [] \<Longrightarrow> 0 < snd (decode_rune s) \<and> snd (decode_rune s) \<le> length s"
  by (cases s) (auto simp: Let_def split: list.splits)

declare decode_rune.simps(2) [simp del]

text \<open>The runes of a string in order, each with its bytes.\<close>

function segments :: "string \<Rightarrow> (rune \<times> string) list" where
  "segments [] = []"
| "segments (c # cs) =
     (let (r, w) = decode_rune (c # cs)
      in (r, take w (c # cs)) # segments (drop w (c # cs)))"
  by pat_completeness auto
termination
proof (relation "measure length")
  show "wf (measure length)" by simp
next
  fix c cs z r w
  assume "z = decode_rune (c # cs)" and "(r, w) = z"
  then have "w = snd (decode_rune (c # cs))" by (metis snd_conv)
  then show "(drop w (c # cs), c # cs) \<in> measure length"
    using decode_rune_width [of "c # cs"] by simp
qed

declare segments.simps(2) [simp del]

definition runes :: "string \<Rightarrow> rune list" where
  "runes s = map fst (segments s)"

definition bytes_of :: "(rune \<times> string) list \<Rightarrow> string" where
  "bytes_of segs = concat (map snd segs)"

definition encode_rune :: "rune \<Rightarrow> string" where
  "encode_rune r0 =
     (let r = (if 1114111 < r0 \<or> in_range 55296 57343 r0 then RuneError else r0) in
      if r < 128 then [char_of r]
      else if r < 2048 then [char_of (192 + r div 64), char_of (128 + r mod 64)]
      else if r < 65536 then
        [char_of (224 + r div 4096), char_of (128 + (r div 64) mod 64), char_of (128 + r mod 64)]
      else [char_of (240 + r div 262144), char_of (128 + (r div 4096) mod 64),
            char_of (128 + (r div 64) mod 64), char_of (128 + r mod 64)])"

text \<open>The conversion \<^verbatim>\<open>string(runes)\<close>.\<close>

definition string_of_runes :: "rune list \<Rightarrow> string" where
  "string_of_runes rs = concat (map encode_rune rs)"

lemma bytes_of_simps [simp]:
  "bytes_of [] = []" "bytes_of (x # xs) = snd x @ bytes_of xs"
  "bytes_of (xs @ ys) = bytes_of xs @ bytes_of ys"
  by (simp_all add: bytes_of_def)

lemma segments_bytes [simp]: "bytes_of (segments s) = s"
proof (induction s rule: segments.induct)
  case (2 c cs)
  then show ?case
    by (cases "decode_rune (c # cs)") (simp add: segments.simps(2))
qed simp

lemma segments_nonempty: "x \<in> set (segments s) \<Longrightarrow> snd x \<noteq> []"
proof (induction s rule: segments.induct)
  case (2 c cs)
  then show ?case
    using decode_rune_width [of "c # cs"]
    by (cases "decode_rune (c # cs)") (auto simp: segments.simps(2))
qed simp

lemma length_segments: "length (segments s) \<le> length s"
proof (induction s rule: segments.induct)
  case (2 c cs)
  obtain r w where rw: "decode_rune (c # cs) = (r, w)" by fastforce
  with decode_rune_width [of "c # cs"] have "0 < w" by simp
  with 2 [OF rw [symmetric] refl] rw show ?case by (simp add: segments.simps(2))
qed simp

text \<open>An ASCII byte is a rune of its own.\<close>

lemma segments_ascii [simp]: "byte c < 128 \<Longrightarrow> segments (c # cs) = (byte c, [c]) # segments cs"
  by (simp add: segments.simps(2) decode_rune.simps(2))

section \<open>White space\<close>

text \<open>\<^verbatim>\<open>unicode.IsSpace\<close>.\<close>

definition is_space :: "rune \<Rightarrow> bool" where
  "is_space r \<longleftrightarrow> r \<in> {9, 10, 11, 12, 13, 32, 133, 160, 5760, 8232, 8233, 8239, 8287, 12288}
     \<or> in_range 8192 8202 r"

definition trim_segments :: "(rune \<Rightarrow> bool) \<Rightarrow> (rune \<times> string) list \<Rightarrow> (rune \<times> string) list" where
  "trim_segments p segs =
     rev (dropWhile (\<lambda>x. p (fst x)) (rev (dropWhile (\<lambda>x. p (fst x)) segs)))"

text \<open>\<^verbatim>\<open>strings.TrimSpace\<close> and \<^verbatim>\<open>bytes.TrimSpace\<close>.\<close>

definition trim_space :: "string \<Rightarrow> string" where
  "trim_space s = bytes_of (trim_segments is_space (segments s))"

text \<open>\<^verbatim>\<open>strings.Fields\<close>: the maximal runs of segments that are not white space.\<close>

fun fields_of :: "(rune \<times> string) list \<Rightarrow> string \<Rightarrow> string list" where
  "fields_of [] cur = (if cur = [] then [] else [cur])"
| "fields_of ((r, bs) # segs) cur =
     (if is_space r then (if cur = [] then fields_of segs [] else cur # fields_of segs [])
      else fields_of segs (cur @ bs))"

definition fields :: "string \<Rightarrow> string list" where
  "fields s = fields_of (segments s) []"

lemma trim_space_Nil [simp]: "trim_space [] = []"
  by (simp add: trim_space_def trim_segments_def)

lemma fields_of_nonempty: "x \<in> set (fields_of segs cur) \<Longrightarrow>
    (\<And>y. y \<in> set segs \<Longrightarrow> snd y \<noteq> []) \<Longrightarrow> x \<noteq> []"
  by (induction segs cur rule: fields_of.induct) (auto split: if_splits)

lemma length_fields_of: "length (fields_of segs cur) \<le> length segs + (if cur = [] then 0 else 1)"
  by (induction segs cur rule: fields_of.induct) (auto split: if_splits)

lemma length_fields: "length (fields s) \<le> length s"
  using length_fields_of [of "segments s" "[]"] length_segments [of s] by (simp add: fields_def)

section \<open>Searching, splitting and joining\<close>

definition has_prefix :: "string \<Rightarrow> string \<Rightarrow> bool" where
  "has_prefix s p \<longleftrightarrow> length p \<le> length s \<and> take (length p) s = p"

definition has_suffix :: "string \<Rightarrow> string \<Rightarrow> bool" where
  "has_suffix s p \<longleftrightarrow> length p \<le> length s \<and> drop (length s - length p) s = p"

text \<open>\<^verbatim>\<open>strings.Contains\<close>.\<close>

fun contains_str :: "string \<Rightarrow> string \<Rightarrow> bool" where
  "contains_str [] p = has_prefix [] p"
| "contains_str (c # cs) p = (has_prefix (c # cs) p \<or> contains_str cs p)"

text \<open>\<^verbatim>\<open>strings.Split\<close> by a separator of one character: never empty.\<close>

fun split_char :: "char \<Rightarrow> string \<Rightarrow> string list" where
  "split_char sep [] = [[]]"
| "split_char sep (c # cs) =
     (if c = sep then [] # split_char sep cs
      else (case split_char sep cs of [] \<Rightarrow> [[c]] | w # ws \<Rightarrow> (c # w) # ws))"

fun join_with :: "string \<Rightarrow> string list \<Rightarrow> string" where
  "join_with sep [] = []"
| "join_with sep [w] = w"
| "join_with sep (w # v # ws) = w @ sep @ join_with sep (v # ws)"

lemma has_prefix_append [simp]: "has_prefix (p @ s) p"
  by (simp add: has_prefix_def)

lemma has_prefix_iff: "has_prefix s p \<longleftrightarrow> (\<exists>t. s = p @ t)"
  unfolding has_prefix_def by (metis append_eq_conv_conj append_take_drop_id length_append le_add1)

lemma split_char_nonempty [simp]: "split_char sep s \<noteq> []"
  by (induction s) (auto split: list.splits)

lemma join_split_char: "join_with [sep] (split_char sep s) = s"
proof (induction s)
  case (Cons c cs)
  then show ?case
    by (cases "split_char sep cs"; cases "tl (split_char sep cs)") (auto split: list.splits)
qed simp

lemma split_char_no_sep: "sep \<notin> set s \<Longrightarrow> split_char sep s = [s]"
  by (induction s) auto

lemma split_char_append:
  "sep \<notin> set s \<Longrightarrow> split_char sep (s @ sep # t) = s # split_char sep t"
  by (induction s) auto

lemma split_char_parts: "w \<in> set (split_char sep s) \<Longrightarrow> sep \<notin> set w"
  by (induction s arbitrary: w) (auto split: list.splits if_splits)

section \<open>Decimal text\<close>

fun nat_text :: "nat \<Rightarrow> string" where
  "nat_text n = (if n < 10 then [char_of (48 + n)]
     else nat_text (n div 10) @ [char_of (48 + n mod 10)])"

declare nat_text.simps [simp del]

definition int_text :: "int \<Rightarrow> string" where
  "int_text i = (if i < 0 then CHR ''-'' # nat_text (nat (- i)) else nat_text (nat i))"

lemma nat_text_nonempty [simp]: "nat_text n \<noteq> []"
  by (subst nat_text.simps) simp

section \<open>Order and sorting\<close>

text \<open>The order \<^verbatim>\<open><\<close> of strings: by bytes, a proper prefix first.\<close>

fun str_less :: "string \<Rightarrow> string \<Rightarrow> bool" where
  "str_less s [] = False"
| "str_less [] (d # ds) = True"
| "str_less (c # cs) (d # ds) = (byte c < byte d \<or> c = d \<and> str_less cs ds)"

text \<open>\<^verbatim>\<open>sort.SliceStable\<close> by a less function.\<close>

fun insert_by :: "('a \<Rightarrow> 'a \<Rightarrow> bool) \<Rightarrow> 'a \<Rightarrow> 'a list \<Rightarrow> 'a list" where
  "insert_by lt x [] = [x]"
| "insert_by lt x (y # ys) = (if lt y x then y # insert_by lt x ys else x # y # ys)"

definition sort_stable :: "('a \<Rightarrow> 'a \<Rightarrow> bool) \<Rightarrow> 'a list \<Rightarrow> 'a list" where
  "sort_stable lt xs = foldr (insert_by lt) xs []"

lemma mset_insert_by [simp]: "mset (insert_by lt x ys) = add_mset x (mset ys)"
  by (induction ys) simp_all

lemma mset_sort_stable [simp]: "mset (sort_stable lt xs) = mset xs"
  by (induction xs) (simp_all add: sort_stable_def)

lemma set_insert_by [simp]: "set (insert_by lt x ys) = insert x (set ys)"
  by (metis mset_insert_by set_mset_add_mset_insert set_mset_mset)

lemma set_sort_stable [simp]: "set (sort_stable lt xs) = set xs"
  by (metis mset_sort_stable set_mset_mset)

lemma length_sort_stable [simp]: "length (sort_stable lt xs) = length xs"
  by (metis mset_sort_stable size_mset)

lemma sorted_sort_stable:
  assumes asym: "\<And>x y. lt x y \<Longrightarrow> \<not> lt y x"
    and trans: "\<And>x y z. \<not> lt y x \<Longrightarrow> \<not> lt z y \<Longrightarrow> \<not> lt z x"
  shows "sorted_wrt (\<lambda>a b. \<not> lt b a) (sort_stable lt xs)"
proof -
  have ins: "sorted_wrt (\<lambda>a b. \<not> lt b a) (insert_by lt x ys)"
    if "sorted_wrt (\<lambda>a b. \<not> lt b a) ys" for x ys
    using that
  proof (induction ys)
    case (Cons y ys)
    show ?case
    proof (cases "lt y x")
      case True
      with Cons asym show ?thesis by simp
    next
      case False
      have "\<not> lt z x" if "z \<in> set ys" for z
        using trans [OF False, of z] Cons.prems that by simp
      with Cons.prems False show ?thesis by simp
    qed
  qed simp
  show ?thesis by (induction xs) (simp_all add: sort_stable_def ins)
qed

lemma str_less_irrefl [simp]: "\<not> str_less s s"
  by (induction s) simp_all

lemma str_less_asym: "str_less s t \<Longrightarrow> \<not> str_less t s"
  by (induction s t rule: str_less.induct) auto

lemma str_less_total: "s \<noteq> t \<Longrightarrow> str_less s t \<or> str_less t s"
proof (induction s t rule: str_less.induct)
  case (3 c cs d ds)
  then show ?case by (cases "c = d") (auto simp: less_le dest: of_char_eq_iff [THEN iffD1])
next
  case (1 s)
  then show ?case by (cases s) auto
qed simp

lemma str_less_trans: "str_less s t \<Longrightarrow> str_less t u \<Longrightarrow> str_less s u"
proof (induction s t arbitrary: u rule: str_less.induct)
  case (2 d ds)
  then show ?case by (cases u) auto
next
  case (3 c cs d ds)
  then show ?case by (cases u) auto
qed simp

end
