(* ===== verification/Identity.thy ===== *)
theory Identity
  imports Go_Text
begin

text \<open>
  \<^verbatim>\<open>pkg/identity/identity.go\<close>: the principal a request runs as, its validation, its roles, and its
  place in the context. Every tenant check of the other components starts here.
\<close>

section \<open>Principals\<close>

definition Principal_Validate :: "principal \<Rightarrow> go_error option" where
  "Principal_Validate p =
     (let id = trim_space (PrincipalID p);
          tenantID = trim_space (ScopeTenantID (PrincipalScope p))
      in if id = [] \<or> PrincipalType p = [] \<or> tenantID = [] \<or> id \<noteq> PrincipalID p
            \<or> tenantID \<noteq> ScopeTenantID (PrincipalScope p)
         then Some ErrPrincipalMissing else None)"

fun HasRole :: "principal \<Rightarrow> string \<Rightarrow> bool" where
  "HasRole p role = list_ex (\<lambda>candidate. candidate = role) (PrincipalRoles p)"

fun HasAnyRole :: "principal \<Rightarrow> string list \<Rightarrow> bool" where
  "HasAnyRole p roles = list_ex (HasRole p) roles"

definition WithPrincipal :: "gctx \<Rightarrow> principal \<Rightarrow> gctx" where
  "WithPrincipal ctx p = ctx\<lparr>CtxPrincipal := Some p\<rparr>"

definition PrincipalFromContext :: "gctx \<Rightarrow> principal option" where
  "PrincipalFromContext ctx = CtxPrincipal ctx"

definition RequirePrincipal :: "gctx \<Rightarrow> go_error + principal" where
  "RequirePrincipal ctx =
     (case PrincipalFromContext ctx of
        None \<Rightarrow> Inl ErrPrincipalMissing
      | Some p \<Rightarrow> (case Principal_Validate p of Some e \<Rightarrow> Inl e | None \<Rightarrow> Inr p))"

section \<open>Lemmas\<close>

lemma Principal_Validate_tenant:
  "Principal_Validate p = None \<Longrightarrow> ScopeTenantID (PrincipalScope p) \<noteq> []"
  by (auto simp: Principal_Validate_def Let_def split: if_splits)

lemma RequirePrincipal_Inr:
  "RequirePrincipal ctx = Inr p \<longleftrightarrow> CtxPrincipal ctx = Some p \<and> Principal_Validate p = None"
  by (auto simp: RequirePrincipal_def PrincipalFromContext_def split: option.splits)

text \<open>A principal for the examples of the other theories: user \<open>u\<close> of a tenant.\<close>

definition sample_principal :: "string \<Rightarrow> principal" where
  "sample_principal tenant = \<lparr>PrincipalID = ''u'', PrincipalType = ''user'',
     PrincipalScope = \<lparr>ScopeTenantID = tenant, ScopeWorkspaceID = [], ScopeProjectID = []\<rparr>,
     PrincipalRoles = [], PrincipalMetadata = []\<rparr>"

lemma sample_principal_valid [simp]:
  "Principal_Validate (sample_principal ''a'') = None"
  "Principal_Validate (sample_principal ''b'') = None"
  "ScopeTenantID (PrincipalScope (sample_principal t)) = t"
  by (simp_all add: Principal_Validate_def sample_principal_def trim_space_def trim_segments_def
      is_space_def in_range_def)

lemma HasAnyRole_iff: "HasAnyRole p roles \<longleftrightarrow> (\<exists>r \<in> set roles. r \<in> set (PrincipalRoles p))"
  by (auto simp: list_ex_iff)

end
