(* ===== verification/Run_State.thy ===== *)
theory Run_State
  imports Identity
begin

text \<open>
  \<^verbatim>\<open>pkg/runstate\<close>: the status machine of a run, the run snapshot and its helpers
  (\<^verbatim>\<open>runstate.go\<close>, \<^verbatim>\<open>timestamp.go\<close>, \<^verbatim>\<open>thread.go\<close>), the fence token of a context (\<^verbatim>\<open>fence.go\<close>) and
  the tenant checks (\<^verbatim>\<open>tenant.go\<close>). A pointer to a snapshot that a function updates in place is an
  argument and a result.
\<close>

section \<open>Status\<close>

text \<open>
  \<^verbatim>\<open>RunStatus\<close> is a string type: a string that is none of the five names is \<open>RunStatusOther\<close>, the
  empty string of an unset filter among them.
\<close>

datatype run_status =
    RunStatusRunning
  | RunStatusPaused
  | RunStatusFailed
  | RunStatusCompleted
  | RunStatusCancelled
  | RunStatusOther string

fun status_text :: "run_status \<Rightarrow> string" where
  "status_text RunStatusRunning = ''running''"
| "status_text RunStatusPaused = ''paused''"
| "status_text RunStatusFailed = ''failed''"
| "status_text RunStatusCompleted = ''completed''"
| "status_text RunStatusCancelled = ''cancelled''"
| "status_text (RunStatusOther s) = s"

fun Status_Valid :: "run_status \<Rightarrow> bool" where
  "Status_Valid (RunStatusOther _) = False"
| "Status_Valid _ = True"

fun CanTransitionTo :: "run_status \<Rightarrow> run_status \<Rightarrow> bool" where
  "CanTransitionTo s nxt =
     (if \<not> Status_Valid s \<or> \<not> Status_Valid nxt then False
      else (case s of
              RunStatusRunning \<Rightarrow> nxt = RunStatusPaused \<or> nxt = RunStatusFailed
                                   \<or> nxt = RunStatusCompleted \<or> nxt = RunStatusCancelled
            | RunStatusPaused \<Rightarrow> nxt = RunStatusRunning \<or> nxt = RunStatusFailed
                                   \<or> nxt = RunStatusCancelled
            | RunStatusFailed \<Rightarrow> False
            | RunStatusCompleted \<Rightarrow> False
            | RunStatusCancelled \<Rightarrow> False
            | RunStatusOther _ \<Rightarrow> False))"

section \<open>Snapshots\<close>

record blob_ref =
  BlobID :: string
  BlobSize :: int
  BlobSha256 :: string

record step_output_ref =
  Inline :: "bytes option"
  Blob :: "blob_ref option"

record checkpoint_state =
  GateRunID :: string
  GateVersion :: int
  GateNodeID :: string
  GatePayload :: "bytes option"

text \<open>
  The maps and the gate are optional, \<open>None\<close> being the \<^verbatim>\<open>nil\<close> map or pointer. Step outputs and
  variables keep their entries as an association list read through \<open>map_of\<close>, so that a snapshot can
  be walked; the order stands for the order the runtime walks the map in.
\<close>

record run_snapshot =
  RunID :: string
  Version :: int
  ScenarioName :: string
  TenantID :: string
  CurrentNodeID :: string
  Status :: run_status
  Variables :: "(string \<times> bytes) list option"
  StepOutputs :: "(string \<times> step_output_ref) list option"
  PendingGate :: "checkpoint_state option"
  ParentRunID :: string
  ForkFromVersion :: int
  ThreadID :: string
  CreatedAt :: gtime
  UpdatedAt :: gtime

definition Snapshot_Validate :: "run_snapshot \<Rightarrow> go_error option" where
  "Snapshot_Validate s =
     (if RunID s = [] then Some (Errorf ''runstate: run_id is required'' [] None)
      else if \<not> Status_Valid (Status s)
           then Some (Errorf ''%w: %q'' [status_text (Status s)] (Some ErrInvalidStatus))
      else None)"

definition NormalizeSnapshot :: "run_snapshot option \<Rightarrow> run_snapshot option" where
  "NormalizeSnapshot snapshot =
     (case snapshot of
        None \<Rightarrow> None
      | Some s \<Rightarrow>
          (let s1 = (if Variables s = None then s\<lparr>Variables := Some []\<rparr> else s)
           in Some (if StepOutputs s1 = None then s1\<lparr>StepOutputs := Some []\<rparr> else s1)))"

definition ResolveThreadID :: "run_snapshot \<Rightarrow> string" where
  "ResolveThreadID s = (if ThreadID s \<noteq> [] then ThreadID s else RunID s)"

definition ContextWithStatusTransitionOverride :: "gctx \<Rightarrow> gctx" where
  "ContextWithStatusTransitionOverride ctx = ctx\<lparr>CtxOverride := True\<rparr>"

definition ValidateStatusTransition ::
  "gctx \<Rightarrow> run_snapshot option \<Rightarrow> run_status \<Rightarrow> go_error option" where
  "ValidateStatusTransition ctx previous nxt =
     (case previous of
        None \<Rightarrow> None
      | Some p \<Rightarrow>
          if Status p = nxt then None
          else if CtxOverride ctx then None
          else if \<not> CanTransitionTo (Status p) nxt
               then Some (Errorf ''%w: %s -> %s'' [status_text (Status p), status_text nxt]
                           (Some ErrInvalidTransition))
          else None)"

text \<open>\<^verbatim>\<open>StampSnapshot\<close>: \<open>wall\<close> is the clock it reads when the caller's \<open>now\<close> is the zero time.\<close>

definition StampSnapshot ::
  "gtime \<Rightarrow> run_snapshot option \<Rightarrow> run_snapshot option \<Rightarrow> gtime \<Rightarrow> run_snapshot option" where
  "StampSnapshot wall snapshot previous now0 =
     (case snapshot of
        None \<Rightarrow> None
      | Some s \<Rightarrow>
          (let now = (if now0 = 0 then wall else now0);
               created =
                 (case previous of
                    Some p \<Rightarrow> if CreatedAt p \<noteq> 0 then CreatedAt p
                              else if CreatedAt s = 0 then now else CreatedAt s
                  | None \<Rightarrow> if CreatedAt s = 0 then now else CreatedAt s)
           in Some (s\<lparr>CreatedAt := created, UpdatedAt := now\<rparr>)))"

section \<open>List filters\<close>

record list_filter =
  FilterStatus :: run_status
  FilterScenarioName :: string
  FilterTenantID :: string
  FilterParentRunID :: string
  FilterThreadID :: string
  FilterUpdatedBefore :: gtime
  FilterLimit :: int

definition EmptyListFilter :: list_filter where
  "EmptyListFilter = \<lparr>FilterStatus = RunStatusOther [], FilterScenarioName = [],
     FilterTenantID = [], FilterParentRunID = [], FilterThreadID = [], FilterUpdatedBefore = 0,
     FilterLimit = 0\<rparr>"

section \<open>Fence tokens in a context\<close>

definition ContextWithFenceToken :: "gctx \<Rightarrow> 64 word \<Rightarrow> gctx" where
  "ContextWithFenceToken ctx token = (if token = 0 then ctx else ctx\<lparr>CtxFence := token\<rparr>)"

definition FenceTokenFromContext :: "gctx \<Rightarrow> 64 word" where
  "FenceTokenFromContext ctx = CtxFence ctx"

section \<open>Tenants\<close>

definition ContextWithTenantPermissive :: "gctx \<Rightarrow> gctx" where
  "ContextWithTenantPermissive ctx = ctx\<lparr>CtxPermissive := True\<rparr>"

definition TenantStrictModeFromContext :: "gctx \<Rightarrow> bool" where
  "TenantStrictModeFromContext ctx = (\<not> CtxPermissive ctx)"

definition StampTenant :: "gctx \<Rightarrow> run_snapshot option \<Rightarrow> run_snapshot option" where
  "StampTenant ctx snapshot =
     (case snapshot of
        None \<Rightarrow> None
      | Some s \<Rightarrow>
          (case PrincipalFromContext ctx of
             None \<Rightarrow> Some s
           | Some p \<Rightarrow>
               if Principal_Validate p \<noteq> None then Some s
               else if TenantID s = [] then Some (s\<lparr>TenantID := ScopeTenantID (PrincipalScope p)\<rparr>)
               else Some s))"

definition AuthorizeTenant :: "gctx \<Rightarrow> run_snapshot \<Rightarrow> go_error option" where
  "AuthorizeTenant ctx snapshot =
     (case PrincipalFromContext ctx of
        None \<Rightarrow> if TenantID snapshot \<noteq> [] \<and> TenantStrictModeFromContext ctx
                then Some ErrTenantRequired else None
      | Some p \<Rightarrow>
          if Principal_Validate p \<noteq> None then Some ErrTenantRequired
          else if TenantID snapshot = [] then None
          else if TenantID snapshot \<noteq> ScopeTenantID (PrincipalScope p) then Some ErrTenantMismatch
          else None)"

definition ScopeListFilter :: "gctx \<Rightarrow> list_filter \<Rightarrow> go_error + list_filter" where
  "ScopeListFilter ctx flt =
     (case PrincipalFromContext ctx of
        None \<Rightarrow> if FilterTenantID flt \<noteq> [] \<and> TenantStrictModeFromContext ctx
                then Inl ErrTenantRequired else Inr flt
      | Some p \<Rightarrow>
          if Principal_Validate p \<noteq> None then Inl ErrTenantRequired
          else if FilterTenantID flt \<noteq> [] \<and> FilterTenantID flt \<noteq> ScopeTenantID (PrincipalScope p)
               then Inl ErrTenantMismatch
          else Inr (flt\<lparr>FilterTenantID := ScopeTenantID (PrincipalScope p)\<rparr>))"

lemmas tenant_defs =
  AuthorizeTenant_def ScopeListFilter_def StampTenant_def PrincipalFromContext_def
  TenantStrictModeFromContext_def ContextWithTenantPermissive_def

section \<open>The status machine\<close>

definition terminal_status :: "run_status \<Rightarrow> bool" where
  "terminal_status s \<longleftrightarrow> s \<in> {RunStatusFailed, RunStatusCompleted, RunStatusCancelled}"

lemma CanTransitionTo_terminal: "terminal_status s \<Longrightarrow> \<not> CanTransitionTo s t"
  by (auto simp: terminal_status_def)

lemma CanTransitionTo_valid: "CanTransitionTo s t \<Longrightarrow> Status_Valid s \<and> Status_Valid t"
  by (auto split: if_splits)

lemma ValidateStatusTransition_ok:
  "ValidateStatusTransition ctx (Some p) t = None \<longleftrightarrow>
     Status p = t \<or> CtxOverride ctx \<or> CanTransitionTo (Status p) t"
  by (auto simp: ValidateStatusTransition_def simp del: CanTransitionTo.simps)

lemma ValidateStatusTransition_error:
  "ValidateStatusTransition ctx prev t = Some e \<Longrightarrow> errors_is e ErrInvalidTransition"
  by (auto simp: ValidateStatusTransition_def simp del: CanTransitionTo.simps
      split: option.splits if_splits)

section \<open>Frame facts of the stamps\<close>

lemma StampSnapshot_Some:
  "StampSnapshot wall (Some s) prev now = Some s' \<Longrightarrow>
     RunID s' = RunID s \<and> Version s' = Version s \<and> Status s' = Status s \<and> TenantID s' = TenantID s"
  by (auto simp: StampSnapshot_def Let_def split: option.splits if_splits)

lemma StampSnapshot_not_None [simp]: "StampSnapshot wall (Some s) prev now \<noteq> None"
  by (simp add: StampSnapshot_def Let_def)

lemma NormalizeSnapshot_Some:
  "NormalizeSnapshot (Some s) = Some t \<Longrightarrow>
     RunID t = RunID s \<and> Version t = Version s \<and> Status t = Status s \<and> TenantID t = TenantID s
     \<and> Variables t \<noteq> None \<and> StepOutputs t \<noteq> None"
  by (auto simp: NormalizeSnapshot_def Let_def split: if_splits)

end
