(* ===== verification/Run_Repo.thy ===== *)
theory Run_Repo
  imports Run_State
begin

text \<open>
  The run-state repository: \<^verbatim>\<open>internal/adapter/runstate/inmem/repository.go\<close> (compare-and-swap saves,
  fenced saves, loads, listings), and the functions of \<^verbatim>\<open>pkg/runstate\<close> over the repository interface:
  \<^verbatim>\<open>SaveWithFence\<close> and \<^verbatim>\<open>LoadAuthorized\<close>. An operation takes the context, the clock reading, the
  store and its arguments, and returns the new store; a save also returns the caller's snapshot,
  which the code stamps in place. The mutex makes each operation one atomic step.

  The locale \<open>cas_store\<close> is the contract of \<^verbatim>\<open>runstate.Repository\<close> that its clients rely on. It is
  interpreted on \<open>Repository_Save\<close> and on \<open>Repository_SaveFenced\<close> below.
\<close>

section \<open>State\<close>

record repo =
  Snapshots :: "string \<Rightarrow> run_snapshot option"
  Fences :: "string \<Rightarrow> (64 word) option"

definition NewRepository :: repo where
  "NewRepository = \<lparr>Snapshots = Map.empty, Fences = Map.empty\<rparr>"

text \<open>A missing key of \<^verbatim>\<open>fences\<close> reads as zero.\<close>

definition fence_of :: "repo \<Rightarrow> string \<Rightarrow> 64 word" where
  "fence_of r runID = (case Fences r runID of None \<Rightarrow> 0 | Some t \<Rightarrow> t)"

definition current_version :: "run_snapshot option \<Rightarrow> int" where
  "current_version current = (case current of None \<Rightarrow> 0 | Some c \<Rightarrow> Version c)"

text \<open>The deep copy the store keeps and hands out; the copy of a byte slice holds its bytes.\<close>

definition clone :: "bytes option \<Rightarrow> bytes option" where
  "clone value = (case value of None \<Rightarrow> None | Some bs \<Rightarrow> Some (take (length bs) bs))"

definition cloneSnapshot :: "run_snapshot \<Rightarrow> run_snapshot" where
  "cloneSnapshot s =
     (let s1 = (case Variables s of None \<Rightarrow> s
                | Some vars \<Rightarrow> s\<lparr>Variables := Some (map (\<lambda>(k, v). (k, the (clone (Some v)))) vars)\<rparr>);
          s2 = (case StepOutputs s1 of None \<Rightarrow> s1
                | Some outs \<Rightarrow> s1\<lparr>StepOutputs :=
                    Some (map (\<lambda>(k, v). (k, \<lparr>Inline = clone (Inline v), Blob = Blob v\<rparr>)) outs)\<rparr>)
      in (case PendingGate s2 of None \<Rightarrow> s2
          | Some gate \<Rightarrow> s2\<lparr>PendingGate := Some (gate\<lparr>GatePayload := clone (GatePayload gate)\<rparr>)\<rparr>))"

section \<open>Saving\<close>

definition saveLocked ::
  "gctx \<Rightarrow> gtime \<Rightarrow> repo \<Rightarrow> run_snapshot \<Rightarrow> run_snapshot option
     \<Rightarrow> repo \<times> run_snapshot \<times> go_error option" where
  "saveLocked ctx now r snapshot current =
     (let cv = current_version current;
          s1 = (if Version snapshot \<le> cv then
                  (if current \<noteq> None then snapshot\<lparr>Version := i64 (cv + 1)\<rparr>
                   else if Version snapshot < 1 then snapshot\<lparr>Version := 1\<rparr> else snapshot)
                else snapshot)
      in (case ValidateStatusTransition ctx current (Status s1) of
            Some e \<Rightarrow> (r, s1, Some e)
          | None \<Rightarrow>
              (let s2 = the (StampSnapshot now (Some s1) current now)
               in (r\<lparr>Snapshots := (Snapshots r)(RunID s2 \<mapsto> cloneSnapshot s2)\<rparr>, s2, None))))"

definition Repository_Save ::
  "gctx \<Rightarrow> gtime \<Rightarrow> repo \<Rightarrow> run_snapshot option \<Rightarrow> int
     \<Rightarrow> repo \<times> run_snapshot option \<times> go_error option" where
  "Repository_Save ctx now r snapshot expectedVersion =
     (case CtxErr ctx of Some e \<Rightarrow> (r, snapshot, Some e) | None \<Rightarrow>
     (case snapshot of None \<Rightarrow> (r, None, Some ErrNotFound) | Some s \<Rightarrow>
     (case Snapshot_Validate s of Some e \<Rightarrow> (r, Some s, Some e) | None \<Rightarrow>
       (let current = Snapshots r (RunID s) in
        if current_version current \<noteq> expectedVersion then (r, Some s, Some ErrStaleSnapshot)
        else (let (r', s', err) = saveLocked ctx now r s current in (r', Some s', err))))))"

definition Repository_SaveFenced ::
  "gctx \<Rightarrow> gtime \<Rightarrow> repo \<Rightarrow> run_snapshot option \<Rightarrow> int \<Rightarrow> 64 word
     \<Rightarrow> repo \<times> run_snapshot option \<times> go_error option" where
  "Repository_SaveFenced ctx now r snapshot expectedVersion fenceToken =
     (case CtxErr ctx of Some e \<Rightarrow> (r, snapshot, Some e) | None \<Rightarrow>
     (case snapshot of None \<Rightarrow> (r, None, Some ErrNotFound) | Some s \<Rightarrow>
     (case Snapshot_Validate s of Some e \<Rightarrow> (r, Some s, Some e) | None \<Rightarrow>
       (let current = Snapshots r (RunID s) in
        if current_version current \<noteq> expectedVersion then (r, Some s, Some ErrStaleSnapshot)
        else if fenceToken < fence_of r (RunID s) then (r, Some s, Some ErrStaleFence)
        else (let (r', s', err) = saveLocked ctx now r s current in
              (case err of
                 Some e \<Rightarrow> (r', Some s', Some e)
               | None \<Rightarrow> (r'\<lparr>Fences := (Fences r')(RunID s' \<mapsto> fenceToken)\<rparr>, Some s', None)))))))"

text \<open>
  \<^verbatim>\<open>runstate.SaveWithFence\<close> over this repository, which implements \<^verbatim>\<open>FencedRepository\<close>; \<open>fenced\<close> is
  whether the type assertion succeeds. The first component of its result, always false, is left out.
\<close>

definition SaveWithFence ::
  "bool \<Rightarrow> gctx \<Rightarrow> gtime \<Rightarrow> repo \<Rightarrow> run_snapshot option \<Rightarrow> int
     \<Rightarrow> repo \<times> run_snapshot option \<times> go_error option" where
  "SaveWithFence fenced ctx now r snapshot expectedVersion =
     (let token = FenceTokenFromContext ctx in
      if token = 0 then Repository_Save ctx now r snapshot expectedVersion
      else if \<not> fenced then (r, snapshot, Some ErrFenceRequired)
      else Repository_SaveFenced ctx now r snapshot expectedVersion token)"

section \<open>Loading, deleting and listing\<close>

definition Repository_Load :: "gctx \<Rightarrow> repo \<Rightarrow> string \<Rightarrow> go_error + run_snapshot" where
  "Repository_Load ctx r runID =
     (case CtxErr ctx of Some e \<Rightarrow> Inl e | None \<Rightarrow>
     (case Snapshots r runID of None \<Rightarrow> Inl ErrNotFound | Some s \<Rightarrow> Inr (cloneSnapshot s)))"

definition Repository_Delete :: "gctx \<Rightarrow> repo \<Rightarrow> string \<Rightarrow> repo \<times> go_error option" where
  "Repository_Delete ctx r runID =
     (case CtxErr ctx of Some e \<Rightarrow> (r, Some e) | None \<Rightarrow>
       (r\<lparr>Snapshots := (Snapshots r)(runID := None), Fences := (Fences r)(runID := None)\<rparr>, None))"

definition filter_matches :: "list_filter \<Rightarrow> run_snapshot \<Rightarrow> bool" where
  "filter_matches flt snap \<longleftrightarrow>
     \<not> (FilterStatus flt \<noteq> RunStatusOther [] \<and> Status snap \<noteq> FilterStatus flt)
   \<and> \<not> (FilterScenarioName flt \<noteq> [] \<and> ScenarioName snap \<noteq> FilterScenarioName flt)
   \<and> \<not> (FilterTenantID flt \<noteq> [] \<and> TenantID snap \<noteq> FilterTenantID flt)
   \<and> \<not> (FilterParentRunID flt \<noteq> [] \<and> ParentRunID snap \<noteq> FilterParentRunID flt)
   \<and> \<not> (FilterThreadID flt \<noteq> [] \<and> ResolveThreadID snap \<noteq> FilterThreadID flt)
   \<and> \<not> (FilterUpdatedBefore flt \<noteq> 0
          \<and> (UpdatedAt snap = 0 \<or> \<not> UpdatedAt snap < FilterUpdatedBefore flt))"

text \<open>The loop of both listings; \<open>order\<close> is the order in which \<^verbatim>\<open>range\<close> visits the keys.\<close>

fun list_loop ::
  "(run_snapshot \<Rightarrow> bool) \<Rightarrow> int \<Rightarrow> repo \<Rightarrow> string list \<Rightarrow> run_snapshot list \<Rightarrow> run_snapshot list" where
  "list_loop keep limit r [] out = out"
| "list_loop keep limit r (runID # order) out =
     (case Snapshots r runID of
        None \<Rightarrow> list_loop keep limit r order out
      | Some snap \<Rightarrow>
          if \<not> keep snap then list_loop keep limit r order out
          else (let out' = out @ [cloneSnapshot snap] in
                if limit > 0 \<and> int (length out') \<ge> limit then out'
                else list_loop keep limit r order out'))"

definition Repository_List :: "string list \<Rightarrow> gctx \<Rightarrow> repo \<Rightarrow> list_filter \<Rightarrow> go_error + run_snapshot list" where
  "Repository_List order ctx r flt =
     (case CtxErr ctx of Some e \<Rightarrow> Inl e | None \<Rightarrow>
       Inr (list_loop (filter_matches flt) (FilterLimit flt) r order []))"

definition Repository_ListStale ::
  "string list \<Rightarrow> gctx \<Rightarrow> gtime \<Rightarrow> repo \<Rightarrow> list_filter \<Rightarrow> duration
     \<Rightarrow> go_error + run_snapshot list" where
  "Repository_ListStale order ctx now r flt grace0 =
     (case CtxErr ctx of Some e \<Rightarrow> Inl e | None \<Rightarrow>
       (let grace = (if grace0 < 0 then 0 else grace0); cutoff = now - grace
        in Inr (list_loop
             (\<lambda>snap. \<not> (UpdatedAt snap \<noteq> 0 \<and> cutoff < UpdatedAt snap) \<and> filter_matches flt snap)
             (FilterLimit flt) r order [])))"

definition LoadAuthorized :: "gctx \<Rightarrow> repo \<Rightarrow> string \<Rightarrow> go_error + run_snapshot" where
  "LoadAuthorized ctx r runID =
     (case Repository_Load ctx r runID of Inl e \<Rightarrow> Inl e | Inr snapshot \<Rightarrow>
     (case AuthorizeTenant ctx snapshot of Some e \<Rightarrow> Inl e | None \<Rightarrow>
       Inr (the (NormalizeSnapshot (Some snapshot)))))"

section \<open>Facts about the operations\<close>

lemma clone_id [simp]: "clone v = v"
  by (simp add: clone_def split: option.splits)

lemma step_output_eta [simp]: "\<lparr>Inline = Inline v, Blob = Blob v\<rparr> = v"
  by simp

lemma map_pair_id [simp]: "map (\<lambda>(k, v). (k, v)) xs = xs"
  by (induction xs) auto

lemma cloneSnapshot_id [simp]: "cloneSnapshot s = s"
proof -
  have outs: "(\<lambda>(k, v). (k, \<lparr>Inline = Inline v, Blob = Blob v\<rparr>)) = (\<lambda>(k, v). (k, v :: step_output_ref))"
    by (simp add: fun_eq_iff)
  show ?thesis
    by (cases s) (simp add: cloneSnapshot_def Let_def outs split: option.splits)
qed

lemma saveLocked_ok:
  assumes "saveLocked ctx now r s cur = (r', s', None)"
  shows "RunID s' = RunID s" "Status s' = Status s" "TenantID s' = TenantID s"
    "Snapshots r' = (Snapshots r)(RunID s \<mapsto> s')" "Fences r' = Fences r"
    "ValidateStatusTransition ctx cur (Status s) = None"
  using assms
  by (auto simp: saveLocked_def StampSnapshot_def Let_def split: option.splits if_splits)

lemma saveLocked_error: "saveLocked ctx now r s cur = (r', s', Some e) \<Longrightarrow> r' = r"
  by (auto simp: saveLocked_def Let_def split: option.splits)

lemma saveLocked_version:
  assumes "saveLocked ctx now r s cur = (r', s', err)"
    and "0 \<le> current_version cur" and "current_version cur < 2 ^ 63 - 1"
  shows "current_version cur < Version s'"
  using assms
  by (auto simp: saveLocked_def StampSnapshot_def current_version_def Let_def
      split: option.splits if_splits)

lemma saveLocked_grows:
  assumes "saveLocked ctx now r s cur = (r', s', None)"
    and "0 \<le> current_version cur" and "current_version cur < 2 ^ 63 - 1"
  shows "current_version cur < current_version (Snapshots r' (RunID s))"
  using saveLocked_version [OF assms] saveLocked_ok(4) [OF assms(1)]
  by (simp add: current_version_def [of "Some s'"])

lemma Repository_Save_failed: "Repository_Save ctx now r snap v = (r', snap', Some e) \<Longrightarrow> r' = r"
  by (auto simp: Repository_Save_def Let_def split: option.splits if_splits prod.splits
      dest: saveLocked_error)

lemma Repository_Save_saved:
  assumes "Repository_Save ctx now r (Some s) v = (r', snap', None)"
  obtains s' where "snap' = Some s'" "CtxErr ctx = None" "Snapshot_Validate s = None"
    "current_version (Snapshots r (RunID s)) = v"
    "saveLocked ctx now r s (Snapshots r (RunID s)) = (r', s', None)"
  using assms
  by (auto simp: Repository_Save_def Let_def split: option.splits if_splits prod.splits)

lemma Repository_SaveFenced_failed:
  "Repository_SaveFenced ctx now r snap v tok = (r', snap', Some e) \<Longrightarrow> r' = r"
  by (auto simp: Repository_SaveFenced_def Let_def split: option.splits if_splits prod.splits
      dest: saveLocked_error)

lemma Repository_SaveFenced_saved:
  assumes "Repository_SaveFenced ctx now r (Some s) v tok = (r', snap', None)"
  obtains s' r0 where "snap' = Some s'" "CtxErr ctx = None" "Snapshot_Validate s = None"
    "current_version (Snapshots r (RunID s)) = v" "fence_of r (RunID s) \<le> tok"
    "saveLocked ctx now r s (Snapshots r (RunID s)) = (r0, s', None)"
    "r' = r0\<lparr>Fences := (Fences r0)(RunID s' \<mapsto> tok)\<rparr>"
  using assms
  by (auto simp: Repository_SaveFenced_def Let_def not_less split: option.splits if_splits prod.splits)

lemma Repository_Save_nil [simp]: "snd (snd (Repository_Save ctx now r None v)) \<noteq> None"
  by (simp add: Repository_Save_def split: option.splits)

section \<open>The contract of a repository\<close>

text \<open>
  A compare-and-swap store as \<^verbatim>\<open>runstate.Repository\<close> documents it: \<open>save\<close> in an environment \<open>e\<close> (the
  context, the clock, a fence token), \<open>look\<close> the stored snapshot of a run.
\<close>

locale cas_store =
  fixes save :: "'e \<Rightarrow> 'r \<Rightarrow> run_snapshot \<Rightarrow> int \<Rightarrow> 'r \<times> run_snapshot option \<times> go_error option"
    and look :: "'r \<Rightarrow> string \<Rightarrow> run_snapshot option"
  assumes save_expected:
      "save e r s v = (r', t, None) \<Longrightarrow> current_version (look r (RunID s)) = v"
    and save_stored:
      "save e r s v = (r', t, None) \<Longrightarrow>
        \<exists>s'. t = Some s' \<and> RunID s' = RunID s \<and> Status s' = Status s
             \<and> look r' = (look r)(RunID s \<mapsto> s')"
    and save_failed: "save e r s v = (r', t, Some err) \<Longrightarrow> look r' = look r"
    and save_version:
      "save e r s v = (r', t, None) \<Longrightarrow> 0 \<le> v \<Longrightarrow> v < 2 ^ 63 - 1 \<Longrightarrow>
        v < current_version (look r' (RunID s))"
begin

lemma second_writer_loses:
  assumes "save e r a v = (r1, ta, None)" and "RunID b = RunID a"
    and "0 \<le> v" and "v < 2 ^ 63 - 1"
  shows "snd (snd (save e' r1 b v)) \<noteq> None"
proof
  assume "snd (snd (save e' r1 b v)) = None"
  then obtain r2 tb where "save e' r1 b v = (r2, tb, None)"
    by (metis prod.collapse)
  from save_expected [OF this] save_version [OF assms(1,3,4)] assms(2) show False by simp
qed

text \<open>Whatever a save does, the version of a run never goes down.\<close>

lemma version_monotone:
  assumes "save e r s v = (r', t, err)" and "0 \<le> v" and "v < 2 ^ 63 - 1"
  shows "current_version (look r runID) \<le> current_version (look r' runID)"
proof (cases err)
  case (Some e)
  with assms(1) save_failed show ?thesis by fastforce
next
  case None
  with assms(1) have ok: "save e r s v = (r', t, None)" by simp
  show ?thesis
  proof (cases "runID = RunID s")
    case True
    with save_expected [OF ok] save_version [OF ok assms(2,3)] show ?thesis by simp
  next
    case False
    with save_stored [OF ok] show ?thesis by auto
  qed
qed

end

text \<open>
  A history of save attempts, by any number of writers in any order: each attempt is its environment,
  the snapshot offered and the version the writer expects. The result lists which attempts succeeded.
\<close>

fun run_saves ::
  "('e \<Rightarrow> 'r \<Rightarrow> run_snapshot \<Rightarrow> int \<Rightarrow> 'r \<times> run_snapshot option \<times> go_error option)
     \<Rightarrow> 'r \<Rightarrow> ('e \<times> run_snapshot \<times> int) list \<Rightarrow> 'r \<times> bool list" where
  "run_saves save r [] = (r, [])"
| "run_saves save r ((e, s, v) # xs) =
     (let (r1, t, err) = save e r s v; (r2, oks) = run_saves save r1 xs
      in (r2, (err = None) # oks))"

definition attempts_bounded :: "('e \<times> run_snapshot \<times> int) list \<Rightarrow> bool" where
  "attempts_bounded xs = list_all (\<lambda>(e, s, v). 0 \<le> v \<and> v < 2 ^ 63 - 1) xs"

lemma length_run_saves [simp]: "length (snd (run_saves save r xs)) = length xs"
  by (induction xs arbitrary: r) (auto simp: case_prod_beta Let_def split_paired_all)

context cas_store
begin

lemma accepted_from:
  assumes "attempts_bounded xs" and "j < length xs" and "snd (run_saves save r xs) ! j"
  shows "current_version (look r (RunID (fst (snd (xs ! j))))) \<le> snd (snd (xs ! j))"
  using assms
proof (induction xs arbitrary: r j)
  case (Cons x xs)
  obtain e s v where x: "x = (e, s, v)" by (cases x)
  obtain r1 t err where sv: "save e r s v = (r1, t, err)" by (cases "save e r s v")
  from Cons.prems(1) x have v: "0 \<le> v" "v < 2 ^ 63 - 1" and b: "attempts_bounded xs"
    by (auto simp: attempts_bounded_def)
  show ?case
  proof (cases j)
    case 0
    with Cons.prems(3) x sv have "err = None" by (simp add: case_prod_beta Let_def)
    with save_expected sv x 0 show ?thesis by fastforce
  next
    case (Suc i)
    with Cons.prems x sv have "i < length xs" and "snd (run_saves save r1 xs) ! i"
      by (simp_all add: case_prod_beta Let_def)
    from Cons.IH [OF b this] version_monotone [OF sv v] x Suc show ?thesis
      by (auto intro: order_trans)
  qed
qed simp

lemma accepted_versions_increase:
  assumes "attempts_bounded xs" and "i < j" and "j < length xs"
    and "snd (run_saves save r xs) ! i" and "snd (run_saves save r xs) ! j"
    and "RunID (fst (snd (xs ! i))) = RunID (fst (snd (xs ! j)))"
  shows "snd (snd (xs ! i)) < snd (snd (xs ! j))"
  using assms
proof (induction xs arbitrary: r i j)
  case (Cons x xs)
  obtain e s v where x: "x = (e, s, v)" by (cases x)
  obtain r1 t err where sv: "save e r s v = (r1, t, err)" by (cases "save e r s v")
  from Cons.prems(1) x have v: "0 \<le> v" "v < 2 ^ 63 - 1" and b: "attempts_bounded xs"
    by (auto simp: attempts_bounded_def)
  from Cons.prems(2) obtain j' where j: "j = Suc j'" by (cases j) auto
  with Cons.prems x sv have j': "j' < length xs" "snd (run_saves save r1 xs) ! j'"
    by (simp_all add: case_prod_beta Let_def)
  show ?case
  proof (cases i)
    case 0
    with Cons.prems(4) x sv have ok: "save e r s v = (r1, t, None)"
      by (simp add: case_prod_beta Let_def)
    from accepted_from [OF b j'] save_version [OF ok v] Cons.prems(6) x 0 j show ?thesis
      by (simp add: less_le_trans)
  next
    case (Suc i')
    with Cons.prems x sv j have "i' < j'" "snd (run_saves save r1 xs) ! i'"
      "RunID (fst (snd (xs ! i'))) = RunID (fst (snd (xs ! j')))"
      by (simp_all add: case_prod_beta Let_def)
    from Cons.IH [OF b this(1) j'(1) this(2) j'(2) this(3)] Suc j show ?thesis by simp
  qed
qed simp

end

text \<open>A fenced store also records, per run, the highest token it accepted.\<close>

locale fenced_store = cas_store save look
  for save :: "'e \<Rightarrow> 'r \<Rightarrow> run_snapshot \<Rightarrow> int \<Rightarrow> 'r \<times> run_snapshot option \<times> go_error option"
    and look :: "'r \<Rightarrow> string \<Rightarrow> run_snapshot option" +
  fixes fence :: "'r \<Rightarrow> string \<Rightarrow> 64 word"
    and token :: "'e \<Rightarrow> 64 word"
  assumes fence_accepted:
      "save e r s v = (r', t, None) \<Longrightarrow>
        fence r (RunID s) \<le> token e \<and> fence r' = (fence r)(RunID s := token e)"
    and fence_failed: "save e r s v = (r', t, Some err) \<Longrightarrow> fence r' = fence r"
begin

lemma fence_monotone:
  assumes "save e r s v = (r', t, err)" shows "fence r runID \<le> fence r' runID"
  using assms fence_accepted fence_failed by (cases err) fastforce+

lemma run_saves_fence: "fence r runID \<le> fence (fst (run_saves save r xs)) runID"
proof (induction xs arbitrary: r)
  case (Cons x xs)
  obtain e s v where x: "x = (e, s, v)" by (cases x)
  obtain r1 t err where sv: "save e r s v = (r1, t, err)" by (cases "save e r s v")
  from Cons [of r1] fence_monotone [OF sv] x sv show ?case
    by (auto simp: case_prod_beta Let_def intro: order_trans)
qed simp

lemma accepted_fence_from:
  assumes "j < length xs" and "snd (run_saves save r xs) ! j"
  shows "fence r (RunID (fst (snd (xs ! j)))) \<le> token (fst (xs ! j))"
  using assms
proof (induction xs arbitrary: r j)
  case (Cons x xs)
  obtain e s v where x: "x = (e, s, v)" by (cases x)
  obtain r1 t err where sv: "save e r s v = (r1, t, err)" by (cases "save e r s v")
  show ?case
  proof (cases j)
    case 0
    with Cons.prems(2) x sv have "err = None" by (simp add: case_prod_beta Let_def)
    with fence_accepted sv x 0 show ?thesis by fastforce
  next
    case (Suc i)
    with Cons.prems x sv have "i < length xs" and "snd (run_saves save r1 xs) ! i"
      by (simp_all add: case_prod_beta Let_def)
    from Cons.IH [OF this] fence_monotone [OF sv] Suc show ?thesis
      by (auto intro: order_trans)
  qed
qed simp

lemma accepted_tokens_increase:
  assumes "i < j" and "j < length xs"
    and "snd (run_saves save r xs) ! i" and "snd (run_saves save r xs) ! j"
    and "RunID (fst (snd (xs ! i))) = RunID (fst (snd (xs ! j)))"
  shows "token (fst (xs ! i)) \<le> token (fst (xs ! j))"
  using assms
proof (induction xs arbitrary: r i j)
  case (Cons x xs)
  obtain e s v where x: "x = (e, s, v)" by (cases x)
  obtain r1 t err where sv: "save e r s v = (r1, t, err)" by (cases "save e r s v")
  from Cons.prems(1) obtain j' where j: "j = Suc j'" by (cases j) auto
  with Cons.prems x sv have j': "j' < length xs" "snd (run_saves save r1 xs) ! j'"
    by (simp_all add: case_prod_beta Let_def)
  show ?case
  proof (cases i)
    case 0
    with Cons.prems(3) x sv have ok: "save e r s v = (r1, t, None)"
      by (simp add: case_prod_beta Let_def)
    from accepted_fence_from [OF j'] fence_accepted [OF ok] Cons.prems(5) x 0 j show ?thesis
      by simp
  next
    case (Suc i')
    with Cons.prems x sv j have "i' < j'" "snd (run_saves save r1 xs) ! i'"
      "RunID (fst (snd (xs ! i'))) = RunID (fst (snd (xs ! j')))"
      by (simp_all add: case_prod_beta Let_def)
    from Cons.IH [OF this(1) j'(1) this(2) j'(2) this(3)] Suc j show ?thesis by simp
  qed
qed simp

end

section \<open>The in-memory repository meets the contract\<close>

definition plain_save ::
  "gctx \<times> gtime \<Rightarrow> repo \<Rightarrow> run_snapshot \<Rightarrow> int \<Rightarrow> repo \<times> run_snapshot option \<times> go_error option" where
  "plain_save e r s v = Repository_Save (fst e) (snd e) r (Some s) v"

definition fenced_save ::
  "gctx \<times> gtime \<times> 64 word \<Rightarrow> repo \<Rightarrow> run_snapshot \<Rightarrow> int
     \<Rightarrow> repo \<times> run_snapshot option \<times> go_error option" where
  "fenced_save e r s v = Repository_SaveFenced (fst e) (fst (snd e)) r (Some s) v (snd (snd e))"

interpretation inmem: cas_store plain_save Snapshots
proof unfold_locales
  fix e r s v r' t
  assume ok: "plain_save e r s v = (r', t, None)"
  then show "current_version (Snapshots r (RunID s)) = v"
    unfolding plain_save_def by (rule Repository_Save_saved)
  from ok show "\<exists>s'. t = Some s' \<and> RunID s' = RunID s \<and> Status s' = Status s
      \<and> Snapshots r' = (Snapshots r)(RunID s \<mapsto> s')"
    unfolding plain_save_def by (rule Repository_Save_saved) (auto dest: saveLocked_ok)
  assume v: "0 \<le> v" "v < 2 ^ 63 - 1"
  from ok show "v < current_version (Snapshots r' (RunID s))"
    unfolding plain_save_def
    by (rule Repository_Save_saved)
      (use v in \<open>auto dest: saveLocked_grows\<close>)
next
  fix e r s v r' t err
  assume "plain_save e r s v = (r', t, Some err)"
  then show "Snapshots r' = Snapshots r"
    unfolding plain_save_def by (auto dest: Repository_Save_failed)
qed

interpretation inmem_fenced: fenced_store fenced_save Snapshots fence_of "\<lambda>e. snd (snd e)"
proof unfold_locales
  fix e r s v r' t
  assume ok: "fenced_save e r s v = (r', t, None)"
  then show "current_version (Snapshots r (RunID s)) = v"
    unfolding fenced_save_def by (rule Repository_SaveFenced_saved)
  from ok show "\<exists>s'. t = Some s' \<and> RunID s' = RunID s \<and> Status s' = Status s
      \<and> Snapshots r' = (Snapshots r)(RunID s \<mapsto> s')"
    unfolding fenced_save_def by (rule Repository_SaveFenced_saved) (auto dest: saveLocked_ok)
  from ok show "fence_of r (RunID s) \<le> snd (snd e)
      \<and> fence_of r' = (fence_of r)(RunID s := snd (snd e))"
    unfolding fenced_save_def
    by (rule Repository_SaveFenced_saved) (auto simp: fence_of_def fun_eq_iff dest: saveLocked_ok)
  assume v: "0 \<le> v" "v < 2 ^ 63 - 1"
  from ok show "v < current_version (Snapshots r' (RunID s))"
    unfolding fenced_save_def
    by (rule Repository_SaveFenced_saved)
      (use v in \<open>auto dest: saveLocked_grows\<close>)
next
  fix e r s v r' t err
  assume fl: "fenced_save e r s v = (r', t, Some err)"
  then show "Snapshots r' = Snapshots r" and "fence_of r' = fence_of r"
    unfolding fenced_save_def by (auto dest: Repository_SaveFenced_failed)
qed

end
