(* ===== verification/Run_Lifecycle.thy ===== *)
theory Run_Lifecycle
  imports Run_Repo
begin

text \<open>
  The run repository as a state machine. \<open>repo_step\<close> has one rule per operation of
  \<^verbatim>\<open>inmem.Repository\<close> that writes, called with any arguments by any caller; \<open>ordinary_step\<close> are the
  steps of callers that neither delete the run nor carry the restore/rerun override. The theorems say
  what stays true in every state such callers can reach, and which snapshots a caller can read.
\<close>

section \<open>Steps\<close>

inductive repo_step :: "repo \<Rightarrow> repo \<Rightarrow> bool" where
  save: "Repository_Save ctx now r snap v = (r', snap', err) \<Longrightarrow> repo_step r r'"
| save_fenced: "Repository_SaveFenced ctx now r snap v tok = (r', snap', err) \<Longrightarrow> repo_step r r'"
| delete: "Repository_Delete ctx r runID = (r', err) \<Longrightarrow> repo_step r r'"

inductive ordinary_step :: "repo \<Rightarrow> repo \<Rightarrow> bool" where
  save: "\<not> CtxOverride ctx \<Longrightarrow> Repository_Save ctx now r snap v = (r', snap', err) \<Longrightarrow>
     ordinary_step r r'"
| save_fenced: "\<not> CtxOverride ctx \<Longrightarrow>
     Repository_SaveFenced ctx now r snap v tok = (r', snap', err) \<Longrightarrow> ordinary_step r r'"

inductive repo_reachable :: "repo \<Rightarrow> bool" where
  start: "repo_reachable NewRepository"
| step: "repo_reachable r \<Longrightarrow> repo_step r r' \<Longrightarrow> repo_reachable r'"

text \<open>A stored snapshot is stored under its own run id and is valid.\<close>

definition repo_inv :: "repo \<Rightarrow> bool" where
  "repo_inv r \<longleftrightarrow> (\<forall>runID s. Snapshots r runID = Some s \<longrightarrow>
     RunID s = runID \<and> Snapshot_Validate s = None)"

section \<open>Invariants\<close>

lemma repo_inv_saveLocked:
  assumes "repo_inv r" and "saveLocked ctx now r s cur = (r', s', None)"
    and "Snapshot_Validate s = None"
  shows "repo_inv r'"
  using assms saveLocked_ok [OF assms(2)]
  by (auto simp: repo_inv_def Snapshot_Validate_def split: if_splits)

text \<open>Either save leaves the snapshots alone or does what \<open>saveLocked\<close> does.\<close>

definition save_effect :: "gctx \<Rightarrow> repo \<Rightarrow> repo \<Rightarrow> bool" where
  "save_effect ctx r r' \<longleftrightarrow> r' = r \<or> (\<exists>now s r0 s'.
     saveLocked ctx now r s (Snapshots r (RunID s)) = (r0, s', None)
     \<and> Snapshot_Validate s = None \<and> Snapshots r' = Snapshots r0)"

lemma Repository_Save_effect:
  assumes "Repository_Save ctx now r snap v = (r', snap', err)"
  shows "save_effect ctx r r'"
proof (cases err)
  case None
  with assms obtain s where "snap = Some s"
    by (cases snap) (auto simp: Repository_Save_def split: option.splits)
  with assms None show ?thesis
    unfolding save_effect_def by (auto elim!: Repository_Save_saved)
qed (use assms in \<open>auto simp: save_effect_def dest: Repository_Save_failed\<close>)

lemma Repository_SaveFenced_effect:
  assumes "Repository_SaveFenced ctx now r snap v tok = (r', snap', err)"
  shows "save_effect ctx r r'"
proof (cases err)
  case None
  with assms obtain s where s: "snap = Some s"
    by (cases snap) (auto simp: Repository_SaveFenced_def split: option.splits)
  with assms None have "Repository_SaveFenced ctx now r (Some s) v tok = (r', snap', None)" by simp
  then show ?thesis
  proof (rule Repository_SaveFenced_saved)
    fix s' r0
    assume "saveLocked ctx now r s (Snapshots r (RunID s)) = (r0, s', None)"
      and "Snapshot_Validate s = None" and "r' = r0\<lparr>Fences := (Fences r0)(RunID s' \<mapsto> tok)\<rparr>"
    then show ?thesis unfolding save_effect_def by (intro disjI2 exI conjI) auto
  qed
qed (use assms in \<open>auto simp: save_effect_def dest: Repository_SaveFenced_failed\<close>)

lemma repo_step_effect:
  "repo_step r r' \<Longrightarrow>
     (\<exists>ctx. save_effect ctx r r') \<or> (\<exists>runID. Snapshots r' = (Snapshots r)(runID := None))"
proof (induction rule: repo_step.induct)
  case (delete ctx r runID r' err)
  then have "r' = r \<or> Snapshots r' = (Snapshots r)(runID := None)"
    by (auto simp: Repository_Delete_def split: option.splits)
  then show ?case unfolding save_effect_def by blast
qed (blast dest: Repository_Save_effect Repository_SaveFenced_effect)+

lemma ordinary_step_effect:
  "ordinary_step r r' \<Longrightarrow> \<exists>ctx. \<not> CtxOverride ctx \<and> save_effect ctx r r'"
  by (induction rule: ordinary_step.induct)
    (blast dest: Repository_Save_effect Repository_SaveFenced_effect)+

lemma repo_step_inv: "repo_step r r' \<Longrightarrow> repo_inv r \<Longrightarrow> repo_inv r'"
proof (drule repo_step_effect, elim disjE exE)
  fix ctx
  assume inv: "repo_inv r" and "save_effect ctx r r'"
  then show "repo_inv r'"
    using repo_inv_saveLocked [OF inv] by (auto simp: save_effect_def) (simp add: repo_inv_def)
qed (simp add: repo_inv_def)

lemma repo_reachable_inv: "repo_reachable r \<Longrightarrow> repo_inv r"
  by (induction rule: repo_reachable.induct)
    (auto simp: repo_inv_def NewRepository_def dest: repo_step_inv [unfolded repo_inv_def])

text \<open>What one ordinary step does to the status of a run: nothing, or a legal transition.\<close>

lemma ordinary_step_status:
  assumes "ordinary_step r r'" and "Snapshots r runID = Some s"
  shows "\<exists>s'. Snapshots r' runID = Some s' \<and> (Status s' = Status s \<or> CanTransitionTo (Status s) (Status s'))"
proof -
  from ordinary_step_effect [OF assms(1)] obtain ctx
    where ctx: "\<not> CtxOverride ctx" and eff: "save_effect ctx r r'" by blast
  show ?thesis
  proof (cases "r' = r")
    case False
    with eff obtain now t r0 t' where
      sl: "saveLocked ctx now r t (Snapshots r (RunID t)) = (r0, t', None)"
      and r0: "Snapshots r' = Snapshots r0"
      by (auto simp: save_effect_def)
    show ?thesis
      using saveLocked_ok [OF sl] ctx assms(2)
      by (cases "RunID t = runID")
        (auto simp: r0 ValidateStatusTransition_ok simp del: CanTransitionTo.simps)
  qed (use assms(2) in simp)
qed

lemma ordinary_steps_terminal:
  assumes "ordinary_step\<^sup>*\<^sup>* r r'" and "Snapshots r runID = Some s" and "terminal_status (Status s)"
  shows "\<exists>s'. Snapshots r' runID = Some s' \<and> Status s' = Status s"
  using assms(1)
proof (induction rule: rtranclp_induct)
  case base
  with assms(2) show ?case by simp
next
  case (step r1 r2)
  then obtain s1 where "Snapshots r1 runID = Some s1" and "Status s1 = Status s" by blast
  with ordinary_step_status [OF step.hyps(2)] assms(3) CanTransitionTo_terminal
  show ?case by fastforce
qed

section \<open>What a caller can read\<close>

lemma Repository_Load_Inr:
  "Repository_Load ctx r runID = Inr s \<longleftrightarrow> CtxErr ctx = None \<and> Snapshots r runID = Some s"
  by (auto simp: Repository_Load_def split: option.splits)

lemma LoadAuthorized_Inr:
  "LoadAuthorized ctx r runID = Inr s \<Longrightarrow>
     \<exists>t. Snapshots r runID = Some t \<and> AuthorizeTenant ctx t = None \<and> TenantID s = TenantID t
         \<and> Version s = Version t \<and> Status s = Status t \<and> RunID s = RunID t"
  by (auto simp: LoadAuthorized_def Repository_Load_def NormalizeSnapshot_def Let_def
      split: sum.splits option.splits if_splits)

lemma list_loop_append:
  "\<exists>more. list_loop keep limit r order out = out @ more
     \<and> (\<forall>s \<in> set more. keep s \<and> (\<exists>runID \<in> set order. Snapshots r runID = Some s))"
proof (induction order arbitrary: out)
  case (Cons runID order)
  show ?case
  proof (cases "Snapshots r runID")
    case None
    with Cons show ?thesis by fastforce
  next
    case (Some s)
    from Cons [of out] Cons [of "out @ [s]"] Some show ?thesis
      by (fastforce simp: Let_def)
  qed
qed simp

lemma list_loop_all:
  "limit \<le> 0 \<Longrightarrow> set (list_loop keep limit r order out) =
     set out \<union> {s. keep s \<and> (\<exists>runID \<in> set order. Snapshots r runID = Some s)}"
  by (induction order arbitrary: out) (auto simp: Let_def split: option.splits)

lemma list_loop_limit:
  "0 < limit \<Longrightarrow> int (length out) < limit \<Longrightarrow>
     int (length (list_loop keep limit r order out)) \<le> limit"
  by (induction order arbitrary: out) (auto simp: Let_def split: option.splits)

section \<open>Properties\<close>

definition sample_run :: "string \<Rightarrow> run_status \<Rightarrow> string \<Rightarrow> run_snapshot" where
  "sample_run runID st tenant = \<lparr>RunID = runID, Version = 0, ScenarioName = ''s'', TenantID = tenant,
     CurrentNodeID = [], Status = st, Variables = None, StepOutputs = None, PendingGate = None,
     ParentRunID = [], ForkFromVersion = 0, ThreadID = [], CreatedAt = 0, UpdatedAt = 0\<rparr>"

text \<open>
  C1: no update of a run is lost. In any sequence of saves by any writers, two saves of the same run
  that both succeed were made against strictly increasing versions, so of all writers that read one
  version at most one succeeds.
\<close>

theorem save_versions_increase:
  assumes "attempts_bounded xs" and "i < j" and "j < length xs"
    and "snd (run_saves plain_save r xs) ! i" and "snd (run_saves plain_save r xs) ! j"
    and "RunID (fst (snd (xs ! i))) = RunID (fst (snd (xs ! j)))"
  shows "snd (snd (xs ! i)) < snd (snd (xs ! j))"
  using assms by (rule inmem.accepted_versions_increase)

theorem save_versions_increase_witness:
  "let xs = [((Background, 5), sample_run ''r'' RunStatusRunning [], 0),
             ((Background, 6), sample_run ''r'' RunStatusPaused [], 0),
             ((Background, 7), sample_run ''r'' RunStatusPaused [], 1)]
   in snd (run_saves plain_save NewRepository xs) = [True, False, True]
      \<and> snd (snd (xs ! 0)) < snd (snd (xs ! 2))"
proof -
  let ?xs = "[((Background, 5 :: gtime), sample_run ''r'' RunStatusRunning [], 0 :: int),
             ((Background, 6), sample_run ''r'' RunStatusPaused [], 0),
             ((Background, 7), sample_run ''r'' RunStatusPaused [], 1)]"
  have oks: "snd (run_saves plain_save NewRepository ?xs) = [True, False, True]" by code_simp
  have "snd (snd (?xs ! 0)) < snd (snd (?xs ! 2))"
    by (rule save_versions_increase [of ?xs 0 2 NewRepository])
      (simp_all only: oks, simp_all add: attempts_bounded_def sample_run_def)
  with oks show ?thesis by simp
qed

text \<open>
  Exactly when a fenced save succeeds, and that it then stores the caller's snapshot and the
  token, and otherwise changes nothing. It succeeds when the context is live, the snapshot valid, the
  expected version current, the token not below the recorded fence, and the status change legal.
\<close>

theorem SaveFenced_succeeds_iff:
  "case Repository_SaveFenced ctx now r (Some s) v tok of (r', snap', err) \<Rightarrow>
     (err = None \<longleftrightarrow> CtxErr ctx = None \<and> Snapshot_Validate s = None
        \<and> current_version (Snapshots r (RunID s)) = v \<and> fence_of r (RunID s) \<le> tok
        \<and> ValidateStatusTransition ctx (Snapshots r (RunID s)) (Status s) = None)
   \<and> (if err = None
      then Snapshots r' = (Snapshots r)(RunID s := snap') \<and> fence_of r' (RunID s) = tok
           \<and> map_option Status snap' = Some (Status s)
      else r' = r)"
proof -
  obtain r' snap' err where sv: "Repository_SaveFenced ctx now r (Some s) v tok = (r', snap', err)"
    by (cases "Repository_SaveFenced ctx now r (Some s) v tok")
  have stored: "Snapshots r' = (Snapshots r)(RunID s := snap') \<and> fence_of r' (RunID s) = tok
      \<and> map_option Status snap' = Some (Status s)" if "err = None"
    using sv that by (auto elim!: Repository_SaveFenced_saved dest: saveLocked_ok simp: fence_of_def)
  have same: "r' = r" if "err \<noteq> None" using sv that by (auto dest: Repository_SaveFenced_failed)
  have vst: "ValidateStatusTransition ctx cur (Status (if b then s\<lparr>Version := x\<rparr> else if c then s\<lparr>Version := y\<rparr> else s))
      = ValidateStatusTransition ctx cur (Status s)" for cur b c x y
    by simp
  from sv have "err = None \<longleftrightarrow> CtxErr ctx = None \<and> Snapshot_Validate s = None
        \<and> current_version (Snapshots r (RunID s)) = v \<and> fence_of r (RunID s) \<le> tok
        \<and> ValidateStatusTransition ctx (Snapshots r (RunID s)) (Status s) = None"
    by (auto simp: Repository_SaveFenced_def saveLocked_def Let_def not_less
        split: option.splits if_splits prod.splits)
  with sv stored same show ?thesis by simp
qed

text \<open>
  C23: a finished run stays finished. From any state, through any sequence of saves and fenced saves
  by callers without the restore override, a run whose status is failed, completed or cancelled keeps
  that status.
\<close>

theorem terminal_run_stays_terminal:
  assumes "ordinary_step\<^sup>*\<^sup>* r r'" and "Snapshots r runID = Some s" and "terminal_status (Status s)"
  shows "\<exists>s'. Snapshots r' runID = Some s' \<and> Status s' = Status s"
  using assms by (rule ordinary_steps_terminal)

definition sample_repo :: repo where
  "sample_repo = NewRepository\<lparr>Snapshots :=
     [''r'' \<mapsto> (sample_run ''r'' RunStatusCompleted [])\<lparr>Version := 3\<rparr>,
      ''q'' \<mapsto> (sample_run ''q'' RunStatusRunning ''a'')\<lparr>Version := 1\<rparr>]\<rparr>"

theorem terminal_run_stays_terminal_witness:
  "\<exists>s'. Snapshots (fst (Repository_Save Background 9 sample_repo
      (Some (sample_run ''r'' RunStatusRunning [])) 3)) ''r'' = Some s' \<and> Status s' = RunStatusCompleted"
proof -
  let ?r' = "fst (Repository_Save Background 9 sample_repo
      (Some (sample_run ''r'' RunStatusRunning [])) 3)"
  have "ordinary_step sample_repo ?r'"
    by (rule ordinary_step.save [of Background 9 _ "Some (sample_run ''r'' RunStatusRunning [])" 3])
      (simp_all add: Background_def prod_eq_iff)
  then have st: "ordinary_step\<^sup>*\<^sup>* sample_repo ?r'" by (rule r_into_rtranclp)
  have "\<exists>s'. Snapshots ?r' ''r'' = Some s'
      \<and> Status s' = Status ((sample_run ''r'' RunStatusCompleted [])\<lparr>Version := 3\<rparr>)"
    by (rule terminal_run_stays_terminal [OF st])
      (simp_all add: sample_repo_def sample_run_def terminal_status_def)
  then show ?thesis by (simp add: sample_run_def)
qed

text \<open>
  Tenant isolation of reads. A caller with a principal only loads runs of its own tenant or runs
  that no tenant owns, and a caller without one, unless it opted out of strict mode, only loads runs
  that no tenant owns.
\<close>

theorem LoadAuthorized_isolates:
  assumes "LoadAuthorized ctx r runID = Inr s"
  shows "case CtxPrincipal ctx of
           Some p \<Rightarrow> Principal_Validate p = None \<and>
             (TenantID s = [] \<or> TenantID s = ScopeTenantID (PrincipalScope p))
         | None \<Rightarrow> CtxPermissive ctx \<or> TenantID s = []"
  using LoadAuthorized_Inr [OF assms]
  by (auto simp: tenant_defs split: option.splits if_splits)

theorem LoadAuthorized_isolates_witness:
  "let ctx = WithPrincipal Background (sample_principal ''a'') in
     (\<exists>s. LoadAuthorized ctx sample_repo ''q'' = Inr s \<and> TenantID s = ''a'')
     \<and> LoadAuthorized Background sample_repo ''q'' = Inl ErrTenantRequired"
proof -
  let ?ctx = "WithPrincipal Background (sample_principal ''a'')"
  have ld: "LoadAuthorized ?ctx sample_repo ''q'' =
      Inr ((sample_run ''q'' RunStatusRunning ''a'')\<lparr>Version := 1, Variables := Some [], StepOutputs := Some []\<rparr>)"
    and no: "LoadAuthorized Background sample_repo ''q'' = Inl ErrTenantRequired"
    by (simp_all add: LoadAuthorized_def Repository_Load_def NormalizeSnapshot_def tenant_defs
        WithPrincipal_def sample_repo_def sample_run_def Background_def)
  from LoadAuthorized_isolates [OF ld] ld no show ?thesis
    by (simp add: WithPrincipal_def sample_run_def)
qed

text \<open>
  Tenant isolation of listings. When the filter has passed \<open>ScopeListFilter\<close> under a principal,
  every run listed belongs to that principal's tenant, whatever order the store is walked in.
\<close>

theorem List_isolates:
  assumes "CtxPrincipal ctx = Some p" and "ScopeListFilter ctx flt = Inr flt'"
    and "Repository_List order ctx r flt' = Inr out" and "s \<in> set out"
  shows "TenantID s = ScopeTenantID (PrincipalScope p)"
proof -
  from assms(1,2) have t: "FilterTenantID flt' = ScopeTenantID (PrincipalScope p)"
    and v: "Principal_Validate p = None"
    by (auto simp: tenant_defs split: if_splits)
  from assms(3) have "out = list_loop (filter_matches flt') (FilterLimit flt') r order []"
    by (auto simp: Repository_List_def split: option.splits)
  with list_loop_append [of "filter_matches flt'" "FilterLimit flt'" r order "[]"] assms(4)
  have "filter_matches flt' s" by auto
  with t Principal_Validate_tenant [OF v] show ?thesis by (simp add: filter_matches_def)
qed

theorem List_isolates_witness:
  "let ctx = WithPrincipal Background (sample_principal ''a'') in
   \<exists>flt' s. ScopeListFilter ctx EmptyListFilter = Inr flt'
      \<and> Repository_List [''r'', ''q''] ctx sample_repo flt' = Inr [s] \<and> TenantID s = ''a''"
proof -
  let ?ctx = "WithPrincipal Background (sample_principal ''a'')"
  let ?flt = "EmptyListFilter\<lparr>FilterTenantID := ''a''\<rparr>"
  let ?s = "(sample_run ''q'' RunStatusRunning ''a'')\<lparr>Version := 1\<rparr>"
  have p: "CtxPrincipal ?ctx = Some (sample_principal ''a'')" by (simp add: WithPrincipal_def)
  have f: "ScopeListFilter ?ctx EmptyListFilter = Inr ?flt"
    and l: "Repository_List [''r'', ''q''] ?ctx sample_repo ?flt = Inr [?s]"
    by (simp_all add: tenant_defs Repository_List_def filter_matches_def EmptyListFilter_def
        WithPrincipal_def sample_repo_def sample_run_def Background_def NewRepository_def)
  from List_isolates [OF p f l] have "TenantID ?s = ''a''" by simp
  with f l show ?thesis unfolding Let_def by blast
qed

end
