(* ===== verification/Checkpoint_History.thy ===== *)
theory Checkpoint_History
  imports Run_Lifecycle "HOL-Library.Sublist"
begin

text \<open>
  The append-only checkpoint history of a run (\<^verbatim>\<open>internal/adapter/runstate/inmem/checkpoint_history.go\<close>)
  and the recording repository that fills it (\<^verbatim>\<open>internal/adapter/runstate/recording/repository.go\<close>).
  The recorder wraps any \<^verbatim>\<open>runstate.Repository\<close>: its operations take the inner repository's operations
  as arguments, and the section on the recorder instantiates them with the in-memory store.
\<close>

section \<open>State\<close>

record checkpoint_record =
  RecSnapshot :: run_snapshot
  RecordedAt :: gtime

record checkpoint_summary =
  SumRunID :: string
  SumVersion :: int
  SumStatus :: run_status
  SumCurrentNodeID :: string
  SumStepCount :: int
  SumRecordedAt :: gtime

type_synonym history = "string \<Rightarrow> checkpoint_record list option"

definition NewCheckpointHistory :: history where
  "NewCheckpointHistory = Map.empty"

text \<open>A missing key of \<^verbatim>\<open>records\<close> reads as the empty slice.\<close>

definition records_of :: "history \<Rightarrow> string \<Rightarrow> checkpoint_record list" where
  "records_of h runID = (case h runID of None \<Rightarrow> [] | Some l \<Rightarrow> l)"

section \<open>Operations\<close>

text \<open>The two loops over the records look for the first of a version.\<close>

fun find_version :: "checkpoint_record list \<Rightarrow> int \<Rightarrow> checkpoint_record option" where
  "find_version [] v = None"
| "find_version (rec # l) v =
     (if Version (RecSnapshot rec) = v then Some rec else find_version l v)"

definition History_Append ::
  "gctx \<Rightarrow> gtime \<Rightarrow> history \<Rightarrow> run_snapshot \<Rightarrow> history \<times> go_error option" where
  "History_Append ctx now h snapshot =
     (case CtxErr ctx of
        Some e \<Rightarrow> (h, Some e)
      | None \<Rightarrow>
          (let l = records_of h (RunID snapshot)
           in if find_version l (Version snapshot) \<noteq> None then (h, None)
              else (h(RunID snapshot \<mapsto>
                      l @ [\<lparr>RecSnapshot = cloneSnapshot snapshot, RecordedAt = now\<rparr>]), None)))"

definition summarize :: "checkpoint_record \<Rightarrow> checkpoint_summary" where
  "summarize rec =
     (let s = RecSnapshot rec in
      \<lparr>SumRunID = RunID s, SumVersion = Version s, SumStatus = Status s,
       SumCurrentNodeID = CurrentNodeID s,
       SumStepCount = (case StepOutputs s of None \<Rightarrow> 0 | Some outs \<Rightarrow> int (length outs)),
       SumRecordedAt = RecordedAt rec\<rparr>)"

text \<open>
  \<^verbatim>\<open>sort.Slice\<close> may permute summaries of equal version; a run has one record per version
  (\<open>history_inv\<close>), so the sorted slice is unique.
\<close>

definition History_List ::
  "gctx \<Rightarrow> history \<Rightarrow> string \<Rightarrow> int \<Rightarrow> go_error + checkpoint_summary list" where
  "History_List ctx h runID limit =
     (case CtxErr ctx of
        Some e \<Rightarrow> Inl e
      | None \<Rightarrow>
          (let out = sort_key SumVersion (map summarize (records_of h runID))
           in Inr (if 0 < limit \<and> limit < int (length out)
                   then drop (length out - nat limit) out else out)))"

definition History_Load :: "gctx \<Rightarrow> history \<Rightarrow> string \<Rightarrow> int \<Rightarrow> go_error + run_snapshot" where
  "History_Load ctx h runID version =
     (case CtxErr ctx of
        Some e \<Rightarrow> Inl e
      | None \<Rightarrow>
          (case find_version (records_of h runID) version of
             Some rec \<Rightarrow> Inr (cloneSnapshot (RecSnapshot rec))
           | None \<Rightarrow> Inl ErrNotFound))"

definition History_Delete :: "gctx \<Rightarrow> history \<Rightarrow> string \<Rightarrow> history \<times> go_error option" where
  "History_Delete ctx h runID =
     (case CtxErr ctx of Some e \<Rightarrow> (h, Some e) | None \<Rightarrow> (h(runID := None), None))"

section \<open>The recorder\<close>

text \<open>
  \<open>Recording_Save\<close> takes the inner save already applied to the snapshot and the expected version, as
  the function \<open>save\<close> of the inner store. \<open>ctx'\<close> and \<open>now\<close> are the context and the clock when the
  history is written: the context may have been cancelled since the inner save. The inner repository
  may lack \<^verbatim>\<open>SaveFenced\<close> or \<^verbatim>\<open>ListStale\<close>, which is \<open>None\<close>.
\<close>

record 'r recording =
  Inner :: 'r
  History :: "history option"

type_synonym 'r saver = "'r \<Rightarrow> run_snapshot option \<Rightarrow> int \<Rightarrow> 'r \<times> run_snapshot option \<times> go_error option"

definition appendHistory ::
  "gctx \<Rightarrow> gtime \<Rightarrow> 'r recording \<Rightarrow> run_snapshot option \<Rightarrow> 'r recording \<times> go_error option" where
  "appendHistory ctx now rr snapshot =
     (case (History rr, snapshot) of
        (Some h, Some s) \<Rightarrow>
          (case History_Append ctx now h s of
             (h', Some e) \<Rightarrow>
               (rr\<lparr>History := Some h'\<rparr>,
                Some (Errorf ''runstate recording: checkpoint history append failed for run %q version %d: %w''
                        [RunID s, int_text (Version s)] (Some e)))
           | (h', None) \<Rightarrow> (rr\<lparr>History := Some h'\<rparr>, None))
      | _ \<Rightarrow> (rr, None))"

definition Recording_Save ::
  "'r saver \<Rightarrow> gctx \<Rightarrow> gtime \<Rightarrow> 'r recording \<Rightarrow> run_snapshot option \<Rightarrow> int
     \<Rightarrow> 'r recording \<times> run_snapshot option \<times> go_error option" where
  "Recording_Save save ctx' now rr snapshot expected =
     (case save (Inner rr) snapshot expected of
        (r, s, Some e) \<Rightarrow> (rr\<lparr>Inner := r\<rparr>, s, Some e)
      | (r, s, None) \<Rightarrow>
          (case appendHistory ctx' now (rr\<lparr>Inner := r\<rparr>) s of (rr', err) \<Rightarrow> (rr', s, err)))"

definition Recording_SaveFenced ::
  "(64 word \<Rightarrow> 'r saver) option \<Rightarrow> gctx \<Rightarrow> gtime \<Rightarrow> 'r recording \<Rightarrow> run_snapshot option \<Rightarrow> int
     \<Rightarrow> 64 word \<Rightarrow> 'r recording \<times> run_snapshot option \<times> go_error option" where
  "Recording_SaveFenced fenced ctx' now rr snapshot expected token =
     (case fenced of
        None \<Rightarrow> (rr, snapshot,
          Some (Errorf ''runstate recording: inner repository %T does not support fenced saves'' [] None))
      | Some saveFenced \<Rightarrow> Recording_Save (saveFenced token) ctx' now rr snapshot expected)"

definition Recording_Load ::
  "('r \<Rightarrow> string \<Rightarrow> go_error + run_snapshot) \<Rightarrow> 'r recording \<Rightarrow> string \<Rightarrow> go_error + run_snapshot" where
  "Recording_Load load rr runID = load (Inner rr) runID"

definition Recording_Delete ::
  "('r \<Rightarrow> string \<Rightarrow> 'r \<times> go_error option) \<Rightarrow> 'r recording \<Rightarrow> string \<Rightarrow> 'r recording \<times> go_error option" where
  "Recording_Delete del rr runID =
     (case del (Inner rr) runID of (r, err) \<Rightarrow> (rr\<lparr>Inner := r\<rparr>, err))"

definition Recording_List ::
  "('r \<Rightarrow> list_filter \<Rightarrow> go_error + run_snapshot list) \<Rightarrow> 'r recording \<Rightarrow> list_filter
     \<Rightarrow> go_error + run_snapshot list" where
  "Recording_List lst rr flt = lst (Inner rr) flt"

definition Recording_ListStale ::
  "('r \<Rightarrow> list_filter \<Rightarrow> duration \<Rightarrow> go_error + run_snapshot list) option
     \<Rightarrow> ('r \<Rightarrow> list_filter \<Rightarrow> go_error + run_snapshot list) \<Rightarrow> gtime \<Rightarrow> 'r recording
     \<Rightarrow> list_filter \<Rightarrow> duration \<Rightarrow> go_error + run_snapshot list" where
  "Recording_ListStale stale lst now rr flt grace0 =
     (case stale of
        Some f \<Rightarrow> f (Inner rr) flt grace0
      | None \<Rightarrow>
          (let grace = (if grace0 < 0 then 0 else grace0); cutoff = now - grace
           in case lst (Inner rr) flt of
                Inl e \<Rightarrow> Inl e
              | Inr snapshots \<Rightarrow>
                  Inr (filter (\<lambda>s. UpdatedAt s = 0 \<or> \<not> cutoff < UpdatedAt s) snapshots)))"

section \<open>Lemmas on the history\<close>

definition versions :: "checkpoint_record list \<Rightarrow> int list" where
  "versions l = map (\<lambda>rec. Version (RecSnapshot rec)) l"

text \<open>One record per version, each of the run it is stored under.\<close>

definition history_inv :: "history \<Rightarrow> bool" where
  "history_inv h \<longleftrightarrow> (\<forall>runID. distinct (versions (records_of h runID))
     \<and> (\<forall>rec \<in> set (records_of h runID). RunID (RecSnapshot rec) = runID))"

lemma find_version_None: "find_version l v = None \<longleftrightarrow> v \<notin> set (versions l)"
  by (induction l) (auto simp: versions_def)

lemma find_version_Some:
  "find_version l v = Some rec \<Longrightarrow> rec \<in> set l \<and> Version (RecSnapshot rec) = v"
  by (induction l) (auto split: if_splits)

lemma find_version_append:
  "find_version (l @ m) v = (case find_version l v of None \<Rightarrow> find_version m v | Some r \<Rightarrow> Some r)"
  by (induction l) auto

lemma records_of_simps [simp]:
  "records_of (h(k \<mapsto> l)) runID = (if runID = k then l else records_of h runID)"
  "records_of (h(k := None)) runID = (if runID = k then [] else records_of h runID)"
  "records_of NewCheckpointHistory runID = []"
  by (simp_all add: records_of_def NewCheckpointHistory_def)

lemma History_Append_inv:
  assumes "history_inv h" and "History_Append ctx now h s = (h', err)" shows "history_inv h'"
  using assms
  by (auto simp: history_inv_def History_Append_def Let_def find_version_None
      split: option.splits if_splits) (auto simp: versions_def)

lemma History_Delete_inv:
  assumes "history_inv h" and "History_Delete ctx h runID = (h', err)" shows "history_inv h'"
  using assms by (auto simp: history_inv_def History_Delete_def versions_def split: option.splits if_splits)

lemma NewCheckpointHistory_inv [simp]: "history_inv NewCheckpointHistory"
  by (simp add: history_inv_def versions_def)

text \<open>An append never changes what a recorded version reads as: history is immutable.\<close>

lemma History_Append_find:
  assumes "History_Append ctx now h s = (h', err)"
    and "find_version (records_of h runID) v = Some rec"
  shows "find_version (records_of h' runID) v = Some rec"
  using assms
  by (auto simp: History_Append_def Let_def find_version_append split: option.splits if_splits)

text \<open>After a successful append the version is recorded: the snapshot, or what was there before.\<close>

lemma History_Append_recorded:
  assumes "History_Append ctx now h s = (h', None)"
  shows "\<exists>rec. find_version (records_of h' (RunID s)) (Version s) = Some rec
     \<and> (find_version (records_of h (RunID s)) (Version s) = None \<longrightarrow> RecSnapshot rec = s)"
  using assms
  by (auto simp: History_Append_def Let_def find_version_append split: option.splits if_splits)

lemma versions_summaries: "map SumVersion (map summarize l) = versions l"
  by (simp add: versions_def summarize_def Let_def)

lemma sort_key_distinct_sorted:
  assumes "distinct (map f xs)" shows "sorted_wrt (\<lambda>a b. f a < f b) (sort_key f xs)"
proof -
  have "distinct (map f (sort_key f xs))"
    using assms by (metis distinct_map distinct_sort set_sort)
  then have "sorted_wrt (<) (map f (sort_key f xs))"
    by (simp add: strict_sorted_iff sorted_sort_key)
  then show ?thesis by (simp add: sorted_wrt_map)
qed

section \<open>The recorder over a repository that meets the contract\<close>

text \<open>No recorded version is ahead of the stored one.\<close>

definition rec_inv :: "('r \<Rightarrow> string \<Rightarrow> run_snapshot option) \<Rightarrow> 'r recording \<Rightarrow> bool" where
  "rec_inv look rr \<longleftrightarrow> (\<exists>h. History rr = Some h \<and> history_inv h
     \<and> (\<forall>runID rec. rec \<in> set (records_of h runID) \<longrightarrow>
          (\<exists>s. look (Inner rr) runID = Some s \<and> Version (RecSnapshot rec) \<le> Version s)))"

text \<open>The snapshot a save returned is what the store and the history hold under its id and version.\<close>

definition recorded_as :: "('r \<Rightarrow> string \<Rightarrow> run_snapshot option) \<Rightarrow> 'r recording \<Rightarrow> run_snapshot \<Rightarrow> bool" where
  "recorded_as look rr s \<longleftrightarrow> look (Inner rr) (RunID s) = Some s \<and> (\<exists>h. History rr = Some h
     \<and> map_option RecSnapshot (find_version (records_of h (RunID s)) (Version s)) = Some s)"

lemma rec_inv_fresh:
  assumes "rec_inv look rr" and "History rr = Some h"
    and "current_version (look (Inner rr) runID) < v"
  shows "find_version (records_of h runID) v = None"
proof -
  have "Version (RecSnapshot rec) < v" if "rec \<in> set (records_of h runID)" for rec
  proof -
    from assms(1,2) that obtain t where "look (Inner rr) runID = Some t"
      and "Version (RecSnapshot rec) \<le> Version t"
      by (auto simp: rec_inv_def)
    with assms(3) show ?thesis by (simp add: current_version_def)
  qed
  then show ?thesis by (fastforce simp: find_version_None versions_def)
qed

lemma appendHistory_cases:
  assumes "appendHistory ctx now rr (Some s) = (rr', err)" and "History rr = Some h"
  obtains h' e where "History_Append ctx now h s = (h', e)" "rr' = rr\<lparr>History := Some h'\<rparr>"
    "err = None \<longleftrightarrow> e = None"
  using assms by (auto simp: appendHistory_def split: prod.splits option.splits)

text \<open>Recording a snapshot that the inner store just wrote at a version above all recorded ones.\<close>

lemma appendHistory_inv:
  assumes inv: "rec_inv look rr" and l: "look r1 = (look (Inner rr))(RunID s \<mapsto> s)"
    and lt: "current_version (look (Inner rr) (RunID s)) < Version s"
    and ap: "appendHistory ctx now (rr\<lparr>Inner := r1\<rparr>) (Some s) = (rr', err)"
  shows "rec_inv look rr'" and "err = None \<Longrightarrow> recorded_as look rr' s"
proof -
  from inv obtain h where h: "History rr = Some h" and hi: "history_inv h"
    by (auto simp: rec_inv_def)
  from ap h obtain h' e where ha: "History_Append ctx now h s = (h', e)"
    and rr': "rr' = rr\<lparr>Inner := r1, History := Some h'\<rparr>" and err: "err = None \<longleftrightarrow> e = None"
    by (auto elim: appendHistory_cases)
  have old: "rec \<in> set (records_of h' runID) \<Longrightarrow>
      rec \<in> set (records_of h runID) \<or> (runID = RunID s \<and> RecSnapshot rec = s)" for rec runID
    using ha by (auto simp: History_Append_def Let_def split: option.splits if_splits)
  have "\<exists>t. look r1 runID = Some t \<and> Version (RecSnapshot rec) \<le> Version t"
    if "rec \<in> set (records_of h' runID)" for runID rec
    using old [OF that] inv h lt by (fastforce simp: rec_inv_def l current_version_def)
  with History_Append_inv [OF hi ha] show "rec_inv look rr'"
    by (simp add: rec_inv_def rr')
  assume "err = None"
  with History_Append_recorded [of ctx now h s h'] ha err rec_inv_fresh [OF inv h lt]
  show "recorded_as look rr' s" by (auto simp: recorded_as_def rr' l)
qed

context cas_store
begin

lemma Recording_Save_inv:
  assumes inv: "rec_inv look rr" and v: "0 \<le> v" "v < 2 ^ 63 - 1"
    and sv: "Recording_Save (\<lambda>r s v. save e r (the s) v) ctx' now' rr (Some s) v = (rr', t, err)"
  shows "rec_inv look rr'" and "err = None \<Longrightarrow> \<exists>s'. t = Some s' \<and> recorded_as look rr' s'"
proof -
  obtain r1 t1 e1 where i: "save e (Inner rr) s v = (r1, t1, e1)"
    by (cases "save e (Inner rr) s v")
  have "rec_inv look rr' \<and> (err = None \<longrightarrow> (\<exists>s'. t = Some s' \<and> recorded_as look rr' s'))"
  proof (cases e1)
    case (Some e2)
    with i sv have "rr' = rr\<lparr>Inner := r1\<rparr>" and "err = Some e2"
      by (auto simp: Recording_Save_def)
    with save_failed i Some inv show ?thesis by (simp add: rec_inv_def)
  next
    case None
    with i have ok: "save e (Inner rr) s v = (r1, t1, None)" by simp
    from save_stored [OF ok] obtain s' where s': "t1 = Some s'" "RunID s' = RunID s"
      "look r1 = (look (Inner rr))(RunID s \<mapsto> s')" by blast
    from save_version [OF ok v] save_expected [OF ok] s'
    have lt: "current_version (look (Inner rr) (RunID s')) < Version s'"
      by (simp add: current_version_def)
    from sv i None s' have ap: "appendHistory ctx' now' (rr\<lparr>Inner := r1\<rparr>) (Some s') = (rr', err)"
      and t: "t = Some s'"
      by (auto simp: Recording_Save_def split: prod.splits)
    have l: "look r1 = (look (Inner rr))(RunID s' \<mapsto> s')" by (simp only: s')
    from appendHistory_inv [OF inv l lt ap] t show ?thesis by blast
  qed
  then show "rec_inv look rr'" and "err = None \<Longrightarrow> \<exists>s'. t = Some s' \<and> recorded_as look rr' s'"
    by blast+
qed

end

section \<open>The recorder over the in-memory store\<close>

abbreviation rec_save where
  "rec_save ctx now ctx' now' rr snap v \<equiv>
     Recording_Save (Repository_Save ctx now) ctx' now' rr snap v"

abbreviation rec_save_fenced where
  "rec_save_fenced ctx now ctx' now' rr snap v tok \<equiv>
     Recording_SaveFenced (Some (\<lambda>tok r s v. Repository_SaveFenced ctx now r s v tok)) ctx' now' rr snap v tok"

text \<open>
  The states the recorder reaches from an empty store through saves and fenced saves of any callers,
  each expecting a version a counter can still increment.
\<close>

inductive rec_reachable :: "repo recording \<Rightarrow> bool" where
  start: "rec_reachable \<lparr>Inner = NewRepository, History = Some NewCheckpointHistory\<rparr>"
| save: "rec_reachable rr \<Longrightarrow> 0 \<le> v \<Longrightarrow> v < 2 ^ 63 - 1 \<Longrightarrow>
     rec_save ctx now ctx' now' rr (Some s) v = (rr', t, err) \<Longrightarrow> rec_reachable rr'"
| save_fenced: "rec_reachable rr \<Longrightarrow> 0 \<le> v \<Longrightarrow> v < 2 ^ 63 - 1 \<Longrightarrow>
     rec_save_fenced ctx now ctx' now' rr (Some s) v tok = (rr', t, err) \<Longrightarrow> rec_reachable rr'"

lemma rec_save_plain:
  "rec_save ctx now ctx' now' rr (Some s) v =
     Recording_Save (\<lambda>r s v. plain_save (ctx, now) r (the s) v) ctx' now' rr (Some s) v"
  by (simp add: Recording_Save_def plain_save_def)

lemma rec_save_fenced_plain:
  "rec_save_fenced ctx now ctx' now' rr (Some s) v tok =
     Recording_Save (\<lambda>r s v. fenced_save (ctx, now, tok) r (the s) v) ctx' now' rr (Some s) v"
  by (simp add: Recording_SaveFenced_def Recording_Save_def fenced_save_def)

lemma rec_reachable_inv: "rec_reachable rr \<Longrightarrow> rec_inv Snapshots rr"
proof (induction rule: rec_reachable.induct)
  case start
  show ?case by (simp add: rec_inv_def)
next
  case save
  then show ?case by (auto simp: rec_save_plain dest: inmem.Recording_Save_inv(1))
next
  case save_fenced
  then show ?case by (auto simp: rec_save_fenced_plain dest: inmem_fenced.Recording_Save_inv(1))
qed

section \<open>Properties\<close>

text \<open>
  A save the recorder confirmed can be read back by its version. After any history of saves, when
  a save through the recorder returns no error, the store holds the snapshot it returned and the
  checkpoint history loads exactly that snapshot under its run id and version.
\<close>

theorem Recording_Save_recorded:
  assumes "rec_reachable rr" and "0 \<le> v" and "v < 2 ^ 63 - 1" and "CtxErr ctx'' = None"
    and "rec_save ctx now ctx' now' rr (Some s) v = (rr', t, None)"
  shows "\<exists>s' h'. t = Some s' \<and> Repository_Load ctx'' (Inner rr') (RunID s') = Inr s'
     \<and> History rr' = Some h' \<and> History_Load ctx'' h' (RunID s') (Version s') = Inr s'"
  using inmem.Recording_Save_inv(2) [OF rec_reachable_inv [OF assms(1)] assms(2,3)] assms(4,5)
  unfolding rec_save_plain recorded_as_def
  by (fastforce simp: History_Load_def Repository_Load_def split: option.splits)

theorem Recording_Save_recorded_witness:
  "let rr0 = \<lparr>Inner = NewRepository, History = Some NewCheckpointHistory\<rparr>;
       (rr', t, err) = rec_save Background 5 Background 6 rr0 (Some (sample_run ''r'' RunStatusRunning [])) 0
   in err = None \<and> (\<exists>s' h'. t = Some s' \<and> Repository_Load Background (Inner rr') (RunID s') = Inr s'
     \<and> History rr' = Some h' \<and> History_Load Background h' (RunID s') (Version s') = Inr s')"
proof -
  let ?rr0 = "\<lparr>Inner = NewRepository, History = Some NewCheckpointHistory\<rparr>"
  let ?sv = "rec_save Background 5 Background 6 ?rr0 (Some (sample_run ''r'' RunStatusRunning [])) 0"
  have ok: "snd (snd ?sv) = None" by code_simp
  then have sv: "?sv = (fst ?sv, fst (snd ?sv), None)" by (simp add: prod_eq_iff)
  have live: "CtxErr Background = None" by (simp add: Background_def)
  show ?thesis
    using Recording_Save_recorded [OF rec_reachable.start _ _ live sv] ok
    by (simp add: case_prod_beta)
qed

text \<open>
  A listing of the history is strictly increasing in the version and is the newest part of the
  full listing, of at most \<open>limit\<close> entries when a limit is given; and an append never changes what an
  already recorded version loads as.
\<close>

theorem History_List_newest:
  assumes "history_inv h" and "CtxErr ctx = None"
  shows "\<exists>full out. History_List ctx h runID 0 = Inr full \<and> History_List ctx h runID limit = Inr out
    \<and> suffix out full \<and> sorted_wrt (\<lambda>a b. SumVersion a < SumVersion b) full
    \<and> set full = summarize ` set (records_of h runID)
    \<and> length out = (if 0 < limit then min (nat limit) (length full) else length full)"
proof -
  let ?full = "sort_key SumVersion (map summarize (records_of h runID))"
  let ?out = "if 0 < limit \<and> limit < int (length ?full) then drop (length ?full - nat limit) ?full else ?full"
  from assms(1) have "distinct (map SumVersion (map summarize (records_of h runID)))"
    unfolding versions_summaries by (simp add: history_inv_def)
  then have "sorted_wrt (\<lambda>a b. SumVersion a < SumVersion b) ?full"
    by (rule sort_key_distinct_sorted)
  moreover have "History_List ctx h runID 0 = Inr ?full" and "History_List ctx h runID limit = Inr ?out"
    using assms(2) by (simp_all add: History_List_def Let_def)
  moreover have "suffix ?out ?full" by (simp add: suffix_drop)
  moreover have "length ?out = (if 0 < limit then min (nat limit) (length ?full) else length ?full)"
    by auto
  ultimately show ?thesis by (intro exI conjI) (assumption | simp)+
qed

theorem History_List_newest_witness:
  "let (h1, _) = History_Append Background 1 NewCheckpointHistory ((sample_run ''r'' RunStatusRunning [])\<lparr>Version := 2\<rparr>);
       (h2, _) = History_Append Background 2 h1 ((sample_run ''r'' RunStatusPaused [])\<lparr>Version := 1\<rparr>)
   in \<exists>full out. History_List Background h2 ''r'' 0 = Inr full \<and> History_List Background h2 ''r'' 1 = Inr out
      \<and> suffix out full \<and> length full = 2 \<and> length out = 1"
proof -
  let ?h1 = "fst (History_Append Background 1 NewCheckpointHistory ((sample_run ''r'' RunStatusRunning [])\<lparr>Version := 2\<rparr>))"
  let ?h2 = "fst (History_Append Background 2 ?h1 ((sample_run ''r'' RunStatusPaused [])\<lparr>Version := 1\<rparr>))"
  have "history_inv ?h1"
    by (rule History_Append_inv [OF NewCheckpointHistory_inv]) (rule surjective_pairing)
  then have inv: "history_inv ?h2"
    by (rule History_Append_inv) (rule surjective_pairing)
  have live: "CtxErr Background = None" by (simp add: Background_def)
  obtain full out where l: "History_List Background ?h2 ''r'' 0 = Inr full"
      "History_List Background ?h2 ''r'' 1 = Inr out" "suffix out full"
      "length out = min (nat 1) (length full)"
    using History_List_newest [OF inv live, of "''r''" 1] by auto
  have "map_sum (\<lambda>_. ()) length (History_List Background ?h2 ''r'' 0) = Inr 2" by code_simp
  with l have "length full = 2" by simp
  with l show ?thesis by (auto simp: case_prod_beta Let_def)
qed

end
