(* ===== verification/Go_Crypto.thy ===== *)
theory Go_Crypto
  imports Go_Text
begin

unbundle bit_operations_syntax

text \<open>
  The digests and text encodings of Go's standard library that the sources use: SHA-256
  (\<^verbatim>\<open>crypto/sha256\<close>), HMAC with it (\<^verbatim>\<open>crypto/hmac\<close>), \<^verbatim>\<open>encoding/hex\<close> and the unpadded URL alphabet of
  \<^verbatim>\<open>encoding/base64\<close>. A byte is a \<open>char\<close>; the word operations are those of 32-bit words.
\<close>

section \<open>SHA-256\<close>

type_synonym w32 = "32 word"

definition sha_k :: "w32 list" where
  "sha_k =
    [1116352408, 1899447441, 3049323471, 3921009573, 961987163, 1508970993, 2453635748, 2870763221,
     3624381080, 310598401, 607225278, 1426881987, 1925078388, 2162078206, 2614888103, 3248222580,
     3835390401, 4022224774, 264347078, 604807628, 770255983, 1249150122, 1555081692, 1996064986,
     2554220882, 2821834349, 2952996808, 3210313671, 3336571891, 3584528711, 113926993, 338241895,
     666307205, 773529912, 1294757372, 1396182291, 1695183700, 1986661051, 2177026350, 2456956037,
     2730485921, 2820302411, 3259730800, 3345764771, 3516065817, 3600352804, 4094571909, 275423344,
     430227734, 506948616, 659060556, 883997877, 958139571, 1322822218, 1537002063, 1747873779,
     1955562222, 2024104815, 2227730452, 2361852424, 2428436474, 2756734187, 3204031479, 3329325298]"

definition sha_init :: "w32 list" where
  "sha_init = [1779033703, 3144134277, 1013904242, 2773480762, 1359893119, 2600822924, 528734635, 1541459225]"

definition rotr :: "nat \<Rightarrow> w32 \<Rightarrow> w32" where
  "rotr n x = (drop_bit n x) OR (push_bit (32 - n) x)"

definition sha_ch :: "w32 \<Rightarrow> w32 \<Rightarrow> w32 \<Rightarrow> w32" where
  "sha_ch x y z = (x AND y) XOR (NOT x AND z)"

definition sha_maj :: "w32 \<Rightarrow> w32 \<Rightarrow> w32 \<Rightarrow> w32" where
  "sha_maj x y z = (x AND y) XOR (x AND z) XOR (y AND z)"

definition big_sigma0 :: "w32 \<Rightarrow> w32" where
  "big_sigma0 x = rotr 2 x XOR rotr 13 x XOR rotr 22 x"

definition big_sigma1 :: "w32 \<Rightarrow> w32" where
  "big_sigma1 x = rotr 6 x XOR rotr 11 x XOR rotr 25 x"

definition small_sigma0 :: "w32 \<Rightarrow> w32" where
  "small_sigma0 x = rotr 7 x XOR rotr 18 x XOR drop_bit 3 x"

definition small_sigma1 :: "w32 \<Rightarrow> w32" where
  "small_sigma1 x = rotr 17 x XOR rotr 19 x XOR drop_bit 10 x"

text \<open>Big-endian words and bytes.\<close>

definition word_of_bytes :: "string \<Rightarrow> w32" where
  "word_of_bytes bs = of_nat (foldl (\<lambda>acc c. acc * 256 + byte c) 0 bs)"

definition bytes_of_word :: "w32 \<Rightarrow> string" where
  "bytes_of_word w = (let n = unat w in
     [char_of (n div 16777216 mod 256), char_of (n div 65536 mod 256), char_of (n div 256 mod 256),
      char_of (n mod 256)])"

fun chunks :: "nat \<Rightarrow> nat \<Rightarrow> 'a list \<Rightarrow> 'a list list" where
  "chunks k 0 xs = []"
| "chunks k (Suc n) xs = take k xs # chunks k n (drop k xs)"

definition sha_pad :: "string \<Rightarrow> string" where
  "sha_pad msg =
     (let len = length msg; zeros = (119 - len mod 64) mod 64; bits = len * 8 in
      msg @ [char_of (128 :: nat)] @ replicate zeros (char_of (0 :: nat))
        @ map (\<lambda>i. char_of (bits div 256 ^ (7 - i) mod 256)) [0..<8])"

text \<open>The message schedule: each new word from the last sixteen.\<close>

fun sha_schedule :: "nat \<Rightarrow> w32 list \<Rightarrow> w32 list" where
  "sha_schedule 0 ws = ws"
| "sha_schedule (Suc n) ws =
     (let t = length ws in
      sha_schedule n (ws @ [small_sigma1 (ws ! (t - 2)) + ws ! (t - 7) + small_sigma0 (ws ! (t - 15))
                            + ws ! (t - 16)]))"

fun sha_round :: "w32 list \<Rightarrow> w32 \<times> w32 \<Rightarrow> w32 list" where
  "sha_round [a, b, c, d, e, f, g, h] (k, w) =
     (let t1 = h + big_sigma1 e + sha_ch e f g + k + w; t2 = big_sigma0 a + sha_maj a b c
      in [t1 + t2, a, b, c, d + t1, e, f, g])"
| "sha_round st _ = st"

definition sha_block :: "w32 list \<Rightarrow> string \<Rightarrow> w32 list" where
  "sha_block st block =
     (let ws = sha_schedule 48 (map word_of_bytes (chunks 4 16 block))
      in map2 (+) st (foldl sha_round st (zip sha_k ws)))"

definition sha256 :: "string \<Rightarrow> string" where
  "sha256 msg =
     (let padded = sha_pad msg
      in concat (map bytes_of_word
           (foldl sha_block sha_init (chunks 64 (length padded div 64) padded))))"

section \<open>HMAC\<close>

definition xor_byte :: "nat \<Rightarrow> char \<Rightarrow> char" where
  "xor_byte n c = char_of (unat ((of_nat n :: w32) XOR of_nat (byte c)))"

definition hmac_sha256 :: "string \<Rightarrow> string \<Rightarrow> string" where
  "hmac_sha256 secret body =
     (let k0 = (if 64 < length secret then sha256 secret else secret);
          k = k0 @ replicate (64 - length k0) (char_of (0 :: nat))
      in sha256 (map (xor_byte 0x5c) k @ sha256 (map (xor_byte 0x36) k @ body)))"

section \<open>Hexadecimal\<close>

definition hex_digit :: "nat \<Rightarrow> char" where
  "hex_digit n = char_of (if n < 10 then 48 + n else 87 + n)"

fun hex_encode :: "string \<Rightarrow> string" where
  "hex_encode [] = []"
| "hex_encode (c # cs) = hex_digit (byte c div 16) # hex_digit (byte c mod 16) # hex_encode cs"

text \<open>\<^verbatim>\<open>hex.DecodeString\<close> reads both cases.\<close>

definition hex_value :: "char \<Rightarrow> nat option" where
  "hex_value c = (let n = byte c in
     if in_range 48 57 n then Some (n - 48)
     else if in_range 97 102 n then Some (n - 87)
     else if in_range 65 70 n then Some (n - 55) else None)"

fun hex_decode :: "string \<Rightarrow> string option" where
  "hex_decode [] = Some []"
| "hex_decode [c] = None"
| "hex_decode (c # d # cs) =
     (case (hex_value c, hex_value d) of
        (Some x, Some y) \<Rightarrow> map_option ((#) (char_of (16 * x + y))) (hex_decode cs)
      | _ \<Rightarrow> None)"

section \<open>Base64\<close>

definition b64_digit :: "nat \<Rightarrow> char" where
  "b64_digit n = char_of (if n < 26 then 65 + n else if n < 52 then 71 + n else if n < 62 then n - 4
     else if n = 62 then 45 else 95)"

definition b64_value :: "char \<Rightarrow> nat option" where
  "b64_value c = (let n = byte c in
     if in_range 65 90 n then Some (n - 65)
     else if in_range 97 122 n then Some (n - 71)
     else if in_range 48 57 n then Some (n + 4)
     else if n = 45 then Some 62 else if n = 95 then Some 63 else None)"

fun b64_encode :: "string \<Rightarrow> string" where
  "b64_encode [] = []"
| "b64_encode [a] = [b64_digit (byte a div 4), b64_digit (byte a mod 4 * 16)]"
| "b64_encode [a, b] =
     [b64_digit (byte a div 4), b64_digit (byte a mod 4 * 16 + byte b div 16),
      b64_digit (byte b mod 16 * 4)]"
| "b64_encode (a # b # c # cs) =
     b64_digit (byte a div 4) # b64_digit (byte a mod 4 * 16 + byte b div 16)
     # b64_digit (byte b mod 16 * 4 + byte c div 64) # b64_digit (byte c mod 64) # b64_encode cs"

fun b64_values :: "string \<Rightarrow> nat list option" where
  "b64_values [] = Some []"
| "b64_values (c # cs) =
     (case b64_value c of None \<Rightarrow> None | Some v \<Rightarrow> map_option ((#) v) (b64_values cs))"

text \<open>The bits left over in the last digit of a short group are not checked, as in the default decoder.\<close>

fun b64_join :: "nat list \<Rightarrow> string option" where
  "b64_join [] = Some []"
| "b64_join [x] = None"
| "b64_join [x, y] = Some [char_of (x * 4 + y div 16)]"
| "b64_join [x, y, z] = Some [char_of (x * 4 + y div 16), char_of (y mod 16 * 16 + z div 4)]"
| "b64_join (x # y # z # w # vs) =
     map_option (\<lambda>bs. char_of (x * 4 + y div 16) # char_of (y mod 16 * 16 + z div 4)
                       # char_of (z mod 4 * 64 + w) # bs) (b64_join vs)"

text \<open>\<^verbatim>\<open>DecodeString\<close> skips carriage returns and newlines.\<close>

definition b64_decode :: "string \<Rightarrow> string option" where
  "b64_decode s =
     (case b64_values (filter (\<lambda>c. byte c \<noteq> 10 \<and> byte c \<noteq> 13) s) of
        None \<Rightarrow> None | Some vs \<Rightarrow> b64_join vs)"

section \<open>Lemmas\<close>

lemma length_bytes_of_word [simp]: "length (bytes_of_word w) = 4"
  by (simp add: bytes_of_word_def Let_def)

lemma length_sha_round [simp]: "length (sha_round st kw) = length st"
  by (induction st kw rule: sha_round.induct) (simp_all add: Let_def)

lemma length_foldl_sha_round [simp]: "length (foldl sha_round st kws) = length st"
  by (induction kws arbitrary: st) simp_all

lemma length_foldl_sha_block [simp]: "length (foldl sha_block st blocks) = length st"
  by (induction blocks arbitrary: st) (simp_all add: sha_block_def Let_def)

lemma length_concat_const: "(\<And>x. x \<in> set xs \<Longrightarrow> length (f x) = n) \<Longrightarrow> length (concat (map f xs)) = n * length xs"
  by (induction xs) auto

lemma length_sha256 [simp]: "length (sha256 msg) = 32"
  by (simp add: sha256_def Let_def length_concat_const sha_init_def)

lemma length_hmac_sha256 [simp]: "length (hmac_sha256 secret body) = 32"
  by (simp add: hmac_sha256_def Let_def)

lemma byte_lt [simp]: "byte c < 256"
  by (metis of_char_mod_256 mod_less_divisor zero_less_numeral)

lemma length_hex_encode [simp]: "length (hex_encode bs) = 2 * length bs"
  by (induction bs) simp_all

lemma hex_value_digit [simp]: "n < 16 \<Longrightarrow> hex_value (hex_digit n) = Some n"
  by (auto simp: hex_value_def hex_digit_def in_range_def Let_def)

lemma hex_decode_encode [simp]: "hex_decode (hex_encode bs) = Some bs"
proof (induction bs)
  case (Cons c cs)
  have "byte c div 16 < 16" using byte_lt [of c] by (simp add: less_mult_imp_div_less)
  with Cons show ?case by simp
qed simp

lemma hex_encode_append: "hex_encode (xs @ ys) = hex_encode xs @ hex_encode ys"
  by (induction xs) simp_all

lemma hex_value_dot: "hex_value CHR ''.'' = None"
  by (simp add: hex_value_def in_range_def)

lemma hex_encode_no_dot: "CHR ''.'' \<notin> set (hex_encode bs)"
proof (induction bs)
  case (Cons c cs)
  have d: "n < 16 \<Longrightarrow> hex_digit n \<noteq> CHR ''.''" for n
    using hex_value_digit [of n] hex_value_dot by (metis option.distinct(1))
  have "byte c div 16 < 16" using byte_lt [of c] by (simp add: less_mult_imp_div_less)
  with d [of "byte c div 16"] d [of "byte c mod 16"] Cons show ?case by simp
qed simp

lemma b64_value_digit [simp]: "n < 64 \<Longrightarrow> b64_value (b64_digit n) = Some n"
  by (auto simp: b64_value_def b64_digit_def in_range_def Let_def)

lemma b64_digit_plain:
  assumes "n < 64" shows "byte (b64_digit n) \<noteq> 10" "byte (b64_digit n) \<noteq> 13" "b64_digit n \<noteq> CHR ''.''"
  using b64_value_digit [OF assms] by (auto simp: b64_value_def in_range_def Let_def split: if_splits)

lemma byte_quarters:
  "byte c div 4 < 64" "byte c div 16 < 16" "byte c div 64 < 4"
  "byte a mod 4 * 16 + byte b div 16 < 64" "byte a mod 16 * 4 + byte b div 64 < 64"
  "byte c mod 4 * 16 < 64" "byte c mod 16 * 4 < 64" "byte c mod 64 < 64"
proof -
  have q: "byte x div 16 < 16" "byte x div 64 < 4" "byte x div 4 < 64" for x
    using byte_lt [of x] by (simp_all add: less_mult_imp_div_less)
  have m: "byte x mod 4 < 4" "byte x mod 16 < 16" "byte x mod 64 < 64" for x by simp_all
  show "byte c div 4 < 64" "byte c div 16 < 16" "byte c div 64 < 4" by (rule q)+
  show "byte a mod 4 * 16 + byte b div 16 < 64" "byte a mod 16 * 4 + byte b div 64 < 64"
    "byte c mod 4 * 16 < 64" "byte c mod 16 * 4 < 64" "byte c mod 64 < 64"
    using q(1,2) [of b] m [of a] m [of c] by linarith+
qed

lemma b64_encode_digits: "x \<in> set (b64_encode bs) \<Longrightarrow> \<exists>n < 64. x = b64_digit n"
  by (induction bs rule: b64_encode.induct) (auto intro: byte_quarters)

lemma b64_encode_no_dot: "CHR ''.'' \<notin> set (b64_encode bs)"
  using b64_encode_digits b64_digit_plain(3) by fastforce

lemma b64_filter_encode: "filter (\<lambda>c. byte c \<noteq> 10 \<and> byte c \<noteq> 13) (b64_encode bs) = b64_encode bs"
  using b64_encode_digits b64_digit_plain(1,2) by (fastforce simp: filter_id_conv)

lemma byte_recombine:
  "byte a div 4 * 4 + (byte a mod 4 * 16 + byte b div 16) div 16 = byte a"
  "(byte a mod 4 * 16 + byte b div 16) mod 16 * 16 + byte b mod 16 * 4 div 4 = byte b"
  "(byte a mod 4 * 16 + byte b div 16) mod 16 * 16 + (byte b mod 16 * 4 + byte c div 64) div 4 = byte b"
  "(byte b mod 16 * 4 + byte c div 64) mod 4 * 64 + byte c mod 64 = byte c"
  "byte a div 4 * 4 + byte a mod 4 * 16 div 16 = byte a"
proof -
  have b: "byte b div 16 < 16" and c: "byte c div 64 < 4" by (rule byte_quarters)+
  show "byte a div 4 * 4 + (byte a mod 4 * 16 + byte b div 16) div 16 = byte a" using b by simp
  show "(byte a mod 4 * 16 + byte b div 16) mod 16 * 16 + byte b mod 16 * 4 div 4 = byte b"
    using b by simp
  have "(byte b mod 16 * 4 + byte c div 64) div 4 = byte b mod 16" using c by simp
  then show "(byte a mod 4 * 16 + byte b div 16) mod 16 * 16 + (byte b mod 16 * 4 + byte c div 64) div 4 = byte b"
    using b by simp
  show "(byte b mod 16 * 4 + byte c div 64) mod 4 * 64 + byte c mod 64 = byte c" using c by simp
  show "byte a div 4 * 4 + byte a mod 4 * 16 div 16 = byte a" by simp
qed

lemma b64_values_encode:
  "\<exists>vs. b64_values (b64_encode bs) = Some vs \<and> b64_join vs = Some bs"
proof (induction bs rule: b64_encode.induct)
  case (4 a b c cs)
  then obtain vs where "b64_values (b64_encode cs) = Some vs" "b64_join vs = Some cs" by blast
  then show ?case by (simp add: byte_quarters byte_recombine)
qed (simp_all add: byte_quarters byte_recombine)

lemma b64_decode_encode [simp]: "b64_decode (b64_encode bs) = Some bs"
  using b64_values_encode [of bs] by (auto simp: b64_decode_def b64_filter_encode)

end
