(* ===== verification/Blob_Store.thy ===== *)
theory Blob_Store
  imports Run_Lifecycle Go_Crypto "HOL-Library.AList"
begin

text \<open>
  Externalized step outputs: content-addressed blob references scoped to a tenant
  (\<^verbatim>\<open>pkg/runstate/blob_scope.go\<close>), the in-memory blob store (\<^verbatim>\<open>internal/adapter/blob/inmem/store.go\<close>), the
  references a snapshot holds (\<^verbatim>\<open>blob_refs.go\<close>), the purge of orphaned blobs (\<^verbatim>\<open>blob_admin.go\<close>) and the
  loading of step outputs (\<^verbatim>\<open>hydrate.go\<close>). Decoding JSON into a step output reference is an argument.
\<close>

section \<open>References\<close>

definition blobDigestHexLength :: nat where
  "blobDigestHexLength = 32 * 2"

definition NewBlobRef :: "string \<Rightarrow> bytes \<Rightarrow> blob_ref" where
  "NewBlobRef ident data = \<lparr>BlobID = ident, BlobSize = int (length data), BlobSha256 = hex_encode (sha256 data)\<rparr>"

definition tenantIDFromContext :: "gctx \<Rightarrow> string" where
  "tenantIDFromContext ctx =
     (case PrincipalFromContext ctx of None \<Rightarrow> [] | Some p \<Rightarrow> ScopeTenantID (PrincipalScope p))"

definition blobTenantHash :: "string \<Rightarrow> string" where
  "blobTenantHash tenantID =
     hex_encode (sha256 (''agentflow/blob-tenant/v1'' @ [char_of (0 :: nat)] @ tenantID))"

definition validBlobHex :: "string \<Rightarrow> bool" where
  "validBlobHex value =
     (case hex_decode value of None \<Rightarrow> False | Some d \<Rightarrow> length d = 32 \<or> length d = 2 * 32)"

definition NewBlobRefForContext :: "gctx \<Rightarrow> bytes \<Rightarrow> go_error + blob_ref" where
  "NewBlobRefForContext ctx data =
     (let ref = NewBlobRef [] data; tenantID = tenantIDFromContext ctx in
      if tenantID = [] then Inr (ref\<lparr>BlobID := BlobSha256 ref\<rparr>)
      else Inr (ref\<lparr>BlobID := blobTenantHash tenantID @ BlobSha256 ref\<rparr>))"

text \<open>The result is the tenant hash, the digest and the flag \<^verbatim>\<open>legacy\<close>.\<close>

definition ParseBlobID :: "string \<Rightarrow> go_error + string \<times> string \<times> bool" where
  "ParseBlobID ident =
     (if length ident = blobDigestHexLength then
        (if \<not> validBlobHex ident then Inl (Errorf ''runstate: invalid blob id %q'' [ident] None)
         else Inr ([], ident, True))
      else if length ident = 2 * blobDigestHexLength then
        (if \<not> validBlobHex ident then Inl (Errorf ''runstate: invalid blob id %q'' [ident] None)
         else Inr (take blobDigestHexLength ident, drop blobDigestHexLength ident, False))
      else Inl (Errorf ''runstate: invalid blob id %q'' [ident] None))"

definition AuthorizeBlobAccess :: "gctx \<Rightarrow> blob_ref \<Rightarrow> go_error option" where
  "AuthorizeBlobAccess ctx ref =
     (case ParseBlobID (BlobID ref) of
        Inl e \<Rightarrow> Some e
      | Inr (tenantHash, digest, legacy) \<Rightarrow>
          if legacy then None
          else
            (let tenantID = tenantIDFromContext ctx in
             if tenantID = [] then
               (if TenantStrictModeFromContext ctx then Some ErrTenantRequired else None)
             else if tenantHash \<noteq> blobTenantHash tenantID then Some ErrTenantMismatch
             else None))"

definition FilterBlobRefsForTenant :: "blob_ref list \<Rightarrow> string \<Rightarrow> blob_ref list" where
  "FilterBlobRefsForTenant refs tenantID =
     (if tenantID = [] then refs
      else
        (let expected = blobTenantHash tenantID in
         filter (\<lambda>ref. case ParseBlobID (BlobID ref) of
                         Inl _ \<Rightarrow> False
                       | Inr (tenantHash, _, legacy) \<Rightarrow> \<not> legacy \<and> tenantHash = expected) refs))"

definition FilterBlobRefsForContext :: "gctx \<Rightarrow> blob_ref list \<Rightarrow> go_error + blob_ref list" where
  "FilterBlobRefsForContext ctx refs =
     (if tenantIDFromContext ctx = [] \<and> \<not> TenantStrictModeFromContext ctx then Inr refs
      else Inr (filter (\<lambda>ref. AuthorizeBlobAccess ctx ref = None) refs))"

section \<open>The in-memory store\<close>

type_synonym blobs = "string \<Rightarrow> bytes option"

definition Blobs_Put :: "gctx \<Rightarrow> blobs \<Rightarrow> bytes \<Rightarrow> blobs \<times> (go_error + blob_ref)" where
  "Blobs_Put ctx b data =
     (case CtxErr ctx of Some e \<Rightarrow> (b, Inl e) | None \<Rightarrow>
     (case NewBlobRefForContext ctx data of Inl e \<Rightarrow> (b, Inl e) | Inr ref \<Rightarrow>
        (b(BlobID ref \<mapsto> take (length data) data), Inr ref)))"

definition Blobs_Get :: "gctx \<Rightarrow> blobs \<Rightarrow> blob_ref \<Rightarrow> go_error + bytes" where
  "Blobs_Get ctx b ref =
     (case CtxErr ctx of Some e \<Rightarrow> Inl e | None \<Rightarrow>
     (case AuthorizeBlobAccess ctx ref of Some e \<Rightarrow> Inl e | None \<Rightarrow>
     (case b (BlobID ref) of None \<Rightarrow> Inl ErrNotFound | Some data \<Rightarrow> Inr (take (length data) data))))"

text \<open>\<open>order\<close> is the order the map is walked in.\<close>

fun blob_refs_of :: "blobs \<Rightarrow> string list \<Rightarrow> blob_ref list" where
  "blob_refs_of b [] = []"
| "blob_refs_of b (ident # order) =
     (case b ident of None \<Rightarrow> blob_refs_of b order | Some data \<Rightarrow> NewBlobRef ident data # blob_refs_of b order)"

definition Blobs_List :: "string list \<Rightarrow> gctx \<Rightarrow> blobs \<Rightarrow> go_error + blob_ref list" where
  "Blobs_List order ctx b =
     (case CtxErr ctx of Some e \<Rightarrow> Inl e | None \<Rightarrow> FilterBlobRefsForContext ctx (blob_refs_of b order))"

definition Blobs_Delete :: "gctx \<Rightarrow> blobs \<Rightarrow> blob_ref \<Rightarrow> blobs \<times> go_error option" where
  "Blobs_Delete ctx b ref =
     (case CtxErr ctx of Some e \<Rightarrow> (b, Some e) | None \<Rightarrow>
     (case AuthorizeBlobAccess ctx ref of Some e \<Rightarrow> (b, Some e) | None \<Rightarrow>
        (b(BlobID ref := None), None)))"

section \<open>References of a snapshot\<close>

text \<open>The map of references is an association list written through \<open>AList.update\<close>.\<close>

fun collect_outputs :: "(string \<times> step_output_ref) list \<Rightarrow> (string \<times> blob_ref) list \<Rightarrow> (string \<times> blob_ref) list" where
  "collect_outputs [] refs = refs"
| "collect_outputs ((_, output) # rest) refs =
     collect_outputs rest
       (case Blob output of
          Some b \<Rightarrow> if BlobID b \<noteq> [] then AList.update (BlobID b) b refs else refs
        | None \<Rightarrow> refs)"

fun collect_variables ::
  "(bytes \<Rightarrow> go_error + step_output_ref) \<Rightarrow> (string \<times> bytes) list \<Rightarrow> (string \<times> blob_ref) list
     \<Rightarrow> (string \<times> blob_ref) list" where
  "collect_variables unmarshal [] refs = refs"
| "collect_variables unmarshal ((_, raw) # rest) refs =
     collect_variables unmarshal rest
       (case trim_space raw of
          [] \<Rightarrow> refs
        | c # cs \<Rightarrow>
            if c \<noteq> CHR ''{'' then refs
            else (case unmarshal (c # cs) of
                    Inl _ \<Rightarrow> refs
                  | Inr ref \<Rightarrow>
                      (case Blob ref of
                         Some b \<Rightarrow> if BlobID b \<noteq> [] then AList.update (BlobID b) b refs else refs
                       | None \<Rightarrow> refs)))"

definition CollectBlobRefs ::
  "(bytes \<Rightarrow> go_error + step_output_ref) \<Rightarrow> run_snapshot \<Rightarrow> (string \<times> blob_ref) list" where
  "CollectBlobRefs unmarshal snapshot =
     collect_variables unmarshal (case Variables snapshot of None \<Rightarrow> [] | Some vs \<Rightarrow> vs)
       (collect_outputs (case StepOutputs snapshot of None \<Rightarrow> [] | Some outs \<Rightarrow> outs) [])"

definition CollectReferencedBlobIDs ::
  "(bytes \<Rightarrow> go_error + step_output_ref) \<Rightarrow> run_snapshot list \<Rightarrow> string list" where
  "CollectReferencedBlobIDs unmarshal snapshots =
     fold (\<lambda>snapshot ids. fold List.insert (map fst (CollectBlobRefs unmarshal snapshot)) ids) snapshots []"

section \<open>Orphan purge\<close>

text \<open>The deletion loop: it stops at the first error, with the count so far.\<close>

fun purge_loop :: "gctx \<Rightarrow> string list \<Rightarrow> blob_ref list \<Rightarrow> blobs \<Rightarrow> nat \<Rightarrow> blobs \<times> nat \<times> go_error option" where
  "purge_loop ctx referenced [] b removed = (b, removed, None)"
| "purge_loop ctx referenced (ref # refs) b removed =
     (if BlobID ref \<in> set referenced then purge_loop ctx referenced refs b removed
      else (case Blobs_Delete ctx b ref of
              (b', Some e) \<Rightarrow> (b', removed, Some e)
            | (b', None) \<Rightarrow> purge_loop ctx referenced refs b' (removed + 1)))"

text \<open>
  The purge reads the blob store, then the repository, then the repository again, then deletes; other
  callers write in between, so it takes the state each read sees: \<open>stored\<close> is what \<^verbatim>\<open>admin.List\<close> gave,
  \<open>listed\<close> and \<open>relisted\<close> what the two \<^verbatim>\<open>runs.List\<close> gave, and \<open>b\<close> the store when the deletions start.
\<close>

definition PurgeOrphanBlobs ::
  "(bytes \<Rightarrow> go_error + step_output_ref) \<Rightarrow> gctx \<Rightarrow> go_error + blob_ref list
     \<Rightarrow> go_error + run_snapshot list \<Rightarrow> go_error + run_snapshot list \<Rightarrow> blobs \<Rightarrow> list_filter
     \<Rightarrow> blobs \<times> nat \<times> go_error option" where
  "PurgeOrphanBlobs unmarshal ctx stored listed relisted b flt =
     (case stored of Inl e \<Rightarrow> (b, 0, Some e) | Inr stored0 \<Rightarrow>
      (let stored1 = FilterBlobRefsForTenant stored0 (FilterTenantID flt) in
       case listed of Inl e \<Rightarrow> (b, 0, Some e) | Inr snapshots \<Rightarrow>
       (let referenced = CollectReferencedBlobIDs unmarshal snapshots;
            candidates = filter (\<lambda>ref. BlobID ref \<noteq> [] \<and> BlobID ref \<notin> set referenced) stored1
        in if candidates = [] then (b, 0, None)
           else (case relisted of Inl e \<Rightarrow> (b, 0, Some e) | Inr recheck \<Rightarrow>
                  purge_loop ctx (CollectReferencedBlobIDs unmarshal recheck) candidates b 0))))"

section \<open>Loading step outputs\<close>

text \<open>A \<^verbatim>\<open>nil\<close> blob store is \<open>None\<close>.\<close>

definition LoadStepOutput :: "gctx \<Rightarrow> blobs option \<Rightarrow> step_output_ref \<Rightarrow> go_error + bytes" where
  "LoadStepOutput ctx store ref =
     (case Blob ref of
        Some b \<Rightarrow>
          (case store of
             None \<Rightarrow> Inl (Errorf ''runstate: blob store is required for externalized step output'' [] None)
           | Some s \<Rightarrow> Blobs_Get ctx s b)
      | None \<Rightarrow>
          (case Inline ref of
             None \<Rightarrow> Inr ''null''
           | Some raw \<Rightarrow> if raw = [] then Inr ''null'' else Inr raw))"

text \<open>
  \<^verbatim>\<open>errgroup\<close> runs the loads concurrently and keeps the first error to occur: \<open>order\<close> lists the outputs
  in the order their loads end. \<open>marshal\<close> is the JSON text of the steps.
\<close>

fun hydrate_loop ::
  "gctx \<Rightarrow> blobs option \<Rightarrow> (string \<times> step_output_ref) list \<Rightarrow> (string \<times> bytes) list
     \<Rightarrow> go_error + (string \<times> bytes) list" where
  "hydrate_loop ctx store [] steps = Inr steps"
| "hydrate_loop ctx store ((nodeID, ref) # rest) steps =
     (case LoadStepOutput ctx store ref of
        Inl e \<Rightarrow> Inl (Errorf ''runstate: hydrate step %q: %w'' [nodeID] (Some e))
      | Inr raw \<Rightarrow> hydrate_loop ctx store rest (AList.update nodeID raw steps))"

definition HydrateStepContext ::
  "((string \<times> bytes) list \<Rightarrow> go_error + bytes) \<Rightarrow> gctx \<Rightarrow> blobs option \<Rightarrow> (string \<times> step_output_ref) list
     \<Rightarrow> go_error + bytes option" where
  "HydrateStepContext marshal ctx store order =
     (if order = [] then Inr None
      else (case hydrate_loop ctx store order [] of
              Inl e \<Rightarrow> Inl e
            | Inr steps \<Rightarrow>
                (case marshal steps of
                   Inl e \<Rightarrow> Inl (Errorf ''runstate: marshal hydrated context: %w'' [] (Some e))
                 | Inr payload \<Rightarrow> Inr (Some payload))))"

section \<open>Lemmas\<close>

lemma validBlobHex_encode: "length bs = 32 \<or> length bs = 64 \<Longrightarrow> validBlobHex (hex_encode bs)"
  by (auto simp: validBlobHex_def)

lemma length_blobTenantHash [simp]: "length (blobTenantHash t) = 64"
  by (simp add: blobTenantHash_def)

text \<open>The references the store hands out parse, and carry their tenant.\<close>

lemma ParseBlobID_new:
  "ParseBlobID (hex_encode (sha256 data)) = Inr ([], hex_encode (sha256 data), True)"
  "ParseBlobID (blobTenantHash t @ hex_encode (sha256 data)) =
     Inr (blobTenantHash t, hex_encode (sha256 data), False)"
proof -
  show "ParseBlobID (hex_encode (sha256 data)) = Inr ([], hex_encode (sha256 data), True)"
    by (simp add: ParseBlobID_def blobDigestHexLength_def validBlobHex_encode)
  have "validBlobHex (blobTenantHash t @ hex_encode (sha256 data))"
    unfolding blobTenantHash_def hex_encode_append [symmetric] by (rule validBlobHex_encode) simp
  then show "ParseBlobID (blobTenantHash t @ hex_encode (sha256 data)) =
     Inr (blobTenantHash t, hex_encode (sha256 data), False)"
    by (simp add: ParseBlobID_def blobDigestHexLength_def)
qed

lemma Blobs_Put_ok:
  "Blobs_Put ctx b data = (b', Inr ref) \<longleftrightarrow> CtxErr ctx = None \<and> b' = b(BlobID ref \<mapsto> data)
     \<and> ref = (NewBlobRef [] data)\<lparr>BlobID :=
           (if tenantIDFromContext ctx = [] then [] else blobTenantHash (tenantIDFromContext ctx))
           @ hex_encode (sha256 data)\<rparr>"
  by (auto simp: Blobs_Put_def NewBlobRefForContext_def NewBlobRef_def Let_def split: option.splits)

lemma Blobs_Put_live: "CtxErr ctx = None \<Longrightarrow> \<exists>b' ref. Blobs_Put ctx b data = (b', Inr ref)"
  by (simp add: Blobs_Put_ok)

lemma AuthorizeBlobAccess_new:
  "BlobID ref = (if t = [] then [] else blobTenantHash t) @ hex_encode (sha256 data) \<Longrightarrow>
     t = [] \<or> tenantIDFromContext ctx = t \<Longrightarrow> AuthorizeBlobAccess ctx ref = None"
  by (auto simp: AuthorizeBlobAccess_def ParseBlobID_new Let_def)

text \<open>The references of a snapshot, as a set.\<close>

definition var_ref :: "(bytes \<Rightarrow> go_error + step_output_ref) \<Rightarrow> bytes \<Rightarrow> blob_ref option" where
  "var_ref unmarshal raw =
     (if trim_space raw \<noteq> [] \<and> hd (trim_space raw) = CHR ''{'' then
        (case unmarshal (trim_space raw) of Inr ref \<Rightarrow> Blob ref | Inl _ \<Rightarrow> None) else None)"

definition blob_ids :: "(bytes \<Rightarrow> go_error + step_output_ref) \<Rightarrow> run_snapshot \<Rightarrow> string set" where
  "blob_ids unmarshal s =
     {BlobID b | b. BlobID b \<noteq> [] \<and>
        ((\<exists>outs k output. StepOutputs s = Some outs \<and> (k, output) \<in> set outs \<and> Blob output = Some b)
         \<or> (\<exists>vs k raw. Variables s = Some vs \<and> (k, raw) \<in> set vs \<and> var_ref unmarshal raw = Some b))}"

lemma keys_update: "fst ` set (AList.update k v al) = insert k (fst ` set al)"
  by (simp add: dom_map_of_conv_image_fst [symmetric] update_conv')

lemma collect_outputs_keys:
  "fst ` set (collect_outputs outs refs) = fst ` set refs \<union>
     {BlobID b | b. BlobID b \<noteq> [] \<and> (\<exists>k output. (k, output) \<in> set outs \<and> Blob output = Some b)}"
  by (induction outs refs rule: collect_outputs.induct) (auto simp: keys_update split: option.splits)

lemma collect_variables_step:
  "collect_variables unmarshal ((k, raw) # rest) refs = collect_variables unmarshal rest
     (case var_ref unmarshal raw of
        Some b \<Rightarrow> if BlobID b \<noteq> [] then AList.update (BlobID b) b refs else refs | None \<Rightarrow> refs)"
  by (auto simp: var_ref_def split: list.splits sum.splits)

lemma collect_variables_keys:
  "fst ` set (collect_variables unmarshal vs refs) = fst ` set refs \<union>
     {BlobID b | b. BlobID b \<noteq> [] \<and> (\<exists>k raw. (k, raw) \<in> set vs \<and> var_ref unmarshal raw = Some b)}"
proof (induction vs arbitrary: refs)
  case (Cons v vs)
  obtain k raw where v: "v = (k, raw)" by (cases v)
  show ?case
    unfolding v collect_variables_step Cons.IH
    by (auto simp: keys_update split: option.splits)
qed simp

lemma CollectBlobRefs_keys: "fst ` set (CollectBlobRefs unmarshal s) = blob_ids unmarshal s"
  by (cases "StepOutputs s"; cases "Variables s")
    (simp_all add: CollectBlobRefs_def collect_variables_keys collect_outputs_keys blob_ids_def, blast+)

lemma set_fold_insert: "set (fold List.insert xs ys) = set xs \<union> set ys"
  by (induction xs arbitrary: ys) auto

lemma CollectReferencedBlobIDs_set:
  "set (CollectReferencedBlobIDs unmarshal snapshots) = (\<Union>s \<in> set snapshots. blob_ids unmarshal s)"
proof -
  have "set (fold (\<lambda>snapshot ids. fold List.insert (map fst (CollectBlobRefs unmarshal snapshot)) ids) snapshots ids)
      = set ids \<union> (\<Union>s \<in> set snapshots. blob_ids unmarshal s)" for ids
    by (induction snapshots arbitrary: ids)
      (auto simp: set_fold_insert CollectBlobRefs_keys [symmetric])
  then show ?thesis by (simp add: CollectReferencedBlobIDs_def)
qed

lemma purge_loop_effect:
  assumes "purge_loop ctx referenced refs b removed = (b', n, err)"
  shows "b' ident \<noteq> b ident \<Longrightarrow> b' ident = None \<and> ident \<notin> set referenced
           \<and> (\<exists>ref \<in> set refs. BlobID ref = ident \<and> AuthorizeBlobAccess ctx ref = None)"
    and "removed \<le> n"
  using assms
proof (induction refs arbitrary: b removed)
  case (Cons ref refs)
  { case 1
    then show ?case
      using Cons.IH(1) by (auto simp: Blobs_Delete_def split: option.splits if_splits)
        (metis fun_upd_apply)+
  next
    case 2
    then show ?case
      using Cons.IH(2) by (fastforce simp: Blobs_Delete_def split: option.splits if_splits)
  }
qed auto

section \<open>Properties\<close>

text \<open>
  A blob reads back as it was written. After a successful put, every live caller of the same tenant
  gets the bytes under the returned reference, and when the writer had no tenant every live caller does.
\<close>

lemma blob_put_get:
  assumes "Blobs_Put ctx b data = (b', Inr ref)" and "CtxErr ctx' = None"
    and "tenantIDFromContext ctx = [] \<or> tenantIDFromContext ctx' = tenantIDFromContext ctx"
  shows "Blobs_Get ctx' b' ref = Inr data \<and> BlobSize ref = int (length data)"
proof -
  from assms(1) have b': "b' = b(BlobID ref \<mapsto> data)" and size: "BlobSize ref = int (length data)"
    and ident: "BlobID ref = (if tenantIDFromContext ctx = [] then [] else blobTenantHash (tenantIDFromContext ctx))
      @ hex_encode (sha256 data)"
    by (simp_all add: Blobs_Put_ok NewBlobRef_def)
  from AuthorizeBlobAccess_new [OF ident assms(3)] assms(2) b' size show ?thesis
    by (simp add: Blobs_Get_def)
qed

text \<open>
  C39: blobs of a tenant stay with it. A blob written under a tenant cannot be read or deleted by a caller
  of a tenant with another hash, nor by a caller without a tenant unless it opted out of strict mode; such
  a caller does not see it in a listing either.
\<close>

theorem blob_tenant_isolation:
  assumes "Blobs_Put ctx b data = (b', Inr ref)" and "tenantIDFromContext ctx \<noteq> []"
    and "tenantIDFromContext ctx' = [] \<and> \<not> CtxPermissive ctx'
         \<or> tenantIDFromContext ctx' \<noteq> []
           \<and> blobTenantHash (tenantIDFromContext ctx') \<noteq> blobTenantHash (tenantIDFromContext ctx)"
  shows "(\<exists>e. Blobs_Get ctx' b'' ref = Inl e) \<and> fst (Blobs_Delete ctx' b'' ref) = b''
    \<and> (\<forall>out r. Blobs_List order ctx' b'' = Inr out \<longrightarrow> r \<in> set out \<longrightarrow> BlobID r \<noteq> BlobID ref)"
proof -
  from assms have ref: "BlobID ref = blobTenantHash (tenantIDFromContext ctx) @ hex_encode (sha256 data)"
    by (simp add: Blobs_Put_ok)
  have auth: "AuthorizeBlobAccess ctx' r \<noteq> None" if "BlobID r = BlobID ref" for r
    using assms(3) by (auto simp: AuthorizeBlobAccess_def that ref ParseBlobID_new
        TenantStrictModeFromContext_def Let_def)
  have "BlobID r \<noteq> BlobID ref" if "Blobs_List order ctx' b'' = Inr out" "r \<in> set out" for out r
    using that auth [of r] assms(3)
    by (auto simp: Blobs_List_def FilterBlobRefsForContext_def TenantStrictModeFromContext_def
        split: option.splits if_splits)
  then show ?thesis
    using auth [of ref] by (auto simp: Blobs_Get_def Blobs_Delete_def split: option.splits)
qed

theorem blob_tenant_isolation_witness:
  "\<exists>b' ref. Blobs_Put (WithPrincipal Background (sample_principal ''a'')) Map.empty ''hi'' = (b', Inr ref)
     \<and> (\<exists>e. Blobs_Get Background b' ref = Inl e)"
proof -
  let ?ctx = "WithPrincipal Background (sample_principal ''a'')"
  obtain b' ref where p: "Blobs_Put ?ctx Map.empty ''hi'' = (b', Inr ref)"
    using Blobs_Put_live [of ?ctx Map.empty "''hi''"] by (auto simp: WithPrincipal_def Background_def)
  have "\<exists>e. Blobs_Get Background b' ref = Inl e"
    using blob_tenant_isolation [OF p, of Background b' "[]"]
    by (simp add: tenantIDFromContext_def PrincipalFromContext_def WithPrincipal_def Background_def)
  with p show ?thesis by blast
qed

text \<open>
  The orphan purge is safe. Whatever the two listings and the state of the store at the deletions
  are, the purge only ever removes entries, and an entry it removes was among the blobs listed at its
  start, is referenced by no run of either listing, and, when the filter names a tenant, belongs to that
  tenant.
\<close>

theorem PurgeOrphanBlobs_safe:
  assumes "PurgeOrphanBlobs unmarshal ctx (Inr stored) (Inr snapshots) (Inr recheck) b flt = (b', n, err)"
    and "b' ident \<noteq> b ident"
  shows "b' ident = None \<and> (\<exists>ref \<in> set stored. BlobID ref = ident)
    \<and> (\<forall>s \<in> set snapshots \<union> set recheck. ident \<notin> blob_ids unmarshal s)
    \<and> (FilterTenantID flt \<noteq> [] \<longrightarrow> (\<exists>digest. ParseBlobID ident = Inr (blobTenantHash (FilterTenantID flt), digest, False)))"
proof -
  let ?stored = "FilterBlobRefsForTenant stored (FilterTenantID flt)"
  let ?cand = "filter (\<lambda>ref. BlobID ref \<noteq> [] \<and> BlobID ref \<notin> set (CollectReferencedBlobIDs unmarshal snapshots)) ?stored"
  from assms have pl: "purge_loop ctx (CollectReferencedBlobIDs unmarshal recheck) ?cand b 0 = (b', n, err)"
    by (auto simp: PurgeOrphanBlobs_def Let_def split: if_splits)
  from purge_loop_effect(1) [OF pl assms(2)] obtain ref where r: "b' ident = None" "ref \<in> set ?cand"
    "BlobID ref = ident" "ident \<notin> set (CollectReferencedBlobIDs unmarshal recheck)" by blast
  then have "\<forall>s \<in> set snapshots \<union> set recheck. ident \<notin> blob_ids unmarshal s"
    by (auto simp: CollectReferencedBlobIDs_set)
  moreover from r(2,3) have "\<exists>ref \<in> set stored. BlobID ref = ident"
    by (auto simp: FilterBlobRefsForTenant_def Let_def split: if_splits)
  moreover from r(2,3) have "FilterTenantID flt \<noteq> [] \<longrightarrow>
      (\<exists>digest. ParseBlobID ident = Inr (blobTenantHash (FilterTenantID flt), digest, False))"
    by (cases "ParseBlobID ident") (auto simp: FilterBlobRefsForTenant_def Let_def split: if_splits)
  ultimately show ?thesis using r(1) by blast
qed

text \<open>A run \<open>q\<close> that references one blob, and a store with that blob and another.\<close>

definition sample_digest :: "bytes \<Rightarrow> string" where
  "sample_digest data = hex_encode (sha256 data)"

definition run_with_blob :: "string \<Rightarrow> string \<Rightarrow> run_snapshot" where
  "run_with_blob scenario ident = (sample_run ''q'' RunStatusRunning [])\<lparr>ScenarioName := scenario,
     StepOutputs := Some [(''n'', \<lparr>Inline = None, Blob = Some (NewBlobRef ident [])\<rparr>)]\<rparr>"

lemma blob_ids_run_with_blob: "blob_ids unmarshal (run_with_blob scenario ident) = (if ident = [] then {} else {ident})"
  by (auto simp: blob_ids_def run_with_blob_def sample_run_def NewBlobRef_def)

lemma sample_digest_access: "AuthorizeBlobAccess ctx (NewBlobRef (sample_digest data) data) = None"
  by (simp add: AuthorizeBlobAccess_def NewBlobRef_def sample_digest_def ParseBlobID_new)

lemma sample_digest_nonempty: "sample_digest data \<noteq> []"
proof
  assume "sample_digest data = []"
  then have "length (sample_digest data) = 0" by simp
  then show False by (simp add: sample_digest_def)
qed

theorem PurgeOrphanBlobs_safe_witness:
  "\<exists>b' n. PurgeOrphanBlobs (\<lambda>_. Inl ErrNotFound) Background (Inr [NewBlobRef (sample_digest ''x'') ''x'']) (Inr []) (Inr [])
     [sample_digest ''x'' \<mapsto> ''x''] EmptyListFilter = (b', n, None) \<and> b' (sample_digest ''x'') = None"
proof -
  let ?ref = "NewBlobRef (sample_digest ''x'') ''x''" and ?b = "[sample_digest ''x'' \<mapsto> ''x'']"
  let ?p = "PurgeOrphanBlobs (\<lambda>_. Inl ErrNotFound) Background (Inr [?ref]) (Inr []) (Inr []) ?b EmptyListFilter"
  have p: "?p = (Map.empty, 1, None)"
    using sample_digest_access [of Background "''x''"] sample_digest_nonempty [of "''x''"]
    by (simp add: PurgeOrphanBlobs_def FilterBlobRefsForTenant_def EmptyListFilter_def
        CollectReferencedBlobIDs_def Blobs_Delete_def Background_def)
      (simp add: NewBlobRef_def fun_eq_iff)
  from PurgeOrphanBlobs_safe [OF p, of "sample_digest ''x''"] p show ?thesis by auto
qed

end
