(* ===== verification/Scenario.thy ===== *)
theory Scenario
  imports Go_Text "HOL-Library.AList"
begin

text \<open>
  The declarative configuration of an agent system: tools, agents, skills, workflows and policies of
  \<^verbatim>\<open>pkg/core/types.go\<close> and \<^verbatim>\<open>pkg/core/workflow.go\<close>. A string type with named constants is a datatype whose
  last constructor holds any other string; the empty string is one of those. A map keyed by names is an
  association list read through \<open>map_of\<close>, its order standing for the order the runtime walks the map in.
  Fields that no modelled code reads (descriptions, free metadata, provider tuning) are left out.
\<close>

section \<open>Tools\<close>

datatype approval_policy = ApprovalNever | ApprovalRisky | ApprovalAlways | ApprovalPause | ApprovalOther string

datatype side_effect_level =
    SideEffectNone | SideEffectRead | SideEffectWrite | SideEffectExternal | SideEffectDangerous
  | SideEffectOther string

fun approval_text :: "approval_policy \<Rightarrow> string" where
  "approval_text ApprovalNever = ''never''"
| "approval_text ApprovalRisky = ''risky''"
| "approval_text ApprovalAlways = ''always''"
| "approval_text ApprovalPause = ''pause''"
| "approval_text (ApprovalOther s) = s"

fun side_effect_text :: "side_effect_level \<Rightarrow> string" where
  "side_effect_text SideEffectNone = ''none''"
| "side_effect_text SideEffectRead = ''read''"
| "side_effect_text SideEffectWrite = ''write''"
| "side_effect_text SideEffectExternal = ''external''"
| "side_effect_text SideEffectDangerous = ''dangerous''"
| "side_effect_text (SideEffectOther s) = s"

record tool =
  ToolName :: string
  ToolType :: string
  ToolInputSchema :: bytes
  ToolSideEffect :: side_effect_level
  ToolApproval :: approval_policy
  ToolLLM :: string
  ToolRateCap :: int
  ToolTimeout :: duration
  ToolMetadata :: "(string \<times> string) list"

section \<open>Workflows\<close>

datatype node_kind =
    NodeAgent | NodeTool | NodeSkill | NodeHumanGate | NodeTransform | NodeParallelGroup | NodeLoop
  | NodeQueryRouter | NodeRAGGrade | NodeSupervisor | NodeSubgraph | NodeMap | NodeKindOther string

fun node_kind_text :: "node_kind \<Rightarrow> string" where
  "node_kind_text NodeAgent = ''agent''"
| "node_kind_text NodeTool = ''tool''"
| "node_kind_text NodeSkill = ''skill''"
| "node_kind_text NodeHumanGate = ''human_gate''"
| "node_kind_text NodeTransform = ''transform''"
| "node_kind_text NodeParallelGroup = ''parallel_group''"
| "node_kind_text NodeLoop = ''loop''"
| "node_kind_text NodeQueryRouter = ''query_router''"
| "node_kind_text NodeRAGGrade = ''rag_grade''"
| "node_kind_text NodeSupervisor = ''supervisor''"
| "node_kind_text NodeSubgraph = ''subgraph''"
| "node_kind_text NodeMap = ''map''"
| "node_kind_text (NodeKindOther s) = s"

record workflow_node =
  NodeID :: string
  NodeKind :: node_kind
  NodeRef :: string
  NodeInput :: bytes
  DependsOn :: "string list"
  NodeCondition :: string
  Interrupt :: bool
  RetryMaxAttempts :: int

record workflow_edge =
  EdgeFrom :: string
  EdgeTo :: string
  EdgeCondition :: string

record workflow =
  Nodes :: "workflow_node list"
  Edges :: "workflow_edge list"

section \<open>Agents, skills, memories and policies\<close>

record llm_profile =
  ProfileProvider :: string
  ProfileModel :: string

record memory_tiers =
  TiersEnabled :: bool
  HotCapacity :: int
  WarmCapacity :: int
  ColdCapacity :: int
  PromoteAccess :: int
  BudgetTotal :: int
  BudgetHot :: int
  BudgetWarm :: int
  BudgetCold :: int

record memory_ref =
  MemoryType :: string
  MemoryScope :: string
  MemoryNamespace :: string
  MemoryTiers :: "memory_tiers option"

record agent =
  AgentLLM :: string
  AgentMemory :: string
  AgentTools :: "string list"
  AgentSkills :: "string list"

record skill_tool_policy =
  PolicyTool :: string
  PolicyApproval :: approval_policy
  PolicySideEffect :: side_effect_level
  PolicyRateCap :: int

record skill =
  CompatibleAgents :: "string list"
  ToolPolicies :: "skill_tool_policy list"
  SkillWorkflow :: "workflow option"

record trigger =
  TriggerEvent :: string
  TriggerAgent :: string

datatype orchestration_mode =
  OrchestrationAutonomous | OrchestrationFixedWorkflow | OrchestrationHybrid | OrchestrationOther string

fun mode_text :: "orchestration_mode \<Rightarrow> string" where
  "mode_text OrchestrationAutonomous = ''autonomous''"
| "mode_text OrchestrationFixedWorkflow = ''fixed_workflow''"
| "mode_text OrchestrationHybrid = ''hybrid''"
| "mode_text (OrchestrationOther s) = s"

record orchestration =
  Mode :: orchestration_mode
  MainWorkflow :: "workflow option"
  Workflows :: "(string \<times> workflow) list"
  OrchMaxParallel :: int
  PlanningAgent :: string
  PlanningMaxSteps :: int

record runtime_policy =
  RtTimeout :: duration
  RtMaxRetries :: int
  RtMaxParallel :: int
  StepOutputThreshold :: int
  ValidateToolInput :: bool
  DisableToolInputValidation :: bool
  Secrets :: "(string \<times> string) list"

record scenario =
  ScName :: string
  LLMs :: "(string \<times> llm_profile) list"
  Memories :: "(string \<times> memory_ref) list"
  Tools :: "(string \<times> tool) list"
  Skills :: "(string \<times> skill) list"
  Agents :: "(string \<times> agent) list"
  Triggers :: "trigger list"
  Orch :: orchestration
  Runtime :: runtime_policy

section \<open>Zero values\<close>

text \<open>The zero values of the records: what a struct literal leaves unset.\<close>

definition zero_node :: workflow_node where
  "zero_node = \<lparr>NodeID = [], NodeKind = NodeKindOther [], NodeRef = [], NodeInput = [], DependsOn = [],
     NodeCondition = [], Interrupt = False, RetryMaxAttempts = 0\<rparr>"

definition zero_tool :: tool where
  "zero_tool = \<lparr>ToolName = [], ToolType = [], ToolInputSchema = [], ToolSideEffect = SideEffectOther [],
     ToolApproval = ApprovalOther [], ToolLLM = [], ToolRateCap = 0, ToolTimeout = 0, ToolMetadata = []\<rparr>"

definition zero_orchestration :: orchestration where
  "zero_orchestration = \<lparr>Mode = OrchestrationOther [], MainWorkflow = None, Workflows = [], OrchMaxParallel = 0,
     PlanningAgent = [], PlanningMaxSteps = 0\<rparr>"

definition zero_runtime :: runtime_policy where
  "zero_runtime = \<lparr>RtTimeout = 0, RtMaxRetries = 0, RtMaxParallel = 0, StepOutputThreshold = 0,
     ValidateToolInput = False, DisableToolInputValidation = False, Secrets = []\<rparr>"

definition zero_scenario :: scenario where
  "zero_scenario = \<lparr>ScName = [], LLMs = [], Memories = [], Tools = [], Skills = [], Agents = [], Triggers = [],
     Orch = zero_orchestration, Runtime = zero_runtime\<rparr>"

lemmas zero_defs = zero_node_def zero_tool_def zero_orchestration_def zero_runtime_def zero_scenario_def

section \<open>Association lists as Go maps of sets\<close>

text \<open>A \<^verbatim>\<open>map[string]map[string]bool\<close>: a missing key reads as the empty set; adding to it makes the entry.\<close>

definition set_of :: "(string \<times> string list) list \<Rightarrow> string \<Rightarrow> string list" where
  "set_of m k = (case map_of m k of None \<Rightarrow> [] | Some xs \<Rightarrow> xs)"

definition add_to :: "string \<Rightarrow> string \<Rightarrow> (string \<times> string list) list \<Rightarrow> (string \<times> string list) list" where
  "add_to k x m = AList.update k (List.insert x (set_of m k)) m"

lemma set_of_Nil [simp]: "set_of [] k = []"
  by (simp add: set_of_def)

lemma set_of_update: "set_of (AList.update k v m) k' = (if k = k' then v else set_of m k')"
  by (simp add: set_of_def update_conv)

lemma set_of_add_to: "set (set_of (add_to k x m) k') = (if k = k' then insert x (set (set_of m k)) else set (set_of m k'))"
  by (simp add: add_to_def set_of_update)

lemma distinct_add_to: "distinct (map fst m) \<Longrightarrow> distinct (map fst (add_to k x m))"
  by (simp add: add_to_def distinct_update)

lemma set_of_in: "distinct (map fst m) \<Longrightarrow> (k, xs) \<in> set m \<Longrightarrow> set_of m k = xs"
  by (simp add: set_of_def)

lemma fold_insert_set [simp]: "set (fold List.insert xs ys) = set xs \<union> set ys"
  by (induction xs arbitrary: ys) auto

end
