(* ===== verification/Workflow_Graph.thy ===== *)
theory Workflow_Graph
  imports Scenario Run_State
begin

text \<open>
  The static side of the workflow runner (\<^verbatim>\<open>internal/application/orchestration\<close>): the dependency map of a
  workflow and the nodes that are ready (\<^verbatim>\<open>workflow.go\<close>), the bodies of loop nodes (\<^verbatim>\<open>workflow_nodes.go\<close>),
  incoming edges and the classes of their conditions (\<^verbatim>\<open>workflow_edges.go\<close>), and what a rerun from a node
  discards (\<^verbatim>\<open>workflow_checkpoint.go\<close>). \<open>decode_loop\<close> is the JSON decoder applied to a loop node's input.

  The breadth-first search of \<open>downstreamNodeIDs\<close> is shown to terminate and to compute the reachable nodes
  of the dependency relation; the truncation for a rerun is characterised through it.
\<close>

section \<open>Nodes\<close>

fun firstPositive :: "int list \<Rightarrow> int" where
  "firstPositive [] = 0"
| "firstPositive (v # vs) = (if 0 < v then v else firstPositive vs)"

fun node_by_id :: "workflow_node list \<Rightarrow> string \<Rightarrow> workflow_node option" where
  "node_by_id [] i = None"
| "node_by_id (n # ns) i = (if NodeID n = i then Some n else node_by_id ns i)"

definition nodeByID :: "workflow \<Rightarrow> string \<Rightarrow> workflow_node option" where
  "nodeByID w i = node_by_id (Nodes w) i"

definition workflowNodeByID :: "scenario \<Rightarrow> string \<Rightarrow> workflow_node option" where
  "workflowNodeByID s i = (case MainWorkflow (Orch s) of None \<Rightarrow> None | Some w \<Rightarrow> nodeByID w i)"

text \<open>The map from ids to nodes: a later node with the same id replaces an earlier one.\<close>

definition workflowNodesByID :: "workflow \<Rightarrow> (string \<times> workflow_node) list" where
  "workflowNodesByID w = fold (\<lambda>n m. AList.update (NodeID n) n m) (Nodes w) []"

section \<open>Dependencies\<close>

fun deps_of_nodes :: "workflow_node list \<Rightarrow> (string \<times> string list) list \<Rightarrow> (string \<times> string list) list" where
  "deps_of_nodes [] m = m"
| "deps_of_nodes (n # ns) m = deps_of_nodes ns (AList.update (NodeID n) (fold List.insert (DependsOn n) []) m)"

fun deps_of_edges :: "workflow_edge list \<Rightarrow> (string \<times> string list) list \<Rightarrow> (string \<times> string list) list" where
  "deps_of_edges [] m = m"
| "deps_of_edges (e # es) m = deps_of_edges es (add_to (EdgeTo e) (EdgeFrom e) m)"

definition dependencies :: "workflow \<Rightarrow> (string \<times> string list) list" where
  "dependencies w = deps_of_edges (Edges w) (deps_of_nodes (Nodes w) [])"

text \<open>\<open>pending\<close> and \<open>done\<close> are sets of ids kept as lists.\<close>

definition readyNodes :: "string list \<Rightarrow> string list \<Rightarrow> (string \<times> string list) list \<Rightarrow> string list" where
  "readyNodes pending dn deps = filter (\<lambda>i. list_all (\<lambda>d. d \<in> set dn) (set_of deps i)) pending"

section \<open>Loop bodies\<close>

record loop_spec =
  LoopBody :: "string list"
  LoopMaxIterations :: int
  LoopUntil :: string

fun loop_body_ids :: "(bytes \<Rightarrow> go_error + loop_spec) \<Rightarrow> workflow_node list \<Rightarrow> string list \<Rightarrow> go_error + string list" where
  "loop_body_ids decode_loop [] ids = Inr ids"
| "loop_body_ids decode_loop (n # ns) ids =
     (if NodeKind n \<noteq> NodeLoop \<or> NodeInput n = [] then loop_body_ids decode_loop ns ids
      else (case decode_loop (NodeInput n) of
              Inl e \<Rightarrow> Inl (Errorf ''orchestration: loop node %q decode input: %w'' [NodeID n] (Some e))
            | Inr spec \<Rightarrow> loop_body_ids decode_loop ns (fold List.insert (LoopBody spec) ids)))"

definition loopBodyNodeIDs :: "(bytes \<Rightarrow> go_error + loop_spec) \<Rightarrow> workflow \<Rightarrow> go_error + string list" where
  "loopBodyNodeIDs decode_loop w = loop_body_ids decode_loop (Nodes w) []"

section \<open>Edges\<close>

definition incomingEdges :: "workflow \<Rightarrow> string \<Rightarrow> workflow_edge list" where
  "incomingEdges w i = filter (\<lambda>e. EdgeTo e = i) (Edges w)"

datatype edge_cond_kind = EdgeCondUnconditional | EdgeCondAlwaysFalse | EdgeCondDynamic

definition classifyEdgeCondition :: "string \<Rightarrow> edge_cond_kind" where
  "classifyEdgeCondition condition =
     (let c = trim_space condition in
      if c \<in> {[], ''true'', ''always''} then EdgeCondUnconditional
      else if c \<in> {''false'', ''never''} then EdgeCondAlwaysFalse
      else EdgeCondDynamic)"

section \<open>What a rerun discards\<close>

fun add_dependents :: "string \<Rightarrow> string list \<Rightarrow> (string \<times> string list) list \<Rightarrow> (string \<times> string list) list" where
  "add_dependents i [] m = m"
| "add_dependents i (d # ds) m = add_dependents i ds (add_to d i m)"

fun dependents_of :: "(string \<times> string list) list \<Rightarrow> (string \<times> string list) list \<Rightarrow> (string \<times> string list) list" where
  "dependents_of [] m = m"
| "dependents_of ((i, ds) # rest) m = dependents_of rest (add_dependents i ds m)"

text \<open>The children of one node: those not seen yet are marked and queued.\<close>

fun visit_children :: "string list \<Rightarrow> string list \<Rightarrow> string list \<Rightarrow> string list \<times> string list" where
  "visit_children [] out queue = (out, queue)"
| "visit_children (c # cs) out queue =
     (if c \<in> set out then visit_children cs out queue else visit_children cs (c # out) (queue @ [c]))"

lemma visit_children_set: "visit_children cs out queue = (out', queue') \<Longrightarrow> set out' = set out \<union> set cs"
  by (induction cs arbitrary: out queue) (auto split: if_splits)

lemma visit_children_queue:
  "visit_children cs out queue = (out', queue') \<Longrightarrow>
     \<exists>new. queue' = queue @ new \<and> set new = set cs - set out"
proof (induction cs arbitrary: out queue)
  case (Cons c cs)
  show ?case
  proof (cases "c \<in> set out")
    case True
    with Cons show ?thesis by auto
  next
    case False
    with Cons.prems have "visit_children cs (c # out) (queue @ [c]) = (out', queue')" by simp
    from Cons.IH [OF this] obtain new where "queue' = (queue @ [c]) @ new" "set new = set cs - set (c # out)" by blast
    with False show ?thesis by (intro exI [of _ "c # new"]) auto
  qed
qed auto

definition dependent_ids :: "(string \<times> string list) list \<Rightarrow> string set" where
  "dependent_ids m = (\<Union>(k, xs) \<in> set m. set xs)"

lemma set_of_dependent_ids: "set (set_of m k) \<subseteq> dependent_ids m"
  by (cases "map_of m k") (fastforce simp: set_of_def dependent_ids_def dest: map_of_SomeD)+

lemma finite_dependent_ids [simp]: "finite (dependent_ids m)"
  by (auto simp: dependent_ids_def)

function bfs :: "(string \<times> string list) list \<Rightarrow> string list \<Rightarrow> string list \<Rightarrow> string list" where
  "bfs dependents out [] = out"
| "bfs dependents out (current # queue) =
     (case visit_children (set_of dependents current) out queue of (out', queue') \<Rightarrow> bfs dependents out' queue')"
  by pat_completeness auto

termination
proof (relation "inv_image (less_than <*lex*> less_than)
    (\<lambda>(m, out, queue). (card (dependent_ids m - set out), length queue))", goal_cases)
  case (2 m out current queue out' queue')
  have s: "set out' = set out \<union> set (set_of m current)" and
    q: "\<exists>new. queue' = queue @ new \<and> set new = set (set_of m current) - set out"
    using 2 visit_children_set visit_children_queue by metis+
  show ?case
  proof (cases "set (set_of m current) \<subseteq> set out")
    case True
    with s have "set out' = set out" by auto
    moreover from True q have "queue' = queue" by (metis Diff_eq_empty_iff append_Nil2 set_empty)
    ultimately show ?thesis by simp
  next
    case False
    then have "dependent_ids m - set out' \<subset> dependent_ids m - set out"
      using s set_of_dependent_ids [of m current] by auto
    then show ?thesis by (simp add: psubset_card_mono)
  qed
qed (auto intro: wf_inv_image wf_lex_prod)

definition downstreamNodeIDs :: "workflow \<Rightarrow> string \<Rightarrow> string list" where
  "downstreamNodeIDs w start = bfs (dependents_of (dependencies w) []) [start] [start]"

definition subgraphStepDelimiter :: string where
  "subgraphStepDelimiter = ''::''"

definition nodeOrDescendantMatches :: "string \<Rightarrow> string \<Rightarrow> bool" where
  "nodeOrDescendantMatches stepID i =
     (stepID = i \<or> has_prefix stepID (i @ ''.'') \<or> has_prefix stepID (i @ subgraphStepDelimiter))"

fun removed_bodies :: "(bytes \<Rightarrow> go_error + loop_spec) \<Rightarrow> string list \<Rightarrow> workflow_node list \<Rightarrow> string list \<Rightarrow> string list" where
  "removed_bodies decode_loop remove [] ids = ids"
| "removed_bodies decode_loop remove (n # ns) ids =
     (if NodeKind n \<noteq> NodeLoop \<or> NodeID n \<notin> set remove \<or> NodeInput n = []
      then removed_bodies decode_loop remove ns ids
      else (case decode_loop (NodeInput n) of
              Inl _ \<Rightarrow> removed_bodies decode_loop remove ns ids
            | Inr spec \<Rightarrow> removed_bodies decode_loop remove ns (fold List.insert (LoopBody spec) ids)))"

definition rerunRemovalSets :: "(bytes \<Rightarrow> go_error + loop_spec) \<Rightarrow> workflow \<Rightarrow> string \<Rightarrow> string list \<times> string list" where
  "rerunRemovalSets decode_loop w fromNodeID =
     (let remove = downstreamNodeIDs w fromNodeID in (remove, removed_bodies decode_loop remove (Nodes w) []))"

definition truncateStepOutputsForRerun ::
  "(bytes \<Rightarrow> go_error + loop_spec) \<Rightarrow> (string \<times> step_output_ref) list \<Rightarrow> workflow \<Rightarrow> string
     \<Rightarrow> (string \<times> step_output_ref) list" where
  "truncateStepOutputsForRerun decode_loop outputs w fromNodeID =
     (if outputs = [] then outputs
      else (case rerunRemovalSets decode_loop w fromNodeID of (remove, bodyIDs) \<Rightarrow>
        filter (\<lambda>(stepID, _). \<not> list_ex (nodeOrDescendantMatches stepID) remove
                  \<and> \<not> list_ex (nodeOrDescendantMatches stepID) bodyIDs) outputs))"

definition clearLoopProgressForRerun ::
  "(bytes \<Rightarrow> go_error + loop_spec) \<Rightarrow> (string \<times> bytes) list \<Rightarrow> workflow \<Rightarrow> string \<Rightarrow> (string \<times> bytes) list" where
  "clearLoopProgressForRerun decode_loop variables w fromNodeID =
     (if variables = [] then variables
      else (case rerunRemovalSets decode_loop w fromNodeID of (remove, _) \<Rightarrow>
        filter (\<lambda>(key, _). \<not> (has_prefix key ''loop_progress:'' \<and>
           list_ex (nodeOrDescendantMatches (drop (length ''loop_progress:'') key)) remove)) variables))"

definition alreadyDoneFromSnapshot :: "scenario \<Rightarrow> run_snapshot \<Rightarrow> string list" where
  "alreadyDoneFromSnapshot s snapshot =
     (let dn = map fst (case StepOutputs snapshot of None \<Rightarrow> [] | Some outs \<Rightarrow> outs) in
      if CurrentNodeID snapshot \<noteq> [] then
        (case workflowNodeByID s (CurrentNodeID snapshot) of
           Some n \<Rightarrow> if PendingGate snapshot = None \<and> (NodeKind n = NodeHumanGate \<or> Interrupt n)
                     then List.insert (CurrentNodeID snapshot) dn else dn
         | None \<Rightarrow> dn)
      else dn)"

section \<open>The dependency relation\<close>

text \<open>\<open>d\<close> must be done before \<open>n\<close>.\<close>

definition dep_rel :: "workflow \<Rightarrow> (string \<times> string) set" where
  "dep_rel w = {(d, n). d \<in> set (set_of (dependencies w) n)}"

lemma set_of_deps_of_edges:
  "set (set_of (deps_of_edges es m) n) = set (set_of m n) \<union> {EdgeFrom e |e. e \<in> set es \<and> EdgeTo e = n}"
  by (induction es arbitrary: m) (auto simp: set_of_add_to split: if_splits)

lemma set_of_deps_of_nodes:
  "set_of (deps_of_nodes ns m) i = (case map_of (rev (map (\<lambda>n. (NodeID n, n)) ns)) i of
     None \<Rightarrow> set_of m i | Some n \<Rightarrow> fold List.insert (DependsOn n) [])"
  by (induction ns arbitrary: m) (auto simp: set_of_update split: option.splits)

text \<open>When the ids are distinct, the dependencies of a node are its \<^verbatim>\<open>depends_on\<close> list and its incoming edges.\<close>

lemma dep_rel_iff:
  assumes "distinct (map NodeID (Nodes w))"
  shows "(d, i) \<in> dep_rel w \<longleftrightarrow> (\<exists>n \<in> set (Nodes w). NodeID n = i \<and> d \<in> set (DependsOn n))
     \<or> (\<exists>e \<in> set (Edges w). EdgeTo e = i \<and> EdgeFrom e = d)"
proof -
  have dist: "distinct (map fst (rev (map (\<lambda>n. (NodeID n, n)) (Nodes w))))"
    using assms by (simp add: rev_map [symmetric] comp_def)
  have m: "map_of (rev (map (\<lambda>n. (NodeID n, n)) (Nodes w))) i = Some n \<longleftrightarrow> n \<in> set (Nodes w) \<and> NodeID n = i" for n
    using map_of_eq_Some_iff [OF dist, of i n] by auto
  have "d \<in> set (set_of (deps_of_nodes (Nodes w) []) i) \<longleftrightarrow>
      (\<exists>n \<in> set (Nodes w). NodeID n = i \<and> d \<in> set (DependsOn n))"
    using m by (cases "map_of (rev (map (\<lambda>n. (NodeID n, n)) (Nodes w))) i")
      (auto simp: set_of_deps_of_nodes, metis)
  then show ?thesis by (auto simp: dep_rel_def dependencies_def set_of_deps_of_edges)
qed

lemma deps_distinct_keys [simp]: "distinct (map fst (dependencies w))"
proof -
  have "distinct (map fst m) \<Longrightarrow> distinct (map fst (deps_of_nodes ns m))" for ns m
    by (induction ns arbitrary: m) (auto simp: distinct_update)
  moreover have "distinct (map fst m) \<Longrightarrow> distinct (map fst (deps_of_edges es m))" for es m
    by (induction es arbitrary: m) (auto simp: distinct_add_to)
  ultimately show ?thesis by (simp add: dependencies_def)
qed

section \<open>The search computes reachability\<close>

lemma set_of_add_dependents:
  "set (set_of (add_dependents i ds m) d) = set (set_of m d) \<union> (if d \<in> set ds then {i} else {})"
  by (induction ds arbitrary: m) (auto simp: set_of_add_to split: if_splits)

lemma set_of_dependents:
  "set (set_of (dependents_of xs m) d) = set (set_of m d) \<union> {i. \<exists>ds. (i, ds) \<in> set xs \<and> d \<in> set ds}"
proof (induction xs arbitrary: m)
  case (Cons x xs)
  then show ?case by (cases x) (auto simp: set_of_add_dependents split: if_splits)
qed simp

lemma dependents_rel: "i \<in> set (set_of (dependents_of (dependencies w) []) d) \<longleftrightarrow> (d, i) \<in> dep_rel w"
proof -
  have "(\<exists>ds. (i, ds) \<in> set (dependencies w) \<and> d \<in> set ds) \<longleftrightarrow> d \<in> set (set_of (dependencies w) i)"
    by (auto simp: set_of_in) (auto simp: set_of_def dest: map_of_SomeD split: option.splits)
  then show ?thesis by (simp add: set_of_dependents dep_rel_def)
qed

lemma bfs_sound:
  assumes "\<And>x. x \<in> set out \<Longrightarrow> (start, x) \<in> R\<^sup>*" and "set queue \<subseteq> set out"
    and "\<And>d i. i \<in> set (set_of m d) \<longleftrightarrow> (d, i) \<in> R"
  shows "x \<in> set (bfs m out queue) \<Longrightarrow> (start, x) \<in> R\<^sup>*"
  using assms
proof (induction m out queue rule: bfs.induct)
  case (2 m out current queue)
  obtain out' queue' where v: "visit_children (set_of m current) out queue = (out', queue')" by fastforce
  from visit_children_queue [OF v] visit_children_set [OF v] 2(4)
  have q: "set queue' \<subseteq> set out'" by auto
  have "(start, y) \<in> R\<^sup>*" if "y \<in> set out'" for y
    using that visit_children_set [OF v] 2(3) [of y] 2(3) [of current] 2(4,5) by (auto intro: rtrancl_into_rtrancl)
  from 2(1) [OF v [symmetric] _ this q 2(5)] 2(2) v show ?case by simp
qed simp

lemma bfs_closed:
  assumes "set queue \<subseteq> set out" and "\<And>d i. d \<in> set out - set queue \<Longrightarrow> i \<in> set (set_of m d) \<Longrightarrow> i \<in> set out"
  shows "set out \<subseteq> set (bfs m out queue) \<and> (\<forall>d \<in> set (bfs m out queue). set (set_of m d) \<subseteq> set (bfs m out queue))"
  using assms
proof (induction m out queue rule: bfs.induct)
  case (2 m out current queue)
  obtain out' queue' where v: "visit_children (set_of m current) out queue = (out', queue')" by fastforce
  from visit_children_queue [OF v] obtain new where new: "queue' = queue @ new" "set new = set (set_of m current) - set out"
    by blast
  have out': "set out' = set out \<union> set (set_of m current)" using visit_children_set [OF v] .
  have "set queue' \<subseteq> set out'" using 2(2) new out' by auto
  moreover have "i \<in> set out'" if "d \<in> set out' - set queue'" and "i \<in> set (set_of m d)" for d i
    using that 2(3) [of d i] new out' by (cases "d = current") auto
  ultimately show ?case using 2(1) [OF v [symmetric]] out' v by auto
qed auto

lemma downstream_reachable: "set (downstreamNodeIDs w start) = {x. (start, x) \<in> (dep_rel w)\<^sup>*}"
proof
  show "set (downstreamNodeIDs w start) \<subseteq> {x. (start, x) \<in> (dep_rel w)\<^sup>*}"
    unfolding downstreamNodeIDs_def
    using bfs_sound [of "[start]" start "dep_rel w" "[start]" "dependents_of (dependencies w) []"] dependents_rel
    by auto
next
  let ?m = "dependents_of (dependencies w) []"
  have c: "start \<in> set (bfs ?m [start] [start]) \<and>
      (\<forall>d \<in> set (bfs ?m [start] [start]). set (set_of ?m d) \<subseteq> set (bfs ?m [start] [start]))"
    using bfs_closed [of "[start]" "[start]" ?m] by simp
  have "(start, x) \<in> (dep_rel w)\<^sup>* \<Longrightarrow> x \<in> set (bfs ?m [start] [start])" for x
    by (induction rule: rtrancl_induct) (use c dependents_rel in blast)+
  then show "{x. (start, x) \<in> (dep_rel w)\<^sup>*} \<subseteq> set (downstreamNodeIDs w start)"
    by (auto simp: downstreamNodeIDs_def)
qed

section \<open>What a rerun keeps\<close>

lemma set_removed_bodies:
  "set (removed_bodies decode_loop remove ns ids) = set ids \<union> {b. \<exists>n spec. n \<in> set ns \<and> NodeKind n = NodeLoop
     \<and> NodeID n \<in> set remove \<and> NodeInput n \<noteq> [] \<and> decode_loop (NodeInput n) = Inr spec \<and> b \<in> set (LoopBody spec)}"
proof (induction ns arbitrary: ids)
  case (Cons n ns)
  show ?case
  proof (cases "NodeKind n \<noteq> NodeLoop \<or> NodeID n \<notin> set remove \<or> NodeInput n = []")
    case True
    with Cons show ?thesis by auto
  next
    case False
    with Cons show ?thesis by (cases "decode_loop (NodeInput n)") auto
  qed
qed simp

text \<open>The ids whose state a rerun from a node discards: what is downstream of it, and the bodies of those loops.\<close>

definition discarded :: "(bytes \<Rightarrow> go_error + loop_spec) \<Rightarrow> workflow \<Rightarrow> string \<Rightarrow> string set" where
  "discarded decode_loop w start = {x. (start, x) \<in> (dep_rel w)\<^sup>*} \<union>
     {b. \<exists>n spec. n \<in> set (Nodes w) \<and> NodeKind n = NodeLoop \<and> (start, NodeID n) \<in> (dep_rel w)\<^sup>* \<and> NodeInput n \<noteq> []
        \<and> decode_loop (NodeInput n) = Inr spec \<and> b \<in> set (LoopBody spec)}"

lemma rerunRemovalSets_discarded:
  assumes "rerunRemovalSets decode_loop w start = (remove, bodies)"
  shows "set remove \<union> set bodies = discarded decode_loop w start"
proof -
  from assms have "remove = downstreamNodeIDs w start" and "bodies = removed_bodies decode_loop remove (Nodes w) []"
    by (auto simp: rerunRemovalSets_def Let_def)
  then show ?thesis by (simp add: set_removed_bodies downstream_reachable discarded_def)
qed

text \<open>
  Resuming a workflow from a node forgets exactly the steps that have to run again. The truncation
  keeps a stored step output, in its place, exactly when its id is neither the id nor below the id of a
  node that depends, directly or through others, on the chosen node (which counts as downstream of
  itself), nor of a body node of a loop among those.
\<close>

theorem rerun_truncation_exact:
  "truncateStepOutputsForRerun decode_loop outputs w start =
     filter (\<lambda>(stepID, _). \<not> (\<exists>i \<in> discarded decode_loop w start. nodeOrDescendantMatches stepID i)) outputs"
proof -
  obtain remove bodies where r: "rerunRemovalSets decode_loop w start = (remove, bodies)" by fastforce
  have "(list_ex (nodeOrDescendantMatches stepID) remove \<or> list_ex (nodeOrDescendantMatches stepID) bodies) \<longleftrightarrow>
      (\<exists>i \<in> discarded decode_loop w start. nodeOrDescendantMatches stepID i)" for stepID
    unfolding rerunRemovalSets_discarded [OF r, symmetric] by (auto simp: list_ex_iff)
  then have p: "(\<not> list_ex (nodeOrDescendantMatches stepID) remove \<and> \<not> list_ex (nodeOrDescendantMatches stepID) bodies) \<longleftrightarrow>
      \<not> (\<exists>i \<in> discarded decode_loop w start. nodeOrDescendantMatches stepID i)" for stepID
    by blast
  show ?thesis by (cases "outputs = []") (simp_all add: truncateStepOutputsForRerun_def r p)
qed

text \<open>A chain \<open>a\<close>, \<open>b\<close>, \<open>c\<close> and a node \<open>d\<close> beside it.\<close>

definition sample_node :: "string \<Rightarrow> node_kind \<Rightarrow> string list \<Rightarrow> workflow_node" where
  "sample_node i kind ds = zero_node\<lparr>NodeID := i, NodeKind := kind, DependsOn := ds\<rparr>"

definition sample_workflow :: workflow where
  "sample_workflow = \<lparr>Nodes = [sample_node ''a'' NodeTransform [], sample_node ''b'' NodeTransform [''a''],
      sample_node ''c'' NodeTransform [], sample_node ''d'' NodeTransform []],
     Edges = [\<lparr>EdgeFrom = ''b'', EdgeTo = ''c'', EdgeCondition = []\<rparr>]\<rparr>"

definition sample_outputs :: "string list \<Rightarrow> (string \<times> step_output_ref) list" where
  "sample_outputs ids = map (\<lambda>i. (i, \<lparr>Inline = Some i, Blob = None\<rparr>)) ids"

theorem rerun_truncation_exact_witness:
  "filter (\<lambda>(stepID, _). \<not> (\<exists>i \<in> discarded (\<lambda>_. Inl ErrNotFound) sample_workflow ''b''. nodeOrDescendantMatches stepID i))
       (sample_outputs [''a'', ''b'', ''c'', ''c.x'', ''d'']) = sample_outputs [''a'', ''d'']"
proof -
  have "truncateStepOutputsForRerun (\<lambda>_. Inl ErrNotFound) (sample_outputs [''a'', ''b'', ''c'', ''c.x'', ''d''])
      sample_workflow ''b'' = sample_outputs [''a'', ''d'']" by code_simp
  then show ?thesis unfolding rerun_truncation_exact .
qed

end
