(* ===== verification/Workflow_Store.thy ===== *)
theory Workflow_Store
  imports Run_Lifecycle Blob_Store Workflow_Graph
begin

text \<open>
  How the workflow runner reads and writes run state while others write it too:
  \<^verbatim>\<open>saveRunSnapshot\<close>, \<^verbatim>\<open>saveSnapshotWithRetry\<close>, \<^verbatim>\<open>pauseWithRetry\<close>, \<^verbatim>\<open>SaveStepOutput\<close>, \<^verbatim>\<open>stepOutputRef\<close>,
  \<^verbatim>\<open>stepOutputRaw\<close> and \<^verbatim>\<open>nodeAlreadyDone\<close> of \<^verbatim>\<open>internal/application/orchestration/workflow.go\<close>, the scope of
  \<^verbatim>\<open>workflow_context.go\<close> and the amendment functions of \<^verbatim>\<open>workflow_resume.go\<close>.

  Several goroutines and processes save the same run. A world holds the repository, the blob store and the
  moments at which the runner's next calls happen: for each call the clock, the state of the context and the
  saves that other writers got in just before it. When the moments are used up nobody interferes any more.
  The theorem of this theory is that the load-change-save loop of the runner is one atomic update.
\<close>

section \<open>The world\<close>

record other_save =
  OtherCtx :: gctx
  OtherNow :: gtime
  OtherSnapshot :: run_snapshot
  OtherExpected :: int

record moment =
  Now :: gtime
  CtxNow :: "go_error option"
  Others :: "other_save list"

record world =
  Repo :: repo
  Blobs :: blobs
  Moments :: "moment list"

text \<open>The parts of a \<^verbatim>\<open>WorkflowRunner\<close>: whether a repository, a blob store and fencing are there, and the redactor.\<close>

record runner =
  HasRuns :: bool
  HasBlobs :: bool
  Fenced :: bool
  Redactor :: "(string \<Rightarrow> string \<Rightarrow> bytes \<Rightarrow> go_error + bytes) option"

definition other_step :: "bool \<Rightarrow> other_save \<Rightarrow> repo \<Rightarrow> repo" where
  "other_step fenced x r = fst (SaveWithFence fenced (OtherCtx x) (OtherNow x) r (Some (OtherSnapshot x)) (OtherExpected x))"

definition quiet_moment :: moment where
  "quiet_moment = \<lparr>Now = 1, CtxNow = None, Others = []\<rparr>"

fun tick :: "bool \<Rightarrow> world \<Rightarrow> moment \<times> world" where
  "tick fenced w = (case Moments w of
       [] \<Rightarrow> (quiet_moment, w)
     | m # ms \<Rightarrow> (m, w\<lparr>Repo := fold (other_step fenced) (Others m) (Repo w), Moments := ms\<rparr>))"

definition at_moment :: "moment \<Rightarrow> gctx \<Rightarrow> gctx" where
  "at_moment m ctx = ctx\<lparr>CtxErr := CtxNow m\<rparr>"

section \<open>The scope of a step\<close>

record exec_scope =
  StepPrefix :: string
  SkipCurrentNode :: bool

definition no_scope :: exec_scope where
  "no_scope = \<lparr>StepPrefix = [], SkipCurrentNode = False\<rparr>"

definition withStepPrefix :: "exec_scope \<Rightarrow> string \<Rightarrow> exec_scope" where
  "withStepPrefix scope prefix = (if prefix = [] then scope
     else \<lparr>StepPrefix = StepPrefix scope @ prefix, SkipCurrentNode = False\<rparr>)"

definition withSkipCurrentNode :: "exec_scope \<Rightarrow> exec_scope" where
  "withSkipCurrentNode scope = scope\<lparr>SkipCurrentNode := True\<rparr>"

definition storageNodeID :: "exec_scope \<Rightarrow> string \<Rightarrow> string" where
  "storageNodeID scope nodeID = (if StepPrefix scope = [] then nodeID else StepPrefix scope @ nodeID)"

definition bareNodeID :: "string \<Rightarrow> string \<Rightarrow> string" where
  "bareNodeID storageID prefix =
     (if prefix = [] \<or> length storageID < length prefix then storageID
      else if take (length prefix) storageID \<noteq> prefix then storageID
      else drop (length prefix) storageID)"

definition subgraphStepPrefix :: "string \<Rightarrow> string" where
  "subgraphStepPrefix parentNodeID = parentNodeID @ subgraphStepDelimiter"

section \<open>Loading and saving\<close>

definition load_run :: "runner \<Rightarrow> gctx \<Rightarrow> string \<Rightarrow> world \<Rightarrow> world \<times> (go_error + run_snapshot)" where
  "load_run R ctx runID w =
     (let (m, w1) = tick (Fenced R) w in (w1, LoadAuthorized (at_moment m ctx) (Repo w1) runID))"

definition saveRunSnapshot :: "runner \<Rightarrow> gctx \<Rightarrow> run_snapshot \<Rightarrow> int \<Rightarrow> world \<Rightarrow> world \<times> go_error option" where
  "saveRunSnapshot R ctx snapshot expectedVersion w =
     (let (m, w1) = tick (Fenced R) w;
          (r, _, err) = SaveWithFence (Fenced R) (at_moment m ctx) (Now m) (Repo w1) (Some snapshot) expectedVersion
      in (w1\<lparr>Repo := r\<rparr>, err))"

definition ctx_err :: "runner \<Rightarrow> world \<Rightarrow> world \<times> go_error option" where
  "ctx_err R w = (let (m, w1) = tick (Fenced R) w in (w1, CtxNow m))"

text \<open>
  A mutation changes the loaded snapshot in place and may write the variables its closure captures,
  here \<open>'a\<close>. The loop runs \<open>n\<close> more attempts.
\<close>

type_synonym 'a mutation = "'a \<Rightarrow> run_snapshot \<Rightarrow> 'a \<times> (go_error + run_snapshot)"

fun save_attempts :: "nat \<Rightarrow> runner \<Rightarrow> gctx \<Rightarrow> string \<Rightarrow> 'a mutation \<Rightarrow> 'a \<Rightarrow> world \<Rightarrow> world \<times> 'a \<times> go_error option" where
  "save_attempts 0 R ctx runID mutate a w =
     (w, a, Some (Errorf ''orchestration: failed to save snapshot %q after stale snapshot retries'' [runID] None))"
| "save_attempts (Suc n) R ctx runID mutate a w =
     (case load_run R ctx runID w of
        (w1, Inl e) \<Rightarrow> (w1, a, Some e)
      | (w1, Inr snapshot) \<Rightarrow>
          (case mutate a snapshot of
             (a1, Inl e) \<Rightarrow> (w1, a1, Some e)
           | (a1, Inr s1) \<Rightarrow>
               (case saveRunSnapshot R ctx s1 (Version s1) w1 of
                  (w2, None) \<Rightarrow> (w2, a1, None)
                | (w2, Some e) \<Rightarrow>
                    if errors_is e ErrStaleSnapshot then save_attempts n R ctx runID mutate a1 w2
                    else (w2, a1, Some e))))"

definition saveSnapshotWithRetry ::
  "runner \<Rightarrow> gctx \<Rightarrow> string \<Rightarrow> 'a mutation \<Rightarrow> 'a \<Rightarrow> world \<Rightarrow> world \<times> 'a \<times> go_error option" where
  "saveSnapshotWithRetry R ctx runID mutate a w = save_attempts 5 R ctx runID mutate a w"

text \<open>
  \<^verbatim>\<open>pauseWithRetry\<close>: \<open>gate\<close> is the injected \<^verbatim>\<open>HumanGate.Pause\<close>; \<open>build\<close> may read what \<open>prepare\<close> captured.
\<close>

type_synonym gate = "gctx \<Rightarrow> checkpoint_state \<Rightarrow> world \<Rightarrow> world \<times> (go_error + string)"

fun pause_attempts ::
  "nat \<Rightarrow> runner \<Rightarrow> gate \<Rightarrow> gctx \<Rightarrow> string \<Rightarrow> 'a mutation \<Rightarrow> ('a \<Rightarrow> int \<Rightarrow> checkpoint_state) \<Rightarrow> 'a \<Rightarrow> world
     \<Rightarrow> world \<times> (go_error + string)" where
  "pause_attempts 0 R gate ctx runID prepare build a w =
     (w, Inl (Errorf ''orchestration: failed to pause run %q after stale snapshot retries'' [runID] None))"
| "pause_attempts (Suc n) R gate ctx runID prepare build a w =
     (case ctx_err R w of
        (w0, Some e) \<Rightarrow> (w0, Inl e)
      | (w0, None) \<Rightarrow>
          (case saveSnapshotWithRetry R ctx runID prepare a w0 of
             (w1, a1, Some e) \<Rightarrow> (w1, Inl e)
           | (w1, a1, None) \<Rightarrow>
               (case load_run R ctx runID w1 of
                  (w2, Inl e) \<Rightarrow> (w2, Inl e)
                | (w2, Inr snapshot) \<Rightarrow>
                    (case gate ctx (build a1 (Version snapshot)) w2 of
                       (w3, Inr token) \<Rightarrow> (w3, Inr token)
                     | (w3, Inl e) \<Rightarrow>
                         if \<not> errors_is e ErrStaleSnapshot then (w3, Inl e)
                         else pause_attempts n R gate ctx runID prepare build a1 w3))))"

definition pauseWithRetry ::
  "runner \<Rightarrow> gate \<Rightarrow> gctx \<Rightarrow> string \<Rightarrow> 'a mutation \<Rightarrow> ('a \<Rightarrow> int \<Rightarrow> checkpoint_state) \<Rightarrow> 'a \<Rightarrow> world
     \<Rightarrow> world \<times> (go_error + string)" where
  "pauseWithRetry R gate ctx runID prepare build a w = pause_attempts 5 R gate ctx runID prepare build a w"

section \<open>Step outputs\<close>

definition outputs_of :: "run_snapshot \<Rightarrow> (string \<times> step_output_ref) list" where
  "outputs_of s = (case StepOutputs s of None \<Rightarrow> [] | Some outs \<Rightarrow> outs)"

definition variables_of :: "run_snapshot \<Rightarrow> (string \<times> bytes) list" where
  "variables_of s = (case Variables s of None \<Rightarrow> [] | Some vars \<Rightarrow> vars)"

definition redact :: "runner \<Rightarrow> string \<Rightarrow> string \<Rightarrow> bytes \<Rightarrow> go_error + bytes" where
  "redact R runID nodeID raw = (case Redactor R of None \<Rightarrow> Inr raw | Some f \<Rightarrow> f runID nodeID raw)"

definition stepOutputRef ::
  "runner \<Rightarrow> gctx \<Rightarrow> string \<Rightarrow> string \<Rightarrow> int \<Rightarrow> bytes \<Rightarrow> world \<Rightarrow> world \<times> (go_error + step_output_ref)" where
  "stepOutputRef R ctx runID nodeID threshold raw0 w =
     (case redact R runID nodeID raw0 of
        Inl e \<Rightarrow> (w, Inl e)
      | Inr raw \<Rightarrow>
          if threshold \<le> 0 \<or> int (length raw) \<le> threshold \<or> \<not> HasBlobs R
          then (w, Inr \<lparr>Inline = Some raw, Blob = None\<rparr>)
          else (let (m, w1) = tick (Fenced R) w; (bs, res) = Blobs_Put (at_moment m ctx) (Blobs w1) raw in
                (w1\<lparr>Blobs := bs\<rparr>, (case res of Inl e \<Rightarrow> Inl e | Inr ref \<Rightarrow> Inr \<lparr>Inline = None, Blob = Some ref\<rparr>))))"

text \<open>One pass of the loop of \<^verbatim>\<open>SaveStepOutput\<close>: the loaded snapshot with the new output.\<close>

definition with_output :: "exec_scope \<Rightarrow> string \<Rightarrow> step_output_ref \<Rightarrow> run_snapshot \<Rightarrow> run_snapshot" where
  "with_output scope stored ref s =
     (let s1 = (if SkipCurrentNode scope then s else s\<lparr>CurrentNodeID := stored\<rparr>)
      in s1\<lparr>StepOutputs := Some (AList.update stored ref (outputs_of s1))\<rparr>)"

fun output_attempts ::
  "nat \<Rightarrow> runner \<Rightarrow> gctx \<Rightarrow> exec_scope \<Rightarrow> int \<Rightarrow> string \<Rightarrow> string \<Rightarrow> bytes \<Rightarrow> world \<Rightarrow> world \<times> go_error option" where
  "output_attempts 0 R ctx scope threshold runID stored raw w =
     (w, Some (Errorf ''orchestration: failed to save node %q output after stale snapshot retries'' [stored] None))"
| "output_attempts (Suc n) R ctx scope threshold runID stored raw w =
     (case load_run R ctx runID w of
        (w1, Inl e) \<Rightarrow> (w1, Some e)
      | (w1, Inr snapshot) \<Rightarrow>
          (case stepOutputRef R ctx runID stored threshold raw w1 of
             (w2, Inl e) \<Rightarrow> (w2, Some e)
           | (w2, Inr ref) \<Rightarrow>
               (case saveRunSnapshot R ctx (with_output scope stored ref snapshot) (Version snapshot) w2 of
                  (w3, None) \<Rightarrow> (w3, None)
                | (w3, Some e) \<Rightarrow>
                    if \<not> errors_is e ErrStaleSnapshot then (w3, Some e)
                    else output_attempts n R ctx scope threshold runID stored raw w3)))"

text \<open>\<open>marshalled\<close> is what \<^verbatim>\<open>json.Marshal\<close> gives for the value.\<close>

definition SaveStepOutput ::
  "runner \<Rightarrow> gctx \<Rightarrow> exec_scope \<Rightarrow> scenario \<Rightarrow> string \<Rightarrow> string \<Rightarrow> go_error + bytes \<Rightarrow> world \<Rightarrow> world \<times> go_error option" where
  "SaveStepOutput R ctx scope s runID nodeID marshalled w =
     (if \<not> HasRuns R then (w, Some (Errorf ''orchestration: run-state repository is required to save step output'' [] None))
      else (case marshalled of
          Inl e \<Rightarrow> (w, Some e)
        | Inr raw \<Rightarrow> output_attempts 5 R ctx scope (StepOutputThreshold (Runtime s)) runID (storageNodeID scope nodeID) raw w))"

definition find_output :: "exec_scope \<Rightarrow> string \<Rightarrow> run_snapshot \<Rightarrow> step_output_ref option" where
  "find_output scope nodeID s =
     (let stored = storageNodeID scope nodeID in
      case map_of (outputs_of s) stored of
        Some ref \<Rightarrow> Some ref
      | None \<Rightarrow> if stored \<noteq> nodeID then map_of (outputs_of s) nodeID else None)"

definition inline_bytes :: "step_output_ref \<Rightarrow> bytes" where
  "inline_bytes ref = (case Inline ref of None \<Rightarrow> [] | Some raw \<Rightarrow> raw)"

text \<open>The output and whether it was found; when it was not found the bytes are empty.\<close>

definition stepOutputRaw ::
  "runner \<Rightarrow> gctx \<Rightarrow> exec_scope \<Rightarrow> string \<Rightarrow> string \<Rightarrow> world \<Rightarrow> world \<times> (go_error + bytes option)" where
  "stepOutputRaw R ctx scope runID nodeID w =
     (if \<not> HasRuns R then (w, Inl (Errorf ''orchestration: run-state repository is required for workflow expressions'' [] None))
      else (case load_run R ctx runID w of
          (w1, Inl e) \<Rightarrow> (w1, Inl e)
        | (w1, Inr snapshot) \<Rightarrow>
            (case find_output scope nodeID snapshot of
               None \<Rightarrow> (w1, Inr None)
             | Some ref \<Rightarrow>
                 (case Blob ref of
                    None \<Rightarrow> (w1, Inr (Some (inline_bytes ref)))
                  | Some b \<Rightarrow>
                      if \<not> HasBlobs R
                      then (w1, Inl (Errorf ''orchestration: blob store is required for externalized step output %q'' [nodeID] None))
                      else (let (m, w2) = tick (Fenced R) w1 in
                            (w2, (case Blobs_Get (at_moment m ctx) (Blobs w2) b of Inl e \<Rightarrow> Inl e | Inr raw \<Rightarrow> Inr (Some raw))))))))"

definition nodeAlreadyDone ::
  "runner \<Rightarrow> gctx \<Rightarrow> exec_scope \<Rightarrow> string \<Rightarrow> workflow_node \<Rightarrow> world \<Rightarrow> world \<times> (go_error + bool)" where
  "nodeAlreadyDone R ctx scope runID n w =
     (case stepOutputRaw R ctx scope runID (NodeID n) w of
        (w1, Inl e) \<Rightarrow> (w1, Inl e)
      | (w1, Inr (Some _)) \<Rightarrow> (w1, Inr True)
      | (w1, Inr None) \<Rightarrow>
          if NodeKind n \<noteq> NodeHumanGate \<and> \<not> Interrupt n then (w1, Inr False)
          else if \<not> HasRuns R then (w1, Inr False)
          else (case load_run R ctx runID w1 of
              (w2, Inl e) \<Rightarrow> (w2, Inl e)
            | (w2, Inr snapshot) \<Rightarrow>
                (w2, Inr (PendingGate snapshot = None \<and> CurrentNodeID snapshot = storageNodeID scope (NodeID n)))))"

section \<open>Amendments\<close>

text \<open>The parts of \<^verbatim>\<open>encoding/json\<close> the runner uses on its own variables.\<close>

record loop_progress =
  Iterations :: int
  Completed :: bool

record codec =
  EncodeString :: "string \<Rightarrow> bytes"
  DecodeString :: "bytes \<Rightarrow> string option"
  EncodeCounts :: "(string \<times> int) list \<Rightarrow> bytes"
  DecodeCounts :: "bytes \<Rightarrow> go_error + (string \<times> int) list"
  EncodeProgress :: "loop_progress \<Rightarrow> bytes"
  DecodeProgress :: "bytes \<Rightarrow> loop_progress option"

definition snapshotVariableString :: "codec \<Rightarrow> (string \<times> bytes) list \<Rightarrow> string \<Rightarrow> string" where
  "snapshotVariableString cd vars key = (case map_of vars key of
       None \<Rightarrow> []
     | Some raw \<Rightarrow> (case DecodeString cd raw of None \<Rightarrow> raw | Some value \<Rightarrow> value))"

definition workflowAmendmentVar :: string where
  "workflowAmendmentVar = ''workflow_amendment''"

definition delete_var :: "string \<Rightarrow> run_snapshot \<Rightarrow> run_snapshot" where
  "delete_var key s = (case Variables s of None \<Rightarrow> s | Some vars \<Rightarrow> s\<lparr>Variables := Some (AList.delete key vars)\<rparr>)"

definition set_var :: "string \<Rightarrow> bytes \<Rightarrow> run_snapshot \<Rightarrow> run_snapshot" where
  "set_var key raw s = s\<lparr>Variables := Some (AList.update key raw (variables_of s))\<rparr>"

definition with_feedback :: "string \<Rightarrow> string \<Rightarrow> string" where
  "with_feedback prompt amendment = (if prompt \<noteq> [] then prompt @ [CHR 0x0A, CHR 0x0A] @ ''Human feedback: '' @ amendment else amendment)"

definition applyWorkflowAmendment :: "codec \<Rightarrow> run_snapshot \<Rightarrow> string \<Rightarrow> string \<times> bool" where
  "applyWorkflowAmendment cd s prompt =
     (let amendment = snapshotVariableString cd (variables_of s) workflowAmendmentVar in
      if amendment = [] then (prompt, False) else (with_feedback prompt amendment, True))"

definition claim_mutation :: "codec \<Rightarrow> string mutation" where
  "claim_mutation cd _ s =
     (let amendment = snapshotVariableString cd (variables_of s) workflowAmendmentVar in
      (amendment, Inr (if amendment = [] then s else delete_var workflowAmendmentVar s)))"

definition claimWorkflowAmendment :: "runner \<Rightarrow> codec \<Rightarrow> gctx \<Rightarrow> string \<Rightarrow> world \<Rightarrow> world \<times> string \<times> go_error option" where
  "claimWorkflowAmendment R cd ctx runID w =
     (if \<not> HasRuns R then (w, [], None) else saveSnapshotWithRetry R ctx runID (claim_mutation cd) [] w)"

definition resolveWorkflowAmendmentForAgent ::
  "runner \<Rightarrow> codec \<Rightarrow> gctx \<Rightarrow> exec_scope \<Rightarrow> string \<Rightarrow> string \<Rightarrow> world \<Rightarrow> world \<times> (go_error + string \<times> bool)" where
  "resolveWorkflowAmendmentForAgent R cd ctx scope runID prompt w =
     (if \<not> HasRuns R then (w, Inr (prompt, False))
      else if SkipCurrentNode scope then
        (case claimWorkflowAmendment R cd ctx runID w of
           (w1, _, Some e) \<Rightarrow> (w1, Inl e)
         | (w1, amendment, None) \<Rightarrow>
             (w1, Inr (if amendment = [] then prompt else with_feedback prompt amendment, False)))
      else (case load_run R ctx runID w of
          (w1, Inl e) \<Rightarrow> (w1, Inl e)
        | (w1, Inr snapshot) \<Rightarrow> (w1, Inr (applyWorkflowAmendment cd snapshot prompt))))"

definition clear_mutation :: "string list \<Rightarrow> unit mutation" where
  "clear_mutation keys _ s = ((), Inr (fold delete_var keys s))"

definition clearWorkflowAmendment :: "runner \<Rightarrow> gctx \<Rightarrow> string \<Rightarrow> world \<Rightarrow> world \<times> go_error option" where
  "clearWorkflowAmendment R ctx runID w =
     (if \<not> HasRuns R then (w, None)
      else (let (w1, _, err) = saveSnapshotWithRetry R ctx runID (clear_mutation [workflowAmendmentVar]) () w in (w1, err)))"

end
