(* ===== verification/Workflow_Atomic.thy ===== *)
theory Workflow_Atomic
  imports Workflow_Store
begin

text \<open>
  The load-change-save loops of the workflow runner are atomic updates of the run, whatever other writers
  save in between, and what they write can be read back.
\<close>

section \<open>Fenced and plain saves meet the contract of a repository\<close>

context cas_store
begin

lemma unchanged_or_newer:
  assumes "save e r s v = (r', t, err)" and "0 \<le> v" and "v < 2 ^ 63 - 1"
  shows "look r' runID = look r runID \<or> current_version (look r runID) < current_version (look r' runID)"
proof (cases err)
  case (Some x)
  with assms(1) save_failed show ?thesis by fastforce
next
  case None
  with assms(1) have ok: "save e r s v = (r', t, None)" by simp
  show ?thesis
  proof (cases "runID = RunID s")
    case True
    with save_expected [OF ok] save_version [OF ok assms(2,3)] show ?thesis by simp
  next
    case False
    with save_stored [OF ok] show ?thesis by auto
  qed
qed

end

definition token_save ::
  "bool \<times> gctx \<times> gtime \<Rightarrow> repo \<Rightarrow> run_snapshot \<Rightarrow> int \<Rightarrow> repo \<times> run_snapshot option \<times> go_error option" where
  "token_save e r s v = SaveWithFence (fst e) (fst (snd e)) (snd (snd e)) r (Some s) v"

lemma token_save_cases:
  "token_save e r s v = plain_save (snd e) r s v \<or> token_save e r s v = (r, Some s, Some ErrFenceRequired)
     \<or> token_save e r s v = fenced_save (fst (snd e), snd (snd e), FenceTokenFromContext (fst (snd e))) r s v"
  by (simp add: token_save_def SaveWithFence_def plain_save_def fenced_save_def Let_def)

interpretation token: cas_store token_save Snapshots
proof unfold_locales
  fix e r s v r' t
  assume ok: "token_save e r s v = (r', t, None)"
  with token_save_cases [of e r s v] consider
      "plain_save (snd e) r s v = (r', t, None)"
    | "fenced_save (fst (snd e), snd (snd e), FenceTokenFromContext (fst (snd e))) r s v = (r', t, None)"
    by auto
  note saved = this
  from saved show "current_version (Snapshots r (RunID s)) = v"
    by cases (auto dest: inmem.save_expected inmem_fenced.save_expected)
  from saved show "\<exists>s'. t = Some s' \<and> RunID s' = RunID s \<and> Status s' = Status s
      \<and> Snapshots r' = (Snapshots r)(RunID s \<mapsto> s')"
    by cases (auto dest: inmem.save_stored inmem_fenced.save_stored)
  assume v: "0 \<le> v" "v < 2 ^ 63 - 1"
  from saved show "v < current_version (Snapshots r' (RunID s))"
    by cases (use v in \<open>auto dest: inmem.save_version inmem_fenced.save_version\<close>)
next
  fix e r s v r' t err
  assume "token_save e r s v = (r', t, Some err)"
  with token_save_cases [of e r s v] consider "r' = r"
    | "plain_save (snd e) r s v = (r', t, Some err)"
    | "fenced_save (fst (snd e), snd (snd e), FenceTokenFromContext (fst (snd e))) r s v = (r', t, Some err)"
    by auto
  then show "Snapshots r' = Snapshots r"
    by cases (auto dest: inmem.save_failed inmem_fenced.save_failed)
qed

lemma SaveWithFence_token: "SaveWithFence fenced ctx now r (Some s) v = token_save (fenced, ctx, now) r s v"
  by (simp add: token_save_def)

lemma save_effect_refl [simp]: "save_effect ctx r r"
  by (simp add: save_effect_def)

lemma SaveWithFence_effect:
  "SaveWithFence fenced ctx now r (Some s) v = (r', t, err) \<Longrightarrow> save_effect ctx r r'"
  by (auto simp: SaveWithFence_def Let_def split: if_splits
      dest: Repository_Save_effect Repository_SaveFenced_effect)

lemma save_effect_inv: "repo_inv r \<Longrightarrow> save_effect ctx r r' \<Longrightarrow> repo_inv r'"
  using repo_inv_saveLocked [of r ctx] by (auto simp: save_effect_def) (simp add: repo_inv_def)

text \<open>A successful save stores the snapshot with only its version and its time stamps changed.\<close>

definition same_content :: "run_snapshot \<Rightarrow> run_snapshot \<Rightarrow> bool" where
  "same_content s t \<longleftrightarrow> t = s\<lparr>Version := Version t, CreatedAt := CreatedAt t, UpdatedAt := UpdatedAt t\<rparr>"

lemma saveLocked_content: "saveLocked ctx now r s cur = (r', s', None) \<Longrightarrow> same_content s s'"
  by (auto simp: saveLocked_def StampSnapshot_def same_content_def Let_def split: option.splits if_splits)

lemma SaveWithFence_content:
  assumes "SaveWithFence fenced ctx now r (Some s) v = (r', t, None)"
  obtains s' where "Snapshots r' = (Snapshots r)(RunID s \<mapsto> s')" "same_content s s'"
    "CtxErr ctx = None" "current_version (Snapshots r (RunID s)) = v" "Snapshot_Validate s = None"
proof (cases "FenceTokenFromContext ctx = 0")
  case True
  with assms have "Repository_Save ctx now r (Some s) v = (r', t, None)" by (simp add: SaveWithFence_def)
  then show thesis by (rule Repository_Save_saved) (auto intro!: that dest: saveLocked_ok saveLocked_content)
next
  case False
  with assms have "Repository_SaveFenced ctx now r (Some s) v (FenceTokenFromContext ctx) = (r', t, None)"
    by (simp add: SaveWithFence_def Let_def split: if_splits)
  then show thesis by (rule Repository_SaveFenced_saved) (auto intro!: that dest: saveLocked_ok saveLocked_content)
qed

section \<open>What other writers can do\<close>

definition other_bounded :: "other_save \<Rightarrow> bool" where
  "other_bounded x \<longleftrightarrow> 0 \<le> OtherExpected x \<and> OtherExpected x < 2 ^ 63 - 1"

definition bounded_moments :: "world \<Rightarrow> bool" where
  "bounded_moments w = list_all (\<lambda>m. list_all other_bounded (Others m)) (Moments w)"

text \<open>
  From \<open>w\<close> to \<open>w'\<close> only other writers changed the run store: the saves of the moments that passed, in their order, and nothing else.
\<close>

definition by_others :: "bool \<Rightarrow> world \<Rightarrow> world \<Rightarrow> bool" where
  "by_others fenced w w' \<longleftrightarrow>
     (\<exists>passed. Moments w = passed @ Moments w' \<and> Repo w' = fold (other_step fenced) (concat (map Others passed)) (Repo w))"

lemma by_others_refl [simp]: "by_others fenced w w"
  unfolding by_others_def by (rule exI [of _ "[]"]) simp

lemma by_others_trans [trans]:
  assumes "by_others fenced w w'" and "by_others fenced w' w''" shows "by_others fenced w w''"
proof -
  from assms obtain p q where "Moments w = p @ Moments w'" "Repo w' = fold (other_step fenced) (concat (map Others p)) (Repo w)"
    "Moments w' = q @ Moments w''" "Repo w'' = fold (other_step fenced) (concat (map Others q)) (Repo w')" unfolding by_others_def by blast
  then show ?thesis unfolding by_others_def by (intro exI [of _ "p @ q"]) simp
qed

text \<open>Blobs are stored under their digest and do not matter here.\<close>

lemma by_others_Blobs [simp]: "by_others fenced w (w'\<lparr>Blobs := b\<rparr>) = by_others fenced w w'" "by_others fenced (w\<lparr>Blobs := b\<rparr>) w' = by_others fenced w w'"
  by (simp_all add: by_others_def)

lemma by_others_bounded: "by_others fenced w w' \<Longrightarrow> bounded_moments w \<Longrightarrow> bounded_moments w'"
  by (auto simp: by_others_def bounded_moments_def)

lemma by_others_induct [consumes 2, case_names refl step]:
  assumes "by_others fenced w w'" and "bounded_moments w" and "P (Repo w)"
    and "\<And>r1 x. P r1 \<Longrightarrow> other_bounded x \<Longrightarrow> P (other_step fenced x r1)"
  shows "P (Repo w')"
proof -
  from assms(1) obtain p where p: "Moments w = p @ Moments w'" "Repo w' = fold (other_step fenced) (concat (map Others p)) (Repo w)"
    unfolding by_others_def by blast
  have "P (fold (other_step fenced) xs r)" if "list_all other_bounded xs" "P r" for xs r
    using that by (induction xs arbitrary: r) (auto intro: assms(4))
  moreover have "list_all other_bounded (concat (map Others p))"
    using assms(2) p(1) by (auto simp: bounded_moments_def list_all_iff)
  ultimately show ?thesis using p(2) assms(3) by simp
qed

lemma by_others_newer:
  assumes "by_others fenced w w'" and "bounded_moments w"
  shows "Snapshots (Repo w') runID = Snapshots (Repo w) runID
    \<or> current_version (Snapshots (Repo w) runID) < current_version (Snapshots (Repo w') runID)"
  using assms
proof (induction rule: by_others_induct)
  case (step r1 x)
  obtain r2 t err where sv: "token_save (fenced, OtherCtx x, OtherNow x) r1 (OtherSnapshot x) (OtherExpected x) = (r2, t, err)"
    by (metis prod_cases3)
  then have "other_step fenced x r1 = r2" by (simp add: other_step_def SaveWithFence_token)
  with token.unchanged_or_newer [OF sv, of runID] step show ?case
    by (auto simp: other_bounded_def)
qed simp

lemma by_others_inv: "by_others fenced w w' \<Longrightarrow> repo_inv (Repo w) \<Longrightarrow> repo_inv (Repo w')"
proof -
  assume o: "by_others fenced w w'" and i: "repo_inv (Repo w)"
  then obtain xs where "Repo w' = fold (other_step fenced) xs (Repo w)" unfolding by_others_def by blast
  moreover have "repo_inv (fold (other_step fenced) xs r)" if "repo_inv r" for r xs
    using that
  proof (induction xs arbitrary: r)
    case (Cons x xs)
    have "repo_inv (other_step fenced x r)" unfolding other_step_def
      by (metis Cons.prems SaveWithFence_effect prod.collapse save_effect_inv)
    with Cons.IH show ?case by simp
  qed simp
  ultimately show "repo_inv (Repo w')" using i by simp
qed

lemma tick_by_others:
  assumes "tick fenced w = (m, w1)" and "bounded_moments w"
  shows "by_others fenced w w1" and "bounded_moments w1" and "Blobs w1 = Blobs w"
proof -
  have o: "by_others fenced w w1 \<and> Blobs w1 = Blobs w"
  proof (cases "Moments w")
    case (Cons m' ms)
    with assms(1) show ?thesis by (auto simp: by_others_def intro!: exI [of _ "[m']"])
  qed (use assms in simp)
  then show "by_others fenced w w1" and "Blobs w1 = Blobs w" by simp_all
  with assms(2) show "bounded_moments w1" by (blast intro: by_others_bounded)
qed

section \<open>Atomicity\<close>

abbreviation live :: "gctx \<Rightarrow> gctx" where
  "live ctx \<equiv> ctx\<lparr>CtxErr := None\<rparr>"

text \<open>The run is loaded, changed and saved with nothing happening in between.\<close>

definition atomic_update ::
  "bool \<Rightarrow> gctx \<Rightarrow> string \<Rightarrow> (run_snapshot \<Rightarrow> run_snapshot \<Rightarrow> bool) \<Rightarrow> world \<Rightarrow> world \<Rightarrow> bool" where
  "atomic_update fenced ctx runID change w w' \<longleftrightarrow> Moments w' = Moments w
     \<and> (\<exists>now s s' t. LoadAuthorized (live ctx) (Repo w) runID = Inr s \<and> change s s'
        \<and> SaveWithFence fenced (live ctx) now (Repo w) (Some s') (Version s) = (Repo w', t, None))"

lemma atomic_update_mono:
  assumes "atomic_update fenced ctx runID change w w'" and "\<And>s s'. change s s' \<Longrightarrow> change' s s'"
  shows "atomic_update fenced ctx runID change' w w'"
  using assms unfolding atomic_update_def by blast

lemma AuthorizeTenant_CtxErr [simp]: "AuthorizeTenant (ctx\<lparr>CtxErr := x\<rparr>) s = AuthorizeTenant ctx s"
  by (simp add: AuthorizeTenant_def PrincipalFromContext_def TenantStrictModeFromContext_def split: option.splits)

lemma LoadAuthorized_same:
  assumes "LoadAuthorized (at_moment m ctx) r runID = Inr s" and "Snapshots r' runID = Snapshots r runID"
  shows "LoadAuthorized (live ctx) r' runID = Inr s"
  using assms
  by (auto simp: LoadAuthorized_def Repository_Load_def at_moment_def split: sum.splits option.splits)

lemma load_save_atomic:
  assumes load: "load_run R ctx runID w = (w1, Inr s)" and between: "by_others (Fenced R) w1 w2"
    and save: "saveRunSnapshot R ctx s' v w2 = (w3, None)" and v: "v = Version s" and same: "RunID s' = RunID s"
    and inv: "repo_inv (Repo w)" and bounded: "bounded_moments w" "bounded_moments w2" and change: "change s s'"
  shows "\<exists>u. by_others (Fenced R) w u \<and> atomic_update (Fenced R) ctx runID change u w3"
proof -
  obtain m where t1: "tick (Fenced R) w = (m, w1)" and l: "LoadAuthorized (at_moment m ctx) (Repo w1) runID = Inr s"
    using load by (auto simp: load_run_def simp del: tick.simps split: prod.splits)
  obtain m' w2' t r3 where t2: "tick (Fenced R) w2 = (m', w2')" and w3: "w3 = w2'\<lparr>Repo := r3\<rparr>"
    and sv: "SaveWithFence (Fenced R) (at_moment m' ctx) (Now m') (Repo w2') (Some s') v = (r3, t, None)"
    using save by (auto simp: saveRunSnapshot_def simp del: tick.simps split: prod.splits)
  have o1: "by_others (Fenced R) w w1" using tick_by_others [OF t1 bounded(1)] by simp
  have o2: "by_others (Fenced R) w1 w2'"
    using between tick_by_others(1) [OF t2 bounded(2)] by (rule by_others_trans)
  have inv1: "repo_inv (Repo w1)" using by_others_inv [OF o1 inv] .
  obtain s0 where s0: "Snapshots (Repo w1) runID = Some s0" "Version s = Version s0" "RunID s = RunID s0"
    using LoadAuthorized_Inr [OF l] by blast
  with inv1 have id: "RunID s' = runID" using same by (simp add: repo_inv_def)
  obtain "CtxErr (at_moment m' ctx) = None" "current_version (Snapshots (Repo w2') (RunID s')) = v"
    using SaveWithFence_content [OF sv] by metis
  then have ctx: "at_moment m' ctx = live ctx" and cv: "current_version (Snapshots (Repo w2') runID) = Version s0"
    using id v s0 by (auto simp: at_moment_def)
  have "Snapshots (Repo w2') runID = Snapshots (Repo w1) runID"
    using by_others_newer [OF o2 tick_by_others(2) [OF t1 bounded(1)], of runID] s0 cv by (auto simp: current_version_def)
  then have "LoadAuthorized (live ctx) (Repo w2') runID = Inr s" by (rule LoadAuthorized_same [OF l])
  with sv ctx v change w3 have "atomic_update (Fenced R) ctx runID change w2' w3"
    unfolding atomic_update_def by auto
  moreover have "by_others (Fenced R) w w2'" using o1 o2 by (rule by_others_trans)
  ultimately show ?thesis by blast
qed

lemma SaveWithFence_failed: "SaveWithFence fenced ctx now r s v = (r', t, Some e) \<Longrightarrow> r' = r"
  by (auto simp: SaveWithFence_def Let_def split: if_splits dest: Repository_Save_failed Repository_SaveFenced_failed)

lemma load_run_by_others:
  assumes "load_run R ctx runID w = (w1, res)" and "bounded_moments w"
  shows "by_others (Fenced R) w w1" and "bounded_moments w1" and "Blobs w1 = Blobs w"
  using assms tick_by_others by (auto simp: load_run_def simp del: tick.simps split: prod.splits)

lemma saveRunSnapshot_failed:
  assumes "saveRunSnapshot R ctx s v w = (w1, Some e)" and "bounded_moments w"
  shows "by_others (Fenced R) w w1" and "bounded_moments w1" and "Blobs w1 = Blobs w"
proof -
  obtain m w2 r t where t: "tick (Fenced R) w = (m, w2)" and w1: "w1 = w2\<lparr>Repo := r\<rparr>"
    and sv: "SaveWithFence (Fenced R) (at_moment m ctx) (Now m) (Repo w2) (Some s) v = (r, t, Some e)"
    using assms(1) by (auto simp: saveRunSnapshot_def simp del: tick.simps split: prod.splits)
  from SaveWithFence_failed [OF sv] have "r = Repo w2" .
  with tick_by_others [OF t assms(2)] w1
  show "by_others (Fenced R) w w1" and "bounded_moments w1" and "Blobs w1 = Blobs w"
    by (simp_all add: bounded_moments_def)
qed

text \<open>A mutation keeps the identity of the run.\<close>

definition keeps_identity :: "'a mutation \<Rightarrow> bool" where
  "keeps_identity mutate \<longleftrightarrow> (\<forall>a s a' s'. mutate a s = (a', Inr s') \<longrightarrow> RunID s' = RunID s \<and> Version s' = Version s)"

lemma save_attempts_cases:
  assumes "save_attempts (Suc n) R ctx runID mutate a w = (w', a', err)" and "bounded_moments w"
  obtains (failed) e where "err = Some e" "by_others (Fenced R) w w'"
  | (saved) s s1 w1 where "err = None" "load_run R ctx runID w = (w1, Inr s)" "mutate a s = (a', Inr s1)"
      "saveRunSnapshot R ctx s1 (Version s1) w1 = (w', None)" "bounded_moments w1"
  | (again) a1 w2 where "save_attempts n R ctx runID mutate a1 w2 = (w', a', err)"
      "by_others (Fenced R) w w2" "bounded_moments w2"
proof -
  obtain w1 res where l: "load_run R ctx runID w = (w1, res)" by (cases "load_run R ctx runID w")
  note o1 = load_run_by_others [OF l assms(2)]
  have o2: "by_others (Fenced R) w w2 \<and> bounded_moments w2"
    if "saveRunSnapshot R ctx s1 v w1 = (w2, Some e)" for s1 v w2 e
    using saveRunSnapshot_failed [OF that o1(2)] o1(1) by_others_trans by blast
  show thesis
    using assms(1) l o1 o2 failed saved again
    by (cases res) (auto split: prod.splits sum.splits option.splits if_splits)
qed

lemma save_attempts_atomic:
  assumes "keeps_identity mutate" and "save_attempts n R ctx runID mutate a w = (w', a', err)"
    and "bounded_moments w" and "repo_inv (Repo w)"
  shows "case err of
      None \<Rightarrow> \<exists>u a1. by_others (Fenced R) w u
        \<and> atomic_update (Fenced R) ctx runID (\<lambda>s s'. mutate a1 s = (a', Inr s')) u w'
    | Some e \<Rightarrow> by_others (Fenced R) w w'"
  using assms(2-4)
proof (induction n arbitrary: a w)
  case (Suc n)
  from Suc.prems(1,2) show ?case
  proof (cases rule: save_attempts_cases)
    case (saved s s1 w1)
    then have id: "RunID s1 = RunID s" "Version s1 = Version s"
      using assms(1) unfolding keeps_identity_def by blast+
    have "\<exists>u. by_others (Fenced R) w u
        \<and> atomic_update (Fenced R) ctx runID (\<lambda>s s'. mutate a s = (a', Inr s')) u w'"
      using load_save_atomic [OF saved(2) by_others_refl saved(4) id(2) id(1) Suc.prems(3,2) saved(5),
          where change = "\<lambda>s s'. mutate a s = (a', Inr s')"] saved(3) by simp
    with saved(1) show ?thesis by auto
  next
    case (again a1 w2)
    from Suc.IH [OF again(1,3) by_others_inv [OF again(2) Suc.prems(3)]] by_others_trans [OF again(2)] show ?thesis
      by (cases err) auto
  qed simp
qed auto

text \<open>What can be read after an atomic update.\<close>

lemma same_content_fields:
  assumes "same_content s t"
  shows "RunID t = RunID s" "TenantID t = TenantID s" "Variables t = Variables s" "StepOutputs t = StepOutputs s"
    "CurrentNodeID t = CurrentNodeID s" "Status t = Status s" "PendingGate t = PendingGate s"
  using assms by (cases s, cases t, simp add: same_content_def)+

lemma AuthorizeTenant_tenant: "TenantID s = TenantID t \<Longrightarrow> AuthorizeTenant ctx s = AuthorizeTenant ctx t"
  by (simp add: AuthorizeTenant_def split: option.splits)

lemma atomic_update_load:
  assumes "atomic_update fenced ctx runID change w w'" and "repo_inv (Repo w)"
    and "\<And>s s'. change s s' \<Longrightarrow> RunID s' = RunID s \<and> TenantID s' = TenantID s"
  obtains s s' t where "LoadAuthorized (live ctx) (Repo w) runID = Inr s" "change s s'" "same_content s' t"
    "Snapshots (Repo w') = (Snapshots (Repo w))(runID \<mapsto> t)" "LoadAuthorized (live ctx) (Repo w') runID = Inr (the (NormalizeSnapshot (Some t)))"
proof -
  obtain now s s' u where l: "LoadAuthorized (live ctx) (Repo w) runID = Inr s" and c: "change s s'"
    and sv: "SaveWithFence fenced (live ctx) now (Repo w) (Some s') (Version s) = (Repo w', u, None)"
    using assms(1) unfolding atomic_update_def by blast
  obtain s0 where s0: "Snapshots (Repo w) runID = Some s0" "AuthorizeTenant (live ctx) s0 = None" "TenantID s = TenantID s0"
      "RunID s = RunID s0"
    using LoadAuthorized_Inr [OF l] by blast
  have id: "RunID s' = runID" using assms(2,3) c s0 by (simp add: repo_inv_def)
  obtain t where t: "Snapshots (Repo w') = (Snapshots (Repo w))(RunID s' \<mapsto> t)" "same_content s' t"
    using SaveWithFence_content [OF sv] by metis
  have "AuthorizeTenant (live ctx) t = None"
    using s0(2,3) assms(3) [OF c] same_content_fields(2) [OF t(2)] AuthorizeTenant_tenant [of t s0] by simp
  then have "LoadAuthorized (live ctx) (Repo w') runID = Inr (the (NormalizeSnapshot (Some t)))"
    using t id by (simp add: LoadAuthorized_def Repository_Load_def)
  with that l c t id show thesis by blast
qed

section \<open>Step outputs\<close>

text \<open>A reference stands for the bytes: they are inline, or a live caller gets them from the blob store.\<close>

definition ref_holds :: "gctx \<Rightarrow> blobs \<Rightarrow> step_output_ref \<Rightarrow> bytes \<Rightarrow> bool" where
  "ref_holds ctx bs ref raw \<longleftrightarrow> ref = \<lparr>Inline = Some raw, Blob = None\<rparr>
     \<or> (\<exists>b. ref = \<lparr>Inline = None, Blob = Some b\<rparr> \<and> Blobs_Get (live ctx) bs b = Inr raw)"

lemma tenantIDFromContext_CtxErr [simp]: "tenantIDFromContext (ctx\<lparr>CtxErr := x\<rparr>) = tenantIDFromContext ctx"
  by (simp add: tenantIDFromContext_def PrincipalFromContext_def split: option.splits)

lemma stepOutputRef_ok:
  assumes "stepOutputRef R ctx runID nodeID threshold raw w = (w1, Inr ref)" and "bounded_moments w"
  shows "by_others (Fenced R) w w1 \<and> bounded_moments w1
    \<and> (\<exists>out. redact R runID nodeID raw = Inr out \<and> ref_holds ctx (Blobs w1) ref out \<and> (Blob ref \<noteq> None \<longrightarrow> HasBlobs R))"
proof -
  obtain out where out: "redact R runID nodeID raw = Inr out"
    using assms(1) by (auto simp: stepOutputRef_def split: sum.splits)
  show ?thesis
  proof (cases "threshold \<le> 0 \<or> int (length out) \<le> threshold \<or> \<not> HasBlobs R")
    case True
    with assms out show ?thesis by (auto simp: stepOutputRef_def ref_holds_def)
  next
    case False
    with assms(1) out obtain m w2 bs b where t: "tick (Fenced R) w = (m, w2)"
      and put: "Blobs_Put (at_moment m ctx) (Blobs w2) out = (bs, Inr b)"
      and w1: "w1 = w2\<lparr>Blobs := bs\<rparr>" and ref: "ref = \<lparr>Inline = None, Blob = Some b\<rparr>"
      by (auto simp: stepOutputRef_def simp del: tick.simps split: prod.splits sum.splits)
    have "Blobs_Get (live ctx) bs b = Inr out"
      using blob_put_get [OF put, of "live ctx"] by (simp add: at_moment_def)
    with tick_by_others [OF t assms(2)] w1 ref out False show ?thesis by (auto simp: ref_holds_def bounded_moments_def)
  qed
qed

lemma stepOutputRef_failed:
  assumes "stepOutputRef R ctx runID nodeID threshold raw w = (w1, Inl e)" and "bounded_moments w"
  shows "by_others (Fenced R) w w1"
  using assms tick_by_others
  by (auto simp: stepOutputRef_def simp del: tick.simps split: prod.splits sum.splits if_splits)

lemma saveRunSnapshot_blobs: "saveRunSnapshot R ctx s v w = (w1, err) \<Longrightarrow> Blobs w1 = Blobs w"
  by (auto simp: saveRunSnapshot_def split: prod.splits list.splits)

lemma with_output_fields [simp]:
  "RunID (with_output scope stored ref s) = RunID s" "TenantID (with_output scope stored ref s) = TenantID s"
  "outputs_of (with_output scope stored ref s) = AList.update stored ref (outputs_of s)"
  "StepOutputs (with_output scope stored ref s) \<noteq> None"
  by (simp_all add: with_output_def outputs_of_def Let_def)

lemma output_attempts_cases:
  assumes "output_attempts (Suc n) R ctx scope threshold runID stored raw w = (w', err)" and "bounded_moments w"
  obtains (failed) e where "err = Some e" "by_others (Fenced R) w w'"
  | (saved) s ref out w1 w2 where "err = None" "load_run R ctx runID w = (w1, Inr s)"
      "by_others (Fenced R) w1 w2" "bounded_moments w2" "redact R runID stored raw = Inr out"
      "ref_holds ctx (Blobs w') ref out" "Blob ref \<noteq> None \<longrightarrow> HasBlobs R"
      "saveRunSnapshot R ctx (with_output scope stored ref s) (Version s) w2 = (w', None)"
  | (again) w3 where "output_attempts n R ctx scope threshold runID stored raw w3 = (w', err)"
      "by_others (Fenced R) w w3" "bounded_moments w3"
proof -
  obtain w1 res where l: "load_run R ctx runID w = (w1, res)" by (cases "load_run R ctx runID w")
  note o1 = load_run_by_others [OF l assms(2)]
  show thesis
  proof (cases res)
    case (Inl e)
    with assms(1) l o1 failed show ?thesis by auto
  next
    case (Inr s)
    obtain w2 ores where r: "stepOutputRef R ctx runID stored threshold raw w1 = (w2, ores)"
      by (cases "stepOutputRef R ctx runID stored threshold raw w1")
    show ?thesis
    proof (cases ores)
      case e: (Inl e)
      with assms(1) l Inr r by_others_trans [OF o1(1)] stepOutputRef_failed [of R ctx runID stored threshold raw w1 w2 e] o1(2) failed
      show ?thesis by auto
    next
      case ref: (Inr ref)
      obtain out where o2: "by_others (Fenced R) w1 w2" "bounded_moments w2"
        "redact R runID stored raw = Inr out" "ref_holds ctx (Blobs w2) ref out" "Blob ref \<noteq> None \<longrightarrow> HasBlobs R"
        using stepOutputRef_ok r ref o1(2) by blast
      obtain w3 serr where sv: "saveRunSnapshot R ctx (with_output scope stored ref s) (Version s) w2 = (w3, serr)"
        by (cases "saveRunSnapshot R ctx (with_output scope stored ref s) (Version s) w2")
      have o3: "by_others (Fenced R) w w3" "bounded_moments w3" if "serr = Some e" for e
        using saveRunSnapshot_failed [OF _ o2(2)] sv that by_others_trans [OF by_others_trans [OF o1(1) o2(1)]] by blast+
      show ?thesis
        using assms(1) l Inr r ref sv saved [OF _ _ o2(1,2,3) _ o2(5)] o2(4) o3 failed again saveRunSnapshot_blobs [OF sv]
        by (auto split: option.splits if_splits)
    qed
  qed
qed

lemma output_attempts_atomic:
  assumes "output_attempts n R ctx scope threshold runID stored raw w = (w', err)"
    and "bounded_moments w" and "repo_inv (Repo w)"
  shows "case err of
      None \<Rightarrow> \<exists>u ref out. by_others (Fenced R) w u \<and> redact R runID stored raw = Inr out
        \<and> ref_holds ctx (Blobs w') ref out \<and> (Blob ref \<noteq> None \<longrightarrow> HasBlobs R)
        \<and> atomic_update (Fenced R) ctx runID (\<lambda>s s'. s' = with_output scope stored ref s) u w'
    | Some e \<Rightarrow> by_others (Fenced R) w w'"
  using assms
proof (induction n arbitrary: w)
  case (Suc n)
  from Suc.prems(1,2) show ?case
  proof (cases rule: output_attempts_cases)
    case (saved s ref out w1 w2)
    from load_save_atomic [OF saved(2,3,8) refl _ Suc.prems(3,2) saved(4),
        where change = "\<lambda>s s'. s' = with_output scope stored ref s"] saved show ?thesis by auto
  next
    case (again w3)
    from Suc.IH [OF again(1,3) by_others_inv [OF again(2) Suc.prems(3)]] by_others_trans [OF again(2)] show ?thesis
      by (cases err) auto
  qed simp
qed auto

section \<open>Properties\<close>

text \<open>
  C4: the runner's retry loop is an atomic read-modify-write. However many saves other writers get in
  between its loads and its saves, a change that \<^verbatim>\<open>saveSnapshotWithRetry\<close> reports as saved took effect at one
  moment: on the very snapshot that was stored just before, which nobody changed between the load and the
  save. When it reports an error the repository holds only what the others did to it.
\<close>

theorem saveSnapshotWithRetry_atomic:
  assumes "keeps_identity mutate" and "saveSnapshotWithRetry R ctx runID mutate a w = (w', a', err)"
    and "bounded_moments w" and "repo_inv (Repo w)"
  shows "case err of
      None \<Rightarrow> \<exists>u a1. by_others (Fenced R) w u
        \<and> atomic_update (Fenced R) ctx runID (\<lambda>s s'. mutate a1 s = (a', Inr s')) u w'
    | Some e \<Rightarrow> by_others (Fenced R) w w'"
  using save_attempts_atomic [OF assms(1) assms(2)[unfolded saveSnapshotWithRetry_def] assms(3,4)] .

text \<open>A run \<open>r\<close> at version 1, and another writer that saves it between the runner's load and its save.\<close>

definition running :: run_snapshot where
  "running = sample_run ''r'' RunStatusRunning []"

definition busy_world :: world where
  "busy_world = \<lparr>Repo = \<lparr>Snapshots = [''r'' \<mapsto> running\<lparr>Version := 1\<rparr>], Fences = Map.empty\<rparr>, Blobs = Map.empty,
     Moments = [quiet_moment, quiet_moment\<lparr>Others := [\<lparr>OtherCtx = Background, OtherNow = 5,
       OtherSnapshot = running\<lparr>CurrentNodeID := ''other''\<rparr>, OtherExpected = 1\<rparr>]\<rparr>]\<rparr>"

definition plain_runner :: runner where
  "plain_runner = \<lparr>HasRuns = True, HasBlobs = True, Fenced = True, Redactor = None\<rparr>"

lemma keeps_identity_clear [simp]: "keeps_identity (clear_mutation keys)"
proof -
  have "RunID (fold delete_var keys s) = RunID s \<and> Version (fold delete_var keys s) = Version s" for s
    by (induction keys arbitrary: s) (simp_all add: delete_var_def split: option.splits)
  then show ?thesis by (auto simp: keeps_identity_def clear_mutation_def)
qed

lemma keeps_identity_set: "keeps_identity (\<lambda>a s. (a, Inr (set_var key raw s)))"
  by (auto simp: keeps_identity_def set_var_def)

lemma repo_inv_busy: "repo_inv (Repo busy_world)"
  by (auto simp: repo_inv_def busy_world_def running_def sample_run_def Snapshot_Validate_def)

lemma bounded_busy: "bounded_moments busy_world"
  by (simp add: bounded_moments_def busy_world_def quiet_moment_def other_bounded_def)

lemma busy_save:
  "let (w', _, err) = saveSnapshotWithRetry plain_runner Background ''r'' (\<lambda>a s. (a, Inr (set_var ''k'' ''v'' s))) () busy_world
   in err = None \<and> map_option (\<lambda>s. (Version s, CurrentNodeID s, Variables s)) (Snapshots (Repo w') ''r'')
        = Some (3, ''other'', Some [(''k'', ''v'')])"
  by code_simp

theorem saveSnapshotWithRetry_atomic_witness:
  "\<exists>u w'. by_others True busy_world u
     \<and> atomic_update True Background ''r'' (\<lambda>s s'. s' = set_var ''k'' ''v'' s) u w'
     \<and> map_option (\<lambda>s. (Version s, CurrentNodeID s, Variables s)) (Snapshots (Repo w') ''r'') = Some (3, ''other'', Some [(''k'', ''v'')])"
proof -
  obtain w' a' err where r: "saveSnapshotWithRetry plain_runner Background ''r'' (\<lambda>a s. (a, Inr (set_var ''k'' ''v'' s))) () busy_world
      = (w', a', err)" by (metis prod_cases3)
  with busy_save have e: "err = None"
    and s: "map_option (\<lambda>s. (Version s, CurrentNodeID s, Variables s)) (Snapshots (Repo w') ''r'') = Some (3, ''other'', Some [(''k'', ''v'')])"
    by auto
  from saveSnapshotWithRetry_atomic [OF keeps_identity_set r bounded_busy repo_inv_busy] e
  obtain u where "by_others True busy_world u"
    "atomic_update True Background ''r'' (\<lambda>s s'. Inr (set_var ''k'' ''v'' s) = (Inr s' :: go_error + run_snapshot)) u w'"
    by (auto simp: plain_runner_def)
  moreover have "(\<lambda>s s'. Inr (set_var ''k'' ''v'' s) = (Inr s' :: go_error + run_snapshot)) = (\<lambda>s s'. s' = set_var ''k'' ''v'' s)"
    by (auto simp: fun_eq_iff)
  ultimately show ?thesis using s by auto
qed

text \<open>
  A step output reads back as it was saved. Whatever other writers did while it was saved, once they
  are quiet the output that \<^verbatim>\<open>SaveStepOutput\<close> reported as saved is what \<^verbatim>\<open>stepOutputRaw\<close> returns for the
  same step, after redaction, whether it is kept inline or in the blob store; and no output that another
  writer had saved for another step is lost.
\<close>

theorem step_output_roundtrip:
  assumes "SaveStepOutput R ctx scope s runID nodeID (Inr raw) w = (w', None)"
    and "bounded_moments w" and "repo_inv (Repo w)" and "Moments w' = []"
  shows "(\<exists>out. redact R runID (storageNodeID scope nodeID) raw = Inr out
       \<and> stepOutputRaw R ctx scope runID nodeID w' = (w', Inr (Some out)))
     \<and> (\<exists>u before after. by_others (Fenced R) w u \<and> Snapshots (Repo u) runID = Some before
       \<and> Snapshots (Repo w') runID = Some after
       \<and> (\<forall>k. k \<noteq> storageNodeID scope nodeID \<longrightarrow> map_of (outputs_of after) k = map_of (outputs_of before) k))"
proof -
  let ?stored = "storageNodeID scope nodeID"
  have runs: "HasRuns R" and attempt:
    "output_attempts 5 R ctx scope (StepOutputThreshold (Runtime s)) runID ?stored raw w = (w', None)"
    using assms(1) by (auto simp: SaveStepOutput_def split: if_splits)
  obtain u ref out where r: "by_others (Fenced R) w u" and out: "redact R runID ?stored raw = Inr out"
    and ref: "ref_holds ctx (Blobs w') ref out" "Blob ref \<noteq> None \<longrightarrow> HasBlobs R"
    and upd: "atomic_update (Fenced R) ctx runID (\<lambda>s s'. s' = with_output scope ?stored ref s) u w'"
    using output_attempts_atomic [OF attempt assms(2,3)] by auto
  have inv: "repo_inv (Repo u)" using by_others_inv [OF r assms(3)] .
  obtain s0 t where l0: "LoadAuthorized (live ctx) (Repo u) runID = Inr s0"
    and t: "same_content (with_output scope ?stored ref s0) t" "Snapshots (Repo w') = (Snapshots (Repo u))(runID \<mapsto> t)"
      "LoadAuthorized (live ctx) (Repo w') runID = Inr (the (NormalizeSnapshot (Some t)))"
    using atomic_update_load [OF upd inv] by (metis with_output_fields(1,2))
  have outs: "outputs_of t = AList.update ?stored ref (outputs_of s0)"
    using same_content_fields(4) [OF t(1)] by (simp add: outputs_of_def with_output_def Let_def)
  have norm: "outputs_of (the (NormalizeSnapshot (Some u))) = outputs_of u" for u
    by (simp add: NormalizeSnapshot_def outputs_of_def Let_def split: option.splits)
  have quiet: "tick f w' = (quiet_moment, w')" "at_moment quiet_moment ctx = live ctx" for f
    using assms(4) by (simp_all add: at_moment_def quiet_moment_def)
  have "stepOutputRaw R ctx scope runID nodeID w' = (w', Inr (Some out))"
    using runs t(3) outs norm ref quiet
    by (auto simp: stepOutputRaw_def load_run_def find_output_def ref_holds_def inline_bytes_def update_conv' Let_def
        simp del: tick.simps)
  moreover obtain b where b: "Snapshots (Repo u) runID = Some b" "outputs_of s0 = outputs_of b"
    using l0 norm by (auto simp: LoadAuthorized_def Repository_Load_def split: sum.splits option.splits)
  moreover have "\<forall>k. k \<noteq> ?stored \<longrightarrow> map_of (outputs_of t) k = map_of (outputs_of b) k"
    using outs b(2) by (simp add: update_conv')
  moreover have "Snapshots (Repo w') runID = Some t" using t(2) by simp
  ultimately show ?thesis using out r by blast
qed

theorem step_output_roundtrip_witness:
  "\<exists>w'. SaveStepOutput plain_runner Background no_scope zero_scenario ''r'' ''a'' (Inr ''out'') busy_world = (w', None)
     \<and> stepOutputRaw plain_runner Background no_scope ''r'' ''a'' w' = (w', Inr (Some ''out''))"
proof -
  have ok: "let (w', err) = SaveStepOutput plain_runner Background no_scope zero_scenario ''r'' ''a'' (Inr ''out'') busy_world
     in err = None \<and> Moments w' = []" by code_simp
  then obtain w' where r: "SaveStepOutput plain_runner Background no_scope zero_scenario ''r'' ''a'' (Inr ''out'') busy_world = (w', None)"
    and m: "Moments w' = []" by (auto simp: Let_def split: prod.splits)
  from step_output_roundtrip [OF r bounded_busy repo_inv_busy m] r show ?thesis
    by (auto simp: redact_def plain_runner_def)
qed

end
