(* ===== verification/Runtime_Store.thy ===== *)
theory Runtime_Store
  imports Workflow_Atomic
begin

text \<open>
  How the runtime engine writes run state: \<^verbatim>\<open>internal/application/runtime/runtime_snapshot.go\<close>, over the same world of interfering
  writers as the workflow runner. Every loop makes five passes at most; a pass loads the run, changes it and saves it, and
  is repeated when the save finds a newer version.
\<close>

section \<open>Passes\<close>

text \<open>One pass of a loop ends it with a result or asks for another pass; \<open>attempt\<close> counts from 0.\<close>

datatype 'a pass = Stop 'a | Again

fun passes :: "nat \<Rightarrow> nat \<Rightarrow> (nat \<Rightarrow> world \<Rightarrow> world \<times> 'a pass) \<Rightarrow> 'a \<Rightarrow> world \<Rightarrow> world \<times> 'a" where
  "passes 0 attempt body exhausted w = (w, exhausted)"
| "passes (Suc n) attempt body exhausted w =
     (case body attempt w of
        (w1, Stop x) \<Rightarrow> (w1, x)
      | (w1, Again) \<Rightarrow> passes n (Suc attempt) body exhausted w1)"

text \<open>\<^verbatim>\<open>retryDelay\<close>: the wait ends early, with its error, when the context is done.\<close>

definition retryDelay :: "runner \<Rightarrow> world \<Rightarrow> world \<times> go_error option" where
  "retryDelay R w = ctx_err R w"

definition stale_pass :: "runner \<Rightarrow> (go_error \<Rightarrow> 'a) \<Rightarrow> go_error \<Rightarrow> world \<Rightarrow> world \<times> 'a pass" where
  "stale_pass R failed e w =
     (if \<not> errors_is e ErrStaleSnapshot then (w, Stop (failed e))
      else (case retryDelay R w of (w1, Some d) \<Rightarrow> (w1, Stop (failed d)) | (w1, None) \<Rightarrow> (w1, Again)))"

section \<open>Pausing\<close>

definition ensure_pass :: "runner \<Rightarrow> gctx \<Rightarrow> string \<Rightarrow> nat \<Rightarrow> world \<Rightarrow> world \<times> go_error option pass" where
  "ensure_pass R ctx runID attempt w =
     (case load_run R ctx runID w of
        (w1, Inl e) \<Rightarrow> (w1, Stop (Some e))
      | (w1, Inr snapshot) \<Rightarrow>
          if Status snapshot \<noteq> RunStatusRunning then (w1, Stop None)
          else (case saveRunSnapshot R ctx (snapshot\<lparr>Status := RunStatusPaused\<rparr>) (Version snapshot) w1 of
              (w2, None) \<Rightarrow> (w2, Stop None)
            | (w2, Some e) \<Rightarrow> stale_pass R Some e w2))"

definition ensureRunPaused :: "runner \<Rightarrow> gctx \<Rightarrow> string \<Rightarrow> world \<Rightarrow> world \<times> go_error option" where
  "ensureRunPaused R ctx runID w =
     passes 5 0 (ensure_pass R ctx runID)
       (Some (Errorf ''runtime: failed to persist paused status for run %q after stale retries'' [runID] None)) w"

definition pause_pass ::
  "runner \<Rightarrow> gate \<Rightarrow> gctx \<Rightarrow> string \<Rightarrow> (int \<Rightarrow> checkpoint_state) \<Rightarrow> nat \<Rightarrow> world \<Rightarrow> world \<times> (go_error + string) pass" where
  "pause_pass R gate ctx runID build attempt w =
     (case ctx_err R w of
        (w0, Some e) \<Rightarrow> (w0, Stop (Inl e))
      | (w0, None) \<Rightarrow>
          (case load_run R ctx runID w0 of
             (w1, Inl e) \<Rightarrow> (w1, Stop (Inl e))
           | (w1, Inr snapshot) \<Rightarrow>
               (case gate ctx (build (Version snapshot)) w1 of
                  (w2, Inr token) \<Rightarrow> (w2, Stop (Inr token))
                | (w2, Inl e) \<Rightarrow> stale_pass R Inl e w2)))"

definition engine_pauseWithRetry ::
  "runner \<Rightarrow> gate \<Rightarrow> gctx \<Rightarrow> string \<Rightarrow> (int \<Rightarrow> checkpoint_state) \<Rightarrow> world \<Rightarrow> world \<times> (go_error + string)" where
  "engine_pauseWithRetry R gate ctx runID build w =
     passes 5 0 (pause_pass R gate ctx runID build)
       (Inl (Errorf ''runtime: failed to pause run %q after stale snapshot retries'' [runID] None)) w"

section \<open>Changing a snapshot\<close>

definition change_pass ::
  "runner \<Rightarrow> gctx \<Rightarrow> string \<Rightarrow> (run_snapshot \<Rightarrow> go_error + run_snapshot) \<Rightarrow> nat \<Rightarrow> world \<Rightarrow> world \<times> go_error option pass" where
  "change_pass R ctx runID mutate attempt w =
     (case load_run R ctx runID w of
        (w1, Inl e) \<Rightarrow> (w1, Stop (Some e))
      | (w1, Inr snapshot) \<Rightarrow>
          (case mutate snapshot of
             Inl e \<Rightarrow> (w1, Stop (Some e))
           | Inr s1 \<Rightarrow>
               (case saveRunSnapshot R ctx s1 (Version s1) w1 of
                  (w2, None) \<Rightarrow> (w2, Stop None)
                | (w2, Some e) \<Rightarrow> stale_pass R Some e w2)))"

definition engine_saveSnapshotWithRetry ::
  "runner \<Rightarrow> gctx \<Rightarrow> string \<Rightarrow> (run_snapshot \<Rightarrow> go_error + run_snapshot) \<Rightarrow> world \<Rightarrow> world \<times> go_error option" where
  "engine_saveSnapshotWithRetry R ctx runID mutate w =
     passes 5 0 (change_pass R ctx runID mutate)
       (Some (Errorf ''runtime: failed to save snapshot %q after stale retries'' [runID] None)) w"

section \<open>Step outputs\<close>

text \<open>The engine's \<^verbatim>\<open>stepOutputRef\<close> has the body of the workflow runner's.\<close>

definition engine_stepOutputRef ::
  "runner \<Rightarrow> gctx \<Rightarrow> string \<Rightarrow> string \<Rightarrow> int \<Rightarrow> bytes \<Rightarrow> world \<Rightarrow> world \<times> (go_error + step_output_ref)" where
  "engine_stepOutputRef R ctx runID key threshold raw w = stepOutputRef R ctx runID key threshold raw w"

text \<open>The references of several outputs, put into the map in the order it is walked.\<close>

fun output_refs ::
  "runner \<Rightarrow> gctx \<Rightarrow> string \<Rightarrow> int \<Rightarrow> (string \<times> bytes) list \<Rightarrow> (string \<times> step_output_ref) list \<Rightarrow> world
     \<Rightarrow> world \<times> (go_error + (string \<times> step_output_ref) list)" where
  "output_refs R ctx runID threshold [] outs w = (w, Inr outs)"
| "output_refs R ctx runID threshold ((key, raw) # raws) outs w =
     (case engine_stepOutputRef R ctx runID key threshold raw w of
        (w1, Inl e) \<Rightarrow> (w1, Inl e)
      | (w1, Inr ref) \<Rightarrow> output_refs R ctx runID threshold raws (AList.update key ref outs) w1)"

definition outputs_pass ::
  "runner \<Rightarrow> gctx \<Rightarrow> int \<Rightarrow> string \<Rightarrow> (string \<times> bytes) list \<Rightarrow> nat \<Rightarrow> world \<Rightarrow> world \<times> go_error option pass" where
  "outputs_pass R ctx threshold runID raws attempt w =
     (case load_run R ctx runID w of
        (w1, Inl e) \<Rightarrow> (w1, Stop (Some e))
      | (w1, Inr snapshot) \<Rightarrow>
          (case output_refs R ctx runID threshold raws (outputs_of snapshot) w1 of
             (w2, Inl e) \<Rightarrow> (w2, Stop (Some e))
           | (w2, Inr outs) \<Rightarrow>
               (case saveRunSnapshot R ctx (snapshot\<lparr>StepOutputs := Some outs\<rparr>) (Version snapshot) w2 of
                  (w3, None) \<Rightarrow> (w3, Stop None)
                | (w3, Some e) \<Rightarrow> if \<not> errors_is e ErrStaleSnapshot then (w3, Stop (Some e)) else (w3, Again))))"

definition engine_saveStepOutput ::
  "runner \<Rightarrow> gctx \<Rightarrow> int \<Rightarrow> string \<Rightarrow> string \<Rightarrow> go_error + bytes \<Rightarrow> world \<Rightarrow> world \<times> go_error option" where
  "engine_saveStepOutput R ctx threshold runID key marshalled w =
     (if \<not> HasRuns R then (w, Some (Errorf ''runtime: runstate repository is required to save step output'' [] None))
      else (case marshalled of
          Inl e \<Rightarrow> (w, Some e)
        | Inr raw \<Rightarrow> passes 5 0 (outputs_pass R ctx threshold runID [(key, raw)])
            (Some (Errorf ''runtime: failed to save step %q output after stale snapshot retries'' [key] None)) w))"

text \<open>\<open>outputs\<close> is the map of values with what \<^verbatim>\<open>json.Marshal\<close> gives for each; the first error ends the call.\<close>

fun marshalled_all :: "(string \<times> (go_error + bytes)) list \<Rightarrow> go_error + (string \<times> bytes) list" where
  "marshalled_all [] = Inr []"
| "marshalled_all ((key, m) # ms) =
     (case m of Inl e \<Rightarrow> Inl e
      | Inr raw \<Rightarrow> (case marshalled_all ms of Inl e \<Rightarrow> Inl e | Inr raws \<Rightarrow> Inr ((key, raw) # raws)))"

definition saveStepOutputs ::
  "runner \<Rightarrow> gctx \<Rightarrow> int \<Rightarrow> string \<Rightarrow> (string \<times> (go_error + bytes)) list \<Rightarrow> world \<Rightarrow> world \<times> go_error option" where
  "saveStepOutputs R ctx threshold runID outputs w =
     (if outputs = [] then (w, None)
      else if \<not> HasRuns R then (w, Some (Errorf ''runtime: runstate repository is required to save step outputs'' [] None))
      else (case marshalled_all outputs of
          Inl e \<Rightarrow> (w, Some e)
        | Inr raws \<Rightarrow> passes 5 0 (outputs_pass R ctx threshold runID raws)
            (Some (Errorf ''runtime: failed to save %d step outputs after stale snapshot retries'' [nat_text (length outputs)] None)) w))"

text \<open>\<open>encode\<close> is the JSON of a string.\<close>

definition stampLeaseOwner :: "(string \<Rightarrow> bytes) \<Rightarrow> string \<Rightarrow> run_snapshot \<Rightarrow> run_snapshot" where
  "stampLeaseOwner encode owner s = (if owner = [] then s else set_var ''run_lease_owner'' (encode owner) s)"

section \<open>A rule for the loops\<close>

lemma passes_rule:
  assumes again: "\<And>i w w1. bounded_moments w \<Longrightarrow> repo_inv (Repo w) \<Longrightarrow> body i w = (w1, Again) \<Longrightarrow>
      by_others fenced w w1 \<and> bounded_moments w1"
    and stop: "\<And>i w w1 x. bounded_moments w \<Longrightarrow> repo_inv (Repo w) \<Longrightarrow> body i w = (w1, Stop x) \<Longrightarrow> P w w1 x"
    and others: "\<And>r r' w x. by_others fenced r r' \<Longrightarrow> P r' w x \<Longrightarrow> P r w x"
    and out: "\<And>w. P w w exhausted"
    and run: "passes n i body exhausted w = (w', x)" and "bounded_moments w" and "repo_inv (Repo w)"
  shows "P w w' x"
  using run assms(6,7)
proof (induction n arbitrary: i w)
  case 0
  then show ?case using out by auto
next
  case (Suc n)
  obtain w1 p where b: "body i w = (w1, p)" by fastforce
  show ?case
  proof (cases p)
    case (Stop y)
    with Suc.prems b stop [OF Suc.prems(2,3)] show ?thesis by auto
  next
    case Again
    with b again [OF Suc.prems(2,3)] have o: "by_others fenced w w1" "bounded_moments w1" by auto
    have "P w1 w' x"
      using Suc.IH [OF _ o(2) by_others_inv [OF o(1) Suc.prems(3)]] Suc.prems(1) b Again by simp
    with others [OF o(1)] show ?thesis by simp
  qed
qed

lemma ctx_err_by_others:
  "ctx_err R w = (w1, res) \<Longrightarrow> bounded_moments w \<Longrightarrow> by_others (Fenced R) w w1 \<and> bounded_moments w1"
  using tick_by_others by (auto simp: ctx_err_def simp del: tick.simps split: prod.splits)

lemma stale_pass_by_others:
  "stale_pass R failed e w = (w1, p) \<Longrightarrow> bounded_moments w \<Longrightarrow>
     by_others (Fenced R) w w1 \<and> bounded_moments w1 \<and> (p = Again \<or> (\<exists>d. p = Stop (failed d)))"
  using ctx_err_by_others by (auto simp: stale_pass_def retryDelay_def split: if_splits prod.splits option.splits)

section \<open>Pausing writes once\<close>

definition paused_change :: "run_snapshot \<Rightarrow> run_snapshot \<Rightarrow> bool" where
  "paused_change s s' \<longleftrightarrow> Status s = RunStatusRunning \<and> s' = s\<lparr>Status := RunStatusPaused\<rparr>"

definition settled_pause :: "bool \<Rightarrow> gctx \<Rightarrow> string \<Rightarrow> world \<Rightarrow> world \<Rightarrow> bool" where
  "settled_pause fenced ctx runID r r' \<longleftrightarrow>
     by_others fenced r r' \<and> (\<exists>s. LoadAuthorized (live ctx) (Repo r') runID = Inr s \<and> Status s \<noteq> RunStatusRunning)
     \<or> (\<exists>r1. by_others fenced r r1 \<and> atomic_update fenced ctx runID paused_change r1 r')"

lemma settled_pause_others: "by_others fenced r r' \<Longrightarrow> settled_pause fenced ctx runID r' r'' \<Longrightarrow> settled_pause fenced ctx runID r r''"
  unfolding settled_pause_def by (meson by_others_trans)

lemma load_run_Inr:
  assumes "load_run R ctx runID w = (w1, Inr s)"
  shows "LoadAuthorized (live ctx) (Repo w1) runID = Inr s"
  using assms LoadAuthorized_same by (auto simp: load_run_def simp del: tick.simps split: prod.splits)

lemma ensure_pass_cases:
  assumes "bounded_moments w" and "repo_inv (Repo w)" and "ensure_pass R ctx runID i w = (w', p)"
  shows "case p of
      Stop None \<Rightarrow> settled_pause (Fenced R) ctx runID w w'
    | _ \<Rightarrow> by_others (Fenced R) w w' \<and> bounded_moments w'"
proof -
  obtain w1 res where l: "load_run R ctx runID w = (w1, res)" by fastforce
  note o1 = load_run_by_others [OF l assms(1)]
  show ?thesis
  proof (cases res)
    case (Inl e)
    with assms(3) l o1 show ?thesis by (auto simp: ensure_pass_def)
  next
    case (Inr s)
    show ?thesis
    proof (cases "Status s = RunStatusRunning")
      case False
      with assms(3) l o1 Inr load_run_Inr [of R ctx runID w w1 s] show ?thesis
        by (auto simp: ensure_pass_def settled_pause_def)
    next
      case True
      obtain w2 err where sv: "saveRunSnapshot R ctx (s\<lparr>Status := RunStatusPaused\<rparr>) (Version s) w1 = (w2, err)" by fastforce
      show ?thesis
      proof (cases err)
        case None
        with l Inr sv load_save_atomic [of R ctx runID w w1 s w1 "s\<lparr>Status := RunStatusPaused\<rparr>" "Version s" w2 paused_change] assms o1 True
        have "\<exists>u. by_others (Fenced R) w u \<and> atomic_update (Fenced R) ctx runID paused_change u w2"
          by (simp add: paused_change_def)
        with None assms(3) l Inr True sv show ?thesis by (auto simp: ensure_pass_def settled_pause_def)
      next
        case (Some e)
        note o2 = saveRunSnapshot_failed [OF sv [unfolded Some] o1(2)]
        from assms(3) l Inr True sv Some have st: "stale_pass R Some e w2 = (w', p)" by (simp add: ensure_pass_def)
        from stale_pass_by_others [OF st o2(2)] by_others_trans [OF by_others_trans [OF o1(1) o2(1)]]
        show ?thesis by auto
      qed
    qed
  qed
qed

lemma ensureRunPaused_settled:
  assumes "ensureRunPaused R ctx runID w = (w', err)" and "bounded_moments w" and "repo_inv (Repo w)"
  shows "case err of None \<Rightarrow> settled_pause (Fenced R) ctx runID w w' | Some e \<Rightarrow> by_others (Fenced R) w w'"
  using assms(1) unfolding ensureRunPaused_def
proof (rule passes_rule [where fenced = "Fenced R" and P = "\<lambda>r w' err. case err of None \<Rightarrow> settled_pause (Fenced R) ctx runID r w'
       | Some e \<Rightarrow> by_others (Fenced R) r w'", rotated 4])
  fix i w w1
  assume "bounded_moments w" "repo_inv (Repo w)" "ensure_pass R ctx runID i w = (w1, Again)"
  then show "by_others (Fenced R) w w1 \<and> bounded_moments w1" by (auto dest: ensure_pass_cases)
next
  fix i w w1 x
  assume "bounded_moments w" "repo_inv (Repo w)" "ensure_pass R ctx runID i w = (w1, Stop x)"
  note ensure_pass_cases [OF this]
  then show "case x of None \<Rightarrow> settled_pause (Fenced R) ctx runID w w1 | Some e \<Rightarrow> by_others (Fenced R) w w1"
    by (cases x) auto
next
  fix r r' w x
  assume "by_others (Fenced R) r r'"
    "case x of None \<Rightarrow> settled_pause (Fenced R) ctx runID r' w | Some e \<Rightarrow> by_others (Fenced R) r' w"
  then show "case x of None \<Rightarrow> settled_pause (Fenced R) ctx runID r w | Some e \<Rightarrow> by_others (Fenced R) r w"
    by (cases x) (auto intro: settled_pause_others by_others_trans)
qed (use assms in simp_all)

section \<open>Outputs are saved together\<close>

text \<open>The reference of an output: its bytes inline, or the digest they are stored under.\<close>

definition ref_of :: "runner \<Rightarrow> gctx \<Rightarrow> int \<Rightarrow> bytes \<Rightarrow> step_output_ref" where
  "ref_of R ctx threshold out =
     (if threshold \<le> 0 \<or> int (length out) \<le> threshold \<or> \<not> HasBlobs R then \<lparr>Inline = Some out, Blob = None\<rparr>
      else \<lparr>Inline = None, Blob = Some ((NewBlobRef [] out)\<lparr>BlobID :=
           (if tenantIDFromContext ctx = [] then [] else blobTenantHash (tenantIDFromContext ctx)) @ hex_encode (sha256 out)\<rparr>)\<rparr>)"

text \<open>Every output got the reference of its redacted bytes, and the other outputs are as they were.\<close>

definition outputs_change :: "runner \<Rightarrow> gctx \<Rightarrow> int \<Rightarrow> string \<Rightarrow> (string \<times> bytes) list \<Rightarrow> run_snapshot \<Rightarrow> run_snapshot \<Rightarrow> bool" where
  "outputs_change R ctx threshold runID raws s s' \<longleftrightarrow>
     (\<exists>outs. s' = s\<lparr>StepOutputs := Some outs\<rparr>
        \<and> (\<forall>key. map_of outs key = (case map_of raws key of
             Some raw \<Rightarrow> (case redact R runID key raw of Inr out \<Rightarrow> Some (ref_of R ctx threshold out) | Inl e \<Rightarrow> None)
           | None \<Rightarrow> map_of (outputs_of s) key)))"

lemma engine_stepOutputRef_ok:
  assumes "engine_stepOutputRef R ctx runID key threshold raw w = (w1, Inr ref)"
  shows "\<exists>out. redact R runID key raw = Inr out \<and> ref = ref_of R ctx threshold out"
  using assms
  by (auto simp: engine_stepOutputRef_def stepOutputRef_def ref_of_def Blobs_Put_ok at_moment_def simp del: tick.simps
      split: sum.splits prod.splits if_splits)

lemma engine_stepOutputRef_by_others:
  assumes "engine_stepOutputRef R ctx runID key threshold raw w = (w1, res)" and "bounded_moments w"
  shows "by_others (Fenced R) w w1 \<and> bounded_moments w1"
  using assms tick_by_others unfolding engine_stepOutputRef_def stepOutputRef_def bounded_moments_def
  by (auto simp del: tick.simps split: sum.splits prod.splits if_splits)

lemma output_refs_by_others:
  "output_refs R ctx runID threshold raws outs w = (w1, res) \<Longrightarrow> bounded_moments w \<Longrightarrow>
     by_others (Fenced R) w w1 \<and> bounded_moments w1"
proof (induction raws arbitrary: outs w)
  case (Cons kr raws)
  obtain key raw where kr: "kr = (key, raw)" by fastforce
  obtain w2 r where s: "engine_stepOutputRef R ctx runID key threshold raw w = (w2, r)" by fastforce
  note o = engine_stepOutputRef_by_others [OF s Cons.prems(2)]
  show ?case
  proof (cases r)
    case (Inl e)
    with Cons.prems s kr o show ?thesis by auto
  next
    case (Inr ref)
    with Cons.prems s kr have "output_refs R ctx runID threshold raws (AList.update key ref outs) w2 = (w1, res)" by simp
    from Cons.IH [OF this] o by_others_trans show ?thesis by blast
  qed
qed auto

lemma output_refs_map:
  "output_refs R ctx runID threshold raws outs w = (w1, Inr outs') \<Longrightarrow> distinct (map fst raws) \<Longrightarrow>
     map_of outs' k = (case map_of raws k of
         Some raw \<Rightarrow> (case redact R runID k raw of Inr out \<Rightarrow> Some (ref_of R ctx threshold out) | Inl e \<Rightarrow> None)
       | None \<Rightarrow> map_of outs k)"
proof (induction raws arbitrary: outs w)
  case (Cons kr raws)
  obtain key raw where kr: "kr = (key, raw)" by fastforce
  with Cons.prems obtain w2 ref where s: "engine_stepOutputRef R ctx runID key threshold raw w = (w2, Inr ref)"
    and r: "output_refs R ctx runID threshold raws (AList.update key ref outs) w2 = (w1, Inr outs')"
    by (auto split: prod.splits sum.splits)
  obtain out where out: "redact R runID key raw = Inr out" "ref = ref_of R ctx threshold out"
    using engine_stepOutputRef_ok [OF s] by blast
  have "map_of raws key = None" using Cons.prems(2) kr by (auto simp: map_of_eq_None_iff)
  with Cons.IH [OF r] Cons.prems(2) kr out show ?case by (auto simp: update_conv' split: option.splits)
qed simp

lemma outputs_pass_cases:
  assumes "bounded_moments w" and "repo_inv (Repo w)" and "outputs_pass R ctx threshold runID raws i w = (w', p)"
    and "distinct (map fst raws)"
  shows "case p of
      Stop None \<Rightarrow> \<exists>u. by_others (Fenced R) w u
        \<and> atomic_update (Fenced R) ctx runID (outputs_change R ctx threshold runID raws) u w'
    | _ \<Rightarrow> by_others (Fenced R) w w' \<and> bounded_moments w'"
proof -
  obtain w1 res where l: "load_run R ctx runID w = (w1, res)" by fastforce
  note o1 = load_run_by_others [OF l assms(1)]
  show ?thesis
  proof (cases res)
    case (Inl e)
    with assms(3) l o1 show ?thesis by (auto simp: outputs_pass_def)
  next
    case (Inr s)
    obtain w2 refs where r: "output_refs R ctx runID threshold raws (outputs_of s) w1 = (w2, refs)" by fastforce
    note o2 = output_refs_by_others [OF r o1(2)]
    have o12: "by_others (Fenced R) w w2" using by_others_trans o1(1) o2 by blast
    show ?thesis
    proof (cases refs)
      case e: (Inl e)
      with assms(3) l Inr r o2 o12 show ?thesis by (auto simp: outputs_pass_def)
    next
      case outs: (Inr outs)
      obtain w3 err where sv: "saveRunSnapshot R ctx (s\<lparr>StepOutputs := Some outs\<rparr>) (Version s) w2 = (w3, err)" by fastforce
      show ?thesis
      proof (cases err)
        case None
        have c: "outputs_change R ctx threshold runID raws s (s\<lparr>StepOutputs := Some outs\<rparr>)"
          using output_refs_map [OF r [unfolded outs] assms(4)] by (auto simp: outputs_change_def)
        with load_save_atomic [of R ctx runID w w1 s w2 _ "Version s" w3, OF l [unfolded Inr]] o2 sv None assms c
        have "\<exists>u. by_others (Fenced R) w u
            \<and> atomic_update (Fenced R) ctx runID (outputs_change R ctx threshold runID raws) u w3" by fastforce
        with None assms(3) l Inr r outs sv show ?thesis by (auto simp: outputs_pass_def)
      next
        case (Some e)
        note o3 = saveRunSnapshot_failed [OF sv [unfolded Some] conjunct2 [OF o2]]
        from assms(3) l Inr r outs sv Some by_others_trans [OF o12 o3(1)] o3(2) show ?thesis
          by (auto simp: outputs_pass_def split: if_splits)
      qed
    qed
  qed
qed

abbreviation outputs_result :: "runner \<Rightarrow> gctx \<Rightarrow> int \<Rightarrow> string \<Rightarrow> (string \<times> bytes) list \<Rightarrow> world \<Rightarrow> world \<Rightarrow> go_error option \<Rightarrow> bool" where
  "outputs_result R ctx threshold runID raws r0 w' err \<equiv> (case err of
      None \<Rightarrow> \<exists>u. by_others (Fenced R) r0 u \<and> atomic_update (Fenced R) ctx runID (outputs_change R ctx threshold runID raws) u w'
    | Some e \<Rightarrow> by_others (Fenced R) r0 w')"

lemma outputs_passes:
  assumes "passes n i (outputs_pass R ctx threshold runID raws) (Some e0) w = (w', err)" and "bounded_moments w" and "repo_inv (Repo w)"
    and d: "distinct (map fst raws)"
  shows "outputs_result R ctx threshold runID raws w w' err"
  using assms(1)
proof (rule passes_rule [where fenced = "Fenced R" and P = "outputs_result R ctx threshold runID raws", rotated 4])
  fix i w w1
  assume "bounded_moments w" "repo_inv (Repo w)" "outputs_pass R ctx threshold runID raws i w = (w1, Again)"
  note outputs_pass_cases [OF this d]
  then show "by_others (Fenced R) w w1 \<and> bounded_moments w1" by simp
next
  fix i w w1 x
  assume "bounded_moments w" "repo_inv (Repo w)" "outputs_pass R ctx threshold runID raws i w = (w1, Stop x)"
  note outputs_pass_cases [OF this d]
  then show "outputs_result R ctx threshold runID raws w w1 x" by (cases x) auto
next
  fix r r' w x
  assume "by_others (Fenced R) r r'" "outputs_result R ctx threshold runID raws r' w x"
  then show "outputs_result R ctx threshold runID raws r w x" by (cases x) (auto intro: by_others_trans)
qed (use assms in simp_all)

lemma marshalled_all_keys: "marshalled_all ms = Inr raws \<Longrightarrow> map fst raws = map fst ms"
  by (induction ms arbitrary: raws rule: marshalled_all.induct) (auto split: sum.splits)

text \<open>
  C26: the outputs of a tool batch are saved together or not at all. Whatever other writers do in between, a successful
  call is one atomic update of the run in which every output has the reference of its redacted bytes and no other output changes;
  a failed call leaves the repository to the others.
\<close>

theorem batch_outputs_atomic:
  assumes "saveStepOutputs R ctx threshold runID outputs w = (w', err)" and "outputs \<noteq> []" and "distinct (map fst outputs)"
    and "bounded_moments w" and "repo_inv (Repo w)"
  shows "case err of
      None \<Rightarrow> \<exists>raws u. marshalled_all outputs = Inr raws \<and> by_others (Fenced R) w u
        \<and> atomic_update (Fenced R) ctx runID (outputs_change R ctx threshold runID raws) u w'
    | Some e \<Rightarrow> by_others (Fenced R) w w'"
proof (cases "marshalled_all outputs")
  case (Inl e)
  with assms show ?thesis by (auto simp: saveStepOutputs_def split: if_splits)
next
  case (Inr raws)
  show ?thesis
  proof (cases "HasRuns R")
    case True
    with assms(1,2) Inr have "passes 5 0 (outputs_pass R ctx threshold runID raws)
      (Some (Errorf ''runtime: failed to save %d step outputs after stale snapshot retries'' [nat_text (length outputs)] None)) w = (w', err)"
      by (simp add: saveStepOutputs_def)
    from outputs_passes [OF this assms(4,5)] marshalled_all_keys [OF Inr] assms(3) Inr show ?thesis by (cases err) auto
  next
    case False
    with assms(1,2) show ?thesis by (auto simp: saveStepOutputs_def)
  qed
qed

text \<open>Two outputs saved while another writer gets in between: both are there, with the other's change.\<close>

definition sample_outputs :: "(string \<times> (go_error + bytes)) list" where
  "sample_outputs = [(''tool.a'', Inr ''1''), (''tool.b'', Inr ''2'')]"

lemma sample_outputs_run:
  "let (w', err) = saveStepOutputs plain_runner Background 0 ''r'' sample_outputs busy_world
   in err = None \<and> map_option (\<lambda>s. (Version s, CurrentNodeID s, map fst (outputs_of s))) (Snapshots (Repo w') ''r'')
        = Some (3, ''other'', [''tool.a'', ''tool.b''])"
  by code_simp

theorem batch_outputs_atomic_witness:
  "\<exists>raws u. marshalled_all sample_outputs = Inr raws \<and> by_others True busy_world u
     \<and> atomic_update True Background ''r'' (outputs_change plain_runner Background 0 ''r'' raws) u
         (fst (saveStepOutputs plain_runner Background 0 ''r'' sample_outputs busy_world))"
proof -
  obtain w' err where s: "saveStepOutputs plain_runner Background 0 ''r'' sample_outputs busy_world = (w', err)" by fastforce
  then have e: "err = None" using sample_outputs_run by simp
  have d: "distinct (map fst sample_outputs)" "sample_outputs \<noteq> []" by (simp_all add: sample_outputs_def)
  from batch_outputs_atomic [OF s d(2,1) bounded_busy repo_inv_busy] e s show ?thesis
    by (simp add: plain_runner_def)
qed

text \<open>
  Pausing a run writes its status at most once. After a success the stored run is not running; either it was already so and
  nothing was written, which keeps the token of the pause valid, or it was running and became paused in one atomic update. A failure
  leaves the repository to the others.
\<close>

theorem pause_written_once:
  assumes "ensureRunPaused R ctx runID w = (w', err)" and "bounded_moments w" and "repo_inv (Repo w)"
  shows "case err of
      None \<Rightarrow> (\<exists>s. LoadAuthorized (live ctx) (Repo w') runID = Inr s \<and> Status s \<noteq> RunStatusRunning)
        \<and> (by_others (Fenced R) w w'
           \<or> (\<exists>u. by_others (Fenced R) w u \<and> atomic_update (Fenced R) ctx runID paused_change u w'))
    | Some e \<Rightarrow> by_others (Fenced R) w w'"
proof (cases err)
  case None
  have "settled_pause (Fenced R) ctx runID w w'" using ensureRunPaused_settled [OF assms] None by simp
  moreover have "\<exists>s. LoadAuthorized (live ctx) (Repo w') runID = Inr s \<and> Status s \<noteq> RunStatusRunning"
    if o: "by_others (Fenced R) w u" and u: "atomic_update (Fenced R) ctx runID paused_change u w'" for u
  proof -
    obtain s s' t where t: "paused_change s s'" "same_content s' t"
      "LoadAuthorized (live ctx) (Repo w') runID = Inr (the (NormalizeSnapshot (Some t)))"
      by (rule atomic_update_load [OF u by_others_inv [OF o assms(3)]]) (auto simp: paused_change_def)
    then have "Status t = RunStatusPaused" using same_content_fields(6) [OF t(2)] by (simp add: paused_change_def)
    then have "Status (the (NormalizeSnapshot (Some t))) = RunStatusPaused"
      by (auto simp: NormalizeSnapshot_def Let_def)
    with t(3) show ?thesis by auto
  qed
  ultimately show ?thesis using None unfolding settled_pause_def by auto
next
  case (Some e)
  with ensureRunPaused_settled [OF assms] show ?thesis by simp
qed

lemma busy_pause:
  "let (w', err) = ensureRunPaused plain_runner Background ''r'' busy_world
   in err = None \<and> map_option (\<lambda>s. (Version s, Status s)) (Snapshots (Repo w') ''r'') = Some (3, RunStatusPaused)"
  by code_simp

theorem pause_written_once_witness:
  "\<exists>s. LoadAuthorized Background (Repo (fst (ensureRunPaused plain_runner Background ''r'' busy_world))) ''r'' = Inr s
     \<and> Status s \<noteq> RunStatusRunning"
proof -
  obtain w' err where s: "ensureRunPaused plain_runner Background ''r'' busy_world = (w', err)" by fastforce
  then have "err = None" using busy_pause by simp
  with pause_written_once [OF s bounded_busy repo_inv_busy] s show ?thesis by (simp add: Background_def)
qed

end
