(* ===== verification/Go_Unicode.thy ===== *)
theory Go_Unicode
  imports Go_Text
begin

text \<open>
  The part of Go's package \<^verbatim>\<open>unicode\<close> that token estimation and the classification of tool results read: the
  range tables of the scripts Han, Hiragana, Katakana and Hangul (Unicode 15.0, the version of the Go
  release in \<^verbatim>\<open>go.mod\<close>), lower case where it can meet an ASCII pattern, and that the runes of a string made
  from runes are those runes.
\<close>

section \<open>Scripts\<close>

definition in_table :: "(nat \<times> nat) list \<Rightarrow> rune \<Rightarrow> bool" where
  "in_table tab r \<longleftrightarrow> list_ex (\<lambda>(lo, hi). in_range lo hi r) tab"

definition unicode_Han :: "(nat \<times> nat) list" where
  "unicode_Han = [(0x2e80, 0x2e99), (0x2e9b, 0x2ef3), (0x2f00, 0x2fd5), (0x3005, 0x3005), (0x3007, 0x3007),
     (0x3021, 0x3029), (0x3038, 0x303b), (0x3400, 0x4dbf), (0x4e00, 0x9fff), (0xf900, 0xfa6d), (0xfa70, 0xfad9),
     (0x16fe2, 0x16fe3), (0x16ff0, 0x16ff1), (0x20000, 0x2a6df), (0x2a700, 0x2b739), (0x2b740, 0x2b81d),
     (0x2b820, 0x2cea1), (0x2ceb0, 0x2ebe0), (0x2f800, 0x2fa1d), (0x30000, 0x3134a), (0x31350, 0x323af)]"

definition unicode_Hiragana :: "(nat \<times> nat) list" where
  "unicode_Hiragana = [(0x3041, 0x3096), (0x309d, 0x309f), (0x1b001, 0x1b11f), (0x1b132, 0x1b132),
     (0x1b150, 0x1b152), (0x1f200, 0x1f200)]"

definition unicode_Katakana :: "(nat \<times> nat) list" where
  "unicode_Katakana = [(0x30a1, 0x30fa), (0x30fd, 0x30ff), (0x31f0, 0x31ff), (0x32d0, 0x32fe), (0x3300, 0x3357),
     (0xff66, 0xff6f), (0xff71, 0xff9d), (0x1aff0, 0x1aff3), (0x1aff5, 0x1affb), (0x1affd, 0x1affe),
     (0x1b000, 0x1b000), (0x1b120, 0x1b122), (0x1b155, 0x1b155), (0x1b164, 0x1b167)]"

definition unicode_Hangul :: "(nat \<times> nat) list" where
  "unicode_Hangul = [(0x1100, 0x11ff), (0x302e, 0x302f), (0x3131, 0x318e), (0x3200, 0x321e), (0x3260, 0x327e),
     (0xa960, 0xa97c), (0xac00, 0xd7a3), (0xd7b0, 0xd7c6), (0xd7cb, 0xd7fb), (0xffa0, 0xffbe), (0xffc2, 0xffc7),
     (0xffca, 0xffcf), (0xffd2, 0xffd7), (0xffda, 0xffdc)]"

section \<open>Lower case against ASCII patterns\<close>

text \<open>
  \<^verbatim>\<open>strings.Contains(strings.ToLower(s), p)\<close> for an ASCII pattern without upper case letters. Besides A to Z only
  U+0130 and the Kelvin sign have an ASCII lower case; every other rune of \<open>s\<close> is lowered to something
  that is not ASCII and cannot be part of a match, so it is left as it is.
\<close>

definition lower_rune :: "rune \<Rightarrow> rune" where
  "lower_rune r = (if in_range 65 90 r then r + 32 else if r = 0x130 then 0x69 else if r = 0x212a then 0x6b else r)"

definition to_lower :: "string \<Rightarrow> string" where
  "to_lower s = string_of_runes (map lower_rune (runes s))"

section \<open>Runes of a string of runes\<close>

definition valid_rune :: "rune \<Rightarrow> bool" where
  "valid_rune r \<longleftrightarrow> r \<le> 1114111 \<and> \<not> in_range 55296 57343 r"

lemma byte_char_of: "n < 256 \<Longrightarrow> byte (char_of n :: char) = n"
  by (simp add: of_char_of)

lemma base_64:
  fixes r :: nat
  shows "r = r div 4096 * 4096 + r div 64 mod 64 * 64 + r mod 64"
    and "r = r div 262144 * 262144 + r div 4096 mod 64 * 4096 + r div 64 mod 64 * 64 + r mod 64"
proof -
  have digits: "r div 4096 = r div 64 div 64" "r div 262144 = r div 4096 div 64" by (simp_all flip: div_mult2_eq)
  have "r = r div 64 * 64 + r mod 64" "r div 64 = r div 4096 * 64 + r div 64 mod 64"
    "r div 4096 = r div 262144 * 64 + r div 4096 mod 64" unfolding digits by simp_all
  then show "r = r div 4096 * 4096 + r div 64 mod 64 * 64 + r mod 64"
    and "r = r div 262144 * 262144 + r div 4096 mod 64 * 4096 + r div 64 mod 64 * 64 + r mod 64" by linarith+
qed

lemma decode_encode_rune:
  assumes "valid_rune r"
  shows "decode_rune (encode_rune r @ s) = (r, length (encode_rune r))"
proof -
  have bound: "r < 1114112" and no_surrogate: "\<not> (55296 \<le> r \<and> r \<le> 57343)"
    using assms by (auto simp: valid_rune_def in_range_def)
  consider "r < 128" | "128 \<le> r" "r < 2048" | "2048 \<le> r" "r < 65536" | "65536 \<le> r" by linarith
  then show ?thesis
  proof cases
    case 1
    then show ?thesis by (simp add: encode_rune_def decode_rune.simps(2) in_range_def byte_char_of)
  next
    case 2
    define a b where "a = r div 64" and "b = r mod 64"
    have e: "encode_rune r = [char_of (192 + a), char_of (128 + b)]"
      using 2 by (simp add: encode_rune_def in_range_def a_def b_def)
    have "2 \<le> a" "a \<le> 31" "b \<le> 63" using 2 by (auto simp: a_def b_def)
    moreover have "r = a * 64 + b" by (simp add: a_def b_def)
    ultimately show ?thesis
      unfolding e by (simp add: decode_rune.simps(2) in_range_def byte_char_of Let_def)
  next
    case 3
    define a b c where "a = r div 4096" and "b = (r div 64) mod 64" and "c = r mod 64"
    have e: "encode_rune r = [char_of (224 + a), char_of (128 + b), char_of (128 + c)]"
      using 3 no_surrogate by (auto simp: encode_rune_def in_range_def a_def b_def c_def Let_def)
    have r: "r = a * 4096 + b * 64 + c" unfolding a_def b_def c_def by (rule base_64(1))
    have "a \<le> 15" "b \<le> 63" "c \<le> 63" using 3 by (auto simp: a_def b_def c_def)
    moreover have "a = 0 \<Longrightarrow> 32 \<le> b" "a = 13 \<Longrightarrow> b \<le> 31" using r 3 no_surrogate calculation by linarith+
    ultimately show ?thesis
      unfolding e by (simp add: r decode_rune.simps(2) in_range_def byte_char_of Let_def second_lo_def second_hi_def)
  next
    case 4
    define a b c d where "a = r div 262144" and "b = (r div 4096) mod 64" and "c = (r div 64) mod 64" and "d = r mod 64"
    have e: "encode_rune r = [char_of (240 + a), char_of (128 + b), char_of (128 + c), char_of (128 + d)]"
      using 4 bound by (simp add: encode_rune_def in_range_def a_def b_def c_def d_def)
    have r: "r = a * 262144 + b * 4096 + c * 64 + d" unfolding a_def b_def c_def d_def by (rule base_64(2))
    have "a \<le> 4" "b \<le> 63" "c \<le> 63" "d \<le> 63" using bound by (auto simp: a_def b_def c_def d_def)
    moreover have "a = 0 \<Longrightarrow> 16 \<le> b" "a = 4 \<Longrightarrow> b \<le> 15" using r 4 bound calculation by linarith+
    ultimately show ?thesis
      unfolding e by (simp add: r decode_rune.simps(2) in_range_def byte_char_of Let_def second_lo_def second_hi_def)
  qed
qed

lemma encode_rune_nonempty [simp]: "encode_rune r \<noteq> []"
  by (simp add: encode_rune_def Let_def)

lemma segments_encode_rune:
  assumes "valid_rune r"
  shows "segments (encode_rune r @ s) = (r, encode_rune r) # segments s"
proof -
  obtain c cs where e: "encode_rune r = c # cs" by (cases "encode_rune r") simp_all
  have "segments (c # cs @ s) = (r, c # cs) # segments s"
    using decode_encode_rune [OF assms, of s] unfolding e by (simp add: segments.simps(2))
  with e show ?thesis by simp
qed

lemma segments_string_of_runes:
  "list_all valid_rune rs \<Longrightarrow> segments (string_of_runes rs @ s) = map (\<lambda>r. (r, encode_rune r)) rs @ segments s"
  by (induction rs) (simp_all add: string_of_runes_def segments_encode_rune)

lemma runes_string_of_runes:
  "list_all valid_rune rs \<Longrightarrow> runes (string_of_runes rs @ s) = rs @ runes s"
  by (simp add: runes_def segments_string_of_runes comp_def)

text \<open>The value of a decoded rune of two, three or four bytes is in range, by the bounds on its bytes.\<close>

lemma valid_values:
  "194 \<le> a \<Longrightarrow> a \<le> 223 \<Longrightarrow> b \<le> 191 \<Longrightarrow> valid_rune ((a - 192) * 64 + (b - 128))"
  "a \<le> 239 \<Longrightarrow> in_range (second_lo a) (second_hi a) b \<Longrightarrow> c \<le> 191 \<Longrightarrow>
     valid_rune ((a - 224) * 4096 + (b - 128) * 64 + (c - 128))"
  "240 \<le> a \<Longrightarrow> a \<le> 244 \<Longrightarrow> in_range (second_lo a) (second_hi a) b \<Longrightarrow> c \<le> 191 \<Longrightarrow> d \<le> 191 \<Longrightarrow>
     valid_rune ((a - 240) * 262144 + (b - 128) * 4096 + (c - 128) * 64 + (d - 128))"
proof goal_cases
  case 1
  then show ?case unfolding valid_rune_def in_range_def by linarith
next
  case 2
  then have b: "b \<le> 191" "a = 237 \<Longrightarrow> b \<le> 159" by (auto simp: in_range_def second_hi_def split: if_splits)
  consider "a \<le> 236" | "a = 237" | "238 \<le> a" by linarith
  then show ?case using 2 b unfolding valid_rune_def in_range_def by cases linarith+
next
  case 3
  then have b: "b \<le> 191" "a = 244 \<Longrightarrow> b \<le> 143" "a = 240 \<Longrightarrow> 144 \<le> b"
    by (auto simp: in_range_def second_hi_def second_lo_def split: if_splits)
  consider "a = 240" | "241 \<le> a" "a \<le> 243" | "a = 244" using 3 by linarith
  then show ?case using 3 b unfolding valid_rune_def in_range_def by cases linarith+
qed

lemma valid_RuneError [simp]: "valid_rune RuneError"
  by (simp add: valid_rune_def RuneError_def in_range_def)

lemma valid_decode_rune: "s \<noteq> [] \<Longrightarrow> valid_rune (fst (decode_rune s))"
proof (cases s)
  case (Cons c cs)
  have r: "in_range lo hi x \<Longrightarrow> lo \<le> x \<and> x \<le> hi" for lo hi x by (simp add: in_range_def)
  have "byte c < 128 \<Longrightarrow> valid_rune (byte c)" by (simp add: valid_rune_def in_range_def)
  then show ?thesis
    using Cons by (auto simp: decode_rune.simps(2) Let_def dest!: r intro!: valid_values split: list.splits if_splits)
      (auto simp: in_range_def)
qed simp

lemma valid_runes: "list_all valid_rune (runes s)"
proof (induction s rule: segments.induct)
  case (2 c cs)
  obtain r w where d: "decode_rune (c # cs) = (r, w)" by fastforce
  with 2 [OF d [symmetric] refl] valid_decode_rune [of "c # cs"] show ?case
    by (simp add: runes_def segments.simps(2))
qed (simp add: runes_def)

end
