(* ===== verification/Ctx_Trim.thy ===== *)
theory Ctx_Trim
  imports Go_Unicode "HOL-Library.Sublist"
begin

text \<open>
  The context window of \<^verbatim>\<open>pkg/contextwindow\<close>, first part: messages, the estimate of their tokens
  (\<^verbatim>\<open>manager.go\<close>), the groups that keep a tool call and its results together (\<^verbatim>\<open>pairing.go\<close>) and trimming to
  a budget (\<^verbatim>\<open>trim.go\<close>). Token counts are integers; a budget may be negative.
\<close>

section \<open>Messages and tokens\<close>

datatype role = RoleSystem | RoleUser | RoleAssistant | RoleTool | RoleOther string

record message =
  MsgRole :: role
  MsgContent :: string
  MsgName :: string
  MsgToolCallID :: string
  MsgToolCallIDs :: "string list"
  MsgMetadata :: "(string \<times> string) list"

definition is_cjk :: "rune \<Rightarrow> bool" where
  "is_cjk r \<longleftrightarrow> in_table unicode_Han r \<or> in_table unicode_Hiragana r \<or> in_table unicode_Katakana r \<or> in_table unicode_Hangul r"

text \<open>The weighted count of the runes of a text: ASCII and other runes three to a token, CJK runes one each.\<close>

definition rune_tokens :: "rune list \<Rightarrow> nat" where
  "rune_tokens rs =
     (let ascii = length (filter (\<lambda>r. r < 128) rs);
          cjk = length (filter (\<lambda>r. \<not> r < 128 \<and> is_cjk r) rs);
          oth = length (filter (\<lambda>r. \<not> r < 128 \<and> \<not> is_cjk r) rs)
      in ascii div 3 + cjk + oth div 3)"

definition EstimateTokens :: "string \<Rightarrow> int" where
  "EstimateTokens s =
     (if s = [] then 0
      else (let estimate = rune_tokens (runes s); words = length (Go_Text.fields s);
                estimate' = (if words > estimate then words else estimate)
            in int (if estimate' = 0 then 1 else estimate')))"

definition CountMessages :: "message list \<Rightarrow> int" where
  "CountMessages ms = sum_list (map (\<lambda>m. EstimateTokens (MsgContent m)) ms)"

section \<open>Groups\<close>

record message_group =
  GroupMessages :: "message list"
  GroupTokens :: int

text \<open>The tool results that directly follow and answer a pending call each, and what comes after them.\<close>

fun take_results :: "string list \<Rightarrow> message list \<Rightarrow> message list \<times> message list" where
  "take_results pending [] = ([], [])"
| "take_results pending (m # ms) =
     (if MsgRole m = RoleTool \<and> pending \<noteq> [] \<and> MsgToolCallID m \<in> set pending
      then (let (results, others) = take_results (removeAll (MsgToolCallID m) pending) ms in (m # results, others))
      else ([], m # ms))"

lemma take_results_append: "take_results pending ms = (results, others) \<Longrightarrow> ms = results @ others"
  by (induction pending ms arbitrary: results rule: take_results.induct) (auto split: prod.splits if_splits)

lemma take_results_shorter: "(results, others) = take_results pending ms \<Longrightarrow> length others \<le> length ms"
  using take_results_append [of pending ms results others] by simp

definition has_calls :: "message \<Rightarrow> bool" where
  "has_calls m \<longleftrightarrow> MsgRole m = RoleAssistant \<and> MsgToolCallIDs m \<noteq> []"

definition pending_calls :: "message \<Rightarrow> string list" where
  "pending_calls m = filter (\<lambda>i. i \<noteq> []) (MsgToolCallIDs m)"

definition group_of :: "message list \<Rightarrow> message_group" where
  "group_of ms = \<lparr>GroupMessages = ms, GroupTokens = CountMessages ms\<rparr>"

function groupMessagesForToolPairSafety :: "message list \<Rightarrow> message_group list" where
  "groupMessagesForToolPairSafety [] = []"
| "groupMessagesForToolPairSafety (m # ms) =
     (if has_calls m
      then (let (results, others) = take_results (pending_calls m) ms
            in group_of (m # results) # groupMessagesForToolPairSafety others)
      else group_of [m] # groupMessagesForToolPairSafety ms)"
  by pat_completeness auto
termination by (relation "measure length") (auto dest: take_results_shorter)

definition flattenGroups :: "message_group list \<Rightarrow> message list" where
  "flattenGroups gs = concat (map GroupMessages gs)"

section \<open>Counting what was dropped\<close>

record drop_stats =
  DropTotal :: nat
  DropUser :: nat
  DropAssistant :: nat
  DropTool :: nat
  DropSystem :: nat

definition no_drops :: drop_stats where
  "no_drops = \<lparr>DropTotal = 0, DropUser = 0, DropAssistant = 0, DropTool = 0, DropSystem = 0\<rparr>"

definition count_role :: "message \<Rightarrow> drop_stats \<Rightarrow> drop_stats" where
  "count_role m st =
     (case MsgRole m of
        RoleUser \<Rightarrow> st\<lparr>DropUser := DropUser st + 1\<rparr>
      | RoleAssistant \<Rightarrow> st\<lparr>DropAssistant := DropAssistant st + 1\<rparr>
      | RoleTool \<Rightarrow> st\<lparr>DropTool := DropTool st + 1\<rparr>
      | RoleSystem \<Rightarrow> st\<lparr>DropSystem := DropSystem st + 1\<rparr>
      | RoleOther _ \<Rightarrow> st)"

definition messagesEquivalent :: "message \<Rightarrow> message \<Rightarrow> bool" where
  "messagesEquivalent a b \<longleftrightarrow> MsgRole a = MsgRole b \<and> MsgContent a = MsgContent b \<and> MsgName a = MsgName b
     \<and> MsgToolCallID a = MsgToolCallID b \<and> MsgToolCallIDs a = MsgToolCallIDs b"

text \<open>The walk over the original messages with a pointer into the kept ones; \<open>kept\<close> is what the pointer still has ahead.\<close>

fun dropped_loop :: "message list \<Rightarrow> message list \<Rightarrow> drop_stats \<Rightarrow> drop_stats" where
  "dropped_loop [] kept st = st"
| "dropped_loop (m # ms) kept st =
     (if kept \<noteq> [] \<and> messagesEquivalent m (hd kept) then dropped_loop ms (tl kept) st
      else dropped_loop ms kept (count_role m (st\<lparr>DropTotal := DropTotal st + 1\<rparr>)))"

definition droppedStatsByRole :: "message list \<Rightarrow> message list \<Rightarrow> drop_stats" where
  "droppedStatsByRole original kept = dropped_loop original kept no_drops"

definition countAllDropped :: "message list \<Rightarrow> drop_stats" where
  "countAllDropped ms = fold count_role ms (no_drops\<lparr>DropTotal := length ms\<rparr>)"

section \<open>Trimming\<close>

text \<open>The loop from the newest group to the oldest; the first argument is reversed.\<close>

fun keep_recent :: "message_group list \<Rightarrow> int \<Rightarrow> int \<Rightarrow> message_group list \<Rightarrow> message_group list" where
  "keep_recent [] budget used out = out"
| "keep_recent (g # gs) budget used out =
     (if budget < used + GroupTokens g then keep_recent gs budget used out
      else keep_recent gs budget (used + GroupTokens g) (g # out))"

definition keepRecentGroups :: "message_group list \<Rightarrow> int \<Rightarrow> message_group list \<times> int" where
  "keepRecentGroups groups budget =
     (if budget \<le> 0 then ([], int (length groups))
      else (let out = keep_recent (rev groups) budget 0 [] in (out, int (length groups) - int (length out))))"

definition groupHasUser :: "message_group \<Rightarrow> bool" where
  "groupHasUser g \<longleftrightarrow> list_ex (\<lambda>m. MsgRole m = RoleUser) (GroupMessages g)"

text \<open>The indices kept of a list of indices, newest first, and the tokens they use.\<close>

fun keep_indices :: "message_group list \<Rightarrow> nat list \<Rightarrow> int \<Rightarrow> int \<Rightarrow> nat list \<Rightarrow> nat list \<times> int" where
  "keep_indices groups [] budget used kept = (kept, used)"
| "keep_indices groups (i # idx) budget used kept =
     (if budget < used + GroupTokens (groups ! i) then keep_indices groups idx budget used kept
      else keep_indices groups idx budget (used + GroupTokens (groups ! i)) (i # kept))"

definition keepRecentGroupsPinUser :: "message_group list \<Rightarrow> int \<Rightarrow> message list \<Rightarrow> message list \<times> drop_stats" where
  "keepRecentGroupsPinUser groups budget original =
     (if budget \<le> 0 then ([], countAllDropped original)
      else
        (let all = [0..<length groups];
             userGroups = filter (\<lambda>i. groupHasUser (groups ! i)) all;
             nonUserGroups = filter (\<lambda>i. \<not> groupHasUser (groups ! i)) all;
             (kept1, userUsed) = keep_indices groups (rev userGroups) budget 0 [];
             (kept2, _) = keep_indices groups (rev nonUserGroups) (budget - userUsed) 0 kept1;
             kept = flattenGroups (map (\<lambda>i. groups ! i) (filter (\<lambda>i. i \<in> set kept2) all))
         in (kept, droppedStatsByRole original kept)))"

definition trimToBudget :: "message list \<Rightarrow> int \<Rightarrow> bool \<Rightarrow> message list \<times> drop_stats" where
  "trimToBudget ms budget pinUser =
     (if budget \<le> 0 then ([], countAllDropped ms)
      else
        (let groups = groupMessagesForToolPairSafety ms in
         if pinUser then keepRecentGroupsPinUser groups budget ms
         else (let kept = flattenGroups (fst (keepRecentGroups groups budget)) in (kept, droppedStatsByRole ms kept))))"

section \<open>Lemmas on tokens and groups\<close>

lemma EstimateTokens_nonneg [simp]: "0 \<le> EstimateTokens s"
  by (simp add: EstimateTokens_def Let_def)

lemma EstimateTokens_Nil [simp]: "EstimateTokens [] = 0"
  by (simp add: EstimateTokens_def)

lemma CountMessages_simps [simp]:
  "CountMessages [] = 0"
  "CountMessages (m # ms) = EstimateTokens (MsgContent m) + CountMessages ms"
  "CountMessages (ms @ ms') = CountMessages ms + CountMessages ms'"
  by (simp_all add: CountMessages_def)

lemma CountMessages_nonneg [simp]: "0 \<le> CountMessages ms"
  by (induction ms) simp_all

lemma flattenGroups_simps [simp]:
  "flattenGroups [] = []" "flattenGroups (g # gs) = GroupMessages g @ flattenGroups gs"
  "flattenGroups (gs @ gs') = flattenGroups gs @ flattenGroups gs'"
  by (simp_all add: flattenGroups_def)

lemma group_of_simps [simp]: "GroupMessages (group_of ms) = ms" "GroupTokens (group_of ms) = CountMessages ms"
  by (simp_all add: group_of_def)

text \<open>Grouping loses nothing and prices every group by its messages.\<close>

lemma flatten_groups: "flattenGroups (groupMessagesForToolPairSafety ms) = ms"
proof (induction ms rule: groupMessagesForToolPairSafety.induct)
  case (2 m ms)
  obtain results others where t: "take_results (pending_calls m) ms = (results, others)" by fastforce
  with 2 take_results_append [OF t] show ?case by auto
qed simp

lemma priced_groups: "g \<in> set (groupMessagesForToolPairSafety ms) \<Longrightarrow> GroupTokens g = CountMessages (GroupMessages g)"
proof (induction ms rule: groupMessagesForToolPairSafety.induct)
  case (2 m ms)
  then show ?case by (auto split: if_splits prod.splits)
qed simp

lemma CountMessages_flatten:
  "(\<And>g. g \<in> set gs \<Longrightarrow> GroupTokens g = CountMessages (GroupMessages g)) \<Longrightarrow>
     CountMessages (flattenGroups gs) = sum_list (map GroupTokens gs)"
  by (induction gs) simp_all

lemma subseq_concat_map: "subseq gs gs' \<Longrightarrow> subseq (flattenGroups gs) (flattenGroups gs')"
  by (induction rule: list_emb.induct) (auto intro: list_emb_append_mono subseq_drop_many)

lemma subseq_rev: "subseq xs ys \<Longrightarrow> subseq (rev xs) (rev ys)"
  by (induction rule: list_emb.induct) (auto intro: list_emb_append_mono subseq_rev_drop_many)

section \<open>Lemmas on the two loops\<close>

lemma keep_recent_eq:
  "\<exists>kept. keep_recent gs budget used out = rev kept @ out \<and> subseq kept gs
     \<and> (used \<le> budget \<longrightarrow> used + sum_list (map GroupTokens kept) \<le> budget)"
proof (induction gs arbitrary: used out)
  case (Cons g gs)
  show ?case
  proof (cases "budget < used + GroupTokens g")
    case True
    with Cons [of used out] show ?thesis by auto
  next
    case False
    from Cons [of "used + GroupTokens g" "g # out"] obtain kept where
      k: "keep_recent gs budget (used + GroupTokens g) (g # out) = rev kept @ g # out" "subseq kept gs"
      "used + GroupTokens g + sum_list (map GroupTokens kept) \<le> budget" using False by auto
    with False show ?thesis by (intro exI [of _ "g # kept"]) simp
  qed
qed (auto intro: exI [of _ "[]"])

lemma keepRecentGroups_spec:
  assumes "0 < budget"
  shows "subseq (fst (keepRecentGroups groups budget)) groups
    \<and> sum_list (map GroupTokens (fst (keepRecentGroups groups budget))) \<le> budget"
proof -
  obtain kept where k: "keep_recent (rev groups) budget 0 [] = rev kept" "subseq kept (rev groups)"
    "sum_list (map GroupTokens kept) \<le> budget"
    using keep_recent_eq [of "rev groups" budget 0 "[]"] assms by auto
  have "subseq (rev kept) groups" using subseq_rev [OF k(2)] by simp
  with k assms show ?thesis by (simp add: keepRecentGroups_def Let_def sum_list_rev flip: rev_map)
qed

lemma keep_indices_eq:
  assumes "distinct idx"
  shows "\<exists>new. keep_indices groups idx budget used kept = (new @ kept, used + sum_list (map (\<lambda>i. GroupTokens (groups ! i)) new))
     \<and> set new \<subseteq> set idx \<and> distinct new
     \<and> (used \<le> budget \<longrightarrow> used + sum_list (map (\<lambda>i. GroupTokens (groups ! i)) new) \<le> budget)"
  using assms
proof (induction idx arbitrary: used kept)
  case (Cons i idx)
  show ?case
  proof (cases "budget < used + GroupTokens (groups ! i)")
    case True
    with Cons.IH [of used kept] Cons.prems show ?thesis by auto
  next
    case False
    from Cons.IH [of "used + GroupTokens (groups ! i)" "i # kept"] Cons.prems obtain new where
      n: "keep_indices groups idx budget (used + GroupTokens (groups ! i)) (i # kept) =
         (new @ i # kept, used + GroupTokens (groups ! i) + sum_list (map (\<lambda>i. GroupTokens (groups ! i)) new))"
      "set new \<subseteq> set idx" "distinct new"
      "used + GroupTokens (groups ! i) + sum_list (map (\<lambda>i. GroupTokens (groups ! i)) new) \<le> budget" using False by auto
    with False Cons.prems show ?thesis by (intro exI [of _ "new @ [i]"]) auto
  qed
qed auto

lemma sum_filter_indices:
  fixes f :: "nat \<Rightarrow> int"
  assumes "distinct idx" and "set idx \<subseteq> {0..<n}"
  shows "sum_list (map f (filter (\<lambda>i. i \<in> set idx) [0..<n])) = sum_list (map f idx)"
proof -
  have "sum_list (map f (filter (\<lambda>i. i \<in> set idx) [0..<n])) = sum f (set (filter (\<lambda>i. i \<in> set idx) [0..<n]))"
    by (rule sum_list_distinct_conv_sum_set) simp
  also have "set (filter (\<lambda>i. i \<in> set idx) [0..<n]) = set idx" using assms(2) by auto
  finally show ?thesis using sum_list_distinct_conv_sum_set [OF assms(1), of f] by simp
qed

lemma trim_groups:
  "\<exists>gs. subseq gs (groupMessagesForToolPairSafety ms) \<and> fst (trimToBudget ms budget pinUser) = flattenGroups gs
     \<and> sum_list (map GroupTokens gs) \<le> max 0 budget"
proof (cases "budget \<le> 0")
  case True
  then show ?thesis by (intro exI [of _ "[]"]) (simp add: trimToBudget_def)
next
  case False
  let ?groups = "groupMessagesForToolPairSafety ms"
  show ?thesis
  proof (cases pinUser)
    case False
    with \<open>\<not> budget \<le> 0\<close> keepRecentGroups_spec [of budget ?groups] show ?thesis
      by (intro exI [of _ "fst (keepRecentGroups ?groups budget)"]) (simp add: trimToBudget_def Let_def)
  next
    case True
    let ?all = "[0..<length ?groups]" and ?f = "\<lambda>i. GroupTokens (?groups ! i)"
    obtain k1 where k1: "keep_indices ?groups (rev (filter (\<lambda>i. groupHasUser (?groups ! i)) ?all)) budget 0 [] = (k1, sum_list (map ?f k1))"
      "set k1 \<subseteq> set (filter (\<lambda>i. groupHasUser (?groups ! i)) ?all)" "distinct k1" "sum_list (map ?f k1) \<le> budget"
      using keep_indices_eq [of "rev (filter (\<lambda>i. groupHasUser (?groups ! i)) ?all)" ?groups budget 0 "[]"]
        \<open>\<not> budget \<le> 0\<close> by auto
    obtain k2 where k2: "fst (keep_indices ?groups (rev (filter (\<lambda>i. \<not> groupHasUser (?groups ! i)) ?all)) (budget - sum_list (map ?f k1)) 0 k1) = k2 @ k1"
      "set k2 \<subseteq> set (filter (\<lambda>i. \<not> groupHasUser (?groups ! i)) ?all)" "distinct k2"
      "sum_list (map ?f k2) \<le> budget - sum_list (map ?f k1)"
      using keep_indices_eq [of "rev (filter (\<lambda>i. \<not> groupHasUser (?groups ! i)) ?all)" ?groups "budget - sum_list (map ?f k1)" 0 k1]
        k1(4) by auto
    define idx where "idx = filter (\<lambda>i. i \<in> set (k2 @ k1)) ?all"
    have kept: "fst (trimToBudget ms budget pinUser) = flattenGroups (map (\<lambda>i. ?groups ! i) idx)"
      using True \<open>\<not> budget \<le> 0\<close> k1(1) k2(1)
      by (auto simp: trimToBudget_def keepRecentGroupsPinUser_def Let_def idx_def split: prod.splits)
    have "distinct (k2 @ k1)" "set (k2 @ k1) \<subseteq> {0..<length ?groups}" using k1 k2 by auto
    then have "sum_list (map ?f idx) = sum_list (map ?f (k2 @ k1))" unfolding idx_def by (rule sum_filter_indices)
    also have "\<dots> \<le> budget" using k2(4) by simp
    finally have fits: "sum_list (map GroupTokens (map (\<lambda>i. ?groups ! i) idx)) \<le> budget" by (simp add: comp_def)
    have "subseq (map (\<lambda>i. ?groups ! i) idx) (map (\<lambda>i. ?groups ! i) ?all)"
      unfolding idx_def by (rule subseq_map) simp
    then have "subseq (map (\<lambda>i. ?groups ! i) idx) ?groups" by (simp add: map_nth)
    with kept fits show ?thesis by (intro exI [of _ "map (\<lambda>i. ?groups ! i) idx"]) simp
  qed
qed

lemma trim_stats:
  "snd (trimToBudget ms budget pinUser) =
     (if budget \<le> 0 then countAllDropped ms else droppedStatsByRole ms (fst (trimToBudget ms budget pinUser)))"
  by (auto simp: trimToBudget_def keepRecentGroupsPinUser_def Let_def split: prod.splits)

section \<open>The counts\<close>

definition role_count :: "role \<Rightarrow> message list \<Rightarrow> nat" where
  "role_count r ms = length (filter (\<lambda>m. MsgRole m = r) ms)"

text \<open>\<open>st\<close> accounts for what \<open>ms\<close> has and \<open>kept\<close> has not, on top of \<open>base\<close>.\<close>

definition accounts :: "drop_stats \<Rightarrow> message list \<Rightarrow> message list \<Rightarrow> drop_stats \<Rightarrow> bool" where
  "accounts base ms kept st \<longleftrightarrow>
     DropTotal st + length kept = DropTotal base + length ms
     \<and> DropUser st + role_count RoleUser kept = DropUser base + role_count RoleUser ms
     \<and> DropAssistant st + role_count RoleAssistant kept = DropAssistant base + role_count RoleAssistant ms
     \<and> DropTool st + role_count RoleTool kept = DropTool base + role_count RoleTool ms
     \<and> DropSystem st + role_count RoleSystem kept = DropSystem base + role_count RoleSystem ms"

lemma role_count_simps [simp]:
  "role_count r [] = 0" "role_count r (m # ms) = (if MsgRole m = r then 1 else 0) + role_count r ms"
  by (simp_all add: role_count_def)

lemma count_role_simps [simp]:
  "DropTotal (count_role m st) = DropTotal st"
  "DropUser (count_role m st) = (if MsgRole m = RoleUser then 1 else 0) + DropUser st"
  "DropAssistant (count_role m st) = (if MsgRole m = RoleAssistant then 1 else 0) + DropAssistant st"
  "DropTool (count_role m st) = (if MsgRole m = RoleTool then 1 else 0) + DropTool st"
  "DropSystem (count_role m st) = (if MsgRole m = RoleSystem then 1 else 0) + DropSystem st"
  by (cases "MsgRole m"; simp add: count_role_def)+

lemma dropped_loop_accounts: "subseq kept ms \<Longrightarrow> accounts st ms kept (dropped_loop ms kept st)"
proof (induction ms kept st rule: dropped_loop.induct)
  case (1 kept st)
  then have "kept = []" by simp
  then show ?case by (simp add: accounts_def)
next
  case (2 m ms kept st)
  show ?case
  proof (cases "kept \<noteq> [] \<and> messagesEquivalent m (hd kept)")
    case True
    then obtain k ks where k: "kept = k # ks" by (cases kept) auto
    with True have r: "MsgRole m = MsgRole k" by (simp add: messagesEquivalent_def)
    have "subseq ks ms" using 2(3) k by (metis subseq_Cons' subseq_Cons2_iff)
    then have "accounts st ms ks (dropped_loop ms ks st)" using 2(1) [OF True] k by simp
    with True k r show ?thesis by (simp add: accounts_def)
  next
    case False
    then have "subseq kept ms" using 2(3) by (cases kept) (auto simp: messagesEquivalent_def split: if_splits)
    then have "accounts (count_role m (st\<lparr>DropTotal := DropTotal st + 1\<rparr>)) ms kept (dropped_loop (m # ms) kept st)"
      using 2(2) [OF False] False by auto
    then show ?thesis by (auto simp: accounts_def)
  qed
qed

lemma countAllDropped_accounts: "accounts no_drops ms [] (countAllDropped ms)"
proof -
  have "accounts st ms [] ((fold count_role ms st)\<lparr>DropTotal := DropTotal st + length ms\<rparr>) \<and>
      DropTotal (fold count_role ms st) = DropTotal st" for st
    by (induction ms arbitrary: st) (auto simp: accounts_def)
  from this [of "no_drops\<lparr>DropTotal := length ms\<rparr>"] show ?thesis
    by (simp add: countAllDropped_def accounts_def no_drops_def)
qed

lemma trim_fits: "CountMessages (fst (trimToBudget ms budget pinUser)) \<le> max 0 budget"
  and trim_subseq: "subseq (fst (trimToBudget ms budget pinUser)) ms"
proof -
  obtain gs where gs: "subseq gs (groupMessagesForToolPairSafety ms)" "fst (trimToBudget ms budget pinUser) = flattenGroups gs"
    "sum_list (map GroupTokens gs) \<le> max 0 budget" using trim_groups by blast
  then have "set gs \<subseteq> set (groupMessagesForToolPairSafety ms)" by (auto dest: list_emb_set)
  then have "CountMessages (flattenGroups gs) = sum_list (map GroupTokens gs)"
    by (intro CountMessages_flatten priced_groups) auto
  with gs(2,3) show "CountMessages (fst (trimToBudget ms budget pinUser)) \<le> max 0 budget" by simp
  show "subseq (fst (trimToBudget ms budget pinUser)) ms"
    using subseq_concat_map [OF gs(1)] gs(2) by (simp add: flatten_groups)
qed

text \<open>
  Trimming keeps within its budget and accounts for what it drops. What is kept is a subsequence of the
  messages whose estimated tokens are at most the budget (none for a budget that is not positive), with or
  without pinning of user messages, and the statistics count exactly the dropped messages, in total and
  by role.
\<close>

theorem trim_fits_and_accounts:
  "case trimToBudget ms budget pinUser of (kept, st) \<Rightarrow>
     subseq kept ms \<and> CountMessages kept \<le> max 0 budget \<and> accounts no_drops ms kept st"
proof -
  have "budget \<le> 0 \<Longrightarrow> fst (trimToBudget ms budget pinUser) = []" by (simp add: trimToBudget_def)
  then show ?thesis
    using trim_fits [of ms budget pinUser] trim_subseq [of ms budget pinUser] trim_stats [of ms budget pinUser]
      dropped_loop_accounts [of "fst (trimToBudget ms budget pinUser)" ms no_drops] countAllDropped_accounts [of ms]
    by (auto simp: droppedStatsByRole_def split: prod.splits if_splits)
qed

section \<open>Pairs of calls and results\<close>

text \<open>
  Messages are well paired if they consist of messages that neither call a tool nor answer a call, and of assistant turns with calls, each
  directly followed by one tool result for each call id that is not empty, in any order.
\<close>

inductive well_paired :: "message list \<Rightarrow> bool" where
  Nil: "well_paired []"
| plain: "MsgRole m \<noteq> RoleTool \<Longrightarrow> MsgRole m \<noteq> RoleAssistant \<or> MsgToolCallIDs m = [] \<Longrightarrow> well_paired ms \<Longrightarrow> well_paired (m # ms)"
| turn: "MsgRole m = RoleAssistant \<Longrightarrow> MsgToolCallIDs m \<noteq> [] \<Longrightarrow> \<forall>r \<in> set results. MsgRole r = RoleTool \<Longrightarrow>
     distinct (map MsgToolCallID results) \<Longrightarrow> set (map MsgToolCallID results) = set (MsgToolCallIDs m) - {[]} \<Longrightarrow> well_paired ms \<Longrightarrow>
     well_paired (m # results @ ms)"

text \<open>A group is complete if it is such a turn or such a single message.\<close>

definition complete_group :: "message_group \<Rightarrow> bool" where
  "complete_group g =
     (case GroupMessages g of
        [] \<Rightarrow> False
      | m # results \<Rightarrow> if has_calls m then set (pending_calls m) = set (map MsgToolCallID results) else MsgRole m \<noteq> RoleTool)"

text \<open>Every tool result answers a call that is there, and every call that has an id is answered.\<close>

definition no_orphans :: "message list \<Rightarrow> bool" where
  "no_orphans ms \<longleftrightarrow>
     list_all (\<lambda>m. MsgRole m = RoleTool \<longrightarrow> list_ex (\<lambda>a. has_calls a \<and> MsgToolCallID m \<in> set (MsgToolCallIDs a)) ms) ms
     \<and> list_all (\<lambda>a. has_calls a \<longrightarrow> list_all (\<lambda>i. i \<noteq> [] \<longrightarrow> list_ex (\<lambda>m. MsgRole m = RoleTool \<and> MsgToolCallID m = i) ms) (MsgToolCallIDs a)) ms"

definition is_group :: "message_group \<Rightarrow> bool" where
  "is_group g \<longleftrightarrow> (\<exists>m results. g = group_of (m # results) \<and>
     (if has_calls m then take_results (pending_calls m) results = (results, []) else results = []))"

lemma take_results_taken:
  "take_results pending ms = (results, others) \<Longrightarrow>
     take_results pending results = (results, []) \<and> set (map MsgToolCallID results) \<subseteq> set pending \<and> (\<forall>m \<in> set results. MsgRole m = RoleTool)"
proof (induction pending ms arbitrary: results rule: take_results.induct)
  case (2 pending m ms)
  then show ?case by (fastforce split: prod.splits if_splits)
qed simp

lemma is_group_calls: "has_calls m \<Longrightarrow> take_results (pending_calls m) results = (results, []) \<Longrightarrow> is_group (group_of (m # results))"
  by (auto simp: is_group_def)

lemma is_group_single: "\<not> has_calls m \<Longrightarrow> is_group (group_of [m])"
  by (auto simp: is_group_def)

lemma groups_are_groups: "g \<in> set (groupMessagesForToolPairSafety ms) \<Longrightarrow> is_group g"
proof (induction ms rule: groupMessagesForToolPairSafety.induct)
  case (2 m ms)
  obtain results others where t: "take_results (pending_calls m) ms = (results, others)" by fastforce
  note taken = take_results_taken [OF t]
  show ?case
  proof (cases "has_calls m")
    case True
    with 2(3) t have "g = group_of (m # results) \<or> g \<in> set (groupMessagesForToolPairSafety others)" by simp
    then show ?thesis using True taken 2(1) [OF True t [symmetric] refl] by (auto intro: is_group_calls)
  next
    case False
    with 2(3) have "g = group_of [m] \<or> g \<in> set (groupMessagesForToolPairSafety ms)" by simp
    then show ?thesis using False 2(2) by (auto intro: is_group_single)
  qed
qed simp

text \<open>The two forms of a complete group.\<close>

lemma complete_group_cases:
  assumes "is_group g \<and> complete_group g"
  obtains (calls) m results where "g = group_of (m # results)" and "has_calls m"
      and "take_results (pending_calls m) results = (results, [])" and "set (pending_calls m) = set (map MsgToolCallID results)"
      and "\<forall>r \<in> set results. MsgRole r = RoleTool"
    | (single) m where "g = group_of [m]" and "\<not> has_calls m" and "MsgRole m \<noteq> RoleTool"
proof -
  from assms obtain m results where g: "g = group_of (m # results)"
    and r: "if has_calls m then take_results (pending_calls m) results = (results, []) else results = []"
    by (auto simp: is_group_def)
  show thesis
  proof (cases "has_calls m")
    case True
    with assms g r take_results_taken [of "pending_calls m" results results "[]"] show thesis
      by (intro calls [of m results]) (simp_all add: complete_group_def)
  next
    case False
    with assms g r show thesis by (intro single [of m]) (simp_all add: complete_group_def)
  qed
qed

lemma take_results_complete:
  "take_results pending results = (results, []) \<Longrightarrow> set pending = set (map MsgToolCallID results) \<Longrightarrow>
     take_results pending (results @ others) = (results, others)"
proof (induction results arbitrary: pending)
  case Nil
  then show ?case by (cases others) auto
next
  case (Cons m results)
  let ?left = "removeAll (MsgToolCallID m) pending"
  from Cons.prems(1) have m: "MsgRole m = RoleTool" "pending \<noteq> []" "MsgToolCallID m \<in> set pending"
    and t: "take_results ?left results = (results, [])" by (auto split: prod.splits if_splits)
  have "set (map MsgToolCallID results) \<subseteq> set ?left" using take_results_taken [OF t] by simp
  with Cons.prems(2) have "set ?left = set (map MsgToolCallID results)" by auto
  with Cons.IH [OF t] m show ?case by simp
qed

lemma take_results_distinct:
  "\<forall>r \<in> set results. MsgRole r = RoleTool \<Longrightarrow> distinct (map MsgToolCallID results) \<Longrightarrow> set (map MsgToolCallID results) \<subseteq> set pending \<Longrightarrow>
     take_results pending results = (results, [])"
proof (induction results arbitrary: pending)
  case (Cons r results)
  have "take_results (removeAll (MsgToolCallID r) pending) results = (results, [])"
  proof (rule Cons.IH)
    have "MsgToolCallID r \<notin> set (map MsgToolCallID results)" "set (map MsgToolCallID results) \<subseteq> set pending" using Cons.prems(2,3) by auto
    then show "set (map MsgToolCallID results) \<subseteq> set (removeAll (MsgToolCallID r) pending)" by (simp only: set_removeAll) blast
  qed (use Cons.prems in simp_all)
  with Cons.prems show ?case by auto
qed simp

lemma take_results_once: "take_results pending results = (results, []) \<Longrightarrow> distinct (map MsgToolCallID results)"
proof (induction results arbitrary: pending)
  case (Cons r results)
  then have t: "take_results (removeAll (MsgToolCallID r) pending) results = (results, [])" by (auto split: prod.splits if_splits)
  from Cons.IH [OF t] take_results_taken [OF t] show ?case by auto
qed simp

text \<open>The groups of well-paired messages are complete, and complete groups make up well-paired messages.\<close>

lemma well_paired_groups: "well_paired ms \<Longrightarrow> list_all complete_group (groupMessagesForToolPairSafety ms)"
proof (induction rule: well_paired.induct)
  case (plain m ms)
  then show ?case by (auto simp: has_calls_def complete_group_def)
next
  case (turn m results ms)
  have p: "set (pending_calls m) = set (map MsgToolCallID results)" using turn.hyps(5) by (auto simp: pending_calls_def)
  have "take_results (pending_calls m) results = (results, [])" by (rule take_results_distinct) (use turn p in auto)
  from take_results_complete [OF this p] turn p show ?case by (simp add: has_calls_def complete_group_def)
qed simp

lemma groups_well_paired: "(\<And>g. g \<in> set gs \<Longrightarrow> is_group g \<and> complete_group g) \<Longrightarrow> well_paired (flattenGroups gs)"
proof (induction gs)
  case (Cons g gs)
  then have IH: "well_paired (flattenGroups gs)" by simp
  have "is_group g \<and> complete_group g" using Cons.prems by simp
  then show ?case
  proof (cases rule: complete_group_cases)
    case (calls m results)
    with well_paired.turn [OF _ _ calls(5) take_results_once [OF calls(3)] _ IH, of m] show ?thesis
      by (auto simp: has_calls_def pending_calls_def)
  next
    case (single m)
    with well_paired.plain [OF single(3) _ IH] show ?thesis by (auto simp: has_calls_def)
  qed
qed (simp add: well_paired.Nil)

lemma complete_group_pairs:
  assumes "is_group g \<and> complete_group g"
  shows "m \<in> set (GroupMessages g) \<Longrightarrow> MsgRole m = RoleTool \<Longrightarrow>
      \<exists>a \<in> set (GroupMessages g). has_calls a \<and> MsgToolCallID m \<in> set (MsgToolCallIDs a)" (is "_ \<Longrightarrow> _ \<Longrightarrow> ?call")
    and "a \<in> set (GroupMessages g) \<Longrightarrow> has_calls a \<Longrightarrow> i \<in> set (MsgToolCallIDs a) \<Longrightarrow> i \<noteq> [] \<Longrightarrow>
      \<exists>m \<in> set (GroupMessages g). MsgRole m = RoleTool \<and> MsgToolCallID m = i" (is "_ \<Longrightarrow> _ \<Longrightarrow> _ \<Longrightarrow> _ \<Longrightarrow> ?result")
proof -
  assume m: "m \<in> set (GroupMessages g)" "MsgRole m = RoleTool"
  from assms show ?call
  proof (cases rule: complete_group_cases)
    case (calls a results)
    with m have "m \<in> set results" by (auto simp: has_calls_def)
    with calls(4) have "MsgToolCallID m \<in> set (pending_calls a)" by simp
    with calls(1,2) show ?thesis by (simp add: pending_calls_def)
  qed (use m in simp)
next
  assume a: "a \<in> set (GroupMessages g)" "has_calls a" "i \<in> set (MsgToolCallIDs a)" "i \<noteq> []"
  from assms show ?result
  proof (cases rule: complete_group_cases)
    case (calls b results)
    with a have "a = b" by (auto simp: has_calls_def)
    with a calls(4) have "i \<in> set (map MsgToolCallID results)" by (auto simp: pending_calls_def)
    with calls(1,5) show ?thesis by auto
  qed (use a in simp)
qed

lemma complete_no_orphans:
  assumes "\<And>g. g \<in> set gs \<Longrightarrow> is_group g \<and> complete_group g"
  shows "no_orphans (flattenGroups gs)"
  using complete_group_pairs(1) [OF assms] complete_group_pairs(2) [OF assms]
  unfolding no_orphans_def list_all_iff list_ex_iff flattenGroups_def by simp meson

text \<open>
  C28: trimming never separates a tool call from its results. If every assistant turn with tool calls is
  directly followed by the results of exactly those calls and no other tool result occurs, then the same
  holds of what trimming keeps, for every budget; in particular every tool result that is kept
  answers a call that is kept, and every call that is kept has its result.
\<close>

theorem trim_keeps_pairs:
  assumes "well_paired ms"
  shows "well_paired (fst (trimToBudget ms budget pinUser)) \<and> no_orphans (fst (trimToBudget ms budget pinUser))"
proof -
  obtain gs where gs: "subseq gs (groupMessagesForToolPairSafety ms)" "fst (trimToBudget ms budget pinUser) = flattenGroups gs"
    using trim_groups by blast
  have "is_group g \<and> complete_group g" if "g \<in> set gs" for g
    using well_paired_groups [OF assms] groups_are_groups [of g ms] that list_emb_set [OF gs(1) that] by (auto simp: list_all_iff)
  then show ?thesis
    using groups_well_paired [of gs] complete_no_orphans [of gs] unfolding gs(2) by simp
qed

text \<open>A question, a call with two results and an answer; the smaller budget leaves room for the question and the answer only.\<close>

definition text_message :: "role \<Rightarrow> string \<Rightarrow> message" where
  "text_message r s = \<lparr>MsgRole = r, MsgContent = s, MsgName = [], MsgToolCallID = [], MsgToolCallIDs = [], MsgMetadata = []\<rparr>"

definition result_message :: "string \<Rightarrow> string \<Rightarrow> message" where
  "result_message i s = (text_message RoleTool s)\<lparr>MsgToolCallID := i\<rparr>"

definition call_message :: "string list \<Rightarrow> message" where
  "call_message ids = (text_message RoleAssistant [])\<lparr>MsgToolCallIDs := ids\<rparr>"

definition sample_turns :: "message list" where
  "sample_turns = [text_message RoleUser ''q'', call_message [''x'', ''y''], result_message ''x'' ''r'', result_message ''y'' ''s'',
     text_message RoleAssistant ''a'']"

lemmas token_eval = EstimateTokens_def rune_tokens_def runes_def Go_Text.fields_def is_space_def in_range_def Let_def

lemma sample_groups:
  "groupMessagesForToolPairSafety sample_turns =
     [group_of [text_message RoleUser ''q''],
      group_of [call_message [''x'', ''y''], result_message ''x'' ''r'', result_message ''y'' ''s''],
      group_of [text_message RoleAssistant ''a'']]"
  by (simp add: sample_turns_def call_message_def result_message_def text_message_def has_calls_def pending_calls_def)

lemma sample_trims:
  "map MsgRole (fst (trimToBudget sample_turns 3 True)) = [RoleUser, RoleAssistant]"
  "map MsgRole (fst (trimToBudget sample_turns 3 False)) = [RoleAssistant, RoleTool, RoleTool, RoleAssistant]"
  by (simp_all add: trimToBudget_def keepRecentGroupsPinUser_def keepRecentGroups_def sample_groups groupHasUser_def
      text_message_def result_message_def call_message_def token_eval upt_Suc)

theorem trim_keeps_pairs_witness:
  "well_paired (fst (trimToBudget sample_turns 3 True)) \<and> no_orphans (fst (trimToBudget sample_turns 3 True))
     \<and> map MsgRole (fst (trimToBudget sample_turns 3 True)) = [RoleUser, RoleAssistant]
     \<and> map MsgRole (fst (trimToBudget sample_turns 3 False)) = [RoleAssistant, RoleTool, RoleTool, RoleAssistant]"
proof -
  have "well_paired (call_message [''x'', ''y''] # [result_message ''x'' ''r'', result_message ''y'' ''s''] @ [text_message RoleAssistant ''a''])"
    by (rule well_paired.turn) (auto simp: text_message_def result_message_def call_message_def intro: well_paired.plain well_paired.Nil)
  then have "well_paired sample_turns"
    unfolding sample_turns_def by (subst well_paired.simps) (simp add: text_message_def)
  from trim_keeps_pairs [OF this, of 3 True] show ?thesis by (simp add: sample_trims)
qed

end
