(* ===== verification/Go_Json.thy ===== *)
theory Go_Json
  imports Go_Text
begin

text \<open>
  Values of \<^verbatim>\<open>encoding/json\<close>: what \<^verbatim>\<open>json.Unmarshal\<close> into an \<^verbatim>\<open>any\<close> gives. A number is a float64 given by its 64
  bits; \<open>JInt\<close> is an integer that a program puts in place of one. A map is an association list in the order the
  runtime walks it. Reading and writing the text of a value is a parameter of the operations that do it.
\<close>

datatype json =
    JNull
  | JBool bool
  | JFloat "64 word"
  | JInt int
  | JString string
  | JArray "json list"
  | JObject "(string \<times> json) list"

end
