(* ===== verification/Ctx_Transform.thy ===== *)
theory Ctx_Transform
  imports Ctx_Trim Go_Json
begin

text \<open>
  The context window, third part: reshaping of tool outputs to a token budget (\<^verbatim>\<open>transform.go\<close>). Reading, writing
  and validating JSON text is the record \<open>text_json\<close>.
\<close>

record text_json =
  DecodeAny :: "bytes \<Rightarrow> json option"
  EncodeAny :: "json \<Rightarrow> bytes option"
  ValidJSON :: "bytes \<Rightarrow> bool"

datatype transform_strategy = TransformIntegrator | TransformJSONAware | TransformByteCut | TransformNone | TransformUnset | TransformOther string

record transform_meta =
  Truncated :: bool
  OriginalBytes :: int
  TruncatedBytes :: int
  TransformStrategy :: transform_strategy

type_synonym output_transform = "string \<Rightarrow> bytes \<Rightarrow> int \<Rightarrow> bytes \<times> transform_meta"

definition truncateRunes :: "string \<Rightarrow> int \<Rightarrow> string" where
  "truncateRunes s limit =
     (if limit \<le> 0 then []
      else if int (length (runes s)) \<le> limit then s
      else string_of_runes (take (nat limit) (runes s)) @ ''...'')"

section \<open>Cutting text\<close>

definition cut :: "rune list \<Rightarrow> nat \<Rightarrow> string" where
  "cut rs n = string_of_runes (take n rs) @ ''...''"

text \<open>The loop that halves the number of runes until the estimate accepts the cut.\<close>

function halve_cut :: "rune list \<Rightarrow> int \<Rightarrow> nat \<Rightarrow> string" where
  "halve_cut rs limit n =
     (if limit < EstimateTokens (cut rs n) \<and> 1 < n then halve_cut rs limit (n div 2) else cut rs n)"
  by pat_completeness auto
termination by (relation "measure (\<lambda>(rs, limit, n). n)") auto

declare halve_cut.simps [simp del]

definition unchanged :: "bytes \<Rightarrow> transform_meta" where
  "unchanged raw = \<lparr>Truncated = False, OriginalBytes = int (length raw), TruncatedBytes = int (length raw), TransformStrategy = TransformNone\<rparr>"

definition ByteTruncate :: "bytes \<Rightarrow> int \<Rightarrow> bytes \<times> transform_meta" where
  "ByteTruncate raw limit =
     (if limit \<le> 0 then (raw, unchanged raw)
      else if EstimateTokens raw \<le> limit then (raw, unchanged raw)
      else (let rs = runes raw;
                out = halve_cut rs limit (min (nat (limit * 3)) (length rs))
            in (out, \<lparr>Truncated = True, OriginalBytes = int (length raw), TruncatedBytes = int (length out),
                      TransformStrategy = TransformByteCut\<rparr>)))"

section \<open>Shrinking JSON\<close>

fun shrinkJSONValue :: "json \<Rightarrow> int \<Rightarrow> json" where
  "shrinkJSONValue (JObject kvs) budget =
     (let out = map (\<lambda>(k, v). (k, shrinkJSONValue v budget)) kvs in
      JObject (if map_of out ''truncated'' = None then out @ [(''truncated'', JBool True)] else out))"
| "shrinkJSONValue (JArray vs) budget =
     (if vs = [] then JArray vs
      else (let n = int (length vs);
                keep = (if 0 < budget \<and> budget < n then budget else n);
                keep' = (if keep < 1 then 1 else keep)
            in JArray (take (nat keep') (map (\<lambda>v. shrinkJSONValue v budget) vs))))"
| "shrinkJSONValue (JString s) budget = JString (truncateRunes s (budget * 3))"
| "shrinkJSONValue v budget = v"

definition truncated_marker :: bytes where
  "truncated_marker = [CHR 0x7B, CHR 0x22] @ ''truncated'' @ [CHR 0x22] @ '':true'' @ [CHR 0x7D]"

text \<open>The twelve attempts; \<open>left\<close> counts those that are left.\<close>

fun shrink_attempts :: "nat \<Rightarrow> text_json \<Rightarrow> bytes \<Rightarrow> int \<Rightarrow> json \<Rightarrow> int \<Rightarrow> bytes \<times> transform_meta" where
  "shrink_attempts 0 jc raw limit v budget =
     (truncated_marker, \<lparr>Truncated = True, OriginalBytes = int (length raw), TruncatedBytes = int (length truncated_marker),
        TransformStrategy = TransformJSONAware\<rparr>)"
| "shrink_attempts (Suc left) jc raw limit v budget =
     (case EncodeAny jc (shrinkJSONValue v budget) of
        None \<Rightarrow> ByteTruncate raw limit
      | Some out \<Rightarrow>
          if EstimateTokens out \<le> limit \<or> budget \<le> 1 then
            (out, if out = raw then (unchanged raw)
                  else \<lparr>Truncated = True, OriginalBytes = int (length raw), TruncatedBytes = int (length out),
                        TransformStrategy = TransformJSONAware\<rparr>)
          else shrink_attempts left jc raw limit v (if budget div 2 < 1 then 1 else budget div 2))"

definition JSONAwareTruncate :: "text_json \<Rightarrow> bytes \<Rightarrow> int \<Rightarrow> bytes \<times> transform_meta" where
  "JSONAwareTruncate jc raw limit =
     (case DecodeAny jc raw of
        None \<Rightarrow> ByteTruncate raw limit
      | Some v \<Rightarrow> shrink_attempts 12 jc raw limit v limit)"

definition looksLikeJSON :: "text_json \<Rightarrow> bytes \<Rightarrow> bool" where
  "looksLikeJSON jc raw =
     (case trim_space raw of
        [] \<Rightarrow> False
      | c # cs \<Rightarrow> (c = CHR 0x7B \<or> c = CHR 0x5B) \<and> ValidJSON jc (c # cs))"

definition ApplyToolOutputTransform ::
  "text_json \<Rightarrow> string \<Rightarrow> bytes \<Rightarrow> int \<Rightarrow> (string \<times> output_transform) list \<Rightarrow> bytes \<times> transform_meta" where
  "ApplyToolOutputTransform jc tool raw limit transforms =
     (if limit \<le> 0 \<or> raw = [] then (raw, unchanged raw)
      else (case map_of transforms tool of
          Some f \<Rightarrow>
            (let (out, m) = f tool raw limit;
                 m1 = (if TransformStrategy m = TransformUnset then m\<lparr>TransformStrategy := TransformIntegrator\<rparr> else m);
                 m2 = (if OriginalBytes m1 = 0 then m1\<lparr>OriginalBytes := int (length raw)\<rparr> else m1);
                 m3 = (if TruncatedBytes m2 = 0 then m2\<lparr>TruncatedBytes := int (length out)\<rparr> else m2)
             in (out, m3))
        | None \<Rightarrow>
            if EstimateTokens raw \<le> limit then (raw, unchanged raw)
            else if looksLikeJSON jc raw then JSONAwareTruncate jc raw limit
            else ByteTruncate raw limit))"

section \<open>A cut fits\<close>

lemma halve_cut_end:
  "\<exists>m. halve_cut rs limit n = cut rs m \<and> (EstimateTokens (cut rs m) \<le> limit \<or> m \<le> 1)"
proof (induction rs limit n rule: halve_cut.induct)
  case (1 rs limit n)
  show ?case
  proof (cases "limit < EstimateTokens (cut rs n) \<and> 1 < n")
    case True
    then have "halve_cut rs limit n = halve_cut rs limit (n div 2)" by (simp add: halve_cut.simps [of rs limit n])
    with 1 [OF True] show ?thesis by simp
  next
    case False
    then have "halve_cut rs limit n = cut rs n" by (simp only: halve_cut.simps [of rs limit n] if_False)
    with False show ?thesis by (intro exI [of _ n]) auto
  qed
qed

lemma cut_short:
  assumes "list_all valid_rune rs" and "m \<le> 1"
  shows "EstimateTokens (cut rs m) \<le> 2"
proof -
  have dots: "segments ''...'' = [(46, ''.''), (46, ''.''), (46, ''.'')]" by simp
  have valid: "list_all valid_rune (take m rs)" using assms(1) by (auto simp: list_all_iff dest: in_set_takeD)
  have segs: "segments (cut rs m) = map (\<lambda>r. (r, encode_rune r)) (take m rs) @ [(46, ''.''), (46, ''.''), (46, ''.'')]"
    unfolding cut_def segments_string_of_runes [OF valid] dots ..
  have "length (take m rs) \<le> 1" using assms(2) by simp
  then consider "take m rs = []" | r where "take m rs = [r]" by (cases "take m rs") (auto simp: le_Suc_eq)
  then show ?thesis
  proof cases
    case 1
    show ?thesis
      unfolding EstimateTokens_def runes_def Go_Text.fields_def segs 1 by (simp add: rune_tokens_def is_space_def in_range_def Let_def)
  next
    case 2
    show ?thesis
      unfolding EstimateTokens_def runes_def Go_Text.fields_def segs 2 by (simp add: rune_tokens_def is_space_def in_range_def Let_def)
  qed
qed

text \<open>
  A cut text fits its budget. For every text, valid UTF-8 or not, and every budget of at least two tokens the
  cut is estimated at no more than the budget, and it is the text itself exactly when that already fits.
\<close>

theorem ByteTruncate_fits:
  assumes "2 \<le> limit"
  shows "EstimateTokens (fst (ByteTruncate raw limit)) \<le> limit
     \<and> (Truncated (snd (ByteTruncate raw limit)) \<longleftrightarrow> limit < EstimateTokens raw)"
proof (cases "EstimateTokens raw \<le> limit")
  case True
  then show ?thesis using assms by (simp add: ByteTruncate_def unchanged_def)
next
  case False
  let ?n = "min (nat (limit * 3)) (length (runes raw))"
  obtain m where m: "halve_cut (runes raw) limit ?n = cut (runes raw) m"
    "EstimateTokens (cut (runes raw) m) \<le> limit \<or> m \<le> 1" using halve_cut_end by blast
  have "EstimateTokens (cut (runes raw) m) \<le> limit"
    using m(2) cut_short [OF valid_runes, of m raw] assms by auto
  with False assms m(1) show ?thesis by (simp add: ByteTruncate_def Let_def)
qed

theorem ByteTruncate_fits_witness:
  "let raw = [CHR 0xE5, CHR 0xAD, CHR 0x97, CHR 0xE5, CHR 0xAD, CHR 0x97, CHR 0xE5, CHR 0xAD, CHR 0x97] in
   EstimateTokens raw = 3 \<and> EstimateTokens (fst (ByteTruncate raw 2)) \<le> 2 \<and> Truncated (snd (ByteTruncate raw 2))"
proof -
  let ?raw = "[CHR 0xE5, CHR 0xAD, CHR 0x97, CHR 0xE5, CHR 0xAD, CHR 0x97, CHR 0xE5, CHR 0xAD, CHR 0x97]"
  have raw: "EstimateTokens ?raw = 3"
    by (simp add: token_eval segments.simps(2) decode_rune.simps(2) second_lo_def second_hi_def is_cjk_def in_table_def unicode_Han_def)
  have "2 \<le> (2 :: int)" by simp
  from ByteTruncate_fits [OF this, of ?raw] show ?thesis unfolding Let_def raw by simp
qed

text \<open>With a budget of one token a single ideograph and the dots exceed it.\<close>

lemma one_token_cut: "EstimateTokens (fst (ByteTruncate [CHR 0xE5, CHR 0xAD, CHR 0x97, CHR 0xE5, CHR 0xAD, CHR 0x97] 1)) = 2"
  by (simp add: ByteTruncate_def halve_cut.simps cut_def string_of_runes_def encode_rune_def RuneError_def
      token_eval segments.simps(2) decode_rune.simps(2) second_lo_def second_hi_def is_cjk_def in_table_def unicode_Han_def)

end
