(* ===== verification/Tool_Tracker.thy ===== *)
theory Tool_Tracker
  imports Ctx_Transform "HOL-Library.AList"
begin

text \<open>
  The execution budget of a run's tool calls: \<^verbatim>\<open>internal/application/runtime/tool_call_tracker.go\<close>. A call first
  reserves its place, then settles the reservation exactly once: as a success, as an attempt, or not at all.
  Calls of a parallel batch do this concurrently; every method holds the tracker's mutex, so an execution is a sequence of
  methods in some order.

  A \<^verbatim>\<open>map[string]int\<close> is an association list with distinct keys, a missing key reads as 0, and a nil map reads as
  empty. The counts are mathematical integers: one more is added for every call, so they stay far from \<open>2\<^sup>6\<^sup>3\<close>.
\<close>

section \<open>Counters\<close>

type_synonym counts = "(string \<times> int) list"

definition tally :: "counts \<Rightarrow> string \<Rightarrow> int" where
  "tally m k = (case map_of m k of None \<Rightarrow> 0 | Some n \<Rightarrow> n)"

definition bump :: "counts \<Rightarrow> string \<Rightarrow> int \<Rightarrow> counts" where
  "bump m k d = AList.update k (tally m k + d) m"

definition total :: "counts \<Rightarrow> int" where
  "total m = sum_list (map snd m)"

lemma tally_Nil [simp]: "tally [] k = 0"
  by (simp add: tally_def)

lemma tally_bump [simp]: "tally (bump m k d) k' = tally m k' + (if k = k' then d else 0)"
  by (simp add: bump_def tally_def update_conv')

lemma distinct_bump [simp]: "distinct (map fst m) \<Longrightarrow> distinct (map fst (bump m k d))"
  by (simp add: bump_def distinct_update)

lemma total_bump [simp]: "distinct (map fst m) \<Longrightarrow> total (bump m k d) = total m + d"
proof (induction m)
  case (Cons e m)
  show ?case
  proof (cases "fst e = k")
    case True
    with Cons.prems show ?thesis by (cases e) (simp add: bump_def tally_def total_def)
  next
    case False
    then have "tally (e # m) k = tally m k" by (simp add: tally_def)
    then have "bump (e # m) k d = e # bump m k d" using False by (cases e) (simp add: bump_def)
    with Cons show ?thesis by (simp add: total_def)
  qed
qed (simp add: bump_def tally_def total_def)

section \<open>The tracker\<close>

record tracker =
  ByName :: counts
  BySameInput :: counts
  ReservedByName :: counts
  ReservedBySameInput :: counts

definition newToolCallTracker :: tracker where
  "newToolCallTracker = \<lparr>ByName = [], BySameInput = [], ReservedByName = [], ReservedBySameInput = []\<rparr>"

record reservation =
  ResName :: string
  ResFingerprint :: string
  ResActive :: bool

record tool_call_counts =
  CountByName :: int
  CountBySameInput :: int
  CountTotal :: int

text \<open>The parts of \<^verbatim>\<open>encoding/json\<close> behind a fingerprint: decoding and encoding a value, and \<^verbatim>\<open>json.Compact\<close>.\<close>

record tool_json = text_json +
  CompactJSON :: "bytes \<Rightarrow> bytes option"

definition canonicalJSON :: "tool_json \<Rightarrow> bytes \<Rightarrow> string" where
  "canonicalJSON J raw =
     (let trimmed = trim_space raw in
      if trimmed = [] then []
      else if hd trimmed \<noteq> CHR ''{'' \<and> hd trimmed \<noteq> CHR ''['' then
        (case CompactJSON J trimmed of Some buf \<Rightarrow> buf | None \<Rightarrow> trimmed)
      else (case DecodeAny J trimmed of
          None \<Rightarrow> trimmed
        | Some v \<Rightarrow> (case EncodeAny J v of None \<Rightarrow> trimmed | Some canonical \<Rightarrow> canonical)))"

definition toolInputFingerprintSep :: string where
  "toolInputFingerprintSep = [CHR 0x1E]"

definition toolInputFingerprint :: "tool_json \<Rightarrow> string \<Rightarrow> bytes \<Rightarrow> string" where
  "toolInputFingerprint J tool input = tool @ toolInputFingerprintSep @ canonicalJSON J input"

text \<open>A formatted text: the format and its rendered arguments.\<close>

type_synonym formatted = "string \<times> string list"

definition formatDoomLoopError :: "string \<Rightarrow> int \<Rightarrow> formatted" where
  "formatDoomLoopError tool limit = (''doom-loop detected: tool %q repeated with the same input %d time(s)'', [tool, int_text limit])"

definition rate_cap_error :: "int \<Rightarrow> formatted" where
  "rate_cap_error cap = (''tool rate cap exceeded: %d call(s) per run'', [int_text cap])"

definition countsLocked :: "tracker \<Rightarrow> string \<Rightarrow> string \<Rightarrow> tool_call_counts" where
  "countsLocked t name fingerprint =
     \<lparr>CountByName = tally (ByName t) name + tally (ReservedByName t) name - 1,
      CountBySameInput = tally (BySameInput t) fingerprint + tally (ReservedBySameInput t) fingerprint - 1,
      CountTotal = total (ByName t) + total (ReservedByName t) - 1\<rparr>"

definition reserveToolCall ::
  "tool_json \<Rightarrow> string \<Rightarrow> bytes \<Rightarrow> int \<Rightarrow> int \<Rightarrow> tracker \<Rightarrow> tracker \<times> (formatted + reservation \<times> tool_call_counts)" where
  "reserveToolCall J name input doomLoopLimit rateCap t =
     (let fp = toolInputFingerprint J name input in
      if 0 < doomLoopLimit \<and> doomLoopLimit \<le> tally (BySameInput t) fp + tally (ReservedBySameInput t) fp + 1
      then (t, Inl (formatDoomLoopError name doomLoopLimit))
      else if 0 < rateCap \<and> rateCap \<le> tally (ByName t) name + tally (ReservedByName t) name
      then (t, Inl (rate_cap_error rateCap))
      else (let t' = t\<lparr>ReservedByName := bump (ReservedByName t) name 1, ReservedBySameInput := bump (ReservedBySameInput t) fp 1\<rparr>
            in (t', Inr (\<lparr>ResName = name, ResFingerprint = fp, ResActive = True\<rparr>, countsLocked t' name fp))))"

section \<open>Settling a reservation\<close>

definition unreserve :: "reservation \<Rightarrow> tracker \<Rightarrow> tracker" where
  "unreserve r t = t\<lparr>ReservedByName := bump (ReservedByName t) (ResName r) (-1),
     ReservedBySameInput := bump (ReservedBySameInput t) (ResFingerprint r) (-1)\<rparr>"

definition release :: "reservation \<Rightarrow> tracker \<Rightarrow> reservation \<times> tracker" where
  "release r t = (if \<not> ResActive r then (r, t) else (r\<lparr>ResActive := False\<rparr>, unreserve r t))"

definition commitAttempt :: "reservation \<Rightarrow> tracker \<Rightarrow> reservation \<times> tracker" where
  "commitAttempt r t =
     (if \<not> ResActive r then (r, t)
      else (r\<lparr>ResActive := False\<rparr>,
            (let t' = unreserve r t in t'\<lparr>BySameInput := bump (BySameInput t') (ResFingerprint r) 1\<rparr>)))"

definition commitSuccess :: "reservation \<Rightarrow> tracker \<Rightarrow> reservation \<times> tracker" where
  "commitSuccess r t =
     (if \<not> ResActive r then (r, t)
      else (r\<lparr>ResActive := False\<rparr>,
            (let t' = unreserve r t
             in t'\<lparr>BySameInput := bump (BySameInput t') (ResFingerprint r) 1, ByName := bump (ByName t') (ResName r) 1\<rparr>)))"

definition nameCount :: "string \<Rightarrow> tracker \<Rightarrow> int" where
  "nameCount name t = tally (ByName t) name"

definition sameInputCount :: "tool_json \<Rightarrow> string \<Rightarrow> bytes \<Rightarrow> tracker \<Rightarrow> int" where
  "sameInputCount J tool input t = tally (BySameInput t) (toolInputFingerprint J tool input)"

definition recordAttempt :: "tool_json \<Rightarrow> string \<Rightarrow> bytes \<Rightarrow> tracker \<Rightarrow> tracker" where
  "recordAttempt J tool input t = t\<lparr>BySameInput := bump (BySameInput t) (toolInputFingerprint J tool input) 1\<rparr>"

definition recordSuccess :: "string \<Rightarrow> tracker \<Rightarrow> tracker" where
  "recordSuccess name t = t\<lparr>ByName := bump (ByName t) name 1\<rparr>"

definition totalSuccesses :: "tracker \<Rightarrow> int" where
  "totalSuccesses t = total (ByName t)"

section \<open>Checkpoints\<close>

text \<open>
  The JSON of a tracker: its two committed maps, in an object with the keys \<^verbatim>\<open>by_name\<close> and \<^verbatim>\<open>by_same_input\<close>; a missing
  key decodes to an empty map. \<open>ProbeKeys\<close> is the first decoding, of which only the keys are used, and \<open>DecodeLegacy\<close> reads a plain
  map of counts.
\<close>

record tracker_codec =
  EncodeWire :: "counts \<times> counts \<Rightarrow> bytes"
  ProbeKeys :: "bytes \<Rightarrow> go_error + string list"
  DecodeWire :: "bytes \<Rightarrow> go_error + counts \<times> counts"
  DecodeLegacy :: "bytes \<Rightarrow> go_error + counts"

definition tracker_MarshalJSON :: "tracker_codec \<Rightarrow> tracker \<Rightarrow> bytes" where
  "tracker_MarshalJSON C t = EncodeWire C (ByName t, BySameInput t)"

definition decode_error :: "string \<Rightarrow> go_error \<Rightarrow> go_error" where
  "decode_error f e = Errorf f [] (Some e)"

definition decodeToolCallTracker :: "tracker_codec \<Rightarrow> bytes \<Rightarrow> go_error + tracker" where
  "decodeToolCallTracker C raw =
     (if trim_space raw = [] then Inr newToolCallTracker
      else (case ProbeKeys C raw of
          Inl e \<Rightarrow> Inl (decode_error ''decode tool call tracker: %w'' e)
        | Inr keys \<Rightarrow>
            if ''by_name'' \<in> set keys \<or> ''by_same_input'' \<in> set keys then
              (case DecodeWire C raw of
                 Inl e \<Rightarrow> Inl (decode_error ''decode tool call tracker: %w'' e)
               | Inr (byName, bySameInput) \<Rightarrow> Inr (newToolCallTracker\<lparr>ByName := byName, BySameInput := bySameInput\<rparr>))
            else (case DecodeLegacy C raw of
                Inl e \<Rightarrow> Inl (decode_error ''decode legacy tool call counts: %w'' e)
              | Inr byName \<Rightarrow> Inr (newToolCallTracker\<lparr>ByName := byName\<rparr>))))"

section \<open>Concurrent calls\<close>

text \<open>
  A run of the tracker: its state, every reservation handed out so far, and the settlements in order. Any call may
  reserve or settle at any time, a settlement may be repeated, and the run may be resumed
  from its checkpoint, in another process that has no reservations. \<open>cap\<close> is the rate cap of each tool.
\<close>

datatype settlement = Released | Attempted | Succeeded

definition settle :: "settlement \<Rightarrow> reservation \<Rightarrow> tracker \<Rightarrow> reservation \<times> tracker" where
  "settle s = (case s of Released \<Rightarrow> release | Attempted \<Rightarrow> commitAttempt | Succeeded \<Rightarrow> commitSuccess)"

definition resumed :: "tracker \<Rightarrow> tracker" where
  "resumed t = newToolCallTracker\<lparr>ByName := ByName t, BySameInput := BySameInput t\<rparr>"

type_synonym settled = "settlement \<times> string \<times> string"

definition logged :: "settlement \<Rightarrow> reservation \<Rightarrow> settled list" where
  "logged s r = (if ResActive r then [(s, ResName r, ResFingerprint r)] else [])"

inductive tracker_run :: "tool_json \<Rightarrow> int \<Rightarrow> (string \<Rightarrow> int) \<Rightarrow> tracker \<Rightarrow> reservation list \<Rightarrow> settled list \<Rightarrow> bool"
  for J limit cap where
  start: "tracker_run J limit cap newToolCallTracker [] []"
| reserve: "tracker_run J limit cap t rs log \<Longrightarrow> reserveToolCall J name input limit (cap name) t = (t', Inr (r, c)) \<Longrightarrow>
     tracker_run J limit cap t' (rs @ [r]) log"
| refuse: "tracker_run J limit cap t rs log \<Longrightarrow> reserveToolCall J name input limit (cap name) t = (t', Inl d) \<Longrightarrow>
     tracker_run J limit cap t' rs log"
| settle: "tracker_run J limit cap t rs log \<Longrightarrow> i < length rs \<Longrightarrow> settle s (rs ! i) t = (r', t') \<Longrightarrow>
     tracker_run J limit cap t' (rs[i := r']) (log @ logged s (rs ! i))"
| resume: "tracker_run J limit cap t rs log \<Longrightarrow> tracker_run J limit cap (resumed t) [] log"

definition in_flight :: "(reservation \<Rightarrow> bool) \<Rightarrow> reservation list \<Rightarrow> int" where
  "in_flight P rs = int (length (filter (\<lambda>r. ResActive r \<and> P r) rs))"

lemma in_flight_simps [simp]:
  "in_flight P [] = 0" "in_flight P (r # rs) = (if ResActive r \<and> P r then 1 else 0) + in_flight P rs"
  "in_flight P (rs @ [r]) = in_flight P rs + (if ResActive r \<and> P r then 1 else 0)"
  by (simp_all add: in_flight_def)

lemma in_flight_update:
  "i < length rs \<Longrightarrow> in_flight P (rs[i := r]) =
     in_flight P rs - (if ResActive (rs ! i) \<and> P (rs ! i) then 1 else 0) + (if ResActive r \<and> P r then 1 else 0)"
proof (induction rs arbitrary: i)
  case (Cons x rs)
  show ?case
  proof (cases i)
    case (Suc j)
    with Cons.prems have "j < length rs" by simp
    from Cons.IH [OF this] Suc show ?thesis by (simp only: list_update_code nth_Cons_Suc in_flight_simps)
  qed simp
qed simp

lemma in_flight_nonneg: "0 \<le> in_flight P rs"
  by (simp add: in_flight_def)

text \<open>
  The two budgets, by tool name and by tool and input, are kept the same way; what both need is the contract below.
  \<open>key\<close> is what a reservation is counted under, \<open>counted\<close> the settlements that stay counted, and \<open>room\<close> the limit of a
  key, if it has one.
\<close>

locale keyed_budget =
  fixes J :: tool_json and limit :: int and cap :: "string \<Rightarrow> int"
    and key :: "reservation \<Rightarrow> string"
    and committed :: "tracker \<Rightarrow> string \<Rightarrow> int"
    and reserved :: "tracker \<Rightarrow> string \<Rightarrow> int"
    and counted :: "settlement \<Rightarrow> bool"
    and room :: "string \<Rightarrow> int option"
  assumes start_empty: "committed newToolCallTracker k = 0" "reserved newToolCallTracker k = 0"
    and room_nonneg: "room k = Some n \<Longrightarrow> 0 \<le> n"
    and reserve_law: "reserveToolCall J name input limit (cap name) t = (t', Inr (r, c)) \<Longrightarrow>
      committed t' k = committed t k \<and> reserved t' k = reserved t k + (if key r = k then 1 else 0) \<and> ResActive r
        \<and> (\<forall>n. key r = k \<and> room k = Some n \<longrightarrow> committed t k + reserved t k < n)"
    and refuse_law: "reserveToolCall J name input limit (cap name) t = (t', Inl d) \<Longrightarrow> t' = t"
    and settle_law: "settle s r t = (r', t') \<Longrightarrow> ResActive r \<Longrightarrow>
      committed t' k = committed t k + (if counted s \<and> key r = k then 1 else 0)
        \<and> reserved t' k = reserved t k - (if key r = k then 1 else 0) \<and> \<not> ResActive r'"
    and settled_law: "\<not> ResActive r \<Longrightarrow> settle s r t = (r, t)"
    and resume_law: "committed (resumed t) k = committed t k" "reserved (resumed t) k = 0"
begin

definition log_count :: "settled list \<Rightarrow> string \<Rightarrow> int" where
  "log_count log k = int (length (filter (\<lambda>(s, name, fp). counted s \<and> key \<lparr>ResName = name, ResFingerprint = fp, ResActive = True\<rparr> = k) log))"

lemma budget_step_settle:
  assumes "i < length rs" and "settle s (rs ! i) t = (r', t')" and "\<And>r. key (r\<lparr>ResActive := True\<rparr>) = key r"
    and "reserved t k = in_flight (\<lambda>r. key r = k) rs" and "committed t k = log_count log k"
  shows "reserved t' k = in_flight (\<lambda>r. key r = k) (rs[i := r'])
    \<and> committed t' k = log_count (log @ logged s (rs ! i)) k
    \<and> committed t' k + reserved t' k \<le> committed t k + reserved t k"
proof (cases "ResActive (rs ! i)")
  case True
  from settle_law [OF assms(2) True, of k] have l:
    "committed t' k = committed t k + (if counted s \<and> key (rs ! i) = k then 1 else 0)"
    "reserved t' k = reserved t k - (if key (rs ! i) = k then 1 else 0)" "\<not> ResActive r'" by auto
  have "log_count (log @ logged s (rs ! i)) k = log_count log k + (if counted s \<and> key (rs ! i) = k then 1 else 0)"
    using assms(3) [of "rs ! i"] True by (cases "rs ! i") (simp add: log_count_def logged_def)
  with l assms True show ?thesis by (simp add: in_flight_update)
next
  case False
  with settled_law [OF False, of s t] assms show ?thesis by (simp add: logged_def log_count_def)
qed

lemma budget_kept:
  assumes "tracker_run J limit cap t rs log" and "\<And>r. key (r\<lparr>ResActive := True\<rparr>) = key r"
  shows "reserved t k = in_flight (\<lambda>r. key r = k) rs \<and> committed t k = log_count log k
    \<and> (\<forall>n. room k = Some n \<longrightarrow> committed t k + reserved t k \<le> n)"
  using assms(1)
proof (induction rule: tracker_run.induct)
  case start
  show ?case using start_empty room_nonneg by (auto simp: log_count_def)
next
  case (reserve t rs log name input t' r c)
  with reserve_law [OF reserve.hyps(2), of k] show ?case by auto
next
  case (refuse t rs log name input t' d)
  with refuse_law [OF refuse.hyps(2)] show ?case by metis
next
  case (settle t rs log i s r' t')
  then have "reserved t k = in_flight (\<lambda>r. key r = k) rs" "committed t k = log_count log k" by auto
  note budget_step_settle [OF settle.hyps(2, 3) assms(2) this]
  with settle.IH show ?case by force
next
  case (resume t rs log)
  have "0 \<le> reserved t k" using resume.IH in_flight_nonneg by simp
  with resume resume_law show ?case by fastforce
qed

end

lemma reserve_cases:
  assumes "reserveToolCall J name input limit c t = (t', Inr (r, counts))"
  shows "t' = t\<lparr>ReservedByName := bump (ReservedByName t) name 1,
         ReservedBySameInput := bump (ReservedBySameInput t) (toolInputFingerprint J name input) 1\<rparr>"
    and "r = \<lparr>ResName = name, ResFingerprint = toolInputFingerprint J name input, ResActive = True\<rparr>"
    and "counts = countsLocked t' name (toolInputFingerprint J name input)"
    and "0 < limit \<Longrightarrow> tally (BySameInput t) (ResFingerprint r) + tally (ReservedBySameInput t) (ResFingerprint r) + 1 < limit"
    and "0 < c \<Longrightarrow> tally (ByName t) name + tally (ReservedByName t) name < c"
  using assms by (auto simp: reserveToolCall_def Let_def split: if_splits)

lemmas settle_defs = settle_def release_def commitAttempt_def commitSuccess_def unreserve_def

lemma refuse_unchanged: "reserveToolCall J name input limit c t = (t', Inl d) \<Longrightarrow> t' = t"
  by (auto simp: reserveToolCall_def Let_def split: if_splits)

interpretation named: keyed_budget J limit cap ResName "\<lambda>t. tally (ByName t)" "\<lambda>t. tally (ReservedByName t)"
  "\<lambda>s. s = Succeeded" "\<lambda>k. if 0 < cap k then Some (cap k) else None"
  for J limit cap
proof unfold_locales
  fix name input t t' r c k
  assume r: "reserveToolCall J name input limit (cap name) t = (t', Inr (r, c))"
  then show "tally (ByName t') k = tally (ByName t) k
    \<and> tally (ReservedByName t') k = tally (ReservedByName t) k + (if ResName r = k then 1 else 0) \<and> ResActive r
    \<and> (\<forall>n. ResName r = k \<and> (if 0 < cap k then Some (cap k) else None) = Some n \<longrightarrow> tally (ByName t) k + tally (ReservedByName t) k < n)"
    using reserve_cases [OF r] by auto
qed (auto simp: newToolCallTracker_def settle_defs resumed_def Let_def dest: refuse_unchanged split: settlement.splits if_splits)

interpretation same_input: keyed_budget J limit cap ResFingerprint "\<lambda>t. tally (BySameInput t)" "\<lambda>t. tally (ReservedBySameInput t)"
  "\<lambda>s. s \<noteq> Released" "\<lambda>k. if 0 < limit then Some (limit - 1) else None"
  for J limit cap
proof unfold_locales
  fix name input t t' r c k
  assume r: "reserveToolCall J name input limit (cap name) t = (t', Inr (r, c))"
  then show "tally (BySameInput t') k = tally (BySameInput t) k
    \<and> tally (ReservedBySameInput t') k = tally (ReservedBySameInput t) k + (if ResFingerprint r = k then 1 else 0) \<and> ResActive r
    \<and> (\<forall>n. ResFingerprint r = k \<and> (if 0 < limit then Some (limit - 1) else None) = Some n \<longrightarrow>
         tally (BySameInput t) k + tally (ReservedBySameInput t) k < n)"
    using reserve_cases [OF r] by auto
qed (auto simp: newToolCallTracker_def settle_defs resumed_def Let_def dest: refuse_unchanged split: settlement.splits if_splits)

section \<open>The budgets hold\<close>

definition successes :: "settled list \<Rightarrow> string \<Rightarrow> int" where
  "successes log tool = int (length (filter (\<lambda>(s, name, fp). s = Succeeded \<and> name = tool) log))"

definition attempts :: "settled list \<Rightarrow> string \<Rightarrow> int" where
  "attempts log fingerprint = int (length (filter (\<lambda>(s, name, fp). s \<noteq> Released \<and> fp = fingerprint) log))"

text \<open>
  C8: the execution budgets hold under concurrency. In whatever order calls reserve, execute and settle, however often a
  settlement is repeated and however often the run is resumed from its checkpoint: the successful calls of a tool and its calls in
  flight never exceed its rate cap, and with a doom-loop limit the attempts on one tool and input, with those in flight,
  stay below it. The committed counts of the tracker are exactly the settlements made.
\<close>

theorem tool_budgets_hold:
  assumes "tracker_run J limit cap t rs log"
  shows "(0 < cap tool \<longrightarrow> successes log tool + in_flight (\<lambda>r. ResName r = tool) rs \<le> cap tool)
    \<and> (0 < limit \<longrightarrow> attempts log fp + in_flight (\<lambda>r. ResFingerprint r = fp) rs < limit)
    \<and> nameCount tool t = successes log tool"
proof -
  have s: "successes log tool = named.log_count log tool" by (simp add: successes_def named.log_count_def case_prod_unfold)
  have a: "attempts log fp = same_input.log_count log fp" by (simp add: attempts_def same_input.log_count_def case_prod_unfold)
  from named.budget_kept [OF assms, of tool] have "nameCount tool t = successes log tool"
    "0 < cap tool \<longrightarrow> successes log tool + in_flight (\<lambda>r. ResName r = tool) rs \<le> cap tool"
    unfolding s nameCount_def by force+
  moreover from same_input.budget_kept [OF assms, of fp]
  have "0 < limit \<longrightarrow> attempts log fp + in_flight (\<lambda>r. ResFingerprint r = fp) rs < limit" unfolding a by force
  ultimately show ?thesis by blast
qed

definition plain_tool_json :: tool_json where
  "plain_tool_json = \<lparr>DecodeAny = (\<lambda>_. None), EncodeAny = (\<lambda>_. None), ValidJSON = (\<lambda>_. False), CompactJSON = Some\<rparr>"

text \<open>The second call of a tool with a cap of one is refused while the first is in flight.\<close>

theorem tool_budgets_hold_witness:
  "let r = \<lparr>ResName = ''t'', ResFingerprint = toolInputFingerprint plain_tool_json ''t'' [], ResActive = True\<rparr>;
       t = fst (reserveToolCall plain_tool_json ''t'' [] 3 1 newToolCallTracker)
   in successes [] ''t'' + in_flight (\<lambda>r. ResName r = ''t'') [r] = 1 \<and> successes [] ''t'' + in_flight (\<lambda>r. ResName r = ''t'') [r] \<le> (1::int)
     \<and> snd (reserveToolCall plain_tool_json ''t'' ''x'' 3 1 t) = Inl (rate_cap_error 1)"
proof -
  let ?J = plain_tool_json
  let ?t = "fst (reserveToolCall ?J ''t'' [] 3 1 newToolCallTracker)"
  let ?r = "\<lparr>ResName = ''t'', ResFingerprint = toolInputFingerprint ?J ''t'' [], ResActive = True\<rparr>"
  obtain c where first: "reserveToolCall ?J ''t'' [] 3 1 newToolCallTracker = (?t, Inr (?r, c))"
    by (simp add: reserveToolCall_def newToolCallTracker_def Let_def)
  from tracker_run.reserve [OF tracker_run.start, where cap = "\<lambda>_. 1", OF first]
  have "tracker_run ?J 3 (\<lambda>_. 1) ?t [?r] []" by simp
  from tool_budgets_hold [OF this, of "''t''"]
  have "successes [] ''t'' + in_flight (\<lambda>r. ResName r = ''t'') [?r] \<le> (1::int)" by simp
  moreover have "snd (reserveToolCall ?J ''t'' ''x'' 3 1 ?t) = Inl (rate_cap_error 1)"
    by (simp add: reserveToolCall_def newToolCallTracker_def Let_def toolInputFingerprint_def canonicalJSON_def trim_space_def
        trim_segments_def is_space_def plain_tool_json_def)
  ultimately show ?thesis by (simp add: successes_def)
qed

text \<open>
  What a governance policy sees is exact: the settled successes of the tool, the attempts on its input and all successes, each with the other calls in flight.
\<close>

lemma tracker_run_distinct:
  "tracker_run J limit cap t rs log \<Longrightarrow> distinct (map fst (ByName t)) \<and> distinct (map fst (ReservedByName t))
     \<and> total (ByName t) = int (length (filter (\<lambda>e. fst e = Succeeded) log)) \<and> total (ReservedByName t) = in_flight (\<lambda>_. True) rs"
proof (induction rule: tracker_run.induct)
  case start
  show ?case by (simp add: newToolCallTracker_def total_def)
next
  case (reserve t rs log name input t' r c)
  with reserve_cases(1, 2) [OF reserve.hyps(2)] show ?case by simp
next
  case (refuse t rs log name input t' d)
  with refuse_unchanged [OF refuse.hyps(2)] show ?case by simp
next
  case (settle t rs log i s r' t')
  then show ?case
    by (cases "ResActive (rs ! i)") (auto simp: settle_defs Let_def logged_def in_flight_update split: settlement.splits)
next
  case (resume t rs log)
  then show ?case by (simp add: resumed_def newToolCallTracker_def total_def)
qed

theorem reservation_counts_exact:
  assumes "tracker_run J limit cap t rs log" and "reserveToolCall J name input limit (cap name) t = (t', Inr (r, c))"
  shows "CountByName c = successes log name + in_flight (\<lambda>r. ResName r = name) rs
    \<and> CountBySameInput c = attempts log (ResFingerprint r) + in_flight (\<lambda>x. ResFingerprint x = ResFingerprint r) rs
    \<and> CountTotal c = int (length (filter (\<lambda>e. fst e = Succeeded) log)) + in_flight (\<lambda>_. True) rs"
proof -
  have s: "successes log name = named.log_count log name" by (simp add: successes_def named.log_count_def case_prod_unfold)
  have a: "attempts log (ResFingerprint r) = same_input.log_count log (ResFingerprint r)"
    by (simp add: attempts_def same_input.log_count_def case_prod_unfold)
  note c = reserve_cases(1-3) [OF assms(2)]
  note named.budget_kept [OF assms(1), of name] same_input.budget_kept [OF assms(1), of "ResFingerprint r"] tracker_run_distinct [OF assms(1)]
  then show ?thesis unfolding s a using c by (simp add: countsLocked_def)
qed

section \<open>Checkpoints keep the budget\<close>

text \<open>
  A tracker written into a checkpoint and read back has the same committed counts and no reservations; an empty
  payload is a fresh tracker and a legacy one keeps its counts by name.
\<close>

theorem tracker_checkpoint_roundtrip:
  assumes "trim_space (tracker_MarshalJSON C t) \<noteq> []" and "ProbeKeys C (tracker_MarshalJSON C t) = Inr [''by_name'', ''by_same_input'']"
    and "DecodeWire C (tracker_MarshalJSON C t) = Inr (ByName t, BySameInput t)"
  shows "decodeToolCallTracker C (tracker_MarshalJSON C t) = Inr (resumed t)"
  using assms by (simp add: decodeToolCallTracker_def resumed_def)

end
