(* ===== verification/Tool_Orch.thy ===== *)
theory Tool_Orch
  imports Go_Crypto Tool_Tracker
begin

text \<open>
  \<^verbatim>\<open>pkg/toolorch\<close>: the cache of approval decisions, the breaker that stops a run after consecutive denials, the
  default orchestrator and the frozen list of advertised tools; \<^verbatim>\<open>usage_tracker.go\<close> of the runtime is here too. Every
  method holds its mutex, so each is one step.
\<close>

section \<open>Approval decisions\<close>

datatype decision = DecisionAllow | DecisionDeny | DecisionPause | DecisionOther string

definition orch_canonicalJSON :: "tool_json \<Rightarrow> bytes \<Rightarrow> bytes" where
  "orch_canonicalJSON J raw =
     (if raw = [] then ''null''
      else (case DecodeAny J raw of
          None \<Rightarrow> raw
        | Some v \<Rightarrow> (case EncodeAny J v of None \<Rightarrow> raw | Some encoded \<Rightarrow> encoded)))"

definition approval_key :: "tool_json \<Rightarrow> string \<Rightarrow> bytes \<Rightarrow> string" where
  "approval_key J tool input = hex_encode (sha256 (trim_space tool @ [CHR 0x00] @ orch_canonicalJSON J input))"

type_synonym decisions = "(string \<times> decision) list"
type_synonym approval_store = "string \<rightharpoonup> decisions"

definition Store_Get :: "approval_store \<Rightarrow> string \<Rightarrow> string \<Rightarrow> decision option" where
  "Store_Get st runID key =
     (if runID = [] \<or> key = [] then None
      else (case st runID of None \<Rightarrow> None | Some m \<Rightarrow> map_of m key))"

definition durable :: "decision \<Rightarrow> bool" where
  "durable d \<longleftrightarrow> d = DecisionAllow \<or> d = DecisionDeny"

definition Store_Put :: "string \<Rightarrow> string \<Rightarrow> decision \<Rightarrow> approval_store \<Rightarrow> approval_store" where
  "Store_Put runID key d st =
     (if runID = [] \<or> key = [] \<or> \<not> durable d then st
      else st(runID \<mapsto> AList.update key d (case st runID of None \<Rightarrow> [] | Some m \<Rightarrow> m)))"

definition Store_Clear :: "string \<Rightarrow> approval_store \<Rightarrow> approval_store" where
  "Store_Clear runID st = (if runID = [] then st else st(runID := None))"

text \<open>\<open>encode\<close> and \<open>decode\<close> are \<^verbatim>\<open>encoding/json\<close> on a map of decisions.\<close>

definition Store_ExportRun :: "(decisions \<Rightarrow> bytes option) \<Rightarrow> string \<Rightarrow> approval_store \<Rightarrow> bytes option" where
  "Store_ExportRun encode runID st =
     (if runID = [] then None
      else (case st runID of None \<Rightarrow> None | Some m \<Rightarrow> if m = [] then None else encode m))"

definition Store_ImportRun :: "(bytes \<Rightarrow> go_error + decisions) \<Rightarrow> string \<Rightarrow> bytes \<Rightarrow> approval_store \<Rightarrow> approval_store \<times> go_error option" where
  "Store_ImportRun decode runID data st =
     (if runID = [] then (st, None)
      else (case decode data of
          Inl e \<Rightarrow> (st, Some e)
        | Inr decoded \<Rightarrow> (st(runID \<mapsto> filter (\<lambda>(key, d). durable d) decoded), None)))"

section \<open>The default orchestrator\<close>

definition DecideApproval :: "tool_json \<Rightarrow> approval_store \<Rightarrow> string \<Rightarrow> string \<Rightarrow> bytes \<Rightarrow> bool \<Rightarrow> decision" where
  "DecideApproval J st runID tool input pauseRequired =
     (case Store_Get st runID (approval_key J tool input) of
        Some cached \<Rightarrow> cached
      | None \<Rightarrow> if pauseRequired then DecisionPause else DecisionAllow)"

definition RememberAllow :: "tool_json \<Rightarrow> string \<Rightarrow> string \<Rightarrow> bytes \<Rightarrow> approval_store \<Rightarrow> approval_store" where
  "RememberAllow J runID tool input st = Store_Put runID (approval_key J tool input) DecisionAllow st"

definition RememberDeny :: "tool_json \<Rightarrow> string \<Rightarrow> string \<Rightarrow> bytes \<Rightarrow> approval_store \<Rightarrow> approval_store" where
  "RememberDeny J runID tool input st = Store_Put runID (approval_key J tool input) DecisionDeny st"

section \<open>The deny breaker\<close>

record breaker =
  BreakerLimit :: int
  BreakerCount :: "string \<rightharpoonup> int"

definition NewDenyBreaker :: "int \<Rightarrow> breaker" where
  "NewDenyBreaker limit = \<lparr>BreakerLimit = limit, BreakerCount = (\<lambda>_. None)\<rparr>"

definition deny_count :: "breaker \<Rightarrow> string \<Rightarrow> int" where
  "deny_count b runID = (case BreakerCount b runID of None \<Rightarrow> 0 | Some n \<Rightarrow> n)"

definition RecordDeny :: "string \<Rightarrow> breaker \<Rightarrow> breaker \<times> bool \<times> int" where
  "RecordDeny runID b =
     (if BreakerLimit b \<le> 0 \<or> runID = [] then (b, False, 0)
      else (let n = deny_count b runID + 1
            in (b\<lparr>BreakerCount := (BreakerCount b)(runID \<mapsto> n)\<rparr>, BreakerLimit b \<le> n, n)))"

definition RecordAllow :: "string \<Rightarrow> breaker \<Rightarrow> breaker" where
  "RecordAllow runID b = (if runID = [] then b else b\<lparr>BreakerCount := (BreakerCount b)(runID := None)\<rparr>)"

definition Breaker_Clear :: "string \<Rightarrow> breaker \<Rightarrow> breaker" where
  "Breaker_Clear runID b = RecordAllow runID b"

definition Breaker_ExportRun :: "string \<Rightarrow> breaker \<Rightarrow> int" where
  "Breaker_ExportRun runID b = (if runID = [] then 0 else deny_count b runID)"

definition Breaker_ImportRun :: "string \<Rightarrow> int \<Rightarrow> breaker \<Rightarrow> breaker" where
  "Breaker_ImportRun runID n b =
     (if runID = [] then b else if n \<le> 0 then RecordAllow runID b else b\<lparr>BreakerCount := (BreakerCount b)(runID \<mapsto> n)\<rparr>)"

definition TripError :: "int \<Rightarrow> int \<Rightarrow> go_error" where
  "TripError limit n =
     Errorf ''runtime: HITL deny breaker tripped after %d consecutive denials (limit=%d)'' [int_text n, int_text limit] None"

section \<open>The advertised tools of a step\<close>

record sampling_step =
  AdvertisedTools :: "string list"
  AllowedNames :: "string list"

fun freeze_names :: "string list \<Rightarrow> string list \<Rightarrow> string list" where
  "freeze_names [] names = names"
| "freeze_names (s # specs) names =
     (let name = trim_space s in
      if name = [] \<or> name \<in> set names then freeze_names specs names else freeze_names specs (names @ [name]))"

text \<open>The argument is the names of the specs.\<close>

definition FreezeSamplingStepContext :: "string list \<Rightarrow> sampling_step" where
  "FreezeSamplingStepContext specs =
     (let names = freeze_names specs [] in \<lparr>AdvertisedTools = sort_stable str_less names, AllowedNames = names\<rparr>)"

definition Step_Allows :: "sampling_step \<Rightarrow> string \<Rightarrow> bool" where
  "Step_Allows s tool \<longleftrightarrow> AllowedNames s = [] \<or> trim_space tool \<in> set (AllowedNames s)"

definition Step_Frozen :: "sampling_step \<Rightarrow> bool" where
  "Step_Frozen s \<longleftrightarrow> AllowedNames s \<noteq> []"

section \<open>Token usage\<close>

record token_usage =
  UsageInput :: int
  UsageOutput :: int
  UsageTotal :: int

record usage_tracker =
  InputTokens :: int
  OutputTokens :: int
  TotalTokens :: int
  LastCallInputTokens :: int
  LastCallOutputTokens :: int
  ContextRecoveryAttempts :: int

definition newUsageTracker :: usage_tracker where
  "newUsageTracker = \<lparr>InputTokens = 0, OutputTokens = 0, TotalTokens = 0, LastCallInputTokens = 0, LastCallOutputTokens = 0,
     ContextRecoveryAttempts = 0\<rparr>"

definition usage_record :: "token_usage \<Rightarrow> usage_tracker \<Rightarrow> usage_tracker" where
  "usage_record u t = t\<lparr>InputTokens := i64 (InputTokens t + UsageInput u), OutputTokens := i64 (OutputTokens t + UsageOutput u),
     TotalTokens := i64 (TotalTokens t + UsageTotal u), LastCallInputTokens := UsageInput u, LastCallOutputTokens := UsageOutput u\<rparr>"

definition lastCallTokens :: "usage_tracker \<Rightarrow> int" where
  "lastCallTokens t = i64 (LastCallInputTokens t + LastCallOutputTokens t)"

definition markContextRecovery :: "usage_tracker \<Rightarrow> usage_tracker" where
  "markContextRecovery t = t\<lparr>ContextRecoveryAttempts := i64 (ContextRecoveryAttempts t + 1)\<rparr>"

definition decodeUsageTracker :: "(bytes \<Rightarrow> go_error + usage_tracker) \<Rightarrow> bytes \<Rightarrow> go_error + usage_tracker" where
  "decodeUsageTracker decode raw =
     (if trim_space raw = [] then Inr newUsageTracker
      else (case decode raw of Inl e \<Rightarrow> Inl (decode_error ''decode usage tracker: %w'' e) | Inr t \<Rightarrow> Inr t))"

section \<open>Facts\<close>

lemma Store_Get_Put:
  "Store_Get (Store_Put runID key d st) r k =
     (if r = runID \<and> k = key \<and> runID \<noteq> [] \<and> key \<noteq> [] \<and> durable d then Some d else Store_Get st r k)"
  by (auto simp: Store_Get_def Store_Put_def update_conv' split: option.splits)

text \<open>Only lasting decisions are ever cached, under distinct keys.\<close>

definition store_ok :: "approval_store \<Rightarrow> bool" where
  "store_ok st \<longleftrightarrow> (\<forall>runID m. st runID = Some m \<longrightarrow> distinct (map fst m) \<and> (\<forall>(key, d) \<in> set m. durable d))"

lemma update_entries: "e \<in> set (AList.update key d m) \<Longrightarrow> e = (key, d) \<or> e \<in> set m"
  by (induction m) (auto split: if_splits)

lemma store_ok_empty: "store_ok (\<lambda>_. None)"
  by (simp add: store_ok_def)

lemma store_ok_Put: "store_ok st \<Longrightarrow> store_ok (Store_Put runID key d st)"
  unfolding store_ok_def Store_Put_def
  by (fastforce simp: distinct_update split: option.splits if_splits dest!: update_entries)

lemma store_ok_Clear: "store_ok st \<Longrightarrow> store_ok (Store_Clear runID st)"
  by (auto simp: store_ok_def Store_Clear_def split: if_splits)

lemma store_ok_Import:
  "store_ok st \<Longrightarrow> (\<And>raw m. decode raw = Inr m \<Longrightarrow> distinct (map fst m)) \<Longrightarrow> store_ok (fst (Store_ImportRun decode runID data st))"
  unfolding store_ok_def Store_ImportRun_def by (auto simp: distinct_map_filter split: sum.splits if_splits)

text \<open>
  Remembered approvals survive a change of worker. What one process exports for a run and another one imports answers every lookup as
  before, and touches no other run. \<open>encode\<close> and \<open>decode\<close> are JSON on a map of decisions.
\<close>

theorem approvals_survive_resume:
  assumes "store_ok st" and "Store_ExportRun encode runID st = Some raw"
    and "\<And>m raw. encode m = Some raw \<Longrightarrow> decode raw = Inr m"
  shows "snd (Store_ImportRun decode runID raw st') = None
    \<and> DecideApproval J (fst (Store_ImportRun decode runID raw st')) runID tool input pause = DecideApproval J st runID tool input pause
    \<and> (\<forall>r. r \<noteq> runID \<longrightarrow> fst (Store_ImportRun decode runID raw st') r = st' r)"
proof -
  from assms(2) obtain m where m: "runID \<noteq> []" "st runID = Some m" "encode m = Some raw"
    by (auto simp: Store_ExportRun_def split: if_splits option.splits)
  from assms(1) m(2) have "filter (\<lambda>(key, d). durable d) m = m" by (auto simp: store_ok_def filter_id_conv)
  with m assms(3) [OF m(3)] show ?thesis by (simp add: Store_ImportRun_def DecideApproval_def Store_Get_def)
qed

definition sample_encode :: "decisions \<Rightarrow> bytes option" where
  "sample_encode m = (case m of [(key, DecisionDeny)] \<Rightarrow> Some (''d'' @ key) | [(key, DecisionAllow)] \<Rightarrow> Some (''a'' @ key) | _ \<Rightarrow> None)"

definition sample_decode :: "bytes \<Rightarrow> go_error + decisions" where
  "sample_decode raw = (case raw of [] \<Rightarrow> Inl (ErrHost ''syntax'')
     | c # key \<Rightarrow> Inr [(key, if c = CHR ''d'' then DecisionDeny else DecisionAllow)])"

lemma sample_decode_encode: "sample_encode m = Some raw \<Longrightarrow> sample_decode raw = Inr m"
  by (auto simp: sample_encode_def sample_decode_def split: list.splits prod.splits decision.splits)

theorem approvals_survive_resume_witness:
  "let st = Store_Put ''r'' (approval_key plain_tool_json ''t'' []) DecisionDeny (\<lambda>_. None)
   in approval_key plain_tool_json ''t'' [] \<noteq> [] \<and>
     DecideApproval plain_tool_json (fst (Store_ImportRun sample_decode ''r'' (''d'' @ approval_key plain_tool_json ''t'' []) (\<lambda>_. None)))
       ''r'' ''t'' [] True = DecisionDeny"
proof -
  let ?key = "approval_key plain_tool_json ''t'' []"
  let ?st = "Store_Put ''r'' ?key DecisionDeny (\<lambda>_. None)"
  have k: "?key \<noteq> []"
  proof -
    have "length ?key = 64" by (simp add: approval_key_def)
    then show ?thesis by auto
  qed
  then have e: "Store_ExportRun sample_encode ''r'' ?st = Some (''d'' @ ?key)"
    by (simp add: Store_ExportRun_def Store_Put_def durable_def sample_encode_def)
  have "DecideApproval plain_tool_json ?st ''r'' ''t'' [] True = DecisionDeny"
    using k by (simp add: DecideApproval_def Store_Get_Put durable_def)
  with approvals_survive_resume [OF store_ok_Put [OF store_ok_empty] e sample_decode_encode] k show ?thesis by simp
qed

section \<open>The breaker counts consecutive denials\<close>

datatype verdict_event = DenyOf string | AllowOf string

fun breaker_step :: "verdict_event \<Rightarrow> breaker \<Rightarrow> breaker" where
  "breaker_step (DenyOf runID) b = fst (RecordDeny runID b)"
| "breaker_step (AllowOf runID) b = RecordAllow runID b"

fun streak :: "string \<Rightarrow> verdict_event list \<Rightarrow> int" where
  "streak runID [] = 0"
| "streak runID (e # es) = (if e = DenyOf runID then 1 + streak runID es else if e = AllowOf runID then 0 else streak runID es)"

lemma streak_nonneg: "0 \<le> streak runID es"
  by (induction es) simp_all

lemma breaker_limit [simp]: "BreakerLimit (breaker_step e b) = BreakerLimit b"
  by (cases e) (auto simp: RecordDeny_def RecordAllow_def Let_def)

lemma breaker_history:
  assumes "0 < limit" and "runID \<noteq> []"
  shows "BreakerLimit (fold breaker_step es (NewDenyBreaker limit)) = limit
    \<and> deny_count (fold breaker_step es (NewDenyBreaker limit)) runID = streak runID (rev es)"
proof (induction es rule: rev_induct)
  case Nil
  show ?case by (simp add: NewDenyBreaker_def deny_count_def)
next
  case (snoc e es)
  with assms show ?case by (cases e) (auto simp: RecordDeny_def RecordAllow_def deny_count_def Let_def)
qed

text \<open>
  The breaker trips exactly at its limit of consecutive denials of one run. After any history of denials and approvals
  of any runs, the next denial trips it if and only if it and the denials of the same run since its last approval
  are at least \<^verbatim>\<open>limit\<close>; taking the count through a checkpoint changes nothing.
\<close>

theorem breaker_trips_exactly:
  assumes "0 < limit" and "runID \<noteq> []"
  shows "let b = fold breaker_step es (NewDenyBreaker limit)
    in fst (snd (RecordDeny runID b)) = (limit \<le> 1 + streak runID (rev es))
      \<and> deny_count (Breaker_ImportRun runID (Breaker_ExportRun runID b) (NewDenyBreaker limit)) runID = deny_count b runID"
proof -
  note streak_nonneg [of runID "rev es"]
  with breaker_history [OF assms, of es] assms show ?thesis
    by (auto simp: Let_def RecordDeny_def Breaker_ImportRun_def Breaker_ExportRun_def RecordAllow_def NewDenyBreaker_def deny_count_def
        split: option.splits)
qed

theorem breaker_trips_exactly_witness:
  "fst (snd (RecordDeny ''r'' (fold breaker_step [DenyOf ''r'', AllowOf ''r'', DenyOf ''r'', DenyOf ''s''] (NewDenyBreaker 2))))
     = (2 \<le> 1 + streak ''r'' (rev [DenyOf ''r'', AllowOf ''r'', DenyOf ''r'', DenyOf ''s''])) \<and> streak ''r'' (rev [DenyOf ''r'', AllowOf ''r'', DenyOf ''r'', DenyOf ''s'']) = 1"
  using breaker_trips_exactly [of 2 "''r''" "[DenyOf ''r'', AllowOf ''r'', DenyOf ''r'', DenyOf ''s'']"] by (simp add: Let_def)

end
