(* ===== verification/Ctx_Mask.thy ===== *)
theory Ctx_Mask
  imports Ctx_Trim Go_Json "HOL-Library.AList"
begin

text \<open>
  The context window, second part: the class of a tool result (\<^verbatim>\<open>classify.go\<close>), masking of old observations
  and dropping masked ones (\<^verbatim>\<open>mask.go\<close>), and insertion of reinjected context (\<^verbatim>\<open>inject.go\<close>).

  \<open>decode\<close> is \<^verbatim>\<open>json.Unmarshal\<close> into a \<^verbatim>\<open>map[string]any\<close>: \<open>None\<close> for an error.
\<close>

section \<open>Classes of tool results\<close>

datatype tool_result_class = ToolResultSuccess | ToolResultDenied | ToolResultEmpty

type_synonym map_decoder = "bytes \<Rightarrow> (string \<times> json) list option"

definition metadata_class :: "message \<Rightarrow> tool_result_class option" where
  "metadata_class m =
     (case map_of (MsgMetadata m) ''tool_result_class'' of
        None \<Rightarrow> None
      | Some v \<Rightarrow> if v = ''denied'' then Some ToolResultDenied
                  else if v = ''empty'' then Some ToolResultEmpty
                  else if v = ''success'' then Some ToolResultSuccess else None)"

definition denial_text :: "string \<Rightarrow> bool" where
  "denial_text s \<longleftrightarrow> contains_str s ''run_tool_budget_exceeded'' \<or> contains_str s ''run_tool_loop_guard''
     \<or> contains_str s ''tool invocation blocked by governance'' \<or> contains_str s ''tool_denied''
     \<or> contains_str s ''rate cap exceeded''"

text \<open>What the decoded content says, if anything.\<close>

definition parsed_class :: "(string \<times> json) list \<Rightarrow> tool_result_class option" where
  "parsed_class parsed =
     (let is_error = (case map_of parsed ''error'' of Some (JString e) \<Rightarrow> trim_space e \<noteq> [] | _ \<Rightarrow> False);
          is_empty = (case map_of parsed ''output'' of
              Some JNull \<Rightarrow> True
            | Some (JString s) \<Rightarrow> trim_space s = []
            | Some (JObject kvs) \<Rightarrow> kvs = []
            | _ \<Rightarrow> False)
      in if is_error then Some ToolResultDenied
         else if is_empty then Some ToolResultEmpty
         else if map_of parsed ''tool'' \<noteq> None \<or> map_of parsed ''output'' \<noteq> None then Some ToolResultSuccess
         else None)"

definition ClassifyToolResult :: "map_decoder \<Rightarrow> message \<Rightarrow> tool_result_class" where
  "ClassifyToolResult decode m =
     (case metadata_class m of
        Some c \<Rightarrow> c
      | None \<Rightarrow>
          (let content = trim_space (MsgContent m) in
           if content = [] \<or> content = ''{}'' \<or> content = ''null'' \<or> content = [CHR 0x22, CHR 0x22] then ToolResultEmpty
           else (case (case decode content of None \<Rightarrow> None | Some parsed \<Rightarrow> parsed_class parsed) of
               Some c \<Rightarrow> c
             | None \<Rightarrow> if denial_text (to_lower content) then ToolResultDenied else ToolResultSuccess)))"

section \<open>Masking\<close>

definition maskedToolResultPrefix :: string where
  "maskedToolResultPrefix = ''[masked tool result:''"

definition masked :: "message \<Rightarrow> message" where
  "masked m = m\<lparr>MsgContent := ''[masked tool result: '' @ nat_text (length (MsgContent m)) @ '' bytes]''\<rparr>"

definition succeeded :: "map_decoder \<Rightarrow> message \<Rightarrow> bool" where
  "succeeded decode m \<longleftrightarrow> MsgRole m = RoleTool \<and> ClassifyToolResult decode m = ToolResultSuccess"

fun assistantBatchHasSuccess :: "map_decoder \<Rightarrow> message list \<Rightarrow> bool list" where
  "assistantBatchHasSuccess decode [] = []"
| "assistantBatchHasSuccess decode (m # ms) =
     (MsgRole m = RoleAssistant \<and> list_ex (succeeded decode) (takeWhile (\<lambda>r. MsgRole r = RoleTool) ms))
     # assistantBatchHasSuccess decode ms"

definition toolObservationName :: "message \<Rightarrow> string" where
  "toolObservationName m =
     (if trim_space (MsgName m) \<noteq> [] then trim_space (MsgName m)
      else if trim_space (MsgToolCallID m) \<noteq> [] then ''call:'' @ trim_space (MsgToolCallID m)
      else ''_unnamed'')"

text \<open>The loop from the newest message to the oldest over the messages and the marks of their batches, both reversed.\<close>

fun would_mask :: "int \<Rightarrow> (message \<times> bool) list \<Rightarrow> nat \<Rightarrow> bool list" where
  "would_mask afterTurns [] seen = []"
| "would_mask afterTurns ((m, success) # ms) seen =
     (case MsgRole m of
        RoleAssistant \<Rightarrow> False # would_mask afterTurns ms (if success then seen + 1 else seen)
      | RoleTool \<Rightarrow> (afterTurns \<le> int seen) # would_mask afterTurns ms seen
      | _ \<Rightarrow> False # would_mask afterTurns ms seen)"

text \<open>The index of the last success of every observation name; \<open>i\<close> is the index of the first message.\<close>

fun latest_success :: "map_decoder \<Rightarrow> nat \<Rightarrow> message list \<Rightarrow> (string \<times> nat) list \<Rightarrow> (string \<times> nat) list" where
  "latest_success decode i [] latest = latest"
| "latest_success decode i (m # ms) latest =
     latest_success decode (i + 1) ms (if succeeded decode m then AList.update (toolObservationName m) i latest else latest)"

definition keep_names :: "string list \<Rightarrow> string list" where
  "keep_names names = filter (\<lambda>n. n \<noteq> []) (map trim_space names)"

definition MaskObservations :: "map_decoder \<Rightarrow> message list \<Rightarrow> int \<Rightarrow> string list \<Rightarrow> message list" where
  "MaskObservations decode ms afterTurns keepToolNames =
     (if afterTurns \<le> 0 \<or> ms = [] then ms
      else
        (let marks = rev (would_mask afterTurns (rev (zip ms (assistantBatchHasSuccess decode ms))) 0);
             keep = filter (\<lambda>i. marks ! i) (map snd (latest_success decode 0 ms []))
         in map (\<lambda>i. let m = ms ! i in
              if MsgRole m \<noteq> RoleTool \<or> \<not> marks ! i then m
              else if i \<in> set keep then m
              else if trim_space (MsgName m) \<in> set (keep_names keepToolNames) then m
              else masked m) [0..<length ms]))"

definition IsMaskedObservation :: "message \<Rightarrow> bool" where
  "IsMaskedObservation m \<longleftrightarrow> MsgRole m = RoleTool \<and> has_prefix (MsgContent m) maskedToolResultPrefix"

definition CompactContext :: "message list \<Rightarrow> message list" where
  "CompactContext ms = filter (\<lambda>m. \<not> IsMaskedObservation m) ms"

section \<open>Insertion\<close>

datatype insert_position = InsertBeforeLastUserMessage | InsertAppend | InsertUnset

definition last_user :: "message list \<Rightarrow> nat option" where
  "last_user ms = find (\<lambda>i. MsgRole (ms ! i) = RoleUser) (rev [0..<length ms])"

definition InsertMessage :: "message list \<Rightarrow> message \<Rightarrow> insert_position \<Rightarrow> message list" where
  "InsertMessage ms m position =
     (if position = InsertUnset \<or> position = InsertAppend then ms @ [m]
      else (case last_user ms of
              None \<Rightarrow> ms @ [m]
            | Some i \<Rightarrow> take i ms @ m # drop i ms))"

section \<open>Which observations are masked\<close>

text \<open>The assistant turns after position \<open>i\<close> that a successful result follows.\<close>

definition turns_after :: "map_decoder \<Rightarrow> message list \<Rightarrow> nat \<Rightarrow> nat" where
  "turns_after decode ms i = length (filter id (drop (i + 1) (assistantBatchHasSuccess decode ms)))"

text \<open>
  An observation is stale if enough turns with a success came after it, its tool is not pinned, and it is not
  the newest success under its name.
\<close>

definition stale :: "map_decoder \<Rightarrow> message list \<Rightarrow> int \<Rightarrow> string list \<Rightarrow> nat \<Rightarrow> bool" where
  "stale decode ms afterTurns keepToolNames i \<longleftrightarrow>
     MsgRole (ms ! i) = RoleTool \<and> afterTurns \<le> int (turns_after decode ms i)
     \<and> trim_space (MsgName (ms ! i)) \<notin> set (keep_names keepToolNames)
     \<and> (succeeded decode (ms ! i) \<longrightarrow>
          (\<exists>j. i < j \<and> j < length ms \<and> succeeded decode (ms ! j) \<and> toolObservationName (ms ! j) = toolObservationName (ms ! i)))"

lemma length_batches [simp]: "length (assistantBatchHasSuccess decode ms) = length ms"
  by (induction ms) simp_all

lemma batch_role: "i < length ms \<Longrightarrow> assistantBatchHasSuccess decode ms ! i \<Longrightarrow> MsgRole (ms ! i) = RoleAssistant"
  by (induction ms arbitrary: i) (auto simp: nth_Cons split: nat.splits)

lemma length_would_mask [simp]: "length (would_mask a xs seen) = length xs"
  by (induction a xs seen rule: would_mask.induct) (auto split: role.splits)

lemma would_mask_nth:
  assumes "\<And>m s. (m, s) \<in> set xs \<Longrightarrow> s \<Longrightarrow> MsgRole m = RoleAssistant" and "k < length xs"
  shows "would_mask a xs seen ! k \<longleftrightarrow> MsgRole (fst (xs ! k)) = RoleTool \<and> a \<le> int (seen + length (filter id (map snd (take k xs))))"
  using assms
proof (induction a xs seen arbitrary: k rule: would_mask.induct)
  case (2 a m success ms seen)
  show ?case
  proof (cases k)
    case 0
    then show ?thesis by (simp split: role.splits)
  next
    case (Suc j)
    have s: "success \<Longrightarrow> MsgRole m = RoleAssistant" using 2(6) by simp
    have j: "j < length ms" using 2(7) Suc by simp
    have p: "\<And>m s. (m, s) \<in> set ms \<Longrightarrow> s \<Longrightarrow> MsgRole m = RoleAssistant" using 2(6) by auto
    show ?thesis
      using 2(1,2,3,4,5) [OF _ p j] s Suc by (cases "MsgRole m") (auto split: if_splits)
  qed
qed simp

lemma map_of_latest:
  "map_of (latest_success decode i ms latest) n =
     (case find (\<lambda>k. succeeded decode (ms ! k) \<and> toolObservationName (ms ! k) = n) (rev [0..<length ms]) of
        Some k \<Rightarrow> Some (i + k) | None \<Rightarrow> map_of latest n)"
proof (induction ms arbitrary: i latest)
  case (Cons m ms)
  let ?p = "\<lambda>ms k. succeeded decode (ms ! k) \<and> toolObservationName (ms ! k) = n"
  have up: "rev [0..<length (m # ms)] = map Suc (rev [0..<length ms]) @ [0]"
    unfolding rev_map [symmetric] by (simp add: upt_conv_Cons map_Suc_upt del: upt_Suc)
  have shift: "find (?p (m # ms)) (map Suc ks) = map_option Suc (find (?p ms) ks)" for ks
    by (induction ks) simp_all
  have app: "find P (xs @ ys) = (case find P xs of None \<Rightarrow> find P ys | Some x \<Rightarrow> Some x)" for P and xs ys :: "nat list"
    by (induction xs) auto
  show ?case
    unfolding up app shift latest_success.simps Cons by (auto simp: update_conv' split: option.splits)
qed simp

lemma find_newest:
  "find P (rev [0..<n]) = Some k \<longleftrightarrow> k < n \<and> P k \<and> (\<forall>j. k < j \<and> j < n \<longrightarrow> \<not> P j)"
proof (induction n)
  case (Suc n)
  then show ?case by (auto simp: less_Suc_eq)
qed simp

lemma distinct_latest: "distinct (map fst latest) \<Longrightarrow> distinct (map fst (latest_success decode i ms latest))"
  by (induction ms arbitrary: i latest) (simp_all add: distinct_update)

lemma latest_index:
  "i \<in> snd ` set (latest_success decode 0 ms []) \<longleftrightarrow> i < length ms \<and> succeeded decode (ms ! i)
     \<and> (\<forall>j. i < j \<and> j < length ms \<longrightarrow> \<not> (succeeded decode (ms ! j) \<and> toolObservationName (ms ! j) = toolObservationName (ms ! i)))"
proof -
  let ?latest = "latest_success decode 0 ms []"
  have "i \<in> snd ` set ?latest \<longleftrightarrow> (\<exists>n. map_of ?latest n = Some i)"
    using distinct_latest [of "[]" decode 0 ms] by (force simp: map_of_eq_Some_iff)
  also have "\<dots> \<longleftrightarrow> (\<exists>n. find (\<lambda>k. succeeded decode (ms ! k) \<and> toolObservationName (ms ! k) = n) (rev [0..<length ms]) = Some i)"
    by (intro arg_cong [where f = Ex] ext) (auto simp: map_of_latest split: option.splits)
  finally show ?thesis unfolding find_newest by auto
qed

lemma marks_nth:
  assumes "i < length ms"
  shows "rev (would_mask a (rev (zip ms (assistantBatchHasSuccess decode ms))) 0) ! i
    \<longleftrightarrow> MsgRole (ms ! i) = RoleTool \<and> a \<le> int (turns_after decode ms i)"
proof -
  let ?b = "assistantBatchHasSuccess decode ms"
  let ?xs = "rev (zip ms ?b)" and ?k = "length ms - Suc i"
  have roles: "MsgRole m = RoleAssistant" if "(m, s) \<in> set ?xs" "s" for m s
    using that batch_role by (fastforce simp: in_set_zip)
  have "rev (would_mask a ?xs 0) ! i = would_mask a ?xs 0 ! ?k" using assms by (simp add: rev_nth)
  also have "\<dots> \<longleftrightarrow> MsgRole (fst (?xs ! ?k)) = RoleTool \<and> a \<le> int (length (filter id (map snd (take ?k ?xs))))"
    using would_mask_nth [where xs = ?xs and k = ?k and a = a and seen = 0] roles assms by simp
  also have "fst (?xs ! ?k) = ms ! i" using assms by (simp add: rev_nth)
  also have "take ?k ?xs = rev (drop (Suc i) (zip ms ?b))" using assms by (simp add: take_rev)
  also have "map snd (rev (drop (Suc i) (zip ms ?b))) = rev (drop (Suc i) ?b)"
    by (simp add: drop_zip rev_map [symmetric])
  finally show ?thesis by (simp add: turns_after_def rev_filter [symmetric] id_def)
qed

text \<open>
  Masking hides exactly the stale observations. Every message keeps its place, its role and its identity; the
  content of a tool result is replaced exactly when at least the configured number of assistant turns with a
  success came after it, its tool name is not pinned, and, if it is a success itself, a newer
  success of the same tool is in the context. So a denial never pushes a result out of the window, and the
  newest success of every tool stays readable.
\<close>

theorem mask_exact:
  assumes "0 < afterTurns"
  shows "MaskObservations decode ms afterTurns keepToolNames =
     map (\<lambda>i. if stale decode ms afterTurns keepToolNames i then masked (ms ! i) else ms ! i) [0..<length ms]"
proof (cases "ms = []")
  case False
  let ?marks = "rev (would_mask afterTurns (rev (zip ms (assistantBatchHasSuccess decode ms))) 0)"
  have keep: "i \<in> set (filter (\<lambda>i. ?marks ! i) (map snd (latest_success decode 0 ms []))) \<longleftrightarrow>
      ?marks ! i \<and> i \<in> snd ` set (latest_success decode 0 ms [])" for i by auto
  show ?thesis
    unfolding MaskObservations_def Let_def keep using assms False
    by (auto simp: marks_nth latest_index stale_def intro!: map_cong)
qed (simp add: MaskObservations_def)

text \<open>Two calls of one tool, both successful: the older result is masked after one turn, the newer one is not.\<close>

definition tool_success :: "string \<Rightarrow> string \<Rightarrow> message" where
  "tool_success i content = (result_message i content)\<lparr>MsgName := ''t'', MsgMetadata := [(''tool_result_class'', ''success'')]\<rparr>"

definition two_calls :: "message list" where
  "two_calls = [call_message [''x''], tool_success ''x'' ''old'', call_message [''y''], tool_success ''y'' ''new'']"

lemma two_calls_masked:
  "MaskObservations (\<lambda>_. None) two_calls 1 [] =
     [call_message [''x''], masked (tool_success ''x'' ''old''), call_message [''y''], tool_success ''y'' ''new'']"
  by (simp add: MaskObservations_def two_calls_def tool_success_def result_message_def call_message_def text_message_def
      succeeded_def ClassifyToolResult_def metadata_class_def toolObservationName_def keep_names_def masked_def
      trim_space_def trim_segments_def is_space_def in_range_def upt_Suc Let_def)

theorem mask_exact_witness:
  "map (\<lambda>i. if stale (\<lambda>_. None) two_calls 1 [] i then masked (two_calls ! i) else two_calls ! i) [0..<length two_calls] =
     [call_message [''x''], masked (tool_success ''x'' ''old''), call_message [''y''], tool_success ''y'' ''new'']"
proof -
  have "0 < (1 :: int)" by simp
  from mask_exact [OF this, of "\<lambda>_. None" two_calls "[]"] show ?thesis unfolding two_calls_masked by (rule sym)
qed

end
