(* ===== verification/Llm_Message.thy ===== *)
theory Llm_Message
  imports Ctx_Mask
begin

text \<open>
  Messages and tool calls of \<^verbatim>\<open>pkg/llm\<close>: \<^verbatim>\<open>types.go\<close>, the repair of tool arguments in \<^verbatim>\<open>toolargs.go\<close>, and how the streaming OpenAI
  gateway puts the tool calls of a response together (\<^verbatim>\<open>internal/adapter/llm/openai/gateway.go\<close>).
\<close>

section \<open>Messages\<close>

record tool_call =
  CallID :: string
  CallName :: string
  CallInput :: bytes

record lmessage =
  LRole :: role
  LContent :: string
  LReasoning :: string
  LToolCalls :: "tool_call list"
  LName :: string
  LToolCallID :: string
  LMetadata :: "(string \<times> string) list"

section \<open>Tool arguments\<close>

text \<open>\<open>DecodeText\<close> is \<^verbatim>\<open>json.Unmarshal\<close> into a string, where \<^verbatim>\<open>null\<close> gives the empty one.\<close>

record arg_json =
  DecodeText :: "bytes \<Rightarrow> string option"
  ValidArgs :: "bytes \<Rightarrow> bool"

definition empty_object :: bytes where
  "empty_object = ''{}''"

definition NormalizeToolArguments :: "arg_json \<Rightarrow> bytes \<Rightarrow> bytes" where
  "NormalizeToolArguments A raw =
     (if trim_space raw = [] then empty_object
      else (case DecodeText A raw of
          Some encoded \<Rightarrow> if trim_space encoded = [] then empty_object else if ValidArgs A encoded then encoded else empty_object
        | None \<Rightarrow> if ValidArgs A raw then raw else empty_object))"

definition NormalizeToolCallInputs :: "arg_json \<Rightarrow> tool_call list \<Rightarrow> tool_call list" where
  "NormalizeToolCallInputs A calls = map (\<lambda>c. c\<lparr>CallInput := NormalizeToolArguments A (CallInput c)\<rparr>) calls"

definition NormalizeMessageToolInputs :: "arg_json \<Rightarrow> lmessage list \<Rightarrow> lmessage list" where
  "NormalizeMessageToolInputs A ms = map (\<lambda>m. if LToolCalls m = [] then m else m\<lparr>LToolCalls := NormalizeToolCallInputs A (LToolCalls m)\<rparr>) ms"

text \<open>Whether the arguments were replaced by the empty object; the text of the diagnostic is left out.\<close>

definition toolArgsRepaired :: "arg_json \<Rightarrow> bytes \<Rightarrow> bool" where
  "toolArgsRepaired A raw =
     (let trimmed = trim_space raw in
      if trimmed = [] then False
      else (case DecodeText A trimmed of
          Some encoded \<Rightarrow> if trim_space encoded = [] then False else \<not> ValidArgs A encoded
        | None \<Rightarrow> \<not> ValidArgs A trimmed))"

section \<open>Streamed tool calls\<close>

record call_delta =
  DeltaIndex :: int
  DeltaID :: string
  DeltaName :: string
  DeltaArguments :: string

record call_acc =
  AccID :: string
  AccName :: string
  AccArguments :: string

text \<open>The accumulators of a response by index, in the order of their first delta.\<close>

definition merge_delta :: "call_delta \<Rightarrow> (int \<times> call_acc) list \<Rightarrow> (int \<times> call_acc) list" where
  "merge_delta d acc =
     (let a = (case map_of acc (DeltaIndex d) of None \<Rightarrow> \<lparr>AccID = [], AccName = [], AccArguments = []\<rparr> | Some a \<Rightarrow> a)
      in AList.update (DeltaIndex d)
           \<lparr>AccID = (if DeltaID d \<noteq> [] then DeltaID d else AccID a), AccName = (if DeltaName d \<noteq> [] then DeltaName d else AccName a),
            AccArguments = AccArguments a @ DeltaArguments d\<rparr> acc)"

definition finalizeStreamToolCalls :: "arg_json \<Rightarrow> (int \<times> call_acc) list \<Rightarrow> tool_call list" where
  "finalizeStreamToolCalls A acc =
     map (\<lambda>(index, a). \<lparr>CallID = (if AccID a = [] then ''call_'' @ int_text index else AccID a), CallName = AccName a,
           CallInput = NormalizeToolArguments A (AccArguments a)\<rparr>)
       (filter (\<lambda>(index, a). trim_space (AccName a) \<noteq> []) (sort_key fst acc))"

section \<open>Tool calls written as content\<close>

text \<open>
  \<^verbatim>\<open>toolcall_normalize.go\<close>: some models answer with the JSON of tool calls as text. \<open>calls\<close> is the decoded array of names and arguments;
  \<open>index\<close> is the position in it. An unknown name spoils the whole answer.
\<close>

fun content_calls :: "arg_json \<Rightarrow> string list \<Rightarrow> nat \<Rightarrow> (string \<times> bytes) list \<Rightarrow> tool_call list option" where
  "content_calls A allowed index [] = Some []"
| "content_calls A allowed index ((raw_name, args) # calls) =
     (let name = trim_space raw_name in
      if name = [] then content_calls A allowed (index + 1) calls
      else if name \<notin> set allowed then None
      else (case content_calls A allowed (index + 1) calls of
          None \<Rightarrow> None
        | Some out \<Rightarrow> Some (\<lparr>CallID = ''content-tool-call-'' @ nat_text index, CallName = name, CallInput = NormalizeToolArguments A args\<rparr> # out)))"

definition contentToolCallsToLLM :: "arg_json \<Rightarrow> string list \<Rightarrow> (string \<times> bytes) list \<Rightarrow> tool_call list option" where
  "contentToolCallsToLLM A allowed calls = (case content_calls A allowed 0 calls of
       None \<Rightarrow> None | Some out \<Rightarrow> if out = [] then None else Some out)"

section \<open>Normalized arguments are valid\<close>

text \<open>
  Whatever a provider sends as arguments, the normalized ones are valid JSON, and valid ones are left as they are
  unless they are a string, which is unwrapped.
\<close>

lemma NormalizeToolArguments_valid:
  assumes "ValidArgs A empty_object"
  shows "ValidArgs A (NormalizeToolArguments A raw)"
    and "DecodeText A raw = None \<Longrightarrow> ValidArgs A raw \<Longrightarrow> trim_space raw \<noteq> [] \<Longrightarrow> NormalizeToolArguments A raw = raw"
  using assms by (auto simp: NormalizeToolArguments_def split: option.splits)

end
