(* ===== verification/Run_Checkpoint.thy ===== *)
theory Run_Checkpoint
  imports Runtime_Store Tool_Orch Llm_Message
begin

text \<open>
  The checkpoint a paused agent leaves in the variables of its run: \<^verbatim>\<open>runtime_checkpoint.go\<close> of \<^verbatim>\<open>internal/application/runtime\<close>. A checkpoint
  written before the human gate confirmed the pause carries a marker and must not be resumed. Variables are the
  association list of a snapshot; a nil map reads as the empty one.
\<close>

section \<open>Codec and keys\<close>

text \<open>
  \<^verbatim>\<open>encoding/json\<close> on the values of a checkpoint. \<open>CkDecRef\<close> is the blob reference of a decoded \<^verbatim>\<open>StepOutputRef\<close>, if the text is one that
  has a blob.
\<close>

record checkpoint_codec =
  CkEncText :: "string \<Rightarrow> bytes"
  CkDecText :: "bytes \<Rightarrow> string option"
  CkDecBool :: "bytes \<Rightarrow> bool option"
  CkDecInt :: "bytes \<Rightarrow> int option"
  CkEncCalls :: "tool_call list \<Rightarrow> go_error + bytes"
  CkDecCalls :: "bytes \<Rightarrow> go_error + tool_call list"
  CkEncMessages :: "lmessage list \<Rightarrow> go_error + bytes"
  CkDecMessages :: "bytes \<Rightarrow> go_error + lmessage list"
  CkEncRef :: "blob_ref \<Rightarrow> go_error + bytes"
  CkDecRef :: "bytes \<Rightarrow> blob_ref option"
  CkTracker :: tracker_codec
  CkEncUsage :: "usage_tracker \<Rightarrow> bytes"
  CkDecUsage :: "bytes \<Rightarrow> go_error + usage_tracker"
  CkEncApprovals :: "decisions \<Rightarrow> bytes option"
  CkDecApprovals :: "bytes \<Rightarrow> go_error + decisions"
  CkArgs :: arg_json

definition checkpointKindVar :: string where "checkpointKindVar = ''checkpoint_kind''"
definition checkpointPromptVar :: string where "checkpointPromptVar = ''checkpoint_prompt''"
definition checkpointAgentVar :: string where "checkpointAgentVar = ''checkpoint_agent''"
definition checkpointContextVar :: string where "checkpointContextVar = ''checkpoint_context''"
definition checkpointToolCallsVar :: string where "checkpointToolCallsVar = ''checkpoint_tool_calls''"
definition checkpointMessagesVar :: string where "checkpointMessagesVar = ''checkpoint_messages''"
definition checkpointToolCountsVar :: string where "checkpointToolCountsVar = ''checkpoint_tool_counts''"
definition checkpointUsageVar :: string where "checkpointUsageVar = ''checkpoint_usage''"
definition checkpointApprovalsVar :: string where "checkpointApprovalsVar = ''checkpoint_approvals''"
definition checkpointDenyCountVar :: string where "checkpointDenyCountVar = ''checkpoint_deny_count''"
definition checkpointOutputModeVar :: string where "checkpointOutputModeVar = ''checkpoint_output_mode''"
definition checkpointStepsConsumedVar :: string where "checkpointStepsConsumedVar = ''checkpoint_steps_consumed''"
definition checkpointReplanAttemptsVar :: string where "checkpointReplanAttemptsVar = ''checkpoint_replan_attempts''"
definition checkpointWorkflowNodeVar :: string where "checkpointWorkflowNodeVar = ''checkpoint_workflow_node''"
definition checkpointPendingPauseVar :: string where "checkpointPendingPauseVar = ''checkpoint_pending_pause''"
definition checkpointResumedVar :: string where "checkpointResumedVar = ''checkpoint_resumed''"
definition beforeFinalResumedVar :: string where "beforeFinalResumedVar = ''before_final_resumed''"
definition humanAmendmentVar :: string where "humanAmendmentVar = ''human_amendment''"

lemmas checkpoint_vars = checkpointKindVar_def checkpointPromptVar_def checkpointAgentVar_def checkpointContextVar_def
  checkpointToolCallsVar_def checkpointMessagesVar_def checkpointToolCountsVar_def checkpointUsageVar_def
  checkpointApprovalsVar_def checkpointDenyCountVar_def checkpointOutputModeVar_def checkpointStepsConsumedVar_def
  checkpointReplanAttemptsVar_def checkpointWorkflowNodeVar_def checkpointPendingPauseVar_def checkpointResumedVar_def
  beforeFinalResumedVar_def humanAmendmentVar_def

definition checkpointVariableKeys :: "string list" where
  "checkpointVariableKeys = [checkpointKindVar, checkpointPromptVar, checkpointAgentVar, checkpointContextVar, checkpointToolCallsVar,
     checkpointMessagesVar, checkpointToolCountsVar, checkpointUsageVar, checkpointApprovalsVar, checkpointDenyCountVar,
     checkpointOutputModeVar, checkpointStepsConsumedVar, checkpointReplanAttemptsVar, checkpointWorkflowNodeVar, checkpointPendingPauseVar]"

section \<open>Reading variables\<close>

definition variableString :: "checkpoint_codec \<Rightarrow> (string \<times> bytes) list \<Rightarrow> string \<Rightarrow> string" where
  "variableString K vars key = (case map_of vars key of
       None \<Rightarrow> []
     | Some raw \<Rightarrow> (case CkDecText K raw of None \<Rightarrow> trim_space raw | Some value \<Rightarrow> value))"

definition checkpointBoolVar :: "checkpoint_codec \<Rightarrow> (string \<times> bytes) list \<Rightarrow> string \<Rightarrow> bool" where
  "checkpointBoolVar K vars key = (case map_of vars key of
       None \<Rightarrow> False
     | Some raw \<Rightarrow> raw \<noteq> [] \<and> CkDecBool K raw = Some True)"

definition checkpointIntVar :: "checkpoint_codec \<Rightarrow> (string \<times> bytes) list \<Rightarrow> string \<Rightarrow> int" where
  "checkpointIntVar K vars key = (case map_of vars key of
       None \<Rightarrow> 0
     | Some raw \<Rightarrow> if raw = [] then 0 else (case CkDecInt K raw of None \<Rightarrow> 0 | Some n \<Rightarrow> n))"

definition checkpointStepsConsumed :: "checkpoint_codec \<Rightarrow> (string \<times> bytes) list \<Rightarrow> int" where
  "checkpointStepsConsumed K vars = checkpointIntVar K vars checkpointStepsConsumedVar"

definition decodeAmendmentText :: "checkpoint_codec \<Rightarrow> bytes \<Rightarrow> string" where
  "decodeAmendmentText K raw = (case CkDecText K raw of None \<Rightarrow> trim_space raw | Some value \<Rightarrow> trim_space value)"

definition humanAmendmentText :: "checkpoint_codec \<Rightarrow> (string \<times> bytes) list \<Rightarrow> string" where
  "humanAmendmentText K vars = (case map_of vars humanAmendmentVar of
       None \<Rightarrow> [] | Some raw \<Rightarrow> if raw = [] then [] else decodeAmendmentText K raw)"

definition applyHumanAmendment :: "checkpoint_codec \<Rightarrow> (string \<times> bytes) list \<Rightarrow> string \<Rightarrow> string" where
  "applyHumanAmendment K vars prompt =
     (let amendment = humanAmendmentText K vars in
      if amendment = [] then prompt
      else if trim_space prompt = [] then amendment
      else prompt @ [CHR 0x0A, CHR 0x0A] @ ''Human feedback: '' @ amendment)"

definition isBeforeFinalResumed :: "checkpoint_codec \<Rightarrow> run_snapshot \<Rightarrow> bool" where
  "isBeforeFinalResumed K s \<longleftrightarrow>
     checkpointBoolVar K (variables_of s) beforeFinalResumedVar \<or> checkpointBoolVar K (variables_of s) checkpointResumedVar"

section \<open>Writing and clearing\<close>

definition clearHumanAmendment :: "run_snapshot \<Rightarrow> run_snapshot" where
  "clearHumanAmendment s = delete_var humanAmendmentVar s"

definition clearCheckpointVariables :: "run_snapshot \<Rightarrow> run_snapshot" where
  "clearCheckpointVariables s = fold delete_var (checkpointVariableKeys @ [checkpointResumedVar]) s"

definition made_vars :: "run_snapshot \<Rightarrow> run_snapshot" where
  "made_vars s = s\<lparr>Variables := Some (variables_of s)\<rparr>"

definition with_vars :: "(string \<times> bytes) list \<Rightarrow> run_snapshot \<Rightarrow> run_snapshot" where
  "with_vars vals s = fold (\<lambda>(key, value). set_var key value) vals (made_vars s)"

definition saveCheckpointVariables :: "runner \<Rightarrow> gctx \<Rightarrow> string \<Rightarrow> (string \<times> bytes) list \<Rightarrow> world \<Rightarrow> world \<times> go_error option" where
  "saveCheckpointVariables R ctx runID vals w = engine_saveSnapshotWithRetry R ctx runID (\<lambda>s. Inr (with_vars vals s)) w"

definition clear_checkpoint :: "string \<Rightarrow> run_snapshot \<Rightarrow> run_snapshot" where
  "clear_checkpoint kind s =
     (let s1 = clearCheckpointVariables (clearHumanAmendment (made_vars s))
      in if kind = ''before_final_answer'' then set_var beforeFinalResumedVar ''true'' s1 else s1)"

definition clearCheckpointState :: "runner \<Rightarrow> gctx \<Rightarrow> string \<Rightarrow> string \<Rightarrow> world \<Rightarrow> world \<times> go_error option" where
  "clearCheckpointState R ctx runID kind w = engine_saveSnapshotWithRetry R ctx runID (\<lambda>s. Inr (clear_checkpoint kind s)) w"

definition clearPendingPauseMarker :: "runner \<Rightarrow> gctx \<Rightarrow> string \<Rightarrow> world \<Rightarrow> world \<times> go_error option" where
  "clearPendingPauseMarker R ctx runID w = engine_saveSnapshotWithRetry R ctx runID (\<lambda>s. Inr (delete_var checkpointPendingPauseVar s)) w"

definition ClearCheckpointState :: "runner \<Rightarrow> gctx \<Rightarrow> string \<Rightarrow> world \<Rightarrow> world \<times> go_error option" where
  "ClearCheckpointState R ctx runID w =
     engine_saveSnapshotWithRetry R ctx runID (\<lambda>s. Inr (clearCheckpointVariables (clearHumanAmendment s))) w"

definition ClearUnconfirmedCheckpoint :: "checkpoint_codec \<Rightarrow> run_snapshot \<Rightarrow> run_snapshot \<times> bool" where
  "ClearUnconfirmedCheckpoint K s =
     (if \<not> checkpointBoolVar K (variables_of s) checkpointPendingPauseVar then (s, False)
      else (clearCheckpointVariables (clearHumanAmendment s), True))"

definition ClearOrphanedCheckpointState :: "checkpoint_codec \<Rightarrow> run_snapshot \<Rightarrow> run_snapshot" where
  "ClearOrphanedCheckpointState K s =
     (if variableString K (variables_of s) checkpointKindVar \<noteq> ''tool_approval'' then s
      else (case map_of (variables_of s) checkpointMessagesVar of
          Some (c # cs) \<Rightarrow> s
        | _ \<Rightarrow> clearCheckpointVariables s))"

section \<open>Large variables\<close>

definition externalizeCheckpointVar ::
  "checkpoint_codec \<Rightarrow> runner \<Rightarrow> gctx \<Rightarrow> int \<Rightarrow> bytes \<Rightarrow> world \<Rightarrow> world \<times> (go_error + bytes)" where
  "externalizeCheckpointVar K R ctx threshold raw w =
     (if threshold \<le> 0 \<or> int (length raw) \<le> threshold \<or> \<not> HasBlobs R then (w, Inr raw)
      else (let (m, w1) = tick (Fenced R) w; (bs, res) = Blobs_Put (at_moment m ctx) (Blobs w1) raw in
            (w1\<lparr>Blobs := bs\<rparr>, (case res of Inl e \<Rightarrow> Inl e | Inr ref \<Rightarrow> CkEncRef K ref))))"

definition resolveCheckpointVar :: "checkpoint_codec \<Rightarrow> runner \<Rightarrow> gctx \<Rightarrow> bytes \<Rightarrow> world \<Rightarrow> world \<times> (go_error + bytes)" where
  "resolveCheckpointVar K R ctx raw w =
     (case trim_space raw of
        [] \<Rightarrow> (w, Inr raw)
      | c # cs \<Rightarrow>
          if c \<noteq> CHR ''{'' then (w, Inr raw)
          else (case CkDecRef K (c # cs) of
              None \<Rightarrow> (w, Inr raw)
            | Some ref \<Rightarrow>
                if \<not> HasBlobs R then (w, Inl (Errorf ''runtime: blob store is required to resolve externalized checkpoint state'' [] None))
                else (let (m, w1) = tick (Fenced R) w in (w1, Blobs_Get (at_moment m ctx) (Blobs w1) ref))))"

section \<open>Restoring approvals\<close>

definition restoreApprovalCheckpointState ::
  "checkpoint_codec \<Rightarrow> string \<Rightarrow> (string \<times> bytes) list \<Rightarrow> approval_store \<Rightarrow> breaker option \<Rightarrow> approval_store \<times> breaker option" where
  "restoreApprovalCheckpointState K runID vars st b =
     ((case map_of vars checkpointApprovalsVar of
         Some (c # cs) \<Rightarrow> fst (Store_ImportRun (CkDecApprovals K) runID (c # cs) st)
       | _ \<Rightarrow> st),
      (let n = checkpointIntVar K vars checkpointDenyCountVar in
       if 0 < n then map_option (Breaker_ImportRun runID n) b else b))"

section \<open>Changes of a run are atomic\<close>

lemma change_pass_cases:
  assumes "bounded_moments w" and "repo_inv (Repo w)" and "change_pass R ctx runID mutate i w = (w', p)"
    and keeps: "\<And>s s'. mutate s = Inr s' \<Longrightarrow> RunID s' = RunID s \<and> Version s' = Version s"
  shows "case p of
      Stop None \<Rightarrow> \<exists>u. by_others (Fenced R) w u \<and> atomic_update (Fenced R) ctx runID (\<lambda>s s'. mutate s = Inr s') u w'
    | _ \<Rightarrow> by_others (Fenced R) w w' \<and> bounded_moments w'"
proof -
  obtain w1 res where l: "load_run R ctx runID w = (w1, res)" by fastforce
  note o1 = load_run_by_others [OF l assms(1)]
  show ?thesis
  proof (cases res)
    case (Inl e)
    with assms(3) l o1 show ?thesis by (auto simp: change_pass_def)
  next
    case (Inr s)
    show ?thesis
    proof (cases "mutate s")
      case e: (Inl e)
      with assms(3) l o1 Inr show ?thesis by (auto simp: change_pass_def)
    next
      case s': (Inr s')
      obtain w2 err where sv: "saveRunSnapshot R ctx s' (Version s') w1 = (w2, err)" by fastforce
      show ?thesis
      proof (cases err)
        case None
        with l Inr s' sv assms(1,2) o1 keeps [OF s'] load_save_atomic [of R ctx runID w w1 s w1 s' "Version s'" w2 "\<lambda>s s'. mutate s = Inr s'"]
        have "\<exists>u. by_others (Fenced R) w u \<and> atomic_update (Fenced R) ctx runID (\<lambda>s s'. mutate s = Inr s') u w2" by simp
        with None assms(3) l Inr s' sv show ?thesis by (auto simp: change_pass_def)
      next
        case (Some e)
        note o2 = saveRunSnapshot_failed [OF sv [unfolded Some] o1(2)]
        from assms(3) l Inr s' sv Some have st: "stale_pass R Some e w2 = (w', p)" by (simp add: change_pass_def)
        from stale_pass_by_others [OF st o2(2)] by_others_trans [OF by_others_trans [OF o1(1) o2(1)]] show ?thesis by auto
      qed
    qed
  qed
qed

text \<open>
  The engine's retry loop is one atomic change of the run, or leaves the repository to the others.
\<close>

abbreviation change_result :: "runner \<Rightarrow> gctx \<Rightarrow> string \<Rightarrow> (run_snapshot \<Rightarrow> go_error + run_snapshot) \<Rightarrow> world \<Rightarrow> world \<Rightarrow> go_error option \<Rightarrow> bool" where
  "change_result R ctx runID mutate r0 w' err \<equiv> (case err of
      None \<Rightarrow> \<exists>u. by_others (Fenced R) r0 u \<and> atomic_update (Fenced R) ctx runID (\<lambda>s s'. mutate s = Inr s') u w'
    | Some e \<Rightarrow> by_others (Fenced R) r0 w')"

lemma engine_save_atomic:
  assumes "engine_saveSnapshotWithRetry R ctx runID mutate w = (w', err)" and "bounded_moments w" and "repo_inv (Repo w)"
    and keeps: "\<And>s s'. mutate s = Inr s' \<Longrightarrow> RunID s' = RunID s \<and> Version s' = Version s"
  shows "change_result R ctx runID mutate w w' err"
  using assms(1) unfolding engine_saveSnapshotWithRetry_def
proof (rule passes_rule [where fenced = "Fenced R" and P = "change_result R ctx runID mutate", rotated 4])
  fix i w w1
  assume "bounded_moments w" "repo_inv (Repo w)" "change_pass R ctx runID mutate i w = (w1, Again)"
  note change_pass_cases [OF this keeps]
  then show "by_others (Fenced R) w w1 \<and> bounded_moments w1" by simp
next
  fix i w w1 x
  assume "bounded_moments w" "repo_inv (Repo w)" "change_pass R ctx runID mutate i w = (w1, Stop x)"
  note change_pass_cases [OF this keeps]
  then show "change_result R ctx runID mutate w w1 x" by (cases x) auto
next
  fix r r' w x
  assume "by_others (Fenced R) r r'" "change_result R ctx runID mutate r' w x"
  then show "change_result R ctx runID mutate r w x" by (cases x) (auto intro: by_others_trans)
qed (use assms in simp_all)

section \<open>What the writes leave\<close>

lemma variables_of_delete: "map_of (variables_of (delete_var key s)) k = (if k = key then None else map_of (variables_of s) k)"
  by (auto simp: delete_var_def variables_of_def delete_conv' split: option.split)

lemma variables_of_deletes: "map_of (variables_of (fold delete_var keys s)) k = (if k \<in> set keys then None else map_of (variables_of s) k)"
  by (induction keys arbitrary: s) (auto simp: variables_of_delete)

lemma variables_of_set: "map_of (variables_of (set_var key raw s)) k = (if k = key then Some raw else map_of (variables_of s) k)"
  by (simp add: set_var_def variables_of_def update_conv')

lemma variables_of_made [simp]: "variables_of (made_vars s) = variables_of s"
  by (simp add: made_vars_def variables_of_def)

lemma variables_of_with:
  assumes "distinct (map fst vals)"
  shows "map_of (variables_of (with_vars vals s)) k = (case map_of vals k of None \<Rightarrow> map_of (variables_of s) k | Some raw \<Rightarrow> Some raw)"
proof -
  have "map_of (variables_of (fold (\<lambda>(key, value). set_var key value) vals t)) k
      = (case map_of vals k of None \<Rightarrow> map_of (variables_of t) k | Some raw \<Rightarrow> Some raw)" for t
    using assms
  proof (induction vals arbitrary: t)
    case (Cons kv vals)
    obtain key raw where kv: "kv = (key, raw)" by (cases kv)
    then have "map_of vals key = None" using Cons.prems by (simp add: map_of_eq_None_iff)
    with Cons kv show ?case by (cases "map_of vals k") (auto simp: variables_of_set)
  qed simp
  from this [of "made_vars s"] show ?thesis by (cases "map_of vals k") (simp_all add: with_vars_def)
qed

lemma kept_by_vars:
  "RunID (delete_var key s) = RunID s" "Version (delete_var key s) = Version s" "TenantID (delete_var key s) = TenantID s"
  "Status (delete_var key s) = Status s" "RunID (set_var key raw s) = RunID s" "Version (set_var key raw s) = Version s"
  "TenantID (set_var key raw s) = TenantID s" "Status (set_var key raw s) = Status s"
  by (simp_all add: delete_var_def set_var_def split: option.split)

lemma kept_by_deletes:
  "RunID (fold delete_var keys s) = RunID s \<and> Version (fold delete_var keys s) = Version s
     \<and> TenantID (fold delete_var keys s) = TenantID s \<and> Status (fold delete_var keys s) = Status s"
  by (induction keys arbitrary: s) (simp_all add: kept_by_vars)

lemma kept_by_clear:
  "RunID (clear_checkpoint kind s) = RunID s \<and> Version (clear_checkpoint kind s) = Version s
     \<and> TenantID (clear_checkpoint kind s) = TenantID s \<and> Status (clear_checkpoint kind s) = Status s"
  using kept_by_deletes [of "checkpointVariableKeys @ [checkpointResumedVar]" "delete_var humanAmendmentVar (made_vars s)"]
  by (simp add: clear_checkpoint_def clearCheckpointVariables_def clearHumanAmendment_def kept_by_vars Let_def del: fold_append)
    (simp add: made_vars_def)

definition checkpoint_names :: "string set" where
  "checkpoint_names = insert humanAmendmentVar (insert checkpointResumedVar (set checkpointVariableKeys))"

lemma clear_checkpoint_variables:
  "map_of (variables_of (clear_checkpoint kind s)) k =
     (if k = beforeFinalResumedVar \<and> kind = ''before_final_answer'' then Some ''true''
      else if k \<in> checkpoint_names then None else map_of (variables_of s) k)"
  by (auto simp: clear_checkpoint_def clearCheckpointVariables_def clearHumanAmendment_def checkpoint_names_def
      variables_of_set variables_of_deletes variables_of_delete Let_def)

text \<open>
  Clearing a checkpoint removes every variable of it and the amendment in one atomic change and touches nothing else of the run, whatever
  other writers do meanwhile; a failure leaves the repository to them.
\<close>

theorem clear_checkpoint_atomic:
  assumes "clearCheckpointState R ctx runID kind w = (w', err)" and "bounded_moments w" and "repo_inv (Repo w)"
  shows "case err of
      None \<Rightarrow> \<exists>u. by_others (Fenced R) w u \<and> atomic_update (Fenced R) ctx runID
        (\<lambda>s s'. Status s' = Status s \<and> (\<forall>k. k \<noteq> beforeFinalResumedVar \<longrightarrow>
           map_of (variables_of s') k = (if k \<in> checkpoint_names then None else map_of (variables_of s) k))) u w'
    | Some e \<Rightarrow> by_others (Fenced R) w w'"
proof -
  have "change_result R ctx runID (\<lambda>s. Inr (clear_checkpoint kind s)) w w' err"
    using engine_save_atomic [OF assms(1) [unfolded clearCheckpointState_def] assms(2,3)] kept_by_clear by auto
  moreover have "atomic_update (Fenced R) ctx runID
        (\<lambda>s s'. Status s' = Status s \<and> (\<forall>k. k \<noteq> beforeFinalResumedVar \<longrightarrow>
           map_of (variables_of s') k = (if k \<in> checkpoint_names then None else map_of (variables_of s) k))) u w'"
    if u: "atomic_update (Fenced R) ctx runID (\<lambda>s s'. Inr (clear_checkpoint kind s) = (Inr s' :: go_error + run_snapshot)) u w'" for u
    by (rule atomic_update_mono [OF u]) (auto simp: clear_checkpoint_variables kept_by_clear)
  ultimately show ?thesis by (cases err) (simp only: option.case, blast, simp)
qed

end
