(* ===== verification/Locker.thy ===== *)
theory Locker
  imports Run_Lifecycle
begin

text \<open>
  Leases with fencing tokens: \<^verbatim>\<open>pkg/coordination/lease.go\<close> and the in-process locker
  \<^verbatim>\<open>internal/adapter/coordination/inmem/locker.go\<close>. The result \<^verbatim>\<open>(Lease, bool, error)\<close> is
  \<open>go_error + lease option\<close>, \<open>Inr None\<close> being \<^verbatim>\<open>(Lease{}, false, nil)\<close>. Tokens are \<^verbatim>\<open>uint64\<close>.

  The locale \<open>lease_service\<close> is the contract the package comment states for every locker: a key has at
  most one live holder, a fresh grant mints the next token of the key, and only the holding owner and
  token pair can renew or release. What follows from it for any history of calls is proved in the
  locale, and the in-memory locker is shown to meet it.
\<close>

section \<open>Leases\<close>

record lease =
  LeaseKey :: string
  LeaseOwner :: string
  LeaseToken :: "64 word"
  LeaseExpiresAt :: gtime

definition Lease_Validate :: "lease \<Rightarrow> go_error option" where
  "Lease_Validate ls =
     (if LeaseKey ls = [] \<or> LeaseOwner ls = [] \<or> LeaseToken ls = 0 then Some ErrInvalidLease
      else None)"

section \<open>The in-memory locker\<close>

record lock_entry =
  EntryOwner :: string
  EntryToken :: "64 word"
  EntryExpiresAt :: gtime

record locker =
  Leases :: "string \<Rightarrow> lock_entry option"
  Counters :: "string \<Rightarrow> (64 word) option"

definition NewLocker :: locker where
  "NewLocker = \<lparr>Leases = Map.empty, Counters = Map.empty\<rparr>"

definition counter_of :: "locker \<Rightarrow> string \<Rightarrow> 64 word" where
  "counter_of l key = (case Counters l key of None \<Rightarrow> 0 | Some c \<Rightarrow> c)"

text \<open>The branch of \<^verbatim>\<open>Acquire\<close> for a key with no live holder.\<close>

definition acquire_fresh ::
  "locker \<Rightarrow> string \<Rightarrow> string \<Rightarrow> duration \<Rightarrow> gtime \<Rightarrow> locker \<times> (go_error + lease option)" where
  "acquire_fresh l key owner ttl now =
     (let token = counter_of l key + 1; expiresAt = now + ttl
      in (l\<lparr>Counters := (Counters l)(key \<mapsto> token),
            Leases := (Leases l)(key \<mapsto>
              \<lparr>EntryOwner = owner, EntryToken = token, EntryExpiresAt = expiresAt\<rparr>)\<rparr>,
          Inr (Some \<lparr>LeaseKey = key, LeaseOwner = owner, LeaseToken = token,
                     LeaseExpiresAt = expiresAt\<rparr>)))"

definition Locker_Acquire ::
  "gctx \<Rightarrow> gtime \<Rightarrow> locker \<Rightarrow> string \<Rightarrow> string \<Rightarrow> duration \<Rightarrow> locker \<times> (go_error + lease option)" where
  "Locker_Acquire ctx now l key owner ttl =
     (case CtxErr ctx of
        Some e \<Rightarrow> (l, Inl e)
      | None \<Rightarrow>
          if key = [] \<or> owner = [] \<or> ttl \<le> 0 then (l, Inl ErrInvalidLease)
          else (case Leases l key of
                  None \<Rightarrow> acquire_fresh l key owner ttl now
                | Some held \<Rightarrow>
                    if now < EntryExpiresAt held then
                      (if EntryOwner held \<noteq> owner then (l, Inr None)
                       else (l\<lparr>Leases := (Leases l)(key \<mapsto>
                                \<lparr>EntryOwner = owner, EntryToken = EntryToken held,
                                 EntryExpiresAt = now + ttl\<rparr>)\<rparr>,
                             Inr (Some \<lparr>LeaseKey = key, LeaseOwner = owner,
                                        LeaseToken = EntryToken held, LeaseExpiresAt = now + ttl\<rparr>)))
                    else acquire_fresh l key owner ttl now))"

definition Locker_Renew ::
  "gctx \<Rightarrow> gtime \<Rightarrow> locker \<Rightarrow> lease \<Rightarrow> duration \<Rightarrow> locker \<times> (go_error + lease option)" where
  "Locker_Renew ctx now l ls ttl =
     (case CtxErr ctx of
        Some e \<Rightarrow> (l, Inl e)
      | None \<Rightarrow>
          (case Lease_Validate ls of
             Some e \<Rightarrow> (l, Inl e)
           | None \<Rightarrow>
               if ttl \<le> 0 then (l, Inl ErrInvalidLease)
               else (case Leases l (LeaseKey ls) of
                       None \<Rightarrow> (l, Inr None)
                     | Some held \<Rightarrow>
                         if EntryOwner held \<noteq> LeaseOwner ls \<or> EntryToken held \<noteq> LeaseToken ls
                            \<or> \<not> now < EntryExpiresAt held
                         then (l, Inr None)
                         else (l\<lparr>Leases := (Leases l)(LeaseKey ls \<mapsto>
                                  \<lparr>EntryOwner = LeaseOwner ls, EntryToken = LeaseToken ls,
                                   EntryExpiresAt = now + ttl\<rparr>)\<rparr>,
                               Inr (Some (ls\<lparr>LeaseExpiresAt := now + ttl\<rparr>))))))"

definition Locker_Release :: "gctx \<Rightarrow> locker \<Rightarrow> lease \<Rightarrow> locker \<times> go_error option" where
  "Locker_Release ctx l ls =
     (case CtxErr ctx of
        Some e \<Rightarrow> (l, Some e)
      | None \<Rightarrow>
          (case Lease_Validate ls of
             Some e \<Rightarrow> (l, Some e)
           | None \<Rightarrow>
               (case Leases l (LeaseKey ls) of
                  None \<Rightarrow> (l, Some ErrInvalidLease)
                | Some held \<Rightarrow>
                    if EntryOwner held \<noteq> LeaseOwner ls \<or> EntryToken held \<noteq> LeaseToken ls
                    then (l, Some ErrInvalidLease)
                    else (l\<lparr>Leases := (Leases l)(LeaseKey ls := None)\<rparr>, None))))"

lemmas locker_defs = Locker_Acquire_def Locker_Renew_def Locker_Release_def acquire_fresh_def Let_def

section \<open>The contract of a locker\<close>

text \<open>
  \<open>holder\<close> reads who holds a key, with which token and until when; \<open>counter\<close> the last token minted
  for the key. The environment \<open>e\<close> of a call has a clock reading. \<open>None\<close> from \<open>acquire\<close> or \<open>renew\<close> is
  any outcome that grants nothing: not held, invalid or an error.
\<close>

locale lease_service =
  fixes acquire :: "'e \<Rightarrow> 'l \<Rightarrow> string \<Rightarrow> string \<Rightarrow> duration \<Rightarrow> 'l \<times> lease option"
    and renew :: "'e \<Rightarrow> 'l \<Rightarrow> lease \<Rightarrow> duration \<Rightarrow> 'l \<times> lease option"
    and release :: "'e \<Rightarrow> 'l \<Rightarrow> lease \<Rightarrow> 'l"
    and time :: "'e \<Rightarrow> gtime"
    and holder :: "'l \<Rightarrow> string \<Rightarrow> (string \<times> 64 word \<times> gtime) option"
    and counter :: "'l \<Rightarrow> string \<Rightarrow> 64 word"
  assumes acquire_granted:
      "acquire e l key owner ttl = (l', Some ls) \<Longrightarrow>
         LeaseKey ls = key \<and> LeaseOwner ls = owner
         \<and> holder l' = (holder l)(key \<mapsto> (owner, LeaseToken ls, LeaseExpiresAt ls))
         \<and> ((\<exists>x. holder l key = Some (owner, LeaseToken ls, x) \<and> time e < x) \<and> counter l' = counter l
            \<or> (\<forall>o' t x. holder l key = Some (o', t, x) \<longrightarrow> x \<le> time e)
              \<and> LeaseToken ls = counter l key + 1 \<and> counter l' = (counter l)(key := counter l key + 1))"
    and acquire_refused:
      "acquire e l key owner ttl = (l', None) \<Longrightarrow> holder l' = holder l \<and> counter l' = counter l"
    and renew_granted:
      "renew e l ls ttl = (l', Some ls') \<Longrightarrow>
         (\<exists>x. holder l (LeaseKey ls) = Some (LeaseOwner ls, LeaseToken ls, x) \<and> time e < x)
         \<and> LeaseKey ls' = LeaseKey ls \<and> LeaseOwner ls' = LeaseOwner ls \<and> LeaseToken ls' = LeaseToken ls
         \<and> holder l' = (holder l)(LeaseKey ls \<mapsto> (LeaseOwner ls, LeaseToken ls, LeaseExpiresAt ls'))
         \<and> counter l' = counter l"
    and renew_refused:
      "renew e l ls ttl = (l', None) \<Longrightarrow> holder l' = holder l \<and> counter l' = counter l"
    and release_effect:
      "release e l ls = l' \<Longrightarrow> counter l' = counter l \<and>
         (holder l' = holder l
          \<or> (\<exists>x. holder l (LeaseKey ls) = Some (LeaseOwner ls, LeaseToken ls, x))
            \<and> holder l' = (holder l)(LeaseKey ls := None))"

text \<open>
  A history of calls by any clients: \<open>granted\<close> lists the leases handed out, latest first, and \<open>n\<close>
  counts the calls of \<open>acquire\<close>, which bounds the token counters.
\<close>

inductive lock_run ::
  "('e \<Rightarrow> 'l \<Rightarrow> string \<Rightarrow> string \<Rightarrow> duration \<Rightarrow> 'l \<times> lease option)
   \<Rightarrow> ('e \<Rightarrow> 'l \<Rightarrow> lease \<Rightarrow> duration \<Rightarrow> 'l \<times> lease option) \<Rightarrow> ('e \<Rightarrow> 'l \<Rightarrow> lease \<Rightarrow> 'l)
   \<Rightarrow> 'l \<Rightarrow> 'l \<Rightarrow> lease list \<Rightarrow> nat \<Rightarrow> bool"
  for acquire renew release l0 where
  start: "lock_run acquire renew release l0 l0 [] 0"
| acquire: "lock_run acquire renew release l0 l granted n \<Longrightarrow> acquire e l key owner ttl = (l', got) \<Longrightarrow>
     lock_run acquire renew release l0 l' (case got of None \<Rightarrow> granted | Some ls \<Rightarrow> ls # granted) (Suc n)"
| renew: "lock_run acquire renew release l0 l granted n \<Longrightarrow> renew e l ls ttl = (l', got) \<Longrightarrow>
     lock_run acquire renew release l0 l' (case got of None \<Rightarrow> granted | Some ls' \<Rightarrow> ls' # granted) n"
| release: "lock_run acquire renew release l0 l granted n \<Longrightarrow> release e l ls = l' \<Longrightarrow>
     lock_run acquire renew release l0 l' granted n"

text \<open>
  The invariant of such a history: the holder of a key has its newest token, every granted token was
  minted by the counter of its key, a token of a key belongs to one owner, and later grants of a key
  have later tokens.
\<close>

definition later_grant :: "lease \<Rightarrow> lease \<Rightarrow> bool" where
  "later_grant a b \<longleftrightarrow> (LeaseKey a = LeaseKey b \<longrightarrow> LeaseToken b \<le> LeaseToken a
     \<and> (LeaseOwner a \<noteq> LeaseOwner b \<longrightarrow> LeaseToken b < LeaseToken a))"

definition tokens_inv ::
  "('l \<Rightarrow> string \<Rightarrow> (string \<times> 64 word \<times> gtime) option) \<Rightarrow> ('l \<Rightarrow> string \<Rightarrow> 64 word)
     \<Rightarrow> 'l \<Rightarrow> lease list \<Rightarrow> nat \<Rightarrow> bool" where
  "tokens_inv holder counter l granted n \<longleftrightarrow>
     (\<forall>key. unat (counter l key) \<le> n)
     \<and> (\<forall>key o' t x. holder l key = Some (o', t, x) \<longrightarrow> t = counter l key \<and> 0 < t
          \<and> (\<forall>b \<in> set granted. LeaseKey b = key \<and> LeaseToken b = t \<longrightarrow> LeaseOwner b = o'))
     \<and> (\<forall>b \<in> set granted. 0 < LeaseToken b \<and> LeaseToken b \<le> counter l (LeaseKey b))
     \<and> sorted_wrt later_grant granted"

lemma word_Suc:
  fixes c :: "64 word"
  assumes "unat c \<le> n" and "Suc n < 2 ^ 64"
  shows "c < c + 1" and "unat (c + 1) = Suc (unat c)"
proof -
  from assms have "unat c + unat (1 :: 64 word) < 2 ^ LENGTH(64)" by simp
  then show "unat (c + 1) = Suc (unat c)" by (subst (asm) unat_add_lem) simp
  then show "c < c + 1" by (simp add: word_less_nat_alt)
qed

lemma tokens_inv_holder:
  assumes "tokens_inv holder counter l granted n" and "holder l key = Some (o', t, x)"
  shows "t = counter l key" "0 < t"
    "b \<in> set granted \<Longrightarrow> LeaseKey b = key \<Longrightarrow> LeaseToken b = t \<Longrightarrow> LeaseOwner b = o'"
  using assms unfolding tokens_inv_def by blast+

lemma map_le_Some: "f \<subseteq>\<^sub>m g \<Longrightarrow> f a = Some b \<Longrightarrow> g a = Some b"
  by (metis domI map_le_def)

lemma tokens_inv_shrink:
  assumes "tokens_inv holder counter l granted n" and "holder l' \<subseteq>\<^sub>m holder l"
    and "counter l' = counter l" and "n \<le> n'"
  shows "tokens_inv holder counter l' granted n'"
  using assms(1,4) unfolding tokens_inv_def assms(3)
  by (meson map_le_Some [OF assms(2)] order_trans)

text \<open>Handing the current holder its own lease again, by a reentrant acquire or a renewal.\<close>

lemma tokens_inv_again:
  assumes inv: "tokens_inv holder counter l granted n" and "n \<le> n'"
    and h: "holder l (LeaseKey ls) = Some (LeaseOwner ls, LeaseToken ls, x)"
    and h': "holder l' = (holder l)(LeaseKey ls \<mapsto> (LeaseOwner ls, LeaseToken ls, x'))"
    and c: "counter l' = counter l"
  shows "tokens_inv holder counter l' (ls # granted) n'"
proof -
  from inv h have tok: "LeaseToken ls = counter l (LeaseKey ls)" "0 < LeaseToken ls"
    and own: "\<And>b. b \<in> set granted \<Longrightarrow> LeaseKey b = LeaseKey ls \<Longrightarrow> LeaseToken b = LeaseToken ls
        \<Longrightarrow> LeaseOwner b = LeaseOwner ls"
    by (blast dest: tokens_inv_holder)+
  have "later_grant ls b" if "b \<in> set granted" for b
  proof -
    from inv that have "LeaseToken b \<le> counter l (LeaseKey b)" by (simp add: tokens_inv_def)
    with own [OF that] tok(1) show ?thesis by (auto simp: later_grant_def less_le)
  qed
  then show ?thesis
    using inv tok own \<open>n \<le> n'\<close> unfolding tokens_inv_def h' c
    by (auto split: if_splits intro: order_trans)
qed

text \<open>A fresh grant, with the next token of the key.\<close>

lemma tokens_inv_fresh:
  assumes inv: "tokens_inv holder counter l granted n" and n: "Suc n < 2 ^ 64"
    and tok: "LeaseToken ls = counter l (LeaseKey ls) + 1"
    and h': "holder l' = (holder l)(LeaseKey ls \<mapsto> (LeaseOwner ls, LeaseToken ls, x'))"
    and c: "counter l' = (counter l)(LeaseKey ls := counter l (LeaseKey ls) + 1)"
  shows "tokens_inv holder counter l' (ls # granted) (Suc n)"
proof -
  from inv have "unat (counter l (LeaseKey ls)) \<le> n" by (simp add: tokens_inv_def)
  note up = word_Suc [OF this n] and bound = this
  have old: "LeaseToken b < LeaseToken ls" if "b \<in> set granted" "LeaseKey b = LeaseKey ls" for b
  proof -
    from inv that have "LeaseToken b \<le> counter l (LeaseKey ls)" by (auto simp: tokens_inv_def)
    with up(1) tok show ?thesis by simp
  qed
  then have "\<forall>b \<in> set granted. later_grant ls b"
    by (auto simp: later_grant_def intro: less_imp_le)
  moreover have "0 < LeaseToken ls" using up(1) tok by (metis neq_iff not_less_zero word_not_simps(1))
  ultimately show ?thesis
    using inv tok old up bound unfolding tokens_inv_def h' c
    by (auto split: if_splits simp: le_SucI dest: less_imp_le intro: order_trans)
qed

context lease_service
begin

lemma lock_run_inv:
  assumes "lock_run acquire renew release l0 l granted n" and "n < 2 ^ 64"
    and "holder l0 = Map.empty" and "counter l0 = (\<lambda>_. 0)"
  shows "tokens_inv holder counter l granted n"
  using assms(1,2)
proof (induction rule: lock_run.induct)
  case start
  with assms(3,4) show ?case by (simp add: tokens_inv_def)
next
  case (acquire l granted n e key owner ttl l' got)
  then have inv: "tokens_inv holder counter l granted n" by simp
  show ?case
  proof (cases got)
    case None
    with acquire_refused acquire.hyps(2) inv show ?thesis by (auto intro: tokens_inv_shrink)
  next
    case (Some ls)
    with acquire_granted acquire.hyps(2) have g: "LeaseKey ls = key" "LeaseOwner ls = owner"
      "holder l' = (holder l)(key \<mapsto> (owner, LeaseToken ls, LeaseExpiresAt ls))"
      "(\<exists>x. holder l key = Some (owner, LeaseToken ls, x)) \<and> counter l' = counter l
       \<or> LeaseToken ls = counter l key + 1 \<and> counter l' = (counter l)(key := counter l key + 1)"
      by blast+
    from g(4) show ?thesis
      using tokens_inv_again [OF inv, of "Suc n" ls] tokens_inv_fresh [OF inv acquire.prems, of ls] g Some
      by auto
  qed
next
  case (renew l granted n e ls ttl l' got)
  then have inv: "tokens_inv holder counter l granted n" by simp
  show ?case
  proof (cases got)
    case None
    with renew_refused renew.hyps(2) inv show ?thesis by (auto intro: tokens_inv_shrink)
  next
    case (Some ls')
    with renew_granted renew.hyps(2) have
      "\<exists>x. holder l (LeaseKey ls') = Some (LeaseOwner ls', LeaseToken ls', x)"
      "holder l' = (holder l)(LeaseKey ls' \<mapsto> (LeaseOwner ls', LeaseToken ls', LeaseExpiresAt ls'))"
      "counter l' = counter l"
      by (metis (lifting))+
    with tokens_inv_again [OF inv, of n ls'] Some show ?thesis by auto
  qed
next
  case (release l granted n e ls l')
  then have inv: "tokens_inv holder counter l granted n" by simp
  from release_effect [OF release.hyps(2)] have "counter l' = counter l" "holder l' \<subseteq>\<^sub>m holder l"
    by (auto simp: map_le_def split: if_splits)
  then show ?case by (blast intro: tokens_inv_shrink [OF inv])
qed

text \<open>While a lease is live no other owner is granted the key.\<close>

lemma acquire_excludes:
  assumes "holder l key = Some (o', t, x)" and "time e < x" and "o' \<noteq> owner"
  shows "snd (acquire e l key owner ttl) = None"
proof (rule ccontr)
  assume "snd (acquire e l key owner ttl) \<noteq> None"
  then obtain l' ls where "acquire e l key owner ttl = (l', Some ls)"
    by (metis option.exhaust prod.collapse)
  from acquire_granted [OF this] assms show False by auto
qed

end

section \<open>The in-memory locker meets the contract\<close>

definition granted_of :: "go_error + lease option \<Rightarrow> lease option" where
  "granted_of res = (case res of Inl _ \<Rightarrow> None | Inr x \<Rightarrow> x)"

definition inmem_acquire ::
  "gctx \<times> gtime \<Rightarrow> locker \<Rightarrow> string \<Rightarrow> string \<Rightarrow> duration \<Rightarrow> locker \<times> lease option" where
  "inmem_acquire e l key owner ttl =
     (case Locker_Acquire (fst e) (snd e) l key owner ttl of (l', res) \<Rightarrow> (l', granted_of res))"

definition inmem_renew :: "gctx \<times> gtime \<Rightarrow> locker \<Rightarrow> lease \<Rightarrow> duration \<Rightarrow> locker \<times> lease option" where
  "inmem_renew e l ls ttl =
     (case Locker_Renew (fst e) (snd e) l ls ttl of (l', res) \<Rightarrow> (l', granted_of res))"

definition inmem_release :: "gctx \<times> gtime \<Rightarrow> locker \<Rightarrow> lease \<Rightarrow> locker" where
  "inmem_release e l ls = fst (Locker_Release (fst e) l ls)"

definition holder_of :: "locker \<Rightarrow> string \<Rightarrow> (string \<times> 64 word \<times> gtime) option" where
  "holder_of l key = map_option (\<lambda>h. (EntryOwner h, EntryToken h, EntryExpiresAt h)) (Leases l key)"

interpretation inmem_locker:
  lease_service inmem_acquire inmem_renew inmem_release snd holder_of counter_of
proof unfold_locales
  fix e l key owner ttl l' ls
  assume "inmem_acquire e l key owner ttl = (l', Some ls)"
  then show "LeaseKey ls = key \<and> LeaseOwner ls = owner
      \<and> holder_of l' = (holder_of l)(key \<mapsto> (owner, LeaseToken ls, LeaseExpiresAt ls))
      \<and> ((\<exists>x. holder_of l key = Some (owner, LeaseToken ls, x) \<and> snd e < x) \<and> counter_of l' = counter_of l
         \<or> (\<forall>o' t x. holder_of l key = Some (o', t, x) \<longrightarrow> x \<le> snd e)
           \<and> LeaseToken ls = counter_of l key + 1
           \<and> counter_of l' = (counter_of l)(key := counter_of l key + 1))"
    by (auto simp: inmem_acquire_def locker_defs granted_of_def holder_of_def counter_of_def fun_eq_iff
        split: option.splits if_splits)
next
  fix e l key owner ttl l'
  assume "inmem_acquire e l key owner ttl = (l', None)"
  then show "holder_of l' = holder_of l \<and> counter_of l' = counter_of l"
    by (auto simp: inmem_acquire_def locker_defs granted_of_def split: option.splits if_splits)
next
  fix e l ls ttl l' ls'
  assume "inmem_renew e l ls ttl = (l', Some ls')"
  then show "(\<exists>x. holder_of l (LeaseKey ls) = Some (LeaseOwner ls, LeaseToken ls, x) \<and> snd e < x)
      \<and> LeaseKey ls' = LeaseKey ls \<and> LeaseOwner ls' = LeaseOwner ls \<and> LeaseToken ls' = LeaseToken ls
      \<and> holder_of l' = (holder_of l)(LeaseKey ls \<mapsto> (LeaseOwner ls, LeaseToken ls, LeaseExpiresAt ls'))
      \<and> counter_of l' = counter_of l"
    by (auto simp: inmem_renew_def locker_defs granted_of_def holder_of_def counter_of_def fun_eq_iff
        split: option.splits if_splits)
next
  fix e l ls ttl l'
  assume "inmem_renew e l ls ttl = (l', None)"
  then show "holder_of l' = holder_of l \<and> counter_of l' = counter_of l"
    by (auto simp: inmem_renew_def locker_defs granted_of_def split: option.splits if_splits)
next
  fix e l ls l'
  assume "inmem_release e l ls = l'"
  then show "counter_of l' = counter_of l \<and> (holder_of l' = holder_of l
      \<or> (\<exists>x. holder_of l (LeaseKey ls) = Some (LeaseOwner ls, LeaseToken ls, x))
        \<and> holder_of l' = (holder_of l)(LeaseKey ls := None))"
    by (auto simp: inmem_release_def locker_defs holder_of_def counter_of_def fun_eq_iff
        split: option.splits if_splits)
qed

lemma NewLocker_start [simp]: "holder_of NewLocker = Map.empty" "counter_of NewLocker = (\<lambda>_. 0)"
  by (simp_all add: fun_eq_iff NewLocker_def holder_of_def counter_of_def)

abbreviation locker_run :: "locker \<Rightarrow> lease list \<Rightarrow> nat \<Rightarrow> bool" where
  "locker_run \<equiv> lock_run inmem_acquire inmem_renew inmem_release NewLocker"

lemma locker_run_later:
  assumes "locker_run l granted n" and "n < 2 ^ 64" and "i < j" and "j < length granted"
  shows "later_grant (granted ! i) (granted ! j)"
  using inmem_locker.lock_run_inv [OF assms(1,2)] assms(3,4)
  by (simp add: tokens_inv_def sorted_wrt_iff_nth_less)

section \<open>Properties\<close>

text \<open>
  Fencing tokens order the holders of a key. In any history of acquires, renewals and releases of
  fewer than \<open>2 ^ 64\<close> acquires, of two leases granted for one key the later one never has a smaller
  token, and it has a strictly greater one when the owner changed.
\<close>

theorem lease_tokens_increase:
  assumes "locker_run l granted n" and "n < 2 ^ 64" and "i < j" and "j < length granted"
    and "LeaseKey (granted ! i) = LeaseKey (granted ! j)"
  shows "LeaseToken (granted ! j) \<le> LeaseToken (granted ! i)
     \<and> (LeaseOwner (granted ! i) \<noteq> LeaseOwner (granted ! j) \<longrightarrow>
          LeaseToken (granted ! j) < LeaseToken (granted ! i))"
  using locker_run_later [OF assms(1-4)] assms(5) by (simp add: later_grant_def)

text \<open>Two owners take the run \<open>r\<close> in turn, the second after the first lease ran out.\<close>

definition sample_lease :: "string \<Rightarrow> 64 word \<Rightarrow> gtime \<Rightarrow> lease" where
  "sample_lease owner token t = \<lparr>LeaseKey = ''run:r'', LeaseOwner = owner, LeaseToken = token, LeaseExpiresAt = t\<rparr>"

definition sample_locker :: "string \<Rightarrow> 64 word \<Rightarrow> gtime \<Rightarrow> locker" where
  "sample_locker owner token t = \<lparr>Leases = [''run:r'' \<mapsto> \<lparr>EntryOwner = owner, EntryToken = token, EntryExpiresAt = t\<rparr>],
     Counters = [''run:r'' \<mapsto> token]\<rparr>"

lemma sample_locker_run:
  "locker_run (sample_locker ''w2'' 2 30) [sample_lease ''w2'' 2 30, sample_lease ''w1'' 1 10] 2"
proof -
  have a: "inmem_acquire (Background, 0) NewLocker ''run:r'' ''w1'' 10 = (sample_locker ''w1'' 1 10, Some (sample_lease ''w1'' 1 10))"
    and b: "inmem_acquire (Background, 20) (sample_locker ''w1'' 1 10) ''run:r'' ''w2'' 10
      = (sample_locker ''w2'' 2 30, Some (sample_lease ''w2'' 2 30))"
    by (simp_all add: inmem_acquire_def locker_defs granted_of_def counter_of_def NewLocker_def
        Background_def sample_locker_def sample_lease_def)
  have "locker_run (sample_locker ''w1'' 1 10) [sample_lease ''w1'' 1 10] 1"
    using lock_run.acquire [where acquire = inmem_acquire, OF lock_run.start a] by simp
  from lock_run.acquire [where acquire = inmem_acquire, OF this b]
  show ?thesis by (simp add: numeral_2_eq_2)
qed

theorem lease_tokens_increase_witness:
  "LeaseToken (sample_lease ''w1'' 1 10) < LeaseToken (sample_lease ''w2'' 2 30)"
  using lease_tokens_increase [OF sample_locker_run, of 0 1] by (simp add: sample_lease_def)

text \<open>
  Mutual exclusion. While an owner's lease on a key has not run out, no other owner is granted the
  key, and nobody can renew or release it without the holder's exact owner and token.
\<close>

theorem live_lease_excludes:
  assumes "Leases l key = Some held" and "now < EntryExpiresAt held"
  shows "(owner \<noteq> EntryOwner held \<longrightarrow>
      (\<nexists>l' ls. Locker_Acquire ctx now l key owner ttl = (l', Inr (Some ls)))
      \<and> fst (Locker_Acquire ctx now l key owner ttl) = l)
    \<and> (LeaseKey ls = key \<and> (LeaseOwner ls \<noteq> EntryOwner held \<or> LeaseToken ls \<noteq> EntryToken held) \<longrightarrow>
      Locker_Renew ctx now l ls ttl \<in> {l} \<times> (range Inl \<union> {Inr None})
      \<and> fst (Locker_Release ctx l ls) = l \<and> snd (Locker_Release ctx l ls) \<noteq> None)"
  using assms by (auto simp: locker_defs split: option.splits)

theorem live_lease_excludes_witness:
  "Locker_Acquire Background 5 (sample_locker ''w1'' 1 10) ''run:r'' ''w2'' 10
     = (sample_locker ''w1'' 1 10, Inr None)
   \<and> fst (Locker_Release Background (sample_locker ''w1'' 1 10) (sample_lease ''w1'' 7 10))
     = sample_locker ''w1'' 1 10"
proof -
  have "Leases (sample_locker ''w1'' 1 10) ''run:r'' =
      Some \<lparr>EntryOwner = ''w1'', EntryToken = 1, EntryExpiresAt = 10\<rparr>"
    by (simp add: sample_locker_def)
  from live_lease_excludes [OF this, of 5 "''w2''" Background 10 "sample_lease ''w1'' 7 10"]
  show ?thesis
    by (auto simp: sample_lease_def sample_locker_def locker_defs Background_def)
qed

text \<open>
  Fencing. When two owners were granted the lease of one key and the later one has saved a run with its token, then whatever
  fenced saves follow, a save of that run with the earlier token fails and leaves the store as it is.
\<close>

lemma superseded_token_rejected:
  assumes "locker_run l granted n" and "n < 2 ^ 64" and "i < j" and "j < length granted"
    and "LeaseKey (granted ! i) = LeaseKey (granted ! j)"
    and "LeaseOwner (granted ! i) \<noteq> LeaseOwner (granted ! j)"
    and "Repository_SaveFenced ctx now r (Some s) v (LeaseToken (granted ! i)) = (r1, t, None)"
    and "RunID s = runID" and "RunID s' = runID"
    and "Repository_SaveFenced ctx' now' (fst (run_saves fenced_save r1 attempts)) (Some s') v'
           (LeaseToken (granted ! j)) = (r2, t', err)"
  shows "err \<noteq> None \<and> r2 = fst (run_saves fenced_save r1 attempts)"
proof -
  let ?rm = "fst (run_saves fenced_save r1 attempts)"
  let ?old = "LeaseToken (granted ! j)" and ?new = "LeaseToken (granted ! i)"
  have lt: "?old < ?new"
    using locker_run_later [OF assms(1-4)] assms(5,6) by (simp add: later_grant_def)
  have "fence_of r1 runID = ?new"
    using inmem_fenced.fence_accepted [of "(ctx, now, ?new)" r s v r1 t] assms(7,8)
    by (simp add: fenced_save_def)
  with inmem_fenced.run_saves_fence [of r1 runID attempts] have fence: "?new \<le> fence_of ?rm runID"
    by simp
  have "err \<noteq> None"
  proof
    assume "err = None"
    with inmem_fenced.fence_accepted [of "(ctx', now', ?old)" ?rm s' v' r2 t'] assms(9,10)
    have "fence_of ?rm runID \<le> ?old" by (simp add: fenced_save_def)
    with fence lt show False by simp
  qed
  with assms(10) show ?thesis by (auto dest: Repository_SaveFenced_failed)
qed

end
