(* ===== verification/Run_Reaper.thy ===== *)
theory Run_Reaper
  imports Run_Checkpoint Locker
begin

text \<open>
  Run leases at work: \<^verbatim>\<open>lease.go\<close> of the framework, with \<^verbatim>\<open>saveRunSnapshotWithRetry\<close> of \<^verbatim>\<open>framework_workflow.go\<close> and the execution slots of
  \<^verbatim>\<open>framework_continue.go\<close>. A worker holds the lease of the run it executes and renews it; a sweep takes the lease of a run nobody
  holds and fails the run. Emitted events and log lines are left out.
\<close>

section \<open>The framework\<close>

text \<open>What of a \<^verbatim>\<open>Framework\<close> the leases use; \<open>FwListStale\<close> is whether the repository implements \<^verbatim>\<open>StaleRepository\<close>.\<close>

record lease_framework =
  FwRunner :: runner
  FwOwner :: string
  FwTTL :: duration
  FwGrace :: duration
  FwScenario :: string
  FwListStale :: bool
  FwCodec :: checkpoint_codec

definition ErrRunLeaseLost :: go_error where
  "ErrRunLeaseLost = Errorf ''agentflow: run lease lost'' [] None"

definition ErrRunInProgress :: go_error where
  "ErrRunInProgress = Errorf ''runtime: run is already running'' [] None"

definition ErrResumeInProgress :: go_error where
  "ErrResumeInProgress = Errorf ''humangate: resume already in progress for run'' [] None"

definition defaultRunLeaseTTL :: duration where
  "defaultRunLeaseTTL = 30 * 1000000000"

definition runLeaseKey :: "string \<Rightarrow> string" where
  "runLeaseKey runID = ''run:'' @ runID"

definition reaperGrace :: "lease_framework \<Rightarrow> duration" where
  "reaperGrace F = (if 0 < FwGrace F then FwGrace F else if 0 < FwTTL F then FwTTL F else defaultRunLeaseTTL)"

definition reaper_owner :: "lease_framework \<Rightarrow> string" where
  "reaper_owner F = FwOwner F @ '':reaper''"

definition VarRunLeaseOwner :: string where
  "VarRunLeaseOwner = ''run_lease_owner''"

definition VarRunErrorMessage :: string where
  "VarRunErrorMessage = ''run_error_message''"

definition variableJSONString :: "checkpoint_codec \<Rightarrow> (string \<times> bytes) list \<Rightarrow> string \<Rightarrow> string" where
  "variableJSONString K vars key = (case map_of vars key of
       None \<Rightarrow> []
     | Some raw \<Rightarrow> (case CkDecText K raw of None \<Rightarrow> raw | Some value \<Rightarrow> value))"

section \<open>Saving with retries\<close>

text \<open>\<^verbatim>\<open>runNotRunningError\<close> and \<^verbatim>\<open>errors.As\<close> for it: the text is only made by this type.\<close>

definition runNotRunningError :: "string \<Rightarrow> run_status \<Rightarrow> go_error" where
  "runNotRunningError runID st = Errorf ''agentflow: cannot complete run %q in status %s'' [runID, status_text st] None"

fun is_not_running :: "go_error \<Rightarrow> bool" where
  "is_not_running (Errorf f args None) = (f = ''agentflow: cannot complete run %q in status %s'')"
| "is_not_running (Errorf f args (Some e)) = is_not_running e"
| "is_not_running e = False"

definition framework_saveRunSnapshot ::
  "runner \<Rightarrow> gctx \<Rightarrow> run_snapshot \<Rightarrow> int \<Rightarrow> world \<Rightarrow> world \<times> run_snapshot option \<times> go_error option" where
  "framework_saveRunSnapshot R ctx snapshot expectedVersion w =
     (let (m, w1) = tick (Fenced R) w;
          (r, s, err) = SaveWithFence (Fenced R) (at_moment m ctx) (Now m) (Repo w1) (Some snapshot) expectedVersion
      in (w1\<lparr>Repo := r\<rparr>, s, err))"

fun framework_attempts ::
  "nat \<Rightarrow> runner \<Rightarrow> gctx \<Rightarrow> string \<Rightarrow> 'a mutation \<Rightarrow> 'a \<Rightarrow> world \<Rightarrow> world \<times> 'a \<times> (go_error + run_snapshot)" where
  "framework_attempts 0 R ctx runID mutate a w =
     (w, a, Inl (Errorf ''agentflow: failed to save snapshot %q after stale retries'' [runID] None))"
| "framework_attempts (Suc n) R ctx runID mutate a w =
     (case load_run R ctx runID w of
        (w1, Inl e) \<Rightarrow> (w1, a, Inl e)
      | (w1, Inr snapshot) \<Rightarrow>
          (case mutate a snapshot of
             (a1, Inl e) \<Rightarrow> (w1, a1, Inl e)
           | (a1, Inr s1) \<Rightarrow>
               (case framework_saveRunSnapshot R ctx s1 (Version s1) w1 of
                  (w2, s2, None) \<Rightarrow> (w2, a1, Inr (case s2 of Some s \<Rightarrow> s | None \<Rightarrow> s1))
                | (w2, s2, Some e) \<Rightarrow>
                    if errors_is e ErrStaleSnapshot then framework_attempts n R ctx runID mutate a1 w2
                    else (w2, a1, Inl e))))"

definition saveRunSnapshotWithRetry ::
  "runner \<Rightarrow> gctx \<Rightarrow> string \<Rightarrow> 'a mutation \<Rightarrow> 'a \<Rightarrow> world \<Rightarrow> world \<times> 'a \<times> (go_error + run_snapshot)" where
  "saveRunSnapshotWithRetry R ctx runID mutate a w = framework_attempts 5 R ctx runID mutate a w"

section \<open>Abandoned runs\<close>

text \<open>The mutation of \<^verbatim>\<open>markRunAbandoned\<close>; the captured flag says that an unconfirmed checkpoint was dropped.\<close>

definition abandon :: "checkpoint_codec \<Rightarrow> string \<Rightarrow> bool mutation" where
  "abandon K runID unconfirmed s =
     (if Status s \<noteq> RunStatusRunning then (unconfirmed, Inl (runNotRunningError runID (Status s)))
      else (let (s1, cleared) = ClearUnconfirmedCheckpoint K (made_vars (s\<lparr>Status := RunStatusFailed\<rparr>)) in
            if cleared then (True, Inr (set_var VarRunErrorMessage (CHR 0x22 # ''worker lost (unconfirmed pause checkpoint discarded)'' @ [CHR 0x22]) s1))
            else (unconfirmed, Inr (set_var VarRunErrorMessage (CHR 0x22 # ''worker lost'' @ [CHR 0x22]) s1))))"

definition markRunAbandoned :: "lease_framework \<Rightarrow> gctx \<Rightarrow> string \<Rightarrow> world \<Rightarrow> world \<times> (go_error + bool)" where
  "markRunAbandoned F ctx runID w =
     (case saveRunSnapshotWithRetry (FwRunner F) ctx runID (abandon (FwCodec F) runID) False w of
        (w1, _, Inl e) \<Rightarrow> (w1, if is_not_running e then Inr False else Inl e)
      | (w1, _, Inr _) \<Rightarrow> (w1, Inr True))"

text \<open>
  What happens around the probe of one run: the clocks and contexts of its calls, and what others do to the locker before the probe
  and while the run is marked.
\<close>

record probe_env =
  ProbeSince :: gtime
  ProbeNow :: gtime
  ProbeErr :: "go_error option"
  ReleaseErr :: "go_error option"
  BeforeProbe :: "locker \<Rightarrow> locker"
  DuringMark :: "locker \<Rightarrow> locker"

text \<open>Acquire the lease as the reaper, mark the run under the new token, release the lease.\<close>

definition probe_and_mark ::
  "lease_framework \<Rightarrow> gctx \<Rightarrow> string \<Rightarrow> probe_env \<Rightarrow> locker \<Rightarrow> world \<Rightarrow> locker \<times> world \<times> (go_error + bool)" where
  "probe_and_mark F ctx runID v l w =
     (case Locker_Acquire (ctx\<lparr>CtxErr := ProbeErr v\<rparr>) (ProbeNow v) (BeforeProbe v l) (runLeaseKey runID) (reaper_owner F) (FwTTL F) of
        (l1, Inl e) \<Rightarrow> (l1, w, Inl e)
      | (l1, Inr None) \<Rightarrow> (l1, w, Inr False)
      | (l1, Inr (Some lease)) \<Rightarrow>
          (case markRunAbandoned F (ContextWithFenceToken ctx (LeaseToken lease)) runID w of
             (w1, res) \<Rightarrow> (fst (Locker_Release (ctx\<lparr>CtxErr := ReleaseErr v\<rparr>) (DuringMark v l1) lease), w1, res)))"

definition lease_managed :: "lease_framework \<Rightarrow> run_snapshot \<Rightarrow> bool" where
  "lease_managed F s \<longleftrightarrow> variableJSONString (FwCodec F) (variables_of s) VarRunLeaseOwner \<noteq> []"

definition recently_updated :: "lease_framework \<Rightarrow> gtime \<Rightarrow> run_snapshot \<Rightarrow> bool" where
  "recently_updated F now s \<longleftrightarrow> UpdatedAt s \<noteq> 0 \<and> now - UpdatedAt s < reaperGrace F"

definition reapZombieRun ::
  "lease_framework \<Rightarrow> gctx \<Rightarrow> string \<Rightarrow> probe_env \<Rightarrow> locker \<Rightarrow> world \<Rightarrow> locker \<times> world \<times> (go_error + bool)" where
  "reapZombieRun F ctx runID v l w =
     (case load_run (FwRunner F) ctx runID w of
        (w1, Inl e) \<Rightarrow> (l, w1, Inl e)
      | (w1, Inr snapshot) \<Rightarrow>
          if Status snapshot \<noteq> RunStatusRunning then (l, w1, Inr False)
          else if \<not> lease_managed F snapshot then (l, w1, Inr False)
          else if recently_updated F (ProbeSince v) snapshot then (l, w1, Inr False)
          else probe_and_mark F ctx runID v l w1)"

text \<open>The loop of the sweep; \<open>envs\<close> has the surroundings of each step.\<close>

fun sweep ::
  "lease_framework \<Rightarrow> gctx \<Rightarrow> bool \<Rightarrow> run_snapshot list \<Rightarrow> (nat \<Rightarrow> probe_env) \<Rightarrow> string list \<Rightarrow> locker \<Rightarrow> world
     \<Rightarrow> locker \<times> world \<times> string list \<times> go_error option" where
  "sweep F ctx graceApplied [] envs marked l w = (l, w, marked, None)"
| "sweep F ctx graceApplied (s # ss) envs marked l w =
     (if \<not> lease_managed F s \<or> \<not> graceApplied \<and> recently_updated F (ProbeSince (envs (length ss))) s
      then sweep F ctx graceApplied ss envs marked l w
      else (case probe_and_mark F ctx (RunID s) (envs (length ss)) l w of
          (l1, w1, Inl e) \<Rightarrow> (l1, w1, marked, Some e)
        | (l1, w1, Inr reaped) \<Rightarrow> sweep F ctx graceApplied ss envs (if reaped then marked @ [RunID s] else marked) l1 w1))"

definition abandoned_filter :: "lease_framework \<Rightarrow> gctx \<Rightarrow> list_filter" where
  "abandoned_filter F ctx = EmptyListFilter\<lparr>FilterScenarioName := FwScenario F, FilterStatus := RunStatusRunning,
     FilterTenantID := (case PrincipalFromContext ctx of None \<Rightarrow> [] | Some p \<Rightarrow> ScopeTenantID (PrincipalScope p))\<rparr>"

definition list_running :: "lease_framework \<Rightarrow> string list \<Rightarrow> gctx \<Rightarrow> world \<Rightarrow> world \<times> (go_error + run_snapshot list)" where
  "list_running F order ctx w =
     (let (m, w1) = tick (Fenced (FwRunner F)) w; flt = abandoned_filter F ctx in
      (w1, if FwListStale F then Repository_ListStale order (at_moment m ctx) (Now m) (Repo w1) flt (reaperGrace F)
           else Repository_List order (at_moment m ctx) (Repo w1) flt))"

text \<open>\<^verbatim>\<open>MarkAbandonedRuns\<close> of a framework with a locker; \<open>order\<close> is the order in which the repository lists.\<close>

definition MarkAbandonedRuns ::
  "lease_framework \<Rightarrow> string list \<Rightarrow> gctx \<Rightarrow> (nat \<Rightarrow> probe_env) \<Rightarrow> locker \<Rightarrow> world \<Rightarrow> locker \<times> world \<times> string list \<times> go_error option" where
  "MarkAbandonedRuns F order ctx envs l w =
     (case list_running F order ctx w of
        (w1, Inl e) \<Rightarrow> (l, w1, [], Some e)
      | (w1, Inr snapshots) \<Rightarrow> sweep F ctx (FwListStale F) (filter (\<lambda>s. AuthorizeTenant ctx s = None) snapshots) envs [] l w1)"

section \<open>Holding a lease\<close>

text \<open>
  The renewal loop of \<^verbatim>\<open>holdRunLease\<close>: one element of the list per tick of its timer, giving what \<^verbatim>\<open>Renew\<close> answers for the lease held then.
  The result is the lease held last and the error the run was aborted with.
\<close>

definition renewInterval :: "duration \<Rightarrow> duration" where
  "renewInterval ttl = (let interval = ttl div 3 in if interval < 1000000 then 1000000 else interval)"

definition maxTransientFailures :: "duration \<Rightarrow> int" where
  "maxTransientFailures ttl = (let n = ttl div renewInterval ttl in if n < 1 then 1 else n)"

definition lease_lost :: "string \<Rightarrow> go_error" where
  "lease_lost runID = Errorf ''%w: run %q'' [runID] (Some ErrRunLeaseLost)"

fun renewal :: "duration \<Rightarrow> string \<Rightarrow> int \<Rightarrow> lease \<Rightarrow> (lease \<Rightarrow> go_error + lease option) list \<Rightarrow> lease \<times> go_error option" where
  "renewal ttl runID failures held [] = (held, None)"
| "renewal ttl runID failures held (answer # answers) = (case answer held of
       Inr (Some renewed) \<Rightarrow> renewal ttl runID 0 renewed answers
     | Inr None \<Rightarrow> (held, Some (lease_lost runID))
     | Inl e \<Rightarrow> if maxTransientFailures ttl \<le> failures + 1 then (held, Some (lease_lost runID))
         else renewal ttl runID (failures + 1) held answers)"

text \<open>The first part of \<^verbatim>\<open>holdRunLease\<close>: the lease and the context the run executes under, without the owner stamp.\<close>

definition hold_lease :: "lease_framework \<Rightarrow> gctx \<Rightarrow> gtime \<Rightarrow> string \<Rightarrow> locker \<Rightarrow> locker \<times> (go_error + lease \<times> gctx)" where
  "hold_lease F ctx now runID l =
     (case Locker_Acquire ctx now l (runLeaseKey runID) (FwOwner F) (FwTTL F) of
        (l1, Inl e) \<Rightarrow> (l1, Inl (Errorf ''agentflow: acquire run lease for %q: %w'' [runID] (Some e)))
      | (l1, Inr None) \<Rightarrow> (l1, Inl (Errorf ''agentflow: run %q is leased by another worker: %w'' [runID] (Some ErrRunInProgress)))
      | (l1, Inr (Some lease)) \<Rightarrow> (l1, Inr (lease, ContextWithFenceToken ctx (LeaseToken lease))))"

text \<open>The release function: the last lease held is given back; an error is only logged.\<close>

definition release_lease :: "gctx \<Rightarrow> lease \<Rightarrow> locker \<Rightarrow> locker" where
  "release_lease releaseCtx held l = fst (Locker_Release releaseCtx l held)"

definition mapLeaseLostError :: "go_error option \<Rightarrow> go_error option \<Rightarrow> go_error option" where
  "mapLeaseLostError cause err = (case err of
       None \<Rightarrow> None
     | Some e \<Rightarrow> (case cause of
           Some c \<Rightarrow> if errors_is c ErrRunLeaseLost then Some c else Some e
         | None \<Rightarrow> Some e))"

section \<open>Execution slots\<close>

text \<open>The runs this process executes; the release function of a slot is \<open>leaveExecution\<close>.\<close>

definition tryEnterExecution :: "string \<Rightarrow> bool \<Rightarrow> string set \<Rightarrow> string set \<times> go_error option" where
  "tryEnterExecution runID resume slots =
     (if runID \<in> slots
      then (slots, Some (Errorf ''agentflow: run %q: %w'' [runID] (Some (if resume then ErrResumeInProgress else ErrRunInProgress))))
      else (insert runID slots, None))"

definition leaveExecution :: "string \<Rightarrow> string set \<Rightarrow> string set" where
  "leaveExecution runID slots = slots - {runID}"

definition acquireRunLease :: "lease_framework option \<Rightarrow> gctx \<Rightarrow> gtime \<Rightarrow> string \<Rightarrow> string set \<Rightarrow> locker
     \<Rightarrow> string set \<times> locker \<times> (go_error + lease option \<times> gctx)" where
  "acquireRunLease F ctx now runID slots l =
     (case tryEnterExecution runID False slots of
        (slots1, Some e) \<Rightarrow> (slots1, l, Inl e)
      | (slots1, None) \<Rightarrow>
          (case F of
             None \<Rightarrow> (slots1, l, Inr (None, ctx))
           | Some F' \<Rightarrow>
               (case hold_lease F' ctx now runID l of
                  (l1, Inl e) \<Rightarrow> (leaveExecution runID slots1, l1, Inl e)
                | (l1, Inr (lease, runCtx)) \<Rightarrow> (slots1, l1, Inr (Some lease, runCtx)))))"

section \<open>Marking a run is one atomic change\<close>

lemma framework_attempts_save:
  "framework_attempts n R ctx runID mutate a w = (w', a', res) \<Longrightarrow>
     \<exists>err. save_attempts n R ctx runID mutate a w = (w', a', err) \<and> (err = None \<longleftrightarrow> (\<exists>s. res = Inr s))"
proof (induction n arbitrary: a w)
  case (Suc n)
  obtain w1 l where l: "load_run R ctx runID w = (w1, l)" by fastforce
  show ?case
  proof (cases l)
    case (Inl e)
    with Suc.prems l show ?thesis by auto
  next
    case s: (Inr s)
    obtain a1 m where m: "mutate a s = (a1, m)" by fastforce
    show ?thesis
    proof (cases m)
      case (Inl e)
      with Suc.prems l s m show ?thesis by auto
    next
      case s1: (Inr s1)
      obtain w2 s2 e where f: "framework_saveRunSnapshot R ctx s1 (Version s1) w1 = (w2, s2, e)" by (metis prod_cases3)
      then have sv: "saveRunSnapshot R ctx s1 (Version s1) w1 = (w2, e)"
        by (auto simp: framework_saveRunSnapshot_def saveRunSnapshot_def Let_def case_prod_unfold simp del: tick.simps)
      from Suc l s m s1 f sv show ?thesis by (auto split: option.splits if_splits)
    qed
  qed
qed auto

lemma save_attempts_bounded: "save_attempts n R ctx runID mutate a w = (w', a', err) \<Longrightarrow> bounded_moments w \<Longrightarrow> bounded_moments w'"
proof (induction n arbitrary: a w)
  case (Suc n)
  obtain w1 l where l: "load_run R ctx runID w = (w1, l)" by fastforce
  note b1 = load_run_by_others(2) [OF l Suc.prems(2)]
  show ?case
  proof (cases l)
    case (Inl e)
    with Suc.prems(1) l b1 show ?thesis by auto
  next
    case s: (Inr s)
    obtain a1 m where m: "mutate a s = (a1, m)" by fastforce
    show ?thesis
    proof (cases m)
      case (Inl e)
      with Suc.prems(1) l s m b1 show ?thesis by auto
    next
      case s1: (Inr s1)
      obtain w2 e where f: "saveRunSnapshot R ctx s1 (Version s1) w1 = (w2, e)" by fastforce
      obtain mm wt where t: "tick (Fenced R) w1 = (mm, wt)" by fastforce
      have "bounded_moments w2" using f t tick_by_others(2) [OF t b1]
        by (auto simp: saveRunSnapshot_def bounded_moments_def case_prod_unfold Let_def simp del: tick.simps)
      with Suc l s m s1 f show ?thesis by (auto split: option.splits if_splits)
    qed
  qed
qed auto

text \<open>What marking does to a run: a running one fails, and a checkpoint nobody confirmed is dropped.\<close>

definition abandoned :: "checkpoint_codec \<Rightarrow> run_snapshot \<Rightarrow> run_snapshot \<Rightarrow> bool" where
  "abandoned K s s' \<longleftrightarrow> Status s = RunStatusRunning \<and> Status s' = RunStatusFailed \<and> RunID s' = RunID s \<and> StepOutputs s' = StepOutputs s \<and>
     (\<forall>k. k \<noteq> VarRunErrorMessage \<longrightarrow> map_of (variables_of s') k =
        (if checkpointBoolVar K (variables_of s) checkpointPendingPauseVar \<and> k \<in> checkpoint_names then None else map_of (variables_of s) k))"

lemma outputs_kept: "StepOutputs (fold delete_var keys s) = StepOutputs s" "StepOutputs (set_var key raw s) = StepOutputs s"
  "StepOutputs (delete_var key s) = StepOutputs s"
proof -
  show d: "StepOutputs (delete_var key s) = StepOutputs s" for key s by (simp add: delete_var_def split: option.split)
  show "StepOutputs (fold delete_var keys s) = StepOutputs s" by (induction keys arbitrary: s) (simp_all add: d)
qed (simp add: set_var_def)

lemma made_kept [simp]: "RunID (made_vars s) = RunID s" "Version (made_vars s) = Version s" "Status (made_vars s) = Status s"
  "StepOutputs (made_vars s) = StepOutputs s"
  by (simp_all add: made_vars_def)

lemma variables_of_status [simp]: "variables_of (s\<lparr>Status := st\<rparr>) = variables_of s"
  by (simp add: variables_of_def)

lemma abandon_abandoned:
  assumes "abandon K runID a s = (a', Inr s')"
  shows "abandoned K s s'" and "RunID s' = RunID s" and "Version s' = Version s"
proof -
  let ?s = "made_vars (s\<lparr>Status := RunStatusFailed\<rparr>)"
  let ?c = "clearCheckpointVariables (clearHumanAmendment ?s)"
  have c: "RunID ?c = RunID s" "Version ?c = Version s" "Status ?c = RunStatusFailed" "StepOutputs ?c = StepOutputs s"
    "map_of (variables_of ?c) k = (if k \<in> checkpoint_names then None else map_of (variables_of s) k)" for k
    using kept_by_deletes [of "checkpointVariableKeys @ [checkpointResumedVar]" "delete_var humanAmendmentVar ?s"]
    by (auto simp: clearCheckpointVariables_def clearHumanAmendment_def kept_by_vars outputs_kept variables_of_deletes variables_of_delete
        checkpoint_names_def simp del: fold_append)
  from assms have "Status s = RunStatusRunning \<and> RunID s' = RunID s \<and> Version s' = Version s \<and> Status s' = RunStatusFailed
      \<and> StepOutputs s' = StepOutputs s \<and> (\<forall>k. k \<noteq> VarRunErrorMessage \<longrightarrow> map_of (variables_of s') k =
        (if checkpointBoolVar K (variables_of s) checkpointPendingPauseVar \<and> k \<in> checkpoint_names then None else map_of (variables_of s) k))"
    using c by (auto simp: abandon_def ClearUnconfirmedCheckpoint_def kept_by_vars outputs_kept variables_of_set Let_def split: if_splits)
  then show "abandoned K s s'" and "RunID s' = RunID s" and "Version s' = Version s" by (simp_all add: abandoned_def)
qed

lemma markRunAbandoned_atomic:
  assumes "markRunAbandoned F ctx runID w = (w', res)" and "bounded_moments w" and "repo_inv (Repo w)"
  shows "bounded_moments w' \<and> (if res = Inr True
    then \<exists>u. by_others (Fenced (FwRunner F)) w u \<and> atomic_update (Fenced (FwRunner F)) ctx runID (abandoned (FwCodec F)) u w'
    else by_others (Fenced (FwRunner F)) w w')"
proof -
  let ?R = "FwRunner F" and ?m = "abandon (FwCodec F) runID"
  obtain w1 a out where f: "framework_attempts 5 ?R ctx runID ?m False w = (w1, a, out)" by (metis prod_cases3)
  from framework_attempts_save [OF f] obtain err where
    sv: "save_attempts 5 ?R ctx runID ?m False w = (w1, a, err)" and e: "err = None \<longleftrightarrow> (\<exists>s. out = Inr s)" by blast
  have "keeps_identity ?m" by (auto simp: keeps_identity_def dest: abandon_abandoned)
  note at = save_attempts_atomic [OF this sv assms(2,3)]
  note b = save_attempts_bounded [OF sv assms(2)]
  show ?thesis
  proof (cases out)
    case (Inl x)
    with assms(1) f have "w' = w1" "res \<noteq> Inr True" by (auto simp: markRunAbandoned_def saveRunSnapshotWithRetry_def split: if_splits)
    with at b e Inl show ?thesis by (cases err) auto
  next
    case (Inr s)
    with assms(1) f have r: "w' = w1" "res = Inr True" by (auto simp: markRunAbandoned_def saveRunSnapshotWithRetry_def)
    from at e Inr obtain u a1 where o: "by_others (Fenced ?R) w u"
      and u: "atomic_update (Fenced ?R) ctx runID (\<lambda>s s'. ?m a1 s = (a, Inr s')) u w1" by auto
    have "atomic_update (Fenced ?R) ctx runID (abandoned (FwCodec F)) u w1"
      by (rule atomic_update_mono [OF u]) (blast dest: abandon_abandoned(1))
    with o b r show ?thesis by auto
  qed
qed

lemma atomic_update_inv: "atomic_update fenced ctx runID change w w' \<Longrightarrow> repo_inv (Repo w) \<Longrightarrow> repo_inv (Repo w')"
  unfolding atomic_update_def by (metis SaveWithFence_effect save_effect_inv)

lemma probe_and_mark_atomic:
  assumes "probe_and_mark F ctx runID v l w = (l', w', res)" and "bounded_moments w" and "repo_inv (Repo w)"
  shows "bounded_moments w' \<and> (if res = Inr True
    then \<exists>u token. by_others (Fenced (FwRunner F)) w u
      \<and> atomic_update (Fenced (FwRunner F)) (ContextWithFenceToken ctx token) runID (abandoned (FwCodec F)) u w'
    else by_others (Fenced (FwRunner F)) w w')"
proof -
  obtain l1 got where a: "Locker_Acquire (ctx\<lparr>CtxErr := ProbeErr v\<rparr>) (ProbeNow v) (BeforeProbe v l) (runLeaseKey runID) (reaper_owner F) (FwTTL F) = (l1, got)"
    by fastforce
  show ?thesis
  proof (cases "\<exists>lease. got = Inr (Some lease)")
    case False
    with assms(1,2) a show ?thesis by (cases got) (auto simp: probe_and_mark_def split: option.splits)
  next
    case True
    then obtain lease where lease: "got = Inr (Some lease)" by blast
    obtain w1 out where m: "markRunAbandoned F (ContextWithFenceToken ctx (LeaseToken lease)) runID w = (w1, out)" by fastforce
    from assms(1) a lease m have "w' = w1" "res = out" by (auto simp: probe_and_mark_def)
    with markRunAbandoned_atomic [OF m assms(2,3)] show ?thesis by (auto split: if_splits)
  qed
qed

section \<open>What a sweep does\<close>

text \<open>
  What a sweep does to the run store, with the runs it reports: the saves of others as their moments pass, and one fenced save for each reported run.
\<close>

inductive reaps :: "lease_framework \<Rightarrow> gctx \<Rightarrow> world \<Rightarrow> string list \<Rightarrow> world \<Rightarrow> bool" for F ctx r where
  start: "reaps F ctx r [] r"
| others: "reaps F ctx r ids r1 \<Longrightarrow> by_others (Fenced (FwRunner F)) r1 r2 \<Longrightarrow> reaps F ctx r ids r2"
| mark: "reaps F ctx r ids r1 \<Longrightarrow> atomic_update (Fenced (FwRunner F)) (ContextWithFenceToken ctx token) runID (abandoned (FwCodec F)) r1 r2
    \<Longrightarrow> reaps F ctx r (ids @ [runID]) r2"

lemma reaps_inv: "reaps F ctx r ids r' \<Longrightarrow> repo_inv (Repo r) \<Longrightarrow> repo_inv (Repo r')"
  by (induction rule: reaps.induct) (auto intro: by_others_inv atomic_update_inv)

lemma probe_reaps:
  assumes "probe_and_mark F ctx runID v l w = (l', w', res)" and "bounded_moments w" and "repo_inv (Repo r)" and "reaps F ctx r ids w"
  shows "bounded_moments w'" and "reaps F ctx r (if res = Inr True then ids @ [runID] else ids) w'"
  using probe_and_mark_atomic [OF assms(1,2) reaps_inv [OF assms(4,3)]] assms(4)
  by (auto split: if_splits intro: reaps.others reaps.mark)

lemma sweep_reaps:
  "sweep F ctx g ss envs ids l w = (l', w', marked, err) \<Longrightarrow> bounded_moments w \<Longrightarrow> repo_inv (Repo r) \<Longrightarrow> reaps F ctx r ids w \<Longrightarrow>
     reaps F ctx r marked w'"
proof (induction ss arbitrary: ids l w)
  case (Cons s ss)
  obtain l1 w1 res where p: "probe_and_mark F ctx (RunID s) (envs (length ss)) l w = (l1, w1, res)" by (metis prod_cases3)
  note pr = probe_reaps [OF p Cons.prems(2,3,4)]
  from Cons p pr show ?case by (cases res) (auto split: if_splits)
qed simp

lemma sweep_refines:
  assumes "MarkAbandonedRuns F order ctx envs l w = (l', w', marked, err)" and "bounded_moments w" and "repo_inv (Repo w)"
  shows "reaps F ctx w marked w'"
proof -
  obtain m w1 where t: "tick (Fenced (FwRunner F)) w = (m, w1)" by fastforce
  obtain w2 res where l: "list_running F order ctx w = (w2, res)" by fastforce
  with t have w: "w2 = w1" by (auto simp: list_running_def Let_def simp del: tick.simps)
  note o = tick_by_others [OF t assms(2)]
  have r: "reaps F ctx w [] w1" using o(1) by (blast intro: reaps.intros)
  from assms(1) l w r sweep_reaps [OF _ o(2) assms(3) r] show ?thesis
    by (cases res) (auto simp: MarkAbandonedRuns_def)
qed


section \<open>Live workers are spared\<close>

text \<open>No other writer saves the run in the moments ahead.\<close>

definition left_alone :: "string \<Rightarrow> world \<Rightarrow> bool" where
  "left_alone runID w \<longleftrightarrow> list_all (\<lambda>m. list_all (\<lambda>x. RunID (OtherSnapshot x) \<noteq> runID) (Others m)) (Moments w)"

lemma SaveWithFence_elsewhere:
  assumes "SaveWithFence fenced ctx now r (Some s) v = (r', t, err)" and "RunID s \<noteq> runID"
  shows "Snapshots r' runID = Snapshots r runID"
proof (cases err)
  case None
  with assms(1) have "SaveWithFence fenced ctx now r (Some s) v = (r', t, None)" by simp
  then show ?thesis by (rule SaveWithFence_content) (use assms(2) in auto)
qed (use assms(1) SaveWithFence_failed in blast)

lemma by_others_elsewhere:
  assumes "by_others fenced w w'" and "left_alone runID w"
  shows "Snapshots (Repo w') runID = Snapshots (Repo w) runID" and "left_alone runID w'"
proof -
  from assms(1) obtain p where p: "Moments w = p @ Moments w'" "Repo w' = fold (other_step fenced) (concat (map Others p)) (Repo w)"
    unfolding by_others_def by blast
  have "Snapshots (fold (other_step fenced) xs r) runID = Snapshots r runID" if "list_all (\<lambda>x. RunID (OtherSnapshot x) \<noteq> runID) xs" for xs r
    using that
  proof (induction xs arbitrary: r)
    case (Cons x xs)
    obtain r2 t err where sv: "SaveWithFence fenced (OtherCtx x) (OtherNow x) r (Some (OtherSnapshot x)) (OtherExpected x) = (r2, t, err)"
      by (metis prod_cases3)
    then have "Snapshots (other_step fenced x r) runID = Snapshots r runID"
      using SaveWithFence_elsewhere [OF sv, of runID] Cons.prems by (simp add: other_step_def)
    with Cons show ?case by simp
  qed simp
  moreover have "list_all (\<lambda>x. RunID (OtherSnapshot x) \<noteq> runID) (concat (map Others p))"
    using assms(2) p(1) by (auto simp: left_alone_def list_all_iff)
  ultimately show "Snapshots (Repo w') runID = Snapshots (Repo w) runID" using p(2) by simp
  show "left_alone runID w'" using assms(2) p(1) by (auto simp: left_alone_def)
qed

lemma reaps_elsewhere:
  "reaps F ctx w ids w' \<Longrightarrow> runID \<notin> set ids \<Longrightarrow> left_alone runID w \<Longrightarrow> repo_inv (Repo w) \<Longrightarrow>
     Snapshots (Repo w') runID = Snapshots (Repo w) runID \<and> left_alone runID w'"
proof (induction rule: reaps.induct)
  case (mark ids r1 token other r2)
  obtain s s' t now where l: "LoadAuthorized (live (ContextWithFenceToken ctx token)) (Repo r1) other = Inr s" and c: "abandoned (FwCodec F) s s'"
    and sv: "SaveWithFence (Fenced (FwRunner F)) (live (ContextWithFenceToken ctx token)) now (Repo r1) (Some s') (Version s) = (Repo r2, t, None)"
    and m: "Moments r2 = Moments r1" using mark.hyps(2) unfolding atomic_update_def by blast
  obtain s0 where "Snapshots (Repo r1) other = Some s0" "RunID s = RunID s0" using LoadAuthorized_Inr [OF l] by blast
  with reaps_inv [OF mark.hyps(1) mark.prems(3)] c have "RunID s' = other" by (auto simp: repo_inv_def abandoned_def)
  with SaveWithFence_elsewhere [OF sv, of runID] mark m show ?case by (auto simp: left_alone_def)
qed (use by_others_elsewhere in \<open>auto\<close>)

definition worker_holds :: "lease_framework \<Rightarrow> string \<Rightarrow> (nat \<Rightarrow> probe_env) \<Rightarrow> locker \<Rightarrow> bool" where
  "worker_holds F runID envs l \<longleftrightarrow> (\<exists>owner token x. holder_of l (runLeaseKey runID) = Some (owner, token, x)
     \<and> owner \<noteq> reaper_owner F \<and> (\<forall>i. ProbeNow (envs i) < x))"

lemma probe_spares:
  assumes "worker_holds F runID envs (BeforeProbe (envs i) l)"
    and during: "\<And>l. worker_holds F runID envs l \<Longrightarrow> worker_holds F runID envs (DuringMark (envs i) l)"
    and "probe_and_mark F ctx other (envs i) l w = (l', w', res)"
  shows "worker_holds F runID envs l' \<and> (other = runID \<longrightarrow> res \<noteq> Inr True)"
proof -
  let ?v = "envs i" and ?ctx = "ctx\<lparr>CtxErr := ProbeErr (envs i)\<rparr>"
  obtain owner token x where h: "holder_of (BeforeProbe ?v l) (runLeaseKey runID) = Some (owner, token, x)" "owner \<noteq> reaper_owner F"
    "\<forall>i. ProbeNow (envs i) < x" using assms(1) by (auto simp: worker_holds_def)
  obtain l1 got where a: "Locker_Acquire ?ctx (ProbeNow ?v) (BeforeProbe ?v l) (runLeaseKey other) (reaper_owner F) (FwTTL F) = (l1, got)"
    by fastforce
  then have ia: "inmem_acquire (?ctx, ProbeNow ?v) (BeforeProbe ?v l) (runLeaseKey other) (reaper_owner F) (FwTTL F) = (l1, granted_of got)"
    by (simp add: inmem_acquire_def)
  show ?thesis
  proof (cases "granted_of got")
    case None
    with inmem_locker.acquire_refused ia have "holder_of l1 = holder_of (BeforeProbe ?v l)" by metis
    then have "worker_holds F runID envs l1" using h by (auto simp: worker_holds_def)
    moreover have "l' = l1 \<and> res \<noteq> Inr True"
      using None assms(3) a by (cases got) (auto simp: probe_and_mark_def granted_of_def)
    ultimately show ?thesis by simp
  next
    case (Some lease)
    have "other \<noteq> runID" using inmem_locker.acquire_excludes [OF h(1) _ h(2), of "(?ctx, ProbeNow ?v)" "FwTTL F"] h(3) ia Some by auto
    then have ne: "runLeaseKey other \<noteq> runLeaseKey runID" by (simp add: runLeaseKey_def)
    have g: "LeaseKey lease = runLeaseKey other"
      "holder_of l1 = (holder_of (BeforeProbe ?v l))(runLeaseKey other \<mapsto> (reaper_owner F, LeaseToken lease, LeaseExpiresAt lease))"
      using inmem_locker.acquire_granted [OF ia [unfolded Some]] by auto
    have "worker_holds F runID envs l1" using h ne g by (auto simp: worker_holds_def)
    then have d: "worker_holds F runID envs (DuringMark ?v l1)" by (rule during)
    have "l' = inmem_release (ctx\<lparr>CtxErr := ReleaseErr ?v\<rparr>, 0) (DuringMark ?v l1) lease"
      using assms(3) a Some by (cases got) (auto simp: probe_and_mark_def granted_of_def inmem_release_def split: prod.splits)
    with inmem_locker.release_effect [of "(ctx\<lparr>CtxErr := ReleaseErr ?v\<rparr>, 0)" "DuringMark ?v l1" lease l'] d g(1) ne
    have "worker_holds F runID envs l'" by (auto simp: worker_holds_def)
    with \<open>other \<noteq> runID\<close> show ?thesis by simp
  qed
qed

lemma sweep_spares:
  assumes stays: "\<And>i l. worker_holds F runID envs l \<Longrightarrow> worker_holds F runID envs (BeforeProbe (envs i) l) \<and> worker_holds F runID envs (DuringMark (envs i) l)"
  shows "sweep F ctx g ss envs ids l w = (l', w', marked, err) \<Longrightarrow> worker_holds F runID envs l \<Longrightarrow> runID \<notin> set ids \<Longrightarrow> runID \<notin> set marked"
proof (induction ss arbitrary: ids l w)
  case (Cons s ss)
  obtain l1 w1 res where p: "probe_and_mark F ctx (RunID s) (envs (length ss)) l w = (l1, w1, res)" by (metis prod_cases3)
  have "worker_holds F runID envs l1 \<and> (RunID s = runID \<longrightarrow> res \<noteq> Inr True)"
    using probe_spares [of F runID envs "length ss" l ctx "RunID s" w l1 w1 res] p stays Cons.prems(2) by blast
  with Cons p show ?case by (cases res) (auto split: if_splits)
qed simp

text \<open>
  C11: a sweep never fails a run whose worker is alive. If some worker holds the lease of a run when the sweep starts, and whatever others do
  to the locker leaves a worker holding it past every clock the sweep reads, then the sweep does not report the run, and it does not write
  it either: its saves are those of the reported runs, and when no other writer saves the run it is stored as it was.
\<close>

theorem live_run_not_reaped:
  assumes "MarkAbandonedRuns F order ctx envs l w = (l', w', marked, err)" and "worker_holds F runID envs l"
    and "\<And>i l. worker_holds F runID envs l \<Longrightarrow> worker_holds F runID envs (BeforeProbe (envs i) l) \<and> worker_holds F runID envs (DuringMark (envs i) l)"
    and "bounded_moments w" and "repo_inv (Repo w)"
  shows "runID \<notin> set marked \<and> reaps F ctx w marked w'
    \<and> (left_alone runID w \<longrightarrow> Snapshots (Repo w') runID = Snapshots (Repo w) runID)"
proof -
  obtain w1 res where ls: "list_running F order ctx w = (w1, res)" by fastforce
  have "runID \<notin> set marked"
  proof (cases res)
    case (Inl e)
    with assms(1) ls show ?thesis by (auto simp: MarkAbandonedRuns_def)
  next
    case (Inr ss)
    with assms(1) ls have "sweep F ctx (FwListStale F) (filter (\<lambda>s. AuthorizeTenant ctx s = None) ss) envs [] l w1 = (l', w', marked, err)"
      by (simp add: MarkAbandonedRuns_def)
    from sweep_spares [OF assms(3) this assms(2)] show ?thesis by simp
  qed
  with sweep_refines [OF assms(1,4,5)] reaps_elsewhere [of F ctx w marked w' runID] assms(5) show ?thesis by blast
qed

section \<open>A reaped worker is locked out\<close>

lemma ContextWithFenceToken_token: "token \<noteq> 0 \<Longrightarrow> FenceTokenFromContext (live (ContextWithFenceToken ctx token)) = token"
  by (simp add: ContextWithFenceToken_def FenceTokenFromContext_def)

lemma fenced_update_fence:
  assumes "atomic_update True (ContextWithFenceToken ctx token) runID change w w'" and "token \<noteq> 0" and "repo_inv (Repo w)"
    and "\<And>s s'. change s s' \<Longrightarrow> RunID s' = RunID s"
  shows "fence_of (Repo w') runID = token"
proof -
  let ?c = "live (ContextWithFenceToken ctx token)"
  obtain now s s' t where l: "LoadAuthorized ?c (Repo w) runID = Inr s" and c: "change s s'"
    and sv: "SaveWithFence True ?c now (Repo w) (Some s') (Version s) = (Repo w', t, None)"
    using assms(1) unfolding atomic_update_def by blast
  obtain s0 where "Snapshots (Repo w) runID = Some s0" "RunID s = RunID s0" using LoadAuthorized_Inr [OF l] by blast
  with assms(3,4) c have "RunID s' = runID" by (auto simp: repo_inv_def)
  moreover have "Repository_SaveFenced ?c now (Repo w) (Some s') (Version s) token = (Repo w', t, None)"
    using sv assms(2) by (simp add: SaveWithFence_def ContextWithFenceToken_token)
  ultimately show ?thesis
    using inmem_fenced.fence_accepted [of "(?c, now, token)" "Repo w" s' "Version s" "Repo w'" t] by (simp add: fenced_save_def)
qed

lemma probe_reaped:
  assumes "probe_and_mark F ctx runID v l w = (l', w', Inr True)" and "bounded_moments w" and "repo_inv (Repo w)"
  obtains lease l1 u where
    "inmem_acquire (ctx\<lparr>CtxErr := ProbeErr v\<rparr>, ProbeNow v) (BeforeProbe v l) (runLeaseKey runID) (reaper_owner F) (FwTTL F) = (l1, Some lease)"
    "by_others (Fenced (FwRunner F)) w u"
    "atomic_update (Fenced (FwRunner F)) (ContextWithFenceToken ctx (LeaseToken lease)) runID (abandoned (FwCodec F)) u w'"
proof -
  obtain l1 got where a: "Locker_Acquire (ctx\<lparr>CtxErr := ProbeErr v\<rparr>) (ProbeNow v) (BeforeProbe v l) (runLeaseKey runID) (reaper_owner F) (FwTTL F) = (l1, got)"
    by fastforce
  with assms(1) obtain lease where g: "got = Inr (Some lease)" by (cases got) (auto simp: probe_and_mark_def split: option.splits)
  obtain w1 out where m: "markRunAbandoned F (ContextWithFenceToken ctx (LeaseToken lease)) runID w = (w1, out)" by fastforce
  with assms(1) a g have o: "w' = w1" "out = Inr True" by (auto simp: probe_and_mark_def)
  from markRunAbandoned_atomic [OF m assms(2,3)] o obtain u where r: "by_others (Fenced (FwRunner F)) w u"
    "atomic_update (Fenced (FwRunner F)) (ContextWithFenceToken ctx (LeaseToken lease)) runID (abandoned (FwCodec F)) u w'" by auto
  show ?thesis by (rule that [OF _ r]) (simp add: inmem_acquire_def a g granted_of_def)
qed

text \<open>
  C12: a worker that lost its run cannot write it again. When a sweep has failed a run, then whatever fenced saves follow, a save with the
  token of any lease of the run that a worker was granted before fails and leaves the store as it is: a worker that was only slow
  cannot overwrite the failure.
\<close>

theorem reaped_worker_locked_out:
  assumes "locker_run (BeforeProbe v l) granted n" and "Suc n < 2 ^ 64" and "b \<in> set granted" and "LeaseKey b = runLeaseKey runID"
    and "LeaseOwner b \<noteq> reaper_owner F" and "Fenced (FwRunner F)"
    and "probe_and_mark F ctx runID v l w = (l', w', Inr True)" and "bounded_moments w" and "repo_inv (Repo w)"
    and "RunID s' = runID"
    and "Repository_SaveFenced ctx' now' (fst (run_saves fenced_save (Repo w') saves)) (Some s') v' (LeaseToken b) = (r2, t', err)"
  shows "err \<noteq> None \<and> r2 = fst (run_saves fenced_save (Repo w') saves)"
proof -
  let ?rm = "fst (run_saves fenced_save (Repo w') saves)"
  obtain lease l1 u where
    a: "inmem_acquire (ctx\<lparr>CtxErr := ProbeErr v\<rparr>, ProbeNow v) (BeforeProbe v l) (runLeaseKey runID) (reaper_owner F) (FwTTL F) = (l1, Some lease)"
    and r: "by_others (Fenced (FwRunner F)) w u"
    and u: "atomic_update (Fenced (FwRunner F)) (ContextWithFenceToken ctx (LeaseToken lease)) runID (abandoned (FwCodec F)) u w'"
    by (rule probe_reaped [OF assms(7-9)])
  have run: "locker_run l1 (lease # granted) (Suc n)" using lock_run.acquire [OF assms(1) a] by simp
  obtain j where j: "j < length granted" "granted ! j = b" using assms(3) by (auto simp: in_set_conv_nth)
  have key: "LeaseKey lease = runLeaseKey runID" "LeaseOwner lease = reaper_owner F" using inmem_locker.acquire_granted [OF a] by auto
  have lt: "LeaseToken b < LeaseToken lease"
    using locker_run_later [OF run assms(2), of 0 "Suc j"] j key assms(4,5) by (simp add: later_grant_def)
  then have "LeaseToken lease \<noteq> 0" by auto
  then have "fence_of (Repo w') runID = LeaseToken lease"
    using fenced_update_fence [of ctx "LeaseToken lease" runID "abandoned (FwCodec F)" u w'] u assms(6) by_others_inv [OF r assms(9)]
    by (simp add: abandoned_def)
  with inmem_fenced.run_saves_fence [of "Repo w'" runID saves] have fence: "LeaseToken lease \<le> fence_of ?rm runID" by simp
  have "err \<noteq> None"
  proof
    assume "err = None"
    with inmem_fenced.fence_accepted [of "(ctx', now', LeaseToken b)" ?rm s' v' r2 t'] assms(10,11)
    have "fence_of ?rm runID \<le> LeaseToken b" by (simp add: fenced_save_def)
    with fence lt show False by simp
  qed
  with assms(11) show ?thesis by (auto dest: Repository_SaveFenced_failed)
qed

section \<open>Superseded workers\<close>

text \<open>
  C2: a superseded worker cannot write. When two workers were granted the lease of a run, under the key the runtime uses for it, and the
  later one, another owner, has saved the run with its token, then whatever fenced saves follow, a save of the run with the earlier
  worker's token fails and leaves the store as it is.
\<close>

theorem superseded_worker_rejected:
  assumes "locker_run l granted n" and "n < 2 ^ 64" and "i < j" and "j < length granted"
    and "LeaseKey (granted ! i) = runLeaseKey runID" and "LeaseKey (granted ! j) = runLeaseKey runID"
    and "LeaseOwner (granted ! i) \<noteq> LeaseOwner (granted ! j)"
    and "Repository_SaveFenced ctx now r (Some s) v (LeaseToken (granted ! i)) = (r1, t, None)"
    and "RunID s = runID" and "RunID s' = runID"
    and "Repository_SaveFenced ctx' now' (fst (run_saves fenced_save r1 saves)) (Some s') v'
           (LeaseToken (granted ! j)) = (r2, t', err)"
  shows "err \<noteq> None \<and> r2 = fst (run_saves fenced_save r1 saves)"
  using superseded_token_rejected [OF assms(1-4) _ assms(7-11)] assms(5,6) by simp

section \<open>A lost lease stops the run in time\<close>

lemma renewInterval_pos: "0 < renewInterval ttl"
  by (simp add: renewInterval_def Let_def)

lemma failures_fit: "1000000 \<le> ttl \<Longrightarrow> f < maxTransientFailures ttl \<Longrightarrow> (f + 1) * renewInterval ttl \<le> ttl"
proof -
  let ?i = "renewInterval ttl"
  assume t: "1000000 \<le> ttl" and f: "f < maxTransientFailures ttl"
  have "?i \<le> ttl" using t unfolding renewInterval_def Let_def by presburger
  then have "1 \<le> ttl div ?i" using renewInterval_pos [of ttl] by (simp add: int_one_le_iff_zero_less pos_imp_zdiv_pos_iff)
  then have "maxTransientFailures ttl = ttl div ?i" by (simp add: maxTransientFailures_def Let_def)
  with f have "(f + 1) * ?i \<le> (ttl div ?i) * ?i" using renewInterval_pos [of ttl] by (intro mult_right_mono) auto
  also have "\<dots> \<le> ttl" using pos_mod_sign [OF renewInterval_pos, of ttl ttl] div_mult_mod_eq [of ttl ?i] by linarith
  finally show ?thesis .
qed

lemma renewal_fresh:
  assumes "1000000 \<le> ttl" and "renewal ttl runID f held answers = (held', None)"
    and "0 \<le> f" and "f < maxTransientFailures ttl" and "t + ttl \<le> LeaseExpiresAt held + f * renewInterval ttl"
    and "\<And>k ls ls'. k < length answers \<Longrightarrow> (answers ! k) ls = Inr (Some ls') \<Longrightarrow>
      t + (int k + 1) * renewInterval ttl + ttl \<le> LeaseExpiresAt ls'"
  shows "t + (int (length answers) + 1) * renewInterval ttl \<le> LeaseExpiresAt held'"
  using assms(2-6)
proof (induction answers arbitrary: f held t)
  case Nil
  from failures_fit [OF assms(1) Nil.prems(3)] Nil.prems(1,4) show ?case by (simp add: algebra_simps)
next
  case (Cons answer answers)
  let ?i = "renewInterval ttl"
  have later: "(t + ?i) + (int k + 1) * ?i + ttl \<le> LeaseExpiresAt ls'" if "k < length answers" "(answers ! k) ls = Inr (Some ls')" for k ls ls'
    using Cons.prems(5) [of "Suc k" ls ls'] that by (simp add: algebra_simps)
  have goal: "?case" if "(t + ?i) + (int (length answers) + 1) * ?i \<le> LeaseExpiresAt held'" using that by (simp add: algebra_simps)
  show ?case
  proof (cases "answer held")
    case (Inl e)
    with Cons.prems(1) have r: "renewal ttl runID (f + 1) held answers = (held', None)" "f + 1 < maxTransientFailures ttl"
      by (auto split: if_splits)
    show ?thesis
      by (rule goal, rule Cons.IH [OF r(1) _ r(2) _ later]) (use Cons.prems(2,4) in \<open>auto simp: algebra_simps\<close>)
  next
    case (Inr got)
    with Cons.prems(1) obtain renewed where g: "got = Some renewed" "renewal ttl runID 0 renewed answers = (held', None)"
      by (cases got) auto
    have "t + ?i + ttl \<le> LeaseExpiresAt renewed" using Cons.prems(5) [of 0 held renewed] Inr g by simp
    moreover have "0 < maxTransientFailures ttl" by (simp add: maxTransientFailures_def Let_def)
    ultimately show ?thesis
      by (intro goal Cons.IH [OF g(2)]) (use later in auto)
  qed
qed

text \<open>
  C19: a run never outlives its lease. The renewal loop ticks a third of the lease time apart and each granted renewal extends the lease by its
  full time from that tick; then, as long as the loop has not aborted the run, the lease it holds lasts at least until the
  next tick, whatever failures the store had: the failures it tolerates span less than a lease. So the run is aborted before
  another worker can be granted its lease.
\<close>

theorem run_aborted_before_lease_expires:
  assumes "1000000 \<le> ttl" and "renewal ttl runID 0 held answers = (held', None)" and "t + ttl \<le> LeaseExpiresAt held"
    and "\<And>k ls ls'. k < length answers \<Longrightarrow> (answers ! k) ls = Inr (Some ls') \<Longrightarrow>
      t + (int k + 1) * renewInterval ttl + ttl \<le> LeaseExpiresAt ls'"
  shows "t + (int (length answers) + 1) * renewInterval ttl \<le> LeaseExpiresAt held'"
  by (rule renewal_fresh [OF assms(1,2) _ _ _ assms(4)]) (use assms(3) in \<open>auto simp: maxTransientFailures_def Let_def\<close>)

section \<open>The background sweep and tenants\<close>

lemma list_loop_stored:
  "x \<in> set (list_loop keep limit r order out) \<Longrightarrow> x \<in> set out \<or> (\<exists>runID s. Snapshots r runID = Some s \<and> x = cloneSnapshot s)"
proof (induction order arbitrary: out)
  case (Cons runID order)
  show ?case
  proof (cases "Snapshots r runID")
    case (Some s)
    with Cons.prems Cons.IH [of out] Cons.IH [of "out @ [cloneSnapshot s]"] show ?thesis by (auto simp: Let_def split: if_splits)
  qed (use Cons in simp)
qed simp

lemma background_tenant: "AuthorizeTenant Background s = None \<longleftrightarrow> TenantID s = []"
  by (simp add: AuthorizeTenant_def Background_def PrincipalFromContext_def TenantStrictModeFromContext_def)

text \<open>
  The background sweep of \<^verbatim>\<open>startRunReaper\<close> runs without a principal and does not ask for permissive access, so it authorizes no run that carries a
  tenant: a tenant's run whose worker died stays running, whatever the state of its lease.
\<close>

theorem background_sweep_skips_tenants:
  assumes "\<And>runID s. Snapshots (Repo w) runID = Some s \<Longrightarrow> TenantID s \<noteq> []" and "Moments w = []"
  shows "MarkAbandonedRuns F order Background envs l w = (l, w, [], None)"
proof -
  have "AuthorizeTenant Background x \<noteq> None"
    if "x \<in> set (list_loop keep limit (Repo w) order [])" for x keep limit
    using list_loop_stored [OF that] assms(1) by (auto simp: background_tenant)
  then have none: "filter (\<lambda>s. AuthorizeTenant Background s = None) (list_loop keep limit (Repo w) order []) = []" for keep limit
    by (simp add: filter_empty_conv)
  show ?thesis
    using assms(2) none
    by (simp add: MarkAbandonedRuns_def list_running_def Repository_List_def Repository_ListStale_def quiet_moment_def at_moment_def Background_def Let_def)
qed

section \<open>Samples\<close>

definition plain_codec :: checkpoint_codec where
  "plain_codec = \<lparr>CkEncText = (\<lambda>t. t), CkDecText = Some, CkDecBool = (\<lambda>raw. Some (raw = ''true'')), CkDecInt = (\<lambda>_. None),
     CkEncCalls = (\<lambda>_. Inr []), CkDecCalls = (\<lambda>_. Inr []), CkEncMessages = (\<lambda>_. Inr []), CkDecMessages = (\<lambda>_. Inr []),
     CkEncRef = (\<lambda>_. Inr []), CkDecRef = (\<lambda>_. None),
     CkTracker = \<lparr>EncodeWire = (\<lambda>_. []), ProbeKeys = (\<lambda>_. Inr []), DecodeWire = (\<lambda>_. Inr ([], [])), DecodeLegacy = (\<lambda>_. Inr [])\<rparr>,
     CkEncUsage = (\<lambda>_. []), CkDecUsage = (\<lambda>_. Inr newUsageTracker), CkEncApprovals = (\<lambda>_. None), CkDecApprovals = (\<lambda>_. Inr []),
     CkArgs = \<lparr>DecodeText = (\<lambda>_. None), ValidArgs = (\<lambda>_. True)\<rparr>\<rparr>"

definition sample_framework :: lease_framework where
  "sample_framework = \<lparr>FwRunner = plain_runner, FwOwner = ''w2'', FwTTL = 3000000000, FwGrace = 0, FwScenario = ''s'', FwListStale = True,
     FwCodec = plain_codec\<rparr>"

definition zombie :: run_snapshot where
  "zombie = running\<lparr>Version := 1, Variables := Some [(VarRunLeaseOwner, ''w1'')]\<rparr>"

definition zombie_world :: world where
  "zombie_world = \<lparr>Repo = \<lparr>Snapshots = [''r'' \<mapsto> zombie], Fences = Map.empty\<rparr>, Blobs = Map.empty, Moments = []\<rparr>"

definition quiet_probe :: probe_env where
  "quiet_probe = \<lparr>ProbeSince = 5, ProbeNow = 5, ProbeErr = None, ReleaseErr = None, BeforeProbe = (\<lambda>l. l), DuringMark = (\<lambda>l. l)\<rparr>"

definition held_by_w1 :: "gtime \<Rightarrow> locker" where
  "held_by_w1 ttl = fst (Locker_Acquire Background 0 NewLocker ''run:r'' ''w1'' ttl)"

abbreviation sample_sweep :: "locker \<Rightarrow> locker \<times> world \<times> string list \<times> go_error option" where
  "sample_sweep l \<equiv> MarkAbandonedRuns sample_framework [''r''] Background (\<lambda>_. quiet_probe) l zombie_world"

lemma zombie_ok: "bounded_moments zombie_world" "repo_inv (Repo zombie_world)"
  by (auto simp: bounded_moments_def zombie_world_def repo_inv_def zombie_def running_def sample_run_def Snapshot_Validate_def)

lemma sweep_marks: "fst (snd (snd (sample_sweep NewLocker))) = [''r'']"
  by code_simp


theorem live_run_not_reaped_witness:
  "''r'' \<notin> set (fst (snd (snd (sample_sweep (held_by_w1 100)))))
   \<and> Snapshots (Repo (fst (snd (sample_sweep (held_by_w1 100))))) ''r'' = Some zombie"
proof -
  obtain l' w' marked err where m: "sample_sweep (held_by_w1 100) = (l', w', marked, err)" by (metis prod_cases4)
  have "worker_holds sample_framework ''r'' (\<lambda>_. quiet_probe) (held_by_w1 100)"
    by (simp add: worker_holds_def held_by_w1_def locker_defs NewLocker_def Background_def holder_of_def runLeaseKey_def reaper_owner_def
        sample_framework_def quiet_probe_def)
  from live_run_not_reaped [OF m this _ zombie_ok] m show ?thesis by (simp add: quiet_probe_def left_alone_def zombie_world_def)
qed

definition reaped_world :: world where
  "reaped_world = fst (snd (probe_and_mark sample_framework Background ''r'' quiet_probe (held_by_w1 1) zombie_world))"

theorem reaped_worker_locked_out_witness:
  "snd (snd (Repository_SaveFenced Background 9 (Repo reaped_world) (Some (sample_run ''r'' RunStatusCompleted [])) 2 1)) \<noteq> None"
proof -
  let ?b = "\<lparr>LeaseKey = ''run:r'', LeaseOwner = ''w1'', LeaseToken = 1, LeaseExpiresAt = 1\<rparr>"
  have a: "inmem_acquire (Background, 0) NewLocker ''run:r'' ''w1'' 1 = (held_by_w1 1, Some ?b)"
    by (simp add: inmem_acquire_def held_by_w1_def granted_of_def locker_defs Background_def NewLocker_def counter_of_def)
  have "locker_run NewLocker [] 0" by (rule lock_run.start)
  note lock_run.acquire [of inmem_acquire inmem_renew inmem_release NewLocker NewLocker "[]" 0 "(Background, 0)" "''run:r''" "''w1''" 1, OF this a]
  then have run: "locker_run (BeforeProbe quiet_probe (held_by_w1 1)) [?b] 1"
    by (simp add: quiet_probe_def)
  have "snd (snd (probe_and_mark sample_framework Background ''r'' quiet_probe (held_by_w1 1) zombie_world)) = Inr True"
    by code_simp
  then have p: "probe_and_mark sample_framework Background ''r'' quiet_probe (held_by_w1 1) zombie_world =
      (fst (probe_and_mark sample_framework Background ''r'' quiet_probe (held_by_w1 1) zombie_world), reaped_world, Inr True)"
    by (simp add: prod_eq_iff reaped_world_def)
  obtain r2 t' err where sv: "Repository_SaveFenced Background 9 (fst (run_saves fenced_save (Repo reaped_world) []))
      (Some (sample_run ''r'' RunStatusCompleted [])) 2 (LeaseToken ?b) = (r2, t', err)" by (metis prod_cases3)
  have "err \<noteq> None \<and> r2 = fst (run_saves fenced_save (Repo reaped_world) [])"
    by (rule reaped_worker_locked_out [OF run _ _ _ _ _ p zombie_ok _ sv])
      (simp_all add: runLeaseKey_def reaper_owner_def sample_framework_def plain_runner_def sample_run_def)
  with sv show ?thesis by simp
qed

theorem superseded_worker_rejected_witness:
  "let (r1, t, e1) = Repository_SaveFenced Background 25 NewRepository
         (Some (sample_run ''r'' RunStatusRunning [])) 0 2;
       (r2, t', e2) = Repository_SaveFenced Background 26 r1 (Some (sample_run ''r'' RunStatusPaused [])) 1 1
   in e1 = None \<and> e2 \<noteq> None \<and> r2 = r1"
proof -
  let ?g = "[sample_lease ''w2'' 2 30, sample_lease ''w1'' 1 10]"
  let ?s1 = "Repository_SaveFenced Background 25 NewRepository (Some (sample_run ''r'' RunStatusRunning [])) 0 2"
  let ?s2 = "Repository_SaveFenced Background 26 (fst ?s1) (Some (sample_run ''r'' RunStatusPaused [])) 1 1"
  have ok: "snd (snd ?s1) = None" by code_simp
  then have s1: "Repository_SaveFenced Background 25 NewRepository (Some (sample_run ''r'' RunStatusRunning [])) 0
      (LeaseToken (?g ! 0)) = (fst ?s1, fst (snd ?s1), None)"
    by (simp add: prod_eq_iff sample_lease_def)
  have s2: "Repository_SaveFenced Background 26 (fst (run_saves fenced_save (fst ?s1) []))
      (Some (sample_run ''r'' RunStatusPaused [])) 1 (LeaseToken (?g ! 1)) = (fst ?s2, fst (snd ?s2), snd (snd ?s2))"
    by (simp add: sample_lease_def)
  have "snd (snd ?s2) \<noteq> None \<and> fst ?s2 = fst (run_saves fenced_save (fst ?s1) [])"
    by (rule superseded_worker_rejected [OF sample_locker_run _ _ _ _ _ _ s1 _ _ s2, of "''r''"])
      (simp_all add: sample_lease_def sample_run_def runLeaseKey_def)
  with ok show ?thesis by (simp add: case_prod_beta)
qed

theorem run_aborted_before_lease_expires_witness:
  "3000000000 \<le> LeaseExpiresAt (fst (renewal 3000000000 ''r'' 0 (sample_lease ''w1'' 1 3000000000)
     [\<lambda>ls. Inl (ErrHost ''unreachable''), \<lambda>ls. Inr (Some (ls\<lparr>LeaseExpiresAt := 5000000000\<rparr>))]))"
proof -
  let ?held = "sample_lease ''w1'' 1 3000000000"
  let ?answers = "[\<lambda>ls. Inl (ErrHost ''unreachable''), \<lambda>ls. Inr (Some (ls\<lparr>LeaseExpiresAt := 5000000000\<rparr>))] :: (lease \<Rightarrow> go_error + lease option) list"
  have i: "renewInterval 3000000000 = 1000000000" by (simp add: renewInterval_def Let_def)
  then have "renewal 3000000000 ''r'' 0 ?held ?answers = (?held\<lparr>LeaseExpiresAt := 5000000000\<rparr>, None)"
    by (simp add: maxTransientFailures_def Let_def)
  then have r: "renewal 3000000000 ''r'' 0 ?held ?answers = (fst (renewal 3000000000 ''r'' 0 ?held ?answers), None)" by simp
  have "0 + (int (length ?answers) + 1) * renewInterval 3000000000 \<le> LeaseExpiresAt (fst (renewal 3000000000 ''r'' 0 ?held ?answers))"
  proof (rule run_aborted_before_lease_expires [OF _ r])
    fix k and ls ls' :: lease
    assume k: "k < length ?answers" and "(?answers ! k) ls = Inr (Some ls')"
    then show "0 + (int k + 1) * renewInterval 3000000000 + 3000000000 \<le> LeaseExpiresAt ls'"
      by (auto simp: i less_Suc_eq nth_Cons split: nat.splits)
  qed (simp_all add: sample_lease_def)
  then show ?thesis by (simp add: i)
qed

end
