(* ===== verification/Job_Queue.thy ===== *)
theory Job_Queue
  imports Run_State
begin

text \<open>
  The job queue: \<^verbatim>\<open>pkg/async/queue.go\<close>, \<^verbatim>\<open>pkg/async/tenant.go\<close>, \<^verbatim>\<open>pkg/async/admin.go\<close>,
  \<^verbatim>\<open>pkg/async/metrics.go\<close> and the in-memory queue \<^verbatim>\<open>internal/adapter/queue/inmem/queue.go\<close>. The clock
  reading of an operation is its argument \<open>now\<close>. The text of an error (\<^verbatim>\<open>Error()\<close>, a method the host's
  own errors have too) and the JSON text of a pause result are arguments of the operations that use
  them. The mutex makes every operation one step.
\<close>

section \<open>Jobs and leases\<close>

datatype job_state =
    JobQueued
  | JobRunning
  | JobCompleted
  | JobPaused
  | JobFailed
  | JobCancelled
  | JobDeadLetter
  | JobStateOther string

record job =
  JobID :: string
  JobType :: string
  JobRunID :: string
  JobTenantID :: string
  Payload :: "bytes option"
  State :: job_state
  Attempts :: int
  MaxAttempts :: int
  LastError :: string
  JobCreatedAt :: gtime
  JobUpdatedAt :: gtime
  AvailableAt :: gtime
  LeaseWorkerID :: string
  JobLeaseExpiresAt :: gtime

text \<open>The zero value, which a lookup of a missing key of a map of jobs gives.\<close>

definition zero_job :: job where
  "zero_job = \<lparr>JobID = [], JobType = [], JobRunID = [], JobTenantID = [], Payload = None,
     State = JobStateOther [], Attempts = 0, MaxAttempts = 0, LastError = [], JobCreatedAt = 0,
     JobUpdatedAt = 0, AvailableAt = 0, LeaseWorkerID = [], JobLeaseExpiresAt = 0\<rparr>"

definition Job_Validate :: "job \<Rightarrow> go_error option" where
  "Job_Validate j =
     (if JobID j = [] \<or> JobType j = [] then Some ErrInvalidJob
      else if MaxAttempts j < 0 then Some ErrInvalidJob
      else None)"

record job_lease =
  LeaseJobID :: string
  WorkerID :: string
  Attempt :: int
  ExpiresAt :: gtime

definition JobLease_Validate :: "job_lease \<Rightarrow> go_error option" where
  "JobLease_Validate ls =
     (if LeaseJobID ls = [] \<or> WorkerID ls = [] \<or> Attempt ls \<le> 0 then Some ErrStaleLease else None)"

definition CloneJob :: "job \<Rightarrow> job" where
  "CloneJob j = (case Payload j of
     None \<Rightarrow> j | Some bs \<Rightarrow> j\<lparr>Payload := Some (take (length bs) bs)\<rparr>)"

section \<open>Tenants\<close>

definition TenantIDFromContext :: "gctx \<Rightarrow> string" where
  "TenantIDFromContext ctx =
     (case PrincipalFromContext ctx of None \<Rightarrow> [] | Some p \<Rightarrow> ScopeTenantID (PrincipalScope p))"

definition Job_StampTenant :: "gctx \<Rightarrow> job \<Rightarrow> go_error + job" where
  "Job_StampTenant ctx j =
     (let tenantID = TenantIDFromContext ctx in
      if tenantID = [] then Inr j
      else if JobTenantID j \<noteq> [] \<and> JobTenantID j \<noteq> tenantID then Inl ErrJobTenantMismatch
      else Inr (j\<lparr>JobTenantID := tenantID\<rparr>))"

definition Job_AuthorizeTenant :: "gctx \<Rightarrow> job \<Rightarrow> go_error option" where
  "Job_AuthorizeTenant ctx j =
     (let tenantID = TenantIDFromContext ctx in
      if tenantID = [] then
        (if JobTenantID j \<noteq> [] \<and> TenantStrictModeFromContext ctx then Some ErrJobTenantRequired
         else None)
      else if JobTenantID j = [] \<or> JobTenantID j \<noteq> tenantID then Some ErrJobTenantMismatch
      else None)"

record job_filter =
  JobFilterState :: job_state
  JobFilterTenantID :: string
  JobFilterLimit :: int

definition ScopeJobFilter :: "gctx \<Rightarrow> job_filter \<Rightarrow> go_error + job_filter" where
  "ScopeJobFilter ctx flt =
     (let tenantID = TenantIDFromContext ctx in
      if tenantID = [] then
        (if JobFilterTenantID flt \<noteq> [] \<and> TenantStrictModeFromContext ctx
         then Inl ErrJobTenantRequired else Inr flt)
      else if JobFilterTenantID flt \<noteq> [] \<and> JobFilterTenantID flt \<noteq> tenantID
           then Inl ErrJobTenantMismatch
      else Inr (flt\<lparr>JobFilterTenantID := tenantID\<rparr>))"

section \<open>The in-memory queue\<close>

record queue =
  Jobs :: "string \<Rightarrow> job option"
  Order :: "string list"

definition NewQueue :: queue where
  "NewQueue = \<lparr>Jobs = Map.empty, Order = []\<rparr>"

definition job_at :: "queue \<Rightarrow> string \<Rightarrow> job" where
  "job_at q jobID = (case Jobs q jobID of None \<Rightarrow> zero_job | Some j \<Rightarrow> j)"

text \<open>The assignment \<^verbatim>\<open>queue.jobs[job.ID] = job\<close>.\<close>

definition put_job :: "queue \<Rightarrow> job \<Rightarrow> queue" where
  "put_job q j = q\<lparr>Jobs := (Jobs q)(JobID j \<mapsto> j)\<rparr>"

text \<open>The defaults \<^verbatim>\<open>Enqueue\<close> fills in, from the attempt budget on.\<close>

definition enqueue_defaults :: "gtime \<Rightarrow> job \<Rightarrow> job" where
  "enqueue_defaults now j2 =
     (let j3 = (if MaxAttempts j2 = 0 then j2\<lparr>MaxAttempts := 1\<rparr> else j2);
          j4 = (if JobCreatedAt j3 = 0 then j3\<lparr>JobCreatedAt := now\<rparr> else j3);
          j5 = (if JobUpdatedAt j4 = 0 then j4\<lparr>JobUpdatedAt := now\<rparr> else j4)
      in (if AvailableAt j5 = 0 then j5\<lparr>AvailableAt := now\<rparr> else j5))"

lemma enqueue_defaults_simps [simp]:
  "JobID (enqueue_defaults now j) = JobID j" "JobType (enqueue_defaults now j) = JobType j"
  "State (enqueue_defaults now j) = State j" "JobTenantID (enqueue_defaults now j) = JobTenantID j"
  "Attempts (enqueue_defaults now j) = Attempts j" "Payload (enqueue_defaults now j) = Payload j"
  "MaxAttempts (enqueue_defaults now j) = (if MaxAttempts j = 0 then 1 else MaxAttempts j)"
  by (simp_all add: enqueue_defaults_def Let_def)

definition Queue_Enqueue :: "gctx \<Rightarrow> gtime \<Rightarrow> queue \<Rightarrow> job \<Rightarrow> queue \<times> (go_error + job)" where
  "Queue_Enqueue ctx now q j0 =
     (case CtxErr ctx of Some e \<Rightarrow> (q, Inl e) | None \<Rightarrow>
     (case Job_Validate j0 of Some e \<Rightarrow> (q, Inl e) | None \<Rightarrow>
     (case Job_StampTenant ctx j0 of Inl e \<Rightarrow> (q, Inl e) | Inr j1 \<Rightarrow>
      if Jobs q (JobID j1) \<noteq> None
      then (q, Inl (Errorf ''async inmem: job %q already exists'' [JobID j1] None))
      else
        (let j2 = (if State j1 = JobStateOther [] then j1\<lparr>State := JobQueued\<rparr> else j1) in
         if State j2 \<noteq> JobQueued then (q, Inl ErrInvalidJob)
         else
           (let j = CloneJob (enqueue_defaults now j2)
            in ((put_job q j)\<lparr>Order := Order q @ [JobID j]\<rparr>, Inr (CloneJob j)))))))"

definition leaseable :: "job \<Rightarrow> gtime \<Rightarrow> bool" where
  "leaseable j now =
     (if State j = JobQueued then \<not> now < AvailableAt j
      else if State j = JobRunning \<and> JobLeaseExpiresAt j < now then True
      else False)"

text \<open>The job as \<^verbatim>\<open>Lease\<close> hands it to a worker.\<close>

definition take_lease :: "job \<Rightarrow> string \<Rightarrow> duration \<Rightarrow> gtime \<Rightarrow> job" where
  "take_lease j workerID ttl now =
     j\<lparr>State := JobRunning, Attempts := i64 (Attempts j + 1), LeaseWorkerID := workerID,
       JobLeaseExpiresAt := now + ttl, JobUpdatedAt := now\<rparr>"

fun lease_loop ::
  "queue \<Rightarrow> string \<Rightarrow> duration \<Rightarrow> gtime \<Rightarrow> string list \<Rightarrow> queue \<times> job_lease option" where
  "lease_loop q workerID ttl now [] = (q, None)"
| "lease_loop q workerID ttl now (jobID # order) =
     (let j0 = job_at q jobID in
      if \<not> leaseable j0 now then lease_loop q workerID ttl now order
      else (let j = take_lease j0 workerID ttl now
            in (put_job q j,
                Some \<lparr>LeaseJobID = JobID j, WorkerID = workerID, Attempt = Attempts j,
                      ExpiresAt = JobLeaseExpiresAt j\<rparr>)))"

definition Queue_Lease ::
  "gctx \<Rightarrow> gtime \<Rightarrow> queue \<Rightarrow> string \<Rightarrow> duration \<Rightarrow> queue \<times> (go_error + job_lease option)" where
  "Queue_Lease ctx now q workerID ttl =
     (case CtxErr ctx of Some e \<Rightarrow> (q, Inl e) | None \<Rightarrow>
      if workerID = [] \<or> ttl \<le> 0 then (q, Inl ErrStaleLease)
      else (case lease_loop q workerID ttl now (Order q) of (q', got) \<Rightarrow> (q', Inr got)))"

definition Queue_Load :: "gctx \<Rightarrow> queue \<Rightarrow> string \<Rightarrow> go_error + job" where
  "Queue_Load ctx q jobID =
     (case CtxErr ctx of Some e \<Rightarrow> Inl e | None \<Rightarrow>
     (case Jobs q jobID of None \<Rightarrow> Inl ErrJobNotFound | Some j \<Rightarrow>
     (case Job_AuthorizeTenant ctx j of Some e \<Rightarrow> Inl e | None \<Rightarrow> Inr (CloneJob j))))"

definition leasedJob :: "queue \<Rightarrow> job_lease \<Rightarrow> go_error + job" where
  "leasedJob q ls =
     (case Jobs q (LeaseJobID ls) of
        None \<Rightarrow> Inl ErrJobNotFound
      | Some j \<Rightarrow>
          if State j \<noteq> JobRunning \<or> LeaseWorkerID j \<noteq> WorkerID ls \<or> Attempts j \<noteq> Attempt ls
          then Inl ErrStaleLease else Inr j)"

definition Queue_Renew ::
  "gctx \<Rightarrow> gtime \<Rightarrow> queue \<Rightarrow> job_lease \<Rightarrow> duration \<Rightarrow> queue \<times> (go_error + job_lease option)" where
  "Queue_Renew ctx now q ls ttl =
     (case CtxErr ctx of Some e \<Rightarrow> (q, Inl e) | None \<Rightarrow>
     (case JobLease_Validate ls of Some e \<Rightarrow> (q, Inl e) | None \<Rightarrow>
      if ttl \<le> 0 then (q, Inl ErrStaleLease)
      else (case leasedJob q ls of Inl e \<Rightarrow> (q, Inl e) | Inr j0 \<Rightarrow>
              (let j = j0\<lparr>JobLeaseExpiresAt := now + ttl, JobUpdatedAt := now\<rparr>
               in (put_job q j, Inr (Some (ls\<lparr>ExpiresAt := JobLeaseExpiresAt j\<rparr>)))))))"

definition drop_lease :: "job \<Rightarrow> gtime \<Rightarrow> job" where
  "drop_lease j now = j\<lparr>LeaseWorkerID := [], JobLeaseExpiresAt := 0, JobUpdatedAt := now\<rparr>"

definition Queue_Complete :: "gctx \<Rightarrow> gtime \<Rightarrow> queue \<Rightarrow> job_lease \<Rightarrow> queue \<times> go_error option" where
  "Queue_Complete ctx now q ls =
     (case CtxErr ctx of Some e \<Rightarrow> (q, Some e) | None \<Rightarrow>
     (case JobLease_Validate ls of Some e \<Rightarrow> (q, Some e) | None \<Rightarrow>
     (case leasedJob q ls of Inl e \<Rightarrow> (q, Some e) | Inr j \<Rightarrow>
        (put_job q (drop_lease (j\<lparr>State := JobCompleted\<rparr>) now), None))))"

text \<open>\<open>marshal\<close> is \<^verbatim>\<open>json.Marshal\<close> of the pause result (a run id and a token).\<close>

definition Queue_Pause ::
  "(string \<times> string \<Rightarrow> go_error + string) \<Rightarrow> gctx \<Rightarrow> gtime \<Rightarrow> queue \<Rightarrow> job_lease
     \<Rightarrow> string \<times> string \<Rightarrow> queue \<times> go_error option" where
  "Queue_Pause marshal ctx now q ls result =
     (case CtxErr ctx of Some e \<Rightarrow> (q, Some e) | None \<Rightarrow>
     (case JobLease_Validate ls of Some e \<Rightarrow> (q, Some e) | None \<Rightarrow>
     (case leasedJob q ls of Inl e \<Rightarrow> (q, Some e) | Inr j \<Rightarrow>
     (case marshal result of Inl e \<Rightarrow> (q, Some e) | Inr raw \<Rightarrow>
        (put_job q (drop_lease (j\<lparr>State := JobPaused, LastError := raw\<rparr>) now), None)))))"

definition Queue_Fail ::
  "(go_error \<Rightarrow> string) \<Rightarrow> gctx \<Rightarrow> gtime \<Rightarrow> queue \<Rightarrow> job_lease \<Rightarrow> go_error option
     \<Rightarrow> queue \<times> go_error option" where
  "Queue_Fail error_text ctx now q ls cause =
     (case CtxErr ctx of Some e \<Rightarrow> (q, Some e) | None \<Rightarrow>
     (case JobLease_Validate ls of Some e \<Rightarrow> (q, Some e) | None \<Rightarrow>
     (case leasedJob q ls of Inl e \<Rightarrow> (q, Some e) | Inr j0 \<Rightarrow>
        (let j1 = (case cause of None \<Rightarrow> j0 | Some c \<Rightarrow> j0\<lparr>LastError := error_text c\<rparr>);
             j2 = drop_lease j1 now;
             j3 = (if MaxAttempts j2 \<le> Attempts j2 then j2\<lparr>State := JobDeadLetter\<rparr>
                   else j2\<lparr>State := JobQueued, AvailableAt := JobUpdatedAt j2\<rparr>)
         in (put_job q j3, None)))))"

definition Queue_Release :: "gctx \<Rightarrow> gtime \<Rightarrow> queue \<Rightarrow> job_lease \<Rightarrow> queue \<times> go_error option" where
  "Queue_Release ctx now q ls =
     (case CtxErr ctx of Some e \<Rightarrow> (q, Some e) | None \<Rightarrow>
     (case JobLease_Validate ls of Some e \<Rightarrow> (q, Some e) | None \<Rightarrow>
     (case leasedJob q ls of Inl e \<Rightarrow> (q, Some e) | Inr j \<Rightarrow>
        (put_job q ((drop_lease (j\<lparr>State := JobQueued\<rparr>) now)\<lparr>AvailableAt := now\<rparr>), None))))"

definition Queue_Cancel :: "gctx \<Rightarrow> gtime \<Rightarrow> queue \<Rightarrow> string \<Rightarrow> queue \<times> go_error option" where
  "Queue_Cancel ctx now q jobID =
     (case CtxErr ctx of Some e \<Rightarrow> (q, Some e) | None \<Rightarrow>
     (case Jobs q jobID of None \<Rightarrow> (q, Some ErrJobNotFound) | Some j \<Rightarrow>
     (case Job_AuthorizeTenant ctx j of Some e \<Rightarrow> (q, Some e) | None \<Rightarrow>
        if State j = JobCompleted \<or> State j = JobDeadLetter then (q, None)
        else (put_job q (drop_lease (j\<lparr>State := JobCancelled\<rparr>) now), None))))"

definition job_matches :: "job_filter \<Rightarrow> job \<Rightarrow> bool" where
  "job_matches flt j \<longleftrightarrow>
     \<not> (JobFilterState flt \<noteq> JobStateOther [] \<and> State j \<noteq> JobFilterState flt)
     \<and> \<not> (JobFilterTenantID flt \<noteq> [] \<and> JobTenantID j \<noteq> JobFilterTenantID flt)"

fun list_jobs_loop :: "queue \<Rightarrow> job_filter \<Rightarrow> string list \<Rightarrow> job list \<Rightarrow> job list" where
  "list_jobs_loop q flt [] out = out"
| "list_jobs_loop q flt (jobID # order) out =
     (let j = job_at q jobID in
      if \<not> job_matches flt j then list_jobs_loop q flt order out
      else (let out' = out @ [CloneJob j] in
            if 0 < JobFilterLimit flt \<and> JobFilterLimit flt \<le> int (length out') then out'
            else list_jobs_loop q flt order out'))"

definition Queue_ListJobs :: "gctx \<Rightarrow> queue \<Rightarrow> job_filter \<Rightarrow> go_error + job list" where
  "Queue_ListJobs ctx q flt0 =
     (case CtxErr ctx of Some e \<Rightarrow> Inl e | None \<Rightarrow>
     (case ScopeJobFilter ctx flt0 of Inl e \<Rightarrow> Inl e | Inr flt \<Rightarrow>
        Inr (list_jobs_loop q flt (Order q) [])))"

definition Queue_Requeue :: "gctx \<Rightarrow> gtime \<Rightarrow> queue \<Rightarrow> string \<Rightarrow> queue \<times> go_error option" where
  "Queue_Requeue ctx now q jobID =
     (case CtxErr ctx of Some e \<Rightarrow> (q, Some e) | None \<Rightarrow>
     (case Jobs q jobID of None \<Rightarrow> (q, Some ErrJobNotFound) | Some j \<Rightarrow>
     (case Job_AuthorizeTenant ctx j of Some e \<Rightarrow> (q, Some e) | None \<Rightarrow>
        if State j \<noteq> JobDeadLetter then (q, Some ErrInvalidJob)
        else (q\<lparr>Jobs := (Jobs q)(jobID \<mapsto>
                j\<lparr>State := JobQueued, Attempts := 0, LastError := [], AvailableAt := now,
                  JobUpdatedAt := now, LeaseWorkerID := [], JobLeaseExpiresAt := 0\<rparr>)\<rparr>, None))))"

section \<open>Authorized access and metrics\<close>

definition Job_LoadAuthorized :: "gctx \<Rightarrow> queue \<Rightarrow> string \<Rightarrow> go_error + job" where
  "Job_LoadAuthorized ctx q jobID =
     (case Queue_Load ctx q jobID of Inl e \<Rightarrow> Inl e | Inr j \<Rightarrow>
     (case Job_AuthorizeTenant ctx j of Some e \<Rightarrow> Inl e | None \<Rightarrow> Inr j))"

definition CancelAuthorized :: "gctx \<Rightarrow> gtime \<Rightarrow> queue \<Rightarrow> string \<Rightarrow> queue \<times> go_error option" where
  "CancelAuthorized ctx now q jobID =
     (case Job_LoadAuthorized ctx q jobID of Inl e \<Rightarrow> (q, Some e)
      | Inr _ \<Rightarrow> Queue_Cancel ctx now q jobID)"

definition RequeueAuthorized :: "gctx \<Rightarrow> gtime \<Rightarrow> queue \<Rightarrow> string \<Rightarrow> queue \<times> go_error option" where
  "RequeueAuthorized ctx now q jobID =
     (case Job_LoadAuthorized ctx q jobID of Inl e \<Rightarrow> (q, Some e)
      | Inr _ \<Rightarrow> Queue_Requeue ctx now q jobID)"

record queue_metrics =
  Queued :: nat
  Running :: nat
  DeadLetter :: nat

fun count_states :: "job list \<Rightarrow> queue_metrics \<Rightarrow> queue_metrics" where
  "count_states [] m = m"
| "count_states (j # js) m =
     count_states js
       (case State j of
          JobQueued \<Rightarrow> m\<lparr>Queued := Queued m + 1\<rparr>
        | JobRunning \<Rightarrow> m\<lparr>Running := Running m + 1\<rparr>
        | JobDeadLetter \<Rightarrow> m\<lparr>DeadLetter := DeadLetter m + 1\<rparr>
        | _ \<Rightarrow> m)"

text \<open>The queue is the in-memory one, which is a \<^verbatim>\<open>JobAdmin\<close>.\<close>

definition CollectQueueMetrics :: "gctx \<Rightarrow> queue \<Rightarrow> go_error + queue_metrics" where
  "CollectQueueMetrics ctx q =
     (case Queue_ListJobs ctx q \<lparr>JobFilterState = JobStateOther [],
             JobFilterTenantID = TenantIDFromContext ctx, JobFilterLimit = 0\<rparr> of
        Inl e \<Rightarrow> Inl e
      | Inr js \<Rightarrow> Inr (count_states js \<lparr>Queued = 0, Running = 0, DeadLetter = 0\<rparr>))"

lemmas queue_defs =
  Queue_Enqueue_def Queue_Lease_def Queue_Renew_def Queue_Complete_def Queue_Pause_def Queue_Fail_def
  Queue_Release_def Queue_Cancel_def Queue_Requeue_def

end
