(* ===== verification/Job_Lifecycle.thy ===== *)
theory Job_Lifecycle
  imports Job_Queue
begin

text \<open>
  The in-memory job queue as a state machine. The locale \<open>lease_op\<close> is the contract that the five
  operations of a lease holder share (renew, complete, pause, fail, release): they act on the leased job
  or fail and change nothing. \<open>queue_step\<close> has one rule per operation of the queue that writes, with
  any caller and arguments; \<open>queue_run\<close> keeps the leases granted and the requeues made on the way.
\<close>

section \<open>The contract of a lease holder's operation\<close>

text \<open>What the operations of a holder never change of a job.\<close>

definition same_job :: "job \<Rightarrow> job \<Rightarrow> bool" where
  "same_job j j' \<longleftrightarrow> JobID j' = JobID j \<and> Attempts j' = Attempts j \<and> MaxAttempts j' = MaxAttempts j
     \<and> JobTenantID j' = JobTenantID j \<and> JobType j' = JobType j \<and> Payload j' = Payload j"

locale lease_op =
  fixes oper :: "'e \<Rightarrow> queue \<Rightarrow> job_lease \<Rightarrow> queue \<times> go_error option"
    and outcome :: "job \<Rightarrow> job_state \<Rightarrow> bool"
  assumes oper_ok: "oper e q ls = (q', None) \<Longrightarrow>
      \<exists>j j'. leasedJob q ls = Inr j \<and> q' = put_job q j' \<and> same_job j j' \<and> outcome j (State j')
        \<and> (State j' = JobRunning \<longrightarrow> LeaseWorkerID j' = LeaseWorkerID j)"
    and oper_error: "oper e q ls = (q', Some err) \<Longrightarrow> q' = q"
    and outcome_from_running: "outcome j s \<Longrightarrow> s \<in> {JobRunning, JobCompleted, JobPaused, JobQueued, JobDeadLetter}"
begin

lemma stale_rejected:
  assumes "leasedJob q ls = Inl err" shows "fst (oper e q ls) = q \<and> snd (oper e q ls) \<noteq> None"
proof -
  obtain q' res where o: "oper e q ls = (q', res)" by fastforce
  with assms oper_ok [of e q ls q'] have "res \<noteq> None" by auto
  with o oper_error show ?thesis by auto
qed

lemma oper_jobs:
  assumes "oper e q ls = (q', res)"
  shows "Order q' = Order q"
    and "Jobs q' = Jobs q \<or> (\<exists>j j'. leasedJob q ls = Inr j \<and> Jobs q' = (Jobs q)(JobID j \<mapsto> j')
           \<and> same_job j j' \<and> outcome j (State j')
           \<and> (State j' = JobRunning \<longrightarrow> LeaseWorkerID j' = LeaseWorkerID j))"
proof -
  have "Order q' = Order q \<and> (Jobs q' = Jobs q \<or> (\<exists>j j'. leasedJob q ls = Inr j
     \<and> Jobs q' = (Jobs q)(JobID j \<mapsto> j') \<and> same_job j j' \<and> outcome j (State j')
     \<and> (State j' = JobRunning \<longrightarrow> LeaseWorkerID j' = LeaseWorkerID j)))"
  proof (cases res)
    case None
    with assms oper_ok obtain j j' where "leasedJob q ls = Inr j" "q' = put_job q j'" "same_job j j'"
      "outcome j (State j')" "State j' = JobRunning \<longrightarrow> LeaseWorkerID j' = LeaseWorkerID j" by blast
    then show ?thesis by (auto simp: put_job_def same_job_def)
  next
    case (Some err)
    with assms oper_error show ?thesis by blast
  qed
  then show "Order q' = Order q" and "Jobs q' = Jobs q \<or> (\<exists>j j'. leasedJob q ls = Inr j
     \<and> Jobs q' = (Jobs q)(JobID j \<mapsto> j') \<and> same_job j j' \<and> outcome j (State j')
     \<and> (State j' = JobRunning \<longrightarrow> LeaseWorkerID j' = LeaseWorkerID j))"
    by blast+
qed

end

lemma CloneJob_id [simp]: "CloneJob j = j"
  by (cases j) (simp add: CloneJob_def split: option.splits)

lemma leasedJob_Inr:
  "leasedJob q ls = Inr j \<longleftrightarrow> Jobs q (LeaseJobID ls) = Some j \<and> State j = JobRunning
     \<and> LeaseWorkerID j = WorkerID ls \<and> Attempts j = Attempt ls"
  by (auto simp: leasedJob_def split: option.splits if_splits)

definition renew_op :: "gctx \<times> gtime \<times> duration \<Rightarrow> queue \<Rightarrow> job_lease \<Rightarrow> queue \<times> go_error option" where
  "renew_op e q ls = (case Queue_Renew (fst e) (fst (snd e)) q ls (snd (snd e)) of
     (q', Inl err) \<Rightarrow> (q', Some err) | (q', Inr _) \<Rightarrow> (q', None))"

definition fail_outcome :: "job \<Rightarrow> job_state \<Rightarrow> bool" where
  "fail_outcome j s \<longleftrightarrow> s = (if MaxAttempts j \<le> Attempts j then JobDeadLetter else JobQueued)"

interpretation renew: lease_op renew_op "\<lambda>_ s. s = JobRunning"
  by unfold_locales
    (auto simp: renew_op_def Queue_Renew_def same_job_def Let_def leasedJob_Inr
      split: option.splits sum.splits if_splits prod.splits)

interpretation complete: lease_op "\<lambda>(ctx, now). Queue_Complete ctx now" "\<lambda>_ s. s = JobCompleted"
  by unfold_locales
    (auto simp: Queue_Complete_def drop_lease_def same_job_def
      split: option.splits sum.splits if_splits prod.splits)

interpretation pause: lease_op "\<lambda>(marshal, ctx, now, result) q ls. Queue_Pause marshal ctx now q ls result"
    "\<lambda>_ s. s = JobPaused"
  by unfold_locales
    (auto simp: Queue_Pause_def drop_lease_def same_job_def
      split: option.splits sum.splits if_splits prod.splits)

text \<open>The job a failure leaves behind.\<close>

definition failed_job :: "(go_error \<Rightarrow> string) \<Rightarrow> gtime \<Rightarrow> go_error option \<Rightarrow> job \<Rightarrow> job" where
  "failed_job error_text now cause j0 =
     (let j1 = (case cause of None \<Rightarrow> j0 | Some c \<Rightarrow> j0\<lparr>LastError := error_text c\<rparr>);
          j2 = drop_lease j1 now
      in if MaxAttempts j2 \<le> Attempts j2 then j2\<lparr>State := JobDeadLetter\<rparr>
         else j2\<lparr>State := JobQueued, AvailableAt := JobUpdatedAt j2\<rparr>)"

lemma Queue_Fail_ok:
  "Queue_Fail error_text ctx now q ls cause = (q', None) \<Longrightarrow>
     \<exists>j. leasedJob q ls = Inr j \<and> q' = put_job q (failed_job error_text now cause j)"
  by (auto simp: Queue_Fail_def failed_job_def Let_def split: option.splits sum.splits)

lemma failed_job_simps [simp]:
  "same_job j (failed_job error_text now cause j)"
  "State (failed_job error_text now cause j) = (if MaxAttempts j \<le> Attempts j then JobDeadLetter else JobQueued)"
  by (auto simp: failed_job_def same_job_def drop_lease_def Let_def split: option.splits)

interpretation fail: lease_op "\<lambda>(error_text, ctx, now, cause) q ls. Queue_Fail error_text ctx now q ls cause"
    fail_outcome
proof unfold_locales
  fix e q ls q'
  assume "(case e of (error_text, ctx, now, cause) \<Rightarrow>
      \<lambda>q ls. Queue_Fail error_text ctx now q ls cause) q ls = (q', None)"
  then obtain error_text now cause j where "leasedJob q ls = Inr j" "q' = put_job q (failed_job error_text now cause j)"
    by (auto split: prod.splits dest: Queue_Fail_ok)
  then show "\<exists>j j'. leasedJob q ls = Inr j \<and> q' = put_job q j' \<and> same_job j j' \<and> fail_outcome j (State j')
      \<and> (State j' = JobRunning \<longrightarrow> LeaseWorkerID j' = LeaseWorkerID j)"
    by (intro exI [of _ j] exI [of _ "failed_job error_text now cause j"]) (simp add: fail_outcome_def)
qed (auto simp: Queue_Fail_def fail_outcome_def Let_def
      split: option.splits sum.splits if_splits prod.splits)

interpretation release: lease_op "\<lambda>(ctx, now). Queue_Release ctx now" "\<lambda>_ s. s = JobQueued"
  by unfold_locales
    (auto simp: Queue_Release_def drop_lease_def same_job_def
      split: option.splits sum.splits if_splits prod.splits)

section \<open>Steps\<close>

text \<open>A step of a holder: one of the five operations, with a lease of any client.\<close>

inductive holder_step :: "queue \<Rightarrow> queue \<Rightarrow> bool" where
  renew: "renew_op e q ls = (q', res) \<Longrightarrow> holder_step q q'"
| complete: "Queue_Complete ctx now q ls = (q', res) \<Longrightarrow> holder_step q q'"
| pause: "Queue_Pause marshal ctx now q ls result = (q', res) \<Longrightarrow> holder_step q q'"
| fail: "Queue_Fail error_text ctx now q ls cause = (q', res) \<Longrightarrow> holder_step q q'"
| release: "Queue_Release ctx now q ls = (q', res) \<Longrightarrow> holder_step q q'"

inductive queue_step :: "queue \<Rightarrow> queue \<Rightarrow> bool" where
  enqueue: "Queue_Enqueue ctx now q j = (q', res) \<Longrightarrow> queue_step q q'"
| lease: "Queue_Lease ctx now q workerID ttl = (q', got) \<Longrightarrow> queue_step q q'"
| holder: "holder_step q q' \<Longrightarrow> queue_step q q'"
| cancel: "Queue_Cancel ctx now q jobID = (q', err) \<Longrightarrow> queue_step q q'"
| requeue: "Queue_Requeue ctx now q jobID = (q', err) \<Longrightarrow> queue_step q q'"

inductive queue_reachable :: "queue \<Rightarrow> bool" where
  start: "queue_reachable NewQueue"
| step: "queue_reachable q \<Longrightarrow> queue_step q q' \<Longrightarrow> queue_reachable q'"

text \<open>The edges of the job state machine.\<close>

definition job_edge :: "job_state \<Rightarrow> job_state \<Rightarrow> bool" where
  "job_edge s s' \<longleftrightarrow>
     s = JobQueued \<and> s' = JobRunning
     \<or> s = JobRunning \<and> s' \<in> {JobRunning, JobCompleted, JobPaused, JobQueued, JobDeadLetter}
     \<or> s \<notin> {JobCompleted, JobDeadLetter} \<and> s' = JobCancelled
     \<or> s = JobDeadLetter \<and> s' = JobQueued"

text \<open>What a step does to a job that exists: nothing, or a change along an edge.\<close>

definition job_change :: "job \<Rightarrow> job \<Rightarrow> bool" where
  "job_change j j' \<longleftrightarrow> j' = j \<or> JobID j' = JobID j \<and> MaxAttempts j' = MaxAttempts j
     \<and> JobTenantID j' = JobTenantID j \<and> job_edge (State j) (State j')
     \<and> (State j' = JobRunning \<longrightarrow> LeaseWorkerID j' \<noteq> [])
     \<and> (State j \<noteq> JobDeadLetter \<longrightarrow> Attempts j' = Attempts j
          \<or> Attempts j' = i64 (Attempts j + 1) \<and> State j' = JobRunning)"

definition new_job :: "job \<Rightarrow> bool" where
  "new_job j \<longleftrightarrow> State j = JobQueued \<and> JobID j \<noteq> [] \<and> JobType j \<noteq> [] \<and> 1 \<le> MaxAttempts j"

text \<open>The invariant: jobs sit under their own id, in submission order without repetition.\<close>

definition job_ok :: "job \<Rightarrow> bool" where
  "job_ok j \<longleftrightarrow> JobID j \<noteq> [] \<and> 1 \<le> MaxAttempts j
     \<and> (State j = JobRunning \<longrightarrow> LeaseWorkerID j \<noteq> [])
     \<and> State j \<in> {JobQueued, JobRunning, JobCompleted, JobPaused, JobCancelled, JobDeadLetter}"

definition queue_inv :: "queue \<Rightarrow> bool" where
  "queue_inv q \<longleftrightarrow> distinct (Order q) \<and> set (Order q) = dom (Jobs q)
     \<and> (\<forall>jobID j. Jobs q jobID = Some j \<longrightarrow> JobID j = jobID \<and> job_ok j)"

section \<open>Effects of the operations\<close>

text \<open>Every operation leaves the queue alone, changes one job along an edge, or adds one job.\<close>

definition queue_effect :: "queue \<Rightarrow> queue \<Rightarrow> bool" where
  "queue_effect q q' \<longleftrightarrow> q' = q
     \<or> (\<exists>j j'. Jobs q (JobID j) = Some j \<and> job_change j j' \<and> JobID j' = JobID j
          \<and> Jobs q' = (Jobs q)(JobID j \<mapsto> j') \<and> Order q' = Order q)
     \<or> (\<exists>j'. Jobs q (JobID j') = None \<and> new_job j'
          \<and> Jobs q' = (Jobs q)(JobID j' \<mapsto> j') \<and> Order q' = Order q @ [JobID j'])"

lemma queue_effect_job:
  assumes "queue_inv q" and "Jobs q jobID = Some j" and "job_change j j'"
    and "Jobs q' = (Jobs q)(jobID \<mapsto> j')" and "Order q' = Order q"
  shows "queue_effect q q'"
proof -
  from assms(1,2) have "JobID j = jobID" by (auto simp: queue_inv_def)
  moreover from this assms(3) have "JobID j' = jobID" by (auto simp: job_change_def)
  ultimately show ?thesis using assms unfolding queue_effect_def by blast
qed

lemma Queue_Enqueue_effect:
  "Queue_Enqueue ctx now q j = (q', res) \<Longrightarrow> queue_effect q q'"
proof (cases res)
  case (Inl e)
  assume "Queue_Enqueue ctx now q j = (q', res)"
  with Inl have "q' = q"
    by (auto simp: Queue_Enqueue_def Let_def split: option.splits sum.splits if_splits)
  then show ?thesis by (simp add: queue_effect_def)
next
  case (Inr j')
  assume "Queue_Enqueue ctx now q j = (q', res)"
  with Inr have "Jobs q (JobID j') = None \<and> new_job j' \<and> q' = (put_job q j')\<lparr>Order := Order q @ [JobID j']\<rparr>"
    by (auto simp: Queue_Enqueue_def Job_Validate_def Job_StampTenant_def new_job_def Let_def
        split: option.splits sum.splits if_splits)
  then show ?thesis unfolding queue_effect_def put_job_def by auto
qed

lemma zero_job_not_leaseable: "leaseable (job_at q jobID) now \<Longrightarrow> Jobs q jobID = Some (job_at q jobID)"
  by (auto simp: leaseable_def job_at_def zero_job_def split: option.splits)

text \<open>A lease goes to the first leaseable job of the submission order.\<close>

lemma lease_loop_None:
  "lease_loop q workerID ttl now order = (q', None) \<longleftrightarrow>
     q' = q \<and> (\<forall>jobID \<in> set order. \<not> leaseable (job_at q jobID) now)"
  by (induction order) (auto simp: Let_def)

lemma lease_loop_Some:
  assumes "lease_loop q workerID ttl now order = (q', Some ls)"
  obtains pre jobID post where "order = pre @ jobID # post"
    "\<forall>p \<in> set pre. \<not> leaseable (job_at q p) now" "leaseable (job_at q jobID) now"
    "q' = put_job q (take_lease (job_at q jobID) workerID ttl now)"
    "ls = \<lparr>LeaseJobID = JobID (job_at q jobID), WorkerID = workerID,
           Attempt = i64 (Attempts (job_at q jobID) + 1), ExpiresAt = now + ttl\<rparr>"
  using assms
proof (induction order arbitrary: thesis)
  case (Cons jobID order)
  show ?case
  proof (cases "leaseable (job_at q jobID) now")
    case True
    with Cons.prems(2) show ?thesis
      by (intro Cons.prems(1) [of "[]" jobID order]) (auto simp: take_lease_def Let_def)
  next
    case False
    with Cons.prems(2) have "lease_loop q workerID ttl now order = (q', Some ls)" by (simp add: Let_def)
    with Cons.IH obtain pre k post where "order = pre @ k # post"
      "\<forall>p \<in> set pre. \<not> leaseable (job_at q p) now" "leaseable (job_at q k) now"
      "q' = put_job q (take_lease (job_at q k) workerID ttl now)"
      "ls = \<lparr>LeaseJobID = JobID (job_at q k), WorkerID = workerID,
             Attempt = i64 (Attempts (job_at q k) + 1), ExpiresAt = now + ttl\<rparr>"
      by metis
    with False Cons.prems(1) [of "jobID # pre" k post] show ?thesis by simp
  qed
qed simp

lemma Queue_Lease_cases:
  assumes "Queue_Lease ctx now q workerID ttl = (q', got)" and "queue_inv q"
  obtains (none) "q' = q" "\<forall>ls. got \<noteq> Inr (Some ls)"
  | (granted) pre jobID post j where "Order q = pre @ jobID # post"
      "\<forall>p \<in> set pre. \<not> leaseable (job_at q p) now" "Jobs q jobID = Some j" "leaseable j now"
      "workerID \<noteq> []" "0 < ttl" "q' = put_job q (take_lease j workerID ttl now)"
      "got = Inr (Some \<lparr>LeaseJobID = jobID, WorkerID = workerID,
           Attempt = i64 (Attempts j + 1), ExpiresAt = now + ttl\<rparr>)"
proof (cases "\<exists>ls. got = Inr (Some ls)")
  case True
  then obtain ls where "got = Inr (Some ls)" by blast
  with assms(1) have lp: "lease_loop q workerID ttl now (Order q) = (q', Some ls)"
    and arg: "workerID \<noteq> []" "0 < ttl"
    by (auto simp: Queue_Lease_def split: option.splits if_splits prod.splits)
  show ?thesis
  proof (rule lease_loop_Some [OF lp])
    fix pre jobID post
    assume *: "Order q = pre @ jobID # post" "\<forall>p \<in> set pre. \<not> leaseable (job_at q p) now"
      "leaseable (job_at q jobID) now" "q' = put_job q (take_lease (job_at q jobID) workerID ttl now)"
      "ls = \<lparr>LeaseJobID = JobID (job_at q jobID), WorkerID = workerID,
           Attempt = i64 (Attempts (job_at q jobID) + 1), ExpiresAt = now + ttl\<rparr>"
    from zero_job_not_leaseable [OF *(3)] assms(2) have "Jobs q jobID = Some (job_at q jobID)"
      and "JobID (job_at q jobID) = jobID" by (auto simp: queue_inv_def)
    with * arg \<open>got = Inr (Some ls)\<close> show ?thesis by (intro granted) auto
  qed
next
  case False
  with assms(1) none show ?thesis
    by (auto simp: Queue_Lease_def lease_loop_None split: option.splits if_splits prod.splits)
qed

lemma Queue_Lease_effect:
  assumes "Queue_Lease ctx now q workerID ttl = (q', got)" and "queue_inv q"
  shows "queue_effect q q'"
  using assms
proof (cases rule: Queue_Lease_cases)
  case none
  then show ?thesis by (simp add: queue_effect_def)
next
  case (granted pre jobID post j)
  from assms(2) granted have id: "JobID j = jobID" by (auto simp: queue_inv_def)
  from granted(4) have "State j = JobQueued \<or> State j = JobRunning"
    by (auto simp: leaseable_def split: if_splits)
  with granted(5) have "job_change j (take_lease j workerID ttl now)"
    by (elim disjE) (simp_all add: job_change_def take_lease_def job_edge_def)
  with granted id show ?thesis
    by (intro queue_effect_job [OF assms(2)]) (auto simp: put_job_def take_lease_def)
qed

lemma holder_step_effect:
  assumes "holder_step q q'" and inv: "queue_inv q"
  shows "queue_effect q q'"
proof -
  have main: "queue_effect q q'" if "Order q' = Order q"
    and "Jobs q' = Jobs q \<or> (\<exists>ls j j'. leasedJob q ls = Inr j \<and> Jobs q' = (Jobs q)(JobID j \<mapsto> j')
         \<and> same_job j j' \<and> State j' \<in> {JobRunning, JobCompleted, JobPaused, JobQueued, JobDeadLetter}
         \<and> (State j' = JobRunning \<longrightarrow> LeaseWorkerID j' = LeaseWorkerID j))" for q'
    using that(2)
  proof (elim disjE exE conjE)
    assume "Jobs q' = Jobs q"
    with that(1) have "q' = q" by simp
    then show ?thesis by (simp add: queue_effect_def)
  next
    fix ls j j'
    assume "leasedJob q ls = Inr j" and u: "Jobs q' = (Jobs q)(JobID j \<mapsto> j')" "same_job j j'"
      "State j' \<in> {JobRunning, JobCompleted, JobPaused, JobQueued, JobDeadLetter}"
      "State j' = JobRunning \<longrightarrow> LeaseWorkerID j' = LeaseWorkerID j"
    then have j: "Jobs q (LeaseJobID ls) = Some j" "State j = JobRunning" by (auto simp: leasedJob_Inr)
    with inv have "JobID j = LeaseJobID ls" "LeaseWorkerID j \<noteq> []"
      by (auto simp: queue_inv_def job_ok_def)
    with j u show ?thesis
      by (intro queue_effect_job [OF inv _ _ u(1) that(1)]) (auto simp: job_change_def job_edge_def same_job_def)
  qed
  from assms(1) show ?thesis
  proof cases
    case (renew e ls res)
    note f = renew.oper_jobs [OF renew]
    show ?thesis
      by (rule main [OF f(1)]) (use f(2) in blast)
  next
    case (complete ctx now ls res)
    note f = complete.oper_jobs [of "(ctx, now)", unfolded prod.case, OF complete]
    show ?thesis by (rule main [OF f(1)]) (use f(2) in blast)
  next
    case (pause marshal ctx now ls result res)
    note f = pause.oper_jobs [of "(marshal, ctx, now, result)", unfolded prod.case, OF pause]
    show ?thesis by (rule main [OF f(1)]) (use f(2) in blast)
  next
    case (fail error_text ctx now ls cause res)
    note f = fail.oper_jobs [of "(error_text, ctx, now, cause)", unfolded prod.case, OF fail]
    show ?thesis
      by (rule main [OF f(1)]) (use f(2) fail.outcome_from_running in blast)
  next
    case (release ctx now ls res)
    note f = release.oper_jobs [of "(ctx, now)", unfolded prod.case, OF release]
    show ?thesis by (rule main [OF f(1)]) (use f(2) in blast)
  qed
qed

lemma queue_step_effect:
  assumes "queue_step q q'" and inv: "queue_inv q"
  shows "queue_effect q q'"
  using assms(1)
proof cases
  case (enqueue ctx now j res)
  then show ?thesis by (rule Queue_Enqueue_effect)
next
  case (lease ctx now workerID ttl got)
  then show ?thesis by (rule Queue_Lease_effect [OF _ inv])
next
  case holder
  then show ?thesis by (rule holder_step_effect [OF _ inv])
next
  case (cancel ctx now jobID err)
  show ?thesis
  proof (cases "q' = q")
    case False
    with cancel obtain j where j: "Jobs q jobID = Some j" "State j \<notin> {JobCompleted, JobDeadLetter}"
      "q' = put_job q (drop_lease (j\<lparr>State := JobCancelled\<rparr>) now)"
      by (auto simp: Queue_Cancel_def split: option.splits if_splits)
    with inv have "JobID j = jobID" by (auto simp: queue_inv_def)
    with j show ?thesis
      by (intro queue_effect_job [OF inv, of jobID j])
        (auto simp: job_change_def job_edge_def put_job_def drop_lease_def)
  qed (simp add: queue_effect_def)
next
  case (requeue ctx now jobID err)
  show ?thesis
  proof (cases "q' = q")
    case False
    with requeue obtain j where j: "Jobs q jobID = Some j" "State j = JobDeadLetter"
      "Order q' = Order q" "Jobs q' = (Jobs q)(jobID \<mapsto>
                j\<lparr>State := JobQueued, Attempts := 0, LastError := [], AvailableAt := now,
                  JobUpdatedAt := now, LeaseWorkerID := [], JobLeaseExpiresAt := 0\<rparr>)"
      by (auto simp: Queue_Requeue_def split: option.splits if_splits)
    then show ?thesis
      by (intro queue_effect_job [OF inv j(1) _ j(4,3)]) (auto simp: job_change_def job_edge_def)
  qed (simp add: queue_effect_def)
qed

section \<open>Invariants\<close>

lemma job_change_refl: "job_change j j"
  by (simp add: job_change_def)

lemma job_edge_target:
  "job_edge s s' \<Longrightarrow> s' \<in> {JobQueued, JobRunning, JobCompleted, JobPaused, JobCancelled, JobDeadLetter}"
  by (auto simp: job_edge_def)

lemma job_change_ok: "job_change j j' \<Longrightarrow> job_ok j \<Longrightarrow> job_ok j'"
  unfolding job_change_def job_ok_def by (metis job_edge_target)

lemma new_job_ok: "new_job j \<Longrightarrow> job_ok j"
  by (simp add: new_job_def job_ok_def)

lemma queue_effect_inv:
  assumes "queue_effect q q'" and "queue_inv q" shows "queue_inv q'"
  using assms(1) unfolding queue_effect_def
proof (elim disjE exE conjE)
  assume "q' = q" with assms(2) show ?thesis by simp
next
  fix j j'
  assume j: "Jobs q (JobID j) = Some j" "job_change j j'" "JobID j' = JobID j"
    and u: "Jobs q' = (Jobs q)(JobID j \<mapsto> j')" "Order q' = Order q"
  from assms(2) j(1) have "job_ok j" by (auto simp: queue_inv_def)
  with j(2) have "job_ok j'" by (rule job_change_ok)
  moreover from j(1) have "dom (Jobs q') = dom (Jobs q)" unfolding u(1) by auto
  ultimately show ?thesis using assms(2) j(3) by (simp add: queue_inv_def u)
next
  fix j'
  assume "Jobs q (JobID j') = None" "new_job j'" "Jobs q' = (Jobs q)(JobID j' \<mapsto> j')"
    "Order q' = Order q @ [JobID j']"
  with assms(2) show ?thesis
    by (auto simp: queue_inv_def intro: new_job_ok)
qed

lemma queue_step_inv: "queue_step q q' \<Longrightarrow> queue_inv q \<Longrightarrow> queue_inv q'"
  by (blast intro: queue_effect_inv queue_step_effect)

lemma NewQueue_inv [simp]: "queue_inv NewQueue"
  by (simp add: queue_inv_def NewQueue_def)

lemma queue_reachable_inv: "queue_reachable q \<Longrightarrow> queue_inv q"
  by (induction rule: queue_reachable.induct) (auto intro: queue_step_inv)

lemma queue_effect_change:
  "queue_effect q q' \<Longrightarrow> Jobs q jobID = Some j \<Longrightarrow> \<exists>j'. Jobs q' jobID = Some j' \<and> job_change j j'"
  using job_change_refl by (fastforce simp: queue_effect_def split: if_splits)

text \<open>A final job: completed or cancelled. No operation takes it out of that state.\<close>

definition final_state :: "job_state \<Rightarrow> bool" where
  "final_state s \<longleftrightarrow> s \<in> {JobCompleted, JobCancelled}"

lemma job_change_final: "job_change j j' \<Longrightarrow> final_state (State j) \<Longrightarrow> State j' = State j"
  by (auto simp: job_change_def job_edge_def final_state_def)

lemma queue_steps_final:
  assumes "queue_step\<^sup>*\<^sup>* q q'" and "queue_inv q" and "Jobs q jobID = Some j" and "final_state (State j)"
  shows "\<exists>j'. Jobs q' jobID = Some j' \<and> State j' = State j"
  using assms
proof (induction arbitrary: j rule: converse_rtranclp_induct)
  case (step q q1)
  note eff = queue_step_effect [OF step.hyps(1) step.prems(1)]
  from queue_effect_change [OF eff step.prems(2)] obtain j1
    where "Jobs q1 jobID = Some j1" and "job_change j j1" by blast
  with step.IH [OF queue_effect_inv [OF eff step.prems(1)]] job_change_final [of j j1] step.prems(3)
  show ?case by auto
qed simp

section \<open>Histories of leases\<close>

text \<open>
  A history of the queue, with the leases granted and the requeues made on the way, latest first. \<open>attempts_ok\<close> says
  the attempt counters can still be incremented.
\<close>

datatype queue_event = Granted job_lease | Requeued string

definition attempts_ok :: "queue \<Rightarrow> bool" where
  "attempts_ok q \<longleftrightarrow> (\<forall>jobID j. Jobs q jobID = Some j \<longrightarrow> - (2 ^ 63) \<le> Attempts j \<and> Attempts j < 2 ^ 63 - 1)"

inductive queue_run :: "queue \<Rightarrow> queue_event list \<Rightarrow> bool" where
  start: "queue_run NewQueue []"
| enqueue: "queue_run q h \<Longrightarrow> Queue_Enqueue ctx now q j = (q', res) \<Longrightarrow> queue_run q' h"
| lease: "queue_run q h \<Longrightarrow> attempts_ok q \<Longrightarrow> Queue_Lease ctx now q workerID ttl = (q', got) \<Longrightarrow>
     queue_run q' (case got of Inr (Some ls) \<Rightarrow> Granted ls # h | _ \<Rightarrow> h)"
| holder: "queue_run q h \<Longrightarrow> holder_step q q' \<Longrightarrow> queue_run q' h"
| cancel: "queue_run q h \<Longrightarrow> Queue_Cancel ctx now q jobID = (q', err) \<Longrightarrow> queue_run q' h"
| requeue: "queue_run q h \<Longrightarrow> Queue_Requeue ctx now q jobID = (q', err) \<Longrightarrow>
     queue_run q' (if err = None then Requeued jobID # h else h)"

text \<open>The leases of a job granted since it was last requeued, latest first.\<close>

primrec leases_since :: "string \<Rightarrow> queue_event list \<Rightarrow> job_lease list" where
  "leases_since jobID [] = []"
| "leases_since jobID (e # h) = (case e of
       Granted ls \<Rightarrow> if LeaseJobID ls = jobID then ls # leases_since jobID h else leases_since jobID h
     | Requeued k \<Rightarrow> if k = jobID then [] else leases_since jobID h)"

lemma leases_since_job: "g \<in> set (leases_since jobID h) \<Longrightarrow> LeaseJobID g = jobID"
  by (induction h) (auto split: queue_event.splits if_splits)

text \<open>Later leases of a job have higher attempt numbers, and none is above the job's counter.\<close>

definition leases_inv :: "queue \<Rightarrow> queue_event list \<Rightarrow> bool" where
  "leases_inv q h \<longleftrightarrow> (\<forall>jobID.
     (\<forall>g \<in> set (leases_since jobID h). \<exists>j. Jobs q jobID = Some j \<and> Attempt g \<le> Attempts j)
     \<and> sorted_wrt (\<lambda>a b. Attempt b < Attempt a) (leases_since jobID h))"

lemma leases_inv_mono:
  assumes "leases_inv q h"
    and "\<And>jobID j. Jobs q jobID = Some j \<Longrightarrow> \<exists>j'. Jobs q' jobID = Some j' \<and> Attempts j \<le> Attempts j'"
  shows "leases_inv q' h"
  using assms unfolding leases_inv_def by (meson order_trans)

lemma leases_inv_requeue:
  assumes "leases_inv q h" and "\<And>k. k \<noteq> jobID \<Longrightarrow> Jobs q' k = Jobs q k"
  shows "leases_inv q' (Requeued jobID # h)"
  using assms by (auto simp: leases_inv_def)

lemma holder_step_attempts:
  assumes "holder_step q q'" and "Jobs q jobID = Some j" and "queue_inv q"
  shows "\<exists>j'. Jobs q' jobID = Some j' \<and> Attempts j' = Attempts j"
proof -
  have main: ?thesis if "Jobs q' = Jobs q \<or> (\<exists>ls j j'. leasedJob q ls = Inr j
      \<and> Jobs q' = (Jobs q)(JobID j \<mapsto> j') \<and> same_job j j')"
    using that assms(2,3) by (auto simp: same_job_def leasedJob_Inr queue_inv_def)
  from assms(1) show ?thesis
  proof cases
    case (renew e ls res)
    show ?thesis using renew.oper_jobs(2) [OF renew] by (intro main) blast
  next
    case (complete ctx now ls res)
    show ?thesis using complete.oper_jobs(2) [of "(ctx, now)", unfolded prod.case, OF complete]
      by (intro main) blast
  next
    case (pause marshal ctx now ls result res)
    show ?thesis
      using pause.oper_jobs(2) [of "(marshal, ctx, now, result)", unfolded prod.case, OF pause]
      by (intro main) blast
  next
    case (fail error_text ctx now ls cause res)
    show ?thesis
      using fail.oper_jobs(2) [of "(error_text, ctx, now, cause)", unfolded prod.case, OF fail]
      by (intro main) blast
  next
    case (release ctx now ls res)
    show ?thesis using release.oper_jobs(2) [of "(ctx, now)", unfolded prod.case, OF release]
      by (intro main) blast
  qed
qed

lemma leases_inv_granted:
  assumes "leases_inv q h" and "attempts_ok q" and "Jobs q jobID = Some j" and "JobID j = jobID"
  shows "leases_inv (put_job q (take_lease j workerID ttl now))
    (Granted \<lparr>LeaseJobID = jobID, WorkerID = workerID, Attempt = i64 (Attempts j + 1), ExpiresAt = x\<rparr> # h)"
proof -
  from assms(2,3) have "- (2 ^ 63) \<le> Attempts j" and "Attempts j < 2 ^ 63 - 1"
    unfolding attempts_ok_def by blast+
  then have up: "i64 (Attempts j + 1) = Attempts j + 1" by (intro i64_id) simp_all
  have old: "Attempt g \<le> Attempts j" if "g \<in> set (leases_since jobID h)" for g
    using assms(1,3) that by (fastforce simp: leases_inv_def)
  then show ?thesis
    using assms(1,3,4) up unfolding leases_inv_def
    by (fastforce simp: put_job_def take_lease_def)
qed

lemma queue_effect_attempts:
  assumes "Queue_Cancel ctx now q jobID = (q', err) \<or> Queue_Enqueue ctx now q jb = (q', res)"
    and "Jobs q k = Some j" and "queue_inv q"
  shows "\<exists>j'. Jobs q' k = Some j' \<and> Attempts j' = Attempts j"
  using assms(1)
proof
  assume "Queue_Cancel ctx now q jobID = (q', err)"
  with assms(2,3) show ?thesis
    by (auto simp: Queue_Cancel_def put_job_def drop_lease_def queue_inv_def
        split: option.splits if_splits)
next
  assume "Queue_Enqueue ctx now q jb = (q', res)"
  with assms(2) show ?thesis
    by (auto simp: Queue_Enqueue_def put_job_def Let_def split: option.splits sum.splits if_splits)
qed

lemma queue_run_inv: "queue_run q h \<Longrightarrow> queue_inv q \<and> leases_inv q h"
proof (induction rule: queue_run.induct)
  case start
  show ?case by (simp add: leases_inv_def)
next
  case (enqueue q h ctx now j q' res)
  then have "queue_inv q'" by (blast intro: queue_effect_inv Queue_Enqueue_effect)
  moreover have "leases_inv q' h"
    by (rule leases_inv_mono [of q])
      (use enqueue queue_effect_attempts in \<open>fastforce+\<close>)
  ultimately show ?case ..
next
  case (lease q h ctx now workerID ttl q' got)
  then have inv: "queue_inv q" "leases_inv q h" by simp_all
  have "queue_inv q'"
    by (rule queue_effect_inv [OF Queue_Lease_effect [OF lease.hyps(3) inv(1)] inv(1)])
  moreover have "leases_inv q' (case got of Inr (Some ls) \<Rightarrow> Granted ls # h | _ \<Rightarrow> h)"
    using lease.hyps(3) inv(1)
  proof (cases rule: Queue_Lease_cases)
    case none
    with inv(2) show ?thesis by (auto split: sum.splits option.splits)
  next
    case (granted pre jobID post j)
    with inv(1) have "JobID j = jobID" by (auto simp: queue_inv_def)
    with leases_inv_granted [OF inv(2) lease.hyps(2) granted(3)] granted(7,8) show ?thesis by simp
  qed
  ultimately show ?case ..
next
  case (holder q h q')
  then have "queue_inv q'" by (blast intro: queue_effect_inv holder_step_effect)
  moreover have "leases_inv q' h"
    by (rule leases_inv_mono [of q])
      (use holder holder_step_attempts in \<open>fastforce+\<close>)
  ultimately show ?case ..
next
  case (cancel q h ctx now jobID q' err)
  then have "queue_inv q'" by (blast intro: queue_step_inv queue_step.cancel)
  moreover have "leases_inv q' h"
    by (rule leases_inv_mono [of q])
      (use cancel queue_effect_attempts in \<open>fastforce+\<close>)
  ultimately show ?case ..
next
  case (requeue q h ctx now jobID q' err)
  then have "queue_inv q'" by (blast intro: queue_step_inv queue_step.requeue)
  moreover have "leases_inv q' (if err = None then Requeued jobID # h else h)"
    using requeue.hyps(2) requeue.IH leases_inv_requeue [of q h jobID q']
    by (auto simp: Queue_Requeue_def split: option.splits if_splits)
  ultimately show ?case ..
qed

text \<open>A lease that another lease of the same job followed is no longer the lease of the job.\<close>

lemma superseded_not_leased:
  assumes "queue_run q h" and "leases_since jobID h = gs" and "i < k" and "k < length gs"
  shows "\<exists>err. leasedJob q (gs ! k) = Inl err"
proof -
  from queue_run_inv [OF assms(1)] have inv: "leases_inv q h" by simp
  with assms(2-) have "Attempt (gs ! k) < Attempt (gs ! i)"
    by (auto simp: leases_inv_def sorted_wrt_iff_nth_less)
  moreover from inv assms(2-) have "\<exists>j. Jobs q jobID = Some j \<and> Attempt (gs ! i) \<le> Attempts j"
    by (auto simp: leases_inv_def)
  moreover have "LeaseJobID (gs ! k) = jobID" using leases_since_job nth_mem assms(2,4) by blast
  ultimately show ?thesis by (auto simp: leasedJob_def)
qed

section \<open>Properties\<close>

definition sample_job :: "string \<Rightarrow> string \<Rightarrow> job" where
  "sample_job jobID tenant = zero_job\<lparr>JobID := jobID, JobType := ''run'', JobTenantID := tenant, MaxAttempts := 2\<rparr>"

definition sample_queue :: queue where
  "sample_queue = fst (Queue_Enqueue Background 1 NewQueue (sample_job ''j'' []))"

lemma sample_queue_eq:
  "sample_queue = \<lparr>Jobs = [''j'' \<mapsto> (sample_job ''j'' [])\<lparr>State := JobQueued, JobCreatedAt := 1,
     JobUpdatedAt := 1, AvailableAt := 1\<rparr>], Order = [''j'']\<rparr>"
  by (simp add: sample_queue_def Queue_Enqueue_def Job_Validate_def Job_StampTenant_def
      TenantIDFromContext_def PrincipalFromContext_def put_job_def enqueue_defaults_def sample_job_def zero_job_def NewQueue_def
      Background_def Let_def)

lemma sample_queue_reachable: "queue_reachable sample_queue"
  unfolding sample_queue_def
  by (rule queue_reachable.step [OF queue_reachable.start queue_step.enqueue [OF surjective_pairing]])

text \<open>
  In every state the queue can reach, by any calls in any order, each job is stored under its own
  id and is listed once in submission order, has an attempt budget of at least one, and is held by a
  named worker when it is running.
\<close>

theorem queue_reachable_ok: "queue_reachable q \<Longrightarrow> queue_inv q"
  by (rule queue_reachable_inv)

theorem queue_reachable_ok_witness:
  "queue_inv sample_queue \<and> Order sample_queue = [''j'']"
  using queue_reachable_ok [OF sample_queue_reachable] by (simp add: sample_queue_eq)

text \<open>
  A completed or cancelled job stays so. Through any sequence of enqueues, leases, renewals,
  completions, pauses, failures, releases, cancellations and requeues the job keeps that state.
\<close>

theorem finished_job_stays_finished:
  assumes "queue_reachable q" and "queue_step\<^sup>*\<^sup>* q q'" and "Jobs q jobID = Some j"
    and "State j \<in> {JobCompleted, JobCancelled}"
  shows "\<exists>j'. Jobs q' jobID = Some j' \<and> State j' = State j"
  using queue_steps_final [OF assms(2) queue_reachable_inv [OF assms(1)] assms(3)] assms(4)
  by (simp add: final_state_def)

theorem finished_job_stays_finished_witness:
  "\<exists>q q' j. queue_reachable q \<and> Jobs q ''j'' = Some j \<and> State j = JobCancelled
     \<and> queue_step q q' \<and> (\<exists>j'. Jobs q' ''j'' = Some j' \<and> State j' = JobCancelled)"
proof -
  let ?q = "fst (Queue_Cancel Background 2 sample_queue ''j'')"
  let ?q' = "fst (Queue_Lease Background 3 ?q ''w'' 10)"
  have r: "queue_reachable ?q"
    by (rule queue_reachable.step [OF sample_queue_reachable queue_step.cancel [OF surjective_pairing]])
  have st: "queue_step ?q ?q'" by (rule queue_step.lease, rule surjective_pairing)
  then have sts: "queue_step\<^sup>*\<^sup>* ?q ?q'" by (rule r_into_rtranclp)
  have "map_option State (Jobs ?q ''j'') = Some JobCancelled" by code_simp
  then obtain j where j: "Jobs ?q ''j'' = Some j" "State j = JobCancelled" by auto
  from finished_job_stays_finished [OF r sts j(1)] j(2)
  have "\<exists>j'. Jobs ?q' ''j'' = Some j' \<and> State j' = JobCancelled" by simp
  with r st j show ?thesis by blast
qed

text \<open>
  C5: a superseded worker cannot settle a job. After any history of the queue, of the leases of a job granted
  since its last requeue every one that a later one followed can neither renew, complete, pause, fail nor release the
  job: each call fails and the queue stays as it is.
\<close>

theorem superseded_lease_rejected:
  assumes "queue_run q h" and "leases_since jobID h = gs" and "i < k" and "k < length gs"
  shows "fst (Queue_Complete ctx now q (gs ! k)) = q \<and> snd (Queue_Complete ctx now q (gs ! k)) \<noteq> None
    \<and> fst (Queue_Pause marshal ctx now q (gs ! k) result) = q
    \<and> snd (Queue_Pause marshal ctx now q (gs ! k) result) \<noteq> None
    \<and> fst (Queue_Fail error_text ctx now q (gs ! k) cause) = q
    \<and> snd (Queue_Fail error_text ctx now q (gs ! k) cause) \<noteq> None
    \<and> fst (Queue_Release ctx now q (gs ! k)) = q \<and> snd (Queue_Release ctx now q (gs ! k)) \<noteq> None
    \<and> Queue_Renew ctx now q (gs ! k) ttl \<in> {q} \<times> range Inl"
proof -
  from superseded_not_leased [OF assms] obtain err where st: "leasedJob q (gs ! k) = Inl err" ..
  then have "Queue_Renew ctx now q (gs ! k) ttl \<in> {q} \<times> range Inl"
    by (auto simp: Queue_Renew_def split: option.splits)
  with complete.stale_rejected [OF st, of "(ctx, now)"] release.stale_rejected [OF st, of "(ctx, now)"]
    pause.stale_rejected [OF st, of "(marshal, ctx, now, result)"]
    fail.stale_rejected [OF st, of "(error_text, ctx, now, cause)"]
  show ?thesis by simp
qed

text \<open>Two workers lease the same job, the second once the first lease has run out.\<close>

definition sample_job_lease :: "string \<Rightarrow> int \<Rightarrow> gtime \<Rightarrow> job_lease" where
  "sample_job_lease w n x = \<lparr>LeaseJobID = ''j'', WorkerID = w, Attempt = n, ExpiresAt = x\<rparr>"

definition sample_two_leases :: queue where
  "sample_two_leases =
     fst (Queue_Lease Background 30 (fst (Queue_Lease Background 10 sample_queue ''w1'' 10)) ''w2'' 10)"

lemma sample_two_leases_run:
  "queue_run sample_two_leases [Granted (sample_job_lease ''w2'' 2 40), Granted (sample_job_lease ''w1'' 1 20)]"
proof -
  let ?l1 = "Queue_Lease Background 10 sample_queue ''w1'' 10"
  let ?l2 = "Queue_Lease Background 30 (fst ?l1) ''w2'' 10"
  have q1: "queue_run sample_queue []"
    unfolding sample_queue_def
    by (rule queue_run.enqueue [OF queue_run.start surjective_pairing])
  have l1: "?l1 = (\<lparr>Jobs = [''j'' \<mapsto> (sample_job ''j'' [])\<lparr>State := JobRunning, Attempts := 1,
        JobCreatedAt := 1, JobUpdatedAt := 10, AvailableAt := 1, LeaseWorkerID := ''w1'',
        JobLeaseExpiresAt := 20\<rparr>], Order = [''j'']\<rparr>, Inr (Some (sample_job_lease ''w1'' 1 20)))"
    by (simp add: sample_queue_eq Queue_Lease_def job_at_def leaseable_def take_lease_def put_job_def
        sample_job_def zero_job_def Background_def sample_job_lease_def Let_def)
  have l2: "?l2 = (sample_two_leases, Inr (Some (sample_job_lease ''w2'' 2 40)))"
    unfolding sample_two_leases_def
    by (simp add: prod_eq_iff l1)
      (simp add: Queue_Lease_def job_at_def leaseable_def take_lease_def put_job_def
        sample_job_def zero_job_def Background_def sample_job_lease_def Let_def)
  have ok: "attempts_ok sample_queue"
    by (auto simp: sample_queue_eq attempts_ok_def sample_job_def zero_job_def split: if_splits)
  have ok1: "attempts_ok (fst ?l1)"
    unfolding l1 by (auto simp: attempts_ok_def sample_job_def zero_job_def split: if_splits)
  have "queue_run (fst ?l1) [Granted (sample_job_lease ''w1'' 1 20)]"
    using queue_run.lease [OF q1 ok surjective_pairing, of Background 10 "''w1''" 10] by (simp add: l1)
  from queue_run.lease [OF this ok1 l2] show ?thesis by simp
qed

theorem superseded_lease_rejected_witness:
  "fst (Queue_Complete Background 35 sample_two_leases (sample_job_lease ''w1'' 1 20)) = sample_two_leases
   \<and> snd (Queue_Complete Background 35 sample_two_leases (sample_job_lease ''w1'' 1 20)) \<noteq> None"
  using superseded_lease_rejected [OF sample_two_leases_run, of "''j''" "[sample_job_lease ''w2'' 2 40, sample_job_lease ''w1'' 1 20]" 0 1 Background 35]
  by (simp add: sample_job_lease_def)

text \<open>
  C37: leasing is fair and never stalls. In a reachable queue a live worker is granted a job exactly
  when some job is leaseable, and it is the earliest submitted one; the job is then running, held by
  that worker until the time to live runs out, with one more attempt on its counter.
\<close>

theorem Lease_first_leaseable:
  assumes "queue_reachable q" and "CtxErr ctx = None" and "workerID \<noteq> []" and "0 < ttl"
    and "Queue_Lease ctx now q workerID ttl = (q', got)"
  shows "(if \<exists>jobID j. Jobs q jobID = Some j \<and> leaseable j now
     then \<exists>pre jobID post j. Order q = pre @ jobID # post \<and> Jobs q jobID = Some j \<and> leaseable j now
        \<and> (\<forall>p \<in> set pre. \<not> leaseable (job_at q p) now)
        \<and> got = Inr (Some \<lparr>LeaseJobID = jobID, WorkerID = workerID, Attempt = i64 (Attempts j + 1),
                           ExpiresAt = now + ttl\<rparr>)
        \<and> q' = put_job q (take_lease j workerID ttl now)
     else got = Inr None \<and> q' = q)"
proof -
  note inv = queue_reachable_inv [OF assms(1)]
  show ?thesis
    using assms(5) inv
  proof (cases rule: Queue_Lease_cases)
    case none
    with assms(2-5) have "lease_loop q workerID ttl now (Order q) = (q, None)" and got: "got = Inr None"
      by (auto simp: Queue_Lease_def split: prod.splits)
    then have "\<forall>jobID \<in> set (Order q). \<not> leaseable (job_at q jobID) now"
      by (simp add: lease_loop_None)
    moreover from inv have "set (Order q) = dom (Jobs q)" by (simp add: queue_inv_def)
    ultimately have "\<not> (\<exists>jobID j. Jobs q jobID = Some j \<and> leaseable j now)"
      by (auto simp: job_at_def dest!: bspec)
    with got none show ?thesis by simp
  qed auto
qed

theorem Lease_first_leaseable_witness:
  "snd (Queue_Lease Background 5 sample_queue ''w'' 10) = Inr (Some (sample_job_lease ''w'' 1 15))"
proof -
  have l: "\<exists>jobID j. Jobs sample_queue jobID = Some j \<and> leaseable j 5"
    by (rule exI [of _ "''j''"]) (simp add: sample_queue_eq leaseable_def)
  have "\<exists>pre jobID post j. Order sample_queue = pre @ jobID # post \<and> Jobs sample_queue jobID = Some j \<and>
     snd (Queue_Lease Background 5 sample_queue ''w'' 10) = Inr (Some \<lparr>LeaseJobID = jobID, WorkerID = ''w'',
        Attempt = i64 (Attempts j + 1), ExpiresAt = 5 + 10\<rparr>)"
    using Lease_first_leaseable [OF sample_queue_reachable _ _ _ surjective_pairing, of Background "''w''" 10 5] l
    unfolding if_P [OF l] by (auto simp: Background_def)
  then show ?thesis
    by (auto simp: sample_queue_eq sample_job_lease_def sample_job_def zero_job_def Cons_eq_append_conv)
qed

text \<open>
  Retries and the dead letter. When a lease holder's failure is recorded, the job is out of the
  worker's hands; it is dead-lettered exactly when its attempts have reached its budget, and otherwise
  it is queued and can be leased again at once. Nothing else of the queue changes.
\<close>

theorem Fail_retries_or_dead_letters:
  assumes "Queue_Fail error_text ctx now q ls cause = (q', None)"
  shows "\<exists>j j'. leasedJob q ls = Inr j \<and> q' = put_job q j' \<and> JobID j' = JobID j
    \<and> LeaseWorkerID j' = [] \<and> Attempts j' = Attempts j \<and> (cause = None \<or> LastError j' = error_text (the cause))
    \<and> (if MaxAttempts j \<le> Attempts j then State j' = JobDeadLetter
       else State j' = JobQueued \<and> leaseable j' now)"
proof -
  from Queue_Fail_ok [OF assms] obtain j where j: "leasedJob q ls = Inr j"
    "q' = put_job q (failed_job error_text now cause j)" by blast
  then show ?thesis
    by (intro exI [of _ j] exI [of _ "failed_job error_text now cause j"])
      (auto simp: failed_job_def drop_lease_def leaseable_def Let_def split: option.splits)
qed

theorem Fail_retries_or_dead_letters_witness:
  "let q = sample_two_leases; (q', err) = Queue_Fail (\<lambda>_. ''boom'') Background 35 q (sample_job_lease ''w2'' 2 40) (Some (ErrHost ''x''))
   in err = None \<and> map_option State (Jobs q' ''j'') = Some JobDeadLetter"
proof -
  let ?f = "Queue_Fail (\<lambda>_. ''boom'') Background 35 sample_two_leases (sample_job_lease ''w2'' 2 40) (Some (ErrHost ''x''))"
  have ok: "snd ?f = None" and mx: "map_sum (\<lambda>_. ()) (\<lambda>j. (JobID j, MaxAttempts j, Attempts j))
      (leasedJob sample_two_leases (sample_job_lease ''w2'' 2 40)) = Inr (''j'', 2, 2)"
    by code_simp+
  then have "?f = (fst ?f, None)" by (simp add: prod_eq_iff)
  from Fail_retries_or_dead_letters [OF this] obtain j j'
    where j: "leasedJob sample_two_leases (sample_job_lease ''w2'' 2 40) = Inr j"
      "fst ?f = put_job sample_two_leases j'" "JobID j' = JobID j"
      "if MaxAttempts j \<le> Attempts j then State j' = JobDeadLetter else State j' = JobQueued \<and> leaseable j' 35"
    by blast
  with mx have "JobID j = ''j''" "State j' = JobDeadLetter" by simp_all
  with j(2,3) ok show ?thesis by (simp add: put_job_def case_prod_beta)
qed

text \<open>
  Tenant isolation of the queue. A caller with a principal only loads and lists jobs of its own
  tenant; a caller without one, unless it opted out of strict mode, only loads jobs of no tenant.
\<close>

theorem queue_reads_isolated:
  "(case Queue_Load ctx q jobID of
      Inr j \<Rightarrow> (if TenantIDFromContext ctx \<noteq> [] then JobTenantID j = TenantIDFromContext ctx
               else CtxPermissive ctx \<or> JobTenantID j = [])
    | Inl _ \<Rightarrow> True)
   \<and> (case Queue_ListJobs ctx q flt of
        Inr js \<Rightarrow> TenantIDFromContext ctx \<noteq> [] \<longrightarrow> (\<forall>j \<in> set js. JobTenantID j = TenantIDFromContext ctx)
      | Inl _ \<Rightarrow> True)"
proof -
  have lst: "set (list_jobs_loop q f order out) \<subseteq> set out \<union> {j. job_matches f j}" for f order out
  proof (induction order arbitrary: out)
    case (Cons k order)
    from Cons [of out] Cons [of "out @ [job_at q k]"] show ?case by (auto simp: Let_def)
  qed simp
  have "\<forall>j \<in> set js. JobTenantID j = TenantIDFromContext ctx"
    if "Queue_ListJobs ctx q flt = Inr js" "TenantIDFromContext ctx \<noteq> []" for js
    using that lst [of "flt\<lparr>JobFilterTenantID := TenantIDFromContext ctx\<rparr>" "Order q" "[]"]
    by (auto simp: Queue_ListJobs_def ScopeJobFilter_def job_matches_def Let_def
        split: option.splits if_splits)
  then show ?thesis
    by (auto simp: Queue_Load_def Job_AuthorizeTenant_def TenantStrictModeFromContext_def Let_def
        split: option.splits sum.splits if_splits)
qed

theorem queue_reads_isolated_witness:
  "\<exists>q j. Queue_Load (WithPrincipal Background (sample_principal ''a'')) q ''j'' = Inr j \<and> JobTenantID j = ''a''
     \<and> Queue_Load Background q ''j'' = Inl ErrJobTenantRequired"
proof -
  let ?q = "\<lparr>Jobs = [''j'' \<mapsto> sample_job ''j'' ''a''], Order = [''j'']\<rparr>"
  have "Queue_Load (WithPrincipal Background (sample_principal ''a'')) ?q ''j'' = Inr (sample_job ''j'' ''a'')"
    and "Queue_Load Background ?q ''j'' = Inl ErrJobTenantRequired"
    by (simp_all add: Queue_Load_def Job_AuthorizeTenant_def TenantIDFromContext_def PrincipalFromContext_def
        TenantStrictModeFromContext_def WithPrincipal_def Background_def sample_job_def zero_job_def)
  moreover have "JobTenantID (sample_job ''j'' ''a'') = ''a''"
    using queue_reads_isolated [of "WithPrincipal Background (sample_principal ''a'')" ?q "''j''"] calculation(1)
    by (simp add: TenantIDFromContext_def PrincipalFromContext_def WithPrincipal_def)
  ultimately show ?thesis by blast
qed

text \<open>
  An operator requeue resets the attempt counter, so an attempt number can be granted twice: the lease
  of the first attempt before the dead letter and the lease of the first attempt after the requeue, when
  the same worker gets both, are the same lease, and the old holder can complete the new attempt.
\<close>

lemma requeue_reuses_lease:
  "let q1 = fst (Queue_Enqueue Background 1 NewQueue ((sample_job ''j'' [])\<lparr>MaxAttempts := 1\<rparr>));
       (q2, old) = Queue_Lease Background 10 q1 ''w1'' 10;
       (q3, other) = Queue_Lease Background 30 q2 ''w2'' 10;
       (q4, f) = Queue_Fail (\<lambda>_. []) Background 31 q3 (case other of Inr (Some l) \<Rightarrow> l) None;
       (q5, r) = Queue_Requeue Background 40 q4 ''j'';
       (q6, new) = Queue_Lease Background 50 q5 ''w1'' 10;
       (q7, c) = Queue_Complete Background 55 q6 (case old of Inr (Some l) \<Rightarrow> l)
   in f = None \<and> r = None \<and> c = None \<and> map_option State (Jobs q7 ''j'') = Some JobCompleted"
  by code_simp

end
