(* ===== verification/Safecall.thy ===== *)
theory Safecall
  imports Go_Base
begin

text \<open>
  \<^verbatim>\<open>internal/safecall\<close>: a call of injected code ends by returning or by a panic; the wrappers turn a panic
  into an error.
\<close>

datatype handler_end = HandlerReturns "go_error option" | HandlerPanics string

text \<open>\<^verbatim>\<open>safecall.Do\<close>, for a function that only returns an error.\<close>

fun safecall_Do :: "string \<Rightarrow> handler_end \<Rightarrow> go_error option" where
  "safecall_Do label (HandlerReturns err) = err"
| "safecall_Do label (HandlerPanics r) = Some (Errorf ''%s: panic recovered: %v'' [label, r] None)"

text \<open>\<^verbatim>\<open>safecall.Invoke\<close>, for a function that also returns a value.\<close>

datatype 'a call_end = CallReturns "go_error + 'a" | CallPanics string

fun safecall_Invoke :: "string \<Rightarrow> 'a call_end \<Rightarrow> go_error + 'a" where
  "safecall_Invoke label (CallReturns res) = res"
| "safecall_Invoke label (CallPanics r) = Inl (Errorf ''%s: panic recovered: %v'' [label, r] None)"

end
