(* ===== verification/Job_Worker.thy ===== *)
theory Job_Worker
  imports Job_Lifecycle Safecall
begin

text \<open>
  The job worker of \<^verbatim>\<open>pkg/async/worker.go\<close> over the in-memory queue. The host's handler is an argument:
  it takes the job context, the job and the queue as it is when the handler starts, and gives how it
  ended and the queue as it is then, since other workers and operators use the queue meanwhile. The
  background goroutines of a job are modelled tick by tick: the lease renewer and the cancellation
  watcher. \<open>Run\<close> starts \<open>concurrency\<close> copies of \<open>loop\<close>; \<open>loop\<close> is modelled over a list of ticks, each
  holding the contexts and the clock of one iteration.
\<close>

section \<open>Configuration\<close>

record worker_config =
  CfgWorkerID :: string
  CfgConcurrency :: int
  CfgLeaseTTL :: duration
  CfgRenewInterval :: duration
  CfgJobTimeout :: duration
  CfgPollInterval :: duration

record worker =
  WWorkerID :: string
  WConcurrency :: int
  WLeaseTTL :: duration
  WRenewInterval :: duration
  WJobTimeout :: duration
  WPollInterval :: duration
  WDrainTimeout :: duration

definition Millisecond :: duration where "Millisecond = 1000000"
definition Second :: duration where "Second = 1000 * Millisecond"
definition Minute :: duration where "Minute = 60 * Second"

definition WithDrainTimeout :: "duration \<Rightarrow> worker \<Rightarrow> worker" where
  "WithDrainTimeout d w = (if 0 < d then w\<lparr>WDrainTimeout := d\<rparr> else w)"

text \<open>\<open>queue_nil\<close> and \<open>handler_nil\<close> say that the argument is \<^verbatim>\<open>nil\<close>; a \<^verbatim>\<open>nil\<close> option is \<open>None\<close>.\<close>

definition NewWorker ::
  "bool \<Rightarrow> bool \<Rightarrow> worker_config \<Rightarrow> (worker \<Rightarrow> worker) option list \<Rightarrow> go_error + worker" where
  "NewWorker queue_nil handler_nil config opts =
     (if queue_nil then Inl (Errorf ''async worker: queue is nil'' [] None)
      else if handler_nil then Inl (Errorf ''async worker: handler is nil'' [] None)
      else if CfgWorkerID config = [] then Inl (Errorf ''async worker: worker id is required'' [] None)
      else
        (let concurrency = (if CfgConcurrency config \<le> 0 then 1 else CfgConcurrency config);
             leaseTTL = (if CfgLeaseTTL config \<le> 0 then Minute else CfgLeaseTTL config);
             renew0 = (if CfgRenewInterval config \<le> 0 then leaseTTL div 2 else CfgRenewInterval config);
             renewInterval = (if renew0 \<le> 0 \<or> leaseTTL \<le> renew0 then leaseTTL div 2 else renew0);
             pollInterval = (if CfgPollInterval config \<le> 0 then 100 * Millisecond else CfgPollInterval config);
             w = \<lparr>WWorkerID = CfgWorkerID config, WConcurrency = concurrency, WLeaseTTL = leaseTTL,
                  WRenewInterval = renewInterval, WJobTimeout = CfgJobTimeout config,
                  WPollInterval = pollInterval, WDrainTimeout = 0\<rparr>
         in Inr (foldl (\<lambda>w opt. case opt of None \<Rightarrow> w | Some f \<Rightarrow> f w) w opts)))"

section \<open>Backoff\<close>

fun delay_loop :: "nat \<Rightarrow> duration \<Rightarrow> duration" where
  "delay_loop 0 delay = delay"
| "delay_loop (Suc n) delay =
     (let delay' = delay * 2 in if 5 * Second \<le> delay' then 5 * Second else delay_loop n delay')"

definition leaseFailureDelay :: "int \<Rightarrow> duration" where
  "leaseFailureDelay failures = delay_loop (nat (failures - 1)) (100 * Millisecond)"

section \<open>One leased job\<close>

text \<open>
  \<^verbatim>\<open>context.WithoutCancel\<close> keeps the values of the context; the timeout it is then given has not
  passed when the queue call starts.
\<close>

definition terminalContext :: "gctx \<Rightarrow> gctx" where
  "terminalContext ctx = (if CtxErr ctx = None then ctx else ctx\<lparr>CtxErr := None\<rparr>)"

text \<open>
  What a job sees of its surroundings: the context and the clock when it is loaded, the handler, and
  the context and the clock when the handler has ended.
\<close>

record job_env =
  EnvCtx :: gctx
  EnvNow :: gtime
  EnvHandle :: "gctx \<Rightarrow> job \<Rightarrow> queue \<Rightarrow> handler_end \<times> queue"
  EnvCtxEnd :: gctx
  EnvNowEnd :: gtime

definition handleLeasedJob ::
  "(go_error \<Rightarrow> string) \<Rightarrow> (string \<times> string \<Rightarrow> go_error + string) \<Rightarrow> job_env \<Rightarrow> queue \<Rightarrow> job_lease
     \<Rightarrow> queue \<times> go_error option" where
  "handleLeasedJob error_text marshal env q ls =
     (let ctx = EnvCtx env in
      case Queue_Load ctx q (LeaseJobID ls) of
        Inl err \<Rightarrow>
          (let failCtx = terminalContext ctx in
           case Queue_Fail error_text failCtx (EnvNow env) q ls (Some err) of
             (q1, None) \<Rightarrow> (q1, None)
           | (q1, Some _) \<Rightarrow> (fst (Queue_Release failCtx (EnvNow env) q1 ls), None))
      | Inr j \<Rightarrow>
          (case EnvHandle env ctx j q of (ended, q1) \<Rightarrow>
           (let ctx' = EnvCtxEnd env; now = EnvNowEnd env in
            case safecall_Do ''async worker: handle job'' ended of
              Some err \<Rightarrow>
                if errors_is err (ErrContext Canceled)
                   \<and> (case Queue_Load ctx' q1 (LeaseJobID ls) of
                        Inr current \<Rightarrow> State current = JobCancelled | Inl _ \<Rightarrow> False)
                then (q1, None)
                else (case errors_as_paused err of
                        Some paused \<Rightarrow> Queue_Pause marshal (terminalContext ctx') now q1 ls paused
                      | None \<Rightarrow> Queue_Fail error_text (terminalContext ctx') now q1 ls (Some err))
            | None \<Rightarrow> Queue_Complete (terminalContext ctx') now q1 ls)))"

section \<open>The background ticks\<close>

text \<open>One tick of the lease renewer: the renewed lease, or \<open>None\<close> when the job must be cancelled.\<close>

definition renewal_tick :: "worker \<Rightarrow> gctx \<Rightarrow> gtime \<Rightarrow> queue \<Rightarrow> job_lease \<Rightarrow> queue \<times> job_lease option" where
  "renewal_tick w ctx now q current =
     (case Queue_Renew ctx now q current (WLeaseTTL w) of
        (q', Inr (Some renewed)) \<Rightarrow> (q', Some renewed)
      | (q', _) \<Rightarrow> (q', None))"

datatype watch_action = WatchCancelJob | WatchWait duration | WatchAgain

text \<open>One tick of the cancellation watcher, with its count of consecutive load failures.\<close>

definition watch_tick :: "gctx \<Rightarrow> queue \<Rightarrow> string \<Rightarrow> int \<Rightarrow> watch_action \<times> int" where
  "watch_tick ctx q jobID loadFailures =
     (case Queue_Load ctx q jobID of
        Inl _ \<Rightarrow> (WatchWait (leaseFailureDelay (loadFailures + 1)), loadFailures + 1)
      | Inr j \<Rightarrow> if State j = JobCancelled then (WatchCancelJob, 0) else (WatchAgain, 0))"

section \<open>The loop\<close>

record tick =
  TickCtx :: gctx
  TickNow :: gtime
  TickWait :: "go_error option"
  TickEnv :: job_env

datatype loop_end = StillRunning | Returned "go_error option"

text \<open>\<open>TickWait\<close> is what \<^verbatim>\<open>wait\<close> gives in that iteration: an error when the context ended meanwhile.\<close>

fun loop ::
  "(go_error \<Rightarrow> string) \<Rightarrow> (string \<times> string \<Rightarrow> go_error + string) \<Rightarrow> worker \<Rightarrow> queue \<Rightarrow> int \<Rightarrow> tick list
     \<Rightarrow> queue \<times> loop_end" where
  "loop error_text marshal w q leaseFailures [] = (q, StillRunning)"
| "loop error_text marshal w q leaseFailures (t # ts) =
     (if CtxErr (TickCtx t) \<noteq> None then (q, Returned None)
      else
        (case Queue_Lease (TickCtx t) (TickNow t) q (WWorkerID w) (WLeaseTTL w) of
           (q1, Inl _) \<Rightarrow>
             if TickWait t \<noteq> None then (q1, Returned None)
             else loop error_text marshal w q1 (leaseFailures + 1) ts
         | (q1, Inr None) \<Rightarrow>
             if TickWait t \<noteq> None then (q1, Returned None) else loop error_text marshal w q1 0 ts
         | (q1, Inr (Some ls)) \<Rightarrow>
             (case handleLeasedJob error_text marshal (TickEnv t) q1 ls of
                (q2, Some err) \<Rightarrow> (q2, Returned (Some err))
              | (q2, None) \<Rightarrow> loop error_text marshal w q2 0 ts)))"

section \<open>Lemmas\<close>

lemma terminalContext_live [simp]: "CtxErr (terminalContext ctx) = None"
  by (simp add: terminalContext_def)

lemma delay_loop_closed:
  "0 < d \<Longrightarrow> d \<le> 5 * Second \<Longrightarrow> delay_loop n d = min (5 * Second) (d * 2 ^ n)"
proof (induction n arbitrary: d)
  case (Suc n)
  show ?case
  proof (cases "5 * Second \<le> d * 2")
    case True
    have "d * 2 * 1 \<le> d * 2 * 2 ^ n" using Suc.prems(1) by (intro mult_left_mono) auto
    with True show ?thesis by (simp add: Let_def min_def algebra_simps)
  next
    case False
    with Suc show ?thesis by (simp add: Let_def algebra_simps)
  qed
qed simp

lemma leased_not_cancelled:
  assumes "leasedJob q ls = Inr j"
  shows "\<not> (case Queue_Load ctx q (LeaseJobID ls) of Inr current \<Rightarrow> State current = JobCancelled | Inl _ \<Rightarrow> False)"
  using assms by (auto simp: leasedJob_Inr Queue_Load_def split: sum.splits option.splits)

section \<open>Properties\<close>

text \<open>
  The poll backoff after \<open>n\<close> consecutive lease failures is \<open>100 ms\<close> doubled \<open>n - 1\<close> times, capped at
  five seconds; so it never shrinks and never leaves that range.
\<close>

theorem leaseFailureDelay_backoff:
  "leaseFailureDelay n = min (5 * Second) (100 * Millisecond * 2 ^ nat (n - 1))"
  unfolding leaseFailureDelay_def by (rule delay_loop_closed) (simp_all add: Second_def Millisecond_def)

text \<open>
  A worker's configuration is sane. Construction succeeds exactly when there are a queue, a handler
  and a worker id, and then the concurrency, the lease time and the poll interval are positive, and the
  renewal interval is positive and below the lease time unless the lease time is a single nanosecond.
\<close>

theorem NewWorker_sane:
  "case NewWorker queue_nil handler_nil config [Some (WithDrainTimeout d)] of
     Inl _ \<Rightarrow> queue_nil \<or> handler_nil \<or> CfgWorkerID config = []
   | Inr w \<Rightarrow> \<not> queue_nil \<and> \<not> handler_nil \<and> WWorkerID w = CfgWorkerID config \<and> WWorkerID w \<noteq> []
       \<and> 0 < WConcurrency w \<and> 0 < WLeaseTTL w \<and> 0 < WPollInterval w \<and> 0 \<le> WDrainTimeout w
       \<and> WRenewInterval w < WLeaseTTL w \<and> (WLeaseTTL w = 1 \<or> 0 < WRenewInterval w)"
  by (auto simp: NewWorker_def WithDrainTimeout_def Let_def Minute_def Second_def Millisecond_def)

text \<open>
  A worker settles the job it leased. When the job was loaded and nobody took the lease from the
  worker while the handler ran, the worker goes on without error and the job leaves its hands:
  completed when the handler returned nothing, paused when it reported a paused run, otherwise queued
  again or dead-lettered by its attempt budget; a panic of the handler counts as an error.
\<close>

definition settled_state :: "handler_end \<Rightarrow> job \<Rightarrow> job_state" where
  "settled_state ended j =
     (case safecall_Do ''async worker: handle job'' ended of
        None \<Rightarrow> JobCompleted
      | Some err \<Rightarrow>
          if errors_as_paused err \<noteq> None then JobPaused
          else if MaxAttempts j \<le> Attempts j then JobDeadLetter else JobQueued)"

theorem handleLeasedJob_settles:
  assumes "JobLease_Validate ls = None" and "Queue_Load (EnvCtx env) q (LeaseJobID ls) = Inr j"
    and "EnvHandle env (EnvCtx env) j q = (ended, q1)" and "leasedJob q1 ls = Inr j1"
    and "\<And>r. \<exists>raw. marshal r = Inr raw"
  shows "\<exists>j2. handleLeasedJob error_text marshal env q ls = (put_job q1 j2, None)
    \<and> same_job j1 j2 \<and> LeaseWorkerID j2 = [] \<and> State j2 = settled_state ended j1"
proof (cases "safecall_Do ''async worker: handle job'' ended")
  case None
  with assms show ?thesis
    by (auto simp: handleLeasedJob_def Queue_Complete_def drop_lease_def same_job_def settled_state_def)
next
  case (Some err)
  note go = leased_not_cancelled [OF assms(4)]
  show ?thesis
  proof (cases "errors_as_paused err")
    case None
    let ?f = "failed_job error_text (EnvNowEnd env) (Some err) j1"
    have "handleLeasedJob error_text marshal env q ls = (put_job q1 ?f, None)"
      using Some None go assms
      by (simp add: handleLeasedJob_def Queue_Fail_def failed_job_def Let_def)
    moreover have "LeaseWorkerID ?f = []" by (simp add: failed_job_def drop_lease_def Let_def)
    ultimately show ?thesis using Some None by (intro exI [of _ ?f]) (simp add: settled_state_def)
  next
    case (Some paused)
    obtain raw where "marshal paused = Inr raw" using assms(5) by blast
    with Some \<open>safecall_Do _ ended = Some err\<close> go assms(1-4) show ?thesis
      by (auto simp: handleLeasedJob_def Queue_Pause_def drop_lease_def same_job_def settled_state_def Let_def)
  qed
qed

definition sample_env :: "handler_end \<Rightarrow> (queue \<Rightarrow> queue) \<Rightarrow> job_env" where
  "sample_env ended others = \<lparr>EnvCtx = Background, EnvNow = 31, EnvHandle = (\<lambda>ctx j q. (ended, others q)),
     EnvCtxEnd = Background, EnvNowEnd = 35\<rparr>"

theorem handleLeasedJob_settles_witness:
  "\<exists>j2. handleLeasedJob (\<lambda>_. []) (\<lambda>_. Inr []) (sample_env (HandlerPanics ''boom'') id) sample_two_leases
      (sample_job_lease ''w2'' 2 40) = (put_job sample_two_leases j2, None) \<and> State j2 = JobDeadLetter"
proof -
  let ?ls = "sample_job_lease ''w2'' 2 40" and ?env = "sample_env (HandlerPanics ''boom'') id"
  let ?j = "(sample_job ''j'' [])\<lparr>State := JobRunning, Attempts := 2, JobCreatedAt := 1, JobUpdatedAt := 30,
    AvailableAt := 1, LeaseWorkerID := ''w2'', JobLeaseExpiresAt := 40\<rparr>"
  have "Jobs sample_two_leases ''j'' = Some ?j" by code_simp
  then have l: "leasedJob sample_two_leases ?ls = Inr ?j"
    and ld: "Queue_Load (EnvCtx ?env) sample_two_leases (LeaseJobID ?ls) = Inr ?j"
    by (simp_all add: leasedJob_Inr Queue_Load_def Job_AuthorizeTenant_def TenantIDFromContext_def
        PrincipalFromContext_def sample_job_lease_def sample_env_def Background_def sample_job_def zero_job_def)
  have h: "EnvHandle ?env (EnvCtx ?env) ?j sample_two_leases = (HandlerPanics ''boom'', sample_two_leases)"
    by (simp add: sample_env_def)
  have "JobLease_Validate ?ls = None" by (simp add: JobLease_Validate_def sample_job_lease_def)
  from handleLeasedJob_settles [OF this ld h l, of "\<lambda>_. Inr []" "\<lambda>_. []"] show ?thesis
    by (auto simp: settled_state_def sample_job_def zero_job_def)
qed

text \<open>
  The worker never runs a tenant's job. A worker whose context has no principal and has not opted
  out of tenant-strict mode leases a job of a tenant, cannot load it, and records a failed attempt
  with the tenant error: the job is queued again or dead-lettered whatever the handler is.
\<close>

theorem worker_fails_tenant_jobs:
  assumes "TenantIDFromContext (EnvCtx env) = []" and "\<not> CtxPermissive (EnvCtx env)"
    and "CtxErr (EnvCtx env) = None" and "JobLease_Validate ls = None"
    and "leasedJob q ls = Inr j" and "JobTenantID j \<noteq> []"
  shows "handleLeasedJob error_text marshal env q ls =
    (put_job q (failed_job error_text (EnvNow env) (Some ErrJobTenantRequired) j), None)"
proof -
  from assms have "Queue_Load (EnvCtx env) q (LeaseJobID ls) = Inl ErrJobTenantRequired"
    by (simp add: leasedJob_Inr Queue_Load_def Job_AuthorizeTenant_def TenantStrictModeFromContext_def)
  with assms(4,5) show ?thesis
    by (simp add: handleLeasedJob_def Queue_Fail_def failed_job_def Let_def)
qed

definition tenant_queue :: queue where
  "tenant_queue = \<lparr>Jobs = [''j'' \<mapsto> (sample_job ''j'' ''a'')\<lparr>State := JobRunning, Attempts := 2,
     LeaseWorkerID := ''w2'', JobLeaseExpiresAt := 40\<rparr>], Order = [''j'']\<rparr>"

theorem worker_fails_tenant_jobs_witness:
  "\<exists>j. handleLeasedJob (\<lambda>_. ''e'') (\<lambda>_. Inr []) (sample_env (HandlerReturns None) id) tenant_queue
     (sample_job_lease ''w2'' 2 40) = (put_job tenant_queue j, None) \<and> State j = JobDeadLetter"
proof -
  let ?j = "(sample_job ''j'' ''a'')\<lparr>State := JobRunning, Attempts := 2, LeaseWorkerID := ''w2'', JobLeaseExpiresAt := 40\<rparr>"
  let ?ls = "sample_job_lease ''w2'' 2 40" and ?env = "sample_env (HandlerReturns None) id"
  have "leasedJob tenant_queue ?ls = Inr ?j"
    by (simp add: leasedJob_Inr tenant_queue_def sample_job_lease_def)
  moreover have "TenantIDFromContext (EnvCtx ?env) = []" "\<not> CtxPermissive (EnvCtx ?env)"
    "CtxErr (EnvCtx ?env) = None" "JobLease_Validate ?ls = None" "JobTenantID ?j \<noteq> []"
    by (simp_all add: sample_env_def Background_def TenantIDFromContext_def PrincipalFromContext_def
        JobLease_Validate_def sample_job_lease_def sample_job_def)
  ultimately have "handleLeasedJob (\<lambda>_. ''e'') (\<lambda>_. Inr []) ?env tenant_queue ?ls =
      (put_job tenant_queue (failed_job (\<lambda>_. ''e'') (EnvNow ?env) (Some ErrJobTenantRequired) ?j), None)"
    by (intro worker_fails_tenant_jobs)
  then show ?thesis by (auto simp: sample_job_def zero_job_def)
qed

text \<open>
  Cancelling a running job stops the worker. When an operator cancels a job while its handler runs
  and the handler then returns without error, the completion is refused as stale and the loop of the
  worker returns that error instead of going on to the next job.
\<close>

theorem cancelled_job_stops_loop:
  assumes "CtxErr (TickCtx t) = None"
    and "Queue_Lease (TickCtx t) (TickNow t) q (WWorkerID w) (WLeaseTTL w) = (q1, Inr (Some ls))"
    and "JobLease_Validate ls = None"
    and "Queue_Load (EnvCtx (TickEnv t)) q1 (LeaseJobID ls) = Inr j"
    and "EnvHandle (TickEnv t) (EnvCtx (TickEnv t)) j q1 = (HandlerReturns None, q2)"
    and "Jobs q2 (LeaseJobID ls) = Some j2" and "State j2 = JobCancelled"
  shows "loop error_text marshal w q fails (t # ts) = (q2, Returned (Some ErrStaleLease))"
proof -
  from assms(6,7) have "leasedJob q2 ls = Inl ErrStaleLease" by (simp add: leasedJob_def)
  with assms show ?thesis by (simp add: handleLeasedJob_def Queue_Complete_def)
qed

theorem cancelled_job_stops_loop_witness:
  "let t = \<lparr>TickCtx = Background, TickNow = 30, TickWait = None,
            TickEnv = sample_env (HandlerReturns None) (\<lambda>q. fst (Queue_Cancel Background 33 q ''j''))\<rparr>;
       w = \<lparr>WWorkerID = ''w'', WConcurrency = 1, WLeaseTTL = 10, WRenewInterval = 5, WJobTimeout = 0,
            WPollInterval = 1, WDrainTimeout = 0\<rparr>
   in snd (loop (\<lambda>_. []) (\<lambda>_. Inr []) w sample_queue 0 [t, t]) = Returned (Some ErrStaleLease)"
proof -
  let ?t = "\<lparr>TickCtx = Background, TickNow = 30, TickWait = None,
            TickEnv = sample_env (HandlerReturns None) (\<lambda>q. fst (Queue_Cancel Background 33 q ''j''))\<rparr>"
  let ?w = "\<lparr>WWorkerID = ''w'', WConcurrency = 1, WLeaseTTL = 10, WRenewInterval = 5, WJobTimeout = 0,
            WPollInterval = 1, WDrainTimeout = 0\<rparr>"
  let ?j1 = "(sample_job ''j'' [])\<lparr>State := JobRunning, Attempts := 1, JobCreatedAt := 1, JobUpdatedAt := 30,
    AvailableAt := 1, LeaseWorkerID := ''w'', JobLeaseExpiresAt := 40\<rparr>"
  let ?q1 = "\<lparr>Jobs = [''j'' \<mapsto> ?j1], Order = [''j'']\<rparr>"
  let ?ls = "sample_job_lease ''w'' 1 40"
  have l: "Queue_Lease (TickCtx ?t) (TickNow ?t) sample_queue (WWorkerID ?w) (WLeaseTTL ?w) = (?q1, Inr (Some ?ls))"
    by (simp add: sample_queue_eq Queue_Lease_def job_at_def leaseable_def take_lease_def put_job_def
        sample_job_def zero_job_def Background_def sample_job_lease_def Let_def)
  have ld: "Queue_Load (EnvCtx (TickEnv ?t)) ?q1 (LeaseJobID ?ls) = Inr ?j1"
    by (simp add: Queue_Load_def Job_AuthorizeTenant_def TenantIDFromContext_def PrincipalFromContext_def
        sample_job_lease_def sample_env_def Background_def sample_job_def zero_job_def)
  have h: "EnvHandle (TickEnv ?t) (EnvCtx (TickEnv ?t)) ?j1 ?q1 = (HandlerReturns None, fst (Queue_Cancel Background 33 ?q1 ''j''))"
    by (simp add: sample_env_def)
  have c: "Jobs (fst (Queue_Cancel Background 33 ?q1 ''j'')) (LeaseJobID ?ls) =
      Some (drop_lease (?j1\<lparr>State := JobCancelled\<rparr>) 33)"
    by (simp add: Queue_Cancel_def Job_AuthorizeTenant_def TenantIDFromContext_def PrincipalFromContext_def
        put_job_def drop_lease_def sample_job_lease_def Background_def sample_job_def zero_job_def)
  have "loop (\<lambda>_. []) (\<lambda>_. Inr []) ?w sample_queue 0 [?t, ?t] =
      (fst (Queue_Cancel Background 33 ?q1 ''j''), Returned (Some ErrStaleLease))"
    by (rule cancelled_job_stops_loop [OF _ l _ ld h c])
      (simp_all add: Background_def JobLease_Validate_def sample_job_lease_def drop_lease_def)
  then show ?thesis unfolding Let_def by (simp only: snd_conv)
qed

end
