(* ===== verification/Resume_Token.thy ===== *)
theory Resume_Token
  imports Run_State Go_Crypto
begin

text \<open>
  The signed tokens that resume a paused run (\<^verbatim>\<open>pkg/runstate/token.go\<close>), with the concrete SHA-256,
  HMAC, hexadecimal and base64 of \<open>Go_Crypto\<close>. The JSON text of the payload is an argument, with the
  round trip of \<^verbatim>\<open>encoding/json\<close> on that struct as a hypothesis where it is used. A \<^verbatim>\<open>nil\<close> secret is \<open>None\<close>;
  the clock of the signer is the argument \<open>now\<close> of \<open>Verify\<close>.
\<close>

section \<open>Signers\<close>

definition ErrTokenExpired :: go_error where
  "ErrTokenExpired = Errorf ''%w: token expired'' [] (Some ErrInvalidToken)"

definition MinTokenSecretLength :: nat where
  "MinTokenSecretLength = 16"

record token_payload =
  TokRunID :: string
  TokVersion :: int
  TokExpiresAt :: gtime

record token_signer =
  PrimaryKey :: bytes
  SecondaryKey :: "bytes option"

definition checkSecretStrength :: "bytes \<Rightarrow> go_error option" where
  "checkSecretStrength secret =
     (if length secret = 0 then Some (Errorf ''runstate: token secret is required'' [] None)
      else if length secret < MinTokenSecretLength
           then Some (Errorf ''runstate: token secret must be at least %d bytes, got %d''
                        [nat_text MinTokenSecretLength, nat_text (length secret)] None)
      else None)"

definition NewTokenSigner :: "bytes \<Rightarrow> go_error + token_signer" where
  "NewTokenSigner secret =
     (case checkSecretStrength secret of
        Some e \<Rightarrow> Inl e
      | None \<Rightarrow> Inr \<lparr>PrimaryKey = secret, SecondaryKey = None\<rparr>)"

definition NewTokenSignerWithRotation :: "bytes \<Rightarrow> bytes \<Rightarrow> go_error + token_signer" where
  "NewTokenSignerWithRotation primary secondary =
     (case checkSecretStrength primary of
        Some e \<Rightarrow> Inl (Errorf ''runstate: primary %w'' [] (Some e))
      | None \<Rightarrow>
          (case checkSecretStrength secondary of
             Some e \<Rightarrow> Inl (Errorf ''runstate: secondary %w'' [] (Some e))
           | None \<Rightarrow> Inr \<lparr>PrimaryKey = primary, SecondaryKey = Some secondary\<rparr>))"

definition tokenKeyID :: "bytes \<Rightarrow> string" where
  "tokenKeyID secret = hex_encode (take 4 (sha256 secret))"

definition signBody :: "bytes \<Rightarrow> bytes \<Rightarrow> bytes" where
  "signBody secret body = hmac_sha256 secret body"

definition candidateKeys :: "token_signer \<Rightarrow> bytes list" where
  "candidateKeys s = (case SecondaryKey s of None \<Rightarrow> [PrimaryKey s] | Some k \<Rightarrow> [PrimaryKey s, k])"

definition keyForID :: "token_signer \<Rightarrow> string \<Rightarrow> bytes option" where
  "keyForID s kid =
     (if tokenKeyID (PrimaryKey s) = kid then Some (PrimaryKey s)
      else (case SecondaryKey s of
              Some k \<Rightarrow> if tokenKeyID k = kid then Some k else None
            | None \<Rightarrow> None))"

section \<open>Signing and verifying\<close>

definition Signer_Sign ::
  "(token_payload \<Rightarrow> go_error + bytes) \<Rightarrow> token_signer \<Rightarrow> token_payload \<Rightarrow> go_error + string" where
  "Signer_Sign marshal s payload =
     (case marshal payload of
        Inl e \<Rightarrow> Inl e
      | Inr body \<Rightarrow>
          (let sig = signBody (PrimaryKey s) body;
               encoded = b64_encode body @ ''.'' @ b64_encode sig
           in if SecondaryKey s = None then Inr encoded
              else Inr (tokenKeyID (PrimaryKey s) @ ''.'' @ encoded)))"

definition verifySignature :: "string \<Rightarrow> string \<Rightarrow> bytes list \<Rightarrow> go_error + bytes" where
  "verifySignature bodyPart sigPart keys =
     (case b64_decode bodyPart of
        None \<Rightarrow> Inl (Errorf ''%w: %v'' [] (Some ErrInvalidToken))
      | Some body \<Rightarrow>
          (case b64_decode sigPart of
             None \<Rightarrow> Inl (Errorf ''%w: %v'' [] (Some ErrInvalidToken))
           | Some got \<Rightarrow>
               if list_ex (\<lambda>secret. got = signBody secret body) keys then Inr body
               else Inl ErrInvalidToken))"

definition Signer_Verify ::
  "(bytes \<Rightarrow> go_error + token_payload) \<Rightarrow> token_signer \<Rightarrow> gtime \<Rightarrow> string \<Rightarrow> go_error + token_payload" where
  "Signer_Verify unmarshal s now token =
     (let checked =
        (case split_char CHR ''.'' token of
           [p0, p1] \<Rightarrow> verifySignature p0 p1 (candidateKeys s)
         | [p0, p1, p2] \<Rightarrow>
             (case keyForID s p0 of
                None \<Rightarrow> Inl ErrInvalidToken
              | Some secret \<Rightarrow> verifySignature p1 p2 [secret])
         | _ \<Rightarrow> Inl ErrInvalidToken)
      in case checked of
           Inl e \<Rightarrow> Inl e
         | Inr body \<Rightarrow>
             (case unmarshal body of
                Inl e \<Rightarrow> Inl (Errorf ''%w: %v'' [] (Some ErrInvalidToken))
              | Inr payload \<Rightarrow>
                  if TokExpiresAt payload \<noteq> 0 \<and> TokExpiresAt payload < now then Inl ErrTokenExpired
                  else Inr payload))"

section \<open>Lemmas\<close>

lemma verifySignature_own [simp]:
  "verifySignature (b64_encode body) (b64_encode (signBody k body)) keys =
     (if list_ex (\<lambda>secret. signBody k body = signBody secret body) keys then Inr body else Inl ErrInvalidToken)"
  by (simp add: verifySignature_def)

lemma verifySignature_Inr:
  "verifySignature bp sp keys = Inr body \<longleftrightarrow>
     b64_decode bp = Some body \<and> (\<exists>k \<in> set keys. b64_decode sp = Some (signBody k body))"
  by (auto simp: verifySignature_def list_ex_iff split: option.splits if_splits)

lemma verifySignature_error:
  "verifySignature bp sp keys = Inl e \<Longrightarrow> errors_is e ErrInvalidToken"
  by (auto simp: verifySignature_def split: option.splits if_splits)

lemma tokenKeyID_no_dot: "CHR ''.'' \<notin> set (tokenKeyID secret)"
  by (simp add: tokenKeyID_def hex_encode_no_dot)

lemma split_token:
  "split_char CHR ''.'' (b64_encode a @ ''.'' @ b64_encode b) = [b64_encode a, b64_encode b]"
  "split_char CHR ''.'' (tokenKeyID k @ ''.'' @ b64_encode a @ ''.'' @ b64_encode b) =
     [tokenKeyID k, b64_encode a, b64_encode b]"
  by (simp_all add: split_char_append split_char_no_sep b64_encode_no_dot tokenKeyID_no_dot)

section \<open>Properties\<close>

text \<open>A verifier knows the primary key of the signer, and its key id leads to that key.\<close>

definition accepts_key :: "token_signer \<Rightarrow> bytes \<Rightarrow> bool" where
  "accepts_key v k \<longleftrightarrow> PrimaryKey v = k
     \<or> SecondaryKey v = Some k \<and> tokenKeyID (PrimaryKey v) \<noteq> tokenKeyID k"

text \<open>
  Tokens survive a key rotation. A token signed with a primary key verifies, until it expires, under
  every signer that has this key as its primary or as its secondary key of another key id, whether the
  token was issued before, during or after the rotation, and gives back the payload that was signed.
\<close>

theorem token_survives_rotation:
  assumes "\<And>p b. marshal p = Inr b \<Longrightarrow> unmarshal b = Inr p"
    and "Signer_Sign marshal s payload = Inr token" and "accepts_key v (PrimaryKey s)"
    and "TokExpiresAt payload = 0 \<or> now \<le> TokExpiresAt payload"
  shows "Signer_Verify unmarshal v now token = Inr payload"
proof -
  from assms(2) obtain body where body: "marshal payload = Inr body"
    and token: "token = (if SecondaryKey s = None then [] else tokenKeyID (PrimaryKey s) @ ''.'') @
      b64_encode body @ ''.'' @ b64_encode (signBody (PrimaryKey s) body)"
    by (auto simp: Signer_Sign_def Let_def split: sum.splits if_splits)
  from assms(3) have "keyForID v (tokenKeyID (PrimaryKey s)) = Some (PrimaryKey s)"
    and "PrimaryKey s \<in> set (candidateKeys v)"
    by (auto simp: accepts_key_def keyForID_def candidateKeys_def split: option.splits)
  then show ?thesis
    using assms(1) [OF body] assms(4)
    by (auto simp: Signer_Verify_def token split_token [simplified] list_ex_iff)
qed

definition sample_payload :: token_payload where
  "sample_payload = \<lparr>TokRunID = ''r'', TokVersion = 3, TokExpiresAt = 100\<rparr>"

definition toy_marshal :: "token_payload \<Rightarrow> go_error + bytes" where
  "toy_marshal p = (if p = sample_payload then Inr ''x'' else Inl (ErrHost []))"

definition toy_unmarshal :: "bytes \<Rightarrow> go_error + token_payload" where
  "toy_unmarshal b = (if b = ''x'' then Inr sample_payload else Inl (ErrHost []))"

theorem token_survives_rotation_witness:
  "\<exists>token. Signer_Sign toy_marshal \<lparr>PrimaryKey = ''0123456789abcdef'', SecondaryKey = None\<rparr> sample_payload = Inr token
     \<and> Signer_Verify toy_unmarshal \<lparr>PrimaryKey = ''0123456789abcdef'', SecondaryKey = Some ''fedcba9876543210''\<rparr> 50 token
       = Inr sample_payload"
proof -
  let ?s = "\<lparr>PrimaryKey = ''0123456789abcdef'', SecondaryKey = None\<rparr>"
  let ?v = "\<lparr>PrimaryKey = ''0123456789abcdef'', SecondaryKey = Some ''fedcba9876543210''\<rparr>"
  obtain token where t: "Signer_Sign toy_marshal ?s sample_payload = Inr token"
    by (simp add: Signer_Sign_def toy_marshal_def Let_def)
  have "Signer_Verify toy_unmarshal ?v 50 token = Inr sample_payload"
    by (rule token_survives_rotation [OF _ t])
      (auto simp: toy_marshal_def toy_unmarshal_def accepts_key_def sample_payload_def split: if_splits)
  with t show ?thesis by blast
qed

text \<open>
  What verification accepts. A token is accepted only when its signature part is the HMAC of its body
  under a key of the signer, the body decodes to the payload returned, and the payload has not expired;
  every refusal is an \<open>ErrInvalidToken\<close>.
\<close>

theorem Verify_sound:
  "case Signer_Verify unmarshal s now token of
     Inr payload \<Rightarrow> (TokExpiresAt payload = 0 \<or> now \<le> TokExpiresAt payload)
       \<and> (\<exists>pre bp sp body k. split_char CHR ''.'' token = pre @ [bp, sp]
            \<and> (pre = [] \<or> pre = [tokenKeyID k]) \<and> b64_decode bp = Some body \<and> unmarshal body = Inr payload
            \<and> k \<in> set (candidateKeys s) \<and> b64_decode sp = Some (hmac_sha256 k body))
   | Inl e \<Rightarrow> errors_is e ErrInvalidToken"
proof (cases "Signer_Verify unmarshal s now token")
  case (Inl e)
  then show ?thesis
    by (auto simp: Signer_Verify_def ErrTokenExpired_def Let_def dest!: verifySignature_error
        split: list.splits sum.splits option.splits if_splits)
next
  case (Inr payload)
  have kid: "k \<in> set (candidateKeys s) \<and> tokenKeyID k = i" if "keyForID s i = Some k" for i k
    using that by (auto simp: keyForID_def candidateKeys_def split: if_splits option.splits)
  from Inr obtain body where b: "unmarshal body = Inr payload"
    "TokExpiresAt payload = 0 \<or> now \<le> TokExpiresAt payload"
    "(\<exists>bp sp. split_char CHR ''.'' token = [bp, sp] \<and> verifySignature bp sp (candidateKeys s) = Inr body)
     \<or> (\<exists>i bp sp k. split_char CHR ''.'' token = [i, bp, sp] \<and> keyForID s i = Some k
          \<and> verifySignature bp sp [k] = Inr body)"
    by (auto simp: Signer_Verify_def Let_def split: list.splits sum.splits option.splits if_splits)
  from b(3) have "\<exists>pre bp sp k. split_char CHR ''.'' token = pre @ [bp, sp] \<and> (pre = [] \<or> pre = [tokenKeyID k])
      \<and> b64_decode bp = Some body \<and> k \<in> set (candidateKeys s) \<and> b64_decode sp = Some (hmac_sha256 k body)"
  proof (elim disjE exE conjE)
    fix bp sp
    assume "split_char CHR ''.'' token = [bp, sp]" "verifySignature bp sp (candidateKeys s) = Inr body"
    then show ?thesis by - (rule exI [of _ "[]"], auto simp: verifySignature_Inr signBody_def)
  next
    fix i bp sp k
    assume "split_char CHR ''.'' token = [i, bp, sp]" "keyForID s i = Some k" "verifySignature bp sp [k] = Inr body"
    with kid [of i k] show ?thesis by - (rule exI [of _ "[i]"], auto simp: verifySignature_Inr signBody_def)
  qed
  with b Inr show ?thesis by auto
qed

end
