(* ===== verification/Event_Types.thy ===== *)
theory Event_Types
  imports Identity
begin

text \<open>
  Runtime events: \<^verbatim>\<open>pkg/core/event.go\<close>, the categories, labels and read-side presets of
  \<^verbatim>\<open>pkg/core/event_category.go\<close>, and the tenant stamp of \<^verbatim>\<open>pkg/observability/tenant.go\<close>. \<^verbatim>\<open>EventType\<close> is
  a string type; a string that is none of its constants is \<open>EventTypeOther\<close>.
\<close>

section \<open>Events\<close>

datatype event_type =
    EventRunStarted
  | EventRunCompleted
  | EventRunFailed
  | EventRunCancelled
  | EventRunPaused
  | EventRunResumed
  | EventStepStarted
  | EventStepCompleted
  | EventStepFailed
  | EventSubgraphStarted
  | EventSubgraphCompleted
  | EventToolCalled
  | EventToolReturned
  | EventToolDenied
  | EventLLMCalled
  | EventLLMReturned
  | EventLLMTokenUsage
  | EventHumanGateOpened
  | EventHumanGateDecided
  | EventHumanGateExpired
  | EventMemoryRead
  | EventMemoryWrite
  | EventMemoryPromoted
  | EventMemoryDemoted
  | EventMemoryEvicted
  | EventContextPrepared
  | EventContextIncomplete
  | EventSkillApplied
  | EventCompletionRecovery
  | EventCompletionRequirementFail
  | EventInterjectionDrained
  | EventHITLDenyBreakerTripped
  | EventTurnStopContinued
  | EventToolArgsNormalized
  | EventRunTerminalPersistFailed
  | EventTypeOther string

fun event_type_text :: "event_type \<Rightarrow> string" where
  "event_type_text EventRunStarted = ''RunStarted''"
| "event_type_text EventRunCompleted = ''RunCompleted''"
| "event_type_text EventRunFailed = ''RunFailed''"
| "event_type_text EventRunCancelled = ''RunCancelled''"
| "event_type_text EventRunPaused = ''RunPaused''"
| "event_type_text EventRunResumed = ''RunResumed''"
| "event_type_text EventStepStarted = ''StepStarted''"
| "event_type_text EventStepCompleted = ''StepCompleted''"
| "event_type_text EventStepFailed = ''StepFailed''"
| "event_type_text EventSubgraphStarted = ''SubgraphStarted''"
| "event_type_text EventSubgraphCompleted = ''SubgraphCompleted''"
| "event_type_text EventToolCalled = ''ToolCalled''"
| "event_type_text EventToolReturned = ''ToolReturned''"
| "event_type_text EventToolDenied = ''ToolDenied''"
| "event_type_text EventLLMCalled = ''LLMCalled''"
| "event_type_text EventLLMReturned = ''LLMReturned''"
| "event_type_text EventLLMTokenUsage = ''LLMTokenUsage''"
| "event_type_text EventHumanGateOpened = ''HumanGateOpened''"
| "event_type_text EventHumanGateDecided = ''HumanGateDecided''"
| "event_type_text EventHumanGateExpired = ''HumanGateExpired''"
| "event_type_text EventMemoryRead = ''MemoryRead''"
| "event_type_text EventMemoryWrite = ''MemoryWrite''"
| "event_type_text EventMemoryPromoted = ''MemoryPromoted''"
| "event_type_text EventMemoryDemoted = ''MemoryDemoted''"
| "event_type_text EventMemoryEvicted = ''MemoryEvicted''"
| "event_type_text EventContextPrepared = ''ContextPrepared''"
| "event_type_text EventContextIncomplete = ''ContextIncomplete''"
| "event_type_text EventSkillApplied = ''SkillApplied''"
| "event_type_text EventCompletionRecovery = ''CompletionRecovery''"
| "event_type_text EventCompletionRequirementFail = ''CompletionRequirementFail''"
| "event_type_text EventInterjectionDrained = ''InterjectionDrained''"
| "event_type_text EventHITLDenyBreakerTripped = ''HITLDenyBreakerTripped''"
| "event_type_text EventTurnStopContinued = ''TurnStopContinued''"
| "event_type_text EventToolArgsNormalized = ''ToolArgsNormalized''"
| "event_type_text EventRunTerminalPersistFailed = ''RunTerminalPersistFailed''"
| "event_type_text (EventTypeOther s) = s"

record event =
  EvType :: event_type
  EvRunID :: string
  EvTenantID :: string
  EvScenarioName :: string
  EvEpisodeID :: string
  EvSessionID :: string
  EvTriggerKind :: string
  EvTimestamp :: gtime
  EvTraceID :: string
  EvSpanID :: string
  EvParentSpanID :: string
  EvCategory :: string
  EvDisplayLabel :: string
  EvPayload :: "bytes option"

section \<open>Categories, labels and presets\<close>

definition EventCategory :: "event_type \<Rightarrow> string" where
  "EventCategory typ =
     (if typ \<in> {EventToolCalled, EventToolReturned, EventToolDenied, EventCompletionRecovery,
                EventCompletionRequirementFail} then ''tool''
      else if typ = EventToolArgsNormalized then ''tool''
      else if typ \<in> {EventInterjectionDrained, EventHITLDenyBreakerTripped, EventTurnStopContinued} then ''run''
      else if typ = EventSkillApplied then ''skill''
      else if typ \<in> {EventLLMCalled, EventLLMReturned, EventLLMTokenUsage} then ''llm''
      else if typ \<in> {EventMemoryRead, EventMemoryWrite, EventMemoryPromoted, EventMemoryDemoted,
                     EventMemoryEvicted} then ''memory''
      else if typ \<in> {EventContextPrepared, EventContextIncomplete} then ''run''
      else ''run'')"

fun DisplayLabel :: "event_type \<Rightarrow> string" where
  "DisplayLabel EventRunStarted = ''Run started''"
| "DisplayLabel EventRunCompleted = ''Run completed''"
| "DisplayLabel EventRunFailed = ''Run failed''"
| "DisplayLabel EventRunCancelled = ''Run cancelled''"
| "DisplayLabel EventRunPaused = ''Run paused''"
| "DisplayLabel EventRunResumed = ''Run resumed''"
| "DisplayLabel EventStepStarted = ''Step started''"
| "DisplayLabel EventStepCompleted = ''Step completed''"
| "DisplayLabel EventStepFailed = ''Step failed''"
| "DisplayLabel EventSubgraphStarted = ''Subgraph started''"
| "DisplayLabel EventSubgraphCompleted = ''Subgraph completed''"
| "DisplayLabel EventToolCalled = ''Tool called''"
| "DisplayLabel EventToolReturned = ''Tool returned''"
| "DisplayLabel EventToolDenied = ''Tool denied''"
| "DisplayLabel EventLLMCalled = ''LLM called''"
| "DisplayLabel EventLLMReturned = ''LLM returned''"
| "DisplayLabel EventLLMTokenUsage = ''LLM token usage''"
| "DisplayLabel EventHumanGateOpened = ''Human gate opened''"
| "DisplayLabel EventHumanGateDecided = ''Human gate decided''"
| "DisplayLabel EventHumanGateExpired = ''Human gate expired''"
| "DisplayLabel EventMemoryRead = ''Memory read''"
| "DisplayLabel EventMemoryWrite = ''Memory write''"
| "DisplayLabel EventMemoryPromoted = ''Memory promoted''"
| "DisplayLabel EventMemoryDemoted = ''Memory demoted''"
| "DisplayLabel EventMemoryEvicted = ''Memory evicted''"
| "DisplayLabel EventContextPrepared = ''Context prepared''"
| "DisplayLabel EventContextIncomplete = ''Context incomplete''"
| "DisplayLabel EventSkillApplied = ''Skill applied''"
| "DisplayLabel EventCompletionRecovery = ''Completion recovery''"
| "DisplayLabel EventCompletionRequirementFail = ''Completion requirement failed''"
| "DisplayLabel EventInterjectionDrained = ''Interjection drained''"
| "DisplayLabel EventHITLDenyBreakerTripped = ''HITL deny breaker tripped''"
| "DisplayLabel EventTurnStopContinued = ''Turn stop continued''"
| "DisplayLabel EventToolArgsNormalized = ''Tool arguments normalized''"
| "DisplayLabel EventRunTerminalPersistFailed = ''Run terminal persistence failed''"
| "DisplayLabel (EventTypeOther s) = s"

datatype event_preset = EventFilterProductUI | EventFilterDiagnostic | EventFilterOther string

fun preset_of_text :: "string \<Rightarrow> event_preset" where
  "preset_of_text s =
     (if s = ''product_ui'' then EventFilterProductUI
      else if s = ''diagnostic'' then EventFilterDiagnostic else EventFilterOther s)"

definition ParseEventFilterPreset :: "string \<Rightarrow> go_error + event_preset" where
  "ParseEventFilterPreset value =
     (case preset_of_text value of
        EventFilterDiagnostic \<Rightarrow> Inr EventFilterDiagnostic
      | EventFilterProductUI \<Rightarrow> Inr EventFilterProductUI
      | EventFilterOther s \<Rightarrow>
          if s = [] then Inr EventFilterDiagnostic
          else Inl (Errorf ''core: unknown event filter preset %q'' [value] None))"

definition NormalizeEventFilterPreset :: "event_preset \<Rightarrow> event_preset" where
  "NormalizeEventFilterPreset preset =
     (if preset = EventFilterOther [] then EventFilterDiagnostic else preset)"

definition ShouldEmitToProductUI :: "event_type \<Rightarrow> bool" where
  "ShouldEmitToProductUI typ = (typ \<noteq> EventMemoryRead \<and> typ \<noteq> EventContextPrepared)"

definition EventFilterPresetDiagnostic :: "event_type \<Rightarrow> bool" where
  "EventFilterPresetDiagnostic typ = True"

definition Preset_Allows :: "event_preset \<Rightarrow> event_type \<Rightarrow> bool" where
  "Preset_Allows p typ =
     (case NormalizeEventFilterPreset p of
        EventFilterProductUI \<Rightarrow> ShouldEmitToProductUI typ
      | _ \<Rightarrow> EventFilterPresetDiagnostic typ)"

definition EventAllowedByPreset :: "event_type \<Rightarrow> event_preset \<Rightarrow> bool" where
  "EventAllowedByPreset typ preset = Preset_Allows (NormalizeEventFilterPreset preset) typ"

definition IsLifecycleEvent :: "event_type \<Rightarrow> bool" where
  "IsLifecycleEvent typ = (typ \<in> {EventRunStarted, EventRunCompleted, EventRunFailed, EventRunCancelled,
     EventRunPaused, EventRunResumed})"

section \<open>Tenant stamp\<close>

definition Obs_TenantIDFromContext :: "gctx \<Rightarrow> string" where
  "Obs_TenantIDFromContext ctx =
     (case PrincipalFromContext ctx of
        None \<Rightarrow> [] | Some p \<Rightarrow> trim_space (ScopeTenantID (PrincipalScope p)))"

definition StampEventTenant :: "gctx \<Rightarrow> event \<Rightarrow> event" where
  "StampEventTenant ctx e =
     (if trim_space (EvTenantID e) \<noteq> [] then e else e\<lparr>EvTenantID := Obs_TenantIDFromContext ctx\<rparr>)"

section \<open>Lemmas\<close>

text \<open>The product view hides exactly two event types and never a lifecycle event.\<close>

lemma EventAllowedByPreset_iff:
  "EventAllowedByPreset typ preset \<longleftrightarrow>
     preset \<noteq> EventFilterProductUI \<or> typ \<notin> {EventMemoryRead, EventContextPrepared}"
  by (auto simp: EventAllowedByPreset_def Preset_Allows_def NormalizeEventFilterPreset_def
      ShouldEmitToProductUI_def EventFilterPresetDiagnostic_def split: event_preset.splits)

lemma lifecycle_always_visible: "IsLifecycleEvent typ \<Longrightarrow> EventAllowedByPreset typ preset"
  by (auto simp: EventAllowedByPreset_iff IsLifecycleEvent_def)

end
