(* ===== verification/Event_Store.thy ===== *)
theory Event_Store
  imports Event_Types "HOL-Library.AList"
begin

text \<open>
  The durable event log: the queries and records of \<^verbatim>\<open>pkg/observability/events.go\<close>, the in-memory store
  \<^verbatim>\<open>internal/adapter/observability/inmem/store.go\<close>, the store sink and the subscription hub. The clock
  reading of an operation is an argument. A channel of the hub is its buffered records with its capacity.
\<close>

section \<open>Records and queries\<close>

datatype obs_status =
    ObsRunning
  | ObsPaused
  | ObsCompleted
  | ObsFailed
  | ObsCancelled
  | ObsStatusOther string

record event_record =
  RecID :: int
  RecSequence :: int
  RecEvent :: event
  RecCreatedAt :: gtime

record run_summary =
  SumRun :: string
  SumTenantID :: string
  SumScenarioName :: string
  SumStatusOf :: obs_status
  SumEventCount :: int
  SumFirstSeenAt :: gtime
  SumLastSeenAt :: gtime
  SumLastEventType :: event_type

definition zero_summary :: run_summary where
  "zero_summary = \<lparr>SumRun = [], SumTenantID = [], SumScenarioName = [], SumStatusOf = ObsStatusOther [],
     SumEventCount = 0, SumFirstSeenAt = 0, SumLastSeenAt = 0, SumLastEventType = EventTypeOther []\<rparr>"

record run_query =
  RQTenantID :: string
  RQStatus :: obs_status
  RQLimit :: int
  RQOffset :: int

record event_query =
  EQTenantID :: string
  EQAfterSequence :: int
  EQLimit :: int
  EQPreset :: event_preset

record scoped_query =
  SQTenantID :: string
  SQEpisodeID :: string
  SQSessionID :: string
  SQAfterID :: int
  SQLimit :: int
  SQPreset :: event_preset

definition NormalizeRunQuery :: "run_query \<Rightarrow> run_query" where
  "NormalizeRunQuery q =
     (let q1 = (if RQLimit q \<le> 0 then q\<lparr>RQLimit := 50\<rparr> else q);
          q2 = (if 200 < RQLimit q1 then q1\<lparr>RQLimit := 200\<rparr> else q1)
      in if RQOffset q2 < 0 then q2\<lparr>RQOffset := 0\<rparr> else q2)"

definition NormalizeEventQuery :: "event_query \<Rightarrow> event_query" where
  "NormalizeEventQuery q =
     (let q1 = (if EQLimit q \<le> 0 then q\<lparr>EQLimit := 200\<rparr> else q);
          q2 = (if 1000 < EQLimit q1 then q1\<lparr>EQLimit := 1000\<rparr> else q1);
          q3 = (if EQAfterSequence q2 < 0 then q2\<lparr>EQAfterSequence := 0\<rparr> else q2)
      in q3\<lparr>EQPreset := NormalizeEventFilterPreset (EQPreset q3)\<rparr>)"

definition NormalizeScopedEventQuery :: "scoped_query \<Rightarrow> scoped_query" where
  "NormalizeScopedEventQuery q =
     (let q1 = (if SQLimit q \<le> 0 then q\<lparr>SQLimit := 200\<rparr> else q);
          q2 = (if 1000 < SQLimit q1 then q1\<lparr>SQLimit := 1000\<rparr> else q1);
          q3 = (if SQAfterID q2 < 0 then q2\<lparr>SQAfterID := 0\<rparr> else q2)
      in q3\<lparr>SQPreset := NormalizeEventFilterPreset (SQPreset q3)\<rparr>)"

definition CloneRawMessage :: "bytes option \<Rightarrow> bytes option" where
  "CloneRawMessage value = (case value of None \<Rightarrow> None | Some bs \<Rightarrow> Some (take (length bs) bs))"

definition CloneEvent :: "event \<Rightarrow> event" where
  "CloneEvent e = e\<lparr>EvPayload := CloneRawMessage (EvPayload e)\<rparr>"

definition CloneEventRecord :: "event_record \<Rightarrow> event_record" where
  "CloneEventRecord r = r\<lparr>RecEvent := CloneEvent (RecEvent r)\<rparr>"

text \<open>Times are instants, so the change of zone by \<^verbatim>\<open>UTC()\<close> is nothing; \<open>wall\<close> is read when \<open>now0\<close> is zero.\<close>

definition NormalizeEvent :: "gtime \<Rightarrow> event \<Rightarrow> gtime \<Rightarrow> event" where
  "NormalizeEvent wall e now0 =
     (let now = (if now0 = 0 then wall else now0);
          e1 = (if EvTimestamp e = 0 then e\<lparr>EvTimestamp := now\<rparr> else e)
      in e1\<lparr>EvPayload := CloneRawMessage (EvPayload e1)\<rparr>)"

definition StatusAfterEvent :: "obs_status \<Rightarrow> event_type \<Rightarrow> obs_status" where
  "StatusAfterEvent current typ =
     (if typ = EventRunCompleted then ObsCompleted
      else if typ = EventRunFailed then ObsFailed
      else if typ = EventRunCancelled then ObsCancelled
      else if typ = EventRunPaused then ObsPaused
      else if typ = EventRunStarted \<or> typ = EventRunResumed then ObsRunning
      else if current = ObsStatusOther [] then ObsRunning
      else current)"

section \<open>The in-memory store\<close>

record estore =
  NextID :: int
  NextSeq :: "string \<Rightarrow> int option"
  Records :: "event_record list"

definition NewEventStore :: estore where
  "NewEventStore = \<lparr>NextID = 0, NextSeq = Map.empty, Records = []\<rparr>"

definition seq_of :: "estore \<Rightarrow> string \<Rightarrow> int" where
  "seq_of s runID = (case NextSeq s runID of None \<Rightarrow> 0 | Some n \<Rightarrow> n)"

definition EStore_Append :: "gctx \<Rightarrow> gtime \<Rightarrow> estore \<Rightarrow> event \<Rightarrow> estore \<times> (go_error + event_record)" where
  "EStore_Append ctx now s e0 =
     (case CtxErr ctx of Some e \<Rightarrow> (s, Inl e) | None \<Rightarrow>
      if EvRunID e0 = [] then (s, Inl (Errorf ''observability inmem: run id is required'' [] None))
      else
        (let e = NormalizeEvent now (StampEventTenant ctx e0) now;
             nextID = i64 (NextID s + 1);
             sequence = i64 (seq_of s (EvRunID e) + 1);
             record = \<lparr>RecID = nextID, RecSequence = sequence, RecEvent = e, RecCreatedAt = now\<rparr>
         in (s\<lparr>NextID := nextID, NextSeq := (NextSeq s)(EvRunID e \<mapsto> sequence),
               Records := Records s @ [CloneEventRecord record]\<rparr>,
             Inr (CloneEventRecord record))))"

fun find_sequence :: "event_record list \<Rightarrow> string \<Rightarrow> int \<Rightarrow> event_record option" where
  "find_sequence [] runID sequence = None"
| "find_sequence (r # rs) runID sequence =
     (if EvRunID (RecEvent r) = runID \<and> RecSequence r = sequence then Some r
      else find_sequence rs runID sequence)"

definition EStore_AppendSequenced ::
  "gctx \<Rightarrow> gtime \<Rightarrow> estore \<Rightarrow> int \<Rightarrow> event \<Rightarrow> estore \<times> (go_error + event_record)" where
  "EStore_AppendSequenced ctx now s sequence e0 =
     (case CtxErr ctx of Some e \<Rightarrow> (s, Inl e) | None \<Rightarrow>
      if EvRunID e0 = [] then (s, Inl (Errorf ''observability inmem: run id is required'' [] None))
      else if sequence \<le> 0
           then (s, Inl (Errorf ''observability inmem: sequence must be positive, got %d'' [int_text sequence] None))
      else
        (let e = NormalizeEvent now (StampEventTenant ctx e0) now in
         case find_sequence (Records s) (EvRunID e) sequence of
           Some record \<Rightarrow> (s, Inr (CloneEventRecord record))
         | None \<Rightarrow>
             (let nextID = i64 (NextID s + 1);
                  nextSeq = (if seq_of s (EvRunID e) < sequence then (NextSeq s)(EvRunID e \<mapsto> sequence)
                             else NextSeq s);
                  record = \<lparr>RecID = nextID, RecSequence = sequence, RecEvent = e, RecCreatedAt = now\<rparr>
              in (s\<lparr>NextID := nextID, NextSeq := nextSeq, Records := Records s @ [CloneEventRecord record]\<rparr>,
                  Inr (CloneEventRecord record)))))"

text \<open>Both purges keep the records that do not match and count those that do.\<close>

definition of_tenant :: "string \<Rightarrow> event_record \<Rightarrow> bool" where
  "of_tenant tenantID r \<longleftrightarrow> tenantID = [] \<or> EvTenantID (RecEvent r) = tenantID"

definition EStore_DeleteEventsForRun :: "gctx \<Rightarrow> estore \<Rightarrow> string \<Rightarrow> estore \<times> (go_error + int)" where
  "EStore_DeleteEventsForRun ctx s runID =
     (case CtxErr ctx of Some e \<Rightarrow> (s, Inl e) | None \<Rightarrow>
      (let tenantID = Obs_TenantIDFromContext ctx;
           gone = (\<lambda>r. EvRunID (RecEvent r) = runID \<and> of_tenant tenantID r)
       in (s\<lparr>Records := filter (\<lambda>r. \<not> gone r) (Records s), NextSeq := (NextSeq s)(runID := None)\<rparr>,
           Inr (int (length (filter gone (Records s)))))))"

definition EStore_PurgeEventsBefore :: "gctx \<Rightarrow> estore \<Rightarrow> gtime \<Rightarrow> estore \<times> (go_error + int)" where
  "EStore_PurgeEventsBefore ctx s cutoff =
     (case CtxErr ctx of Some e \<Rightarrow> (s, Inl e) | None \<Rightarrow>
      (let tenantID = Obs_TenantIDFromContext ctx;
           gone = (\<lambda>r. EvTimestamp (RecEvent r) < cutoff \<and> of_tenant tenantID r)
       in (s\<lparr>Records := filter (\<lambda>r. \<not> gone r) (Records s)\<rparr>,
           Inr (int (length (filter gone (Records s)))))))"

section \<open>Listings\<close>

text \<open>
  \<open>byRun\<close> is an association list; the order the map is walked in does not matter, because the sort
  below is by a total order on distinct run ids.
\<close>

definition summary_after :: "run_summary \<Rightarrow> event_record \<Rightarrow> run_summary" where
  "summary_after s0 r =
     (let e = RecEvent r;
          s1 = (if SumRun s0 = [] then s0\<lparr>SumRun := EvRunID e, SumTenantID := EvTenantID e,
                                         SumFirstSeenAt := EvTimestamp e\<rparr> else s0);
          s2 = (if SumScenarioName s1 = [] then s1\<lparr>SumScenarioName := EvScenarioName e\<rparr> else s1)
      in s2\<lparr>SumEventCount := i64 (SumEventCount s2 + 1), SumLastSeenAt := EvTimestamp e,
            SumLastEventType := EvType e, SumStatusOf := StatusAfterEvent (SumStatusOf s2) (EvType e)\<rparr>)"

fun summaries_loop ::
  "run_query \<Rightarrow> event_record list \<Rightarrow> (string \<times> run_summary) list \<Rightarrow> (string \<times> run_summary) list" where
  "summaries_loop q [] byRun = byRun"
| "summaries_loop q (r # rs) byRun =
     (if RQTenantID q \<noteq> [] \<and> EvTenantID (RecEvent r) \<noteq> RQTenantID q then summaries_loop q rs byRun
      else
        (let runID = EvRunID (RecEvent r);
             s0 = (case map_of byRun runID of None \<Rightarrow> zero_summary | Some s \<Rightarrow> s)
         in summaries_loop q rs (AList.update runID (summary_after s0 r) byRun)))"

definition summary_less :: "run_summary \<Rightarrow> run_summary \<Rightarrow> bool" where
  "summary_less a b =
     (if SumLastSeenAt a = SumLastSeenAt b then str_less (SumRun a) (SumRun b)
      else SumLastSeenAt b < SumLastSeenAt a)"

definition EStore_ListRuns :: "gctx \<Rightarrow> estore \<Rightarrow> run_query \<Rightarrow> go_error + run_summary list" where
  "EStore_ListRuns ctx s q0 =
     (case CtxErr ctx of Some e \<Rightarrow> Inl e | None \<Rightarrow>
      (let q = NormalizeRunQuery q0;
           byRun = summaries_loop q (Records s) [];
           runs = sort_stable summary_less
             (filter (\<lambda>m. \<not> (RQStatus q \<noteq> ObsStatusOther [] \<and> SumStatusOf m \<noteq> RQStatus q)) (map snd byRun))
       in if int (length runs) \<le> RQOffset q then Inr []
          else Inr (take (nat (RQLimit q)) (drop (nat (RQOffset q)) runs))))"

text \<open>The shared loop of the event listings: the first \<open>limit\<close> records that pass.\<close>

fun take_matching :: "(event_record \<Rightarrow> bool) \<Rightarrow> int \<Rightarrow> event_record list \<Rightarrow> event_record list \<Rightarrow> event_record list" where
  "take_matching keep limit [] out = out"
| "take_matching keep limit (r # rs) out =
     (if \<not> keep r then take_matching keep limit rs out
      else (let out' = out @ [CloneEventRecord r] in
            if limit \<le> int (length out') then out' else take_matching keep limit rs out'))"

definition event_matches :: "string \<Rightarrow> event_query \<Rightarrow> event_record \<Rightarrow> bool" where
  "event_matches runID q r \<longleftrightarrow>
     EvRunID (RecEvent r) = runID \<and> EQAfterSequence q < RecSequence r
     \<and> \<not> (EQTenantID q \<noteq> [] \<and> EvTenantID (RecEvent r) \<noteq> EQTenantID q)
     \<and> EventAllowedByPreset (EvType (RecEvent r)) (EQPreset q)"

definition EStore_ListEvents :: "gctx \<Rightarrow> estore \<Rightarrow> string \<Rightarrow> event_query \<Rightarrow> go_error + event_record list" where
  "EStore_ListEvents ctx s runID q0 =
     (case CtxErr ctx of Some e \<Rightarrow> Inl e | None \<Rightarrow>
      (let q = NormalizeEventQuery q0
       in Inr (take_matching (event_matches runID q) (EQLimit q) (Records s) [])))"

definition scoped_matches :: "scoped_query \<Rightarrow> event_record \<Rightarrow> bool" where
  "scoped_matches q r \<longleftrightarrow>
     SQAfterID q < RecID r
     \<and> \<not> (SQEpisodeID q \<noteq> [] \<and> EvEpisodeID (RecEvent r) \<noteq> SQEpisodeID q)
     \<and> \<not> (SQSessionID q \<noteq> [] \<and> EvSessionID (RecEvent r) \<noteq> SQSessionID q)
     \<and> \<not> (SQTenantID q \<noteq> [] \<and> EvTenantID (RecEvent r) \<noteq> SQTenantID q)
     \<and> EventAllowedByPreset (EvType (RecEvent r)) (SQPreset q)"

definition EStore_ListScopedEvents :: "gctx \<Rightarrow> estore \<Rightarrow> scoped_query \<Rightarrow> go_error + event_record list" where
  "EStore_ListScopedEvents ctx s q0 =
     (case CtxErr ctx of Some e \<Rightarrow> Inl e | None \<Rightarrow>
      (let q = NormalizeScopedEventQuery q0 in
       if SQEpisodeID q = [] \<and> SQSessionID q = []
       then Inl (Errorf ''observability inmem: episode_id or session_id is required'' [] None)
       else if SQEpisodeID q \<noteq> [] \<and> SQSessionID q \<noteq> []
       then Inl (Errorf ''observability inmem: episode_id and session_id are mutually exclusive'' [] None)
       else Inr (take_matching (scoped_matches q) (SQLimit q) (Records s) [])))"

section \<open>The hub\<close>

record subscription_filter =
  SubTenantID :: string
  SubRunID :: string
  SubEpisodeID :: string
  SubSessionID :: string
  SubBuffer :: int

record event_subscriber =
  SubFilter :: subscription_filter
  SubEvents :: "event_record list"

record event_hub =
  HubNextID :: "64 word"
  Subscribers :: "(64 word \<times> event_subscriber) list"
  Dropped :: int

definition NewEventHub :: event_hub where
  "NewEventHub = \<lparr>HubNextID = 0, Subscribers = [], Dropped = 0\<rparr>"

definition Hub_Subscribe :: "event_hub \<Rightarrow> subscription_filter \<Rightarrow> event_hub \<times> 64 word" where
  "Hub_Subscribe h f0 =
     (let f = (if SubBuffer f0 \<le> 0 then f0\<lparr>SubBuffer := 64\<rparr> else f0); i = HubNextID h
      in (h\<lparr>HubNextID := i + 1,
            Subscribers := AList.update i \<lparr>SubFilter = f, SubEvents = []\<rparr> (Subscribers h)\<rparr>, i))"

text \<open>The cleanup that an explicit cancel or the end of the context runs, once.\<close>

definition Hub_cleanup :: "event_hub \<Rightarrow> 64 word \<Rightarrow> event_hub" where
  "Hub_cleanup h i = h\<lparr>Subscribers := AList.delete i (Subscribers h)\<rparr>"

definition sub_matches :: "subscription_filter \<Rightarrow> event_record \<Rightarrow> bool" where
  "sub_matches f r \<longleftrightarrow>
     \<not> (SubTenantID f \<noteq> [] \<and> SubTenantID f \<noteq> EvTenantID (RecEvent r))
     \<and> \<not> (SubRunID f \<noteq> [] \<and> SubRunID f \<noteq> EvRunID (RecEvent r))
     \<and> \<not> (SubEpisodeID f \<noteq> [] \<and> SubEpisodeID f \<noteq> EvEpisodeID (RecEvent r))
     \<and> \<not> (SubSessionID f \<noteq> [] \<and> SubSessionID f \<noteq> EvSessionID (RecEvent r))"

text \<open>One subscriber of the publish loop: the send succeeds when the buffer has room.\<close>

definition deliver :: "event_record \<Rightarrow> event_subscriber \<Rightarrow> event_subscriber \<times> bool" where
  "deliver r sub =
     (if \<not> sub_matches (SubFilter sub) r then (sub, False)
      else if int (length (SubEvents sub)) < SubBuffer (SubFilter sub)
           then (sub\<lparr>SubEvents := SubEvents sub @ [CloneEventRecord r]\<rparr>, False)
      else (sub, True))"

fun publish_loop :: "event_record \<Rightarrow> (64 word \<times> event_subscriber) list \<Rightarrow> (64 word \<times> event_subscriber) list \<times> int" where
  "publish_loop r [] = ([], 0)"
| "publish_loop r ((i, sub) # subs) =
     (let (sub', lost) = deliver r sub; (subs', n) = publish_loop r subs
      in ((i, sub') # subs', (if lost then n + 1 else n)))"

definition Hub_PublishEvent :: "gctx \<Rightarrow> event_hub option \<Rightarrow> event_record \<Rightarrow> event_hub option \<times> go_error option" where
  "Hub_PublishEvent ctx hub r =
     (case hub of None \<Rightarrow> (None, None) | Some h \<Rightarrow>
     (case CtxErr ctx of Some e \<Rightarrow> (Some h, Some e) | None \<Rightarrow>
      (let (subs, n) = publish_loop r (Subscribers h)
       in (Some (h\<lparr>Subscribers := subs, Dropped := Dropped h + n\<rparr>), None))))"

definition Hub_DroppedEvents :: "event_hub option \<Rightarrow> int" where
  "Hub_DroppedEvents hub = (case hub of None \<Rightarrow> 0 | Some h \<Rightarrow> Dropped h)"

text \<open>A subscriber takes the oldest buffered record.\<close>

definition Hub_receive :: "event_hub \<Rightarrow> 64 word \<Rightarrow> event_hub \<times> event_record option" where
  "Hub_receive h i =
     (case map_of (Subscribers h) i of
        Some sub \<Rightarrow>
          (case SubEvents sub of
             [] \<Rightarrow> (h, None)
           | r # rs \<Rightarrow> (h\<lparr>Subscribers := AList.update i (sub\<lparr>SubEvents := rs\<rparr>) (Subscribers h)\<rparr>, Some r))
      | None \<Rightarrow> (h, None))"

section \<open>Lemmas\<close>

lemma CloneRawMessage_id [simp]: "CloneRawMessage v = v"
  by (cases v) (simp_all add: CloneRawMessage_def)

lemma CloneEventRecord_id [simp]: "CloneEventRecord r = r"
  by (simp add: CloneEventRecord_def CloneEvent_def)

lemma EvRunID_normal [simp]: "EvRunID (NormalizeEvent wall (StampEventTenant ctx e) now) = EvRunID e"
  by (simp add: NormalizeEvent_def StampEventTenant_def Let_def)

abbreviation rec_run :: "event_record \<Rightarrow> string" where
  "rec_run r \<equiv> EvRunID (RecEvent r)"

lemma find_sequence_Some:
  "find_sequence rs runID n = Some r \<Longrightarrow> r \<in> set rs \<and> rec_run r = runID \<and> RecSequence r = n"
  by (induction rs) (auto split: if_splits)

lemma find_sequence_None:
  "find_sequence rs runID n = None \<longleftrightarrow> (\<forall>r \<in> set rs. \<not> (rec_run r = runID \<and> RecSequence r = n))"
  by (induction rs) auto

lemma find_sequence_append:
  "find_sequence (rs @ rs') runID n =
     (case find_sequence rs runID n of None \<Rightarrow> find_sequence rs' runID n | Some r \<Rightarrow> Some r)"
  by (induction rs) auto

lemma take_matching_eq:
  "int (length out) < limit \<Longrightarrow>
     take_matching keep limit rs out = out @ take (nat limit - length out) (filter keep rs)"
proof (induction rs arbitrary: out)
  case (Cons r rs)
  show ?case
  proof (cases "keep r \<and> limit \<le> int (length out) + 1")
    case True
    with Cons.prems have "nat limit - length out = 1" by arith
    with True show ?thesis by simp
  next
    case False
    with Cons have "keep r \<Longrightarrow> nat limit - length out = Suc (nat limit - length (out @ [r]))" by simp
    with False Cons show ?thesis by (auto simp: Let_def)
  qed
qed simp

lemma NormalizeEventQuery_limit [simp]: "0 < EQLimit (NormalizeEventQuery q)"
  by (simp add: NormalizeEventQuery_def Let_def)

lemma ListEvents_eq:
  "CtxErr ctx = None \<Longrightarrow> EStore_ListEvents ctx s runID q =
     Inr (take (nat (EQLimit (NormalizeEventQuery q)))
       (filter (event_matches runID (NormalizeEventQuery q)) (Records s)))"
  by (simp add: EStore_ListEvents_def take_matching_eq Let_def)

section \<open>Histories of the log\<close>

text \<open>The states reached by appends, relayed appends and purges by age, while the counters have room.\<close>

inductive log_reachable :: "estore \<Rightarrow> bool" where
  start: "log_reachable NewEventStore"
| append: "log_reachable s \<Longrightarrow> NextID s < 2 ^ 63 - 1 \<Longrightarrow> (\<And>runID. seq_of s runID < 2 ^ 63 - 1) \<Longrightarrow>
     EStore_Append ctx now s e = (s', res) \<Longrightarrow> log_reachable s'"
| append_sequenced: "log_reachable s \<Longrightarrow> NextID s < 2 ^ 63 - 1 \<Longrightarrow>
     EStore_AppendSequenced ctx now s sequence e = (s', res) \<Longrightarrow> log_reachable s'"
| purge: "log_reachable s \<Longrightarrow> EStore_PurgeEventsBefore ctx s cutoff = (s', res) \<Longrightarrow> log_reachable s'"

text \<open>The invariant: ids increase along the log, a run has one record per sequence number, and the counters are ahead.\<close>

definition log_inv :: "estore \<Rightarrow> bool" where
  "log_inv s \<longleftrightarrow> sorted_wrt (\<lambda>a b. RecID a < RecID b) (Records s)
     \<and> distinct (map (\<lambda>r. (rec_run r, RecSequence r)) (Records s))
     \<and> (\<forall>r \<in> set (Records s). RecID r \<le> NextID s \<and> RecSequence r \<le> seq_of s (rec_run r) \<and> 0 < RecSequence r)
     \<and> 0 \<le> NextID s \<and> (\<forall>runID. 0 \<le> seq_of s runID)"

lemma log_inv_add:
  assumes inv: "log_inv s" and n: "NextID s < 2 ^ 63 - 1"
    and new: "\<forall>r \<in> set (Records s). \<not> (rec_run r = rec_run rec \<and> RecSequence r = RecSequence rec)"
    and rec: "RecID rec = i64 (NextID s + 1)" "0 < RecSequence rec"
    and s': "NextID s' = i64 (NextID s + 1)" "Records s' = Records s @ [rec]"
      "\<And>runID. seq_of s' runID = (if runID = rec_run rec then max (seq_of s runID) (RecSequence rec) else seq_of s runID)"
  shows "log_inv s'"
proof -
  from inv n have up: "i64 (NextID s + 1) = NextID s + 1" by (intro i64_id) (simp_all add: log_inv_def)
  show ?thesis
    using inv new rec unfolding log_inv_def s' up
    by (auto simp: sorted_wrt_append image_iff le_max_iff_disj intro: le_less_trans)
qed

lemma log_reachable_inv: "log_reachable s \<Longrightarrow> log_inv s"
proof (induction rule: log_reachable.induct)
  case start
  show ?case by (simp add: log_inv_def NewEventStore_def seq_of_def)
next
  case (append s ctx now e s' res)
  show ?case
  proof (cases "s' = s")
    case False
    let ?seq = "i64 (seq_of s (EvRunID e) + 1)"
    from append.IH append.hyps(3) [of "EvRunID e"] have sq: "?seq = seq_of s (EvRunID e) + 1"
      by (intro i64_id) (simp_all add: log_inv_def)
    from append.hyps(4) False obtain rec where
      s': "NextID s' = i64 (NextID s + 1)" "Records s' = Records s @ [rec]"
        "NextSeq s' = (NextSeq s)(EvRunID e \<mapsto> ?seq)"
      and rec: "RecID rec = i64 (NextID s + 1)" "RecSequence rec = ?seq" "rec_run rec = EvRunID e"
      by (auto simp: EStore_Append_def Let_def split: option.splits if_splits)
    show ?thesis
    proof (rule log_inv_add [OF append.IH append.hyps(2) _ rec(1) _ s'(1,2)])
      show "\<forall>r \<in> set (Records s). \<not> (rec_run r = rec_run rec \<and> RecSequence r = RecSequence rec)"
        using append.IH rec sq by (fastforce simp: log_inv_def)
      have "0 \<le> seq_of s (EvRunID e)" using append.IH by (simp add: log_inv_def)
      then show "0 < RecSequence rec" using rec sq by simp
      show "seq_of s' runID = (if runID = rec_run rec then max (seq_of s runID) (RecSequence rec) else seq_of s runID)"
        for runID
        using rec sq by (simp add: seq_of_def s'(3))
    qed
  qed (use append.IH in simp)
next
  case (append_sequenced s ctx now sequence e s' res)
  show ?case
  proof (cases "s' = s")
    case False
    with append_sequenced.hyps(3) obtain rec where
      s': "NextID s' = i64 (NextID s + 1)" "Records s' = Records s @ [rec]"
        "NextSeq s' = (if seq_of s (EvRunID e) < sequence then (NextSeq s)(EvRunID e \<mapsto> sequence) else NextSeq s)"
      and rec: "RecID rec = i64 (NextID s + 1)" "RecSequence rec = sequence" "rec_run rec = EvRunID e"
        "find_sequence (Records s) (EvRunID e) sequence = None" "0 < sequence"
      by (auto simp: EStore_AppendSequenced_def Let_def split: option.splits if_splits)
    show ?thesis
    proof (rule log_inv_add [OF append_sequenced.IH append_sequenced.hyps(2) _ rec(1) _ s'(1,2)])
      show "\<forall>r \<in> set (Records s). \<not> (rec_run r = rec_run rec \<and> RecSequence r = RecSequence rec)"
        using rec by (simp add: find_sequence_None)
      show "0 < RecSequence rec" using rec by simp
      show "seq_of s' runID = (if runID = rec_run rec then max (seq_of s runID) (RecSequence rec) else seq_of s runID)"
        for runID
        using rec by (auto simp: seq_of_def s'(3) max_def split: if_splits)
    qed
  qed (use append_sequenced.IH in simp)
next
  case (purge s ctx cutoff s' res)
  then obtain keep where "s' = s\<lparr>Records := filter keep (Records s)\<rparr>"
    by (auto simp: EStore_PurgeEventsBefore_def Let_def split: option.splits intro: that [of "\<lambda>_. True"])
  with purge.IH show ?case
    by (auto simp: log_inv_def seq_of_def sorted_wrt_filter distinct_map_filter)
qed

section \<open>Properties\<close>

definition sample_event :: "string \<Rightarrow> event_type \<Rightarrow> event" where
  "sample_event tenant typ = \<lparr>EvType = typ, EvRunID = ''r'', EvTenantID = tenant, EvScenarioName = ''s'',
     EvEpisodeID = [], EvSessionID = [], EvTriggerKind = [], EvTimestamp = 0, EvTraceID = [], EvSpanID = [],
     EvParentSpanID = [], EvCategory = [], EvDisplayLabel = [], EvPayload = None\<rparr>"

text \<open>
  The event log has no duplicate and keeps its order. After any sequence of appends, relayed appends
  and age purges, record ids increase strictly along the log, no run has two records with one sequence
  number, and every sequence number is positive and at most the counter of its run.
\<close>

theorem event_log_unique:
  assumes "log_reachable s"
  shows "sorted_wrt (\<lambda>a b. RecID a < RecID b) (Records s)
    \<and> distinct (map (\<lambda>r. (EvRunID (RecEvent r), RecSequence r)) (Records s))
    \<and> (\<forall>r \<in> set (Records s). 0 < RecSequence r \<and> RecSequence r \<le> seq_of s (EvRunID (RecEvent r)))"
  using log_reachable_inv [OF assms] by (simp add: log_inv_def)

definition sample_log :: estore where
  "sample_log = fst (EStore_AppendSequenced Background 7
     (fst (EStore_Append Background 5 NewEventStore (sample_event [] EventRunStarted))) 3
     (sample_event [] EventRunCompleted))"

lemma sample_log_reachable: "log_reachable sample_log"
proof -
  let ?s1 = "fst (EStore_Append Background 5 NewEventStore (sample_event [] EventRunStarted))"
  have "log_reachable ?s1"
    by (rule log_reachable.append [OF log_reachable.start _ _ surjective_pairing])
      (simp_all add: NewEventStore_def seq_of_def)
  moreover have "NextID ?s1 = 1"
    by (simp add: EStore_Append_def NewEventStore_def sample_event_def Background_def Let_def)
  ultimately show ?thesis
    unfolding sample_log_def
    by (intro log_reachable.append_sequenced [OF _ _ surjective_pairing]) simp_all
qed

theorem event_log_unique_witness:
  "map RecSequence (Records sample_log) = [1, 3]
     \<and> distinct (map (\<lambda>r. (EvRunID (RecEvent r), RecSequence r)) (Records sample_log))"
proof -
  have "map RecSequence (Records sample_log) = [1, 3]"
    by (simp add: sample_log_def EStore_AppendSequenced_def EStore_Append_def NewEventStore_def
        NormalizeEvent_def StampEventTenant_def seq_of_def sample_event_def Background_def Let_def)
  with event_log_unique [OF sample_log_reachable] show ?thesis by blast
qed

text \<open>
  Redelivery is idempotent. Once a relayed append of an event under a sequence number has succeeded,
  every later relayed append for the same run and number, after any further appends, returns the same
  record and leaves the log as it is.
\<close>

theorem AppendSequenced_idempotent:
  assumes "EStore_AppendSequenced ctx now s n e = (s1, Inr r)"
    and "CtxErr ctx' = None" and "EvRunID e' = EvRunID e"
    and "\<exists>more. Records s2 = Records s1 @ more"
  shows "EStore_AppendSequenced ctx' now' s2 n e' = (s2, Inr r)"
proof -
  from assms(1) have "find_sequence (Records s1) (EvRunID e) n = Some r" and n: "0 < n" "EvRunID e \<noteq> []"
    by (auto simp: EStore_AppendSequenced_def Let_def find_sequence_append split: option.splits if_splits)
  with assms(4) have "find_sequence (Records s2) (EvRunID e) n = Some r"
    by (auto simp: find_sequence_append)
  with n assms(2,3) show ?thesis by (simp add: EStore_AppendSequenced_def Let_def)
qed

theorem AppendSequenced_idempotent_witness:
  "\<exists>s1 r. EStore_AppendSequenced Background 7 NewEventStore 3 (sample_event [] EventRunCompleted) = (s1, Inr r)
     \<and> EStore_AppendSequenced Background 9 s1 3 (sample_event [] EventRunFailed) = (s1, Inr r)"
proof -
  obtain s1 r where a: "EStore_AppendSequenced Background 7 NewEventStore 3 (sample_event [] EventRunCompleted) = (s1, Inr r)"
    by (simp add: EStore_AppendSequenced_def NewEventStore_def sample_event_def Background_def Let_def)
  have "EStore_AppendSequenced Background 9 s1 3 (sample_event [] EventRunFailed) = (s1, Inr r)"
    by (rule AppendSequenced_idempotent [OF a]) (simp_all add: Background_def sample_event_def)
  with a show ?thesis by blast
qed

text \<open>
  A reader that follows a run by its last sequence number misses nothing. When the records of a run
  are in sequence order, as appends leave them, the listing after the last sequence number of a page is
  the next page of the same listing: pages neither overlap nor skip.
\<close>

theorem ListEvents_pages:
  assumes "CtxErr ctx = None"
    and "sorted_wrt (\<lambda>a b. EvRunID (RecEvent a) = EvRunID (RecEvent b) \<longrightarrow> RecSequence a < RecSequence b) (Records s)"
    and "EStore_ListEvents ctx s runID q = Inr page" and "page \<noteq> []"
    and "EStore_ListEvents ctx s runID (q\<lparr>EQAfterSequence := RecSequence (last page)\<rparr>) = Inr page'"
  shows "let all = filter (event_matches runID (NormalizeEventQuery q)) (Records s);
             n = nat (EQLimit (NormalizeEventQuery q))
         in page = take n all \<and> page' = take n (drop n all)"
proof -
  let ?q = "NormalizeEventQuery q" and ?n = "nat (EQLimit (NormalizeEventQuery q))"
  let ?last = "RecSequence (last page)"
  let ?q' = "NormalizeEventQuery (q\<lparr>EQAfterSequence := ?last\<rparr>)"
  let ?all = "filter (event_matches runID ?q) (Records s)"
  have page: "page = take ?n ?all" using assms(1,3) by (simp add: ListEvents_eq)
  have srt: "sorted_wrt (\<lambda>a b. RecSequence a < RecSequence b) ?all"
    by (rule sorted_wrt_mono_rel [OF _ sorted_wrt_filter [OF assms(2)]]) (auto simp: event_matches_def)
  have last: "last page \<in> set page" using assms(4) by simp
  then have "last page \<in> set ?all" unfolding page by (rule in_set_takeD)
  then have pos: "EQAfterSequence ?q < ?last" by (simp add: event_matches_def)
  have m': "event_matches runID ?q' = (\<lambda>r. event_matches runID ?q r \<and> ?last < RecSequence r)"
    using pos
    by (intro ext) (auto simp: event_matches_def NormalizeEventQuery_def Let_def split: if_splits)
  have "filter (\<lambda>r. ?last < RecSequence r) page = []"
  proof -
    have "page = butlast page @ [last page]" using assms(4) by simp
    moreover have "sorted_wrt (\<lambda>a b. RecSequence a < RecSequence b) page"
      unfolding page by (rule sorted_wrt_take [OF srt])
    ultimately have "\<forall>x \<in> set (butlast page). RecSequence x < ?last"
      by (metis sorted_wrt_append list.set_intros(1))
    then show ?thesis
      by (metis (no_types, lifting) \<open>page = butlast page @ [last page]\<close> append_Nil filter.simps filter_append
          filter_empty_conv less_asym less_irrefl)
  qed
  moreover have "filter (\<lambda>r. ?last < RecSequence r) (drop ?n ?all) = drop ?n ?all"
  proof -
    have "sorted_wrt (\<lambda>a b. RecSequence a < RecSequence b) (take ?n ?all @ drop ?n ?all)" using srt by simp
    then have "\<forall>x \<in> set (drop ?n ?all). ?last < RecSequence x"
      using last unfolding sorted_wrt_append page [symmetric] by blast
    then show ?thesis by (simp add: filter_id_conv)
  qed
  ultimately have "filter (\<lambda>r. ?last < RecSequence r) ?all = drop ?n ?all"
    using append_take_drop_id [of ?n ?all] unfolding page [symmetric] by (metis append_Nil filter_append)
  then have "filter (event_matches runID ?q') (Records s) = drop ?n ?all"
    by (simp add: m' conj_commute)
  moreover have "EQLimit ?q' = EQLimit ?q" by (simp add: NormalizeEventQuery_def Let_def)
  ultimately have "page' = take ?n (drop ?n ?all)" using assms(1,5) by (simp add: ListEvents_eq)
  with page show ?thesis by simp
qed

definition sample_query :: "int \<Rightarrow> event_query" where
  "sample_query n = \<lparr>EQTenantID = [], EQAfterSequence = n, EQLimit = 1, EQPreset = EventFilterDiagnostic\<rparr>"

theorem ListEvents_pages_witness:
  "\<exists>a b. EStore_ListEvents Background sample_log ''r'' (sample_query 0) = Inr [a]
     \<and> EStore_ListEvents Background sample_log ''r'' (sample_query (RecSequence a)) = Inr [b]
     \<and> RecSequence a = 1 \<and> RecSequence b = 3"
proof -
  have live: "CtxErr Background = None" by (simp add: Background_def)
  obtain a b where rs: "Records sample_log = [a, b]" "RecSequence a = 1" "RecSequence b = 3"
    "EvRunID (RecEvent a) = ''r''" "EvRunID (RecEvent b) = ''r''"
    by (simp add: sample_log_def EStore_AppendSequenced_def EStore_Append_def NewEventStore_def
        NormalizeEvent_def StampEventTenant_def seq_of_def sample_event_def Background_def Let_def)
  have lim: "EQLimit (NormalizeEventQuery (sample_query n)) = 1" for n
    by (simp add: NormalizeEventQuery_def sample_query_def Let_def)
  have m: "event_matches ''r'' (NormalizeEventQuery (sample_query n)) r \<longleftrightarrow>
      EvRunID (RecEvent r) = ''r'' \<and> max 0 n < RecSequence r" for n r
    by (auto simp: event_matches_def NormalizeEventQuery_def sample_query_def EventAllowedByPreset_iff
        NormalizeEventFilterPreset_def Let_def)
  have p1: "EStore_ListEvents Background sample_log ''r'' (sample_query 0) = Inr [a]"
    by (simp add: ListEvents_eq [OF live] lim m rs)
  have q2: "(sample_query 0)\<lparr>EQAfterSequence := RecSequence (last [a])\<rparr> = sample_query (RecSequence a)"
    by (simp add: sample_query_def)
  obtain p where p2: "EStore_ListEvents Background sample_log ''r'' (sample_query (RecSequence a)) = Inr p"
    by (simp add: ListEvents_eq [OF live])
  from ListEvents_pages [OF live _ p1 _ p2 [folded q2]] have "p = [b]" by (simp add: lim m rs)
  with p1 p2 rs show ?thesis by blast
qed

text \<open>
  The hub accounts for every event. Publishing a sequence of records leaves each subscriber's buffer
  as what it held followed by its matching records, cut at its capacity and in order, and the counter of
  dropped deliveries grows by exactly the deliveries that did not fit.
\<close>

definition publish_all :: "event_record list \<Rightarrow> event_hub \<Rightarrow> event_hub" where
  "publish_all rs h = foldl (\<lambda>h r. the (fst (Hub_PublishEvent Background (Some h) r))) h rs"

definition overflow :: "event_record list \<Rightarrow> event_subscriber \<Rightarrow> int" where
  "overflow rs sub = int (length (SubEvents sub) + length (filter (sub_matches (SubFilter sub)) rs))
     - min (int (length (SubEvents sub) + length (filter (sub_matches (SubFilter sub)) rs)))
           (SubBuffer (SubFilter sub))"

definition filled :: "event_record list \<Rightarrow> event_subscriber \<Rightarrow> event_subscriber" where
  "filled rs sub = sub\<lparr>SubEvents := take (nat (SubBuffer (SubFilter sub)))
     (SubEvents sub @ filter (sub_matches (SubFilter sub)) rs)\<rparr>"

lemma publish_loop_eq:
  "publish_loop r subs = (map (\<lambda>(i, sub). (i, fst (deliver r sub))) subs,
     sum_list (map (\<lambda>(i, sub). if snd (deliver r sub) then 1 else 0) subs))"
  by (induction subs) (auto simp: case_prod_beta Let_def)

lemma Hub_PublishEvent_live:
  "the (fst (Hub_PublishEvent Background (Some h) r)) =
     h\<lparr>Subscribers := map (\<lambda>(i, sub). (i, fst (deliver r sub))) (Subscribers h),
       Dropped := Dropped h + sum_list (map (\<lambda>(i, sub). if snd (deliver r sub) then 1 else 0) (Subscribers h))\<rparr>"
  by (simp add: Hub_PublishEvent_def Background_def publish_loop_eq)

lemma deliver_filled:
  assumes "int (length (SubEvents sub)) \<le> SubBuffer (SubFilter sub)"
  shows "filled rs (fst (deliver r sub)) = filled (r # rs) sub"
    and "overflow (r # rs) sub = overflow rs (fst (deliver r sub)) + (if snd (deliver r sub) then 1 else 0)"
    and "int (length (SubEvents (fst (deliver r sub)))) \<le> SubBuffer (SubFilter (fst (deliver r sub)))"
  using assms by (auto simp: deliver_def filled_def overflow_def take_Cons')

definition fits :: "(64 word \<times> event_subscriber) list \<Rightarrow> bool" where
  "fits subs = list_all (\<lambda>(i, sub). int (length (SubEvents sub)) \<le> SubBuffer (SubFilter sub)) subs"

lemma deliver_sums:
  "fits subs \<Longrightarrow> sum_list (map (\<lambda>(i, sub). overflow (r # rs) sub) subs) =
     sum_list (map (\<lambda>(i, sub). overflow rs (fst (deliver r sub))) subs)
     + sum_list (map (\<lambda>(i, sub). if snd (deliver r sub) then 1 else 0) subs)"
  by (induction subs) (auto simp: fits_def deliver_filled(2))

lemma deliver_fits: "fits subs \<Longrightarrow> fits (map (\<lambda>(i, sub). (i, fst (deliver r sub))) subs)"
  by (induction subs) (auto simp: fits_def deliver_filled(3))

lemma deliver_fills:
  "fits subs \<Longrightarrow> map (\<lambda>(i, sub). (i, filled rs (fst (deliver r sub)))) subs = map (\<lambda>(i, sub). (i, filled (r # rs) sub)) subs"
  by (induction subs) (auto simp: fits_def deliver_filled(1))

lemma fits_Nil:
  "fits subs \<Longrightarrow> map (\<lambda>(i, sub). (i, filled [] sub)) subs = subs"
  "fits subs \<Longrightarrow> sum_list (map (\<lambda>(i, sub). overflow [] sub) subs) = 0"
  by (induction subs) (auto simp: fits_def filled_def overflow_def)

theorem hub_accounts_for_events:
  assumes "fits (Subscribers h)"
  shows "Subscribers (publish_all rs h) = map (\<lambda>(i, sub). (i, filled rs sub)) (Subscribers h)
    \<and> Dropped (publish_all rs h) = Dropped h + sum_list (map (\<lambda>(i, sub). overflow rs sub) (Subscribers h))"
  using assms
proof (induction rs arbitrary: h)
  case Nil
  then show ?case by (simp add: publish_all_def fits_Nil)
next
  case (Cons r rs)
  let ?h = "the (fst (Hub_PublishEvent Background (Some h) r))"
  have "fits (Subscribers ?h)" using Cons.prems by (simp add: Hub_PublishEvent_live deliver_fits)
  from Cons.IH [OF this] have
    "Subscribers (publish_all rs ?h) = map (\<lambda>(i, sub). (i, filled rs (fst (deliver r sub)))) (Subscribers h)"
    "Dropped (publish_all rs ?h) = Dropped ?h + sum_list (map (\<lambda>(i, sub). overflow rs (fst (deliver r sub))) (Subscribers h))"
    by (simp_all add: Hub_PublishEvent_live split_def comp_def)
  moreover have "publish_all (r # rs) h = publish_all rs ?h" by (simp add: publish_all_def)
  ultimately show ?case
    using Cons.prems by (simp add: deliver_fills deliver_sums Hub_PublishEvent_live)
qed

definition sample_record :: "int \<Rightarrow> event_record" where
  "sample_record n = \<lparr>RecID = n, RecSequence = n, RecEvent = sample_event [] EventRunStarted, RecCreatedAt = 1\<rparr>"

theorem hub_accounts_for_events_witness:
  "let f = \<lparr>SubTenantID = [], SubRunID = ''r'', SubEpisodeID = [], SubSessionID = [], SubBuffer = 2\<rparr>;
       (h, i) = Hub_Subscribe NewEventHub f;
       h' = publish_all [sample_record 1, sample_record 2, sample_record 3] h
   in map (\<lambda>(i, sub). map RecID (SubEvents sub)) (Subscribers h') = [[1, 2]] \<and> Dropped h' = 1"
proof -
  let ?f = "\<lparr>SubTenantID = [], SubRunID = ''r'', SubEpisodeID = [], SubSessionID = [], SubBuffer = 2\<rparr>"
  let ?h = "fst (Hub_Subscribe NewEventHub ?f)"
  have h: "?h = \<lparr>HubNextID = 1, Subscribers = [(0, \<lparr>SubFilter = ?f, SubEvents = []\<rparr>)], Dropped = 0\<rparr>"
    by (simp add: Hub_Subscribe_def NewEventHub_def)
  have "fits (Subscribers ?h)" by (simp add: h fits_def)
  from hub_accounts_for_events [OF this, of "[sample_record 1, sample_record 2, sample_record 3]"]
  show ?thesis
    by (simp add: h filled_def overflow_def sub_matches_def sample_record_def sample_event_def case_prod_beta)
qed

text \<open>
  Deleting the events of a run under a tenant forgets the sequence counter of the run although
  records of the run with another tenant stamp stay, so the next append gives out a sequence number that
  a stored record of that run already has.
\<close>

theorem tenant_delete_reuses_sequence:
  assumes "log_reachable s" and "r \<in> set (Records s)" and "RecSequence r = 1"
    and "CtxErr ctx = None" and "Obs_TenantIDFromContext ctx \<noteq> []"
    and "EvTenantID (RecEvent r) \<noteq> Obs_TenantIDFromContext ctx" and "EvRunID e = EvRunID (RecEvent r)"
    and "EvRunID e \<noteq> []"
  shows "\<exists>s1 s2 k r'. EStore_DeleteEventsForRun ctx s (EvRunID e) = (s1, Inr k)
    \<and> EStore_Append ctx now s1 e = (s2, Inr r') \<and> r \<in> set (Records s2) \<and> r' \<in> set (Records s2)
    \<and> EvRunID (RecEvent r') = EvRunID (RecEvent r) \<and> RecSequence r' = RecSequence r"
  using assms by (auto simp: EStore_DeleteEventsForRun_def EStore_Append_def of_tenant_def seq_of_def Let_def)

theorem tenant_delete_reuses_sequence_witness:
  "\<exists>s1 s2 k r r'. EStore_DeleteEventsForRun (WithPrincipal Background (sample_principal ''a'')) sample_log ''r'' = (s1, Inr k)
    \<and> EStore_Append (WithPrincipal Background (sample_principal ''a'')) 9 s1 (sample_event [] EventRunStarted) = (s2, Inr r')
    \<and> r \<in> set (Records s2) \<and> RecSequence r = 1 \<and> RecSequence r' = 1"
proof -
  let ?ctx = "WithPrincipal Background (sample_principal ''a'')"
  obtain a b where rs: "Records sample_log = [a, b]" "RecSequence a = 1"
    "EvRunID (RecEvent a) = ''r''" "EvTenantID (RecEvent a) = []"
    by (simp add: sample_log_def EStore_AppendSequenced_def EStore_Append_def NewEventStore_def
        NormalizeEvent_def StampEventTenant_def Obs_TenantIDFromContext_def PrincipalFromContext_def
        seq_of_def sample_event_def Background_def Let_def)
  have ten: "Obs_TenantIDFromContext ?ctx = ''a''"
    by (simp add: Obs_TenantIDFromContext_def PrincipalFromContext_def WithPrincipal_def trim_space_def
        trim_segments_def is_space_def in_range_def)
  have "CtxErr ?ctx = None" by (simp add: WithPrincipal_def Background_def)
  from tenant_delete_reuses_sequence [OF sample_log_reachable, of a ?ctx "sample_event [] EventRunStarted" 9]
    rs ten this
  show ?thesis by (auto simp: sample_event_def)
qed

end
