(* ===== verification/Outbox.thy ===== *)
theory Outbox
  imports Event_Store Run_State
begin

text \<open>
  The transactional event outbox and its relay: the table operations of
  \<^verbatim>\<open>internal/adapter/runstate/postgres/outbox.go\<close> and the sweep of \<^verbatim>\<open>framework_outbox.go\<close>, over the
  in-memory event store. The outbox table is the list of its rows; a statement either fails with the
  error of the database, an argument, or does what its SQL says. The JSON text of an event is decoded by
  an argument.
\<close>

section \<open>The table\<close>

record outbox_row =
  OutID :: int
  OutRunID :: string
  OutSequence :: int
  OutPayload :: bytes
  OutCreatedAt :: gtime
  OutPublishedAt :: "gtime option"

record outbox_event =
  OeID :: int
  OeSequence :: int
  OeEvent :: event
  OeCreatedAt :: gtime

type_synonym outbox_table = "outbox_row list"

definition unpublished :: "outbox_table \<Rightarrow> outbox_row list" where
  "unpublished tbl = filter (\<lambda>row. OutPublishedAt row = None) tbl"

text \<open>The scan of the result rows: it stops at the first payload that does not decode.\<close>

fun scan_rows :: "(bytes \<Rightarrow> go_error + event) \<Rightarrow> outbox_row list \<Rightarrow> outbox_event list \<Rightarrow> go_error + outbox_event list" where
  "scan_rows decode [] out = Inr out"
| "scan_rows decode (row # rows) out =
     (case decode (OutPayload row) of
        Inl e \<Rightarrow> Inl (Errorf ''postgres runstate: decode outbox event %d: %w'' [int_text (OutID row)] (Some e))
      | Inr ev \<Rightarrow>
          scan_rows decode rows
            (out @ [\<lparr>OeID = OutID row, OeSequence = OutSequence row, OeEvent = ev\<lparr>EvRunID := OutRunID row\<rparr>,
                     OeCreatedAt = OutCreatedAt row\<rparr>]))"

definition FetchUnpublishedOutbox ::
  "(bytes \<Rightarrow> go_error + event) \<Rightarrow> go_error option \<Rightarrow> gctx \<Rightarrow> outbox_table \<Rightarrow> int \<Rightarrow> go_error + outbox_event list" where
  "FetchUnpublishedOutbox decode db ctx tbl limit0 =
     (case CtxErr ctx of Some e \<Rightarrow> Inl e | None \<Rightarrow>
      (let limit = (if limit0 \<le> 0 then 200 else limit0) in
       case db of
         Some e \<Rightarrow> Inl (Errorf ''postgres runstate: fetch unpublished outbox: %w'' [] (Some e))
       | None \<Rightarrow> scan_rows decode (take (nat limit) (sort_key OutID (unpublished tbl))) []))"

definition MarkOutboxPublished ::
  "go_error option \<Rightarrow> gctx \<Rightarrow> gtime \<Rightarrow> outbox_table \<Rightarrow> int \<Rightarrow> outbox_table \<times> go_error option" where
  "MarkOutboxPublished db ctx now tbl ident =
     (case CtxErr ctx of Some e \<Rightarrow> (tbl, Some e) | None \<Rightarrow>
     (case db of
        Some e \<Rightarrow> (tbl, Some (Errorf ''postgres runstate: mark outbox %d published: %w'' [int_text ident] (Some e)))
      | None \<Rightarrow>
          (map (\<lambda>row. if OutID row = ident \<and> OutPublishedAt row = None
                      then row\<lparr>OutPublishedAt := Some now\<rparr> else row) tbl, None)))"

definition DeleteOutboxForRun ::
  "go_error option \<Rightarrow> gctx \<Rightarrow> outbox_table \<Rightarrow> string \<Rightarrow> outbox_table \<times> (go_error + int)" where
  "DeleteOutboxForRun db ctx tbl runID =
     (case CtxErr ctx of Some e \<Rightarrow> (tbl, Inl e) | None \<Rightarrow>
     (case db of
        Some e \<Rightarrow> (tbl, Inl (Errorf ''postgres runstate: delete outbox for run %q: %w'' [runID] (Some e)))
      | None \<Rightarrow> (filter (\<lambda>row. OutRunID row \<noteq> runID) tbl,
                 Inr (int (length (filter (\<lambda>row. OutRunID row = runID) tbl))))))"

text \<open>\<open>payload_tenant\<close> is the database's \<^verbatim>\<open>payload_json->>'tenant_id'\<close>, \<open>None\<close> when the key is missing.\<close>

definition PurgeOutboxPublishedBefore ::
  "(bytes \<Rightarrow> string option) \<Rightarrow> go_error option \<Rightarrow> gctx \<Rightarrow> outbox_table \<Rightarrow> gtime \<Rightarrow> outbox_table \<times> (go_error + int)" where
  "PurgeOutboxPublishedBefore payload_tenant db ctx tbl cutoff =
     (case CtxErr ctx of Some e \<Rightarrow> (tbl, Inl e) | None \<Rightarrow>
     (case ScopeListFilter ctx EmptyListFilter of Inl e \<Rightarrow> (tbl, Inl e) | Inr scope \<Rightarrow>
     (case db of
        Some e \<Rightarrow> (tbl, Inl (Errorf ''postgres runstate: purge published outbox: %w'' [] (Some e)))
      | None \<Rightarrow>
          (let gone = (\<lambda>row. (case OutPublishedAt row of None \<Rightarrow> False | Some t \<Rightarrow> t < cutoff)
                \<and> (FilterTenantID scope = [] \<or> payload_tenant (OutPayload row) = Some (FilterTenantID scope)))
           in (filter (\<lambda>row. \<not> gone row) tbl, Inr (int (length (filter gone tbl))))))))"

section \<open>The relay\<close>

definition outboxRelayBatchSize :: int where
  "outboxRelayBatchSize = 200"

definition outboxRelayMaxBatchesPerSweep :: nat where
  "outboxRelayMaxBatchesPerSweep = 10"

text \<open>
  What a sweep meets: per batch and row, the context and the clock, and the errors of the database when
  a batch is fetched and when a row is marked.
\<close>

record relay_env =
  RelayCtx :: "nat \<Rightarrow> int \<Rightarrow> gctx"
  RelayNow :: "nat \<Rightarrow> int \<Rightarrow> gtime"
  RelayFetchCtx :: "nat \<Rightarrow> gctx"
  RelayFetchErr :: "nat \<Rightarrow> go_error option"
  RelayMarkErr :: "nat \<Rightarrow> int \<Rightarrow> go_error option"

fun relay_rows ::
  "relay_env \<Rightarrow> nat \<Rightarrow> outbox_event list \<Rightarrow> outbox_table \<Rightarrow> estore \<Rightarrow> outbox_table \<times> estore \<times> go_error option" where
  "relay_rows env batch [] tbl store = (tbl, store, None)"
| "relay_rows env batch (row # rows) tbl store =
     (let ctx = RelayCtx env batch (OeID row); now = RelayNow env batch (OeID row) in
      case CtxErr ctx of
        Some e \<Rightarrow> (tbl, store, Some e)
      | None \<Rightarrow>
          (case EStore_AppendSequenced ctx now store (OeSequence row) (OeEvent row) of
             (store1, Inl _) \<Rightarrow> relay_rows env batch rows tbl store1
           | (store1, Inr _) \<Rightarrow>
               relay_rows env batch rows
                 (fst (MarkOutboxPublished (RelayMarkErr env batch (OeID row)) ctx now tbl (OeID row))) store1))"

text \<open>\<open>n\<close> counts the batches left, \<open>batch\<close> the batches done.\<close>

fun relay_batches ::
  "(bytes \<Rightarrow> go_error + event) \<Rightarrow> relay_env \<Rightarrow> nat \<Rightarrow> nat \<Rightarrow> outbox_table \<Rightarrow> estore
     \<Rightarrow> outbox_table \<times> estore \<times> go_error option" where
  "relay_batches decode env 0 batch tbl store = (tbl, store, None)"
| "relay_batches decode env (Suc n) batch tbl store =
     (case FetchUnpublishedOutbox decode (RelayFetchErr env batch) (RelayFetchCtx env batch) tbl outboxRelayBatchSize of
        Inl e \<Rightarrow> (tbl, store, Some e)
      | Inr rows \<Rightarrow>
          if rows = [] then (tbl, store, None)
          else (case relay_rows env batch rows tbl store of
                  (tbl1, store1, Some e) \<Rightarrow> (tbl1, store1, Some e)
                | (tbl1, store1, None) \<Rightarrow>
                    if int (length rows) < outboxRelayBatchSize then (tbl1, store1, None)
                    else relay_batches decode env n (Suc batch) tbl1 store1))"

definition relayOutboxOnce ::
  "(bytes \<Rightarrow> go_error + event) \<Rightarrow> relay_env \<Rightarrow> outbox_table \<Rightarrow> estore \<Rightarrow> outbox_table \<times> estore \<times> go_error option" where
  "relayOutboxOnce decode env tbl store =
     relay_batches decode env outboxRelayMaxBatchesPerSweep 0 tbl store"

section \<open>Delivered rows\<close>

text \<open>The event log holds a record for the run and sequence number of a row.\<close>

definition delivered :: "estore \<Rightarrow> string \<Rightarrow> int \<Rightarrow> bool" where
  "delivered store runID n \<longleftrightarrow> (\<exists>r \<in> set (Records store). EvRunID (RecEvent r) = runID \<and> RecSequence r = n)"

definition published_delivered :: "outbox_table \<Rightarrow> estore \<Rightarrow> bool" where
  "published_delivered tbl store \<longleftrightarrow>
     (\<forall>row \<in> set tbl. OutPublishedAt row \<noteq> None \<longrightarrow> delivered store (OutRunID row) (OutSequence row))"

lemma AppendSequenced_delivers:
  assumes "EStore_AppendSequenced ctx now store n e = (store', res)"
  shows "delivered store runID m \<Longrightarrow> delivered store' runID m"
    and "res = Inr r \<Longrightarrow> delivered store' (EvRunID e) n"
  using assms
  by (auto simp: EStore_AppendSequenced_def delivered_def Let_def dest: find_sequence_Some
      split: option.splits if_splits)

lemma published_delivered_mono:
  "published_delivered tbl store \<Longrightarrow> (\<And>runID m. delivered store runID m \<Longrightarrow> delivered store' runID m) \<Longrightarrow>
     published_delivered tbl store'"
  by (auto simp: published_delivered_def)

text \<open>The rows of a batch are rows of the table, read by id.\<close>

definition row_in :: "outbox_table \<Rightarrow> outbox_event \<Rightarrow> bool" where
  "row_in tbl oe \<longleftrightarrow> (\<forall>row \<in> set tbl. OutID row = OeID oe \<longrightarrow>
     OutRunID row = EvRunID (OeEvent oe) \<and> OutSequence row = OeSequence oe)"

lemma MarkOutboxPublished_rows:
  "MarkOutboxPublished db ctx now tbl ident = (tbl', err) \<Longrightarrow>
     \<exists>f. tbl' = map f tbl \<and> (\<forall>row. OutID (f row) = OutID row \<and> OutRunID (f row) = OutRunID row
       \<and> OutSequence (f row) = OutSequence row \<and> OutPayload (f row) = OutPayload row
       \<and> (OutPublishedAt (f row) = OutPublishedAt row \<or> OutID row = ident))"
  by (auto simp: MarkOutboxPublished_def split: option.splits intro: exI [of _ "\<lambda>row. row"])

lemma MarkOutboxPublished_row_in:
  "row_in tbl oe \<Longrightarrow> row_in (fst (MarkOutboxPublished db ctx now tbl ident)) oe"
  by (auto simp: row_in_def MarkOutboxPublished_def split: option.splits)

lemma MarkOutboxPublished_delivered:
  assumes "published_delivered tbl store" and "row_in tbl oe"
    and "delivered store (EvRunID (OeEvent oe)) (OeSequence oe)"
  shows "published_delivered (fst (MarkOutboxPublished db ctx now tbl (OeID oe))) store"
  using assms
  by (auto simp: published_delivered_def row_in_def MarkOutboxPublished_def split: option.splits)

lemma relay_rows_delivered:
  assumes "published_delivered tbl store" and "\<forall>oe \<in> set rows. row_in tbl oe"
    and "relay_rows env batch rows tbl store = (tbl', store', err)"
  shows "published_delivered tbl' store'"
  using assms
proof (induction rows arbitrary: tbl store)
  case (Cons row rows)
  let ?ctx = "RelayCtx env batch (OeID row)" and ?now = "RelayNow env batch (OeID row)"
  obtain store1 res where ap: "EStore_AppendSequenced ?ctx ?now store (OeSequence row) (OeEvent row) = (store1, res)"
    by fastforce
  have mono: "published_delivered tbl store1"
    by (rule published_delivered_mono [OF Cons.prems(1) AppendSequenced_delivers(1) [OF ap]])
  show ?case
  proof (cases "CtxErr ?ctx")
    case None
    show ?thesis
    proof (cases res)
      case (Inl e)
      with Cons.IH [OF mono] Cons.prems(2,3) None ap show ?thesis by simp
    next
      case (Inr r)
      let ?tbl1 = "fst (MarkOutboxPublished (RelayMarkErr env batch (OeID row)) ?ctx ?now tbl (OeID row))"
      have "published_delivered ?tbl1 store1"
        by (rule MarkOutboxPublished_delivered [OF mono])
          (use Cons.prems(2) AppendSequenced_delivers(2) [OF ap Inr] in auto)
      from Cons.IH [OF this] Cons.prems(2,3) None ap Inr show ?thesis
        by (simp add: MarkOutboxPublished_row_in)
    qed
  qed (use Cons.prems in simp)
qed simp

section \<open>Batches\<close>

definition event_of_row :: "(bytes \<Rightarrow> go_error + event) \<Rightarrow> outbox_row \<Rightarrow> outbox_event" where
  "event_of_row decode row = \<lparr>OeID = OutID row, OeSequence = OutSequence row,
     OeEvent = (projr (decode (OutPayload row)))\<lparr>EvRunID := OutRunID row\<rparr>, OeCreatedAt = OutCreatedAt row\<rparr>"

lemma scan_rows_Inr:
  "scan_rows decode rows out = Inr oes \<Longrightarrow> oes = out @ map (event_of_row decode) rows"
proof (induction rows arbitrary: out)
  case (Cons row rows)
  then obtain ev where "decode (OutPayload row) = Inr ev" by (auto split: sum.splits)
  with Cons.prems Cons.IH [of "out @ [event_of_row decode row]"] show ?case by (simp add: event_of_row_def)
qed simp

lemma scan_rows_ok:
  "\<forall>row \<in> set rows. \<not> isl (decode (OutPayload row)) \<Longrightarrow>
     scan_rows decode rows out = Inr (out @ map (event_of_row decode) rows)"
  by (induction rows arbitrary: out) (auto simp: event_of_row_def split: sum.splits)

definition next_batch :: "outbox_table \<Rightarrow> outbox_row list" where
  "next_batch tbl = take 200 (sort_key OutID (unpublished tbl))"

lemma Fetch_Inr:
  "FetchUnpublishedOutbox decode db ctx tbl outboxRelayBatchSize = Inr oes \<Longrightarrow>
     oes = map (event_of_row decode) (next_batch tbl)"
  by (auto simp: FetchUnpublishedOutbox_def outboxRelayBatchSize_def next_batch_def Let_def
      dest!: scan_rows_Inr split: option.splits)

lemma next_batch_subset: "set (next_batch tbl) \<subseteq> set (unpublished tbl)"
  unfolding next_batch_def using set_take_subset by fastforce

lemma next_batch_row_in:
  assumes "distinct (map OutID tbl)" and "oe \<in> set (map (event_of_row decode) (next_batch tbl))"
  shows "row_in tbl oe"
proof -
  from assms(2) obtain row where r: "row \<in> set (next_batch tbl)" "oe = event_of_row decode row" by auto
  with next_batch_subset have "row \<in> set tbl" by (fastforce simp: unpublished_def)
  with assms(1) r(2) show ?thesis
    by (auto simp: row_in_def event_of_row_def distinct_map dest: inj_onD)
qed

lemma MarkOutboxPublished_ids:
  "map OutID (fst (MarkOutboxPublished db ctx now tbl ident)) = map OutID tbl"
  by (auto simp: MarkOutboxPublished_def split: option.splits)

lemma relay_rows_ids: "relay_rows env batch rows tbl store = (tbl', store', err) \<Longrightarrow> map OutID tbl' = map OutID tbl"
proof (induction rows arbitrary: tbl store)
  case (Cons row rows)
  then show ?case
    by (auto simp: MarkOutboxPublished_ids Let_def split: option.splits prod.splits sum.splits)
qed simp

lemma relay_batches_delivered:
  assumes "published_delivered tbl store" and "distinct (map OutID tbl)"
    and "relay_batches decode env n batch tbl store = (tbl', store', err)"
  shows "published_delivered tbl' store'"
  using assms
proof (induction n arbitrary: batch tbl store)
  case (Suc n)
  let ?f = "FetchUnpublishedOutbox decode (RelayFetchErr env batch) (RelayFetchCtx env batch) tbl outboxRelayBatchSize"
  show ?case
  proof (cases ?f)
    case (Inl e)
    with Suc.prems show ?thesis by simp
  next
    case (Inr rows)
    then have rows: "rows = map (event_of_row decode) (next_batch tbl)" by (rule Fetch_Inr)
    obtain tbl1 store1 e1 where rr: "relay_rows env batch rows tbl store = (tbl1, store1, e1)"
      by (cases "relay_rows env batch rows tbl store")
    have "published_delivered tbl1 store1"
      by (rule relay_rows_delivered [OF Suc.prems(1) _ rr])
        (use next_batch_row_in [OF Suc.prems(2)] rows in blast)
    moreover have "distinct (map OutID tbl1)" using relay_rows_ids [OF rr] Suc.prems(2) by simp
    ultimately show ?thesis
      using Suc.IH [of tbl1 store1] Suc.prems Inr rr by (auto split: if_splits option.splits)
  qed
qed simp

section \<open>A sweep without failures\<close>

text \<open>Nothing fails: live contexts, no database errors, decodable rows with a run and a positive sequence number.\<close>

definition calm :: "(bytes \<Rightarrow> go_error + event) \<Rightarrow> relay_env \<Rightarrow> outbox_table \<Rightarrow> bool" where
  "calm decode env tbl \<longleftrightarrow>
     (\<forall>batch i. CtxErr (RelayCtx env batch i) = None \<and> RelayMarkErr env batch i = None
        \<and> CtxErr (RelayFetchCtx env batch) = None \<and> RelayFetchErr env batch = None)
     \<and> (\<forall>row \<in> set tbl. \<not> isl (decode (OutPayload row)) \<and> OutRunID row \<noteq> [] \<and> 0 < OutSequence row)"

lemma unpublished_mark:
  assumes "CtxErr ctx = None"
  shows "unpublished (fst (MarkOutboxPublished None ctx now tbl ident)) = filter (\<lambda>row. OutID row \<noteq> ident) (unpublished tbl)"
  using assms by (induction tbl) (auto simp: MarkOutboxPublished_def unpublished_def)

lemma AppendSequenced_calm:
  "CtxErr ctx = None \<Longrightarrow> EvRunID e \<noteq> [] \<Longrightarrow> 0 < n \<Longrightarrow> \<exists>store' r. EStore_AppendSequenced ctx now store n e = (store', Inr r)"
  by (auto simp: EStore_AppendSequenced_def Let_def split: option.splits)

lemma relay_rows_calm:
  assumes "\<forall>batch i. CtxErr (RelayCtx env batch i) = None \<and> RelayMarkErr env batch i = None"
    and "\<forall>oe \<in> set rows. EvRunID (OeEvent oe) \<noteq> [] \<and> 0 < OeSequence oe"
  shows "\<exists>tbl' store'. relay_rows env batch rows tbl store = (tbl', store', None)
     \<and> unpublished tbl' = filter (\<lambda>row. OutID row \<notin> OeID ` set rows) (unpublished tbl)"
  using assms(2)
proof (induction rows arbitrary: tbl store)
  case (Cons row rows)
  let ?ctx = "RelayCtx env batch (OeID row)" and ?now = "RelayNow env batch (OeID row)"
  have live: "CtxErr ?ctx = None" "RelayMarkErr env batch (OeID row) = None" using assms(1) by blast+
  obtain store1 r where "EStore_AppendSequenced ?ctx ?now store (OeSequence row) (OeEvent row) = (store1, Inr r)"
    using AppendSequenced_calm [OF live(1), of "OeEvent row" "OeSequence row"] Cons.prems by fastforce
  with live Cons.IH [of "fst (MarkOutboxPublished None ?ctx ?now tbl (OeID row))" store1] Cons.prems
  show ?case by (fastforce simp: unpublished_mark conj_commute)
qed simp

lemma relay_rows_frame:
  "relay_rows env batch rows tbl store = (tbl', store', err) \<Longrightarrow> row' \<in> set tbl' \<Longrightarrow>
     \<exists>row \<in> set tbl. OutPayload row' = OutPayload row \<and> OutRunID row' = OutRunID row \<and> OutSequence row' = OutSequence row"
proof (induction rows arbitrary: tbl store)
  case (Cons row rows)
  let ?ctx = "RelayCtx env batch (OeID row)" and ?now = "RelayNow env batch (OeID row)"
  have step: "\<exists>x \<in> set tbl. OutPayload y = OutPayload x \<and> OutRunID y = OutRunID x \<and> OutSequence y = OutSequence x"
    if "y \<in> set (fst (MarkOutboxPublished (RelayMarkErr env batch (OeID row)) ?ctx ?now tbl (OeID row)))" for y
    using that by (auto simp: MarkOutboxPublished_def split: option.splits if_splits)
  show ?case
    using Cons.prems Cons.IH
    by (auto simp: Let_def split: option.splits prod.splits sum.splits) (metis step)
qed auto

lemma calm_relay_rows:
  assumes "calm decode env tbl" and "relay_rows env batch rows tbl store = (tbl', store', err)"
  shows "calm decode env tbl'"
  using assms relay_rows_frame [OF assms(2)] unfolding calm_def by metis

lemma filter_out_prefix:
  assumes "distinct (map f ys)"
  shows "filter (\<lambda>x. f x \<notin> f ` set (take k ys)) ys = drop k ys"
proof -
  have "distinct (map f (take k ys) @ map f (drop k ys))"
    using assms by (metis append_take_drop_id map_append)
  then have "f x \<notin> f ` set (take k ys)" if "x \<in> set (drop k ys)" for x
    using that by (auto simp: image_iff)
  then have "filter (\<lambda>x. f x \<notin> f ` set (take k ys)) (drop k ys) = drop k ys"
    by (simp add: filter_id_conv)
  moreover have "filter (\<lambda>x. f x \<notin> f ` set (take k ys)) (take k ys) = []"
    by (simp add: filter_empty_conv)
  ultimately show ?thesis by (metis append_Nil append_take_drop_id filter_append)
qed

lemma length_after_batch:
  assumes "distinct (map OutID (unpublished tbl))"
  shows "length (filter (\<lambda>row. OutID row \<notin> OutID ` set (next_batch tbl)) (unpublished tbl))
    = length (unpublished tbl) - 200"
proof -
  let ?u = "unpublished tbl" and ?P = "\<lambda>row. OutID row \<notin> OutID ` set (next_batch tbl)"
  have "distinct (map OutID (sort_key OutID ?u))"
    using assms by (metis distinct_map distinct_sort set_sort)
  then have "filter ?P (sort_key OutID ?u) = drop 200 (sort_key OutID ?u)"
    unfolding next_batch_def by (rule filter_out_prefix)
  moreover have "length (filter ?P ?u) = length (filter ?P (sort_key OutID ?u))"
    by (metis mset_filter mset_sort size_mset)
  ultimately show ?thesis by simp
qed

lemma relay_batches_drain:
  assumes "calm decode env tbl" and "distinct (map OutID tbl)" and "length (unpublished tbl) \<le> 200 * n"
  shows "\<exists>tbl' store'. relay_batches decode env n batch tbl store = (tbl', store', None) \<and> unpublished tbl' = []"
  using assms
proof (induction n arbitrary: batch tbl store)
  case (Suc n)
  let ?rows = "map (event_of_row decode) (next_batch tbl)"
  have sub: "set (next_batch tbl) \<subseteq> set tbl"
    using next_batch_subset by (fastforce simp: unpublished_def)
  have fetch: "FetchUnpublishedOutbox decode (RelayFetchErr env batch) (RelayFetchCtx env batch) tbl outboxRelayBatchSize = Inr ?rows"
  proof -
    have "\<forall>row \<in> set (next_batch tbl). \<not> isl (decode (OutPayload row))"
      using Suc.prems(1) sub unfolding calm_def by blast
    moreover have "CtxErr (RelayFetchCtx env batch) = None" "RelayFetchErr env batch = None"
      using Suc.prems(1) unfolding calm_def by blast+
    ultimately show ?thesis
      using scan_rows_ok [of "next_batch tbl" decode "[]"]
      by (simp add: FetchUnpublishedOutbox_def outboxRelayBatchSize_def next_batch_def)
  qed
  have good: "\<forall>oe \<in> set ?rows. EvRunID (OeEvent oe) \<noteq> [] \<and> 0 < OeSequence oe"
    using Suc.prems(1) sub by (fastforce simp: calm_def event_of_row_def)
  have "\<forall>batch i. CtxErr (RelayCtx env batch i) = None \<and> RelayMarkErr env batch i = None"
    using Suc.prems(1) by (simp add: calm_def)
  from relay_rows_calm [OF this good, of batch tbl store] obtain tbl1 store1
    where rr: "relay_rows env batch ?rows tbl store = (tbl1, store1, None)"
      and un: "unpublished tbl1 = filter (\<lambda>row. OutID row \<notin> OutID ` set (next_batch tbl)) (unpublished tbl)"
    by (auto simp: event_of_row_def image_image)
  have du: "distinct (map OutID (unpublished tbl))"
    using Suc.prems(2) by (simp add: unpublished_def distinct_map_filter)
  have len: "length (unpublished tbl1) = length (unpublished tbl) - 200"
    unfolding un by (rule length_after_batch [OF du])
  have lb: "length (next_batch tbl) = min 200 (length (unpublished tbl))" by (simp add: next_batch_def)
  show ?case
  proof (cases "length (unpublished tbl) < 200")
    case True
    with len have "unpublished tbl1 = []" by simp
    moreover from True lb have "int (length ?rows) < outboxRelayBatchSize" by (simp add: outboxRelayBatchSize_def)
    moreover have "unpublished tbl = []" if "?rows = []" using that lb by (simp add: min_def split: if_splits)
    ultimately show ?thesis using fetch rr by (auto split: if_splits)
  next
    case False
    with lb have "length ?rows = 200" by simp
    then have "?rows \<noteq> []" and "\<not> int (length ?rows) < outboxRelayBatchSize"
      by (auto simp: outboxRelayBatchSize_def)
    moreover have "\<exists>tbl' store'. relay_batches decode env n (Suc batch) tbl1 store1 = (tbl', store', None) \<and> unpublished tbl' = []"
    proof (rule Suc.IH)
      show "length (unpublished tbl1) \<le> 200 * n" using len Suc.prems(3) by simp
      show "distinct (map OutID tbl1)" using relay_rows_ids [OF rr] Suc.prems(2) by simp
      show "calm decode env tbl1" using calm_relay_rows [OF Suc.prems(1) rr] .
    qed
    ultimately show ?thesis using fetch rr by simp
  qed
qed simp

section \<open>Properties\<close>

text \<open>
  The relay never loses a parked event. Whatever fails during a sweep, contexts, database statements
  or deliveries, a row is marked published only when the event log holds a record of its run and sequence
  number; in every outcome all published rows are delivered.
\<close>

theorem relay_marks_only_delivered:
  assumes "published_delivered tbl store" and "distinct (map OutID tbl)"
    and "relayOutboxOnce decode env tbl store = (tbl', store', err)"
  shows "published_delivered tbl' store'"
  using assms unfolding relayOutboxOnce_def by (rule relay_batches_delivered)

text \<open>
  The relay drains the backlog. When nothing fails, one sweep over an outbox of at most two thousand
  unpublished rows ends without error and leaves no row unpublished.
\<close>

theorem relay_drains_backlog:
  assumes "calm decode env tbl" and "distinct (map OutID tbl)" and "length (unpublished tbl) \<le> 2000"
  shows "\<exists>tbl' store'. relayOutboxOnce decode env tbl store = (tbl', store', None) \<and> unpublished tbl' = []"
  using relay_batches_drain [OF assms(1,2), of 10] assms(3)
  by (simp add: relayOutboxOnce_def outboxRelayMaxBatchesPerSweep_def)

definition sample_env_relay :: relay_env where
  "sample_env_relay = \<lparr>RelayCtx = \<lambda>_ _. Background, RelayNow = \<lambda>_ _. 9, RelayFetchCtx = \<lambda>_. Background,
     RelayFetchErr = \<lambda>_. None, RelayMarkErr = \<lambda>_ _. None\<rparr>"

definition sample_outbox :: outbox_table where
  "sample_outbox = [\<lparr>OutID = 1, OutRunID = ''r'', OutSequence = 4, OutPayload = [], OutCreatedAt = 1, OutPublishedAt = None\<rparr>]"

theorem relay_drains_backlog_witness:
  "\<exists>tbl' store'. relayOutboxOnce (\<lambda>_. Inr (sample_event [] EventRunStarted)) sample_env_relay sample_outbox NewEventStore
     = (tbl', store', None) \<and> unpublished tbl' = []"
  by (rule relay_drains_backlog) (simp_all add: calm_def sample_env_relay_def sample_outbox_def Background_def unpublished_def)

theorem relay_marks_only_delivered_witness:
  "\<exists>tbl' store' err. relayOutboxOnce (\<lambda>_. Inr (sample_event [] EventRunStarted)) sample_env_relay sample_outbox NewEventStore
     = (tbl', store', err) \<and> published_delivered tbl' store'"
proof -
  obtain tbl' store' err where r: "relayOutboxOnce (\<lambda>_. Inr (sample_event [] EventRunStarted)) sample_env_relay sample_outbox NewEventStore
      = (tbl', store', err)"
    by (cases "relayOutboxOnce (\<lambda>_. Inr (sample_event [] EventRunStarted)) sample_env_relay sample_outbox NewEventStore")
  have "published_delivered tbl' store'"
    by (rule relay_marks_only_delivered [OF _ _ r]) (simp_all add: published_delivered_def sample_outbox_def)
  with r show ?thesis by blast
qed

end
