(* ===== verification/Retention.thy ===== *)
theory Retention
  imports Checkpoint_History Blob_Store Outbox
begin

text \<open>
  Retention: the purges of \<^verbatim>\<open>retention.go\<close> over the in-memory run repository, the checkpoint history, the
  event store and the outbox of one framework instance. A store that is not configured is \<open>None\<close>. The
  repository may be wrapped by the recorder, whose \<^verbatim>\<open>Delete\<close> and \<^verbatim>\<open>List\<close> are those of the inner repository.
  \<open>walk\<close> gives the order the run map is walked in for each listing; \<open>db\<close> is the database error of an outbox
  statement.
\<close>

section \<open>State\<close>

record fw =
  FwRuns :: "repo option"
  FwHistory :: "history option"
  FwEvents :: "estore option"
  FwOutbox :: "outbox_table option"
  FwScenario :: string

record retention_policy =
  PolMaxAge :: duration
  PolStatus :: run_status
  PolScenarioName :: string
  PolLimit :: int

definition isTerminalRunStatus :: "run_status \<Rightarrow> bool" where
  "isTerminalRunStatus status =
     (status = RunStatusCompleted \<or> status = RunStatusFailed \<or> status = RunStatusCancelled)"

section \<open>Deleting one run\<close>

text \<open>\<^verbatim>\<open>observability.DeleteEventsForRun\<close> and \<^verbatim>\<open>PurgeEventsBefore\<close>: nothing to do without a store.\<close>

definition Obs_DeleteEventsForRun :: "gctx \<Rightarrow> estore option \<Rightarrow> string \<Rightarrow> estore option \<times> (go_error + int)" where
  "Obs_DeleteEventsForRun ctx store runID =
     (case store of None \<Rightarrow> (None, Inr 0)
      | Some s \<Rightarrow> (case EStore_DeleteEventsForRun ctx s runID of (s', res) \<Rightarrow> (Some s', res)))"

definition Obs_PurgeEventsBefore :: "gctx \<Rightarrow> estore option \<Rightarrow> gtime \<Rightarrow> estore option \<times> (go_error + int)" where
  "Obs_PurgeEventsBefore ctx store cutoff =
     (case store of None \<Rightarrow> (None, Inr 0)
      | Some s \<Rightarrow> (case EStore_PurgeEventsBefore ctx s cutoff of (s', res) \<Rightarrow> (Some s', res)))"

definition delete_outbox :: "go_error option \<Rightarrow> gctx \<Rightarrow> fw \<Rightarrow> string \<Rightarrow> fw \<times> go_error option" where
  "delete_outbox db ctx f runID =
     (case FwOutbox f of
        None \<Rightarrow> (f, None)
      | Some tbl \<Rightarrow>
          (case DeleteOutboxForRun db ctx tbl runID of
             (tbl', Inl e) \<Rightarrow> (f\<lparr>FwOutbox := Some tbl'\<rparr>, Some e)
           | (tbl', Inr _) \<Rightarrow> (f\<lparr>FwOutbox := Some tbl'\<rparr>, None)))"

definition deleteRunAndHistory :: "go_error option \<Rightarrow> gctx \<Rightarrow> fw \<Rightarrow> string \<Rightarrow> fw \<times> go_error option" where
  "deleteRunAndHistory db ctx f runID =
     (case FwRuns f of
        None \<Rightarrow> (f, None)
      | Some r \<Rightarrow>
          (case Repository_Delete ctx r runID of
             (r', Some e) \<Rightarrow> (f\<lparr>FwRuns := Some r'\<rparr>, Some e)
           | (r', None) \<Rightarrow>
               (let f1 = f\<lparr>FwRuns := Some r'\<rparr>;
                    (f2, err) = (case FwHistory f1 of
                                   None \<Rightarrow> (f1, None)
                                 | Some h \<Rightarrow> (case History_Delete ctx h runID of
                                                (h', e) \<Rightarrow> (f1\<lparr>FwHistory := Some h'\<rparr>, e)))
                in case err of
                     Some e \<Rightarrow> (f2, Some e)
                   | None \<Rightarrow>
                       (case Obs_DeleteEventsForRun ctx (FwEvents f2) runID of
                          (ev, Inl e) \<Rightarrow> (f2\<lparr>FwEvents := ev\<rparr>, Some e)
                        | (ev, Inr _) \<Rightarrow> delete_outbox db ctx (f2\<lparr>FwEvents := ev\<rparr>) runID))))"

definition purgeEventSideData ::
  "(bytes \<Rightarrow> string option) \<Rightarrow> go_error option \<Rightarrow> gctx \<Rightarrow> fw \<Rightarrow> gtime \<Rightarrow> fw \<times> go_error option" where
  "purgeEventSideData payload_tenant db ctx f cutoff =
     (case Obs_PurgeEventsBefore ctx (FwEvents f) cutoff of
        (ev, Inl e) \<Rightarrow> (f\<lparr>FwEvents := ev\<rparr>, Some e)
      | (ev, Inr _) \<Rightarrow>
          (let f1 = f\<lparr>FwEvents := ev\<rparr> in
           case FwOutbox f1 of
             None \<Rightarrow> (f1, None)
           | Some tbl \<Rightarrow>
               (case PurgeOutboxPublishedBefore payload_tenant db ctx tbl cutoff of
                  (tbl', Inl e) \<Rightarrow> (f1\<lparr>FwOutbox := Some tbl'\<rparr>, Some e)
                | (tbl', Inr _) \<Rightarrow> (f1\<lparr>FwOutbox := Some tbl'\<rparr>, None))))"

section \<open>Purging runs\<close>

text \<open>
  The deletion loop over a listing; \<open>skip\<close> says which runs are left. The stores are free between the listing and each
  deletion: \<open>others runID\<close> is what others do to them before the deletion of a run.
\<close>

fun delete_runs ::
  "go_error option \<Rightarrow> gctx \<Rightarrow> (string \<Rightarrow> fw \<Rightarrow> fw) \<Rightarrow> (run_snapshot \<Rightarrow> bool) \<Rightarrow> fw \<Rightarrow> run_snapshot list \<Rightarrow> int \<Rightarrow> fw \<times> int \<times> go_error option" where
  "delete_runs db ctx others skip f [] removed = (f, removed, None)"
| "delete_runs db ctx others skip f (s # ss) removed =
     (if skip s then delete_runs db ctx others skip f ss removed
      else (case deleteRunAndHistory db ctx (others (RunID s) f) (RunID s) of
              (f', Some e) \<Rightarrow> (f', removed, Some e)
            | (f', None) \<Rightarrow> delete_runs db ctx others skip f' ss (removed + 1)))"

definition PurgeRuns ::
  "string list \<Rightarrow> go_error option \<Rightarrow> gctx \<Rightarrow> (string \<Rightarrow> fw \<Rightarrow> fw) \<Rightarrow> bool \<Rightarrow> fw \<Rightarrow> list_filter \<Rightarrow> fw \<times> int \<times> go_error option" where
  "PurgeRuns walk db ctx others force f flt0 =
     (case FwRuns f of
        None \<Rightarrow> (f, 0, None)
      | Some r \<Rightarrow>
          (case ScopeListFilter ctx flt0 of
             Inl e \<Rightarrow> (f, 0, Some e)
           | Inr flt \<Rightarrow>
               (case Repository_List walk ctx r flt of
                  Inl e \<Rightarrow> (f, 0, Some e)
                | Inr snapshots \<Rightarrow>
                    delete_runs db ctx others (\<lambda>s. \<not> force \<and> \<not> isTerminalRunStatus (Status s)) f snapshots 0)))"

text \<open>The loop of \<^verbatim>\<open>PurgeExpired\<close> over the terminal statuses; others also act before each listing.\<close>

type_synonym fw_others = "run_status \<Rightarrow> string option \<Rightarrow> fw \<Rightarrow> fw"

fun expire_loop ::
  "(run_status \<Rightarrow> string list) \<Rightarrow> go_error option \<Rightarrow> gctx \<Rightarrow> fw_others \<Rightarrow> gtime \<Rightarrow> fw \<Rightarrow> run_status list \<Rightarrow> int
     \<Rightarrow> fw \<times> int \<times> go_error option" where
  "expire_loop walk db ctx others cutoff f [] removed = (f, removed, None)"
| "expire_loop walk db ctx others cutoff f (status # rest) removed =
     (case ScopeListFilter ctx (EmptyListFilter\<lparr>FilterScenarioName := FwScenario f, FilterStatus := status,
              FilterUpdatedBefore := cutoff\<rparr>) of
        Inl e \<Rightarrow> (f, removed, Some e)
      | Inr flt \<Rightarrow>
          (let g = others status None f in
           case Repository_List (walk status) ctx (the (FwRuns g)) flt of
             Inl e \<Rightarrow> (g, removed, Some e)
           | Inr snapshots \<Rightarrow>
               (case delete_runs db ctx (\<lambda>i. others status (Some i)) (\<lambda>_. False) g snapshots removed of
                  (f', removed', Some e) \<Rightarrow> (f', removed', Some e)
                | (f', removed', None) \<Rightarrow> expire_loop walk db ctx others cutoff f' rest removed')))"

definition terminal_statuses :: "run_status list" where
  "terminal_statuses = [RunStatusCompleted, RunStatusFailed, RunStatusCancelled]"

definition PurgeExpired ::
  "(run_status \<Rightarrow> string list) \<Rightarrow> (bytes \<Rightarrow> string option) \<Rightarrow> go_error option \<Rightarrow> gctx \<Rightarrow> fw_others \<Rightarrow> gtime \<Rightarrow> fw \<Rightarrow> duration
     \<Rightarrow> fw \<times> int \<times> go_error option" where
  "PurgeExpired walk payload_tenant db ctx others now f maxAge =
     (if maxAge \<le> 0 then (f, 0, None)
      else if FwRuns f = None then (f, 0, None)
      else
        (let cutoff = now - maxAge in
         case expire_loop walk db ctx others cutoff f terminal_statuses 0 of
           (f', removed, Some e) \<Rightarrow> (f', removed, Some e)
         | (f', removed, None) \<Rightarrow>
             (case purgeEventSideData payload_tenant db ctx f' cutoff of (f'', err) \<Rightarrow> (f'', removed, err))))"

section \<open>Policies\<close>

text \<open>The deletions of one listing under a limit on the total.\<close>

fun delete_runs_limit ::
  "go_error option \<Rightarrow> gctx \<Rightarrow> (string \<Rightarrow> fw \<Rightarrow> fw) \<Rightarrow> int \<Rightarrow> fw \<Rightarrow> run_snapshot list \<Rightarrow> int \<Rightarrow> fw \<times> int \<times> go_error option" where
  "delete_runs_limit db ctx others limit f [] removed = (f, removed, None)"
| "delete_runs_limit db ctx others limit f (s # ss) removed =
     (case deleteRunAndHistory db ctx (others (RunID s) f) (RunID s) of
        (f', Some e) \<Rightarrow> (f', removed, Some e)
      | (f', None) \<Rightarrow>
          if 0 < limit \<and> limit \<le> removed + 1 then (f', removed + 1, None)
          else delete_runs_limit db ctx others limit f' ss (removed + 1))"

fun policy_loop ::
  "(run_status \<Rightarrow> string list) \<Rightarrow> go_error option \<Rightarrow> gctx \<Rightarrow> fw_others \<Rightarrow> gtime \<Rightarrow> retention_policy \<Rightarrow> fw \<Rightarrow> run_status list
     \<Rightarrow> int \<Rightarrow> fw \<times> int \<times> go_error option" where
  "policy_loop walk db ctx others cutoff policy f [] removed = (f, removed, None)"
| "policy_loop walk db ctx others cutoff policy f (status # rest) removed =
     (if status = RunStatusOther [] \<or> \<not> isTerminalRunStatus status
      then policy_loop walk db ctx others cutoff policy f rest removed
      else
        (let flt0 = EmptyListFilter\<lparr>FilterStatus := status,
                FilterScenarioName := (if PolScenarioName policy = [] then FwScenario f else PolScenarioName policy),
                FilterUpdatedBefore := cutoff, FilterLimit := PolLimit policy\<rparr> in
         case ScopeListFilter ctx flt0 of
           Inl e \<Rightarrow> (f, removed, Some e)
         | Inr flt1 \<Rightarrow>
             if 0 < PolLimit policy \<and> PolLimit policy - removed \<le> 0 then (f, removed, None)
             else
               (let flt = (if 0 < PolLimit policy then flt1\<lparr>FilterLimit := PolLimit policy - removed\<rparr> else flt1);
                    g = others status None f in
                case Repository_List (walk status) ctx (the (FwRuns g)) flt of
                  Inl e \<Rightarrow> (g, removed, Some e)
                | Inr snapshots \<Rightarrow>
                    (case delete_runs_limit db ctx (\<lambda>i. others status (Some i)) (PolLimit policy) g snapshots removed of
                       (f', removed', Some e) \<Rightarrow> (f', removed', Some e)
                     | (f', removed', None) \<Rightarrow>
                         if 0 < PolLimit policy \<and> PolLimit policy \<le> removed' then (f', removed', None)
                         else policy_loop walk db ctx others cutoff policy f' rest removed'))))"

definition purgeExpiredWithLimit ::
  "(run_status \<Rightarrow> string list) \<Rightarrow> (bytes \<Rightarrow> string option) \<Rightarrow> go_error option \<Rightarrow> gctx \<Rightarrow> fw_others \<Rightarrow> gtime \<Rightarrow> fw
     \<Rightarrow> retention_policy \<Rightarrow> fw \<times> int \<times> go_error option" where
  "purgeExpiredWithLimit walk payload_tenant db ctx others now f policy =
     (if FwRuns f = None then (f, 0, None)
      else
        (let cutoff = now - PolMaxAge policy;
             statuses = (if PolStatus policy = RunStatusOther [] then terminal_statuses else [PolStatus policy])
         in case policy_loop walk db ctx others cutoff policy f statuses 0 of
              (f', removed, Some e) \<Rightarrow> (f', removed, Some e)
            | (f', removed, None) \<Rightarrow>
                (case purgeEventSideData payload_tenant db ctx f' cutoff of (f'', err) \<Rightarrow> (f'', removed, err))))"

definition PurgeWithPolicy ::
  "(run_status \<Rightarrow> string list) \<Rightarrow> (bytes \<Rightarrow> string option) \<Rightarrow> go_error option \<Rightarrow> gctx \<Rightarrow> fw_others \<Rightarrow> gtime \<Rightarrow> fw
     \<Rightarrow> retention_policy \<Rightarrow> fw \<times> int \<times> go_error option" where
  "PurgeWithPolicy walk payload_tenant db ctx others now f policy =
     (if 0 < PolMaxAge policy then purgeExpiredWithLimit walk payload_tenant db ctx others now f policy
      else
        (let flt = EmptyListFilter\<lparr>FilterStatus := PolStatus policy, FilterScenarioName := PolScenarioName policy,
               FilterLimit := PolLimit policy\<rparr>
         in PurgeRuns (walk (PolStatus policy)) db ctx (\<lambda>i. others (PolStatus policy) (Some i)) False f
              (if FilterScenarioName flt = [] then flt\<lparr>FilterScenarioName := FwScenario f\<rparr> else flt)))"

section \<open>Orphan blobs of a scenario\<close>

text \<open>
  The repository and the blob store as the four reads and the deletions of the purge see them are
  arguments, as in \<open>PurgeOrphanBlobs\<close>.
\<close>

definition Framework_PurgeOrphanBlobs ::
  "(bytes \<Rightarrow> go_error + step_output_ref) \<Rightarrow> string list \<Rightarrow> string list \<Rightarrow> gctx \<Rightarrow> string \<Rightarrow> repo \<Rightarrow> repo
     \<Rightarrow> blobs \<Rightarrow> blobs \<Rightarrow> blobs \<times> nat \<times> go_error option" where
  "Framework_PurgeOrphanBlobs unmarshal walk blob_walk ctx scenario r1 r2 b0 b1 =
     (case ScopeListFilter ctx (EmptyListFilter\<lparr>FilterScenarioName := scenario\<rparr>) of
        Inl e \<Rightarrow> (b1, 0, Some e)
      | Inr flt \<Rightarrow>
          PurgeOrphanBlobs unmarshal ctx (Blobs_List blob_walk ctx b0) (Repository_List walk ctx r1 flt)
            (Repository_List walk ctx r2 flt) b1 flt)"

section \<open>Lemmas\<close>

lemma Repository_List_member:
  assumes "Repository_List walk ctx r flt = Inr out" and "s \<in> set out"
  shows "filter_matches flt s \<and> (\<exists>runID \<in> set walk. Snapshots r runID = Some s)"
proof -
  from assms(1) have "out = list_loop (filter_matches flt) (FilterLimit flt) r walk []"
    by (auto simp: Repository_List_def split: option.splits)
  with list_loop_append [of "filter_matches flt" "FilterLimit flt" r walk "[]"] assms(2) show ?thesis by auto
qed

lemma Repository_List_complete:
  assumes "Repository_List walk ctx r flt = Inr out" and "FilterLimit flt \<le> 0"
    and "runID \<in> set walk" and "Snapshots r runID = Some s" and "filter_matches flt s"
  shows "s \<in> set out"
proof -
  from assms(1) have "out = list_loop (filter_matches flt) (FilterLimit flt) r walk []"
    by (auto simp: Repository_List_def split: option.splits)
  with list_loop_all [OF assms(2), of "filter_matches flt" r walk "[]"] assms(3-) show ?thesis by auto
qed

text \<open>Nothing is left of a run: no snapshot, no history, no events the caller may delete, no outbox rows.\<close>

definition run_gone :: "gctx \<Rightarrow> fw \<Rightarrow> string \<Rightarrow> bool" where
  "run_gone ctx f runID \<longleftrightarrow>
     (\<forall>r. FwRuns f = Some r \<longrightarrow> Snapshots r runID = None)
     \<and> (\<forall>h. FwHistory f = Some h \<longrightarrow> records_of h runID = [])
     \<and> (\<forall>ev. FwEvents f = Some ev \<longrightarrow> (\<forall>rc \<in> set (Records ev).
          EvRunID (RecEvent rc) = runID \<longrightarrow> \<not> of_tenant (Obs_TenantIDFromContext ctx) rc))
     \<and> (\<forall>tbl. FwOutbox f = Some tbl \<longrightarrow> (\<forall>row \<in> set tbl. OutRunID row \<noteq> runID))"

text \<open>A framework state that has no more than another, store by store.\<close>

definition opt_le :: "('a \<Rightarrow> 'a \<Rightarrow> bool) \<Rightarrow> 'a option \<Rightarrow> 'a option \<Rightarrow> bool" where
  "opt_le R a b \<longleftrightarrow> (\<forall>y. b = Some y \<longrightarrow> (\<exists>x. a = Some x \<and> R x y))"

lemma opt_le_trans: "transp R \<Longrightarrow> opt_le R a b \<Longrightarrow> opt_le R b c \<Longrightarrow> opt_le R a c"
  unfolding opt_le_def by (metis transpD)

definition repo_less :: "repo \<Rightarrow> repo \<Rightarrow> bool" where
  "repo_less r r' \<longleftrightarrow> Snapshots r' \<subseteq>\<^sub>m Snapshots r"

definition history_less :: "history \<Rightarrow> history \<Rightarrow> bool" where
  "history_less h h' \<longleftrightarrow> (\<forall>k. records_of h' k = [] \<or> records_of h' k = records_of h k)"

definition events_less :: "estore \<Rightarrow> estore \<Rightarrow> bool" where
  "events_less ev ev' \<longleftrightarrow> set (Records ev') \<subseteq> set (Records ev)"

definition outbox_less :: "outbox_table \<Rightarrow> outbox_table \<Rightarrow> bool" where
  "outbox_less tbl tbl' \<longleftrightarrow> set tbl' \<subseteq> set tbl"

lemmas less_defs = repo_less_def history_less_def events_less_def outbox_less_def

lemma less_trans [simp]: "transp repo_less" "transp history_less" "transp events_less" "transp outbox_less"
  by (auto simp: less_defs transp_def intro: map_le_trans) metis

definition fw_shrinks :: "fw \<Rightarrow> fw \<Rightarrow> bool" where
  "fw_shrinks f f' \<longleftrightarrow> opt_le repo_less (FwRuns f) (FwRuns f') \<and> opt_le history_less (FwHistory f) (FwHistory f')
     \<and> opt_le events_less (FwEvents f) (FwEvents f') \<and> opt_le outbox_less (FwOutbox f) (FwOutbox f')
     \<and> FwScenario f' = FwScenario f"

lemma fw_shrinks_refl [simp]: "fw_shrinks f f"
  by (auto simp: fw_shrinks_def opt_le_def less_defs)

lemma fw_shrinks_trans: "fw_shrinks f g \<Longrightarrow> fw_shrinks g h \<Longrightarrow> fw_shrinks f h"
  unfolding fw_shrinks_def by (simp, blast intro: opt_le_trans less_trans)

lemma run_gone_shrinks:
  assumes "run_gone ctx f runID" and "fw_shrinks f f'" shows "run_gone ctx f' runID"
  unfolding run_gone_def
proof (intro conjI allI impI)
  fix r' assume "FwRuns f' = Some r'"
  with assms show "Snapshots r' runID = None"
    unfolding run_gone_def fw_shrinks_def opt_le_def repo_less_def by (metis domIff map_le_def)
next
  fix h' assume "FwHistory f' = Some h'"
  with assms show "records_of h' runID = []"
    unfolding run_gone_def fw_shrinks_def opt_le_def history_less_def by metis
next
  fix ev' assume "FwEvents f' = Some ev'"
  with assms show "\<forall>rc \<in> set (Records ev'). EvRunID (RecEvent rc) = runID \<longrightarrow>
      \<not> of_tenant (Obs_TenantIDFromContext ctx) rc"
    unfolding run_gone_def fw_shrinks_def opt_le_def events_less_def by (metis subsetD)
next
  fix tbl' assume "FwOutbox f' = Some tbl'"
  with assms show "\<forall>row \<in> set tbl'. OutRunID row \<noteq> runID"
    unfolding run_gone_def fw_shrinks_def opt_le_def outbox_less_def by (metis subsetD)
qed

text \<open>What the deletion of one run does to the repository.\<close>

lemma deleteRunAndHistory_runs:
  assumes "deleteRunAndHistory db ctx f runID = (f', err)" and "FwRuns f = Some r"
  shows "\<exists>r'. FwRuns f' = Some r' \<and> (r' = r \<or> Snapshots r' = (Snapshots r)(runID := None))"
  using assms
  by (auto simp: deleteRunAndHistory_def Repository_Delete_def History_Delete_def Obs_DeleteEventsForRun_def
      EStore_DeleteEventsForRun_def delete_outbox_def DeleteOutboxForRun_def Let_def
      split: option.splits prod.splits sum.splits)

lemma map_upd_None_le: "f(k := None) \<subseteq>\<^sub>m f"
  by (simp add: map_le_def)

lemma deleteRunAndHistory_shrinks:
  assumes "deleteRunAndHistory db ctx f runID = (f', err)"
  shows "fw_shrinks f f'"
  using assms
  by (auto simp: deleteRunAndHistory_def Repository_Delete_def History_Delete_def Obs_DeleteEventsForRun_def
      EStore_DeleteEventsForRun_def delete_outbox_def DeleteOutboxForRun_def Let_def fw_shrinks_def opt_le_def less_defs map_upd_None_le
      split: option.splits prod.splits sum.splits)

lemma deleteRunAndHistory_gone:
  assumes "deleteRunAndHistory db ctx f runID = (f', None)" and "FwRuns f \<noteq> None"
  shows "run_gone ctx f' runID"
  using assms
  by (auto simp: deleteRunAndHistory_def Repository_Delete_def History_Delete_def Obs_DeleteEventsForRun_def
      EStore_DeleteEventsForRun_def delete_outbox_def DeleteOutboxForRun_def Let_def run_gone_def
      split: option.splits prod.splits sum.splits)

lemma deleteRunAndHistory_defined:
  "deleteRunAndHistory db ctx f runID = (f', err) \<Longrightarrow> FwRuns f \<noteq> None \<Longrightarrow> FwRuns f' \<noteq> None"
  using deleteRunAndHistory_runs by fastforce

end
