(* ===== verification/Retention_Safety.thy ===== *)
theory Retention_Safety
  imports Retention
begin

text \<open>
  What the purges of \<open>Retention\<close> promise: a purge that is not forced keeps every run that is live when it lists the
  runs and every run of another tenant, the age-based purge deletes exactly the expired runs of its scope with all that
  belongs to them, a policy's limit is respected, and the orphan sweep only looks at one scenario.
\<close>

section \<open>The deletion loops\<close>

text \<open>Everything a purge does to the runs: those in \<open>ids\<close> may go, the others stay as they are.\<close>

definition only_deletes :: "string set \<Rightarrow> fw \<Rightarrow> fw \<Rightarrow> bool" where
  "only_deletes ids f f' \<longleftrightarrow> fw_shrinks f f' \<and> (\<forall>r. FwRuns f = Some r \<longrightarrow>
     (\<exists>r'. FwRuns f' = Some r' \<and> (\<forall>k. k \<notin> ids \<longrightarrow> Snapshots r' k = Snapshots r k)))"

lemma only_deletes_refl [simp]: "only_deletes ids f f"
  by (simp add: only_deletes_def)

lemma only_deletes_trans:
  assumes "only_deletes ids f g" and "only_deletes ids g h" shows "only_deletes ids f h"
proof -
  have "fw_shrinks f h" using assms by (auto simp: only_deletes_def intro: fw_shrinks_trans)
  moreover have "\<exists>r'. FwRuns h = Some r' \<and> (\<forall>k. k \<notin> ids \<longrightarrow> Snapshots r' k = Snapshots r k)"
    if fr: "FwRuns f = Some r" for r
  proof -
    obtain r1 where r1: "FwRuns g = Some r1" "\<forall>k. k \<notin> ids \<longrightarrow> Snapshots r1 k = Snapshots r k"
      using assms(1) fr unfolding only_deletes_def by blast
    obtain r2 where "FwRuns h = Some r2" "\<forall>k. k \<notin> ids \<longrightarrow> Snapshots r2 k = Snapshots r1 k"
      using assms(2) r1(1) unfolding only_deletes_def by blast
    with r1(2) show ?thesis by auto
  qed
  ultimately show ?thesis by (simp add: only_deletes_def)
qed

lemma only_deletes_mono: "only_deletes ids f g \<Longrightarrow> ids \<subseteq> ids' \<Longrightarrow> only_deletes ids' f g"
  unfolding only_deletes_def by (meson subsetD)

lemma only_deletes_keeps:
  assumes "only_deletes ids f f'" and "FwRuns f = Some r" and "k \<notin> ids"
  shows "\<exists>r'. FwRuns f' = Some r' \<and> Snapshots r' k = Snapshots r k"
  using assms by (auto simp: only_deletes_def)

lemma only_deletes_run_gone: "run_gone ctx f k \<Longrightarrow> only_deletes ids f f' \<Longrightarrow> run_gone ctx f' k"
  by (auto simp: only_deletes_def intro: run_gone_shrinks)

lemma deleteRunAndHistory_only:
  assumes "deleteRunAndHistory db ctx f runID = (f', err)" and "runID \<in> ids"
  shows "only_deletes ids f f'"
  using deleteRunAndHistory_shrinks [OF assms(1)] deleteRunAndHistory_runs [OF assms(1)] assms(2)
  unfolding only_deletes_def by fastforce

text \<open>What others keep and the deletions of listed runs keep, the loops keep.\<close>

lemma delete_runs_inv:
  assumes "delete_runs db ctx others skip f ss removed = (f', n, err)" and "P f" and "\<And>i g. P g \<Longrightarrow> P (others i g)"
    and "\<And>s g g' e. s \<in> set ss \<Longrightarrow> \<not> skip s \<Longrightarrow> P g \<Longrightarrow> deleteRunAndHistory db ctx g (RunID s) = (g', e) \<Longrightarrow> P g'"
  shows "P f'"
  using assms(1,2,4)
proof (induction ss arbitrary: f removed)
  case (Cons s ss)
  obtain f1 e1 where d: "deleteRunAndHistory db ctx (others (RunID s) f) (RunID s) = (f1, e1)" by fastforce
  have p: "P f1" if "\<not> skip s" using Cons.prems(3) [OF _ that assms(3) [OF Cons.prems(2)] d] by simp
  have ih: "P f'" if "delete_runs db ctx others skip g ss m = (f', n, err)" "P g" for g m
    by (rule Cons.IH [OF that]) (use Cons.prems(3) in \<open>meson list.set_intros(2)\<close>)
  show ?case
  proof (cases "skip s")
    case True
    with ih Cons.prems(1,2) show ?thesis by simp
  next
    case False
    with ih p d Cons.prems(1) show ?thesis by (cases e1) simp_all
  qed
qed simp

lemma delete_runs_limit_inv:
  assumes "delete_runs_limit db ctx others limit f ss removed = (f', n, err)" and "P f" and "\<And>i g. P g \<Longrightarrow> P (others i g)"
    and "\<And>s g g' e. s \<in> set ss \<Longrightarrow> P g \<Longrightarrow> deleteRunAndHistory db ctx g (RunID s) = (g', e) \<Longrightarrow> P g'"
  shows "P f'"
  using assms(1,2,4)
proof (induction ss arbitrary: f removed)
  case (Cons s ss)
  obtain f1 e1 where d: "deleteRunAndHistory db ctx (others (RunID s) f) (RunID s) = (f1, e1)" by fastforce
  have p: "P f1" using Cons.prems(3) [OF _ assms(3) [OF Cons.prems(2)] d] by simp
  have ih: "P f'" if "delete_runs_limit db ctx others limit g ss m = (f', n, err)" "P g" for g m
    by (rule Cons.IH [OF that]) (use Cons.prems(3) in \<open>meson list.set_intros(2)\<close>)
  show ?case
  proof (cases "e1 = None \<and> \<not> (0 < limit \<and> limit \<le> removed + 1)")
    case True
    then have "delete_runs_limit db ctx others limit f1 ss (removed + 1) = (f', n, err)" using d Cons.prems(1) by auto
    then show ?thesis using p by (rule ih)
  next
    case False
    with p d Cons.prems(1) show ?thesis by (cases e1) (simp_all del: not_less not_le)
  qed
qed simp

text \<open>What is stored of a run, and that the deletion of another run leaves it.\<close>

definition stored :: "fw \<Rightarrow> string \<Rightarrow> run_snapshot option" where
  "stored f runID = (case FwRuns f of None \<Rightarrow> None | Some r \<Rightarrow> Snapshots r runID)"

lemma deleteRunAndHistory_stored:
  assumes "deleteRunAndHistory db ctx f runID = (f', err)" and "k \<noteq> runID" shows "stored f' k = stored f k"
proof (cases "FwRuns f")
  case None
  with assms(1) show ?thesis by (simp add: deleteRunAndHistory_def)
next
  case (Some r)
  from deleteRunAndHistory_runs [OF assms(1) Some] Some assms(2) show ?thesis by (auto simp: stored_def)
qed

text \<open>The loops when nobody else acts.\<close>

lemma delete_runs_only:
  assumes "delete_runs db ctx (\<lambda>_ g. g) skip f ss removed = (f', n, err)"
  shows "only_deletes {RunID s |s. s \<in> set ss \<and> \<not> skip s} f f'"
  using assms
proof (induction ss arbitrary: f removed)
  case (Cons s ss)
  let ?ids = "{RunID t |t. t \<in> set (s # ss) \<and> \<not> skip t}"
  have mono: "only_deletes ?ids g h" if "only_deletes {RunID t |t. t \<in> set ss \<and> \<not> skip t} g h" for g h
    using that by (rule only_deletes_mono) auto
  show ?case
  proof (cases "skip s")
    case True
    with Cons show ?thesis by (intro mono) auto
  next
    case False
    obtain f1 e1 where d: "deleteRunAndHistory db ctx f (RunID s) = (f1, e1)" by fastforce
    have "only_deletes ?ids f f1" using False by (intro deleteRunAndHistory_only [OF d]) auto
    moreover have "only_deletes ?ids f1 f'"
      using Cons False d by (cases e1) (auto intro!: mono [simplified])
    ultimately show ?thesis by (rule only_deletes_trans)
  qed
qed simp

lemma delete_runs_gone:
  assumes "delete_runs db ctx (\<lambda>_ g. g) skip f ss removed = (f', n, None)" and "FwRuns f \<noteq> None"
    and "s \<in> set ss" and "\<not> skip s"
  shows "run_gone ctx f' (RunID s)"
  using assms
proof (induction ss arbitrary: f removed)
  case (Cons t ss)
  show ?case
  proof (cases "skip t")
    case True
    with Cons show ?thesis by auto
  next
    case False
    then obtain f1 where d: "deleteRunAndHistory db ctx f (RunID t) = (f1, None)"
      and rest: "delete_runs db ctx (\<lambda>_ g. g) skip f1 ss (removed + 1) = (f', n, None)"
      using Cons.prems(1) by (auto split: prod.splits option.splits)
    have "run_gone ctx f' (RunID t)"
      using deleteRunAndHistory_gone [OF d Cons.prems(2)] delete_runs_only [OF rest] by (rule only_deletes_run_gone)
    moreover have "run_gone ctx f' (RunID s)" if "s \<in> set ss"
      using Cons.IH [OF rest deleteRunAndHistory_defined [OF d Cons.prems(2)] that Cons.prems(4)] .
    ultimately show ?thesis using Cons.prems(3) by auto
  qed
qed simp

text \<open>With a live context and a database that answers, the loop runs to its end.\<close>

lemma deleteRunAndHistory_succeeds:
  assumes "CtxErr ctx = None" shows "\<exists>f'. deleteRunAndHistory None ctx f runID = (f', None)"
  using assms
  by (auto simp: deleteRunAndHistory_def Repository_Delete_def History_Delete_def Obs_DeleteEventsForRun_def
      EStore_DeleteEventsForRun_def delete_outbox_def DeleteOutboxForRun_def Let_def split: option.splits)

lemma delete_runs_succeeds:
  assumes "CtxErr ctx = None" shows "\<exists>f' n. delete_runs None ctx others skip f ss removed = (f', n, None)"
proof (induction ss arbitrary: f removed)
  case (Cons s ss)
  obtain f1 where "deleteRunAndHistory None ctx (others (RunID s) f) (RunID s) = (f1, None)"
    using deleteRunAndHistory_succeeds [OF assms] by blast
  with Cons show ?case by simp
qed simp

section \<open>The listings of a scope\<close>

text \<open>The runs in the scope of the caller: with a principal, those of its tenant.\<close>

definition in_scope :: "gctx \<Rightarrow> run_snapshot \<Rightarrow> bool" where
  "in_scope ctx s \<longleftrightarrow> (\<forall>p. CtxPrincipal ctx = Some p \<longrightarrow> TenantID s = ScopeTenantID (PrincipalScope p))"

lemma ScopeListFilter_matches:
  assumes "ScopeListFilter ctx flt0 = Inr flt"
  shows "filter_matches flt s \<longleftrightarrow> filter_matches flt0 s \<and> in_scope ctx s"
proof (cases "CtxPrincipal ctx")
  case None
  with assms show ?thesis
    by (auto simp: ScopeListFilter_def PrincipalFromContext_def in_scope_def split: if_splits)
next
  case (Some p)
  with assms have "Principal_Validate p = None"
    and flt: "flt = flt0\<lparr>FilterTenantID := ScopeTenantID (PrincipalScope p)\<rparr>"
    and "FilterTenantID flt0 = [] \<or> FilterTenantID flt0 = ScopeTenantID (PrincipalScope p)"
    by (auto simp: ScopeListFilter_def PrincipalFromContext_def split: if_splits)
  with Principal_Validate_tenant [of p] Some show ?thesis by (auto simp: filter_matches_def in_scope_def)
qed

lemma PurgeRuns_cases:
  assumes "PurgeRuns walk db ctx others force f flt0 = (f', n, err)" and "FwRuns f = Some r"
  obtains (rejected) "f' = f" and "n = 0" and "err \<noteq> None"
  | (swept) flt snapshots where "ScopeListFilter ctx flt0 = Inr flt" and "Repository_List walk ctx r flt = Inr snapshots"
      and "delete_runs db ctx others (\<lambda>s. \<not> force \<and> \<not> isTerminalRunStatus (Status s)) f snapshots 0 = (f', n, err)"
  using assms by (auto simp: PurgeRuns_def split: sum.splits)

text \<open>
  C38: a purge leaves alone what it may not delete. A run that, when the purge lists the runs, is still live and the
  purge is not forced, or does not match the filter, or belongs to another tenant than the caller, is not
  touched by the purge: whatever others do to the stores between the listing and the deletions, what they
  keep true of the stored run is true at the end, whatever errors the purge meets. In particular the run is
  still stored unchanged when nobody else changed it.
\<close>

theorem PurgeRuns_keeps_live:
  assumes "repo_inv r" and "FwRuns f = Some r" and "Snapshots r runID = Some s"
    and "(\<not> force \<and> \<not> isTerminalRunStatus (Status s)) \<or> \<not> filter_matches flt s \<or> \<not> in_scope ctx s"
    and "PurgeRuns walk db ctx others force f flt = (f', n, err)"
    and "Q (Some s)" and "\<And>i g. Q (stored g runID) \<Longrightarrow> Q (stored (others i g) runID)"
  shows "Q (stored f' runID)"
proof -
  have now: "Q (stored f runID)" using assms(2,3,6) by (simp add: stored_def)
  from assms(5,2) show ?thesis
  proof (cases rule: PurgeRuns_cases)
    case rejected
    with now show ?thesis by simp
  next
    case (swept flt' snapshots)
    have other: "runID \<noteq> RunID t" if t: "t \<in> set snapshots" "\<not> (\<not> force \<and> \<not> isTerminalRunStatus (Status t))" for t
    proof
      assume "runID = RunID t"
      with Repository_List_member [OF swept(2) t(1)] assms(1,3) have "t = s" unfolding repo_inv_def by fastforce
      with t Repository_List_member [OF swept(2)] ScopeListFilter_matches [OF swept(1)] assms(4) show False by blast
    qed
    show ?thesis
      by (rule delete_runs_inv [OF swept(3), where P = "\<lambda>g. Q (stored g runID)"])
        (use now assms(7) other deleteRunAndHistory_stored in auto)
  qed
qed

text \<open>A completed run of tenant \<open>a\<close>, a paused one and a completed one of tenant \<open>b\<close>.\<close>

definition sample_fw :: fw where
  "sample_fw = \<lparr>FwRuns = Some \<lparr>Snapshots = [''x'' \<mapsto> (sample_run ''x'' RunStatusCompleted ''a'')\<lparr>UpdatedAt := 5\<rparr>,
      ''y'' \<mapsto> (sample_run ''y'' RunStatusPaused ''a'')\<lparr>UpdatedAt := 5\<rparr>,
      ''z'' \<mapsto> (sample_run ''z'' RunStatusCompleted ''b'')\<lparr>UpdatedAt := 5\<rparr>], Fences = Map.empty\<rparr>,
     FwHistory = None, FwEvents = None, FwOutbox = None, FwScenario = ''s''\<rparr>"

definition tenant_a :: gctx where
  "tenant_a = Background\<lparr>CtxPrincipal := Some (sample_principal ''a'')\<rparr>"

lemmas sample_fw_defs = sample_fw_def tenant_a_def Background_def sample_run_def sample_principal_valid

lemma repo_inv_sample_fw: "repo_inv (the (FwRuns sample_fw))"
  by (auto simp: repo_inv_def sample_fw_defs Snapshot_Validate_def split: if_splits)

text \<open>While tenant \<open>a\<close> purges its completed run \<open>x\<close>, the paused run \<open>y\<close> goes on.\<close>

definition y_goes_on :: "string \<Rightarrow> fw \<Rightarrow> fw" where
  "y_goes_on _ f = (case FwRuns f of None \<Rightarrow> f
     | Some r \<Rightarrow> f\<lparr>FwRuns := Some (fst (Repository_Save Background 7 r (Some ((sample_run ''y'' RunStatusRunning ''a''))) 0))\<rparr>)"

definition live_run :: "run_snapshot option \<Rightarrow> bool" where
  "live_run x = (case x of None \<Rightarrow> False | Some s \<Rightarrow> \<not> isTerminalRunStatus (Status s))"

lemma y_goes_on_live: "live_run (stored g ''y'') \<Longrightarrow> live_run (stored (y_goes_on i g) ''y'')"
proof (cases "FwRuns g")
  case (Some r)
  obtain r' snap err where save: "Repository_Save Background 7 r (Some (sample_run ''y'' RunStatusRunning ''a'')) 0 = (r', snap, err)"
    by (metis prod_cases3)
  assume live: "live_run (stored g ''y'')"
  show ?thesis
  proof (cases err)
    case None
    from Repository_Save_saved [OF save [unfolded None]] obtain s' where
      "saveLocked Background 7 r (sample_run ''y'' RunStatusRunning ''a'') (Snapshots r ''y'') = (r', s', None)" by (auto simp: sample_run_def)
    from saveLocked_ok [OF this] show ?thesis using save Some
      by (simp add: y_goes_on_def stored_def live_run_def isTerminalRunStatus_def sample_run_def)
  next
    case (Some e)
    from Repository_Save_failed [OF save [unfolded this]] save live \<open>FwRuns g = Some r\<close> show ?thesis by (simp add: y_goes_on_def stored_def)
  qed
qed (simp add: y_goes_on_def)

lemmas purge_defs = PurgeRuns_def ScopeListFilter_def PrincipalFromContext_def sample_fw_defs EmptyListFilter_def Repository_List_def
  filter_matches_def deleteRunAndHistory_def Repository_Delete_def Obs_DeleteEventsForRun_def delete_outbox_def isTerminalRunStatus_def
  stored_def Repository_Save_def saveLocked_def StampSnapshot_def current_version_def Snapshot_Validate_def ValidateStatusTransition_def
  live_run_def Let_def

lemma PurgeRuns_sample:
  "case PurgeRuns [''x'', ''y'', ''z''] None tenant_a y_goes_on False sample_fw EmptyListFilter of (f', n, err) \<Rightarrow>
     n = 1 \<and> err = None \<and> stored f' ''x'' = None \<and> map_option Status (stored f' ''y'') = Some RunStatusRunning"
  by (simp add: y_goes_on_def purge_defs)

theorem PurgeRuns_keeps_live_witness:
  "\<exists>f'. PurgeRuns [''x'', ''y'', ''z''] None tenant_a y_goes_on False sample_fw EmptyListFilter = (f', 1, None)
     \<and> stored f' ''x'' = None \<and> live_run (stored f' ''y'')"
proof -
  obtain f' n err where p: "PurgeRuns [''x'', ''y'', ''z''] None tenant_a y_goes_on False sample_fw EmptyListFilter = (f', n, err)"
    by (metis prod_cases3)
  have fr: "FwRuns sample_fw = Some (the (FwRuns sample_fw))"
    and y: "Snapshots (the (FwRuns sample_fw)) ''y'' = Some ((sample_run ''y'' RunStatusPaused ''a'')\<lparr>UpdatedAt := 5\<rparr>)"
    by (simp_all add: sample_fw_def)
  have "live_run (stored f' ''y'')"
    by (rule PurgeRuns_keeps_live [OF repo_inv_sample_fw fr y _ p, where Q = live_run])
      (use y_goes_on_live in \<open>auto simp: live_run_def isTerminalRunStatus_def sample_run_def\<close>)
  with PurgeRuns_sample p show ?thesis by auto
qed

text \<open>
  What the purge goes by is the listing. A failed run that is started again between the listing and its deletion,
  as a retry of a failed run does with the transition override, is deleted although it is running.
\<close>

definition revive_x :: "string \<Rightarrow> fw \<Rightarrow> fw" where
  "revive_x _ f = (case FwRuns f of None \<Rightarrow> f
     | Some r \<Rightarrow> f\<lparr>FwRuns := Some (fst (Repository_Save (ContextWithStatusTransitionOverride Background) 7 r
         (Some (sample_run ''x'' RunStatusRunning ''a'')) 0))\<rparr>)"

theorem revived_run_purged:
  "let f = sample_fw\<lparr>FwRuns := Some \<lparr>Snapshots = [''x'' \<mapsto> sample_run ''x'' RunStatusFailed ''a''], Fences = Map.empty\<rparr>\<rparr>
   in live_run (stored (revive_x ''x'' f) ''x'')
     \<and> (case PurgeRuns [''x''] None tenant_a revive_x False f EmptyListFilter of (f', n, err) \<Rightarrow>
          n = 1 \<and> err = None \<and> stored f' ''x'' = None)"
  by (simp add: revive_x_def ContextWithStatusTransitionOverride_def purge_defs)

section \<open>The age-based purge\<close>

text \<open>The runs a purge with a cutoff is for: of the scenario, in scope, of the status and last updated before.\<close>

definition expired :: "gctx \<Rightarrow> string \<Rightarrow> gtime \<Rightarrow> run_status set \<Rightarrow> run_snapshot \<Rightarrow> bool" where
  "expired ctx scenario cutoff statuses s \<longleftrightarrow>
     Status s \<in> statuses \<and> (scenario = [] \<or> ScenarioName s = scenario) \<and> in_scope ctx s
     \<and> UpdatedAt s \<noteq> 0 \<and> UpdatedAt s < cutoff"

definition without :: "(run_snapshot \<Rightarrow> bool) \<Rightarrow> repo \<Rightarrow> repo \<Rightarrow> bool" where
  "without P r r' \<longleftrightarrow> Snapshots r' = (\<lambda>k. case Snapshots r k of None \<Rightarrow> None | Some s \<Rightarrow> if P s then None else Some s)"

definition scope_ok :: "gctx \<Rightarrow> bool" where
  "scope_ok ctx \<longleftrightarrow> CtxErr ctx = None \<and> (\<forall>p. CtxPrincipal ctx = Some p \<longrightarrow> Principal_Validate p = None)"

lemma ScopeListFilter_ok:
  "scope_ok ctx \<Longrightarrow> FilterTenantID flt = [] \<Longrightarrow> \<exists>flt'. ScopeListFilter ctx flt = Inr flt' \<and> FilterLimit flt' = FilterLimit flt"
  by (auto simp: ScopeListFilter_def PrincipalFromContext_def scope_ok_def split: option.splits)

lemma Repository_List_ok: "scope_ok ctx \<Longrightarrow> \<exists>out. Repository_List walk ctx r flt = Inr out"
  by (simp add: Repository_List_def scope_ok_def)

lemma Repository_List_inv: "repo_inv r \<Longrightarrow> without P r r' \<Longrightarrow> repo_inv r'"
  by (auto simp: repo_inv_def without_def split: option.splits if_splits)

text \<open>One listing and its deletions, when the listing has no limit and the walk visits every run.\<close>

lemma sweep_exact:
  assumes "repo_inv r" and "FwRuns f = Some r" and "dom (Snapshots r) \<subseteq> set walk" and "FilterLimit flt \<le> 0"
    and "Repository_List walk ctx r flt = Inr snapshots"
    and "delete_runs db ctx (\<lambda>_ g. g) (\<lambda>_. False) f snapshots removed = (f', n, None)"
  shows "\<exists>r'. FwRuns f' = Some r' \<and> without (filter_matches flt) r r' \<and> fw_shrinks f f'
     \<and> (\<forall>k s. Snapshots r k = Some s \<longrightarrow> filter_matches flt s \<longrightarrow> run_gone ctx f' k)"
proof -
  have only: "only_deletes {RunID s |s. s \<in> set snapshots} f f'" using delete_runs_only [OF assms(6)] by simp
  have mem: "k \<in> {RunID s |s. s \<in> set snapshots} \<longleftrightarrow> filter_matches flt s" if "Snapshots r k = Some s" for k s
    using that Repository_List_member [OF assms(5)] Repository_List_complete [OF assms(5,4) _ that] assms(1,3)
    unfolding repo_inv_def by (auto, fastforce+)
  have gone: "run_gone ctx f' k" if ks: "Snapshots r k = Some s" and "filter_matches flt s" for k s
  proof -
    have "s \<in> set snapshots" using Repository_List_complete [OF assms(5,4) _ ks that(2)] assms(3) ks by auto
    with delete_runs_gone [OF assms(6), of s] assms(1,2) ks show ?thesis by (auto simp: repo_inv_def)
  qed
  obtain r' where r': "FwRuns f' = Some r'" and keep: "\<And>k. k \<notin> {RunID s |s. s \<in> set snapshots} \<Longrightarrow> Snapshots r' k = Snapshots r k"
    using only assms(2) unfolding only_deletes_def by blast
  have "Snapshots r' k = (case Snapshots r k of None \<Rightarrow> None | Some s \<Rightarrow> if filter_matches flt s then None else Some s)" for k
  proof (cases "Snapshots r k")
    case None
    then have "k \<notin> {RunID s |s. s \<in> set snapshots}"
      using Repository_List_member [OF assms(5)] assms(1) unfolding repo_inv_def by fastforce
    with keep None show ?thesis by simp
  next
    case (Some s)
    show ?thesis
    proof (cases "filter_matches flt s")
      case True
      with gone [OF Some] r' Some show ?thesis by (simp add: run_gone_def)
    next
      case False
      with keep [of k] mem [OF Some] Some show ?thesis by simp
    qed
  qed
  then have "without (filter_matches flt) r r'" by (simp add: without_def fun_eq_iff)
  with r' only gone show ?thesis by (auto simp: only_deletes_def)
qed

lemma expire_filter_matches:
  assumes "ScopeListFilter ctx (EmptyListFilter\<lparr>FilterScenarioName := scenario, FilterStatus := status,
              FilterUpdatedBefore := cutoff\<rparr>) = Inr flt" and "cutoff \<noteq> 0" and "status \<noteq> RunStatusOther []"
  shows "filter_matches flt s \<longleftrightarrow> expired ctx scenario cutoff {status} s"
  using assms(2,3) unfolding ScopeListFilter_matches [OF assms(1)]
  by (auto simp: filter_matches_def expired_def EmptyListFilter_def)

lemma expire_loop_exact:
  assumes "repo_inv r" and "FwRuns f = Some r" and "\<forall>st. dom (Snapshots r) \<subseteq> set (walk st)" and "cutoff \<noteq> 0"
    and "scope_ok ctx" and "RunStatusOther [] \<notin> set sts"
  shows "\<exists>f' n r'. expire_loop walk None ctx (\<lambda>_ _ g. g) cutoff f sts removed = (f', n, None) \<and> FwRuns f' = Some r'
     \<and> without (expired ctx (FwScenario f) cutoff (set sts)) r r' \<and> fw_shrinks f f'
     \<and> (\<forall>k s. Snapshots r k = Some s \<longrightarrow> expired ctx (FwScenario f) cutoff (set sts) s \<longrightarrow> run_gone ctx f' k)"
  using assms(1-3,6)
proof (induction sts arbitrary: f r removed)
  case Nil
  then show ?case by (auto simp: without_def expired_def fun_eq_iff split: option.splits)
next
  case (Cons st sts)
  let ?flt0 = "EmptyListFilter\<lparr>FilterScenarioName := FwScenario f, FilterStatus := st, FilterUpdatedBefore := cutoff\<rparr>"
  obtain flt where flt: "ScopeListFilter ctx ?flt0 = Inr flt" "FilterLimit flt = 0"
    using ScopeListFilter_ok [OF assms(5), of ?flt0] by (auto simp: EmptyListFilter_def)
  obtain out where out: "Repository_List (walk st) ctx r flt = Inr out" using Repository_List_ok [OF assms(5)] by blast
  obtain f1 n1 where d: "delete_runs None ctx (\<lambda>_ g. g) (\<lambda>_. False) f out removed = (f1, n1, None)"
    using delete_runs_succeeds [of ctx] assms(5) unfolding scope_ok_def by blast
  have m: "filter_matches flt s \<longleftrightarrow> expired ctx (FwScenario f) cutoff {st} s" for s
    using expire_filter_matches [OF flt(1) assms(4)] Cons.prems(4) by auto
  obtain r1 where r1: "FwRuns f1 = Some r1" "without (filter_matches flt) r r1" "fw_shrinks f f1"
    "\<forall>k s. Snapshots r k = Some s \<longrightarrow> filter_matches flt s \<longrightarrow> run_gone ctx f1 k"
    using sweep_exact [OF Cons.prems(1,2) spec [OF Cons.prems(3)] _ out d] flt(2) by auto
  have sc: "FwScenario f1 = FwScenario f" using r1(3) by (simp add: fw_shrinks_def)
  have dom: "\<forall>st'. dom (Snapshots r1) \<subseteq> set (walk st')"
    using Cons.prems(3) r1(2) by (fastforce simp: without_def split: option.splits if_splits)
  obtain f2 n2 r2 where ih: "expire_loop walk None ctx (\<lambda>_ _ g. g) cutoff f1 sts n1 = (f2, n2, None)" "FwRuns f2 = Some r2"
    "without (expired ctx (FwScenario f) cutoff (set sts)) r1 r2" "fw_shrinks f1 f2"
    "\<forall>k s. Snapshots r1 k = Some s \<longrightarrow> expired ctx (FwScenario f) cutoff (set sts) s \<longrightarrow> run_gone ctx f2 k"
    using Cons.IH [OF Repository_List_inv [OF Cons.prems(1) r1(2)] r1(1) dom, of n1] Cons.prems(4) unfolding sc by auto
  have set: "expired ctx (FwScenario f) cutoff (set (st # sts)) s \<longleftrightarrow>
      expired ctx (FwScenario f) cutoff {st} s \<or> expired ctx (FwScenario f) cutoff (set sts) s" for s
    by (auto simp: expired_def)
  have "without (expired ctx (FwScenario f) cutoff (set (st # sts))) r r2"
    using r1(2) ih(3) unfolding without_def m set by (auto simp: fun_eq_iff split: option.splits)
  moreover have "run_gone ctx f2 k"
    if "Snapshots r k = Some s" and "expired ctx (FwScenario f) cutoff (set (st # sts)) s" for k s
  proof (cases "filter_matches flt s")
    case True
    with r1(4) ih(4) that(1) show ?thesis by (blast intro: run_gone_shrinks)
  next
    case False
    then have "Snapshots r1 k = Some s" using r1(2) that(1) by (simp add: without_def)
    with ih(5) that(2) False show ?thesis unfolding set m by blast
  qed
  moreover have "expire_loop walk None ctx (\<lambda>_ _ g. g) cutoff f (st # sts) removed = (f2, n2, None)"
    using flt(1) out d ih(1) Cons.prems(2) by simp
  ultimately show ?case using ih(2,4) r1(3) fw_shrinks_trans by blast
qed

lemma purgeEventSideData_shrinks:
  "purgeEventSideData payload_tenant db ctx f cutoff = (f', err) \<Longrightarrow> fw_shrinks f f' \<and> FwRuns f' = FwRuns f"
  by (auto simp: purgeEventSideData_def Obs_PurgeEventsBefore_def EStore_PurgeEventsBefore_def
      PurgeOutboxPublishedBefore_def Let_def fw_shrinks_def opt_le_def less_defs
      split: option.splits prod.splits sum.splits)

lemma purgeEventSideData_ok:
  assumes "scope_ok ctx" shows "\<exists>f'. purgeEventSideData payload_tenant None ctx f cutoff = (f', None)"
  using assms ScopeListFilter_ok [OF assms, of EmptyListFilter]
  by (auto simp: purgeEventSideData_def Obs_PurgeEventsBefore_def EStore_PurgeEventsBefore_def scope_ok_def
      PurgeOutboxPublishedBefore_def Let_def EmptyListFilter_def split: option.splits)

text \<open>
  The age-based purge deletes exactly the expired runs, when nobody else acts meanwhile. Called with a live context, with no principal
  or a valid one, and a database that answers, it succeeds; afterwards the repository holds exactly the
  runs it held except those of the current scenario (and the caller's tenant) that are completed, failed
  or cancelled and were last updated before the cutoff; runs that were never stamped are kept. Of each
  deleted run nothing is left: no checkpoint, no outbox row and no event the caller may see.
\<close>

theorem PurgeExpired_exact:
  assumes "repo_inv r" and "FwRuns f = Some r" and "\<forall>st. dom (Snapshots r) \<subseteq> set (walk st)"
    and "0 < maxAge" and "now - maxAge \<noteq> 0"
    and "CtxErr ctx = None" and "\<forall>p. CtxPrincipal ctx = Some p \<longrightarrow> Principal_Validate p = None"
  shows "\<exists>f' n r'. PurgeExpired walk payload_tenant None ctx (\<lambda>_ _ g. g) now f maxAge = (f', n, None) \<and> FwRuns f' = Some r'
     \<and> Snapshots r' = (\<lambda>k. case Snapshots r k of None \<Rightarrow> None
          | Some s \<Rightarrow> if expired ctx (FwScenario f) (now - maxAge) (set terminal_statuses) s then None else Some s)
     \<and> (\<forall>k s. Snapshots r k = Some s \<longrightarrow> expired ctx (FwScenario f) (now - maxAge) (set terminal_statuses) s
          \<longrightarrow> run_gone ctx f' k)"
proof -
  have ok: "scope_ok ctx" using assms(6,7) by (simp add: scope_ok_def)
  have "RunStatusOther [] \<notin> set terminal_statuses" by (simp add: terminal_statuses_def)
  from expire_loop_exact [OF assms(1,2,3,5) ok this, of 0]
  obtain f1 n r' where l: "expire_loop walk None ctx (\<lambda>_ _ g. g) (now - maxAge) f terminal_statuses 0 = (f1, n, None)"
    "FwRuns f1 = Some r'" "without (expired ctx (FwScenario f) (now - maxAge) (set terminal_statuses)) r r'"
    "\<forall>k s. Snapshots r k = Some s \<longrightarrow> expired ctx (FwScenario f) (now - maxAge) (set terminal_statuses) s
       \<longrightarrow> run_gone ctx f1 k" by auto
  obtain f2 where p: "purgeEventSideData payload_tenant None ctx f1 (now - maxAge) = (f2, None)"
    using purgeEventSideData_ok [OF ok] by blast
  have "PurgeExpired walk payload_tenant None ctx (\<lambda>_ _ g. g) now f maxAge = (f2, n, None)"
    using assms(2,4) l(1) p by (simp add: PurgeExpired_def)
  moreover have "run_gone ctx f2 k" if "run_gone ctx f1 k" for k
    using that purgeEventSideData_shrinks [OF p] run_gone_shrinks by blast
  ultimately show ?thesis using l(2-4) purgeEventSideData_shrinks [OF p] unfolding without_def by auto
qed

theorem PurgeExpired_exact_witness:
  "\<exists>f' n r'. PurgeExpired (\<lambda>_. [''x'', ''y'', ''z'']) (\<lambda>_. None) None tenant_a (\<lambda>_ _ g. g) 100 sample_fw 50 = (f', n, None)
     \<and> FwRuns f' = Some r' \<and> Snapshots r' ''x'' = None \<and> Snapshots r' ''y'' \<noteq> None \<and> Snapshots r' ''z'' \<noteq> None"
proof -
  have "dom (Snapshots (the (FwRuns sample_fw))) \<subseteq> set [''x'', ''y'', ''z'']" by (auto simp: sample_fw_def split: if_splits)
  then have "\<exists>f' n r'. PurgeExpired (\<lambda>_. [''x'', ''y'', ''z'']) (\<lambda>_. None) None tenant_a (\<lambda>_ _ g. g) 100 sample_fw 50 = (f', n, None)
     \<and> FwRuns f' = Some r' \<and> Snapshots r' = (\<lambda>k. case Snapshots (the (FwRuns sample_fw)) k of None \<Rightarrow> None
          | Some s \<Rightarrow> if expired tenant_a (FwScenario sample_fw) (100 - 50) (set terminal_statuses) s then None else Some s)
     \<and> (\<forall>k s. Snapshots (the (FwRuns sample_fw)) k = Some s \<longrightarrow>
          expired tenant_a (FwScenario sample_fw) (100 - 50) (set terminal_statuses) s \<longrightarrow> run_gone tenant_a f' k)"
    by (intro PurgeExpired_exact [OF repo_inv_sample_fw]) (simp_all add: sample_fw_defs)
  then show ?thesis
    by (elim exE conjE) (intro exI conjI, assumption, assumption,
      simp_all add: sample_fw_defs expired_def in_scope_def terminal_statuses_def)
qed

section \<open>Limits of a policy\<close>

lemma delete_runs_limit_bounds:
  assumes "delete_runs_limit db ctx others limit f ss removed = (f', n, err)" and "0 < limit" and "removed < limit"
  shows "removed \<le> n \<and> n \<le> limit"
  using assms
proof (induction ss arbitrary: f removed)
  case (Cons s ss)
  then show ?case by (fastforce split: if_splits prod.splits option.splits)
qed simp

text \<open>One status of a policy: skipped, refused, or listed and swept.\<close>

lemma policy_loop_step:
  assumes "policy_loop walk db ctx others cutoff policy f (st # sts) removed = (f', n, err)"
  obtains (skipped) "policy_loop walk db ctx others cutoff policy f sts removed = (f', n, err)"
  | (stopped) "f' = f \<or> f' = others st None f" and "n = removed"
  | (swept) flt snapshots f1 n1 e1 where "isTerminalRunStatus st"
      and "\<And>s. filter_matches flt s \<Longrightarrow> Status s = st \<and> in_scope ctx s"
      and "Repository_List (walk st) ctx (the (FwRuns (others st None f))) flt = Inr snapshots"
      and "delete_runs_limit db ctx (\<lambda>i. others st (Some i)) (PolLimit policy) (others st None f) snapshots removed = (f1, n1, e1)"
      and "(f', n, err) = (f1, n1, e1) \<or> policy_loop walk db ctx others cutoff policy f1 sts n1 = (f', n, err)
             \<and> \<not> (0 < PolLimit policy \<and> PolLimit policy \<le> n1)"
      and "0 < PolLimit policy \<Longrightarrow> removed < PolLimit policy"
proof (cases "st = RunStatusOther [] \<or> \<not> isTerminalRunStatus st")
  case True
  with assms show ?thesis by (intro skipped) simp
next
  case False
  let ?flt0 = "EmptyListFilter\<lparr>FilterStatus := st,
      FilterScenarioName := (if PolScenarioName policy = [] then FwScenario f else PolScenarioName policy),
      FilterUpdatedBefore := cutoff, FilterLimit := PolLimit policy\<rparr>"
  note run = assms [unfolded policy_loop.simps(2) Let_def, unfolded if_not_P [OF False]]
  show ?thesis
  proof (cases "ScopeListFilter ctx ?flt0")
    case (Inl e)
    with run show ?thesis by (intro stopped) auto
  next
    case (Inr flt1)
    define flt where "flt = (if 0 < PolLimit policy then flt1\<lparr>FilterLimit := PolLimit policy - removed\<rparr> else flt1)"
    have m: "filter_matches flt s = filter_matches flt1 s" for s by (simp add: flt_def filter_matches_def)
    have m': "Status s = st \<and> in_scope ctx s" if "filter_matches flt s" for s
      using that False unfolding m ScopeListFilter_matches [OF Inr] by (simp add: filter_matches_def)
    show ?thesis
    proof (cases "0 < PolLimit policy \<and> PolLimit policy - removed \<le> 0")
      case True
      with run Inr show ?thesis by (intro stopped) auto
    next
      case below: False
      show ?thesis
      proof (cases "Repository_List (walk st) ctx (the (FwRuns (others st None f))) flt")
        case (Inl e)
        with run below \<open>ScopeListFilter ctx ?flt0 = Inr flt1\<close> show ?thesis
          unfolding flt_def by (intro stopped) (auto split: if_splits)
      next
        case (Inr snapshots)
        obtain f1 n1 e1 where d: "delete_runs_limit db ctx (\<lambda>i. others st (Some i)) (PolLimit policy) (others st None f) snapshots removed = (f1, n1, e1)"
          by (metis prod_cases3)
        have "(f', n, err) = (f1, n1, e1) \<or> policy_loop walk db ctx others cutoff policy f1 sts n1 = (f', n, err)
             \<and> \<not> (0 < PolLimit policy \<and> PolLimit policy \<le> n1)"
          using run below \<open>ScopeListFilter ctx ?flt0 = Inr flt1\<close> Inr d
          unfolding flt_def by (auto split: if_splits option.splits)
        with below False m' Inr d show ?thesis by (intro swept) auto
      qed
    qed
  qed
qed

lemma policy_loop_bounds:
  assumes "policy_loop walk db ctx others cutoff policy f sts removed = (f', n, err)"
    and "0 < PolLimit policy" and "removed \<le> PolLimit policy"
  shows "n \<le> PolLimit policy"
  using assms
proof (induction sts arbitrary: f removed)
  case (Cons st sts)
  from Cons.prems(1) show ?case
  proof (cases rule: policy_loop_step)
    case (swept flt snapshots f1 n1 e1)
    have "n1 \<le> PolLimit policy"
      using delete_runs_limit_bounds [OF swept(4) Cons.prems(2) swept(6) [OF Cons.prems(2)]] by simp
    then show ?thesis using swept(5) Cons.IH Cons.prems(2) by auto
  qed (use Cons in auto)
qed simp

text \<open>What keeps a run from a policy: it is live or of another tenant, in a repository in order.\<close>

definition exempt :: "gctx \<Rightarrow> string \<Rightarrow> fw \<Rightarrow> bool" where
  "exempt ctx k f \<longleftrightarrow> (\<exists>r s. FwRuns f = Some r \<and> repo_inv r \<and> Snapshots r k = Some s \<and> (\<not> isTerminalRunStatus (Status s) \<or> \<not> in_scope ctx s))"

lemma exempt_deleted:
  assumes "exempt ctx k f" and "deleteRunAndHistory db ctx f runID = (f', err)" and "k \<noteq> runID" shows "exempt ctx k f'"
proof -
  from assms(1) obtain r s where r: "FwRuns f = Some r" "repo_inv r" "Snapshots r k = Some s"
    "\<not> isTerminalRunStatus (Status s) \<or> \<not> in_scope ctx s" by (auto simp: exempt_def)
  from deleteRunAndHistory_runs [OF assms(2) r(1)] obtain r' where "FwRuns f' = Some r'"
    "r' = r \<or> Snapshots r' = (Snapshots r)(runID := None)" by blast
  with r assms(3) show ?thesis by (auto simp: exempt_def repo_inv_def split: if_splits)
qed

lemma policy_loop_exempt:
  assumes "policy_loop walk db ctx others cutoff policy f sts removed = (f', n, err)" and "exempt ctx k f"
    and "\<And>st i g. exempt ctx k g \<Longrightarrow> exempt ctx k (others st i g)"
  shows "exempt ctx k f'"
  using assms(1,2)
proof (induction sts arbitrary: f removed)
  case (Cons st sts)
  let ?g = "others st None f"
  have g: "exempt ctx k ?g" using assms(3) Cons.prems(2) by blast
  from Cons.prems(1) show ?case
  proof (cases rule: policy_loop_step)
    case (swept flt snapshots f1 n1 e1)
    from g obtain r s where r: "FwRuns ?g = Some r" "repo_inv r" "Snapshots r k = Some s"
      "\<not> isTerminalRunStatus (Status s) \<or> \<not> in_scope ctx s" by (auto simp: exempt_def)
    have "k \<noteq> RunID t" if "t \<in> set snapshots" for t
    proof
      assume "k = RunID t"
      with Repository_List_member [OF swept(3) that] r have "t = s" unfolding repo_inv_def by fastforce
      with swept(1,2) Repository_List_member [OF swept(3) that] r(4) show False by blast
    qed
    then have "exempt ctx k f1"
      by (intro delete_runs_limit_inv [OF swept(4), where P = "exempt ctx k"]) (use g assms(3) exempt_deleted in auto)
    with swept(5) Cons.IH show ?thesis by blast
  qed (use Cons g in auto)
qed simp

text \<open>
  A retention policy with an age and a limit never deletes more runs than its limit, even when the policy names
  another status, and never a run that stays live, or of another tenant, throughout; whatever else others do to
  the stores meanwhile, and whatever errors it meets.
\<close>

theorem purgeExpiredWithLimit_bounded:
  assumes "0 < PolLimit policy" and "purgeExpiredWithLimit walk payload_tenant db ctx others now f policy = (f', n, err)"
    and "exempt ctx k f" and "\<And>st i g. exempt ctx k g \<Longrightarrow> exempt ctx k (others st i g)"
  shows "n \<le> PolLimit policy \<and> exempt ctx k f'"
proof -
  define sts where "sts = (if PolStatus policy = RunStatusOther [] then terminal_statuses else [PolStatus policy])"
  obtain f1 n1 e1 where l: "policy_loop walk db ctx others (now - PolMaxAge policy) policy f sts 0 = (f1, n1, e1)"
    by (metis prod_cases3)
  have "FwRuns f \<noteq> None" using assms(3) by (auto simp: exempt_def)
  then have res: "n = n1 \<and> FwRuns f' = FwRuns f1"
    using assms(2) l purgeEventSideData_shrinks
    by (auto simp: purgeExpiredWithLimit_def Let_def sts_def [symmetric] split: option.splits prod.splits)
  have "n1 \<le> PolLimit policy" using policy_loop_bounds [OF l] assms(1) by simp
  moreover have "exempt ctx k f1" using policy_loop_exempt [OF l assms(3,4)] by blast
  ultimately show ?thesis using res by (auto simp: exempt_def)
qed

definition sample_policy :: retention_policy where
  "sample_policy = \<lparr>PolMaxAge = 50, PolStatus = RunStatusPaused, PolScenarioName = [], PolLimit = 1\<rparr>"

theorem purgeExpiredWithLimit_bounded_witness:
  "\<exists>f' n err. purgeExpiredWithLimit (\<lambda>_. [''x'', ''y'', ''z'']) (\<lambda>_. None) None tenant_a (\<lambda>_ _ g. g) 100 sample_fw sample_policy
       = (f', n, err) \<and> n \<le> 1 \<and> exempt tenant_a ''y'' f'"
proof -
  obtain f' n err where p: "purgeExpiredWithLimit (\<lambda>_. [''x'', ''y'', ''z'']) (\<lambda>_. None) None tenant_a (\<lambda>_ _ g. g) 100 sample_fw
      sample_policy = (f', n, err)" by (metis prod_cases3)
  have "exempt tenant_a ''y'' sample_fw"
    unfolding exempt_def
    by (intro exI [of _ "the (FwRuns sample_fw)"] exI [of _ "(sample_run ''y'' RunStatusPaused ''a'')\<lparr>UpdatedAt := 5\<rparr>"])
      (use repo_inv_sample_fw in \<open>simp add: sample_fw_def isTerminalRunStatus_def sample_run_def\<close>)
  from purgeExpiredWithLimit_bounded [OF _ p this] p show ?thesis by (simp add: sample_policy_def)
qed

section \<open>Orphan blobs\<close>

text \<open>
  The orphan sweep of a framework looks for references only in the runs of its current scenario, but
  deletes from the whole blob store: a blob that a running run of another scenario references, and no run
  of the current one does, is deleted.
\<close>

theorem orphan_sweep_crosses_scenarios:
  assumes "scenario \<noteq> other" and "scenario \<noteq> []"
    and "Snapshots r = [''q'' \<mapsto> run_with_blob other (sample_digest data)]"
  shows "Framework_PurgeOrphanBlobs unmarshal [''q''] [sample_digest data] Background scenario r r
       [sample_digest data \<mapsto> data] [sample_digest data \<mapsto> data] = (Map.empty, 1, None)"
proof -
  have "\<not> filter_matches (EmptyListFilter\<lparr>FilterScenarioName := scenario\<rparr>) (run_with_blob other (sample_digest data))"
    using assms(1,2) by (simp add: filter_matches_def run_with_blob_def EmptyListFilter_def)
  with assms(3) have l: "Repository_List [''q''] Background r (EmptyListFilter\<lparr>FilterScenarioName := scenario\<rparr>) = Inr []"
    by (simp add: Repository_List_def Background_def)
  have b: "Blobs_List [sample_digest data] Background [sample_digest data \<mapsto> data]
      = Inr [NewBlobRef (sample_digest data) data]"
    using sample_digest_access [of Background data]
    by (cases "tenantIDFromContext Background = [] \<and> \<not> TenantStrictModeFromContext Background")
      (simp_all add: Blobs_List_def FilterBlobRefsForContext_def Background_def [THEN arg_cong, of CtxErr])
  have s: "ScopeListFilter Background (EmptyListFilter\<lparr>FilterScenarioName := scenario\<rparr>)
      = Inr (EmptyListFilter\<lparr>FilterScenarioName := scenario\<rparr>)"
    by (simp add: ScopeListFilter_def PrincipalFromContext_def Background_def EmptyListFilter_def)
  show ?thesis
    unfolding Framework_PurgeOrphanBlobs_def b s
    using l sample_digest_access [of Background data] sample_digest_nonempty [of data]
    by (simp add: PurgeOrphanBlobs_def FilterBlobRefsForTenant_def EmptyListFilter_def
        CollectReferencedBlobIDs_def Blobs_Delete_def Background_def)
      (simp add: NewBlobRef_def fun_eq_iff)
qed

theorem orphan_sweep_crosses_scenarios_witness:
  "Framework_PurgeOrphanBlobs (\<lambda>_. Inl ErrNotFound) [''q''] [sample_digest ''x''] Background ''s''
       \<lparr>Snapshots = [''q'' \<mapsto> run_with_blob ''t'' (sample_digest ''x'')], Fences = Map.empty\<rparr>
       \<lparr>Snapshots = [''q'' \<mapsto> run_with_blob ''t'' (sample_digest ''x'')], Fences = Map.empty\<rparr>
       [sample_digest ''x'' \<mapsto> ''x''] [sample_digest ''x'' \<mapsto> ''x''] = (Map.empty, 1, None)"
  by (rule orphan_sweep_crosses_scenarios) simp_all

end
