(* ===== verification/Config_Validate.thy ===== *)
theory Config_Validate
  imports Workflow_Graph
begin

text \<open>
  Validation of a scenario: \<^verbatim>\<open>internal/adapter/config/yaml/validate.go\<close> with the supported values of
  \<^verbatim>\<open>schema.go\<close>. The JSON decoders of the node inputs are the fields of \<open>decoders\<close>; of a loop
  validation decodes the field \<^verbatim>\<open>body\<close> only, not what the runner decodes.

  \<^verbatim>\<open>validateWorkflow\<close> and \<^verbatim>\<open>validateWorkflowNode\<close> call each other through subgraph nodes without a bound, so
  the model takes fuel for the nesting and says so when it is used up; the nil dereference of
  \<^verbatim>\<open>validateLoopNode\<close> is a verdict of its own. The depth-first search for cycles keeps the nodes of its call
  stack in a list instead of setting and resetting a map entry.

  The search is shown to accept exactly the acyclic workflows, and validation of a workflow to accept
  exactly the well-formed ones.
\<close>

section \<open>Decoded inputs\<close>

record group_spec =
  GroupRefs :: "string list"
  GroupTools :: "string list"
  GroupOnError :: string

record map_spec =
  MapItemsPath :: string
  MapBranchKind :: node_kind
  MapBranchRef :: string
  MapOnError :: string

record decoders =
  DecodeBody :: "bytes \<Rightarrow> go_error + string list"
  DecodeGroup :: "bytes \<Rightarrow> go_error + group_spec"
  DecodeMap :: "bytes \<Rightarrow> go_error + map_spec"

datatype verdict = Verdict "go_error option" | NilDeref | OutOfFuel

section \<open>Helpers\<close>

definition containsString :: "string list \<Rightarrow> string \<Rightarrow> bool" where
  "containsString values v = list_ex (\<lambda>c. c = v) values"

definition supportedMemoryTypes :: "string list" where
  "supportedMemoryTypes = [''in_memory'', ''file'', ''custom'']"

definition supportedMemoryScopes :: "string list" where
  "supportedMemoryScopes = [''conversation'', ''session'', ''long_term'', ''audit'']"

definition supportedApprovalPolicies :: "string list" where
  "supportedApprovalPolicies = map approval_text [ApprovalNever, ApprovalRisky, ApprovalAlways, ApprovalPause]"

definition supportedSideEffects :: "string list" where
  "supportedSideEffects =
     map side_effect_text [SideEffectNone, SideEffectRead, SideEffectWrite, SideEffectExternal, SideEffectDangerous]"

definition supportedWorkflowNodeKinds :: "string list" where
  "supportedWorkflowNodeKinds = map node_kind_text [NodeAgent, NodeTool, NodeSkill, NodeHumanGate, NodeTransform,
     NodeParallelGroup, NodeLoop, NodeQueryRouter, NodeRAGGrade, NodeSupervisor, NodeSubgraph, NodeMap]"

fun duplicate_loop :: "string list \<Rightarrow> string list \<Rightarrow> string" where
  "duplicate_loop [] seen = []"
| "duplicate_loop (v # vs) seen = (if v \<in> set seen then v else duplicate_loop vs (v # seen))"

definition duplicateStrings :: "string list \<Rightarrow> string" where
  "duplicateStrings values = duplicate_loop values []"

text \<open>
  \<^verbatim>\<open>strings.EqualFold\<close> with an ASCII second argument: letters without regard to case, and the two other
  runes that fold to ASCII letters, the long s and the Kelvin sign.
\<close>

definition fold_rune :: "rune \<Rightarrow> rune" where
  "fold_rune r = (if 65 \<le> r \<and> r \<le> 90 then r + 32 else if r = 383 then 115 else if r = 8490 then 107 else r)"

definition equal_fold :: "string \<Rightarrow> string \<Rightarrow> bool" where
  "equal_fold s t \<longleftrightarrow> map fold_rune (runes s) = map fold_rune (runes t)"

definition valid_on_error :: "string \<Rightarrow> bool" where
  "valid_on_error onError \<longleftrightarrow> onError = [] \<or> equal_fold onError ''fail_fast'' \<or> equal_fold onError ''collect_errors''"

definition refers :: "(string \<times> 'a) list \<Rightarrow> string \<Rightarrow> bool" where
  "refers m k \<longleftrightarrow> map_of m k \<noteq> None"

text \<open>The first error of a loop over a list, or none.\<close>

fun first_error :: "('a \<Rightarrow> go_error option) \<Rightarrow> 'a list \<Rightarrow> go_error option" where
  "first_error f [] = None"
| "first_error f (x # xs) = (case f x of Some e \<Rightarrow> Some e | None \<Rightarrow> first_error f xs)"

definition guard :: "bool \<Rightarrow> go_error \<Rightarrow> go_error option" where
  "guard bad e = (if bad then Some e else None)"

fun first_of :: "go_error option list \<Rightarrow> go_error option" where
  "first_of [] = None"
| "first_of (Some e # xs) = Some e"
| "first_of (None # xs) = first_of xs"

lemma first_error_None [simp]: "first_error f xs = None \<longleftrightarrow> (\<forall>x \<in> set xs. f x = None)"
  by (induction xs) (auto split: option.splits)

lemma first_of_None [simp]: "first_of xs = None \<longleftrightarrow> (\<forall>x \<in> set xs. x = None)"
  by (induction xs rule: first_of.induct) auto

lemma guard_None [simp]: "guard bad e = None \<longleftrightarrow> \<not> bad"
  by (simp add: guard_def)

section \<open>Node inputs\<close>

definition validateMapNode :: "decoders \<Rightarrow> workflow_node \<Rightarrow> scenario \<Rightarrow> go_error option" where
  "validateMapNode dec node s =
     (if NodeInput node = [] then Some (Errorf ''config: workflow node %q map input is required'' [NodeID node] None)
      else (case DecodeMap dec (NodeInput node) of
        Inl _ \<Rightarrow> Some (Errorf ''config: workflow node %q map input is invalid JSON'' [NodeID node] None)
      | Inr spec \<Rightarrow> first_of [
          guard (trim_space (MapItemsPath spec) = []) (Errorf ''config: workflow node %q map requires items_path'' [NodeID node] None),
          guard (MapBranchKind spec = NodeKindOther []) (Errorf ''config: workflow node %q map requires branch.kind'' [NodeID node] None),
          guard (MapBranchKind spec \<notin> {NodeAgent, NodeTool, NodeTransform})
            (Errorf ''config: workflow node %q map branch kind %q is unsupported'' [NodeID node, node_kind_text (MapBranchKind spec)] None),
          guard (MapBranchKind spec \<noteq> NodeTransform \<and> MapBranchRef spec = [])
            (Errorf ''config: workflow node %q map branch ref is required'' [NodeID node] None),
          guard (\<not> valid_on_error (MapOnError spec))
            (Errorf ''config: workflow node %q map on_error %q is unsupported'' [NodeID node, MapOnError spec] None),
          guard (MapBranchKind spec = NodeAgent \<and> \<not> refers (Agents s) (MapBranchRef spec))
            (Errorf ''config: workflow node %q references unknown agent %q'' [NodeID node, MapBranchRef spec] None),
          guard (MapBranchKind spec = NodeTool \<and> \<not> refers (Tools s) (MapBranchRef spec))
            (Errorf ''config: workflow node %q references unknown tool %q'' [NodeID node, MapBranchRef spec] None)]))"

definition validateParallelGroupNode :: "decoders \<Rightarrow> workflow_node \<Rightarrow> scenario \<Rightarrow> go_error option" where
  "validateParallelGroupNode dec node s =
     (case (if NodeInput node = [] then Inr \<lparr>GroupRefs = [], GroupTools = [], GroupOnError = []\<rparr>
            else DecodeGroup dec (NodeInput node)) of
        Inl _ \<Rightarrow> Some (Errorf ''config: workflow node %q parallel_group input is invalid JSON'' [NodeID node] None)
      | Inr spec \<Rightarrow>
          (let refs = (if GroupRefs spec = [] \<and> NodeRef node \<noteq> [] then [NodeRef node] else GroupRefs spec) in
           first_of [
             guard (\<not> valid_on_error (GroupOnError spec))
               (Errorf ''config: workflow node %q parallel_group on_error %q is unsupported'' [NodeID node, GroupOnError spec] None),
             guard (refs = [] \<and> GroupTools spec = [])
               (Errorf ''config: workflow node %q parallel_group requires refs or tools'' [NodeID node] None),
             guard (duplicateStrings refs \<noteq> [])
               (Errorf ''config: workflow node %q parallel_group refs contains duplicate %q'' [NodeID node, duplicateStrings refs] None),
             guard (duplicateStrings (GroupTools spec) \<noteq> [])
               (Errorf ''config: workflow node %q parallel_group tools contains duplicate %q''
                  [NodeID node, duplicateStrings (GroupTools spec)] None),
             first_error (\<lambda>ref. guard (\<not> refers (Agents s) ref)
               (Errorf ''config: workflow node %q references unknown agent %q'' [NodeID node, ref] None)) refs,
             first_error (\<lambda>ref. guard (\<not> refers (Tools s) ref)
               (Errorf ''config: workflow node %q references unknown tool %q'' [NodeID node, ref] None)) (GroupTools spec)]))"

text \<open>The ids a loop body may name are those of the scenario's main workflow, which may be missing.\<close>

definition validateLoopNode :: "decoders \<Rightarrow> workflow_node \<Rightarrow> scenario \<Rightarrow> verdict" where
  "validateLoopNode dec node s =
     (if NodeInput node = [] then Verdict (Some (Errorf ''config: workflow node %q loop input is required'' [NodeID node] None))
      else (case DecodeBody dec (NodeInput node) of
        Inl _ \<Rightarrow> Verdict (Some (Errorf ''config: workflow node %q loop input is invalid JSON'' [NodeID node] None))
      | Inr body \<Rightarrow>
          if body = [] then Verdict (Some (Errorf ''config: workflow node %q loop requires body node ids'' [NodeID node] None))
          else (case MainWorkflow (Orch s) of
              None \<Rightarrow> NilDeref
            | Some w \<Rightarrow> Verdict (first_error (\<lambda>i. guard (i \<notin> NodeID ` set (Nodes w))
                 (Errorf ''config: workflow node %q loop references unknown body node %q'' [NodeID node, i] None)) body))))"

section \<open>Nodes\<close>

text \<open>\<open>sub\<close> is \<^verbatim>\<open>validateWorkflow\<close> for the workflow a subgraph node refers to.\<close>

definition validateWorkflowNode :: "decoders \<Rightarrow> (workflow \<Rightarrow> verdict) \<Rightarrow> workflow_node \<Rightarrow> scenario \<Rightarrow> verdict" where
  "validateWorkflowNode dec sub node s =
     (if \<not> containsString supportedWorkflowNodeKinds (node_kind_text (NodeKind node))
      then Verdict (Some (Errorf ''config: workflow node %q kind %q is unsupported'' [NodeID node, node_kind_text (NodeKind node)] None))
      else (case NodeKind node of
        NodeTool \<Rightarrow> Verdict (first_of [
          guard (NodeRef node = []) (Errorf ''config: workflow node %q tool ref is required'' [NodeID node] None),
          guard (\<not> refers (Tools s) (NodeRef node))
            (Errorf ''config: workflow node %q references unknown tool %q'' [NodeID node, NodeRef node] None)])
      | NodeAgent \<Rightarrow> Verdict (first_of [
          guard (NodeRef node = []) (Errorf ''config: workflow node %q agent ref is required'' [NodeID node] None),
          guard (\<not> refers (Agents s) (NodeRef node))
            (Errorf ''config: workflow node %q references unknown agent %q'' [NodeID node, NodeRef node] None)])
      | NodeSkill \<Rightarrow> Verdict (first_of [
          guard (NodeRef node = []) (Errorf ''config: workflow node %q skill ref is required'' [NodeID node] None),
          guard (\<not> refers (Skills s) (NodeRef node))
            (Errorf ''config: workflow node %q references unknown skill %q'' [NodeID node, NodeRef node] None)])
      | NodeParallelGroup \<Rightarrow> Verdict (validateParallelGroupNode dec node s)
      | NodeLoop \<Rightarrow> validateLoopNode dec node s
      | NodeSupervisor \<Rightarrow> Verdict (guard (NodeRef node = [] \<and> NodeInput node = [])
          (Errorf ''config: workflow node %q supervisor requires ref or input.refs'' [NodeID node] None))
      | NodeSubgraph \<Rightarrow>
          if NodeRef node = [] then Verdict (Some (Errorf ''config: workflow node %q subgraph ref is required'' [NodeID node] None))
          else (case map_of (Workflows (Orch s)) (NodeRef node) of
                  None \<Rightarrow> Verdict (Some (Errorf ''config: workflow node %q references unknown subgraph %q'' [NodeID node, NodeRef node] None))
                | Some w \<Rightarrow> sub w)
      | NodeMap \<Rightarrow> Verdict (validateMapNode dec node s)
      | _ \<Rightarrow> Verdict None))"

text \<open>The first loop over the nodes; \<open>seen\<close> are the keys of the map it fills.\<close>

fun validate_nodes :: "decoders \<Rightarrow> (workflow \<Rightarrow> verdict) \<Rightarrow> scenario \<Rightarrow> workflow_node list \<Rightarrow> string list \<Rightarrow> verdict" where
  "validate_nodes dec sub s [] seen = Verdict None"
| "validate_nodes dec sub s (n # ns) seen =
     (if NodeID n = [] then Verdict (Some (Errorf ''config: workflow node id is required'' [] None))
      else if NodeID n \<in> set seen then Verdict (Some (Errorf ''config: duplicate workflow node %q'' [NodeID n] None))
      else (case validateWorkflowNode dec sub n s of
              Verdict None \<Rightarrow> validate_nodes dec sub s ns (NodeID n # seen)
            | v \<Rightarrow> v))"

section \<open>Cycles\<close>

definition append_to :: "string \<Rightarrow> string \<Rightarrow> (string \<times> string list) list \<Rightarrow> (string \<times> string list) list" where
  "append_to k x m = AList.update k (set_of m k @ [x]) m"

definition adjacency :: "workflow \<Rightarrow> (string \<times> string list) list" where
  "adjacency w =
     fold (\<lambda>n m. fold (\<lambda>dep. append_to dep (NodeID n)) (DependsOn n) m) (Nodes w)
       (fold (\<lambda>e. append_to (EdgeFrom e) (EdgeTo e)) (Edges w) [])"

definition cycle_error :: "string \<Rightarrow> go_error" where
  "cycle_error i = Errorf ''config: workflow contains cycle at %q'' [i] None"

lemma set_of_key: "set_of m k \<noteq> [] \<Longrightarrow> k \<in> fst ` set m"
  by (auto simp: set_of_def dest: map_of_SomeD split: option.splits) (metis map_of_SomeD fst_conv image_iff option.exhaust)

text \<open>\<^verbatim>\<open>visit\<close>: \<open>visiting\<close> is the call stack; the result is \<^verbatim>\<open>visited\<close> or the error.\<close>

function (sequential) dfs_visit ::
  "(string \<times> string list) list \<Rightarrow> string list \<Rightarrow> string list \<Rightarrow> string \<Rightarrow> go_error + string list"
and dfs_list :: "(string \<times> string list) list \<Rightarrow> string list \<Rightarrow> string list \<Rightarrow> string list \<Rightarrow> go_error + string list" where
  "dfs_visit adj visiting visited i =
     (if i \<in> set visiting then Inl (cycle_error i)
      else if i \<in> set visited then Inr visited
      else (case dfs_list adj (i # visiting) visited (set_of adj i) of
              Inl e \<Rightarrow> Inl e
            | Inr visited' \<Rightarrow> Inr (i # visited')))"
| "dfs_list adj visiting visited [] = Inr visited"
| "dfs_list adj visiting visited (i # ids) =
     (case dfs_visit adj visiting visited i of
        Inl e \<Rightarrow> Inl e
      | Inr visited' \<Rightarrow> dfs_list adj visiting visited' ids)"
  by pat_completeness auto

termination
proof (relation "inv_image (less_than <*lex*> less_than) (\<lambda>arg. case arg of
    Inl (adj, visiting, visited, i) \<Rightarrow> (card (fst ` set adj - set visiting), 1)
  | Inr (adj, visiting, visited, ids) \<Rightarrow> (card (fst ` set adj - set visiting), 2 * length ids))", goal_cases)
  case (2 adj visiting visited i)
  show ?case
  proof (cases "set_of adj i = []")
    case True
    have "card (fst ` set adj - insert i (set visiting)) \<le> card (fst ` set adj - set visiting)"
      by (rule card_mono) auto
    with True show ?thesis by auto
  next
    case False
    then have "fst ` set adj - set (i # visiting) \<subset> fst ` set adj - set visiting"
      using 2(1) set_of_key [of adj i] by auto
    then show ?thesis by (simp add: psubset_card_mono)
  qed
qed (auto intro: wf_inv_image wf_lex_prod)

declare dfs_visit.simps [simp del]

section \<open>Workflows\<close>

text \<open>\<open>walk\<close> gives the order in which the search starts from the nodes of a workflow.\<close>

fun validateWorkflow :: "decoders \<Rightarrow> (workflow \<Rightarrow> string list) \<Rightarrow> nat \<Rightarrow> workflow \<Rightarrow> scenario \<Rightarrow> verdict" where
  "validateWorkflow dec walk 0 w s = OutOfFuel"
| "validateWorkflow dec walk (Suc fuel) w s =
     (case validate_nodes dec (\<lambda>w'. validateWorkflow dec walk fuel w' s) s (Nodes w) [] of
        Verdict None \<Rightarrow>
          (let known = (\<lambda>i. i \<in> NodeID ` set (Nodes w)) in
           Verdict (first_of [
             first_error (\<lambda>n. first_error (\<lambda>dep. guard (\<not> known dep)
               (Errorf ''config: workflow node %q depends_on unknown node %q'' [NodeID n, dep] None)) (DependsOn n)) (Nodes w),
             first_error (\<lambda>e. first_of [
               guard (\<not> known (EdgeFrom e)) (Errorf ''config: workflow edge references unknown from node %q'' [EdgeFrom e] None),
               guard (\<not> known (EdgeTo e)) (Errorf ''config: workflow edge references unknown to node %q'' [EdgeTo e] None)]) (Edges w),
             (case dfs_list (adjacency w) [] [] (walk w) of Inl e \<Rightarrow> Some e | Inr _ \<Rightarrow> None)]))
      | v \<Rightarrow> v)"

section \<open>Scenarios\<close>

fun trigger_loop :: "scenario \<Rightarrow> trigger list \<Rightarrow> nat \<Rightarrow> string list \<Rightarrow> go_error option" where
  "trigger_loop s [] index seen = None"
| "trigger_loop s (t # ts) index seen =
     (if trim_space (TriggerEvent t) = [] then Some (Errorf ''config: triggers[%d].event is required'' [nat_text index] None)
      else if TriggerEvent t \<in> set seen then Some (Errorf ''config: duplicate trigger event %q'' [TriggerEvent t] None)
      else if TriggerAgent t \<noteq> [] \<and> \<not> refers (Agents s) (TriggerAgent t)
           then Some (Errorf ''config: triggers[%d].agent references unknown agent %q'' [nat_text index, TriggerAgent t] None)
      else trigger_loop s ts (index + 1) (TriggerEvent t # seen))"

definition validateTriggers :: "scenario \<Rightarrow> go_error option" where
  "validateTriggers s = trigger_loop s (Triggers s) 0 []"

fun and_then :: "verdict \<Rightarrow> verdict \<Rightarrow> verdict" where
  "and_then (Verdict None) v = v"
| "and_then v _ = v"

fun first_verdict :: "('a \<Rightarrow> verdict) \<Rightarrow> 'a list \<Rightarrow> verdict" where
  "first_verdict f [] = Verdict None"
| "first_verdict f (x # xs) = and_then (f x) (first_verdict f xs)"

fun wrap_verdict :: "string \<Rightarrow> string list \<Rightarrow> verdict \<Rightarrow> verdict" where
  "wrap_verdict f args (Verdict (Some e)) = Verdict (Some (Errorf f args (Some e)))"
| "wrap_verdict f args v = v"

definition validate_memory :: "string \<times> memory_ref \<Rightarrow> go_error option" where
  "validate_memory = (\<lambda>(name, mem). first_of [
     guard (MemoryType mem = []) (Errorf ''config: memories.%s.type is required'' [name] None),
     guard (\<not> containsString supportedMemoryTypes (MemoryType mem))
       (Errorf ''config: memories.%s.type %q is unsupported'' [name, MemoryType mem] None),
     guard (MemoryScope mem = []) (Errorf ''config: memories.%s.scope is required'' [name] None),
     guard (\<not> containsString supportedMemoryScopes (MemoryScope mem))
       (Errorf ''config: memories.%s.scope %q is unsupported'' [name, MemoryScope mem] None),
     guard ((MemoryScope mem = ''session'' \<or> MemoryScope mem = ''long_term'') \<and> trim_space (MemoryNamespace mem) = [])
       (Errorf ''config: memories.%s.namespace is required for scope %q'' [name, MemoryScope mem] None),
     (case MemoryTiers mem of
        None \<Rightarrow> None
      | Some t \<Rightarrow> if \<not> TiersEnabled t then None else first_of [
          guard (MemoryType mem \<noteq> ''custom'' \<and> MemoryType mem \<noteq> ''in_memory'')
            (Errorf ''config: memories.%s.tiers.enabled requires type custom or in_memory'' [name] None),
          guard (HotCapacity t < 0 \<or> WarmCapacity t < 0 \<or> ColdCapacity t < 0)
            (Errorf ''config: memories.%s.tiers capacities must be >= 0'' [name] None),
          guard (PromoteAccess t < 0) (Errorf ''config: memories.%s.tiers.promote_access must be >= 0'' [name] None),
          guard (BudgetTotal t < 0 \<or> BudgetHot t < 0 \<or> BudgetWarm t < 0 \<or> BudgetCold t < 0)
            (Errorf ''config: memories.%s.tiers.recall_budget values must be >= 0'' [name] None)])])"

definition validate_tool :: "scenario \<Rightarrow> string \<times> tool \<Rightarrow> go_error option" where
  "validate_tool s = (\<lambda>(name, t). first_of [
     guard (ToolType t = []) (Errorf ''config: tools.%s.type is required'' [name] None),
     guard (approval_text (ToolApproval t) \<noteq> [] \<and> \<not> containsString supportedApprovalPolicies (approval_text (ToolApproval t)))
       (Errorf ''config: tools.%s.approval %q is unsupported'' [name, approval_text (ToolApproval t)] None),
     guard (side_effect_text (ToolSideEffect t) \<noteq> [] \<and> \<not> containsString supportedSideEffects (side_effect_text (ToolSideEffect t)))
       (Errorf ''config: tools.%s.side_effect %q is unsupported'' [name, side_effect_text (ToolSideEffect t)] None),
     guard (ToolRateCap t < 0) (Errorf ''config: tools.%s.rate_cap must be >= 0'' [name] None),
     guard (ToolLLM t \<noteq> [] \<and> \<not> refers (LLMs s) (ToolLLM t))
       (Errorf ''config: tools.%s.llm references unknown llm %q'' [name, ToolLLM t] None)])"

definition validate_skill_policy :: "scenario \<Rightarrow> string \<Rightarrow> skill_tool_policy \<Rightarrow> go_error option" where
  "validate_skill_policy s name p = first_of [
     guard (PolicyTool p = []) (Errorf ''config: skills.%s.tool_policies tool is required'' [name] None),
     guard (\<not> refers (Tools s) (PolicyTool p))
       (Errorf ''config: skills.%s.tool_policies references unknown tool %q'' [name, PolicyTool p] None),
     guard (approval_text (PolicyApproval p) \<noteq> [] \<and> \<not> containsString supportedApprovalPolicies (approval_text (PolicyApproval p)))
       (Errorf ''config: skills.%s.tool_policies approval %q is unsupported'' [name, approval_text (PolicyApproval p)] None),
     guard (side_effect_text (PolicySideEffect p) \<noteq> []
            \<and> \<not> containsString supportedSideEffects (side_effect_text (PolicySideEffect p)))
       (Errorf ''config: skills.%s.tool_policies side_effect %q is unsupported'' [name, side_effect_text (PolicySideEffect p)] None),
     guard (PolicyRateCap p < 0) (Errorf ''config: skills.%s.tool_policies rate_cap must be >= 0'' [name] None)]"

definition validate_skill ::
  "decoders \<Rightarrow> (workflow \<Rightarrow> string list) \<Rightarrow> nat \<Rightarrow> scenario \<Rightarrow> string \<times> skill \<Rightarrow> verdict" where
  "validate_skill dec walk fuel s = (\<lambda>(name, sk).
     and_then (Verdict (first_of [
       first_error (\<lambda>agent. guard (\<not> refers (Agents s) agent)
         (Errorf ''config: skills.%s.compatible_agents references unknown agent %q'' [name, agent] None)) (CompatibleAgents sk),
       first_error (validate_skill_policy s name) (ToolPolicies sk)]))
     (case SkillWorkflow sk of
        None \<Rightarrow> Verdict None
      | Some w \<Rightarrow> wrap_verdict ''config: skills.%s.workflow: %w'' [name] (validateWorkflow dec walk fuel w s)))"

definition validate_agent :: "scenario \<Rightarrow> string \<times> agent \<Rightarrow> go_error option" where
  "validate_agent s = (\<lambda>(name, a). first_of [
     guard (AgentLLM a \<noteq> [] \<and> \<not> refers (LLMs s) (AgentLLM a))
       (Errorf ''config: agents.%s.llm references unknown llm %q'' [name, AgentLLM a] None),
     guard (AgentMemory a \<noteq> [] \<and> \<not> refers (Memories s) (AgentMemory a))
       (Errorf ''config: agents.%s.memory references unknown memory %q'' [name, AgentMemory a] None),
     first_error (\<lambda>t. guard (\<not> refers (Tools s) t)
       (Errorf ''config: agents.%s.tools references unknown tool %q'' [name, t] None)) (AgentTools a),
     first_error (\<lambda>k. case map_of (Skills s) k of
         None \<Rightarrow> Some (Errorf ''config: agents.%s.skills references unknown skill %q'' [name, k] None)
       | Some sk \<Rightarrow> guard (CompatibleAgents sk \<noteq> [] \<and> \<not> containsString (CompatibleAgents sk) name)
           (Errorf ''config: agents.%s.skills references incompatible skill %q'' [name, k] None)) (AgentSkills a)])"

definition validateOrchestrationWorkflows ::
  "decoders \<Rightarrow> (workflow \<Rightarrow> string list) \<Rightarrow> nat \<Rightarrow> scenario \<Rightarrow> verdict" where
  "validateOrchestrationWorkflows dec walk fuel s =
     and_then (first_verdict (\<lambda>(name, w). wrap_verdict ''config: orchestration.workflows.%s: %w'' [name]
                  (validateWorkflow dec walk fuel w s)) (Workflows (Orch s)))
       (case MainWorkflow (Orch s) of None \<Rightarrow> Verdict None | Some w \<Rightarrow> validateWorkflow dec walk fuel w s)"

definition Validate :: "decoders \<Rightarrow> (workflow \<Rightarrow> string list) \<Rightarrow> nat \<Rightarrow> scenario \<Rightarrow> verdict" where
  "Validate dec walk fuel s =
     and_then (Verdict (first_of [
       guard (ScName s = []) (Errorf ''config: scenario.name is required'' [] None),
       guard (Agents s = []) (Errorf ''config: at least one agent is required'' [] None),
       first_error (\<lambda>(name, p). first_of [
         guard (ProfileProvider p = []) (Errorf ''config: llms.%s.provider is required'' [name] None),
         guard (ProfileModel p = []) (Errorf ''config: llms.%s.model is required'' [name] None)]) (LLMs s),
       first_error validate_memory (Memories s),
       first_error (validate_tool s) (Tools s)]))
    (and_then (first_verdict (validate_skill dec walk fuel s) (Skills s))
    (and_then (Verdict (first_of [
       first_error (validate_agent s) (Agents s),
       guard (PlanningMaxSteps (Orch s) < 0) (Errorf ''config: orchestration.planning.max_steps must be >= 0'' [] None),
       guard (PlanningAgent (Orch s) \<noteq> [] \<and> \<not> refers (Agents s) (PlanningAgent (Orch s)))
         (Errorf ''config: orchestration.planning.agent references unknown agent %q'' [PlanningAgent (Orch s)] None),
       validateTriggers s]))
      (let some_workflow = (MainWorkflow (Orch s) \<noteq> None \<or> Workflows (Orch s) \<noteq> []) in
       if Mode (Orch s) \<in> {OrchestrationOther [], OrchestrationAutonomous, OrchestrationHybrid} then
         (if some_workflow then validateOrchestrationWorkflows dec walk fuel s else Verdict None)
       else if Mode (Orch s) = OrchestrationFixedWorkflow then
         (if MainWorkflow (Orch s) = None
          then Verdict (Some (Errorf ''config: fixed_workflow requires orchestration.workflow'' [] None))
          else validateOrchestrationWorkflows dec walk fuel s)
       else Verdict (Some (Errorf ''config: unsupported orchestration.mode %q'' [mode_text (Mode (Orch s))] None)))))"

lemma and_then_ok [simp]: "and_then v v' = Verdict None \<longleftrightarrow> v = Verdict None \<and> v' = Verdict None"
  by (cases "(v, v')" rule: and_then.cases) auto

lemma first_verdict_ok [simp]: "first_verdict f xs = Verdict None \<longleftrightarrow> (\<forall>x \<in> set xs. f x = Verdict None)"
  by (induction xs) auto

lemma wrap_verdict_ok [simp]: "wrap_verdict f args v = Verdict None \<longleftrightarrow> v = Verdict None"
  by (cases "(f, args, v)" rule: wrap_verdict.cases) auto

text \<open>An accepted scenario has accepted workflows.\<close>

lemma Validate_workflows:
  assumes "Validate dec walk fuel s = Verdict None"
  shows "(\<forall>w. MainWorkflow (Orch s) = Some w \<longrightarrow> validateWorkflow dec walk fuel w s = Verdict None)
     \<and> (\<forall>(name, w) \<in> set (Workflows (Orch s)). validateWorkflow dec walk fuel w s = Verdict None)"
  using assms unfolding Validate_def and_then_ok validateOrchestrationWorkflows_def Let_def
  by (auto split: if_splits)

section \<open>The search is exact\<close>

definition adj_rel :: "(string \<times> string list) list \<Rightarrow> (string \<times> string) set" where
  "adj_rel adj = {(x, y). y \<in> set (set_of adj x)}"

text \<open>A list in which every node comes before all its successors.\<close>

fun topo :: "(string \<times> string list) list \<Rightarrow> string list \<Rightarrow> bool" where
  "topo adj [] = True"
| "topo adj (x # xs) = (set (set_of adj x) \<subseteq> set xs \<and> topo adj xs)"

lemma topo_acyclic:
  assumes "topo adj xs" shows "x \<in> set xs \<Longrightarrow> (x, y) \<in> (adj_rel adj)\<^sup>+ \<Longrightarrow> y \<in> set xs"
    and "x \<in> set xs \<Longrightarrow> (x, x) \<notin> (adj_rel adj)\<^sup>+"
proof -
  have closed: "topo adj ys \<Longrightarrow> z \<in> set ys \<Longrightarrow> (z, y) \<in> (adj_rel adj)\<^sup>+ \<Longrightarrow> y \<in> set ys" for ys z y
  proof -
    assume t: "topo adj ys" and z: "z \<in> set ys" and p: "(z, y) \<in> (adj_rel adj)\<^sup>+"
    have step: "(a, b) \<in> adj_rel adj \<Longrightarrow> a \<in> set ys \<Longrightarrow> b \<in> set ys" for a b
      using t by (induction ys) (auto simp: adj_rel_def)
    from p z show "y \<in> set ys" by (induction rule: trancl_induct) (auto intro: step)
  qed
  show "x \<in> set xs \<Longrightarrow> (x, y) \<in> (adj_rel adj)\<^sup>+ \<Longrightarrow> y \<in> set xs" using closed [OF assms] .
  show "x \<in> set xs \<Longrightarrow> (x, x) \<notin> (adj_rel adj)\<^sup>+"
    using assms
  proof (induction xs)
    case (Cons a xs)
    show ?case
    proof
      assume c: "(x, x) \<in> (adj_rel adj)\<^sup>+"
      then obtain b where b: "(x, b) \<in> adj_rel adj" "(b, x) \<in> (adj_rel adj)\<^sup>*" by (meson tranclD)
      show False
      proof (cases "x \<in> set xs")
        case True
        with Cons c show False by auto
      next
        case False
        with Cons.prems have "x = a" by simp
        with b(1) Cons.prems(2) have "b \<in> set xs" by (auto simp: adj_rel_def)
        with False b(2) closed [of xs b x] Cons.prems(2) show False by (auto simp: rtrancl_eq_or_trancl)
      qed
    qed
  qed simp
qed

lemma dfs_sound:
  "dfs_visit adj visiting visited i = Inr visited' \<Longrightarrow> topo adj visited \<Longrightarrow>
     topo adj visited' \<and> i \<in> set visited' \<and> set visited \<subseteq> set visited'"
  "dfs_list adj visiting visited ids = Inr visited' \<Longrightarrow> topo adj visited \<Longrightarrow>
     topo adj visited' \<and> set ids \<subseteq> set visited' \<and> set visited \<subseteq> set visited'"
proof (induction adj visiting visited i and adj visiting visited ids arbitrary: visited' and visited' rule: dfs_visit_dfs_list.induct)
  case (1 adj visiting visited i)
  then show ?case by (auto simp: dfs_visit.simps [of adj visiting visited i] split: if_splits sum.splits)
next
  case (3 adj visiting visited i ids)
  then show ?case by (fastforce split: sum.splits)
qed auto

lemma dfs_complete:
  "dfs_visit adj visiting visited i = Inl e \<Longrightarrow> (\<And>x. x \<in> set visiting \<Longrightarrow> (x, i) \<in> (adj_rel adj)\<^sup>+) \<Longrightarrow>
     \<exists>x. (x, x) \<in> (adj_rel adj)\<^sup>+"
  "dfs_list adj visiting visited ids = Inl e \<Longrightarrow> (\<And>x i. x \<in> set visiting \<Longrightarrow> i \<in> set ids \<Longrightarrow> (x, i) \<in> (adj_rel adj)\<^sup>+) \<Longrightarrow>
     \<exists>x. (x, x) \<in> (adj_rel adj)\<^sup>+"
proof (induction adj visiting visited i and adj visiting visited ids arbitrary: e and e rule: dfs_visit_dfs_list.induct)
  case (1 adj visiting visited i)
  show ?case
  proof (cases "i \<in> set visiting")
    case True
    with 1(3) show ?thesis by blast
  next
    case False
    with 1(2) have "i \<notin> set visited" "dfs_list adj (i # visiting) visited (set_of adj i) = Inl e"
      by (auto simp: dfs_visit.simps [of adj visiting visited i] split: if_splits sum.splits)
    moreover have "(x, j) \<in> (adj_rel adj)\<^sup>+" if "x \<in> set (i # visiting)" and "j \<in> set (set_of adj i)" for x j
    proof -
      have ij: "(i, j) \<in> adj_rel adj" using that(2) by (simp add: adj_rel_def)
      show ?thesis
      proof (cases "x = i")
        case True
        with ij show ?thesis by blast
      next
        case False
        with that(1) 1(3) have "(x, i) \<in> (adj_rel adj)\<^sup>+" by simp
        from this ij show ?thesis by (rule trancl_into_trancl)
      qed
    qed
    ultimately show ?thesis using 1(1) [OF False] by blast
  qed
next
  case (3 adj visiting visited i ids)
  show ?case
  proof (cases "dfs_visit adj visiting visited i")
    case (Inl a)
    with 3(1) 3(4) show ?thesis by simp
  next
    case (Inr b)
    with 3(3) have "dfs_list adj visiting b ids = Inl e" by simp
    from 3(2) [OF Inr this] 3(4) show ?thesis by simp
  qed
qed auto

lemma dfs_acyclic:
  assumes "\<And>x. set_of adj x \<noteq> [] \<Longrightarrow> x \<in> set ids"
  shows "(\<exists>visited. dfs_list adj [] [] ids = Inr visited) \<longleftrightarrow> acyclic (adj_rel adj)"
proof
  assume "\<exists>visited. dfs_list adj [] [] ids = Inr visited"
  then obtain visited where v: "dfs_list adj [] [] ids = Inr visited" by blast
  have t: "topo adj visited" "set ids \<subseteq> set visited" using dfs_sound(2) [OF v] by auto
  have "x \<in> set visited" if "(x, x) \<in> (adj_rel adj)\<^sup>+" for x
  proof -
    from that obtain y where "(x, y) \<in> adj_rel adj" by (meson tranclD)
    then have "set_of adj x \<noteq> []" by (auto simp: adj_rel_def)
    with assms t(2) show ?thesis by blast
  qed
  with topo_acyclic(2) [OF t(1)] show "acyclic (adj_rel adj)" unfolding acyclic_def by blast
next
  assume "acyclic (adj_rel adj)"
  then show "\<exists>visited. dfs_list adj [] [] ids = Inr visited"
    using dfs_complete(2) [of adj "[]" "[]" ids] unfolding acyclic_def
    by (cases "dfs_list adj [] [] ids") auto
qed

lemma set_of_append_to: "set (set_of (append_to k x m) k') = (if k = k' then insert x (set (set_of m k)) else set (set_of m k'))"
  by (auto simp: append_to_def set_of_update)

lemma adjacency_edges:
  "set (set_of (fold (\<lambda>e. append_to (EdgeFrom e) (EdgeTo e)) es m) x) = set (set_of m x) \<union> {EdgeTo e |e. e \<in> set es \<and> EdgeFrom e = x}"
  by (induction es arbitrary: m) (auto simp: set_of_append_to split: if_splits)

lemma adjacency_deps:
  "set (set_of (fold (\<lambda>dep. append_to dep i) ds m) x) = set (set_of m x) \<union> (if x \<in> set ds then {i} else {})"
  by (induction ds arbitrary: m) (auto simp: set_of_append_to split: if_splits)

lemma adjacency_nodes:
  "set (set_of (fold (\<lambda>n m. fold (\<lambda>dep. append_to dep (NodeID n)) (DependsOn n) m) ns m) x) =
     set (set_of m x) \<union> {NodeID n |n. n \<in> set ns \<and> x \<in> set (DependsOn n)}"
  by (induction ns arbitrary: m) (auto simp: adjacency_deps split: if_splits)

lemma adjacency_rel: "distinct (map NodeID (Nodes w)) \<Longrightarrow> adj_rel (adjacency w) = dep_rel w"
  by (auto simp: adj_rel_def adjacency_def adjacency_nodes adjacency_edges dep_rel_iff)

lemma adjacency_known:
  assumes "\<forall>n \<in> set (Nodes w). set (DependsOn n) \<subseteq> NodeID ` set (Nodes w)"
    and "\<forall>e \<in> set (Edges w). EdgeFrom e \<in> NodeID ` set (Nodes w)" and "set_of (adjacency w) x \<noteq> []"
  shows "x \<in> NodeID ` set (Nodes w)"
proof -
  from assms(3) obtain y where "y \<in> set (set_of (adjacency w) x)" by (metis list.set_intros(1) neq_Nil_conv)
  with assms(1,2) show ?thesis by (auto simp: adjacency_def adjacency_nodes adjacency_edges)
qed

section \<open>What validation accepts\<close>

lemma validate_nodes_ok:
  "validate_nodes dec sub s ns seen = Verdict None \<longleftrightarrow>
     (\<forall>n \<in> set ns. NodeID n \<noteq> [] \<and> validateWorkflowNode dec sub n s = Verdict None)
     \<and> distinct (map NodeID ns) \<and> set (map NodeID ns) \<inter> set seen = {}"
proof (induction ns arbitrary: seen)
  case (Cons n ns)
  show ?case
  proof (cases "validateWorkflowNode dec sub n s = Verdict None")
    case True
    with Cons show ?thesis by auto
  next
    case False
    then show ?thesis by (auto split: verdict.splits option.splits)
  qed
qed simp

definition well_formed :: "workflow \<Rightarrow> bool" where
  "well_formed w \<longleftrightarrow> distinct (map NodeID (Nodes w)) \<and> [] \<notin> NodeID ` set (Nodes w)
     \<and> (\<forall>n \<in> set (Nodes w). set (DependsOn n) \<subseteq> NodeID ` set (Nodes w))
     \<and> (\<forall>e \<in> set (Edges w). EdgeFrom e \<in> NodeID ` set (Nodes w) \<and> EdgeTo e \<in> NodeID ` set (Nodes w))
     \<and> acyclic (dep_rel w)"

text \<open>
  Validation accepts exactly the well-formed workflows. When the search starts from every node, in any
  order, a workflow is accepted exactly when each of its nodes is accepted, the ids are distinct and not
  empty, dependencies and edges name nodes of the workflow, and the dependencies have no cycle.
\<close>

lemma validateWorkflow_accepts:
  assumes "set (walk w) = NodeID ` set (Nodes w)"
  shows "validateWorkflow dec walk (Suc fuel) w s = Verdict None \<longleftrightarrow>
     (\<forall>n \<in> set (Nodes w). validateWorkflowNode dec (\<lambda>w'. validateWorkflow dec walk fuel w' s) n s = Verdict None)
     \<and> well_formed w"
proof -
  let ?v = "validate_nodes dec (\<lambda>w'. validateWorkflow dec walk fuel w' s) s (Nodes w) []"
  let ?known = "(\<forall>n \<in> set (Nodes w). set (DependsOn n) \<subseteq> NodeID ` set (Nodes w))
     \<and> (\<forall>e \<in> set (Edges w). EdgeFrom e \<in> NodeID ` set (Nodes w) \<and> EdgeTo e \<in> NodeID ` set (Nodes w))"
  show ?thesis
  proof (cases "?v = Verdict None")
    case False
    then have "validateWorkflow dec walk (Suc fuel) w s \<noteq> Verdict None" by (auto split: verdict.splits option.splits)
    moreover from False have "\<not> ((\<forall>n \<in> set (Nodes w). NodeID n \<noteq> [] \<and>
        validateWorkflowNode dec (\<lambda>w'. validateWorkflow dec walk fuel w' s) n s = Verdict None) \<and> distinct (map NodeID (Nodes w)))"
      unfolding validate_nodes_ok by simp
    moreover have "[] \<notin> NodeID ` set (Nodes w) \<longleftrightarrow> (\<forall>n \<in> set (Nodes w). NodeID n \<noteq> [])" by force
    ultimately show ?thesis unfolding well_formed_def by blast
  next
    case True
    then have n: "\<forall>n \<in> set (Nodes w). NodeID n \<noteq> [] \<and> validateWorkflowNode dec (\<lambda>w'. validateWorkflow dec walk fuel w' s) n s = Verdict None"
      and d: "distinct (map NodeID (Nodes w))" unfolding validate_nodes_ok by auto
    have "validateWorkflow dec walk (Suc fuel) w s = Verdict None \<longleftrightarrow>
        ?known \<and> (\<exists>visited. dfs_list (adjacency w) [] [] (walk w) = Inr visited)"
      using True by (cases "dfs_list (adjacency w) [] [] (walk w)") (auto simp: subset_iff)
    also have "\<dots> \<longleftrightarrow> ?known \<and> acyclic (dep_rel w)"
      using dfs_acyclic [of "adjacency w" "walk w"] adjacency_known [of w] assms adjacency_rel [OF d] by (metis (no_types, lifting))
    also have "\<dots> \<longleftrightarrow> (\<forall>n \<in> set (Nodes w). validateWorkflowNode dec (\<lambda>w'. validateWorkflow dec walk fuel w' s) n s = Verdict None)
        \<and> well_formed w"
      using n d by (auto simp: well_formed_def)
    finally show ?thesis .
  qed
qed

definition sample_decoders :: decoders where
  "sample_decoders = \<lparr>DecodeBody = (\<lambda>input. Inr [input]),
     DecodeGroup = (\<lambda>_. Inl ErrNotFound), DecodeMap = (\<lambda>_. Inl ErrNotFound)\<rparr>"

definition node_walk :: "workflow \<Rightarrow> string list" where
  "node_walk w = map NodeID (Nodes w)"

lemma set_node_walk [simp]: "set (node_walk w) = NodeID ` set (Nodes w)"
  by (simp add: node_walk_def)

section \<open>Subgraphs\<close>

text \<open>More fuel does not change a verdict.\<close>

lemma validate_nodes_sub:
  assumes "validate_nodes dec sub s ns seen \<noteq> OutOfFuel"
    and "\<And>w. sub w \<noteq> OutOfFuel \<Longrightarrow> sub' w = sub w"
  shows "validate_nodes dec sub' s ns seen = validate_nodes dec sub s ns seen"
  using assms(1)
proof (induction ns arbitrary: seen)
  case (Cons n ns)
  show ?case
  proof (cases "NodeID n = [] \<or> NodeID n \<in> set seen")
    case True
    then show ?thesis by auto
  next
    case False
    have "validateWorkflowNode dec sub n s \<noteq> OutOfFuel" using Cons.prems False by (auto split: if_splits)
    then have "validateWorkflowNode dec sub' n s = validateWorkflowNode dec sub n s"
      using assms(2) by (auto simp: validateWorkflowNode_def split: node_kind.splits option.splits)
    with Cons False show ?thesis by (auto split: verdict.splits option.splits)
  qed
qed simp

lemma validateWorkflow_fuel:
  "validateWorkflow dec walk fuel w s \<noteq> OutOfFuel \<Longrightarrow> fuel \<le> fuel' \<Longrightarrow>
     validateWorkflow dec walk fuel' w s = validateWorkflow dec walk fuel w s"
proof (induction fuel arbitrary: w fuel')
  case (Suc fuel)
  then obtain k where k: "fuel' = Suc k" "fuel \<le> k" by (metis Suc_le_D Suc_le_mono)
  let ?v = "validate_nodes dec (\<lambda>w'. validateWorkflow dec walk fuel w' s) s (Nodes w) []"
  have defined: "?v \<noteq> OutOfFuel" using Suc.prems(1) by (cases ?v) simp_all
  have "validate_nodes dec (\<lambda>w'. validateWorkflow dec walk k w' s) s (Nodes w) [] = ?v"
    by (rule validate_nodes_sub [OF defined]) (rule Suc.IH [OF _ k(2)])
  with k(1) show ?case by (simp only: validateWorkflow.simps)
qed simp

text \<open>
  A subgraph that contains itself is never rejected: its validation does not return. If the named
  workflows map a name to a workflow whose first node is a subgraph node that refers to the same name,
  then validating that workflow descends for ever, whatever the depth allowed.
\<close>

theorem recursive_subgraph_diverges:
  assumes "map_of (Workflows (Orch s)) name = Some w" and "Nodes w = n # ns" and "NodeKind n = NodeSubgraph"
    and "NodeRef n = name" and "name \<noteq> []" and "NodeID n \<noteq> []"
  shows "validateWorkflow dec walk fuel w s = OutOfFuel"
proof (induction fuel)
  case (Suc fuel)
  have "containsString supportedWorkflowNodeKinds (node_kind_text NodeSubgraph)" by code_simp
  then have "validateWorkflowNode dec (\<lambda>w'. validateWorkflow dec walk fuel w' s) n s = OutOfFuel"
    using assms Suc by (simp add: validateWorkflowNode_def)
  then show ?case using assms by simp
qed simp

theorem recursive_subgraph_diverges_witness:
  "let w = \<lparr>Nodes = [(sample_node ''a'' NodeSubgraph [])\<lparr>NodeRef := ''g''\<rparr>], Edges = []\<rparr>
   in validateWorkflow sample_decoders node_walk 1000 w
        (zero_scenario\<lparr>Orch := zero_orchestration\<lparr>Workflows := [(''g'', w)]\<rparr>\<rparr>) = OutOfFuel"
  unfolding Let_def
  by (rule recursive_subgraph_diverges [where name = "''g''" and ns = "[]"
        and n = "(sample_node ''a'' NodeSubgraph [])\<lparr>NodeRef := ''g''\<rparr>"])
    (simp_all add: sample_node_def zero_defs)

text \<open>
  Validating a loop needs the main workflow. In a scenario without a main workflow, any named workflow
  whose first node is a loop with a body makes validation dereference a nil pointer.
\<close>

theorem loop_without_main_workflow_panics:
  assumes "MainWorkflow (Orch s) = None" and "Nodes w = n # ns" and "NodeKind n = NodeLoop" and "NodeID n \<noteq> []"
    and "NodeInput n \<noteq> []" and "DecodeBody dec (NodeInput n) = Inr body" and "body \<noteq> []"
  shows "validateWorkflow dec walk (Suc fuel) w s = NilDeref"
proof -
  have "containsString supportedWorkflowNodeKinds (node_kind_text NodeLoop)" by code_simp
  then have "validateWorkflowNode dec (\<lambda>w'. validateWorkflow dec walk fuel w' s) n s = NilDeref"
    using assms by (simp add: validateWorkflowNode_def validateLoopNode_def)
  then show ?thesis using assms by simp
qed

theorem loop_without_main_workflow_panics_witness:
  "validateWorkflow sample_decoders node_walk 1
     \<lparr>Nodes = [(sample_node ''l'' NodeLoop [])\<lparr>NodeInput := ''x''\<rparr>], Edges = []\<rparr> zero_scenario = NilDeref"
  unfolding One_nat_def
  by (rule loop_without_main_workflow_panics [where n = "(sample_node ''l'' NodeLoop [])\<lparr>NodeInput := ''x''\<rparr>" and ns = "[]"
        and body = "[''x'']"])
    (simp_all add: sample_node_def sample_decoders_def zero_defs)

end
