(* ===== verification/Workflow_Schedule.thy ===== *)
theory Workflow_Schedule
  imports Workflow_Graph Safecall
begin

text \<open>
  The scheduler of the workflow runner: the loop of \<^verbatim>\<open>WorkflowRunner.run\<close> and the batch of \<^verbatim>\<open>runBatch\<close>
  (\<^verbatim>\<open>internal/application/orchestration/workflow.go\<close>). Everything the scheduler calls and that may read or
  change the surroundings (the run state, the event sink, the clock behind the context) is an operation on
  a world \<open>'w\<close>, so that time passes and other writers act between any two calls. The operations are the
  fields of \<open>sched_ops\<close> and \<open>batch_ops\<close>, and \<open>WorkflowRunner_run\<close> composes the two.

  \<open>run_loop\<close> also returns its decisions, the batches and the skipped nodes in order; the code leaves them in
  the step events it emits. The goroutines of a batch overlap: each is a program of steps, and \<open>BatchOrder\<close> says which of
  them takes the next step, so that siblings run between any two steps of a node, also after one of them has paused the run.
\<close>

section \<open>The loop\<close>

datatype sched_event = Skipped string | Batch "string list"

record 'w sched_ops =
  CtxErrNow :: "'w \<Rightarrow> go_error option"
  ShouldSkip :: "string \<Rightarrow> 'w \<Rightarrow> 'w \<times> (go_error + bool)"
  EmitSkipped :: "string \<Rightarrow> 'w \<Rightarrow> 'w"
  RunBatch :: "string list \<Rightarrow> 'w \<Rightarrow> 'w \<times> go_error option"

text \<open>
  The loop over the ready nodes: each leaves \<open>pending\<close>; a node to skip is done at once, the others are
  runnable. The result is the world, the events, \<open>pending\<close>, \<open>done\<close> and the runnable nodes or the error.
\<close>

fun partition_ready ::
  "'w sched_ops \<Rightarrow> string list \<Rightarrow> string list \<Rightarrow> string list \<Rightarrow> string list \<Rightarrow> 'w
     \<Rightarrow> 'w \<times> sched_event list \<times> string list \<times> string list \<times> (go_error + string list)" where
  "partition_ready ops [] pending dn runnable w = (w, [], pending, dn, Inr runnable)"
| "partition_ready ops (i # ids) pending dn runnable w =
     (case ShouldSkip ops i w of
        (w1, Inl e) \<Rightarrow> (w1, [], pending, dn, Inl e)
      | (w1, Inr True) \<Rightarrow>
          (case partition_ready ops ids (removeAll i pending) (i # dn) runnable (EmitSkipped ops i w1) of
             (w2, log, p2, d2, res) \<Rightarrow> (w2, Skipped i # log, p2, d2, res))
      | (w1, Inr False) \<Rightarrow> partition_ready ops ids (removeAll i pending) dn (runnable @ [i]) w1)"

definition no_ready_nodes :: "string list \<Rightarrow> go_error" where
  "no_ready_nodes pending = Errorf ''orchestration: workflow has no ready nodes; remaining=%v'' pending None"

definition maxParallel :: "int \<Rightarrow> int \<Rightarrow> nat" where
  "maxParallel a b = nat (firstPositive [a, b, 1])"

lemma maxParallel_pos: "1 \<le> maxParallel a b"
  by (simp add: maxParallel_def Suc_le_eq)

lemma partition_ready_facts:
  assumes "partition_ready ops ids pending dn runnable w = (w', log, pending', dn', Inr runnable')"
  shows "pending' = filter (\<lambda>i. i \<notin> set ids) pending"
    and "length runnable' \<le> length runnable + length ids"
  using assms
proof (induction ids arbitrary: pending dn runnable w log)
  case (Cons i ids)
  { case 1
    then show ?case using Cons.IH(1)
      by (fastforce split: prod.splits sum.splits bool.splits simp: removeAll_filter_not_eq intro: filter_cong)
  next
    case 2
    then show ?case using Cons.IH(2) by (fastforce split: prod.splits sum.splits bool.splits)
  }
qed simp_all

lemma length_not_ready:
  "length (filter (\<lambda>i. i \<notin> set (readyNodes pending dn deps)) pending) + length (readyNodes pending dn deps) = length pending"
proof -
  have "filter (\<lambda>i. i \<notin> set (readyNodes pending dn deps)) pending
      = filter (\<lambda>i. \<not> list_all (\<lambda>d. d \<in> set dn) (set_of deps i)) pending"
    by (auto simp: readyNodes_def intro: filter_cong)
  then show ?thesis
    unfolding readyNodes_def
    using sum_length_filter_compl [of "\<lambda>i. list_all (\<lambda>d. d \<in> set dn) (set_of deps i)" pending] by simp
qed

text \<open>
  One round of the loop, for a \<open>pending\<close> that is not empty: the world and the events after it, and the new
  \<open>pending\<close> and \<open>done\<close> or the error the run ends with. \<open>a\<close> and \<open>b\<close> are the parallelism settings of the
  orchestration and of the runtime policy.
\<close>

definition sched_round ::
  "'w sched_ops \<Rightarrow> (string \<times> string list) list \<Rightarrow> int \<Rightarrow> int \<Rightarrow> string list \<Rightarrow> string list \<Rightarrow> 'w
     \<Rightarrow> 'w \<times> sched_event list \<times> (go_error + string list \<times> string list)" where
  "sched_round ops deps a b pending dn w =
     (case CtxErrNow ops w of
        Some e \<Rightarrow> (w, [], Inl e)
      | None \<Rightarrow>
          (let ready = sort_stable str_less (readyNodes pending dn deps) in
           if ready = [] then (w, [], Inl (no_ready_nodes pending))
           else (case partition_ready ops ready pending dn [] w of
               (w1, log, pending1, dn1, Inl e) \<Rightarrow> (w1, log, Inl e)
             | (w1, log, pending1, dn1, Inr runnable) \<Rightarrow>
                 if runnable = [] then (w1, log, Inr (pending1, dn1))
                 else
                   (let pending2 = pending1 @ drop (maxParallel a b) runnable;
                        batch = take (maxParallel a b) runnable
                    in case RunBatch ops batch w1 of
                         (w2, Some e) \<Rightarrow> (w2, log @ [Batch batch], Inl e)
                       | (w2, None) \<Rightarrow> (w2, log @ [Batch batch], Inr (pending2, dn1 @ batch))))))"

text \<open>The cases of a round that lets the loop go on.\<close>

lemma sched_round_next:
  assumes "sched_round ops deps a b pending dn w = (w', log, Inr (pending', dn'))"
  obtains w1 log1 dn1 runnable where "CtxErrNow ops w = None" and "readyNodes pending dn deps \<noteq> []"
    and "partition_ready ops (sort_stable str_less (readyNodes pending dn deps)) pending dn [] w
           = (w1, log1, filter (\<lambda>i. i \<notin> set (readyNodes pending dn deps)) pending, dn1, Inr runnable)"
    and "runnable = [] \<and> log = log1 \<and> pending' = filter (\<lambda>i. i \<notin> set (readyNodes pending dn deps)) pending \<and> dn' = dn1
         \<or> runnable \<noteq> [] \<and> log = log1 @ [Batch (take (maxParallel a b) runnable)]
           \<and> pending' = filter (\<lambda>i. i \<notin> set (readyNodes pending dn deps)) pending @ drop (maxParallel a b) runnable
           \<and> dn' = dn1 @ take (maxParallel a b) runnable"
proof -
  let ?ready = "sort_stable str_less (readyNodes pending dn deps)"
  from assms have c: "CtxErrNow ops w = None" and r: "?ready \<noteq> []"
    by (auto simp: sched_round_def Let_def split: option.splits if_splits)
  have r': "readyNodes pending dn deps \<noteq> []" using r by (metis length_0_conv length_sort_stable)
  obtain w1 log1 pending1 dn1 res where p: "partition_ready ops ?ready pending dn [] w = (w1, log1, pending1, dn1, res)"
    by (metis prod_cases5)
  from assms c r p obtain runnable where res: "res = Inr runnable"
    by (cases res) (auto simp: sched_round_def)
  have f: "pending1 = filter (\<lambda>i. i \<notin> set (readyNodes pending dn deps)) pending"
    using partition_ready_facts(1) [OF p [unfolded res]] by simp
  show thesis
    using assms c r p [unfolded res] f
    by (intro that [OF c r' p [unfolded res f]])
      (auto simp: sched_round_def Let_def split: if_splits prod.splits option.splits)
qed

lemma sched_round_decreases:
  assumes "sched_round ops deps a b pending dn w = (w', log, Inr (pending', dn'))"
  shows "length pending' < length pending"
  using assms
proof (cases rule: sched_round_next)
  case (1 w1 log1 dn1 runnable)
  let ?m = "maxParallel a b"
  have "length runnable \<le> length (readyNodes pending dn deps)" using partition_ready_facts(2) [OF 1(3)] by simp
  moreover have "length (readyNodes pending dn deps) > 0" using 1(2) by simp
  moreover have "1 \<le> ?m" by (rule maxParallel_pos)
  moreover have "runnable \<noteq> [] \<Longrightarrow> length (drop ?m runnable) < length runnable"
    using \<open>1 \<le> ?m\<close> by (simp)
  ultimately show ?thesis
    using 1(4) length_not_ready [of pending dn deps] by (elim disjE conjE) (simp_all del: length_drop length_greater_0_conv)
qed

function run_loop ::
  "'w sched_ops \<Rightarrow> (string \<times> string list) list \<Rightarrow> int \<Rightarrow> int \<Rightarrow> string list \<Rightarrow> string list \<Rightarrow> 'w
     \<Rightarrow> 'w \<times> sched_event list \<times> go_error option" where
  "run_loop ops deps a b pending dn w =
     (if pending = [] then (w, [], None)
      else (case sched_round ops deps a b pending dn w of
              (w1, log, Inl e) \<Rightarrow> (w1, log, Some e)
            | (w1, log, Inr (pending1, dn1)) \<Rightarrow>
                (case run_loop ops deps a b pending1 dn1 w1 of (w2, log2, err) \<Rightarrow> (w2, log @ log2, err))))"
  by pat_completeness auto

termination
  by (relation "measure (\<lambda>(ops, deps, a, b, pending, dn, w). length pending)") (auto dest: sched_round_decreases [OF sym])

declare run_loop.simps [simp del]

section \<open>Valid schedules\<close>

fun event_ids :: "sched_event \<Rightarrow> string list" where
  "event_ids (Skipped i) = [i]"
| "event_ids (Batch ids) = ids"

definition log_ids :: "sched_event list \<Rightarrow> string list" where
  "log_ids log = concat (map event_ids log)"

lemma log_ids_simps [simp]:
  "log_ids [] = []" "log_ids (e # log) = event_ids e @ log_ids log" "log_ids (log @ log') = log_ids log @ log_ids log'"
  by (simp_all add: log_ids_def)

lemma log_ids_skipped [simp]: "log_ids (map Skipped sk) = sk"
  by (induction sk) simp_all

text \<open>
  The specification of a schedule from a set \<open>D\<close> of finished nodes: no node twice, none before all it
  depends on has finished, no batch larger than \<open>m\<close>.
\<close>

fun valid_schedule :: "(string \<Rightarrow> string set) \<Rightarrow> nat \<Rightarrow> string set \<Rightarrow> sched_event list \<Rightarrow> bool" where
  "valid_schedule deps m D [] = True"
| "valid_schedule deps m D (Skipped i # log) = (i \<notin> D \<and> deps i \<subseteq> D \<and> valid_schedule deps m (insert i D) log)"
| "valid_schedule deps m D (Batch ids # log) =
     (ids \<noteq> [] \<and> length ids \<le> m \<and> distinct ids \<and> set ids \<inter> D = {} \<and> (\<forall>i \<in> set ids. deps i \<subseteq> D)
      \<and> valid_schedule deps m (D \<union> set ids) log)"

lemma valid_schedule_skipped:
  "distinct sk \<Longrightarrow> set sk \<inter> D = {} \<Longrightarrow> \<forall>i \<in> set sk. deps i \<subseteq> D \<Longrightarrow>
     valid_schedule deps m D (map Skipped sk @ log) = valid_schedule deps m (D \<union> set sk) log"
  by (induction sk arbitrary: D) (auto simp: subset_insertI2)

lemma partition_ready_skips:
  assumes "partition_ready ops ids pending dn runnable w = (w', log, pending', dn', res)" and "distinct ids"
  shows "\<exists>sk. log = map Skipped sk \<and> dn' = rev sk @ dn \<and> set sk \<subseteq> set ids \<and> distinct sk
     \<and> (\<forall>out. res = Inr out \<longrightarrow> (\<exists>rn. out = runnable @ rn \<and> distinct rn \<and> set rn = set ids - set sk))"
  using assms
proof (induction ids arbitrary: pending dn runnable w log)
  case (Cons i ids)
  obtain w1 skip where s: "ShouldSkip ops i w = (w1, skip)" by fastforce
  show ?case
  proof (cases skip)
    case (Inl e)
    with Cons.prems s show ?thesis by (intro exI [of _ "[]"]) auto
  next
    case (Inr b)
    show ?thesis
    proof (cases b)
      case True
      obtain log1 where p: "partition_ready ops ids (removeAll i pending) (i # dn) runnable (EmitSkipped ops i w1)
          = (w', log1, pending', dn', res)" and l: "log = Skipped i # log1"
        using Cons.prems(1) s Inr True by (auto split: prod.splits)
      from Cons.IH [OF p] Cons.prems(2) obtain sk where sk: "log1 = map Skipped sk" "dn' = rev sk @ i # dn"
        "set sk \<subseteq> set ids" "distinct sk"
        "\<forall>out. res = Inr out \<longrightarrow> (\<exists>rn. out = runnable @ rn \<and> distinct rn \<and> set rn = set ids - set sk)" by auto
      then have "i \<notin> set sk" and "i \<notin> set ids" using Cons.prems(2) by auto
      with sk l show ?thesis by (intro exI [of _ "i # sk"]) fastforce
    next
      case False
      then have p: "partition_ready ops ids (removeAll i pending) dn (runnable @ [i]) w1 = (w', log, pending', dn', res)"
        using Cons.prems(1) s Inr by simp
      from Cons.IH [OF p] Cons.prems(2) obtain sk where sk: "log = map Skipped sk" "dn' = rev sk @ dn"
        "set sk \<subseteq> set ids" "distinct sk"
        "\<forall>out. res = Inr out \<longrightarrow> (\<exists>rn. out = (runnable @ [i]) @ rn \<and> distinct rn \<and> set rn = set ids - set sk)" by auto
      have "\<exists>rn. out = runnable @ rn \<and> distinct rn \<and> set rn = set (i # ids) - set sk" if "res = Inr out" for out
      proof -
        from sk(5) that obtain rn where "out = (runnable @ [i]) @ rn" "distinct rn" "set rn = set ids - set sk" by blast
        with sk(3) Cons.prems(2) show ?thesis by (intro exI [of _ "i # rn"]) auto
      qed
      with sk show ?thesis by (intro exI [of _ sk]) auto
    qed
  qed
qed auto

lemma ready_deps: "i \<in> set (readyNodes pending dn deps) \<longleftrightarrow> i \<in> set pending \<and> set (set_of deps i) \<subseteq> set dn"
  by (auto simp: readyNodes_def list_all_iff)

lemma distinct_sort_stable: "distinct (sort_stable lt xs) = distinct xs"
  by (metis distinct_count_atmost_1 mset_sort_stable set_sort_stable set_mset_mset count_mset)

lemma distinct_ready: "distinct pending \<Longrightarrow> distinct (sort_stable str_less (readyNodes pending dn deps))"
  by (simp add: distinct_sort_stable readyNodes_def)

lemma valid_schedule_append:
  "valid_schedule deps m D (l1 @ l2) \<longleftrightarrow> valid_schedule deps m D l1 \<and> valid_schedule deps m (D \<union> set (log_ids l1)) l2"
proof (induction l1 arbitrary: D)
  case (Cons e l1)
  then show ?case by (cases e) (auto simp: Un_assoc)
qed simp

text \<open>One round of the loop keeps to the specification and accounts for every node it takes from \<open>pending\<close>.\<close>

lemma sched_round_valid:
  assumes "sched_round ops deps a b pending dn w = (w', log, res)" and "distinct pending" and "set pending \<inter> set dn = {}"
  shows "valid_schedule (\<lambda>i. set (set_of deps i)) (maxParallel a b) (set dn) log
     \<and> set (log_ids log) \<subseteq> set pending
     \<and> (\<forall>pending' dn'. res = Inr (pending', dn') \<longrightarrow> distinct pending' \<and> set dn' = set dn \<union> set (log_ids log)
          \<and> set pending' = set pending - set (log_ids log))"
proof -
  let ?m = "maxParallel a b" and ?R = "readyNodes pending dn deps"
  let ?ready = "sort_stable str_less ?R"
  obtain w1 log1 pending1 dn1 res1 where p: "partition_ready ops ?ready pending dn [] w = (w1, log1, pending1, dn1, res1)"
    by (metis prod_cases5)
  from partition_ready_skips [OF p distinct_ready [OF assms(2)]] obtain sk where
    sk: "log1 = map Skipped sk" "dn1 = rev sk @ dn" "set sk \<subseteq> set ?R" "distinct sk"
    "\<And>out. res1 = Inr out \<Longrightarrow> distinct out \<and> set out = set ?R - set sk" by auto
  have R: "set ?R \<subseteq> set pending" "\<forall>i \<in> set ?R. set (set_of deps i) \<subseteq> set dn" by (auto simp: ready_deps)
  have v1: "valid_schedule (\<lambda>i. set (set_of deps i)) ?m (set dn) log1"
  proof -
    have "set sk \<inter> set dn = {}" and "\<forall>i \<in> set sk. set (set_of deps i) \<subseteq> set dn" using sk(3) R assms(3) by auto
    from valid_schedule_skipped [OF sk(4) this, of ?m "[]"] show ?thesis by (simp add: sk(1))
  qed
  show ?thesis
  proof (cases "CtxErrNow ops w = None \<and> ?ready \<noteq> []")
    case False
    with assms(1) have "log = [] \<and> (\<exists>e. res = Inl e)"
      by (auto simp: sched_round_def Let_def split: option.splits)
    then show ?thesis by auto
  next
    case live: True
    show ?thesis
    proof (cases res1)
      case (Inl e)
      with assms(1) live p sk v1 R show ?thesis by (auto simp: sched_round_def)
    next
      case (Inr runnable)
      note rn = sk(5) [OF Inr]
      have f: "pending1 = filter (\<lambda>i. i \<notin> set ?R) pending" using partition_ready_facts(1) [OF p [unfolded Inr]] by simp
      show ?thesis
      proof (cases "runnable = []")
        case True
        with assms(1) live p Inr have "log = log1" "res = Inr (pending1, dn1)" by (auto simp: sched_round_def)
        with v1 sk rn R f True assms(2) show ?thesis by auto
      next
        case False
        define batch where "batch = take ?m runnable"
        obtain w2 err where rb: "RunBatch ops batch w1 = (w2, err)" by fastforce
        have log: "log = log1 @ [Batch batch]" and
          res: "\<And>pending' dn'. res = Inr (pending', dn') \<Longrightarrow> pending' = pending1 @ drop ?m runnable \<and> dn' = dn1 @ batch"
          using assms(1) live p Inr False rb
          by (auto simp: sched_round_def Let_def batch_def split: option.splits)
        have split: "set batch \<union> set (drop ?m runnable) = set runnable" "set batch \<inter> set (drop ?m runnable) = {}"
          "distinct batch" "distinct (drop ?m runnable)"
          using rn by (simp_all add: batch_def set_take_disj_set_drop_if_distinct flip: set_append)
        have "batch \<noteq> []" using False maxParallel_pos [of a b] by (simp add: batch_def)
        then have "valid_schedule (\<lambda>i. set (set_of deps i)) ?m (set dn) log"
          using v1 sk rn R split assms(3) unfolding log valid_schedule_append
          by (auto simp: batch_def)
        moreover have "set (log_ids log) \<subseteq> set pending" using log sk split rn R by auto
        moreover have "distinct pending' \<and> set dn' = set dn \<union> set (log_ids log) \<and> set pending' = set pending - set (log_ids log)"
          if "res = Inr (pending', dn')" for pending' dn'
          using res [OF that] f sk split rn R assms(2) by (auto simp: log)
        ultimately show ?thesis by blast
      qed
    qed
  qed
qed

lemma run_loop_valid:
  assumes "run_loop ops deps a b pending dn w = (w', log, err)" and "distinct pending" and "set pending \<inter> set dn = {}"
  shows "valid_schedule (\<lambda>i. set (set_of deps i)) (maxParallel a b) (set dn) log
     \<and> set (log_ids log) \<subseteq> set pending \<and> (err = None \<longrightarrow> set (log_ids log) = set pending)"
  using assms
proof (induction ops deps a b pending dn w arbitrary: log rule: run_loop.induct)
  case (1 ops deps a b pending dn w)
  show ?case
  proof (cases "pending = []")
    case True
    with 1(2) show ?thesis by (simp add: run_loop.simps)
  next
    case False
    obtain w1 log1 res where r: "sched_round ops deps a b pending dn w = (w1, log1, res)" by (metis prod_cases3)
    note v = sched_round_valid [OF r 1(3,4)]
    show ?thesis
    proof (cases res)
      case (Inl e)
      with 1(2) False r v show ?thesis by (auto simp: run_loop.simps)
    next
      case (Inr pd)
      obtain pending1 dn1 where pd: "pd = (pending1, dn1)" by fastforce
      obtain log2 where l: "run_loop ops deps a b pending1 dn1 w1 = (w', log2, err)" and log: "log = log1 @ log2"
        using 1(2) False r Inr pd by (auto simp: run_loop.simps split: prod.splits)
      have d: "distinct pending1" "set dn1 = set dn \<union> set (log_ids log1)" "set pending1 = set pending - set (log_ids log1)"
        using v Inr pd by auto
      have "set pending1 \<inter> set dn1 = {}" using d 1(4) by auto
      from 1(1) [OF False r [symmetric] refl Inr pd [symmetric] l d(1) this] d v show ?thesis
        unfolding log valid_schedule_append by auto
    qed
  qed
qed

section \<open>What can run at all\<close>

text \<open>
  The nodes of \<open>S\<close> that can ever run when \<open>D\<close> is done: those all of whose dependencies are done or can run.
  A node on a cycle is not among them, nor one that waits for a node outside \<open>S\<close> and \<open>D\<close>.
\<close>

inductive_set can_run :: "(string \<Rightarrow> string set) \<Rightarrow> string set \<Rightarrow> string set \<Rightarrow> string set"
  for deps :: "string \<Rightarrow> string set" and S D :: "string set" where
  can_run: "i \<in> S \<Longrightarrow> (\<And>d. d \<in> deps i \<Longrightarrow> d \<in> D \<or> d \<in> can_run deps S D) \<Longrightarrow> i \<in> can_run deps S D"

lemma can_run_in: "i \<in> can_run deps S D \<Longrightarrow> i \<in> S"
  by (auto elim: can_run.cases)

lemma valid_schedule_can_run:
  "valid_schedule deps m D' log \<Longrightarrow> set (log_ids log) \<subseteq> S \<Longrightarrow> D' \<subseteq> D \<union> can_run deps S D \<Longrightarrow>
     set (log_ids log) \<subseteq> can_run deps S D"
proof (induction log arbitrary: D')
  case (Cons e log)
  show ?case
  proof (cases e)
    case (Skipped i)
    have "i \<in> can_run deps S D" by (rule can_run.intros) (use Skipped Cons.prems in auto)
    with Cons Skipped show ?thesis by auto
  next
    case (Batch ids)
    have ids: "set ids \<subseteq> S" "\<forall>i \<in> set ids. deps i \<subseteq> D'" using Batch Cons.prems by auto
    have "set ids \<subseteq> can_run deps S D"
      by (rule subsetI, rule can_run.intros) (use ids Cons.prems(3) in blast)+
    with Cons.IH [of "D' \<union> set ids"] Cons.prems Batch show ?thesis by auto
  qed
qed simp

lemma can_run_split:
  assumes "X \<subseteq> can_run deps S D"
  shows "can_run deps S D = X \<union> can_run deps (S - X) (D \<union> X)"
proof
  show "can_run deps S D \<subseteq> X \<union> can_run deps (S - X) (D \<union> X)"
  proof
    fix i assume "i \<in> can_run deps S D"
    then show "i \<in> X \<union> can_run deps (S - X) (D \<union> X)"
    proof induction
      case (can_run i)
      have "i \<in> can_run deps (S - X) (D \<union> X)" if "i \<notin> X"
        by (rule can_run.intros) (use that can_run in auto)
      then show ?case by blast
    qed
  qed
next
  have "i \<in> can_run deps (S - X) (D \<union> X) \<Longrightarrow> i \<in> can_run deps S D" for i
  proof (induction rule: can_run.induct)
    case (can_run i)
    show ?case by (rule can_run.intros) (use assms can_run in auto)
  qed
  with assms show "X \<union> can_run deps (S - X) (D \<union> X) \<subseteq> can_run deps S D" by auto
qed

lemma can_run_ready:
  assumes "i \<in> can_run deps S D" shows "\<exists>j \<in> S. deps j \<subseteq> D"
  using assms by induction (auto dest: can_run_in)

text \<open>Operations that never fail, and a context that stays live.\<close>

definition never_fails :: "'w sched_ops \<Rightarrow> bool" where
  "never_fails ops \<longleftrightarrow> (\<forall>w. CtxErrNow ops w = None) \<and> (\<forall>i w e. snd (ShouldSkip ops i w) \<noteq> Inl e)
     \<and> (\<forall>ids w. snd (RunBatch ops ids w) = None)"

lemma partition_ready_never_fails:
  "never_fails ops \<Longrightarrow> partition_ready ops ids pending dn runnable w = (w', log, pending', dn', res) \<Longrightarrow> \<exists>out. res = Inr out"
proof (induction ids arbitrary: pending dn runnable w log)
  case (Cons i ids)
  obtain w1 skip where s: "ShouldSkip ops i w = (w1, skip)" by fastforce
  with Cons.prems(1) obtain b where "skip = Inr b" by (cases skip) (auto simp: never_fails_def, metis snd_conv)
  with Cons s show ?case by (cases b) (auto split: prod.splits)
qed auto

lemma sched_round_never_fails:
  assumes "never_fails ops" and "sched_round ops deps a b pending dn w = (w', log, res)"
  shows "(\<exists>pd. res = Inr pd) \<and> readyNodes pending dn deps \<noteq> []
     \<or> readyNodes pending dn deps = [] \<and> log = [] \<and> res = Inl (no_ready_nodes pending)"
proof -
  let ?ready = "sort_stable str_less (readyNodes pending dn deps)"
  have e: "?ready = [] \<longleftrightarrow> readyNodes pending dn deps = []" by (metis length_0_conv length_sort_stable)
  obtain w1 log1 pending1 dn1 res1 where p: "partition_ready ops ?ready pending dn [] w = (w1, log1, pending1, dn1, res1)"
    by (metis prod_cases5)
  from partition_ready_never_fails [OF assms(1) p] obtain runnable where r: "res1 = Inr runnable" by blast
  have b: "RunBatch ops ids w1 = (fst (RunBatch ops ids w1), None)" for ids
    using assms(1) by (metis never_fails_def prod.collapse)
  have c: "CtxErrNow ops w = None" using assms(1) by (simp add: never_fails_def)
  show ?thesis
  proof (cases "?ready = []")
    case True
    with e assms(2) c show ?thesis by (simp add: sched_round_def)
  next
    case False
    obtain w2 where rb: "RunBatch ops (take (maxParallel a b) runnable) w1 = (w2, None)" using b by blast
    obtain pd where "res = Inr pd"
      using assms(2) c False p r rb by (cases "runnable = []") (auto simp: sched_round_def Let_def)
    with False e show ?thesis by simp
  qed
qed

lemma run_loop_exact:
  assumes "run_loop ops deps a b pending dn w = (w', log, err)" and "distinct pending" and "set pending \<inter> set dn = {}"
    and "never_fails ops"
  shows "set (log_ids log) = can_run (\<lambda>i. set (set_of deps i)) (set pending) (set dn)
     \<and> (\<exists>rest. set rest = set pending - set (log_ids log) \<and> err = (if rest = [] then None else Some (no_ready_nodes rest)))"
  using assms
proof (induction ops deps a b pending dn w arbitrary: log rule: run_loop.induct)
  case (1 ops deps a b pending dn w)
  let ?d = "\<lambda>i. set (set_of deps i)"
  show ?case
  proof (cases "pending = []")
    case True
    with 1(2) show ?thesis by (auto simp: run_loop.simps dest: can_run_in)
  next
    case False
    obtain w1 log1 res where r: "sched_round ops deps a b pending dn w = (w1, log1, res)" by (metis prod_cases3)
    note v = sched_round_valid [OF r 1(3,4)]
    show ?thesis
    proof (cases "readyNodes pending dn deps = []")
      case True
      then have "\<not> (\<exists>i \<in> set pending. ?d i \<subseteq> set dn)" by (metis empty_iff list.set(1) ready_deps)
      then have "can_run ?d (set pending) (set dn) = {}" using can_run_ready by fastforce
      moreover have "log = []" "err = Some (no_ready_nodes pending)"
        using sched_round_never_fails [OF 1(5) r] True 1(2) False r by (auto simp: run_loop.simps)
      ultimately show ?thesis using False by (intro conjI exI [of _ pending]) auto
    next
      case ready: False
      with sched_round_never_fails [OF 1(5) r] obtain pending1 dn1 where res: "res = Inr (pending1, dn1)" by auto
      obtain log2 where l: "run_loop ops deps a b pending1 dn1 w1 = (w', log2, err)" and log: "log = log1 @ log2"
        using 1(2) False r res by (auto simp: run_loop.simps split: prod.splits)
      have d: "distinct pending1" "set dn1 = set dn \<union> set (log_ids log1)" "set pending1 = set pending - set (log_ids log1)"
        using v res by auto
      have "set pending1 \<inter> set dn1 = {}" using d 1(4) by auto
      note ih = 1(1) [OF False r [symmetric] refl res refl l d(1) this 1(5)]
      have "set (log_ids log1) \<subseteq> can_run ?d (set pending) (set dn)"
        using valid_schedule_can_run [of ?d _ "set dn" log1 "set pending" "set dn"] v by auto
      from can_run_split [OF this] have ids: "set (log_ids log) = can_run ?d (set pending) (set dn)"
        unfolding log using ih d by auto
      from ih obtain rest where "set rest = set pending1 - set (log_ids log2)"
        "err = (if rest = [] then None else Some (no_ready_nodes rest))" by blast
      then have "set rest = set pending - set (log_ids log) \<and> err = (if rest = [] then None else Some (no_ready_nodes rest))"
        using d log by auto
      with ids show ?thesis by blast
    qed
  qed
qed

section \<open>A run\<close>

text \<open>
  \<^verbatim>\<open>WorkflowRunner.run\<close>. The nodes of the map that are not loop bodies are pending, or done when
  \<open>alreadyDone\<close> says so; loop bodies are neither.
\<close>

definition WorkflowRunner_run ::
  "'w sched_ops \<Rightarrow> (bytes \<Rightarrow> go_error + loop_spec) \<Rightarrow> scenario \<Rightarrow> string list \<Rightarrow> 'w
     \<Rightarrow> 'w \<times> sched_event list \<times> go_error option" where
  "WorkflowRunner_run ops decode_loop s alreadyDone world =
     (case MainWorkflow (Orch s) of
        None \<Rightarrow> (world, [], Some (Errorf ''orchestration: workflow is required'' [] None))
      | Some w \<Rightarrow>
          (case loopBodyNodeIDs decode_loop w of
             Inl e \<Rightarrow> (world, [], Some e)
           | Inr bodyOnly \<Rightarrow>
               (let ids = filter (\<lambda>i. i \<notin> set bodyOnly) (map fst (workflowNodesByID w));
                    pending = filter (\<lambda>i. i \<notin> set alreadyDone) ids;
                    dn = filter (\<lambda>i. i \<in> set alreadyDone) ids
                in run_loop ops (dependencies w) (OrchMaxParallel (Orch s)) (RtMaxParallel (Runtime s)) pending dn world)))"

text \<open>The ids of a workflow that the scheduler runs itself.\<close>

definition schedulable :: "(bytes \<Rightarrow> go_error + loop_spec) \<Rightarrow> workflow \<Rightarrow> string set" where
  "schedulable decode_loop w =
     {NodeID n |n. n \<in> set (Nodes w)} - (case loopBodyNodeIDs decode_loop w of Inl _ \<Rightarrow> {} | Inr ids \<Rightarrow> set ids)"

lemma keys_workflowNodesByID: "set (map fst (workflowNodesByID w)) = NodeID ` set (Nodes w)"
proof -
  have "fst ` set (fold (\<lambda>n m. AList.update (NodeID n) n m) ns m) = fst ` set m \<union> NodeID ` set ns"
    for ns :: "workflow_node list" and m :: "(string \<times> workflow_node) list"
    by (induction ns arbitrary: m) (auto simp: dom_map_of_conv_image_fst [symmetric] update_conv')
  then show ?thesis by (simp add: workflowNodesByID_def)
qed

lemma distinct_workflowNodesByID: "distinct (map fst (workflowNodesByID w))"
proof -
  have "distinct (map fst m) \<Longrightarrow> distinct (map fst (fold (\<lambda>n m. AList.update (NodeID n) n m) ns m))"
    for ns :: "workflow_node list" and m :: "(string \<times> workflow_node) list"
    by (induction ns arbitrary: m) (simp_all add: distinct_update)
  then show ?thesis by (simp add: workflowNodesByID_def)
qed

lemma WorkflowRunner_run_loop:
  assumes "MainWorkflow (Orch s) = Some w" and "loopBodyNodeIDs decode_loop w = Inr bodyOnly"
  obtains pending dn where
    "WorkflowRunner_run ops decode_loop s alreadyDone world =
       run_loop ops (dependencies w) (OrchMaxParallel (Orch s)) (RtMaxParallel (Runtime s)) pending dn world"
    and "distinct pending" and "set pending = schedulable decode_loop w - set alreadyDone"
    and "set dn = schedulable decode_loop w \<inter> set alreadyDone" and "set pending \<inter> set dn = {}"
proof -
  let ?ids = "filter (\<lambda>i. i \<notin> set bodyOnly) (map fst (workflowNodesByID w))"
  have ids: "set ?ids = schedulable decode_loop w"
    unfolding schedulable_def assms(2) using keys_workflowNodesByID [of w] by auto
  show thesis
    by (rule that [of "filter (\<lambda>i. i \<notin> set alreadyDone) ?ids" "filter (\<lambda>i. i \<in> set alreadyDone) ?ids"])
      (use assms ids distinct_workflowNodesByID [of w] in \<open>auto simp: WorkflowRunner_run_def Let_def simp del: filter_filter\<close>)
qed

text \<open>
  C3: the scheduler respects the workflow. Whatever the nodes, the conditions, the context and other
  writers do, every run starts or skips a node at most once and only when everything it depends on has
  been finished or skipped before (or was already done when the run began), only nodes of the workflow
  that were not already done, and never more nodes at once than the configured parallelism; a run that
  ends without error has started or skipped every one of them.
\<close>

theorem schedule_sound:
  assumes "MainWorkflow (Orch s) = Some w" and "loopBodyNodeIDs decode_loop w = Inr bodyOnly"
    and "WorkflowRunner_run ops decode_loop s alreadyDone world = (world', log, err)"
  shows "valid_schedule (\<lambda>i. {d. (d, i) \<in> dep_rel w}) (maxParallel (OrchMaxParallel (Orch s)) (RtMaxParallel (Runtime s)))
       (schedulable decode_loop w \<inter> set alreadyDone) log
     \<and> set (log_ids log) \<subseteq> schedulable decode_loop w - set alreadyDone
     \<and> (err = None \<longrightarrow> set (log_ids log) = schedulable decode_loop w - set alreadyDone)"
proof -
  obtain pending dn where p: "run_loop ops (dependencies w) (OrchMaxParallel (Orch s)) (RtMaxParallel (Runtime s)) pending dn world
      = (world', log, err)" "distinct pending" "set pending = schedulable decode_loop w - set alreadyDone"
    "set dn = schedulable decode_loop w \<inter> set alreadyDone" "set pending \<inter> set dn = {}"
    using WorkflowRunner_run_loop [OF assms(1,2), of ops alreadyDone world] assms(3) by metis
  have "(\<lambda>i. {d. (d, i) \<in> dep_rel w}) = (\<lambda>i. set (set_of (dependencies w) i))" by (auto simp: dep_rel_def)
  with run_loop_valid [OF p(1,2,5)] p(3,4) show ?thesis by simp
qed

text \<open>
  The scheduler terminates and runs everything that can run. When no node fails and the context stays
  live, the nodes started or skipped are exactly those that can run at all: the nodes all of whose
  dependencies are done or can run themselves. The run succeeds exactly when these are all the nodes to
  run; otherwise it ends with the error that names the others.
\<close>

lemma WorkflowRunner_run_exact:
  assumes "MainWorkflow (Orch s) = Some w" and "loopBodyNodeIDs decode_loop w = Inr bodyOnly" and "never_fails ops"
  shows "\<exists>world' log err rest. WorkflowRunner_run ops decode_loop s alreadyDone world = (world', log, err)
     \<and> set (log_ids log) = can_run (\<lambda>i. {d. (d, i) \<in> dep_rel w}) (schedulable decode_loop w - set alreadyDone)
          (schedulable decode_loop w \<inter> set alreadyDone)
     \<and> set rest = schedulable decode_loop w - set alreadyDone - set (log_ids log)
     \<and> err = (if rest = [] then None else Some (no_ready_nodes rest))"
proof -
  obtain world' log err where r: "WorkflowRunner_run ops decode_loop s alreadyDone world = (world', log, err)"
    by (metis prod_cases3)
  obtain pending dn where p: "run_loop ops (dependencies w) (OrchMaxParallel (Orch s)) (RtMaxParallel (Runtime s)) pending dn world
      = (world', log, err)" "distinct pending" "set pending = schedulable decode_loop w - set alreadyDone"
    "set dn = schedulable decode_loop w \<inter> set alreadyDone" "set pending \<inter> set dn = {}"
    using WorkflowRunner_run_loop [OF assms(1,2), of ops alreadyDone world] r by metis
  have d: "(\<lambda>i. {d. (d, i) \<in> dep_rel w}) = (\<lambda>i. set (set_of (dependencies w) i))" by (auto simp: dep_rel_def)
  from run_loop_exact [OF p(1,2,5) assms(3)] r show ?thesis unfolding d p(3,4) by blast
qed

text \<open>Two nodes \<open>a\<close>, \<open>b\<close> of which \<open>b\<close> waits for \<open>a\<close>, a loop \<open>l\<close> with body \<open>x\<close>, and a world that lists the batches.\<close>

definition sample_ops :: "string list list sched_ops" where
  "sample_ops = \<lparr>CtxErrNow = (\<lambda>_. None), ShouldSkip = (\<lambda>_ w. (w, Inr False)), EmitSkipped = (\<lambda>_ w. w),
     RunBatch = (\<lambda>ids w. (w @ [ids], None))\<rparr>"

definition loop_decoder :: "bytes \<Rightarrow> go_error + loop_spec" where
  "loop_decoder input = Inr \<lparr>LoopBody = [input], LoopMaxIterations = 0, LoopUntil = []\<rparr>"

definition loop_workflow :: workflow where
  "loop_workflow = \<lparr>Nodes = [sample_node ''a'' NodeTool [], sample_node ''b'' NodeTool [''a''],
     (sample_node ''l'' NodeLoop [''a''])\<lparr>NodeInput := ''x''\<rparr>, sample_node ''x'' NodeTool []], Edges = []\<rparr>"

definition scenario_of :: "workflow \<Rightarrow> scenario" where
  "scenario_of w = zero_scenario\<lparr>Orch := zero_orchestration\<lparr>MainWorkflow := Some w\<rparr>\<rparr>"

lemma scenario_of_simps [simp]:
  "MainWorkflow (Orch (scenario_of w)) = Some w" "OrchMaxParallel (Orch (scenario_of w)) = 0"
  "RtMaxParallel (Runtime (scenario_of w)) = 0"
  by (simp_all add: scenario_of_def zero_defs)

lemma never_fails_sample_ops: "never_fails sample_ops"
  by (simp add: never_fails_def sample_ops_def)

lemma loop_workflow_run:
  "WorkflowRunner_run sample_ops loop_decoder (scenario_of loop_workflow) [] [] =
     ([[''a''], [''b''], [''l'']], [Batch [''a''], Batch [''b''], Batch [''l'']], None)"
  by code_simp

theorem schedule_sound_witness:
  "\<exists>log. WorkflowRunner_run sample_ops loop_decoder (scenario_of loop_workflow) [] [] = ([[''a''], [''b''], [''l'']], log, None)
     \<and> valid_schedule (\<lambda>i. {d. (d, i) \<in> dep_rel loop_workflow}) 1 {} log
     \<and> set (log_ids log) = schedulable loop_decoder loop_workflow"
proof -
  have b: "loopBodyNodeIDs loop_decoder loop_workflow = Inr [''x'']" by code_simp
  from schedule_sound [OF _ b loop_workflow_run] show ?thesis
    unfolding loop_workflow_run by (simp add: maxParallel_def)
qed

text \<open>A node \<open>z\<close> that waits for the body \<open>x\<close> of the loop never runs.\<close>

definition stuck_workflow :: workflow where
  "stuck_workflow = loop_workflow\<lparr>Nodes := Nodes loop_workflow @ [sample_node ''z'' NodeTool [''x'']]\<rparr>"

section \<open>A batch\<close>

text \<open>The step events of \<^verbatim>\<open>runBatch\<close>.\<close>

datatype step_event =
    StepStarted string
  | StepCompleted string
  | StepSkipped string
  | StepFailed string go_error
  | SiblingFailed go_error

text \<open>
  The run of a node as steps on the world, which are told whether the batch has been cancelled, up to its end. Every run of a node ends: a batch whose
  node does not return would wait for ever.
\<close>

datatype 'w node_proc = NodeEnd handler_end | NodeStep "bool \<Rightarrow> 'w \<Rightarrow> 'w" "bool \<Rightarrow> 'w \<Rightarrow> 'w node_proc"

record 'w batch_ops =
  BatchCtxErr :: "'w \<Rightarrow> go_error option"
  BatchOrder :: "'w \<Rightarrow> string list \<Rightarrow> nat list"
  CondEnabled :: "workflow_node \<Rightarrow> bool \<Rightarrow> 'w \<Rightarrow> 'w \<times> (go_error + bool)"
  RunNodeRetry :: "workflow_node \<Rightarrow> 'w node_proc"
  EmitStep :: "step_event \<Rightarrow> 'w \<Rightarrow> 'w"

definition node_in :: "(string \<times> workflow_node) list \<Rightarrow> string \<Rightarrow> workflow_node" where
  "node_in nodes i = (case map_of nodes i of None \<Rightarrow> zero_node | Some n \<Rightarrow> n)"

text \<open>A goroutine: its next step with what it goes on with, the cancellation of the batch, or the error it ends with.\<close>

datatype 'w goroutine =
    GoEnd "go_error option"
  | GoCancel "'w goroutine"
  | GoStep "bool \<Rightarrow> 'w \<Rightarrow> 'w" "bool \<Rightarrow> 'w \<Rightarrow> 'w goroutine"

primrec go_node :: "'w node_proc \<Rightarrow> (handler_end \<Rightarrow> 'w goroutine) \<Rightarrow> 'w goroutine" where
  "go_node (NodeEnd x) k = k x"
| "go_node (NodeStep eff next) k = GoStep eff (\<lambda>c w. go_node (next c w) k)"

definition go_emit :: "'w batch_ops \<Rightarrow> step_event \<Rightarrow> 'w goroutine \<Rightarrow> 'w goroutine" where
  "go_emit ops ev k = GoStep (\<lambda>_. EmitStep ops ev) (\<lambda>_ _. k)"

definition node_outcome :: "'w batch_ops \<Rightarrow> workflow_node \<Rightarrow> handler_end \<Rightarrow> 'w goroutine" where
  "node_outcome ops node ended = (case ended of
       HandlerReturns None \<Rightarrow> go_emit ops (StepCompleted (NodeID node)) (GoEnd None)
     | HandlerReturns (Some e) \<Rightarrow>
         if errors_as_workflow_paused e \<noteq> None then GoCancel (GoEnd (Some e))
         else go_emit ops (StepFailed (NodeID node) e) (GoEnd (Some e))
     | HandlerPanics r \<Rightarrow> GoEnd (safecall_Do (''orchestration: workflow node '' @ NodeID node) (HandlerPanics r)))"

text \<open>The goroutine of one node: it does nothing when the batch is cancelled before it looks; only a pause cancels the batch.\<close>

definition batch_node :: "'w batch_ops \<Rightarrow> workflow_node \<Rightarrow> 'w goroutine" where
  "batch_node ops node =
     GoStep (\<lambda>_ w. w) (\<lambda>cancelled w.
       if cancelled \<or> BatchCtxErr ops w \<noteq> None then GoEnd None
       else GoStep (\<lambda>cancelled w. fst (CondEnabled ops node cancelled w)) (\<lambda>cancelled w. case snd (CondEnabled ops node cancelled w) of
           Inl e \<Rightarrow> go_emit ops (StepFailed (NodeID node) e) (GoEnd (Some e))
         | Inr False \<Rightarrow> go_emit ops (StepSkipped (NodeID node)) (GoEnd None)
         | Inr True \<Rightarrow> go_emit ops (StepStarted (NodeID node)) (go_node (RunNodeRetry ops node) (node_outcome ops node))))"

text \<open>The goroutines of a batch, the errors they sent, whether the batch is cancelled, and the world. A goroutine that has sent its error has ended.\<close>

record 'w batch_state =
  Pool :: "'w goroutine list"
  Sent :: "go_error list"
  Cancelled :: bool
  BWorld :: 'w

definition batch_start :: "'w batch_ops \<Rightarrow> (string \<times> workflow_node) list \<Rightarrow> string list \<Rightarrow> 'w \<Rightarrow> 'w batch_state" where
  "batch_start ops nodes ids w = \<lparr>Pool = map (\<lambda>i. batch_node ops (node_in nodes i)) ids, Sent = [], Cancelled = False, BWorld = w\<rparr>"

definition batch_step :: "nat \<Rightarrow> 'w batch_state \<Rightarrow> 'w batch_state" where
  "batch_step i st =
     (if i < length (Pool st) then (case Pool st ! i of
         GoEnd None \<Rightarrow> st
       | GoEnd (Some e) \<Rightarrow> st\<lparr>Pool := (Pool st)[i := GoEnd None], Sent := Sent st @ [e]\<rparr>
       | GoCancel g \<Rightarrow> st\<lparr>Pool := (Pool st)[i := g], Cancelled := True\<rparr>
       | GoStep eff next \<Rightarrow> st\<lparr>Pool := (Pool st)[i := next (Cancelled st) (BWorld st)], BWorld := eff (Cancelled st) (BWorld st)\<rparr>)
      else st)"

text \<open>A goroutine that is alone runs to its end; the batch waits for all of them.\<close>

primrec go_finish :: "'w goroutine \<Rightarrow> nat \<Rightarrow> 'w batch_state \<Rightarrow> 'w batch_state" where
  "go_finish (GoEnd err) i st = batch_step i st"
| "go_finish (GoCancel g) i st = go_finish g i (batch_step i st)"
| "go_finish (GoStep eff next) i st = go_finish (next (Cancelled st) (BWorld st)) i (batch_step i st)"

definition batch_wait :: "'w batch_state \<Rightarrow> 'w batch_state" where
  "batch_wait st = fold (\<lambda>i st. go_finish (Pool st ! i) i st) [0..<length (Pool st)] st"

text \<open>The goroutines take their steps in the order given, and those that are not done then one after another.\<close>

definition batch_loop :: "nat list \<Rightarrow> 'w batch_state \<Rightarrow> 'w batch_state" where
  "batch_loop order st = batch_wait (fold batch_step order st)"

text \<open>Draining the errors: the first plain error and the first pause.\<close>

fun drain :: "go_error list \<Rightarrow> go_error option \<Rightarrow> go_error option \<Rightarrow> go_error option \<times> go_error option" where
  "drain [] firstErr pauseErr = (firstErr, pauseErr)"
| "drain (e # errs) firstErr pauseErr =
     (if errors_as_workflow_paused e \<noteq> None
      then drain errs firstErr (if pauseErr = None then Some e else pauseErr)
      else drain errs (if firstErr = None then Some e else firstErr) pauseErr)"

definition runBatch :: "'w batch_ops \<Rightarrow> (string \<times> workflow_node) list \<Rightarrow> string list \<Rightarrow> 'w \<Rightarrow> 'w \<times> go_error option" where
  "runBatch ops nodes ids w =
     (let st = batch_loop (BatchOrder ops w ids) (batch_start ops nodes ids w); w1 = BWorld st in
      case drain (Sent st) None None of
        (Some firstErr, Some p) \<Rightarrow> (EmitStep ops (SiblingFailed firstErr) w1, Some p)
      | (None, Some p) \<Rightarrow> (w1, Some p)
      | (firstErr, None) \<Rightarrow> (w1, firstErr))"

text \<open>The scheduler on the batches: the operations of \<^verbatim>\<open>run\<close> with \<^verbatim>\<open>runBatch\<close> for its batches.\<close>

definition runner_ops ::
  "'w batch_ops \<Rightarrow> (string \<Rightarrow> 'w \<Rightarrow> 'w \<times> (go_error + bool)) \<Rightarrow> workflow \<Rightarrow> 'w sched_ops" where
  "runner_ops ops should_skip w =
     \<lparr>CtxErrNow = BatchCtxErr ops, ShouldSkip = should_skip,
      EmitSkipped = (\<lambda>i. EmitStep ops (StepSkipped i)), RunBatch = runBatch ops (workflowNodesByID w)\<rparr>"

section \<open>Batches: lemmas\<close>

definition is_pause :: "go_error \<Rightarrow> bool" where
  "is_pause e \<longleftrightarrow> errors_as_workflow_paused e \<noteq> None"

lemma drain_eq:
  "drain errs firstErr pauseErr =
     ((case firstErr of Some e \<Rightarrow> Some e | None \<Rightarrow> find (\<lambda>e. \<not> is_pause e) errs),
      (case pauseErr of Some e \<Rightarrow> Some e | None \<Rightarrow> find is_pause errs))"
  by (induction errs arbitrary: firstErr pauseErr) (auto simp: is_pause_def split: option.splits)

text \<open>Induction on goroutines and on node programs, with the continuations applied.\<close>

lemma goroutine_induct [case_names GoEnd GoCancel GoStep]:
  assumes "\<And>err. P (GoEnd err)" and "\<And>g. P g \<Longrightarrow> P (GoCancel g)" and "\<And>eff rest. (\<And>c w. P (rest c w)) \<Longrightarrow> P (GoStep eff rest)"
  shows "P g"
proof (induction g)
  case (GoStep eff rest)
  show ?case by (rule assms(3)) (rule GoStep.IH [OF rangeI rangeI])
qed (simp_all add: assms)

lemma node_proc_induct [case_names NodeEnd NodeStep]:
  assumes "\<And>x. P (NodeEnd x)" and "\<And>eff rest. (\<And>c w. P (rest c w)) \<Longrightarrow> P (NodeStep eff rest)"
  shows "P n"
proof (induction n)
  case (NodeStep eff rest)
  show ?case by (rule assms(2)) (rule NodeStep.IH [OF rangeI rangeI])
qed (simp add: assms)

text \<open>What holds through every step of a batch holds at its end.\<close>

lemma batch_loop_inv:
  assumes "\<And>i st. P st \<Longrightarrow> P (batch_step i st)" and "P st"
  shows "P (batch_loop order st)"
proof -
  have f: "P (fold batch_step order st)" using assms(2) by (induction order arbitrary: st) (auto intro: assms(1))
  have g: "P st \<Longrightarrow> P (go_finish g i st)" for g i st by (induction g arbitrary: st rule: goroutine_induct) (auto intro: assms(1))
  have "P (fold (\<lambda>i st. go_finish (Pool st ! i) i st) is st)" if "P st" for "is" st
    using that by (induction "is" arbitrary: st) (auto intro: g)
  with f show ?thesis by (simp add: batch_loop_def batch_wait_def)
qed

lemma batch_step_simps [simp]:
  "length (Pool (batch_step i st)) = length (Pool st)" "j \<noteq> i \<Longrightarrow> Pool (batch_step i st) ! j = Pool st ! j"
  "Cancelled st \<Longrightarrow> Cancelled (batch_step i st)"
  by (auto simp: batch_step_def split: goroutine.splits option.splits)

lemma batch_step_own: "i < length (Pool st) \<Longrightarrow> Pool (batch_step i st) ! i = (case Pool st ! i of
     GoEnd _ \<Rightarrow> GoEnd None | GoCancel g \<Rightarrow> g | GoStep eff next \<Rightarrow> next (Cancelled st) (BWorld st))"
  by (auto simp: batch_step_def split: goroutine.splits option.splits)

lemma go_finish_ended:
  "i < length (Pool st) \<Longrightarrow> Pool st ! i = g \<Longrightarrow> Pool (go_finish g i st) ! i = GoEnd None"
  by (induction g arbitrary: st rule: goroutine_induct) (simp_all add: batch_step_own)

lemma go_finish_simps [simp]: "length (Pool (go_finish g i st)) = length (Pool st)" "j \<noteq> i \<Longrightarrow> Pool (go_finish g i st) ! j = Pool st ! j"
  by (induction g arbitrary: st rule: goroutine_induct) simp_all

lemma batch_wait_ended: "\<forall>g \<in> set (Pool (batch_wait st)). g = GoEnd None"
proof -
  have "length (Pool (fold (\<lambda>i st. go_finish (Pool st ! i) i st) [0..<n] st)) = length (Pool st)
     \<and> (\<forall>i < n. Pool (fold (\<lambda>i st. go_finish (Pool st ! i) i st) [0..<n] st) ! i = GoEnd None)" if "n \<le> length (Pool st)" for n
    using that
  proof (induction n)
    case (Suc n)
    then show ?case by (auto simp: less_Suc_eq go_finish_ended)
  qed simp
  then show ?thesis by (auto simp: batch_wait_def in_set_conv_nth)
qed

text \<open>Every way a goroutine can end, and every way it can end after it cancelled the batch.\<close>

primrec ends_in :: "(go_error option \<Rightarrow> bool) \<Rightarrow> 'w goroutine \<Rightarrow> bool" where
  "ends_in Q (GoEnd err) = Q err"
| "ends_in Q (GoCancel g) = ends_in Q g"
| "ends_in Q (GoStep eff next) = (\<forall>c w. ends_in Q (next c w))"

primrec cancels_in :: "(go_error option \<Rightarrow> bool) \<Rightarrow> 'w goroutine \<Rightarrow> bool" where
  "cancels_in Q (GoEnd err) = True"
| "cancels_in Q (GoCancel g) = (ends_in Q g \<and> cancels_in Q g)"
| "cancels_in Q (GoStep eff next) = (\<forall>c w. cancels_in Q (next c w))"

text \<open>Some goroutine has sent, or is bound to send, an error with \<open>Q\<close>.\<close>

definition due_error :: "(go_error \<Rightarrow> bool) \<Rightarrow> 'w batch_state \<Rightarrow> bool" where
  "due_error Q st \<longleftrightarrow> (\<exists>e \<in> set (Sent st). Q e) \<or> (\<exists>g \<in> set (Pool st). ends_in (\<lambda>err. \<exists>e. err = Some e \<and> Q e) g)"

lemma due_errorI: "j < length (Pool st) \<Longrightarrow> ends_in (\<lambda>err. \<exists>e. err = Some e \<and> Q e) (Pool st ! j) \<Longrightarrow> due_error Q st"
  unfolding due_error_def using nth_mem by blast

lemma due_error_step:
  assumes "due_error Q st" shows "due_error Q (batch_step i st)"
proof (cases "i < length (Pool st)")
  case True
  let ?R = "\<lambda>err. \<exists>e. err = Some e \<and> Q e"
  from assms consider e where "e \<in> set (Sent st)" "Q e" | j where "j < length (Pool st)" "ends_in ?R (Pool st ! j)"
    by (auto simp: due_error_def in_set_conv_nth)
  then show ?thesis
  proof cases
    case (2 j)
    show ?thesis
    proof (cases "j = i \<and> (\<exists>err. Pool st ! i = GoEnd err)")
      case own: True
      with 2 obtain e where "Pool st ! i = GoEnd (Some e)" "Q e" by auto
      with True show ?thesis by (auto simp: due_error_def batch_step_def)
    next
      case False
      then have "ends_in ?R (Pool (batch_step i st) ! j)"
        using 2 by (cases "j = i"; cases "Pool st ! i") (auto simp: batch_step_own)
      with 2(1) show ?thesis by (intro due_errorI [of j]) simp_all
    qed
  qed (use True in \<open>auto simp: due_error_def batch_step_def split: goroutine.splits option.splits\<close>)
qed (use assms in \<open>simp add: batch_step_def\<close>)

lemma due_error_sent:
  assumes "due_error Q (batch_loop order st)" shows "\<exists>e \<in> set (Sent (batch_loop order st)). Q e"
  using assms batch_wait_ended [of "fold batch_step order st"] by (auto simp: due_error_def batch_loop_def)

text \<open>Once the batch is cancelled, the error of the goroutine that did it is due.\<close>

definition cancel_due :: "(go_error \<Rightarrow> bool) \<Rightarrow> 'w batch_state \<Rightarrow> bool" where
  "cancel_due Q st \<longleftrightarrow> (\<forall>g \<in> set (Pool st). cancels_in (\<lambda>err. \<exists>e. err = Some e \<and> Q e) g) \<and> (Cancelled st \<longrightarrow> due_error Q st)"

lemma cancel_due_step:
  assumes "cancel_due Q st" shows "cancel_due Q (batch_step i st)"
proof (cases "i < length (Pool st)")
  case True
  let ?R = "\<lambda>err. \<exists>e. err = Some e \<and> Q e"
  have c: "cancels_in ?R (Pool st ! i)" using assms True by (simp add: cancel_due_def)
  have own: "cancels_in ?R (Pool (batch_step i st) ! i)" using c True by (cases "Pool st ! i") (auto simp: batch_step_own)
  have "cancels_in ?R (Pool (batch_step i st) ! j)" if "j < length (Pool st)" for j
    using own assms that by (cases "j = i") (auto simp: cancel_due_def)
  then have all: "\<forall>g \<in> set (Pool (batch_step i st)). cancels_in ?R g" by (auto simp: in_set_conv_nth)
  have "due_error Q (batch_step i st)" if "Cancelled (batch_step i st)"
  proof (cases "Cancelled st")
    case False
    with that True obtain g where "Pool st ! i = GoCancel g" by (auto simp: batch_step_def split: goroutine.splits option.splits)
    with c True have "ends_in ?R (Pool (batch_step i st) ! i)" by (simp add: batch_step_own)
    with True show ?thesis by (intro due_errorI [of i]) simp_all
  qed (use assms due_error_step in \<open>auto simp: cancel_due_def\<close>)
  with all show ?thesis by (simp add: cancel_due_def)
qed (use assms in \<open>simp add: batch_step_def\<close>)

lemma go_node_cancels: "(\<And>x. cancels_in Q (k x)) \<Longrightarrow> cancels_in Q (go_node n k)"
  by (induction n rule: node_proc_induct) simp_all

lemma batch_node_cancels: "(\<And>e. is_pause e \<Longrightarrow> Q e) \<Longrightarrow> cancels_in (\<lambda>err. \<exists>e. err = Some e \<and> Q e) (batch_node ops node)"
  by (auto simp: batch_node_def go_emit_def node_outcome_def is_pause_def intro!: go_node_cancels split: sum.splits bool.splits handler_end.splits option.splits)

lemma batch_start_due: "(\<And>e. is_pause e \<Longrightarrow> Q e) \<Longrightarrow> cancel_due Q (batch_start ops nodes ids w)"
  by (auto simp: cancel_due_def batch_start_def batch_node_cancels)

text \<open>A goroutine that has not looked at the context when the batch is cancelled.\<close>

definition left_out :: "nat \<Rightarrow> 'w batch_state \<Rightarrow> 'w batch_state" where
  "left_out i st = st\<lparr>Pool := (Pool st)[i := GoEnd None]\<rparr>"

definition unstarted :: "'w batch_ops \<Rightarrow> nat \<Rightarrow> 'w batch_state \<Rightarrow> bool" where
  "unstarted ops i st \<longleftrightarrow> Cancelled st \<and> i < length (Pool st) \<and> (\<exists>node. Pool st ! i = batch_node ops node)"

lemma unstarted_own: "unstarted ops i st \<Longrightarrow> batch_step i st = left_out i st \<and> batch_step i (left_out i st) = left_out i st"
  by (auto simp: unstarted_def left_out_def batch_step_def batch_node_def)

lemma left_out_parts [simp]: "length (Pool (left_out i st)) = length (Pool st)" "Cancelled (left_out i st) = Cancelled st" "BWorld (left_out i st) = BWorld st"
  "Sent (left_out i st) = Sent st" "j \<noteq> i \<Longrightarrow> Pool (left_out i st) ! j = Pool st ! j"
  by (simp_all add: left_out_def)

lemma unstarted_other:
  assumes "unstarted ops i st" "j \<noteq> i"
  shows "unstarted ops i (batch_step j st) \<and> batch_step j (left_out i st) = left_out i (batch_step j st)"
proof -
  have "batch_step j (left_out i st) = left_out i (batch_step j st)"
    using assms(2) by (cases "Pool st ! j") (auto simp: batch_step_def left_out_def list_update_swap split: option.splits)
  with assms show ?thesis by (simp add: unstarted_def)
qed

lemma unstarted_finish:
  "unstarted ops i st \<Longrightarrow> j \<noteq> i \<Longrightarrow> unstarted ops i (go_finish g j st) \<and> go_finish g j (left_out i st) = left_out i (go_finish g j st)"
proof (induction g arbitrary: st rule: goroutine_induct)
  case (GoStep eff rest)
  from unstarted_other [OF GoStep.prems] GoStep.IH GoStep.prems show ?case by simp
next
  case (GoCancel g)
  from unstarted_other [OF GoCancel.prems] GoCancel.IH GoCancel.prems show ?case by simp
qed (simp add: unstarted_other)

lemma unstarted_wait:
  assumes "unstarted ops i st" "i \<in> set is" "distinct is"
  shows "fold (\<lambda>i st. go_finish (Pool st ! i) i st) is st = fold (\<lambda>i st. go_finish (Pool st ! i) i st) is (left_out i st)"
  using assms
proof (induction "is" arbitrary: st)
  case (Cons j js)
  show ?case
  proof (cases "j = i")
    case True
    from Cons.prems(1) obtain node where n: "Pool st ! i = batch_node ops node" "i < length (Pool st)" "Cancelled st" by (auto simp: unstarted_def)
    have "go_finish (Pool st ! i) i st = left_out i st"
      using unstarted_own [OF Cons.prems(1)] n by (simp add: batch_node_def)
    moreover have "go_finish (Pool (left_out i st) ! i) i (left_out i st) = left_out i st"
      using unstarted_own [OF Cons.prems(1)] n(2) by (simp add: left_out_def)
    ultimately show ?thesis using True by simp
  next
    case False
    with unstarted_finish [OF Cons.prems(1) False, of "Pool st ! j"] Cons show ?thesis by simp
  qed
qed simp

lemma unstarted_left_out: "unstarted ops i st \<Longrightarrow> batch_loop order st = batch_loop order (left_out i st)"
proof (induction order arbitrary: st)
  case Nil
  then show ?case using unstarted_wait [OF Nil, of "[0..<length (Pool st)]"] by (simp add: batch_loop_def batch_wait_def unstarted_def)
next
  case (Cons j order)
  show ?case
  proof (cases "j = i")
    case True
    with unstarted_own [OF Cons.prems] show ?thesis by (simp add: batch_loop_def)
  next
    case False
    with unstarted_other [OF Cons.prems False] Cons.IH show ?thesis by (simp add: batch_loop_def)
  qed
qed

lemma fold_step_other: "i \<notin> set order \<Longrightarrow> Pool (fold batch_step order st) ! i = Pool st ! i"
  "length (Pool (fold batch_step order st)) = length (Pool st)"
  by (induction order arbitrary: st) auto


text \<open>
  Nodes whose run is what their reference says: \<open>ok\<close>, \<open>fail\<close> or \<open>pause\<close>; the world lists the nodes run. Here the first and the third node have started when
  the second pauses: the third still runs to its end, and the fourth never starts.
\<close>

definition sample_batch_ops :: "string list batch_ops" where
  "sample_batch_ops = \<lparr>BatchCtxErr = (\<lambda>_. None), BatchOrder = (\<lambda>_ _. [0, 1, 2, 2, 2, 1, 1, 1, 1, 3]), CondEnabled = (\<lambda>_ _ w. (w, Inr True)),
     RunNodeRetry = (\<lambda>n. NodeStep (\<lambda>_ w. w @ [NodeID n]) (\<lambda>_ _. NodeEnd (HandlerReturns
        (if NodeRef n = ''fail'' then Some ErrNotFound
         else if NodeRef n = ''pause'' then Some (WorkflowPausedError ''r'' (NodeID n) ''t'') else None)))),
     EmitStep = (\<lambda>_ w. w)\<rparr>"

definition batch_nodes :: "(string \<times> workflow_node) list" where
  "batch_nodes = map (\<lambda>(i, r). (i, (sample_node i NodeAgent [])\<lparr>NodeRef := r\<rparr>))
     [(''a'', ''fail''), (''b'', ''pause''), (''c'', ''ok''), (''d'', ''ok'')]"

lemma sample_batch:
  "runBatch sample_batch_ops batch_nodes [''a'', ''b'', ''c'', ''d''] [] = ([''b'', ''a'', ''c''], Some (WorkflowPausedError ''r'' ''b'' ''t''))"
  "Cancelled (batch_loop (BatchOrder sample_batch_ops [] [''a'', ''b'', ''c'', ''d'']) (batch_start sample_batch_ops batch_nodes [''a'', ''b'', ''c'', ''d''] []))"
  by code_simp+


text \<open>
  A context that ends between the scheduler's check and the start of a batch makes the batch succeed
  without running anything. For a workflow of one node whose run is cancelled or times out while the
  scheduler evaluates whether to skip the node, the run ends without error and without having called the
  node.
\<close>

theorem cancelled_batch_succeeds:
  assumes "MainWorkflow (Orch s) = Some w" and "Nodes w = [n]" and "Edges w = []" and "NodeKind n \<noteq> NodeLoop" and "DependsOn n = []"
    and "BatchCtxErr ops world = None" and "should_skip (NodeID n) world = (world1, Inr False)"
    and "BatchCtxErr ops world1 = Some e"
  shows "WorkflowRunner_run (runner_ops ops should_skip w) decode_loop s [] world = (world1, [Batch [NodeID n]], None)"
proof -
  have body: "loopBodyNodeIDs decode_loop w = Inr []" using assms(2,4) by (simp add: loopBodyNodeIDs_def)
  have ids: "map fst (workflowNodesByID w) = [NodeID n]" using assms(2) by (simp add: workflowNodesByID_def)
  have ready: "sort_stable str_less (readyNodes [NodeID n] [] (dependencies w)) = [NodeID n]"
    using assms(2,3,5) by (simp add: readyNodes_def dependencies_def set_of_def sort_stable_def)
  have "Sent (batch_loop order st) = [] \<and> BWorld (batch_loop order st) = world1 \<and> Pool (batch_loop order st) \<in> {[batch_node ops node], [GoEnd None]}"
    if "Sent st = []" "BWorld st = world1" "Pool st \<in> {[batch_node ops node], [GoEnd None]}" for order st node
    by (rule batch_loop_inv [where P = "\<lambda>st. Sent st = [] \<and> BWorld st = world1 \<and> Pool st \<in> {[batch_node ops node], [GoEnd None]}"])
      (use that assms(8) in \<open>auto simp: batch_step_def batch_node_def\<close>)
  from this [of "batch_start ops (workflowNodesByID w) [NodeID n] world1" "node_in (workflowNodesByID w) (NodeID n)"]
  have batch: "runBatch ops (workflowNodesByID w) [NodeID n] world1 = (world1, None)"
    by (simp add: runBatch_def batch_start_def drain_eq Let_def)
  obtain k where m: "maxParallel (OrchMaxParallel (Orch s)) (RtMaxParallel (Runtime s)) = Suc k"
    using maxParallel_pos by (metis Suc_le_D One_nat_def)
  have "sched_round (runner_ops ops should_skip w) (dependencies w) (OrchMaxParallel (Orch s)) (RtMaxParallel (Runtime s))
      [NodeID n] [] world = (world1, [Batch [NodeID n]], Inr ([], [NodeID n]))"
    using assms(6,7) batch by (simp add: sched_round_def Let_def ready m runner_ops_def)
  then show ?thesis
    using assms(1) body ids by (simp add: WorkflowRunner_run_def run_loop.simps)
qed

theorem cancelled_batch_succeeds_witness:
  "let w = \<lparr>Nodes = [sample_node ''a'' NodeTool []], Edges = []\<rparr>;
       ops = \<lparr>BatchCtxErr = (\<lambda>c. if c then Some (ErrContext Canceled) else None), BatchOrder = (\<lambda>_ ids. [0]),
         CondEnabled = (\<lambda>_ _ c. (c, Inr True)), RunNodeRetry = (\<lambda>_. NodeEnd (HandlerReturns (Some ErrNotFound))),
         EmitStep = (\<lambda>_ c. c)\<rparr>
   in WorkflowRunner_run (runner_ops ops (\<lambda>_ _. (True, Inr False)) w) loop_decoder (scenario_of w) [] False
        = (True, [Batch [''a'']], None)"
proof -
  let ?w = "\<lparr>Nodes = [sample_node ''a'' NodeTool []], Edges = []\<rparr>"
  have "NodeID (sample_node ''a'' NodeTool []) = ''a''" by (simp add: sample_node_def zero_defs)
  then show ?thesis
    using cancelled_batch_succeeds [of "scenario_of ?w" ?w "sample_node ''a'' NodeTool []" _ False "\<lambda>_ _. (True, Inr False)" True
        "ErrContext Canceled" loop_decoder] unfolding Let_def by (simp add: sample_node_def zero_defs)
qed

end
