(* ===== verification/Workflow_Validated.thy ===== *)
theory Workflow_Validated
  imports Config_Validate Workflow_Schedule
begin

text \<open>
  What validation buys the engine: the composition of \<^verbatim>\<open>internal/adapter/config/yaml/validate.go\<close> with
  \<^verbatim>\<open>internal/application/orchestration/workflow.go\<close>. An accepted scenario is well typed, every name in it
  resolves to a definition of the right kind, and the scheduler finishes an accepted workflow exactly when
  none of the nodes it schedules waits for the body of a loop.
\<close>

section \<open>Well-typed scenarios\<close>

abbreviation names :: "(string \<times> 'a) list \<Rightarrow> string set" where
  "names m \<equiv> fst ` set m"

lemma refers_names [simp]: "refers m k \<longleftrightarrow> k \<in> names m"
  by (simp add: refers_def map_of_eq_None_iff)

text \<open>The agents and tools a node names, directly or through its input.\<close>

definition node_agents :: "decoders \<Rightarrow> workflow_node \<Rightarrow> string set" where
  "node_agents dec n = (case NodeKind n of
       NodeAgent \<Rightarrow> {NodeRef n}
     | NodeParallelGroup \<Rightarrow>
         (if NodeInput n = [] then {NodeRef n}
          else (case DecodeGroup dec (NodeInput n) of
              Inl _ \<Rightarrow> {}
            | Inr g \<Rightarrow> if GroupRefs g = [] \<and> NodeRef n \<noteq> [] then {NodeRef n} else set (GroupRefs g)))
     | NodeMap \<Rightarrow> (case DecodeMap dec (NodeInput n) of
           Inl _ \<Rightarrow> {} | Inr m \<Rightarrow> if MapBranchKind m = NodeAgent then {MapBranchRef m} else {})
     | _ \<Rightarrow> {})"

definition node_tools :: "decoders \<Rightarrow> workflow_node \<Rightarrow> string set" where
  "node_tools dec n = (case NodeKind n of
       NodeTool \<Rightarrow> {NodeRef n}
     | NodeParallelGroup \<Rightarrow>
         (if NodeInput n = [] then {}
          else (case DecodeGroup dec (NodeInput n) of Inl _ \<Rightarrow> {} | Inr g \<Rightarrow> set (GroupTools g)))
     | NodeMap \<Rightarrow> (case DecodeMap dec (NodeInput n) of
           Inl _ \<Rightarrow> {} | Inr m \<Rightarrow> if MapBranchKind m = NodeTool then {MapBranchRef m} else {})
     | _ \<Rightarrow> {})"

text \<open>What the input of a node has to hold.\<close>

definition input_typed :: "decoders \<Rightarrow> scenario \<Rightarrow> workflow_node \<Rightarrow> bool" where
  "input_typed dec s n = (case NodeKind n of
       NodeLoop \<Rightarrow> (\<exists>body w. DecodeBody dec (NodeInput n) = Inr body \<and> body \<noteq> [] \<and> MainWorkflow (Orch s) = Some w \<and> set body \<subseteq> NodeID ` set (Nodes w))
     | NodeMap \<Rightarrow> (\<exists>m. DecodeMap dec (NodeInput n) = Inr m \<and> trim_space (MapItemsPath m) \<noteq> [] \<and> MapBranchKind m \<in> {NodeAgent, NodeTool, NodeTransform}
         \<and> valid_on_error (MapOnError m))
     | NodeParallelGroup \<Rightarrow> NodeInput n = [] \<or> (\<exists>g. DecodeGroup dec (NodeInput n) = Inr g \<and> valid_on_error (GroupOnError g))
     | NodeSupervisor \<Rightarrow> NodeRef n \<noteq> [] \<or> NodeInput n \<noteq> []
     | _ \<Rightarrow> True)"

definition kind_names :: "string set" where
  "kind_names = {''agent'', ''tool'', ''skill'', ''human_gate'', ''transform'', ''parallel_group'', ''loop'', ''query_router'', ''rag_grade'', ''supervisor'',
     ''subgraph'', ''map''}"

definition node_typed :: "decoders \<Rightarrow> scenario \<Rightarrow> workflow_node \<Rightarrow> bool" where
  "node_typed dec s n \<longleftrightarrow> input_typed dec s n \<and>
     node_agents dec n \<subseteq> names (Agents s) \<and> node_tools dec n \<subseteq> names (Tools s)
     \<and> (NodeKind n = NodeSkill \<longrightarrow> NodeRef n \<in> names (Skills s))
     \<and> (NodeKind n = NodeSubgraph \<longrightarrow> NodeRef n \<in> names (Workflows (Orch s)))
     \<and> node_kind_text (NodeKind n) \<in> kind_names"

definition workflows_of :: "scenario \<Rightarrow> workflow set" where
  "workflows_of s = set_option (MainWorkflow (Orch s)) \<union> snd ` set (Workflows (Orch s))
     \<union> {w. \<exists>(name, sk) \<in> set (Skills s). SkillWorkflow sk = Some w}"

definition optional_name :: "(string \<times> 'a) list \<Rightarrow> string \<Rightarrow> bool" where
  "optional_name m k \<longleftrightarrow> k = [] \<or> k \<in> names m"

text \<open>The values of the enumerations; an empty text stands for the default.\<close>

definition approval_named :: "approval_policy \<Rightarrow> bool" where
  "approval_named a \<longleftrightarrow> approval_text a \<in> {[], ''never'', ''risky'', ''always'', ''pause''}"

definition effect_named :: "side_effect_level \<Rightarrow> bool" where
  "effect_named e \<longleftrightarrow> side_effect_text e \<in> {[], ''none'', ''read'', ''write'', ''external'', ''dangerous''}"

definition memory_typed :: "memory_ref \<Rightarrow> bool" where
  "memory_typed m \<longleftrightarrow> MemoryType m \<in> {''in_memory'', ''file'', ''custom''} \<and> MemoryScope m \<in> {''conversation'', ''session'', ''long_term'', ''audit''}
     \<and> (MemoryScope m \<in> {''session'', ''long_term''} \<longrightarrow> trim_space (MemoryNamespace m) \<noteq> [])
     \<and> (\<forall>t. MemoryTiers m = Some t \<and> TiersEnabled t \<longrightarrow> MemoryType m \<noteq> ''file''
          \<and> (\<forall>n \<in> {HotCapacity t, WarmCapacity t, ColdCapacity t, PromoteAccess t, BudgetTotal t, BudgetHot t, BudgetWarm t, BudgetCold t}. 0 \<le> n))"

definition tool_typed :: "scenario \<Rightarrow> tool \<Rightarrow> bool" where
  "tool_typed s t \<longleftrightarrow> ToolType t \<noteq> [] \<and> approval_named (ToolApproval t) \<and> effect_named (ToolSideEffect t) \<and> 0 \<le> ToolRateCap t
     \<and> optional_name (LLMs s) (ToolLLM t)"

definition policy_typed :: "scenario \<Rightarrow> skill_tool_policy \<Rightarrow> bool" where
  "policy_typed s p \<longleftrightarrow> PolicyTool p \<in> names (Tools s) \<and> approval_named (PolicyApproval p) \<and> effect_named (PolicySideEffect p) \<and> 0 \<le> PolicyRateCap p"

definition skill_typed :: "scenario \<Rightarrow> skill \<Rightarrow> bool" where
  "skill_typed s sk \<longleftrightarrow> set (CompatibleAgents sk) \<subseteq> names (Agents s) \<and> (\<forall>p \<in> set (ToolPolicies sk). policy_typed s p)"

definition agent_typed :: "scenario \<Rightarrow> string \<Rightarrow> agent \<Rightarrow> bool" where
  "agent_typed s name a \<longleftrightarrow> optional_name (LLMs s) (AgentLLM a) \<and> optional_name (Memories s) (AgentMemory a)
     \<and> set (AgentTools a) \<subseteq> names (Tools s)
     \<and> (\<forall>k \<in> set (AgentSkills a). \<exists>sk. map_of (Skills s) k = Some sk \<and> (CompatibleAgents sk = [] \<or> name \<in> set (CompatibleAgents sk)))"

definition mode_typed :: "scenario \<Rightarrow> bool" where
  "mode_typed s \<longleftrightarrow> mode_text (Mode (Orch s)) \<in> {[], ''autonomous'', ''hybrid'', ''fixed_workflow''}
     \<and> (Mode (Orch s) = OrchestrationFixedWorkflow \<longrightarrow> MainWorkflow (Orch s) \<noteq> None)"

definition scenario_typed :: "decoders \<Rightarrow> scenario \<Rightarrow> bool" where
  "scenario_typed dec s \<longleftrightarrow> ScName s \<noteq> [] \<and> Agents s \<noteq> []
     \<and> (\<forall>p \<in> snd ` set (LLMs s). ProfileProvider p \<noteq> [] \<and> ProfileModel p \<noteq> [])
     \<and> (\<forall>m \<in> snd ` set (Memories s). memory_typed m)
     \<and> (\<forall>t \<in> snd ` set (Tools s). tool_typed s t)
     \<and> (\<forall>sk \<in> snd ` set (Skills s). skill_typed s sk)
     \<and> (\<forall>(name, a) \<in> set (Agents s). agent_typed s name a)
     \<and> (\<forall>t \<in> set (Triggers s). trim_space (TriggerEvent t) \<noteq> [] \<and> optional_name (Agents s) (TriggerAgent t))
     \<and> distinct (map TriggerEvent (Triggers s))
     \<and> 0 \<le> PlanningMaxSteps (Orch s) \<and> optional_name (Agents s) (PlanningAgent (Orch s)) \<and> mode_typed s
     \<and> (\<forall>w \<in> workflows_of s. well_formed w \<and> (\<forall>n \<in> set (Nodes w). node_typed dec s n))"

section \<open>An accepted scenario is well typed\<close>

lemma supported_kinds: "containsString supportedWorkflowNodeKinds k \<longleftrightarrow> k \<in> kind_names"
  by (auto simp: containsString_def list_ex_iff supportedWorkflowNodeKinds_def kind_names_def)

lemma supported_approvals: "approval_text a = [] \<or> containsString supportedApprovalPolicies (approval_text a) \<longleftrightarrow> approval_named a"
  by (auto simp: containsString_def list_ex_iff supportedApprovalPolicies_def approval_named_def)

lemma supported_effects: "side_effect_text e = [] \<or> containsString supportedSideEffects (side_effect_text e) \<longleftrightarrow> effect_named e"
  by (auto simp: containsString_def list_ex_iff supportedSideEffects_def effect_named_def)

lemmas typed_node_defs = node_typed_def input_typed_def node_agents_def node_tools_def

lemma validateWorkflowNode_typed:
  assumes "validateWorkflowNode dec sub n s = Verdict None"
  shows "node_typed dec s n"
proof -
  have kind: "containsString supportedWorkflowNodeKinds (node_kind_text (NodeKind n))" "node_kind_text (NodeKind n) \<in> kind_names"
    using assms by (simp_all add: validateWorkflowNode_def supported_kinds split: if_splits)
  show ?thesis
  proof (cases "NodeKind n")
    case NodeParallelGroup
    then have "validateParallelGroupNode dec n s = None" using assms kind by (simp add: validateWorkflowNode_def)
    then show ?thesis using NodeParallelGroup kind
      by (auto simp: validateParallelGroupNode_def typed_node_defs Let_def split: if_splits sum.splits)
  next
    case NodeLoop
    then have "validateLoopNode dec n s = Verdict None" using assms kind by (simp add: validateWorkflowNode_def)
    then show ?thesis using NodeLoop kind
      by (auto simp: validateLoopNode_def typed_node_defs split: if_splits sum.splits option.splits)
  next
    case NodeMap
    then have "validateMapNode dec n s = None" using assms kind by (simp add: validateWorkflowNode_def)
    then show ?thesis using NodeMap kind
      by (auto simp: validateMapNode_def typed_node_defs split: if_splits sum.splits)
  next
    case NodeSubgraph
    then show ?thesis using assms kind
      by (auto simp: validateWorkflowNode_def typed_node_defs map_of_eq_None_iff
          dest: map_of_SomeD split: if_splits option.splits) (force dest: map_of_SomeD)
  qed (use assms kind in \<open>auto simp: validateWorkflowNode_def typed_node_defs split: if_splits\<close>)
qed

lemma validate_memory_typed: "validate_memory (name, m) = None \<Longrightarrow> memory_typed m"
  by (auto simp: validate_memory_def memory_typed_def containsString_def list_ex_iff supportedMemoryTypes_def supportedMemoryScopes_def
      split: option.splits if_splits)

lemma validate_tool_typed: "validate_tool s (name, t) = None \<Longrightarrow> tool_typed s t"
  using supported_approvals [of "ToolApproval t"] supported_effects [of "ToolSideEffect t"]
  by (auto simp: validate_tool_def tool_typed_def optional_name_def)

lemma validate_policy_typed: "validate_skill_policy s name p = None \<Longrightarrow> policy_typed s p"
  using supported_approvals [of "PolicyApproval p"] supported_effects [of "PolicySideEffect p"]
  by (auto simp: validate_skill_policy_def policy_typed_def)

lemma trigger_loop_ok:
  "trigger_loop s ts i seen = None \<Longrightarrow> (\<forall>t \<in> set ts. trim_space (TriggerEvent t) \<noteq> [] \<and> optional_name (Agents s) (TriggerAgent t) \<and> TriggerEvent t \<notin> set seen)
     \<and> distinct (map TriggerEvent ts)"
proof (induction ts arbitrary: i seen)
  case (Cons t ts)
  then have "trigger_loop s ts (i + 1) (TriggerEvent t # seen) = None" and "TriggerEvent t \<notin> set seen"
    and "optional_name (Agents s) (TriggerAgent t)" and "trim_space (TriggerEvent t) \<noteq> []"
    by (simp_all add: optional_name_def split: if_splits)
  with Cons.IH [of "i + 1" "TriggerEvent t # seen"] show ?case by fastforce
qed simp

lemma validate_agent_typed: "validate_agent s (name, a) = None \<Longrightarrow> agent_typed s name a"
proof -
  assume ok: "validate_agent s (name, a) = None"
  have "\<exists>sk. map_of (Skills s) k = Some sk \<and> (CompatibleAgents sk = [] \<or> name \<in> set (CompatibleAgents sk))" if "k \<in> set (AgentSkills a)" for k
    using ok that by (cases "map_of (Skills s) k") (auto simp: validate_agent_def containsString_def list_ex_iff)
  then show ?thesis using ok by (auto simp: validate_agent_def agent_typed_def optional_name_def)
qed

lemma validateWorkflow_typed:
  assumes "validateWorkflow dec walk fuel w s = Verdict None" and "set (walk w) = NodeID ` set (Nodes w)"
  shows "well_formed w \<and> (\<forall>n \<in> set (Nodes w). node_typed dec s n)"
proof (cases fuel)
  case (Suc k)
  with assms validateWorkflow_accepts [of walk w dec k s, OF assms(2)] show ?thesis
    using validateWorkflowNode_typed by blast
qed (use assms in simp)


section \<open>An accepted workflow completes\<close>

lemma loop_body_ids_ok:
  "(\<And>n. n \<in> set ns \<Longrightarrow> NodeKind n = NodeLoop \<Longrightarrow> \<exists>spec. decode (NodeInput n) = Inr spec) \<Longrightarrow> \<exists>out. loop_body_ids decode ns ids = Inr out"
proof (induction ns arbitrary: ids)
  case (Cons n ns)
  show ?case
  proof (cases "NodeKind n = NodeLoop")
    case True
    then obtain spec where "decode (NodeInput n) = Inr spec" using Cons.prems by auto
    with Cons show ?thesis by simp
  qed (use Cons in simp)
qed simp

lemma loop_body_ids_bad:
  "loop_body_ids decode ns ids = Inr out \<Longrightarrow> n \<in> set ns \<Longrightarrow> NodeKind n = NodeLoop \<Longrightarrow> NodeInput n \<noteq> [] \<Longrightarrow> \<exists>spec. decode (NodeInput n) = Inr spec"
  by (induction decode ns ids rule: loop_body_ids.induct) (auto split: if_splits sum.splits)

text \<open>The runner can read the input of every loop.\<close>

definition loops_decode :: "(bytes \<Rightarrow> go_error + loop_spec) \<Rightarrow> workflow \<Rightarrow> bool" where
  "loops_decode decode w \<longleftrightarrow> (\<forall>n \<in> set (Nodes w). NodeKind n = NodeLoop \<longrightarrow> (\<exists>spec. decode (NodeInput n) = Inr spec))"

lemma validated_loops:
  assumes "validateWorkflow dec walk fuel w s = Verdict None" and "set (walk w) = NodeID ` set (Nodes w)"
  shows "loops_decode decode w \<longleftrightarrow> (\<exists>bodyOnly. loopBodyNodeIDs decode w = Inr bodyOnly)"
proof -
  obtain k where "fuel = Suc k" using assms by (cases fuel) auto
  with assms have nodes: "\<forall>n \<in> set (Nodes w). validateWorkflowNode dec (\<lambda>w'. validateWorkflow dec walk k w' s) n s = Verdict None"
    using validateWorkflow_accepts by blast
  have "NodeInput n \<noteq> []" if "n \<in> set (Nodes w)" "NodeKind n = NodeLoop" for n
    using nodes that by (fastforce simp: validateWorkflowNode_def validateLoopNode_def split: if_splits)
  then show ?thesis
    unfolding loops_decode_def loopBodyNodeIDs_def using loop_body_ids_ok [of "Nodes w" decode] loop_body_ids_bad [of decode "Nodes w" "[]"] by metis
qed

lemma well_formed_wf:
  assumes "well_formed w" shows "wf (dep_rel w)"
proof -
  have "dep_rel w \<subseteq> NodeID ` set (Nodes w) \<times> NodeID ` set (Nodes w)"
    using assms unfolding well_formed_def by (force simp: dep_rel_iff)
  then have "finite (dep_rel w)" by (rule finite_subset) simp
  with assms show ?thesis unfolding well_formed_def by (simp add: finite_acyclic_wf)
qed

lemma all_can_run:
  assumes "wf r"
  shows "S \<subseteq> can_run (\<lambda>i. {d. (d, i) \<in> r}) S D \<longleftrightarrow> (\<forall>(d, i) \<in> r. i \<in> S \<longrightarrow> d \<in> S \<union> D)"
proof
  assume all: "S \<subseteq> can_run (\<lambda>i. {d. (d, i) \<in> r}) S D"
  have "d \<in> S \<union> D" if "(d, i) \<in> r" "i \<in> S" for d i
    using all that by (blast elim: can_run.cases dest: can_run_in)
  then show "\<forall>(d, i) \<in> r. i \<in> S \<longrightarrow> d \<in> S \<union> D" by blast
next
  assume known: "\<forall>(d, i) \<in> r. i \<in> S \<longrightarrow> d \<in> S \<union> D"
  have "i \<in> S \<longrightarrow> i \<in> can_run (\<lambda>i. {d. (d, i) \<in> r}) S D" for i
    using assms
  proof (induction i rule: wf_induct_rule)
    case (less i)
    then show ?case using known by (blast intro: can_run.intros)
  qed
  then show "S \<subseteq> can_run (\<lambda>i. {d. (d, i) \<in> r}) S D" by blast
qed

text \<open>
  C24: the engine finishes what validation accepts, except around loops. For a scenario that
  validation accepts, when no node fails and the context stays live, a run of the main workflow always
  returns, and it returns without error exactly when the runner can decode the input of every loop and no node that is
  still to be scheduled depends on the body of a loop. Validation decodes only the body of a loop, and does not forbid such a
  dependency; with either the run fails.
\<close>

theorem validated_run_completes:
  assumes "Validate dec walk fuel s = Verdict None" and "MainWorkflow (Orch s) = Some w"
    and "\<And>w. set (walk w) = NodeID ` set (Nodes w)" and "never_fails ops"
  shows "\<exists>world' log err. WorkflowRunner_run ops decode s alreadyDone world = (world', log, err)
     \<and> (err = None \<longleftrightarrow> loops_decode decode w
          \<and> (\<forall>(d, i) \<in> dep_rel w. i \<in> schedulable decode w - set alreadyDone \<longrightarrow> d \<in> schedulable decode w))"
proof (cases "loopBodyNodeIDs decode w")
  case (Inl e)
  have "\<not> loops_decode decode w" using validated_loops [of dec walk fuel w s decode] Validate_workflows assms(1-3) Inl by auto
  with Inl assms(2) show ?thesis by (simp add: WorkflowRunner_run_def)
next
  case (Inr bodyOnly)
  let ?S = "schedulable decode w - set alreadyDone" and ?D = "schedulable decode w \<inter> set alreadyDone"
  have ok: "validateWorkflow dec walk fuel w s = Verdict None" using Validate_workflows assms(1,2) by blast
  have dec: "loops_decode decode w" using validated_loops [OF ok assms(3)] Inr by blast
  obtain world' log err rest where r: "WorkflowRunner_run ops decode s alreadyDone world = (world', log, err)"
    "set (log_ids log) = can_run (\<lambda>i. {d. (d, i) \<in> dep_rel w}) ?S ?D"
    "set rest = ?S - set (log_ids log)" "err = (if rest = [] then None else Some (no_ready_nodes rest))"
    using WorkflowRunner_run_exact [OF assms(2) Inr assms(4), of alreadyDone world] by blast
  have "err = None \<longleftrightarrow> set rest = {}" using r(4) by simp
  also have "\<dots> \<longleftrightarrow> ?S \<subseteq> can_run (\<lambda>i. {d. (d, i) \<in> dep_rel w}) ?S ?D" unfolding r(2,3) by blast
  also have "\<dots> \<longleftrightarrow> (\<forall>(d, i) \<in> dep_rel w. i \<in> ?S \<longrightarrow> d \<in> ?S \<union> ?D)"
    using validateWorkflow_typed [OF ok assms(3)] by (intro all_can_run well_formed_wf) simp
  also have "?S \<union> ?D = schedulable decode w" by blast
  finally show ?thesis using r(1) dec by blast
qed

section \<open>Witnesses\<close>

definition typed_scenario :: "workflow \<Rightarrow> scenario" where
  "typed_scenario w = zero_scenario\<lparr>ScName := ''s'', Agents := [(''ag'', \<lparr>AgentLLM = [], AgentMemory = [], AgentTools = [], AgentSkills = []\<rparr>)],
     Tools := [(''t'', zero_tool\<lparr>ToolType := ''x''\<rparr>)], Orch := zero_orchestration\<lparr>MainWorkflow := Some w\<rparr>\<rparr>"

definition with_refs :: "workflow \<Rightarrow> workflow" where
  "with_refs w = w\<lparr>Nodes := map (\<lambda>n. if NodeKind n = NodeTool then n\<lparr>NodeRef := ''t''\<rparr> else n) (Nodes w)\<rparr>"

lemma MainWorkflow_typed_scenario [simp]: "MainWorkflow (Orch (typed_scenario w)) = Some w"
  by (simp add: typed_scenario_def)


text \<open>
  A scenario with a loop is accepted and its run completes; with a decoder that refuses the input of the loop, which validation does not
  ask, it is accepted as well and its run fails.
\<close>

theorem validated_run_completes_witness:
  "snd (snd (WorkflowRunner_run sample_ops loop_decoder (typed_scenario (with_refs loop_workflow)) [] [])) = None
   \<and> snd (snd (WorkflowRunner_run sample_ops (\<lambda>_. Inl (ErrHost ''number'')) (typed_scenario (with_refs loop_workflow)) [] [])) \<noteq> None"
proof -
  have v: "Validate sample_decoders node_walk 1 (typed_scenario (with_refs loop_workflow)) = Verdict None" by code_simp
  note c = validated_run_completes [OF v MainWorkflow_typed_scenario set_node_walk never_fails_sample_ops, of _ "[]" "[]"]
  have r: "snd (snd (WorkflowRunner_run sample_ops loop_decoder (typed_scenario (with_refs loop_workflow)) [] [])) = None" by code_simp
  have "\<not> loops_decode (\<lambda>_. Inl (ErrHost ''number'')) (with_refs loop_workflow)"
    by (auto simp: loops_decode_def with_refs_def loop_workflow_def sample_node_def)
  with c [of "\<lambda>_. Inl (ErrHost ''number'')"] r show ?thesis by auto
qed

end
