(* ===== verification/Workflow_Condition.thy ===== *)
theory Workflow_Condition
  imports Workflow_Store Go_Json
begin

text \<open>
  Workflow expressions of \<^verbatim>\<open>internal/application/orchestration\<close>: paths into step outputs, node and edge
  conditions and the transform node of \<^verbatim>\<open>workflow.go\<close>, edge skipping of \<^verbatim>\<open>workflow_edges.go\<close>, node inputs
  of \<^verbatim>\<open>workflow_input.go\<close> and runtime secrets of \<^verbatim>\<open>secrets.go\<close>.

  The text of a JSON value is read and written by the functions of a \<open>json_codec\<close>. A map is an association list in the
  order the runtime walks it.
\<close>

section \<open>JSON values\<close>

record node_input_spec =
  CopyFrom :: "(string \<times> string) list"
  PromptFrom :: string

record transform_spec =
  TransformSet :: "(string \<times> json) list"
  TransformCopy :: "(string \<times> string) list"

record json_codec =
  DecodeJSON :: "bytes \<Rightarrow> go_error + json"
  EncodeJSON :: "json \<Rightarrow> go_error + bytes"
  DecodeInputSpec :: "bytes \<Rightarrow> node_input_spec option"
  DecodeTransform :: "bytes \<Rightarrow> go_error + transform_spec"

text \<open>The integer of int64 that a finite float64 stands for, if it stands for one.\<close>

definition float_int :: "64 word \<Rightarrow> int option" where
  "float_int f =
     (let b = uint f; neg = (b \<ge> 2 ^ 63); ex = (b div 2 ^ 52) mod 2 ^ 11; frac = b mod 2 ^ 52 in
      if ex = 0 then (if frac = 0 then Some 0 else None)
      else if ex = 2047 then None
      else (let mant = 2 ^ 52 + frac;
                v = (if 1075 \<le> ex then Some (mant * 2 ^ nat (ex - 1075))
                     else if 2 ^ nat (1075 - ex) dvd mant then Some (mant div 2 ^ nat (1075 - ex)) else None)
            in (case v of
                  None \<Rightarrow> None
                | Some m \<Rightarrow> (let i = (if neg then - m else m) in if - (2 ^ 63) \<le> i \<and> i < 2 ^ 63 then Some i else None))))"

fun normalizeWorkflowValue :: "json \<Rightarrow> json" where
  "normalizeWorkflowValue (JFloat f) = (case float_int f of Some i \<Rightarrow> JInt i | None \<Rightarrow> JFloat f)"
| "normalizeWorkflowValue (JObject kvs) = JObject (map (\<lambda>(k, v). (k, normalizeWorkflowValue v)) kvs)"
| "normalizeWorkflowValue (JArray vs) = JArray (map normalizeWorkflowValue vs)"
| "normalizeWorkflowValue v = v"

text \<open>
  \<^verbatim>\<open>workflowValuesEqual\<close> compares the encoded texts. Values that were decoded from JSON can be encoded, so its
  last line, which compares their \<^verbatim>\<open>fmt.Sprint\<close> texts, is never reached; it is the parameter \<open>sprint\<close>.
\<close>

definition workflowValuesEqual :: "json_codec \<Rightarrow> (json \<Rightarrow> string) \<Rightarrow> json \<Rightarrow> json \<Rightarrow> bool" where
  "workflowValuesEqual jc sprint l r =
     (let l' = normalizeWorkflowValue l; r' = normalizeWorkflowValue r in
      case (EncodeJSON jc l', EncodeJSON jc r') of
        (Inr a, Inr b) \<Rightarrow> a = b
      | _ \<Rightarrow> sprint l' = sprint r')"

section \<open>Paths\<close>

text \<open>\<^verbatim>\<open>strconv.Atoi\<close>: an optional sign and decimal digits, in the range of int64.\<close>

definition digit :: "char \<Rightarrow> bool" where
  "digit c \<longleftrightarrow> 48 \<le> byte c \<and> byte c \<le> 57"

definition atoi :: "string \<Rightarrow> int option" where
  "atoi s =
     (let neg = has_prefix s ''-''; ds = (if has_prefix s ''-'' \<or> has_prefix s ''+'' then tl s else s);
          n = foldl (\<lambda>acc c. 10 * acc + (int (byte c) - 48)) 0 ds; v = (if neg then - n else n) in
      if ds = [] \<or> \<not> list_all digit ds \<or> v < - (2 ^ 63) \<or> 2 ^ 63 \<le> v then None else Some v)"

fun walk_path :: "string list \<Rightarrow> json \<Rightarrow> json option" where
  "walk_path [] current = Some current"
| "walk_path (part # parts) current =
     (if part = [] then None
      else (case current of
          JObject kvs \<Rightarrow> (case map_of kvs part of None \<Rightarrow> None | Some v \<Rightarrow> walk_path parts v)
        | JArray vs \<Rightarrow>
            (case atoi part of
               None \<Rightarrow> None
             | Some index \<Rightarrow> if index < 0 \<or> int (length vs) \<le> index then None else walk_path parts (vs ! nat index))
        | _ \<Rightarrow> None))"

text \<open>The runner with its codec: everything an expression depends on besides the world.\<close>

record expr_env =
  Runner :: runner
  Codec :: json_codec
  Sprint :: "json \<Rightarrow> string"

definition resolveWorkflowPath ::
  "expr_env \<Rightarrow> gctx \<Rightarrow> exec_scope \<Rightarrow> string \<Rightarrow> string \<Rightarrow> world \<Rightarrow> world \<times> (go_error + json option)" where
  "resolveWorkflowPath E ctx scope runID path w =
     (let parts = split_char CHR ''.'' (trim_space path) in
      if length parts < 2 \<or> hd parts \<noteq> ''steps''
      then (w, Inl (Errorf ''orchestration: workflow path %q must start with steps.<node_id>'' [path] None))
      else (case stepOutputRaw (Runner E) ctx scope runID (parts ! 1) w of
          (w1, Inl e) \<Rightarrow> (w1, Inl e)
        | (w1, Inr None) \<Rightarrow> (w1, Inr None)
        | (w1, Inr (Some raw)) \<Rightarrow>
            (case DecodeJSON (Codec E) raw of
               Inl e \<Rightarrow> (w1, Inl (Errorf ''orchestration: decode step output %q: %w'' [parts ! 1] (Some e)))
             | Inr value \<Rightarrow> (w1, Inr (walk_path (drop 2 parts) value)))))"

section \<open>Conditions\<close>

definition functionCall :: "string \<Rightarrow> string \<Rightarrow> string option" where
  "functionCall condition name =
     (let prefix = name @ ''('' in
      if \<not> has_prefix condition prefix \<or> \<not> has_suffix condition '')'' then None
      else Some (trim_space (take (length condition - 1 - length prefix) (drop (length prefix) condition))))"

text \<open>The loop of \<^verbatim>\<open>splitConditionArgs\<close> over the runes; \<open>cur\<close> is what the builder holds.\<close>

fun split_args :: "rune list \<Rightarrow> bool \<Rightarrow> bool \<Rightarrow> string \<Rightarrow> string list" where
  "split_args [] inString escaped cur = [trim_space cur]"
| "split_args (r # rs) inString escaped cur =
     (if escaped then split_args rs inString False (cur @ encode_rune r)
      else if r = 92 \<and> inString then split_args rs inString True (cur @ encode_rune r)
      else if r = 34 then split_args rs (\<not> inString) escaped (cur @ encode_rune r)
      else if r = 44 \<and> \<not> inString then trim_space cur # split_args rs inString escaped []
      else split_args rs inString escaped (cur @ encode_rune r))"

definition splitConditionArgs :: "string \<Rightarrow> string list" where
  "splitConditionArgs input = split_args (runes input) False False []"

definition trim_quotes :: "string \<Rightarrow> string" where
  "trim_quotes s = rev (dropWhile (\<lambda>c. byte c = 34) (rev (dropWhile (\<lambda>c. byte c = 34) s)))"

definition parseConditionValue :: "json_codec \<Rightarrow> string \<Rightarrow> json" where
  "parseConditionValue jc raw = (case DecodeJSON jc raw of Inr value \<Rightarrow> value | Inl _ \<Rightarrow> JString (trim_quotes raw))"

text \<open>The comparison behind \<^verbatim>\<open>eq\<close> and \<^verbatim>\<open>ne\<close>: none when the path is not found.\<close>

definition compare_condition ::
  "expr_env \<Rightarrow> gctx \<Rightarrow> exec_scope \<Rightarrow> string \<Rightarrow> string \<Rightarrow> string \<Rightarrow> world \<Rightarrow> world \<times> (go_error + bool option)" where
  "compare_condition E ctx scope runID name inner w =
     (let args = splitConditionArgs inner in
      if length args \<noteq> 2
      then (w, Inl (Errorf ''orchestration: %s condition requires path and expected value'' [name] None))
      else (case resolveWorkflowPath E ctx scope runID (trim_space (args ! 0)) w of
          (w1, Inl e) \<Rightarrow> (w1, Inl e)
        | (w1, Inr None) \<Rightarrow> (w1, Inr None)
        | (w1, Inr (Some actual)) \<Rightarrow>
            (w1, Inr (Some (workflowValuesEqual (Codec E) (Sprint E) actual (parseConditionValue (Codec E) (trim_space (args ! 1))))))))"

definition conditionEnabled ::
  "expr_env \<Rightarrow> gctx \<Rightarrow> exec_scope \<Rightarrow> string \<Rightarrow> string \<Rightarrow> world \<Rightarrow> world \<times> (go_error + bool)" where
  "conditionEnabled E ctx scope runID condition0 w =
     (let condition = trim_space condition0 in
      if condition \<in> {[], ''true'', ''always''} then (w, Inr True)
      else if condition \<in> {''false'', ''never''} then (w, Inr False)
      else (case functionCall condition ''exists'' of
        Some inner \<Rightarrow>
          (let (w1, res) = resolveWorkflowPath E ctx scope runID (trim_space inner) w
           in (w1, case res of Inl e \<Rightarrow> Inl e | Inr found \<Rightarrow> Inr (found \<noteq> None)))
      | None \<Rightarrow>
      (case functionCall condition ''missing'' of
        Some inner \<Rightarrow>
          (let (w1, res) = resolveWorkflowPath E ctx scope runID (trim_space inner) w
           in (w1, case res of Inl e \<Rightarrow> Inl e | Inr found \<Rightarrow> Inr (found = None)))
      | None \<Rightarrow>
      (case functionCall condition ''eq'' of
        Some inner \<Rightarrow>
          (let (w1, res) = compare_condition E ctx scope runID ''eq'' inner w
           in (w1, case res of Inl e \<Rightarrow> Inl e | Inr None \<Rightarrow> Inr False | Inr (Some b) \<Rightarrow> Inr b))
      | None \<Rightarrow>
      (case functionCall condition ''ne'' of
        Some inner \<Rightarrow>
          (let (w1, res) = compare_condition E ctx scope runID ''ne'' inner w
           in (w1, case res of Inl e \<Rightarrow> Inl e | Inr None \<Rightarrow> Inr True | Inr (Some b) \<Rightarrow> Inr (\<not> b)))
      | None \<Rightarrow> (w, Inl (Errorf ''orchestration: unsupported condition %q'' [condition] None)))))))"

section \<open>Skipping by edges\<close>

fun skip_loop ::
  "expr_env \<Rightarrow> gctx \<Rightarrow> exec_scope \<Rightarrow> string \<Rightarrow> workflow_edge list \<Rightarrow> bool \<Rightarrow> bool \<Rightarrow> world \<Rightarrow> world \<times> (go_error + bool)" where
  "skip_loop E ctx scope runID [] hasConditional anySatisfied w = (w, Inr (hasConditional \<and> \<not> anySatisfied))"
| "skip_loop E ctx scope runID (e # es) hasConditional anySatisfied w =
     (case classifyEdgeCondition (EdgeCondition e) of
        EdgeCondUnconditional \<Rightarrow> skip_loop E ctx scope runID es hasConditional True w
      | EdgeCondAlwaysFalse \<Rightarrow> skip_loop E ctx scope runID es True anySatisfied w
      | EdgeCondDynamic \<Rightarrow>
          (case conditionEnabled E ctx scope runID (EdgeCondition e) w of
             (w1, Inl err) \<Rightarrow> (w1, Inl err)
           | (w1, Inr ok) \<Rightarrow> skip_loop E ctx scope runID es True (anySatisfied \<or> ok) w1))"

definition nodeShouldSkip ::
  "expr_env \<Rightarrow> gctx \<Rightarrow> exec_scope \<Rightarrow> string \<Rightarrow> workflow \<Rightarrow> string \<Rightarrow> world \<Rightarrow> world \<times> (go_error + bool)" where
  "nodeShouldSkip E ctx scope runID flow nodeID w =
     (let incoming = incomingEdges flow nodeID in
      if incoming = [] then (w, Inr False) else skip_loop E ctx scope runID incoming False False w)"

section \<open>Runtime secrets\<close>

definition secret_char :: "char \<Rightarrow> bool" where
  "secret_char c \<longleftrightarrow> digit c \<or> (65 \<le> byte c \<and> byte c \<le> 90) \<or> (97 \<le> byte c \<and> byte c \<le> 122) \<or> c \<in> set ''_.-''"

definition secret_open :: string where
  "secret_open = ''${secret:''"

text \<open>A match of \<^verbatim>\<open>secretRefPattern\<close> at the start of a string: the name and what follows the match.\<close>

definition match_secret :: "string \<Rightarrow> (string \<times> string) option" where
  "match_secret s =
     (let rest = drop (length secret_open) s; name = takeWhile secret_char rest; after = dropWhile secret_char rest in
      if has_prefix s secret_open \<and> name \<noteq> [] \<and> has_prefix after ''}'' then Some (name, tl after) else None)"

lemma match_secret_shorter: "match_secret s = Some (name, after) \<Longrightarrow> length after < length s"
proof -
  assume m: "match_secret s = Some (name, after)"
  let ?rest = "dropWhile secret_char (drop (length secret_open) s)"
  have "after = tl ?rest" and "has_prefix ?rest ''}''"
    using m by (simp_all add: match_secret_def Let_def split: if_splits)
  then have "after = tl ?rest" and "?rest \<noteq> []" by (auto simp: has_prefix_def simp del: dropWhile_eq_Nil_conv)
  then have "length after < length ?rest" by simp
  also have "length ?rest \<le> length s"
    using length_dropWhile_le [of secret_char "drop (length secret_open) s"] by simp
  finally show ?thesis .
qed

function replace_secrets :: "(string \<times> string) list \<Rightarrow> string \<Rightarrow> string \<times> bool" where
  "replace_secrets secrets [] = ([], False)"
| "replace_secrets secrets (c # cs) =
     (case match_secret (c # cs) of
        Some (name, after) \<Rightarrow>
          (let (out, missing) = replace_secrets secrets after in
           case map_of secrets name of
             Some secret \<Rightarrow> (secret @ out, missing)
           | None \<Rightarrow> (secret_open @ name @ ''}'' @ out, True))
      | None \<Rightarrow> (let (out, missing) = replace_secrets secrets cs in (c # out, missing)))"
  by pat_completeness auto
termination by (relation "measure (\<lambda>(_, s). length s)") (auto dest: match_secret_shorter)

definition substituteSecretInString :: "(string \<times> string) list \<Rightarrow> string \<Rightarrow> go_error + string" where
  "substituteSecretInString secrets value =
     (if \<not> contains_str value secret_open then Inr value
      else (let (out, missing) = replace_secrets secrets value in
            if missing then Inl (Errorf ''orchestration: unresolved runtime secret reference in %q'' [value] None)
            else Inr out))"

fun resolveSecretValue :: "(string \<times> string) list \<Rightarrow> json \<Rightarrow> go_error + json"
  and resolve_members :: "(string \<times> string) list \<Rightarrow> (string \<times> json) list \<Rightarrow> go_error + (string \<times> json) list"
  and resolve_items :: "(string \<times> string) list \<Rightarrow> json list \<Rightarrow> go_error + json list" where
  "resolveSecretValue secrets (JString s) =
     (case substituteSecretInString secrets s of Inl e \<Rightarrow> Inl e | Inr t \<Rightarrow> Inr (JString t))"
| "resolveSecretValue secrets (JObject kvs) = (case resolve_members secrets kvs of Inl e \<Rightarrow> Inl e | Inr out \<Rightarrow> Inr (JObject out))"
| "resolveSecretValue secrets (JArray vs) = (case resolve_items secrets vs of Inl e \<Rightarrow> Inl e | Inr out \<Rightarrow> Inr (JArray out))"
| "resolveSecretValue secrets v = Inr v"
| "resolve_members secrets [] = Inr []"
| "resolve_members secrets ((k, v) # kvs) =
     (case resolveSecretValue secrets v of
        Inl e \<Rightarrow> Inl e
      | Inr v' \<Rightarrow> (case resolve_members secrets kvs of Inl e \<Rightarrow> Inl e | Inr out \<Rightarrow> Inr ((k, v') # out)))"
| "resolve_items secrets [] = Inr []"
| "resolve_items secrets (v # vs) =
     (case resolveSecretValue secrets v of
        Inl e \<Rightarrow> Inl e
      | Inr v' \<Rightarrow> (case resolve_items secrets vs of Inl e \<Rightarrow> Inl e | Inr out \<Rightarrow> Inr (v' # out)))"

definition resolveRuntimeSecrets :: "json_codec \<Rightarrow> bytes \<Rightarrow> (string \<times> string) list \<Rightarrow> go_error + bytes" where
  "resolveRuntimeSecrets jc raw secrets =
     (if raw = [] then Inr raw
      else (case DecodeJSON jc raw of
          Inl _ \<Rightarrow> substituteSecretInString secrets raw
        | Inr value \<Rightarrow>
            (case resolveSecretValue secrets value of
               Inl e \<Rightarrow> Inl e
             | Inr resolved \<Rightarrow>
                 (case EncodeJSON jc resolved of
                    Inl e \<Rightarrow> Inl (Errorf ''orchestration: marshal secret-resolved input: %w'' [] (Some e))
                  | Inr out \<Rightarrow> Inr out))))"

section \<open>Node inputs and transforms\<close>

text \<open>Copies of step outputs into the fields of an object; \<open>missing\<close> is the error for a path that is not there.\<close>

fun copy_fields ::
  "expr_env \<Rightarrow> gctx \<Rightarrow> exec_scope \<Rightarrow> string \<Rightarrow> (string \<Rightarrow> string \<Rightarrow> go_error) \<Rightarrow> (string \<times> string) list \<Rightarrow> (string \<times> json) list \<Rightarrow> world
     \<Rightarrow> world \<times> (go_error + (string \<times> json) list)" where
  "copy_fields E ctx scope runID missing [] base w = (w, Inr base)"
| "copy_fields E ctx scope runID missing ((field, path) # others) base w =
     (case resolveWorkflowPath E ctx scope runID path w of
        (w1, Inl e) \<Rightarrow> (w1, Inl e)
      | (w1, Inr None) \<Rightarrow> (w1, Inl (missing path field))
      | (w1, Inr (Some value)) \<Rightarrow> copy_fields E ctx scope runID missing others (AList.update field value base) w1)"

definition resolveNodeInput ::
  "expr_env \<Rightarrow> gctx \<Rightarrow> exec_scope \<Rightarrow> string \<Rightarrow> bytes \<Rightarrow> (string \<times> string) list \<Rightarrow> world \<Rightarrow> world \<times> (go_error + bytes)" where
  "resolveNodeInput E ctx scope runID raw0 secrets w =
     (if raw0 = [] then (w, Inr raw0)
      else (case resolveRuntimeSecrets (Codec E) raw0 secrets of
        Inl e \<Rightarrow> (w, Inl e)
      | Inr raw \<Rightarrow>
      (case DecodeInputSpec (Codec E) raw of
        None \<Rightarrow> (w, Inr raw)
      | Some spec \<Rightarrow>
        if CopyFrom spec = [] \<and> PromptFrom spec = [] then (w, Inr raw)
        else (case DecodeJSON (Codec E) raw of
            Inr (JObject members) \<Rightarrow>
              (case copy_fields E ctx scope runID
                      (\<lambda>path field. Errorf ''orchestration: copy_from path %q not found for field %q'' [path, field] None)
                      (CopyFrom spec) (AList.delete ''prompt_from'' (AList.delete ''copy_from'' members)) w of
                 (w1, Inl e) \<Rightarrow> (w1, Inl e)
               | (w1, Inr base) \<Rightarrow>
                   (case (if PromptFrom spec = [] then (w1, Inr base)
                          else copy_fields E ctx scope runID
                                 (\<lambda>path field. Errorf ''orchestration: prompt_from path %q not found'' [path] None)
                                 [(''prompt'', PromptFrom spec)] base w1) of
                      (w2, Inl e) \<Rightarrow> (w2, Inl e)
                    | (w2, Inr base') \<Rightarrow>
                        (case EncodeJSON (Codec E) (JObject base') of
                           Inl e \<Rightarrow> (w2, Inl (Errorf ''orchestration: marshal resolved node input: %w'' [] (Some e)))
                         | Inr out \<Rightarrow> (w2, Inr out))))
          | _ \<Rightarrow> (w, Inr raw)))))"

text \<open>\<open>input_object\<close> is the encoding of \<^verbatim>\<open>{"input": ...}\<close> around the raw input.\<close>

definition runTransformNode ::
  "expr_env \<Rightarrow> (bytes \<Rightarrow> go_error + bytes) \<Rightarrow> gctx \<Rightarrow> exec_scope \<Rightarrow> scenario \<Rightarrow> workflow_node \<Rightarrow> string \<Rightarrow> world \<Rightarrow> world \<times> go_error option" where
  "runTransformNode E input_object ctx scope s node runID w =
     (let save = (\<lambda>raw w'. SaveStepOutput (Runner E) ctx scope s runID (NodeID node) raw w') in
      if NodeInput node = [] then save (input_object (NodeInput node)) w
      else (case DecodeTransform (Codec E) (NodeInput node) of
          Inl e \<Rightarrow> (w, Some (Errorf ''orchestration: transform node %q decode input: %w'' [NodeID node] (Some e)))
        | Inr spec \<Rightarrow>
            if TransformSet spec = [] \<and> TransformCopy spec = [] then save (input_object (NodeInput node)) w
            else (case copy_fields E ctx scope runID
                      (\<lambda>path field. Errorf ''orchestration: transform node %q path %q not found'' [NodeID node, path] None)
                      (TransformCopy spec) (TransformSet spec) w of
                (w1, Inl e) \<Rightarrow> (w1, Some e)
              | (w1, Inr output) \<Rightarrow> save (EncodeJSON (Codec E) (JObject output)) w1)))"

section \<open>Reading without interference\<close>

lemma tick_quiet [simp]: "Moments w = [] \<Longrightarrow> tick fenced w = (quiet_moment, w)"
  by simp

lemma load_run_quiet [simp]: "Moments w = [] \<Longrightarrow> fst (load_run R ctx runID w) = w"
  by (simp add: load_run_def)

lemma stepOutputRaw_quiet [simp]: "Moments w = [] \<Longrightarrow> fst (stepOutputRaw R ctx scope runID nodeID w) = w"
  by (simp add: stepOutputRaw_def load_run_def Let_def split: sum.splits option.splits)

lemma resolveWorkflowPath_quiet [simp]: "Moments w = [] \<Longrightarrow> fst (resolveWorkflowPath E ctx scope runID path w) = w"
  using stepOutputRaw_quiet [of w "Runner E" ctx scope runID "split_char CHR ''.'' (trim_space path) ! 1"]
  by (auto simp: resolveWorkflowPath_def Let_def simp del: stepOutputRaw_quiet split: prod.splits sum.splits option.splits)

lemma compare_condition_quiet [simp]: "Moments w = [] \<Longrightarrow> fst (compare_condition E ctx scope runID name inner w) = w"
  using resolveWorkflowPath_quiet [of w E ctx scope runID "trim_space (splitConditionArgs inner ! 0)"]
  by (auto simp: compare_condition_def Let_def simp del: resolveWorkflowPath_quiet split: prod.splits sum.splits option.splits)

lemma conditionEnabled_quiet [simp]: "Moments w = [] \<Longrightarrow> fst (conditionEnabled E ctx scope runID condition w) = w"
  by (simp add: conditionEnabled_def Let_def case_prod_beta split: option.splits)

section \<open>Properties\<close>

text \<open>Whether the condition of an edge holds, and the first failure of a list of results.\<close>

definition edge_enabled :: "expr_env \<Rightarrow> gctx \<Rightarrow> exec_scope \<Rightarrow> string \<Rightarrow> world \<Rightarrow> workflow_edge \<Rightarrow> go_error + bool" where
  "edge_enabled E ctx scope runID w e = snd (conditionEnabled E ctx scope runID (EdgeCondition e) w)"

fun first_failure :: "('e + 'a) list \<Rightarrow> 'e option" where
  "first_failure [] = None"
| "first_failure (Inl e # xs) = Some e"
| "first_failure (Inr x # xs) = first_failure xs"

lemma edge_enabled_static:
  "classifyEdgeCondition (EdgeCondition e) = EdgeCondUnconditional \<Longrightarrow> edge_enabled E ctx scope runID w e = Inr True"
  "classifyEdgeCondition (EdgeCondition e) = EdgeCondAlwaysFalse \<Longrightarrow> edge_enabled E ctx scope runID w e = Inr False"
  by (auto simp: classifyEdgeCondition_def edge_enabled_def conditionEnabled_def Let_def split: if_splits)

lemma skip_loop_exact:
  assumes "Moments w = []"
  shows "skip_loop E ctx scope runID es hasConditional anySatisfied w =
    (w, case first_failure (map (edge_enabled E ctx scope runID w) es) of
          Some err \<Rightarrow> Inl err
        | None \<Rightarrow> Inr ((hasConditional \<or> Inr False \<in> set (map (edge_enabled E ctx scope runID w) es))
                    \<and> \<not> anySatisfied \<and> Inr True \<notin> set (map (edge_enabled E ctx scope runID w) es)))"
proof (induction es arbitrary: hasConditional anySatisfied)
  case (Cons e es)
  show ?case
  proof (cases "classifyEdgeCondition (EdgeCondition e)")
    case EdgeCondDynamic
    obtain res where r: "conditionEnabled E ctx scope runID (EdgeCondition e) w = (w, res)"
      using conditionEnabled_quiet [OF assms, of E ctx scope runID "EdgeCondition e"] by (metis prod.collapse)
    then have res: "edge_enabled E ctx scope runID w e = res" by (simp add: edge_enabled_def)
    show ?thesis
    proof (cases res)
      case (Inr ok)
      then show ?thesis using EdgeCondDynamic r res Cons by (cases ok) (auto split: option.splits)
    qed (use EdgeCondDynamic r res in simp)
  qed (use Cons edge_enabled_static [of e] in \<open>auto split: option.splits\<close>)
qed simp

text \<open>
  C35: edges decide skipping as documented. When nobody else writes the run, a node is skipped exactly when
  it has incoming edges and the condition of each of them is false, the static conditions judged like the
  evaluator judges them; a condition that cannot be evaluated makes the first such error the result.
\<close>

theorem nodeShouldSkip_exact:
  assumes "Moments w = []"
  shows "nodeShouldSkip E ctx scope runID flow n w =
    (w, case first_failure (map (edge_enabled E ctx scope runID w) (incomingEdges flow n)) of
          Some err \<Rightarrow> Inl err
        | None \<Rightarrow> Inr (incomingEdges flow n \<noteq> []
                    \<and> (\<forall>e \<in> set (incomingEdges flow n). edge_enabled E ctx scope runID w e = Inr False)))"
proof -
  have bools: "first_failure (map f xs) = None \<Longrightarrow> x \<in> set xs \<Longrightarrow> f x = Inr True \<or> f x = Inr False"
    for f :: "workflow_edge \<Rightarrow> go_error + bool" and x xs
  proof (induction xs)
    case (Cons y ys)
    then show ?case by (cases "f y") auto
  qed simp
  let ?f = "edge_enabled E ctx scope runID w" and ?es = "incomingEdges flow n"
  have "Inr False \<in> set (map ?f ?es) \<and> Inr True \<notin> set (map ?f ?es) \<longleftrightarrow> ?es \<noteq> [] \<and> (\<forall>e \<in> set ?es. ?f e = Inr False)"
    if "first_failure (map ?f ?es) = None"
  proof (cases "?es")
    case (Cons e es)
    then show ?thesis using bools [OF that] by (auto simp: image_iff) (metis sum.inject(2))+
  qed simp
  then show ?thesis
    using skip_loop_exact [OF assms, of E ctx scope runID ?es False False]
    by (auto simp: nodeShouldSkip_def Let_def split: option.splits)
qed

text \<open>A run with the output \<open>1\<close> of step \<open>a\<close>, and a codec that reads a text as a string.\<close>

definition text_codec :: json_codec where
  "text_codec = \<lparr>DecodeJSON = (\<lambda>raw. Inr (JString raw)),
     EncodeJSON = (\<lambda>v. case v of JString t \<Rightarrow> Inr t | _ \<Rightarrow> Inl ErrNotFound),
     DecodeInputSpec = (\<lambda>_. None), DecodeTransform = (\<lambda>_. Inl ErrNotFound)\<rparr>"

definition text_env :: expr_env where
  "text_env = \<lparr>Runner = \<lparr>HasRuns = True, HasBlobs = False, Fenced = True, Redactor = None\<rparr>, Codec = text_codec, Sprint = (\<lambda>_. [])\<rparr>"

definition done_world :: world where
  "done_world = \<lparr>Repo = \<lparr>Snapshots = [''r'' \<mapsto> (sample_run ''r'' RunStatusRunning [])\<lparr>Version := 1,
       StepOutputs := Some [(''a'', \<lparr>Inline = Some ''1'', Blob = None\<rparr>)]\<rparr>], Fences = Map.empty\<rparr>,
     Blobs = Map.empty, Moments = []\<rparr>"

definition branch_workflow :: workflow where
  "branch_workflow = \<lparr>Nodes = map (\<lambda>i. sample_node i NodeTool []) [''a'', ''b'', ''c''],
     Edges = [\<lparr>EdgeFrom = ''a'', EdgeTo = ''b'', EdgeCondition = ''eq(steps.a, 1)''\<rparr>,
              \<lparr>EdgeFrom = ''a'', EdgeTo = ''c'', EdgeCondition = ''missing(steps.a)''\<rparr>]\<rparr>"

lemmas trim_eval = trim_space_def trim_segments_def is_space_def in_range_def

lemma missing_condition:
  "trim_space ''missing(steps.a)'' = ''missing(steps.a)''" "trim_space ''steps.a'' = ''steps.a''"
  "functionCall ''missing(steps.a)'' ''exists'' = None" "functionCall ''missing(steps.a)'' ''missing'' = Some ''steps.a''"
  by (simp_all add: trim_eval functionCall_def has_prefix_def has_suffix_def)

lemma output_of_a: "stepOutputRaw (Runner text_env) Background no_scope ''r'' ''a'' done_world = (done_world, Inr (Some ''1''))"
proof -
  have "snd (stepOutputRaw (Runner text_env) Background no_scope ''r'' ''a'' done_world) = Inr (Some ''1'')" by code_simp
  moreover have "fst (stepOutputRaw (Runner text_env) Background no_scope ''r'' ''a'' done_world) = done_world"
    by (rule stepOutputRaw_quiet) (simp add: done_world_def)
  ultimately show ?thesis by (metis prod.collapse)
qed

theorem nodeShouldSkip_exact_witness:
  "nodeShouldSkip text_env Background no_scope ''r'' branch_workflow ''c'' done_world = (done_world, Inr True)"
proof -
  have m: "Moments done_world = []" by (simp add: done_world_def)
  have "incomingEdges branch_workflow ''c'' = [\<lparr>EdgeFrom = ''a'', EdgeTo = ''c'', EdgeCondition = ''missing(steps.a)''\<rparr>]" by code_simp
  moreover have "DecodeJSON (Codec text_env) ''1'' = Inr (JString ''1'')" by (simp add: text_env_def text_codec_def)
  then have "snd (conditionEnabled text_env Background no_scope ''r'' ''missing(steps.a)'' done_world) = Inr False"
    by (simp add: conditionEnabled_def resolveWorkflowPath_def missing_condition output_of_a Let_def)
  ultimately show ?thesis
    using nodeShouldSkip_exact [OF m, of text_env Background no_scope "''r''" branch_workflow "''c''"]
    by (simp add: edge_enabled_def)
qed

text \<open>
  An argument that can be told apart from its neighbours: read from the start, every quote it opens is
  closed again and no comma stands outside quotes.
\<close>

fun self_contained :: "string \<Rightarrow> bool \<Rightarrow> bool \<Rightarrow> bool" where
  "self_contained [] inString escaped \<longleftrightarrow> \<not> inString \<and> \<not> escaped"
| "self_contained (c # cs) inString escaped \<longleftrightarrow>
     byte c < 128 \<and>
     (if escaped then self_contained cs inString False
      else if byte c = 92 \<and> inString then self_contained cs inString True
      else if byte c = 34 then self_contained cs (\<not> inString) False
      else \<not> (byte c = 44 \<and> \<not> inString) \<and> self_contained cs inString False)"

lemma encode_rune_byte: "byte c < 128 \<Longrightarrow> encode_rune (byte c) = [c]"
  by (simp add: encode_rune_def in_range_def)

lemma runes_ascii [simp]: "byte c < 128 \<Longrightarrow> runes (c # cs) = byte c # runes cs"
  by (simp add: runes_def)

lemma runes_Nil [simp]: "runes [] = []"
  by (simp add: runes_def)

lemma split_args_self_contained:
  "self_contained s inString escaped \<Longrightarrow>
     split_args (runes (s @ t)) inString escaped cur = split_args (runes t) False False (cur @ s)"
proof (induction s inString escaped arbitrary: cur rule: self_contained.induct)
  case (2 c cs inString escaped)
  then have ascii: "byte c < 128" by simp
  then have own: "encode_rune (byte c) = [c]" by (rule encode_rune_byte)
  show ?case using 2 ascii own by (auto split: if_splits)
qed simp

text \<open>
  Splitting is the inverse of joining. Arguments with balanced quotes and no comma outside quotes, joined
  by commas, are split into the same arguments, trimmed; so a quoted literal may contain commas, escaped
  quotes and parentheses.
\<close>

theorem splitConditionArgs_join:
  assumes "args \<noteq> []" and "\<forall>a \<in> set args. self_contained a False False"
  shows "splitConditionArgs (join_with '','' args) = map trim_space args"
  using assms
proof (induction args rule: induct_list012)
  case (2 a)
  then show ?case using split_args_self_contained [of a False False "[]" "[]"] by (simp add: splitConditionArgs_def)
next
  case (3 a b args)
  have comma: "byte CHR '','' = 44" by code_simp
  have "splitConditionArgs (a @ '','' @ join_with '','' (b # args)) =
      split_args (runes (CHR '','' # join_with '','' (b # args))) False False a"
    using 3(4) split_args_self_contained [of a False False _ "[]"] by (simp add: splitConditionArgs_def)
  also have "\<dots> = trim_space a # splitConditionArgs (join_with '','' (b # args))"
    by (simp add: comma splitConditionArgs_def)
  finally show ?case using 3 by simp
qed simp

theorem splitConditionArgs_join_witness:
  "splitConditionArgs (''steps.a.city, '' @ [CHR 0x22] @ ''Berlin, DE'' @ [CHR 0x22]) =
     [''steps.a.city'', [CHR 0x22] @ ''Berlin, DE'' @ [CHR 0x22]]"
proof -
  let ?args = "[''steps.a.city'', '' '' @ [CHR 0x22] @ ''Berlin, DE'' @ [CHR 0x22]]"
  have ok: "\<forall>a \<in> set ?args. self_contained a False False" by simp
  have trimmed: "map trim_space ?args = [''steps.a.city'', [CHR 0x22] @ ''Berlin, DE'' @ [CHR 0x22]]"
    by (simp add: trim_eval)
  from splitConditionArgs_join [OF _ ok] show ?thesis unfolding trimmed by simp
qed

end
