(* ===== verification/Tool_Approval.thy ===== *)
theory Tool_Approval
  imports Scenario
begin

text \<open>
  When a tool call must wait for a human and when it must be denied: \<^verbatim>\<open>pkg/core/tool_approval.go\<close> and the
  preflight checks of \<^verbatim>\<open>internal/toolinvoke\<close> that the runtime and the workflow runner share. A reason is \<open>None\<close>
  for the empty string; the reason made of an error or of an unknown policy keeps the error or the policy.
\<close>

section \<open>Static policy\<close>

datatype reason = Reason string | UnsupportedPolicy string | ReasonOfError go_error

definition risky_side_effect :: "tool \<Rightarrow> bool" where
  "risky_side_effect t \<longleftrightarrow> ToolSideEffect t \<in> {SideEffectWrite, SideEffectExternal, SideEffectDangerous}"

definition ToolApprovalDenialReason :: "tool \<Rightarrow> reason option" where
  "ToolApprovalDenialReason t = (case ToolApproval t of
       ApprovalNever \<Rightarrow> None
     | ApprovalPause \<Rightarrow> None
     | ApprovalAlways \<Rightarrow> Some (Reason ''tool requires approval'')
     | ApprovalRisky \<Rightarrow> if risky_side_effect t then Some (Reason ''risky tool requires approval'') else None
     | ApprovalOther p \<Rightarrow> if p = [] then None else Some (UnsupportedPolicy p))"

definition ToolApprovalPauseRequired :: "tool \<Rightarrow> bool" where
  "ToolApprovalPauseRequired t = (case ToolApproval t of
       ApprovalPause \<Rightarrow> True
     | ApprovalAlways \<Rightarrow> True
     | ApprovalRisky \<Rightarrow> risky_side_effect t
     | _ \<Rightarrow> False)"

definition HasHumanCheckpoint :: "string list \<Rightarrow> string \<Rightarrow> bool" where
  "HasHumanCheckpoint checkpoints name = list_ex (\<lambda>c. c = name) checkpoints"

section \<open>Preflight\<close>

definition AutoRetrySafe :: "tool \<Rightarrow> bool" where
  "AutoRetrySafe t \<longleftrightarrow> \<not> risky_side_effect t"

text \<open>\<open>validate\<close> is \<^verbatim>\<open>toolschema.Validate\<close>.\<close>

definition ValidateInput :: "(bytes \<Rightarrow> bytes \<Rightarrow> go_error option) \<Rightarrow> bool \<Rightarrow> tool \<Rightarrow> bytes \<Rightarrow> go_error option" where
  "ValidateInput validate enabled t input =
     (if \<not> enabled \<or> ToolInputSchema t = [] then None
      else (case validate (ToolInputSchema t) input of
          None \<Rightarrow> None
        | Some e \<Rightarrow> Some (Errorf ''invalid tool input: %w'' [] (Some e))))"

definition no_gate :: reason where
  "no_gate = Reason ''tool requires human gate for pause approval''"

definition DenialWithoutGate :: "tool \<Rightarrow> bool \<Rightarrow> bool \<Rightarrow> reason option" where
  "DenialWithoutGate t gateConfigured approved =
     (if approved then None
      else if ToolApprovalPauseRequired t then
        (if gateConfigured then None
         else (case ToolApprovalDenialReason t of Some r \<Rightarrow> Some r | None \<Rightarrow> Some no_gate))
      else ToolApprovalDenialReason t)"

record resource =
  ResourceType :: string
  ResourceID :: string
  ResourceMetadata :: "(string \<times> string) list"

definition SecurityResource :: "string \<Rightarrow> tool \<Rightarrow> (string \<times> string) list \<Rightarrow> resource" where
  "SecurityResource toolName t extra =
     \<lparr>ResourceType = ''tool'', ResourceID = toolName,
      ResourceMetadata = fold (\<lambda>(key, value) meta. if value = [] then meta else AList.update key value meta) extra
        [(''tool_type'', ToolType t), (''side_effect'', side_effect_text (ToolSideEffect t))]\<rparr>"

text \<open>
  A dynamic evaluator, injected by the host: from the run, the tool and the input of the call to whether a
  pause is required. Its answer is taken to depend on the call only.
\<close>

type_synonym evaluator = "string \<Rightarrow> tool \<Rightarrow> bytes \<Rightarrow> go_error + bool"

definition EvaluatePauseRequired :: "tool \<Rightarrow> evaluator option \<Rightarrow> string \<Rightarrow> bytes \<Rightarrow> go_error + bool" where
  "EvaluatePauseRequired t evaluator runID input =
     (if ToolApprovalPauseRequired t then Inr True
      else (case evaluator of None \<Rightarrow> Inr False | Some pause \<Rightarrow> pause runID t input))"

definition DenialWithoutGateWithEvaluator ::
  "tool \<Rightarrow> bool \<Rightarrow> bool \<Rightarrow> evaluator option \<Rightarrow> string \<Rightarrow> bytes \<Rightarrow> reason option" where
  "DenialWithoutGateWithEvaluator t gateConfigured approved evaluator runID input =
     (if approved then None
      else if ToolApprovalPauseRequired t then
        (if gateConfigured then None
         else (case ToolApprovalDenialReason t of Some r \<Rightarrow> Some r | None \<Rightarrow> Some no_gate))
      else (case EvaluatePauseRequired t evaluator runID input of
          Inl e \<Rightarrow> Some (ReasonOfError e)
        | Inr pauseRequired \<Rightarrow>
            if pauseRequired then (if gateConfigured then None else Some no_gate)
            else ToolApprovalDenialReason t))"

section \<open>Facts\<close>

text \<open>
  A call goes ahead exactly when it was approved, or nothing asks for a pause and the policy is known, or a
  pause is asked for and there is a gate to pause at. Without an evaluator the extended check is the plain one.
\<close>

lemma DenialWithoutGateWithEvaluator_None:
  "DenialWithoutGateWithEvaluator t g approved evaluator runID input = None \<longleftrightarrow>
     approved
     \<or> (\<exists>pause. EvaluatePauseRequired t evaluator runID input = Inr pause
          \<and> (if pause then g else ToolApprovalDenialReason t = None))"
  by (auto simp: DenialWithoutGateWithEvaluator_def EvaluatePauseRequired_def split: option.splits sum.splits)

lemma DenialWithoutGateWithEvaluator_static:
  "DenialWithoutGateWithEvaluator t g approved None runID input = DenialWithoutGate t g approved"
  by (auto simp: DenialWithoutGateWithEvaluator_def DenialWithoutGate_def EvaluatePauseRequired_def split: option.splits)

end
