(* ===== verification/Workflow_Tool.thy ===== *)
theory Workflow_Tool
  imports Workflow_Atomic Workflow_Condition Tool_Approval Safecall
begin

text \<open>
  Tool nodes of a workflow: \<^verbatim>\<open>runToolNode\<close> and \<^verbatim>\<open>authorizeTool\<close> of
  \<^verbatim>\<open>internal/application/orchestration/workflow.go\<close> and the approval checkpoint and the per-run rate cap of
  \<^verbatim>\<open>workflow_tool_approval.go\<close>. The result of a tool node lists the executions of its tool, each with the
  input it was given. Audit records and events, whose failures the code ignores, are left out.
\<close>

section \<open>Approval checkpoints\<close>

definition workflowCheckpointKindVar :: string where
  "workflowCheckpointKindVar = ''checkpoint_kind''"

definition workflowCheckpointNodeVar :: string where
  "workflowCheckpointNodeVar = ''checkpoint_workflow_node''"

definition workflowCheckpointToolInputVar :: string where
  "workflowCheckpointToolInputVar = ''checkpoint_tool_input''"

definition workflowCheckpointToolRefVar :: string where
  "workflowCheckpointToolRefVar = ''checkpoint_tool_ref''"

definition workflowToolApprovalKind :: string where
  "workflowToolApprovalKind = ''workflow_tool_approval''"

definition workflowToolCallCountsVar :: string where
  "workflowToolCallCountsVar = ''workflow_tool_call_counts''"

lemmas checkpoint_vars = workflowCheckpointKindVar_def workflowCheckpointNodeVar_def workflowCheckpointToolInputVar_def
  workflowCheckpointToolRefVar_def workflowToolApprovalKind_def workflowToolCallCountsVar_def

text \<open>The input of a pending checkpoint of this node, as a loaded snapshot holds it.\<close>

definition checkpoint_input :: "codec \<Rightarrow> string \<Rightarrow> string \<Rightarrow> run_snapshot \<Rightarrow> go_error + bytes option" where
  "checkpoint_input cd storedID nodeID s =
     (let vars = variables_of s in
      if snapshotVariableString cd vars workflowCheckpointKindVar \<noteq> workflowToolApprovalKind then Inr None
      else if snapshotVariableString cd vars workflowCheckpointNodeVar \<noteq> storedID then Inr None
      else (case map_of vars workflowCheckpointToolInputVar of
          Some (c # cs) \<Rightarrow> Inr (Some (c # cs))
        | _ \<Rightarrow> Inl (Errorf ''orchestration: workflow tool approval for node %q is missing input'' [nodeID] None)))"

definition workflowToolApprovalInput ::
  "runner \<Rightarrow> codec \<Rightarrow> gctx \<Rightarrow> exec_scope \<Rightarrow> string \<Rightarrow> string \<Rightarrow> world \<Rightarrow> world \<times> (go_error + bytes option)" where
  "workflowToolApprovalInput R cd ctx scope runID nodeID w =
     (if \<not> HasRuns R then (w, Inr None)
      else (case load_run R ctx runID w of
          (w1, Inl e) \<Rightarrow> (w1, Inl e)
        | (w1, Inr snapshot) \<Rightarrow> (w1, checkpoint_input cd (storageNodeID scope nodeID) nodeID snapshot)))"

definition clearWorkflowToolApprovalCheckpoint :: "runner \<Rightarrow> gctx \<Rightarrow> string \<Rightarrow> world \<Rightarrow> world \<times> go_error option" where
  "clearWorkflowToolApprovalCheckpoint R ctx runID w =
     (let (w1, _, err) = saveSnapshotWithRetry R ctx runID (clear_mutation [workflowCheckpointKindVar,
            workflowCheckpointNodeVar, workflowCheckpointToolInputVar, workflowCheckpointToolRefVar]) () w
      in (w1, err))"

text \<open>\<open>payload\<close> is the encoding of the map with the node, the tool and the kind.\<close>

definition approval_mutation :: "codec \<Rightarrow> string \<Rightarrow> string \<Rightarrow> bytes \<Rightarrow> (go_error + bytes) \<Rightarrow> bytes mutation" where
  "approval_mutation cd storedID toolName input payload a s =
     (let s1 = set_var workflowCheckpointToolRefVar (EncodeString cd toolName)
                (set_var workflowCheckpointToolInputVar input
                 (set_var workflowCheckpointNodeVar (EncodeString cd storedID)
                  (set_var workflowCheckpointKindVar (EncodeString cd workflowToolApprovalKind) s)))
      in (case payload of Inl e \<Rightarrow> (a, Inl e) | Inr raw \<Rightarrow> (raw, Inr (s1\<lparr>CurrentNodeID := storedID\<rparr>))))"

definition pauseForWorkflowToolApproval ::
  "runner \<Rightarrow> codec \<Rightarrow> gate option \<Rightarrow> (go_error + bytes) \<Rightarrow> gctx \<Rightarrow> exec_scope \<Rightarrow> workflow_node \<Rightarrow> string \<Rightarrow> tool \<Rightarrow> bytes \<Rightarrow> world
     \<Rightarrow> world \<times> go_error" where
  "pauseForWorkflowToolApproval R cd gate payload ctx scope node runID t input w =
     (case gate of
        None \<Rightarrow> (w, Errorf ''orchestration: human gate is required for tool %q pause approval'' [ToolName t] None)
      | Some g \<Rightarrow>
          if \<not> HasRuns R then (w, Errorf ''orchestration: run-state repository is required for tool approval pause'' [] None)
          else (case pauseWithRetry R g ctx runID (approval_mutation cd (storageNodeID scope (NodeID node)) (ToolName t) input payload)
                   (\<lambda>raw version. \<lparr>GateRunID = runID, GateVersion = version, GateNodeID = NodeID node, GatePayload = Some raw\<rparr>) [] w of
              (w1, Inl e) \<Rightarrow> (w1, e)
            | (w1, Inr token) \<Rightarrow> (w1, WorkflowPausedError runID (NodeID node) token)))"

section \<open>The rate cap\<close>

definition decodeToolCallCounts :: "codec \<Rightarrow> run_snapshot \<Rightarrow> go_error + (string \<times> int) list" where
  "decodeToolCallCounts cd s = (case map_of (variables_of s) workflowToolCallCountsVar of
       None \<Rightarrow> Inr []
     | Some raw \<Rightarrow>
         if raw = [] then Inr []
         else (case DecodeCounts cd raw of
             Inl e \<Rightarrow> Inl (Errorf ''orchestration: decode tool call counts: %w'' [] (Some e))
           | Inr counts \<Rightarrow> Inr counts))"

definition count_of :: "(string \<times> int) list \<Rightarrow> string \<Rightarrow> int" where
  "count_of counts toolRef = (case map_of counts toolRef of None \<Rightarrow> 0 | Some n \<Rightarrow> n)"

definition reserve_mutation :: "codec \<Rightarrow> string \<Rightarrow> int \<Rightarrow> unit mutation" where
  "reserve_mutation cd toolRef rateCap _ s =
     ((), case decodeToolCallCounts cd s of
        Inl e \<Rightarrow> Inl e
      | Inr counts \<Rightarrow>
          if rateCap \<le> count_of counts toolRef then Inl ErrWorkflowToolRateCapExceeded
          else Inr (set_var workflowToolCallCountsVar
                 (EncodeCounts cd (AList.update toolRef (i64 (count_of counts toolRef + 1)) counts)) s))"

definition reserveWorkflowToolCall :: "runner \<Rightarrow> codec \<Rightarrow> gctx \<Rightarrow> string \<Rightarrow> string \<Rightarrow> int \<Rightarrow> world \<Rightarrow> world \<times> go_error option" where
  "reserveWorkflowToolCall R cd ctx runID toolRef rateCap w =
     (if \<not> HasRuns R then (w, None)
      else (case saveSnapshotWithRetry R ctx runID (reserve_mutation cd toolRef rateCap) () w of
          (w1, _, Some e) \<Rightarrow>
            (w1, Some (if errors_is e ErrWorkflowToolRateCapExceeded
                       then Errorf ''orchestration: tool %q rate cap exceeded: %d call(s) per run'' [toolRef, int_text rateCap] None
                       else e))
        | (w1, _, None) \<Rightarrow> (w1, None)))"

definition release_mutation :: "codec \<Rightarrow> string \<Rightarrow> unit mutation" where
  "release_mutation cd toolRef _ s =
     ((), case decodeToolCallCounts cd s of
        Inl e \<Rightarrow> Inl e
      | Inr counts \<Rightarrow>
          if count_of counts toolRef \<le> 0 then Inr s
          else Inr (set_var workflowToolCallCountsVar
                 (EncodeCounts cd (AList.update toolRef (count_of counts toolRef - 1) counts)) s))"

text \<open>The release runs on a detached context and only logs its error.\<close>

definition releaseWorkflowToolCall :: "runner \<Rightarrow> codec \<Rightarrow> gctx \<Rightarrow> string \<Rightarrow> string \<Rightarrow> world \<Rightarrow> world" where
  "releaseWorkflowToolCall R cd ctx runID toolRef w =
     (if \<not> HasRuns R then w else fst (saveSnapshotWithRetry R ctx runID (release_mutation cd toolRef) () w))"

section \<open>Tool nodes\<close>

text \<open>
  The result of a tool: its encoding as a step output and its \<^verbatim>\<open>Error\<close> field. An executor is host code: given
  the run, the input and the world it returns or panics.
\<close>

record tool_result =
  ResultJSON :: "go_error + bytes"
  ResultError :: string

type_synonym executor = "string \<Rightarrow> bytes \<Rightarrow> world \<Rightarrow> world \<times> tool_result call_end"

record tool_env =
  Expr :: expr_env
  VarCodec :: codec
  HasTools :: bool
  HumanGate :: "gate option"
  PauseEvaluator :: "evaluator option"
  FullTrust :: bool
  SchemaValidate :: "bytes \<Rightarrow> bytes \<Rightarrow> go_error option"
  SecurityPolicy :: "(principal \<Rightarrow> resource \<Rightarrow> go_error option) option"
  ToolGovernance :: "(string \<Rightarrow> string \<Rightarrow> side_effect_level \<Rightarrow> bytes \<Rightarrow> go_error option) option"
  ResolveTool :: "tool \<Rightarrow> go_error + executor option"
  ApprovalPayload :: "string \<Rightarrow> string \<Rightarrow> go_error + bytes"

definition authorizeTool :: "tool_env \<Rightarrow> gctx \<Rightarrow> resource \<Rightarrow> go_error option" where
  "authorizeTool T ctx resource = (case SecurityPolicy T of
       None \<Rightarrow> None
     | Some authorize \<Rightarrow>
         (case RequirePrincipal ctx of Inl _ \<Rightarrow> Some ErrUnauthenticated | Inr p \<Rightarrow> authorize p resource))"

definition node_tool :: "scenario \<Rightarrow> workflow_node \<Rightarrow> tool" where
  "node_tool s node =
     (let t = (case map_of (Tools s) (NodeRef node) of None \<Rightarrow> zero_tool | Some t \<Rightarrow> t)
      in if ToolName t = [] then t\<lparr>ToolName := NodeRef node\<rparr> else t)"

definition denied :: "workflow_node \<Rightarrow> reason \<Rightarrow> go_error" where
  "denied node r = (case r of
       Reason msg \<Rightarrow> Errorf ''orchestration: tool %q: %s'' [NodeRef node, msg] None
     | UnsupportedPolicy p \<Rightarrow> Errorf ''orchestration: tool %q: unsupported approval policy %q'' [NodeRef node, p] None
     | ReasonOfError e \<Rightarrow> Errorf ''orchestration: tool %q: %v'' [NodeRef node] (Some e))"

text \<open>Whether the call must pause, and whether it counts as approved from the start.\<close>

definition pause_decision :: "tool_env \<Rightarrow> string \<Rightarrow> tool \<Rightarrow> bytes \<Rightarrow> go_error + bool \<times> bool" where
  "pause_decision T runID t input =
     (if FullTrust T then
        (case PauseEvaluator T of
           None \<Rightarrow> Inr (False, True)
         | Some pause \<Rightarrow> (case pause runID t input of Inl e \<Rightarrow> Inl e | Inr b \<Rightarrow> Inr (b, \<not> b)))
      else (case EvaluatePauseRequired t (PauseEvaluator T) runID input of Inl e \<Rightarrow> Inl e | Inr b \<Rightarrow> Inr (b, False)))"

text \<open>The approval part of \<^verbatim>\<open>runToolNode\<close>: an error, or the input to use and whether it was approved.\<close>

definition approve_call ::
  "tool_env \<Rightarrow> gctx \<Rightarrow> exec_scope \<Rightarrow> workflow_node \<Rightarrow> string \<Rightarrow> tool \<Rightarrow> bytes \<Rightarrow> world \<Rightarrow> world \<times> (go_error + bytes \<times> bool)" where
  "approve_call T ctx scope node runID t input w =
     (let R = Runner (Expr T) in
      case pause_decision T runID t input of
        Inl e \<Rightarrow> (w, Inl e)
      | Inr (pauseRequired, approved) \<Rightarrow>
          if \<not> pauseRequired then (w, Inr (input, approved))
          else (case (if HumanGate T = None then DenialWithoutGate t False False else None) of
              Some r \<Rightarrow> (w, Inl (denied node r))
            | None \<Rightarrow>
                (case workflowToolApprovalInput R (VarCodec T) ctx scope runID (NodeID node) w of
                   (w1, Inl e) \<Rightarrow> (w1, Inl e)
                 | (w1, Inr (Some approvedInput)) \<Rightarrow>
                     (case clearWorkflowToolApprovalCheckpoint R ctx runID w1 of
                        (w2, Some e) \<Rightarrow> (w2, Inl e)
                      | (w2, None) \<Rightarrow> (w2, Inr (approvedInput, True)))
                 | (w1, Inr None) \<Rightarrow>
                     if HumanGate T \<noteq> None
                     then (let (w2, e) = pauseForWorkflowToolApproval R (VarCodec T) (HumanGate T)
                                 (ApprovalPayload T (NodeID node) (ToolName t)) ctx scope node runID t input w1
                           in (w2, Inl e))
                     else (w1, Inr (input, approved)))))"

text \<open>
  Authorization, resolution and execution, after the reservation: the error, whether the execution
  succeeded, and the executions.
\<close>

definition execute_tool ::
  "tool_env \<Rightarrow> gctx \<Rightarrow> workflow_node \<Rightarrow> string \<Rightarrow> tool \<Rightarrow> bytes \<Rightarrow> world
     \<Rightarrow> world \<times> (go_error + tool_result) \<times> (string \<times> bytes) list" where
  "execute_tool T ctx node runID t input w =
     (case authorizeTool T ctx (SecurityResource (NodeRef node) t [(''node_id'', NodeID node)]) of
        Some e \<Rightarrow> (w, Inl (Errorf ''orchestration: tool %q unauthorized: %w'' [NodeRef node] (Some e)), [])
      | None \<Rightarrow>
      (case (case ToolGovernance T of None \<Rightarrow> None | Some gov \<Rightarrow> gov runID (NodeRef node) (ToolSideEffect t) input) of
        Some e \<Rightarrow> (w, Inl (Errorf ''orchestration: tool %q denied by governance: %w'' [NodeRef node] (Some e)), [])
      | None \<Rightarrow>
      (case ResolveTool T t of
        Inl e \<Rightarrow> (w, Inl (Errorf ''orchestration: resolve tool %q: %w'' [NodeRef node] (Some e)), [])
      | Inr None \<Rightarrow> (w, Inl (Errorf ''orchestration: tool %q not found'' [NodeRef node] None), [])
      | Inr (Some execute) \<Rightarrow>
          (let (w1, ending) = execute runID input w; calls = [(NodeRef node, input)] in
           case safecall_Invoke ''orchestration: tool execute'' ending of
             Inl e \<Rightarrow> (w1, Inl e, calls)
           | Inr result \<Rightarrow>
               if ResultError result \<noteq> []
               then (w1, Inl (Errorf ''orchestration: tool %q failed: %s'' [NodeRef node, ResultError result] None), calls)
               else (w1, Inr result, calls)))))"

text \<open>The reservation around the execution, given back when the execution did not succeed, and the step output.\<close>

definition dispatch_tool ::
  "tool_env \<Rightarrow> gctx \<Rightarrow> exec_scope \<Rightarrow> scenario \<Rightarrow> workflow_node \<Rightarrow> string \<Rightarrow> tool \<Rightarrow> bytes \<Rightarrow> world
     \<Rightarrow> world \<times> go_error option \<times> (string \<times> bytes) list" where
  "dispatch_tool T ctx scope s node runID t input w =
     (let R = Runner (Expr T); capped = (0 < ToolRateCap t) in
      case (if capped then reserveWorkflowToolCall R (VarCodec T) ctx runID (NodeRef node) (ToolRateCap t) w else (w, None)) of
        (w1, Some e) \<Rightarrow> (w1, Some e, [])
      | (w1, None) \<Rightarrow>
          (case execute_tool T ctx node runID t input w1 of
             (w2, Inl e, calls) \<Rightarrow>
               (if capped then releaseWorkflowToolCall R (VarCodec T) ctx runID (NodeRef node) w2 else w2, Some e, calls)
           | (w2, Inr result, calls) \<Rightarrow>
               (let (w3, err) = SaveStepOutput R ctx scope s runID (NodeID node) (ResultJSON result) w2 in (w3, err, calls))))"

definition runToolNode ::
  "tool_env \<Rightarrow> gctx \<Rightarrow> exec_scope \<Rightarrow> scenario \<Rightarrow> workflow_node \<Rightarrow> string \<Rightarrow> world \<Rightarrow> world \<times> go_error option \<times> (string \<times> bytes) list" where
  "runToolNode T ctx scope s node runID w =
     (if \<not> HasTools T then (w, Some (Errorf ''orchestration: tool registry is required'' [] None), [])
      else (case resolveNodeInput (Expr T) ctx scope runID (NodeInput node) (Secrets (Runtime s)) w of
        (w1, Inl e) \<Rightarrow> (w1, Some e, [])
      | (w1, Inr resolved) \<Rightarrow>
          (case approve_call T ctx scope node runID (node_tool s node) resolved w1 of
             (w2, Inl e) \<Rightarrow> (w2, Some e, [])
           | (w2, Inr (input, approvedResume)) \<Rightarrow>
               (case DenialWithoutGateWithEvaluator (node_tool s node) (HumanGate T \<noteq> None) approvedResume (PauseEvaluator T) runID input of
                  Some r \<Rightarrow> (w2, Some (denied node r), [])
                | None \<Rightarrow>
                    (case ValidateInput (SchemaValidate T) (ValidateToolInput (Runtime s) \<or> \<not> DisableToolInputValidation (Runtime s))
                            (node_tool s node) input of
                       Some e \<Rightarrow> (w2, Some (Errorf ''orchestration: tool %q: %w'' [NodeRef node] (Some e)), [])
                     | None \<Rightarrow> dispatch_tool T ctx scope s node runID (node_tool s node) input w2)))))"

section \<open>Reads leave the run to the others\<close>

lemma stepOutputRaw_by_others:
  assumes "stepOutputRaw R ctx scope runID nodeID w = (w1, res)" and "bounded_moments w"
  shows "by_others (Fenced R) w w1 \<and> bounded_moments w1"
proof -
  obtain w2 lres where l: "load_run R ctx runID w = (w2, lres)" by (cases "load_run R ctx runID w")
  note o1 = load_run_by_others [OF l assms(2)]
  obtain m w3 where t: "tick (Fenced R) w2 = (m, w3)" by (cases "tick (Fenced R) w2")
  note o2 = tick_by_others [OF t o1(2)]
  have "w1 \<in> {w, w2, w3}"
    using assms(1) l t by (auto simp: stepOutputRaw_def Let_def simp del: tick.simps split: if_splits sum.splits option.splits)
  with o1 o2 by_others_trans [OF o1(1) o2(1)] assms(2) show ?thesis by auto
qed

lemma resolveWorkflowPath_by_others:
  assumes "resolveWorkflowPath E ctx scope runID path w = (w1, res)" and "bounded_moments w"
  shows "by_others (Fenced (Runner E)) w w1 \<and> bounded_moments w1"
proof -
  let ?n = "split_char CHR ''.'' (trim_space path) ! 1"
  obtain w2 sres where r: "stepOutputRaw (Runner E) ctx scope runID ?n w = (w2, sres)"
    by (cases "stepOutputRaw (Runner E) ctx scope runID ?n w")
  have "w1 = w \<or> w1 = w2"
    using assms(1) r by (auto simp: resolveWorkflowPath_def Let_def split: if_splits sum.splits option.splits)
  with stepOutputRaw_by_others [OF r assms(2)] assms(2) show ?thesis by auto
qed

lemma copy_fields_by_others:
  "copy_fields E ctx scope runID missing fs base w = (w1, res) \<Longrightarrow> bounded_moments w \<Longrightarrow>
     by_others (Fenced (Runner E)) w w1 \<and> bounded_moments w1"
proof (induction fs arbitrary: base w)
  case (Cons fp fs)
  obtain field path where fp: "fp = (field, path)" by (cases fp)
  obtain w2 pres where r: "resolveWorkflowPath E ctx scope runID path w = (w2, pres)"
    by (cases "resolveWorkflowPath E ctx scope runID path w")
  note o2 = resolveWorkflowPath_by_others [OF r Cons.prems(2)]
  show ?case
  proof (cases "\<exists>value. pres = Inr (Some value)")
    case True
    then obtain v where "copy_fields E ctx scope runID missing fs (AList.update field v base) w2 = (w1, res)"
      using Cons.prems(1) r fp by auto
    from Cons.IH [OF this] o2 show ?thesis using by_others_trans by blast
  next
    case False
    then have "w1 = w2" using Cons.prems(1) r fp by (auto split: sum.splits option.splits)
    with o2 show ?thesis by simp
  qed
qed simp

lemma resolveNodeInput_by_others:
  assumes "resolveNodeInput E ctx scope runID raw secrets w = (w1, res)" and "bounded_moments w"
  shows "by_others (Fenced (Runner E)) w w1 \<and> bounded_moments w1"
proof -
  have "w1 = w \<or> (\<exists>missing fs base res1. copy_fields E ctx scope runID missing fs base w = (w1, res1))
    \<or> (\<exists>missing fs base w2 res1 missing' fs' base' res2. copy_fields E ctx scope runID missing fs base w = (w2, res1)
        \<and> copy_fields E ctx scope runID missing' fs' base' w2 = (w1, res2))"
    using assms(1)
    by (simp only: resolveNodeInput_def split: if_splits sum.splits option.splits prod.splits json.splits) blast+
  then show ?thesis
    using assms(2) copy_fields_by_others by_others_trans by_others_refl by (elim disjE exE conjE) metis+
qed

section \<open>The rate cap is respected\<close>

text \<open>
  What the counts need of \<^verbatim>\<open>encoding/json\<close>: a map of 64-bit integers reads back as the same map and is never
  written as nothing, and reading gives 64-bit integers or an error.
\<close>

definition int_counts :: "(string \<times> int) list \<Rightarrow> bool" where
  "int_counts counts = list_all (\<lambda>(k, n). - (2 ^ 63) \<le> n \<and> n < 2 ^ 63) counts"

definition counts_codec :: "codec \<Rightarrow> bool" where
  "counts_codec cd \<longleftrightarrow>
     (\<forall>counts. int_counts counts \<longrightarrow> EncodeCounts cd counts \<noteq> []
        \<and> (\<exists>counts'. DecodeCounts cd (EncodeCounts cd counts) = Inr counts' \<and> map_of counts' = map_of counts))
     \<and> (\<forall>raw counts. DecodeCounts cd raw = Inr counts \<longrightarrow> int_counts counts)"

definition tool_count :: "codec \<Rightarrow> run_snapshot \<Rightarrow> string \<Rightarrow> int" where
  "tool_count cd s toolRef = (case decodeToolCallCounts cd s of Inl _ \<Rightarrow> 0 | Inr counts \<Rightarrow> count_of counts toolRef)"

lemma variables_of_normalized [simp]: "variables_of (the (NormalizeSnapshot (Some s))) = variables_of s"
  by (simp add: NormalizeSnapshot_def variables_of_def Let_def split: option.splits)

lemma variables_of_set_var [simp]: "variables_of (set_var key raw s) = AList.update key raw (variables_of s)"
  by (simp add: set_var_def variables_of_def)

lemma set_var_fields [simp]:
  "RunID (set_var key raw s) = RunID s" "TenantID (set_var key raw s) = TenantID s" "Version (set_var key raw s) = Version s"
  by (simp_all add: set_var_def)

lemma same_content_variables: "same_content s t \<Longrightarrow> variables_of t = variables_of s"
  by (simp add: variables_of_def same_content_fields)

lemma LoadAuthorized_variables:
  assumes "LoadAuthorized ctx r runID = Inr s"
  obtains b where "Snapshots r runID = Some b" "variables_of s = variables_of b"
proof -
  obtain b where "Snapshots r runID = Some b" "s = the (NormalizeSnapshot (Some b))"
    using assms by (auto simp: LoadAuthorized_def Repository_Load_def split: sum.splits option.splits)
  with that show thesis by simp
qed

lemma decodeToolCallCounts_variables: "variables_of s = variables_of t \<Longrightarrow> decodeToolCallCounts cd s = decodeToolCallCounts cd t"
  by (simp add: decodeToolCallCounts_def)

lemma int_counts_update: "int_counts counts \<Longrightarrow> - (2 ^ 63) \<le> n \<Longrightarrow> n < 2 ^ 63 \<Longrightarrow> int_counts (AList.update k n counts)"
  by (induction counts) (auto simp: int_counts_def)

lemma count_of_range:
  assumes "int_counts counts" shows "- (2 ^ 63) \<le> count_of counts toolRef"
  using assms by (auto simp: count_of_def int_counts_def list_all_iff split: option.splits dest!: map_of_SomeD)

lemma decodeToolCallCounts_range:
  "decodeToolCallCounts cd s = Inr counts \<Longrightarrow> counts_codec cd \<Longrightarrow> int_counts counts"
  by (auto simp: decodeToolCallCounts_def counts_codec_def int_counts_def split: option.splits if_splits sum.splits)

lemma reserve_mutation_effect:
  assumes "reserve_mutation cd toolRef cap a s = (a', Inr s')" and "counts_codec cd" and "cap < 2 ^ 63"
  shows "RunID s' = RunID s \<and> TenantID s' = TenantID s \<and> tool_count cd s' toolRef = tool_count cd s toolRef + 1
    \<and> tool_count cd s toolRef < cap \<and> (\<forall>other. other \<noteq> toolRef \<longrightarrow> tool_count cd s' other = tool_count cd s other)"
proof -
  obtain counts where c: "decodeToolCallCounts cd s = Inr counts" "count_of counts toolRef < cap"
    and s': "s' = set_var workflowToolCallCountsVar
        (EncodeCounts cd (AList.update toolRef (i64 (count_of counts toolRef + 1)) counts)) s"
    using assms(1) by (auto simp: reserve_mutation_def not_le split: sum.splits if_splits)
  have ints: "int_counts counts" using decodeToolCallCounts_range [OF c(1) assms(2)] .
  note low = count_of_range [OF ints, of toolRef]
  let ?new = "AList.update toolRef (count_of counts toolRef + 1) counts"
  have i: "i64 (count_of counts toolRef + 1) = count_of counts toolRef + 1"
    by (rule i64_id) (use assms(3) c low in auto)
  have "int_counts ?new" by (rule int_counts_update [OF ints]) (use assms(3) c low in auto)
  then obtain new where new: "DecodeCounts cd (EncodeCounts cd ?new) = Inr new" "map_of new = map_of ?new" "EncodeCounts cd ?new \<noteq> []"
    using assms(2) unfolding counts_codec_def by blast
  then have "decodeToolCallCounts cd s' = Inr new" by (simp add: s' i decodeToolCallCounts_def update_conv')
  with new(2) c s' show ?thesis by (auto simp: tool_count_def count_of_def update_conv')
qed

text \<open>
  C6: the rate cap holds under concurrency. Nothing but the saves of other writers happens to the run store up to the moment of the
  reservation; there it finds fewer calls of the tool recorded than the cap allows and records exactly one more, so that the count is at
  most the cap, with the counts of other tools and all other runs as they were. When it fails it has written nothing.
\<close>

theorem reserve_respects_cap:
  assumes "reserveWorkflowToolCall R cd ctx runID toolRef cap w = (w', err)" and "HasRuns R"
    and "bounded_moments w" and "repo_inv (Repo w)" and "counts_codec cd" and "cap < 2 ^ 63"
  shows "case err of
      None \<Rightarrow> \<exists>u before after. by_others (Fenced R) w u \<and> Moments w' = Moments u \<and> Snapshots (Repo u) runID = Some before
        \<and> Snapshots (Repo w') = (Snapshots (Repo u))(runID \<mapsto> after)
        \<and> tool_count cd after toolRef = tool_count cd before toolRef + 1 \<and> tool_count cd after toolRef \<le> cap
        \<and> (\<forall>other. other \<noteq> toolRef \<longrightarrow> tool_count cd after other = tool_count cd before other)
    | Some e \<Rightarrow> by_others (Fenced R) w w'"
proof -
  let ?m = "reserve_mutation cd toolRef cap"
  obtain a' err' where saved: "save_attempts 5 R ctx runID ?m () w = (w', a', err')" and err: "err = None \<longleftrightarrow> err' = None"
    using assms(1,2) by (auto simp: reserveWorkflowToolCall_def saveSnapshotWithRetry_def split: prod.splits option.splits)
  note effect = reserve_mutation_effect [OF _ assms(5,6)]
  have keeps: "keeps_identity ?m"
    by (auto simp: keeps_identity_def reserve_mutation_def split: sum.splits if_splits)
  note atomic = save_attempts_atomic [OF keeps saved assms(3,4)]
  show ?thesis
  proof (cases err')
    case (Some e)
    with atomic err show ?thesis by (auto split: option.splits)
  next
    case None
    with atomic obtain u where r: "by_others (Fenced R) w u"
      and upd: "atomic_update (Fenced R) ctx runID (\<lambda>s s'. ?m () s = (a', Inr s')) u w'" by auto
    obtain s s' t where l: "LoadAuthorized (live ctx) (Repo u) runID = Inr s" and m: "?m () s = (a', Inr s')"
      and t: "same_content s' t" "Snapshots (Repo w') = (Snapshots (Repo u))(runID \<mapsto> t)"
      using atomic_update_load [OF upd by_others_inv [OF r assms(4)]] effect by metis
    obtain b where b: "Snapshots (Repo u) runID = Some b" "variables_of s = variables_of b" using LoadAuthorized_variables [OF l] .
    have counts: "tool_count cd b other = tool_count cd s other" "tool_count cd t other = tool_count cd s' other" for other
      using decodeToolCallCounts_variables [of b s] decodeToolCallCounts_variables [of t s'] b(2) same_content_variables [OF t(1)]
      by (simp_all add: tool_count_def)
    have "Moments w' = Moments u" using upd by (simp add: atomic_update_def)
    with effect [OF m] r b(1) t(2) counts err None
    have "by_others (Fenced R) w u \<and> Moments w' = Moments u \<and> Snapshots (Repo u) runID = Some b
        \<and> Snapshots (Repo w') = (Snapshots (Repo u))(runID \<mapsto> t)
        \<and> tool_count cd t toolRef = tool_count cd b toolRef + 1 \<and> tool_count cd t toolRef \<le> cap
        \<and> (\<forall>other. other \<noteq> toolRef \<longrightarrow> tool_count cd t other = tool_count cd b other)" by auto
    with err None show ?thesis by auto
  qed
qed

section \<open>A sample codec\<close>

text \<open>
  A simple text format that satisfies the laws: a key is written with a mark before each character, a number
  in unary behind its sign.
\<close>

fun write_key :: "string \<Rightarrow> bytes" where
  "write_key [] = []"
| "write_key (c # cs) = CHR ''c'' # c # write_key cs"

definition write_entry :: "string \<times> int \<Rightarrow> bytes" where
  "write_entry e = write_key (fst e) @ (if snd e < 0 then CHR ''-'' else CHR ''+'') # replicate (nat \<bar>snd e\<bar>) CHR ''i'' @ '';''"

definition write_counts :: "(string \<times> int) list \<Rightarrow> bytes" where
  "write_counts counts = concat (map write_entry counts) @ ''}''"

fun read_key :: "bytes \<Rightarrow> string \<times> bytes" where
  "read_key (m # c # cs) = (if m = CHR ''c'' then (let (k, rest) = read_key cs in (c # k, rest)) else ([], m # c # cs))"
| "read_key s = ([], s)"

fun read_entries :: "nat \<Rightarrow> bytes \<Rightarrow> (string \<times> int) list option" where
  "read_entries 0 s = (if s = ''}'' then Some [] else None)"
| "read_entries (Suc n) s =
     (if s = ''}'' then Some []
      else (case read_key s of
          (k, sign # rest) \<Rightarrow>
            (case dropWhile (\<lambda>c. c = CHR ''i'') rest of
               semi # rest' \<Rightarrow>
                 if semi = CHR '';'' then
                   map_option (\<lambda>es. (k, (if sign = CHR ''-'' then - 1 else 1) * int (length (takeWhile (\<lambda>c. c = CHR ''i'') rest))) # es)
                     (read_entries n rest')
                 else None
             | [] \<Rightarrow> None)
        | (k, []) \<Rightarrow> None))"

definition read_counts :: "bytes \<Rightarrow> go_error + (string \<times> int) list" where
  "read_counts raw = (case read_entries (length raw) raw of
       Some counts \<Rightarrow> if int_counts counts then Inr counts else Inl ErrNotFound
     | None \<Rightarrow> Inl ErrNotFound)"

lemma read_write_key: "c \<noteq> CHR ''c'' \<Longrightarrow> read_key (write_key k @ c # cs) = (k, c # cs)"
  by (induction k) (simp_all, cases cs, simp_all)

lemma write_entry_not_end [simp]: "write_entry e @ rest \<noteq> ''}''"
  by (cases "fst e") (auto simp: write_entry_def)

lemma read_write_entries:
  "length counts \<le> n \<Longrightarrow> read_entries n (concat (map write_entry counts) @ ''}'') = Some counts"
proof (induction counts arbitrary: n)
  case Nil
  then show ?case by (cases n) simp_all
next
  case (Cons e counts)
  obtain k i where e: "e = (k, i)" by (cases e)
  obtain n' where n: "n = Suc n'" "length counts \<le> n'" using Cons.prems by (cases n) auto
  let ?rest = "concat (map write_entry counts) @ ''}''"
  let ?sign = "if i < 0 then CHR ''-'' else CHR ''+''"
  have key: "read_key (write_entry e @ ?rest) = (k, ?sign # replicate (nat \<bar>i\<bar>) CHR ''i'' @ '';'' @ ?rest)"
    using read_write_key [of ?sign k] by (simp add: e write_entry_def)
  have ends: "write_entry e @ ?rest \<noteq> ''}''" by (rule write_entry_not_end)
  have number: "dropWhile (\<lambda>c. c = CHR ''i'') (replicate m CHR ''i'' @ '';'' @ ?rest) = '';'' @ ?rest"
    "takeWhile (\<lambda>c. c = CHR ''i'') (replicate m CHR ''i'' @ '';'' @ ?rest) = replicate m CHR ''i''" for m
    by (induction m) simp_all
  have "read_entries n (write_entry e @ ?rest) = Some (e # counts)"
    unfolding n(1) read_entries.simps(2) key using ends number Cons.IH [OF n(2)] e by simp
  then show ?case by simp
qed

lemma length_write_counts: "length counts \<le> length (write_counts counts)"
proof -
  have "length counts \<le> length (concat (map write_entry counts))"
  proof (induction counts)
    case (Cons e counts)
    moreover have "1 \<le> length (write_entry e)" by (simp add: write_entry_def)
    ultimately show ?case by simp
  qed simp
  then show ?thesis by (simp add: write_counts_def)
qed

definition sample_codec :: codec where
  "sample_codec = \<lparr>EncodeString = (\<lambda>s. s), DecodeString = Some, EncodeCounts = write_counts, DecodeCounts = read_counts,
     EncodeProgress = (\<lambda>p. write_counts [(if Completed p then ''y'' else ''n'', Iterations p)]),
     DecodeProgress = (\<lambda>raw. case read_counts raw of
         Inr [(done_text, i)] \<Rightarrow> Some \<lparr>Iterations = i, Completed = (done_text = ''y'')\<rparr> | _ \<Rightarrow> None)\<rparr>"

lemma counts_codec_sample: "counts_codec sample_codec"
proof -
  have "write_counts counts \<noteq> []" for counts by (simp add: write_counts_def)
  moreover have "read_counts (write_counts counts) = Inr counts" if "int_counts counts" for counts
    using read_write_entries [OF length_write_counts, of counts] that
    by (simp add: read_counts_def write_counts_def)
  moreover have "int_counts counts" if "read_counts raw = Inr counts" for raw counts
    using that by (auto simp: read_counts_def split: option.splits if_splits)
  ultimately show ?thesis by (simp add: counts_codec_def sample_codec_def)
qed

theorem reserve_respects_cap_witness:
  "\<exists>w' u before after. reserveWorkflowToolCall plain_runner sample_codec Background ''r'' ''t'' 1 busy_world = (w', None)
     \<and> by_others True busy_world u \<and> Moments w' = Moments u \<and> Snapshots (Repo u) ''r'' = Some before
     \<and> Snapshots (Repo w') = (Snapshots (Repo u))(''r'' \<mapsto> after)
     \<and> tool_count sample_codec after ''t'' = tool_count sample_codec before ''t'' + 1
     \<and> tool_count sample_codec after ''t'' \<le> 1"
proof -
  have ok: "snd (reserveWorkflowToolCall plain_runner sample_codec Background ''r'' ''t'' 1 busy_world) = None" by code_simp
  then obtain w' where r: "reserveWorkflowToolCall plain_runner sample_codec Background ''r'' ''t'' 1 busy_world = (w', None)"
    by (metis prod.collapse)
  have runs: "HasRuns plain_runner" and fenced: "Fenced plain_runner" by (simp_all add: plain_runner_def)
  have cap: "(1 :: int) < 2 ^ 63" by simp
  from r fenced reserve_respects_cap [OF r runs bounded_busy repo_inv_busy counts_codec_sample cap] show ?thesis by auto
qed

section \<open>Approval\<close>

lemma approve_call_approved:
  assumes "approve_call T ctx scope node runID t input w = (w2, Inr (used, approved))"
    and "ToolApprovalPauseRequired t" and "\<not> FullTrust T" and "bounded_moments w"
  shows "HumanGate T \<noteq> None \<and> approved \<and> (\<exists>w1 snapshot. by_others (Fenced (Runner (Expr T))) w w1
     \<and> LoadAuthorized (live ctx) (Repo w1) runID = Inr snapshot
     \<and> checkpoint_input (VarCodec T) (storageNodeID scope (NodeID node)) (NodeID node) snapshot = Inr (Some used)
     \<and> clearWorkflowToolApprovalCheckpoint (Runner (Expr T)) ctx runID w1 = (w2, None))"
proof -
  let ?R = "Runner (Expr T)"
  have p: "pause_decision T runID t input = Inr (True, False)"
    using assms(2,3) by (simp add: pause_decision_def EvaluatePauseRequired_def)
  have gate: "HumanGate T \<noteq> None"
    using assms(1,2) p by (auto simp: approve_call_def DenialWithoutGate_def Let_def split: option.splits if_splits)
  obtain w1 res where c: "workflowToolApprovalInput ?R (VarCodec T) ctx scope runID (NodeID node) w = (w1, res)"
    by (cases "workflowToolApprovalInput ?R (VarCodec T) ctx scope runID (NodeID node) w")
  have res: "res = Inr (Some used)" "approved" "clearWorkflowToolApprovalCheckpoint ?R ctx runID w1 = (w2, None)"
    using assms(1) p gate c by (auto simp: approve_call_def Let_def split: sum.splits option.splits prod.splits)
  then have runs: "HasRuns ?R" using c by (auto simp: workflowToolApprovalInput_def split: if_splits)
  obtain snapshot where l: "load_run ?R ctx runID w = (w1, Inr snapshot)"
    and i: "checkpoint_input (VarCodec T) (storageNodeID scope (NodeID node)) (NodeID node) snapshot = Inr (Some used)"
    using c res runs by (auto simp: workflowToolApprovalInput_def split: prod.splits sum.splits)
  obtain m where "LoadAuthorized (at_moment m ctx) (Repo w1) runID = Inr snapshot"
    using l by (auto simp: load_run_def simp del: tick.simps split: prod.splits)
  then have "LoadAuthorized (live ctx) (Repo w1) runID = Inr snapshot" by (rule LoadAuthorized_same) simp
  with gate res i load_run_by_others(1) [OF l assms(4)] show ?thesis by blast
qed

lemma dispatch_tool_calls:
  "dispatch_tool T ctx scope s node runID t input w = (w', err, calls) \<Longrightarrow> set calls \<subseteq> {(NodeRef node, input)}"
  by (auto simp: dispatch_tool_def execute_tool_def Let_def split: if_splits prod.splits option.splits sum.splits)


section \<open>A pause that was never confirmed\<close>

lemma save_attempts_quiet:
  "save_attempts n R ctx runID mutate a w = (w', a', err) \<Longrightarrow> Moments w = [] \<Longrightarrow> Moments w' = []"
proof (induction n arbitrary: a w)
  case (Suc n)
  have quiet: "Moments w2 = []" if "saveRunSnapshot R ctx s1 v w = (w2, serr)" for s1 v w2 serr
    using that Suc.prems(2) by (auto simp: saveRunSnapshot_def split: prod.splits)
  have "fst (load_run R ctx runID w) = w" using Suc.prems(2) by simp
  then obtain res where l: "load_run R ctx runID w = (w, res)" by (metis prod.collapse)
  show ?case using Suc.prems(1) l quiet Suc.IH Suc.prems(2)
    by (auto split: sum.splits prod.splits option.splits if_splits)
qed simp

text \<open>What the strings need of \<^verbatim>\<open>encoding/json\<close>: they read back as they were written.\<close>

definition string_codec :: "codec \<Rightarrow> bool" where
  "string_codec cd \<longleftrightarrow> (\<forall>x. DecodeString cd (EncodeString cd x) = Some x)"

lemma approval_mutation_effect:
  assumes "approval_mutation cd stored toolName input payload a s = (a', Inr s')" and "string_codec cd" and "input \<noteq> []"
    and "variables_of t = variables_of s'"
  shows "RunID s' = RunID s \<and> Version s' = Version s \<and> TenantID s' = TenantID s
     \<and> checkpoint_input cd stored nodeID t = Inr (Some input)"
proof -
  obtain c cs where input: "input = c # cs" using assms(3) by (cases input) auto
  have s': "RunID s' = RunID s" "Version s' = Version s" "TenantID s' = TenantID s"
    and vars: "variables_of s' = AList.update workflowCheckpointToolRefVar (EncodeString cd toolName)
        (AList.update workflowCheckpointToolInputVar input
          (AList.update workflowCheckpointNodeVar (EncodeString cd stored)
            (AList.update workflowCheckpointKindVar (EncodeString cd workflowToolApprovalKind) (variables_of s))))"
    using assms(1) by (auto simp: approval_mutation_def Let_def variables_of_def set_var_def split: sum.splits)
  have "snapshotVariableString cd (variables_of t) workflowCheckpointKindVar = workflowToolApprovalKind"
    "snapshotVariableString cd (variables_of t) workflowCheckpointNodeVar = stored"
    "map_of (variables_of t) workflowCheckpointToolInputVar = Some (c # cs)"
    using assms(2) unfolding assms(4) vars
    by (simp_all add: snapshotVariableString_def string_codec_def update_conv' checkpoint_vars input)
  with s' input show ?thesis by (simp add: checkpoint_input_def Let_def)
qed

text \<open>
  The checkpoint of a tool approval is written before the gate confirms the pause, and nothing marks it as
  unconfirmed. If the gate fails, the node returns the gate's error; when the node is tried again, the
  checkpoint that is still there counts as the human's approval and the call goes through, although nobody
  was ever asked. The state of the gate and the status of the run do not matter.
\<close>

theorem unconfirmed_pause_counts_as_approval:
  assumes quiet: "Moments w = []" and inv: "repo_inv (Repo w)" and runs: "HasRuns (Runner (Expr T))"
    and policy: "ToolApprovalPauseRequired t" "\<not> FullTrust T"
    and gate: "HumanGate T = Some (\<lambda>ctx st w. (w, Inl e))" "\<not> errors_is e ErrStaleSnapshot"
    and codec: "string_codec (VarCodec T)" and input: "input \<noteq> []"
    and fresh: "LoadAuthorized (live ctx) (Repo w) runID = Inr s0"
      "checkpoint_input (VarCodec T) (storageNodeID scope (NodeID node)) (NodeID node) s0 = Inr None"
    and prepared: "saveSnapshotWithRetry (Runner (Expr T)) ctx runID
        (approval_mutation (VarCodec T) (storageNodeID scope (NodeID node)) (ToolName t) input
          (ApprovalPayload T (NodeID node) (ToolName t))) [] w = (w1, raw, None)"
    and cleared: "clearWorkflowToolApprovalCheckpoint (Runner (Expr T)) ctx runID w1 = (w2, None)"
  shows "approve_call T ctx scope node runID t input w = (w1, Inl e)
     \<and> approve_call T ctx scope node runID t input w1 = (w2, Inr (input, True))"
proof -
  let ?R = "Runner (Expr T)" and ?stored = "storageNodeID scope (NodeID node)"
  let ?m = "approval_mutation (VarCodec T) ?stored (ToolName t) input (ApprovalPayload T (NodeID node) (ToolName t))"
  have p: "pause_decision T runID t input = Inr (True, False)"
    using policy by (simp add: pause_decision_def EvaluatePauseRequired_def)
  have live: "at_moment quiet_moment ctx = live ctx" by (simp add: at_moment_def quiet_moment_def)
  have saved: "save_attempts 5 ?R ctx runID ?m [] w = (w1, raw, None)"
    using prepared by (simp add: saveSnapshotWithRetry_def)
  have quiet1: "Moments w1 = []" using save_attempts_quiet [OF saved quiet] .
  note effect = approval_mutation_effect [OF _ codec input]
  have keeps: "keeps_identity ?m" unfolding keeps_identity_def using effect [OF _ refl] by blast
  obtain u0 a1 where r: "by_others (Fenced ?R) w u0"
    and upd: "atomic_update (Fenced ?R) ctx runID (\<lambda>s s'. ?m a1 s = (raw, Inr s')) u0 w1"
    using save_attempts_atomic [OF keeps saved _ inv] quiet by (auto simp: bounded_moments_def)
  obtain s s' u where m: "?m a1 s = (raw, Inr s')" and u: "same_content s' u"
    "LoadAuthorized (live ctx) (Repo w1) runID = Inr (the (NormalizeSnapshot (Some u)))"
    using atomic_update_load [OF upd by_others_inv [OF r inv]] effect [OF _ refl] by (metis (no_types, lifting))
  have found: "checkpoint_input (VarCodec T) ?stored (NodeID node) (the (NormalizeSnapshot (Some u))) = Inr (Some input)"
    using effect [OF m, of "the (NormalizeSnapshot (Some u))"] same_content_variables [OF u(1)] by simp
  have load: "load_run ?R ctx runID w = (w, Inr s0)" "load_run ?R ctx runID w1 = (w1, Inr (the (NormalizeSnapshot (Some u))))"
    using quiet quiet1 fresh(1) u(2) live by (simp_all add: load_run_def)
  have "ctx_err ?R w = (w, None)" using quiet by (simp add: ctx_err_def quiet_moment_def)
  then have "pauseForWorkflowToolApproval ?R (VarCodec T) (HumanGate T) (ApprovalPayload T (NodeID node) (ToolName t))
      ctx scope node runID t input w = (w1, e)"
    using gate prepared runs load(2)
    by (simp add: pauseForWorkflowToolApproval_def pauseWithRetry_def numeral_eq_Suc)
  then have "approve_call T ctx scope node runID t input w = (w1, Inl e)"
    using p gate(1) runs load(1) fresh(2) by (simp add: approve_call_def workflowToolApprovalInput_def Let_def)
  moreover have "approve_call T ctx scope node runID t input w1 = (w2, Inr (input, True))"
    using p gate(1) runs load(2) found cleared by (simp add: approve_call_def workflowToolApprovalInput_def Let_def)
  ultimately show ?thesis by simp
qed

section \<open>Witnesses\<close>

definition failing_gate :: gate where
  "failing_gate = (\<lambda>ctx st w. (w, Inl (ErrClassified ''gate unreachable'' True)))"

definition sample_tools :: tool_env where
  "sample_tools = \<lparr>Expr = \<lparr>Runner = plain_runner, Codec = text_codec, Sprint = (\<lambda>_. [])\<rparr>, VarCodec = sample_codec,
     HasTools = True, HumanGate = Some failing_gate, PauseEvaluator = None, FullTrust = False,
     SchemaValidate = (\<lambda>_ _. None), SecurityPolicy = None, ToolGovernance = None,
     ResolveTool = (\<lambda>_. Inr (Some (\<lambda>_ _ w. (w, CallReturns (Inr \<lparr>ResultJSON = Inr ''ok'', ResultError = []\<rparr>))))),
     ApprovalPayload = (\<lambda>_ _. Inr ''p'')\<rparr>"

definition guarded_scenario :: scenario where
  "guarded_scenario = zero_scenario\<lparr>Tools := [(''t'', zero_tool\<lparr>ToolName := ''t'', ToolType := ''x'', ToolApproval := ApprovalAlways\<rparr>)]\<rparr>"

definition guarded_node :: workflow_node where
  "guarded_node = (sample_node ''n'' NodeTool [])\<lparr>NodeRef := ''t'', NodeInput := ''x''\<rparr>"

text \<open>The node fails because the gate is unreachable and executes nothing; tried again it executes the tool.\<close>

lemma guarded_runs:
  "let (w1, err1, calls1) = runToolNode sample_tools Background no_scope guarded_scenario guarded_node ''r'' done_world;
       (w2, err2, calls2) = runToolNode sample_tools Background no_scope guarded_scenario guarded_node ''r'' w1
   in err1 = Some (ErrClassified ''gate unreachable'' True) \<and> calls1 = [] \<and> Moments w1 = [] \<and> err2 = None \<and> calls2 = [(''t'', ''x'')]"
  by code_simp


end
