(* ===== verification/Workflow_Exec.thy ===== *)
theory Workflow_Exec
  imports Workflow_Tool Workflow_Schedule "HOL-Library.Sublist"
begin

text \<open>
  Running one workflow node: the retry loop, human gates, interrupts, agents, loops and subgraphs of
  \<^verbatim>\<open>internal/application/orchestration\<close> (\<^verbatim>\<open>workflow.go\<close>, \<^verbatim>\<open>workflow_nodes.go\<close>, \<^verbatim>\<open>workflow_subgraph.go\<close>) and the
  classification and backoff of \<^verbatim>\<open>pkg/retry\<close>. A node that runs other nodes takes the function that runs them
  as an argument, so that nesting is as deep as the caller makes it. Events are left out.
\<close>

section \<open>Retries\<close>

definition Retryable :: "go_error option \<Rightarrow> go_error \<Rightarrow> bool" where
  "Retryable ctxErr e \<longleftrightarrow>
     \<not> (ctxErr \<noteq> None) \<and> \<not> (errors_is e (ErrContext Canceled) \<or> errors_is e (ErrContext DeadlineExceeded))
     \<and> (case errors_as_classified e of Some retryable \<Rightarrow> retryable | None \<Rightarrow> False)"

definition millisecond :: duration where
  "millisecond = 1000000"

fun double_delay :: "nat \<Rightarrow> duration \<Rightarrow> duration" where
  "double_delay 0 delay = delay"
| "double_delay (Suc n) delay = (if 2000 * millisecond \<le> 2 * delay then 2000 * millisecond else double_delay n (2 * delay))"

text \<open>The wait before an attempt; \<open>random\<close> is what \<^verbatim>\<open>rand.N\<close> draws from zero up to half the delay.\<close>

definition backoff_delay :: "int \<Rightarrow> int \<Rightarrow> duration" where
  "backoff_delay attempt random =
     (let delay = double_delay (nat (max 0 (attempt - 1))) (100 * millisecond);
          jittered = delay + (random - delay div 4)
      in if jittered < millisecond then millisecond else jittered)"

definition nodeAutoRetrySafe :: "scenario \<Rightarrow> workflow_node \<Rightarrow> bool" where
  "nodeAutoRetrySafe s node =
     (if NodeKind node \<noteq> NodeTool then True
      else (case map_of (Tools s) (NodeRef node) of None \<Rightarrow> True | Some t \<Rightarrow> AutoRetrySafe t))"

definition workflowNodeIdempotencyKey :: "exec_scope \<Rightarrow> string \<Rightarrow> string \<Rightarrow> int \<Rightarrow> string" where
  "workflowNodeIdempotencyKey scope runID nodeID attempt =
     runID @ '':'' @ storageNodeID scope nodeID @ '':'' @ int_text attempt"

definition max_attempts :: "scenario \<Rightarrow> workflow_node \<Rightarrow> int" where
  "max_attempts s node =
     (if RetryMaxAttempts node \<le> 0 \<and> \<not> nodeAutoRetrySafe s node then 1
      else firstPositive [RetryMaxAttempts node, RtMaxRetries (Runtime s) + 1, 1])"

text \<open>
  The attempts of one node: \<open>run\<close> runs the node under an idempotency key, \<open>interrupt\<close> pauses after it. The log
  lists the keys of the attempts. A pause after the last attempt that fails, a cancelled context and a
  permanent error end the loop.
\<close>

fun attempt_loop ::
  "nat \<Rightarrow> runner \<Rightarrow> (int \<Rightarrow> string) \<Rightarrow> (string \<Rightarrow> world \<Rightarrow> world \<times> go_error option) \<Rightarrow> (world \<Rightarrow> world \<times> go_error option)
     \<Rightarrow> workflow_node \<Rightarrow> int \<Rightarrow> world \<Rightarrow> world \<times> go_error option \<times> string list" where
  "attempt_loop 0 R key run interrupt node attempt w =
     (w, Some (Errorf ''orchestration: node %q failed after %d attempt(s): %w'' [NodeID node, int_text (attempt - 1)] None), [])"
| "attempt_loop (Suc left) R key run interrupt node attempt w =
     (case ctx_err R w of
        (w0, Some e) \<Rightarrow> (w0, Some e, [])
      | (w0, None) \<Rightarrow>
          (case run (key attempt) w0 of
             (w1, None) \<Rightarrow>
               (let (w2, err) = (if Interrupt node then interrupt w1 else (w1, None)) in (w2, err, [key attempt]))
           | (w1, Some e) \<Rightarrow>
               if errors_as_workflow_paused e \<noteq> None then (w1, Some e, [key attempt])
               else (let failed = Errorf ''orchestration: node %q failed after %d attempt(s): %w'' [NodeID node, int_text attempt] (Some e)
                     in if left = 0 then (w1, Some failed, [key attempt])
                        else (let (w2, now) = ctx_err R w1 in
                        if \<not> Retryable now e then (w2, Some failed, [key attempt])
                        else (case ctx_err R w2 of
                            (w3, Some e') \<Rightarrow> (w3, Some e', [key attempt])
                          | (w3, None) \<Rightarrow>
                              (let (w4, err, keys) = attempt_loop left R key run interrupt node (attempt + 1) w3
                               in (w4, err, key attempt # keys)))))))"

text \<open>\<open>run\<close> is \<^verbatim>\<open>runNode\<close>.\<close>

definition runNodeWithRetry ::
  "runner \<Rightarrow> (string \<Rightarrow> world \<Rightarrow> world \<times> go_error option) \<Rightarrow> (world \<Rightarrow> world \<times> go_error option)
     \<Rightarrow> exec_scope \<Rightarrow> scenario \<Rightarrow> workflow_node \<Rightarrow> string \<Rightarrow> world \<Rightarrow> world \<times> go_error option \<times> string list" where
  "runNodeWithRetry R run interrupt scope s node runID w =
     (if NodeKind node = NodeHumanGate then (let (w1, err) = run [] w in (w1, err, []))
      else attempt_loop (nat (max_attempts s node)) R (workflowNodeIdempotencyKey scope runID (NodeID node)) run interrupt node 1 w)"

section \<open>Gates and interrupts\<close>

definition gate_mutation :: "string \<Rightarrow> unit mutation" where
  "gate_mutation storedID _ s = ((), Inr (s\<lparr>CurrentNodeID := storedID\<rparr>))"

definition runHumanGateNode ::
  "runner \<Rightarrow> gate option \<Rightarrow> gctx \<Rightarrow> exec_scope \<Rightarrow> workflow_node \<Rightarrow> string \<Rightarrow> world \<Rightarrow> world \<times> go_error" where
  "runHumanGateNode R gate ctx scope node runID w =
     (case gate of
        None \<Rightarrow> (w, Errorf ''orchestration: human gate is required'' [] None)
      | Some g \<Rightarrow>
          if \<not> HasRuns R then (w, Errorf ''orchestration: run-state repository is required for human gate'' [] None)
          else (case pauseWithRetry R g ctx runID (gate_mutation (storageNodeID scope (NodeID node)))
                   (\<lambda>_ version. \<lparr>GateRunID = runID, GateVersion = version, GateNodeID = NodeID node, GatePayload = Some (NodeInput node)\<rparr>) () w of
              (w1, Inl e) \<Rightarrow> (w1, e)
            | (w1, Inr token) \<Rightarrow> (w1, WorkflowPausedError runID (NodeID node) token)))"

text \<open>\<open>payload\<close> encodes the node and the output the snapshot holds for it.\<close>

definition interrupt_mutation ::
  "(step_output_ref option \<Rightarrow> go_error + bytes) \<Rightarrow> workflow_node \<Rightarrow> string \<Rightarrow> bytes mutation" where
  "interrupt_mutation payload node storedID a s =
     (case payload (map_of (outputs_of s) storedID) of
        Inl e \<Rightarrow> (a, Inl (Errorf ''orchestration: interrupt payload for node %q: %w'' [NodeID node] (Some e)))
      | Inr raw \<Rightarrow> (raw, Inr (s\<lparr>CurrentNodeID := storedID\<rparr>)))"

definition pauseForInterrupt ::
  "runner \<Rightarrow> gate option \<Rightarrow> (step_output_ref option \<Rightarrow> go_error + bytes) \<Rightarrow> gctx \<Rightarrow> exec_scope \<Rightarrow> workflow_node \<Rightarrow> string \<Rightarrow> world
     \<Rightarrow> world \<times> go_error" where
  "pauseForInterrupt R gate payload ctx scope node runID w =
     (case gate of
        None \<Rightarrow> (w, Errorf ''orchestration: human gate is required for interrupt on node %q'' [NodeID node] None)
      | Some g \<Rightarrow>
          if \<not> HasRuns R then (w, Errorf ''orchestration: run-state repository is required for interrupt'' [] None)
          else (case pauseWithRetry R g ctx runID (interrupt_mutation payload node (storageNodeID scope (NodeID node)))
                   (\<lambda>raw version. \<lparr>GateRunID = runID, GateVersion = version, GateNodeID = NodeID node, GatePayload = Some raw\<rparr>) [] w of
              (w1, Inl e) \<Rightarrow> (w1, e)
            | (w1, Inr token) \<Rightarrow> (w1, WorkflowPausedError runID (NodeID node) token)))"

section \<open>Agents\<close>

text \<open>
  \<open>input_of\<close> is \<^verbatim>\<open>coreAgentInputFromResolved\<close>, which reads the prompt out of the resolved input; an agent is host
  code, given the prompt, the resolved input and the world.
\<close>

definition runAgentNode ::
  "tool_env \<Rightarrow> bool \<Rightarrow> (string \<Rightarrow> (string \<Rightarrow> bytes \<Rightarrow> world \<Rightarrow> world \<times> (go_error + bytes) call_end) option) \<Rightarrow> (bytes \<Rightarrow> string)
     \<Rightarrow> gctx \<Rightarrow> exec_scope \<Rightarrow> scenario \<Rightarrow> workflow_node \<Rightarrow> string \<Rightarrow> world \<Rightarrow> world \<times> go_error option" where
  "runAgentNode T hasAgents agents input_of ctx scope s node runID w =
     (let R = Runner (Expr T) in
      if \<not> hasAgents then (w, Some (Errorf ''orchestration: agent registry is required'' [] None))
      else (case agents (NodeRef node) of
        None \<Rightarrow> (w, Some (Errorf ''orchestration: agent %q not found'' [NodeRef node] None))
      | Some agent \<Rightarrow>
      (case resolveNodeInput (Expr T) ctx scope runID (NodeInput node) (Secrets (Runtime s)) w of
        (w1, Inl e) \<Rightarrow> (w1, Some e)
      | (w1, Inr input) \<Rightarrow>
      (case resolveWorkflowAmendmentForAgent R (VarCodec T) ctx scope runID (input_of input) w1 of
        (w2, Inl e) \<Rightarrow> (w2, Some e)
      | (w2, Inr (prompt, applied)) \<Rightarrow>
      (case (if applied then clearWorkflowAmendment R ctx runID w2 else (w2, None)) of
        (w3, Some e) \<Rightarrow> (w3, Some e)
      | (w3, None) \<Rightarrow>
          (let (w4, ending) = agent prompt input w3 in
           case safecall_Invoke ''orchestration: agent run'' ending of
             Inl e \<Rightarrow> (w4, Some e)
           | Inr output \<Rightarrow> SaveStepOutput R ctx scope s runID (NodeID node) output w4))))))"

section \<open>Loops\<close>

definition loopProgressVariable :: "string \<Rightarrow> string" where
  "loopProgressVariable storedNodeID = ''loop_progress:'' @ storedNodeID"

definition no_progress :: loop_progress where
  "no_progress = \<lparr>Iterations = 0, Completed = False\<rparr>"

definition loadLoopProgress :: "runner \<Rightarrow> codec \<Rightarrow> gctx \<Rightarrow> string \<Rightarrow> string \<Rightarrow> world \<Rightarrow> world \<times> (go_error + loop_progress)" where
  "loadLoopProgress R cd ctx runID storedNodeID w =
     (if \<not> HasRuns R then (w, Inr no_progress)
      else (case load_run R ctx runID w of
          (w1, Inl e) \<Rightarrow> (w1, Inl e)
        | (w1, Inr snapshot) \<Rightarrow>
            (w1, Inr (case map_of (variables_of snapshot) (loopProgressVariable storedNodeID) of
                 None \<Rightarrow> no_progress
               | Some raw \<Rightarrow> if raw = [] then no_progress
                    else (case DecodeProgress cd raw of None \<Rightarrow> no_progress | Some p \<Rightarrow> p)))))"

definition saveLoopProgress :: "runner \<Rightarrow> codec \<Rightarrow> gctx \<Rightarrow> string \<Rightarrow> string \<Rightarrow> loop_progress \<Rightarrow> world \<Rightarrow> world \<times> go_error option" where
  "saveLoopProgress R cd ctx runID storedNodeID p w =
     (let (w1, _, err) = saveSnapshotWithRetry R ctx runID
            (\<lambda>_ s. ((), Inr (set_var (loopProgressVariable storedNodeID) (EncodeProgress cd p) s))) () w
      in (w1, err))"

text \<open>
  What a loop is run with: the node, its decoded input, the nodes by id, and \<open>run\<close>, which is
  \<^verbatim>\<open>runNodeWithRetry\<close> for a body node. The log lists the body nodes that were run, with the iteration.
\<close>

record loop_env =
  LoopTools :: tool_env
  LoopCtx :: gctx
  LoopScope :: exec_scope
  LoopNode :: workflow_node
  LoopSpec :: loop_spec
  LoopRun :: string
  NodesByID :: "(string \<times> workflow_node) list"
  RunBody :: "workflow_node \<Rightarrow> world \<Rightarrow> world \<times> go_error option"

abbreviation loop_runner :: "loop_env \<Rightarrow> runner" where
  "loop_runner L \<equiv> Runner (Expr (LoopTools L))"

text \<open>How the body of one iteration ends: normally, by an error that ends the node, or by a failing body node.\<close>

datatype body_end = BodyDone | BodyStop go_error | BodyFailed go_error

fun loop_body :: "loop_env \<Rightarrow> bool \<Rightarrow> int \<Rightarrow> string list \<Rightarrow> world \<Rightarrow> world \<times> body_end \<times> (int \<times> string) list" where
  "loop_body L resumed iteration [] w = (w, BodyDone, [])"
| "loop_body L resumed iteration (bodyID # ids) w =
     (case map_of (NodesByID L) bodyID of
        None \<Rightarrow> (w, BodyStop (Errorf ''orchestration: loop node %q references unknown body node %q'' [NodeID (LoopNode L), bodyID] None), [])
      | Some bodyNode \<Rightarrow>
          (case (if resumed then nodeAlreadyDone (loop_runner L) (LoopCtx L) (LoopScope L) (LoopRun L) bodyNode w else (w, Inr False)) of
             (w1, Inl e) \<Rightarrow> (w1, BodyStop e, [])
           | (w1, Inr True) \<Rightarrow> loop_body L resumed iteration ids w1
           | (w1, Inr False) \<Rightarrow>
               (case RunBody L bodyNode w1 of
                  (w2, Some e) \<Rightarrow>
                    (w2, (if errors_as_workflow_paused e \<noteq> None then BodyStop e else BodyFailed e), [(iteration, bodyID)])
                | (w2, None) \<Rightarrow>
                    (let (w3, ending, log) = loop_body L resumed iteration ids w2 in (w3, ending, (iteration, bodyID) # log)))))"

text \<open>The iterations: \<open>Inl\<close> an error that ends the node, \<open>Inr\<close> the iterations done and whether \<open>until\<close> was met.\<close>

fun loop_iterations ::
  "nat \<Rightarrow> loop_env \<Rightarrow> int \<Rightarrow> int \<Rightarrow> int \<Rightarrow> bool \<Rightarrow> world \<Rightarrow> world \<times> (go_error + int \<times> bool) \<times> (int \<times> string) list" where
  "loop_iterations 0 L resumeIteration iteration actual untilMet w = (w, Inr (actual, untilMet), [])"
| "loop_iterations (Suc n) L resumeIteration iteration actual untilMet w =
     (case ctx_err (loop_runner L) w of
        (w0, Some e) \<Rightarrow> (w0, Inl e, [])
      | (w0, None) \<Rightarrow>
          (case (if LoopUntil (LoopSpec L) = [] then (w0, Inr False)
                 else conditionEnabled (Expr (LoopTools L)) (LoopCtx L) (LoopScope L) (LoopRun L) (LoopUntil (LoopSpec L)) w0) of
             (w1, Inl e) \<Rightarrow> (w1, Inl e, [])
           | (w1, Inr True) \<Rightarrow> (w1, Inr (actual, True), [])
           | (w1, Inr False) \<Rightarrow>
               (case loop_body L (iteration = resumeIteration) iteration (LoopBody (LoopSpec L)) w1 of
                  (w2, BodyStop e, log) \<Rightarrow> (w2, Inl e, log)
                | (w2, BodyFailed e, log) \<Rightarrow>
                    (w2, Inl (Errorf ''orchestration: loop node %q failed on iteration %d: %w'' [NodeID (LoopNode L), int_text iteration] (Some e)), log)
                | (w2, BodyDone, log) \<Rightarrow>
                    (case saveLoopProgress (loop_runner L) (VarCodec (LoopTools L)) (LoopCtx L) (LoopRun L)
                            (storageNodeID (LoopScope L) (NodeID (LoopNode L))) \<lparr>Iterations = iteration, Completed = False\<rparr> w2 of
                       (w3, Some e) \<Rightarrow> (w3, Inl e, log)
                     | (w3, None) \<Rightarrow>
                         (let (w4, res, log') = loop_iterations n L resumeIteration (iteration + 1) iteration untilMet w3
                          in (w4, res, log @ log'))))))"

definition maxIterations :: "loop_spec \<Rightarrow> int" where
  "maxIterations spec = firstPositive [LoopMaxIterations spec, 3]"

text \<open>\<open>output\<close> encodes the iterations and whether the loop completed.\<close>

definition finish_loop ::
  "loop_env \<Rightarrow> (int \<Rightarrow> bool \<Rightarrow> go_error + bytes) \<Rightarrow> scenario \<Rightarrow> int \<Rightarrow> bool \<Rightarrow> world \<Rightarrow> world \<times> go_error option" where
  "finish_loop L output s iterations completed w =
     SaveStepOutput (loop_runner L) (LoopCtx L) (LoopScope L) s (LoopRun L) (NodeID (LoopNode L)) (output iterations completed) w"

definition run_loop_spec ::
  "loop_env \<Rightarrow> (int \<Rightarrow> bool \<Rightarrow> go_error + bytes) \<Rightarrow> scenario \<Rightarrow> world \<Rightarrow> world \<times> go_error option \<times> (int \<times> string) list" where
  "run_loop_spec L output s w =
     (let R = loop_runner L; cd = VarCodec (LoopTools L);
          stored = storageNodeID (LoopScope L) (NodeID (LoopNode L)) in
      case loadLoopProgress R cd (LoopCtx L) (LoopRun L) stored w of
        (w1, Inl e) \<Rightarrow> (w1, Some e, [])
      | (w1, Inr p) \<Rightarrow>
          if Completed p then (let (w2, err) = finish_loop L output s (Iterations p) True w1 in (w2, err, []))
          else (case loop_iterations (nat (maxIterations (LoopSpec L) - Iterations p)) L (Iterations p + 1) (Iterations p + 1)
                       (Iterations p) (LoopUntil (LoopSpec L) = []) w1 of
              (w2, Inl e, log) \<Rightarrow> (w2, Some e, log)
            | (w2, Inr (actual, untilMet), log) \<Rightarrow>
                (case saveLoopProgress R cd (LoopCtx L) (LoopRun L) stored \<lparr>Iterations = actual, Completed = untilMet\<rparr> w2 of
                   (w3, Some e) \<Rightarrow> (w3, Some e, log)
                 | (w3, None) \<Rightarrow> (let (w4, err) = finish_loop L output s actual untilMet w3 in (w4, err, log)))))"

definition runLoopNode ::
  "tool_env \<Rightarrow> (bytes \<Rightarrow> go_error + loop_spec) \<Rightarrow> (int \<Rightarrow> bool \<Rightarrow> go_error + bytes) \<Rightarrow> (workflow_node \<Rightarrow> world \<Rightarrow> world \<times> go_error option)
     \<Rightarrow> gctx \<Rightarrow> exec_scope \<Rightarrow> scenario \<Rightarrow> workflow_node \<Rightarrow> string \<Rightarrow> world \<Rightarrow> world \<times> go_error option \<times> (int \<times> string) list" where
  "runLoopNode T decode output run ctx scope s node runID w =
     (if NodeInput node = [] then (w, Some (Errorf ''orchestration: loop node %q input is required'' [NodeID node] None), [])
      else (case decode (NodeInput node) of
          Inl e \<Rightarrow> (w, Some (Errorf ''orchestration: loop node %q decode input: %w'' [NodeID node] (Some e)), [])
        | Inr spec \<Rightarrow>
            if LoopBody spec = [] then (w, Some (Errorf ''orchestration: loop node %q requires body node ids'' [NodeID node] None), [])
            else run_loop_spec \<lparr>LoopTools = T, LoopCtx = ctx, LoopScope = scope, LoopNode = node, LoopSpec = spec, LoopRun = runID,
                   NodesByID = (case MainWorkflow (Orch s) of None \<Rightarrow> [] | Some flow \<Rightarrow> workflowNodesByID flow), RunBody = run\<rparr> output s w))"

section \<open>Attempts\<close>

lemma nat_text_inj: "nat_text m = nat_text n \<longleftrightarrow> m = n"
proof (induction m arbitrary: n rule: less_induct)
  case (less m)
  have char: "char_of (48 + a) = (char_of (48 + b) :: char) \<Longrightarrow> a < 10 \<Longrightarrow> b < 10 \<Longrightarrow> a = b" for a b :: nat
    by (simp add: char_of_eq_iff take_bit_eq_mod)
  have digits: "nat_text k = (if k < 10 then [] else nat_text (k div 10)) @ [char_of (48 + k mod 10)]" for k
    by (subst nat_text.simps) simp
  show ?case
  proof
    assume eq: "nat_text m = nat_text n"
    then have last: "m mod 10 = n mod 10"
      and init: "(if m < 10 then [] else nat_text (m div 10)) = (if n < 10 then [] else nat_text (n div 10))"
      using char [of "m mod 10" "n mod 10"] digits [of m] digits [of n] by (simp_all del: nat_text.simps)
    have "m div 10 = n div 10"
    proof (cases "m < 10")
      case True
      with init have "n < 10" by (metis nat_text_nonempty)
      with True show ?thesis by simp
    next
      case False
      with init have eq10: "nat_text (m div 10) = nat_text (n div 10)" by (simp del: nat_text.simps split: if_splits)
      have "m div 10 < m" using False by simp
      from less.IH [OF this] eq10 show ?thesis by (rule iffD1)
    qed
    with last show "m = n" by (metis div_mult_mod_eq)
  qed simp
qed

lemma attempt_loop_keys:
  "attempt_loop n R key run interrupt node a w = (w', err, keys) \<Longrightarrow>
     length keys \<le> n \<and> (\<forall>i < length keys. keys ! i = key (a + int i))"
proof (induction n arbitrary: a w w' err keys)
  case (Suc n)
  obtain w0 e0 where c: "ctx_err R w = (w0, e0)" by (cases "ctx_err R w")
  obtain w1 err1 where r: "run (key a) w0 = (w1, err1)" by (cases "run (key a) w0")
  show ?case
  proof (cases "length keys \<le> 1")
    case True
    have "keys = [] \<or> hd keys = key a"
      using Suc.prems c r by (auto simp: Let_def split: option.splits if_splits prod.splits)
    with True show ?thesis by (cases keys) auto
  next
    case False
    then obtain w3 keys' where "attempt_loop n R key run interrupt node (a + 1) w3 = (w', err, keys')" "keys = key a # keys'"
      using Suc.prems c r by (auto simp: Let_def split: option.splits if_splits prod.splits)
    with Suc.IH [OF this(1)] show ?thesis by (auto simp: nth_Cons' algebra_simps of_nat_diff split: if_splits)
  qed
qed simp

text \<open>
  C27: retries are bounded and distinguishable. A node is attempted at most as often as its retry policy, or
  else the scenario's, allows; a tool with write, external or dangerous effects and no retry policy of its
  own is attempted at most once, since a failed attempt may have taken effect; and the idempotency keys the
  attempts run under are pairwise different and numbered from one.
\<close>

theorem retry_bounded:
  assumes "runNodeWithRetry R run interrupt scope s node runID w = (w', err, keys)"
  shows "int (length keys) \<le> max_attempts s node
     \<and> (RetryMaxAttempts node \<le> 0 \<longrightarrow> NodeKind node = NodeTool \<longrightarrow> map_of (Tools s) (NodeRef node) = Some t \<longrightarrow>
          risky_side_effect t \<longrightarrow> length keys \<le> 1)
     \<and> distinct keys \<and> (\<forall>i < length keys. keys ! i = workflowNodeIdempotencyKey scope runID (NodeID node) (int i + 1))"
proof -
  have pos: "1 \<le> max_attempts s node" by (simp add: max_attempts_def)
  have keys: "int (length keys) \<le> max_attempts s node \<and> (\<forall>i < length keys. keys ! i = workflowNodeIdempotencyKey scope runID (NodeID node) (int i + 1))"
  proof (cases "NodeKind node = NodeHumanGate")
    case True
    then have "keys = []" using assms by (auto simp: runNodeWithRetry_def split: prod.splits)
    with pos show ?thesis by simp
  next
    case False
    then have "attempt_loop (nat (max_attempts s node)) R (workflowNodeIdempotencyKey scope runID (NodeID node)) run interrupt node 1 w
        = (w', err, keys)" using assms by (simp add: runNodeWithRetry_def)
    from attempt_loop_keys [OF this] pos show ?thesis by (auto simp: add.commute)
  qed
  have shown: "int_text (int i + 1) = nat_text (Suc i)" for i by (simp add: int_text_def nat_add_distrib del: nat_text.simps)
  have "distinct keys"
    unfolding distinct_conv_nth
    using keys by (simp add: workflowNodeIdempotencyKey_def shown nat_text_inj del: nat_text.simps)
  moreover have "max_attempts s node = 1"
    if "RetryMaxAttempts node \<le> 0" "NodeKind node = NodeTool" "map_of (Tools s) (NodeRef node) = Some t" "risky_side_effect t"
    using that by (simp add: max_attempts_def nodeAutoRetrySafe_def AutoRetrySafe_def)
  ultimately show ?thesis using keys by auto
qed

definition write_tool_scenario :: scenario where
  "write_tool_scenario = zero_scenario\<lparr>Tools := [(''t'', zero_tool\<lparr>ToolSideEffect := SideEffectWrite\<rparr>)],
     Runtime := zero_runtime\<lparr>RtMaxRetries := 2\<rparr>\<rparr>"

definition flaky_run :: "string \<Rightarrow> world \<Rightarrow> world \<times> go_error option" where
  "flaky_run key w = (w, Some (ErrClassified ''again'' True))"

text \<open>With two scenario retries a read-only node is tried three times, and a tool that writes only once.\<close>

theorem retry_bounded_witness:
  "length (snd (snd (runNodeWithRetry plain_runner flaky_run (\<lambda>w. (w, None)) no_scope write_tool_scenario
      ((sample_node ''n'' NodeTool [])\<lparr>NodeRef := ''t''\<rparr>) ''r'' done_world))) = 1
   \<and> snd (snd (runNodeWithRetry plain_runner flaky_run (\<lambda>w. (w, None)) no_scope write_tool_scenario
      (sample_node ''n'' NodeTransform []) ''r'' done_world)) = [''r:n:1'', ''r:n:2'', ''r:n:3'']
   \<and> distinct [''r:n:1'', ''r:n:2'', ''r:n:3'']"
proof -
  have once: "length (snd (snd (runNodeWithRetry plain_runner flaky_run (\<lambda>w. (w, None)) no_scope write_tool_scenario
      ((sample_node ''n'' NodeTool [])\<lparr>NodeRef := ''t''\<rparr>) ''r'' done_world))) = 1" by code_simp
  have three: "snd (snd (runNodeWithRetry plain_runner flaky_run (\<lambda>w. (w, None)) no_scope write_tool_scenario
      (sample_node ''n'' NodeTransform []) ''r'' done_world)) = [''r:n:1'', ''r:n:2'', ''r:n:3'']" by code_simp
  obtain w' err keys where r: "runNodeWithRetry plain_runner flaky_run (\<lambda>w. (w, None)) no_scope write_tool_scenario
      (sample_node ''n'' NodeTransform []) ''r'' done_world = (w', err, keys)" by (metis prod_cases3)
  from retry_bounded [OF r] three r have "distinct [''r:n:1'', ''r:n:2'', ''r:n:3'']" by simp
  with once three show ?thesis by blast
qed

section \<open>Iterations\<close>

text \<open>
  The specification of a run of a loop from \<open>k\<close> stored iterations: iteration \<open>k + 1\<close> may leave out body nodes, those an
  earlier attempt has finished; after it come the iterations from \<open>k + 2\<close> to the limit, each with the whole body in its
  order, and the run may stop anywhere in them.
\<close>

definition iterations_of :: "string list \<Rightarrow> int \<Rightarrow> int \<Rightarrow> (int \<times> string) list" where
  "iterations_of body i j = concat (map (\<lambda>iteration. map (Pair iteration) body) [i..j])"

definition loop_trace :: "string list \<Rightarrow> int \<Rightarrow> int \<Rightarrow> (int \<times> string) list \<Rightarrow> (int \<times> string) list \<Rightarrow> bool" where
  "loop_trace body k limit resumed later \<longleftrightarrow> subseq (map snd resumed) body \<and> (\<forall>(i, _) \<in> set resumed. i = k + 1)
     \<and> prefix later (iterations_of body (k + 2) limit) \<and> (resumed \<noteq> [] \<longrightarrow> k < limit)"

lemma iterations_of_rec: "i \<le> j \<Longrightarrow> iterations_of body i j = map (Pair i) body @ iterations_of body (i + 1) j"
  by (simp add: iterations_of_def upto_rec1)

lemma iterations_of_empty [simp]: "j < i \<Longrightarrow> iterations_of body i j = []"
  by (simp add: iterations_of_def)

lemma loop_body_resumed:
  "loop_body L resumed i ids w = (w', ending, log) \<Longrightarrow> (\<forall>(j, _) \<in> set log. j = i) \<and> subseq (map snd log) ids"
proof (induction ids arbitrary: w w' ending log)
  case (Cons b ids)
  have cases: "log = [] \<or> log = [(i, b)] \<or> (\<exists>w1 ending'. loop_body L resumed i ids w1 = (w', ending', log))
      \<or> (\<exists>w1 ending' log'. loop_body L resumed i ids w1 = (w', ending', log') \<and> log = (i, b) # log')"
    using Cons.prems by (auto simp: Let_def split: option.splits prod.splits sum.splits if_splits bool.splits)
  then show ?case by (elim disjE exE conjE) (auto dest!: Cons.IH)
qed simp

lemma loop_body_fresh:
  "loop_body L False i ids w = (w', ending, log) \<Longrightarrow>
     prefix log (map (Pair i) ids) \<and> (ending = BodyDone \<longrightarrow> log = map (Pair i) ids)"
proof (induction ids arbitrary: w w' ending log)
  case (Cons b ids)
  have cases: "(log = [] \<or> log = [(i, b)]) \<and> ending \<noteq> BodyDone
      \<or> (\<exists>w1 log'. loop_body L False i ids w1 = (w', ending, log') \<and> log = (i, b) # log')"
    using Cons.prems by (auto simp: Let_def split: option.splits prod.splits sum.splits if_splits bool.splits)
  then show ?case by (elim disjE exE conjE) (auto dest!: Cons.IH)
qed simp

text \<open>One iteration that is not the last of the run, and what the iterations after it add.\<close>

lemma loop_iterations_Suc:
  assumes "loop_iterations (Suc n) L k i a met w = (w', res, log)"
  obtains (stops) e where "res = Inl e" "log = []"
    | (met) "res = Inr (a, True)" "log = []" "LoopUntil (LoopSpec L) \<noteq> []"
    | (fails) e w1 w2 ending where "res = Inl e" "loop_body L (i = k) i (LoopBody (LoopSpec L)) w1 = (w2, ending, log)"
    | (goes) w1 w2 w3 log1 log2 where "loop_body L (i = k) i (LoopBody (LoopSpec L)) w1 = (w2, BodyDone, log1)"
        "loop_iterations n L k (i + 1) i met w3 = (w', res, log2)" "log = log1 @ log2"
  using assms
  by (auto simp: Let_def split: option.splits prod.splits sum.splits if_splits bool.splits body_end.splits)

lemma loop_iterations_fresh:
  "loop_iterations n L k i (i - 1) met w = (w', res, log) \<Longrightarrow> k < i \<Longrightarrow>
     prefix log (iterations_of (LoopBody (LoopSpec L)) i (i - 1 + int n))
     \<and> (\<forall>a m. res = Inr (a, m) \<longrightarrow> i - 1 \<le> a \<and> a \<le> i - 1 + int n \<and> log = iterations_of (LoopBody (LoopSpec L)) i a
          \<and> (LoopUntil (LoopSpec L) = [] \<longrightarrow> a = i - 1 + int n))"
proof (induction n arbitrary: i w w' res log)
  case (Suc n)
  let ?body = "LoopBody (LoopSpec L)"
  have rec: "iterations_of ?body i (i - 1 + int (Suc n)) = map (Pair i) ?body @ iterations_of ?body (i + 1) (i + int n)"
    using iterations_of_rec [of i "i + int n" ?body] by simp
  from Suc.prems(1) show ?case
  proof (cases rule: loop_iterations_Suc)
    case (fails e w1 w2 ending)
    with Suc.prems(2) have "prefix log (map (Pair i) ?body)" using loop_body_fresh [of L i ?body w1 w2 ending log] by simp
    with fails rec show ?thesis by (auto simp: prefix_def)
  next
    case (goes w1 w2 w3 log1 log2)
    with Suc.prems(2) have l: "log1 = map (Pair i) ?body" using loop_body_fresh [of L i ?body w1 w2 BodyDone log1] by simp
    have "loop_iterations n L k (i + 1) (i + 1 - 1) met w3 = (w', res, log2)" using goes(2) by simp
    from Suc.IH [OF this] Suc.prems(2) goes(3) l rec show ?thesis by (auto simp: iterations_of_rec)
  qed auto
qed auto

lemma loop_iterations_trace:
  assumes "loop_iterations n L (k + 1) (k + 1) k met w = (w', res, log)" and "n = nat (limit - k)"
  shows "\<exists>resumed later. log = resumed @ later \<and> loop_trace (LoopBody (LoopSpec L)) k limit resumed later
     \<and> (\<forall>a m. res = Inr (a, m) \<longrightarrow> k \<le> a \<and> a \<le> max k limit \<and> later = iterations_of (LoopBody (LoopSpec L)) (k + 2) a
          \<and> (LoopUntil (LoopSpec L) = [] \<longrightarrow> a = max k limit))"
proof (cases n)
  case 0
  with assms show ?thesis by (intro exI [of _ "[]"]) (auto simp: loop_trace_def)
next
  case (Suc n')
  with assms(2) have limit: "limit = k + 1 + int n'" by simp
  let ?body = "LoopBody (LoopSpec L)"
  from assms(1) [unfolded Suc] show ?thesis
  proof (cases rule: loop_iterations_Suc)
    case (fails e w1 w2 ending)
    with loop_body_resumed [OF fails(2)] limit show ?thesis
      by (intro exI [of _ log] exI [of _ "[]"]) (auto simp: loop_trace_def)
  next
    case (goes w1 w2 w3 log1 log2)
    have "loop_iterations n' L (k + 1) (k + 2) (k + 2 - 1) met w3 = (w', res, log2)" using goes(2) by (simp add: add.commute)
    from loop_iterations_fresh [OF this] loop_body_resumed [OF goes(1)] goes(3) limit show ?thesis
      by (intro exI [of _ log1] exI [of _ log2]) (auto simp: loop_trace_def algebra_simps)
  qed (use limit in \<open>auto simp: loop_trace_def intro!: exI [of _ "[]"]\<close>)
qed


section \<open>Resuming a loop\<close>

lemma loop_body_skips:
  assumes "Moments w = []"
    and "\<And>b. b \<in> set ids \<Longrightarrow> \<exists>n. map_of (NodesByID L) b = Some n
        \<and> nodeAlreadyDone (loop_runner L) (LoopCtx L) (LoopScope L) (LoopRun L) n w = (w, Inr True)"
  shows "loop_body L True i ids w = (w, BodyDone, [])"
  using assms(2)
proof (induction ids)
  case (Cons b ids)
  then obtain n where "map_of (NodesByID L) b = Some n"
    "nodeAlreadyDone (loop_runner L) (LoopCtx L) (LoopScope L) (LoopRun L) n w = (w, Inr True)" by auto
  with Cons show ?case by simp
qed simp

text \<open>
  A resumed loop takes the outputs of the last finished iteration for outputs of the interrupted one. Body
  outputs keep the plain id of their node over the iterations, and a resume skips every body node that has an
  output. So when iteration \<open>k\<close> finished and iteration \<open>k + 1\<close>, the last one, was interrupted before its first body
  node, a resume runs no body node at all and still records iteration \<open>k + 1\<close> as done.
\<close>

theorem resumed_iteration_skipped:
  assumes "Moments w = []" and "HasRuns (loop_runner L)"
    and "loadLoopProgress (loop_runner L) (VarCodec (LoopTools L)) (LoopCtx L) (LoopRun L)
           (storageNodeID (LoopScope L) (NodeID (LoopNode L))) w = (w, Inr \<lparr>Iterations = k, Completed = False\<rparr>)"
    and "maxIterations (LoopSpec L) = k + 1" and "LoopUntil (LoopSpec L) = []"
    and "\<And>b. b \<in> set (LoopBody (LoopSpec L)) \<Longrightarrow> \<exists>n. map_of (NodesByID L) b = Some n
        \<and> nodeAlreadyDone (loop_runner L) (LoopCtx L) (LoopScope L) (LoopRun L) n w = (w, Inr True)"
    and "saveLoopProgress (loop_runner L) (VarCodec (LoopTools L)) (LoopCtx L) (LoopRun L)
           (storageNodeID (LoopScope L) (NodeID (LoopNode L))) \<lparr>Iterations = k + 1, Completed = False\<rparr> w = (w1, None)"
    and "saveLoopProgress (loop_runner L) (VarCodec (LoopTools L)) (LoopCtx L) (LoopRun L)
           (storageNodeID (LoopScope L) (NodeID (LoopNode L))) \<lparr>Iterations = k + 1, Completed = True\<rparr> w1 = (w2, None)"
    and "finish_loop L output s (k + 1) True w2 = (w3, None)"
  shows "run_loop_spec L output s w = (w3, None, [])"
proof -
  have "ctx_err (loop_runner L) w = (w, None)" using assms(1) by (simp add: ctx_err_def quiet_moment_def)
  then have "loop_iterations (Suc 0) L (k + 1) (k + 1) k True w = (w1, Inr (k + 1, True), [])"
    using assms loop_body_skips [OF assms(1,6)] by simp
  then show ?thesis using assms by (simp add: run_loop_spec_def Let_def)
qed

text \<open>The end of a run in practice: the body succeeds in iteration 1 and fails in iteration 2; tried again, the loop succeeds without running it.\<close>

definition loop_decode :: "bytes \<Rightarrow> go_error + loop_spec" where
  "loop_decode _ = Inr \<lparr>LoopBody = [''x''], LoopMaxIterations = 2, LoopUntil = []\<rparr>"

definition second_fails :: "workflow_node \<Rightarrow> world \<Rightarrow> world \<times> go_error option" where
  "second_fails n w =
     (case stepOutputRaw plain_runner Background no_scope ''r'' ''x'' w of
        (w1, Inr None) \<Rightarrow> SaveStepOutput plain_runner Background no_scope zero_scenario ''r'' ''x'' (Inr ''1'') w1
      | (w1, _) \<Rightarrow> (w1, Some (ErrClassified ''transient'' True)))"

definition run_sample_loop :: "world \<Rightarrow> world \<times> go_error option \<times> (int \<times> string) list" where
  "run_sample_loop = runLoopNode sample_tools loop_decode (\<lambda>_ _. Inr ''done'') second_fails Background no_scope
     (scenario_of loop_workflow) ((sample_node ''l'' NodeLoop [])\<lparr>NodeInput := ''x''\<rparr>) ''r''"

lemma sample_loop_runs:
  "let (w1, err1, log1) = run_sample_loop done_world; (w2, err2, log2) = run_sample_loop w1
   in err1 \<noteq> None \<and> log1 = [(1, ''x''), (2, ''x'')] \<and> err2 = None \<and> log2 = []"
  by code_simp


end
