(* ===== verification/Workflow_Resume.thy ===== *)
theory Workflow_Resume
  imports Workflow_Exec
begin

text \<open>
  Subgraphs, the dispatch over node kinds and the ways back into a workflow:
  \<^verbatim>\<open>workflow_subgraph.go\<close>, \<^verbatim>\<open>runNode\<close> and \<^verbatim>\<open>Resume\<close> of \<^verbatim>\<open>workflow.go\<close>, \<^verbatim>\<open>ResumeFromStep\<close>,
  \<^verbatim>\<open>RestoreSnapshotAndRun\<close> and the rewinding of conversation memory of \<^verbatim>\<open>workflow_checkpoint.go\<close>. The
  scheduler that runs the nodes is an argument: from the nodes done before to the world and the error.
\<close>

type_synonym node_run = "world \<Rightarrow> world \<times> go_error option"

section \<open>Subgraphs\<close>

definition sub_scenario :: "scenario \<Rightarrow> workflow \<Rightarrow> scenario" where
  "sub_scenario s sub = s\<lparr>Orch := (Orch s)\<lparr>Mode := OrchestrationFixedWorkflow, MainWorkflow := Some sub\<rparr>\<rparr>"

definition subgraph_done :: "workflow \<Rightarrow> string \<Rightarrow> run_snapshot \<Rightarrow> string list" where
  "subgraph_done sub fullPrefix snapshot =
     (let ids = map (\<lambda>(i, _). bareNodeID i fullPrefix) (filter (\<lambda>(i, _). has_prefix i fullPrefix) (outputs_of snapshot));
          bare = bareNodeID (CurrentNodeID snapshot) fullPrefix in
      if CurrentNodeID snapshot \<noteq> [] \<and> PendingGate snapshot = None \<and> has_prefix (CurrentNodeID snapshot) fullPrefix then
        (case nodeByID sub bare of
           Some n \<Rightarrow> if NodeKind n = NodeHumanGate \<or> Interrupt n then List.insert bare ids else ids
         | None \<Rightarrow> ids)
      else ids)"

fun gather_outputs ::
  "runner \<Rightarrow> gctx \<Rightarrow> workflow_node \<Rightarrow> string \<Rightarrow> (string \<times> step_output_ref) list \<Rightarrow> (string \<times> bytes) list \<Rightarrow> world
     \<Rightarrow> world \<times> (go_error + (string \<times> bytes) list)" where
  "gather_outputs R ctx node fullPrefix [] produced w = (w, Inr produced)"
| "gather_outputs R ctx node fullPrefix ((i, ref) # outs) produced w =
     (let bare = bareNodeID i fullPrefix in
      if \<not> has_prefix i fullPrefix then gather_outputs R ctx node fullPrefix outs produced w
      else (case Inline ref of
          Some raw \<Rightarrow> gather_outputs R ctx node fullPrefix outs (AList.update bare raw produced) w
        | None \<Rightarrow>
            (case (if HasBlobs R then Blob ref else None) of
               Some b \<Rightarrow>
                 (let (m, w1) = tick (Fenced R) w in
                  case Blobs_Get (at_moment m ctx) (Blobs w1) b of
                    Inl e \<Rightarrow> (w1, Inl (Errorf ''orchestration: subgraph %q hydrate step %q: %w'' [NodeID node, bare] (Some e)))
                  | Inr raw \<Rightarrow> gather_outputs R ctx node fullPrefix outs (AList.update bare raw produced) w1)
             | None \<Rightarrow> gather_outputs R ctx node fullPrefix outs (AList.update bare ([CHR 0x7B, CHR 0x22] @ ''external'' @ [CHR 0x22] @ '':true'' @ [CHR 0x7D]) produced) w)))"

text \<open>
  \<open>run\<close> runs a scenario in a scope from the nodes already done; \<open>output\<close> encodes the reference of the subgraph and
  the outputs of its steps.
\<close>

definition runSubgraphNode ::
  "runner \<Rightarrow> (exec_scope \<Rightarrow> scenario \<Rightarrow> string list \<Rightarrow> node_run) \<Rightarrow> (string \<Rightarrow> (string \<times> bytes) list \<Rightarrow> go_error + bytes)
     \<Rightarrow> gctx \<Rightarrow> exec_scope \<Rightarrow> scenario \<Rightarrow> workflow_node \<Rightarrow> string \<Rightarrow> node_run" where
  "runSubgraphNode R run output ctx scope s node runID w =
     (case map_of (Workflows (Orch s)) (NodeRef node) of
        None \<Rightarrow> (w, Some (Errorf ''orchestration: subgraph node %q references unknown workflow %q'' [NodeID node, NodeRef node] None))
      | Some sub \<Rightarrow>
          (let fullPrefix = storageNodeID scope (NodeID node) @ subgraphStepDelimiter;
               subScope = withStepPrefix scope (subgraphStepPrefix (NodeID node)) in
           case (if HasRuns R then
                   (case load_run R ctx runID w of (w1, Inl e) \<Rightarrow> (w1, Inl e) | (w1, Inr snapshot) \<Rightarrow> (w1, Inr (subgraph_done sub fullPrefix snapshot)))
                 else (w, Inr [])) of
             (w1, Inl e) \<Rightarrow> (w1, Some e)
           | (w1, Inr alreadyDone) \<Rightarrow>
               (case run subScope (sub_scenario s sub) alreadyDone w1 of
                  (w2, Some e) \<Rightarrow> (w2, Some e)
                | (w2, None) \<Rightarrow>
                    (case (if HasRuns R then
                             (case load_run R ctx runID w2 of
                                (w3, Inl e) \<Rightarrow> (w3, Inl e)
                              | (w3, Inr snapshot) \<Rightarrow> gather_outputs R ctx node fullPrefix (outputs_of snapshot) [] w3)
                           else (w2, Inr [])) of
                       (w3, Inl e) \<Rightarrow> (w3, Some e)
                     | (w3, Inr produced) \<Rightarrow> SaveStepOutput R ctx scope s runID (NodeID node) (output (NodeRef node) produced) w3))))"

section \<open>Dispatch\<close>

text \<open>The runners of the kinds modelled elsewhere or left to the host.\<close>

record node_runners =
  RunTool :: "workflow_node \<Rightarrow> node_run"
  RunAgent :: "workflow_node \<Rightarrow> node_run"
  RunTransform :: "workflow_node \<Rightarrow> node_run"
  RunHumanGate :: "workflow_node \<Rightarrow> world \<Rightarrow> world \<times> go_error"
  RunParallelGroup :: "workflow_node \<Rightarrow> node_run"
  RunLoop :: "workflow_node \<Rightarrow> node_run"
  RunQueryRouter :: "workflow_node \<Rightarrow> node_run"
  RunRAGGrade :: "workflow_node \<Rightarrow> node_run"
  RunSupervisor :: "workflow_node \<Rightarrow> node_run"
  RunSubgraph :: "workflow_node \<Rightarrow> node_run"
  RunMap :: "workflow_node \<Rightarrow> node_run"

definition runNode :: "node_runners \<Rightarrow> workflow_node \<Rightarrow> node_run" where
  "runNode N node w = (case NodeKind node of
       NodeTool \<Rightarrow> RunTool N node w
     | NodeAgent \<Rightarrow> RunAgent N node w
     | NodeTransform \<Rightarrow> RunTransform N node w
     | NodeHumanGate \<Rightarrow> (let (w1, e) = RunHumanGate N node w in (w1, Some e))
     | NodeParallelGroup \<Rightarrow> RunParallelGroup N node w
     | NodeLoop \<Rightarrow> RunLoop N node w
     | NodeQueryRouter \<Rightarrow> RunQueryRouter N node w
     | NodeRAGGrade \<Rightarrow> RunRAGGrade N node w
     | NodeSupervisor \<Rightarrow> RunSupervisor N node w
     | NodeSubgraph \<Rightarrow> RunSubgraph N node w
     | NodeMap \<Rightarrow> RunMap N node w
     | NodeSkill \<Rightarrow> (w, Some (Errorf ''orchestration: skill node %q requires skill workflow expansion before runtime'' [NodeID node] None))
     | NodeKindOther kind \<Rightarrow> (w, Some (Errorf ''orchestration: unsupported node kind %q'' [kind] None)))"

section \<open>Rewinding memory\<close>

definition watermarkNodeDiscarded :: "string list \<Rightarrow> string \<Rightarrow> bool" where
  "watermarkNodeDiscarded removed storedNodeID = list_ex (nodeOrDescendantMatches storedNodeID) removed"

text \<open>The watermarks as decoded, from the stored id of a node to its agent and the length of its memory.\<close>

fun keep_lengths :: "string list \<Rightarrow> (string \<times> string \<times> int) list \<Rightarrow> (string \<times> int) list \<Rightarrow> (string \<times> int) list" where
  "keep_lengths removed [] keep = keep"
| "keep_lengths removed ((stored, agent, len) # marks) keep =
     (if \<not> watermarkNodeDiscarded removed stored then keep_lengths removed marks keep
      else (case map_of keep agent of
          Some existing \<Rightarrow> keep_lengths removed marks (if len < existing then AList.update agent len keep else keep)
        | None \<Rightarrow> keep_lengths removed marks (AList.update agent len keep)))"

fun rewind_agents :: "(string \<Rightarrow> int \<Rightarrow> node_run) \<Rightarrow> (string \<times> int) list \<Rightarrow> node_run" where
  "rewind_agents rewind [] w = (w, None)"
| "rewind_agents rewind ((agent, k) # others) w =
     (case rewind agent k w of (w1, Some e) \<Rightarrow> (w1, Some e) | (w1, None) \<Rightarrow> rewind_agents rewind others w1)"

definition rewindConversationMemory ::
  "(string \<Rightarrow> int \<Rightarrow> node_run) option \<Rightarrow> (bytes \<Rightarrow> (string \<times> string \<times> int) list option) \<Rightarrow> (string \<times> bytes) list \<Rightarrow> string list \<Rightarrow> node_run" where
  "rewindConversationMemory memory decode_marks variables removed w =
     (case memory of
        None \<Rightarrow> (w, None)
      | Some rewind \<Rightarrow>
          if variables = [] \<or> removed = [] then (w, None)
          else (case map_of variables ''conversation_memory_watermarks'' of
              None \<Rightarrow> (w, None)
            | Some raw \<Rightarrow>
                if raw = [] then (w, None)
                else (case decode_marks raw of
                    None \<Rightarrow> (w, None)
                  | Some marks \<Rightarrow> rewind_agents rewind (keep_lengths removed marks []) w)))"

section \<open>Resuming\<close>

definition WorkflowRunner_Resume :: "runner \<Rightarrow> (string list \<Rightarrow> node_run) \<Rightarrow> gctx \<Rightarrow> scenario \<Rightarrow> string \<Rightarrow> node_run" where
  "WorkflowRunner_Resume R run ctx s runID w =
     (if \<not> HasRuns R then (w, Some (Errorf ''orchestration: run-state repository is required for workflow resume'' [] None))
      else (case load_run R ctx runID w of
          (w1, Inl e) \<Rightarrow> (w1, Some e)
        | (w1, Inr snapshot) \<Rightarrow>
            if Status snapshot \<noteq> RunStatusRunning
            then (w1, Some (Errorf ''orchestration: workflow resume requires running snapshot, got %s'' [status_text (Status snapshot)] None))
            else run (alreadyDoneFromSnapshot s snapshot) w1))"

definition rerun_status :: "run_status \<Rightarrow> bool" where
  "rerun_status st \<longleftrightarrow> st \<in> {RunStatusRunning, RunStatusPaused, RunStatusCompleted, RunStatusFailed}"

definition drop_final :: "run_snapshot \<Rightarrow> run_snapshot" where
  "drop_final s = s\<lparr>StepOutputs := Some (AList.delete ''final'' (outputs_of s))\<rparr>"

definition RestoreSnapshotAndRun ::
  "runner \<Rightarrow> (string list \<Rightarrow> node_run) \<Rightarrow> (string \<Rightarrow> int \<Rightarrow> node_run) option \<Rightarrow> (bytes \<Rightarrow> (string \<times> string \<times> int) list option)
     \<Rightarrow> gctx \<Rightarrow> scenario \<Rightarrow> string \<Rightarrow> run_snapshot \<Rightarrow> node_run" where
  "RestoreSnapshotAndRun R run memory decode_marks ctx s runID restored w =
     (if MainWorkflow (Orch s) = None then (w, Some (Errorf ''orchestration: workflow is required'' [] None))
      else if \<not> HasRuns R then (w, Some (Errorf ''orchestration: run-state repository is required for workflow restore'' [] None))
      else (case load_run R ctx runID w of
        (w1, Inl e) \<Rightarrow> (w1, Some e)
      | (w1, Inr current) \<Rightarrow>
          if \<not> rerun_status (Status current)
          then (w1, Some (Errorf ''orchestration: workflow restore requires running, paused, completed, or failed snapshot, got %s''
                  [status_text (Status current)] None))
          else
            (let removed = filter (\<lambda>i. map_of (outputs_of restored) i = None) (map fst (outputs_of current)) in
             case rewindConversationMemory memory decode_marks (variables_of current) removed w1 of
               (w2, Some e) \<Rightarrow> (w2, Some e)
             | (w2, None) \<Rightarrow>
                 (let snapshot = drop_final (restored\<lparr>RunID := runID, Version := Version current, Status := RunStatusRunning, PendingGate := None\<rparr>)
                  in case saveRunSnapshot R (ContextWithStatusTransitionOverride ctx) snapshot (Version current) w2 of
                       (w3, Some e) \<Rightarrow> (w3, Some e)
                     | (w3, None) \<Rightarrow> run (alreadyDoneFromSnapshot s (snapshot\<lparr>PendingGate := PendingGate restored\<rparr>)) w3))))"

definition ResumeFromStep ::
  "runner \<Rightarrow> (string list \<Rightarrow> node_run) \<Rightarrow> (string \<Rightarrow> int \<Rightarrow> node_run) option \<Rightarrow> (bytes \<Rightarrow> (string \<times> string \<times> int) list option)
     \<Rightarrow> (bytes \<Rightarrow> go_error + loop_spec) \<Rightarrow> gctx \<Rightarrow> scenario \<Rightarrow> string \<Rightarrow> string \<Rightarrow> node_run" where
  "ResumeFromStep R run memory decode_marks decode_loop ctx s runID nodeID w =
     (case MainWorkflow (Orch s) of
        None \<Rightarrow> (w, Some (Errorf ''orchestration: workflow is required'' [] None))
      | Some flow \<Rightarrow>
      if \<not> HasRuns R then (w, Some (Errorf ''orchestration: run-state repository is required for workflow resume'' [] None))
      else (case workflowNodeByID s nodeID of
        None \<Rightarrow> (w, Some (Errorf ''orchestration: workflow node %q not found'' [nodeID] None))
      | Some node \<Rightarrow>
      (case loopBodyNodeIDs decode_loop flow of
        Inl e \<Rightarrow> (w, Some e)
      | Inr bodyOnly \<Rightarrow>
      if nodeID \<in> set bodyOnly then (w, Some (Errorf ''orchestration: cannot resume from loop body node %q'' [nodeID] None))
      else if NodeKind node = NodeHumanGate
      then (w, Some (Errorf ''orchestration: cannot resume from human_gate node %q; use gate resume instead'' [nodeID] None))
      else if Interrupt node
      then (w, Some (Errorf ''orchestration: cannot resume from interrupt node %q; use gate resume instead'' [nodeID] None))
      else (case load_run R ctx runID w of
        (w1, Inl e) \<Rightarrow> (w1, Some e)
      | (w1, Inr loaded) \<Rightarrow>
          if \<not> rerun_status (Status loaded)
          then (w1, Some (Errorf ''orchestration: workflow resume from step requires running, paused, completed, or failed snapshot, got %s''
                  [status_text (Status loaded)] None))
          else
            (let outs = truncateStepOutputsForRerun decode_loop (outputs_of loaded) flow nodeID;
                 vars = clearLoopProgressForRerun decode_loop (variables_of loaded) flow nodeID;
                 (remove, bodyIDs) = rerunRemovalSets decode_loop flow nodeID in
             case rewindConversationMemory memory decode_marks vars (remove @ bodyIDs) w1 of
               (w2, Some e) \<Rightarrow> (w2, Some e)
             | (w2, None) \<Rightarrow>
                 (let snapshot = drop_final (loaded\<lparr>StepOutputs := Some outs, Variables := Some vars, Status := RunStatusRunning,
                        CurrentNodeID := [], PendingGate := None\<rparr>)
                  in case saveRunSnapshot R (ContextWithStatusTransitionOverride ctx) snapshot (Version snapshot) w2 of
                       (w3, Some e) \<Rightarrow> (w3, Some e)
                     | (w3, None) \<Rightarrow> run (alreadyDoneFromSnapshot s snapshot) w3))))))"

section \<open>A node the schedule cannot pass\<close>

text \<open>\<open>g\<close> is never skipped, and no batch with it succeeds.\<close>

definition stops_at :: "'w sched_ops \<Rightarrow> string \<Rightarrow> bool" where
  "stops_at ops g \<longleftrightarrow> (\<forall>w. snd (ShouldSkip ops g w) \<noteq> Inr True) \<and> (\<forall>ids w. g \<in> set ids \<longrightarrow> snd (RunBatch ops ids w) \<noteq> None)"

lemma partition_ready_stops:
  "stops_at ops g \<Longrightarrow> partition_ready ops ids pending dn runnable w = (w', log, pending', dn', res) \<Longrightarrow> g \<notin> set (log_ids log)"
proof (induction ids arbitrary: pending dn runnable w log)
  case (Cons i ids)
  obtain w1 skip where s: "ShouldSkip ops i w = (w1, skip)" by fastforce
  consider (err) e where "skip = Inl e" | (skip) "skip = Inr True" | (run) "skip = Inr False" by (cases skip) auto
  then show ?case
  proof cases
    case skip
    then have "g \<noteq> i" using Cons.prems(1) s by (auto simp: stops_at_def) (metis snd_conv)
    with Cons skip s show ?thesis by (auto split: prod.splits)
  qed (use Cons s in auto)
qed simp

lemma sched_round_stops:
  assumes "stops_at ops g" and "sched_round ops deps a b pending dn w = (w', log, Inr pd)"
  shows "g \<notin> set (log_ids log)"
proof -
  let ?ready = "sort_stable str_less (readyNodes pending dn deps)"
  obtain w1 log1 pending1 dn1 res where p: "partition_ready ops ?ready pending dn [] w = (w1, log1, pending1, dn1, res)"
    by (metis prod_cases5)
  note skipped = partition_ready_stops [OF assms(1) p]
  from assms(2) p obtain runnable where r: "CtxErrNow ops w = None" "?ready \<noteq> []" "res = Inr runnable"
    by (cases res) (auto simp: sched_round_def Let_def split: option.splits if_splits)
  show ?thesis
  proof (cases "runnable = []")
    case True
    with assms(2) p r skipped show ?thesis by (auto simp: sched_round_def)
  next
    case False
    let ?batch = "take (maxParallel a b) runnable"
    from assms(2) p r False have log: "log = log1 @ [Batch ?batch]" and "snd (RunBatch ops ?batch w1) = None"
      by (auto simp: sched_round_def Let_def split: prod.splits option.splits)
    with assms(1) have "g \<notin> set ?batch" unfolding stops_at_def by blast
    with log skipped show ?thesis by simp
  qed
qed

lemma run_loop_stops:
  "stops_at ops g \<Longrightarrow> run_loop ops deps a b pending dn w = (w', log, None) \<Longrightarrow> g \<notin> set (log_ids log)"
proof (induction ops deps a b pending dn w arbitrary: log rule: run_loop.induct)
  case (1 ops deps a b pending dn w)
  show ?case
  proof (cases "pending = []")
    case True
    with 1(3) show ?thesis by (simp add: run_loop.simps)
  next
    case False
    obtain w1 log1 res where r: "sched_round ops deps a b pending dn w = (w1, log1, res)" by (metis prod_cases3)
    with 1(3) False obtain pending1 dn1 where res: "res = Inr (pending1, dn1)"
      by (cases res) (auto simp: run_loop.simps)
    obtain log2 where l: "run_loop ops deps a b pending1 dn1 w1 = (w', log2, None)" and log: "log = log1 @ log2"
      using 1(3) False r res by (auto simp: run_loop.simps split: prod.splits)
    from 1(1) [OF False r [symmetric] refl res refl 1(2) l] sched_round_stops [OF 1(2) r [unfolded res]] log
    show ?thesis by simp
  qed
qed

text \<open>
  A node whose goroutine always ends with an error makes its batch fail, when the context stays live. Either its
  goroutine has not looked at the context yet, or the error of some goroutine is due: its own, or that of
  the sibling whose pause stopped it.
\<close>

primrec never_ends_well :: "'w node_proc \<Rightarrow> bool" where
  "never_ends_well (NodeEnd x) = (x \<noteq> HandlerReturns None)"
| "never_ends_well (NodeStep eff rest) = (\<forall>c w. never_ends_well (rest c w))"

definition always_stops :: "'w batch_ops \<Rightarrow> workflow_node \<Rightarrow> bool" where
  "always_stops ops node \<longleftrightarrow> (\<forall>c w. snd (CondEnabled ops node c w) \<noteq> Inr False) \<and> never_ends_well (RunNodeRetry ops node)"

lemma go_node_stops:
  "never_ends_well n \<Longrightarrow> ends_in (\<lambda>err. \<exists>e. err = Some e) (go_node n (node_outcome ops node))"
  by (induction n rule: node_proc_induct)
    (auto simp: node_outcome_def go_emit_def split: handler_end.splits option.splits)

definition stop_due :: "'w batch_ops \<Rightarrow> workflow_node \<Rightarrow> 'w batch_state \<Rightarrow> bool" where
  "stop_due ops node st \<longleftrightarrow> cancel_due (\<lambda>_. True) st \<and> (due_error (\<lambda>_. True) st \<or> batch_node ops node \<in> set (Pool st))"

lemma stop_due_step:
  assumes "always_stops ops node" and "\<And>w. BatchCtxErr ops w = None" and "stop_due ops node st"
  shows "stop_due ops node (batch_step i st)"
proof -
  have c: "cancel_due (\<lambda>_. True) st" "cancel_due (\<lambda>_. True) (batch_step i st)"
    using assms(3) cancel_due_step by (auto simp: stop_due_def)
  show ?thesis
  proof (cases "due_error (\<lambda>_. True) st")
    case True
    with c(2) due_error_step show ?thesis by (auto simp: stop_due_def)
  next
    case False
    with assms(3) obtain j where j: "j < length (Pool st)" "Pool st ! j = batch_node ops node"
      by (auto simp: stop_due_def in_set_conv_nth)
    have "\<not> Cancelled st" using False c(1) by (simp add: cancel_due_def)
    then have own: "ends_in (\<lambda>err. \<exists>e. err = Some e \<and> True) (Pool (batch_step j st) ! j)"
      using j assms(1,2) go_node_stops [of "RunNodeRetry ops node"]
      by (auto simp: batch_step_own batch_node_def always_stops_def go_emit_def split: sum.splits bool.splits)
    show ?thesis
    proof (cases "i = j")
      case True
      with own j c(2) show ?thesis by (auto simp: stop_due_def intro!: due_errorI [of j])
    next
      case False
      then have "batch_node ops node \<in> set (Pool (batch_step i st))" using j by (metis batch_step_simps(1,2) nth_mem)
      with c(2) show ?thesis by (simp add: stop_due_def)
    qed
  qed
qed

lemma runBatch_stops:
  assumes "always_stops ops (node_in nodes g)" and "\<And>w. BatchCtxErr ops w = None" and "g \<in> set ids"
  shows "snd (runBatch ops nodes ids w) \<noteq> None"
proof -
  let ?st = "batch_loop (BatchOrder ops w ids) (batch_start ops nodes ids w)"
  have "stop_due ops (node_in nodes g) (batch_start ops nodes ids w)"
    using assms(3) batch_start_due [of "\<lambda>_. True"] by (auto simp: stop_due_def batch_start_def)
  with stop_due_step [OF assms(1,2)] have "stop_due ops (node_in nodes g) ?st" by (rule batch_loop_inv)
  then have "due_error (\<lambda>_. True) ?st"
    using batch_wait_ended by (fastforce simp: stop_due_def batch_loop_def batch_node_def)
  from due_error_sent [OF this] have "Sent ?st \<noteq> []" by auto
  then have "find (\<lambda>e. \<not> is_pause e) (Sent ?st) \<noteq> None \<or> find is_pause (Sent ?st) \<noteq> None" by (cases "Sent ?st") auto
  then show ?thesis by (auto simp: runBatch_def drain_eq Let_def split: option.splits)
qed

section \<open>Two human gates\<close>

lemma gates_done:
  "set (alreadyDoneFromSnapshot s snapshot) \<subseteq> insert (CurrentNodeID snapshot) (fst ` set (outputs_of snapshot))"
  by (auto simp: alreadyDoneFromSnapshot_def outputs_of_def Let_def split: option.splits if_splits)

text \<open>
  The operations of a batch, with \<^verbatim>\<open>runNodeWithRetry\<close> over \<^verbatim>\<open>runNode\<close> for its nodes. The run of a node is one step
  here: what its siblings write meanwhile is among the writes of others in the moments that the run consumes.
\<close>

definition workflow_ops ::
  "runner \<Rightarrow> node_runners \<Rightarrow> (workflow_node \<Rightarrow> node_run) \<Rightarrow> exec_scope \<Rightarrow> scenario \<Rightarrow> string \<Rightarrow> world batch_ops \<Rightarrow> world batch_ops" where
  "workflow_ops R N interrupt scope s runID base =
     (let retry = (\<lambda>node w. runNodeWithRetry R (\<lambda>_. runNode N node) (interrupt node) scope s node runID w) in
      base\<lparr>RunNodeRetry := (\<lambda>node. NodeStep (\<lambda>_ w. fst (retry node w)) (\<lambda>_ w. NodeEnd (HandlerReturns (fst (snd (retry node w))))))\<rparr>)"

lemma human_gate_stops:
  assumes "NodeKind node = NodeHumanGate" and "\<And>c w. snd (CondEnabled base node c w) \<noteq> Inr False"
  shows "always_stops (workflow_ops R N interrupt scope s runID base) node"
  using assms by (simp add: always_stops_def workflow_ops_def Let_def runNodeWithRetry_def runNode_def split: prod.splits)

text \<open>
  C32: two human gates that both have to run stop a workflow for ever. Take two gates that no condition disables and no
  edge lets be skipped, as gates on exclusive branches would be. A gate leaves no step output, and a resumed run takes
  only the node it stopped at, the gate just answered, as done: the other gate runs again and stops the run
  again. So from any snapshot without step outputs for the two gates no resumption ends without an error while the
  context is live, whatever the other nodes, the conditions of other nodes and concurrent writers do.
\<close>

theorem two_gates_never_complete:
  fixes R N interrupt scope s runID base
  defines "ops \<equiv> workflow_ops R N interrupt scope s runID base"
  assumes "MainWorkflow (Orch s) = Some flow" and "loopBodyNodeIDs decode_loop flow = Inr bodyOnly"
    and "g1 \<in> schedulable decode_loop flow" and "g2 \<in> schedulable decode_loop flow" and "g1 \<noteq> g2"
    and "\<And>g. g \<in> {g1, g2} \<Longrightarrow> NodeKind (node_in (workflowNodesByID flow) g) = NodeHumanGate"
    and "\<And>g c w. g \<in> {g1, g2} \<Longrightarrow> snd (CondEnabled base (node_in (workflowNodesByID flow) g) c w) \<noteq> Inr False"
    and "\<And>g w. g \<in> {g1, g2} \<Longrightarrow> snd (should_skip g w) \<noteq> Inr True"
    and "\<And>w. BatchCtxErr base w = None"
    and "\<And>g. g \<in> {g1, g2} \<Longrightarrow> g \<notin> fst ` set (outputs_of snapshot)"
  shows "snd (snd (WorkflowRunner_run (runner_ops ops should_skip flow) decode_loop s (alreadyDoneFromSnapshot s snapshot) w)) \<noteq> None"
proof
  let ?ops = "runner_ops ops should_skip flow" and ?before = "alreadyDoneFromSnapshot s snapshot"
  assume ok: "snd (snd (WorkflowRunner_run ?ops decode_loop s ?before w)) = None"
  obtain g where g: "g \<in> {g1, g2}" "g \<noteq> CurrentNodeID snapshot" using assms(6) by auto
  then have "g \<notin> set ?before" using assms(11) [OF g(1)] gates_done [of s snapshot] by auto
  then have pending: "g \<in> schedulable decode_loop flow - set ?before" using g(1) assms(4,5) by auto
  obtain pending dn where p: "WorkflowRunner_run ?ops decode_loop s ?before w =
       run_loop ?ops (dependencies flow) (OrchMaxParallel (Orch s)) (RtMaxParallel (Runtime s)) pending dn w"
    "distinct pending" "set pending = schedulable decode_loop flow - set ?before" "set pending \<inter> set dn = {}"
    by (rule WorkflowRunner_run_loop [OF assms(2,3), of ?ops ?before w]) blast
  with ok obtain w' log where r: "run_loop ?ops (dependencies flow) (OrchMaxParallel (Orch s)) (RtMaxParallel (Runtime s)) pending dn w
      = (w', log, None)" by (metis prod.collapse)
  have live: "BatchCtxErr ops w = None" for w using assms(10) by (simp add: ops_def workflow_ops_def Let_def)
  have "stops_at ?ops g"
    using assms(9) [OF g(1)] live runBatch_stops [OF human_gate_stops [OF assms(7,8) [OF g(1)]]]
    by (simp add: stops_at_def runner_ops_def ops_def)
  from run_loop_stops [OF this r] run_loop_valid [OF r p(2,4)] p(3) pending show False by blast
qed

text \<open>
  Two gates, the second after the first, with the gate of the host granting a pause at once; the run is resumed
  after the second gate was answered.
\<close>

definition two_gates :: workflow where
  "two_gates = \<lparr>Nodes = [sample_node ''g'' NodeHumanGate [], sample_node ''h'' NodeHumanGate [''g'']], Edges = []\<rparr>"

definition open_gate :: gate where
  "open_gate = (\<lambda>ctx st w. (w, Inr ''token''))"

definition gate_runners :: node_runners where
  "gate_runners = (let none = (\<lambda>_ w. (w, None)) in \<lparr>RunTool = none, RunAgent = none, RunTransform = none,
     RunHumanGate = (\<lambda>node. runHumanGateNode plain_runner (Some open_gate) Background no_scope node ''r''),
     RunParallelGroup = none, RunLoop = none, RunQueryRouter = none, RunRAGGrade = none, RunSupervisor = none,
     RunSubgraph = none, RunMap = none\<rparr>)"

definition gate_ops :: "world batch_ops" where
  "gate_ops = workflow_ops plain_runner gate_runners (\<lambda>_ w. (w, None)) no_scope (scenario_of two_gates) ''r''
     \<lparr>BatchCtxErr = (\<lambda>_. None), BatchOrder = (\<lambda>_ _. []), CondEnabled = (\<lambda>_ _ w. (w, Inr True)),
      RunNodeRetry = (\<lambda>n. NodeEnd (HandlerReturns None)), EmitStep = (\<lambda>_ w. w)\<rparr>"

definition gates_world :: world where
  "gates_world = \<lparr>Repo = \<lparr>Snapshots = [''r'' \<mapsto> running\<lparr>Version := 1, CurrentNodeID := ''h''\<rparr>], Fences = Map.empty\<rparr>,
     Blobs = Map.empty, Moments = []\<rparr>"

lemma gates_run:
  "snd (WorkflowRunner_run (runner_ops gate_ops (\<lambda>_ w. (w, Inr False)) two_gates) loop_decoder (scenario_of two_gates) [''h''] gates_world)
     = ([Batch [''g'']], Some (WorkflowPausedError ''r'' ''g'' ''token''))"
  by code_simp

theorem two_gates_never_complete_witness:
  "let s = running\<lparr>CurrentNodeID := ''h''\<rparr>;
       result = snd (WorkflowRunner_run (runner_ops gate_ops (\<lambda>_ w. (w, Inr False)) two_gates) loop_decoder (scenario_of two_gates)
                  (alreadyDoneFromSnapshot (scenario_of two_gates) s) gates_world)
   in snd result \<noteq> None \<and> result = ([Batch [''g'']], Some (WorkflowPausedError ''r'' ''g'' ''token''))"
proof -
  have body: "loopBodyNodeIDs loop_decoder two_gates = Inr []" by code_simp
  have "NodeID ` set (Nodes two_gates) = {''g'', ''h''}" by (simp add: two_gates_def sample_node_def zero_defs)
  then have ids: "schedulable loop_decoder two_gates = {''g'', ''h''}"
    by (simp add: schedulable_def body Setcompr_eq_image)
  have kinds: "NodeKind (node_in (workflowNodesByID two_gates) ''g'') = NodeHumanGate"
    "NodeKind (node_in (workflowNodesByID two_gates) ''h'') = NodeHumanGate" by code_simp+
  have outs: "outputs_of (running\<lparr>CurrentNodeID := ''h''\<rparr>) = []" by code_simp
  have before: "alreadyDoneFromSnapshot (scenario_of two_gates) (running\<lparr>CurrentNodeID := ''h''\<rparr>) = [''h'']" by code_simp
  have "snd (snd (WorkflowRunner_run (runner_ops gate_ops (\<lambda>_ w. (w, Inr False)) two_gates) loop_decoder (scenario_of two_gates)
      (alreadyDoneFromSnapshot (scenario_of two_gates) (running\<lparr>CurrentNodeID := ''h''\<rparr>)) gates_world)) \<noteq> None"
    unfolding gate_ops_def
    by (rule two_gates_never_complete [OF _ body, where ?g1.0 = "''g''" and ?g2.0 = "''h''"])
      (use kinds in \<open>auto simp: ids outs\<close>)
  with gates_run before show ?thesis by (simp add: Let_def)
qed

end
