(* ===== verification/Ctx_Manager.thy ===== *)
theory Ctx_Manager
  imports Ctx_Mask Ctx_Transform
begin

text \<open>
  The context window, last part: policies and their defaults (\<^verbatim>\<open>policy.go\<close>), summaries, role budgets, the
  compression of tool results and \<^verbatim>\<open>PrepareWithOptions\<close> (\<^verbatim>\<open>manager.go\<close>), and the visibility marks
  (\<^verbatim>\<open>visibility.go\<close>).

  A float64 is given by its 64 bits; \<open>scale\<close> is the product \<^verbatim>\<open>int(float64(n) * r)\<close>. Messages are values, so the
  copies \<^verbatim>\<open>cloneMessages\<close> makes are the messages themselves.
\<close>

section \<open>Policies\<close>

datatype strategy = StrategyNone | StrategySlidingWindow | StrategySlidingWindowWithSummary | StrategyFullReplace | StrategyOther string

record role_budgets =
  BudgetSystem :: int
  BudgetUser :: int
  BudgetAssistant :: int
  BudgetTool :: int

record policy =
  Strategy :: strategy
  ContextWindowTokens :: int
  MaxInputTokens :: int
  ReservedOutputTokens :: int
  SummaryTokens :: int
  ToolResultMaxTokens :: int
  SystemPromptProtection :: bool
  CompressionEnabled :: bool
  TriggerRatio :: "64 word"
  RoleBudgets :: role_budgets
  SummaryMode :: string
  ExcludeFromStaleWindow :: "tool_result_class list option"
  ExcludeToolNamesFromStaleWindow :: "string list"
  PinUserMessages :: "bool option"
  ObservationMaskAfterTurns :: int

definition ExcludeFromStaleWindowOrDefault :: "policy \<Rightarrow> tool_result_class list" where
  "ExcludeFromStaleWindowOrDefault p =
     (case ExcludeFromStaleWindow p of None \<Rightarrow> [ToolResultDenied, ToolResultEmpty] | Some cs \<Rightarrow> cs)"

definition PinUserMessagesEnabled :: "policy \<Rightarrow> bool" where
  "PinUserMessagesEnabled p = (case PinUserMessages p of None \<Rightarrow> True | Some b \<Rightarrow> b)"

datatype policy_source = SourceProfile | SourceContextPolicy | SourceDefault8192

text \<open>\<^verbatim>\<open>r <= 0\<close> for a float64: a zero, or the sign bit of a number that is not NaN.\<close>

definition float_nonpos :: "64 word \<Rightarrow> bool" where
  "float_nonpos f \<longleftrightarrow> (let b = uint f; mag = b mod 2 ^ 63 in mag = 0 \<or> 2 ^ 63 \<le> b \<and> mag \<le> 2047 * 2 ^ 52)"

text \<open>The bits of 0.85.\<close>

definition default_trigger_ratio :: "64 word" where
  "default_trigger_ratio = 0x3FEB333333333333"

definition NormalizeDetailed :: "policy \<Rightarrow> policy \<times> policy_source \<times> bool" where
  "NormalizeDetailed p0 =
     (let p1 = (if Strategy p0 = StrategyOther [] then p0\<lparr>Strategy := StrategyNone\<rparr> else p0);
          profile = 0 < ContextWindowTokens p1 \<and> MaxInputTokens p1 = 0;
          p2 = (if profile then p1\<lparr>MaxInputTokens := ContextWindowTokens p1 - ReservedOutputTokens p1\<rparr> else p1);
          fallback = MaxInputTokens p2 \<le> 0;
          p3 = (if fallback then p2\<lparr>MaxInputTokens := 8192\<rparr> else p2);
          p4 = (if ReservedOutputTokens p3 \<le> 0 then p3\<lparr>ReservedOutputTokens := 1024\<rparr> else p3);
          p5 = (if SummaryTokens p4 \<le> 0 then p4\<lparr>SummaryTokens := 512\<rparr> else p4);
          p6 = (if float_nonpos (TriggerRatio p5) then p5\<lparr>TriggerRatio := default_trigger_ratio\<rparr> else p5)
      in (p6, if fallback then SourceDefault8192 else if profile then SourceProfile else SourceContextPolicy, fallback))"

section \<open>The manager\<close>

record manager =
  MPolicy :: policy
  Summarizer :: "(message list \<Rightarrow> int \<Rightarrow> string) option"
  MPolicySource :: policy_source
  MFallback8192 :: bool
  MarkInsteadOfDrop :: bool

definition NewManager :: "policy \<Rightarrow> (message list \<Rightarrow> int \<Rightarrow> string) option \<Rightarrow> bool \<Rightarrow> manager" where
  "NewManager p summarizer mark =
     (let (q, source, fallback) = NormalizeDetailed p
      in \<lparr>MPolicy = q, Summarizer = summarizer, MPolicySource = source, MFallback8192 = fallback, MarkInsteadOfDrop = mark\<rparr>)"

record window_stats =
  StStrategy :: strategy
  BeforeTokens :: int
  AfterTokens :: int
  StMaxInputTokens :: int
  DroppedMessages :: nat
  DroppedUserMessages :: nat
  DroppedAssistantMessages :: nat
  DroppedToolMessages :: nat
  ContextIncomplete :: bool
  Summarized :: bool
  StSummaryTokens :: int
  StPolicySource :: policy_source
  FallbackApplied :: bool
  MarkedMessages :: nat
  NeedsReminder :: bool

definition applyTo :: "drop_stats \<Rightarrow> window_stats \<Rightarrow> window_stats" where
  "applyTo d st = st\<lparr>DroppedMessages := DropTotal d, DroppedUserMessages := DropUser d, DroppedAssistantMessages := DropAssistant d,
     DroppedToolMessages := DropTool d, ContextIncomplete := 0 < DropUser d,
     NeedsReminder := (if 0 < DropTotal d then True else NeedsReminder st)\<rparr>"

definition trimCandidates :: "manager \<Rightarrow> message list \<Rightarrow> int \<Rightarrow> message list \<times> drop_stats" where
  "trimCandidates M candidates budget = trimToBudget candidates budget (PinUserMessagesEnabled (MPolicy M))"

definition splitProtected :: "message list \<Rightarrow> bool \<Rightarrow> message list \<times> message list" where
  "splitProtected ms protectSystem =
     (if \<not> protectSystem then ([], ms)
      else (filter (\<lambda>m. MsgRole m = RoleSystem) ms, filter (\<lambda>m. MsgRole m \<noteq> RoleSystem) ms))"

section \<open>Role budgets and compression\<close>

definition roleBudgetLimit :: "role_budgets \<Rightarrow> role \<Rightarrow> int" where
  "roleBudgetLimit b r =
     (case r of RoleSystem \<Rightarrow> BudgetSystem b | RoleUser \<Rightarrow> BudgetUser b | RoleAssistant \<Rightarrow> BudgetAssistant b
              | RoleTool \<Rightarrow> BudgetTool b | RoleOther _ \<Rightarrow> 0)"

text \<open>The loop from the newest message; the first list is reversed and \<open>usage\<close> is the tokens used by each role.\<close>

fun role_budget_loop :: "role_budgets \<Rightarrow> message list \<Rightarrow> (role \<Rightarrow> int) \<Rightarrow> message list \<Rightarrow> message list" where
  "role_budget_loop b [] usage out = out"
| "role_budget_loop b (m # ms) usage out =
     (let limit = roleBudgetLimit b (MsgRole m); cost = EstimateTokens (MsgContent m) in
      if limit \<le> 0 then role_budget_loop b ms usage (m # out)
      else if limit < usage (MsgRole m) + cost then role_budget_loop b ms usage out
      else role_budget_loop b ms (usage(MsgRole m := usage (MsgRole m) + cost)) (m # out))"

definition applyRoleBudgets :: "message list \<Rightarrow> role_budgets \<Rightarrow> message list" where
  "applyRoleBudgets ms b =
     (if BudgetSystem b = 0 \<and> BudgetUser b = 0 \<and> BudgetAssistant b = 0 \<and> BudgetTool b = 0 then ms
      else role_budget_loop b (rev ms) (\<lambda>_. 0) [])"

definition strategy_label :: "transform_strategy \<Rightarrow> string" where
  "strategy_label s = (case s of TransformIntegrator \<Rightarrow> ''integrator'' | TransformJSONAware \<Rightarrow> ''json_aware'' | TransformByteCut \<Rightarrow> ''byte_cut''
     | TransformNone \<Rightarrow> ''none'' | TransformUnset \<Rightarrow> [] | TransformOther t \<Rightarrow> t)"

definition compress_message :: "text_json \<Rightarrow> int \<Rightarrow> message \<Rightarrow> message" where
  "compress_message jc maxToolTokens m =
     (if MsgRole m \<noteq> RoleTool \<or> EstimateTokens (MsgContent m) \<le> maxToolTokens then m
      else (let (out, tm) = ApplyToolOutputTransform jc (MsgName m) (MsgContent m) maxToolTokens [];
                md1 = AList.update ''context_window'' ''compressed'' (MsgMetadata m);
                md2 = (if strategy_label (TransformStrategy tm) = [] then md1
                       else AList.update ''truncate_strategy'' (strategy_label (TransformStrategy tm)) md1)
            in m\<lparr>MsgContent := out, MsgMetadata := md2\<rparr>))"

definition compressToolMessages :: "text_json \<Rightarrow> message list \<Rightarrow> int \<Rightarrow> message list" where
  "compressToolMessages jc ms maxToolTokens = map (compress_message jc (if maxToolTokens \<le> 0 then 256 else maxToolTokens)) ms"

section \<open>Summaries\<close>

definition compact :: "string \<Rightarrow> nat \<Rightarrow> string" where
  "compact s limit =
     (let flat = join_with '' '' (Go_Text.fields s) in
      if length (runes flat) \<le> limit then flat else string_of_runes (take limit (runes flat)) @ ''...'')"

definition role_text :: "role \<Rightarrow> string" where
  "role_text r = (case r of RoleSystem \<Rightarrow> ''system'' | RoleUser \<Rightarrow> ''user'' | RoleAssistant \<Rightarrow> ''assistant'' | RoleTool \<Rightarrow> ''tool'' | RoleOther s \<Rightarrow> s)"

definition newline :: string where
  "newline = [CHR 0x0A]"

fun summary_lines :: "message list \<Rightarrow> int \<Rightarrow> int \<Rightarrow> string" where
  "summary_lines [] budget used = []"
| "summary_lines (m # ms) budget used =
     (let line = ''- '' @ role_text (MsgRole m) @ '': '' @ compact (MsgContent m) 240 @ newline; cost = EstimateTokens line in
      if budget < used + cost then [] else line @ summary_lines ms budget (used + cost))"

definition buildSummary :: "message list \<Rightarrow> int \<Rightarrow> string" where
  "buildSummary ms budget =
     (if ms = [] \<or> budget \<le> 0 then []
      else (let header = ''Earlier context summary:'' @ newline
            in trim_space (header @ summary_lines ms budget (EstimateTokens header))))"

definition summary_message :: "string \<Rightarrow> message" where
  "summary_message s = \<lparr>MsgRole = RoleSystem, MsgContent = s, MsgName = [], MsgToolCallID = [], MsgToolCallIDs = [],
     MsgMetadata = [(''context_window'', ''summary'')]\<rparr>"

definition no_message :: message where
  "no_message = \<lparr>MsgRole = RoleOther [], MsgContent = [], MsgName = [], MsgToolCallID = [], MsgToolCallIDs = [], MsgMetadata = []\<rparr>"

definition summarizeAndKeep :: "manager \<Rightarrow> message list \<Rightarrow> int \<Rightarrow> int \<Rightarrow> message \<times> message list \<times> drop_stats" where
  "summarizeAndKeep M ms budget summaryBudget =
     (if budget \<le> 0 then (no_message, [], countAllDropped ms)
      else
        (let recent = (if budget - summaryBudget < budget div 2 then budget div 2 else budget - summaryBudget);
             (remaining, dropped) = trimCandidates M ms recent;
             droppedMessages = take (length ms - length remaining) ms;
             summary = (case Summarizer M of
                 Some f \<Rightarrow> if SummaryMode (MPolicy M) = ''llm'' \<or> SummaryMode (MPolicy M) = ''custom''
                            then trim_space (f droppedMessages summaryBudget) else buildSummary droppedMessages summaryBudget
               | None \<Rightarrow> buildSummary droppedMessages summaryBudget)
         in if summary = [] then (no_message, remaining, dropped) else (summary_message summary, remaining, dropped)))"

section \<open>Assembling the window\<close>

fun markDroppedCandidates :: "message list \<Rightarrow> message list \<Rightarrow> message list" where
  "markDroppedCandidates [] kept = []"
| "markDroppedCandidates (m # ms) kept =
     (if kept \<noteq> [] \<and> messagesEquivalent m (hd kept) then m # markDroppedCandidates ms (tl kept)
      else m\<lparr>MsgMetadata := AList.update ''visibility'' ''user'' (MsgMetadata m)\<rparr> # markDroppedCandidates ms kept)"

definition assembleWindow ::
  "manager \<Rightarrow> message list \<Rightarrow> message \<Rightarrow> bool \<Rightarrow> message list \<Rightarrow> message list \<Rightarrow> drop_stats \<Rightarrow> window_stats \<Rightarrow> message list \<times> window_stats" where
  "assembleWindow M protected summary hasSummary candidates kept dropped st =
     (let out1 = (if hasSummary then protected @ [summary] else protected);
          st1 = (if hasSummary then st\<lparr>Summarized := True, NeedsReminder := True, StSummaryTokens := EstimateTokens (MsgContent summary)\<rparr> else st);
          visible = CountMessages protected + (if hasSummary then EstimateTokens (MsgContent summary) else 0)
      in if MarkInsteadOfDrop M
         then (out1 @ markDroppedCandidates candidates kept,
               (applyTo dropped st1)\<lparr>MarkedMessages := DropTotal dropped, AfterTokens := visible + CountMessages kept\<rparr>)
         else (out1 @ kept, (applyTo dropped st1)\<lparr>AfterTokens := CountMessages (out1 @ kept)\<rparr>))"

text \<open>Division of \<^verbatim>\<open>int\<close>, rounding towards zero; the other budget is positive where the code halves it.\<close>

definition go_div :: "int \<Rightarrow> int \<Rightarrow> int" where
  "go_div a b = (if (a < 0) = (b < 0) then \<bar>a\<bar> div \<bar>b\<bar> else - (\<bar>a\<bar> div \<bar>b\<bar>))"

definition add_drops :: "drop_stats \<Rightarrow> drop_stats \<Rightarrow> drop_stats" where
  "add_drops d e = \<lparr>DropTotal = DropTotal d + DropTotal e, DropUser = DropUser d + DropUser e,
     DropAssistant = DropAssistant d + DropAssistant e, DropTool = DropTool d + DropTool e, DropSystem = DropSystem d + DropSystem e\<rparr>"

definition full_replace :: "manager \<Rightarrow> message list \<Rightarrow> int \<Rightarrow> message \<times> message list \<times> drop_stats" where
  "full_replace M candidates budget =
     (let summaryBudget = SummaryTokens (MPolicy M);
          recent = (if budget - summaryBudget < go_div budget 3 then go_div budget 3 else budget - summaryBudget);
          (summary, remaining, dropped) = summarizeAndKeep M candidates budget summaryBudget
      in if recent < CountMessages remaining
         then (let (remaining', extra) = trimCandidates M remaining recent in (summary, remaining', add_drops dropped extra))
         else (summary, remaining, dropped))"

text \<open>What a strategy keeps of the candidates, with its summary if it makes one.\<close>

definition keep_window :: "manager \<Rightarrow> message list \<Rightarrow> int \<Rightarrow> message \<times> message list \<times> drop_stats" where
  "keep_window M candidates budget =
     (case Strategy (MPolicy M) of
        StrategySlidingWindowWithSummary \<Rightarrow> summarizeAndKeep M candidates budget (SummaryTokens (MPolicy M))
      | StrategyFullReplace \<Rightarrow> full_replace M candidates budget
      | _ \<Rightarrow> (let (kept, dropped) = trimCandidates M candidates budget in (no_message, kept, dropped)))"

text \<open>Masking, role budgets and compression come first; \<open>known\<close> is \<^verbatim>\<open>KnownInputTokens\<close>. The result is the messages and the measure.\<close>

definition prepared ::
  "map_decoder \<Rightarrow> text_json \<Rightarrow> (int \<Rightarrow> 64 word \<Rightarrow> int) \<Rightarrow> manager \<Rightarrow> message list \<Rightarrow> int \<Rightarrow> message list \<times> int" where
  "prepared decode jc scale M ms known =
     (let p = MPolicy M;
          ms1 = (if 0 < ObservationMaskAfterTurns p then MaskObservations decode ms (ObservationMaskAfterTurns p) (ExcludeToolNamesFromStaleWindow p) else ms);
          ms2 = applyRoleBudgets ms1 (RoleBudgets p);
          measured = (if 0 < known then known else CountMessages ms2)
      in if CompressionEnabled p \<and> 0 < MaxInputTokens p \<and> scale (MaxInputTokens p) (TriggerRatio p) < measured
         then (let ms3 = compressToolMessages jc ms2 (ToolResultMaxTokens p) in (ms3, CountMessages ms3))
         else (ms2, measured))"

definition PrepareWithOptions ::
  "map_decoder \<Rightarrow> text_json \<Rightarrow> (int \<Rightarrow> 64 word \<Rightarrow> int) \<Rightarrow> manager \<Rightarrow> message list \<Rightarrow> int \<Rightarrow> message list \<times> window_stats" where
  "PrepareWithOptions decode jc scale M ms0 known =
     (let p = MPolicy M;
          (ms, measured) = prepared decode jc scale M ms0 known;
          before = CountMessages ms;
          st = \<lparr>StStrategy = Strategy p, BeforeTokens = before, AfterTokens = 0, StMaxInputTokens = MaxInputTokens p,
                DroppedMessages = 0, DroppedUserMessages = 0, DroppedAssistantMessages = 0, DroppedToolMessages = 0,
                ContextIncomplete = False, Summarized = False, StSummaryTokens = 0, StPolicySource = MPolicySource M,
                FallbackApplied = MFallback8192 M, MarkedMessages = 0, NeedsReminder = False\<rparr>
      in if measured \<le> MaxInputTokens p then (ms, st\<lparr>AfterTokens := before\<rparr>)
         else
           (let (protected, candidates) = splitProtected ms (SystemPromptProtection p);
                budget = MaxInputTokens p - CountMessages protected;
                (summary, kept, dropped) =
                  keep_window M candidates budget
            in assembleWindow M protected summary (MsgContent summary \<noteq> []) candidates kept dropped st))"

section \<open>The window fits\<close>

lemma default_ratio [simp]: "\<not> float_nonpos default_trigger_ratio"
  by code_simp

lemma NormalizeDetailed_bounds:
  "0 < MaxInputTokens (fst (NormalizeDetailed p)) \<and> 0 < ReservedOutputTokens (fst (NormalizeDetailed p))
     \<and> 0 < SummaryTokens (fst (NormalizeDetailed p)) \<and> \<not> float_nonpos (TriggerRatio (fst (NormalizeDetailed p)))"
  by (simp add: NormalizeDetailed_def Let_def)

text \<open>The strategies that trim without a summary.\<close>

definition plain_strategy :: "strategy \<Rightarrow> bool" where
  "plain_strategy s \<longleftrightarrow> s \<noteq> StrategySlidingWindowWithSummary \<and> s \<noteq> StrategyFullReplace"

lemma no_message_content [simp]: "MsgContent no_message = []"
  by (simp add: no_message_def)

lemma trimCandidates_fits: "CountMessages (fst (trimCandidates M ms budget)) \<le> max 0 budget"
  unfolding trimCandidates_def by (rule trim_fits)

text \<open>
  The manager takes the word of the provider: it was told a token count, which is within the budget and, with compression enabled, below the
  trigger.
\<close>

definition trusts_count :: "(int \<Rightarrow> 64 word \<Rightarrow> int) \<Rightarrow> policy \<Rightarrow> int \<Rightarrow> bool" where
  "trusts_count scale p known \<longleftrightarrow> 0 < known \<and> known \<le> MaxInputTokens p
     \<and> \<not> (CompressionEnabled p \<and> scale (MaxInputTokens p) (TriggerRatio p) < known)"

text \<open>
  C29: a prepared context fits the window unless the provider's count says that it need not be trimmed. Whatever the messages, the masks, the role
  budgets, the compression and the count the provider reported, a manager that trims without summaries leaves at most \<^verbatim>\<open>MaxInputTokens\<close> estimated
  tokens for the model, or the protected system messages alone if they are more; only when a reported count is within the budget and below the
  trigger of compression are the messages passed on untrimmed, whatever their estimate. Without marks the count it states is that of the messages it
  returns.
\<close>

theorem prepare_fits_window:
  assumes "plain_strategy (Strategy (MPolicy M))" and "PrepareWithOptions decode jc scale M ms known = (out, st)"
  shows "(if trusts_count scale (MPolicy M) known then out = fst (prepared decode jc scale M ms known)
      else AfterTokens st \<le> max (MaxInputTokens (MPolicy M))
       (CountMessages (fst (splitProtected (fst (prepared decode jc scale M ms known)) (SystemPromptProtection (MPolicy M))))))
     \<and> (\<not> MarkInsteadOfDrop M \<longrightarrow> CountMessages out = AfterTokens st)"
proof -
  obtain ms1 measured where p: "prepared decode jc scale M ms known = (ms1, measured)" by fastforce
  have m: "measured = CountMessages ms1 \<or> measured = known \<and> (trusts_count scale (MPolicy M) known \<or> MaxInputTokens (MPolicy M) < measured)"
    "trusts_count scale (MPolicy M) known \<Longrightarrow> measured \<le> MaxInputTokens (MPolicy M)"
    using p by (auto simp: prepared_def trusts_count_def Let_def split: if_splits)
  obtain protected candidates where s: "splitProtected ms1 (SystemPromptProtection (MPolicy M)) = (protected, candidates)" by fastforce
  let ?budget = "MaxInputTokens (MPolicy M) - CountMessages protected"
  obtain kept dropped where t: "trimCandidates M candidates ?budget = (kept, dropped)" by fastforce
  have fits: "CountMessages kept \<le> max 0 ?budget" using trimCandidates_fits [of M candidates ?budget] t by simp
  show ?thesis
  proof (cases "measured \<le> MaxInputTokens (MPolicy M)")
    case True
    with assms(2) p m(1) show ?thesis by (auto simp: PrepareWithOptions_def Let_def)
  next
    case False
    have c: "keep_window M candidates ?budget = (no_message, kept, dropped)"
      using assms(1) t by (cases "Strategy (MPolicy M)") (simp_all add: plain_strategy_def keep_window_def)
    have "AfterTokens st = CountMessages protected + CountMessages kept
        \<and> (\<not> MarkInsteadOfDrop M \<longrightarrow> CountMessages out = AfterTokens st)"
      using assms(2) False unfolding PrepareWithOptions_def Let_def p prod.case s c
      by (auto simp: assembleWindow_def Let_def split: if_splits)
    moreover have "\<not> trusts_count scale (MPolicy M) known" using m(2) False by blast
    ultimately show ?thesis using fits unfolding p fst_conv s by (simp add: max_def split: if_splits)
  qed
qed

definition sample_policy :: policy where
  "sample_policy = \<lparr>Strategy = StrategySlidingWindow, ContextWindowTokens = 0, MaxInputTokens = 3, ReservedOutputTokens = 1024,
     SummaryTokens = 8, ToolResultMaxTokens = 0, SystemPromptProtection = False, CompressionEnabled = False, TriggerRatio = default_trigger_ratio,
     RoleBudgets = \<lparr>BudgetSystem = 0, BudgetUser = 0, BudgetAssistant = 0, BudgetTool = 0\<rparr>, SummaryMode = [],
     ExcludeFromStaleWindow = None, ExcludeToolNamesFromStaleWindow = [], PinUserMessages = None, ObservationMaskAfterTurns = 0\<rparr>"

definition no_json :: text_json where
  "no_json = \<lparr>DecodeAny = (\<lambda>_. None), EncodeAny = (\<lambda>_. None), ValidJSON = (\<lambda>_. False)\<rparr>"

abbreviation prepare_sample :: "manager \<Rightarrow> message list \<Rightarrow> message list \<times> window_stats" where
  "prepare_sample M ms \<equiv> PrepareWithOptions (\<lambda>_. None) no_json (\<lambda>n _. n) M ms 0"

definition summary_policy :: policy where
  "summary_policy = sample_policy\<lparr>Strategy := StrategySlidingWindowWithSummary, MaxInputTokens := 10\<rparr>"

lemma sample_manager [simp]:
  "NewManager sample_policy f mark = \<lparr>MPolicy = sample_policy, Summarizer = f, MPolicySource = SourceContextPolicy, MFallback8192 = False, MarkInsteadOfDrop = mark\<rparr>"
  by (simp add: NewManager_def NormalizeDetailed_def sample_policy_def)

lemma summary_manager [simp]:
  "NewManager summary_policy f mark = \<lparr>MPolicy = summary_policy, Summarizer = f, MPolicySource = SourceContextPolicy, MFallback8192 = False, MarkInsteadOfDrop = mark\<rparr>"
  by (simp add: NewManager_def NormalizeDetailed_def sample_policy_def summary_policy_def)

lemma sample_prepared [simp]:
  assumes "MPolicy M = sample_policy \<or> MPolicy M = summary_policy"
  shows "prepared d jc scale M ms 0 = (ms, CountMessages ms)"
  using assms by (auto simp: prepared_def applyRoleBudgets_def sample_policy_def summary_policy_def)

theorem prepare_fits_window_witness:
  "let M = NewManager sample_policy None False
   in CountMessages sample_turns = 4 \<and> AfterTokens (snd (prepare_sample M sample_turns)) \<le> 3
     \<and> CountMessages (fst (prepare_sample M sample_turns)) \<le> 3
     \<and> fst (PrepareWithOptions (\<lambda>_. None) no_json (\<lambda>n _. n) M sample_turns 2) = sample_turns"
proof -
  let ?M = "NewManager sample_policy None False"
  obtain out st where p: "prepare_sample ?M sample_turns = (out, st)" by fastforce
  have "plain_strategy (Strategy (MPolicy ?M))" unfolding sample_manager by (simp add: plain_strategy_def sample_policy_def)
  note w = prepare_fits_window [OF this]
  from w [OF p] have "AfterTokens st \<le> 3 \<and> CountMessages out = AfterTokens st"
    unfolding sample_manager by (simp add: splitProtected_def trusts_count_def) (simp add: sample_policy_def)
  moreover obtain out' st' where q: "PrepareWithOptions (\<lambda>_. None) no_json (\<lambda>n _. n) ?M sample_turns 2 = (out', st')" by fastforce
  from w [OF q] have "out' = sample_turns"
    unfolding sample_manager by (simp add: trusts_count_def prepared_def applyRoleBudgets_def sample_policy_def)
  moreover note q
  moreover have "CountMessages sample_turns = 4"
    by (simp add: sample_turns_def text_message_def result_message_def call_message_def token_eval)
  ultimately show ?thesis unfolding Let_def p by simp
qed

section \<open>Where summaries go wrong\<close>

lemma EstimateTokens_pos: "s \<noteq> [] \<Longrightarrow> 0 < EstimateTokens s"
  by (simp add: EstimateTokens_def Let_def)

lemma summary_header:
  "EstimateTokens (''Earlier context summary:'' @ newline) = 8"
  "trim_space (''Earlier context summary:'' @ newline) = ''Earlier context summary:''"
  "EstimateTokens ''Earlier context summary:'' = 8"
  by (simp_all add: newline_def trim_space_def trim_segments_def token_eval)

lemma sample_tokens:
  "EstimateTokens ''a b c d e f'' = 6" "EstimateTokens ''a b c d e'' = 5" "EstimateTokens ''q'' = 1" "trim_space ''q'' = ''q''"
  by (simp_all add: trim_space_def trim_segments_def token_eval)

lemma header_only: "m # ms \<noteq> [] \<Longrightarrow> buildSummary (m # ms) 8 = ''Earlier context summary:''"
  unfolding buildSummary_def Let_def summary_header
  using EstimateTokens_pos [of "''- '' @ role_text (MsgRole m) @ '': '' @ compact (MsgContent m) 240 @ newline"]
  by (simp add: Let_def summary_header [simplified])

lemmas trim_eval = trimCandidates_def trimToBudget_def keepRecentGroupsPinUser_def PinUserMessagesEnabled_def has_calls_def groupHasUser_def
  text_message_def upt_Suc droppedStatsByRole_def no_drops_def messagesEquivalent_def count_role_def

text \<open>
  A summary can exceed the window. The part kept is never cut below half of the budget, and the summary gets its own
  budget on top, so for a window smaller than twice the summary budget (512 tokens unless configured) the
  result can be larger than \<^verbatim>\<open>MaxInputTokens\<close>. Here a window of ten tokens with a summary budget of eight ends at thirteen.
\<close>

theorem summary_exceeds_window:
  "let M = NewManager summary_policy None False;
       st = snd (prepare_sample M [text_message RoleUser ''a b c d e f'', text_message RoleUser ''a b c d e''])
   in StMaxInputTokens st = 10 \<and> AfterTokens st = 13"
proof -
  let ?M = "NewManager summary_policy None False"
  let ?a = "text_message RoleUser ''a b c d e f''" and ?b = "text_message RoleUser ''a b c d e''"
  have t: "fst (trimCandidates ?M [?a, ?b] 5) = [?b]"
    unfolding summary_manager by (simp add: trim_eval summary_policy_def sample_policy_def sample_tokens)
  then obtain d where "trimCandidates ?M [?a, ?b] 5 = ([?b], d)" by (metis prod.collapse)
  then have "summarizeAndKeep ?M [?a, ?b] 10 8 = (summary_message ''Earlier context summary:'', [?b], d)"
    by (simp add: summarizeAndKeep_def header_only)
  then have "keep_window ?M [?a, ?b] 10 = (summary_message ''Earlier context summary:'', [?b], d)"
    unfolding summary_manager by (simp add: keep_window_def summary_policy_def sample_policy_def)
  moreover have "MaxInputTokens summary_policy = 10" "\<not> SystemPromptProtection summary_policy"
    by (simp_all add: summary_policy_def sample_policy_def)
  moreover have "EstimateTokens (MsgContent ?a) = 6" "EstimateTokens (MsgContent ?b) = 5"
    by (simp_all add: text_message_def sample_tokens)
  ultimately show ?thesis
    by (simp add: PrepareWithOptions_def splitProtected_def assembleWindow_def summary_message_def applyTo_def summary_header(3))
qed

text \<open>
  The summary is made of the wrong messages. It takes as many messages from the front as were dropped, but trimming pins
  user messages and skips groups that do not fit, so what was dropped need not be the front. Here the question is kept and
  also summarized, and the answer after it is dropped without a trace.
\<close>

theorem summary_of_kept_messages:
  "let q = text_message RoleUser ''q''; a = text_message RoleAssistant ''a b c d e f'';
       M = NewManager (summary_policy\<lparr>SummaryMode := ''custom''\<rparr>) (Some (\<lambda>ms _. concat (map MsgContent ms))) False;
       (summary, kept, dropped) = summarizeAndKeep M [q, a, q] 6 1
   in kept = [q, q] \<and> DropAssistant dropped = 1 \<and> MsgContent summary = ''q''"
proof -
  define q where "q = text_message RoleUser ''q''"
  define a where "a = text_message RoleAssistant ''a b c d e f''"
  define M where "M = NewManager (summary_policy\<lparr>SummaryMode := ''custom''\<rparr>) (Some (\<lambda>ms _. concat (map MsgContent ms))) False"
  have m: "SummaryMode (MPolicy M) = ''custom''" "Summarizer M = Some (\<lambda>ms _. concat (map MsgContent ms))" "PinUserMessages (MPolicy M) = None"
    by (simp_all add: M_def NewManager_def NormalizeDetailed_def summary_policy_def sample_policy_def)
  have c: "MsgContent q = ''q''" by (simp add: q_def text_message_def)
  have k: "fst (trimCandidates M [q, a, q] 5) = [q, q]"
    by (simp add: trim_eval m q_def a_def sample_tokens)
  have d: "DropAssistant (snd (trimCandidates M [q, a, q] 5)) = 1"
    by (simp add: trim_eval m q_def a_def sample_tokens)
  from k obtain d' where t: "trimCandidates M [q, a, q] 5 = ([q, q], d')" by (metis prod.collapse)
  have "summarizeAndKeep M [q, a, q] 6 1 = (summary_message ''q'', [q, q], d')"
    by (simp add: summarizeAndKeep_def m t c sample_tokens)
  with d t show ?thesis
    unfolding q_def [symmetric] a_def [symmetric] M_def [symmetric] Let_def by (simp add: summary_message_def)
qed

end
