(* ===== verification/Ctx_Summary.thy ===== *)
theory Ctx_Summary
  imports Ctx_Manager
begin

text \<open>
  The summarizer that \<^verbatim>\<open>contextManager\<close> of \<^verbatim>\<open>runtime_context_governance.go\<close> gives the context window: the messages that leave the window
  are redacted, sent to a model and replaced by its answer. The redactor and the model are parameters.
\<close>

section \<open>Redaction and prompt\<close>

text \<open>
  \<open>EncodeContent\<close> and \<open>DecodeContent\<close> are \<^verbatim>\<open>json.Marshal\<close> and \<^verbatim>\<open>json.Unmarshal\<close> of the one-field struct. The redactor gets the run, the
  kind and the data.
\<close>

record summary_env =
  Redactor :: "(string \<Rightarrow> string \<Rightarrow> bytes \<Rightarrow> go_error + bytes) option"
  EncodeContent :: "string \<Rightarrow> go_error + bytes"
  DecodeContent :: "bytes \<Rightarrow> go_error + string"
  SummaryChat :: "(string \<Rightarrow> string \<Rightarrow> string \<Rightarrow> go_error + string) option"
  LlmProfiles :: "string list"
  DualVisibility :: bool

definition redactSummaryContent :: "summary_env \<Rightarrow> string \<Rightarrow> message \<Rightarrow> string" where
  "redactSummaryContent E runID m =
     (case Redactor E of
        None \<Rightarrow> MsgContent m
      | Some redact \<Rightarrow>
          if MsgContent m = [] then MsgContent m
          else (case EncodeContent E (MsgContent m) of
              Inl _ \<Rightarrow> MsgContent m
            | Inr raw \<Rightarrow> (case redact runID (''context_summary.'' @ role_text (MsgRole m)) raw of
                  Inl _ \<Rightarrow> MsgContent m
                | Inr redacted \<Rightarrow> (case DecodeContent E redacted of Inl _ \<Rightarrow> MsgContent m | Inr out \<Rightarrow> out))))"

definition sortedLLMProfileName :: "string list \<Rightarrow> string" where
  "sortedLLMProfileName names = (case sort_stable str_less names of [] \<Rightarrow> [] | n # _ \<Rightarrow> n)"

fun fallback_lines :: "string \<Rightarrow> message list \<Rightarrow> int \<Rightarrow> string" where
  "fallback_lines b [] budget = b"
| "fallback_lines b (m # ms) budget =
     (let line = ''- '' @ role_text (MsgRole m) @ '': '' @ MsgContent m @ newline in
      if budget < EstimateTokens (b @ line) then b else fallback_lines (b @ line) ms budget)"

definition contextwindowSummaryFallback :: "message list \<Rightarrow> int \<Rightarrow> string" where
  "contextwindowSummaryFallback ms budget = trim_space (fallback_lines (''Earlier context summary:'' @ newline) ms budget)"

definition summary_prompt :: "summary_env \<Rightarrow> string \<Rightarrow> message list \<Rightarrow> string" where
  "summary_prompt E runID ms = concat (map (\<lambda>m. role_text (MsgRole m) @ '': '' @ redactSummaryContent E runID m @ newline) ms)"

definition summary_instruction :: "int \<Rightarrow> string" where
  "summary_instruction budget = ''Summarize the following conversation in at most '' @ int_text budget @ '' tokens worth of text.''"

definition llm_summarizer ::
  "summary_env \<Rightarrow> (string \<Rightarrow> string \<Rightarrow> string \<Rightarrow> go_error + string) \<Rightarrow> string \<Rightarrow> string \<Rightarrow> message list \<Rightarrow> int \<Rightarrow> string" where
  "llm_summarizer E chat runID profile ms budget =
     (if ms = [] then []
      else if profile = [] then contextwindowSummaryFallback ms budget
      else (case chat profile (summary_instruction budget) (summary_prompt E runID ms) of
          Inl _ \<Rightarrow> contextwindowSummaryFallback ms budget
        | Inr content \<Rightarrow> if trim_space content = [] then contextwindowSummaryFallback ms budget else trim_space content))"

definition contextManager :: "summary_env \<Rightarrow> string \<Rightarrow> string \<Rightarrow> policy \<Rightarrow> manager" where
  "contextManager E runID agentLLM p =
     (let normalized = fst (NormalizeDetailed p);
          profile = (if agentLLM = [] then sortedLLMProfileName (LlmProfiles E) else agentLLM)
      in case SummaryChat E of
          Some chat \<Rightarrow> if SummaryMode normalized = ''llm''
             then NewManager normalized (Some (llm_summarizer E chat runID profile)) (DualVisibility E)
             else NewManager normalized None (DualVisibility E)
        | None \<Rightarrow> NewManager normalized None (DualVisibility E))"

definition pruneToolSpecs :: "(string \<times> 'spec) list \<Rightarrow> string list \<Rightarrow> (string \<times> 'spec) list" where
  "pruneToolSpecs specs allowed = (if allowed = [] then specs else filter (\<lambda>(name, _). name \<in> set allowed) specs)"

section \<open>What the summarizer sees\<close>

lemma fallback_fits:
  "EstimateTokens b \<le> max budget c \<Longrightarrow> EstimateTokens (fallback_lines b ms budget) \<le> max budget c"
  by (induction b ms budget rule: fallback_lines.induct) (auto simp: Let_def)

text \<open>With a redactor that does not fail, the prompt has redacted contents only.\<close>

lemma redacted_prompt:
  assumes "Redactor E = Some redact" "\<And>s. s \<noteq> [] \<Longrightarrow> EncodeContent E s = Inr (enc s)"
    and "\<And>kind s. s \<noteq> [] \<Longrightarrow> \<exists>d. redact runID kind (enc s) = Inr d \<and> DecodeContent E d = Inr (clean s)" and "clean [] = []"
  shows "summary_prompt E runID ms = concat (map (\<lambda>m. role_text (MsgRole m) @ '': '' @ clean (MsgContent m) @ newline) ms)"
proof -
  have "redactSummaryContent E runID m = clean (MsgContent m)" for m
  proof (cases "MsgContent m = []")
    case False
    with assms(3) obtain d where "redact runID (''context_summary.'' @ role_text (MsgRole m)) (enc (MsgContent m)) = Inr d"
      "DecodeContent E d = Inr (clean (MsgContent m))" by blast
    with False show ?thesis by (simp add: redactSummaryContent_def assms(1,2))
  qed (simp add: redactSummaryContent_def assms(1,4))
  then show ?thesis by (simp add: summary_prompt_def)
qed

text \<open>
  A redactor that fails does not stop the summary: the message goes to the model as it is, although the comment in
  \<^verbatim>\<open>contextManager\<close> says that summarization cannot bypass the redaction, and although the same failure of the redactor
  stops a step output and a stored memory.
\<close>

theorem summary_redaction_fails_open:
  "summary_prompt \<lparr>Redactor = Some (\<lambda>_ _ _. Inl (ErrHost ''redactor unavailable'')), EncodeContent = Inr, DecodeContent = Inr, SummaryChat = None,
      LlmProfiles = [], DualVisibility = False\<rparr> ''run'' [text_message RoleUser ''secret''] = ''user: secret'' @ newline"
  by (simp add: summary_prompt_def redactSummaryContent_def text_message_def role_text_def)

end
