(* ===== verification/Ctx_Governance.thy ===== *)
theory Ctx_Governance
  imports Llm_Message
begin

text \<open>
  \<^verbatim>\<open>runtime_context_governance.go\<close> of the runtime: repairing the pairing of tool calls and results after messages were
  dropped, and evicting the results of stale tool turns. \<open>decode\<close> is \<^verbatim>\<open>json.Unmarshal\<close> into a map.
\<close>

section \<open>Pairing\<close>

record pairing_drops =
  OrphanToolResults :: nat
  UnansweredToolCalls :: nat

definition pairing_any :: "pairing_drops \<Rightarrow> bool" where
  "pairing_any d \<longleftrightarrow> 0 < OrphanToolResults d \<or> 0 < UnansweredToolCalls d"

definition call_ids :: "lmessage \<Rightarrow> string list" where
  "call_ids m = map CallID (LToolCalls m)"

definition issued :: "lmessage list \<Rightarrow> string list" where
  "issued ms = concat (map call_ids ms)"

definition is_result :: "lmessage \<Rightarrow> bool" where
  "is_result m \<longleftrightarrow> LRole m = RoleTool \<and> LToolCallID m \<noteq> []"

definition answered :: "lmessage list \<Rightarrow> string list" where
  "answered ms = map LToolCallID (filter is_result ms)"

fun pair_loop :: "string list \<Rightarrow> string list \<Rightarrow> lmessage list \<Rightarrow> pairing_drops \<Rightarrow> lmessage list \<times> pairing_drops" where
  "pair_loop iss ans [] d = ([], d)"
| "pair_loop iss ans (m # ms) d =
     (if is_result m \<and> LToolCallID m \<notin> set iss
      then pair_loop iss ans ms (d\<lparr>OrphanToolResults := OrphanToolResults d + 1\<rparr>)
      else
        (let kept = filter (\<lambda>c. CallID c \<in> set ans) (LToolCalls m) in
         if length kept = length (LToolCalls m) then (let (out, d') = pair_loop iss ans ms d in (m # out, d'))
         else
           (let d1 = d\<lparr>UnansweredToolCalls := UnansweredToolCalls d + (length (LToolCalls m) - length kept)\<rparr> in
            if kept = [] \<and> trim_space (LContent m) = [] then pair_loop iss ans ms d1
            else (let (out, d') = pair_loop iss ans ms d1 in (m\<lparr>LToolCalls := kept\<rparr> # out, d')))))"

definition enforceToolCallPairingWithStats :: "lmessage list \<Rightarrow> lmessage list \<times> pairing_drops" where
  "enforceToolCallPairingWithStats ms = pair_loop (issued ms) (answered ms) ms \<lparr>OrphanToolResults = 0, UnansweredToolCalls = 0\<rparr>"

definition enforceToolCallPairing :: "lmessage list \<Rightarrow> lmessage list" where
  "enforceToolCallPairing ms = fst (enforceToolCallPairingWithStats ms)"

section \<open>What pairing guarantees\<close>

text \<open>A message that answers a call makes none itself.\<close>

definition one_sided :: "lmessage list \<Rightarrow> bool" where
  "one_sided ms \<longleftrightarrow> (\<forall>m \<in> set ms. LRole m = RoleTool \<longrightarrow> LToolCalls m = [])"

definition paired :: "lmessage list \<Rightarrow> bool" where
  "paired ms \<longleftrightarrow> set (answered ms) = set (issued ms)"

definition repaired :: "string list \<Rightarrow> string list \<Rightarrow> lmessage \<Rightarrow> lmessage option" where
  "repaired iss ans m =
     (if is_result m \<and> LToolCallID m \<notin> set iss then None
      else (let kept = filter (\<lambda>c. CallID c \<in> set ans) (LToolCalls m) in
        if LToolCalls m \<noteq> [] \<and> kept \<noteq> LToolCalls m \<and> kept = [] \<and> trim_space (LContent m) = [] then None
        else Some (m\<lparr>LToolCalls := kept\<rparr>)))"

lemma map_filter_Cons: "List.map_filter f (x # xs) = (case f x of None \<Rightarrow> List.map_filter f xs | Some y \<Rightarrow> y # List.map_filter f xs)"
  by (simp add: List.map_filter_def split: option.split)

lemma pair_loop_repaired: "fst (pair_loop iss ans ms d) = List.map_filter (repaired iss ans) ms"
proof (induction ms arbitrary: d)
  case (Cons m ms)
  let ?kept = "filter (\<lambda>c. CallID c \<in> set ans) (LToolCalls m)"
  have full: "length ?kept = length (LToolCalls m) \<longleftrightarrow> ?kept = LToolCalls m" by (metis filter_id_conv length_filter_less less_irrefl)
  consider "is_result m \<and> LToolCallID m \<notin> set iss" | "\<not> (is_result m \<and> LToolCallID m \<notin> set iss)" "?kept = LToolCalls m"
    | "\<not> (is_result m \<and> LToolCallID m \<notin> set iss)" "?kept \<noteq> LToolCalls m" by blast
  then show ?case
  proof cases
    case 2
    then have "repaired iss ans m = Some m" by (simp add: repaired_def Let_def)
    with 2 show ?thesis by (simp add: Cons.IH full map_filter_Cons Let_def case_prod_unfold)
  next
    case 3
    then have "repaired iss ans m = (if ?kept = [] \<and> trim_space (LContent m) = [] then None else Some (m\<lparr>LToolCalls := ?kept\<rparr>))"
      by (auto simp: repaired_def Let_def)
    moreover have "LToolCalls m \<noteq> []" using 3(2) by auto
    ultimately show ?thesis using 3 by (auto simp add: Cons.IH full map_filter_Cons Let_def case_prod_unfold)
  qed (simp add: Cons.IH map_filter_Cons repaired_def)
qed (simp add: List.map_filter_def)

lemma enforce_repaired: "enforceToolCallPairing ms = List.map_filter (repaired (issued ms) (answered ms)) ms"
  by (simp add: enforceToolCallPairing_def enforceToolCallPairingWithStats_def pair_loop_repaired)

lemma set_map_filter: "y \<in> set (List.map_filter f xs) \<longleftrightarrow> (\<exists>x \<in> set xs. f x = Some y)"
  by (induction xs) (auto simp: List.map_filter_def split: option.splits)

lemma repaired_Some:
  "repaired iss ans m = Some m' \<Longrightarrow> m' = m\<lparr>LToolCalls := filter (\<lambda>c. CallID c \<in> set ans) (LToolCalls m)\<rparr> \<and> (is_result m \<longrightarrow> LToolCallID m \<in> set iss)"
  by (auto simp: repaired_def Let_def split: if_splits)

lemma issued_after:
  assumes "one_sided ms"
  shows "set (issued (enforceToolCallPairing ms)) = set (issued ms) \<inter> set (answered ms)"
proof (intro set_eqI iffI)
  fix i
  assume "i \<in> set (issued (enforceToolCallPairing ms))"
  then obtain m' where "m' \<in> set (enforceToolCallPairing ms)" "i \<in> set (call_ids m')" by (auto simp: issued_def)
  then obtain m where "m \<in> set ms" "i \<in> set (call_ids m)" "i \<in> set (answered ms)"
    by (auto simp: enforce_repaired set_map_filter call_ids_def dest!: repaired_Some)
  then show "i \<in> set (issued ms) \<inter> set (answered ms)" by (auto simp: issued_def)
next
  fix i
  assume i: "i \<in> set (issued ms) \<inter> set (answered ms)"
  then obtain m c where m: "m \<in> set ms" "c \<in> set (LToolCalls m)" "CallID c = i" by (auto simp: issued_def call_ids_def)
  then have "LRole m \<noteq> RoleTool" using assms by (auto simp: one_sided_def)
  moreover have "c \<in> set (filter (\<lambda>c. CallID c \<in> set (answered ms)) (LToolCalls m))" using m i by simp
  ultimately have "repaired (issued ms) (answered ms) m = Some (m\<lparr>LToolCalls := filter (\<lambda>c. CallID c \<in> set (answered ms)) (LToolCalls m)\<rparr>)"
    by (auto simp: repaired_def is_result_def Let_def filter_empty_conv)
  with m have "m\<lparr>LToolCalls := filter (\<lambda>c. CallID c \<in> set (answered ms)) (LToolCalls m)\<rparr> \<in> set (enforceToolCallPairing ms)"
    by (auto simp: enforce_repaired set_map_filter)
  moreover have "i \<in> set (call_ids (m\<lparr>LToolCalls := filter (\<lambda>c. CallID c \<in> set (answered ms)) (LToolCalls m)\<rparr>))"
    using m i by (auto simp: call_ids_def)
  ultimately show "i \<in> set (issued (enforceToolCallPairing ms))" unfolding issued_def by auto
qed

lemma answered_after:
  assumes "one_sided ms"
  shows "set (answered (enforceToolCallPairing ms)) = set (issued ms) \<inter> set (answered ms)"
proof (intro set_eqI iffI)
  fix i
  assume "i \<in> set (answered (enforceToolCallPairing ms))"
  then show "i \<in> set (issued ms) \<inter> set (answered ms)"
    by (force simp: answered_def enforce_repaired set_map_filter is_result_def dest!: repaired_Some)
next
  fix i
  assume i: "i \<in> set (issued ms) \<inter> set (answered ms)"
  then obtain m where m: "m \<in> set ms" "is_result m" "LToolCallID m = i" by (auto simp: answered_def)
  then have "LToolCalls m = []" using assms by (auto simp: one_sided_def is_result_def)
  then have "repaired (issued ms) (answered ms) m = Some m" using m i by (simp add: repaired_def Let_def)
  with m show "i \<in> set (answered (enforceToolCallPairing ms))"
    by (force simp: answered_def enforce_repaired set_map_filter)
qed

lemma pair_loop_fixed:
  "set (issued ms) \<subseteq> set ans \<Longrightarrow> set (answered ms) \<subseteq> set iss \<Longrightarrow> pair_loop iss ans ms d = (ms, d)"
proof (induction ms)
  case (Cons m ms)
  then have "set (issued ms) \<subseteq> set ans" "set (answered ms) \<subseteq> set iss"
    by (simp_all add: issued_def answered_def split: if_splits)
  then have "pair_loop iss ans ms d = (ms, d)" by (rule Cons.IH)
  moreover have "filter (\<lambda>c. CallID c \<in> set ans) (LToolCalls m) = LToolCalls m"
    using Cons.prems(1) by (auto simp: issued_def call_ids_def filter_id_conv)
  moreover have "is_result m \<Longrightarrow> LToolCallID m \<in> set iss" using Cons.prems(2) by (auto simp: answered_def)
  ultimately show ?case by auto
qed simp

lemma paired_fixed:
  "paired ms \<Longrightarrow> enforceToolCallPairingWithStats ms = (ms, \<lparr>OrphanToolResults = 0, UnansweredToolCalls = 0\<rparr>)"
  by (simp add: enforceToolCallPairingWithStats_def paired_def pair_loop_fixed)

text \<open>
  A repaired history is self-consistent. After the repair every tool result that names a call has that call and every call has a
  result, whatever was dropped before; a history that is already consistent is not changed, so a second repair does
  nothing, and the messages keep their order.
\<close>

theorem pairing_repaired:
  assumes "one_sided ms"
  shows "paired (enforceToolCallPairing ms) \<and> (paired ms \<longrightarrow> enforceToolCallPairing ms = ms)
    \<and> enforceToolCallPairing (enforceToolCallPairing ms) = enforceToolCallPairing ms"
proof -
  have p: "paired (enforceToolCallPairing ms)" using issued_after [OF assms] answered_after [OF assms] by (simp add: paired_def)
  with paired_fixed show ?thesis by (simp add: enforceToolCallPairing_def)
qed


section \<open>Stale tool turns\<close>

record stale_stats =
  DroppedToolTurns :: nat
  DenialOccupiedSlots :: nat
  ExcludedTurns :: nat
  CompactedDenials :: nat

definition classifyToolResultMessage :: "map_decoder \<Rightarrow> lmessage \<Rightarrow> tool_result_class" where
  "classifyToolResultMessage decode m = ClassifyToolResult decode
     \<lparr>MsgRole = RoleTool, MsgContent = LContent m, MsgName = LName m, MsgToolCallID = LToolCallID m, MsgToolCallIDs = [], MsgMetadata = LMetadata m\<rparr>"

record stale_batch =
  ResultIndexes :: "nat list"
  Counted :: bool

definition no_results :: stale_batch where
  "no_results = \<lparr>ResultIndexes = [], Counted = False\<rparr>"

text \<open>The tool of a result: its own name or the one the call with its ID had.\<close>

definition result_tool :: "lmessage \<Rightarrow> (string \<times> string) list \<Rightarrow> string" where
  "result_tool m callNames =
     (if trim_space (LName m) \<noteq> [] then trim_space (LName m)
      else (case map_of callNames (LToolCallID m) of None \<Rightarrow> [] | Some name \<Rightarrow> trim_space name))"

definition denialContextSignature :: "map_decoder \<Rightarrow> lmessage \<Rightarrow> (string \<times> string) list \<Rightarrow> string" where
  "denialContextSignature decode m callNames =
     (let content = trim_space (LContent m);
          reason = (case decode content of
              Some parsed \<Rightarrow> (case map_of parsed ''error'' of Some (JString s) \<Rightarrow> trim_space s | _ \<Rightarrow> content)
            | None \<Rightarrow> content);
          normalized = to_lower (join_with '' '' (Go_Text.fields reason));
          code = trim_space (takeWhile (\<lambda>c. c \<noteq> CHR '':'') normalized)
      in result_tool m callNames @ ''|'' @
         (if CHR '':'' \<in> set normalized \<and> (has_prefix code ''run_tool_'' \<or> code = ''tool_denied'') then code else normalized))"

definition staleExcludeToolNameSet :: "string list \<Rightarrow> string list" where
  "staleExcludeToolNameSet names = filter (\<lambda>n. n \<noteq> []) (map trim_space names)"

definition toolNameExcludedFromStale :: "lmessage \<Rightarrow> (string \<times> string) list \<Rightarrow> string list \<Rightarrow> bool" where
  "toolNameExcludedFromStale m callNames excludeNames \<longleftrightarrow>
     excludeNames \<noteq> [] \<and> result_tool m callNames \<noteq> [] \<and> result_tool m callNames \<in> set excludeNames"

record stale_scan =
  Batches :: "stale_batch list"
  CallBatches :: "(string \<times> nat) list"
  CallNames :: "(string \<times> string) list"
  ActiveBatch :: "nat option"
  ScanStats :: stale_stats

definition scan_calls :: "nat \<Rightarrow> tool_call list \<Rightarrow> stale_scan \<Rightarrow> stale_scan" where
  "scan_calls b calls st = fold (\<lambda>c st. if CallID c = [] then st
       else st\<lparr>CallBatches := (CallID c, b) # CallBatches st, CallNames := (CallID c, CallName c) # CallNames st\<rparr>) calls st"

text \<open>The batch of a result; a result whose call is unknown makes one of its own, at the end.\<close>

definition result_batch :: "lmessage \<Rightarrow> stale_scan \<Rightarrow> nat" where
  "result_batch m st =
     (case map_of (CallBatches st) (LToolCallID m) of
        Some b \<Rightarrow> b
      | None \<Rightarrow> (case ActiveBatch st of
            Some a \<Rightarrow> if LToolCallID m = [] then a else length (Batches st)
          | None \<Rightarrow> length (Batches st)))"

definition add_result :: "nat \<Rightarrow> bool \<Rightarrow> nat \<Rightarrow> stale_batch list \<Rightarrow> stale_batch list" where
  "add_result b counted index batches =
     (let padded = (if b < length batches then batches else batches @ [no_results]); old = padded ! b in
      padded[b := old\<lparr>ResultIndexes := ResultIndexes old @ [index], Counted := Counted old \<or> counted\<rparr>])"

definition scan_message ::
  "map_decoder \<Rightarrow> tool_result_class list \<Rightarrow> string list \<Rightarrow> nat \<times> lmessage \<Rightarrow> stale_scan \<Rightarrow> stale_scan" where
  "scan_message decode exclude excludeNames im st =
     (case im of (index, m) \<Rightarrow>
      if LToolCalls m \<noteq> [] then
        scan_calls (length (Batches st)) (LToolCalls m)
          (st\<lparr>ActiveBatch := Some (length (Batches st)), Batches := Batches st @ [no_results]\<rparr>)
      else if LRole m \<noteq> RoleTool then st\<lparr>ActiveBatch := None\<rparr>
      else
        (let c = classifyToolResultMessage decode m;
             counted = (c \<notin> set exclude \<and> \<not> toolNameExcludedFromStale m (CallNames st) excludeNames);
             s = ScanStats st
         in st\<lparr>Batches := add_result (result_batch m st) counted index (Batches st),
               ScanStats := (if counted then s
                 else s\<lparr>ExcludedTurns := ExcludedTurns s + 1,
                        DenialOccupiedSlots := DenialOccupiedSlots s + (if c = ToolResultDenied then 1 else 0)\<rparr>)\<rparr>))"

definition no_stats :: stale_stats where
  "no_stats = \<lparr>DroppedToolTurns = 0, DenialOccupiedSlots = 0, ExcludedTurns = 0, CompactedDenials = 0\<rparr>"

definition no_scan :: stale_scan where
  "no_scan = \<lparr>Batches = [], CallBatches = [], CallNames = [], ActiveBatch = None, ScanStats = no_stats\<rparr>"

definition stale_scan_of :: "map_decoder \<Rightarrow> tool_result_class list \<Rightarrow> string list \<Rightarrow> lmessage list \<Rightarrow> stale_scan" where
  "stale_scan_of decode exclude excludeNames ms = fold (scan_message decode exclude excludeNames) (enumerate 0 ms) no_scan"

text \<open>The search for the oldest batch to keep, from the newest: \<open>n\<close> batches are left to look at.\<close>

fun keep_from :: "nat \<Rightarrow> stale_batch list \<Rightarrow> nat \<Rightarrow> nat \<Rightarrow> nat" where
  "keep_from keep batches seen 0 = 0"
| "keep_from keep batches seen (Suc n) =
     (if \<not> Counted (batches ! n) then keep_from keep batches seen n
      else if seen + 1 = keep then n else keep_from keep batches (seen + 1) n)"

definition keepBatchFrom :: "nat \<Rightarrow> stale_batch list \<Rightarrow> nat" where
  "keepBatchFrom keep batches =
     (if keep < length (filter Counted batches) then keep_from keep batches 0 (length batches) else 0)"

text \<open>The results of the batches before the kept ones, except those of pinned tools.\<close>

definition stale_results :: "lmessage list \<Rightarrow> (string \<times> string) list \<Rightarrow> string list \<Rightarrow> stale_batch \<Rightarrow> nat list" where
  "stale_results ms callNames excludeNames b =
     filter (\<lambda>i. \<not> toolNameExcludedFromStale (ms ! i) callNames excludeNames) (ResultIndexes b)"

text \<open>The loop over the results from the newest batch to the oldest, with the indexes dropped and the signatures seen so far.\<close>

fun compact_denials ::
  "map_decoder \<Rightarrow> lmessage list \<Rightarrow> (string \<times> string) list \<Rightarrow> nat list \<Rightarrow> nat list \<Rightarrow> string list \<Rightarrow> nat \<Rightarrow> nat list \<times> nat" where
  "compact_denials decode ms callNames [] gone seen n = (gone, n)"
| "compact_denials decode ms callNames (i # is) gone seen n =
     (let signature = denialContextSignature decode (ms ! i) callNames in
      if i \<in> set gone then compact_denials decode ms callNames is gone seen n
      else if classifyToolResultMessage decode (ms ! i) \<noteq> ToolResultDenied then compact_denials decode ms callNames is gone seen n
      else if signature \<in> set seen then compact_denials decode ms callNames is (i # gone) seen (n + 1)
      else compact_denials decode ms callNames is gone (signature # seen) n)"

definition kept_calls :: "string list \<Rightarrow> bool \<Rightarrow> lmessage \<Rightarrow> tool_call list" where
  "kept_calls dropped droppedUnidentified m =
     filter (\<lambda>c. if CallID c = [] then \<not> droppedUnidentified else CallID c \<notin> set dropped) (LToolCalls m)"

definition without_dropped :: "string list \<Rightarrow> bool \<Rightarrow> lmessage \<Rightarrow> lmessage option" where
  "without_dropped dropped droppedUnidentified m =
     (if LToolCalls m \<noteq> [] \<and> (dropped \<noteq> [] \<or> droppedUnidentified) then
        (if kept_calls dropped droppedUnidentified m = [] \<and> trim_space (LContent m) = [] then None
         else Some (m\<lparr>LToolCalls := kept_calls dropped droppedUnidentified m\<rparr>))
      else Some m)"

definition stale_indexes :: "lmessage list \<Rightarrow> string list \<Rightarrow> nat \<Rightarrow> stale_scan \<Rightarrow> nat list" where
  "stale_indexes ms excludeNames keep st =
     concat (map (stale_results ms (CallNames st) excludeNames) (take (keepBatchFrom keep (Batches st)) (Batches st)))"

definition result_indexes :: "stale_scan \<Rightarrow> nat list" where
  "result_indexes st = concat (map ResultIndexes (Batches st))"

definition drop_results :: "lmessage list \<Rightarrow> nat list \<Rightarrow> lmessage list" where
  "drop_results ms gone =
     (let ids = map (\<lambda>i. LToolCallID (ms ! i)) gone in
      List.map_filter (\<lambda>(i, m). if i \<in> set gone then None else without_dropped (filter (\<lambda>id. id \<noteq> []) ids) ([] \<in> set ids) m)
        (enumerate 0 ms))"

text \<open>A nil list of excluded classes is the default one.\<close>

definition evictStaleToolMessagesWithPolicy ::
  "map_decoder \<Rightarrow> lmessage list \<Rightarrow> int \<Rightarrow> tool_result_class list option \<Rightarrow> string list \<Rightarrow> lmessage list \<times> stale_stats" where
  "evictStaleToolMessagesWithPolicy decode ms keepTurns exclude excludeToolNames =
     (if keepTurns \<le> 0 \<or> ms = [] then (ms, no_stats)
      else
        (let excluded = (case exclude of None \<Rightarrow> [ToolResultDenied, ToolResultEmpty] | Some cs \<Rightarrow> cs);
             excludeNames = staleExcludeToolNameSet excludeToolNames;
             st = stale_scan_of decode excluded excludeNames ms;
             keep = nat keepTurns;
             turns = length (filter (\<lambda>b. Counted b \<and> stale_results ms (CallNames st) excludeNames b \<noteq> [])
                       (take (keepBatchFrom keep (Batches st)) (Batches st)));
             (gone, compacted) = compact_denials decode ms (CallNames st) (rev (result_indexes st))
                       (stale_indexes ms excludeNames keep st) [] 0
         in (drop_results ms gone, (ScanStats st)\<lparr>DroppedToolTurns := turns, CompactedDenials := compacted\<rparr>)))"

definition evictStaleToolMessages :: "map_decoder \<Rightarrow> lmessage list \<Rightarrow> int \<Rightarrow> lmessage list" where
  "evictStaleToolMessages decode ms keepTurns = fst (evictStaleToolMessagesWithPolicy decode ms keepTurns None [])"

section \<open>What eviction keeps\<close>

definition result_at :: "lmessage list \<Rightarrow> nat \<Rightarrow> bool" where
  "result_at ms i \<longleftrightarrow> i < length ms \<and> LRole (ms ! i) = RoleTool \<and> LToolCalls (ms ! i) = []"

lemma set_results_update:
  assumes "b < length bs"
  shows "set (concat (map ResultIndexes (bs[b := (bs ! b)\<lparr>ResultIndexes := ResultIndexes (bs ! b) @ [i], Counted := c\<rparr>]))) \<subseteq>
    insert i (set (concat (map ResultIndexes bs)))"
  using set_update_subset_insert [of bs b] nth_mem [OF assms] by fastforce

lemma set_add_result: "set (concat (map ResultIndexes (add_result b counted i bs))) \<subseteq> insert i (set (concat (map ResultIndexes bs)))"
proof -
  define padded where "padded = (if b < length bs then bs else bs @ [no_results])"
  have same: "set (concat (map ResultIndexes padded)) = set (concat (map ResultIndexes bs))" by (simp add: padded_def no_results_def)
  have eq: "add_result b counted i bs = padded[b := (padded ! b)\<lparr>ResultIndexes := ResultIndexes (padded ! b) @ [i], Counted := Counted (padded ! b) \<or> counted\<rparr>]"
    by (simp add: add_result_def padded_def Let_def)
  show ?thesis
  proof (cases "b < length padded")
    case True
    from set_results_update [OF this] show ?thesis unfolding eq same .
  next
    case False
    then have "add_result b counted i bs = padded" unfolding eq by (intro list_update_beyond) simp
    with same show ?thesis by auto
  qed
qed

lemma Batches_scan_calls [simp]: "Batches (scan_calls b calls st) = Batches st"
  by (induction calls arbitrary: st) (simp_all add: scan_calls_def)

lemma scan_message_results:
  "set (result_indexes (scan_message decode exclude names (i, m) st)) \<subseteq>
     set (result_indexes st) \<union> (if LRole m = RoleTool \<and> LToolCalls m = [] then {i} else {})"
proof (cases "LRole m = RoleTool \<and> LToolCalls m = []")
  case True
  then show ?thesis using set_add_result [of "result_batch m st"] unfolding scan_message_def result_indexes_def by (simp add: Let_def)
next
  case False
  then show ?thesis by (auto simp: scan_message_def result_indexes_def no_results_def)
qed

lemma scan_results: "i \<in> set (result_indexes (stale_scan_of decode exclude names ms)) \<Longrightarrow> result_at ms i"
proof -
  have "set (result_indexes (fold (scan_message decode exclude names) xs st)) \<subseteq>
      set (result_indexes st) \<union> {i. \<exists>m. (i, m) \<in> set xs \<and> LRole m = RoleTool \<and> LToolCalls m = []}" for xs st
  proof (induction xs arbitrary: st)
    case (Cons x xs)
    obtain i m where x: "x = (i, m)" by (cases x)
    show ?case using Cons [of "scan_message decode exclude names x st"] scan_message_results [of decode exclude names i m st]
      by (fastforce simp: x split: if_splits)
  qed simp
  from this [of "enumerate 0 ms" no_scan] show "i \<in> set (result_indexes (stale_scan_of decode exclude names ms)) \<Longrightarrow> result_at ms i"
    by (auto simp: stale_scan_of_def result_indexes_def no_scan_def result_at_def in_set_enumerate_eq)
qed

lemma compact_denials_set: "set (fst (compact_denials decode ms names is gone seen n)) \<subseteq> set gone \<union> set is"
proof (induction "is" arbitrary: gone seen n)
  case (Cons i "is")
  from Cons [of gone seen n] Cons [of "i # gone" seen "n + 1"] Cons [of gone "denialContextSignature decode (ms ! i) names # seen" n]
  show ?case by (auto simp: Let_def)
qed simp

lemma bex_enumerate: "(\<exists>x \<in> set (enumerate 0 xs). Q x) \<longleftrightarrow> (\<exists>j < length xs. Q (j, xs ! j))"
  by (auto simp: Bex_def in_set_enumerate_eq)

lemma set_drop_results:
  "y \<in> set (drop_results ms gone) \<longleftrightarrow> (\<exists>j < length ms. j \<notin> set gone \<and>
     without_dropped (filter (\<lambda>id. id \<noteq> []) (map (\<lambda>i. LToolCallID (ms ! i)) gone)) ([] \<in> set (map (\<lambda>i. LToolCallID (ms ! i)) gone)) (ms ! j) = Some y)"
  by (auto simp: drop_results_def Let_def set_map_filter bex_enumerate split: if_splits)

lemma without_dropped_calls:
  assumes "without_dropped ds u m = Some m'" "c \<in> set (LToolCalls m')" "CallID c \<noteq> []"
  shows "c \<in> set (LToolCalls m) \<and> CallID c \<notin> set ds"
  using assms by (auto simp: without_dropped_def kept_calls_def split: if_splits)

lemma without_dropped_keeps:
  assumes "c \<in> set (LToolCalls m)" "CallID c \<noteq> []" "CallID c \<notin> set ds"
  shows "\<exists>m'. without_dropped ds u m = Some m' \<and> c \<in> set (LToolCalls m')"
  using assms by (auto simp: without_dropped_def kept_calls_def filter_empty_conv)

lemma without_dropped_same:
  "without_dropped ds u m = Some m' \<Longrightarrow> LRole m' = LRole m \<and> LToolCallID m' = LToolCallID m \<and> LContent m' = LContent m"
  by (auto simp: without_dropped_def split: if_splits)

lemma distinct_filter_index:
  assumes "distinct (map f (filter P xs))" "i < length xs" "j < length xs" "P (xs ! i)" "P (xs ! j)" "f (xs ! i) = f (xs ! j)"
  shows "i = j"
  using assms
proof (induction xs arbitrary: i j)
  case (Cons x xs)
  have "f x \<notin> f ` (set xs \<inter> Collect P)" if "P x" using Cons.prems(1) that by (auto simp: image_iff)
  then have "f x \<noteq> f (xs ! k)" if "P x" "k < length xs" "P (xs ! k)" for k using that by auto
  note first = this
  have "distinct (map f (filter P xs))" using Cons.prems(1) by (simp split: if_splits)
  note IH = Cons.IH [OF this]
  show ?case
  proof (cases i; cases j)
    fix i' j' assume "i = Suc i'" "j = Suc j'"
    then show ?thesis using IH [of i' j'] Cons.prems by simp
  qed (use first Cons.prems in \<open>auto dest: sym\<close>)
qed simp

text \<open>IDs of the calls and results that dropping results leaves.\<close>

lemma drop_results_pairing:
  assumes "paired ms" "one_sided ms" "distinct (answered ms)" and gone: "\<And>i. i \<in> set gone \<Longrightarrow> result_at ms i"
  defines "D \<equiv> (\<lambda>i. LToolCallID (ms ! i)) ` set gone"
  shows "set (answered (drop_results ms gone)) = set (answered ms) - D" and "set (issued (drop_results ms gone)) = set (issued ms) - D"
proof -
  let ?ds = "filter (\<lambda>id. id \<noteq> []) (map (\<lambda>i. LToolCallID (ms ! i)) gone)"
  let ?u = "[] \<in> set (map (\<lambda>i. LToolCallID (ms ! i)) gone)"
  have D: "id \<in> D \<longleftrightarrow> id \<in> set ?ds" if "id \<noteq> []" for id using that by (auto simp: D_def)
  have nonempty: "[] \<notin> set (answered ms)" by (auto simp: answered_def is_result_def)
  show "set (answered (drop_results ms gone)) = set (answered ms) - D"
  proof (intro set_eqI iffI)
    fix id assume "id \<in> set (answered (drop_results ms gone))"
    then obtain y where y: "y \<in> set (drop_results ms gone)" "is_result y" "id = LToolCallID y" by (auto simp: answered_def)
    then obtain j where j: "j < length ms" "j \<notin> set gone" "without_dropped ?ds ?u (ms ! j) = Some y" by (auto simp: set_drop_results)
    then have r: "is_result (ms ! j)" "id = LToolCallID (ms ! j)" using y without_dropped_same [OF j(3)] by (auto simp: is_result_def)
    have "id \<notin> D"
    proof
      assume "id \<in> D"
      then obtain g where g: "g \<in> set gone" "id = LToolCallID (ms ! g)" by (auto simp: D_def)
      then have "is_result (ms ! g)" "g < length ms" using gone [OF g(1)] r by (auto simp: is_result_def result_at_def)
      with distinct_filter_index [OF assms(3) [unfolded answered_def], of j g] j r g show False by auto
    qed
    with r j show "id \<in> set (answered ms) - D" by (auto simp: answered_def)
  next
    fix id assume id: "id \<in> set (answered ms) - D"
    then obtain j where j: "j < length ms" "is_result (ms ! j)" "id = LToolCallID (ms ! j)" by (auto simp: answered_def in_set_conv_nth)
    then have "LToolCalls (ms ! j) = []" using assms(2) by (auto simp: one_sided_def is_result_def)
    moreover have "j \<notin> set gone" using id j by (auto simp: D_def)
    ultimately have "ms ! j \<in> set (drop_results ms gone)" using j by (auto simp: set_drop_results without_dropped_def)
    with j show "id \<in> set (answered (drop_results ms gone))" by (auto simp: answered_def)
  qed
  show "set (issued (drop_results ms gone)) = set (issued ms) - D"
  proof (intro set_eqI iffI)
    fix id assume "id \<in> set (issued (drop_results ms gone))"
    then obtain y c where y: "y \<in> set (drop_results ms gone)" "c \<in> set (LToolCalls y)" "id = CallID c" by (auto simp: issued_def call_ids_def)
    then obtain j where j: "j < length ms" "without_dropped ?ds ?u (ms ! j) = Some y" by (auto simp: set_drop_results)
    then have c: "c \<in> set (LToolCalls (ms ! j))" using y by (auto simp: without_dropped_def kept_calls_def split: if_splits)
    then have "id \<in> set (issued ms)" using j y by (auto simp: issued_def call_ids_def)
    moreover from this have "id \<noteq> []" using nonempty assms(1) by (auto simp: paired_def)
    ultimately show "id \<in> set (issued ms) - D" using D without_dropped_calls [OF j(2) y(2)] y by auto
  next
    fix id assume id: "id \<in> set (issued ms) - D"
    then obtain m c where m: "m \<in> set ms" "c \<in> set (LToolCalls m)" "id = CallID c" by (auto simp: issued_def call_ids_def)
    then obtain j where j: "j < length ms" "c \<in> set (LToolCalls (ms ! j))" "id = CallID c" by (auto simp: in_set_conv_nth [of m])
    have "id \<noteq> []" using id nonempty assms(1) by (auto simp: paired_def)
    with j id D obtain m' where m': "without_dropped ?ds ?u (ms ! j) = Some m'" "c \<in> set (LToolCalls m')"
      using without_dropped_keeps [of c "ms ! j" ?ds ?u] by auto
    have "j \<notin> set gone" using gone [of j] j by (auto simp: result_at_def)
    with m' j have "m' \<in> set (drop_results ms gone)" by (auto simp: set_drop_results)
    with m' j show "id \<in> set (issued (drop_results ms gone))" by (force simp: issued_def call_ids_def)
  qed
qed

lemma stale_indexes_results: "set (stale_indexes ms names keep st) \<subseteq> set (result_indexes st)"
  by (auto simp: stale_indexes_def stale_results_def result_indexes_def dest: in_set_takeD)

text \<open>
  C30: eviction of stale tool turns keeps the history usable. In a history where every result answers a call, every call is answered and
  no call ID is answered twice, what remains after the eviction has the same property, for every window, set of
  excluded classes and list of pinned tools.
\<close>

theorem eviction_keeps_pairing:
  assumes "paired ms" "one_sided ms" "distinct (answered ms)"
  shows "paired (fst (evictStaleToolMessagesWithPolicy decode ms keepTurns exclude names))"
proof (cases "keepTurns \<le> 0 \<or> ms = []")
  case False
  define st where "st = stale_scan_of decode (case exclude of None \<Rightarrow> [ToolResultDenied, ToolResultEmpty] | Some cs \<Rightarrow> cs)
    (staleExcludeToolNameSet names) ms"
  let ?gone = "fst (compact_denials decode ms (CallNames st) (rev (result_indexes st))
    (stale_indexes ms (staleExcludeToolNameSet names) (nat keepTurns) st) [] 0)"
  have "i \<in> set ?gone \<Longrightarrow> result_at ms i" for i
    using compact_denials_set [of decode ms "CallNames st" "rev (result_indexes st)"] stale_indexes_results [of ms] scan_results
    unfolding st_def by fastforce
  from drop_results_pairing [OF assms this] have "paired (drop_results ms ?gone)" using assms(1) by (simp add: paired_def)
  with False show ?thesis by (simp add: evictStaleToolMessagesWithPolicy_def st_def Let_def case_prod_unfold)
qed (use assms in \<open>simp add: evictStaleToolMessagesWithPolicy_def\<close>)


section \<open>Concrete histories\<close>

definition calling :: "string list \<Rightarrow> lmessage" where
  "calling ids = \<lparr>LRole = RoleAssistant, LContent = [], LReasoning = [], LToolCalls = map (\<lambda>i. \<lparr>CallID = i, CallName = ''search'', CallInput = ''{}''\<rparr>) ids,
     LName = [], LToolCallID = [], LMetadata = []\<rparr>"

definition answering :: "string \<Rightarrow> string \<Rightarrow> lmessage" where
  "answering i content = \<lparr>LRole = RoleTool, LContent = content, LReasoning = [], LToolCalls = [], LName = ''search'', LToolCallID = i,
     LMetadata = [(''tool_result_class'', ''success'')]\<rparr>"

definition two_turns :: "string \<Rightarrow> string \<Rightarrow> lmessage list" where
  "two_turns i j = [calling [i], answering i ''old'', calling [j], answering j ''new'']"

lemma history_simps [simp]:
  "LToolCalls (calling ids) = map (\<lambda>i. \<lparr>CallID = i, CallName = ''search'', CallInput = ''{}''\<rparr>) ids" "LToolCalls (answering i s) = []"
  "LRole (calling ids) = RoleAssistant" "LRole (answering i s) = RoleTool" "LToolCallID (answering i s) = i" "LToolCallID (calling ids) = []"
  "LContent (calling ids) = []" "LContent (answering i s) = s" "LName (answering i s) = ''search''"
  by (simp_all add: calling_def answering_def)

lemma call_ids_simps [simp]: "call_ids (calling ids) = ids" "call_ids (answering i s) = []"
  by (simp_all add: call_ids_def comp_def)

lemma is_result_simps [simp]: "is_result (answering i s) \<longleftrightarrow> i \<noteq> []" "\<not> is_result (calling ids)"
  by (simp_all add: is_result_def)

lemma successes [simp]: "classifyToolResultMessage decode (answering i s) = ToolResultSuccess"
  by (simp add: classifyToolResultMessage_def ClassifyToolResult_def metadata_class_def answering_def)

theorem pairing_repaired_witness:
  "paired [calling [''a''], answering ''a'' ''ok'']"
proof -
  have "one_sided [calling [''a'', ''b''], answering ''a'' ''ok'', answering ''z'' ''late'']" by (simp add: one_sided_def)
  moreover have "enforceToolCallPairing [calling [''a'', ''b''], answering ''a'' ''ok'', answering ''z'' ''late''] = [calling [''a''], answering ''a'' ''ok'']"
    by (simp add: enforceToolCallPairing_def enforceToolCallPairingWithStats_def issued_def answered_def Let_def)
      (simp add: calling_def)
  ultimately show ?thesis using pairing_repaired [of "[calling [''a'', ''b''], answering ''a'' ''ok'', answering ''z'' ''late'']"] by simp
qed

lemma trim_empty: "trim_space [] = []"
  by (simp add: trim_space_def trim_segments_def)

lemma scan_two_turns:
  "stale_scan_of decode [ToolResultDenied, ToolResultEmpty] (staleExcludeToolNameSet []) (two_turns ''p'' ''q'') =
     \<lparr>Batches = [\<lparr>ResultIndexes = [1], Counted = True\<rparr>, \<lparr>ResultIndexes = [3], Counted = True\<rparr>],
      CallBatches = [(''q'', 1), (''p'', 0)], CallNames = [(''q'', ''search''), (''p'', ''search'')], ActiveBatch = Some 1, ScanStats = no_stats\<rparr>"
  by (simp add: stale_scan_of_def two_turns_def scan_message_def scan_calls_def result_batch_def add_result_def no_results_def
      no_scan_def toolNameExcludedFromStale_def staleExcludeToolNameSet_def Let_def)

lemma scan_reused:
  "stale_scan_of decode [ToolResultDenied, ToolResultEmpty] (staleExcludeToolNameSet []) (two_turns ''call_0'' ''call_0'') =
     \<lparr>Batches = [\<lparr>ResultIndexes = [1], Counted = True\<rparr>, \<lparr>ResultIndexes = [3], Counted = True\<rparr>],
      CallBatches = [(''call_0'', 1), (''call_0'', 0)], CallNames = [(''call_0'', ''search''), (''call_0'', ''search'')], ActiveBatch = Some 1, ScanStats = no_stats\<rparr>"
  by (simp add: stale_scan_of_def two_turns_def scan_message_def scan_calls_def result_batch_def add_result_def no_results_def
      no_scan_def toolNameExcludedFromStale_def staleExcludeToolNameSet_def Let_def)

lemmas evict_eval = evictStaleToolMessages_def evictStaleToolMessagesWithPolicy_def keepBatchFrom_def result_indexes_def stale_indexes_def stale_results_def
  toolNameExcludedFromStale_def staleExcludeToolNameSet_def two_turns_def drop_results_def without_dropped_def kept_calls_def trim_empty Let_def map_filter_Cons
  List.map_filter_simps

lemma evict_two_turns: "evictStaleToolMessages decode (two_turns ''p'' ''q'') 1 = [calling [''q''], answering ''q'' ''new'']"
  unfolding evictStaleToolMessages_def evictStaleToolMessagesWithPolicy_def option.case Let_def scan_two_turns
  by (simp add: evict_eval eval_nat_numeral)

theorem eviction_keeps_pairing_witness: "paired [calling [''q''], answering ''q'' ''new'']"
proof -
  have "paired (two_turns ''p'' ''q'')" "one_sided (two_turns ''p'' ''q'')" "distinct (answered (two_turns ''p'' ''q''))"
    by (simp_all add: two_turns_def paired_def one_sided_def issued_def answered_def)
  from eviction_keeps_pairing [OF this, of "\<lambda>_. None" 1 None "[]"] show ?thesis
    using evict_two_turns [of "\<lambda>_. None"] by (simp add: evictStaleToolMessages_def)
qed

text \<open>
  The gateways number the tool calls of a response that has no IDs from 0, so that two turns have a \<^verbatim>\<open>call_0\<close>. Dropping the result of
  the older turn then removes the newest call as well, and the repair that follows drops the newest result: the turn
  that the window of one should have kept is lost.
\<close>

theorem reused_call_id_loses_newest_turn:
  "evictStaleToolMessages decode (two_turns ''call_0'' ''call_0'') 1 = [answering ''call_0'' ''new'']
   \<and> enforceToolCallPairing (evictStaleToolMessages decode (two_turns ''call_0'' ''call_0'') 1) = []"
proof -
  have "evictStaleToolMessages decode (two_turns ''call_0'' ''call_0'') 1 = [answering ''call_0'' ''new'']"
    unfolding evictStaleToolMessages_def evictStaleToolMessagesWithPolicy_def option.case Let_def scan_reused
    by (simp add: evict_eval eval_nat_numeral)
  then show ?thesis by (simp add: enforceToolCallPairing_def enforceToolCallPairingWithStats_def issued_def answered_def)
qed

end
