(* ===== verification/Run_Terminal.thy ===== *)
theory Run_Terminal
  imports Run_Reaper Event_Types
begin

text \<open>
  How the engine settles a run: \<^verbatim>\<open>runtime_terminal.go\<close> of \<^verbatim>\<open>internal/application/runtime\<close>. A finished run is written as completed with its final output, a
  failed one as failed with its reason, a cancelled one as cancelled; other writers act between any two steps, and what they settled first
  stays. Metrics, logs and the in-process notification of waiters are left out.
\<close>

section \<open>Errors and reasons\<close>

definition ErrMaxStepsExceeded :: go_error where
  "ErrMaxStepsExceeded = Errorf ''runtime: autonomous tool loop exceeded max_steps'' [] None"

definition ErrTokenBudgetExceeded :: go_error where
  "ErrTokenBudgetExceeded = Errorf ''runtime: run exceeded max_total_tokens budget'' [] None"

text \<open>
  What the engine relies on: the store of runs and blobs, the JSON of a checkpoint, the text of an error, the JSON of a text, of the final
  answer, of string fields and of a reference, the decoded fields of a final output, and \<^verbatim>\<open>errors.As\<close> for errors that carry a reason of their
  own or come from a model provider.
\<close>

record settle_env =
  SeRunner :: runner
  SeThreshold :: int
  SeCodec :: checkpoint_codec
  SeErrorText :: "go_error \<Rightarrow> string"
  SeEncText :: "string \<Rightarrow> go_error + bytes"
  SeEncFinal :: "string \<Rightarrow> go_error + bytes"
  SeEncStrings :: "(string \<times> string) list \<Rightarrow> bytes"
  SeDecFields :: "bytes \<Rightarrow> go_error + (string \<times> bytes) list"
  SeEncRef :: "step_output_ref \<Rightarrow> go_error + bytes"
  SeEncFields :: "(string \<times> bytes) list \<Rightarrow> go_error + bytes"
  SeReason :: "go_error \<Rightarrow> string option"
  SeApiError :: "go_error \<Rightarrow> bool"

definition terminationReasonForError :: "settle_env \<Rightarrow> go_error \<Rightarrow> string" where
  "terminationReasonForError E err =
     (if errors_is err ErrMaxStepsExceeded then ''max_steps_exceeded''
      else if errors_is err ErrTokenBudgetExceeded then ''budget_exceeded''
      else if errors_is err (ErrContext DeadlineExceeded) then ''timeout''
      else if errors_is err ErrStaleFence \<or> errors_is err ErrRunLeaseLost then ''lease_lost''
      else (case SeReason E err of
          Some (c # cs) \<Rightarrow> c # cs
        | _ \<Rightarrow> if SeApiError E err then ''llm_error'' else ''error''))"

section \<open>What the engine keeps of a run in memory\<close>

record run_memory =
  RmApprovals :: approval_store
  RmBreaker :: "breaker option"
  RmInterjections :: "string \<Rightarrow> string list"
  RmLoadedTools :: "string \<Rightarrow> string list"
  RmSelfCompact :: "string \<Rightarrow> bool"
  RmUsage :: "string \<Rightarrow> usage_tracker option"
  RmBases :: "string \<Rightarrow> nat option"
  RmAnchors :: "string \<Rightarrow> string option"
  RmRepairs :: "string \<Rightarrow> (string \<times> string) list"

definition clearRunScopedState :: "string \<Rightarrow> run_memory \<Rightarrow> run_memory" where
  "clearRunScopedState runID m = m\<lparr>RmApprovals := Store_Clear runID (RmApprovals m), RmBreaker := map_option (Breaker_Clear runID) (RmBreaker m),
     RmInterjections := (RmInterjections m)(runID := []), RmLoadedTools := (RmLoadedTools m)(runID := []), RmSelfCompact := (RmSelfCompact m)(runID := False),
     RmUsage := (RmUsage m)(runID := None), RmBases := (RmBases m)(runID := None), RmAnchors := (RmAnchors m)(runID := None),
     RmRepairs := (RmRepairs m)(runID := [])\<rparr>"

record settle_state =
  StWorld :: world
  StMemory :: run_memory
  StEvents :: "(event_type \<times> bytes) list"

definition emitted :: "event_type \<Rightarrow> bytes \<Rightarrow> settle_state \<Rightarrow> settle_state" where
  "emitted typ payload st = st\<lparr>StEvents := StEvents st @ [(typ, payload)]\<rparr>"

section \<open>The retrying save with a captured status\<close>

text \<open>\<^verbatim>\<open>saveSnapshotWithRetry\<close> as in \<open>change_pass\<close>, for a change that also writes a variable of its closure.\<close>

definition settle_pass ::
  "runner \<Rightarrow> gctx \<Rightarrow> string \<Rightarrow> (run_snapshot \<Rightarrow> go_error + run_snapshot \<times> run_status) \<Rightarrow> nat \<Rightarrow> world \<Rightarrow> world \<times> (go_error + run_status) pass" where
  "settle_pass R ctx runID mutate attempt w =
     (case load_run R ctx runID w of
        (w1, Inl e) \<Rightarrow> (w1, Stop (Inl e))
      | (w1, Inr snapshot) \<Rightarrow>
          (case mutate snapshot of
             Inl e \<Rightarrow> (w1, Stop (Inl e))
           | Inr (s1, status) \<Rightarrow>
               (case saveRunSnapshot R ctx s1 (Version s1) w1 of
                  (w2, None) \<Rightarrow> (w2, Stop (Inr status))
                | (w2, Some e) \<Rightarrow> stale_pass R Inl e w2)))"

definition settle_save ::
  "runner \<Rightarrow> gctx \<Rightarrow> string \<Rightarrow> (run_snapshot \<Rightarrow> go_error + run_snapshot \<times> run_status) \<Rightarrow> world \<Rightarrow> world \<times> (go_error + run_status)" where
  "settle_save R ctx runID mutate w =
     passes 5 0 (settle_pass R ctx runID mutate) (Inl (Errorf ''runtime: failed to save snapshot %q after stale retries'' [runID] None)) w"

section \<open>Completing\<close>

definition completionConflictError :: "run_status \<Rightarrow> go_error" where
  "completionConflictError status = Errorf ''runtime: run is not running (status=%s)'' [status_text status] None"

definition complete_change :: "step_output_ref \<Rightarrow> run_snapshot \<Rightarrow> go_error + run_snapshot" where
  "complete_change ref s =
     (if Status s \<noteq> RunStatusRunning then Inl (completionConflictError (Status s))
      else Inr (s\<lparr>Status := RunStatusCompleted, StepOutputs := Some (AList.update ''final'' ref (outputs_of s))\<rparr>))"

text \<open>The payload of the completion event: the fields of the final output and the reference to it.\<close>

definition completed_payload :: "settle_env \<Rightarrow> bytes \<Rightarrow> step_output_ref \<Rightarrow> go_error + bytes" where
  "completed_payload E finalRaw ref =
     (case SeDecFields E finalRaw of
        Inl e \<Rightarrow> Inl (Errorf ''runtime: decode final output for completion event: %w'' [] (Some e))
      | Inr eventFields \<Rightarrow>
          (case SeEncRef E ref of
             Inl e \<Rightarrow> Inl (Errorf ''runtime: marshal final output reference: %w'' [] (Some e))
           | Inr refRaw \<Rightarrow>
               (case SeEncFields E (AList.update ''output_ref'' refRaw eventFields) of
                  Inl e \<Rightarrow> Inl (Errorf ''runtime: marshal completion event payload: %w'' [] (Some e))
                | Inr payload \<Rightarrow> Inr payload)))"

definition delete_blob :: "runner \<Rightarrow> gctx \<Rightarrow> blob_ref \<Rightarrow> world \<Rightarrow> world" where
  "delete_blob R ctx ref w = (let (m, w1) = tick (Fenced R) w in w1\<lparr>Blobs := fst (Blobs_Delete (at_moment m ctx) (Blobs w1) ref)\<rparr>)"

text \<open>The snapshot that was saved is only used for metrics, so the result is the error.\<close>

definition persistRunCompleted :: "settle_env \<Rightarrow> gctx \<Rightarrow> string \<Rightarrow> bytes \<Rightarrow> settle_state \<Rightarrow> settle_state \<times> go_error option" where
  "persistRunCompleted E ctx runID finalRaw st =
     (case engine_stepOutputRef (SeRunner E) ctx runID ''final'' (SeThreshold E) finalRaw (StWorld st) of
        (w1, Inl e) \<Rightarrow> (st\<lparr>StWorld := w1\<rparr>, Some e)
      | (w1, Inr finalRef) \<Rightarrow>
          (case engine_saveSnapshotWithRetry (SeRunner E) ctx runID (complete_change finalRef) w1 of
             (w2, Some e) \<Rightarrow>
               (st\<lparr>StWorld := (case Blob finalRef of None \<Rightarrow> w2 | Some b \<Rightarrow> delete_blob (SeRunner E) ctx b w2)\<rparr>, Some e)
           | (w2, None) \<Rightarrow>
               (let st1 = st\<lparr>StWorld := w2, StMemory := clearRunScopedState runID (StMemory st)\<rparr> in
                case completed_payload E finalRaw finalRef of
                  Inl e \<Rightarrow> (st1, Some e)
                | Inr payload \<Rightarrow> (emitted EventRunCompleted payload st1, None))))"

section \<open>Failing and cancelling\<close>

definition snapshotHasToolApprovalCheckpoint :: "settle_env \<Rightarrow> run_snapshot \<Rightarrow> bool" where
  "snapshotHasToolApprovalCheckpoint E s = (case map_of (variables_of s) checkpointKindVar of
       None \<Rightarrow> False
     | Some raw \<Rightarrow> CkDecText (SeCodec E) raw = Some ''tool_approval'')"

definition fail_change :: "settle_env \<Rightarrow> go_error \<Rightarrow> bool \<Rightarrow> run_snapshot \<Rightarrow> go_error + run_snapshot \<times> run_status" where
  "fail_change E cause force s =
     (if Status s = RunStatusCancelled then Inr (s, Status s)
      else if Status s = RunStatusPaused \<or> (\<not> force \<and> snapshotHasToolApprovalCheckpoint E s) then Inr (s, Status s)
      else if Status s \<noteq> RunStatusFailed \<and> \<not> CanTransitionTo (Status s) RunStatusFailed then Inr (s, Status s)
      else (case SeEncText E (SeErrorText E cause) of
          Inl e \<Rightarrow> Inl (Errorf ''runtime: marshal run failure reason: %w'' [] (Some e))
        | Inr raw \<Rightarrow> Inr (set_var VarRunErrorMessage raw (made_vars (s\<lparr>Status := RunStatusFailed\<rparr>)), RunStatusFailed)))"

definition cancel_change :: "run_snapshot \<Rightarrow> go_error + run_snapshot \<times> run_status" where
  "cancel_change s =
     (if Status s \<noteq> RunStatusCancelled then
        (if \<not> CanTransitionTo (Status s) RunStatusCancelled then Inr (s, Status s)
         else Inr (s\<lparr>Status := RunStatusCancelled\<rparr>, RunStatusCancelled))
      else Inr (s, Status s))"

definition VarTerminalPersistFailed :: string where "VarTerminalPersistFailed = ''terminal_persist_failed''"

definition handleTerminalPersistExhausted :: "settle_env \<Rightarrow> gctx \<Rightarrow> string \<Rightarrow> run_status \<Rightarrow> go_error \<Rightarrow> settle_state \<Rightarrow> settle_state" where
  "handleTerminalPersistExhausted E ctx runID target saveErr st =
     (if errors_is saveErr ErrStaleFence then st
      else (let st1 = emitted EventRunTerminalPersistFailed
                (SeEncStrings E [(''target_status'', status_text target), (''save_error'', SeErrorText E saveErr)]) st in
        case load_run (SeRunner E) ctx runID (StWorld st1) of
          (w1, Inl e) \<Rightarrow> st1\<lparr>StWorld := w1\<rparr>
        | (w1, Inr s) \<Rightarrow>
            if Status s \<noteq> RunStatusRunning then st1\<lparr>StWorld := w1\<rparr>
            else st1\<lparr>StWorld := fst (saveRunSnapshot (SeRunner E) ctx
                (set_var VarTerminalPersistFailed (CkEncText (SeCodec E) (status_text target)) (made_vars s)) (Version s) w1)\<rparr>))"

definition cancelled_event :: "settle_env \<Rightarrow> settle_state \<Rightarrow> settle_state" where
  "cancelled_event E st = emitted EventRunCancelled (SeEncStrings E [(''termination_reason'', ''cancelled'')]) st"

definition forget_run :: "string \<Rightarrow> settle_state \<Rightarrow> settle_state" where
  "forget_run runID st = st\<lparr>StMemory := clearRunScopedState runID (StMemory st)\<rparr>"

text \<open>The context of the writes is the caller's without its cancellation, under a timeout of its own.\<close>

definition markRunFailedMode :: "settle_env \<Rightarrow> gctx \<Rightarrow> string \<Rightarrow> go_error \<Rightarrow> bool \<Rightarrow> settle_state \<Rightarrow> settle_state" where
  "markRunFailedMode E ctx runID cause force st =
     forget_run runID (case settle_save (SeRunner E) (live ctx) runID (fail_change E cause force) (StWorld st) of
         (w1, Inl e) \<Rightarrow> handleTerminalPersistExhausted E (live ctx) runID RunStatusFailed e (st\<lparr>StWorld := w1\<rparr>)
       | (w1, Inr status) \<Rightarrow>
           (let st1 = st\<lparr>StWorld := w1\<rparr> in
            if status = RunStatusCancelled then cancelled_event E st1
            else if status \<noteq> RunStatusFailed then st1
            else emitted EventRunFailed
              (SeEncStrings E [(''error'', SeErrorText E cause), (''termination_reason'', terminationReasonForError E cause)]) st1))"

definition markRunCancelled :: "settle_env \<Rightarrow> gctx \<Rightarrow> string \<Rightarrow> settle_state \<Rightarrow> settle_state" where
  "markRunCancelled E ctx runID st =
     forget_run runID (case settle_save (SeRunner E) (live ctx) runID cancel_change (StWorld st) of
         (w1, Inl e) \<Rightarrow> handleTerminalPersistExhausted E (live ctx) runID RunStatusCancelled e (st\<lparr>StWorld := w1\<rparr>)
       | (w1, Inr status) \<Rightarrow>
           (let st1 = st\<lparr>StWorld := w1\<rparr> in if status \<noteq> RunStatusCancelled then st1 else cancelled_event E st1))"

definition markRunFailed :: "settle_env \<Rightarrow> gctx \<Rightarrow> string \<Rightarrow> go_error \<Rightarrow> settle_state \<Rightarrow> settle_state" where
  "markRunFailed E ctx runID cause st = markRunFailedMode E ctx runID cause (errors_is cause ErrStaleFence) st"

definition markRunFailedLease :: "settle_env \<Rightarrow> gctx \<Rightarrow> string \<Rightarrow> go_error \<Rightarrow> settle_state \<Rightarrow> settle_state" where
  "markRunFailedLease E ctx runID cause st = markRunFailedMode E ctx runID cause True st"

definition markRunFailedPermanent :: "settle_env \<Rightarrow> gctx \<Rightarrow> string \<Rightarrow> go_error \<Rightarrow> settle_state \<Rightarrow> settle_state" where
  "markRunFailedPermanent E ctx runID cause st = markRunFailedMode E ctx runID cause True st"

text \<open>\<open>cause\<close> is \<^verbatim>\<open>context.Cause\<close> of the context.\<close>

definition markRunFailedOrCancelled :: "settle_env \<Rightarrow> gctx \<Rightarrow> go_error option \<Rightarrow> string \<Rightarrow> go_error \<Rightarrow> settle_state \<Rightarrow> settle_state" where
  "markRunFailedOrCancelled E ctx cause runID err st =
     (case (case cause of Some c \<Rightarrow> if errors_is c ErrRunLeaseLost then Some c else None | None \<Rightarrow> None) of
        Some c \<Rightarrow> markRunFailedLease E ctx runID c st
      | None \<Rightarrow>
          if errors_is err ErrRunLeaseLost then markRunFailedLease E ctx runID err st
          else if errors_is err ErrStaleFence then markRunFailedLease E ctx runID err st
          else if errors_is err (ErrContext Canceled) then markRunCancelled E ctx runID st
          else markRunFailed E ctx runID err st)"

section \<open>The result of a run\<close>

record run_outcome =
  OutStatus :: run_status
  OutOutput :: string

definition nonRunningCompletionResult :: "string \<Rightarrow> run_status \<Rightarrow> go_error + run_outcome" where
  "nonRunningCompletionResult runID status =
     (if status = RunStatusPaused \<or> status = RunStatusCancelled \<or> status = RunStatusFailed then Inr \<lparr>OutStatus = status, OutOutput = []\<rparr>
      else Inl (Errorf ''runtime: cannot complete run %q in status %s'' [runID, status_text status] None))"

text \<open>\<^verbatim>\<open>errors.As\<close> for \<^verbatim>\<open>completionConflictError\<close>: the status it carries.\<close>

definition status_named :: "string \<Rightarrow> run_status" where
  "status_named t = (case find (\<lambda>s. status_text s = t) [RunStatusRunning, RunStatusPaused, RunStatusFailed, RunStatusCompleted, RunStatusCancelled] of
       Some s \<Rightarrow> s | None \<Rightarrow> RunStatusOther t)"

fun as_conflict :: "go_error \<Rightarrow> run_status option" where
  "as_conflict (Errorf f args (Some e)) = as_conflict e"
| "as_conflict (Errorf f args None) = (if f = ''runtime: run is not running (status=%s)'' \<and> length args = 1 then Some (status_named (hd args)) else None)"
| "as_conflict e = None"

definition completeRun :: "settle_env \<Rightarrow> gctx \<Rightarrow> go_error option \<Rightarrow> string \<Rightarrow> string \<Rightarrow> settle_state \<Rightarrow> settle_state \<times> (go_error + run_outcome)" where
  "completeRun E ctx cause runID output st =
     (case SeEncFinal E output of
        Inl e \<Rightarrow> (st, Inl (Errorf ''runtime: marshal final output: %w'' [] (Some e)))
      | Inr finalRaw \<Rightarrow>
          (case persistRunCompleted E ctx runID finalRaw st of
             (st1, None) \<Rightarrow> (st1, Inr \<lparr>OutStatus = RunStatusCompleted, OutOutput = output\<rparr>)
           | (st1, Some e) \<Rightarrow>
               (case as_conflict e of
                  Some status \<Rightarrow> (st1, nonRunningCompletionResult runID status)
                | None \<Rightarrow> (markRunFailedOrCancelled E ctx cause runID e st1, Inl e))))"

section \<open>A settled save is one atomic change\<close>

lemma settle_pass_cases:
  assumes "bounded_moments w" and "repo_inv (Repo w)" and "settle_pass R ctx runID mutate i w = (w', p)"
    and keeps: "\<And>s s' t. mutate s = Inr (s', t) \<Longrightarrow> RunID s' = RunID s \<and> Version s' = Version s"
  shows "case p of
      Stop (Inr t) \<Rightarrow> \<exists>u. by_others (Fenced R) w u \<and> atomic_update (Fenced R) ctx runID (\<lambda>s s'. mutate s = Inr (s', t)) u w'
    | _ \<Rightarrow> by_others (Fenced R) w w' \<and> bounded_moments w'"
proof -
  obtain w1 res where l: "load_run R ctx runID w = (w1, res)" by fastforce
  note o1 = load_run_by_others [OF l assms(1)]
  show ?thesis
  proof (cases res)
    case (Inl e)
    with assms(3) l o1 show ?thesis by (auto simp: settle_pass_def)
  next
    case (Inr s)
    show ?thesis
    proof (cases "mutate s")
      case e: (Inl e)
      with assms(3) l o1 Inr show ?thesis by (auto simp: settle_pass_def)
    next
      case (Inr st)
      then obtain s' t where s': "mutate s = Inr (s', t)" by (cases st) auto
      obtain w2 err where sv: "saveRunSnapshot R ctx s' (Version s') w1 = (w2, err)" by fastforce
      show ?thesis
      proof (cases err)
        case None
        with l \<open>res = Inr s\<close> s' sv assms(1,2) o1 keeps [OF s'] load_save_atomic [of R ctx runID w w1 s w1 s' "Version s'" w2 "\<lambda>s s'. mutate s = Inr (s', t)"]
        have "\<exists>u. by_others (Fenced R) w u \<and> atomic_update (Fenced R) ctx runID (\<lambda>s s'. mutate s = Inr (s', t)) u w2" by simp
        with None assms(3) l \<open>res = Inr s\<close> s' sv show ?thesis by (auto simp: settle_pass_def)
      next
        case (Some e)
        note o2 = saveRunSnapshot_failed [OF sv [unfolded Some] o1(2)]
        from assms(3) l \<open>res = Inr s\<close> s' sv Some have st: "stale_pass R Inl e w2 = (w', p)" by (simp add: settle_pass_def)
        from stale_pass_by_others [OF st o2(2)] by_others_trans [OF by_others_trans [OF o1(1) o2(1)]] show ?thesis by auto
      qed
    qed
  qed
qed

lemma saveRunSnapshot_bounded: "saveRunSnapshot R ctx s v w = (w', err) \<Longrightarrow> bounded_moments w \<Longrightarrow> bounded_moments w'"
  using tick_by_others(2) by (auto simp: saveRunSnapshot_def bounded_moments_def simp del: tick.simps split: prod.splits)

lemma passes_bounded:
  assumes "\<And>i w w1 p. body i w = (w1, p) \<Longrightarrow> bounded_moments w \<Longrightarrow> bounded_moments w1"
  shows "passes n i body exhausted w = (w', x) \<Longrightarrow> bounded_moments w \<Longrightarrow> bounded_moments w'"
  by (induction n arbitrary: i w) (auto split: prod.splits pass.splits dest: assms)

lemma settle_pass_bounded:
  assumes "settle_pass R ctx runID mutate i w = (w1, p)" "bounded_moments w"
  shows "bounded_moments w1"
  using assms load_run_by_others(2) saveRunSnapshot_bounded stale_pass_by_others
  by (fastforce simp: settle_pass_def split: prod.splits sum.splits option.splits)

lemma settle_save_atomic:
  assumes "settle_save R ctx runID mutate w = (w', res)" and "bounded_moments w" and "repo_inv (Repo w)"
    and keeps: "\<And>s s' t. mutate s = Inr (s', t) \<Longrightarrow> RunID s' = RunID s \<and> Version s' = Version s"
  shows "bounded_moments w' \<and> (case res of
      Inr t \<Rightarrow> \<exists>u. by_others (Fenced R) w u \<and> atomic_update (Fenced R) ctx runID (\<lambda>s s'. mutate s = Inr (s', t)) u w'
    | Inl e \<Rightarrow> by_others (Fenced R) w w')"
proof
  show "bounded_moments w'"
    by (rule passes_bounded [OF _ assms(1) [unfolded settle_save_def] assms(2)]) (rule settle_pass_bounded)
  define P where "P = (\<lambda>w0 (w' :: world) res. case res of
      Inr t \<Rightarrow> \<exists>u. by_others (Fenced R) w0 u \<and> atomic_update (Fenced R) ctx runID (\<lambda>s s'. mutate s = Inr (s', t)) u w'
    | Inl (e :: go_error) \<Rightarrow> by_others (Fenced R) w0 w')"
  have "P w w' res"
    using assms(1) unfolding settle_save_def
  proof (rule passes_rule [where fenced = "Fenced R" and P = P, rotated 4])
    fix i w w1
    assume "bounded_moments w" "repo_inv (Repo w)" "settle_pass R ctx runID mutate i w = (w1, Again)"
    note settle_pass_cases [OF this keeps]
    then show "by_others (Fenced R) w w1 \<and> bounded_moments w1" by simp
  next
    fix i w w1 x
    assume "bounded_moments w" "repo_inv (Repo w)" "settle_pass R ctx runID mutate i w = (w1, Stop x)"
    note settle_pass_cases [OF this keeps]
    then show "P w w1 x" by (cases x) (auto simp: P_def)
  next
    fix r r' w x
    assume "by_others (Fenced R) r r'" "P r' w x"
    then show "P r w x" by (cases x) (auto simp: P_def intro: by_others_trans)
  qed (use assms in \<open>simp_all add: P_def\<close>)
  then show "case res of
      Inr t \<Rightarrow> \<exists>u. by_others (Fenced R) w u \<and> atomic_update (Fenced R) ctx runID (\<lambda>s s'. mutate s = Inr (s', t)) u w'
    | Inl e \<Rightarrow> by_others (Fenced R) w w'" by (simp add: P_def)
qed

lemma change_pass_bounded:
  assumes "change_pass R ctx runID mutate i w = (w1, p)" "bounded_moments w"
  shows "bounded_moments w1"
  using assms load_run_by_others(2) saveRunSnapshot_bounded stale_pass_by_others
  by (fastforce simp: change_pass_def split: prod.splits sum.splits option.splits)

lemma engine_save_bounded:
  assumes "engine_saveSnapshotWithRetry R ctx runID mutate w = (w', err)" "bounded_moments w"
  shows "bounded_moments w'"
  by (rule passes_bounded [OF _ assms(1) [unfolded engine_saveSnapshotWithRetry_def] assms(2)]) (rule change_pass_bounded)

lemma delete_blob_by_others: "bounded_moments w \<Longrightarrow> by_others (Fenced R) w (delete_blob R ctx ref w)"
  using tick_by_others(1) by (auto simp: delete_blob_def simp del: tick.simps split: prod.splits)

section \<open>What settling does to the run\<close>

text \<open>
  Changes that settling may make: the run becomes failed with a reason, a run that may not fail stays as it is, and a run that could not be
  settled and is still running gets a marker.
\<close>

definition settles_failed :: "settle_env \<Rightarrow> go_error \<Rightarrow> bool \<Rightarrow> run_snapshot \<Rightarrow> run_snapshot \<Rightarrow> bool" where
  "settles_failed E cause force s s' \<longleftrightarrow>
     (if (Status s = RunStatusRunning \<or> Status s = RunStatusFailed) \<and> (force \<or> \<not> snapshotHasToolApprovalCheckpoint E s)
      then s' = s\<lparr>Status := RunStatusFailed, Variables := Variables s'\<rparr>
        \<and> (\<exists>raw. SeEncText E (SeErrorText E cause) = Inr raw
             \<and> (\<forall>k. map_of (variables_of s') k = (if k = VarRunErrorMessage then Some raw else map_of (variables_of s) k)))
      else s' = s)"

definition settles_cancelled :: "run_snapshot \<Rightarrow> run_snapshot \<Rightarrow> bool" where
  "settles_cancelled s s' \<longleftrightarrow> s' = (if Status s = RunStatusRunning \<or> Status s = RunStatusPaused then s\<lparr>Status := RunStatusCancelled\<rparr> else s)"

definition marks_stuck :: "run_snapshot \<Rightarrow> run_snapshot \<Rightarrow> bool" where
  "marks_stuck s s' \<longleftrightarrow> Status s = RunStatusRunning \<and> s' = s\<lparr>Variables := Variables s'\<rparr>
     \<and> (\<forall>k. k \<noteq> VarTerminalPersistFailed \<longrightarrow> map_of (variables_of s') k = map_of (variables_of s) k)"

definition one_change :: "bool \<Rightarrow> gctx \<Rightarrow> string \<Rightarrow> (run_snapshot \<Rightarrow> run_snapshot \<Rightarrow> bool) \<Rightarrow> world \<Rightarrow> world \<Rightarrow> bool" where
  "one_change fenced ctx runID change w w' \<longleftrightarrow> by_others fenced w w' \<or> (\<exists>u. by_others fenced w u \<and> atomic_update fenced ctx runID change u w')"

lemma one_change_others: "by_others fenced w w1 \<Longrightarrow> one_change fenced ctx runID change w1 w' \<Longrightarrow> one_change fenced ctx runID change w w'"
  by (auto simp: one_change_def intro: by_others_trans)

lemma set_made_vars: "set_var key raw (made_vars s) = s\<lparr>Variables := Variables (set_var key raw (made_vars s))\<rparr>"
  by (simp add: set_var_def made_vars_def)

lemma fail_change_settles: "fail_change E cause force s = Inr (s', t) \<Longrightarrow> settles_failed E cause force s s' \<and> RunID s' = RunID s \<and> Version s' = Version s"
  by (cases "Status s")
    (auto simp: fail_change_def settles_failed_def kept_by_vars variables_of_set intro!: set_made_vars split: if_splits sum.splits)

lemma cancel_change_settles: "cancel_change s = Inr (s', t) \<Longrightarrow> settles_cancelled s s' \<and> RunID s' = RunID s \<and> Version s' = Version s"
  by (cases "Status s") (auto simp: cancel_change_def settles_cancelled_def split: if_splits)

lemma marker_atomic:
  assumes "load_run R ctx runID w = (w1, Inr s)" "Status s = RunStatusRunning" "bounded_moments w" "repo_inv (Repo w)"
    and "saveRunSnapshot R ctx (set_var VarTerminalPersistFailed raw (made_vars s)) (Version s) w1 = (w2, err)"
  shows "one_change (Fenced R) ctx runID marks_stuck w w2"
proof (cases err)
  case None
  note o1 = load_run_by_others [OF assms(1,3)]
  have "marks_stuck s (set_var VarTerminalPersistFailed raw (made_vars s))"
    using assms(2) by (auto simp: marks_stuck_def variables_of_set intro!: set_made_vars)
  with load_save_atomic [OF assms(1) by_others_refl assms(5) [unfolded None] refl _ assms(4,3) o1(2), of marks_stuck] show ?thesis
    by (auto simp: one_change_def kept_by_vars)
next
  case (Some e)
  note o1 = load_run_by_others [OF assms(1,3)]
  from saveRunSnapshot_failed(1) [OF assms(5) [unfolded Some] o1(2)] o1(1) show ?thesis
    by (auto simp: one_change_def intro: by_others_trans)
qed

lemma exhausted_marks:
  assumes "bounded_moments (StWorld st)" "repo_inv (Repo (StWorld st))"
  shows "one_change (Fenced (SeRunner E)) ctx runID marks_stuck (StWorld st) (StWorld (handleTerminalPersistExhausted E ctx runID target e st))"
proof (cases "errors_is e ErrStaleFence")
  case False
  obtain w1 res where l: "load_run (SeRunner E) ctx runID (StWorld st) = (w1, res)" by fastforce
  note o1 = load_run_by_others [OF l assms(1)]
  show ?thesis
  proof (cases "\<exists>s. res = Inr s \<and> Status s = RunStatusRunning")
    case True
    then obtain s where s: "res = Inr s" "Status s = RunStatusRunning" by blast
    obtain w2 err where sv: "saveRunSnapshot (SeRunner E) ctx (set_var VarTerminalPersistFailed (CkEncText (SeCodec E) (status_text target)) (made_vars s)) (Version s) w1 = (w2, err)"
      by fastforce
    from marker_atomic [OF l [unfolded s(1)] s(2) assms sv] False l s sv show ?thesis
      by (simp add: handleTerminalPersistExhausted_def emitted_def Let_def)
  next
    case no: False
    with o1(1) False l show ?thesis
      by (auto simp: handleTerminalPersistExhausted_def emitted_def one_change_def Let_def split: sum.splits)
  qed
qed (simp add: handleTerminalPersistExhausted_def one_change_def)

text \<open>Events a failure may emit: of a run stored as failed or found cancelled, and otherwise none.\<close>

definition failure_events :: "settle_env \<Rightarrow> go_error \<Rightarrow> run_status \<Rightarrow> (event_type \<times> bytes) list" where
  "failure_events E cause status =
     (if status = RunStatusCancelled then [(EventRunCancelled, SeEncStrings E [(''termination_reason'', ''cancelled'')])]
      else if status = RunStatusFailed then
        [(EventRunFailed, SeEncStrings E [(''error'', SeErrorText E cause), (''termination_reason'', terminationReasonForError E cause)])]
      else [])"

lemma exhausted_events:
  "\<exists>es. StEvents (handleTerminalPersistExhausted E ctx runID target e st) = StEvents st @ es \<and> set (map fst es) \<subseteq> {EventRunTerminalPersistFailed}"
  by (auto simp: handleTerminalPersistExhausted_def emitted_def Let_def split: prod.splits sum.splits)


definition completes :: "settle_env \<Rightarrow> gctx \<Rightarrow> string \<Rightarrow> bytes \<Rightarrow> run_snapshot \<Rightarrow> run_snapshot \<Rightarrow> bool" where
  "completes E ctx runID finalRaw s s' \<longleftrightarrow> Status s = RunStatusRunning \<and> (\<exists>out. redact (SeRunner E) runID ''final'' finalRaw = Inr out
     \<and> s' = s\<lparr>Status := RunStatusCompleted, StepOutputs := Some (AList.update ''final'' (ref_of (SeRunner E) ctx (SeThreshold E) out) (outputs_of s))\<rparr>)"

text \<open>
  C13: a run completes once and only from running. When completing a run returns without an error, it was one atomic change on the run as the
  others left it, which takes a running run to completed and adds the final output, after redaction, inline or as the blob of its bytes, and one
  event says so. On an error no event is emitted, and the run store is what the other writers made of it; only when the payload of that event cannot
  be written is the completed run stored nevertheless.
\<close>

theorem completion_atomic:
  assumes "persistRunCompleted E ctx runID finalRaw st = (st', err)" and "bounded_moments (StWorld st)" and "repo_inv (Repo (StWorld st))"
  shows "case err of
      None \<Rightarrow> \<exists>u payload. by_others (Fenced (SeRunner E)) (StWorld st) u
        \<and> atomic_update (Fenced (SeRunner E)) ctx runID (completes E ctx runID finalRaw) u (StWorld st')
        \<and> StEvents st' = StEvents st @ [(EventRunCompleted, payload)]
    | Some e \<Rightarrow> StEvents st' = StEvents st \<and> (by_others (Fenced (SeRunner E)) (StWorld st) (StWorld st')
        \<or> (\<exists>u ref. completed_payload E finalRaw ref = Inl e \<and> by_others (Fenced (SeRunner E)) (StWorld st) u
            \<and> atomic_update (Fenced (SeRunner E)) ctx runID (completes E ctx runID finalRaw) u (StWorld st')))"
proof -
  let ?R = "SeRunner E"
  obtain w1 res where ref: "engine_stepOutputRef ?R ctx runID ''final'' (SeThreshold E) finalRaw (StWorld st) = (w1, res)" by fastforce
  note o1 = engine_stepOutputRef_by_others [OF ref assms(2)]
  show ?thesis
  proof (cases res)
    case (Inl e)
    with assms(1) ref o1 show ?thesis by (auto simp: persistRunCompleted_def)
  next
    case (Inr finalRef)
    from engine_stepOutputRef_ok [OF ref [unfolded Inr]] obtain out where out: "redact ?R runID ''final'' finalRaw = Inr out"
      "finalRef = ref_of ?R ctx (SeThreshold E) out" by blast
    obtain w2 sv where save: "engine_saveSnapshotWithRetry ?R ctx runID (complete_change finalRef) w1 = (w2, sv)" by fastforce
    have c: "completes E ctx runID finalRaw s s' \<and> RunID s' = RunID s \<and> Version s' = Version s" if "complete_change finalRef s = Inr s'" for s s'
      using that out by (auto simp: complete_change_def completes_def split: if_splits)
    have "change_result ?R ctx runID (complete_change finalRef) w1 w2 sv"
      using o1 c by (intro engine_save_atomic [OF save]) (auto intro: by_others_inv assms(3))
    note a = this
    show ?thesis
    proof (cases sv)
      case (Some e)
      from a Some have o2: "by_others (Fenced ?R) (StWorld st) w2" using o1 by (auto intro: by_others_trans)
      have "by_others (Fenced ?R) w2 (delete_blob ?R ctx b w2)" for b
        using delete_blob_by_others [OF engine_save_bounded [OF save]] o1 by blast
      with o2 show ?thesis using assms(1) ref Inr save Some
        by (auto simp: persistRunCompleted_def split: option.splits intro: by_others_trans)
    next
      case None
      with a obtain u where u: "by_others (Fenced ?R) w1 u" "atomic_update (Fenced ?R) ctx runID (\<lambda>s s'. complete_change finalRef s = Inr s') u w2"
        by auto
      with o1 have u1: "by_others (Fenced ?R) (StWorld st) u" by (auto intro: by_others_trans)
      have u2: "atomic_update (Fenced ?R) ctx runID (completes E ctx runID finalRaw) u w2"
        using atomic_update_mono [OF u(2)] c by blast
      from u1 u2 show ?thesis using assms(1) ref Inr save None
        by (auto simp: persistRunCompleted_def emitted_def Let_def split: sum.splits)
    qed
  qed
qed

section \<open>A defect: the blob of another run\<close>

text \<open>
  Blobs are named by their content and their tenant, so equal outputs of one tenant share a blob. When a completion loses against another writer,
  the blob of its final output is deleted as an orphan, also when it was there before and the snapshot of another run, or of the very
  run another worker completed with the same answer, refers to it.
\<close>

theorem conflict_deletes_shared_blob:
  assumes "Moments (StWorld st) = []" and "LoadAuthorized (live ctx) (Repo (StWorld st)) runID = Inr s" and "Status s \<noteq> RunStatusRunning"
    and "HasBlobs (SeRunner E)" and "Redactor (SeRunner E) = None" and "0 < SeThreshold E" and "SeThreshold E < int (length finalRaw)"
    and "ref_of (SeRunner E) ctx (SeThreshold E) finalRaw = \<lparr>Inline = None, Blob = Some b\<rparr>"
  shows "persistRunCompleted E ctx runID finalRaw st = (st\<lparr>StWorld := (StWorld st)\<lparr>Blobs := (Blobs (StWorld st))(BlobID b := None)\<rparr>\<rparr>, Some (completionConflictError (Status s)))"
proof -
  let ?R = "SeRunner E" and ?w = "StWorld st"
  have t: "tick f w = (quiet_moment, w)" if "Moments w = []" for f w using that by simp
  have live: "at_moment quiet_moment ctx = live ctx" by (simp add: at_moment_def quiet_moment_def)
  obtain bs where put: "Blobs_Put (live ctx) (Blobs ?w) finalRaw = (bs, Inr b)"
    using assms(6-8) \<open>HasBlobs ?R\<close> by (auto simp: Blobs_Put_ok ref_of_def)
  then have bs: "bs = (Blobs ?w)(BlobID b \<mapsto> finalRaw)" by (simp add: Blobs_Put_ok)
  have ref: "engine_stepOutputRef ?R ctx runID ''final'' (SeThreshold E) finalRaw ?w = (?w\<lparr>Blobs := bs\<rparr>, Inr \<lparr>Inline = None, Blob = Some b\<rparr>)"
    using assms(4-7) put by (simp add: engine_stepOutputRef_def stepOutputRef_def redact_def t [OF assms(1)] live del: tick.simps)
  have save: "engine_saveSnapshotWithRetry ?R ctx runID (complete_change r) (?w\<lparr>Blobs := bs\<rparr>) = (?w\<lparr>Blobs := bs\<rparr>, Some (completionConflictError (Status s)))" for r
    using assms(1-3) by (simp add: engine_saveSnapshotWithRetry_def eval_nat_numeral change_pass_def load_run_def t live complete_change_def del: tick.simps)
  have "AuthorizeBlobAccess (live ctx) b = None"
    using blob_put_get [OF put, of "live ctx"] by (auto simp: Blobs_Get_def split: option.splits)
  then have "delete_blob ?R ctx b (?w\<lparr>Blobs := bs\<rparr>) = ?w\<lparr>Blobs := (Blobs ?w)(BlobID b := None)\<rparr>"
    using assms(1) by (simp add: delete_blob_def t live Blobs_Delete_def bs del: tick.simps)
  with ref save show ?thesis by (simp add: persistRunCompleted_def)
qed

section \<open>Samples\<close>

definition plain_settle :: settle_env where
  "plain_settle = \<lparr>SeRunner = plain_runner, SeThreshold = 0, SeCodec = plain_codec, SeErrorText = (\<lambda>_. ''boom''), SeEncText = Inr, SeEncFinal = Inr,
     SeEncStrings = concat \<circ> map snd, SeDecFields = (\<lambda>raw. Inr [(''text'', raw)]), SeEncRef = (\<lambda>_. Inr ''ref''), SeEncFields = (\<lambda>fs. Inr (concat (map snd fs))),
     SeReason = (\<lambda>_. None), SeApiError = (\<lambda>_. False)\<rparr>"

definition empty_memory :: run_memory where
  "empty_memory = \<lparr>RmApprovals = Map.empty, RmBreaker = None, RmInterjections = (\<lambda>_. []), RmLoadedTools = (\<lambda>_. []), RmSelfCompact = (\<lambda>_. False),
     RmUsage = Map.empty, RmBases = Map.empty, RmAnchors = Map.empty, RmRepairs = (\<lambda>_. [])\<rparr>"

definition busy_settle :: settle_state where
  "busy_settle = \<lparr>StWorld = busy_world, StMemory = empty_memory, StEvents = []\<rparr>"

lemma busy_settle_ok: "bounded_moments (StWorld busy_settle)" "repo_inv (Repo (StWorld busy_settle))"
  by (simp_all add: busy_settle_def bounded_busy repo_inv_busy)

lemma busy_fails:
  "map_option (\<lambda>s. (Status s, CurrentNodeID s)) (Snapshots (Repo (StWorld (markRunFailedMode plain_settle Background ''r'' ErrNotFound False busy_settle))) ''r'')
     = Some (RunStatusFailed, ''other'')"
  by code_simp

lemma busy_fails_event:
  "map fst (StEvents (markRunFailedMode plain_settle Background ''r'' ErrNotFound False busy_settle)) = [EventRunFailed]"
  by code_simp


lemma busy_completes: "snd (persistRunCompleted plain_settle Background ''r'' ''done'' busy_settle) = None"
  by code_simp

theorem completion_atomic_witness:
  "\<exists>u. by_others True busy_world u
     \<and> atomic_update True Background ''r'' (completes plain_settle Background ''r'' ''done'') u
         (StWorld (fst (persistRunCompleted plain_settle Background ''r'' ''done'' busy_settle)))"
proof -
  obtain st' err where p: "persistRunCompleted plain_settle Background ''r'' ''done'' busy_settle = (st', err)" by fastforce
  then have e: "err = None" using busy_completes by simp
  from completion_atomic [OF p busy_settle_ok] e p show ?thesis by (auto simp: plain_settle_def plain_runner_def busy_settle_def)
qed

end
