(* ===== verification/Tool_Dispatch.thy ===== *)
theory Tool_Dispatch
  imports Tool_Orch Tool_Approval Runtime_Store Workflow_Exec Llm_Message
begin

text \<open>
  The dispatch of one tool call of an agent: \<^verbatim>\<open>pkg/toolinspect\<close>, \<^verbatim>\<open>inspectors.go\<close>, \<^verbatim>\<open>runtime_deny_breaker.go\<close> and
  \<^verbatim>\<open>runtime_tools.go\<close> of \<^verbatim>\<open>internal/application/runtime\<close>, with the meta tools of \<^verbatim>\<open>runtime_toolcatalog.go\<close>. Ten gates decide about a
  call in a fixed order, host inspectors stand before and after them, and the budget reservation made at the ninth gate
  is settled when the call ends.

  Executors, inspectors, policies and governors are host code and parameters of the engine. A text made by
  \<^verbatim>\<open>err.Error()\<close> or \<^verbatim>\<open>fmt.Sprintf\<close> is given by the parameters \<open>ErrorText\<close> and \<open>Sprintf\<close>. Spans, metrics and
  progress chunks are left out.
\<close>

section \<open>Calls, results and executors\<close>

record call_result =
  ResTool :: string
  ResOutput :: bytes
  ResError :: string

record run_agent = agent +
  AgentName :: string
  SubAgents :: "string list"
  RetryLimit :: int

text \<open>An event of a streaming tool: its error and its result if it is a terminal one.\<close>

record stream_event =
  Terminal :: bool
  StreamError :: string
  StreamResult :: "call_result option"

text \<open>
  An executor gets the run, the agent and the call. A streaming one may return no channel, and then it is called like a plain one.
\<close>

type_synonym execute = "string \<Rightarrow> string \<Rightarrow> tool_call \<Rightarrow> world \<Rightarrow> world \<times> call_result call_end"
type_synonym execute_stream = "string \<Rightarrow> string \<Rightarrow> tool_call \<Rightarrow> world \<Rightarrow> world \<times> stream_event list option call_end"

datatype tool_executor = PlainExecutor execute | StreamExecutor execute execute_stream

fun stream_end :: "stream_event list \<Rightarrow> string \<Rightarrow> call_result option \<Rightarrow> string \<times> call_result option" where
  "stream_end [] err terminal = (err, terminal)"
| "stream_end (e # es) err terminal =
     (if \<not> Terminal e then stream_end es err terminal
      else stream_end es (if StreamError e \<noteq> [] then StreamError e else err) (StreamResult e))"

definition stream_result :: "stream_event list \<Rightarrow> go_error + call_result" where
  "stream_result events = (case stream_end events [] None of
       (c # cs, _) \<Rightarrow> Inl (Errorf ''%s'' [c # cs] None)
     | ([], None) \<Rightarrow> Inl (Errorf ''runtime: tool stream ended without a terminal result'' [] None)
     | ([], Some r) \<Rightarrow> Inr r)"

fun invokeToolExecutor :: "tool_executor \<Rightarrow> string \<Rightarrow> string \<Rightarrow> tool_call \<Rightarrow> world \<Rightarrow> world \<times> call_result call_end" where
  "invokeToolExecutor (PlainExecutor run) runID agent call w = run runID agent call w"
| "invokeToolExecutor (StreamExecutor run stream) runID agent call w =
     (case stream runID agent call w of
        (w1, CallPanics p) \<Rightarrow> (w1, CallPanics p)
      | (w1, CallReturns (Inl e)) \<Rightarrow> (w1, CallReturns (Inl e))
      | (w1, CallReturns (Inr None)) \<Rightarrow> run runID agent call w1
      | (w1, CallReturns (Inr (Some events))) \<Rightarrow> (w1, CallReturns (stream_result events)))"

section \<open>Findings and requests\<close>

datatype verdict = VerdictAllow | VerdictDeny | VerdictRequireApproval

record finding =
  Verdict :: verdict
  FindingKind :: string
  FindingReason :: string
  EventReason :: string
  NoteApprovalDeny :: bool

definition AllowFinding :: finding where
  "AllowFinding = \<lparr>Verdict = VerdictAllow, FindingKind = [], FindingReason = [], EventReason = [], NoteApprovalDeny = False\<rparr>"

definition Deny :: "string \<Rightarrow> string \<Rightarrow> finding" where
  "Deny kind reason = AllowFinding\<lparr>Verdict := VerdictDeny, FindingKind := kind, FindingReason := reason\<rparr>"

definition RequireApproval :: "string \<Rightarrow> finding" where
  "RequireApproval reason = AllowFinding\<lparr>Verdict := VerdictRequireApproval, FindingReason := reason\<rparr>"

definition EventReasonOrDefault :: "finding \<Rightarrow> string" where
  "EventReasonOrDefault f = (if EventReason f \<noteq> [] then EventReason f else FindingReason f)"

record request =
  ReqRunID :: string
  ReqAgent :: run_agent
  ReqCall :: tool_call
  ReqApproved :: bool
  ReqTool :: tool
  ReqExecutor :: "tool_executor option"
  ReqReservation :: "reservation option"
  ReqCallCount :: int
  ReqSameInputCalls :: int
  ReqTotalCalls :: int

section \<open>The engine\<close>

datatype tool_event =
    ToolDenied string string string string
  | ToolCalled string string int
  | ToolReturned string string string
  | DenyBreakerTripped string int int

datatype audit_event = PolicyDenied resource string | ToolInvoked resource string

text \<open>What dispatch changes: the budget of the run, the breaker, the decisions, the tools loaded and the compactions asked for, the world, and what it emitted.\<close>

record dispatch_state =
  DTracker :: tracker
  DBreaker :: "breaker option"
  DApprovals :: approval_store
  DLoaded :: "string \<Rightarrow> string list"
  DCompact :: "string list"
  DWorld :: world
  DEvents :: "tool_event list"
  DAudits :: "audit_event list"

type_synonym inspector = "request \<Rightarrow> dispatch_state \<Rightarrow> dispatch_state \<times> request \<times> (go_error + finding)"

record tool_invocation =
  InvAgent :: string
  InvTool :: string
  InvSideEffect :: side_effect_level
  InvInput :: bytes
  InvCallCount :: int
  InvSameInputCalls :: int
  InvTotalCalls :: int
  InvMetadata :: "(string \<times> string) list"

text \<open>The catalog of deferred tools: the decoded requests of the meta tools, a search with its encoded answer, and the entries of names with theirs.\<close>

record catalog =
  DecodeSearch :: "bytes \<Rightarrow> go_error + string \<times> int"
  SearchPayload :: "string \<Rightarrow> int \<Rightarrow> go_error + bytes"
  DecodeNames :: "bytes \<Rightarrow> go_error + string list"
  LoadEntries :: "string list \<Rightarrow> go_error + string list \<times> (go_error + bytes)"

record tool_engine =
  EScenario :: scenario
  DoomLoopLimit :: int
  ERunner :: runner
  EJson :: tool_json
  ErrorText :: "go_error \<Rightarrow> string"
  Sprintf :: "formatted \<Rightarrow> string"
  EncodeResult :: "call_result \<Rightarrow> go_error + bytes"
  ValidateSchema :: "bytes \<Rightarrow> bytes \<Rightarrow> go_error option"
  RepairNote :: "string \<Rightarrow> string \<Rightarrow> string"
  EGate :: "gate option"
  Evaluator :: "evaluator option"
  EPolicy :: "(principal \<Rightarrow> resource \<Rightarrow> go_error option) option"
  EGovernance :: "(string \<Rightarrow> tool_invocation \<Rightarrow> go_error option) option"
  Registry :: "(tool \<Rightarrow> go_error + tool_executor option) option"
  Orchestrator :: "(approval_store \<Rightarrow> string \<Rightarrow> string \<Rightarrow> bytes \<Rightarrow> bool \<Rightarrow> go_error + decision) option"
  HasAudit :: bool
  Prepended :: "inspector list"
  Appended :: "inspector list"
  ECatalog :: "catalog option"
  MaskTurns :: "string \<Rightarrow> int option"
  CompactPayload :: "go_error + bytes"
  LetterOrDigit :: "rune \<Rightarrow> bool"
  DecodeDelegation :: "bytes \<Rightarrow> go_error + string \<times> bytes"
  EncodeAnswer :: "string \<Rightarrow> string \<Rightarrow> go_error + bytes"

text \<open>What dispatch reads from its context besides \<open>gctx\<close>: the frozen step, the depth of delegation and full trust.\<close>

record dispatch_ctx =
  BaseCtx :: gctx
  StepCtx :: "sampling_step option"
  DelegationDepth :: int
  TrustFull :: bool

definition emit :: "tool_event \<Rightarrow> dispatch_state \<Rightarrow> dispatch_state" where
  "emit e d = d\<lparr>DEvents := DEvents d @ [e]\<rparr>"

definition recordAudit :: "tool_engine \<Rightarrow> audit_event \<Rightarrow> dispatch_state \<Rightarrow> dispatch_state" where
  "recordAudit E a d = (if HasAudit E then d\<lparr>DAudits := DAudits d @ [a]\<rparr> else d)"

definition agentAllowsTool :: "run_agent \<Rightarrow> string \<Rightarrow> bool" where
  "agentAllowsTool agent tool = list_ex (\<lambda>allowed. allowed = tool) (AgentTools agent)"

definition isCatalogMetaTool :: "string \<Rightarrow> bool" where
  "isCatalogMetaTool name \<longleftrightarrow> name = ''search_tools'' \<or> name = ''load_tool_schemas''"

definition isFrameworkMetaTool :: "string \<Rightarrow> bool" where
  "isFrameworkMetaTool name \<longleftrightarrow> isCatalogMetaTool name \<or> name = ''compact_context''"

definition toolResource :: "run_agent \<Rightarrow> tool_call \<Rightarrow> tool option \<Rightarrow> resource" where
  "toolResource agent call t = (case t of
       None \<Rightarrow> \<lparr>ResourceType = ''tool'', ResourceID = CallName call, ResourceMetadata = [(''agent'', AgentName agent)]\<rparr>
     | Some t \<Rightarrow> SecurityResource (CallName call) t [(''agent'', AgentName agent)])"

definition toolOutcome :: "call_result \<Rightarrow> string" where
  "toolOutcome r = (if ResError r \<noteq> [] then ''error'' else ''success'')"

definition firstPositive2 :: "int \<Rightarrow> int \<Rightarrow> int" where
  "firstPositive2 a b = (if 0 < a then a else if 0 < b then b else 0)"

definition maxAttempts :: "tool_engine \<Rightarrow> run_agent \<Rightarrow> int" where
  "maxAttempts E agent = firstPositive2 (RetryLimit agent) (RtMaxRetries (Runtime (EScenario E))) + 1"

definition delegateToolName :: "tool_engine \<Rightarrow> string \<Rightarrow> string" where
  "delegateToolName E name = ''delegate_'' @
     string_of_runes (map (\<lambda>r. if r = byte (CHR ''_'') \<or> r = byte (CHR ''-'') \<or> LetterOrDigit E r then r else byte (CHR ''_'')) (runes name))"

fun delegate_among :: "tool_engine \<Rightarrow> string list \<Rightarrow> string \<Rightarrow> string option" where
  "delegate_among E [] tool = None"
| "delegate_among E (name # names) tool =
     (if delegateToolName E name = tool \<and> map_of (Agents (EScenario E)) name \<noteq> None then Some name else delegate_among E names tool)"

definition delegateTarget :: "tool_engine \<Rightarrow> run_agent \<Rightarrow> string \<Rightarrow> string option" where
  "delegateTarget E agent tool = delegate_among E (SubAgents agent) tool"

section \<open>Settling the reservation of a request\<close>

definition settle_request :: "settlement \<Rightarrow> request \<Rightarrow> dispatch_state \<Rightarrow> dispatch_state \<times> request" where
  "settle_request s req d = (case ReqReservation req of
       None \<Rightarrow> (d, req)
     | Some r \<Rightarrow> (let (r', t') = settle s r (DTracker d) in (d\<lparr>DTracker := t'\<rparr>, req\<lparr>ReqReservation := Some r'\<rparr>)))"

section \<open>The gates\<close>

definition allow :: "request \<Rightarrow> dispatch_state \<Rightarrow> dispatch_state \<times> request \<times> (go_error + finding)" where
  "allow req d = (d, req, Inr AllowFinding)"

definition deny_with :: "finding \<Rightarrow> request \<Rightarrow> dispatch_state \<Rightarrow> dispatch_state \<times> request \<times> (go_error + finding)" where
  "deny_with f req d = (d, req, Inr f)"

definition inspectAgentWhitelist :: "tool_engine \<Rightarrow> inspector" where
  "inspectAgentWhitelist E req =
     (if \<not> agentAllowsTool (ReqAgent req) (CallName (ReqCall req)) \<and> \<not> isFrameworkMetaTool (CallName (ReqCall req))
      then deny_with (Deny [] ''tool is not in agent whitelist'') req else allow req)"

definition inspectScenarioDeclaration :: "tool_engine \<Rightarrow> inspector" where
  "inspectScenarioDeclaration E req = (case map_of (Tools (EScenario E)) (CallName (ReqCall req)) of
       None \<Rightarrow> deny_with (Deny [] ''tool is not declared in scenario'') req
     | Some t \<Rightarrow> allow (req\<lparr>ReqTool := (if ToolName t = [] then t\<lparr>ToolName := CallName (ReqCall req)\<rparr> else t)\<rparr>))"

definition inspectInputSchema :: "tool_engine \<Rightarrow> inspector" where
  "inspectInputSchema E req =
     (let rt = Runtime (EScenario E); enabled = ValidateToolInput rt \<or> \<not> DisableToolInputValidation rt in
      case ValidateInput (ValidateSchema E) enabled (ReqTool req) (CallInput (ReqCall req)) of
        None \<Rightarrow> allow req
      | Some e \<Rightarrow>
          (let note = RepairNote E (ReqRunID req) (CallID (ReqCall req)) in
           deny_with (Deny [] (if note = [] then ErrorText E e else ErrorText E e @ '' (note: '' @ note @ '')'')) req))"

definition inspectApprovalCache :: "tool_engine \<Rightarrow> string \<Rightarrow> bool \<Rightarrow> inspector" where
  "inspectApprovalCache E runID approved req d =
     (case Orchestrator E of
        None \<Rightarrow> allow req d
      | Some decide \<Rightarrow>
          if approved then allow req d
          else (case decide (DApprovals d) runID (CallName (ReqCall req)) (CallInput (ReqCall req)) False of
              Inl e \<Rightarrow> (d, req, Inl e)
            | Inr dec \<Rightarrow>
                if dec = DecisionDeny
                then deny_with ((Deny ''approval_cache'' ''tool approval denied (cached)'')\<lparr>NoteApprovalDeny := True\<rparr>) req d
                else allow req d))"

definition reason_text :: "tool_engine \<Rightarrow> reason \<Rightarrow> string" where
  "reason_text E r = (case r of
       Reason msg \<Rightarrow> msg
     | UnsupportedPolicy p \<Rightarrow> Sprintf E (''unsupported approval policy %q'', [p])
     | ReasonOfError e \<Rightarrow> ErrorText E e)"

definition inspectApprovalGate :: "tool_engine \<Rightarrow> inspector" where
  "inspectApprovalGate E req = (case DenialWithoutGate (ReqTool req) (EGate E \<noteq> None) (ReqApproved req) of
       Some r \<Rightarrow> deny_with ((Deny [] (reason_text E r))\<lparr>NoteApprovalDeny := True\<rparr>) req
     | None \<Rightarrow> allow req)"

definition inspectExecutorRegistry :: "tool_engine \<Rightarrow> inspector" where
  "inspectExecutorRegistry E req =
     (if Registry E = None then deny_with (Deny [] ''tool executor registry is not configured'') req else allow req)"

text \<open>The engine's \<^verbatim>\<open>authorizeTool\<close>; a refusal is audited.\<close>

definition engine_authorizeTool :: "tool_engine \<Rightarrow> gctx \<Rightarrow> resource \<Rightarrow> dispatch_state \<Rightarrow> dispatch_state \<times> go_error option" where
  "engine_authorizeTool E ctx resource d = (case EPolicy E of
       None \<Rightarrow> (d, None)
     | Some authorize \<Rightarrow>
         (case RequirePrincipal ctx of
            Inl _ \<Rightarrow> (recordAudit E (PolicyDenied resource (ErrorText E ErrUnauthenticated)) d, Some ErrUnauthenticated)
          | Inr p \<Rightarrow> (case authorize p resource of
                None \<Rightarrow> (d, None)
              | Some e \<Rightarrow> (recordAudit E (PolicyDenied resource (ErrorText E e)) d, Some e))))"

definition inspectSecurity :: "tool_engine \<Rightarrow> gctx \<Rightarrow> inspector" where
  "inspectSecurity E ctx req d =
     (case engine_authorizeTool E ctx (toolResource (ReqAgent req) (ReqCall req) (Some (ReqTool req))) d of
        (d1, None) \<Rightarrow> allow req d1
      | (d1, Some e) \<Rightarrow> deny_with ((Deny [] ''tool invocation unauthorized'')\<lparr>EventReason := ErrorText E e\<rparr>) req d1)"

definition inspectExecutorResolve :: "tool_engine \<Rightarrow> inspector" where
  "inspectExecutorResolve E req = (case Registry E of
       None \<Rightarrow> deny_with (Deny [] ''tool executor is not registered'') req
     | Some resolve \<Rightarrow>
         (case resolve (ReqTool req) of
            Inl e \<Rightarrow> deny_with (Deny [] (''resolve tool executor: '' @ ErrorText E e)) req
          | Inr None \<Rightarrow> deny_with (Deny [] ''tool executor is not registered'') req
          | Inr (Some x) \<Rightarrow> allow (req\<lparr>ReqExecutor := Some x\<rparr>)))"

text \<open>The kind of a budget denial is read from its text; the prefix stands before the first verb of the format.\<close>

definition denial_kind :: "formatted \<Rightarrow> string" where
  "denial_kind denial = (if has_prefix (fst denial) ''doom-loop'' then ''doom_loop'' else ''rate_cap'')"

definition inspectExecutionBudget :: "tool_engine \<Rightarrow> inspector" where
  "inspectExecutionBudget E req d =
     (case reserveToolCall (EJson E) (CallName (ReqCall req)) (CallInput (ReqCall req)) (DoomLoopLimit E) (ToolRateCap (ReqTool req)) (DTracker d) of
        (t, Inl denial) \<Rightarrow> deny_with (Deny (denial_kind denial) (Sprintf E denial)) req (d\<lparr>DTracker := t\<rparr>)
      | (t, Inr (r, c)) \<Rightarrow>
          allow (req\<lparr>ReqReservation := Some r, ReqCallCount := CountByName c, ReqSameInputCalls := CountBySameInput c,
            ReqTotalCalls := CountTotal c\<rparr>) (d\<lparr>DTracker := t\<rparr>))"

definition authorizeGovernanceTool :: "tool_engine \<Rightarrow> string \<Rightarrow> run_agent \<Rightarrow> tool \<Rightarrow> tool_call \<Rightarrow> int \<Rightarrow> int \<Rightarrow> int \<Rightarrow> go_error option" where
  "authorizeGovernanceTool E runID agent t call callCount sameInputCalls totalCalls = (case EGovernance E of
       None \<Rightarrow> None
     | Some authorize \<Rightarrow> authorize runID \<lparr>InvAgent = AgentName agent, InvTool = CallName call, InvSideEffect = ToolSideEffect t,
         InvInput = CallInput call, InvCallCount = callCount, InvSameInputCalls = sameInputCalls, InvTotalCalls = totalCalls,
         InvMetadata = ToolMetadata t\<rparr>)"

definition governanceBlockError :: "string \<Rightarrow> string" where
  "governanceBlockError msg =
     (let deniedPrefix = ''governance: denied: '' in
      ''tool invocation blocked by governance: '' @ (if has_prefix msg deniedPrefix then drop (length deniedPrefix) msg else msg))"

definition inspectGovernance :: "tool_engine \<Rightarrow> string \<Rightarrow> inspector" where
  "inspectGovernance E runID req d =
     (case authorizeGovernanceTool E runID (ReqAgent req) (ReqTool req) (ReqCall req) (ReqCallCount req) (ReqSameInputCalls req) (ReqTotalCalls req) of
        None \<Rightarrow> allow req d
      | Some e \<Rightarrow>
          (let (d1, req1) = settle_request Attempted req d;
               d2 = recordAudit E (PolicyDenied (toolResource (ReqAgent req) (ReqCall req) (Some (ReqTool req))) (ErrorText E e)) d1
           in deny_with ((Deny [] (governanceBlockError (ErrorText E e)))\<lparr>EventReason := ErrorText E e\<rparr>) req1 d2))"

definition builtinToolInspectors :: "tool_engine \<Rightarrow> gctx \<Rightarrow> string \<Rightarrow> bool \<Rightarrow> inspector list" where
  "builtinToolInspectors E ctx runID approved =
     [inspectAgentWhitelist E, inspectScenarioDeclaration E, inspectInputSchema E, inspectApprovalCache E runID approved,
      inspectApprovalGate E, inspectExecutorRegistry E, inspectSecurity E ctx, inspectExecutorResolve E,
      inspectExecutionBudget E, inspectGovernance E runID]"

definition toolInspectorChain :: "tool_engine \<Rightarrow> gctx \<Rightarrow> string \<Rightarrow> bool \<Rightarrow> inspector list" where
  "toolInspectorChain E ctx runID approved = Prepended E @ builtinToolInspectors E ctx runID approved @ Appended E"

fun Chain_Inspect :: "inspector list \<Rightarrow> inspector" where
  "Chain_Inspect [] req d = allow req d"
| "Chain_Inspect (i # is) req d =
     (case i req d of
        (d1, req1, Inl e) \<Rightarrow> (d1, req1, Inl e)
      | (d1, req1, Inr f) \<Rightarrow> if Verdict f \<noteq> VerdictAllow then (d1, req1, Inr f) else Chain_Inspect is req1 d1)"

section \<open>The deny breaker\<close>

definition noteApprovalDeny :: "string \<Rightarrow> string \<Rightarrow> dispatch_state \<Rightarrow> dispatch_state \<times> go_error option" where
  "noteApprovalDeny runID tool d = (case DBreaker d of
       None \<Rightarrow> (d, None)
     | Some b \<Rightarrow>
         (let (b1, tripped, n) = RecordDeny runID b; d1 = d\<lparr>DBreaker := Some b1\<rparr> in
          if \<not> tripped then (d1, None)
          else (emit (DenyBreakerTripped tool n (BreakerLimit b)) d1, Some (TripError (BreakerLimit b) n))))"

text \<open>\<open>pending\<close> is the first pending tool call of the run's checkpoint, if the run loads and has one.\<close>

definition RememberHITLReject :: "tool_json \<Rightarrow> string \<Rightarrow> (string \<times> bytes) option \<Rightarrow> dispatch_state \<Rightarrow> dispatch_state" where
  "RememberHITLReject J runID pending d =
     (if runID = [] then d
      else (case pending of
          Some (tool, input) \<Rightarrow> fst (noteApprovalDeny runID tool (d\<lparr>DApprovals := RememberDeny J runID tool input (DApprovals d)\<rparr>))
        | None \<Rightarrow> fst (noteApprovalDeny runID [] d)))"

section \<open>Meta tools\<close>

definition selfCompactEnabled :: "tool_engine \<Rightarrow> run_agent \<Rightarrow> bool" where
  "selfCompactEnabled E agent \<longleftrightarrow> ECatalog E \<noteq> None \<or> (case MaskTurns E (AgentLLM agent) of None \<Rightarrow> False | Some n \<Rightarrow> 0 < n)"

definition output_of :: "tool_call \<Rightarrow> go_error + bytes \<Rightarrow> go_error + call_result" where
  "output_of call payload = (case payload of
       Inl e \<Rightarrow> Inl e | Inr raw \<Rightarrow> Inr \<lparr>ResTool = CallName call, ResOutput = raw, ResError = []\<rparr>)"

definition error_of :: "tool_call \<Rightarrow> string \<Rightarrow> call_result" where
  "error_of call msg = \<lparr>ResTool = CallName call, ResOutput = [], ResError = msg\<rparr>"

text \<open>The result of the meta tool if the call is one.\<close>

definition dispatchCatalogMetaTool ::
  "tool_engine \<Rightarrow> string \<Rightarrow> run_agent \<Rightarrow> tool_call \<Rightarrow> dispatch_state \<Rightarrow> dispatch_state \<times> (go_error + call_result) option" where
  "dispatchCatalogMetaTool E runID agent call d =
     (if CallName call = ''compact_context'' \<and> selfCompactEnabled E agent
      then (d\<lparr>DCompact := List.insert runID (DCompact d)\<rparr>, Some (output_of call (CompactPayload E)))
      else (case ECatalog E of
          None \<Rightarrow> (d, None)
        | Some cat \<Rightarrow>
            if CallName call = ''search_tools'' then
              (case DecodeSearch cat (CallInput call) of
                 Inl e \<Rightarrow> (d, Some (Inr (error_of call (''invalid search_tools input: '' @ ErrorText E e))))
               | Inr (query, limit) \<Rightarrow> (d, Some (output_of call (SearchPayload cat query limit))))
            else if CallName call = ''load_tool_schemas'' then
              (case DecodeNames cat (CallInput call) of
                 Inl e \<Rightarrow> (d, Some (Inr (error_of call (''invalid load_tool_schemas input: '' @ ErrorText E e))))
               | Inr names \<Rightarrow>
                   (case LoadEntries cat names of
                      Inl e \<Rightarrow> (d, Some (Inr (error_of call (ErrorText E e))))
                    | Inr (loaded, payload) \<Rightarrow>
                        (d\<lparr>DLoaded := (DLoaded d)(runID := DLoaded d runID @ filter (\<lambda>n. n \<noteq> []) (map trim_space loaded))\<rparr>,
                         Some (output_of call payload))))
            else (d, None)))"

section \<open>Execution with retries\<close>

fun tool_attempts ::
  "nat \<Rightarrow> int \<Rightarrow> tool_engine \<Rightarrow> string \<Rightarrow> run_agent \<Rightarrow> tool_call \<Rightarrow> tool_executor \<Rightarrow> dispatch_state \<Rightarrow> dispatch_state \<times> (go_error + call_result)" where
  "tool_attempts 0 attempt E runID agent call x d = (d, Inr \<lparr>ResTool = [], ResOutput = [], ResError = []\<rparr>)"
| "tool_attempts (Suc n) attempt E runID agent call x d =
     (case ctx_err (ERunner E) (DWorld d) of
        (w1, Some e) \<Rightarrow> (d\<lparr>DWorld := w1\<rparr>, Inl e)
      | (w1, None) \<Rightarrow>
          (let d1 = emit (ToolCalled (CallName call) (CallID call) attempt) (d\<lparr>DWorld := w1\<rparr>);
               (w2, ending) = invokeToolExecutor x runID (AgentName agent) call w1;
               d2 = d1\<lparr>DWorld := w2\<rparr>
           in case safecall_Invoke ''runtime: tool execute'' ending of
                Inr result \<Rightarrow> (d2, Inr result)
              | Inl e \<Rightarrow>
                  (let (w3, now) = ctx_err (ERunner E) w2; d3 = d2\<lparr>DWorld := w3\<rparr> in
                   if \<not> Retryable now e \<or> n = 0 then (d3, Inl e)
                   else (case retryDelay (ERunner E) w3 of
                       (w4, Some e') \<Rightarrow> (d3\<lparr>DWorld := w4\<rparr>, Inl e')
                     | (w4, None) \<Rightarrow> tool_attempts n (attempt + 1) E runID agent call x (d3\<lparr>DWorld := w4\<rparr>)))))"

definition executeToolWithRetry ::
  "tool_engine \<Rightarrow> string \<Rightarrow> run_agent \<Rightarrow> tool \<Rightarrow> tool_call \<Rightarrow> tool_executor \<Rightarrow> dispatch_state \<Rightarrow> dispatch_state \<times> (go_error + call_result)" where
  "executeToolWithRetry E runID agent t call x d =
     tool_attempts (nat (if \<not> AutoRetrySafe t then 1 else maxAttempts E agent)) 1 E runID agent call x d"

section \<open>Delegation\<close>

text \<open>
  \<open>answer\<close> is the engine's own \<^verbatim>\<open>answer\<close>: given the sub-agent, the prompt, the context and the state, its text or an
  error. It makes a tracker of its own, so the parent's is put back afterwards.
\<close>

type_synonym answerer = "dispatch_ctx \<Rightarrow> string \<Rightarrow> string \<Rightarrow> bytes \<Rightarrow> dispatch_state \<Rightarrow> dispatch_state \<times> (go_error + string)"

definition maxDelegationDepth :: int where
  "maxDelegationDepth = 8"

definition withDelegationDepth :: "dispatch_ctx \<Rightarrow> dispatch_ctx" where
  "withDelegationDepth c = c\<lparr>DelegationDepth := DelegationDepth c + 1\<rparr>"

definition persist_result :: "tool_engine \<Rightarrow> gctx \<Rightarrow> string \<Rightarrow> string \<Rightarrow> call_result \<Rightarrow> dispatch_state \<Rightarrow> dispatch_state \<times> go_error option" where
  "persist_result E ctx runID key result d =
     (let (w, err) = engine_saveStepOutput (ERunner E) ctx (StepOutputThreshold (Runtime (EScenario E))) runID key (EncodeResult E result) (DWorld d)
      in (d\<lparr>DWorld := w\<rparr>, err))"

definition delegated_result :: "tool_engine \<Rightarrow> string \<Rightarrow> tool_call \<Rightarrow> go_error + string \<Rightarrow> call_result" where
  "delegated_result E runID call answer_res = (case answer_res of
       Inl e \<Rightarrow> error_of call (case errors_as_paused e of
           Some _ \<Rightarrow> ''delegated sub-agent requested human approval, which is not supported inside a delegation call''
         | None \<Rightarrow> ErrorText E e)
     | Inr out \<Rightarrow> (case EncodeAnswer E runID out of
           Inl e \<Rightarrow> error_of call (ErrorText E e)
         | Inr raw \<Rightarrow> \<lparr>ResTool = CallName call, ResOutput = raw, ResError = []\<rparr>))"

definition denied_call :: "run_agent \<Rightarrow> tool_call \<Rightarrow> string \<Rightarrow> string \<Rightarrow> string \<Rightarrow> dispatch_state \<Rightarrow> dispatch_state \<times> call_result" where
  "denied_call agent call reason event_reason kind d =
     (emit (ToolDenied (AgentName agent) (CallName call) event_reason kind) d, error_of call reason)"

definition dispatchSubAgent ::
  "tool_engine \<Rightarrow> answerer \<Rightarrow> dispatch_ctx \<Rightarrow> string \<Rightarrow> run_agent \<Rightarrow> string \<Rightarrow> tool_call \<Rightarrow> bool \<Rightarrow> dispatch_state
     \<Rightarrow> dispatch_state \<times> call_result" where
  "dispatchSubAgent E answer c runID parent subAgent call skipPersist d =
     (case (if CallInput call = [] then Inr ([], []) else DecodeDelegation E (CallInput call)) of
        Inl e \<Rightarrow> (let msg = ''invalid delegation input: '' @ ErrorText E e in denied_call parent call msg msg [] d)
      | Inr (prompt, context) \<Rightarrow>
          if trim_space prompt = []
          then denied_call parent call ''delegation prompt is required'' ''delegation prompt is required'' [] d
          else
            (let d1 = emit (ToolCalled (CallName call) (CallID call) 1) d;
                 (d2, res) = answer (withDelegationDepth c) subAgent prompt context (d1\<lparr>DTracker := newToolCallTracker\<rparr>);
                 d3 = d2\<lparr>DTracker := DTracker d\<rparr>;
                 result = delegated_result E runID call res;
                 (d4, result') = (if skipPersist then (d3, result)
                   else (case persist_result E (BaseCtx c) runID (''agent.'' @ subAgent @ ''.'' @ CallID call) result d3 of
                       (d5, Some e) \<Rightarrow> (d5, if ResError result = [] then result\<lparr>ResError := ''persist delegated output: '' @ ErrorText E e\<rparr> else result)
                     | (d5, None) \<Rightarrow> (d5, result)))
             in (emit (ToolReturned (CallName call) (CallID call) (ResError result')) d4, result')))"

section \<open>Dispatch\<close>

record dispatch_options =
  OptApproved :: bool
  OptSkipPersist :: bool

definition settle_tracker :: "settlement \<Rightarrow> reservation \<Rightarrow> dispatch_state \<Rightarrow> dispatch_state" where
  "settle_tracker s r d = d\<lparr>DTracker := snd (settle s r (DTracker d))\<rparr>"

definition dispatch_delegate ::
  "tool_engine \<Rightarrow> answerer \<Rightarrow> dispatch_ctx \<Rightarrow> string \<Rightarrow> run_agent \<Rightarrow> string \<Rightarrow> tool_call \<Rightarrow> dispatch_options \<Rightarrow> dispatch_state
     \<Rightarrow> dispatch_state \<times> (go_error + call_result)" where
  "dispatch_delegate E answer c runID agent subAgent call opts d =
     (if maxDelegationDepth \<le> DelegationDepth c then
        (let msg = Sprintf E (''delegation depth limit (%d) exceeded'', [int_text maxDelegationDepth]); (d1, r) = denied_call agent call msg msg [] d
         in (d1, Inr r))
      else (case engine_authorizeTool E (BaseCtx c) (toolResource agent call None) d of
          (d1, Some e) \<Rightarrow> (let (d2, r) = denied_call agent call ''tool invocation unauthorized'' (ErrorText E e) [] d1 in (d2, Inr r))
        | (d1, None) \<Rightarrow>
            (case reserveToolCall (EJson E) (CallName call) (CallInput call) (DoomLoopLimit E) 0 (DTracker d1) of
               (t, Inl denial) \<Rightarrow>
                 (let (d2, r) = denied_call agent call (Sprintf E denial) (Sprintf E denial) (denial_kind denial) (d1\<lparr>DTracker := t\<rparr>) in (d2, Inr r))
             | (t, Inr (res, n)) \<Rightarrow>
                 (let d2 = d1\<lparr>DTracker := t\<rparr>; delegateTool = zero_tool\<lparr>ToolName := CallName call, ToolSideEffect := SideEffectRead\<rparr> in
                  case authorizeGovernanceTool E runID agent delegateTool call (CountByName n) (CountBySameInput n) (CountTotal n) of
                    Some e \<Rightarrow>
                      (let (d3, r) = denied_call agent call (governanceBlockError (ErrorText E e)) (ErrorText E e) [] (settle_tracker Attempted res d2)
                       in (d3, Inr r))
                  | None \<Rightarrow>
                      (let (d3, result) = dispatchSubAgent E answer c runID agent subAgent call (OptSkipPersist opts) d2
                       in (settle_tracker (if ResError result = [] then Succeeded else Attempted) res d3, Inr result))))))"

text \<open>What follows a finding that is not an allow.\<close>

definition settle_denied ::
  "run_agent \<Rightarrow> string \<Rightarrow> tool_call \<Rightarrow> request \<Rightarrow> finding \<Rightarrow> dispatch_state \<Rightarrow> dispatch_state \<times> (go_error + call_result)" where
  "settle_denied agent runID call req f d =
     (let (d1, _) = settle_request Attempted req d;
          f1 = (if Verdict f = VerdictRequireApproval
                then f\<lparr>FindingReason := (if FindingReason f = [] then ''tool requires approval'' else FindingReason f),
                       FindingKind := (if FindingKind f = [] then ''approval'' else FindingKind f), NoteApprovalDeny := True\<rparr> else f);
          f2 = (if FindingReason f1 = [] then f1\<lparr>FindingReason := ''tool call denied''\<rparr> else f1);
          (d2, result) = denied_call agent call (FindingReason f2) (EventReasonOrDefault f2) (FindingKind f2) d1
      in if NoteApprovalDeny f2
         then (case noteApprovalDeny runID (CallName call) d2 of (d3, Some e) \<Rightarrow> (d3, Inl e) | (d3, None) \<Rightarrow> (d3, Inr result))
         else (d2, Inr result))"

definition context_error :: "go_error \<Rightarrow> bool" where
  "context_error e \<longleftrightarrow> errors_is e (ErrContext Canceled) \<or> errors_is e (ErrContext DeadlineExceeded)"

definition reset_breaker :: "string \<Rightarrow> dispatch_state \<Rightarrow> dispatch_state" where
  "reset_breaker runID d = d\<lparr>DBreaker := map_option (RecordAllow runID) (DBreaker d)\<rparr>"

text \<open>What follows an execution that ended with a result: the settlement, the breaker, the saved output, the audit and the event.\<close>

definition finish_call ::
  "tool_engine \<Rightarrow> gctx \<Rightarrow> string \<Rightarrow> run_agent \<Rightarrow> tool_call \<Rightarrow> dispatch_options \<Rightarrow> request \<Rightarrow> call_result \<Rightarrow> dispatch_state
     \<Rightarrow> dispatch_state \<times> (go_error + call_result)" where
  "finish_call E ctx runID agent call opts req result d =
     (let resource = toolResource agent call (Some (ReqTool req));
          d1 = (if ResError result = [] then reset_breaker runID (fst (settle_request Succeeded req d)) else fst (settle_request Attempted req d));
          (d2, result') = (if OptSkipPersist opts then (d1, result)
            else (case persist_result E ctx runID (''tool.'' @ CallID call) result d1 of
                (d3, None) \<Rightarrow> (d3, result)
              | (d3, Some e) \<Rightarrow> (d3, if ResError result = [] then result\<lparr>ResError := ''persist tool output: '' @ ErrorText E e\<rparr> else result)))
      in (emit (ToolReturned (CallName call) (CallID call) (ResError result')) (recordAudit E (ToolInvoked resource (toolOutcome result')) d2),
          Inr result'))"

definition new_request :: "string \<Rightarrow> run_agent \<Rightarrow> tool_call \<Rightarrow> bool \<Rightarrow> request" where
  "new_request runID agent call approved = \<lparr>ReqRunID = runID, ReqAgent = agent, ReqCall = call, ReqApproved = approved, ReqTool = zero_tool,
     ReqExecutor = None, ReqReservation = None, ReqCallCount = 0, ReqSameInputCalls = 0, ReqTotalCalls = 0\<rparr>"

text \<open>
  The gated branch. An executor that the chain left nil would make the call panic inside \<^verbatim>\<open>safecall\<close>, with
  the error below; the built-in gates always set it.
\<close>

definition nil_executor :: tool_executor where
  "nil_executor = PlainExecutor (\<lambda>runID agent call w. (w, CallPanics ''invalid memory address or nil pointer dereference''))"

definition dispatch_gated ::
  "tool_engine \<Rightarrow> dispatch_ctx \<Rightarrow> string \<Rightarrow> run_agent \<Rightarrow> tool_call \<Rightarrow> dispatch_options \<Rightarrow> dispatch_state \<Rightarrow> dispatch_state \<times> (go_error + call_result)" where
  "dispatch_gated E c runID agent call opts d =
     (case Chain_Inspect (toolInspectorChain E (BaseCtx c) runID (OptApproved opts)) (new_request runID agent call (OptApproved opts \<or> TrustFull c)) d of
        (d1, req, Inl e) \<Rightarrow> (d1, Inl e)
      | (d1, req, Inr f) \<Rightarrow>
          if Verdict f \<noteq> VerdictAllow then settle_denied agent runID call req f d1
          else (case executeToolWithRetry E runID agent (ReqTool req) call (case ReqExecutor req of Some x \<Rightarrow> x | None \<Rightarrow> nil_executor) d1 of
              (d2, Inl e) \<Rightarrow>
                if context_error e then (fst (settle_request Released req d2), Inl e)
                else finish_call E (BaseCtx c) runID agent call opts req (error_of call (ErrorText E e)) d2
            | (d2, Inr result) \<Rightarrow> finish_call E (BaseCtx c) runID agent call opts req result d2))"

definition dispatchToolWithOptions ::
  "tool_engine \<Rightarrow> answerer \<Rightarrow> dispatch_ctx \<Rightarrow> string \<Rightarrow> run_agent \<Rightarrow> tool_call \<Rightarrow> dispatch_options \<Rightarrow> dispatch_state
     \<Rightarrow> dispatch_state \<times> (go_error + call_result)" where
  "dispatchToolWithOptions E answer c runID agent call opts d =
     (if trim_space (CallID call) = [] then (d, Inl (Errorf ''runtime: tool call %q is missing a stable id'' [CallName call] None))
      else (case dispatchCatalogMetaTool E runID agent call d of
          (d1, Some res) \<Rightarrow> (d1, res)
        | (d1, None) \<Rightarrow>
            if (case StepCtx c of None \<Rightarrow> False | Some step \<Rightarrow> Step_Frozen step \<and> \<not> Step_Allows step (CallName call))
            then (let msg = ''tool was not advertised in this sampling step''; (d2, r) = denied_call agent call msg msg ''step_context'' d1 in (d2, Inr r))
            else (case delegateTarget E agent (CallName call) of
                Some subAgent \<Rightarrow> dispatch_delegate E answer c runID agent subAgent call opts d1
              | None \<Rightarrow> dispatch_gated E c runID agent call opts d1)))"

definition dispatchApprovedTool ::
  "tool_engine \<Rightarrow> answerer \<Rightarrow> dispatch_ctx \<Rightarrow> string \<Rightarrow> run_agent \<Rightarrow> tool_call \<Rightarrow> dispatch_state \<Rightarrow> dispatch_state \<times> (go_error + call_result)" where
  "dispatchApprovedTool E answer c runID agent call d =
     dispatchToolWithOptions E answer c runID agent call \<lparr>OptApproved = True, OptSkipPersist = False\<rparr> d"

section \<open>Stable call identities\<close>

definition stableToolCallID :: "tool_engine \<Rightarrow> string \<Rightarrow> int \<Rightarrow> nat \<Rightarrow> tool_call \<Rightarrow> string" where
  "stableToolCallID E runID logicalStep index call =
     (let sep = [CHR 0x1E];
          material = runID @ sep @ int_text logicalStep @ sep @ nat_text index @ sep @ CallName call @ sep @ canonicalJSON (EJson E) (CallInput call)
      in ''call_af_'' @ hex_encode (take 12 (sha256 material)))"

definition ensureToolCallIDs :: "tool_engine \<Rightarrow> string \<Rightarrow> int \<Rightarrow> tool_call list \<Rightarrow> tool_call list" where
  "ensureToolCallIDs E runID logicalStep calls =
     map (\<lambda>(index, call). if trim_space (CallID call) \<noteq> [] then call else call\<lparr>CallID := stableToolCallID E runID logicalStep index call\<rparr>)
       (enumerate 0 calls)"

definition toolIdempotencyKey :: "string \<Rightarrow> tool_call \<Rightarrow> string" where
  "toolIdempotencyKey runID call = runID @ '':'' @ CallID call"

end
