(* ===== verification/Tool_Gates.thy ===== *)
theory Tool_Gates
  imports Tool_Dispatch
begin

text \<open>
  What the dispatch of a tool call guarantees: a tool runs only when every gate allows it, and the reservation of a call
  is settled exactly once, unless an inspector of the host fails after the budget gate.
\<close>

section \<open>Host inspectors\<close>

text \<open>
  A host inspector may use the world and enrich the request: the declaration of the tool, its executor and the counts. It leaves alone
  who calls what in which run, whether the call was approved, the reservation, and the budgets and decisions of the engine.
\<close>

definition enriched :: "request \<Rightarrow> request \<Rightarrow> bool" where
  "enriched req req' \<longleftrightarrow> ReqRunID req' = ReqRunID req \<and> ReqAgent req' = ReqAgent req \<and> ReqCall req' = ReqCall req
     \<and> ReqApproved req' = ReqApproved req \<and> ReqReservation req' = ReqReservation req"

definition polite :: "inspector \<Rightarrow> bool" where
  "polite i \<longleftrightarrow> (\<forall>req d. \<exists>w req' res. i req d = (d\<lparr>DWorld := w\<rparr>, req', res) \<and> enriched req req')"

definition never_fails :: "inspector \<Rightarrow> bool" where
  "never_fails i \<longleftrightarrow> (\<forall>req d e. snd (snd (i req d)) \<noteq> Inl e)"

definition polite_hosts :: "tool_engine \<Rightarrow> bool" where
  "polite_hosts E \<longleftrightarrow> list_all polite (Prepended E) \<and> list_all polite (Appended E)"

section \<open>Chains\<close>

definition passed :: "dispatch_state \<times> request \<times> (go_error + finding) \<Rightarrow> bool" where
  "passed out = (case snd (snd out) of Inl e \<Rightarrow> False | Inr f \<Rightarrow> Verdict f = VerdictAllow)"

lemma passed_simps [simp]:
  "\<not> passed (d, req, Inl e)" "passed (d, req, Inr f) = (Verdict f = VerdictAllow)" "passed (allow req d)" "Verdict AllowFinding = VerdictAllow"
  by (simp_all add: passed_def allow_def AllowFinding_def)

lemma deny_not_passed [simp]:
  "passed (deny_with f req d) = (Verdict f = VerdictAllow)" "Verdict (Deny k r) = VerdictDeny"
  by (simp_all add: deny_with_def Deny_def)

lemma Chain_Cons:
  "Chain_Inspect (i # is) req d = (let out = i req d in if passed out then Chain_Inspect is (fst (snd out)) (fst out) else out)"
  by (auto simp: Let_def passed_def split: prod.splits sum.splits)

declare Chain_Inspect.simps(2) [simp del]

lemma Chain_append:
  "Chain_Inspect (is @ js) req d =
     (let out = Chain_Inspect is req d in if passed out then Chain_Inspect js (fst (snd out)) (fst out) else out)"
  by (induction "is" arbitrary: req d) (auto simp: Chain_Cons Let_def allow_def)

lemma Chain_polite:
  "list_all polite is \<Longrightarrow> \<exists>w req' res. Chain_Inspect is req d = (d\<lparr>DWorld := w\<rparr>, req', res) \<and> enriched req req'"
proof (induction "is" arbitrary: req d)
  case Nil
  have "Chain_Inspect [] req d = (d\<lparr>DWorld := DWorld d\<rparr>, req, Inr AllowFinding)" by (simp add: allow_def)
  then show ?case unfolding enriched_def by blast
next
  case (Cons i "is")
  obtain w req1 res where i: "i req d = (d\<lparr>DWorld := w\<rparr>, req1, res)" "enriched req req1"
    using Cons.prems unfolding list.pred_inject polite_def by metis
  obtain w' req2 res' where r: "Chain_Inspect is req1 (d\<lparr>DWorld := w\<rparr>) = (d\<lparr>DWorld := w'\<rparr>, req2, res')" "enriched req1 req2"
    using Cons.IH [of req1 "d\<lparr>DWorld := w\<rparr>"] Cons.prems by auto
  from i(2) r(2) have "enriched req req2" by (simp add: enriched_def)
  with i r show ?case by (auto simp: Chain_Cons Let_def)
qed

lemma Chain_never_fails: "list_all never_fails is \<Longrightarrow> snd (snd (Chain_Inspect is req d)) \<noteq> Inl e"
  by (induction "is" arbitrary: req d) (auto simp: Chain_Cons Let_def never_fails_def allow_def)

section \<open>What a passed gate means\<close>

definition declared_tool :: "tool_engine \<Rightarrow> tool_call \<Rightarrow> tool option" where
  "declared_tool E call = map_option (\<lambda>t. if ToolName t = [] then t\<lparr>ToolName := CallName call\<rparr> else t)
     (map_of (Tools (EScenario E)) (CallName call))"

definition schema_accepts :: "tool_engine \<Rightarrow> tool \<Rightarrow> bytes \<Rightarrow> bool" where
  "schema_accepts E t input \<longleftrightarrow>
     ValidateInput (ValidateSchema E) (ValidateToolInput (Runtime (EScenario E)) \<or> \<not> DisableToolInputValidation (Runtime (EScenario E))) t input = None"

definition not_cached_denied :: "tool_engine \<Rightarrow> approval_store \<Rightarrow> string \<Rightarrow> tool_call \<Rightarrow> bool" where
  "not_cached_denied E store runID call \<longleftrightarrow> (case Orchestrator E of None \<Rightarrow> True
     | Some decide \<Rightarrow> \<exists>dec. decide store runID (CallName call) (CallInput call) False = Inr dec \<and> dec \<noteq> DecisionDeny)"

definition policy_allows :: "tool_engine \<Rightarrow> gctx \<Rightarrow> resource \<Rightarrow> bool" where
  "policy_allows E ctx resource \<longleftrightarrow> (case EPolicy E of None \<Rightarrow> True
     | Some authorize \<Rightarrow> \<exists>p. RequirePrincipal ctx = Inr p \<and> authorize p resource = None)"

text \<open>Everything that must hold for a call to run: the ten gates in their order.\<close>

definition gates_pass :: "tool_engine \<Rightarrow> gctx \<Rightarrow> string \<Rightarrow> run_agent \<Rightarrow> tool_call \<Rightarrow> bool \<Rightarrow> bool \<Rightarrow> dispatch_state \<Rightarrow> bool" where
  "gates_pass E ctx runID agent call approved trusted d \<longleftrightarrow>
     (agentAllowsTool agent (CallName call) \<or> isFrameworkMetaTool (CallName call))
     \<and> (\<exists>t. declared_tool E call = Some t \<and> schema_accepts E t (CallInput call)
        \<and> (approved \<or> not_cached_denied E (DApprovals d) runID call)
        \<and> DenialWithoutGate t (EGate E \<noteq> None) (approved \<or> trusted) = None
        \<and> (\<exists>resolve x. Registry E = Some resolve \<and> resolve t = Inr (Some x))
        \<and> policy_allows E ctx (toolResource agent call (Some t))
        \<and> (\<exists>t1 r n. reserveToolCall (EJson E) (CallName call) (CallInput call) (DoomLoopLimit E) (ToolRateCap t) (DTracker d) = (t1, Inr (r, n))
           \<and> authorizeGovernanceTool E runID agent t call (CountByName n) (CountBySameInput n) (CountTotal n) = None))"

text \<open>A gate that allows: what it checked and what it changed.\<close>

lemma whitelist_passed:
  "passed (inspectAgentWhitelist E req d) \<Longrightarrow>
     inspectAgentWhitelist E req d = allow req d \<and> (agentAllowsTool (ReqAgent req) (CallName (ReqCall req)) \<or> isFrameworkMetaTool (CallName (ReqCall req)))"
  by (auto simp: inspectAgentWhitelist_def split: if_splits)

lemma declaration_passed:
  "passed (inspectScenarioDeclaration E req d) \<Longrightarrow>
     \<exists>t. declared_tool E (ReqCall req) = Some t \<and> inspectScenarioDeclaration E req d = allow (req\<lparr>ReqTool := t\<rparr>) d"
  by (auto simp: inspectScenarioDeclaration_def declared_tool_def split: option.splits)

lemma schema_passed:
  "passed (inspectInputSchema E req d) \<Longrightarrow>
     inspectInputSchema E req d = allow req d \<and> schema_accepts E (ReqTool req) (CallInput (ReqCall req))"
  by (auto simp: inspectInputSchema_def schema_accepts_def Let_def split: option.splits)

lemma cache_passed:
  "passed (inspectApprovalCache E runID approved req d) \<Longrightarrow>
     inspectApprovalCache E runID approved req d = allow req d \<and> (approved \<or> not_cached_denied E (DApprovals d) runID (ReqCall req))"
  by (auto simp: inspectApprovalCache_def not_cached_denied_def split: option.splits sum.splits if_splits)

lemma approval_passed:
  "passed (inspectApprovalGate E req d) \<Longrightarrow>
     inspectApprovalGate E req d = allow req d \<and> DenialWithoutGate (ReqTool req) (EGate E \<noteq> None) (ReqApproved req) = None"
  by (auto simp: inspectApprovalGate_def split: option.splits)

lemma registry_passed:
  "passed (inspectExecutorRegistry E req d) \<Longrightarrow> inspectExecutorRegistry E req d = allow req d"
  by (auto simp: inspectExecutorRegistry_def split: if_splits)

lemma security_passed:
  "passed (inspectSecurity E ctx req d) \<Longrightarrow>
     inspectSecurity E ctx req d = allow req d \<and> policy_allows E ctx (toolResource (ReqAgent req) (ReqCall req) (Some (ReqTool req)))"
  by (auto simp: inspectSecurity_def engine_authorizeTool_def policy_allows_def split: option.splits sum.splits)

lemma resolve_passed:
  "passed (inspectExecutorResolve E req d) \<Longrightarrow>
     \<exists>resolve x. Registry E = Some resolve \<and> resolve (ReqTool req) = Inr (Some x)
       \<and> inspectExecutorResolve E req d = allow (req\<lparr>ReqExecutor := Some x\<rparr>) d"
  by (auto simp: inspectExecutorResolve_def split: option.splits sum.splits)

lemma budget_passed:
  "passed (inspectExecutionBudget E req d) \<Longrightarrow>
     \<exists>t r n. reserveToolCall (EJson E) (CallName (ReqCall req)) (CallInput (ReqCall req)) (DoomLoopLimit E) (ToolRateCap (ReqTool req)) (DTracker d) = (t, Inr (r, n))
       \<and> inspectExecutionBudget E req d = allow (req\<lparr>ReqReservation := Some r, ReqCallCount := CountByName n, ReqSameInputCalls := CountBySameInput n,
            ReqTotalCalls := CountTotal n\<rparr>) (d\<lparr>DTracker := t\<rparr>)"
  by (auto simp: inspectExecutionBudget_def split: prod.splits sum.splits)

lemma governance_passed:
  "passed (inspectGovernance E runID req d) \<Longrightarrow>
     inspectGovernance E runID req d = allow req d
     \<and> authorizeGovernanceTool E runID (ReqAgent req) (ReqTool req) (ReqCall req) (ReqCallCount req) (ReqSameInputCalls req) (ReqTotalCalls req) = None"
  by (auto simp: inspectGovernance_def Let_def split: option.splits prod.splits)

section \<open>The budget of a request along the chain\<close>

definition no_reservation :: "dispatch_state \<Rightarrow> dispatch_state \<times> request \<times> (go_error + finding) \<Rightarrow> bool" where
  "no_reservation d out \<longleftrightarrow> DTracker (fst out) = DTracker d \<and> ReqReservation (fst (snd out)) = None \<and> DEvents (fst out) = DEvents d"

definition holds_reservation :: "tool_engine \<Rightarrow> tool_call \<Rightarrow> dispatch_state \<Rightarrow> dispatch_state \<times> request \<times> (go_error + finding) \<Rightarrow> bool" where
  "holds_reservation E call d out \<longleftrightarrow> DEvents (fst out) = DEvents d \<and>
     (\<exists>cap t1 r n. reserveToolCall (EJson E) (CallName call) (CallInput call) (DoomLoopLimit E) cap (DTracker d) = (t1, Inr (r, n))
        \<and> (DTracker (fst out) = t1 \<and> ReqReservation (fst (snd out)) = Some r
           \<or> DTracker (fst out) = snd (settle Attempted r t1) \<and> ReqReservation (fst (snd out)) = Some (fst (settle Attempted r t1)) \<and> \<not> passed out))"

lemma no_reservation_simps [simp]:
  "no_reservation d (allow req d') \<longleftrightarrow> DTracker d' = DTracker d \<and> ReqReservation req = None \<and> DEvents d' = DEvents d"
  "no_reservation d (deny_with f req d') \<longleftrightarrow> DTracker d' = DTracker d \<and> ReqReservation req = None \<and> DEvents d' = DEvents d"
  "no_reservation d (d', req, res) \<longleftrightarrow> DTracker d' = DTracker d \<and> ReqReservation req = None \<and> DEvents d' = DEvents d"
  by (simp_all add: no_reservation_def allow_def deny_with_def)

lemma recordAudit_simps [simp]:
  "DTracker (recordAudit E a d) = DTracker d" "DEvents (recordAudit E a d) = DEvents d" "DApprovals (recordAudit E a d) = DApprovals d"
  by (simp_all add: recordAudit_def)

text \<open>A gate before the budget.\<close>

definition early :: "inspector \<Rightarrow> bool" where
  "early i \<longleftrightarrow> (\<forall>req d. ReqReservation req = None \<longrightarrow> no_reservation d (i req d) \<and> ReqCall (fst (snd (i req d))) = ReqCall req)"

lemma early_gates:
  "early (inspectAgentWhitelist E)" "early (inspectScenarioDeclaration E)" "early (inspectInputSchema E)"
  "early (inspectApprovalCache E runID approved)" "early (inspectApprovalGate E)" "early (inspectExecutorRegistry E)"
  "early (inspectSecurity E ctx)" "early (inspectExecutorResolve E)"
  unfolding early_def
  by (auto simp: inspectAgentWhitelist_def inspectScenarioDeclaration_def inspectInputSchema_def inspectApprovalCache_def
      inspectApprovalGate_def inspectExecutorRegistry_def inspectSecurity_def engine_authorizeTool_def inspectExecutorResolve_def
      Let_def allow_def deny_with_def split: option.splits sum.splits)

lemma early_polite: assumes "polite i" shows "early i"
  unfolding early_def
proof (intro allI impI)
  fix req :: request and d :: dispatch_state
  assume r: "ReqReservation req = None"
  from assms obtain w req' res where "i req d = (d\<lparr>DWorld := w\<rparr>, req', res)" "enriched req req'" unfolding polite_def by metis
  with r show "no_reservation d (i req d) \<and> ReqCall (fst (snd (i req d))) = ReqCall req" by (simp add: enriched_def)
qed

lemma Chain_early: "list_all early is \<Longrightarrow> early (Chain_Inspect is)"
proof (induction "is")
  case Nil
  show ?case by (simp add: early_def allow_def)
next
  case (Cons i "is")
  then have i: "early i" and c: "early (Chain_Inspect is)" by simp_all
  show ?case unfolding early_def
  proof (intro allI impI)
    fix req :: request and d :: dispatch_state
    assume r: "ReqReservation req = None"
    from i r have 1: "no_reservation d (i req d)" "ReqCall (fst (snd (i req d))) = ReqCall req" by (simp_all add: early_def)
    then have "ReqReservation (fst (snd (i req d))) = None" by (simp add: no_reservation_def)
    with c have "no_reservation (fst (i req d)) (Chain_Inspect is (fst (snd (i req d))) (fst (i req d)))"
      "ReqCall (fst (snd (Chain_Inspect is (fst (snd (i req d))) (fst (i req d))))) = ReqCall (fst (snd (i req d)))"
      unfolding early_def by metis+
    with 1 show "no_reservation d (Chain_Inspect (i # is) req d) \<and> ReqCall (fst (snd (Chain_Inspect (i # is) req d))) = ReqCall req"
      by (simp add: Chain_Cons Let_def no_reservation_def)
  qed
qed

lemma allow_parts [simp]: "fst (allow req d) = d" "fst (snd (allow req d)) = req"
  by (simp_all add: allow_def)

lemma budget_gate:
  assumes "ReqReservation req = None"
  shows "no_reservation d (inspectExecutionBudget E req d) \<and> \<not> passed (inspectExecutionBudget E req d)
    \<or> passed (inspectExecutionBudget E req d) \<and> holds_reservation E (ReqCall req) d (inspectExecutionBudget E req d)"
proof (cases "passed (inspectExecutionBudget E req d)")
  case True
  then show ?thesis using budget_passed [OF True] unfolding holds_reservation_def by (elim exE conjE) (simp, blast)
next
  case False
  with assms show ?thesis
    by (auto simp: inspectExecutionBudget_def split: prod.splits sum.splits dest: refuse_unchanged)
qed

lemma Chain_Cons_passed:
  "passed (Chain_Inspect (i # is) req d) \<Longrightarrow> passed (i req d) \<and>
     Chain_Inspect (i # is) req d = Chain_Inspect is (fst (snd (i req d))) (fst (i req d))"
  by (simp add: Chain_Cons Let_def split: if_splits)

lemma gates_passed:
  assumes "passed (Chain_Inspect (builtinToolInspectors E ctx runID approved) req d)"
  shows "gates_pass E ctx runID (ReqAgent req) (ReqCall req) approved trusted d \<or> ReqApproved req \<noteq> (approved \<or> trusted)"
proof -
  let ?c = "Chain_Inspect"
  note p = assms [unfolded builtinToolInspectors_def]
  note c1 = Chain_Cons_passed [OF p]
  from whitelist_passed [OF conjunct1 [OF c1]] have w: "inspectAgentWhitelist E req d = allow req d"
    "agentAllowsTool (ReqAgent req) (CallName (ReqCall req)) \<or> isFrameworkMetaTool (CallName (ReqCall req))" by auto
  note p2 = p [unfolded conjunct2 [OF c1] w(1) allow_parts]
  note c2 = Chain_Cons_passed [OF p2]
  from declaration_passed [OF conjunct1 [OF c2]] obtain t where t: "declared_tool E (ReqCall req) = Some t"
    "inspectScenarioDeclaration E req d = allow (req\<lparr>ReqTool := t\<rparr>) d" by blast
  note p3 = p2 [unfolded conjunct2 [OF c2] t(2) allow_parts]
  note c3 = Chain_Cons_passed [OF p3]
  note s = schema_passed [OF conjunct1 [OF c3]]
  note p4 = p3 [unfolded conjunct2 [OF c3] conjunct1 [OF s] allow_parts]
  note c4 = Chain_Cons_passed [OF p4]
  note a = cache_passed [OF conjunct1 [OF c4]]
  note p5 = p4 [unfolded conjunct2 [OF c4] conjunct1 [OF a] allow_parts]
  note c5 = Chain_Cons_passed [OF p5]
  note g = approval_passed [OF conjunct1 [OF c5]]
  note p6 = p5 [unfolded conjunct2 [OF c5] conjunct1 [OF g] allow_parts]
  note c6 = Chain_Cons_passed [OF p6]
  note p7 = p6 [unfolded conjunct2 [OF c6] registry_passed [OF conjunct1 [OF c6]] allow_parts]
  note c7 = Chain_Cons_passed [OF p7]
  note sec = security_passed [OF conjunct1 [OF c7]]
  note p8 = p7 [unfolded conjunct2 [OF c7] conjunct1 [OF sec] allow_parts]
  note c8 = Chain_Cons_passed [OF p8]
  from resolve_passed [OF conjunct1 [OF c8]] obtain resolve x where r: "Registry E = Some resolve" "resolve t = Inr (Some x)"
    "inspectExecutorResolve E (req\<lparr>ReqTool := t\<rparr>) d = allow (req\<lparr>ReqTool := t, ReqExecutor := Some x\<rparr>) d" by auto
  note p9 = p8 [unfolded conjunct2 [OF c8] r(3) allow_parts]
  note c9 = Chain_Cons_passed [OF p9]
  from budget_passed [OF conjunct1 [OF c9]] obtain t1 rs n where
    b: "reserveToolCall (EJson E) (CallName (ReqCall req)) (CallInput (ReqCall req)) (DoomLoopLimit E) (ToolRateCap t) (DTracker d) = (t1, Inr (rs, n))"
    and b': "inspectExecutionBudget E (req\<lparr>ReqTool := t, ReqExecutor := Some x\<rparr>) d =
      allow (req\<lparr>ReqTool := t, ReqExecutor := Some x, ReqReservation := Some rs, ReqCallCount := CountByName n,
        ReqSameInputCalls := CountBySameInput n, ReqTotalCalls := CountTotal n\<rparr>) (d\<lparr>DTracker := t1\<rparr>)" by auto
  note p10 = p9 [unfolded conjunct2 [OF c9] b' allow_parts]
  note gov = governance_passed [OF conjunct1 [OF Chain_Cons_passed [OF p10]]]
  show ?thesis
  proof (cases "ReqApproved req = (approved \<or> trusted)")
    case True
    with w t s a g sec r b gov show ?thesis unfolding gates_pass_def by auto
  qed simp
qed

lemma governance_gate:
  assumes "holds_reservation E call d (d1, req1, Inr f)" and "Verdict f = VerdictAllow"
  shows "holds_reservation E call d (inspectGovernance E runID req1 d1)"
proof (cases "passed (inspectGovernance E runID req1 d1)")
  case True
  with governance_passed [OF True] assms show ?thesis by (auto simp: holds_reservation_def)
next
  case False
  from assms obtain cap t1 r n where r: "reserveToolCall (EJson E) (CallName call) (CallInput call) (DoomLoopLimit E) cap (DTracker d) = (t1, Inr (r, n))"
    "DTracker d1 = t1" "ReqReservation req1 = Some r" "DEvents d1 = DEvents d" by (auto simp: holds_reservation_def)
  from False have "authorizeGovernanceTool E runID (ReqAgent req1) (ReqTool req1) (ReqCall req1) (ReqCallCount req1) (ReqSameInputCalls req1)
      (ReqTotalCalls req1) \<noteq> None" by (auto simp: inspectGovernance_def split: option.splits)
  then obtain d2 req2 where g: "fst (inspectGovernance E runID req1 d1) = d2" "fst (snd (inspectGovernance E runID req1 d1)) = req2"
    "DTracker d2 = snd (settle Attempted r t1)" "ReqReservation req2 = Some (fst (settle Attempted r t1))" "DEvents d2 = DEvents d"
    using r by (auto simp: inspectGovernance_def settle_request_def deny_with_def Let_def case_prod_unfold)
  with r(1) False show ?thesis unfolding holds_reservation_def by blast
qed

lemma appended_keeps:
  assumes "holds_reservation E call d (d1, req1, Inr f)" and "Verdict f = VerdictAllow" and "list_all polite is"
  shows "holds_reservation E call d (Chain_Inspect is req1 d1)"
proof -
  obtain w req2 res where c: "Chain_Inspect is req1 d1 = (d1\<lparr>DWorld := w\<rparr>, req2, res)" and e: "enriched req1 req2"
    using Chain_polite [OF assms(3)] by metis
  from assms(1,2) obtain cap t1 r n where r: "reserveToolCall (EJson E) (CallName call) (CallInput call) (DoomLoopLimit E) cap (DTracker d) = (t1, Inr (r, n))"
    "DTracker d1 = t1" "ReqReservation req1 = Some r" "DEvents d1 = DEvents d" by (auto simp: holds_reservation_def)
  with e show ?thesis unfolding holds_reservation_def c by (auto simp: enriched_def)
qed

lemma chain_split:
  "toolInspectorChain E ctx runID approved =
     (Prepended E @ [inspectAgentWhitelist E, inspectScenarioDeclaration E, inspectInputSchema E, inspectApprovalCache E runID approved,
      inspectApprovalGate E, inspectExecutorRegistry E, inspectSecurity E ctx, inspectExecutorResolve E])
     @ inspectExecutionBudget E # inspectGovernance E runID # Appended E"
  by (simp add: toolInspectorChain_def builtinToolInspectors_def)

lemma chain_budget:
  fixes d :: dispatch_state and ctx :: gctx and runID :: string and approved :: bool
  assumes "polite_hosts E" and "ReqReservation req = None"
  defines "out \<equiv> Chain_Inspect (toolInspectorChain E ctx runID approved) req d"
  shows "no_reservation d out \<and> \<not> passed out \<or> holds_reservation E (ReqCall req) d out"
proof -
  let ?first = "Prepended E @ [inspectAgentWhitelist E, inspectScenarioDeclaration E, inspectInputSchema E, inspectApprovalCache E runID approved,
      inspectApprovalGate E, inspectExecutorRegistry E, inspectSecurity E ctx, inspectExecutorResolve E]"
  have "list_all early ?first"
    using assms(1) early_gates early_polite by (auto simp: polite_hosts_def list_all_iff)
  from Chain_early [OF this] assms(2) have f: "no_reservation d (Chain_Inspect ?first req d)"
    "ReqCall (fst (snd (Chain_Inspect ?first req d))) = ReqCall req" unfolding early_def by blast+
  show ?thesis
  proof (cases "passed (Chain_Inspect ?first req d)")
    case False
    then have "out = Chain_Inspect ?first req d" unfolding out_def chain_split by (simp only: Chain_append Let_def if_False)
    with f False show ?thesis by simp
  next
    case True
    define d1 where "d1 = fst (Chain_Inspect ?first req d)"
    define req1 where "req1 = fst (snd (Chain_Inspect ?first req d))"
    have o: "out = Chain_Inspect (inspectExecutionBudget E # inspectGovernance E runID # Appended E) req1 d1"
      using True unfolding out_def chain_split d1_def req1_def by (simp only: Chain_append Let_def if_True)
    have 1: "ReqReservation req1 = None" "DTracker d1 = DTracker d" "DEvents d1 = DEvents d" "ReqCall req1 = ReqCall req"
      using f unfolding d1_def req1_def no_reservation_def by auto
    then have same: "holds_reservation E call d1 o' = holds_reservation E call d o'" "no_reservation d1 o' = no_reservation d o'" for call o'
      by (simp_all add: holds_reservation_def no_reservation_def)
    show ?thesis
    proof (cases "passed (inspectExecutionBudget E req1 d1)")
      case False
      with budget_gate [OF 1(1), of d1 E] o same show ?thesis by (simp add: Chain_Cons Let_def)
    next
      case b: True
      with budget_gate [OF 1(1), of d1 E] have h: "holds_reservation E (ReqCall req) d (inspectExecutionBudget E req1 d1)"
        using 1(4) same by simp
      obtain d2 req2 g where i: "inspectExecutionBudget E req1 d1 = (d2, req2, Inr g)" "Verdict g = VerdictAllow"
        using b by (cases "inspectExecutionBudget E req1 d1") (auto simp: passed_def split: sum.splits)
      from governance_gate [of E "ReqCall req" d d2 req2 g runID] h i
      have h2: "holds_reservation E (ReqCall req) d (inspectGovernance E runID req2 d2)" by simp
      show ?thesis
      proof (cases "passed (inspectGovernance E runID req2 d2)")
        case False
        with o b i h2 show ?thesis by (simp add: Chain_Cons Let_def)
      next
        case g: True
        with governance_passed [OF g] have "inspectGovernance E runID req2 d2 = (d2, req2, Inr AllowFinding)" by (simp add: allow_def)
        with appended_keeps [of E "ReqCall req" d d2 req2 AllowFinding "Appended E"] h2 assms(1) o b i show ?thesis
          by (simp add: Chain_Cons Let_def polite_hosts_def)
      qed
    qed
  qed
qed

text \<open>An error of the chain comes before the budget, unless an appended inspector makes it.\<close>

lemma chain_error_early:
  assumes "polite_hosts E" and "list_all never_fails (Appended E)" and "ReqReservation req = None"
    and e: "snd (snd (Chain_Inspect (toolInspectorChain E ctx runID approved) req d)) = Inl e"
  shows "no_reservation d (Chain_Inspect (toolInspectorChain E ctx runID approved) req d)"
proof -
  let ?first = "Prepended E @ [inspectAgentWhitelist E, inspectScenarioDeclaration E, inspectInputSchema E, inspectApprovalCache E runID approved,
      inspectApprovalGate E, inspectExecutorRegistry E, inspectSecurity E ctx, inspectExecutorResolve E]"
  have "list_all early ?first"
    using assms(1) early_gates early_polite by (auto simp: polite_hosts_def list_all_iff)
  from Chain_early [OF this] assms(3) have f: "no_reservation d (Chain_Inspect ?first req d)" unfolding early_def by blast
  have "list_all never_fails (inspectExecutionBudget E # inspectGovernance E runID # Appended E)"
    using assms(2)
    by (auto simp: never_fails_def inspectExecutionBudget_def inspectGovernance_def deny_with_def allow_def Let_def
        split: option.splits prod.splits sum.splits)
  from Chain_never_fails [OF this] have "\<not> passed (Chain_Inspect ?first req d)"
    using e unfolding chain_split Chain_append [of ?first] Let_def by (auto split: if_splits)
  then show ?thesis using f unfolding chain_split Chain_append [of ?first] Let_def by simp
qed

lemma chain_gates:
  assumes "polite_hosts E" and "passed (Chain_Inspect (toolInspectorChain E ctx runID approved) (new_request runID agent call (approved \<or> trusted)) d)"
  shows "gates_pass E ctx runID agent call approved trusted d"
proof -
  let ?req = "new_request runID agent call (approved \<or> trusted)"
  obtain w req1 res where c: "Chain_Inspect (Prepended E) ?req d = (d\<lparr>DWorld := w\<rparr>, req1, res)" and e: "enriched ?req req1"
    using Chain_polite assms(1) unfolding polite_hosts_def by metis
  with assms(2) have "passed (Chain_Inspect (builtinToolInspectors E ctx runID approved) req1 (d\<lparr>DWorld := w\<rparr>))"
    by (auto simp: toolInspectorChain_def Chain_append Let_def split: if_splits)
  from gates_passed [OF this, of trusted] e have "gates_pass E ctx runID agent call approved trusted (d\<lparr>DWorld := w\<rparr>)"
    by (auto simp: enriched_def new_request_def)
  then show ?thesis by (simp add: gates_pass_def)
qed

section \<open>What the rest of a dispatch does to the budget\<close>

text \<open>The tracker after a dispatch: untouched, or reserved once and settled once.\<close>

definition settled_once :: "tool_engine \<Rightarrow> tool_call \<Rightarrow> tracker \<Rightarrow> tracker \<Rightarrow> settlement set \<Rightarrow> bool" where
  "settled_once E call t t' how \<longleftrightarrow>
     t' = t \<or> (\<exists>cap t1 r n s. s \<in> how
        \<and> reserveToolCall (EJson E) (CallName call) (CallInput call) (DoomLoopLimit E) cap t = (t1, Inr (r, n)) \<and> t' = snd (settle s r t1))"

lemma emit_simps [simp]: "DTracker (emit e d) = DTracker d" "DEvents (emit e d) = DEvents d @ [e]"
  by (simp_all add: emit_def)

lemma noteApprovalDeny_simps [simp]: "DTracker (fst (noteApprovalDeny runID tool d)) = DTracker d"
  by (auto simp: noteApprovalDeny_def Let_def split: option.splits prod.splits)

lemma noteApprovalDeny_events: "\<exists>es. DEvents (fst (noteApprovalDeny runID tool d)) = DEvents d @ es \<and> (\<forall>a b n. ToolCalled a b n \<notin> set es)"
  by (auto simp: noteApprovalDeny_def Let_def split: option.splits prod.splits)

lemma tool_attempts_tracker: "DTracker (fst (tool_attempts n i E runID agent call x d)) = DTracker d"
  by (induction n arbitrary: i d) (auto simp: Let_def split: prod.splits option.splits sum.splits)

lemma executeToolWithRetry_tracker [simp]: "DTracker (fst (executeToolWithRetry E runID agent t call x d)) = DTracker d"
  by (simp add: executeToolWithRetry_def tool_attempts_tracker)

lemma persist_result_simps [simp]:
  "DTracker (fst (persist_result E ctx runID key result d)) = DTracker d" "DEvents (fst (persist_result E ctx runID key result d)) = DEvents d"
  by (simp_all add: persist_result_def case_prod_unfold Let_def)

lemma settle_request_tracker:
  "DTracker (fst (settle_request s req d)) = (case ReqReservation req of None \<Rightarrow> DTracker d | Some r \<Rightarrow> snd (settle s r (DTracker d)))"
  "DEvents (fst (settle_request s req d)) = DEvents d"
  by (simp_all add: settle_request_def case_prod_unfold Let_def split: option.splits)

lemma breaker_end:
  "DTracker (fst (if b then (case noteApprovalDeny runID tool x of (d3, a) \<Rightarrow> (case a of None \<Rightarrow> (d3, Inr y) | Some e \<Rightarrow> (d3, Inl e))) else (x, Inr y)))
     = DTracker x"
  using noteApprovalDeny_simps [of runID tool x] by (cases "noteApprovalDeny runID tool x") (simp split: option.split)

lemma settle_denied_tracker:
  "DTracker (fst (settle_denied agent runID call req f d)) = DTracker (fst (settle_request Attempted req d))"
proof -
  obtain d1 q where s: "settle_request Attempted req d = (d1, q)" by fastforce
  show ?thesis unfolding settle_denied_def s Let_def prod.case denied_call_def by (subst breaker_end) (simp add: s)
qed

lemma finish_call_tracker:
  "DTracker (fst (finish_call E ctx runID agent call opts req result d)) =
     DTracker (fst (settle_request (if ResError result = [] then Succeeded else Attempted) req d))"
  unfolding finish_call_def reset_breaker_def case_prod_unfold Let_def by (simp split: option.split)

lemma settled_inactive: "snd (settle s (fst (settle s' r t)) t') = t'"
  by (simp add: settle_defs Let_def split: settlement.splits)

lemma holds_settled:
  assumes "holds_reservation E call d (d1, req, res)" and "DTracker d2 = DTracker d1" and "s \<in> how" and "\<not> passed (d1, req, res) \<Longrightarrow> Attempted \<in> how"
  shows "settled_once E call (DTracker d) (DTracker (fst (settle_request s req d2))) how"
proof -
  from assms(1) obtain cap t1 r n where r: "reserveToolCall (EJson E) (CallName call) (CallInput call) (DoomLoopLimit E) cap (DTracker d) = (t1, Inr (r, n))"
    and alt: "DTracker d1 = t1 \<and> ReqReservation req = Some r \<or> DTracker d1 = snd (settle Attempted r t1) \<and> ReqReservation req = Some (fst (settle Attempted r t1)) \<and> Attempted \<in> how"
    using assms(4) by (auto simp: holds_reservation_def)
  from alt show ?thesis
  proof
    assume "DTracker d1 = t1 \<and> ReqReservation req = Some r"
    with r assms(2,3) show ?thesis unfolding settled_once_def settle_request_tracker by (intro disjI2 exI conjI) simp_all
  next
    assume "DTracker d1 = snd (settle Attempted r t1) \<and> ReqReservation req = Some (fst (settle Attempted r t1)) \<and> Attempted \<in> how"
    with r assms(2) show ?thesis unfolding settled_once_def settle_request_tracker
      by (intro disjI2 exI conjI) (simp_all add: settled_inactive)
  qed
qed

lemma unreserved_settled: "no_reservation d (d1, req, res) \<Longrightarrow> settled_once E call (DTracker d) (DTracker (fst (settle_request s req d1))) how"
  by (simp add: settled_once_def settle_request_tracker)

text \<open>
  The settlement that is due for the outcome of a dispatch: a release when the context ended the execution, an attempt for any other
  error, a success for a result without error. A tool that succeeded counts as a success also when saving its output failed, which turns the result into
  an error.
\<close>

definition due :: "tool_engine \<Rightarrow> dispatch_options \<Rightarrow> go_error + call_result \<Rightarrow> settlement set" where
  "due E opts res = (case res of
       Inl e \<Rightarrow> {if context_error e then Released else Attempted}
     | Inr result \<Rightarrow>
         if ResError result = [] then {Succeeded}
         else if \<not> OptSkipPersist opts \<and> (\<exists>e. ResError result = ''persist tool output: '' @ ErrorText E e) then {Attempted, Succeeded}
         else {Attempted})"

lemma settle_denied_due:
  assumes "(d', res) = settle_denied agent runID call req f d" shows "Attempted \<in> due E opts res"
proof -
  have "\<not> context_error (TripError limit n)" for limit n by (simp add: context_error_def TripError_def)
  moreover have "res = Inl e \<Longrightarrow> \<exists>limit n. e = TripError limit n" for e
    using assms by (auto simp: settle_denied_def noteApprovalDeny_def denied_call_def Let_def case_prod_unfold split: if_splits option.splits prod.splits)
  moreover have "res = Inr r \<Longrightarrow> ResError r \<noteq> []" for r
    using assms by (auto simp: settle_denied_def denied_call_def error_of_def Let_def case_prod_unfold split: if_splits option.splits)
  ultimately show ?thesis by (cases res) (fastforce simp: due_def)+
qed

lemma finish_call_due:
  "finish_call E ctx runID agent call opts req result d = (d', res) \<Longrightarrow> (if ResError result = [] then Succeeded else Attempted) \<in> due E opts res"
  by (auto simp: finish_call_def due_def Let_def case_prod_unfold split: if_splits option.splits prod.splits)

lemma dispatch_gated_settles:
  assumes "polite_hosts E" and "list_all never_fails (Appended E)" and "dispatch_gated E c runID agent call opts d = (d', res)"
  shows "settled_once E call (DTracker d) (DTracker d') (due E opts res)"
proof -
  let ?req = "new_request runID agent call (OptApproved opts \<or> TrustFull c)"
  let ?chain = "toolInspectorChain E (BaseCtx c) runID (OptApproved opts)"
  obtain d1 req out where ch: "Chain_Inspect ?chain ?req d = (d1, req, out)" by (metis prod_cases3)
  from chain_budget [OF assms(1), of ?req d "BaseCtx c" runID "OptApproved opts"] ch
  have b: "no_reservation d (d1, req, out) \<and> \<not> passed (d1, req, out) \<or> holds_reservation E call d (d1, req, out)"
    by (simp add: new_request_def)
  show ?thesis
  proof (cases out)
    case (Inl e)
    with assms(3) ch have "d' = d1" by (simp add: dispatch_gated_def)
    moreover have "no_reservation d (d1, req, out)"
      using chain_error_early [OF assms(1,2), of ?req "BaseCtx c" runID "OptApproved opts" d e] ch Inl by (simp add: new_request_def)
    ultimately show ?thesis by (simp add: settled_once_def)
  next
    case (Inr f)
    show ?thesis
    proof (cases "Verdict f = VerdictAllow")
      case False
      with assms(3) ch Inr have d': "(d', res) = settle_denied agent runID call req f d1" by (simp add: dispatch_gated_def)
      have how: "Attempted \<in> due E opts res" using settle_denied_due d' by metis
      have "DTracker d' = DTracker (fst (settle_request Attempted req d1))" using settle_denied_tracker d' by (metis fst_conv)
      with b holds_settled [of E call d d1 req out d1 Attempted "due E opts res"] unreserved_settled [of d d1 req out E call Attempted "due E opts res"]
        how show ?thesis by auto
    next
      case True
      with b Inr have h: "holds_reservation E call d (d1, req, out)" by simp
      obtain d2 ex where x: "executeToolWithRetry E runID agent (ReqTool req) call (case ReqExecutor req of Some x \<Rightarrow> x | None \<Rightarrow> nil_executor) d1 = (d2, ex)"
        by fastforce
      have t: "DTracker d2 = DTracker d1" using executeToolWithRetry_tracker x by (metis fst_conv)
      show ?thesis
      proof (cases "\<exists>e. ex = Inl e \<and> context_error e")
        case ctx: True
        then obtain e where e: "ex = Inl e" "context_error e" by blast
        with assms(3) ch Inr True x have "d' = fst (settle_request Released req d2)" "res = Inl e" by (simp_all add: dispatch_gated_def)
        with e holds_settled [OF h t, of Released "due E opts res"] Inr True show ?thesis by (simp add: due_def)
      next
        case False
        then obtain result where f: "finish_call E (BaseCtx c) runID agent call opts req result d2 = (d', res)"
          using assms(3) ch Inr True x by (cases ex) (auto simp: dispatch_gated_def)
        then have how: "(if ResError result = [] then Succeeded else Attempted) \<in> due E opts res" by (rule finish_call_due)
        have "DTracker d' = DTracker (fst (settle_request (if ResError result = [] then Succeeded else Attempted) req d2))"
          using finish_call_tracker f by (metis fst_conv)
        with holds_settled [OF h t how] Inr True show ?thesis by simp
      qed
    qed
  qed
qed

lemma dispatchSubAgent_tracker: "DTracker (fst (dispatchSubAgent E answer c runID agent sub call skip d)) = DTracker d"
proof -
  have "DTracker (fst (if skip then (d3, r) else (case persist_result E ctx runID key r d3 of (d5, a) \<Rightarrow>
      (case a of None \<Rightarrow> (d5, r) | Some e \<Rightarrow> (d5, f e))))) = DTracker d3" for d3 r ctx key f
    using persist_result_simps(1) [of E ctx runID key r d3] by (cases "persist_result E ctx runID key r d3") (simp split: option.split)
  then show ?thesis
    unfolding dispatchSubAgent_def denied_call_def Let_def by (simp add: case_prod_unfold split: sum.split option.split)
qed

lemma dispatch_delegate_settles:
  assumes "dispatch_delegate E answer c runID agent sub call opts d = (d', res)"
  shows "settled_once E call (DTracker d) (DTracker d') (due E opts res)"
proof -
  obtain d1 auth where a: "engine_authorizeTool E (BaseCtx c) (toolResource agent call None) d = (d1, auth)" by fastforce
  have t1: "DTracker d1 = DTracker d" using a by (auto simp: engine_authorizeTool_def split: option.splits sum.splits)
  obtain t rs where r: "reserveToolCall (EJson E) (CallName call) (CallInput call) (DoomLoopLimit E) 0 (DTracker d) = (t, rs)" by fastforce
  show ?thesis
  proof (cases "maxDelegationDepth \<le> DelegationDepth c \<or> auth \<noteq> None \<or> (\<exists>den. rs = Inl den)")
    case True
    have "t = DTracker d" if "rs = Inl den" for den using r that refuse_unchanged by blast
    with True assms a t1 r have "DTracker d' = DTracker d"
      by (auto simp: dispatch_delegate_def denied_call_def Let_def split: if_splits option.splits)
    then show ?thesis by (simp add: settled_once_def)
  next
    case False
    then obtain rsv n where rs: "rs = Inr (rsv, n)" by (cases rs) auto
    have "governanceBlockError m \<noteq> []" for m by (simp add: governanceBlockError_def Let_def)
    then have "\<exists>s \<in> due E opts res. DTracker d' = snd (settle s rsv t)"
      using assms a t1 r rs False dispatchSubAgent_tracker
      by (auto simp: dispatch_delegate_def denied_call_def settle_tracker_def due_def error_of_def Let_def case_prod_unfold split: option.splits if_splits)
    with r rs show ?thesis unfolding settled_once_def by blast
  qed
qed

lemma dispatchCatalogMetaTool_tracker: "DTracker (fst (dispatchCatalogMetaTool E runID agent call d)) = DTracker d"
  by (auto simp: dispatchCatalogMetaTool_def split: option.splits sum.splits prod.splits)


section \<open>No tool runs past a closed gate\<close>

text \<open>Events added without an execution.\<close>

definition quiet_end :: "dispatch_state \<Rightarrow> dispatch_state \<Rightarrow> bool" where
  "quiet_end d d' \<longleftrightarrow> (\<exists>es. DEvents d' = DEvents d @ es \<and> (\<forall>tool ident n. ToolCalled tool ident n \<notin> set es))"

lemma settle_denied_quiet: "quiet_end d (fst (settle_denied agent runID call req f d))"
proof -
  have end_quiet: "quiet_end d (fst (if b then (case noteApprovalDeny runID tool (emit (ToolDenied x1 x2 x3 x4) d1) of (d3, a) \<Rightarrow>
      (case a of None \<Rightarrow> (d3, Inr y) | Some e \<Rightarrow> (d3, Inl e))) else (emit (ToolDenied x1 x2 x3 x4) d1, Inr y)))"
    if ev: "DEvents d1 = DEvents d" for b tool x1 x2 x3 x4 d1 and y :: call_result
  proof -
    obtain es where "DEvents (fst (noteApprovalDeny runID tool (emit (ToolDenied x1 x2 x3 x4) d1))) = DEvents d @ ToolDenied x1 x2 x3 x4 # es"
      "\<forall>a b n. ToolCalled a b n \<notin> set es"
      using noteApprovalDeny_events [of runID tool "emit (ToolDenied x1 x2 x3 x4) d1"] ev by auto
    then show ?thesis
      using ev by (cases "noteApprovalDeny runID tool (emit (ToolDenied x1 x2 x3 x4) d1)") (auto simp: quiet_end_def split: option.split)
  qed
  obtain d1 q where s: "settle_request Attempted req d = (d1, q)" by fastforce
  then have "DEvents d1 = DEvents d" using settle_request_tracker(2) [of Attempted req d] by simp
  from end_quiet [OF this] show ?thesis unfolding settle_denied_def s Let_def prod.case denied_call_def .
qed

lemma dispatch_gated_quiet:
  assumes "dispatch_gated E c runID agent call opts d = (d', res)" and "polite_hosts E"
    and "\<not> passed (Chain_Inspect (toolInspectorChain E (BaseCtx c) runID (OptApproved opts)) (new_request runID agent call (OptApproved opts \<or> TrustFull c)) d)"
  shows "quiet_end d d'"
proof -
  let ?req = "new_request runID agent call (OptApproved opts \<or> TrustFull c)"
  obtain d1 req out where ch: "Chain_Inspect (toolInspectorChain E (BaseCtx c) runID (OptApproved opts)) ?req d = (d1, req, out)"
    by (metis prod_cases3)
  have "DEvents d1 = DEvents d"
    using chain_budget [OF assms(2), of ?req d "BaseCtx c" runID "OptApproved opts"] ch
    by (auto simp: new_request_def holds_reservation_def)
  then have same: "quiet_end d1 x \<Longrightarrow> quiet_end d x" for x by (simp add: quiet_end_def)
  show ?thesis
  proof (cases out)
    case (Inl e)
    with assms(1) ch have "d' = d1" by (simp add: dispatch_gated_def)
    then show ?thesis by (intro same) (simp add: quiet_end_def)
  next
    case (Inr f)
    with assms(3) ch have "Verdict f \<noteq> VerdictAllow" by simp
    with assms(1) ch Inr have "d' = fst (settle_denied agent runID call req f d1)" by (simp add: dispatch_gated_def)
    with settle_denied_quiet same show ?thesis by simp
  qed
qed

lemma dispatch_quiet_or_passed:
  assumes "polite_hosts E" and "delegateTarget E agent (CallName call) = None"
    and "dispatchToolWithOptions E answer c runID agent call opts d = (d', res)"
  shows "quiet_end d d' \<or> passed (Chain_Inspect (toolInspectorChain E (BaseCtx c) runID (OptApproved opts))
    (new_request runID agent call (OptApproved opts \<or> TrustFull c)) d)"
proof -
  obtain d1 m where meta: "dispatchCatalogMetaTool E runID agent call d = (d1, m)" by fastforce
  have e: "DEvents d1 = DEvents d" "m = None \<Longrightarrow> d1 = d"
    using meta by (auto simp: dispatchCatalogMetaTool_def split: if_splits option.splits sum.splits prod.splits)
  show ?thesis
  proof (cases "trim_space (CallID call) = [] \<or> m \<noteq> None \<or> (\<exists>step. StepCtx c = Some step \<and> Step_Frozen step \<and> \<not> Step_Allows step (CallName call))")
    case True
    with assms(3) meta e have "quiet_end d d'"
      by (auto simp: dispatchToolWithOptions_def denied_call_def quiet_end_def Let_def split: if_splits option.splits)
    then show ?thesis by simp
  next
    case False
    with assms(2,3) meta e have g: "dispatch_gated E c runID agent call opts d = (d', res)"
      by (auto simp: dispatchToolWithOptions_def split: option.splits)
    from dispatch_gated_quiet [OF g assms(1)] show ?thesis by blast
  qed
qed

text \<open>
  C10: a tool runs only when every gate allows it. If dispatching a call that is not a delegation emits \<^verbatim>\<open>ToolCalled\<close>, which happens before
  each execution, then the tool is in the agent's list, declared in the scenario, its input fits the schema, no cached denial and no
  missing human gate forbids it, the security policy allows it, an executor is registered, and the budget and the
  governance policy have room for it; otherwise nothing is executed.
\<close>

theorem tool_runs_only_when_gated:
  assumes "polite_hosts E" and "delegateTarget E agent (CallName call) = None"
    and "dispatchToolWithOptions E answer c runID agent call opts d = (d', res)"
  shows "gates_pass E (BaseCtx c) runID agent call (OptApproved opts) (TrustFull c) d \<or> quiet_end d d'"
  using dispatch_quiet_or_passed [OF assms] chain_gates [OF assms(1), of "BaseCtx c" runID "OptApproved opts" agent call "TrustFull c" d]
  by blast

section \<open>A sample engine\<close>

definition sample_tool :: tool where
  "sample_tool = zero_tool\<lparr>ToolName := ''t'', ToolApproval := ApprovalNever, ToolRateCap := 1\<rparr>"

definition sample_executor :: tool_executor where
  "sample_executor = PlainExecutor (\<lambda>runID agent call w. (w, CallReturns (Inr \<lparr>ResTool = ''t'', ResOutput = ''1'', ResError = []\<rparr>)))"

definition quiet_world :: world where
  "quiet_world = \<lparr>Repo = \<lparr>Snapshots = Map.empty, Fences = Map.empty\<rparr>, Blobs = Map.empty, Moments = []\<rparr>"

definition sample_engine :: tool_engine where
  "sample_engine = \<lparr>EScenario = zero_scenario\<lparr>Tools := [(''t'', sample_tool)]\<rparr>, DoomLoopLimit = 0,
     ERunner = \<lparr>HasRuns = False, HasBlobs = False, Fenced = False, Redactor = None\<rparr>, EJson = plain_tool_json,
     ErrorText = (\<lambda>_. ''error''), Sprintf = fst, EncodeResult = (\<lambda>r. Inr (ResOutput r)), ValidateSchema = (\<lambda>_ _. None),
     RepairNote = (\<lambda>_ _. []), EGate = None, Evaluator = None, EPolicy = None, EGovernance = None,
     Registry = Some (\<lambda>_. Inr (Some sample_executor)), Orchestrator = None, HasAudit = False, Prepended = [], Appended = [],
     ECatalog = None, MaskTurns = (\<lambda>_. None), CompactPayload = Inr [], LetterOrDigit = (\<lambda>_. True),
     DecodeDelegation = (\<lambda>_. Inr ([], [])), EncodeAnswer = (\<lambda>_ out. Inr out)\<rparr>"

definition sample_run_agent :: run_agent where
  "sample_run_agent = \<lparr>AgentLLM = [], AgentMemory = [], AgentTools = [''t''], AgentSkills = [], AgentName = ''a'', SubAgents = [], RetryLimit = 0\<rparr>"

definition sample_call :: tool_call where
  "sample_call = \<lparr>CallID = ''c1'', CallName = ''t'', CallInput = []\<rparr>"

definition sample_state :: dispatch_state where
  "sample_state = \<lparr>DTracker = newToolCallTracker, DBreaker = None, DApprovals = Map.empty, DLoaded = (\<lambda>_. []), DCompact = [],
     DWorld = quiet_world, DEvents = [], DAudits = []\<rparr>"

definition sample_ctx :: dispatch_ctx where
  "sample_ctx = \<lparr>BaseCtx = Background, StepCtx = None, DelegationDepth = 0, TrustFull = False\<rparr>"

definition sample_opts :: dispatch_options where
  "sample_opts = \<lparr>OptApproved = False, OptSkipPersist = True\<rparr>"

definition no_answer :: answerer where
  "no_answer = (\<lambda>c sub prompt context d. (d, Inl (ErrHost ''no sub-agent'')))"

abbreviation sample_dispatch :: "tool_engine \<Rightarrow> run_agent \<Rightarrow> dispatch_state \<Rightarrow> dispatch_state \<times> (go_error + call_result)" where
  "sample_dispatch E agent d \<equiv> dispatchToolWithOptions E no_answer sample_ctx ''r'' agent sample_call sample_opts d"

lemma sample_polite: "polite_hosts sample_engine" "list_all never_fails (Appended sample_engine)"
  by (simp_all add: polite_hosts_def sample_engine_def)

lemma tally_Cons [simp]: "tally ((k, v) # m) k' = (if k = k' then v else tally m k')"
  by (simp add: tally_def)

lemma canonical_empty [simp]: "canonicalJSON J [] = []"
  by (simp add: canonicalJSON_def)

lemmas sample_defs = sample_engine_def sample_run_agent_def sample_call_def sample_state_def sample_ctx_def sample_opts_def sample_tool_def
  sample_executor_def quiet_world_def zero_scenario_def zero_runtime_def zero_tool_def new_request_def

lemmas gate_defs = toolInspectorChain_def builtinToolInspectors_def Chain_Cons inspectAgentWhitelist_def inspectScenarioDeclaration_def
  inspectInputSchema_def inspectApprovalCache_def inspectApprovalGate_def inspectExecutorRegistry_def inspectSecurity_def inspectExecutorResolve_def
  inspectExecutionBudget_def inspectGovernance_def engine_authorizeTool_def authorizeGovernanceTool_def ValidateInput_def DenialWithoutGate_def
  ToolApprovalPauseRequired_def ToolApprovalDenialReason_def agentAllowsTool_def reserveToolCall_def toolInputFingerprint_def newToolCallTracker_def
  bump_def tally_def countsLocked_def total_def

lemma sample_id [simp]: "trim_space ''c1'' = ''c1''"
  by (simp add: trim_space_def trim_segments_def is_space_def in_range_def)

lemma sample_direct:
  "Registry E = Registry sample_engine \<Longrightarrow> ECatalog E = None \<Longrightarrow> MaskTurns E = (\<lambda>_. None) \<Longrightarrow> SubAgents agent = [] \<Longrightarrow>
     sample_dispatch E agent d = dispatch_gated E sample_ctx ''r'' agent sample_call sample_opts d"
  by (simp add: dispatchToolWithOptions_def dispatchCatalogMetaTool_def selfCompactEnabled_def delegateTarget_def sample_call_def sample_ctx_def)

definition reserved_tracker :: tracker where
  "reserved_tracker = newToolCallTracker\<lparr>ReservedByName := [(''t'', 1)], ReservedBySameInput := [(''t'' @ toolInputFingerprintSep, 1)]\<rparr>"

definition sample_invocation :: tool_invocation where
  "sample_invocation = \<lparr>InvAgent = ''a'', InvTool = ''t'', InvSideEffect = SideEffectOther [], InvInput = [], InvCallCount = 0, InvSameInputCalls = 0,
     InvTotalCalls = 0, InvMetadata = []\<rparr>"

lemma sample_chain:
  assumes "case gov of None \<Rightarrow> True | Some f \<Rightarrow> f ''r'' sample_invocation = None"
  shows "Chain_Inspect (builtinToolInspectors (sample_engine\<lparr>Appended := hosts, Evaluator := ev, EGovernance := gov\<rparr>) Background ''r'' False) (new_request ''r'' sample_run_agent sample_call False) sample_state =
     allow ((new_request ''r'' sample_run_agent sample_call False)\<lparr>ReqTool := sample_tool, ReqExecutor := Some sample_executor,
       ReqReservation := Some \<lparr>ResName = ''t'', ResFingerprint = ''t'' @ toolInputFingerprintSep, ResActive = True\<rparr>\<rparr>)
      (sample_state\<lparr>DTracker := reserved_tracker\<rparr>)"
  using assms by (cases gov) (simp_all add: gate_defs sample_defs sample_invocation_def reserved_tracker_def Let_def)

lemma sample_plain: "sample_engine\<lparr>Appended := [], Evaluator := None, EGovernance := None\<rparr> = sample_engine"
  by (simp add: sample_engine_def)

lemma sample_hosts [simp]: "Prepended sample_engine = []" "Appended sample_engine = []"
  by (simp_all add: sample_engine_def)

lemma sample_executes:
  "executeToolWithRetry (sample_engine\<lparr>Appended := [], Evaluator := ev, EGovernance := gov\<rparr>) ''r'' sample_run_agent sample_tool sample_call sample_executor (sample_state\<lparr>DTracker := t\<rparr>) =
     (sample_state\<lparr>DTracker := t, DEvents := [ToolCalled ''t'' ''c1'' 1]\<rparr>, Inr \<lparr>ResTool = ''t'', ResOutput = ''1'', ResError = []\<rparr>)"
  by (simp add: executeToolWithRetry_def maxAttempts_def firstPositive2_def AutoRetrySafe_def risky_side_effect_def sample_defs ctx_err_def emit_def
      quiet_moment_def eval_nat_numeral)

lemma sample_runs_with:
  assumes "case gov of None \<Rightarrow> True | Some f \<Rightarrow> f ''r'' sample_invocation = None"
  shows "\<exists>d. sample_dispatch (sample_engine\<lparr>Appended := [], Evaluator := ev, EGovernance := gov\<rparr>) sample_run_agent sample_state = (d, Inr \<lparr>ResTool = ''t'', ResOutput = ''1'', ResError = []\<rparr>)
     \<and> tally (ByName (DTracker d)) ''t'' = 1 \<and> tally (ReservedByName (DTracker d)) ''t'' = 0 \<and> ToolCalled ''t'' ''c1'' 1 \<in> set (DEvents d)"
proof -
  let ?E = "sample_engine\<lparr>Appended := [], Evaluator := ev, EGovernance := gov\<rparr>"
  have c: "Chain_Inspect (toolInspectorChain ?E (BaseCtx sample_ctx) ''r'' (OptApproved sample_opts))
      (new_request ''r'' sample_run_agent sample_call (OptApproved sample_opts \<or> TrustFull sample_ctx)) sample_state =
     allow ((new_request ''r'' sample_run_agent sample_call False)\<lparr>ReqTool := sample_tool, ReqExecutor := Some sample_executor,
       ReqReservation := Some \<lparr>ResName = ''t'', ResFingerprint = ''t'' @ toolInputFingerprintSep, ResActive = True\<rparr>\<rparr>)
      (sample_state\<lparr>DTracker := reserved_tracker\<rparr>)"
    using sample_chain [where hosts = "[]" and ev = ev, OF assms] by (simp add: toolInspectorChain_def sample_ctx_def sample_opts_def)
  have "\<exists>d. dispatch_gated ?E sample_ctx ''r'' sample_run_agent sample_call sample_opts sample_state =
      (d, Inr \<lparr>ResTool = ''t'', ResOutput = ''1'', ResError = []\<rparr>)
     \<and> tally (ByName (DTracker d)) ''t'' = 1 \<and> tally (ReservedByName (DTracker d)) ''t'' = 0 \<and> ToolCalled ''t'' ''c1'' 1 \<in> set (DEvents d)"
    unfolding dispatch_gated_def c
    by (simp add: allow_def sample_executes finish_call_def settle_request_def settle_defs reset_breaker_def reserved_tracker_def
        newToolCallTracker_def Let_def sample_opts_def emit_def recordAudit_def)
  moreover have "sample_dispatch ?E sample_run_agent sample_state =
      dispatch_gated ?E sample_ctx ''r'' sample_run_agent sample_call sample_opts sample_state"
    by (rule sample_direct) (simp_all add: sample_engine_def sample_run_agent_def)
  ultimately show ?thesis by simp
qed

lemmas sample_runs = sample_runs_with [of None None, unfolded sample_plain, simplified]

theorem tool_runs_only_when_gated_witness:
  "gates_pass sample_engine Background ''r'' sample_run_agent sample_call False False sample_state"
proof -
  obtain d res where r: "sample_dispatch sample_engine sample_run_agent sample_state = (d, res)" "ToolCalled ''t'' ''c1'' 1 \<in> set (DEvents d)"
    using sample_runs by blast
  then have "\<not> quiet_end sample_state d" by (auto simp: quiet_end_def sample_state_def)
  moreover have "delegateTarget sample_engine sample_run_agent (CallName sample_call) = None"
    by (simp add: delegateTarget_def sample_run_agent_def)
  ultimately show ?thesis
    using tool_runs_only_when_gated [OF sample_polite(1) _ r(1)] by (simp add: sample_ctx_def sample_opts_def)
qed


section \<open>A reservation that is never settled\<close>

text \<open>
  An inspector of the host that fails after the budget gate ends the dispatch with its error, and the reservation stays.
  Here the appended inspector fails once, for instance because a service it asks is down. The tool never ran, but its only
  permitted call is gone: the next dispatch, with the inspector working again, is refused by the rate cap.
\<close>

definition failing_inspector :: inspector where
  "failing_inspector req d = (d, req, Inl (ErrHost ''unavailable''))"

theorem inspector_error_leaks_reservation:
  "let d1 = fst (sample_dispatch (sample_engine\<lparr>Appended := [failing_inspector]\<rparr>) sample_run_agent sample_state);
       (d2, res) = sample_dispatch sample_engine sample_run_agent d1
   in DEvents d1 = [] \<and> tally (ReservedByName (DTracker d1)) ''t'' = 1 \<and> res = Inr (error_of sample_call (fst (rate_cap_error 1)))"
proof -
  let ?E = "sample_engine\<lparr>Appended := [failing_inspector]\<rparr>"
  have E: "?E = sample_engine\<lparr>Appended := [failing_inspector], Evaluator := None, EGovernance := None\<rparr>" by (simp add: sample_engine_def)
  have "sample_dispatch ?E sample_run_agent sample_state = dispatch_gated ?E sample_ctx ''r'' sample_run_agent sample_call sample_opts sample_state"
    by (rule sample_direct) (simp_all add: sample_engine_def sample_run_agent_def)
  also have "\<dots> = (sample_state\<lparr>DTracker := reserved_tracker\<rparr>, Inl (ErrHost ''unavailable''))"
    using sample_chain [where hosts = "[failing_inspector]" and ev = None and gov = None, folded E]
    by (simp add: dispatch_gated_def toolInspectorChain_def Chain_append sample_ctx_def sample_opts_def Chain_Cons failing_inspector_def Let_def)
  finally have d1: "fst (sample_dispatch ?E sample_run_agent sample_state) = sample_state\<lparr>DTracker := reserved_tracker\<rparr>" by simp
  have "sample_dispatch sample_engine sample_run_agent (sample_state\<lparr>DTracker := reserved_tracker\<rparr>) =
      dispatch_gated sample_engine sample_ctx ''r'' sample_run_agent sample_call sample_opts (sample_state\<lparr>DTracker := reserved_tracker\<rparr>)"
    by (rule sample_direct) (simp_all add: sample_engine_def sample_run_agent_def)
  also have "snd \<dots> = Inr (error_of sample_call (fst (rate_cap_error 1)))"
    by (simp add: dispatch_gated_def gate_defs sample_defs reserved_tracker_def Let_def allow_def deny_with_def Deny_def AllowFinding_def
        settle_denied_def settle_request_def denied_call_def rate_cap_error_def)
  finally show ?thesis unfolding d1 Let_def by (auto simp: sample_state_def reserved_tracker_def tally_def split: prod.splits)
qed

end
