(* ===== verification/Tool_Turn.thy ===== *)
theory Tool_Turn
  imports Tool_Gates Run_Checkpoint
begin

text \<open>
  How a turn of tool calls waits for a human: the pause decision of \<^verbatim>\<open>runtime_tool_batch.go\<close>, and pausing, refusing and restoring of
  \<^verbatim>\<open>runtime_continue.go\<close>. A call that needs approval stops the turn, is stored with the calls that follow it and the
  conversation, and runs only after the gate confirmed the approval.
\<close>

section \<open>The pause decision\<close>

text \<open>Full trust skips the static policies and still asks the evaluator.\<close>

definition pause_required :: "tool_engine \<Rightarrow> dispatch_ctx \<Rightarrow> string \<Rightarrow> tool \<Rightarrow> tool_call \<Rightarrow> go_error + bool" where
  "pause_required E c runID t call =
     (if TrustFull c then (case Evaluator E of None \<Rightarrow> Inr False | Some pause \<Rightarrow> pause runID t (CallInput call))
      else EvaluatePauseRequired t (Evaluator E) runID (CallInput call))"

definition toolCallNeedsPause :: "tool_engine \<Rightarrow> dispatch_ctx \<Rightarrow> string \<Rightarrow> tool_call \<Rightarrow> go_error + bool" where
  "toolCallNeedsPause E c runID call =
     (case map_of (Tools (EScenario E)) (CallName call) of
        None \<Rightarrow> Inr False
      | Some t \<Rightarrow> (case pause_required E c runID t call of
            Inl e \<Rightarrow> Inl e
          | Inr pauseRequired \<Rightarrow> Inr (pauseRequired \<and> EGate E \<noteq> None)))"

fun executable_calls :: "tool_engine \<Rightarrow> dispatch_ctx \<Rightarrow> string \<Rightarrow> tool_call list \<Rightarrow> go_error + nat" where
  "executable_calls E c runID [] = Inr 0"
| "executable_calls E c runID (call # calls) =
     (case toolCallNeedsPause E c runID call of
        Inl e \<Rightarrow> Inl e
      | Inr True \<Rightarrow> Inr 0
      | Inr False \<Rightarrow> (case executable_calls E c runID calls of Inl e \<Rightarrow> Inl e | Inr n \<Rightarrow> Inr (Suc n)))"

text \<open>The end of the calls from \<open>start\<close> on that run together; \<open>start\<close> was checked before.\<close>

definition growExecutableToolPrefix :: "tool_engine \<Rightarrow> dispatch_ctx \<Rightarrow> string \<Rightarrow> tool_call list \<Rightarrow> nat \<Rightarrow> go_error + nat" where
  "growExecutableToolPrefix E c runID calls start =
     (case executable_calls E c runID (drop (start + 1) calls) of Inl e \<Rightarrow> Inl e | Inr n \<Rightarrow> Inr (start + 1 + n))"

definition toolBatchConcurrency :: "tool_engine \<Rightarrow> nat \<Rightarrow> int" where
  "toolBatchConcurrency E batchLen =
     (let limit = firstPositive2 (OrchMaxParallel (Orch (EScenario E))) (RtMaxParallel (Runtime (EScenario E)));
          l1 = (if limit \<le> 0 then int batchLen else limit);
          l2 = (if int batchLen < l1 then int batchLen else l1)
      in if l2 < 1 then 1 else l2)"

definition batchPersistKey :: "tool_engine \<Rightarrow> run_agent \<Rightarrow> tool_call \<Rightarrow> string" where
  "batchPersistKey E agent call = (case delegateTarget E agent (CallName call) of
       Some sub \<Rightarrow> ''agent.'' @ sub @ ''.'' @ CallID call
     | None \<Rightarrow> ''tool.'' @ CallID call)"

section \<open>Pausing at a call\<close>

text \<open>
  What the host adds: the memory that keeps the prompt, the JSON of the payload of the gate from the call, the tool, the kind of
  approval and the name of the evaluator, and the workflow node of the context.
\<close>

record turn_host =
  WritePrompt :: "string \<Rightarrow> run_agent \<Rightarrow> string \<Rightarrow> world \<Rightarrow> world \<times> go_error option"
  EncodePause :: "tool_call \<Rightarrow> run_agent \<Rightarrow> tool \<Rightarrow> string \<Rightarrow> string \<Rightarrow> go_error + bytes"
  EvaluatorName :: "string option"
  EvaluatorType :: string
  WorkflowNode :: string

definition toolPauseAttribution :: "tool_engine \<Rightarrow> turn_host \<Rightarrow> dispatch_ctx \<Rightarrow> tool \<Rightarrow> string \<times> string" where
  "toolPauseAttribution E T c t =
     (let kind = (if TrustFull c then ''evaluator'' else if ToolApprovalPauseRequired t then ''static'' else ''evaluator'')
      in (kind, if Evaluator E = None then []
                else (case EvaluatorName T of Some name \<Rightarrow> name | None \<Rightarrow> if kind = ''evaluator'' then EvaluatorType T else [])))"

definition persistUserPromptIfNeeded :: "turn_host \<Rightarrow> string \<Rightarrow> run_agent \<Rightarrow> string \<Rightarrow> world \<Rightarrow> world \<times> go_error option" where
  "persistUserPromptIfNeeded T runID agent prompt w = (if trim_space prompt = [] then (w, None) else WritePrompt T runID agent prompt w)"

text \<open>What a pause saves besides the encoded calls and messages.\<close>

record turn_state =
  TsPrompt :: string
  TsTracker :: tracker
  TsUsage :: usage_tracker
  TsSteps :: int
  TsReplans :: int
  TsApprovals :: approval_store
  TsBreaker :: "breaker option"

definition tool_checkpoint_vars ::
  "checkpoint_codec \<Rightarrow> turn_host \<Rightarrow> string \<Rightarrow> run_agent \<Rightarrow> bytes \<Rightarrow> bytes \<Rightarrow> turn_state \<Rightarrow> (string \<times> bytes) list" where
  "tool_checkpoint_vars K T runID agent callsRaw messagesRaw ts =
     [(checkpointKindVar, CkEncText K ''tool_approval''), (checkpointAgentVar, CkEncText K (AgentName agent)),
      (checkpointPromptVar, CkEncText K (TsPrompt ts)), (checkpointToolCallsVar, callsRaw), (checkpointMessagesVar, messagesRaw),
      (checkpointToolCountsVar, tracker_MarshalJSON (CkTracker K) (TsTracker ts)), (checkpointUsageVar, CkEncUsage K (TsUsage ts)),
      (checkpointStepsConsumedVar, int_text (TsSteps ts)), (checkpointReplanAttemptsVar, int_text (TsReplans ts)),
      (checkpointPendingPauseVar, ''true'')]
     @ (case Store_ExportRun (CkEncApprovals K) runID (TsApprovals ts) of None \<Rightarrow> [] | Some raw \<Rightarrow> [(checkpointApprovalsVar, raw)])
     @ (case TsBreaker ts of None \<Rightarrow> []
        | Some b \<Rightarrow> if 0 < Breaker_ExportRun runID b then [(checkpointDenyCountVar, int_text (Breaker_ExportRun runID b))] else [])
     @ (if WorkflowNode T = [] then [] else [(checkpointWorkflowNodeVar, CkEncText K (WorkflowNode T))])"

text \<open>The encoded calls and messages; large messages go to the blob store.\<close>

definition encode_turn ::
  "checkpoint_codec \<Rightarrow> runner \<Rightarrow> gctx \<Rightarrow> int \<Rightarrow> tool_call list \<Rightarrow> lmessage list \<Rightarrow> world \<Rightarrow> world \<times> (go_error + bytes \<times> bytes)" where
  "encode_turn K R ctx threshold pending messages w =
     (case CkEncCalls K (NormalizeToolCallInputs (CkArgs K) pending) of
        Inl e \<Rightarrow> (w, Inl e)
      | Inr callsRaw \<Rightarrow> (case CkEncMessages K (NormalizeMessageToolInputs (CkArgs K) messages) of
            Inl e \<Rightarrow> (w, Inl e)
          | Inr raw \<Rightarrow> (case externalizeCheckpointVar K R ctx threshold raw w of
                (w1, Inl e) \<Rightarrow> (w1, Inl e)
              | (w1, Inr messagesRaw) \<Rightarrow> (w1, Inr (callsRaw, messagesRaw)))))"

text \<open>
  The pause itself, once it is decided: the checkpoint with its marker is saved first, then the gate is asked, and a
  gate that does not pause the run has the checkpoint rolled back. The result is the token; the event of the pause is emitted with it.
\<close>

definition confirm_pause ::
  "tool_engine \<Rightarrow> turn_host \<Rightarrow> gate \<Rightarrow> gctx \<Rightarrow> string \<Rightarrow> bytes \<Rightarrow> world \<Rightarrow> world \<times> (go_error + string)" where
  "confirm_pause E T gate ctx runID payload w =
     (case engine_pauseWithRetry (ERunner E) gate ctx runID
         (\<lambda>version. \<lparr>GateRunID = runID, GateVersion = version, GateNodeID = ''tool_approval'', GatePayload = Some payload\<rparr>) w of
        (w1, Inl e) \<Rightarrow> (fst (clearCheckpointState (ERunner E) ctx runID [] w1), Inl e)
      | (w1, Inr token) \<Rightarrow>
          (case ensureRunPaused (ERunner E) ctx runID w1 of
             (w2, Some e) \<Rightarrow> (w2, Inl (Errorf ''runtime: persist paused status for run %q: %w'' [runID] (Some e)))
           | (w2, None) \<Rightarrow> (w2, Inr token)))"

definition pause_at_call ::
  "tool_engine \<Rightarrow> checkpoint_codec \<Rightarrow> turn_host \<Rightarrow> gate \<Rightarrow> dispatch_ctx \<Rightarrow> string \<Rightarrow> run_agent \<Rightarrow> tool_call \<Rightarrow> tool \<Rightarrow> tool_call list
     \<Rightarrow> lmessage list \<Rightarrow> turn_state \<Rightarrow> world \<Rightarrow> world \<times> (go_error + string)" where
  "pause_at_call E K T gate c runID agent call t pending messages ts w =
     (let R = ERunner E; ctx = BaseCtx c in
      case load_run R ctx runID w of
        (w1, Inl e) \<Rightarrow> (w1, Inl e)
      | (w1, Inr snapshot) \<Rightarrow>
          if Status snapshot \<noteq> RunStatusRunning
          then (w1, Inl (Errorf ''runtime: cannot pause run %q in status %s'' [runID, status_text (Status snapshot)] None))
          else (case encode_turn K R ctx (StepOutputThreshold (Runtime (EScenario E))) pending messages w1 of
              (w2, Inl e) \<Rightarrow> (w2, Inl e)
            | (w2, Inr (callsRaw, messagesRaw)) \<Rightarrow>
                (case saveCheckpointVariables R ctx runID (tool_checkpoint_vars K T runID agent callsRaw messagesRaw ts) w2 of
                   (w3, Some e) \<Rightarrow> (w3, Inl e)
                 | (w3, None) \<Rightarrow>
                     (case persistUserPromptIfNeeded T runID agent (TsPrompt ts) w3 of
                        (w4, Some e) \<Rightarrow> (w4, Inl e)
                      | (w4, None) \<Rightarrow>
                          (case (let (kind, evaluator) = toolPauseAttribution E T c t in EncodePause T call agent t kind evaluator) of
                             Inl e \<Rightarrow> (w4, Inl e)
                           | Inr payload \<Rightarrow> confirm_pause E T gate ctx runID payload w4)))))"

text \<open>Whether the orchestrator settles the call without a human: it allows it, or denies it on the execution path.\<close>

definition settled_by_orchestrator :: "tool_engine \<Rightarrow> string \<Rightarrow> tool_call \<Rightarrow> approval_store \<Rightarrow> go_error + bool" where
  "settled_by_orchestrator E runID call st = (case Orchestrator E of
       None \<Rightarrow> Inr False
     | Some decide \<Rightarrow> (case decide st runID (CallName call) (CallInput call) True of
           Inl e \<Rightarrow> Inl e
         | Inr dec \<Rightarrow> Inr (dec = DecisionAllow \<or> dec = DecisionDeny)))"

definition maybePauseToolCall ::
  "tool_engine \<Rightarrow> checkpoint_codec \<Rightarrow> turn_host \<Rightarrow> dispatch_ctx \<Rightarrow> string \<Rightarrow> run_agent \<Rightarrow> tool_call list \<Rightarrow> lmessage list \<Rightarrow> turn_state \<Rightarrow> world
     \<Rightarrow> world \<times> (go_error + string option)" where
  "maybePauseToolCall E K T c runID agent pending messages ts w =
     (case pending of
        [] \<Rightarrow> (w, Inr None)
      | call # calls \<Rightarrow>
          (case map_of (Tools (EScenario E)) (CallName call) of
             None \<Rightarrow> (w, Inr None)
           | Some t \<Rightarrow>
               (case pause_required E c runID t call of
                  Inl e \<Rightarrow> (w, Inl e)
                | Inr False \<Rightarrow> (w, Inr None)
                | Inr True \<Rightarrow>
                    (case settled_by_orchestrator E runID call (TsApprovals ts) of
                       Inl e \<Rightarrow> (w, Inl e)
                     | Inr True \<Rightarrow> (w, Inr None)
                     | Inr False \<Rightarrow>
                         (case EGate E of
                            None \<Rightarrow> (w, Inr None)
                          | Some gate \<Rightarrow>
                              if 0 < DelegationDepth c
                              then (w, Inl (Errorf ''runtime: tool %q requires human approval, which is not supported for delegated sub-agent calls''
                                     [CallName call] None))
                              else (case pause_at_call E K T gate c runID agent call t pending messages ts w of
                                  (w1, Inl e) \<Rightarrow> (w1, Inl e)
                                | (w1, Inr token) \<Rightarrow> (w1, Inr (Some token))))))))"

section \<open>Resuming\<close>

definition last_calling :: "lmessage list \<Rightarrow> nat option" where
  "last_calling ms = find (\<lambda>i. LRole (ms ! i) = RoleAssistant \<and> LToolCalls (ms ! i) \<noteq> []) (rev [0..<length ms])"

text \<open>The ID of a pending call without one: the ID its counterpart in the assistant's turn has, or a stable one.\<close>

definition pending_id :: "tool_engine \<Rightarrow> string \<Rightarrow> int \<Rightarrow> tool_call list \<Rightarrow> nat \<Rightarrow> nat \<Rightarrow> tool_call \<Rightarrow> tool_call" where
  "pending_id E runID logicalStep allCalls start index call =
     (let position = start + index in
      if trim_space (CallID call) \<noteq> [] then call
      else if position < length allCalls \<and> CallName (allCalls ! position) = CallName call
        \<and> canonicalJSON (EJson E) (CallInput (allCalls ! position)) = canonicalJSON (EJson E) (CallInput call)
      then call\<lparr>CallID := CallID (allCalls ! position)\<rparr>
      else call\<lparr>CallID := stableToolCallID E runID logicalStep position call\<rparr>)"

definition normalizeCheckpointToolCallIDs ::
  "tool_engine \<Rightarrow> string \<Rightarrow> int \<Rightarrow> lmessage list \<Rightarrow> tool_call list \<Rightarrow> lmessage list \<times> tool_call list" where
  "normalizeCheckpointToolCallIDs E runID logicalStep messages pending =
     (case last_calling messages of
        None \<Rightarrow> (messages, ensureToolCallIDs E runID logicalStep pending)
      | Some a \<Rightarrow>
          (let allCalls = ensureToolCallIDs E runID logicalStep (LToolCalls (messages ! a));
               start = length allCalls - length pending
           in (messages[a := (messages ! a)\<lparr>LToolCalls := allCalls\<rparr>],
               map (\<lambda>(index, call). pending_id E runID logicalStep allCalls start index call) (enumerate 0 pending))))"

text \<open>
  What \<^verbatim>\<open>continueToolApproval\<close> reads back before it goes on with the turn. Every error here fails the run permanently.
\<close>

record restored =
  RsPending :: "tool_call list"
  RsMessages :: "lmessage list"
  RsTracker :: tracker
  RsUsage :: usage_tracker
  RsSteps :: int
  RsReplans :: int
  RsPrompt :: string
  RsAmendment :: string

definition decode_calls :: "checkpoint_codec \<Rightarrow> (string \<times> bytes) list \<Rightarrow> go_error + tool_call list" where
  "decode_calls K vars = (case map_of vars checkpointToolCallsVar of
       Some (c # cs) \<Rightarrow> (case CkDecCalls K (c # cs) of
           Inl e \<Rightarrow> Inl (Errorf ''runtime: decode checkpoint tool calls: %w'' [] (Some e)) | Inr calls \<Rightarrow> Inr calls)
     | _ \<Rightarrow> Inr [])"

definition decode_messages ::
  "checkpoint_codec \<Rightarrow> runner \<Rightarrow> gctx \<Rightarrow> (string \<times> bytes) list \<Rightarrow> world \<Rightarrow> world \<times> (go_error + lmessage list)" where
  "decode_messages K R ctx vars w = (case map_of vars checkpointMessagesVar of
       Some (c # cs) \<Rightarrow> (case resolveCheckpointVar K R ctx (c # cs) w of
           (w1, Inl e) \<Rightarrow> (w1, Inl (Errorf ''runtime: resolve checkpoint messages: %w'' [] (Some e)))
         | (w1, Inr raw) \<Rightarrow> (w1, (case CkDecMessages K raw of
               Inl e \<Rightarrow> Inl (Errorf ''runtime: decode checkpoint messages: %w'' [] (Some e)) | Inr ms \<Rightarrow> Inr ms)))
     | _ \<Rightarrow> (w, Inr []))"

definition decode_tracker :: "checkpoint_codec \<Rightarrow> (string \<times> bytes) list \<Rightarrow> go_error + tracker" where
  "decode_tracker K vars = (case map_of vars checkpointToolCountsVar of
       Some (c # cs) \<Rightarrow> (case decodeToolCallTracker (CkTracker K) (c # cs) of
           Inl e \<Rightarrow> Inl (Errorf ''runtime: decode checkpoint tool counts: %w'' [] (Some e)) | Inr t \<Rightarrow> Inr t)
     | _ \<Rightarrow> Inr newToolCallTracker)"

definition decode_usage :: "checkpoint_codec \<Rightarrow> (string \<times> bytes) list \<Rightarrow> go_error + usage_tracker" where
  "decode_usage K vars = (case decodeUsageTracker (CkDecUsage K) (case map_of vars checkpointUsageVar of None \<Rightarrow> [] | Some raw \<Rightarrow> raw) of
       Inl e \<Rightarrow> Inl (Errorf ''runtime: decode checkpoint usage: %w'' [] (Some e)) | Inr u \<Rightarrow> Inr u)"

definition restore_turn ::
  "tool_engine \<Rightarrow> checkpoint_codec \<Rightarrow> gctx \<Rightarrow> string \<Rightarrow> (string \<times> bytes) list \<Rightarrow> approval_store \<Rightarrow> breaker option \<Rightarrow> world
     \<Rightarrow> world \<times> (approval_store \<times> breaker option) \<times> (go_error + restored)" where
  "restore_turn E K ctx runID vars st b w =
     (case decode_calls K vars of
        Inl e \<Rightarrow> (w, (st, b), Inl e)
      | Inr pending \<Rightarrow>
          (case decode_messages K (ERunner E) ctx vars w of
             (w1, Inl e) \<Rightarrow> (w1, (st, b), Inl e)
           | (w1, Inr messages) \<Rightarrow>
               (let steps = checkpointStepsConsumed K vars;
                    (messages', pending') = normalizeCheckpointToolCallIDs E runID steps messages pending
                in case decode_tracker K vars of
                     Inl e \<Rightarrow> (w1, (st, b), Inl e)
                   | Inr tracker \<Rightarrow>
                       (case decode_usage K vars of
                          Inl e \<Rightarrow> (w1, (st, b), Inl e)
                        | Inr usage \<Rightarrow>
                            (w1, restoreApprovalCheckpointState K runID vars st b,
                             if messages' = []
                             then Inl (Errorf ''runtime: checkpoint messages for run %q are missing; the checkpoint may already have been consumed by a prior resume'' [runID] None)
                             else Inr \<lparr>RsPending = pending', RsMessages = messages', RsTracker = tracker, RsUsage = usage, RsSteps = steps,
                               RsReplans = checkpointIntVar K vars checkpointReplanAttemptsVar,
                               RsPrompt = applyHumanAmendment K vars (variableString K vars checkpointPromptVar),
                               RsAmendment = humanAmendmentText K vars\<rparr>)))))"

text \<open>
  The entry of a resume: which continuation runs, on which snapshot and under which trust. \<open>emitted\<close> is whether the caller has already
  announced the resume; otherwise the trigger is saved, and a failure of that is ignored.
\<close>

definition resumeTrustModeVar :: string where
  "resumeTrustModeVar = ''resume_trust_mode''"

definition resumeTriggerKindVar :: string where
  "resumeTriggerKindVar = ''resume_trigger_kind''"

definition persistResumeTriggerKind :: "checkpoint_codec \<Rightarrow> runner \<Rightarrow> gctx \<Rightarrow> string \<Rightarrow> string \<Rightarrow> world \<Rightarrow> world \<times> go_error option" where
  "persistResumeTriggerKind K R ctx runID kind w =
     engine_saveSnapshotWithRetry R ctx runID (\<lambda>s. Inr (set_var resumeTriggerKindVar (CkEncText K kind) s)) w"

definition continueAfterCheckpoint ::
  "tool_engine \<Rightarrow> checkpoint_codec \<Rightarrow> (dispatch_ctx \<Rightarrow> run_snapshot \<Rightarrow> world \<Rightarrow> world \<times> (go_error + 'r)) \<Rightarrow>
     (dispatch_ctx \<Rightarrow> run_snapshot \<Rightarrow> world \<Rightarrow> world \<times> (go_error + 'r)) \<Rightarrow> bool \<Rightarrow> dispatch_ctx \<Rightarrow> string \<Rightarrow> world \<Rightarrow> world \<times> (go_error + 'r)" where
  "continueAfterCheckpoint E K beforeFinal toolApproval emitted c runID w =
     (case load_run (ERunner E) (BaseCtx c) runID w of
        (w1, Inl e) \<Rightarrow> (w1, Inl e)
      | (w1, Inr snapshot) \<Rightarrow>
          if Status snapshot \<noteq> RunStatusRunning
          then (w1, Inl (Errorf ''runtime: continue requires running snapshot, got %s'' [status_text (Status snapshot)] None))
          else
            (let vars = variables_of snapshot; mode = variableString K vars resumeTrustModeVar;
                 c1 = (if mode = [] then c else c\<lparr>TrustFull := (mode = ''full_trust'')\<rparr>);
                 kind = variableString K vars checkpointKindVar
             in if checkpointBoolVar K vars checkpointPendingPauseVar
                then (w1, Inl (Errorf ''runtime: run %q carries an unconfirmed pause checkpoint (pending_pause); refusing to resume an unapproved checkpoint'' [runID] None))
                else (let w2 = (if emitted then w1 else fst (persistResumeTriggerKind K (ERunner E) (BaseCtx c1) runID ''hitl_resume'' w1)) in
                  if kind = ''before_final_answer'' then beforeFinal c1 snapshot w2
                  else if kind = ''tool_approval'' then toolApproval c1 snapshot w2
                  else (w2, Inl (Errorf ''runtime: unknown checkpoint kind %q'' [kind] None)))))"

section \<open>No gated tool runs unapproved\<close>

text \<open>The turn loop lets a call go on: it was first and did not pause, or it follows such a call in the same batch.\<close>

definition let_through :: "tool_engine \<Rightarrow> checkpoint_codec \<Rightarrow> turn_host \<Rightarrow> dispatch_ctx \<Rightarrow> string \<Rightarrow> run_agent \<Rightarrow> tool_call \<Rightarrow> approval_store \<Rightarrow> bool" where
  "let_through E K T c runID agent call st \<longleftrightarrow>
     (\<exists>calls messages ts w w'. TsApprovals ts = st \<and> maybePauseToolCall E K T c runID agent (call # calls) messages ts w = (w', Inr None))
     \<or> toolCallNeedsPause E c runID call = Inr False"

lemma let_through_pausing:
  assumes "let_through E K T c runID agent call st" and "map_of (Tools (EScenario E)) (CallName call) = Some t"
    and "pause_required E c runID t call = Inr True"
  shows "EGate E = None \<or> settled_by_orchestrator E runID call st = Inr True"
proof (cases "settled_by_orchestrator E runID call st")
  case (Inl e)
  with assms show ?thesis by (auto simp: let_through_def maybePauseToolCall_def toolCallNeedsPause_def)
next
  case (Inr b)
  with assms show ?thesis
    by (cases b) (auto simp: let_through_def maybePauseToolCall_def toolCallNeedsPause_def split: sum.splits option.splits if_splits prod.splits)
qed

lemma pause_required_named [simp]: "ToolApprovalPauseRequired (t\<lparr>ToolName := n\<rparr>) = ToolApprovalPauseRequired t"
  by (cases "ToolApproval t") (simp_all add: ToolApprovalPauseRequired_def risky_side_effect_def)

text \<open>
  C9: a tool whose approval policy asks for a human runs only after one allowed it. Outside full trust, if such a call came through the
  pause check of the turn loop without pausing, its dispatch executes nothing unless an allow decision for exactly this
  tool and input is remembered for the run: a remembered denial and a missing gate are both refused on the execution path.
\<close>

theorem gated_call_needs_approval:
  assumes "polite_hosts E" and "delegateTarget E agent (CallName call) = None"
    and "Orchestrator E = Some (\<lambda>st r tool input pause. Inr (DecideApproval (EJson E) st r tool input pause))"
    and "map_of (Tools (EScenario E)) (CallName call) = Some t" and "ToolApprovalPauseRequired t" and "\<not> TrustFull c"
    and "let_through E K T c runID agent call (DApprovals d)"
    and "dispatchToolWithOptions E answer c runID agent call opts d = (d', res)" and "\<not> OptApproved opts"
  shows "quiet_end d d' \<or> Store_Get (DApprovals d) runID (approval_key (EJson E) (CallName call) (CallInput call)) = Some DecisionAllow"
proof (cases "quiet_end d d'")
  case False
  with dispatch_quiet_or_passed [OF assms(1,2,8)] assms(6,9)
    chain_gates [OF assms(1), of "BaseCtx c" runID "OptApproved opts" agent call "TrustFull c" d]
  have g: "gates_pass E (BaseCtx c) runID agent call False False d" by simp
  have "EGate E \<noteq> None"
    using g assms(4,5)
    by (auto simp: gates_pass_def declared_tool_def DenialWithoutGate_def split: option.splits if_splits)
  moreover have "pause_required E c runID t call = Inr True"
    using assms(5,6) by (simp add: pause_required_def EvaluatePauseRequired_def)
  ultimately have s: "settled_by_orchestrator E runID call (DApprovals d) = Inr True"
    using let_through_pausing [OF assms(7,4)] by auto
  have "DecideApproval (EJson E) (DApprovals d) runID (CallName call) (CallInput call) False \<noteq> DecisionDeny"
    using g assms(3) by (auto simp: gates_pass_def not_cached_denied_def)
  with s assms(3) show ?thesis
    by (auto simp: settled_by_orchestrator_def DecideApproval_def split: option.splits)
qed simp

section \<open>Checkpoints come back\<close>

text \<open>
  \<^verbatim>\<open>encoding/json\<close> reads back what it wrote for the values of one checkpoint: lists become arrays and references objects. The inputs of
  calls are raw JSON that it writes in compact form, so this is a condition on the values.
\<close>

definition codec_reads :: "checkpoint_codec \<Rightarrow> tool_call list \<Rightarrow> lmessage list \<Rightarrow> turn_state \<Rightarrow> bool" where
  "codec_reads K pending messages ts \<longleftrightarrow>
     (\<forall>raw. CkEncCalls K pending = Inr raw \<longrightarrow> raw \<noteq> [] \<and> CkDecCalls K raw = Inr pending)
     \<and> (\<forall>raw. CkEncMessages K messages = Inr raw \<longrightarrow> (\<exists>body. raw = CHR ''['' # body) \<and> CkDecMessages K raw = Inr messages)
     \<and> (\<forall>ref raw. CkEncRef K ref = Inr raw \<longrightarrow> (\<exists>body. raw = CHR ''{'' # body \<and> trim_space raw = raw) \<and> CkDecRef K raw = Some ref)
     \<and> CkDecText K (CkEncText K (TsPrompt ts)) = Some (TsPrompt ts)
     \<and> CkDecBool K ''true'' = Some True
     \<and> CkDecInt K (int_text (TsSteps ts)) = Some (TsSteps ts) \<and> CkDecInt K (int_text (TsReplans ts)) = Some (TsReplans ts)
     \<and> trim_space (CkEncUsage K (TsUsage ts)) \<noteq> [] \<and> CkDecUsage K (CkEncUsage K (TsUsage ts)) = Inr (TsUsage ts)
     \<and> trim_space (tracker_MarshalJSON (CkTracker K) (TsTracker ts)) \<noteq> []
     \<and> ProbeKeys (CkTracker K) (tracker_MarshalJSON (CkTracker K) (TsTracker ts)) = Inr [''by_name'', ''by_same_input'']
     \<and> DecodeWire (CkTracker K) (tracker_MarshalJSON (CkTracker K) (TsTracker ts)) = Inr (ByName (TsTracker ts), BySameInput (TsTracker ts))"

definition identified :: "tool_call list \<Rightarrow> bool" where
  "identified calls = list_all (\<lambda>call. trim_space (CallID call) \<noteq> []) calls"

lemma ensure_identified: "identified calls \<Longrightarrow> ensureToolCallIDs E runID step calls = calls"
proof -
  have "map (\<lambda>(index, call). if trim_space (CallID call) \<noteq> [] then call else call\<lparr>CallID := stableToolCallID E runID step index call\<rparr>)
      (enumerate n calls) = calls" if "identified calls" for n
    using that by (induction calls arbitrary: n) (simp_all add: identified_def)
  then show "identified calls \<Longrightarrow> ?thesis" by (simp add: ensureToolCallIDs_def)
qed

lemma pending_identified:
  "identified calls \<Longrightarrow> map (\<lambda>(index, call). pending_id E runID step allCalls start index call) (enumerate n calls) = calls"
  by (induction calls arbitrary: n) (simp_all add: identified_def pending_id_def Let_def)

lemma last_calling_in: "last_calling ms = Some a \<Longrightarrow> a < length ms"
  by (auto simp: last_calling_def find_Some_iff rev_nth)

lemma normalize_identified:
  assumes "identified pending" and "list_all (\<lambda>m. identified (LToolCalls m)) messages"
  shows "normalizeCheckpointToolCallIDs E runID step messages pending = (messages, pending)"
proof (cases "last_calling messages")
  case None
  with assms(1) show ?thesis by (simp add: normalizeCheckpointToolCallIDs_def ensure_identified)
next
  case (Some a)
  with assms last_calling_in [OF Some] show ?thesis
    by (simp add: normalizeCheckpointToolCallIDs_def ensure_identified pending_identified list_all_length Let_def)
qed

lemma identified_normalized [simp]: "identified (NormalizeToolCallInputs A calls) = identified calls"
  by (simp add: identified_def NormalizeToolCallInputs_def list_all_iff)

lemma messages_normalized [simp]:
  "list_all (\<lambda>m. identified (LToolCalls m)) (NormalizeMessageToolInputs A ms) = list_all (\<lambda>m. identified (LToolCalls m)) ms"
  unfolding NormalizeMessageToolInputs_def list.pred_map comp_def
  by (rule list.pred_cong) simp_all

lemma identified_Nil [simp]: "identified []"
  by (simp add: identified_def)

lemma trim_bracket: "\<exists>body'. trim_space (CHR ''['' # body) = CHR ''['' # body'"
  by (simp add: trim_space_def trim_segments_def is_space_def in_range_def dropWhile_append3 bytes_of_def)

text \<open>The variables of a checkpoint have distinct names and every reader finds its own.\<close>

lemma checkpoint_keys_distinct: "distinct (map fst (tool_checkpoint_vars K T runID agent callsRaw messagesRaw ts))"
  by (auto simp: tool_checkpoint_vars_def checkpoint_vars split: option.splits)

lemma stored_vars:
  assumes "map_of (variables_of s) humanAmendmentVar = None"
    and "vars = variables_of (delete_var checkpointPendingPauseVar (with_vars (tool_checkpoint_vars K T runID agent callsRaw messagesRaw ts) s))"
  shows "map_of vars checkpointToolCallsVar = Some callsRaw" "map_of vars checkpointMessagesVar = Some messagesRaw"
    "map_of vars checkpointPromptVar = Some (CkEncText K (TsPrompt ts))" "map_of vars humanAmendmentVar = None"
    "map_of vars checkpointToolCountsVar = Some (tracker_MarshalJSON (CkTracker K) (TsTracker ts))"
    "map_of vars checkpointUsageVar = Some (CkEncUsage K (TsUsage ts))"
    "map_of vars checkpointStepsConsumedVar = Some (int_text (TsSteps ts))"
    "map_of vars checkpointReplanAttemptsVar = Some (int_text (TsReplans ts))"
  using assms(1) unfolding assms(2) variables_of_delete variables_of_with [OF checkpoint_keys_distinct]
  by (simp_all add: tool_checkpoint_vars_def checkpoint_vars split: option.splits)

lemma tick_blobs [simp]: "Blobs (snd (tick fenced w)) = Blobs w"
  by (simp split: list.split)

definition ctx_stays_live :: "world \<Rightarrow> bool" where
  "ctx_stays_live w = list_all (\<lambda>m. CtxNow m = None) (Moments w)"

lemma live_tick: "ctx_stays_live w \<Longrightarrow> CtxNow (fst (tick fenced w)) = None"
  by (auto simp: ctx_stays_live_def quiet_moment_def split: list.split)

lemma tenant_at_moment [simp]: "tenantIDFromContext (at_moment m ctx) = tenantIDFromContext ctx"
  by (simp add: at_moment_def tenantIDFromContext_def PrincipalFromContext_def)

text \<open>A stored variable comes back, from the snapshot or from the blob store.\<close>

lemma externalize_resolve:
  assumes "externalizeCheckpointVar K R ctx threshold raw w = (w1, Inr stored)" and "raw = CHR ''['' # body"
    and ref: "\<And>ref x. CkEncRef K ref = Inr x \<Longrightarrow> (\<exists>body. x = CHR ''{'' # body \<and> trim_space x = x) \<and> CkDecRef K x = Some ref"
    and "Blobs w2 = Blobs w1" and "ctx_stays_live w2"
  shows "stored \<noteq> [] \<and> (\<exists>w3. resolveCheckpointVar K R ctx stored w2 = (w3, Inr raw))"
proof (cases "threshold \<le> 0 \<or> int (length raw) \<le> threshold \<or> \<not> HasBlobs R")
  case True
  with assms(1) have "stored = raw" by (auto simp: externalizeCheckpointVar_def)
  moreover obtain body' where "trim_space raw = CHR ''['' # body'" using trim_bracket assms(2) by blast
  ultimately show ?thesis using assms(2) by (simp add: resolveCheckpointVar_def)
next
  case False
  obtain m wt where t: "tick (Fenced R) w = (m, wt)" by fastforce
  obtain bs res where p: "Blobs_Put (at_moment m ctx) (Blobs wt) raw = (bs, res)" by fastforce
  from assms(1) False t p obtain r where r: "res = Inr r" "CkEncRef K r = Inr stored" "Blobs w1 = bs"
    by (auto simp: externalizeCheckpointVar_def split: sum.splits)
  from ref [OF r(2)] obtain bd where s: "stored = CHR ''{'' # bd" "trim_space stored = stored" "CkDecRef K stored = Some r" by blast
  obtain m2 wt2 where t2: "tick (Fenced R) w2 = (m2, wt2)" by fastforce
  have "CtxErr (at_moment m2 ctx) = None" using live_tick [OF assms(5), of "Fenced R"] t2 by (simp add: at_moment_def)
  moreover have "Blobs wt2 = bs" using tick_blobs [of "Fenced R" w2] t2 assms(4) r(3) by simp
  ultimately have "Blobs_Get (at_moment m2 ctx) (Blobs wt2) r = Inr raw"
    using blob_put_get [of "at_moment m ctx" "Blobs wt" raw bs r "at_moment m2 ctx"] p r(1) by simp
  with s t2 False show ?thesis by (simp add: resolveCheckpointVar_def del: tick.simps)
qed

lemma int_text_nonempty [simp]: "int_text i \<noteq> []"
  by (simp add: int_text_def)

text \<open>
  C34: what a pause saves is what a resume goes on with. When a turn is encoded, its variables are written to the run, and the marker is
  removed once the gate has confirmed the approval, the resume gets back the pending calls and the conversation with normalized arguments,
  the committed tool counts, the token usage, the consumed steps, the replans and the prompt, also when the
  conversation went to the blob store and others write runs meanwhile. Until the marker is removed the run counts as unconfirmed.
\<close>

theorem checkpoint_roundtrip:
  assumes "codec_reads K (NormalizeToolCallInputs (CkArgs K) pending) (NormalizeMessageToolInputs (CkArgs K) messages) ts"
    and "encode_turn K (ERunner E) ctx threshold pending messages w = (w1, Inr (callsRaw, messagesRaw))"
    and "messages \<noteq> []" and "identified pending" and "list_all (\<lambda>m. identified (LToolCalls m)) messages"
    and "s' = with_vars (tool_checkpoint_vars K T runID agent callsRaw messagesRaw ts) s"
    and "map_of (variables_of s) humanAmendmentVar = None"
    and "Blobs w2 = Blobs w1" and "ctx_stays_live w2"
  shows "checkpointBoolVar K (variables_of s') checkpointPendingPauseVar
    \<and> snd (snd (restore_turn E K ctx runID (variables_of (delete_var checkpointPendingPauseVar s')) st b w2)) =
      Inr \<lparr>RsPending = NormalizeToolCallInputs (CkArgs K) pending, RsMessages = NormalizeMessageToolInputs (CkArgs K) messages,
        RsTracker = resumed (TsTracker ts), RsUsage = TsUsage ts, RsSteps = TsSteps ts, RsReplans = TsReplans ts,
        RsPrompt = TsPrompt ts, RsAmendment = []\<rparr>"
proof -
  let ?p = "NormalizeToolCallInputs (CkArgs K) pending" and ?m = "NormalizeMessageToolInputs (CkArgs K) messages"
  let ?vars = "variables_of (delete_var checkpointPendingPauseVar s')"
  note v = stored_vars [OF assms(7), of ?vars K T runID agent callsRaw messagesRaw ts, unfolded assms(6) [symmetric], OF refl]
  note c = assms(1) [unfolded codec_reads_def]
  from assms(2) obtain raw where enc: "CkEncCalls K ?p = Inr callsRaw" "CkEncMessages K ?m = Inr raw"
    "externalizeCheckpointVar K (ERunner E) ctx threshold raw w = (w1, Inr messagesRaw)"
    by (auto simp: encode_turn_def split: sum.splits prod.splits)
  from c enc(1) have calls: "callsRaw \<noteq> []" "CkDecCalls K callsRaw = Inr ?p" by auto
  from c enc(2) obtain body where msgs: "raw = CHR ''['' # body" "CkDecMessages K raw = Inr ?m" by auto
  obtain w3 where r: "messagesRaw \<noteq> []" "resolveCheckpointVar K (ERunner E) ctx messagesRaw w2 = (w3, Inr raw)"
    using externalize_resolve [OF enc(3) msgs(1) _ assms(8,9)] c by blast
  have "decode_calls K ?vars = Inr ?p" using v(1) calls by (cases callsRaw) (auto simp: decode_calls_def)
  moreover have "decode_messages K (ERunner E) ctx ?vars w2 = (w3, Inr ?m)"
    using v(2) r msgs(2) by (cases messagesRaw) (auto simp: decode_messages_def)
  moreover have "decode_tracker K ?vars = Inr (resumed (TsTracker ts))"
    using v(5) c tracker_checkpoint_roundtrip [of "CkTracker K" "TsTracker ts"]
    by (cases "tracker_MarshalJSON (CkTracker K) (TsTracker ts)") (auto simp: decode_tracker_def)
  moreover have "decode_usage K ?vars = Inr (TsUsage ts)"
    using v(6) c by (simp add: decode_usage_def decodeUsageTracker_def)
  moreover have "checkpointStepsConsumed K ?vars = TsSteps ts" "checkpointIntVar K ?vars checkpointReplanAttemptsVar = TsReplans ts"
    using v(7,8) c by (simp_all add: checkpointStepsConsumed_def checkpointIntVar_def)
  moreover have "variableString K ?vars checkpointPromptVar = TsPrompt ts" "humanAmendmentText K ?vars = []"
    using v(3,4) c by (simp_all add: variableString_def humanAmendmentText_def)
  moreover have "?m \<noteq> []" using assms(3) by (simp add: NormalizeMessageToolInputs_def)
  moreover have "checkpointBoolVar K (variables_of s') checkpointPendingPauseVar"
    using c unfolding assms(6) checkpointBoolVar_def variables_of_with [OF checkpoint_keys_distinct]
    by (simp add: tool_checkpoint_vars_def checkpoint_vars split: option.splits)
  ultimately show ?thesis
    using assms(4,5) by (simp add: restore_turn_def normalize_identified applyHumanAmendment_def Let_def)
qed

section \<open>Samples\<close>

text \<open>A codec for one turn, whose messages go to the blob store.\<close>

definition sample_turn_calls :: "tool_call list" where
  "sample_turn_calls = [sample_call]"

definition sample_turn_messages :: "lmessage list" where
  "sample_turn_messages = [\<lparr>LRole = RoleAssistant, LContent = [], LReasoning = [], LToolCalls = sample_turn_calls, LName = [], LToolCallID = [],
     LMetadata = []\<rparr>]"

definition sample_ref :: blob_ref where
  "sample_ref = NewBlobRef (hex_encode (sha256 ''[m]'')) ''[m]''"

definition sample_codec :: checkpoint_codec where
  "sample_codec = \<lparr>CkEncText = (\<lambda>t. t), CkDecText = Some, CkDecBool = (\<lambda>raw. if raw = ''true'' then Some True else None),
     CkDecInt = (\<lambda>raw. if raw = ''3'' then Some 3 else if raw = ''0'' then Some 0 else None),
     CkEncCalls = (\<lambda>cs. if cs = map (\<lambda>c. c\<lparr>CallInput := ''{}''\<rparr>) sample_turn_calls then Inr ''[c]'' else Inl (ErrHost ''calls'')),
     CkDecCalls = (\<lambda>_. Inr (map (\<lambda>c. c\<lparr>CallInput := ''{}''\<rparr>) sample_turn_calls)),
     CkEncMessages = (\<lambda>_. Inr ''[m]''),
     CkDecMessages = (\<lambda>_. Inr (map (\<lambda>m. m\<lparr>LToolCalls := map (\<lambda>c. c\<lparr>CallInput := ''{}''\<rparr>) (LToolCalls m)\<rparr>) sample_turn_messages)),
     CkEncRef = (\<lambda>ref. if ref = sample_ref then Inr ''{r}'' else Inl (ErrHost ''reference'')), CkDecRef = (\<lambda>_. Some sample_ref),
     CkTracker = \<lparr>EncodeWire = (\<lambda>_. ''c1''), ProbeKeys = (\<lambda>_. Inr [''by_name'', ''by_same_input'']), DecodeWire = (\<lambda>_. Inr ([], [])),
       DecodeLegacy = (\<lambda>_. Inr [])\<rparr>,
     CkEncUsage = (\<lambda>_. ''c1''), CkDecUsage = (\<lambda>_. Inr newUsageTracker), CkEncApprovals = (\<lambda>_. None), CkDecApprovals = (\<lambda>_. Inr []),
     CkArgs = \<lparr>DecodeText = (\<lambda>_. None), ValidArgs = (\<lambda>_. True)\<rparr>\<rparr>"

definition sample_host :: turn_host where
  "sample_host = \<lparr>WritePrompt = (\<lambda>runID agent prompt w. (w, None)), EncodePause = (\<lambda>call agent t kind evaluator. Inr []), EvaluatorName = None,
     EvaluatorType = [], WorkflowNode = []\<rparr>"

definition sample_turn :: turn_state where
  "sample_turn = \<lparr>TsPrompt = ''do it'', TsTracker = newToolCallTracker, TsUsage = newUsageTracker, TsSteps = 3, TsReplans = 0,
     TsApprovals = Map.empty, TsBreaker = None\<rparr>"

definition blob_engine :: tool_engine where
  "blob_engine = sample_engine\<lparr>ERunner := (ERunner sample_engine)\<lparr>HasBlobs := True\<rparr>\<rparr>"

lemma sample_digits: "int_text 3 = ''3''" "int_text 0 = ''0''"
  by (simp_all add: int_text_def nat_text.simps char_of_def bit_0)

lemma sample_normalized:
  "NormalizeToolCallInputs (CkArgs sample_codec) sample_turn_calls = map (\<lambda>c. c\<lparr>CallInput := ''{}''\<rparr>) sample_turn_calls"
  "NormalizeMessageToolInputs (CkArgs sample_codec) sample_turn_messages =
     map (\<lambda>m. m\<lparr>LToolCalls := map (\<lambda>c. c\<lparr>CallInput := ''{}''\<rparr>) (LToolCalls m)\<rparr>) sample_turn_messages"
  by (simp_all add: NormalizeToolCallInputs_def NormalizeMessageToolInputs_def sample_turn_calls_def sample_turn_messages_def sample_call_def
      NormalizeToolArguments_def empty_object_def)

lemma sample_brace: "trim_space ''{r}'' = ''{r}''"
  by (simp add: trim_space_def trim_segments_def is_space_def in_range_def)

lemma sample_codec_reads:
  "codec_reads sample_codec (NormalizeToolCallInputs (CkArgs sample_codec) sample_turn_calls)
     (NormalizeMessageToolInputs (CkArgs sample_codec) sample_turn_messages) sample_turn"
  unfolding sample_normalized codec_reads_def
  by (simp add: sample_codec_def sample_turn_def sample_digits tracker_MarshalJSON_def newToolCallTracker_def sample_brace)

lemma sample_encoded:
  "encode_turn sample_codec (ERunner blob_engine) Background 1 sample_turn_calls sample_turn_messages quiet_world =
     (quiet_world\<lparr>Blobs := [BlobID sample_ref \<mapsto> ''[m]'']\<rparr>, Inr (''[c]'', ''{r}''))"
  unfolding encode_turn_def sample_normalized
  by (simp add: sample_codec_def externalizeCheckpointVar_def blob_engine_def sample_engine_def quiet_world_def quiet_moment_def at_moment_def
      Blobs_Put_def NewBlobRefForContext_def NewBlobRef_def Let_def tenantIDFromContext_def PrincipalFromContext_def Background_def sample_ref_def)

theorem checkpoint_roundtrip_witness:
  "snd (snd (restore_turn blob_engine sample_codec Background ''r''
      (variables_of (delete_var checkpointPendingPauseVar (with_vars
         (tool_checkpoint_vars sample_codec sample_host ''r'' sample_run_agent ''[c]'' ''{r}'' sample_turn) running))) Map.empty None
      (quiet_world\<lparr>Blobs := [BlobID sample_ref \<mapsto> ''[m]'']\<rparr>))) =
    Inr \<lparr>RsPending = [sample_call\<lparr>CallInput := ''{}''\<rparr>],
      RsMessages = map (\<lambda>m. m\<lparr>LToolCalls := [sample_call\<lparr>CallInput := ''{}''\<rparr>]\<rparr>) sample_turn_messages,
      RsTracker = resumed newToolCallTracker, RsUsage = newUsageTracker, RsSteps = 3, RsReplans = 0, RsPrompt = ''do it'', RsAmendment = []\<rparr>"
proof -
  have ids: "identified sample_turn_calls" "list_all (\<lambda>m. identified (LToolCalls m)) sample_turn_messages" "sample_turn_messages \<noteq> []"
    by (simp_all add: identified_def sample_turn_calls_def sample_turn_messages_def sample_call_def)
  have a: "map_of (variables_of running) humanAmendmentVar = None" by (simp add: variables_of_def running_def sample_run_def)
  show ?thesis
    using checkpoint_roundtrip [OF sample_codec_reads sample_encoded ids(3,1,2) refl a, of "quiet_world\<lparr>Blobs := [BlobID sample_ref \<mapsto> ''[m]'']\<rparr>"
      sample_host "''r''" sample_run_agent Map.empty None]
    unfolding sample_normalized
    by (simp add: sample_turn_def ctx_stays_live_def quiet_world_def sample_turn_messages_def sample_turn_calls_def)
qed

text \<open>A call whose denial is remembered, with a gate to pause at.\<close>

definition pausing_engine :: tool_engine where
  "pausing_engine = sample_engine\<lparr>EScenario := zero_scenario\<lparr>Tools := [(''t'', sample_tool\<lparr>ToolApproval := ApprovalPause\<rparr>)]\<rparr>,
     EGate := Some (\<lambda>ctx st w. (w, Inr ''token'')),
     Orchestrator := Some (\<lambda>st r tool input pause. Inr (DecideApproval plain_tool_json st r tool input pause))\<rparr>"

definition denied_before :: dispatch_state where
  "denied_before = sample_state\<lparr>DApprovals := RememberDeny plain_tool_json ''r'' ''t'' [] (\<lambda>_. None)\<rparr>"

lemma sample_denied: "Store_Get (DApprovals denied_before) ''r'' (approval_key plain_tool_json ''t'' []) = Some DecisionDeny"
proof -
  have "length (approval_key plain_tool_json ''t'' []) = 64" by (simp add: approval_key_def)
  then have "approval_key plain_tool_json ''t'' [] \<noteq> []" by auto
  then show ?thesis by (simp add: denied_before_def RememberDeny_def Store_Get_Put durable_def)
qed

theorem gated_call_needs_approval_witness:
  "quiet_end denied_before (fst (sample_dispatch pausing_engine sample_run_agent denied_before))"
proof -
  have "settled_by_orchestrator pausing_engine ''r'' sample_call (DApprovals denied_before) = Inr True"
    using sample_denied by (simp add: settled_by_orchestrator_def pausing_engine_def sample_call_def DecideApproval_def)
  then have t: "let_through pausing_engine sample_codec sample_host sample_ctx ''r'' sample_run_agent sample_call (DApprovals denied_before)"
    unfolding let_through_def maybePauseToolCall_def
    by (intro disjI1 exI [of _ "[]"] exI [of _ "sample_turn\<lparr>TsApprovals := DApprovals denied_before\<rparr>"] exI [of _ quiet_world])
      (simp add: pausing_engine_def sample_call_def sample_ctx_def zero_scenario_def pause_required_def EvaluatePauseRequired_def ToolApprovalPauseRequired_def)
  have e: "polite_hosts pausing_engine" "delegateTarget pausing_engine sample_run_agent (CallName sample_call) = None"
    "Orchestrator pausing_engine = Some (\<lambda>st r tool input pause. Inr (DecideApproval (EJson pausing_engine) st r tool input pause))"
    "map_of (Tools (EScenario pausing_engine)) (CallName sample_call) = Some (sample_tool\<lparr>ToolApproval := ApprovalPause\<rparr>)"
    "ToolApprovalPauseRequired (sample_tool\<lparr>ToolApproval := ApprovalPause\<rparr>)" "\<not> TrustFull sample_ctx" "\<not> OptApproved sample_opts"
    by (simp_all add: polite_hosts_def pausing_engine_def sample_engine_def delegateTarget_def sample_run_agent_def sample_call_def zero_scenario_def
        ToolApprovalPauseRequired_def sample_ctx_def sample_opts_def)
  obtain d' res where d: "sample_dispatch pausing_engine sample_run_agent denied_before = (d', res)" by fastforce
  from gated_call_needs_approval [OF e(1-6) t d e(7)] sample_denied d show ?thesis
    by (simp add: pausing_engine_def sample_engine_def sample_call_def)
qed

section \<open>An evaluator without a gate\<close>

text \<open>
  A custom evaluator that asks for a pause is not heard when no human gate is configured: the agent loop does not pause and the approval
  gate of the dispatch looks at the static policy only, so the tool runs. The same tool in a workflow node is refused.
\<close>

definition wary_engine :: tool_engine where
  "wary_engine = sample_engine\<lparr>Evaluator := Some (\<lambda>runID t input. Inr True)\<rparr>"

theorem evaluator_bypassed_without_gate:
  "toolCallNeedsPause wary_engine sample_ctx ''r'' sample_call = Inr False
   \<and> \<not> quiet_end sample_state (fst (sample_dispatch wary_engine sample_run_agent sample_state))
   \<and> DenialWithoutGateWithEvaluator sample_tool (EGate wary_engine \<noteq> None) False (Evaluator wary_engine) ''r'' [] = Some no_gate"
proof -
  have E: "wary_engine = sample_engine\<lparr>Appended := [], Evaluator := Some (\<lambda>runID t input. Inr True), EGovernance := None\<rparr>"
    by (simp add: wary_engine_def sample_engine_def)
  obtain d res where d: "sample_dispatch wary_engine sample_run_agent sample_state = (d, res)" "ToolCalled ''t'' ''c1'' 1 \<in> set (DEvents d)"
    using sample_runs_with [of None "Some (\<lambda>runID t input. Inr True)"] unfolding E by auto
  then have "\<not> quiet_end sample_state d" by (auto simp: quiet_end_def sample_state_def)
  moreover have "EGate wary_engine = None" by (simp add: wary_engine_def sample_engine_def)
  moreover have "toolCallNeedsPause wary_engine sample_ctx ''r'' sample_call = Inr False"
    by (simp add: toolCallNeedsPause_def wary_engine_def sample_engine_def sample_call_def sample_ctx_def zero_scenario_def pause_required_def
        EvaluatePauseRequired_def)
  ultimately show ?thesis using d
    by (simp add: DenialWithoutGateWithEvaluator_def EvaluatePauseRequired_def ToolApprovalPauseRequired_def sample_tool_def wary_engine_def)
qed

end
