(* ===== verification/Run_Iteration.thy ===== *)
theory Run_Iteration
  imports Run_Terminal Tool_Turn
begin

text \<open>
  Recovery of an autonomous run after a crash: \<^verbatim>\<open>runtime_iteration.go\<close> of \<^verbatim>\<open>internal/application/runtime\<close>. At every boundary of the tool loop the
  messages since the last boundary are stored as a step output, anchored to the message they follow; a resume folds the stored pieces back
  into the conversation and restores budgets and approvals.
\<close>

section \<open>Numbers in keys\<close>

text \<open>\<^verbatim>\<open>strconv.Atoi\<close>: an optional sign and decimal digits within 64 bits.\<close>

fun dec_value :: "nat \<Rightarrow> string \<Rightarrow> nat option" where
  "dec_value acc [] = Some acc"
| "dec_value acc (c # cs) = (if 48 \<le> (of_char c :: nat) \<and> (of_char c :: nat) \<le> 57 then dec_value (10 * acc + (of_char c - 48)) cs else None)"

definition Atoi :: "string \<Rightarrow> int option" where
  "Atoi s =
     (let neg = (case s of c # _ \<Rightarrow> c = CHR ''-'' | [] \<Rightarrow> False);
          ds = (case s of c # cs \<Rightarrow> if c = CHR ''-'' \<or> c = CHR ''+'' then cs else s | [] \<Rightarrow> [])
      in if ds = [] then None
         else (case dec_value 0 ds of
             None \<Rightarrow> None
           | Some v \<Rightarrow> if neg then (if v \<le> 2 ^ 63 then Some (- int v) else None) else (if v < 2 ^ 63 then Some (int v) else None)))"

definition AutonomousIterationStepPrefix :: string where
  "AutonomousIterationStepPrefix = ''auto:iter:''"

definition autonomousIterationKey :: "int \<Rightarrow> string" where
  "autonomousIterationKey iteration = AutonomousIterationStepPrefix @ int_text iteration"

text \<open>The highest iteration among the outputs, in the order the map is walked.\<close>

fun latest_loop :: "(string \<times> step_output_ref) list \<Rightarrow> (int \<times> step_output_ref) option \<Rightarrow> (int \<times> step_output_ref) option" where
  "latest_loop [] best = best"
| "latest_loop ((key, ref) # outputs) best =
     (if \<not> has_prefix key AutonomousIterationStepPrefix then latest_loop outputs best
      else (case Atoi (drop (length AutonomousIterationStepPrefix) key) of
          None \<Rightarrow> latest_loop outputs best
        | Some n \<Rightarrow>
            if n \<le> 0 then latest_loop outputs best
            else latest_loop outputs (case best of None \<Rightarrow> Some (n, ref) | Some (m, r) \<Rightarrow> if m < n then Some (n, ref) else Some (m, r))))"

definition latestAutonomousIteration :: "(string \<times> step_output_ref) list \<Rightarrow> (int \<times> step_output_ref) option" where
  "latestAutonomousIteration outputs = latest_loop outputs None"

definition HasAutonomousIterationProgress :: "run_snapshot \<Rightarrow> bool" where
  "HasAutonomousIterationProgress s \<longleftrightarrow> latestAutonomousIteration (outputs_of s) \<noteq> None"

section \<open>Boundaries\<close>

record iteration_state =
  IsToolCounts :: bytes
  IsUsage :: bytes
  IsApprovals :: bytes
  IsDenyCount :: int
  IsSteps :: int
  IsReplans :: int

record iteration_envelope =
  EnvFormat :: string
  EnvBase :: int
  EnvBaseHash :: string
  EnvMessages :: "lmessage list"
  EnvState :: "iteration_state option"

text \<open>\<^verbatim>\<open>encoding/json\<close> on messages and envelopes, beside the codec of checkpoints.\<close>

record iteration_codec =
  IcCheckpoint :: checkpoint_codec
  IcEncMessage :: "lmessage \<Rightarrow> bytes option"
  IcEncEnvelope :: "iteration_envelope \<Rightarrow> go_error + bytes"
  IcDecEnvelope :: "bytes \<Rightarrow> go_error + iteration_envelope"

abbreviation normal :: "iteration_codec \<Rightarrow> lmessage list \<Rightarrow> lmessage list" where
  "normal C ms \<equiv> NormalizeMessageToolInputs (CkArgs (IcCheckpoint C)) ms"

definition iterationMessageHash :: "iteration_codec \<Rightarrow> lmessage \<Rightarrow> string" where
  "iterationMessageHash C m = (case IcEncMessage C (hd (normal C [m])) of
       None \<Rightarrow> [] | Some raw \<Rightarrow> ''sha256:'' @ hex_encode (sha256 raw))"

text \<open>The envelope a boundary stores, from the length and the anchor of the last one; 0 and the empty text when there is none.\<close>

definition boundary_envelope :: "iteration_codec \<Rightarrow> nat \<Rightarrow> string \<Rightarrow> lmessage list \<Rightarrow> iteration_envelope" where
  "boundary_envelope C base anchor messages =
     (let full = \<lparr>EnvFormat = ''full'', EnvBase = 0, EnvBaseHash = [], EnvMessages = normal C messages, EnvState = None\<rparr> in
      if 0 < base \<and> base \<le> length messages then
        (let prefixHash = iterationMessageHash C (messages ! (base - 1)) in
         if prefixHash \<noteq> [] \<and> prefixHash = anchor
         then \<lparr>EnvFormat = ''delta'', EnvBase = int base, EnvBaseHash = prefixHash, EnvMessages = normal C (drop base messages), EnvState = None\<rparr>
         else full)
      else full)"

definition autonomousIterationRunState :: "iteration_codec \<Rightarrow> string \<Rightarrow> tracker \<Rightarrow> int \<Rightarrow> int \<Rightarrow> run_memory \<Rightarrow> iteration_state" where
  "autonomousIterationRunState C runID tracker stepsConsumed replanAttempts m =
     (let K = IcCheckpoint C in
      \<lparr>IsToolCounts = tracker_MarshalJSON (CkTracker K) tracker,
       IsUsage = CkEncUsage K (case RmUsage m runID of None \<Rightarrow> newUsageTracker | Some u \<Rightarrow> u),
       IsApprovals = (case Store_ExportRun (CkEncApprovals K) runID (RmApprovals m) of None \<Rightarrow> [] | Some raw \<Rightarrow> raw),
       IsDenyCount = (case RmBreaker m of None \<Rightarrow> 0 | Some b \<Rightarrow> let n = Breaker_ExportRun runID b in if 0 < n then n else 0),
       IsSteps = stepsConsumed, IsReplans = replanAttempts\<rparr>)"

definition with_iteration :: "string \<Rightarrow> step_output_ref \<Rightarrow> run_snapshot \<Rightarrow> run_snapshot" where
  "with_iteration key ref s = s\<lparr>StepOutputs := Some (AList.update key ref (outputs_of s))\<rparr>"

definition known_base :: "run_memory \<Rightarrow> string \<Rightarrow> nat" where
  "known_base m runID = (case RmBases m runID of None \<Rightarrow> 0 | Some n \<Rightarrow> n)"

definition known_anchor :: "run_memory \<Rightarrow> string \<Rightarrow> string" where
  "known_anchor m runID = (case RmAnchors m runID of None \<Rightarrow> [] | Some a \<Rightarrow> a)"

definition persistAutonomousIteration ::
  "settle_env \<Rightarrow> iteration_codec \<Rightarrow> gctx \<Rightarrow> string \<Rightarrow> int \<Rightarrow> lmessage list \<Rightarrow> tracker \<Rightarrow> int \<Rightarrow> settle_state \<Rightarrow> settle_state \<times> go_error option" where
  "persistAutonomousIteration E C ctx runID iteration messages tracker replanAttempts st =
     (let m = StMemory st;
          envelope = (boundary_envelope C (known_base m runID) (known_anchor m runID) messages)\<lparr>EnvState :=
            Some (autonomousIterationRunState C runID tracker iteration replanAttempts m)\<rparr>;
          key = autonomousIterationKey iteration in
      case IcEncEnvelope C envelope of
        Inl e \<Rightarrow> (st, Some e)
      | Inr raw \<Rightarrow>
          (case engine_stepOutputRef (SeRunner E) ctx runID key (SeThreshold E) raw (StWorld st) of
             (w1, Inl e) \<Rightarrow> (st\<lparr>StWorld := w1\<rparr>, Some e)
           | (w1, Inr ref) \<Rightarrow>
               (case engine_saveSnapshotWithRetry (SeRunner E) ctx runID (\<lambda>s. Inr (with_iteration key ref s)) w1 of
                  (w2, Some e) \<Rightarrow> (st\<lparr>StWorld := w2\<rparr>, Some e)
                | (w2, None) \<Rightarrow>
                    (st\<lparr>StWorld := w2, StMemory := m\<lparr>RmBases := (RmBases m)(runID \<mapsto> length messages),
                        RmAnchors := (if messages = [] then RmAnchors m else (RmAnchors m)(runID \<mapsto> iterationMessageHash C (last messages)))\<rparr>\<rparr>, None))))"

section \<open>Rebuilding the conversation\<close>

definition fold_envelope :: "iteration_codec \<Rightarrow> string \<Rightarrow> int \<Rightarrow> iteration_envelope \<Rightarrow> lmessage list \<Rightarrow> go_error + lmessage list" where
  "fold_envelope C runID i envelope messages =
     (if EnvFormat envelope = ''full'' then Inr (EnvMessages envelope)
      else if EnvFormat envelope = ''delta'' then
        (if EnvBase envelope \<noteq> int (length messages)
         then Inl (Errorf ''runtime: persisted iteration %d for run %q has base %d, but the rebuilt conversation has %d messages''
             [int_text i, runID, int_text (EnvBase envelope), nat_text (length messages)] None)
         else if EnvBaseHash envelope \<noteq> [] \<and> (messages = [] \<or> iterationMessageHash C (last messages) \<noteq> EnvBaseHash envelope)
         then Inl (Errorf ''runtime: persisted iteration %d for run %q has a base anchor mismatch: the rebuilt prefix does not match the conversation the delta was written against''
             [int_text i, runID] None)
         else Inr (messages @ EnvMessages envelope))
      else Inl (Errorf ''runtime: persisted iteration %d for run %q has unknown format %q'' [int_text i, runID, EnvFormat envelope] None))"

text \<open>The loop over the boundaries; a missing one is skipped. \<open>store\<close> is the blob store, \<open>None\<close> without one.\<close>

fun load_iterations ::
  "iteration_codec \<Rightarrow> gctx \<Rightarrow> blobs option \<Rightarrow> string \<Rightarrow> (string \<times> step_output_ref) list \<Rightarrow> int list \<Rightarrow> lmessage list \<Rightarrow> iteration_state option
     \<Rightarrow> go_error + lmessage list \<times> iteration_state option" where
  "load_iterations C ctx store runID outputs [] messages state = Inr (messages, state)"
| "load_iterations C ctx store runID outputs (i # is) messages state =
     (case map_of outputs (autonomousIterationKey i) of
        None \<Rightarrow> load_iterations C ctx store runID outputs is messages state
      | Some ref \<Rightarrow>
          (case LoadStepOutput ctx store ref of
             Inl e \<Rightarrow> Inl (Errorf ''runtime: load persisted iteration %d for run %q: %w'' [int_text i, runID] (Some e))
           | Inr raw \<Rightarrow>
               (case IcDecEnvelope C raw of
                  Inl e \<Rightarrow> Inl (Errorf ''runtime: decode persisted iteration %d for run %q (legacy full-conversation checkpoints are no longer supported): %w''
                      [int_text i, runID] (Some e))
                | Inr envelope \<Rightarrow>
                    (case fold_envelope C runID i envelope messages of
                       Inl e \<Rightarrow> Inl e
                     | Inr messages1 \<Rightarrow> load_iterations C ctx store runID outputs is messages1 (EnvState envelope)))))"

definition loadAutonomousConversation ::
  "iteration_codec \<Rightarrow> gctx \<Rightarrow> blobs option \<Rightarrow> string \<Rightarrow> (string \<times> step_output_ref) list \<Rightarrow> int \<Rightarrow> go_error + lmessage list \<times> iteration_state option" where
  "loadAutonomousConversation C ctx store runID outputs through = load_iterations C ctx store runID outputs [1..through] [] None"

section \<open>Restoring the loop\<close>

definition restoreIterationRunState ::
  "iteration_codec \<Rightarrow> string \<Rightarrow> iteration_state option \<Rightarrow> int \<Rightarrow> run_memory \<Rightarrow> run_memory \<times> (go_error + tracker \<times> int \<times> int)" where
  "restoreIterationRunState C runID state iteration m =
     (case state of
        None \<Rightarrow> (m, Inr (newToolCallTracker, iteration, 0))
      | Some s \<Rightarrow>
          (let K = IcCheckpoint C in
           case (if IsToolCounts s = [] then Inr newToolCallTracker else decodeToolCallTracker (CkTracker K) (IsToolCounts s)) of
             Inl e \<Rightarrow> (m, Inl (Errorf ''runtime: decode iteration tool counts: %w'' [] (Some e)))
           | Inr tracker \<Rightarrow>
               (case decodeUsageTracker (CkDecUsage K) (IsUsage s) of
                  Inl e \<Rightarrow> (m, Inl (Errorf ''runtime: decode iteration usage: %w'' [] (Some e)))
                | Inr usage \<Rightarrow>
                    (let vars = (if IsApprovals s = [] then [] else [(checkpointApprovalsVar, IsApprovals s)])
                           @ (if 0 < IsDenyCount s then [(checkpointDenyCountVar, int_text (IsDenyCount s))] else []);
                         (approvals, brk) = restoreApprovalCheckpointState K runID vars (RmApprovals m) (RmBreaker m)
                     in (m\<lparr>RmUsage := (RmUsage m)(runID \<mapsto> usage), RmApprovals := approvals, RmBreaker := brk\<rparr>,
                         Inr (tracker, if 0 < IsSteps s then IsSteps s else iteration, IsReplans s))))))"

definition failContinuePermanent :: "settle_env \<Rightarrow> gctx \<Rightarrow> string \<Rightarrow> go_error \<Rightarrow> settle_state \<Rightarrow> settle_state \<times> (go_error + 'r)" where
  "failContinuePermanent E ctx runID e st = (markRunFailedPermanent E ctx runID e st, Inl e)"

text \<open>
  \<^verbatim>\<open>ResumeAutonomousFromIteration\<close>. What follows the rebuilt conversation, the lookup of agent, profile and model caller and the loop itself, is
  \<open>continue\<close>: it gets the trust mode, the variables, the messages and what \<open>restoreIterationRunState\<close> is to read.
\<close>

definition ResumeAutonomousFromIteration ::
  "settle_env \<Rightarrow> iteration_codec \<Rightarrow> (string \<Rightarrow> (string \<times> bytes) list \<Rightarrow> lmessage list \<Rightarrow> iteration_state option \<Rightarrow> int \<Rightarrow> settle_state \<Rightarrow> settle_state \<times> (go_error + 'r))
     \<Rightarrow> gctx \<Rightarrow> string \<Rightarrow> settle_state \<Rightarrow> settle_state \<times> (go_error + 'r)" where
  "ResumeAutonomousFromIteration E C continue ctx runID st =
     (case load_run (SeRunner E) ctx runID (StWorld st) of
        (w1, Inl e) \<Rightarrow> (st\<lparr>StWorld := w1\<rparr>, Inl e)
      | (w1, Inr snapshot) \<Rightarrow>
          (let st1 = st\<lparr>StWorld := w1\<rparr> in
           if Status snapshot \<noteq> RunStatusRunning
           then (st1, Inl (Errorf ''runtime: iteration resume requires running snapshot, got %s'' [status_text (Status snapshot)] None))
           else (case latestAutonomousIteration (outputs_of snapshot) of
               None \<Rightarrow> (st1, Inl (Errorf ''runtime: run %q has no persisted autonomous iteration progress'' [runID] None))
             | Some (iteration, _) \<Rightarrow>
                 (let (m, w2) = tick (Fenced (SeRunner E)) w1; st2 = st1\<lparr>StWorld := w2\<rparr> in
                  case loadAutonomousConversation C (at_moment m ctx) (if HasBlobs (SeRunner E) then Some (Blobs w2) else None) runID (outputs_of snapshot) iteration of
                    Inl e \<Rightarrow> failContinuePermanent E ctx runID e st2
                  | Inr (messages, state) \<Rightarrow>
                      if messages = []
                      then failContinuePermanent E ctx runID (Errorf ''runtime: persisted iteration messages for run %q are empty'' [runID] None) st2
                      else (let mem = StMemory st2; mem1 = mem\<lparr>RmBases := (RmBases mem)(runID \<mapsto> length messages),
                                RmAnchors := (RmAnchors mem)(runID \<mapsto> iterationMessageHash C (last messages))\<rparr>;
                                vars = variables_of snapshot in
                        continue (variableString (IcCheckpoint C) vars resumeTrustModeVar) vars messages state iteration (st2\<lparr>StMemory := mem1\<rparr>))))))"

section \<open>Keys and numbers\<close>

lemma dec_value_append: "dec_value acc (xs @ ys) = (case dec_value acc xs of None \<Rightarrow> None | Some a \<Rightarrow> dec_value a ys)"
  by (induction xs arbitrary: acc) auto

lemma dec_value_digit: "d < 10 \<Longrightarrow> dec_value acc [char_of (48 + d)] = Some (10 * acc + d)"
  by simp

lemma dec_value_text: "dec_value 0 (nat_text n) = Some n"
proof (induction n rule: nat_text.induct)
  case (1 n)
  show ?case
  proof (cases "n < 10")
    case True
    then show ?thesis using dec_value_digit [of n 0] by (simp add: nat_text.simps [of n])
  next
    case False
    with 1 dec_value_digit [of "n mod 10" "n div 10"] show ?thesis
      by (simp add: nat_text.simps [of n] dec_value_append)
  qed
qed

lemma nat_text_digits: "\<exists>c cs. nat_text n = c # cs \<and> c \<noteq> CHR ''-'' \<and> c \<noteq> CHR ''+''"
proof -
  obtain c cs where t: "nat_text n = c # cs" by (cases "nat_text n") auto
  with dec_value_text [of n] have "48 \<le> (of_char c :: nat)" by (simp split: if_splits)
  then have "c \<noteq> CHR ''-''" "c \<noteq> CHR ''+''" by auto
  with t show ?thesis by blast
qed

lemma Atoi_text: "0 \<le> i \<Longrightarrow> i < 2 ^ 63 \<Longrightarrow> Atoi (int_text i) = Some i"
proof -
  assume i: "0 \<le> i" "i < 2 ^ 63"
  obtain c cs where t: "nat_text (nat i) = c # cs" "c \<noteq> CHR ''-''" "c \<noteq> CHR ''+''" using nat_text_digits by blast
  have "dec_value 0 (c # cs) = Some (nat i)" by (simp only: t(1) [symmetric] dec_value_text)
  moreover have "nat i < 2 ^ 63" using i by simp
  ultimately show "Atoi (int_text i) = Some i" using t i by (simp add: Atoi_def int_text_def Let_def del: dec_value.simps)
qed

definition iteration_no :: "string \<Rightarrow> int option" where
  "iteration_no key = (if has_prefix key AutonomousIterationStepPrefix
     then (case Atoi (drop (length AutonomousIterationStepPrefix) key) of Some n \<Rightarrow> if 0 < n then Some n else None | None \<Rightarrow> None) else None)"

lemma iteration_no_key: "0 < i \<Longrightarrow> i < 2 ^ 63 \<Longrightarrow> iteration_no (autonomousIterationKey i) = Some i"
  by (simp add: iteration_no_def autonomousIterationKey_def has_prefix_def Atoi_text)

definition higher :: "int \<Rightarrow> step_output_ref \<Rightarrow> (int \<times> step_output_ref) option \<Rightarrow> int \<times> step_output_ref" where
  "higher n ref best = (case best of None \<Rightarrow> (n, ref) | Some (m, r) \<Rightarrow> if m < n then (n, ref) else (m, r))"

lemma latest_loop_Cons:
  "latest_loop ((key, ref) # outputs) best = latest_loop outputs (case iteration_no key of None \<Rightarrow> best | Some n \<Rightarrow> Some (higher n ref best))"
  by (simp add: iteration_no_def higher_def split: option.split prod.split)

lemma latest_loop_in:
  "latest_loop outputs best = Some (n, ref) \<Longrightarrow> best = Some (n, ref) \<or> (\<exists>k. (k, ref) \<in> set outputs \<and> iteration_no k = Some n)"
proof (induction outputs arbitrary: best)
  case (Cons o1 outputs)
  obtain key r where o1: "o1 = (key, r)" by (cases o1)
  from Cons.IH [OF Cons.prems [unfolded o1 latest_loop_Cons]] o1 show ?case
    by (auto simp: higher_def split: option.splits if_splits prod.splits)
qed simp

lemma latest_loop_max:
  "latest_loop outputs best = Some (n, ref) \<Longrightarrow> (\<forall>m r. best = Some (m, r) \<longrightarrow> m \<le> n) \<and> (\<forall>(k, r) \<in> set outputs. \<forall>m. iteration_no k = Some m \<longrightarrow> m \<le> n)"
proof (induction outputs arbitrary: best)
  case (Cons o1 outputs)
  obtain key r where o1: "o1 = (key, r)" by (cases o1)
  from Cons.IH [OF Cons.prems [unfolded o1 latest_loop_Cons]] o1 show ?case
    by (fastforce simp: higher_def split: option.splits if_splits prod.splits)
qed simp

text \<open>The iteration a resume starts from is the highest one stored; keys that are not numbers do not count.\<close>

lemma latest_is_highest:
  assumes "latestAutonomousIteration outputs = Some (n, ref)"
  shows "(\<exists>k. (k, ref) \<in> set outputs \<and> iteration_no k = Some n) \<and> (\<forall>(k, r) \<in> set outputs. \<forall>m. iteration_no k = Some m \<longrightarrow> m \<le> n)"
  using latest_loop_in [of outputs None n ref] latest_loop_max [of outputs None n ref] assms by (simp add: latestAutonomousIteration_def)

section \<open>What is stored is what is rebuilt\<close>

text \<open>
  The boundaries one worker stores, in order, with the conversation and the envelope of each. Between two of them anything may
  happen to the run, as long as the length and the anchor the engine remembers for it stay.
\<close>

inductive iterated :: "settle_env \<Rightarrow> iteration_codec \<Rightarrow> gctx \<Rightarrow> string \<Rightarrow> settle_state \<Rightarrow> (int \<times> lmessage list \<times> iteration_envelope) list \<Rightarrow> bool"
  for E C ctx runID where
  fresh: "RmBases (StMemory st) runID = None \<Longrightarrow> RmAnchors (StMemory st) runID = None \<Longrightarrow> iterated E C ctx runID st []"
| boundary: "iterated E C ctx runID st h \<Longrightarrow> RmBases (StMemory st1) runID = RmBases (StMemory st) runID \<Longrightarrow>
     RmAnchors (StMemory st1) runID = RmAnchors (StMemory st) runID \<Longrightarrow>
     persistAutonomousIteration E C ctx runID i ms tracker replans st1 = (st2, None) \<Longrightarrow>
     iterated E C ctx runID st2 (h @ [(i, ms, (boundary_envelope C (known_base (StMemory st1) runID) (known_anchor (StMemory st1) runID) ms)\<lparr>EnvState :=
       Some (autonomousIterationRunState C runID tracker i replans (StMemory st1))\<rparr>)])"

text \<open>
  A boundary ends with a message that calls no tool. The next conversation goes on from it, or was replaced in a way the anchor shows: it is
  shorter, or has another message where the stored one ended.
\<close>

definition boundary_ends :: "iteration_codec \<Rightarrow> lmessage list \<Rightarrow> bool" where
  "boundary_ends C ms \<longleftrightarrow> ms \<noteq> [] \<and> LToolCalls (last ms) = [] \<and> IcEncMessage C (last ms) \<noteq> None"

definition goes_on :: "iteration_codec \<Rightarrow> lmessage list \<Rightarrow> lmessage list \<Rightarrow> bool" where
  "goes_on C ms ms' \<longleftrightarrow> take (length ms) ms' = ms \<or> length ms' < length ms
     \<or> iterationMessageHash C (ms' ! (length ms - 1)) \<noteq> iterationMessageHash C (last ms)"

fun chained :: "iteration_codec \<Rightarrow> lmessage list list \<Rightarrow> bool" where
  "chained C (ms # ms' # mss) \<longleftrightarrow> boundary_ends C ms \<and> goes_on C ms ms' \<and> chained C (ms' # mss)"
| "chained C [ms] \<longleftrightarrow> boundary_ends C ms"
| "chained C [] \<longleftrightarrow> True"

text \<open>
  Encoding and decoding an envelope need not give its messages back byte for byte: arguments are written compactly, and bytes that are no text
  are replaced. \<open>canon\<close> is what a message reads back as.
\<close>

definition read_back :: "(lmessage \<Rightarrow> lmessage) \<Rightarrow> iteration_envelope \<Rightarrow> iteration_envelope" where
  "read_back canon env = env\<lparr>EnvMessages := map canon (EnvMessages env)\<rparr>"

fun rebuild :: "iteration_codec \<Rightarrow> (lmessage \<Rightarrow> lmessage) \<Rightarrow> string \<Rightarrow> (int \<times> lmessage list \<times> iteration_envelope) list \<Rightarrow> lmessage list \<Rightarrow> go_error + lmessage list" where
  "rebuild C canon runID [] acc = Inr acc"
| "rebuild C canon runID ((i, ms, env) # h) acc =
     (case fold_envelope C runID i (read_back canon env) acc of Inl e \<Rightarrow> Inl e | Inr acc1 \<Rightarrow> rebuild C canon runID h acc1)"

lemma rebuild_append:
  "rebuild C canon runID (h @ h') acc = (case rebuild C canon runID h acc of Inl e \<Rightarrow> Inl e | Inr acc1 \<Rightarrow> rebuild C canon runID h' acc1)"
  by (induction C canon runID h acc rule: rebuild.induct) (auto split: sum.split)

lemma chained_snoc: "chained C (mss @ [ms]) \<longleftrightarrow> chained C mss \<and> boundary_ends C ms \<and> (mss \<noteq> [] \<longrightarrow> goes_on C (last mss) ms)"
  by (induction C mss rule: chained.induct) auto

lemma normal_last: "boundary_ends C ms \<Longrightarrow> last (normal C ms) = last ms"
  by (simp add: boundary_ends_def NormalizeMessageToolInputs_def last_map)

lemma persist_memory:
  "persistAutonomousIteration E C ctx runID i ms tracker replans st = (st', None) \<Longrightarrow>
     RmBases (StMemory st') runID = Some (length ms) \<and> (ms \<noteq> [] \<longrightarrow> RmAnchors (StMemory st') runID = Some (iterationMessageHash C (last ms)))"
  by (auto simp: persistAutonomousIteration_def Let_def split: sum.splits prod.splits option.splits)

lemma fold_boundary:
  assumes "boundary_ends C ms" "goes_on C ms ms'" "iterationMessageHash C (canon (last ms)) = iterationMessageHash C (last ms)"
  shows "fold_envelope C runID i (read_back canon ((boundary_envelope C (length ms) (iterationMessageHash C (last ms)) ms')\<lparr>EnvState := s\<rparr>))
     (map canon (normal C ms)) = Inr (map canon (normal C ms'))"
proof -
  have n: "normal C xs = map (hd \<circ> normal C \<circ> (\<lambda>m. [m])) xs" for xs by (simp add: NormalizeMessageToolInputs_def)
  have l: "length (normal C ms) = length ms" "last (normal C ms) = last ms" "ms \<noteq> []" "normal C ms \<noteq> []"
    using assms(1) normal_last [OF assms(1)] by (auto simp: boundary_ends_def NormalizeMessageToolInputs_def)
  show ?thesis
  proof (cases "length ms \<le> length ms' \<and> iterationMessageHash C (ms' ! (length ms - 1)) \<noteq> [] \<and> iterationMessageHash C (ms' ! (length ms - 1)) = iterationMessageHash C (last ms)")
    case True
    with assms(2) have "take (length ms) ms' = ms" by (auto simp: goes_on_def)
    then have "normal C ms @ normal C (drop (length ms) ms') = normal C ms'"
      by (metis append_take_drop_id n map_append)
    then have "map canon (normal C ms) @ map canon (normal C (drop (length ms) ms')) = map canon (normal C ms')"
      by (metis map_append)
    with True l assms(3) show ?thesis by (simp add: boundary_envelope_def fold_envelope_def read_back_def last_map Let_def)
  next
    case False
    with l show ?thesis by (auto simp: boundary_envelope_def fold_envelope_def read_back_def Let_def)
  qed
qed

lemma iterated_rebuild:
  assumes "iterated E C ctx runID st h" "chained C (map (fst \<circ> snd) h)"
    and "\<forall>x \<in> set h. iterationMessageHash C (canon (last (fst (snd x)))) = iterationMessageHash C (last (fst (snd x)))"
  shows "if h = [] then RmBases (StMemory st) runID = None \<and> RmAnchors (StMemory st) runID = None
    else RmBases (StMemory st) runID = Some (length (fst (snd (last h)))) \<and> RmAnchors (StMemory st) runID = Some (iterationMessageHash C (last (fst (snd (last h)))))
      \<and> rebuild C canon runID h [] = Inr (map canon (normal C (fst (snd (last h)))))"
  using assms
proof (induction rule: iterated.induct)
  case (boundary st h st1 i ms tracker replans st2)
  from boundary.prems have c: "chained C (map (fst \<circ> snd) h)" "boundary_ends C ms" "h \<noteq> [] \<Longrightarrow> goes_on C (fst (snd (last h))) ms"
    by (auto simp: chained_snoc last_map comp_def)
  note IH = boundary.IH [OF c(1)] boundary.prems(2)
  have mem: "RmBases (StMemory st2) runID = Some (length ms)" "RmAnchors (StMemory st2) runID = Some (iterationMessageHash C (last ms))"
    using persist_memory [OF boundary(4)] c(2) by (auto simp: boundary_ends_def)
  let ?env = "(boundary_envelope C (known_base (StMemory st1) runID) (known_anchor (StMemory st1) runID) ms)\<lparr>EnvState := Some (autonomousIterationRunState C runID tracker i replans (StMemory st1))\<rparr>"
  have "rebuild C canon runID (h @ [(i, ms, ?env)]) [] = Inr (map canon (normal C ms))"
  proof (cases "h = []")
    case True
    with IH boundary(2,3) show ?thesis by (simp add: boundary_envelope_def fold_envelope_def read_back_def known_base_def Let_def)
  next
    case False
    let ?p = "fst (snd (last h))"
    have e: "boundary_ends C ?p" using c(1) False
      by (metis chained_snoc append_butlast_last_id list.map_disc_iff last_map comp_apply)
    from False IH boundary(2,3) have "known_base (StMemory st1) runID = length ?p" "known_anchor (StMemory st1) runID = iterationMessageHash C (last ?p)"
      "rebuild C canon runID h [] = Inr (map canon (normal C ?p))" "iterationMessageHash C (canon (last ?p)) = iterationMessageHash C (last ?p)"
      by (simp_all add: known_base_def known_anchor_def)
    with fold_boundary [OF e c(3) [OF False], of canon] show ?thesis by (simp add: rebuild_append)
  qed
  with mem show ?case by simp
qed simp

text \<open>The outputs of the run still hold the boundaries: what is stored under their keys loads to the bytes of their envelopes, and the holes between are empty.\<close>

definition still_stored :: "iteration_codec \<Rightarrow> gctx \<Rightarrow> blobs option \<Rightarrow> (string \<times> step_output_ref) list \<Rightarrow> int \<Rightarrow> (int \<times> lmessage list \<times> iteration_envelope) list \<Rightarrow> bool" where
  "still_stored C ctx store outputs through h \<longleftrightarrow>
     (\<forall>i ms env. (i, ms, env) \<in> set h \<longrightarrow> 1 \<le> i \<and> i \<le> through
        \<and> (\<exists>ref raw. map_of outputs (autonomousIterationKey i) = Some ref \<and> LoadStepOutput ctx store ref = Inr raw \<and> IcEncEnvelope C env = Inr raw))
     \<and> (\<forall>i. 1 \<le> i \<and> i \<le> through \<and> i \<notin> fst ` set h \<longrightarrow> map_of outputs (autonomousIterationKey i) = None)"

text \<open>What \<^verbatim>\<open>encoding/json\<close> is relied on for: the envelopes stored read back up to \<open>canon\<close>, and a message it read back is written as before.\<close>

definition envelopes_read :: "iteration_codec \<Rightarrow> (lmessage \<Rightarrow> lmessage) \<Rightarrow> (int \<times> lmessage list \<times> iteration_envelope) list \<Rightarrow> bool" where
  "envelopes_read C canon h \<longleftrightarrow> (\<forall>(i, ms, env) \<in> set h.
     (\<forall>raw. IcEncEnvelope C env = Inr raw \<longrightarrow> IcDecEnvelope C raw = Inr (read_back canon env))
     \<and> iterationMessageHash C (canon (last ms)) = iterationMessageHash C (last ms))"

lemma still_stored_range: "still_stored C ctx store outputs through h \<Longrightarrow> x \<in> set h \<Longrightarrow> 1 \<le> fst x \<and> fst x \<le> through"
  unfolding still_stored_def by (metis prod.collapse)

lemma load_rebuild:
  assumes "envelopes_read C canon h0" and "still_stored C ctx store outputs through h0"
  shows "sorted_wrt (<) (map fst h) \<Longrightarrow> set h = {x \<in> set h0. a \<le> fst x} \<Longrightarrow> 1 \<le> a \<Longrightarrow>
     load_iterations C ctx store runID outputs [a..through] acc st =
       (case rebuild C canon runID h acc of Inl e \<Rightarrow> Inl e | Inr ms \<Rightarrow> Inr (ms, if h = [] then st else EnvState (snd (snd (last h)))))"
proof (induction "nat (through + 1 - a)" arbitrary: a h acc st)
  case 0
  have "x \<notin> set h" for x using 0 still_stored_range [OF assms(2), of x] by auto
  then have "h = []" by (metis last_in_set)
  with 0 show ?case by simp
next
  case (Suc n)
  then have a: "a \<le> through" "[a..through] = a # [a + 1..through]" by (auto intro: upto_rec1)
  show ?case
  proof (cases "a \<in> fst ` set h0")
    case False
    then have "map_of outputs (autonomousIterationKey a) = None" using assms(2) a Suc.prems(3) by (auto simp: still_stored_def)
    moreover have "set h = {x \<in> set h0. a + 1 \<le> fst x}" using Suc.prems(2) False by force
    ultimately show ?thesis using Suc.hyps(1) [of "a + 1" h acc st] Suc.hyps(2) Suc.prems(1,3) a(2) by simp
  next
    case True
    then obtain x where x: "x \<in> set h" "fst x = a" using Suc.prems(2) by auto
    then obtain i ms env h' where h: "h = (i, ms, env) # h'" by (cases h) auto
    have "(i, ms, env) \<in> {x \<in> set h0. a \<le> fst x}" using Suc.prems(2) unfolding h by (metis list.set_intros(1))
    then have "a \<le> i" by simp
    moreover have "i \<le> a" using x Suc.prems(1) unfolding h by auto
    ultimately have i: "i = a" by simp
    then have m: "(a, ms, env) \<in> set h0" using Suc.prems(2) by (auto simp: h)
    then obtain ref raw where s: "map_of outputs (autonomousIterationKey a) = Some ref" "LoadStepOutput ctx store ref = Inr raw" "IcEncEnvelope C env = Inr raw"
      using assms(2) unfolding still_stored_def by blast
    then have "IcDecEnvelope C raw = Inr (read_back canon env)" using assms(1) m by (fastforce simp: envelopes_read_def)
    moreover have "set h' = {x \<in> set h0. a + 1 \<le> fst x}"
    proof -
      have "set h' = {x \<in> set h. a < fst x}" using Suc.prems(1) by (auto simp: h i)
      also have "\<dots> = {x \<in> set h0. a + 1 \<le> fst x}" unfolding Suc.prems(2) by (rule Collect_cong) auto
      finally show ?thesis .
    qed
    moreover have "sorted_wrt (<) (map fst h')" using Suc.prems(1) by (simp add: h)
    ultimately show ?thesis using Suc.hyps(1) [of "a + 1" h'] Suc.hyps(2) Suc.prems(3) a(2) s
      by (auto simp: h i read_back_def split: sum.split)
  qed
qed

text \<open>
  C16: a crashed run goes on with the conversation it had. Fold back the boundaries that were stored for a run, also when some steps stored
  none because the run paused in them: the result is the conversation at the last boundary, with tool arguments normalized and as JSON reads it
  back, and the budgets and approvals stored with it. The condition is that between two boundaries the conversation went on from the stored one, or
  was compacted so that it is shorter or has another message where the stored one ended: the anchor covers only that message.
\<close>

theorem conversation_roundtrip:
  assumes "iterated E C ctx0 runID st h" and "h \<noteq> []" and "chained C (map (fst \<circ> snd) h)" and "sorted_wrt (<) (map fst h)"
    and "envelopes_read C canon h" and "still_stored C ctx store outputs through h"
  shows "loadAutonomousConversation C ctx store runID outputs through =
    Inr (map canon (normal C (fst (snd (last h)))), EnvState (snd (snd (last h))))"
proof -
  have "set h = {x \<in> set h. 1 \<le> fst x}" using still_stored_range [OF assms(6)] by auto
  moreover have "\<forall>x \<in> set h. iterationMessageHash C (canon (last (fst (snd x)))) = iterationMessageHash C (last (fst (snd x)))"
    using assms(5) by (auto simp: envelopes_read_def)
  ultimately show ?thesis using load_rebuild [OF assms(5,6,4)] iterated_rebuild [OF assms(1,3)] assms(2)
    by (simp add: loadAutonomousConversation_def)
qed

text \<open>
  The anchor covers one message. A conversation that was compacted and has grown again past its old length, with the same message at the old end, is
  stored as a delta, and a resume puts the messages from before the compaction in front of it.
\<close>

theorem anchor_covers_one_message:
  assumes "length pre = length pre'" and "LToolCalls x = []" and "IcEncMessage C x \<noteq> None"
  shows "fold_envelope C runID i (boundary_envelope C (length (pre @ [x])) (iterationMessageHash C x) (pre' @ [x] @ rest)) (normal C (pre @ [x])) =
     Inr (normal C (pre @ [x]) @ normal C rest)"
proof -
  have h: "iterationMessageHash C x \<noteq> []" using assms(2,3) by (auto simp: iterationMessageHash_def NormalizeMessageToolInputs_def)
  have "(pre' @ [x] @ rest) ! length pre = x" "drop (Suc (length pre)) (pre' @ [x] @ rest) = rest" using assms(1) by simp_all
  with h assms(1,2) show ?thesis by (simp add: boundary_envelope_def fold_envelope_def NormalizeMessageToolInputs_def Let_def)
qed

section \<open>A sample recovery\<close>

definition say :: "string \<Rightarrow> lmessage" where
  "say t = \<lparr>LRole = RoleUser, LContent = t, LReasoning = [], LToolCalls = [], LName = [], LToolCallID = [], LMetadata = []\<rparr>"

definition state_at :: "int \<Rightarrow> iteration_state" where
  "state_at i = \<lparr>IsToolCounts = ''c1'', IsUsage = ''c1'', IsApprovals = [], IsDenyCount = 0, IsSteps = i, IsReplans = 0\<rparr>"

definition first_envelope :: iteration_envelope where
  "first_envelope = \<lparr>EnvFormat = ''full'', EnvBase = 0, EnvBaseHash = [], EnvMessages = [say ''a''], EnvState = Some (state_at 1)\<rparr>"

definition second_envelope :: iteration_envelope where
  "second_envelope = \<lparr>EnvFormat = ''delta'', EnvBase = 1, EnvBaseHash = ''sha256:'' @ hex_encode (sha256 ''a''), EnvMessages = [say ''b''], EnvState = Some (state_at 3)\<rparr>"

definition sample_iterations :: iteration_codec where
  "sample_iterations = \<lparr>IcCheckpoint = sample_codec, IcEncMessage = (\<lambda>m. Some (LContent m)),
     IcEncEnvelope = (\<lambda>env. if env = first_envelope then Inr ''e1'' else if env = second_envelope then Inr ''e2'' else Inl (ErrHost ''envelope'')),
     IcDecEnvelope = (\<lambda>raw. if raw = ''e1'' then Inr first_envelope else if raw = ''e2'' then Inr second_envelope else Inl (ErrHost ''bytes''))\<rparr>"

lemma sample_encodes: "IcEncEnvelope sample_iterations first_envelope = Inr ''e1''" "IcEncEnvelope sample_iterations second_envelope = Inr ''e2''"
  by (simp_all add: sample_iterations_def first_envelope_def second_envelope_def)

lemma sample_hash: "iterationMessageHash sample_iterations (say t) = ''sha256:'' @ hex_encode (sha256 t)"
  by (simp add: iterationMessageHash_def NormalizeMessageToolInputs_def say_def sample_iterations_def)

lemma sample_normal: "normal sample_iterations (map say ts) = map say ts"
  by (simp add: NormalizeMessageToolInputs_def say_def)

lemma sample_state: "RmApprovals m = Map.empty \<Longrightarrow> RmBreaker m = None \<Longrightarrow> RmUsage m ''r'' = None \<Longrightarrow>
    autonomousIterationRunState sample_iterations ''r'' newToolCallTracker i 0 m = state_at i"
  by (simp add: autonomousIterationRunState_def sample_iterations_def sample_codec_def state_at_def Store_ExportRun_def tracker_MarshalJSON_def Let_def)

lemma sample_saves:
  "snd (engine_saveSnapshotWithRetry plain_runner Background ''r'' (\<lambda>s. Inr (with_iteration ''auto:iter:1'' \<lparr>Inline = Some ''e1'', Blob = None\<rparr> s)) busy_world) = None"
  "snd (engine_saveSnapshotWithRetry plain_runner Background ''r'' (\<lambda>s. Inr (with_iteration ''auto:iter:3'' \<lparr>Inline = Some ''e2'', Blob = None\<rparr> s)) busy_world) = None"
  by code_simp+

lemma sample_keys: "autonomousIterationKey 1 = ''auto:iter:1''" "autonomousIterationKey 2 = ''auto:iter:2''" "autonomousIterationKey 3 = ''auto:iter:3''"
  by (simp_all add: autonomousIterationKey_def AutonomousIterationStepPrefix_def int_text_def nat_text.simps char_of_def bit_0 bit_Suc)

lemma sample_persist:
  assumes "boundary_envelope sample_iterations (known_base m ''r'') (known_anchor m ''r'') ms = env" "env\<lparr>EnvState := Some (state_at i)\<rparr> = env'"
    and "RmApprovals m = Map.empty" "RmBreaker m = None" "RmUsage m ''r'' = None" "IcEncEnvelope sample_iterations env' = Inr raw"
    and "snd (engine_saveSnapshotWithRetry plain_runner Background ''r'' (\<lambda>s. Inr (with_iteration (autonomousIterationKey i) \<lparr>Inline = Some raw, Blob = None\<rparr> s)) busy_world) = None"
  shows "\<exists>w. persistAutonomousIteration plain_settle sample_iterations Background ''r'' i ms newToolCallTracker 0 (busy_settle\<lparr>StMemory := m\<rparr>) =
     (\<lparr>StWorld = w, StMemory = m\<lparr>RmBases := (RmBases m)(''r'' \<mapsto> length ms),
         RmAnchors := (if ms = [] then RmAnchors m else (RmAnchors m)(''r'' \<mapsto> iterationMessageHash sample_iterations (last ms)))\<rparr>, StEvents = []\<rparr>, None)"
  using assms
  by (cases "engine_saveSnapshotWithRetry plain_runner Background ''r'' (\<lambda>s. Inr (with_iteration (autonomousIterationKey i) \<lparr>Inline = Some raw, Blob = None\<rparr> s)) busy_world")
    (simp add: persistAutonomousIteration_def sample_state plain_settle_def busy_settle_def engine_stepOutputRef_def stepOutputRef_def redact_def plain_runner_def Let_def)

definition sample_history :: "(int \<times> lmessage list \<times> iteration_envelope) list" where
  "sample_history = [(1, [say ''a''], first_envelope), (3, [say ''a'', say ''b''], second_envelope)]"

lemma sample_iterated: "\<exists>st. iterated plain_settle sample_iterations Background ''r'' st sample_history"
proof -
  let ?m1 = "empty_memory\<lparr>RmBases := [''r'' \<mapsto> 1], RmAnchors := [''r'' \<mapsto> ''sha256:'' @ hex_encode (sha256 ''a'')]\<rparr>"
  have b1: "boundary_envelope sample_iterations (known_base empty_memory ''r'') (known_anchor empty_memory ''r'') [say ''a''] = first_envelope\<lparr>EnvState := None\<rparr>"
    using sample_normal [of "[''a'']"] by (simp add: boundary_envelope_def known_base_def empty_memory_def first_envelope_def Let_def)
  have b2: "boundary_envelope sample_iterations (known_base ?m1 ''r'') (known_anchor ?m1 ''r'') [say ''a'', say ''b''] = second_envelope\<lparr>EnvState := None\<rparr>"
    using sample_normal [of "[''b'']"] by (simp add: boundary_envelope_def known_base_def known_anchor_def second_envelope_def sample_hash Let_def)
  have e1: "first_envelope\<lparr>EnvState := None, EnvState := Some (state_at 1)\<rparr> = first_envelope" by (simp add: first_envelope_def)
  have e2: "second_envelope\<lparr>EnvState := None, EnvState := Some (state_at 3)\<rparr> = second_envelope" by (simp add: second_envelope_def)
  have "\<exists>w1. persistAutonomousIteration plain_settle sample_iterations Background ''r'' 1 [say ''a''] newToolCallTracker 0 (busy_settle\<lparr>StMemory := empty_memory\<rparr>) =
      (\<lparr>StWorld = w1, StMemory = ?m1, StEvents = []\<rparr>, None)"
    using sample_persist [OF b1 e1 _ _ _ sample_encodes(1)] sample_saves(1) by (simp add: empty_memory_def sample_keys sample_hash)
  then obtain w1 where p1: "persistAutonomousIteration plain_settle sample_iterations Background ''r'' 1 [say ''a''] newToolCallTracker 0 (busy_settle\<lparr>StMemory := empty_memory\<rparr>) =
      (\<lparr>StWorld = w1, StMemory = ?m1, StEvents = []\<rparr>, None)" by blast
  have "\<exists>w2 m2. persistAutonomousIteration plain_settle sample_iterations Background ''r'' 3 [say ''a'', say ''b''] newToolCallTracker 0 (busy_settle\<lparr>StMemory := ?m1\<rparr>) =
      (\<lparr>StWorld = w2, StMemory = m2, StEvents = []\<rparr>, None)"
    using sample_persist [OF b2 e2 _ _ _ sample_encodes(2)] sample_saves(2) by (simp add: empty_memory_def sample_keys) blast
  then obtain w2 m2 where p2: "persistAutonomousIteration plain_settle sample_iterations Background ''r'' 3 [say ''a'', say ''b''] newToolCallTracker 0 (busy_settle\<lparr>StMemory := ?m1\<rparr>) =
      (\<lparr>StWorld = w2, StMemory = m2, StEvents = []\<rparr>, None)" by blast
  have "iterated plain_settle sample_iterations Background ''r'' (busy_settle\<lparr>StMemory := empty_memory\<rparr>) []"
    by (intro iterated.fresh) (simp_all add: empty_memory_def)
  from iterated.boundary [OF this refl refl p1] have
    i1: "iterated plain_settle sample_iterations Background ''r'' \<lparr>StWorld = w1, StMemory = ?m1, StEvents = []\<rparr> [(1, [say ''a''], first_envelope)]"
    using b1 by (simp add: sample_state empty_memory_def first_envelope_def)
  from iterated.boundary [OF i1 _ _ p2] show ?thesis
    using b2 by (auto simp: sample_state empty_memory_def second_envelope_def sample_history_def)
qed

theorem conversation_roundtrip_witness:
  "loadAutonomousConversation sample_iterations Background None ''r''
     [(''auto:iter:3'', \<lparr>Inline = Some ''e2'', Blob = None\<rparr>), (''auto:iter:1'', \<lparr>Inline = Some ''e1'', Blob = None\<rparr>)] 3 =
     Inr ([say ''a'', say ''b''], Some (state_at 3))"
proof -
  obtain st where i: "iterated plain_settle sample_iterations Background ''r'' st sample_history" using sample_iterated by blast
  let ?out = "[(''auto:iter:3'', \<lparr>Inline = Some ''e2'', Blob = None\<rparr>), (''auto:iter:1'', \<lparr>Inline = Some ''e1'', Blob = None\<rparr>)]"
  have "map_of ?out (autonomousIterationKey i) = None" if "1 \<le> i \<and> i \<le> 3 \<and> i \<notin> fst ` set sample_history" for i
  proof -
    from that have "i = 2" by (auto simp: sample_history_def)
    then show ?thesis by (simp add: sample_keys)
  qed
  then have "still_stored sample_iterations Background None ?out 3 sample_history"
    by (auto simp: still_stored_def sample_history_def sample_keys LoadStepOutput_def sample_encodes)
  moreover have "chained sample_iterations (map (fst \<circ> snd) sample_history)"
    by (simp add: sample_history_def boundary_ends_def goes_on_def say_def sample_iterations_def)
  moreover have "envelopes_read sample_iterations id sample_history"
    by (auto simp: envelopes_read_def sample_iterations_def sample_history_def read_back_def)
  ultimately show ?thesis
    using conversation_roundtrip [OF i, of id Background None ?out 3] sample_normal [of "[''a'', ''b'']"]
    by (simp add: sample_history_def second_envelope_def)
qed

end
