(* ===== verification/Agent_Plan.thy ===== *)
theory Agent_Plan
  imports Run_Iteration
begin

text \<open>
  The plan of an autonomous agent: \<^verbatim>\<open>runtime_planning.go\<close> asks a planner for steps, shows them to the model and asks again when the steps of the
  loop are used up; \<^verbatim>\<open>runtime_plan.go\<close> keeps the progress of the plan as the step output \<^verbatim>\<open>plan\<close> of the run.
\<close>

section \<open>Calls of a model\<close>

text \<open>The attempts of \<^verbatim>\<open>chatWithRetry\<close> and \<^verbatim>\<open>structuredWithRetry\<close>; \<open>ask\<close> is the host's model.\<close>

fun llm_attempts :: "nat \<Rightarrow> string \<Rightarrow> runner \<Rightarrow> (world \<Rightarrow> world \<times> 'r call_end) \<Rightarrow> world \<Rightarrow> world \<times> (go_error + 'r option)" where
  "llm_attempts 0 label R ask w = (w, Inr None)"
| "llm_attempts (Suc n) label R ask w =
     (case ctx_err R w of
        (w1, Some e) \<Rightarrow> (w1, Inl e)
      | (w1, None) \<Rightarrow>
          (case ask w1 of
             (w2, ending) \<Rightarrow>
               (case safecall_Invoke label ending of
                  Inr resp \<Rightarrow> (w2, Inr (Some resp))
                | Inl e \<Rightarrow>
                    (case ctx_err R w2 of
                       (w3, now) \<Rightarrow>
                         if \<not> Retryable now e \<or> n = 0 then (w3, Inl e)
                         else (case retryDelay R w3 of (w4, Some e') \<Rightarrow> (w4, Inl e') | (w4, None) \<Rightarrow> llm_attempts n label R ask w4)))))"

section \<open>The data\<close>

record plan_step =
  StepGoal :: string
  StepTool :: string
  StepStatus :: string

text \<open>
  The settings of the plan, the agents as the runtime reads them, and what is outside: the JSON of plans and their state, whether a profile
  supports structured output, and the two ways to ask the planner with a system and a user text.
\<close>

record plan_host =
  PlEnabled :: bool
  PlExecute :: bool
  PlReplanOnFailure :: bool
  PlAfterWorkflow :: bool
  SchemaPruning :: "string \<Rightarrow> bool"
  RunAgents :: "(string \<times> run_agent) list"
  AgentMaxSteps :: "run_agent \<Rightarrow> int"
  RtMaxSteps :: int
  DecodePlan :: "bytes \<Rightarrow> (string \<times> string) list option"
  DecodeSteps :: "bytes \<Rightarrow> go_error + plan_step list"
  EncodeSteps :: "plan_step list \<Rightarrow> go_error + bytes"
  StructuredPlans :: "string \<Rightarrow> bool"
  AskStructured :: "run_agent \<Rightarrow> string \<Rightarrow> string \<Rightarrow> world \<Rightarrow> world \<times> bytes call_end"
  AskChat :: "run_agent \<Rightarrow> string \<Rightarrow> string \<Rightarrow> world \<Rightarrow> world \<times> string call_end"

definition plan_executed :: "plan_host \<Rightarrow> bool" where
  "plan_executed P \<longleftrightarrow> PlEnabled P \<and> PlExecute P"

definition resolveAgent :: "plan_host \<Rightarrow> string \<Rightarrow> go_error + run_agent" where
  "resolveAgent P name =
     (let agents = RunAgents P in
      if name = [] \<and> agents = [] then Inl (Errorf ''runtime: no agents configured'' [] None)
      else if name = [] \<and> 1 < length agents
      then Inl (Errorf ''runtime: multiple agents configured (%s); specify the agent explicitly'' [join_with '', '' (sort_stable str_less (map fst agents))] None)
      else (let agentName = (if name = [] then fst (hd agents) else name) in
        case map_of agents agentName of
          None \<Rightarrow> Inl (Errorf ''runtime: agent %q not found'' [agentName] None)
        | Some a \<Rightarrow> Inr a))"

text \<open>The error of \<^verbatim>\<open>llmProfile\<close> for an engine that has a model; of the profile only sampling parameters are used here.\<close>

definition llmProfile_error :: "tool_engine \<Rightarrow> string \<Rightarrow> go_error option" where
  "llmProfile_error E name =
     (if name = [] then Some (Errorf ''runtime: agent llm profile is required'' [] None)
      else if map_of (LLMs (EScenario E)) name = None then Some (Errorf ''runtime: llm profile %q not found in scenario'' [name] None)
      else None)"

section \<open>Progress\<close>

definition step_pending :: "plan_step \<Rightarrow> bool" where
  "step_pending s \<longleftrightarrow> StepStatus s = ''pending''"

fun mark_first :: "(plan_step \<Rightarrow> bool) \<Rightarrow> plan_step list \<Rightarrow> plan_step list option" where
  "mark_first p [] = None"
| "mark_first p (s # ss) = (if p s then Some (s\<lparr>StepStatus := ''done''\<rparr> # ss) else map_option ((#) s) (mark_first p ss))"

definition markPlanStepDoneInState :: "plan_step list \<Rightarrow> string \<Rightarrow> plan_step list option" where
  "markPlanStepDoneInState steps toolName =
     (case (if toolName \<noteq> [] then mark_first (\<lambda>s. step_pending s \<and> StepTool s = toolName) steps else None) of
        Some steps' \<Rightarrow> Some steps'
      | None \<Rightarrow> mark_first (\<lambda>s. step_pending s \<and> StepTool s = []) steps)"

definition parsePlanSteps :: "plan_host \<Rightarrow> bytes \<Rightarrow> int \<Rightarrow> plan_step list" where
  "parsePlanSteps P rawPlan maxSteps =
     (case DecodePlan P rawPlan of
        None \<Rightarrow> []
      | Some plan \<Rightarrow>
          map (\<lambda>(goal, tool). \<lparr>StepGoal = goal, StepTool = tool, StepStatus = ''pending''\<rparr>)
            (filter (\<lambda>(goal, tool). goal \<noteq> []) (if 0 < maxSteps \<and> maxSteps < int (length plan) then take (nat maxSteps) plan else plan)))"

text \<open>The plan a snapshot has inline, with the outcome of decoding it.\<close>

definition stored_plan :: "plan_host \<Rightarrow> run_snapshot \<Rightarrow> (go_error + plan_step list) option" where
  "stored_plan P s = (case map_of (outputs_of s) ''plan'' of
       None \<Rightarrow> None
     | Some ref \<Rightarrow> (case Inline ref of Some (b # bs) \<Rightarrow> Some (DecodeSteps P (b # bs)) | _ \<Rightarrow> None))"

text \<open>What the readers use that give up on every error.\<close>

definition readable_plan :: "plan_host \<Rightarrow> tool_engine \<Rightarrow> gctx \<Rightarrow> string \<Rightarrow> world \<Rightarrow> world \<times> plan_step list" where
  "readable_plan P E ctx runID w =
     (case load_run (ERunner E) ctx runID w of
        (w1, Inl e) \<Rightarrow> (w1, [])
      | (w1, Inr s) \<Rightarrow> (w1, (case stored_plan P s of Some (Inr steps) \<Rightarrow> steps | _ \<Rightarrow> [])))"

definition done_count :: "plan_step list \<Rightarrow> string \<Rightarrow> nat" where
  "done_count steps tool = length (filter (\<lambda>s. StepStatus s = ''done'' \<and> StepTool s = tool) steps)"

definition donePlanStepToolCounts :: "plan_host \<Rightarrow> tool_engine \<Rightarrow> gctx \<Rightarrow> string \<Rightarrow> world \<Rightarrow> world \<times> (string \<Rightarrow> nat)" where
  "donePlanStepToolCounts P E ctx runID w =
     (case readable_plan P E ctx runID w of (w1, steps) \<Rightarrow> (w1, \<lambda>tool. if tool = [] then 0 else done_count steps tool))"

fun carry_done :: "plan_step list \<Rightarrow> (string \<Rightarrow> nat) \<Rightarrow> plan_step list" where
  "carry_done [] counts = []"
| "carry_done (s # ss) counts =
     (if StepTool s = [] \<or> counts (StepTool s) = 0 then s # carry_done ss counts
      else s\<lparr>StepStatus := ''done''\<rparr> # carry_done ss (counts(StepTool s := counts (StepTool s) - 1)))"

definition persistPlan :: "plan_host \<Rightarrow> tool_engine \<Rightarrow> gctx \<Rightarrow> string \<Rightarrow> bytes \<Rightarrow> int \<Rightarrow> world \<Rightarrow> world \<times> go_error option" where
  "persistPlan P E ctx runID rawPlan maxSteps w =
     (let steps = parsePlanSteps P rawPlan maxSteps in
      if steps = [] then (w, None)
      else (case donePlanStepToolCounts P E ctx runID w of
          (w1, counts) \<Rightarrow>
            (case EncodeSteps P (carry_done steps counts) of
               Inl e \<Rightarrow> (w1, Some e)
             | Inr raw \<Rightarrow> engine_saveStepOutput (ERunner E) ctx (StepOutputThreshold (Runtime (EScenario E))) runID ''plan'' (Inr raw) w1)))"

text \<open>The plan is encoded once; every attempt to save writes the same bytes.\<close>

definition plan_pass :: "tool_engine \<Rightarrow> gctx \<Rightarrow> string \<Rightarrow> bytes \<Rightarrow> nat \<Rightarrow> world \<Rightarrow> world \<times> go_error option pass" where
  "plan_pass E ctx runID raw attempt w =
     (case load_run (ERunner E) ctx runID w of
        (w1, Inl e) \<Rightarrow> (w1, Stop (Some e))
      | (w1, Inr s) \<Rightarrow>
          (case saveRunSnapshot (ERunner E) ctx (s\<lparr>StepOutputs := Some (AList.update ''plan'' \<lparr>Inline = Some raw, Blob = None\<rparr> (outputs_of s))\<rparr>) (Version s) w1 of
             (w2, None) \<Rightarrow> (w2, Stop None)
           | (w2, Some e) \<Rightarrow> if errors_is e ErrStaleSnapshot then (w2, Again) else (w2, Stop (Some e))))"

definition markPlanStepDone :: "plan_host \<Rightarrow> tool_engine \<Rightarrow> gctx \<Rightarrow> string \<Rightarrow> string \<Rightarrow> world \<Rightarrow> world \<times> go_error option" where
  "markPlanStepDone P E ctx runID toolName w =
     (case load_run (ERunner E) ctx runID w of
        (w1, Inl e) \<Rightarrow> (w1, Some e)
      | (w1, Inr s) \<Rightarrow>
          (case stored_plan P s of
             None \<Rightarrow> (w1, None)
           | Some (Inl e) \<Rightarrow> (w1, Some e)
           | Some (Inr steps) \<Rightarrow>
               (case markPlanStepDoneInState steps toolName of
                  None \<Rightarrow> (w1, None)
                | Some steps' \<Rightarrow>
                    (case EncodeSteps P steps' of
                       Inl e \<Rightarrow> (w1, Some e)
                     | Inr raw \<Rightarrow> passes 5 0 (plan_pass E ctx runID raw) (Some (Errorf ''runtime: failed to update plan execution state'' [] None)) w1))))"

fun markPlanStepsForBatch :: "plan_host \<Rightarrow> tool_engine \<Rightarrow> gctx \<Rightarrow> string \<Rightarrow> (tool_call \<times> call_result) list \<Rightarrow> world \<Rightarrow> world" where
  "markPlanStepsForBatch P E ctx runID [] w = w"
| "markPlanStepsForBatch P E ctx runID ((call, result) # items) w =
     (if \<not> plan_executed P then w
      else markPlanStepsForBatch P E ctx runID items
        (if ResError result \<noteq> [] then w else fst (markPlanStepDone P E ctx runID (CallName call) w)))"

section \<open>Reading the plan\<close>

definition nextPlannedToolName :: "plan_host \<Rightarrow> tool_engine \<Rightarrow> gctx \<Rightarrow> string \<Rightarrow> world \<Rightarrow> world \<times> string" where
  "nextPlannedToolName P E ctx runID w =
     (case readable_plan P E ctx runID w of (w1, steps) \<Rightarrow> (w1, case find step_pending steps of None \<Rightarrow> [] | Some s \<Rightarrow> StepTool s))"

definition planAllowedTools :: "plan_host \<Rightarrow> tool_engine \<Rightarrow> gctx \<Rightarrow> string \<Rightarrow> run_agent \<Rightarrow> world \<Rightarrow> world \<times> string list" where
  "planAllowedTools P E ctx runID agent w =
     (if \<not> plan_executed P \<or> \<not> SchemaPruning P (AgentLLM agent) then (w, [])
      else (case nextPlannedToolName P E ctx runID w of
          (w1, nextTool) \<Rightarrow> (w1, if nextTool = [] then [] else nextTool # map (delegateToolName E) (SubAgents agent))))"

definition planningToolHint :: "plan_host \<Rightarrow> tool_engine \<Rightarrow> gctx \<Rightarrow> string \<Rightarrow> world \<Rightarrow> world \<times> string" where
  "planningToolHint P E ctx runID w =
     (if \<not> plan_executed P then (w, [])
      else (case readable_plan P E ctx runID w of
          (w1, steps) \<Rightarrow> (w1, case find step_pending steps of
              None \<Rightarrow> []
            | Some s \<Rightarrow> if StepTool s \<noteq> [] then Sprintf E (''Next planned step prefers tool %q: %s'', [StepTool s, StepGoal s])
                else ''Next planned step: '' @ StepGoal s)))"

definition planningComplete :: "plan_host \<Rightarrow> tool_engine \<Rightarrow> gctx \<Rightarrow> string \<Rightarrow> world \<Rightarrow> world \<times> (go_error + bool)" where
  "planningComplete P E ctx runID w =
     (case load_run (ERunner E) ctx runID w of
        (w1, Inl e) \<Rightarrow> (w1, Inl e)
      | (w1, Inr s) \<Rightarrow> (w1, (case stored_plan P s of
            None \<Rightarrow> Inr True
          | Some (Inl e) \<Rightarrow> Inl (Errorf ''runtime: decode plan execution state for run %q: %w'' [runID] (Some e))
          | Some (Inr steps) \<Rightarrow> Inr (\<not> list_ex step_pending steps))))"

definition reminder_line :: "plan_step \<Rightarrow> string" where
  "reminder_line s =
     (let status = (if StepStatus s = [] then ''pending'' else StepStatus s) in
      ''- ['' @ status @ ''] '' @ StepGoal s @ (if StepTool s \<noteq> [] then '' (tool='' @ StepTool s @ '')'' else []) @ ''\<newline>'')"

definition compactReminder :: "plan_host \<Rightarrow> tool_engine \<Rightarrow> gctx \<Rightarrow> string \<Rightarrow> world \<Rightarrow> world \<times> string" where
  "compactReminder P E ctx runID w =
     (case readable_plan P E ctx runID w of
        (w1, steps) \<Rightarrow> (w1, if steps = [] then []
          else trim_space (''<system-reminder>\<newline>Active plan after context compaction:\<newline>'' @ concat (map reminder_line steps) @ ''</system-reminder>'')))"

section \<open>Making a plan\<close>

definition system_message :: "string \<Rightarrow> lmessage" where
  "system_message content = \<lparr>LRole = RoleSystem, LContent = content, LReasoning = [], LToolCalls = [], LName = [], LToolCallID = [], LMetadata = []\<rparr>"

definition appendPlanningHint :: "lmessage list \<Rightarrow> string \<Rightarrow> lmessage list" where
  "appendPlanningHint messages hint =
     (let h = trim_space hint in
      if h = [] then messages
      else if messages \<noteq> [] \<and> LRole (hd messages) = RoleSystem \<and> LContent (hd messages) = h then messages
      else system_message h # messages)"

definition planSystemMessagePrefix :: string where
  "planSystemMessagePrefix = ''Autonomous execution plan:\<newline>''"

definition plan_message :: "lmessage \<Rightarrow> bool" where
  "plan_message m \<longleftrightarrow> LRole m = RoleSystem \<and> has_prefix (LContent m) planSystemMessagePrefix"

definition stripPriorPlanSystemMessages :: "lmessage list \<Rightarrow> lmessage list" where
  "stripPriorPlanSystemMessages messages = filter (\<lambda>m. \<not> plan_message m) messages"

definition planningEnabled :: "plan_host \<Rightarrow> tool_engine \<Rightarrow> bool" where
  "planningEnabled P E =
     (let orch = Orch (EScenario E) in
      PlEnabled P \<and> (Mode orch \<noteq> OrchestrationHybrid \<or> MainWorkflow orch = None \<or> PlAfterWorkflow P))"

definition plannerUserContent :: "string \<Rightarrow> bytes \<Rightarrow> string" where
  "plannerUserContent prompt0 context =
     (let prompt = trim_space prompt0 in
      if context = [] then prompt
      else if prompt = [] then ''Workflow context:\<newline>'' @ context
      else prompt @ ''\<newline>\<newline>Workflow context:\<newline>'' @ context)"

definition plan_line :: "nat \<Rightarrow> string \<Rightarrow> string \<Rightarrow> string" where
  "plan_line index goal tool = nat_text (index + 1) @ ''. '' @ goal @ (if tool \<noteq> [] then '' (tool: '' @ tool @ '')'' else [])"

fun plan_lines :: "nat \<Rightarrow> (string \<times> string) list \<Rightarrow> string \<Rightarrow> string" where
  "plan_lines index [] b = b"
| "plan_lines index ((goal, tool) # steps) b =
     (if trim_space goal = [] then plan_lines (Suc index) steps b
      else plan_lines (Suc index) steps (b @ (if b \<noteq> [] then ''\<newline>'' else []) @ plan_line index (trim_space goal) tool))"

definition formatAutonomousPlan :: "plan_host \<Rightarrow> bytes \<Rightarrow> int \<Rightarrow> string" where
  "formatAutonomousPlan P raw maxSteps =
     (case DecodePlan P raw of
        Some (s # ss) \<Rightarrow> plan_lines 0 (if 0 < maxSteps \<and> maxSteps < int (length (s # ss)) then take (nat maxSteps) (s # ss) else s # ss) []
      | _ \<Rightarrow> trim_space raw)"

text \<open>The planner: the agent itself or the one that is configured, whose profile then has to exist.\<close>

definition planner_agent :: "plan_host \<Rightarrow> tool_engine \<Rightarrow> run_agent \<Rightarrow> go_error + run_agent" where
  "planner_agent P E agent =
     (let planner = PlanningAgent (Orch (EScenario E)) in
      if planner = [] then Inr agent
      else (case resolveAgent P planner of
          Inl e \<Rightarrow> Inl e
        | Inr a \<Rightarrow> (case llmProfile_error E (AgentLLM a) of Some e \<Rightarrow> Inl e | None \<Rightarrow> Inr a)))"

definition ask_planner :: "plan_host \<Rightarrow> tool_engine \<Rightarrow> run_agent \<Rightarrow> string \<Rightarrow> string \<Rightarrow> world \<Rightarrow> world \<times> (go_error + bytes)" where
  "ask_planner P E planner system user w =
     (let n = nat (maxAttempts E planner);
          (w1, res) = (if StructuredPlans P (AgentLLM planner)
            then llm_attempts n ''runtime: llm structured chat'' (ERunner E) (AskStructured P planner system user) w
            else llm_attempts n ''runtime: llm chat'' (ERunner E) (AskChat P planner system user) w)
      in (w1, (case res of Inl e \<Rightarrow> Inl e | Inr None \<Rightarrow> Inr [] | Inr (Some raw) \<Rightarrow> Inr raw)))"

definition plan_limit :: "plan_host \<Rightarrow> tool_engine \<Rightarrow> run_agent \<Rightarrow> int" where
  "plan_limit P E agent = firstPositive [PlanningMaxSteps (Orch (EScenario E)), AgentMaxSteps P agent, RtMaxSteps P, 5]"

definition injectAutonomousPlan ::
  "plan_host \<Rightarrow> tool_engine \<Rightarrow> gctx \<Rightarrow> string \<Rightarrow> run_agent \<Rightarrow> string \<Rightarrow> bytes \<Rightarrow> lmessage list \<Rightarrow> world \<Rightarrow> world \<times> (go_error + lmessage list)" where
  "injectAutonomousPlan P E ctx runID agent prompt context messages w =
     (case planner_agent P E agent of
        Inl e \<Rightarrow> (w, Inl e)
      | Inr planner \<Rightarrow>
          (let maxSteps = plan_limit P E agent;
               system = Sprintf E (''Create a concise execution plan with at most %d steps. Return JSON with a steps array; each step has goal and optional tool.'', [int_text maxSteps])
           in case ask_planner P E planner system (plannerUserContent prompt context) w of
                (w1, Inl e) \<Rightarrow> (w1, Inl e)
              | (w1, Inr rawPlan) \<Rightarrow>
                  (case (if PlExecute P then persistPlan P E ctx runID rawPlan maxSteps w1 else (w1, None)) of
                     (w2, Some e) \<Rightarrow> (w2, Inl e)
                   | (w2, None) \<Rightarrow>
                       (let planText = formatAutonomousPlan P rawPlan maxSteps in
                        (w2, Inr (if trim_space planText = [] then messages
                          else system_message (planSystemMessagePrefix @ planText) # stripPriorPlanSystemMessages messages))))))"

definition maybeReplan ::
  "plan_host \<Rightarrow> tool_engine \<Rightarrow> gctx \<Rightarrow> string \<Rightarrow> run_agent \<Rightarrow> string \<Rightarrow> lmessage list \<Rightarrow> world \<Rightarrow> world \<times> (go_error + lmessage list)" where
  "maybeReplan P E ctx runID agent prompt messages w =
     (if \<not> plan_executed P \<or> \<not> PlReplanOnFailure P then (w, Inr messages)
      else (case planningComplete P E ctx runID w of
          (w1, Inl e) \<Rightarrow> (w1, Inl e)
        | (w1, Inr True) \<Rightarrow> (w1, Inr messages)
        | (w1, Inr False) \<Rightarrow> injectAutonomousPlan P E ctx runID agent prompt [] messages w1))"

text \<open>
  What follows when the steps of the loop are used up. \<open>again\<close> is the loop itself, with the new conversation, the number of replans and the steps
  consumed; \<open>base\<close> is \<^verbatim>\<open>stepsConsumedBase\<close>.
\<close>

definition maxReplanAttempts :: int where
  "maxReplanAttempts = 3"

definition replanOrFail ::
  "plan_host \<Rightarrow> tool_engine \<Rightarrow> (lmessage list \<Rightarrow> int \<Rightarrow> int \<Rightarrow> world \<Rightarrow> world \<times> (go_error + string)) \<Rightarrow> gctx \<Rightarrow> string \<Rightarrow> run_agent \<Rightarrow> lmessage list
     \<Rightarrow> int \<Rightarrow> string \<Rightarrow> int \<Rightarrow> int \<Rightarrow> world \<Rightarrow> world \<times> (go_error + string)" where
  "replanOrFail P E again ctx runID agent messages maxSteps prompt replanAttempts base w =
     (let exhausted = Inl (Errorf ''%w=%d'' [int_text (base + maxSteps)] (Some ErrMaxStepsExceeded)) in
      if \<not> replanAttempts < maxReplanAttempts then (w, exhausted)
      else (case planningComplete P E ctx runID w of
          (w1, Inl e) \<Rightarrow> (w1, Inl e)
        | (w1, Inr True) \<Rightarrow> (w1, exhausted)
        | (w1, Inr False) \<Rightarrow>
            (case maybeReplan P E ctx runID agent prompt messages w1 of
               (w2, Inl e) \<Rightarrow> (w2, Inl e)
             | (w2, Inr replanned) \<Rightarrow>
                 if length messages < length replanned then again replanned (replanAttempts + 1) (base + maxSteps) w2 else (w2, exhausted))))"

section \<open>What progress means\<close>

text \<open>How many steps wait for a tool; steps without a tool wait for the empty name.\<close>

definition waiting :: "plan_step list \<Rightarrow> string \<Rightarrow> nat" where
  "waiting steps tool = length (filter (\<lambda>s. step_pending s \<and> StepTool s = tool) steps)"

text \<open>The plan after calls of tools that succeeded, in their order.\<close>

definition plan_after :: "plan_step list \<Rightarrow> string list \<Rightarrow> plan_step list" where
  "plan_after steps tools = foldl (\<lambda>ss tool. case markPlanStepDoneInState ss tool of None \<Rightarrow> ss | Some ss' \<Rightarrow> ss') steps tools"

text \<open>The calls of a tool that no step names any more, and the calls that therefore count for steps without a tool.\<close>

definition extra_calls :: "plan_step list \<Rightarrow> string list \<Rightarrow> string \<Rightarrow> nat" where
  "extra_calls steps tools tool = (if tool = [] then count_list tools [] else count_list tools tool - waiting steps tool)"

definition spare_calls :: "plan_step list \<Rightarrow> string list \<Rightarrow> nat" where
  "spare_calls steps tools = (\<Sum>tool\<in>set tools. extra_calls steps tools tool)"

text \<open>A step keeps its goal and tool, and its status unless it was pending and is done now.\<close>

definition step_kept :: "plan_step \<Rightarrow> plan_step \<Rightarrow> bool" where
  "step_kept s s' \<longleftrightarrow> s' = s \<or> step_pending s \<and> s' = s\<lparr>StepStatus := ''done''\<rparr>"

lemma step_kept_refl [simp]: "step_kept s s"
  by (simp add: step_kept_def)

lemma step_kept_trans: "step_kept a b \<Longrightarrow> step_kept b c \<Longrightarrow> step_kept a c"
  by (auto simp: step_kept_def step_pending_def)

lemma mark_first_None: "mark_first p ss = None \<longleftrightarrow> filter p ss = []"
  by (induction ss) auto

lemma mark_first_kept:
  "mark_first (\<lambda>s. step_pending s \<and> StepTool s = tool) ss = Some ss' \<Longrightarrow> list_all2 step_kept ss ss'"
  by (induction ss arbitrary: ss') (auto simp: step_kept_def list_all2_same intro: list.rel_refl split: if_splits)

lemma mark_first_waiting:
  "mark_first (\<lambda>s. step_pending s \<and> StepTool s = tool) ss = Some ss' \<Longrightarrow>
     0 < waiting ss tool \<and> waiting ss' u = (if u = tool then waiting ss u - 1 else waiting ss u)"
  by (induction ss arbitrary: ss') (auto simp: waiting_def step_pending_def split: if_splits)

lemma mark_first_none_waiting: "mark_first (\<lambda>s. step_pending s \<and> StepTool s = tool) ss = None \<longleftrightarrow> waiting ss tool = 0"
  by (simp add: mark_first_None waiting_def)

definition one_call :: "plan_step list \<Rightarrow> string \<Rightarrow> plan_step list" where
  "one_call ss tool = (case markPlanStepDoneInState ss tool of None \<Rightarrow> ss | Some ss' \<Rightarrow> ss')"

lemma plan_after_simps [simp]: "plan_after ss [] = ss" "plan_after ss (t # ts) = plan_after (one_call ss t) ts"
  by (simp_all add: plan_after_def one_call_def)

lemma one_call_kept: "list_all2 step_kept ss (one_call ss t)"
  by (auto simp: one_call_def markPlanStepDoneInState_def list_all2_same intro: list.rel_refl split: option.splits if_splits dest: mark_first_kept)

lemma one_call_waiting:
  "waiting (one_call ss t) u =
     (if t \<noteq> [] \<and> 0 < waiting ss t then (if u = t then waiting ss u - 1 else waiting ss u)
      else (if u = [] then waiting ss u - 1 else waiting ss u))"
  by (auto simp: one_call_def markPlanStepDoneInState_def mark_first_none_waiting split: option.splits if_splits dest: mark_first_waiting [where u = u])

lemma extra_calls_Cons:
  "extra_calls ss (t # ts) u = extra_calls (one_call ss t) ts u + (if u = t \<and> \<not> (t \<noteq> [] \<and> 0 < waiting ss t) then 1 else 0)"
  by (auto simp: extra_calls_def one_call_waiting)

lemma spare_calls_Cons:
  "spare_calls ss (t # ts) = (if t \<noteq> [] \<and> 0 < waiting ss t then 0 else 1) + spare_calls (one_call ss t) ts"
proof -
  have 1: "(\<Sum>u\<in>set (t # ts). extra_calls (one_call ss t) ts u) = spare_calls (one_call ss t) ts"
    unfolding spare_calls_def
    by (rule sum.mono_neutral_right) (auto simp: extra_calls_def count_list_0_iff)
  have "spare_calls ss (t # ts) = (\<Sum>u\<in>set (t # ts). extra_calls (one_call ss t) ts u)
      + (\<Sum>u\<in>set (t # ts). if u = t \<and> \<not> (t \<noteq> [] \<and> 0 < waiting ss t) then 1 else 0)"
    unfolding spare_calls_def extra_calls_Cons by (rule sum.distrib)
  also have "(\<Sum>u\<in>set (t # ts). if u = t \<and> \<not> (t \<noteq> [] \<and> 0 < waiting ss t) then 1 else (0::nat)) = (if t \<noteq> [] \<and> 0 < waiting ss t then 0 else 1)"
    by (auto simp: sum.delta)
  finally show ?thesis using 1 by simp
qed

lemma plan_after_kept: "list_all2 step_kept ss (plan_after ss ts)"
proof (induction ts arbitrary: ss)
  case Nil
  then show ?case by (auto simp: list_all2_same)
next
  case (Cons t ts)
  from list_all2_trans [of step_kept step_kept step_kept, OF step_kept_trans one_call_kept Cons.IH] show ?case by simp
qed

lemma plan_after_waiting: "tool \<noteq> [] \<Longrightarrow> waiting (plan_after ss ts) tool = waiting ss tool - count_list ts tool"
  by (induction ts arbitrary: ss) (auto simp: one_call_waiting)

lemma plan_after_spare: "waiting (plan_after ss ts) [] = waiting ss [] - spare_calls ss ts"
  by (induction ts arbitrary: ss) (auto simp: one_call_waiting spare_calls_Cons, simp add: spare_calls_def)

lemma no_pending: "\<not> list_ex step_pending ss \<longleftrightarrow> (\<forall>tool. waiting ss tool = 0)"
  by (auto simp: waiting_def list_ex_iff filter_empty_conv)

text \<open>
  C40: the plan credits every call to the right step, in any order. After a batch of successful calls the steps that wait for a tool
  are fewer by the calls of that tool, calls that no step names count for steps without a tool, no step changes otherwise, and so the plan is complete
  exactly when every tool was called as often as its steps ask and enough further calls were made.
\<close>

theorem plan_progress_exact:
  "list_all2 step_kept steps (plan_after steps tools)
   \<and> waiting (plan_after steps tools) tool = (if tool = [] then waiting steps [] - spare_calls steps tools else waiting steps tool - count_list tools tool)
   \<and> (\<not> list_ex step_pending (plan_after steps tools) \<longleftrightarrow>
        (\<forall>t. t = [] \<or> waiting steps t \<le> count_list tools t) \<and> waiting steps [] \<le> spare_calls steps tools)"
proof -
  have "\<not> list_ex step_pending (plan_after steps tools) \<longleftrightarrow>
      (\<forall>t. t = [] \<or> waiting steps t \<le> count_list tools t) \<and> waiting steps [] \<le> spare_calls steps tools"
    unfolding no_pending by (metis diff_is_0_eq plan_after_spare plan_after_waiting)
  then show ?thesis by (simp add: plan_after_kept plan_after_spare plan_after_waiting)
qed

section \<open>A new plan keeps what is done\<close>

text \<open>For every tool a new plan has as many steps done as the old one had, or all of its own.\<close>

lemma carry_done_exact:
  assumes "list_all step_pending steps" and "tool \<noteq> []"
  shows "done_count (carry_done steps counts) tool = min (waiting steps tool) (counts tool)
    \<and> waiting (carry_done steps counts) tool = waiting steps tool - counts tool"
  using assms by (induction steps counts rule: carry_done.induct) (auto simp: done_count_def waiting_def step_pending_def)

lemma parsed_pending: "list_all step_pending (parsePlanSteps P raw maxSteps)"
  by (auto simp: parsePlanSteps_def step_pending_def list_all_iff split: option.splits)

section \<open>Marking a step writes the plan that was read first\<close>

definition plan_written :: "bytes \<Rightarrow> run_snapshot \<Rightarrow> run_snapshot \<Rightarrow> bool" where
  "plan_written raw s s' \<longleftrightarrow> s' = s\<lparr>StepOutputs := Some (AList.update ''plan'' \<lparr>Inline = Some raw, Blob = None\<rparr> (outputs_of s))\<rparr>"

definition plan_result :: "tool_engine \<Rightarrow> gctx \<Rightarrow> string \<Rightarrow> bytes \<Rightarrow> world \<Rightarrow> world \<Rightarrow> go_error option \<Rightarrow> bool" where
  "plan_result E ctx runID raw w w' err \<longleftrightarrow> (case err of
       None \<Rightarrow> \<exists>u. by_others (Fenced (ERunner E)) w u \<and> atomic_update (Fenced (ERunner E)) ctx runID (plan_written raw) u w'
     | Some e \<Rightarrow> by_others (Fenced (ERunner E)) w w')"

lemma plan_pass_cases:
  assumes "bounded_moments w" and "repo_inv (Repo w)" and "plan_pass E ctx runID raw i w = (w', p)"
  shows "case p of Stop err \<Rightarrow> plan_result E ctx runID raw w w' err
    | Again \<Rightarrow> by_others (Fenced (ERunner E)) w w' \<and> bounded_moments w'"
proof -
  let ?R = "ERunner E"
  obtain w1 res where l: "load_run ?R ctx runID w = (w1, res)" by fastforce
  note o1 = load_run_by_others [OF l assms(1)]
  show ?thesis
  proof (cases res)
    case (Inl e)
    with assms(3) l o1 show ?thesis by (auto simp: plan_pass_def plan_result_def)
  next
    case (Inr s)
    let ?s = "s\<lparr>StepOutputs := Some (AList.update ''plan'' \<lparr>Inline = Some raw, Blob = None\<rparr> (outputs_of s))\<rparr>"
    obtain w2 err where sv: "saveRunSnapshot ?R ctx ?s (Version s) w1 = (w2, err)" by fastforce
    show ?thesis
    proof (cases err)
      case None
      with l Inr sv load_save_atomic [of ?R ctx runID w w1 s w1 ?s "Version s" w2 "plan_written raw"] assms o1
      have "\<exists>u. by_others (Fenced ?R) w u \<and> atomic_update (Fenced ?R) ctx runID (plan_written raw) u w2"
        by (simp add: plan_written_def)
      with None assms(3) l Inr sv show ?thesis by (auto simp: plan_pass_def plan_result_def)
    next
      case (Some e)
      note o2 = saveRunSnapshot_failed [OF sv [unfolded Some] o1(2)]
      with assms(3) l Inr sv Some by_others_trans [OF o1(1) o2(1)] show ?thesis
        by (auto simp: plan_pass_def plan_result_def split: if_splits)
    qed
  qed
qed

lemma plan_passes:
  assumes "passes n i (plan_pass E ctx runID raw) (Some e0) w = (w', err)" and "bounded_moments w" and "repo_inv (Repo w)"
  shows "plan_result E ctx runID raw w w' err"
  using assms(1)
proof (rule passes_rule [where fenced = "Fenced (ERunner E)" and P = "plan_result E ctx runID raw", rotated 4])
  fix i w w1
  assume "bounded_moments w" "repo_inv (Repo w)" "plan_pass E ctx runID raw i w = (w1, Again)"
  then show "by_others (Fenced (ERunner E)) w w1 \<and> bounded_moments w1" by (auto dest: plan_pass_cases)
next
  fix i w w1 x
  assume "bounded_moments w" "repo_inv (Repo w)" "plan_pass E ctx runID raw i w = (w1, Stop x)"
  then show "plan_result E ctx runID raw w w1 x" by (auto dest: plan_pass_cases)
next
  fix r r' w x
  assume "by_others (Fenced (ERunner E)) r r'" "plan_result E ctx runID raw r' w x"
  then show "plan_result E ctx runID raw r w x"
    by (cases x) (auto simp: plan_result_def intro: by_others_trans)
qed (use assms in \<open>simp_all add: plan_result_def\<close>)

text \<open>
  However often the save is repeated, it writes the plan computed from the first read over whatever plan the run has by then: of two writers that mark a
  step at the same time, or of a marking and a new plan, one is lost.
\<close>

theorem plan_mark_writes_first_read:
  assumes "markPlanStepDone P E ctx runID toolName w = (w', err)" and "load_run (ERunner E) ctx runID w = (w1, Inr s)"
    and "stored_plan P s = Some (Inr steps)" and "markPlanStepDoneInState steps toolName = Some steps'" and "EncodeSteps P steps' = Inr raw"
    and "bounded_moments w" and "repo_inv (Repo w)"
  shows "plan_result E ctx runID raw w1 w' err"
proof -
  from load_run_by_others [OF assms(2,6)] have o: "by_others (Fenced (ERunner E)) w w1" "bounded_moments w1" by auto
  show ?thesis
    by (rule plan_passes [OF _ o(2) by_others_inv [OF o(1) assms(7)]]) (use assms(1-5) in \<open>simp add: markPlanStepDone_def\<close>)
qed

section \<open>Replanning\<close>

lemma inject_length:
  assumes "injectAutonomousPlan P E ctx runID agent prompt context messages w = (w', Inr planned)" and "list_ex plan_message messages"
  shows "length planned \<le> length messages"
proof -
  have "length (stripPriorPlanSystemMessages messages) < length messages"
    using assms(2) unfolding stripPriorPlanSystemMessages_def
    by (metis (no_types, lifting) length_filter_less list_ex_iff)
  with assms(1) show ?thesis
    by (auto simp: injectAutonomousPlan_def Let_def split: sum.splits prod.splits option.splits if_splits)
qed

text \<open>
  A conversation that shows a plan is never continued with a new one. The new plan takes the place of the old, so the conversation does not get
  longer, and the check that it did fails: the planner is asked, the new plan is stored, and the run ends as having used up its steps.
\<close>

theorem shown_plan_stops_replanning:
  assumes "list_ex plan_message messages" and "replanOrFail P E again ctx runID agent messages maxSteps prompt replanAttempts base w = (w', res)"
  shows "\<exists>e. res = Inl e"
proof (rule ccontr)
  assume "\<nexists>e. res = Inl e"
  with assms(2) obtain w1 w2 replanned where "maybeReplan P E ctx runID agent prompt messages w1 = (w2, Inr replanned)" "length messages < length replanned"
    by (auto simp: replanOrFail_def Let_def split: sum.splits prod.splits bool.splits if_splits)
  with inject_length [OF _ assms(1)] show False
    by (auto simp: maybeReplan_def split: sum.splits prod.splits bool.splits if_splits)
       (metis leD)+
qed

end
