(* ===== verification/Tool_Policy.thy ===== *)
theory Tool_Policy
  imports Tool_Gates Go_Json
begin

text \<open>
  The policies and the redactor of \<^verbatim>\<open>pkg/governance\<close>. A policy takes the state of the context, the run and the invocation; a nil
  policy in a chain is \<open>None\<close>. Lower-casing and the JSON codec are parameters of the redactor.
\<close>

section \<open>Policies\<close>

type_synonym tool_policy = "go_error option \<Rightarrow> string \<Rightarrow> tool_invocation \<Rightarrow> go_error option"

fun sideEffectRank :: "side_effect_level \<Rightarrow> int" where
  "sideEffectRank SideEffectNone = 0"
| "sideEffectRank SideEffectRead = 1"
| "sideEffectRank SideEffectWrite = 2"
| "sideEffectRank SideEffectExternal = 3"
| "sideEffectRank SideEffectDangerous = 4"
| "sideEffectRank (SideEffectOther level) = (if level = [] then 0 else 4)"

fun side_effect_text :: "side_effect_level \<Rightarrow> string" where
  "side_effect_text SideEffectNone = ''none''"
| "side_effect_text SideEffectRead = ''read''"
| "side_effect_text SideEffectWrite = ''write''"
| "side_effect_text SideEffectExternal = ''external''"
| "side_effect_text SideEffectDangerous = ''dangerous''"
| "side_effect_text (SideEffectOther level) = level"

definition NewMaxSideEffectPolicy :: "side_effect_level \<Rightarrow> tool_policy" where
  "NewMaxSideEffectPolicy level ctxErr runID invocation = (case ctxErr of
       Some e \<Rightarrow> Some e
     | None \<Rightarrow> if sideEffectRank level < sideEffectRank (InvSideEffect invocation)
         then Some (Errorf ''%w: tool %q side effect %q exceeds allowed %q''
           [InvTool invocation, side_effect_text (InvSideEffect invocation), side_effect_text level] (Some ErrDenied))
         else None)"

definition NewToolBudgetPolicy :: "int \<Rightarrow> tool_policy" where
  "NewToolBudgetPolicy maxCalls ctxErr runID invocation = (case ctxErr of
       Some e \<Rightarrow> Some e
     | None \<Rightarrow> if 0 < maxCalls \<and> maxCalls \<le> InvTotalCalls invocation
         then Some (Errorf ''%w: run tool budget exceeded: %d call(s)'' [int_text maxCalls] (Some ErrDenied))
         else None)"

fun ChainToolPolicies :: "tool_policy option list \<Rightarrow> tool_policy" where
  "ChainToolPolicies [] ctxErr runID invocation = None"
| "ChainToolPolicies (None # policies) ctxErr runID invocation = ChainToolPolicies policies ctxErr runID invocation"
| "ChainToolPolicies (Some policy # policies) ctxErr runID invocation = (case policy ctxErr runID invocation of
       Some e \<Rightarrow> Some e | None \<Rightarrow> ChainToolPolicies policies ctxErr runID invocation)"

section \<open>The redactor\<close>

text \<open>The fields are walked in the order of the object; changing entries while ranging over them visits each once.\<close>

fun redactValue :: "(string \<Rightarrow> string) \<Rightarrow> string set \<Rightarrow> json \<Rightarrow> json" where
  "redactValue lower names (JObject entries) =
     JObject (map (\<lambda>(key, child). (key, if lower key \<in> names then JString ''[REDACTED]'' else redactValue lower names child)) entries)"
| "redactValue lower names (JArray items) = JArray (map (redactValue lower names) items)"
| "redactValue lower names v = v"

definition redacted_fields :: "(string \<Rightarrow> string) \<Rightarrow> string list \<Rightarrow> string set" where
  "redacted_fields lower names = set (filter (\<lambda>f. f \<noteq> []) (map (\<lambda>f. trim_space (lower f)) names))"

definition NewJSONFieldRedactor ::
  "(string \<Rightarrow> string) \<Rightarrow> (bytes \<Rightarrow> go_error + json) \<Rightarrow> (json \<Rightarrow> go_error + bytes) \<Rightarrow> string list \<Rightarrow> go_error option \<Rightarrow> bytes \<Rightarrow> go_error + bytes" where
  "NewJSONFieldRedactor lower decode encode names ctxErr data =
     (let redacted = redacted_fields lower names in
      case ctxErr of
        Some e \<Rightarrow> Inl e
      | None \<Rightarrow>
          if data = [] \<or> redacted = {} then Inr data
          else (case decode data of
              Inl e \<Rightarrow> Inl (Errorf ''governance: decode output for redaction: %w'' [] (Some e))
            | Inr v \<Rightarrow> (case encode (redactValue lower redacted v) of
                  Inl e \<Rightarrow> Inl (Errorf ''governance: encode redacted output: %w'' [] (Some e))
                | Inr out \<Rightarrow> Inr out)))"

text \<open>Payloads of events: \<^verbatim>\<open>pkg/governance/event.go\<close>. The redactor takes the step, the kind and the data.\<close>

definition RedactEventPayload :: "(string \<Rightarrow> string \<Rightarrow> bytes \<Rightarrow> go_error + bytes) option \<Rightarrow> string \<Rightarrow> bytes \<Rightarrow> bytes" where
  "RedactEventPayload redactor typ payload = (case redactor of
       None \<Rightarrow> payload
     | Some hide \<Rightarrow>
         if payload = [] then payload
         else (case hide ''event'' (''event.'' @ typ) payload of
             Inl _ \<Rightarrow> payload
           | Inr redacted \<Rightarrow> if redacted = [] then payload else redacted))"

section \<open>What a chain allows\<close>

lemma ChainToolPolicies_None:
  "ChainToolPolicies policies ctxErr runID invocation = None \<longleftrightarrow> (\<forall>policy. Some policy \<in> set policies \<longrightarrow> policy ctxErr runID invocation = None)"
  by (induction policies ctxErr runID invocation rule: ChainToolPolicies.induct) (auto split: option.splits)

text \<open>
  C20: a governed run keeps its limits. When the governance of an engine is a chain with a side-effect limit and a call budget, whatever other
  policies the chain has, a tool of an agent is executed only if its declared side effect is within the limit and the successful calls of the
  run together with the calls in flight are still below the budget.
\<close>

theorem governed_tool_within_limits:
  assumes "polite_hosts E" and "delegateTarget E agent (CallName call) = None"
    and "EGovernance E = Some (ChainToolPolicies policies ctxErr)"
    and "Some (NewMaxSideEffectPolicy level) \<in> set policies" and "Some (NewToolBudgetPolicy maxCalls) \<in> set policies" and "0 < maxCalls"
    and "tracker_run (EJson E) (DoomLoopLimit E) cap (DTracker d) rs lg"
    and "\<And>t. declared_tool E call = Some t \<Longrightarrow> cap (CallName call) = ToolRateCap t"
    and "dispatchToolWithOptions E answer c runID agent call opts d = (d', res)" and "\<not> quiet_end d d'"
  shows "\<exists>t. declared_tool E call = Some t \<and> sideEffectRank (ToolSideEffect t) \<le> sideEffectRank level
    \<and> int (length (filter (\<lambda>e. fst e = Succeeded) lg)) + in_flight (\<lambda>_. True) rs < maxCalls"
proof -
  from dispatch_quiet_or_passed [OF assms(1,2,9)] assms(10)
    chain_gates [OF assms(1), of "BaseCtx c" runID "OptApproved opts" agent call "TrustFull c" d]
  have "gates_pass E (BaseCtx c) runID agent call (OptApproved opts) (TrustFull c) d" by simp
  then obtain t t1 r n where t: "declared_tool E call = Some t"
    and res: "reserveToolCall (EJson E) (CallName call) (CallInput call) (DoomLoopLimit E) (ToolRateCap t) (DTracker d) = (t1, Inr (r, n))"
    and gov: "authorizeGovernanceTool E runID agent t call (CountByName n) (CountBySameInput n) (CountTotal n) = None"
    by (auto simp: gates_pass_def)
  from gov assms(3) obtain invocation where "ChainToolPolicies policies ctxErr runID invocation = None"
    "InvSideEffect invocation = ToolSideEffect t" "InvTotalCalls invocation = CountTotal n"
    by (auto simp: authorizeGovernanceTool_def)
  with assms(4,5) have a: "NewMaxSideEffectPolicy level ctxErr runID invocation = None" "NewToolBudgetPolicy maxCalls ctxErr runID invocation = None"
    "InvSideEffect invocation = ToolSideEffect t" "InvTotalCalls invocation = CountTotal n" by (auto simp: ChainToolPolicies_None)
  have "CountTotal n = int (length (filter (\<lambda>e. fst e = Succeeded) lg)) + in_flight (\<lambda>_. True) rs"
    using reservation_counts_exact [OF assms(7)] res assms(8) [OF t] by metis
  with a assms(6) t show ?thesis
    by (auto simp: NewMaxSideEffectPolicy_def NewToolBudgetPolicy_def split: option.splits if_splits)
qed

section \<open>What redaction leaves\<close>

text \<open>Positions in a value: an entry of an object or of an array.\<close>

datatype jstep = Field string | Item nat

fun value_at :: "json \<Rightarrow> jstep list \<Rightarrow> json option" where
  "value_at v [] = Some v"
| "value_at (JObject entries) (Field key # path) = (case map_of entries key of None \<Rightarrow> None | Some child \<Rightarrow> value_at child path)"
| "value_at (JArray items) (Item i # path) = (if i < length items then value_at (items ! i) path else None)"
| "value_at v (s # path) = None"

fun secret_step :: "(string \<Rightarrow> string) \<Rightarrow> string set \<Rightarrow> jstep \<Rightarrow> bool" where
  "secret_step lower names (Field key) = (lower key \<in> names)"
| "secret_step lower names (Item i) = False"

lemma map_of_redacted:
  "map_of (map (\<lambda>(key, child). (key, if lower key \<in> names then JString ''[REDACTED]'' else redactValue lower names child)) entries) key =
     map_option (\<lambda>child. if lower key \<in> names then JString ''[REDACTED]'' else redactValue lower names child) (map_of entries key)"
  by (induction entries) auto

lemma redact_open: "\<not> list_ex (secret_step lower names) path \<Longrightarrow>
  value_at (redactValue lower names v) path = map_option (redactValue lower names) (value_at v path)"
proof (induction v path rule: value_at.induct)
  case (2 entries key path)
  then show ?case by (cases "map_of entries key") (simp_all add: map_of_redacted)
qed auto

lemma value_at_append: "value_at v (p @ q) = (case value_at v p of None \<Rightarrow> None | Some u \<Rightarrow> value_at u q)"
  by (induction v p rule: value_at.induct) (auto split: option.splits)

text \<open>
  Redaction hides every configured field and nothing else. At a position that no secret field leads to, the redacted output has the
  redacted value of the original; at a secret field it has the mark, wherever in the output the field is, and below it nothing.
\<close>

theorem redaction_exact:
  assumes "\<not> list_ex (secret_step lower names) path"
  shows "value_at (redactValue lower names v) path = map_option (redactValue lower names) (value_at v path)
    \<and> (secret_step lower names (Field key) \<longrightarrow>
        value_at (redactValue lower names v) (path @ Field key # below) =
          (if value_at v (path @ [Field key]) = None \<or> below \<noteq> [] then None else Some (JString ''[REDACTED]'')))"
proof
  show visible: "value_at (redactValue lower names v) path = map_option (redactValue lower names) (value_at v path)"
    by (rule redact_open [OF assms])
  have "value_at (redactValue lower names u) (Field key # below) =
      (if value_at u [Field key] = None \<or> below \<noteq> [] then None else Some (JString ''[REDACTED]''))" if "lower key \<in> names" for u
  proof (cases u)
    case (JObject entries)
    with that show ?thesis
      by (cases "map_of entries key"; cases below) (auto simp: map_of_redacted)
  qed simp_all
  with visible show "secret_step lower names (Field key) \<longrightarrow>
        value_at (redactValue lower names v) (path @ Field key # below) =
          (if value_at v (path @ [Field key]) = None \<or> below \<noteq> [] then None else Some (JString ''[REDACTED]''))"
    by (cases "value_at v path") (simp_all add: value_at_append)
qed

section \<open>Samples\<close>

theorem redaction_exact_witness:
  "value_at (redactValue id {''token''} (JArray [JObject [(''user'', JString ''u''), (''token'', JString ''x'')]])) [Item 0, Field ''token''] =
     Some (JString ''[REDACTED]'')"
  using redaction_exact [of id "{''token''}" "[Item 0]" "JArray [JObject [(''user'', JString ''u''), (''token'', JString ''x'')]]" "''token''" "[]"]
  by simp

definition governed_engine :: tool_engine where
  "governed_engine = sample_engine\<lparr>EGovernance := Some (ChainToolPolicies [Some (NewMaxSideEffectPolicy SideEffectRead), Some (NewToolBudgetPolicy 5)] None)\<rparr>"

theorem governed_tool_within_limits_witness:
  "\<exists>t. declared_tool governed_engine sample_call = Some t \<and> sideEffectRank (ToolSideEffect t) \<le> sideEffectRank SideEffectRead
     \<and> int (length (filter (\<lambda>e. fst e = Succeeded) ([] :: settled list))) + in_flight (\<lambda>_. True) [] < 5"
proof -
  let ?policies = "[Some (NewMaxSideEffectPolicy SideEffectRead), Some (NewToolBudgetPolicy 5)]"
  have E: "governed_engine = sample_engine\<lparr>Appended := [], Evaluator := None, EGovernance := Some (ChainToolPolicies ?policies None)\<rparr>"
    by (simp add: governed_engine_def sample_engine_def)
  have "ChainToolPolicies ?policies None ''r'' sample_invocation = None"
    by (simp add: sample_invocation_def NewMaxSideEffectPolicy_def NewToolBudgetPolicy_def)
  then obtain d' res where d: "sample_dispatch governed_engine sample_run_agent sample_state = (d', res)" "ToolCalled ''t'' ''c1'' 1 \<in> set (DEvents d')"
    using sample_runs_with [of "Some (ChainToolPolicies ?policies None)" None] unfolding E by auto
  then have q: "\<not> quiet_end sample_state d'" by (auto simp: quiet_end_def sample_state_def)
  have e: "polite_hosts governed_engine" "delegateTarget governed_engine sample_run_agent (CallName sample_call) = None"
    "EGovernance governed_engine = Some (ChainToolPolicies ?policies None)"
    by (simp_all add: polite_hosts_def governed_engine_def delegateTarget_def sample_run_agent_def)
  have run: "tracker_run (EJson governed_engine) (DoomLoopLimit governed_engine) (\<lambda>_. 1) (DTracker sample_state) [] []"
    by (simp add: sample_state_def tracker_run.start)
  have cap: "1 = ToolRateCap t" if "declared_tool governed_engine sample_call = Some t" for t
    using that by (auto simp: declared_tool_def governed_engine_def sample_engine_def sample_call_def sample_tool_def zero_scenario_def)
  show ?thesis
    by (rule governed_tool_within_limits [OF e _ _ _ run cap d(1) q]) simp_all
qed

end
