(* ===== verification/Tool_Schema.thy ===== *)
theory Tool_Schema
  imports Tool_Gates Go_Json Go_Unicode
begin

text \<open>
  The validator of tool inputs: \<^verbatim>\<open>pkg/toolschema/toolschema.go\<close>. The functions of \<^verbatim>\<open>encoding/json\<close>, the operations of floats and
  regular expressions are parameters. Objects are association lists in the order a map is walked.
\<close>

section \<open>Schemas\<close>

datatype 'a additional = Additional (AddAllowed: bool) (AddSchema: "'a option") (AddSet: bool)

datatype schema_node = SchemaNode
  (SnType: bytes) (SnEnum: "bytes list") (SnRequired: "string list") (SnProperties: "(string \<times> schema_node) list")
  (SnAdditional: "schema_node additional option") (SnItems: "schema_node option")
  (SnMinItems: "int option") (SnMaxItems: "int option") (SnUniqueItems: bool)
  (SnMinLength: "int option") (SnMaxLength: "int option") (SnPattern: string)
  (SnMinimum: "64 word option") (SnMaximum: "64 word option") (SnExclusiveMinimum: "64 word option") (SnExclusiveMaximum: "64 word option")
  (SnMultipleOf: "64 word option")

text \<open>
  The library functions. Of \<^verbatim>\<open>encoding/json\<close>: decoding of a value, of a text, a list of texts and a boolean, and encoding; decoding of the
  struct of a schema, which calls the decoder of the type \<^verbatim>\<open>additionalProps\<close> on the bytes of that field, so it takes that decoder. The operations of
  floats and of the package \<^verbatim>\<open>math\<close>; compiling a pattern to its match function.
\<close>

record schema_ops =
  SoStruct :: "(bytes \<Rightarrow> schema_node additional) \<Rightarrow> bytes \<Rightarrow> schema_node option"
  SoValue :: "bytes \<Rightarrow> go_error + json"
  SoText :: "bytes \<Rightarrow> string option"
  SoTexts :: "bytes \<Rightarrow> string list option"
  SoBool :: "bytes \<Rightarrow> bool option"
  SoEncode :: "json \<Rightarrow> bytes option"
  SoLess :: "64 word \<Rightarrow> 64 word \<Rightarrow> bool"
  SoEqual :: "64 word \<Rightarrow> 64 word \<Rightarrow> bool"
  SoSub :: "64 word \<Rightarrow> 64 word \<Rightarrow> 64 word"
  SoDiv :: "64 word \<Rightarrow> 64 word \<Rightarrow> 64 word"
  SoTrunc :: "64 word \<Rightarrow> 64 word"
  SoRound :: "64 word \<Rightarrow> 64 word"
  SoAbs :: "64 word \<Rightarrow> 64 word"
  SoCompile :: "string \<Rightarrow> (string \<Rightarrow> bool) option"
  SoShow :: "64 word \<Rightarrow> string"

text \<open>
  \<^verbatim>\<open>additionalProps.UnmarshalJSON\<close> and the decoding of a schema call each other. The bytes of a field are fewer than those of the schema it
  stands in, so the length of the outermost bytes is enough fuel (\<open>schema_fuel\<close>).
\<close>

fun additionalProps_UnmarshalJSON :: "nat \<Rightarrow> schema_ops \<Rightarrow> bytes \<Rightarrow> schema_node additional" where
  "additionalProps_UnmarshalJSON 0 L data = Additional False None False"
| "additionalProps_UnmarshalJSON (Suc fuel) L data =
     (case SoBool L data of
        Some b \<Rightarrow> Additional b None True
      | None \<Rightarrow> (case SoStruct L (additionalProps_UnmarshalJSON fuel L) data of
          Some s \<Rightarrow> Additional True (Some s) True
        | None \<Rightarrow> Additional False None False))"

definition unmarshal_schema :: "schema_ops \<Rightarrow> bytes \<Rightarrow> schema_node option" where
  "unmarshal_schema L raw = SoStruct L (additionalProps_UnmarshalJSON (length raw) L) raw"

definition parseTypes :: "schema_ops \<Rightarrow> bytes \<Rightarrow> string list" where
  "parseTypes L raw = (if raw = [] then []
     else (case SoText L raw of
         Some single \<Rightarrow> if single = [] then [] else [single]
       | None \<Rightarrow> (case SoTexts L raw of Some multi \<Rightarrow> multi | None \<Rightarrow> [])))"

definition containsType :: "string list \<Rightarrow> string \<Rightarrow> bool" where
  "containsType types want = list_ex (\<lambda>t. t = want) types"

definition matchesType :: "schema_ops \<Rightarrow> string \<Rightarrow> json \<Rightarrow> bool" where
  "matchesType L t v =
     (if t = ''string'' then (case v of JString _ \<Rightarrow> True | _ \<Rightarrow> False)
      else if t = ''boolean'' then (case v of JBool _ \<Rightarrow> True | _ \<Rightarrow> False)
      else if t = ''number'' then (case v of JFloat _ \<Rightarrow> True | _ \<Rightarrow> False)
      else if t = ''integer'' then (case v of JFloat f \<Rightarrow> SoEqual L f (SoTrunc L f) | _ \<Rightarrow> False)
      else if t = ''array'' then (case v of JArray _ \<Rightarrow> True | _ \<Rightarrow> False)
      else if t = ''object'' then (case v of JObject _ \<Rightarrow> True | _ \<Rightarrow> False)
      else if t = ''null'' then (case v of JNull \<Rightarrow> True | _ \<Rightarrow> False)
      else True)"

definition matchesAnyType :: "schema_ops \<Rightarrow> string list \<Rightarrow> json \<Rightarrow> bool" where
  "matchesAnyType L types v = list_ex (\<lambda>t. matchesType L t v) types"

text \<open>\<^verbatim>\<open>reflect.DeepEqual\<close> on decoded values: objects are equal as maps.\<close>

fun deep_equal :: "(64 word \<Rightarrow> 64 word \<Rightarrow> bool) \<Rightarrow> json \<Rightarrow> json \<Rightarrow> bool" where
  "deep_equal feq (JObject xs) (JObject ys) =
     (length xs = length ys \<and> list_all (\<lambda>(k, v). case map_of ys k of None \<Rightarrow> False | Some u \<Rightarrow> deep_equal feq v u) xs)"
| "deep_equal feq (JArray xs) (JArray ys) = list_all2 (deep_equal feq) xs ys"
| "deep_equal feq (JFloat f) (JFloat g) = feq f g"
| "deep_equal feq v u = (v = u)"

definition enumContains :: "schema_ops \<Rightarrow> bytes list \<Rightarrow> json \<Rightarrow> bool" where
  "enumContains L enum v = list_ex (\<lambda>raw. case SoValue L raw of Inl _ \<Rightarrow> False | Inr candidate \<Rightarrow> deep_equal (SoEqual L) candidate v) enum"

fun items_loop :: "schema_ops \<Rightarrow> bytes list \<Rightarrow> json list \<Rightarrow> bool" where
  "items_loop L seen [] = True"
| "items_loop L seen (item # arr) = (case SoEncode L item of
       None \<Rightarrow> items_loop L seen arr
     | Some key \<Rightarrow> if key \<in> set seen then False else items_loop L (key # seen) arr)"

definition itemsUnique :: "schema_ops \<Rightarrow> json list \<Rightarrow> bool" where
  "itemsUnique L arr = items_loop L [] arr"

fun go_type :: "json \<Rightarrow> string" where
  "go_type JNull = ''<nil>''"
| "go_type (JBool _) = ''bool''"
| "go_type (JFloat _) = ''float64''"
| "go_type (JInt _) = ''int''"
| "go_type (JString _) = ''string''"
| "go_type (JArray _) = ''[]interface {}''"
| "go_type (JObject _) = ''map[string]interface {}''"

definition typeError :: "string \<Rightarrow> string \<Rightarrow> json \<Rightarrow> go_error" where
  "typeError path want v = Errorf ''%s: expected %s, got %T'' [path, want, go_type v] None"

fun join_bar :: "string list \<Rightarrow> string" where
  "join_bar [] = []"
| "join_bar [t] = t"
| "join_bar (t # ts) = t @ ''|'' @ join_bar ts"

section \<open>Validation\<close>

definition validateString :: "schema_ops \<Rightarrow> schema_node \<Rightarrow> string \<Rightarrow> string \<Rightarrow> go_error option" where
  "validateString L node s path =
     (let n = int (length (runes s)) in
      case (case SnMinLength node of Some m \<Rightarrow> if n < m then Some (Errorf ''%s: string is shorter than minLength %d'' [path, int_text m] None) else None | None \<Rightarrow> None) of
        Some e \<Rightarrow> Some e
      | None \<Rightarrow>
     (case (case SnMaxLength node of Some m \<Rightarrow> if m < n then Some (Errorf ''%s: string is longer than maxLength %d'' [path, int_text m] None) else None | None \<Rightarrow> None) of
        Some e \<Rightarrow> Some e
      | None \<Rightarrow>
          if SnPattern node = [] then None
          else (case SoCompile L (SnPattern node) of
              None \<Rightarrow> None
            | Some matches \<Rightarrow> if matches s then None else Some (Errorf ''%s: string does not match pattern %q'' [path, SnPattern node] None))))"

text \<open>The float \<open>1e-9\<close>, and whether \<open>f\<close> divided by \<open>m\<close> is further than that from the next whole number.\<close>

definition multiple_tolerance :: "64 word" where
  "multiple_tolerance = 0x3E112E0BE826D695"

definition not_multiple :: "schema_ops \<Rightarrow> 64 word \<Rightarrow> 64 word \<Rightarrow> bool" where
  "not_multiple L f m = (\<not> SoEqual L m 0 \<and> (let q = SoDiv L f m in SoLess L multiple_tolerance (SoAbs L (SoSub L q (SoRound L q)))))"

definition number_check :: "schema_ops \<Rightarrow> string \<Rightarrow> 64 word \<Rightarrow> string \<Rightarrow> (64 word \<Rightarrow> bool) \<Rightarrow> 64 word option \<Rightarrow> go_error option" where
  "number_check L path f message bad bound = (case bound of
       None \<Rightarrow> None
     | Some m \<Rightarrow> if bad m then Some (Errorf message [path, SoShow L f, SoShow L m] None) else None)"

definition validateNumber :: "schema_ops \<Rightarrow> schema_node \<Rightarrow> 64 word \<Rightarrow> string \<Rightarrow> go_error option" where
  "validateNumber L node f path =
     (let less = SoLess L; lesseq = (\<lambda>a b. SoLess L a b \<or> SoEqual L a b) in
      case number_check L path f ''%s: %v is below minimum %v'' (\<lambda>m. less f m) (SnMinimum node) of Some e \<Rightarrow> Some e | None \<Rightarrow>
     (case number_check L path f ''%s: %v is above maximum %v'' (\<lambda>m. less m f) (SnMaximum node) of Some e \<Rightarrow> Some e | None \<Rightarrow>
     (case number_check L path f ''%s: %v is not greater than exclusiveMinimum %v'' (\<lambda>m. lesseq f m) (SnExclusiveMinimum node) of Some e \<Rightarrow> Some e | None \<Rightarrow>
     (case number_check L path f ''%s: %v is not less than exclusiveMaximum %v'' (\<lambda>m. lesseq m f) (SnExclusiveMaximum node) of Some e \<Rightarrow> Some e | None \<Rightarrow>
      number_check L path f ''%s: %v is not a multiple of %v'' (\<lambda>m. not_multiple L f m) (SnMultipleOf node)))))"

text \<open>The value a node is checked against: null where an object is expected counts as the empty object.\<close>

definition effective :: "schema_ops \<Rightarrow> schema_node \<Rightarrow> json \<Rightarrow> json" where
  "effective L node v =
     (let types = parseTypes L (SnType node) in
      if v = JNull \<and> \<not> containsType types ''null'' \<and> (containsType types ''object'' \<or> SnRequired node \<noteq> [] \<or> SnProperties node \<noteq> [])
      then JObject [] else v)"

definition array_shape :: "schema_ops \<Rightarrow> schema_node \<Rightarrow> json list \<Rightarrow> string \<Rightarrow> go_error option" where
  "array_shape L node arr path =
     (let n = int (length arr) in
      case (case SnMinItems node of Some m \<Rightarrow> if n < m then Some (Errorf ''%s: has fewer than minItems %d'' [path, int_text m] None) else None | None \<Rightarrow> None) of
        Some e \<Rightarrow> Some e
      | None \<Rightarrow>
     (case (case SnMaxItems node of Some m \<Rightarrow> if m < n then Some (Errorf ''%s: has more than maxItems %d'' [path, int_text m] None) else None | None \<Rightarrow> None) of
        Some e \<Rightarrow> Some e
      | None \<Rightarrow> if SnUniqueItems node \<and> \<not> itemsUnique L arr then Some (Errorf ''%s: items are not unique'' [path] None) else None))"

definition missing_field :: "schema_node \<Rightarrow> (string \<times> json) list \<Rightarrow> string \<Rightarrow> go_error option" where
  "missing_field node obj path = (case find (\<lambda>req. map_of obj req = None) (SnRequired node) of
       None \<Rightarrow> None | Some req \<Rightarrow> Some (Errorf ''%s: missing required field %q'' [path, req] None))"

lemma items_smaller [termination_simp]: "SnItems node = Some item \<Longrightarrow> size item < size node"
  by (cases node) auto

lemma properties_smaller [termination_simp]: "size_list (size_prod (\<lambda>_. 0) size) (SnProperties node) < size node"
  by (cases node) auto

lemma additional_smaller [termination_simp]: "SnAdditional node = Some add \<Longrightarrow> AddSchema add = Some s \<Longrightarrow> size s < size node"
  by (cases node; cases add) auto

definition extra_size :: "schema_node option \<Rightarrow> nat" where
  "extra_size s = (case s of None \<Rightarrow> 0 | Some s \<Rightarrow> size s)"

lemma extra_size_simps [simp]: "extra_size None = 0" "extra_size (Some s) = size s"
  by (simp_all add: extra_size_def)

lemma extra_smaller [termination_simp]: "SnAdditional node = Some add \<Longrightarrow> extra_size (AddSchema add) < size node"
  by (cases node; cases add) (auto simp: extra_size_def split: option.split)

text \<open>\<^verbatim>\<open>validateValue\<close> with the loops of \<^verbatim>\<open>validateArray\<close> and \<^verbatim>\<open>validateObject\<close> over items, declared properties and the other entries.\<close>

function (sequential) validateValue :: "schema_ops \<Rightarrow> schema_node \<Rightarrow> json \<Rightarrow> string \<Rightarrow> go_error option"
  and validate_items :: "schema_ops \<Rightarrow> schema_node \<Rightarrow> json list \<Rightarrow> nat \<Rightarrow> string \<Rightarrow> go_error option"
  and validate_properties :: "schema_ops \<Rightarrow> (string \<times> schema_node) list \<Rightarrow> (string \<times> json) list \<Rightarrow> string \<Rightarrow> go_error option"
  and validate_others :: "schema_ops \<Rightarrow> schema_node option \<Rightarrow> string list \<Rightarrow> (string \<times> json) list \<Rightarrow> string \<Rightarrow> go_error option" where
  "validateValue L node v0 path =
     (let types = parseTypes L (SnType node); v = effective L node v0 in
      if SnEnum node \<noteq> [] \<and> \<not> enumContains L (SnEnum node) v
      then Some (Errorf ''%s: value is not one of the allowed enum values'' [path] None)
      else if types \<noteq> [] \<and> \<not> matchesAnyType L types v then Some (typeError path (join_bar types) v)
      else (case v of
          JString s \<Rightarrow> validateString L node s path
        | JFloat f \<Rightarrow> validateNumber L node f path
        | JArray arr \<Rightarrow> (case array_shape L node arr path of
              Some e \<Rightarrow> Some e
            | None \<Rightarrow> (case SnItems node of None \<Rightarrow> None | Some item \<Rightarrow> validate_items L item arr 0 path))
        | JObject obj \<Rightarrow> (case missing_field node obj path of
              Some e \<Rightarrow> Some e
            | None \<Rightarrow> (case validate_properties L (SnProperties node) obj path of
                  Some e \<Rightarrow> Some e
                | None \<Rightarrow> (case SnAdditional node of
                      None \<Rightarrow> None
                    | Some add \<Rightarrow>
                        if \<not> AddSet add then None
                        else if \<not> AddAllowed add then
                          (case find (\<lambda>(name, _). name \<notin> set (map fst (SnProperties node))) obj of
                             None \<Rightarrow> None | Some (name, _) \<Rightarrow> Some (Errorf ''%s: unexpected property %q'' [path, name] None))
                        else validate_others L (AddSchema add) (map fst (SnProperties node)) obj path)))
        | _ \<Rightarrow> None))"
| "validate_items L item [] i path = None"
| "validate_items L item (v # vs) i path = (case validateValue L item v (path @ ''['' @ nat_text i @ '']'') of
       Some e \<Rightarrow> Some e | None \<Rightarrow> validate_items L item vs (Suc i) path)"
| "validate_properties L [] obj path = None"
| "validate_properties L ((name, prop) # props) obj path =
     (case (case map_of obj name of None \<Rightarrow> None | Some v \<Rightarrow> validateValue L prop v (path @ ''.'' @ name)) of
        Some e \<Rightarrow> Some e | None \<Rightarrow> validate_properties L props obj path)"
| "validate_others L None declared entries path = None"
| "validate_others L (Some s) declared [] path = None"
| "validate_others L (Some s) declared ((name, v) # entries) path =
     (if name \<in> set declared then validate_others L (Some s) declared entries path
      else (case validateValue L s v (path @ ''.'' @ name) of
          Some e \<Rightarrow> Some e | None \<Rightarrow> validate_others L (Some s) declared entries path))"
  by pat_completeness auto
termination
  by (relation "inv_image (less_than <*lex*> less_than)
      (case_sum (case_sum (\<lambda>(L, node, v, p). (size node, 0)) (\<lambda>(L, item, vs, i, p). (size item, Suc (length vs))))
        (case_sum (\<lambda>(L, props, obj, p). (size_list (size_prod (\<lambda>_. 0) size) props, 0))
          (\<lambda>(L, s, d, es, p). (extra_size s, Suc (length es)))))")
    (auto simp: termination_simp)

definition ensureValidJSON :: "schema_ops \<Rightarrow> bytes \<Rightarrow> go_error option" where
  "ensureValidJSON L input = (if input = [] then None
     else (case SoValue L input of Inl e \<Rightarrow> Some (Errorf ''tool input is not valid JSON: %w'' [] (Some e)) | Inr _ \<Rightarrow> None))"

definition toolschema_Validate :: "schema_ops \<Rightarrow> bytes \<Rightarrow> bytes \<Rightarrow> go_error option" where
  "toolschema_Validate L schema input =
     (if schema = [] then ensureValidJSON L input
      else (case unmarshal_schema L schema of
          None \<Rightarrow> None
        | Some node \<Rightarrow>
            (case (if input = [] then Inr JNull else SoValue L input) of
               Inl e \<Rightarrow> Some (Errorf ''tool input is not valid JSON: %w'' [] (Some e))
             | Inr v \<Rightarrow> validateValue L node v ''input'')))"

declare validateValue.simps [simp del]

section \<open>What a schema means\<close>

text \<open>Keyword by keyword, without an order of checks and without errors: a bound that is absent constrains nothing.\<close>

definition bounded :: "('a \<Rightarrow> bool) \<Rightarrow> 'a option \<Rightarrow> bool" where
  "bounded ok limit \<longleftrightarrow> (\<forall>m. limit = Some m \<longrightarrow> ok m)"

definition string_ok :: "schema_ops \<Rightarrow> schema_node \<Rightarrow> string \<Rightarrow> bool" where
  "string_ok L node s \<longleftrightarrow>
     bounded (\<lambda>m. m \<le> int (length (runes s))) (SnMinLength node) \<and> bounded (\<lambda>m. int (length (runes s)) \<le> m) (SnMaxLength node)
     \<and> (SnPattern node = [] \<or> bounded (\<lambda>matches. matches s) (SoCompile L (SnPattern node)))"

definition number_ok :: "schema_ops \<Rightarrow> schema_node \<Rightarrow> 64 word \<Rightarrow> bool" where
  "number_ok L node f \<longleftrightarrow>
     bounded (\<lambda>m. \<not> SoLess L f m) (SnMinimum node) \<and> bounded (\<lambda>m. \<not> SoLess L m f) (SnMaximum node)
     \<and> bounded (\<lambda>m. \<not> SoLess L f m \<and> \<not> SoEqual L f m) (SnExclusiveMinimum node)
     \<and> bounded (\<lambda>m. \<not> SoLess L m f \<and> \<not> SoEqual L m f) (SnExclusiveMaximum node)
     \<and> bounded (\<lambda>m. SoEqual L m 0 \<or> (\<exists>q. q = SoDiv L f m \<and> \<not> SoLess L multiple_tolerance (SoAbs L (SoSub L q (SoRound L q))))) (SnMultipleOf node)"

text \<open>The types a schema names: one text that is not empty, or a list of texts. A name that is not one of the seven admits every value.\<close>

definition type_names :: "schema_ops \<Rightarrow> schema_node \<Rightarrow> string set" where
  "type_names L node = {t. SnType node \<noteq> [] \<and> (SoText L (SnType node) = Some t \<and> t \<noteq> []
     \<or> SoText L (SnType node) = None \<and> (\<exists>ts. SoTexts L (SnType node) = Some ts \<and> t \<in> set ts))}"

inductive of_type :: "schema_ops \<Rightarrow> string \<Rightarrow> json \<Rightarrow> bool" for L where
  "of_type L ''string'' (JString s)"
| "of_type L ''boolean'' (JBool b)"
| "of_type L ''number'' (JFloat f)"
| "SoEqual L f (SoTrunc L f) \<Longrightarrow> of_type L ''integer'' (JFloat f)"
| "of_type L ''array'' (JArray vs)"
| "of_type L ''object'' (JObject obj)"
| "of_type L ''null'' JNull"
| "t \<notin> {''string'', ''boolean'', ''number'', ''integer'', ''array'', ''object'', ''null''} \<Longrightarrow> of_type L t v"

text \<open>No two items at different places are encoded to the same bytes.\<close>

definition no_repeats :: "schema_ops \<Rightarrow> json list \<Rightarrow> bool" where
  "no_repeats L arr \<longleftrightarrow> (\<forall>i j. i < j \<and> j < length arr \<and> SoEncode L (arr ! i) \<noteq> None \<longrightarrow> SoEncode L (arr ! i) \<noteq> SoEncode L (arr ! j))"

definition array_ok :: "schema_ops \<Rightarrow> schema_node \<Rightarrow> json list \<Rightarrow> bool" where
  "array_ok L node arr \<longleftrightarrow> bounded (\<lambda>m. m \<le> int (length arr)) (SnMinItems node) \<and> bounded (\<lambda>m. int (length arr) \<le> m) (SnMaxItems node)
     \<and> (SnUniqueItems node \<longrightarrow> no_repeats L arr)"

text \<open>The value is one of the decodable values listed, when any are listed, and has one of the types named, when any is named.\<close>

definition admitted :: "schema_ops \<Rightarrow> schema_node \<Rightarrow> json \<Rightarrow> bool" where
  "admitted L node v \<longleftrightarrow> (SnEnum node = [] \<or> (\<exists>raw \<in> set (SnEnum node). \<exists>c. SoValue L raw = Inr c \<and> deep_equal (SoEqual L) c v))
     \<and> (type_names L node = {} \<or> (\<exists>t \<in> type_names L node. of_type L t v))"

text \<open>Null counts as the empty object where an object is expected and null is not allowed.\<close>

definition expects_object :: "schema_ops \<Rightarrow> schema_node \<Rightarrow> bool" where
  "expects_object L node \<longleftrightarrow> ''null'' \<notin> type_names L node \<and> (''object'' \<in> type_names L node \<or> SnRequired node \<noteq> [] \<or> SnProperties node \<noteq> [])"

definition subject :: "schema_ops \<Rightarrow> schema_node \<Rightarrow> json \<Rightarrow> json" where
  "subject L node v = (case v of JNull \<Rightarrow> if expects_object L node then JObject [] else JNull | _ \<Rightarrow> v)"

definition scalar_ok :: "schema_ops \<Rightarrow> schema_node \<Rightarrow> json \<Rightarrow> bool" where
  "scalar_ok L node v = (case v of JString s \<Rightarrow> string_ok L node s | JFloat f \<Rightarrow> number_ok L node f | JArray _ \<Rightarrow> False | JObject _ \<Rightarrow> False | _ \<Rightarrow> True)"

definition declared :: "schema_node \<Rightarrow> string set" where
  "declared node = fst ` set (SnProperties node)"

text \<open>The schema and the value of every entry of an object that a schema constrains: its declared properties, then the others.\<close>

definition constrained :: "schema_node \<Rightarrow> (string \<times> json) list \<Rightarrow> (schema_node \<times> json) set" where
  "constrained node obj = {(prop, v). \<exists>name. (name, prop) \<in> set (SnProperties node) \<and> map_of obj name = Some v}
     \<union> {(s, v). \<exists>add name. SnAdditional node = Some add \<and> AddSet add \<and> AddAllowed add \<and> AddSchema add = Some s \<and> (name, v) \<in> set obj \<and> name \<notin> declared node}"

definition closed_ok :: "schema_node \<Rightarrow> (string \<times> json) list \<Rightarrow> bool" where
  "closed_ok node obj \<longleftrightarrow> (\<forall>add. SnAdditional node = Some add \<and> AddSet add \<and> \<not> AddAllowed add \<longrightarrow> fst ` set obj \<subseteq> declared node)"

inductive conforms :: "schema_ops \<Rightarrow> schema_node \<Rightarrow> json \<Rightarrow> bool" for L where
  scalar: "admitted L node (subject L node v) \<Longrightarrow> scalar_ok L node (subject L node v) \<Longrightarrow> conforms L node v"
| array: "subject L node v = JArray arr \<Longrightarrow> admitted L node (JArray arr) \<Longrightarrow> array_ok L node arr \<Longrightarrow>
     (\<And>item x. SnItems node = Some item \<Longrightarrow> x \<in> set arr \<Longrightarrow> conforms L item x) \<Longrightarrow> conforms L node v"
| object: "subject L node v = JObject obj \<Longrightarrow> admitted L node (JObject obj) \<Longrightarrow> set (SnRequired node) \<subseteq> fst ` set obj \<Longrightarrow> closed_ok node obj \<Longrightarrow>
     (\<And>s x. (s, x) \<in> constrained node obj \<Longrightarrow> conforms L s x) \<Longrightarrow> conforms L node v"

inductive_simps conforms_simp: "conforms L node v"

lemma conforms_cases:
  "conforms L node v \<longleftrightarrow> admitted L node (subject L node v) \<and>
     (case subject L node v of
        JArray arr \<Rightarrow> array_ok L node arr \<and> (\<forall>item. SnItems node = Some item \<longrightarrow> (\<forall>x\<in>set arr. conforms L item x))
      | JObject obj \<Rightarrow> set (SnRequired node) \<subseteq> fst ` set obj \<and> closed_ok node obj \<and> (\<forall>(s, x)\<in>constrained node obj. conforms L s x)
      | w \<Rightarrow> scalar_ok L node w)"
  by (subst conforms_simp) (cases "subject L node v"; auto simp: scalar_ok_def)

section \<open>Validation decides the schema\<close>

lemma bounded_simps [simp]: "bounded ok None" "bounded ok (Some m) = ok m"
  by (simp_all add: bounded_def)

lemma validateString_iff: "validateString L node s path = None \<longleftrightarrow> string_ok L node s"
  by (auto simp: validateString_def string_ok_def Let_def split: option.splits)

lemma number_check_iff: "number_check L path f message bad bound = None \<longleftrightarrow> bounded (\<lambda>m. \<not> bad m) bound"
  by (auto simp: number_check_def split: option.splits)

lemma option_chain_None: "(case x of Some e \<Rightarrow> Some e | None \<Rightarrow> y) = None \<longleftrightarrow> x = None \<and> y = None"
  by (cases x) auto

lemma validateNumber_iff: "validateNumber L node f path = None \<longleftrightarrow> number_ok L node f"
  by (simp add: validateNumber_def Let_def option_chain_None number_check_iff number_ok_def not_multiple_def)

lemma set_parseTypes: "set (parseTypes L (SnType node)) = type_names L node"
  by (cases "SoText L (SnType node)"; cases "SoTexts L (SnType node)") (auto simp: parseTypes_def type_names_def)

lemma matchesType_iff: "matchesType L t v \<longleftrightarrow> of_type L t v"
  by (cases v) (auto simp: matchesType_def of_type.simps)

lemma matchesAnyType_iff: "matchesAnyType L (parseTypes L (SnType node)) v \<longleftrightarrow> (\<exists>t \<in> type_names L node. of_type L t v)"
  by (auto simp: matchesAnyType_def list_ex_iff matchesType_iff set_parseTypes)

lemma enumContains_iff: "enumContains L enum v \<longleftrightarrow> (\<exists>raw \<in> set enum. \<exists>c. SoValue L raw = Inr c \<and> deep_equal (SoEqual L) c v)"
proof -
  have "(case SoValue L raw of Inl _ \<Rightarrow> False | Inr candidate \<Rightarrow> deep_equal (SoEqual L) candidate v)
      \<longleftrightarrow> (\<exists>c. SoValue L raw = Inr c \<and> deep_equal (SoEqual L) c v)" for raw by (cases "SoValue L raw") simp_all
  then show ?thesis by (simp add: enumContains_def list_ex_iff)
qed

lemma admitted_checks: "admitted L node v \<longleftrightarrow> (SnEnum node = [] \<or> enumContains L (SnEnum node) v)
     \<and> (parseTypes L (SnType node) = [] \<or> matchesAnyType L (parseTypes L (SnType node)) v)"
  by (auto simp: admitted_def enumContains_iff matchesAnyType_iff set_parseTypes [symmetric])

lemma effective_subject: "effective L node v = subject L node v"
  by (cases v) (auto simp: effective_def subject_def expects_object_def containsType_def list_ex_iff set_parseTypes [symmetric] Let_def)

lemma items_loop_iff: "items_loop L seen arr \<longleftrightarrow> no_repeats L arr \<and> (\<forall>x \<in> set arr. \<forall>key. SoEncode L x = Some key \<longrightarrow> key \<notin> set seen)"
proof (induction L seen arr rule: items_loop.induct)
  case (2 L seen item arr)
  have "no_repeats L (item # arr) \<longleftrightarrow> no_repeats L arr \<and> (\<forall>x \<in> set arr. SoEncode L item \<noteq> None \<longrightarrow> SoEncode L item \<noteq> SoEncode L x)"
  proof
    assume n: "no_repeats L (item # arr)"
    have "SoEncode L item \<noteq> SoEncode L x" if "x \<in> set arr" "SoEncode L item \<noteq> None" for x
    proof -
      from that(1) obtain k where "k < length arr" "arr ! k = x" by (auto simp: in_set_conv_nth)
      with n that(2) show ?thesis unfolding no_repeats_def by (metis Suc_less_eq length_Cons nth_Cons_0 nth_Cons_Suc zero_less_Suc)
    qed
    moreover have "no_repeats L arr"
      unfolding no_repeats_def
    proof (intro allI impI)
      fix i j
      assume "i < j \<and> j < length arr \<and> SoEncode L (arr ! i) \<noteq> None"
      then show "SoEncode L (arr ! i) \<noteq> SoEncode L (arr ! j)"
        using n [unfolded no_repeats_def, rule_format, of "Suc i" "Suc j"] by simp
    qed
    ultimately show "no_repeats L arr \<and> (\<forall>x \<in> set arr. SoEncode L item \<noteq> None \<longrightarrow> SoEncode L item \<noteq> SoEncode L x)" by blast
  next
    assume a: "no_repeats L arr \<and> (\<forall>x \<in> set arr. SoEncode L item \<noteq> None \<longrightarrow> SoEncode L item \<noteq> SoEncode L x)"
    show "no_repeats L (item # arr)"
      unfolding no_repeats_def
    proof (intro allI impI)
      fix i j
      assume ij: "i < j \<and> j < length (item # arr) \<and> SoEncode L ((item # arr) ! i) \<noteq> None"
      then obtain j' where j: "j = Suc j'" by (cases j) auto
      with ij a show "SoEncode L ((item # arr) ! i) \<noteq> SoEncode L ((item # arr) ! j)"
        by (cases i) (auto simp: no_repeats_def)
    qed
  qed
  with 2 show ?case by (cases "SoEncode L item") (auto dest!: sym [of "Some _"])
qed (simp add: no_repeats_def)

lemma array_shape_iff: "array_shape L node arr path = None \<longleftrightarrow> array_ok L node arr"
  by (auto simp: array_shape_def array_ok_def itemsUnique_def items_loop_iff Let_def split: option.splits)

text \<open>
  Decoding the struct of a schema looks at the bytes of its fields only, which are fewer than its own: then more fuel changes nothing.
\<close>

definition fields_shorter :: "schema_ops \<Rightarrow> bool" where
  "fields_shorter L \<longleftrightarrow> (\<forall>h h' raw. (\<forall>data. length data < length raw \<longrightarrow> h data = h' data) \<longrightarrow> SoStruct L h raw = SoStruct L h' raw)"

lemma schema_fuel:
  assumes "fields_shorter L" and "length data < n" and "length data < m"
  shows "additionalProps_UnmarshalJSON n L data = additionalProps_UnmarshalJSON m L data"
  using assms(2,3)
proof (induction n arbitrary: m data)
  case (Suc n)
  then obtain m' where m: "m = Suc m'" by (cases m) auto
  have "SoStruct L (additionalProps_UnmarshalJSON n L) data = SoStruct L (additionalProps_UnmarshalJSON m' L) data"
    using assms(1) Suc.IH Suc.prems m unfolding fields_shorter_def by (smt (verit) less_Suc_eq_le order_less_le_trans)
  with m show ?case by (cases "SoBool L data") simp_all
qed simp

theorem unmarshal_schema_fuel:
  assumes "fields_shorter L" and "length raw \<le> n"
  shows "unmarshal_schema L raw = SoStruct L (additionalProps_UnmarshalJSON n L) raw"
proof -
  have "\<forall>data. length data < length raw \<longrightarrow> additionalProps_UnmarshalJSON (length raw) L data = additionalProps_UnmarshalJSON n L data"
    using schema_fuel [OF assms(1), of _ "length raw" n] assms(2) by simp
  with assms(1) show ?thesis unfolding unmarshal_schema_def fields_shorter_def by blast
qed

lemma missing_field_iff: "missing_field node obj path = None \<longleftrightarrow> set (SnRequired node) \<subseteq> fst ` set obj"
proof -
  have "missing_field node obj path = None \<longleftrightarrow> find (\<lambda>req. map_of obj req = None) (SnRequired node) = None"
    by (simp add: missing_field_def split: option.splits)
  also have "\<dots> \<longleftrightarrow> set (SnRequired node) \<subseteq> fst ` set obj"
    by (auto simp: find_None_iff map_of_eq_None_iff)
  finally show ?thesis .
qed

text \<open>The declared properties of an object, and its other entries under a schema of their own.\<close>

definition properties_ok :: "schema_ops \<Rightarrow> (string \<times> schema_node) list \<Rightarrow> (string \<times> json) list \<Rightarrow> bool" where
  "properties_ok L props obj \<longleftrightarrow> (\<forall>(name, prop)\<in>set props. bounded (conforms L prop) (map_of obj name))"

definition others_ok :: "schema_ops \<Rightarrow> schema_node option \<Rightarrow> string list \<Rightarrow> (string \<times> json) list \<Rightarrow> bool" where
  "others_ok L extra names entries \<longleftrightarrow> bounded (\<lambda>s. \<forall>(name, v)\<in>set entries. name \<in> set names \<or> conforms L s v) extra"

lemma constrained_split:
  "(\<forall>(s, x)\<in>constrained node obj. conforms L s x) \<longleftrightarrow> properties_ok L (SnProperties node) obj
     \<and> (\<forall>add. SnAdditional node = Some add \<and> AddSet add \<and> AddAllowed add \<longrightarrow> others_ok L (AddSchema add) (map fst (SnProperties node)) obj)"
  by (fastforce simp: constrained_def properties_ok_def others_ok_def declared_def bounded_def)

lemma unexpected_iff: "find (\<lambda>(name, _). name \<notin> set (map fst (SnProperties node))) obj = None \<longleftrightarrow> fst ` set obj \<subseteq> declared node"
  by (simp add: find_None_iff declared_def image_subset_iff split_beta) (metis fst_conv prod.collapse)

lemma validation_decides:
  "validateValue L node v path = None \<longleftrightarrow> conforms L node v"
  "validate_items L item vs i path = None \<longleftrightarrow> (\<forall>v\<in>set vs. conforms L item v)"
  "validate_properties L props obj path = None \<longleftrightarrow> properties_ok L props obj"
  "validate_others L extra names entries path = None \<longleftrightarrow> others_ok L extra names entries"
proof (induction L node v path and L item vs i path and L props obj path and L extra names entries path
    rule: validateValue_validate_items_validate_properties_validate_others.induct)
  case (1 L node v path)
  define w where "w = effective L node v"
  have "validateValue L node v path = None \<longleftrightarrow> admitted L node w \<and> (case w of
        JArray arr \<Rightarrow> array_ok L node arr \<and> bounded (\<lambda>item. \<forall>x\<in>set arr. conforms L item x) (SnItems node)
      | JObject obj \<Rightarrow> missing_field node obj path = None \<and> properties_ok L (SnProperties node) obj \<and>
          bounded (\<lambda>add. AddSet add \<longrightarrow> (if AddAllowed add then others_ok L (AddSchema add) (map fst (SnProperties node)) obj
            else fst ` set obj \<subseteq> declared node)) (SnAdditional node)
      | _ \<Rightarrow> scalar_ok L node w)"
  proof (cases "admitted L node w")
    case False
    then show ?thesis by (auto simp: validateValue.simps admitted_checks w_def Let_def)
  next
    case True
    then have a: "\<not> (SnEnum node \<noteq> [] \<and> \<not> enumContains L (SnEnum node) w)"
      "\<not> (parseTypes L (SnType node) \<noteq> [] \<and> \<not> matchesAnyType L (parseTypes L (SnType node)) w)" by (auto simp: admitted_checks)
    note IH = 1 [OF refl w_def a]
    show ?thesis
    proof (cases w)
      case (JArray arr)
      then show ?thesis using True a IH(1) [OF JArray]
        by (cases "SnItems node") (auto simp: validateValue.simps [of L node v path] w_def [symmetric] Let_def array_shape_iff option_chain_None)
    next
      case (JObject obj)
      have "validateValue L node v path = None \<longleftrightarrow> missing_field node obj path = None \<and> validate_properties L (SnProperties node) obj path = None
         \<and> bounded (\<lambda>add. AddSet add \<longrightarrow> (if AddAllowed add then validate_others L (AddSchema add) (map fst (SnProperties node)) obj path = None
            else fst ` set obj \<subseteq> declared node)) (SnAdditional node)"
        using a JObject by (auto simp: validateValue.simps [of L node v path] w_def [symmetric] Let_def option_chain_None unexpected_iff [symmetric]
            split: option.splits)
      with True JObject IH(2-) [OF JObject] show ?thesis
        by (cases "SnAdditional node") auto
    qed (use True a in \<open>auto simp: validateValue.simps [of L node v path] w_def [symmetric] Let_def scalar_ok_def validateString_iff validateNumber_iff\<close>)
  qed
  then show ?case
    by (subst conforms_cases) (cases w; cases "SnItems node"; cases "SnAdditional node";
        simp add: w_def [symmetric] effective_subject [symmetric] missing_field_iff constrained_split closed_ok_def split del: if_split; auto split: if_splits)
qed (auto simp: properties_ok_def others_ok_def option_chain_None split: option.splits)

text \<open>
  C22: schema validation is exact. \<^verbatim>\<open>Validate\<close> accepts an input if and only if it is decodable JSON that conforms to the schema, keyword by
  keyword at every depth; without a schema it accepts exactly absent and decodable inputs, under a malformed schema everything; absent
  input counts as null, and null where an object is expected as the empty object.
\<close>

theorem schema_validation_exact:
  "toolschema_Validate L schema input = None \<longleftrightarrow>
     (if schema = [] then input = [] \<or> (\<exists>v. SoValue L input = Inr v)
      else (case unmarshal_schema L schema of
          None \<Rightarrow> True
        | Some node \<Rightarrow> if input = [] then conforms L node JNull else (\<exists>v. SoValue L input = Inr v \<and> conforms L node v)))"
  by (auto simp: toolschema_Validate_def ensureValidJSON_def validation_decides split: option.splits sum.splits)

end
