(* ===== verification/Sql_Tool.thy ===== *)
theory Sql_Tool
  imports Go_Text
begin

text \<open>
  The read-only guard of the SQL tool: \<^verbatim>\<open>internal/adapter/tool/sqlquery/executor.go\<close>. The scanner is the loop of the source, one byte at a
  time with its flags; the theory shows that it agrees with a lexer that cuts literals and comments out as wholes, so that an accepted
  query is exactly one whose remaining text has no separator and no mutating keyword.
\<close>

section \<open>The scanner\<close>

record sql_scan =
  SqlTokens :: "string list"
  SqlBuilder :: string
  InSingleQuote :: bool
  InDoubleQuote :: bool
  InBacktickQuote :: bool
  InLineComment :: bool
  InBlockComment :: bool
  HasTerminator :: bool

definition isTokenChar :: "char \<Rightarrow> bool" where
  "isTokenChar c \<longleftrightarrow> (let n = of_char c :: nat in 65 \<le> n \<and> n \<le> 90 \<or> 97 \<le> n \<and> n \<le> 122 \<or> n = 95)"

text \<open>\<^verbatim>\<open>strings.ToUpper\<close> on a text of token characters.\<close>

definition upper_char :: "char \<Rightarrow> char" where
  "upper_char c = (let n = of_char c :: nat in if 97 \<le> n \<and> n \<le> 122 then char_of (n - 32) else c)"

definition flush :: "sql_scan \<Rightarrow> sql_scan" where
  "flush st = (if SqlBuilder st = [] then st
     else st\<lparr>SqlTokens := SqlTokens st @ [map upper_char (SqlBuilder st)], SqlBuilder := []\<rparr>)"

abbreviation quote_char :: char where "quote_char \<equiv> CHR 0x27"
abbreviation double_char :: char where "double_char \<equiv> CHR 0x22"
abbreviation tick_char :: char where "tick_char \<equiv> CHR 0x60"

definition next_char :: "string \<Rightarrow> char" where
  "next_char rest = (case rest of [] \<Rightarrow> CHR 0x00 | c # _ \<Rightarrow> c)"

text \<open>One pass of the loop: the state after the byte, and whether the next byte is skipped.\<close>

definition scan_step :: "char \<Rightarrow> char \<Rightarrow> sql_scan \<Rightarrow> sql_scan \<times> bool" where
  "scan_step ch nxt st =
     (if InLineComment st then (if ch = CHR 0x0A \<or> ch = CHR 0x0D then st\<lparr>InLineComment := False\<rparr> else st, False)
      else if InBlockComment st then
        (if ch = CHR ''*'' \<and> nxt = CHR ''/'' then (st\<lparr>InBlockComment := False\<rparr>, True) else (st, False))
      else if InSingleQuote st then
        (if ch = quote_char then (if nxt = quote_char then (st, True) else (st\<lparr>InSingleQuote := False\<rparr>, False)) else (st, False))
      else if InDoubleQuote st then
        (if ch = double_char then (if nxt = double_char then (st, True) else (st\<lparr>InDoubleQuote := False\<rparr>, False)) else (st, False))
      else if InBacktickQuote st then
        (if ch = tick_char then (if nxt = tick_char then (st, True) else (st\<lparr>InBacktickQuote := False\<rparr>, False)) else (st, False))
      else if ch = CHR ''-'' \<and> nxt = CHR ''-'' then ((flush st)\<lparr>InLineComment := True\<rparr>, True)
      else if ch = CHR ''#'' then ((flush st)\<lparr>InLineComment := True\<rparr>, False)
      else if ch = CHR ''/'' \<and> nxt = CHR ''*'' then ((flush st)\<lparr>InBlockComment := True\<rparr>, True)
      else if ch = quote_char then ((flush st)\<lparr>InSingleQuote := True\<rparr>, False)
      else if ch = double_char then ((flush st)\<lparr>InDoubleQuote := True\<rparr>, False)
      else if ch = tick_char then ((flush st)\<lparr>InBacktickQuote := True\<rparr>, False)
      else if ch = CHR '';'' then ((flush st)\<lparr>HasTerminator := True\<rparr>, False)
      else if isTokenChar ch then (st\<lparr>SqlBuilder := SqlBuilder st @ [ch]\<rparr>, False)
      else (flush st, False))"

fun scan :: "string \<Rightarrow> sql_scan \<Rightarrow> sql_scan" where
  "scan [] st = st"
| "scan (ch # rest) st = (case scan_step ch (next_char rest) st of
     (st1, skip) \<Rightarrow> scan (if skip then drop 1 rest else rest) st1)"

definition scan_start :: sql_scan where
  "scan_start = \<lparr>SqlTokens = [], SqlBuilder = [], InSingleQuote = False, InDoubleQuote = False, InBacktickQuote = False,
     InLineComment = False, InBlockComment = False, HasTerminator = False\<rparr>"

definition sqlTokens :: "string \<Rightarrow> go_error + string list \<times> bool" where
  "sqlTokens query0 =
     (let query = trim_space query0 in
      if query = [] then Inr ([], False)
      else (let st = scan query scan_start in
        if InSingleQuote st \<or> InDoubleQuote st \<or> InBacktickQuote st \<or> InBlockComment st
        then Inl (Errorf ''sql tool: unterminated query literal or comment'' [] None)
        else Inr (SqlTokens (flush st), HasTerminator st)))"

section \<open>The guard\<close>

definition containsToken :: "string list \<Rightarrow> string \<Rightarrow> bool" where
  "containsToken tokens want = list_ex (\<lambda>t. t = want) tokens"

definition mutating_keywords :: "string list" where
  "mutating_keywords = [''INSERT'', ''UPDATE'', ''DELETE'', ''DROP'', ''ALTER'', ''CREATE'', ''TRUNCATE'', ''MERGE'', ''CALL'', ''EXEC'', ''EXECUTE'', ''GRANT'',
     ''REVOKE'', ''COPY'', ''VACUUM'', ''ANALYZE'', ''SET'', ''RESET'', ''BEGIN'', ''COMMIT'', ''ROLLBACK'', ''LOCK'', ''INTO'', ''OUTFILE'', ''DUMPFILE'']"

definition validateReadOnlyQuery :: "string \<Rightarrow> go_error option" where
  "validateReadOnlyQuery query =
     (case sqlTokens query of
        Inl e \<Rightarrow> Some e
      | Inr (tokens, hasTerminator) \<Rightarrow>
          if tokens = [] then Some (Errorf ''sql tool: query is required'' [] None)
          else if hasTerminator then Some (Errorf ''sql tool: multiple statements are not allowed'' [] None)
          else if hd tokens \<noteq> ''SELECT'' \<and> hd tokens \<noteq> ''WITH'' then Some (Errorf ''sql tool: only SELECT queries are allowed'' [] None)
          else if hd tokens = ''WITH'' \<and> \<not> containsToken tokens ''SELECT''
          then Some (Errorf ''sql tool: WITH queries must contain SELECT'' [] None)
          else (case find (\<lambda>t. t \<in> set mutating_keywords) tokens of
              Some token \<Rightarrow> Some (Errorf ''sql tool: mutating keyword %q is not allowed'' [token] None)
            | None \<Rightarrow> None))"

section \<open>The executor\<close>

record sql_config =
  ConfigHasDB :: bool
  AllowedQueries :: "(string \<times> string) list"
  AllowAdHocQuery :: bool
  ConfigMaxRows :: int
  ConfigTimeout :: int

record sql_executor =
  SqlAllowed :: "(string \<times> string) list"
  SqlAdHoc :: bool
  SqlMaxRows :: int
  SqlTimeout :: int

record sql_request =
  ReqQueryID :: string
  ReqQuery :: string

definition DefaultMaxRows :: int where "DefaultMaxRows = 100"
definition DefaultTimeout :: int where "DefaultTimeout = 5 * 1000000000"

text \<open>The loop over the configured queries, in the order the map is walked.\<close>

fun allow_queries :: "(string \<times> string) list \<Rightarrow> (string \<times> string) list \<Rightarrow> go_error + (string \<times> string) list" where
  "allow_queries [] allowed = Inr allowed"
| "allow_queries ((raw, query) # queries) allowed =
     (let ident = trim_space raw in
      if ident = [] then Inl (Errorf ''sql tool: query id is required'' [] None)
      else (case validateReadOnlyQuery query of
          Some e \<Rightarrow> Inl (Errorf ''sql tool: invalid allowed query %q: %w'' [ident] (Some e))
        | None \<Rightarrow> allow_queries queries ((ident, trim_space query) # filter (\<lambda>(k, _). k \<noteq> ident) allowed)))"

definition NewExecutor :: "sql_config \<Rightarrow> go_error + sql_executor" where
  "NewExecutor config =
     (if \<not> ConfigHasDB config then Inl (Errorf ''sql tool: db is nil'' [] None)
      else (case allow_queries (AllowedQueries config) [] of
          Inl e \<Rightarrow> Inl e
        | Inr allowed \<Rightarrow> Inr \<lparr>SqlAllowed = allowed, SqlAdHoc = AllowAdHocQuery config,
            SqlMaxRows = (if ConfigMaxRows config \<le> 0 then DefaultMaxRows else ConfigMaxRows config),
            SqlTimeout = (if ConfigTimeout config \<le> 0 then DefaultTimeout else ConfigTimeout config)\<rparr>))"

definition resolveQuery :: "sql_executor \<Rightarrow> sql_request \<Rightarrow> go_error + string \<times> string" where
  "resolveQuery ex input =
     (let queryID = trim_space (ReqQueryID input) in
      if queryID \<noteq> [] then
        (case map_of (SqlAllowed ex) queryID of
           None \<Rightarrow> Inl (Errorf ''sql tool: query id %q is not allowed'' [queryID] None)
         | Some query \<Rightarrow> Inr (query, queryID))
      else (let query = trim_space (ReqQuery input) in
        if query = [] then Inl (Errorf ''sql tool: query_id is required'' [] None)
        else if \<not> SqlAdHoc ex then Inl (Errorf ''sql tool: ad-hoc queries are disabled'' [] None)
        else Inr (query, [])))"

text \<open>The rows of a result: the loop stops with the flag when the limit is reached and another row is there.\<close>

fun read_rows :: "int \<Rightarrow> (go_error + 'row) list \<Rightarrow> 'row list \<Rightarrow> go_error + 'row list \<times> bool" where
  "read_rows maxRows [] out = Inr (out, False)"
| "read_rows maxRows (r # rows) out =
     (if maxRows \<le> int (length out) then Inr (out, True)
      else (case r of
          Inl e \<Rightarrow> Inl (Errorf ''sql tool: scan row: %w'' [] (Some e))
        | Inr row \<Rightarrow> read_rows maxRows rows (out @ [row])))"

text \<open>
  \<^verbatim>\<open>Execute\<close> up to the encoded response. The database is \<open>db\<close>: it answers a query with an error, or with the columns or the error \<^verbatim>\<open>Columns\<close> gives, the rows \<^verbatim>\<open>Next\<close> reaches, each as
  \<^verbatim>\<open>Scan\<close> gives it, and the error of \<^verbatim>\<open>Err\<close> at the end. The result has the query that reached the database.
\<close>

definition sql_execute ::
  "(string \<Rightarrow> go_error + (go_error + string list) \<times> (go_error + 'row) list \<times> go_error option) \<Rightarrow> (bytes \<Rightarrow> go_error + sql_request) \<Rightarrow> go_error option \<Rightarrow> sql_executor \<Rightarrow> bytes
     \<Rightarrow> string option \<times> (go_error + string \<times> string list \<times> 'row list \<times> bool)" where
  "sql_execute db decode ctxErr ex input =
     (case ctxErr of
        Some e \<Rightarrow> (None, Inl e)
      | None \<Rightarrow>
          if input = [] then (None, Inl (Errorf ''sql tool: input is required'' [] None))
          else (case decode input of
              Inl e \<Rightarrow> (None, Inl (Errorf ''sql tool: decode input: %w'' [] (Some e)))
            | Inr req \<Rightarrow>
                (case resolveQuery ex req of
                   Inl e \<Rightarrow> (None, Inl e)
                 | Inr (query, queryID) \<Rightarrow>
                     (case validateReadOnlyQuery query of
                        Some e \<Rightarrow> (None, Inl e)
                      | None \<Rightarrow> (Some query,
                          (case db query of
                             Inl e \<Rightarrow> Inl (Errorf ''sql tool: query: %w'' [] (Some e))
                           | Inr (Inl e, _) \<Rightarrow> Inl (Errorf ''sql tool: columns: %w'' [] (Some e))
                           | Inr (Inr columns, rows, err) \<Rightarrow>
                               (case read_rows (SqlMaxRows ex) rows [] of
                                  Inl e \<Rightarrow> Inl e
                                | Inr (out, truncated) \<Rightarrow>
                                    (case (if truncated then None else err) of
                                       Some e \<Rightarrow> Inl (Errorf ''sql tool: rows: %w'' [] (Some e))
                                     | None \<Rightarrow> Inr (queryID, columns, out, truncated)))))))))"

section \<open>A lexer that cuts out literals and comments\<close>

fun after_line :: "string \<Rightarrow> string" where
  "after_line [] = []"
| "after_line (c # s) = (if c = CHR 0x0A \<or> c = CHR 0x0D then s else after_line s)"

fun after_block :: "string \<Rightarrow> string option" where
  "after_block [] = None"
| "after_block (c # s) = (if c = CHR ''*'' \<and> next_char s = CHR ''/'' then Some (drop 1 s) else after_block s)"

text \<open>The rest behind a literal whose opening quote has been read; a doubled quote belongs to the literal.\<close>

fun after_quote :: "char \<Rightarrow> string \<Rightarrow> string option" where
  "after_quote q [] = None"
| "after_quote q (c # s) = (if c = q then (if next_char s = q then after_quote q (drop 1 s) else Some s) else after_quote q s)"

lemma after_line_length: "length (after_line s) \<le> length s"
  by (induction s rule: after_line.induct) auto

lemma after_block_length: "after_block s = Some t \<Longrightarrow> length t < length s"
  by (induction s rule: after_block.induct) (auto split: if_splits)

lemma after_quote_length: "after_quote q s = Some t \<Longrightarrow> length t < length s"
  by (induction q s rule: after_quote.induct) (auto split: if_splits)

text \<open>The text of a query with each comment and literal replaced by a blank, if all of them end.\<close>

function (sequential) visible :: "string \<Rightarrow> string option" where
  "visible [] = Some []"
| "visible (c # s) =
     (if c = CHR ''-'' \<and> next_char s = CHR ''-'' then map_option ((#) CHR '' '') (visible (after_line (drop 1 s)))
      else if c = CHR ''#'' then map_option ((#) CHR '' '') (visible (after_line s))
      else if c = CHR ''/'' \<and> next_char s = CHR ''*'' then
        (case after_block (drop 1 s) of None \<Rightarrow> None | Some t \<Rightarrow> map_option ((#) CHR '' '') (visible t))
      else if c = quote_char \<or> c = double_char \<or> c = tick_char then
        (case after_quote c s of None \<Rightarrow> None | Some t \<Rightarrow> map_option ((#) CHR '' '') (visible t))
      else map_option ((#) c) (visible s))"
  by pat_completeness auto
termination
proof (relation "measure length")
  fix c s
  show "(after_line (drop 1 s), c # s) \<in> measure length" using after_line_length [of "drop 1 s"] by simp
  show "(after_line s, c # s) \<in> measure length" using after_line_length [of s] by simp
  show "(t, c # s) \<in> measure length" if "after_block (drop 1 s) = Some t" for t using after_block_length [OF that] by simp
  show "(t, c # s) \<in> measure length" if "after_quote c s = Some t" for t using after_quote_length [OF that] by simp
qed simp_all

text \<open>The words of a text: the longest runs of token characters, in upper case; \<open>cur\<close> is the run being read.\<close>

fun words_from :: "string \<Rightarrow> string \<Rightarrow> string list" where
  "words_from cur [] = (if cur = [] then [] else [map upper_char cur])"
| "words_from cur (c # s) = (if isTokenChar c then words_from (cur @ [c]) s
     else (if cur = [] then [] else [map upper_char cur]) @ words_from [] s)"

section \<open>The scanner is that lexer\<close>

definition in_code :: "sql_scan \<Rightarrow> bool" where
  "in_code st \<longleftrightarrow> \<not> InSingleQuote st \<and> \<not> InDoubleQuote st \<and> \<not> InBacktickQuote st \<and> \<not> InLineComment st \<and> \<not> InBlockComment st"

definition unterminated :: "sql_scan \<Rightarrow> bool" where
  "unterminated st \<longleftrightarrow> InSingleQuote st \<or> InDoubleQuote st \<or> InBacktickQuote st \<or> InBlockComment st"

lemma flush_flags [simp]: "in_code (flush st) = in_code st" "HasTerminator (flush st) = HasTerminator st" "SqlBuilder (flush st) = []"
  "InSingleQuote (flush st) = InSingleQuote st" "InDoubleQuote (flush st) = InDoubleQuote st" "InBacktickQuote (flush st) = InBacktickQuote st"
  "InLineComment (flush st) = InLineComment st" "InBlockComment (flush st) = InBlockComment st" "flush (flush st) = flush st"
  by (simp_all add: flush_def in_code_def)

lemma flush_tokens: "SqlTokens (flush st) = SqlTokens st @ (if SqlBuilder st = [] then [] else [map upper_char (SqlBuilder st)])"
  by (simp add: flush_def)

lemma flag_off [simp]: "\<not> InSingleQuote st \<Longrightarrow> st\<lparr>InSingleQuote := False\<rparr> = st" "\<not> InDoubleQuote st \<Longrightarrow> st\<lparr>InDoubleQuote := False\<rparr> = st"
  "\<not> InBacktickQuote st \<Longrightarrow> st\<lparr>InBacktickQuote := False\<rparr> = st" "\<not> InLineComment st \<Longrightarrow> st\<lparr>InLineComment := False\<rparr> = st"
  "\<not> InBlockComment st \<Longrightarrow> st\<lparr>InBlockComment := False\<rparr> = st"
  by (cases st; simp)+

lemma scan_line:
  "in_code st \<Longrightarrow> scan s (st\<lparr>InLineComment := True\<rparr>) = scan (after_line s) st
     \<or> after_line s = [] \<and> scan s (st\<lparr>InLineComment := True\<rparr>) = st\<lparr>InLineComment := True\<rparr>"
  by (induction s rule: after_line.induct) (auto simp: scan_step_def in_code_def)

lemma scan_block:
  "in_code st \<Longrightarrow> scan s (st\<lparr>InBlockComment := True\<rparr>) =
     (case after_block s of None \<Rightarrow> st\<lparr>InBlockComment := True\<rparr> | Some t \<Rightarrow> scan t st)"
  by (induction s rule: after_block.induct) (auto simp: scan_step_def in_code_def)

lemma scan_single:
  "in_code st \<Longrightarrow> scan s (st\<lparr>InSingleQuote := True\<rparr>) =
     (case after_quote quote_char s of None \<Rightarrow> st\<lparr>InSingleQuote := True\<rparr> | Some t \<Rightarrow> scan t st)"
  by (induction quote_char s rule: after_quote.induct) (auto simp: scan_step_def in_code_def)

lemma scan_double:
  "in_code st \<Longrightarrow> scan s (st\<lparr>InDoubleQuote := True\<rparr>) =
     (case after_quote double_char s of None \<Rightarrow> st\<lparr>InDoubleQuote := True\<rparr> | Some t \<Rightarrow> scan t st)"
  by (induction double_char s rule: after_quote.induct) (auto simp: scan_step_def in_code_def)

lemma scan_tick:
  "in_code st \<Longrightarrow> scan s (st\<lparr>InBacktickQuote := True\<rparr>) =
     (case after_quote tick_char s of None \<Rightarrow> st\<lparr>InBacktickQuote := True\<rparr> | Some t \<Rightarrow> scan t st)"
  by (induction tick_char s rule: after_quote.induct) (auto simp: scan_step_def in_code_def)

text \<open>What the scanner has made of a text when it started in code; \<open>seen\<close> is the visible part.\<close>

definition scanned :: "string option \<Rightarrow> sql_scan \<Rightarrow> sql_scan \<Rightarrow> bool" where
  "scanned seen st st' \<longleftrightarrow> (case seen of
       None \<Rightarrow> unterminated st'
     | Some t \<Rightarrow> \<not> unterminated st' \<and> SqlTokens (flush st') = SqlTokens st @ words_from (SqlBuilder st) t
         \<and> HasTerminator st' = (HasTerminator st \<or> CHR '';'' \<in> set t))"

lemma scanned_blank:
  assumes "scanned seen (flush st) st'" and "\<not> isTokenChar c" and "c \<noteq> CHR '';''"
  shows "scanned (map_option ((#) c) seen) st st'"
  using assms by (cases seen) (auto simp: scanned_def flush_tokens)

lemma blank_char: "\<not> isTokenChar CHR '' ''" "CHR '' '' \<noteq> CHR '';''"
  by (simp_all add: isTokenChar_def Let_def)

lemma flush_line [simp]: "flush (st\<lparr>InLineComment := b\<rparr>) = (flush st)\<lparr>InLineComment := b\<rparr>"
  by (simp add: flush_def)

lemma scan_line_scanned:
  assumes "in_code st" and "scanned (visible (after_line s)) st (scan (after_line s) st)"
  shows "scanned (visible (after_line s)) st (scan s (st\<lparr>InLineComment := True\<rparr>))"
proof (cases "scan s (st\<lparr>InLineComment := True\<rparr>) = scan (after_line s) st")
  case True
  with assms(2) show ?thesis by simp
next
  case False
  with scan_line [OF assms(1), of s] assms show ?thesis by (auto simp: scanned_def in_code_def unterminated_def flush_tokens)
qed

lemma literal_scanned:
  assumes "case rest of None \<Rightarrow> unterminated st' | Some t \<Rightarrow> scanned (visible t) (flush st) st'"
  shows "scanned (case rest of None \<Rightarrow> None | Some t \<Rightarrow> map_option ((#) CHR '' '') (visible t)) st st'"
proof (cases rest)
  case None
  with assms show ?thesis by (simp add: scanned_def)
next
  case (Some t)
  with assms scanned_blank [OF _ blank_char, of "visible t" st st'] show ?thesis by simp
qed

lemma scan_visible: "in_code st \<Longrightarrow> scanned (visible s) st (scan s st)"
proof (induction s arbitrary: st rule: visible.induct)
  case 1
  then show ?case by (auto simp: scanned_def in_code_def unterminated_def flush_tokens)
next
  case (2 c s)
  have f: "in_code (flush st)" using 2(6) by simp
  note code = 2(6) [unfolded in_code_def]
  consider (dash) "c = CHR ''-''" "next_char s = CHR ''-''" | (hash) "c = CHR ''#''" | (block) "c = CHR ''/''" "next_char s = CHR ''*''"
    | (single) "c = quote_char" | (double) "c = double_char" | (tick) "c = tick_char"
    | (plain) "\<not> (c = CHR ''-'' \<and> next_char s = CHR ''-'')" "c \<noteq> CHR ''#''"
      "\<not> (c = CHR ''/'' \<and> next_char s = CHR ''*'')" "c \<noteq> quote_char" "c \<noteq> double_char" "c \<noteq> tick_char"
    by blast
  then show ?case
  proof cases
    case dash
    have "scanned (visible (after_line (drop 1 s))) (flush st) (scan (drop 1 s) ((flush st)\<lparr>InLineComment := True\<rparr>))"
      by (rule scan_line_scanned [OF f 2(1) [OF _ f]]) (use dash in simp)
    from scanned_blank [OF this blank_char] dash code show ?thesis by (simp add: scan_step_def)
  next
    case hash
    have "scanned (visible (after_line s)) (flush st) (scan s ((flush st)\<lparr>InLineComment := True\<rparr>))"
      by (rule scan_line_scanned [OF f 2(2) [OF _ _ f]]) (use hash in simp_all)
    from scanned_blank [OF this blank_char] hash code show ?thesis by (simp add: scan_step_def)
  next
    case block
    have "case after_block (drop 1 s) of None \<Rightarrow> unterminated (scan (c # s) st) | Some t \<Rightarrow> scanned (visible t) (flush st) (scan (c # s) st)"
      using block code scan_block [OF f, of "drop 1 s"] 2(3) [OF _ _ _ _ f]
      by (auto simp: scan_step_def unterminated_def split: option.split)
    from literal_scanned [OF this] block show ?thesis by simp
  next
    case single
    have "case after_quote c s of None \<Rightarrow> unterminated (scan (c # s) st) | Some t \<Rightarrow> scanned (visible t) (flush st) (scan (c # s) st)"
      using single code scan_single [OF f, of s] 2(4) [OF _ _ _ _ _ f]
      by (auto simp: scan_step_def unterminated_def split: option.split)
    from literal_scanned [OF this] single show ?thesis by simp
  next
    case double
    have "case after_quote c s of None \<Rightarrow> unterminated (scan (c # s) st) | Some t \<Rightarrow> scanned (visible t) (flush st) (scan (c # s) st)"
      using double code scan_double [OF f, of s] 2(4) [OF _ _ _ _ _ f]
      by (auto simp: scan_step_def unterminated_def split: option.split)
    from literal_scanned [OF this] double show ?thesis by simp
  next
    case tick
    have "case after_quote c s of None \<Rightarrow> unterminated (scan (c # s) st) | Some t \<Rightarrow> scanned (visible t) (flush st) (scan (c # s) st)"
      using tick code scan_tick [OF f, of s] 2(4) [OF _ _ _ _ _ f]
      by (auto simp: scan_step_def unterminated_def split: option.split)
    from literal_scanned [OF this] tick show ?thesis by simp
  next
    case plain
    have ih: "in_code st1 \<Longrightarrow> scanned (visible s) st1 (scan s st1)" for st1 by (rule 2(5)) (use plain in auto)
    have v: "visible (c # s) = map_option ((#) c) (visible s)" using plain by auto
    show ?thesis
    proof (cases "isTokenChar c")
      case True
      let ?st = "st\<lparr>SqlBuilder := SqlBuilder st @ [c]\<rparr>"
      from True have "c \<noteq> CHR '';''" by (auto simp: isTokenChar_def Let_def)
      moreover from this True plain code have "scan (c # s) st = scan s ?st" by (auto simp: scan_step_def)
      moreover have "scanned (visible s) ?st (scan s ?st)" using ih [of ?st] 2(6) by (simp add: in_code_def)
      ultimately show ?thesis unfolding v using True by (cases "visible s") (simp_all add: scanned_def)
    next
      case False
      let ?st = "if c = CHR '';'' then (flush st)\<lparr>HasTerminator := True\<rparr> else flush st"
      from False plain code have "scan (c # s) st = scan s ?st" by (auto simp: scan_step_def)
      moreover have "scanned (visible s) ?st (scan s ?st)" using ih [of ?st] f by (simp add: in_code_def)
      ultimately show ?thesis unfolding v using False by (cases "visible s") (auto simp: scanned_def flush_tokens)
    qed
  qed
qed

section \<open>What the guard accepts\<close>

lemma sqlTokens_visible:
  "sqlTokens query = (case visible (trim_space query) of
     None \<Rightarrow> Inl (Errorf ''sql tool: unterminated query literal or comment'' [] None)
   | Some t \<Rightarrow> Inr (words_from [] t, CHR '';'' \<in> set t))"
proof -
  let ?q = "trim_space query"
  have s: "scanned (visible ?q) scan_start (scan ?q scan_start)" by (rule scan_visible) (simp add: in_code_def scan_start_def)
  show ?thesis
  proof (cases "visible ?q")
    case None
    with s have "?q \<noteq> []" "unterminated (scan ?q scan_start)" by (auto simp: scanned_def)
    with None show ?thesis by (auto simp: sqlTokens_def unterminated_def Let_def)
  next
    case (Some t)
    show ?thesis
    proof (cases "?q = []")
      case True
      with Some show ?thesis by (auto simp: sqlTokens_def Let_def)
    next
      case False
      with s Some show ?thesis by (auto simp: sqlTokens_def scanned_def unterminated_def scan_start_def Let_def)
    qed
  qed
qed

lemma no_mutating: "(case find (\<lambda>t. t \<in> M) ws of Some token \<Rightarrow> Some (f token) | None \<Rightarrow> None) = None \<longleftrightarrow> set ws \<inter> M = {}"
proof (cases "find (\<lambda>t. t \<in> M) ws")
  case None
  moreover from None have "set ws \<inter> M = {}" by (auto simp: find_None_iff)
  ultimately show ?thesis by simp
next
  case (Some x)
  then have "x \<in> set ws \<inter> M" by (auto simp: find_Some_iff)
  with Some show ?thesis by auto
qed

text \<open>
  C21: the guard accepts exactly the queries that read. A query passes if and only if its literals and comments end and what is left
  when they are cut out has no semicolon, starts with SELECT, or with WITH and has a SELECT, and has none of the mutating
  keywords; quotes, doubled quotes, comments inside literals and literals inside comments are all taken as wholes.
\<close>

theorem validateReadOnlyQuery_exact:
  "validateReadOnlyQuery query = None \<longleftrightarrow>
     (\<exists>t w ws. visible (trim_space query) = Some t \<and> words_from [] t = w # ws \<and> CHR '';'' \<notin> set t
        \<and> (w = ''SELECT'' \<or> w = ''WITH'' \<and> ''SELECT'' \<in> set ws) \<and> set (w # ws) \<inter> set mutating_keywords = {})"
proof (cases "visible (trim_space query)")
  case None
  then show ?thesis by (simp add: validateReadOnlyQuery_def sqlTokens_visible)
next
  case (Some t)
  show ?thesis
  proof (cases "words_from [] t")
    case Nil
    with Some show ?thesis by (simp add: validateReadOnlyQuery_def sqlTokens_visible)
  next
    case (Cons w ws)
    with Some show ?thesis
      by (auto simp: validateReadOnlyQuery_def sqlTokens_visible no_mutating containsToken_def list_ex_iff simp del: find.simps)
  qed
qed

lemma read_rows_bounded:
  "read_rows maxRows rows out = Inr (out', truncated) \<Longrightarrow> int (length out) \<le> maxRows \<Longrightarrow> int (length out') \<le> maxRows"
  by (induction maxRows rows out rule: read_rows.induct) (auto split: if_splits sum.splits)

lemma executor_limit: "NewExecutor config = Inr ex \<Longrightarrow> 0 < SqlMaxRows ex"
  by (auto simp: NewExecutor_def DefaultMaxRows_def split: if_splits sum.splits)

text \<open>
  The SQL tool only sends the database queries the guard accepts, configured or written by the model, and returns at most the
  configured number of rows, whatever the database answers.
\<close>

theorem sql_execute_guarded:
  assumes "NewExecutor config = Inr ex" and "sql_execute db decode ctxErr ex input = (sent, res)"
  shows "(\<forall>query. sent = Some query \<longrightarrow> validateReadOnlyQuery query = None)
    \<and> (\<forall>queryID columns rows truncated. res = Inr (queryID, columns, rows, truncated) \<longrightarrow> int (length rows) \<le> SqlMaxRows ex)"
  using assms(2) executor_limit [OF assms(1)]
  by (auto simp: sql_execute_def split: option.splits if_splits sum.splits dest!: read_rows_bounded)

definition sample_sql :: sql_executor where
  "sample_sql = \<lparr>SqlAllowed = [], SqlAdHoc = True, SqlMaxRows = 1, SqlTimeout = DefaultTimeout\<rparr>"

definition two_rows :: "string \<Rightarrow> go_error + (go_error + string list) \<times> (go_error + nat) list \<times> go_error option" where
  "two_rows query = Inr (Inr [''x''], [Inr 1, Inr 2], None)"

theorem sql_execute_guarded_witness:
  "validateReadOnlyQuery ''SELECT x'' = None
   \<and> snd (sql_execute two_rows (\<lambda>_. Inr \<lparr>ReqQueryID = [], ReqQuery = ''SELECT x''\<rparr>) None sample_sql ''{}'') = Inr ([], [''x''], [1], True)
   \<and> int (length [1 :: nat]) \<le> SqlMaxRows sample_sql"
proof -
  have t: "trim_space ''SELECT x'' = ''SELECT x''" "words_from [] ''SELECT x'' = [''SELECT'', ''X'']"
    by (simp add: trim_space_def trim_segments_def is_space_def in_range_def) code_simp
  have "visible ''SELECT x'' = Some ''SELECT x''" by simp
  with t have "validateReadOnlyQuery ''SELECT x'' = None"
    by (simp add: validateReadOnlyQuery_def sqlTokens_visible mutating_keywords_def)
  with t have e: "sql_execute two_rows (\<lambda>_. Inr \<lparr>ReqQueryID = [], ReqQuery = ''SELECT x''\<rparr>) None sample_sql ''{}'' =
      (Some ''SELECT x'', Inr ([], [''x''], [1], True))"
    by (simp add: sql_execute_def resolveQuery_def sample_sql_def two_rows_def)
  have "NewExecutor \<lparr>ConfigHasDB = True, AllowedQueries = [], AllowAdHocQuery = True, ConfigMaxRows = 1, ConfigTimeout = 0\<rparr> = Inr sample_sql"
    by (simp add: NewExecutor_def sample_sql_def)
  from sql_execute_guarded [OF this e] e show ?thesis by auto
qed

section \<open>Dialects\<close>

text \<open>
  The guard takes a hash for the start of a comment, as MySQL does. In PostgreSQL it is an operator and the rest of the line is code, so a
  second, mutating statement passes. In MySQL a comment that starts with an exclamation mark is executed and a backslash escapes a
  quote, and both pass too.
\<close>

theorem guard_misses_other_dialects:
  "validateReadOnlyQuery ''SELECT 5 # 3; DELETE FROM runs'' = None"
  "validateReadOnlyQuery ''SELECT a FROM t /*! INTO OUTFILE x */'' = None"
proof -
  have "trim_space ''SELECT 5 # 3; DELETE FROM runs'' = ''SELECT 5 # 3; DELETE FROM runs''"
    "trim_space ''SELECT a FROM t /*! INTO OUTFILE x */'' = ''SELECT a FROM t /*! INTO OUTFILE x */''"
    by (simp_all add: trim_space_def trim_segments_def is_space_def in_range_def)
  moreover have "visible ''SELECT 5 # 3; DELETE FROM runs'' = Some ''SELECT 5  ''"
    "visible ''SELECT a FROM t /*! INTO OUTFILE x */'' = Some ''SELECT a FROM t  ''"
    by (simp_all add: next_char_def)
  moreover have "words_from [] ''SELECT 5  '' = [''SELECT'']" "words_from [] ''SELECT a FROM t  '' = [''SELECT'', ''A'', ''FROM'', ''T'']"
    by code_simp+
  ultimately show "validateReadOnlyQuery ''SELECT 5 # 3; DELETE FROM runs'' = None"
    "validateReadOnlyQuery ''SELECT a FROM t /*! INTO OUTFILE x */'' = None"
    by (simp_all add: validateReadOnlyQuery_def sqlTokens_visible mutating_keywords_def)
qed

end
