(* ===== verification/Stream_Hub.thy ===== *)
theory Stream_Hub
  imports Event_Types Run_State "HOL-Library.Sublist"
begin

text \<open>
  The fan-out of the frames of a streamed run: \<^verbatim>\<open>stream_hub.go\<close>. A session keeps a replay ring and its subscribers, each with a bounded
  channel, a backlog for frames that may not be lost and a drainer goroutine. A method that holds the hub's lock is one step; the drainer, which
  lets go of the lock to send, is a machine of its own whose steps interleave with the others.

  Sessions are kept by address because a drainer goes on working on a session that was replaced. The channels \<^verbatim>\<open>done\<close> and \<^verbatim>\<open>finished\<close> are closed
  together with setting \<^verbatim>\<open>detached\<close> and \<^verbatim>\<open>closed\<close>, so the flags stand for them. A send on a closed channel and a second close panic in Go: \<open>Crashed\<close>
  records them. \<open>Taken\<close> is what the consumer has received.
\<close>

section \<open>Frames\<close>

datatype stream_frame_kind = StreamFrameToken | StreamFrameEvent | StreamFrameDone | StreamFrameError | StreamFrameEventsLost | StreamFrameOther string

record stream_run_result =
  ResultRunID :: string
  ResultStatus :: run_status
  ResultToken :: string
  ResultOutput :: string

record stream_frame =
  FrKind :: stream_frame_kind
  FrChunk :: "string option"
  FrEvent :: "event option"
  FrErr :: "go_error option"
  FrResult :: "stream_run_result option"
  EventsLost :: int

definition zero_frame :: stream_frame where
  "zero_frame = \<lparr>FrKind = StreamFrameOther [], FrChunk = None, FrEvent = None, FrErr = None, FrResult = None, EventsLost = 0\<rparr>"

definition lost_marker :: "int \<Rightarrow> stream_frame" where
  "lost_marker n = zero_frame\<lparr>FrKind := StreamFrameEventsLost, EventsLost := n\<rparr>"

definition streamHubRingCapacity :: nat where "streamHubRingCapacity = 1024"
definition streamSubscriberBuffer :: nat where "streamSubscriberBuffer = 256"

definition streamFrameDroppable :: "stream_frame \<Rightarrow> bool" where
  "streamFrameDroppable frame \<longleftrightarrow> FrKind frame = StreamFrameEvent \<or> FrKind frame = StreamFrameEventsLost"

definition streamFrameTerminal :: "stream_frame \<Rightarrow> bool" where
  "streamFrameTerminal frame = (case FrKind frame of
       StreamFrameError \<Rightarrow> True
     | StreamFrameDone \<Rightarrow> (case FrResult frame of None \<Rightarrow> True | Some r \<Rightarrow> ResultStatus r \<noteq> RunStatusPaused)
     | _ \<Rightarrow> False)"

text \<open>The projection of a preset: what \<^verbatim>\<open>deliverLocked\<close> and \<^verbatim>\<open>attach\<close> pass on.\<close>

definition shown :: "event_preset \<Rightarrow> stream_frame \<Rightarrow> bool" where
  "shown preset frame = (\<not> (FrKind frame = StreamFrameEvent \<and> (case FrEvent frame of None \<Rightarrow> False | Some e \<Rightarrow> \<not> Preset_Allows preset (EvType e))))"

section \<open>Subscribers\<close>

text \<open>Where the drainer of a subscriber is: not started, about to lock, sending a frame or a marker without the lock, about to pop, about to close.\<close>

datatype drainer = NoDrainer | Looking | Sending stream_frame | Popping | Marking stream_frame | ClosingCh

record stream_subscriber =
  SubCh :: "stream_frame list"
  SubPreset :: event_preset
  Backlog :: "stream_frame list"
  Lost :: int
  LostSent :: int
  Draining :: bool
  Detached :: bool
  SubClosed :: bool
  ChClosed :: bool
  Listed :: bool
  Drainer :: drainer
  Taken :: "stream_frame list"
  Crashed :: bool

definition ch_room :: "stream_subscriber \<Rightarrow> bool" where
  "ch_room sub \<longleftrightarrow> length (SubCh sub) < streamSubscriberBuffer"

definition ch_send :: "stream_frame \<Rightarrow> stream_subscriber \<Rightarrow> stream_subscriber" where
  "ch_send frame sub = sub\<lparr>SubCh := SubCh sub @ [frame], Crashed := Crashed sub \<or> ChClosed sub\<rparr>"

definition ch_close :: "stream_subscriber \<Rightarrow> stream_subscriber" where
  "ch_close sub = sub\<lparr>ChClosed := True, Crashed := Crashed sub \<or> ChClosed sub\<rparr>"

definition detachLocked :: "stream_subscriber \<Rightarrow> stream_subscriber" where
  "detachLocked sub =
     (if SubClosed sub \<or> Detached sub then sub
      else if Draining sub then sub\<lparr>Detached := True\<rparr>
      else ch_close (sub\<lparr>Detached := True, SubClosed := True, Listed := False\<rparr>))"

definition finishSubscriberLocked :: "stream_subscriber \<Rightarrow> stream_subscriber" where
  "finishSubscriberLocked sub =
     (if SubClosed sub \<or> Detached sub \<or> Backlog sub \<noteq> [] \<or> Draining sub then sub
      else (let sub1 = (if LostSent sub < Lost sub \<and> ch_room sub then (ch_send (lost_marker (Lost sub)) sub)\<lparr>LostSent := Lost sub\<rparr> else sub)
        in ch_close (sub1\<lparr>SubClosed := True, Listed := False\<rparr>)))"

definition deliverLocked :: "stream_frame \<Rightarrow> stream_subscriber \<Rightarrow> stream_subscriber" where
  "deliverLocked frame sub =
     (if SubClosed sub \<or> Detached sub then sub
      else if \<not> shown (SubPreset sub) frame then sub
      else (let sub1 =
          (if Backlog sub \<noteq> [] \<or> Draining sub then
             (if streamFrameDroppable frame then sub\<lparr>Lost := Lost sub + 1\<rparr> else sub\<lparr>Backlog := Backlog sub @ [frame]\<rparr>)
           else if ch_room sub then ch_send frame sub
           else if streamFrameDroppable frame then sub\<lparr>Lost := Lost sub + 1\<rparr>
           else sub\<lparr>Backlog := Backlog sub @ [frame], Draining := True, Drainer := Looking\<rparr>)
        in if streamFrameTerminal frame then finishSubscriberLocked sub1 else sub1))"

text \<open>
  One step of \<^verbatim>\<open>drainSubscriber\<close>. \<open>over\<close> says that the session is terminal or the hub closed. The two branches of a \<^verbatim>\<open>select\<close> are two rules.
\<close>

definition drainer_look :: "bool \<Rightarrow> stream_subscriber \<Rightarrow> stream_subscriber" where
  "drainer_look over sub =
     (if Backlog sub \<noteq> [] \<and> \<not> Detached sub then sub\<lparr>Drainer := Sending (hd (Backlog sub))\<rparr>
      else if Detached sub then
        (let sub1 = sub\<lparr>Backlog := [], Draining := False\<rparr> in
         if \<not> SubClosed sub then sub1\<lparr>SubClosed := True, Listed := False, Drainer := ClosingCh\<rparr> else sub1\<lparr>Drainer := NoDrainer\<rparr>)
      else if LostSent sub < Lost sub then sub\<lparr>LostSent := Lost sub, Drainer := Marking (lost_marker (Lost sub))\<rparr>
      else if \<not> SubClosed sub \<and> over then sub\<lparr>Draining := False, SubClosed := True, Listed := False, Drainer := ClosingCh\<rparr>
      else sub\<lparr>Draining := False, Drainer := NoDrainer\<rparr>)"

inductive drainSubscriber :: "bool \<Rightarrow> stream_subscriber \<Rightarrow> stream_subscriber \<Rightarrow> bool" for over where
  look: "Drainer sub = Looking \<Longrightarrow> drainSubscriber over sub (drainer_look over sub)"
| sent: "Drainer sub = Sending frame \<Longrightarrow> ch_room sub \<Longrightarrow> drainSubscriber over sub ((ch_send frame sub)\<lparr>Drainer := Popping\<rparr>)"
| aborted: "Drainer sub = Sending frame \<Longrightarrow> Detached sub \<Longrightarrow> drainSubscriber over sub (sub\<lparr>Drainer := Looking\<rparr>)"
| popped: "Drainer sub = Popping \<Longrightarrow> drainSubscriber over sub (sub\<lparr>Backlog := tl (Backlog sub), Crashed := Crashed sub \<or> Backlog sub = [], Drainer := Looking\<rparr>)"
| marked: "Drainer sub = Marking m \<Longrightarrow> ch_room sub \<Longrightarrow> drainSubscriber over sub ((ch_send m sub)\<lparr>Drainer := Looking\<rparr>)"
| unmarked: "Drainer sub = Marking m \<Longrightarrow> Detached sub \<Longrightarrow> drainSubscriber over sub (sub\<lparr>Drainer := Looking\<rparr>)"
| shut: "Drainer sub = ClosingCh \<Longrightarrow> drainSubscriber over sub ((ch_close sub)\<lparr>Drainer := NoDrainer\<rparr>)"

section \<open>Sessions and the hub\<close>

record stream_session =
  SesRunID :: string
  Ring :: "stream_frame list"
  RingHead :: nat
  RingLen :: nat
  RingEvicted :: int
  Subs :: "stream_subscriber list"
  SesTerminal :: bool
  GraceTimer :: bool

definition new_session :: "string \<Rightarrow> stream_session" where
  "new_session runID = \<lparr>SesRunID = runID, Ring = [], RingHead = 0, RingLen = 0, RingEvicted = 0, Subs = [], SesTerminal = False, GraceTimer = False\<rparr>"

definition ringAppend :: "stream_frame \<Rightarrow> stream_session \<Rightarrow> stream_session" where
  "ringAppend frame s0 =
     (let s = (if Ring s0 = [] then s0\<lparr>Ring := replicate streamHubRingCapacity zero_frame\<rparr> else s0) in
      if RingLen s < streamHubRingCapacity
      then s\<lparr>Ring := (Ring s)[(RingHead s + RingLen s) mod streamHubRingCapacity := frame], RingLen := RingLen s + 1\<rparr>
      else s\<lparr>Ring := (Ring s)[RingHead s := frame], RingHead := (RingHead s + 1) mod streamHubRingCapacity, RingEvicted := RingEvicted s + 1\<rparr>)"

definition ringFrames :: "stream_session \<Rightarrow> stream_frame list" where
  "ringFrames s = map (\<lambda>i. Ring s ! ((RingHead s + i) mod streamHubRingCapacity)) [0..<RingLen s]"

record stream_hub =
  Sessions :: "stream_session list"
  Live :: "string \<Rightarrow> nat option"
  HubClosed :: bool

definition newStreamHub :: stream_hub where
  "newStreamHub = \<lparr>Sessions = [], Live = Map.empty, HubClosed = False\<rparr>"

definition live_session :: "stream_hub \<Rightarrow> string \<Rightarrow> (nat \<times> stream_session) option" where
  "live_session h runID = map_option (\<lambda>sid. (sid, Sessions h ! sid)) (Live h runID)"

definition put_session :: "nat \<Rightarrow> stream_session \<Rightarrow> stream_hub \<Rightarrow> stream_hub" where
  "put_session sid s h = h\<lparr>Sessions := (Sessions h)[sid := s]\<rparr>"

definition add_session :: "string \<Rightarrow> stream_hub \<Rightarrow> stream_hub" where
  "add_session runID h = h\<lparr>Sessions := Sessions h @ [new_session runID], Live := (Live h)(runID \<mapsto> length (Sessions h))\<rparr>"

text \<open>The loop over the subscribers a session lists, and the timer that every removal stops.\<close>

definition each_listed :: "(stream_subscriber \<Rightarrow> stream_subscriber) \<Rightarrow> stream_session \<Rightarrow> stream_session" where
  "each_listed f s = s\<lparr>Subs := map (\<lambda>sub. if Listed sub then f sub else sub) (Subs s)\<rparr>"

definition drop_session :: "stream_session \<Rightarrow> stream_session" where
  "drop_session s = each_listed detachLocked (s\<lparr>GraceTimer := False\<rparr>)"

definition hub_register :: "string \<Rightarrow> stream_hub \<Rightarrow> stream_hub \<times> nat option" where
  "hub_register runID h =
     (if HubClosed h then (h, None)
      else (let h1 = (case live_session h runID of None \<Rightarrow> h | Some (sid, old) \<Rightarrow> put_session sid (drop_session old) h)
        in (add_session runID h1, Some (length (Sessions h)))))"

definition hub_unregister :: "string \<Rightarrow> nat \<Rightarrow> stream_hub \<Rightarrow> stream_hub" where
  "hub_unregister runID sid h =
     (if Live h runID \<noteq> Some sid then h
      else (put_session sid (drop_session (Sessions h ! sid)) h)\<lparr>Live := (Live h)(runID := None)\<rparr>)"

definition hub_publish :: "string \<Rightarrow> stream_frame \<Rightarrow> stream_hub \<Rightarrow> stream_hub" where
  "hub_publish runID frame h =
     (if HubClosed h then h
      else (case live_session h runID of
          None \<Rightarrow> h
        | Some (sid, s) \<Rightarrow>
            (let s1 = each_listed (deliverLocked frame) (ringAppend frame s);
                 s2 = (if streamFrameTerminal frame \<and> \<not> SesTerminal s1 then s1\<lparr>SesTerminal := True, GraceTimer := True\<rparr> else s1)
             in put_session sid s2 h)))"

definition errStreamRunNotActive :: go_error where
  "errStreamRunNotActive = Errorf ''agentflow: run has no active stream session'' [] None"

definition new_subscriber :: "event_preset \<Rightarrow> stream_session \<Rightarrow> stream_subscriber" where
  "new_subscriber preset s =
     (let backlog = (if 0 < RingEvicted s then [lost_marker (RingEvicted s)] else []) @ filter (shown preset) (ringFrames s);
          drain = (backlog \<noteq> [] \<or> SesTerminal s) in
      \<lparr>SubCh = [], SubPreset = preset, Backlog = backlog, Lost = 0, LostSent = 0, Draining = drain, Detached = False, SubClosed = False,
       ChClosed = False, Listed = True, Drainer = (if drain then Looking else NoDrainer), Taken = [], Crashed = False\<rparr>)"

definition hub_attach :: "string \<Rightarrow> event_preset \<Rightarrow> stream_hub \<Rightarrow> stream_hub \<times> (go_error + nat \<times> nat)" where
  "hub_attach runID preset h =
     (if HubClosed h then (h, Inl (Errorf ''agentflow: stream hub is closed'' [] None))
      else (case live_session h runID of
          None \<Rightarrow> (h, Inl errStreamRunNotActive)
        | Some (sid, s) \<Rightarrow> (put_session sid (s\<lparr>Subs := Subs s @ [new_subscriber preset s]\<rparr>) h, Inr (sid, length (Subs s)))))"

text \<open>A subscriber is looked up by its number in the session that is live now.\<close>

definition hub_detach :: "string \<Rightarrow> nat \<Rightarrow> stream_hub \<Rightarrow> stream_hub" where
  "hub_detach runID subID h =
     (case live_session h runID of
        None \<Rightarrow> h
      | Some (sid, s) \<Rightarrow>
          if subID < length (Subs s) \<and> Listed (Subs s ! subID)
          then put_session sid (s\<lparr>Subs := (Subs s)[subID := detachLocked (Subs s ! subID)]\<rparr>) h else h)"

definition hub_sessionActive :: "string \<Rightarrow> stream_hub \<Rightarrow> bool" where
  "hub_sessionActive runID h = (case live_session h runID of None \<Rightarrow> False | Some (_, s) \<Rightarrow> \<not> SesTerminal s)"

definition hub_reactivate :: "string \<Rightarrow> stream_hub \<Rightarrow> stream_hub \<times> bool" where
  "hub_reactivate runID h =
     (if HubClosed h then (h, False)
      else (case live_session h runID of
          None \<Rightarrow> (h, False)
        | Some (sid, old) \<Rightarrow> if \<not> SesTerminal old then (h, True) else (add_session runID (put_session sid (drop_session old) h), True)))"

text \<open>\<^verbatim>\<open>close\<close> walks the live sessions: those some run points to.\<close>

definition hub_close :: "stream_hub \<Rightarrow> stream_hub" where
  "hub_close h =
     (if HubClosed h then h
      else h\<lparr>HubClosed := True, Live := Map.empty,
        Sessions := map (\<lambda>s. if Live h (SesRunID (Sessions h ! s)) = Some s then drop_session (Sessions h ! s) else Sessions h ! s) [0..<length (Sessions h)]\<rparr>)"

definition tee_Emit :: "string \<Rightarrow> event \<Rightarrow> stream_hub \<Rightarrow> stream_hub" where
  "tee_Emit runID ev h =
     (if EvRunID ev \<noteq> [] \<and> EvRunID ev \<noteq> runID then h
      else hub_publish runID (zero_frame\<lparr>FrKind := StreamFrameEvent, FrEvent := Some ev\<rparr>) h)"

section \<open>The replay ring\<close>

text \<open>The ring holds the last frames of a session, in order.\<close>

definition ring_of :: "stream_frame list \<Rightarrow> stream_session \<Rightarrow> bool" where
  "ring_of published s \<longleftrightarrow>
     (Ring s = [] \<longrightarrow> published = []) \<and> (Ring s \<noteq> [] \<longrightarrow> length (Ring s) = streamHubRingCapacity)
     \<and> RingLen s = min (length published) streamHubRingCapacity \<and> RingHead s < streamHubRingCapacity
     \<and> (RingLen s < streamHubRingCapacity \<longrightarrow> RingHead s = 0)
     \<and> RingEvicted s = int (length published - streamHubRingCapacity)
     \<and> ringFrames s = drop (length published - streamHubRingCapacity) published"

lemma capacity_pos [simp]: "0 < streamHubRingCapacity"
  by (simp add: streamHubRingCapacity_def)

lemma ringFrames_append_short:
  assumes "length (Ring s) = streamHubRingCapacity" "RingLen s < streamHubRingCapacity" "RingHead s = 0"
  shows "ringFrames (s\<lparr>Ring := (Ring s)[RingLen s := frame], RingLen := RingLen s + 1\<rparr>) = ringFrames s @ [frame]"
  using assms by (auto simp: ringFrames_def intro!: nth_equalityI simp: nth_append less_Suc_eq)

lemma mod_next_hit:
  assumes "a < n" "i < n" "Suc (a + i) mod n = a"
  shows "i = n - Suc 0"
proof -
  have "Suc (a + i) < 2 * n" using assms by simp
  then have "Suc (a + i) mod n = (if Suc (a + i) < n then Suc (a + i) else Suc (a + i) - n)"
    by (simp add: mod_if le_mod_geq)
  with assms show ?thesis by (simp split: if_splits)
qed

lemma ringFrames_append_full:
  assumes "length (Ring s) = streamHubRingCapacity" "RingLen s = streamHubRingCapacity" "RingHead s < streamHubRingCapacity"
  shows "ringFrames (s\<lparr>Ring := (Ring s)[RingHead s := frame], RingHead := (RingHead s + 1) mod streamHubRingCapacity\<rparr>) = tl (ringFrames s) @ [frame]"
proof (rule nth_equalityI)
  show "length (ringFrames (s\<lparr>Ring := (Ring s)[RingHead s := frame], RingHead := (RingHead s + 1) mod streamHubRingCapacity\<rparr>)) = length (tl (ringFrames s) @ [frame])"
    using assms by (simp add: ringFrames_def)
next
  fix i assume "i < length (ringFrames (s\<lparr>Ring := (Ring s)[RingHead s := frame], RingHead := (RingHead s + 1) mod streamHubRingCapacity\<rparr>))"
  then have i: "i < streamHubRingCapacity" using assms by (simp add: ringFrames_def)
  let ?k = "Suc (RingHead s + i) mod streamHubRingCapacity"
  have k: "((RingHead s + 1) mod streamHubRingCapacity + i) mod streamHubRingCapacity = ?k"
    by (simp add: mod_add_left_eq)
  show "ringFrames (s\<lparr>Ring := (Ring s)[RingHead s := frame], RingHead := (RingHead s + 1) mod streamHubRingCapacity\<rparr>) ! i = (tl (ringFrames s) @ [frame]) ! i"
  proof (cases "i < streamHubRingCapacity - 1")
    case True
    then have "?k \<noteq> RingHead s" using mod_next_hit [OF assms(3) i] by auto
    with True i k assms show ?thesis by (simp add: ringFrames_def nth_append nth_tl)
  next
    case False
    with i have e: "i = streamHubRingCapacity - 1" by simp
    have "Suc (RingHead s + i) = RingHead s + streamHubRingCapacity" using e capacity_pos by simp
    then have "?k = (RingHead s + streamHubRingCapacity) mod streamHubRingCapacity" by (simp only:)
    also have "\<dots> = RingHead s" using assms(3) by simp
    finally have "?k = RingHead s" .
    with e i k assms show ?thesis by (simp add: ringFrames_def nth_append)
  qed
qed

lemma ringAppend_ring:
  assumes "ring_of published s"
  shows "ring_of (published @ [frame]) (ringAppend frame s)"
proof -
  define s0 where "s0 = (if Ring s = [] then s\<lparr>Ring := replicate streamHubRingCapacity zero_frame\<rparr> else s)"
  have s0: "length (Ring s0) = streamHubRingCapacity" "RingLen s0 = min (length published) streamHubRingCapacity" "RingHead s0 < streamHubRingCapacity"
    "RingLen s0 < streamHubRingCapacity \<Longrightarrow> RingHead s0 = 0" "RingEvicted s0 = int (length published - streamHubRingCapacity)"
    "ringFrames s0 = drop (length published - streamHubRingCapacity) published"
    using assms by (auto simp: ring_of_def s0_def ringFrames_def)
  show ?thesis
  proof (cases "length published < streamHubRingCapacity")
    case True
    then have "ringAppend frame s = s0\<lparr>Ring := (Ring s0)[RingLen s0 := frame], RingLen := RingLen s0 + 1\<rparr>"
      using s0 by (simp add: ringAppend_def s0_def [symmetric] Let_def)
    with True s0 ringFrames_append_short [of s0 frame] show ?thesis by (auto simp: ring_of_def)
  next
    case False
    then have e: "ringAppend frame s = (s0\<lparr>Ring := (Ring s0)[RingHead s0 := frame], RingHead := (RingHead s0 + 1) mod streamHubRingCapacity\<rparr>)\<lparr>RingEvicted := RingEvicted s0 + 1\<rparr>"
      using s0 by (simp add: ringAppend_def s0_def [symmetric] Let_def)
    have "ringFrames (ringAppend frame s) = tl (ringFrames s0) @ [frame]"
      using ringFrames_append_full [of s0 frame] False s0 by (simp add: e ringFrames_def)
    with False s0 e show ?thesis
      by (auto simp: ring_of_def Suc_diff_le drop_Suc tl_drop)
  qed
qed

section \<open>Runs of the hub\<close>

text \<open>
  Every interleaving of the methods, the drainers and the consumers. Beside the hub a run keeps, as history, what was published to each session
  and what each subscriber is owed: the frames of the ring its preset shows when it attached, then those published while it was attached.
\<close>

type_synonym owed = "nat \<Rightarrow> nat \<Rightarrow> stream_frame list"

definition attached :: "stream_subscriber \<Rightarrow> bool" where
  "attached sub \<longleftrightarrow> \<not> SubClosed sub \<and> \<not> Detached sub"

definition recent :: "stream_frame list \<Rightarrow> stream_frame list" where
  "recent published = drop (length published - streamHubRingCapacity) published"

definition owe :: "stream_frame \<Rightarrow> nat \<Rightarrow> stream_session \<Rightarrow> owed \<Rightarrow> owed" where
  "owe frame sid s g = g(sid := (\<lambda>j. if j < length (Subs s) \<and> attached (Subs s ! j) \<and> shown (SubPreset (Subs s ! j)) frame then g sid j @ [frame] else g sid j))"

definition consume :: "stream_subscriber \<Rightarrow> stream_subscriber" where
  "consume sub = (case SubCh sub of [] \<Rightarrow> sub | frame # rest \<Rightarrow> sub\<lparr>SubCh := rest, Taken := Taken sub @ [frame]\<rparr>)"

definition put_sub :: "nat \<Rightarrow> nat \<Rightarrow> stream_subscriber \<Rightarrow> stream_hub \<Rightarrow> stream_hub" where
  "put_sub sid j sub h = (let s = Sessions h ! sid in put_session sid (s\<lparr>Subs := (Subs s)[j := sub]\<rparr>) h)"

inductive hub_run :: "stream_hub \<Rightarrow> (nat \<Rightarrow> stream_frame list) \<Rightarrow> owed \<Rightarrow> bool" where
  start: "hub_run newStreamHub (\<lambda>_. []) (\<lambda>_ _. [])"
| register: "hub_run h p g \<Longrightarrow> hub_run (fst (hub_register runID h)) p g"
| unregister: "hub_run h p g \<Longrightarrow> hub_run (hub_unregister runID sid h) p g"
| publish: "hub_run h p g \<Longrightarrow> \<not> HubClosed h \<Longrightarrow> live_session h runID = Some (sid, s) \<Longrightarrow>
     hub_run (hub_publish runID frame h) (p(sid := p sid @ [frame])) (owe frame sid s g)"
| unheard: "hub_run h p g \<Longrightarrow> HubClosed h \<or> live_session h runID = None \<Longrightarrow> hub_run (hub_publish runID frame h) p g"
| attach: "hub_run h p g \<Longrightarrow> hub_attach runID preset h = (h', Inr (sid, j)) \<Longrightarrow>
     hub_run h' p (g(sid := (g sid)(j := filter (shown preset) (recent (p sid)))))"
| unattached: "hub_run h p g \<Longrightarrow> hub_attach runID preset h = (h', Inl e) \<Longrightarrow> hub_run h' p g"
| detach: "hub_run h p g \<Longrightarrow> hub_run (hub_detach runID subID h) p g"
| reactivate: "hub_run h p g \<Longrightarrow> hub_run (fst (hub_reactivate runID h)) p g"
| close: "hub_run h p g \<Longrightarrow> hub_run (hub_close h) p g"
| drain: "hub_run h p g \<Longrightarrow> sid < length (Sessions h) \<Longrightarrow> j < length (Subs (Sessions h ! sid)) \<Longrightarrow>
     drainSubscriber (SesTerminal (Sessions h ! sid) \<or> HubClosed h) (Subs (Sessions h ! sid) ! j) sub \<Longrightarrow> hub_run (put_sub sid j sub h) p g"
| take: "hub_run h p g \<Longrightarrow> sid < length (Sessions h) \<Longrightarrow> j < length (Subs (Sessions h ! sid)) \<Longrightarrow>
     hub_run (put_sub sid j (consume (Subs (Sessions h ! sid) ! j)) h) p g"

section \<open>What a subscriber has and is owed\<close>

definition pending :: "stream_subscriber \<Rightarrow> stream_frame list" where
  "pending sub = (if Drainer sub = Popping then tl (Backlog sub) else Backlog sub)"

definition stream_of :: "stream_subscriber \<Rightarrow> stream_frame list" where
  "stream_of sub = Taken sub @ SubCh sub @ pending sub"

abbreviation reliable :: "stream_frame list \<Rightarrow> stream_frame list" where
  "reliable frames \<equiv> filter (\<lambda>f. \<not> streamFrameDroppable f) frames"

abbreviation unmarked_frames :: "stream_frame list \<Rightarrow> stream_frame list" where
  "unmarked_frames frames \<equiv> filter (\<lambda>f. FrKind f \<noteq> StreamFrameEventsLost) frames"

definition event_count :: "stream_frame list \<Rightarrow> int" where
  "event_count frames = int (length (filter (\<lambda>f. FrKind f = StreamFrameEvent) frames))"

text \<open>The flags of a subscriber and the place of its drainer agree.\<close>

definition sub_flags :: "bool \<Rightarrow> stream_subscriber \<Rightarrow> bool" where
  "sub_flags over sub \<longleftrightarrow>
     \<not> Crashed sub \<and> (ChClosed sub \<longleftrightarrow> SubClosed sub \<and> Drainer sub \<noteq> ClosingCh) \<and> (Listed sub \<longleftrightarrow> \<not> SubClosed sub)
     \<and> (Draining sub \<longleftrightarrow> Drainer sub \<noteq> NoDrainer \<and> Drainer sub \<noteq> ClosingCh) \<and> (Drainer sub = ClosingCh \<longrightarrow> SubClosed sub)
     \<and> (Draining sub \<longrightarrow> \<not> SubClosed sub) \<and> (Detached sub \<longrightarrow> Draining sub \<or> SubClosed sub)
     \<and> (\<forall>f. Drainer sub = Sending f \<longrightarrow> Backlog sub \<noteq> [] \<and> hd (Backlog sub) = f) \<and> (Drainer sub = Popping \<longrightarrow> Backlog sub \<noteq> [])
     \<and> (Backlog sub \<noteq> [] \<longrightarrow> Draining sub) \<and> (\<forall>m. Drainer sub = Marking m \<longrightarrow> FrKind m = StreamFrameEventsLost)
     \<and> LostSent sub \<le> Lost sub \<and> length (SubCh sub) \<le> streamSubscriberBuffer \<and> (SubClosed sub \<and> \<not> Detached sub \<longrightarrow> over)"

definition sub_content :: "stream_frame list \<Rightarrow> stream_subscriber \<Rightarrow> bool" where
  "sub_content due sub \<longleftrightarrow> subseq (unmarked_frames (stream_of sub)) due
     \<and> (\<not> Detached sub \<longrightarrow> reliable (stream_of sub) = reliable due \<and> event_count due \<le> event_count (stream_of sub) + Lost sub)"

lemma marker_kind [simp]: "FrKind (lost_marker n) = StreamFrameEventsLost"
  by (simp add: lost_marker_def)

lemma marker_droppable [simp]: "streamFrameDroppable (lost_marker n)"
  by (simp add: streamFrameDroppable_def)

lemma event_count_simps [simp]:
  "event_count [] = 0" "event_count (xs @ ys) = event_count xs + event_count ys"
  "event_count (f # fs) = (if FrKind f = StreamFrameEvent then 1 else 0) + event_count fs"
  by (simp_all add: event_count_def)

lemma terminal_reliable: "streamFrameTerminal frame \<Longrightarrow> \<not> streamFrameDroppable frame"
  by (auto simp: streamFrameTerminal_def streamFrameDroppable_def)

section \<open>Every step keeps the agreement\<close>

lemmas sub_defs = sub_flags_def ch_send_def ch_close_def

lemma detachLocked_flags: "sub_flags over sub \<Longrightarrow> sub_flags over (detachLocked sub)"
  by (auto simp: sub_defs detachLocked_def)

lemma detachLocked_content: "sub_content due sub \<Longrightarrow> sub_content due (detachLocked sub)"
  by (auto simp: sub_content_def stream_of_def pending_def detachLocked_def ch_close_def)

lemma finish_flags: "sub_flags over sub \<Longrightarrow> sub_flags True (finishSubscriberLocked sub)"
  by (auto simp: sub_defs finishSubscriberLocked_def ch_room_def Let_def)

lemma finish_content: "sub_flags over sub \<Longrightarrow> sub_content due sub \<Longrightarrow> sub_content due (finishSubscriberLocked sub)"
  by (auto simp: sub_flags_def sub_content_def stream_of_def pending_def finishSubscriberLocked_def ch_send_def ch_close_def Let_def)

lemma sub_flags_mono: "sub_flags over sub \<Longrightarrow> (over \<longrightarrow> over') \<Longrightarrow> sub_flags over' sub"
  by (auto simp: sub_flags_def)

text \<open>The delivery of a frame before the end of the stream is looked at.\<close>

definition hand_over :: "stream_frame \<Rightarrow> stream_subscriber \<Rightarrow> stream_subscriber" where
  "hand_over frame sub =
     (if Backlog sub \<noteq> [] \<or> Draining sub then
        (if streamFrameDroppable frame then sub\<lparr>Lost := Lost sub + 1\<rparr> else sub\<lparr>Backlog := Backlog sub @ [frame]\<rparr>)
      else if ch_room sub then ch_send frame sub
      else if streamFrameDroppable frame then sub\<lparr>Lost := Lost sub + 1\<rparr>
      else sub\<lparr>Backlog := Backlog sub @ [frame], Draining := True, Drainer := Looking\<rparr>)"

lemma deliverLocked_alt:
  "deliverLocked frame sub = (if attached sub \<and> shown (SubPreset sub) frame
     then (if streamFrameTerminal frame then finishSubscriberLocked (hand_over frame sub) else hand_over frame sub) else sub)"
  by (simp add: deliverLocked_def hand_over_def attached_def Let_def)

lemma hand_over_flags: "sub_flags over sub \<Longrightarrow> attached sub \<Longrightarrow> sub_flags over (hand_over frame sub)"
  by (cases "Backlog sub = []"; cases "Drainer sub"; cases "streamFrameDroppable frame"; cases "ch_room sub")
    (auto simp: sub_defs hand_over_def attached_def ch_room_def)

lemma subseq_prefixD: "subseq (xs @ ys) zs \<Longrightarrow> subseq xs zs"
  by (metis list_emb_appendD list_emb_prefix)

lemma hand_over_content:
  assumes "sub_flags over sub" "attached sub" "sub_content due sub"
  shows "sub_content (due @ [frame]) (hand_over frame sub)"
proof -
  have sub: "subseq (unmarked_frames (stream_of sub)) due" "reliable (stream_of sub) = reliable due"
    "event_count due \<le> event_count (stream_of sub) + Lost sub"
    using assms by (auto simp: sub_content_def attached_def)
  have grown: "sub_content (due @ [frame]) sub'" if "stream_of sub' = stream_of sub @ [frame]" "Lost sub' = Lost sub" for sub'
    using sub that by (simp add: sub_content_def list_emb_prefix)
  have dropped: "sub_content (due @ [frame]) sub'" if "stream_of sub' = stream_of sub" "Lost sub' = Lost sub + 1" "streamFrameDroppable frame" for sub'
    using sub that by (simp add: sub_content_def list_emb_prefix)
  have tails: "Backlog sub \<noteq> [] \<Longrightarrow> tl (Backlog sub @ [frame]) = tl (Backlog sub) @ [frame]" by (cases "Backlog sub") auto
  consider (queue) "Backlog sub \<noteq> [] \<or> Draining sub" | (room) "Backlog sub = []" "\<not> Draining sub" "ch_room sub"
    | (full) "Backlog sub = []" "\<not> Draining sub" "\<not> ch_room sub" by blast
  then show ?thesis
  proof cases
    case queue
    show ?thesis
    proof (cases "streamFrameDroppable frame")
      case True
      with queue show ?thesis by (intro dropped) (simp_all add: hand_over_def stream_of_def pending_def)
    next
      case False
      with queue assms(1) tails show ?thesis by (intro grown) (auto simp: hand_over_def stream_of_def pending_def sub_flags_def)
    qed
  next
    case room
    with assms(1) show ?thesis by (intro grown) (auto simp: hand_over_def stream_of_def pending_def sub_flags_def ch_send_def)
  next
    case full
    show ?thesis
    proof (cases "streamFrameDroppable frame")
      case True
      with full show ?thesis by (intro dropped) (simp_all add: hand_over_def stream_of_def pending_def)
    next
      case False
      with full assms(1) show ?thesis by (intro grown) (auto simp: hand_over_def stream_of_def pending_def sub_flags_def)
    qed
  qed
qed

lemma deliver_flags: "sub_flags over sub \<Longrightarrow> sub_flags (over \<or> streamFrameTerminal frame) (deliverLocked frame sub)"
  using hand_over_flags [of over sub frame] finish_flags [of over "hand_over frame sub"]
  by (auto simp: deliverLocked_alt intro: sub_flags_mono)

lemma deliver_content:
  assumes "sub_flags over sub" "sub_content due sub"
  shows "sub_content (if attached sub \<and> shown (SubPreset sub) frame then due @ [frame] else due) (deliverLocked frame sub)"
  using assms hand_over_flags [OF assms(1)] hand_over_content [OF assms(1) _ assms(2)]
  by (auto simp: deliverLocked_alt intro: finish_content)

lemma drain_flags: "drainSubscriber over sub sub' \<Longrightarrow> sub_flags over sub \<Longrightarrow> sub_flags over sub'"
proof (induction rule: drainSubscriber.induct)
  case (look sub)
  then show ?case
    by (cases "Backlog sub = []"; cases "Detached sub"; cases "LostSent sub < Lost sub"; cases over)
      (simp_all add: sub_flags_def drainer_look_def Let_def)
next
  case (shut sub)
  then show ?case by (auto simp: sub_defs)
qed (simp_all add: sub_defs ch_room_def)

lemma drain_content: "drainSubscriber over sub sub' \<Longrightarrow> sub_flags over sub \<Longrightarrow> sub_content due sub \<Longrightarrow> sub_content due sub'"
proof (induction rule: drainSubscriber.induct)
  case (look sub)
  then have c: "subseq (unmarked_frames (Taken sub @ SubCh sub)) due" "sub_content due sub"
    using subseq_prefixD [of "unmarked_frames (Taken sub @ SubCh sub)" "unmarked_frames (Backlog sub)" due]
    by (simp_all add: sub_content_def stream_of_def pending_def)
  with look(1) show ?case
    by (cases "Backlog sub = []"; cases "Detached sub") (simp_all add: drainer_look_def sub_content_def stream_of_def pending_def Let_def)
next
  case (sent sub frame)
  then show ?case by (cases "Backlog sub") (auto simp: sub_flags_def sub_content_def stream_of_def pending_def ch_send_def)
next
  case (marked sub m)
  then show ?case by (auto simp: sub_flags_def sub_content_def stream_of_def pending_def ch_send_def streamFrameDroppable_def)
qed (auto simp: sub_content_def stream_of_def pending_def ch_close_def)

lemma consume_flags: "sub_flags over sub \<Longrightarrow> sub_flags over (consume sub)"
  by (auto simp: sub_flags_def consume_def split: list.split)

lemma consume_content: "sub_content due sub \<Longrightarrow> sub_content due (consume sub)"
  by (auto simp: sub_content_def consume_def stream_of_def pending_def split: list.split)

lemma new_subscriber_flags: "sub_flags over (new_subscriber preset s)"
  by (simp add: sub_flags_def new_subscriber_def Let_def)

lemma new_subscriber_content:
  assumes "ring_of published s"
  shows "sub_content (filter (shown preset) (recent published)) (new_subscriber preset s)"
proof -
  let ?due = "filter (shown preset) (recent published)"
  have "ringFrames s = recent published" using assms by (simp add: ring_of_def recent_def)
  moreover define ms where "ms = (if 0 < RingEvicted s then [lost_marker (RingEvicted s)] else [])"
  ultimately have ms: "stream_of (new_subscriber preset s) = ms @ ?due" "\<forall>m\<in>set ms. FrKind m = StreamFrameEventsLost"
    by (simp_all add: stream_of_def pending_def new_subscriber_def Let_def)
  then have "unmarked_frames ms = []" "reliable ms = []" "event_count ms = 0" "Lost (new_subscriber preset s) = 0"
    by (auto simp: streamFrameDroppable_def event_count_def new_subscriber_def Let_def filter_empty_conv)
  with ms(1) subseq_filter_left [of "\<lambda>f. FrKind f \<noteq> StreamFrameEventsLost" ?due] show ?thesis
    by (simp add: sub_content_def)
qed

section \<open>Every reachable hub\<close>

definition session_ok :: "bool \<Rightarrow> stream_frame list \<Rightarrow> (nat \<Rightarrow> stream_frame list) \<Rightarrow> stream_session \<Rightarrow> bool" where
  "session_ok closed published due s \<longleftrightarrow> ring_of published s
     \<and> (\<forall>j < length (Subs s). sub_flags (SesTerminal s \<or> closed) (Subs s ! j) \<and> sub_content (due j) (Subs s ! j))"

definition hub_ok :: "stream_hub \<Rightarrow> (nat \<Rightarrow> stream_frame list) \<Rightarrow> owed \<Rightarrow> bool" where
  "hub_ok h p g \<longleftrightarrow>
     (\<forall>runID sid. Live h runID = Some sid \<longrightarrow> sid < length (Sessions h) \<and> SesRunID (Sessions h ! sid) = runID)
     \<and> (\<forall>sid < length (Sessions h). session_ok (HubClosed h) (p sid) (g sid) (Sessions h ! sid))
     \<and> (\<forall>sid \<ge> length (Sessions h). p sid = [])"

lemma hub_okE:
  assumes "hub_ok h p g"
  obtains "\<And>runID sid. Live h runID = Some sid \<Longrightarrow> sid < length (Sessions h) \<and> SesRunID (Sessions h ! sid) = runID"
    and "\<And>sid. sid < length (Sessions h) \<Longrightarrow> session_ok (HubClosed h) (p sid) (g sid) (Sessions h ! sid)"
    and "\<And>sid. length (Sessions h) \<le> sid \<Longrightarrow> p sid = []"
  using assms by (auto simp: hub_ok_def)

lemma ring_of_subs [simp]: "ring_of p (s\<lparr>Subs := subs\<rparr>) = ring_of p s" "ring_of p (s\<lparr>GraceTimer := b\<rparr>) = ring_of p s"
  "ring_of p (s\<lparr>SesTerminal := b\<rparr>) = ring_of p s"
  by (simp_all add: ring_of_def ringFrames_def)

lemma new_session_ok: "session_ok closed [] due (new_session runID)"
  by (simp add: session_ok_def ring_of_def new_session_def ringFrames_def)

lemma session_ok_sub:
  assumes "session_ok closed published due s" "j < length (Subs s)"
    and "sub_flags (SesTerminal s \<or> closed) sub" "sub_content (due j) sub"
  shows "session_ok closed published due (s\<lparr>Subs := (Subs s)[j := sub]\<rparr>)"
  using assms by (auto simp: session_ok_def nth_list_update)

lemma drop_session_ok: "session_ok closed published due s \<Longrightarrow> session_ok closed' published due (drop_session s) \<or> closed \<and> \<not> closed'"
  unfolding session_ok_def drop_session_def each_listed_def
  by (auto intro: detachLocked_flags detachLocked_content sub_flags_mono)

lemma drop_session_run [simp]: "SesRunID (drop_session s) = SesRunID s"
  by (simp add: drop_session_def each_listed_def)

lemma put_session_ok:
  assumes "hub_ok h p g" "sid < length (Sessions h)" "session_ok (HubClosed h) (p' sid) (g' sid) s" "SesRunID s = SesRunID (Sessions h ! sid)"
    and "\<And>i. i \<noteq> sid \<Longrightarrow> p' i = p i \<and> g' i = g i"
  shows "hub_ok (put_session sid s h) p' g'"
  using assms unfolding hub_ok_def put_session_def by (auto simp: nth_list_update)

lemma add_session_ok: "hub_ok h p g \<Longrightarrow> hub_ok (add_session runID h) p g"
  unfolding hub_ok_def add_session_def
  by (auto simp: nth_append new_session_ok less_Suc_eq) (simp_all add: new_session_def)

lemma live_sessionD: "hub_ok h p g \<Longrightarrow> live_session h runID = Some (sid, s) \<Longrightarrow>
    Live h runID = Some sid \<and> sid < length (Sessions h) \<and> s = Sessions h ! sid \<and> SesRunID s = runID \<and> session_ok (HubClosed h) (p sid) (g sid) s"
  by (auto simp: live_session_def hub_ok_def)

lemma drop_live_ok: "hub_ok h p g \<Longrightarrow> live_session h runID = Some (sid, s) \<Longrightarrow> hub_ok (put_session sid (drop_session s) h) p g"
  using drop_session_ok [of "HubClosed h" "p sid" "g sid" s "HubClosed h"]
  by (intro put_session_ok) (auto dest: live_sessionD)

lemma ringAppend_other [simp]:
  "Subs (ringAppend frame s) = Subs s" "SesTerminal (ringAppend frame s) = SesTerminal s" "SesRunID (ringAppend frame s) = SesRunID s"
  by (simp_all add: ringAppend_def Let_def)

lemma publish_ok:
  assumes "hub_ok h p g" "\<not> HubClosed h" "live_session h runID = Some (sid, s)"
  shows "hub_ok (hub_publish runID frame h) (p(sid := p sid @ [frame])) (owe frame sid s g)"
proof -
  from live_sessionD [OF assms(1,3)] have s: "sid < length (Sessions h)" "s = Sessions h ! sid" "session_ok (HubClosed h) (p sid) (g sid) s" by auto
  define s1 where "s1 = each_listed (deliverLocked frame) (ringAppend frame s)"
  define s2 where "s2 = (if streamFrameTerminal frame \<and> \<not> SesTerminal s1 then s1\<lparr>SesTerminal := True, GraceTimer := True\<rparr> else s1)"
  have subs: "Subs s2 = map (deliverLocked frame) (Subs s)"
  proof -
    have "deliverLocked frame sub = sub" if "\<not> Listed sub" "sub \<in> set (Subs s)" for sub
      using that s(3) by (auto simp: session_ok_def sub_flags_def in_set_conv_nth deliverLocked_def)
    then show ?thesis by (auto simp: s2_def s1_def each_listed_def)
  qed
  have ends: "SesTerminal s2 \<longleftrightarrow> SesTerminal s \<or> streamFrameTerminal frame" "SesRunID s2 = SesRunID s"
    by (auto simp: s2_def s1_def each_listed_def)
  have "ring_of (p sid @ [frame]) s2"
    using ringAppend_ring [of "p sid" s frame] s(3) by (simp add: session_ok_def s2_def s1_def each_listed_def)
  moreover have "sub_flags (SesTerminal s2 \<or> HubClosed h) (Subs s2 ! j) \<and> sub_content (owe frame sid s g sid j) (Subs s2 ! j)" if "j < length (Subs s2)" for j
  proof -
    from that s(3) have j: "j < length (Subs s)" "sub_flags (SesTerminal s \<or> HubClosed h) (Subs s ! j)" "sub_content (g sid j) (Subs s ! j)"
      by (auto simp: subs session_ok_def)
    then show ?thesis using deliver_flags [OF j(2), of frame] deliver_content [OF j(2,3), of frame]
      by (auto simp: subs ends owe_def intro: sub_flags_mono)
  qed
  ultimately have "session_ok (HubClosed h) (p sid @ [frame]) (owe frame sid s g sid) s2" by (simp add: session_ok_def)
  then have "hub_ok (put_session sid s2 h) (p(sid := p sid @ [frame])) (owe frame sid s g)"
    using assms(1) s ends by (intro put_session_ok [OF assms(1)]) (auto simp: owe_def)
  moreover have "hub_publish runID frame h = put_session sid s2 h"
    using assms(2,3) unfolding hub_publish_def s2_def s1_def Let_def by simp
  ultimately show ?thesis by simp
qed

lemma attach_ok:
  assumes "hub_ok h p g" "hub_attach runID preset h = (h', Inr (sid, j))"
  shows "hub_ok h' p (g(sid := (g sid)(j := filter (shown preset) (recent (p sid)))))"
proof -
  from assms(2) obtain s where s: "live_session h runID = Some (sid, s)" "j = length (Subs s)"
    "h' = put_session sid (s\<lparr>Subs := Subs s @ [new_subscriber preset s]\<rparr>) h"
    by (auto simp: hub_attach_def split: if_splits option.splits)
  from live_sessionD [OF assms(1) s(1)] have l: "sid < length (Sessions h)" "s = Sessions h ! sid" "session_ok (HubClosed h) (p sid) (g sid) s" by auto
  then have "session_ok (HubClosed h) (p sid) ((g sid)(j := filter (shown preset) (recent (p sid)))) (s\<lparr>Subs := Subs s @ [new_subscriber preset s]\<rparr>)"
    by (auto simp: session_ok_def s(2) nth_append less_Suc_eq new_subscriber_flags intro: new_subscriber_content)
  with l show ?thesis unfolding s(3) by (intro put_session_ok [OF assms(1)]) auto
qed

lemma put_sub_ok:
  assumes "hub_ok h p g" "sid < length (Sessions h)" "j < length (Subs (Sessions h ! sid))"
    and "sub_flags (SesTerminal (Sessions h ! sid) \<or> HubClosed h) sub" "sub_content (g sid j) sub"
  shows "hub_ok (put_sub sid j sub h) p g"
  unfolding put_sub_def Let_def
  by (rule put_session_ok [OF assms(1,2)]) (use assms in \<open>auto simp: hub_ok_def intro: session_ok_sub\<close>)

lemma hub_close_ok:
  assumes "hub_ok h p g"
  shows "hub_ok (hub_close h) p g"
proof (cases "HubClosed h")
  case False
  have "session_ok True (p sid) (g sid) (Sessions (hub_close h) ! sid)" if "sid < length (Sessions h)" for sid
  proof -
    from that assms False have s: "session_ok False (p sid) (g sid) (Sessions h ! sid)" by (simp add: hub_ok_def)
    then have "session_ok True (p sid) (g sid) (Sessions h ! sid)" by (auto simp: session_ok_def intro: sub_flags_mono)
    with drop_session_ok [OF s, of True] that False show ?thesis by (simp add: hub_close_def)
  qed
  with assms False show ?thesis by (simp add: hub_ok_def hub_close_def)
qed (use assms in \<open>simp add: hub_close_def\<close>)

lemma hub_run_ok: "hub_run h p g \<Longrightarrow> hub_ok h p g"
proof (induction rule: hub_run.induct)
  case start
  show ?case by (simp add: hub_ok_def newStreamHub_def)
next
  case (register h p g runID)
  then show ?case by (auto simp: hub_register_def Let_def split: option.split intro!: add_session_ok intro: drop_live_ok)
next
  case (unregister h p g runID sid)
  show ?case
  proof (cases "Live h runID = Some sid")
    case True
    with drop_live_ok [OF unregister(2), of runID sid "Sessions h ! sid"]
    have "hub_ok (put_session sid (drop_session (Sessions h ! sid)) h) p g" by (simp add: live_session_def)
    with True show ?thesis by (auto simp: hub_unregister_def hub_ok_def put_session_def)
  qed (use unregister in \<open>simp add: hub_unregister_def\<close>)
next
  case (publish h p g runID sid s frame)
  then show ?case by (intro publish_ok)
next
  case (unheard h p g runID frame)
  then show ?case by (auto simp: hub_publish_def)
next
  case (attach h p g runID preset h' sid j)
  then show ?case by (intro attach_ok)
next
  case (unattached h p g runID preset h' e)
  then show ?case by (auto simp: hub_attach_def split: if_splits option.splits)
next
  case (detach h p g runID subID)
  show ?case
  proof (cases "live_session h runID")
    case (Some ss)
    obtain sid s where ss: "ss = (sid, s)" by (cases ss)
    from live_sessionD [OF detach(2) Some [unfolded ss]] have s: "sid < length (Sessions h)" "s = Sessions h ! sid" "session_ok (HubClosed h) (p sid) (g sid) s"
      by auto
    then have "hub_ok (put_sub sid subID (detachLocked (Subs s ! subID)) h) p g" if "subID < length (Subs s)"
      using that by (intro put_sub_ok [OF detach(2)]) (auto simp: session_ok_def intro: detachLocked_flags detachLocked_content)
    with Some ss s detach(2) show ?thesis by (simp add: hub_detach_def put_sub_def Let_def)
  qed (use detach in \<open>simp add: hub_detach_def\<close>)
next
  case (reactivate h p g runID)
  then show ?case by (auto simp: hub_reactivate_def split: option.split intro!: add_session_ok intro: drop_live_ok)
next
  case (close h p g)
  then show ?case by (intro hub_close_ok)
next
  case (drain h p g sid j sub)
  then have "sub_flags (SesTerminal (Sessions h ! sid) \<or> HubClosed h) (Subs (Sessions h ! sid) ! j)" "sub_content (g sid j) (Subs (Sessions h ! sid) ! j)"
    by (auto simp: hub_ok_def session_ok_def)
  with drain show ?case by (intro put_sub_ok) (auto intro: drain_flags drain_content)
next
  case (take h p g sid j)
  then show ?case by (intro put_sub_ok) (auto simp: hub_ok_def session_ok_def intro: consume_flags consume_content)
qed

section \<open>What subscribers can rely on\<close>

text \<open>
  C15: an attached subscriber gets the stream. However publishers, drainers, consumers and other subscribers interleave, what a subscriber has
  received, has in its channel and will be sent from its backlog contains every token, done and error frame it is owed, in order and once; the
  events among it are owed ones in their order, and those missing are at most the ones counted as lost. When the channel was closed without a
  detach, the session is over and nothing is left in the backlog.
\<close>

theorem subscriber_gets_stream:
  assumes "hub_run h p g" and "sid < length (Sessions h)" and "j < length (Subs (Sessions h ! sid))"
    and "sub = Subs (Sessions h ! sid) ! j" and "\<not> Detached sub"
  shows "reliable (Taken sub @ SubCh sub @ pending sub) = reliable (g sid j)
    \<and> subseq (unmarked_frames (Taken sub @ SubCh sub @ pending sub)) (g sid j)
    \<and> event_count (g sid j) \<le> event_count (Taken sub @ SubCh sub @ pending sub) + Lost sub
    \<and> (SubClosed sub \<longrightarrow> pending sub = [] \<and> (SesTerminal (Sessions h ! sid) \<or> HubClosed h))"
proof -
  from hub_run_ok [OF assms(1)] assms(2-4)
  have "sub_flags (SesTerminal (Sessions h ! sid) \<or> HubClosed h) sub" "sub_content (g sid j) sub"
    by (auto simp: hub_ok_def session_ok_def)
  with assms(5) show ?thesis by (auto simp: sub_content_def stream_of_def sub_flags_def pending_def)
qed

text \<open>
  C17: the hub never panics and never stalls a subscriber. In every interleaving no goroutine sends on a closed channel, closes one twice or pops an
  empty backlog; channels stay within their bound, and whenever a backlog is not empty a drainer is at work on it.
\<close>

theorem hub_never_panics:
  assumes "hub_run h p g" and "sid < length (Sessions h)" and "j < length (Subs (Sessions h ! sid))"
  shows "\<not> Crashed (Subs (Sessions h ! sid) ! j) \<and> length (SubCh (Subs (Sessions h ! sid) ! j)) \<le> streamSubscriberBuffer
    \<and> (Backlog (Subs (Sessions h ! sid) ! j) \<noteq> [] \<longrightarrow> Drainer (Subs (Sessions h ! sid) ! j) \<noteq> NoDrainer \<and> Drainer (Subs (Sessions h ! sid) ! j) \<noteq> ClosingCh)"
  using hub_run_ok [OF assms(1)] assms(2,3) by (auto simp: hub_ok_def session_ok_def sub_flags_def)

text \<open>The ring of a session holds the last frames published to it, and counts the others.\<close>

lemma ring_replays_recent:
  assumes "hub_run h p g" "sid < length (Sessions h)"
  shows "ringFrames (Sessions h ! sid) = recent (p sid) \<and> RingEvicted (Sessions h ! sid) = int (length (p sid) - streamHubRingCapacity)"
  using hub_run_ok [OF assms(1)] assms(2) by (simp add: hub_ok_def session_ok_def ring_of_def recent_def)

section \<open>A sample run\<close>

definition token_frame :: stream_frame where
  "token_frame = zero_frame\<lparr>FrKind := StreamFrameToken, FrChunk := Some ''hi''\<rparr>"

definition end_frame :: stream_frame where
  "end_frame = zero_frame\<lparr>FrKind := StreamFrameDone\<rparr>"

lemma sample_frames [simp]:
  "\<not> streamFrameDroppable token_frame" "\<not> streamFrameTerminal token_frame" "shown preset token_frame" "\<not> streamFrameDroppable end_frame"
  "streamFrameTerminal end_frame" "shown preset end_frame"
  by (simp_all add: token_frame_def end_frame_def zero_frame_def streamFrameDroppable_def streamFrameTerminal_def shown_def)

definition opened :: stream_hub where
  "opened = fst (hub_register ''r'' newStreamHub)"

definition joined :: stream_hub where
  "joined = fst (hub_attach ''r'' EventFilterDiagnostic opened)"

definition heard :: stream_hub where
  "heard = hub_publish ''r'' token_frame joined"

definition sub_after :: "stream_frame list \<Rightarrow> stream_subscriber" where
  "sub_after frames = \<lparr>SubCh = frames, SubPreset = EventFilterDiagnostic, Backlog = [], Lost = 0, LostSent = 0, Draining = False, Detached = False,
     SubClosed = False, ChClosed = False, Listed = True, Drainer = NoDrainer, Taken = [], Crashed = False\<rparr>"

lemma opened_hub: "opened = \<lparr>Sessions = [new_session ''r''], Live = [''r'' \<mapsto> 0], HubClosed = False\<rparr>"
  by (simp add: opened_def hub_register_def newStreamHub_def live_session_def add_session_def Let_def)

lemma first_subscriber: "new_subscriber EventFilterDiagnostic (new_session run) = sub_after []"
  by (simp add: new_subscriber_def new_session_def ringFrames_def sub_after_def Let_def)

lemma attach_opened:
  "hub_attach ''r'' EventFilterDiagnostic opened = (\<lparr>Sessions = [(new_session ''r'')\<lparr>Subs := [sub_after []]\<rparr>], Live = [''r'' \<mapsto> 0], HubClosed = False\<rparr>, Inr (0, 0))"
  by (simp add: opened_hub hub_attach_def live_session_def put_session_def first_subscriber) (simp add: new_session_def)

lemma joined_hub: "joined = \<lparr>Sessions = [(new_session ''r'')\<lparr>Subs := [sub_after []]\<rparr>], Live = [''r'' \<mapsto> 0], HubClosed = False\<rparr>"
  by (simp add: joined_def attach_opened)

lemma deliver_sample: "deliverLocked token_frame (sub_after []) = sub_after [token_frame]"
  by (simp add: deliverLocked_def sub_after_def ch_send_def ch_room_def streamSubscriberBuffer_def)

lemma heard_hub:
  "heard = \<lparr>Sessions = [(ringAppend token_frame ((new_session ''r'')\<lparr>Subs := [sub_after []]\<rparr>))\<lparr>Subs := [sub_after [token_frame]]\<rparr>], Live = [''r'' \<mapsto> 0], HubClosed = False\<rparr>"
  by (simp add: heard_def joined_hub hub_publish_def live_session_def put_session_def each_listed_def deliver_sample Let_def)
    (simp add: sub_after_def)

lemma heard_run: "\<exists>p g. hub_run heard p g \<and> g 0 0 = [token_frame]"
proof -
  have "hub_run opened (\<lambda>_. []) (\<lambda>_ _. [])" unfolding opened_def by (intro hub_run.intros)
  from hub_run.attach [OF this attach_opened] have j: "hub_run joined (\<lambda>_. []) (\<lambda>_ _. [])"
    by (simp add: joined_hub recent_def fun_upd_def cong: if_cong)
  have "live_session joined ''r'' = Some (0, (new_session ''r'')\<lparr>Subs := [sub_after []]\<rparr>)" by (simp add: joined_hub live_session_def)
  from hub_run.publish [OF j _ this, of token_frame]
  have "hub_run heard ((\<lambda>_. [])(0 := [] @ [token_frame])) (owe token_frame 0 ((new_session ''r'')\<lparr>Subs := [sub_after []]\<rparr>) (\<lambda>_ _. []))"
    by (simp add: heard_def joined_hub)
  moreover have "owe token_frame 0 ((new_session ''r'')\<lparr>Subs := [sub_after []]\<rparr>) (\<lambda>_ _. []) 0 0 = [token_frame]"
    by (simp add: owe_def attached_def sub_after_def)
  ultimately show ?thesis by blast
qed

theorem subscriber_gets_stream_witness:
  "\<exists>p g. hub_run heard p g \<and> reliable (Taken (sub_after [token_frame]) @ SubCh (sub_after [token_frame]) @ pending (sub_after [token_frame])) = reliable (g 0 0)
     \<and> g 0 0 = [token_frame]"
proof -
  obtain p g where r: "hub_run heard p g" "g 0 0 = [token_frame]" using heard_run by auto
  have "sub_after [token_frame] = Subs (Sessions heard ! 0) ! 0" "\<not> Detached (sub_after [token_frame])" "0 < length (Sessions heard)"
    "0 < length (Subs (Sessions heard ! 0))"
    by (simp_all add: heard_hub sub_after_def)
  with subscriber_gets_stream [OF r(1), of 0 0 "sub_after [token_frame]"]
  have "reliable (Taken (sub_after [token_frame]) @ SubCh (sub_after [token_frame]) @ pending (sub_after [token_frame])) = reliable (g 0 0)" by blast
  with r show ?thesis by blast
qed

theorem hub_never_panics_witness: "\<not> Crashed (Subs (Sessions heard ! 0) ! 0)"
proof -
  obtain p g where r: "hub_run heard p g" using heard_run by auto
  show ?thesis using hub_never_panics [OF r, of 0 0] by (simp add: heard_hub)
qed

section \<open>Two defects\<close>

text \<open>
  \<^verbatim>\<open>StreamRun\<close> registers its session before it knows that the run can start. For a run that is already streaming the registration replaces the live
  session; when the start then fails, the new session is removed, and the run goes on with nobody listening and nothing to attach to.
\<close>

theorem failed_start_ends_live_stream:
  assumes "live_session h runID = Some (sid, s)" and "sid < length (Sessions h)" and "\<not> HubClosed h"
    and "hub_register runID h = (h1, Some sid1)"
  shows "Live (hub_unregister runID sid1 h1) runID = None
    \<and> (\<forall>sub \<in> set (Subs (Sessions (hub_unregister runID sid1 h1) ! sid)). Listed sub \<longrightarrow> \<not> attached sub)"
proof -
  from assms have h1: "h1 = add_session runID (put_session sid (drop_session s) h)" "sid1 = length (Sessions h)"
    by (auto simp: hub_register_def Let_def)
  then have "Sessions (hub_unregister runID sid1 h1) ! sid = drop_session s"
    using assms(2) by (simp add: hub_unregister_def put_session_def add_session_def nth_append)
  moreover have "Listed sub \<longrightarrow> \<not> attached sub" if "sub \<in> set (Subs (drop_session s))" for sub
    using that by (auto simp: attached_def drop_session_def each_listed_def detachLocked_def ch_close_def split: if_splits)
  ultimately show ?thesis using h1 by (simp add: hub_unregister_def put_session_def add_session_def)
qed

text \<open>
  Subscribers are numbered from 0 in every session, and \<^verbatim>\<open>detach\<close> looks the number up in the session that is live now. A slow subscriber of a session
  that was replaced is detached but not closed while its drainer works, so its context is still watched; cancelling that context then detaches
  the subscriber with the same number of the new session.
\<close>

theorem stale_detach_hits_new_session:
  assumes "live_session h runID = Some (sid, s)" and "sid < length (Sessions h)" and "SesTerminal s"
    and "0 < length (Subs s)" and "attached (Subs s ! 0)" and "Listed (Subs s ! 0)" and "Draining (Subs s ! 0)"
    and "hub_reactivate runID h = (h1, True)" and "hub_attach runID preset h1 = (h2, Inr (sid', j))"
  shows "j = 0 \<and> sid' \<noteq> sid \<and> \<not> SubClosed (Subs (Sessions h2 ! sid) ! 0) \<and> \<not> Detached (Subs (Sessions h2 ! sid') ! 0)
    \<and> Detached (Subs (Sessions (hub_detach runID 0 h2) ! sid') ! 0)"
proof -
  let ?n = "length (Sessions h)"
  from assms(1,3,8) have h1: "h1 = add_session runID (put_session sid (drop_session s) h)"
    by (auto simp: hub_reactivate_def split: if_splits)
  then have l: "live_session h1 runID = Some (?n, new_session runID)" "length (Sessions h1) = Suc ?n" "Sessions h1 ! sid = drop_session s"
    using assms(2) by (simp_all add: live_session_def add_session_def put_session_def nth_append)
  with assms(9) have h2: "sid' = ?n" "j = 0" "h2 = put_session ?n ((new_session runID)\<lparr>Subs := [new_subscriber preset (new_session runID)]\<rparr>) h1"
    by (auto simp: hub_attach_def new_session_def split: if_splits)
  have "\<not> SubClosed (Subs (drop_session s) ! 0)"
    using assms(4-7) by (simp add: drop_session_def each_listed_def detachLocked_def attached_def)
  moreover have "Sessions h2 ! sid = drop_session s" "Sessions h2 ! ?n = (new_session runID)\<lparr>Subs := [new_subscriber preset (new_session runID)]\<rparr>"
    "live_session h2 runID = Some (?n, (new_session runID)\<lparr>Subs := [new_subscriber preset (new_session runID)]\<rparr>)"
    using l assms(2) by (auto simp: h2(3) put_session_def live_session_def)
  moreover have "\<not> Detached (new_subscriber preset (new_session runID))" "Listed (new_subscriber preset (new_session runID))"
    "Detached (detachLocked (new_subscriber preset (new_session runID)))"
    by (simp_all add: new_subscriber_def Let_def detachLocked_def ch_close_def)
  ultimately show ?thesis using assms(2) h2 l by (simp add: hub_detach_def put_session_def)
qed

end
