(* ===== verification/Spec2Isabelle.thy ===== *)
theory Spec2Isabelle
  imports Checkpoint_History Run_Reaper Job_Worker Resume_Token Retention_Safety Workflow_Validated Workflow_Resume
    Ctx_Summary Ctx_Governance Agent_Plan Tool_Policy Tool_Schema Sql_Tool Stream_Hub
begin

text \<open>
  A model of agentflow-go, a framework that runs LLM agents and workflows with durable run state. The program keeps
  every run as a versioned snapshot in a repository, guards writers by leases with fencing tokens, runs work from a
  job queue, schedules workflow graphs, dispatches the tool calls of agents through a chain of gates, fits the
  conversation into the window of a model, and purges what has expired. Each theory below follows one part of the
  source, operation by operation, and proves what makes the part correct.

  \<^bold>\<open>Language and library.\<close>
  \<open>Go_Base\<close> has errors as values, contexts and clocks. \<open>Go_Text\<close> has strings as byte lists with the functions of
  \<^verbatim>\<open>strings\<close>, \<^verbatim>\<open>strconv\<close> and \<^verbatim>\<open>sort\<close> the code uses; \<open>Go_Unicode\<close> has UTF-8 runes and the script tables; \<open>Go_Json\<close> has decoded JSON
  values; \<open>Go_Crypto\<close> has SHA-256, HMAC, hex and base64. \<open>Safecall\<close> models \<^verbatim>\<open>internal/safecall\<close>: a call returns or panics.

  \<^bold>\<open>Runs.\<close>
  \<open>Identity\<close> (\<^verbatim>\<open>pkg/identity\<close>), \<open>Run_State\<close> (\<^verbatim>\<open>pkg/runstate\<close>: statuses, snapshots, tenants, fences) and \<open>Run_Repo\<close> (the in-memory
  repository) give the store. The locales \<open>cas_store\<close> and \<open>fenced_store\<close> state what a store with versions and fences
  promises and derive that no update is lost and that a superseded writer is rejected; they are interpreted on
  \<^verbatim>\<open>Save\<close>, \<^verbatim>\<open>SaveFenced\<close> and on saves through a token. \<open>Run_Lifecycle\<close> shows that finished runs stay finished.
  \<open>Checkpoint_History\<close> adds the history and the recording wrapper. \<open>Locker\<close> (\<^verbatim>\<open>internal/adapter/coordination/inmem\<close>) grants
  leases; its locale \<open>lease_service\<close> gives exclusion and increasing tokens. \<open>Run_Reaper\<close> (\<^verbatim>\<open>lease.go\<close>) has workers that hold and renew the
  lease of their run and the sweep that fails abandoned ones: live workers are spared, reaped ones locked out. \<open>Run_Terminal\<close>
  (\<^verbatim>\<open>runtime_terminal.go\<close>) completes, fails and cancels runs against other writers, and \<open>Run_Iteration\<close> (\<^verbatim>\<open>runtime_iteration.go\<close>) stores the
  conversation of an autonomous run at every step and folds it back after a crash. \<open>Resume_Token\<close> signs and verifies resume
  tokens under rotated keys.

  \<^bold>\<open>Jobs.\<close>
  \<open>Job_Queue\<close> and \<open>Job_Lifecycle\<close> model the in-memory queue; the locale \<open>lease_op\<close> is the contract the five operations
  of a lease holder share and is interpreted on each. \<open>Job_Worker\<close> models a leased job from start to settlement.

  \<^bold>\<open>Events, blobs, retention.\<close>
  \<open>Event_Types\<close>, \<open>Event_Store\<close> (event log and hub), \<open>Outbox\<close> (outbox table and relay), \<open>Stream_Hub\<close>
  (\<^verbatim>\<open>stream_hub.go\<close>: the frames of a streamed run to its subscribers, with every interleaving of their drainers), \<open>Blob_Store\<close> (tenant-scoped blobs),
  \<open>Retention\<close> and \<open>Retention_Safety\<close> (purges by age, policy and orphanhood).

  \<^bold>\<open>Workflows.\<close>
  \<open>Scenario\<close> is the declarative data model, \<open>Config_Validate\<close> all of \<^verbatim>\<open>Validate\<close>. \<open>Workflow_Graph\<close> has dependencies, ready
  nodes and rerun truncation; \<open>Workflow_Schedule\<close> the scheduler and its concurrent batches; \<open>Workflow_Validated\<close> that it
  finishes validated workflows. \<open>Workflow_Store\<close> and \<open>Workflow_Atomic\<close> have the runner's writes, in a world where other
  writers act at every step: the retry loops refine one atomic change. \<open>Workflow_Condition\<close> evaluates edge conditions and
  expands inputs, \<open>Tool_Approval\<close> is \<^verbatim>\<open>pkg/core/tool_approval.go\<close>, \<open>Workflow_Tool\<close> runs a tool node, \<open>Workflow_Exec\<close> the other
  node kinds, retries and loops, and \<open>Workflow_Resume\<close> resumption.

  \<^bold>\<open>Agents.\<close>
  \<open>Ctx_Trim\<close>, \<open>Ctx_Mask\<close>, \<open>Ctx_Transform\<close> and \<open>Ctx_Manager\<close> are \<^verbatim>\<open>pkg/contextwindow\<close>: the token estimate, trimming in groups of
  a tool call with its results, masking of old observations, truncation of tool output, the prepared window.
  \<open>Llm_Message\<close> has messages and tool-call normalization (\<^verbatim>\<open>pkg/llm\<close>, \<^verbatim>\<open>internal/adapter/llm/openai\<close>). \<open>Ctx_Governance\<close> and \<open>Ctx_Summary\<close> are
  \<^verbatim>\<open>runtime_context_governance.go\<close>: repair of pairing, eviction of stale turns, the summarizer. \<open>Tool_Tracker\<close> has the budgets of
  tool calls; its locale \<open>keyed_budget\<close> is interpreted for the count by tool and the count by input. \<open>Tool_Orch\<close> is
  \<^verbatim>\<open>pkg/toolorch\<close> (approval decisions, deny breaker) and the token usage. \<open>Runtime_Store\<close> is \<^verbatim>\<open>runtime_snapshot.go\<close>, \<open>Tool_Dispatch\<close> the
  dispatch of a tool call (\<^verbatim>\<open>inspectors.go\<close>, \<^verbatim>\<open>runtime_tools.go\<close>, \<^verbatim>\<open>pkg/toolinspect\<close>), and \<open>Tool_Gates\<close> proves what the gates guarantee.
  \<open>Run_Checkpoint\<close> (\<^verbatim>\<open>runtime_checkpoint.go\<close>) has the variables a paused agent leaves in its run, and \<open>Tool_Turn\<close> (\<^verbatim>\<open>runtime_tool_batch.go\<close>,
  \<^verbatim>\<open>runtime_continue.go\<close>) the decision to pause at a tool call, the pause and what a resume restores: a gated tool never runs
  without a remembered approval, and a resume goes on with exactly the turn that was saved. \<open>Tool_Policy\<close> (\<^verbatim>\<open>pkg/governance\<close>) has the side-effect
  and budget policies and the redactor of fields, \<open>Tool_Schema\<close> (\<^verbatim>\<open>pkg/toolschema\<close>) the validator of tool inputs, which decides a declarative
  meaning of schemas, \<open>Agent_Plan\<close> (\<^verbatim>\<open>runtime_plan.go\<close>, \<^verbatim>\<open>runtime_planning.go\<close>) the plan of an autonomous agent, its progress and
  replanning, and \<open>Sql_Tool\<close> the read-only SQL tool, whose scanner is compared with a reference lexer.

  \<^bold>\<open>Conventions.\<close>
  An \<^verbatim>\<open>error\<close> is a \<open>go_error option\<close> and a pair \<^verbatim>\<open>(T, error)\<close> a sum. A method is named after its type and itself. A
  pointer that is written through is an argument and a result. Readings of the clock are arguments, maps that are walked are
  association lists in the order of the walk, and string enumerations are datatypes with a constructor for other
  texts. Host code (executors, gates, policies, redactors, models, JSON codecs) is a parameter; what is assumed about
  it is a named hypothesis, and a witness instantiates it. Mutexes make an operation one step; what happens between two
  operations is an arbitrary sequence of steps of others.

  \<^bold>\<open>Bounds and fuel.\<close>
  Loops are structural or have a termination proof; the scheduler's loop ends because every round takes nodes off the
  pending ones. Retry loops take the code's own attempt limit as their recursion argument, so they need no extra fuel.
  Validation takes a fuel that bounds the nesting of subgraphs, and \<open>OutOfFuel\<close> stands for the unbounded recursion of the code. Token
  counts and attempt counters are unbounded integers: the code keeps them in 64 bits and far from the limit.

  \<^bold>\<open>Not modelled.\<close>
  SQL, Redis, file and object stores are executed by other systems; HTTP, CLI and UI adapters decode and route; the
  framework facade wires options. The agent loop over the model, memory and sessions, parallel groups, map, retrieval and
  supervisor nodes are not modelled. Starting and joining goroutines, spans, metrics and log lines are left out.
\<close>

end
